(* ===== verification/Prelude.thy ===== *)
theory Prelude
  imports Main "HOL-Library.Sublist" "HOL-Library.Multiset"
begin

text \<open>
  Shared vocabulary of the development: the collections of rewrite rules that the
  component theories fill, and generic facts about lists and options that several
  components use.  Nothing here is about the program itself.
\<close>

named_theorems rank_simps \<open>ranks of decisions and gate decisions\<close>
named_theorems peel_intros \<open>facts saying that a peeled argv is a suffix of the original one\<close>
named_theorems preflight_simps \<open>projections of one request's managed-policy preflight\<close>

type_synonym argv = "string list"

subsection \<open>Options\<close>

definition is_some :: "'a option \<Rightarrow> bool" where
  "is_some x \<longleftrightarrow> x \<noteq> None"

lemma is_some_simps [simp]: "is_some (Some x)" "\<not> is_some None"
  by (simp_all add: is_some_def)

lemma is_some_iff: "is_some x \<longleftrightarrow> (\<exists>y. x = Some y)"
  by (cases x) simp_all

definition get :: "'a list \<Rightarrow> nat \<Rightarrow> 'a option" where
  "get xs i = (if i < length xs then Some (xs ! i) else None)"

lemma get_simps [simp]:
  "get [] i = None"
  "get (x # xs) 0 = Some x"
  "get (x # xs) (Suc i) = get xs i"
  by (simp_all add: get_def)

lemma get_numeral [simp]: "get (x # xs) (numeral k) = get xs (pred_numeral k)"
  by (simp add: numeral_eq_Suc)

lemma get_one [simp]: "get (x # xs) 1 = get xs 0"
  by (simp add: get_def)

lemma get_Some_iff: "get xs i = Some x \<longleftrightarrow> i < length xs \<and> xs ! i = x"
  by (auto simp: get_def)

lemma get_0_eq: "get xs 0 = (case xs of [] \<Rightarrow> None | x # _ \<Rightarrow> Some x)"
  by (cases xs) simp_all

definition first :: "'a list \<Rightarrow> 'a option" where
  "first xs = (case xs of [] \<Rightarrow> None | x # _ \<Rightarrow> Some x)"

lemma first_simps [simp]: "first [] = None" "first (x # xs) = Some x"
  by (simp_all add: first_def)

lemma if_memI: "x \<in> S \<Longrightarrow> y \<in> S \<Longrightarrow> (if b then x else y) \<in> S"
  by simp

subsection \<open>Traversals that may fail\<close>

fun map_opt :: "('a \<Rightarrow> 'b option) \<Rightarrow> 'a list \<Rightarrow> 'b list option" where
  "map_opt f [] = Some []"
| "map_opt f (x # xs) =
     (case f x of
        None \<Rightarrow> None
      | Some y \<Rightarrow> (case map_opt f xs of None \<Rightarrow> None | Some ys \<Rightarrow> Some (y # ys)))"

lemma map_opt_Some_iff:
  "map_opt f xs = Some ys \<longleftrightarrow> list_all2 (\<lambda>x y. f x = Some y) xs ys"
proof (induction xs arbitrary: ys)
  case (Cons x xs)
  have "map_opt f (x # xs) = Some ys \<longleftrightarrow>
      (\<exists>z zs. f x = Some z \<and> map_opt f xs = Some zs \<and> ys = z # zs)"
    by (auto split: option.split)
  then show ?case by (auto simp: Cons.IH list_all2_Cons1)
qed auto

lemma map_opt_None_iff: "map_opt f xs = None \<longleftrightarrow> (\<exists>x \<in> set xs. f x = None)"
  by (induction xs) (auto split: option.splits)

lemma map_opt_length: "map_opt f xs = Some ys \<Longrightarrow> length ys = length xs"
  by (simp add: map_opt_Some_iff list_all2_lengthD)

lemma map_opt_eqI: "(\<And>x. x \<in> set ys \<Longrightarrow> f x = g x) \<Longrightarrow> map_opt f ys = map_opt g ys"
  by (induction ys) (simp_all split: option.split)

lemma map_opt_cong [fundef_cong]:
  "xs = ys \<Longrightarrow> (\<And>x. x \<in> set ys \<Longrightarrow> f x = g x) \<Longrightarrow> map_opt f xs = map_opt g ys"
  using map_opt_eqI[of ys f g] by simp

subsection \<open>Proper suffixes\<close>

lemma suffix_drop_Cons: "suffix ys xs \<Longrightarrow> suffix ys (x # xs)"
  by (rule suffix_ConsI)

lemma suffix_drop: "suffix (drop n xs) xs"
  by (rule suffix_drop)

lemma strict_suffix_length: "strict_suffix ys xs \<Longrightarrow> length ys < length xs"
  by (auto simp: strict_suffix_def suffix_def)

lemma suffix_same_length: "suffix ys xs \<Longrightarrow> length ys = length xs \<Longrightarrow> ys = xs"
  by (auto simp: suffix_def)

lemma suffix_eq_drop: "suffix ys xs \<Longrightarrow> drop (length xs - length ys) xs = ys"
  by (auto simp: suffix_def)

lemma suffix_in_set: "suffix ys xs \<Longrightarrow> y \<in> set ys \<Longrightarrow> y \<in> set xs"
  by (auto simp: suffix_def)

lemmas suffix_facts = suffix_order.refl suffix_order.trans suffix_drop_Cons

end
