(* ===== verification/Rust_Str.thy ===== *)
theory Rust_Str
  imports Prelude
begin

text \<open>
  The operations of Rust's \<open>str\<close> that the permission engine uses.  A \<open>str\<close> is its UTF-8
  byte sequence, so a \<^typ>\<open>string\<close> here is a list of bytes: \<open>length\<close> is \<open>str::len\<close>, byte
  offsets are list indices, and searching for an ASCII character is searching for its byte.
  \<open>trim\<close> removes the characters with the Unicode property White\_Space, recognised by
  their UTF-8 encodings of one, two or three bytes.

  UTF-8 as the standard library reads it: which byte sequences \<open>String::from_utf8\<close> accepts, and the replacement of
  the others by \<open>String::from_utf8_lossy\<close>.
\<close>

section \<open>Rust str\<close>

subsection \<open>Prefixes, suffixes, substrings\<close>

definition starts_with :: "string \<Rightarrow> string \<Rightarrow> bool" where
  "starts_with s p \<longleftrightarrow> take (length p) s = p"

definition ends_with :: "string \<Rightarrow> string \<Rightarrow> bool" where
  "ends_with s p \<longleftrightarrow> length p \<le> length s \<and> drop (length s - length p) s = p"

definition strip_prefix :: "string \<Rightarrow> string \<Rightarrow> string option" where
  "strip_prefix s p = (if starts_with s p then Some (drop (length p) s) else None)"

definition strip_suffix :: "string \<Rightarrow> string \<Rightarrow> string option" where
  "strip_suffix s p = (if ends_with s p then Some (take (length s - length p) s) else None)"

fun contains_str :: "string \<Rightarrow> string \<Rightarrow> bool" where
  "contains_str [] p \<longleftrightarrow> p = []"
| "contains_str (c # s) p \<longleftrightarrow> starts_with (c # s) p \<or> contains_str s p"

definition has_char :: "string \<Rightarrow> char \<Rightarrow> bool" where
  "has_char s c \<longleftrightarrow> c \<in> set s"

definition has_any :: "string \<Rightarrow> string \<Rightarrow> bool" where
  "has_any s cs \<longleftrightarrow> list_ex (\<lambda>c. c \<in> set cs) s"

lemma starts_with_iff: "starts_with s p \<longleftrightarrow> (\<exists>r. s = p @ r)"
  unfolding starts_with_def by (metis append_eq_conv_conj append_take_drop_id)

lemma starts_with_append [simp]: "starts_with (p @ r) p"
  by (auto simp: starts_with_iff)

lemma starts_with_Nil [simp]: "starts_with s []"
  by (simp add: starts_with_def)

lemma starts_with_Nil_left [simp]: "starts_with [] p \<longleftrightarrow> p = []"
  by (auto simp: starts_with_def)

lemma starts_with_Cons [simp]: "starts_with (c # s) (d # p) \<longleftrightarrow> c = d \<and> starts_with s p"
  by (auto simp: starts_with_def)

lemma strip_prefix_Some_iff: "strip_prefix s p = Some r \<longleftrightarrow> s = p @ r"
  by (auto simp: strip_prefix_def starts_with_iff)

lemma strip_prefix_append [simp]: "strip_prefix (p @ r) p = Some r"
  by (simp add: strip_prefix_Some_iff)

lemma ends_with_iff: "ends_with s p \<longleftrightarrow> (\<exists>r. s = r @ p)"
proof
  assume "ends_with s p"
  then have "s = take (length s - length p) s @ p"
    by (metis append_take_drop_id ends_with_def)
  then show "\<exists>r. s = r @ p" by blast
qed (auto simp: ends_with_def)

lemma strip_suffix_Some_iff: "strip_suffix s p = Some r \<longleftrightarrow> s = r @ p"
  by (auto simp: strip_suffix_def ends_with_iff)

lemma contains_str_iff: "contains_str s p \<longleftrightarrow> (\<exists>u v. s = u @ p @ v)"
proof (induction s)
  case Nil
  then show ?case by auto
next
  case (Cons c s)
  have "starts_with (c # s) p \<or> (\<exists>u v. s = u @ p @ v) \<longleftrightarrow> (\<exists>u v. c # s = u @ p @ v)"
  proof
    assume "starts_with (c # s) p \<or> (\<exists>u v. s = u @ p @ v)"
    then show "\<exists>u v. c # s = u @ p @ v"
      by (auto simp: starts_with_iff) (metis append_Nil, metis append_Cons)
  next
    assume "\<exists>u v. c # s = u @ p @ v"
    then obtain u v where uv: "c # s = u @ p @ v" by blast
    then show "starts_with (c # s) p \<or> (\<exists>u v. s = u @ p @ v)"
      by (cases u) (auto simp: starts_with_iff)
  qed
  with Cons show ?case by simp
qed

subsection \<open>Splitting and joining\<close>

definition split_once :: "string \<Rightarrow> char \<Rightarrow> (string \<times> string) option" where
  "split_once s c =
     (case dropWhile (\<lambda>x. x \<noteq> c) s of
        [] \<Rightarrow> None
      | _ # r \<Rightarrow> Some (takeWhile (\<lambda>x. x \<noteq> c) s, r))"

definition rsplit_once :: "string \<Rightarrow> char \<Rightarrow> (string \<times> string) option" where
  "rsplit_once s c =
     (case split_once (rev s) c of
        None \<Rightarrow> None
      | Some (a, b) \<Rightarrow> Some (rev b, rev a))"

fun split_on :: "(char \<Rightarrow> bool) \<Rightarrow> string \<Rightarrow> string list" where
  "split_on p [] = [[]]"
| "split_on p (c # s) =
     (if p c then [] # split_on p s
      else (case split_on p s of [] \<Rightarrow> [[c]] | w # ws \<Rightarrow> (c # w) # ws))"

fun join :: "string \<Rightarrow> string list \<Rightarrow> string" where
  "join sep [] = []"
| "join sep [w] = w"
| "join sep (w # ws) = w @ sep @ join sep ws"

text \<open>\<open>s.rsplit(['/', '\\']).next()\<close>: the text after the last separator of either kind.\<close>

definition base_name :: "string \<Rightarrow> string" where
  "base_name s = rev (takeWhile (\<lambda>c. c \<noteq> CHR ''/'' \<and> c \<noteq> CHR 0x5C) (rev s))"

lemma split_once_Nil [simp]: "split_once [] c = None"
  by (simp add: split_once_def)

lemma split_once_Cons [simp]:
  "split_once (d # s) c =
     (if d = c then Some ([], s) else map_option (\<lambda>(a, b). (d # a, b)) (split_once s c))"
  unfolding split_once_def by (simp split: list.split del: dropWhile_eq_Nil_conv)

lemma split_once_Some_iff:
  "split_once s c = Some (a, b) \<longleftrightarrow> s = a @ c # b \<and> c \<notin> set a"
proof (induction s arbitrary: a)
  case (Cons d s)
  then show ?case by (cases a) auto
qed simp

lemma split_once_None_iff: "split_once s c = None \<longleftrightarrow> c \<notin> set s"
proof (induction s)
  case (Cons d s)
  then show ?case by (cases "d = c") (simp_all del: split_paired_Ex)
qed simp

lemma split_on_nonempty [simp]: "split_on p s \<noteq> []"
  by (induction s) (auto split: list.splits)

lemma split_on_no_sep: "list_all (\<lambda>w. list_all (\<lambda>c. \<not> p c) w) (split_on p s)"
proof (induction s)
  case (Cons d s)
  then show ?case
    by (cases "split_on p s") auto
qed simp

lemma join_Cons: "ws \<noteq> [] \<Longrightarrow> join sep (w # ws) = w @ sep @ join sep ws"
  by (cases ws) simp_all

lemma join_split_on: "join [c] (split_on (\<lambda>x. x = c) s) = s"
proof (induction s)
  case Nil
  then show ?case by simp
next
  case (Cons d s)
  show ?case
  proof (cases "split_on (\<lambda>x. x = c) s")
    case Nil
    then show ?thesis by simp
  next
    case (Cons w ws)
    with Cons.IH show ?thesis by (cases ws) (auto simp: join_Cons)
  qed
qed

lemma base_name_no_sep: "CHR ''/'' \<notin> set (base_name s)"
  by (auto simp: base_name_def dest: set_takeWhileD)

lemma base_name_id: "CHR ''/'' \<notin> set s \<Longrightarrow> CHR 0x5C \<notin> set s \<Longrightarrow> base_name s = s"
  unfolding base_name_def
  by (subst takeWhile_eq_all_conv[THEN iffD2]) auto

subsection \<open>ASCII case and classes\<close>

definition byte :: "char \<Rightarrow> nat" where
  "byte c = of_char c"

definition is_ascii_digit :: "char \<Rightarrow> bool" where
  "is_ascii_digit c \<longleftrightarrow> 48 \<le> byte c \<and> byte c \<le> 57"

definition is_ascii_alphabetic :: "char \<Rightarrow> bool" where
  "is_ascii_alphabetic c \<longleftrightarrow> (65 \<le> byte c \<and> byte c \<le> 90) \<or> (97 \<le> byte c \<and> byte c \<le> 122)"

definition is_ascii_alphanumeric :: "char \<Rightarrow> bool" where
  "is_ascii_alphanumeric c \<longleftrightarrow> is_ascii_alphabetic c \<or> is_ascii_digit c"

definition ascii_lower :: "char \<Rightarrow> char" where
  "ascii_lower c = (if 65 \<le> byte c \<and> byte c \<le> 90 then char_of (byte c + 32) else c)"

definition to_ascii_lowercase :: "string \<Rightarrow> string" where
  "to_ascii_lowercase s = map ascii_lower s"

lemma length_to_ascii_lowercase [simp]: "length (to_ascii_lowercase s) = length s"
  by (simp add: to_ascii_lowercase_def)

lemma ascii_lower_idem [simp]: "ascii_lower (ascii_lower c) = ascii_lower c"
proof (cases "65 \<le> byte c \<and> byte c \<le> 90")
  case True
  then have "byte (char_of (byte c + 32)) = byte c + 32"
    by (simp add: byte_def of_char_of)
  with True show ?thesis by (simp add: ascii_lower_def)
next
  case False
  then show ?thesis unfolding ascii_lower_def by presburger
qed

lemma to_ascii_lowercase_idem [simp]:
  "to_ascii_lowercase (to_ascii_lowercase s) = to_ascii_lowercase s"
  by (simp add: to_ascii_lowercase_def)

subsection \<open>White space and character boundaries\<close>

text \<open>Number of bytes of the White\_Space character a string starts with, 0 for none.\<close>

definition ws_len :: "string \<Rightarrow> nat" where
  "ws_len s =
     (case map byte (take 3 s) of
        [] \<Rightarrow> 0
      | a # r \<Rightarrow>
         if a \<in> {9, 10, 11, 12, 13, 32} then 1
         else (case r of
            [] \<Rightarrow> 0
          | b # r' \<Rightarrow>
             if a = 0xC2 \<and> (b = 0x85 \<or> b = 0xA0) then 2
             else (case r' of
                [] \<Rightarrow> 0
              | c # _ \<Rightarrow>
                 if a = 0xE1 \<and> b = 0x9A \<and> c = 0x80
                  \<or> a = 0xE2 \<and> b = 0x80 \<and> (0x80 \<le> c \<and> c \<le> 0x8A \<or> c \<in> {0xA8, 0xA9, 0xAF})
                  \<or> a = 0xE2 \<and> b = 0x81 \<and> c = 0x9F
                  \<or> a = 0xE3 \<and> b = 0x80 \<and> c = 0x80
                 then 3 else 0)))"

definition ws_suffix_len :: "string \<Rightarrow> nat" where
  "ws_suffix_len s =
     (if 1 \<le> length s \<and> ws_len (drop (length s - 1) s) = 1 then 1
      else if 2 \<le> length s \<and> ws_len (drop (length s - 2) s) = 2 then 2
      else if 3 \<le> length s \<and> ws_len (drop (length s - 3) s) = 3 then 3
      else 0)"

lemma ws_len_Nil [simp]: "ws_len [] = 0"
  by (simp add: ws_len_def)

lemma ws_len_pos: "ws_len s \<noteq> 0 \<Longrightarrow> s \<noteq> []"
  by (cases s) simp_all

lemma ws_len_decreases: "ws_len s \<noteq> 0 \<Longrightarrow> length s - ws_len s < length s"
  using ws_len_pos[of s] by (simp add: diff_less)

function trim_start :: "string \<Rightarrow> string" where
  "trim_start s = (if ws_len s = 0 then s else trim_start (drop (ws_len s) s))"
  by pat_completeness auto
termination
  by (relation "measure length") (simp_all add: ws_len_decreases)

function trim_end :: "string \<Rightarrow> string" where
  "trim_end s =
     (if ws_suffix_len s = 0 then s else trim_end (take (length s - ws_suffix_len s) s))"
  by pat_completeness auto
termination
  by (relation "measure length") (auto simp: ws_suffix_len_def split: if_splits)

declare trim_start.simps [simp del] trim_end.simps [simp del]

definition trim :: "string \<Rightarrow> string" where
  "trim s = trim_end (trim_start s)"

definition is_blank :: "string \<Rightarrow> bool" where
  "is_blank s \<longleftrightarrow> trim s = []"

definition has_whitespace :: "string \<Rightarrow> bool" where
  "has_whitespace s \<longleftrightarrow> (\<exists>i < length s. ws_len (drop i s) \<noteq> 0)"

lemma trim_start_suffix: "suffix (trim_start s) s"
proof (induction s rule: trim_start.induct)
  case (1 s)
  show ?case
  proof (cases "ws_len s = 0")
    case False
    with 1 have "suffix (trim_start (drop (ws_len s) s)) s"
      by (meson suffix_drop suffix_order.trans)
    with False show ?thesis by (simp add: trim_start.simps[of s])
  qed (simp add: trim_start.simps[of s])
qed

lemma trim_start_fixed: "ws_len (trim_start s) = 0"
  by (induction s rule: trim_start.induct) (subst trim_start.simps, simp)

lemma trim_start_idem [simp]: "trim_start (trim_start s) = trim_start s"
  using trim_start_fixed[of s] by (subst trim_start.simps) simp

definition is_utf8_cont :: "char \<Rightarrow> bool" where
  "is_utf8_cont c \<longleftrightarrow> 0x80 \<le> byte c \<and> byte c \<le> 0xBF"

definition is_char_boundary :: "string \<Rightarrow> nat \<Rightarrow> bool" where
  "is_char_boundary s i \<longleftrightarrow> i = 0 \<or> i = length s \<or> (i < length s \<and> \<not> is_utf8_cont (s ! i))"

text \<open>\<open>s.get(..i)\<close> and \<open>s.get(i..)\<close>.\<close>

definition str_get_to :: "string \<Rightarrow> nat \<Rightarrow> string option" where
  "str_get_to s i = (if is_char_boundary s i then Some (take i s) else None)"

definition str_get_from :: "string \<Rightarrow> nat \<Rightarrow> string option" where
  "str_get_from s i = (if is_char_boundary s i then Some (drop i s) else None)"

subsection \<open>Splitting at white space\<close>

text \<open>\<open>split_whitespace\<close>: the maximal runs without White\_Space.\<close>

function split_ws :: "string \<Rightarrow> string \<Rightarrow> string list" where
  "split_ws cur [] = (if cur = [] then [] else [cur])"
| "split_ws cur (c # cs) =
     (if ws_len (c # cs) = 0 then split_ws (cur @ [c]) cs
      else (if cur = [] then [] else [cur]) @ split_ws [] (drop (ws_len (c # cs)) (c # cs)))"
  by pat_completeness auto
termination
  by (relation "measure (\<lambda>(_, s). length s)") auto

definition split_whitespace :: "string \<Rightarrow> string list" where
  "split_whitespace s = split_ws [] s"

definition trim_end_matches :: "char \<Rightarrow> string \<Rightarrow> string" where
  "trim_end_matches c s = rev (dropWhile (\<lambda>x. x = c) (rev s))"

definition trim_start_matches :: "char \<Rightarrow> string \<Rightarrow> string" where
  "trim_start_matches c s = dropWhile (\<lambda>x. x = c) s"

definition eq_ignore_ascii_case :: "string \<Rightarrow> string \<Rightarrow> bool" where
  "eq_ignore_ascii_case a b \<longleftrightarrow> to_ascii_lowercase a = to_ascii_lowercase b"

definition replace_char :: "char \<Rightarrow> char \<Rightarrow> string \<Rightarrow> string" where
  "replace_char a b s = map (\<lambda>c. if c = a then b else c) s"

definition str_or :: "string option \<Rightarrow> string \<Rightarrow> string" where
  "str_or x d = (case x of None \<Rightarrow> d | Some y \<Rightarrow> y)"

section \<open>Utf8\<close>

text \<open>
  \<open>String::from_utf8\<close> accepts the well-formed byte sequences of the Unicode standard: the number of bytes of the
  first character, or 0 when the text does not begin with one.
\<close>

definition between :: "nat \<Rightarrow> nat \<Rightarrow> char \<Rightarrow> bool" where
  "between a b c \<longleftrightarrow> a \<le> byte c \<and> byte c \<le> b"

definition utf8_len :: "string \<Rightarrow> nat" where
  "utf8_len s =
     (case s of
        [] \<Rightarrow> 0
      | a # r \<Rightarrow>
          if byte a < 0x80 then 1
          else if between 0xC2 0xDF a \<and> list_all is_utf8_cont (take 1 r) \<and> 1 \<le> length r then 2
          else if 2 \<le> length r \<and> list_all is_utf8_cont (take 2 r)
            \<and> (byte a = 0xE0 \<and> between 0xA0 0xBF (hd r) \<or> between 0xE1 0xEC a
               \<or> byte a = 0xED \<and> between 0x80 0x9F (hd r) \<or> between 0xEE 0xEF a) then 3
          else if 3 \<le> length r \<and> list_all is_utf8_cont (take 3 r)
            \<and> (byte a = 0xF0 \<and> between 0x90 0xBF (hd r) \<or> between 0xF1 0xF3 a
               \<or> byte a = 0xF4 \<and> between 0x80 0x8F (hd r)) then 4
          else 0)"

function valid_utf8 :: "string \<Rightarrow> bool" where
  "valid_utf8 s =
     (if s = [] then True else if utf8_len s = 0 then False else valid_utf8 (drop (utf8_len s) s))"
  by pat_completeness auto
termination by (relation "measure length") simp_all

declare valid_utf8.simps [simp del]

text \<open>
  \<open>String::from_utf8_lossy\<close> puts U+FFFD for every maximal part of a character that is not well formed: the number of
  bytes of that part, when the text does not begin with a character.
\<close>

definition broken_len :: "string \<Rightarrow> nat" where
  "broken_len s =
     (case s of
        a # b # r \<Rightarrow>
          if byte a = 0xE0 \<and> between 0xA0 0xBF b \<or> (between 0xE1 0xEC a \<or> between 0xEE 0xEF a) \<and> is_utf8_cont b
             \<or> byte a = 0xED \<and> between 0x80 0x9F b then 2
          else if byte a = 0xF0 \<and> between 0x90 0xBF b \<or> between 0xF1 0xF3 a \<and> is_utf8_cont b
             \<or> byte a = 0xF4 \<and> between 0x80 0x8F b
          then (if r \<noteq> [] \<and> is_utf8_cont (hd r) then 3 else 2)
          else 1
      | _ \<Rightarrow> 1)"

definition REPLACEMENT :: string where
  "REPLACEMENT = [CHR 0xEF, CHR 0xBF, CHR 0xBD]"

lemma broken_len_pos: "0 < broken_len s"
  by (simp add: broken_len_def split: list.split)

function utf8_lossy :: "string \<Rightarrow> string" where
  "utf8_lossy s =
     (if s = [] then []
      else if utf8_len s = 0 then REPLACEMENT @ utf8_lossy (drop (broken_len s) s)
      else take (utf8_len s) s @ utf8_lossy (drop (utf8_len s) s))"
  by pat_completeness auto
termination by (relation "measure length") (simp_all add: broken_len_pos)

declare utf8_lossy.simps [simp del]

lemma utf8_lossy_valid: "valid_utf8 s \<Longrightarrow> utf8_lossy s = s"
proof (induction s rule: valid_utf8.induct)
  case (1 s)
  show ?case
  proof (cases "s = []")
    case False
    with 1 show ?thesis by (subst utf8_lossy.simps) (auto simp: valid_utf8.simps[of s] split: if_splits)
  qed (simp add: utf8_lossy.simps)
qed

lemma utf8_len_ascii [simp]: "byte c < 0x80 \<Longrightarrow> utf8_len (c # s) = 1"
  by (simp add: utf8_len_def)

lemma valid_utf8_ascii: "list_all (\<lambda>c. byte c < 0x80) s \<Longrightarrow> valid_utf8 s"
  by (induction s) (subst valid_utf8.simps, simp)+

end
