(* ===== verification/Wrappers.thy ===== *)
theory Wrappers
  imports Prelude Rust_Str
begin

text \<open>
  The contract of a peeler: a partial function that takes the head command off an argv and
  returns a nonempty proper suffix of it.  The wrapper stripper and the transparent-prefix
  stripper of the program both promise it, and what their bounded loops rely on (the result
  is a slice of the argv, as many rounds as words always reach a fixed point) is proved here
  once.

  Wrapper peeling of \<open>permission/bash_command_splitting.rs\<close>: the scanner of a leading \<open>env\<close>,
  the canonical wrappers (\<open>timeout\<close>, \<open>nice\<close>, \<open>ionice\<close>, \<open>chrt\<close>, \<open>stdbuf\<close>, \<open>env\<close>), the
  shell-transparent prefixes (\<open>exec\<close>, \<open>command\<close>, \<open>builtin\<close>) and their bounded alternation
  \<open>normalize_command_words\<close>.  An argv is a list of words; a slice \<open>cmd.get(i..)\<close> is the
  remaining suffix, with the index kept where the code keeps it.
\<close>

section \<open>Peeling\<close>

fun iter_strip :: "('a list \<Rightarrow> 'a list option) \<Rightarrow> nat \<Rightarrow> 'a list \<Rightarrow> 'a list" where
  "iter_strip strip 0 ws = ws"
| "iter_strip strip (Suc n) ws =
     (case strip ws of None \<Rightarrow> ws | Some inner \<Rightarrow> iter_strip strip n inner)"

locale peeler =
  fixes strip :: "'a list \<Rightarrow> 'a list option"
  assumes strip_strict: "strip ws = Some inner \<Longrightarrow> strict_suffix inner ws"
    and strip_inhabited: "strip ws = Some inner \<Longrightarrow> inner \<noteq> []"
begin

lemma strip_shorter: "strip ws = Some inner \<Longrightarrow> length inner < length ws"
  by (rule strict_suffix_length) (rule strip_strict)

lemma strip_empty: "strip [] = None"
  using strip_shorter[of "[]"] by (cases "strip []") auto

lemma strip_single: "strip [w] = None"
proof (cases "strip [w]")
  case (Some inner)
  with strip_shorter[OF Some] strip_inhabited[OF Some] show ?thesis by simp
qed

lemma iter_suffix: "suffix (iter_strip strip n ws) ws"
proof (induction n arbitrary: ws)
  case (Suc n)
  show ?case
  proof (cases "strip ws")
    case (Some inner)
    then have "suffix inner ws" using strip_strict by (simp add: strict_suffix_def)
    with Suc[of inner] Some show ?thesis by (auto intro: suffix_order.trans)
  qed simp
qed simp

lemma iter_inhabited: "ws \<noteq> [] \<Longrightarrow> iter_strip strip n ws \<noteq> []"
  by (induction n arbitrary: ws) (auto split: option.split dest: strip_inhabited)

lemma iter_fixpoint: "strip ws = None \<Longrightarrow> iter_strip strip n ws = ws"
  by (cases n) simp_all

lemma iter_reaches_fixpoint: "length ws \<le> Suc n \<Longrightarrow> strip (iter_strip strip n ws) = None"
proof (induction n arbitrary: ws)
  case 0
  then show ?case
    by (cases ws) (auto simp: strip_empty strip_single)
next
  case (Suc n)
  show ?case
  proof (cases "strip ws")
    case (Some inner)
    with strip_shorter[OF Some] Suc show ?thesis by simp
  qed simp
qed

lemma iter_stable:
  assumes "strip (iter_strip strip n ws) = None"
  shows "iter_strip strip (n + k) ws = iter_strip strip n ws"
  using assms
proof (induction n arbitrary: ws)
  case 0
  then show ?case by (simp add: iter_fixpoint)
next
  case (Suc n)
  then show ?case by (simp split: option.splits)
qed

lemma iter_unchanged_iff: "iter_strip strip (Suc n) ws = ws \<longleftrightarrow> strip ws = None"
proof (cases "strip ws")
  case (Some inner)
  have "length (iter_strip strip n inner) \<le> length inner"
    using iter_suffix by (rule suffix_length_le)
  with strip_shorter[OF Some] Some show ?thesis by auto
qed simp

end

section \<open>Wrappers\<close>

subsection \<open>Literal spellings\<close>

definition is_env_assignment :: "string \<Rightarrow> bool" where
  "is_env_assignment tok =
     (case split_once tok CHR ''='' of
        None \<Rightarrow> False
      | Some (name, _) \<Rightarrow>
          name \<noteq> []
          \<and> (is_ascii_alphabetic (hd name) \<or> hd name = CHR ''_'')
          \<and> list_all (\<lambda>b. is_ascii_alphanumeric b \<or> b = CHR ''_'') name)"

text \<open>The loop of \<open>decode_shell_literal_spelling\<close>: the first argument is the open quote.\<close>

fun decode_spelling :: "char option \<Rightarrow> string \<Rightarrow> string option" where
  "decode_spelling None [] = Some []"
| "decode_spelling (Some _) [] = None"
| "decode_spelling None (c # cs) =
     (if c = CHR 0x27 \<or> c = CHR 0x22 then decode_spelling (Some c) cs
      else if c = CHR 0x5C then
        (case cs of [] \<Rightarrow> None | n # cs' \<Rightarrow> map_option ((#) n) (decode_spelling None cs'))
      else map_option ((#) c) (decode_spelling None cs))"
| "decode_spelling (Some q) (c # cs) =
     (if q = c then decode_spelling None cs
      else if q = CHR 0x22 \<and> c = CHR 0x5C then
        (case cs of
           [] \<Rightarrow> None
         | n # cs' \<Rightarrow>
             if n \<in> {CHR ''$'', CHR 0x60, CHR 0x22, CHR 0x5C, CHR 0x0A}
             then map_option ((#) n) (decode_spelling (Some q) cs')
             else map_option (\<lambda>r. CHR 0x5C # n # r) (decode_spelling (Some q) cs'))
      else map_option ((#) c) (decode_spelling (Some q) cs))"

definition decode_shell_literal_spelling :: "string \<Rightarrow> string option" where
  "decode_shell_literal_spelling raw = decode_spelling None raw"

definition decode_env_option_token :: "string \<Rightarrow> string" where
  "decode_env_option_token raw =
     (if \<not> has_any raw [CHR 0x27, CHR 0x22] then raw
      else case decode_shell_literal_spelling raw of Some d \<Rightarrow> d | None \<Rightarrow> raw)"

definition is_high_confidence_env_s_payload :: "string \<Rightarrow> bool" where
  "is_high_confidence_env_s_payload s \<longleftrightarrow>
     s \<noteq> [] \<and> \<not> has_char s CHR 0x00
     \<and> \<not> has_any s [CHR 0x27, CHR 0x22, CHR 0x5C, CHR ''#'', CHR 0x60, CHR ''$'', CHR 0x0A, CHR 0x0D]"

definition take_high_confidence_payload :: "string \<Rightarrow> string option" where
  "take_high_confidence_payload raw =
     (if is_high_confidence_env_s_payload raw then Some raw else None)"

subsection \<open>Scanning a leading \<open>env\<close>\<close>

datatype env_short =
    SplitStringNext
  | SplitStringGlued string
  | SplitStringDetect
  | NoArg
  | ArgNeedNext char
  | ArgGlued char
  | Uncertain

fun classify_env_short_body :: "string \<Rightarrow> env_short" where
  "classify_env_short_body [] = NoArg"
| "classify_env_short_body (c # cs) =
     (if c \<in> {CHR ''i'', CHR ''v'', CHR ''0''} then classify_env_short_body cs
      else if c = CHR ''S'' then SplitStringDetect
      else if c \<in> {CHR ''u'', CHR ''C'', CHR ''P'', CHR ''a''} then
        (if cs \<noteq> [] then ArgGlued c else ArgNeedNext c)
      else Uncertain)"

definition classify_env_short :: "string \<Rightarrow> env_short" where
  "classify_env_short tok =
     (if \<not> starts_with tok ''-'' \<or> starts_with tok ''--'' \<or> tok = ''-'' then Uncertain
      else let body = drop 1 tok in
        if body = [] then Uncertain
        else case strip_prefix body ''S'' of
            Some rest \<Rightarrow> if rest = [] then SplitStringNext else SplitStringGlued rest
          | None \<Rightarrow> classify_env_short_body body)"

record env_scan =
  es_chdir :: "string option"
  es_has_split_string :: bool
  es_options_uncertain :: bool
  es_split_string_script :: "string option"
  es_command_start :: nat

definition scan_stop :: "string option \<Rightarrow> nat \<Rightarrow> env_scan" where
  "scan_stop c i = \<lparr>es_chdir = c, es_has_split_string = False, es_options_uncertain = False,
     es_split_string_script = None, es_command_start = i\<rparr>"

definition scan_uncertain :: "string option \<Rightarrow> nat \<Rightarrow> env_scan" where
  "scan_uncertain c i = (scan_stop c i)\<lparr>es_options_uncertain := True\<rparr>"

definition scan_split :: "string option \<Rightarrow> nat \<Rightarrow> string option \<Rightarrow> env_scan" where
  "scan_split c i script =
     (scan_stop c i)\<lparr>es_has_split_string := True, es_split_string_script := script\<rparr>"

definition next_payload :: "argv \<Rightarrow> string option" where
  "next_payload rest = Option.bind (first rest) take_high_confidence_payload"

text \<open>
  One iteration of the loop of \<open>env_scan\<close> at index \<open>i\<close>: \<open>Break\<close> leaves the loop with the scan,
  \<open>Next\<close> consumes the token and \<open>NextOperand\<close> the token and its operand, with the new chdir.
\<close>

datatype env_step = Break env_scan | Next "string option" | NextOperand "string option"

definition env_long_step :: "string option \<Rightarrow> nat \<Rightarrow> string \<Rightarrow> argv \<Rightarrow> env_step" where
  "env_long_step c i tok rest =
    (if tok = ''--chdir'' then
       (case rest of [] \<Rightarrow> Break (scan_uncertain c i) | d # _ \<Rightarrow> NextOperand (Some d))
     else if starts_with tok ''--chdir='' then Next (strip_prefix tok ''--chdir='')
     else if tok \<in> set [''--unset'', ''--path'', ''--argv0''] then
       (case rest of [] \<Rightarrow> Break (scan_uncertain c i) | _ # _ \<Rightarrow> NextOperand c)
     else if starts_with tok ''--unset='' \<or> starts_with tok ''--path='' \<or> starts_with tok ''--argv0='' then
       Next c
     else if tok \<in> set [''--ignore-environment'', ''--null'', ''--debug'', ''--version'', ''--help''] then
       Next c
     else if tok = ''--split-string'' then Break (scan_split c i (next_payload rest))
     else (case strip_prefix tok ''--split-string='' of
         Some payload \<Rightarrow>
           Break (scan_split c i (take_high_confidence_payload
             (case strip_prefix (decode_env_option_token tok) ''--split-string='' of
                Some p \<Rightarrow> p | None \<Rightarrow> payload)))
       | None \<Rightarrow> Break (scan_uncertain c i)))"

definition env_short_step :: "string option \<Rightarrow> nat \<Rightarrow> string \<Rightarrow> argv \<Rightarrow> env_step" where
  "env_short_step c i tok rest =
    (case classify_env_short (decode_env_option_token tok) of
       SplitStringNext \<Rightarrow> Break (scan_split c i (next_payload rest))
     | SplitStringGlued payload \<Rightarrow> Break (scan_split c i (take_high_confidence_payload payload))
     | SplitStringDetect \<Rightarrow> Break (scan_split c i None)
     | NoArg \<Rightarrow> Next c
     | ArgNeedNext k \<Rightarrow>
         (case rest of
            [] \<Rightarrow> Break (scan_uncertain c i)
          | v # _ \<Rightarrow> NextOperand (if k = CHR ''C'' then Some v else c))
     | ArgGlued k \<Rightarrow>
         Next (if k = CHR ''C'' then
                 Some (case strip_prefix tok ''-C'' of Some d \<Rightarrow> d | None \<Rightarrow> [])
               else c)
     | Uncertain \<Rightarrow> Break (scan_uncertain c i))"

definition env_step :: "string option \<Rightarrow> nat \<Rightarrow> string \<Rightarrow> argv \<Rightarrow> env_step" where
  "env_step c i tok rest =
    (if tok = ''--'' then Break (scan_stop c (i + 1))
     else if tok = ''-'' then Next c
     else if \<not> starts_with tok ''-'' then
       (if is_env_assignment tok then Next c else Break (scan_stop c i))
     else if starts_with tok ''--'' then env_long_step c i tok rest
     else env_short_step c i tok rest)"

fun env_scan_from :: "string option \<Rightarrow> nat \<Rightarrow> argv \<Rightarrow> env_scan" where
  "env_scan_from c i [] = scan_stop c i"
| "env_scan_from c i (tok # rest) =
    (case env_step c i tok rest of
       Break s \<Rightarrow> s
     | Next c' \<Rightarrow> env_scan_from c' (i + 1) rest
     | NextOperand c' \<Rightarrow> env_scan_from c' (i + 2) (drop 1 rest))"

definition env_scan_words :: "argv \<Rightarrow> env_scan" where
  "env_scan_words cmd = env_scan_from None 1 (drop 1 cmd)"

definition head_base :: "argv \<Rightarrow> string option" where
  "head_base words = map_option base_name (first words)"

definition env_split_string_script :: "argv \<Rightarrow> string option" where
  "env_split_string_script words =
     (if head_base words \<noteq> Some ''env'' then None
      else let scan = env_scan_words words in
        if \<not> es_has_split_string scan then None else es_split_string_script scan)"

subsection \<open>Canonical wrappers\<close>

text \<open>\<open>while i < cmd.len() && cmd[i].starts_with('-')\<close>, options in \<open>vals\<close> taking a value.\<close>

fun skip_options :: "string list \<Rightarrow> nat \<Rightarrow> argv \<Rightarrow> nat" where
  "skip_options vals i [] = i"
| "skip_options vals i (tok # rest) =
     (if starts_with tok ''-'' then
        (if tok \<in> set vals then
           (case rest of [] \<Rightarrow> i + 2 | _ # rest' \<Rightarrow> skip_options vals (i + 2) rest')
         else skip_options vals (i + 1) rest)
      else i)"

definition get_from :: "argv \<Rightarrow> nat \<Rightarrow> argv option" where
  "get_from cmd i = (if i \<le> length cmd then Some (drop i cmd) else None)"

definition mandatory_operand :: "argv \<Rightarrow> nat \<Rightarrow> nat option" where
  "mandatory_operand cmd i = (if length cmd \<le> i then None else Some (i + 1))"

definition wrapper_inner_start :: "string \<Rightarrow> argv \<Rightarrow> nat option" where
  "wrapper_inner_start head cmd =
     (let args = drop 1 cmd in
      if head = ''timeout'' then
        mandatory_operand cmd (skip_options [''-k'', ''-s'', ''--kill-after'', ''--signal''] 1 args)
      else if head = ''nice'' then Some (skip_options [''-n'', ''--adjustment''] 1 args)
      else if head = ''ionice'' then
        Some (skip_options [''-c'', ''-n'', ''-p'', ''-P'', ''-u'', ''--class'', ''--classdata'',
                ''--pid'', ''--pgid'', ''--uid''] 1 args)
      else if head = ''chrt'' then mandatory_operand cmd (skip_options [] 1 args)
      else if head = ''stdbuf'' then Some (skip_options [''-i'', ''-o'', ''-e''] 1 args)
      else if head = ''env'' then
        (let scan = env_scan_words cmd in
         if es_has_split_string scan \<or> es_options_uncertain scan then None
         else Some (es_command_start scan))
      else None)"

definition nonempty :: "'a list \<Rightarrow> 'a list option" where
  "nonempty xs = (if xs = [] then None else Some xs)"

definition strip_wrapper_command :: "argv \<Rightarrow> argv option" where
  "strip_wrapper_command cmd =
     Option.bind (head_base cmd) (\<lambda>head.
     Option.bind (wrapper_inner_start head cmd) (\<lambda>i.
     Option.bind (get_from cmd i) nonempty))"

definition is_wrapper_command :: "argv \<Rightarrow> bool" where
  "is_wrapper_command words =
     (case head_base words of
        None \<Rightarrow> False
      | Some h \<Rightarrow> h \<in> set [''timeout'', ''nice'', ''ionice'', ''chrt'', ''stdbuf'', ''env''])"

definition MAX_WRAPPER_DEPTH :: nat where "MAX_WRAPPER_DEPTH = 8"
definition MAX_INLINE_SHELL_DEPTH :: nat where "MAX_INLINE_SHELL_DEPTH = 8"
definition MAX_TRANSPARENT_PREFIX_DEPTH :: nat where "MAX_TRANSPARENT_PREFIX_DEPTH = 8"
definition MAX_NORMALIZE_ROUNDS :: nat where
  "MAX_NORMALIZE_ROUNDS = MAX_WRAPPER_DEPTH + MAX_TRANSPARENT_PREFIX_DEPTH"

record wrapper_peel =
  wp_words :: argv
  wp_has_chdir :: bool
  wp_has_split_string :: bool
  wp_env_options_uncertain :: bool
  wp_exhausted :: bool

text \<open>The facts one round of \<open>unwrap_wrappers_checked\<close> records before it strips.\<close>

definition note_env :: "wrapper_peel \<Rightarrow> wrapper_peel" where
  "note_env p =
     (if head_base (wp_words p) = Some ''env'' then
        let scan = env_scan_words (wp_words p) in
        p\<lparr>wp_has_chdir := wp_has_chdir p \<or> is_some (es_chdir scan),
          wp_has_split_string := wp_has_split_string p \<or> es_has_split_string scan,
          wp_env_options_uncertain := wp_env_options_uncertain p \<or> es_options_uncertain scan\<rparr>
      else p)"

fun unwrap_rounds :: "nat \<Rightarrow> wrapper_peel \<Rightarrow> wrapper_peel" where
  "unwrap_rounds 0 p =
     p\<lparr>wp_exhausted := is_wrapper_command (wp_words p)
                      \<and> is_some (strip_wrapper_command (wp_words p))\<rparr>"
| "unwrap_rounds (Suc n) p =
     (let p' = note_env p in
      case strip_wrapper_command (wp_words p') of
        Some inner \<Rightarrow> unwrap_rounds n (p'\<lparr>wp_words := inner\<rparr>)
      | None \<Rightarrow> p'\<lparr>wp_exhausted := False\<rparr>)"

definition unwrap_wrappers_checked :: "argv \<Rightarrow> wrapper_peel" where
  "unwrap_wrappers_checked words =
     unwrap_rounds MAX_WRAPPER_DEPTH
       \<lparr>wp_words = words, wp_has_chdir = False, wp_has_split_string = False,
        wp_env_options_uncertain = False, wp_exhausted = False\<rparr>"

definition unwrap_wrappers :: "argv \<Rightarrow> argv" where
  "unwrap_wrappers words = wp_words (unwrap_wrappers_checked words)"

subsection \<open>Shell-transparent prefixes\<close>

datatype transparent_strip = NotPrefix | Peeled argv | AmbiguousStrip

definition peeled_from :: "argv \<Rightarrow> transparent_strip" where
  "peeled_from inner = (if inner = [] then NotPrefix else Peeled inner)"

text \<open>The option loops run over the words after the head, so the slice is the loop's rest.\<close>

fun strip_exec_from :: "argv \<Rightarrow> transparent_strip" where
  "strip_exec_from [] = NotPrefix"
| "strip_exec_from (tok # rest) =
     (if tok = ''--'' then peeled_from rest
      else if tok = ''-'' \<or> \<not> starts_with tok ''-'' then Peeled (tok # rest)
      else if tok \<in> set [''-c'', ''-l'', ''-cl'', ''-lc''] then strip_exec_from rest
      else if tok = ''-a'' then
        (case rest of
           [] \<Rightarrow> AmbiguousStrip
         | v # rest' \<Rightarrow>
             if v \<noteq> [CHR 0x00] \<and> v \<noteq> [] then strip_exec_from rest' else AmbiguousStrip)
      else if starts_with tok ''-a'' \<and> drop 2 tok \<noteq> [] then
        (if drop 2 tok = [CHR 0x00] then AmbiguousStrip else strip_exec_from rest)
      else if \<not> starts_with tok ''--''
              \<and> list_all (\<lambda>c. c = CHR ''c'' \<or> c = CHR ''l'') (drop 1 tok) then
        strip_exec_from rest
      else AmbiguousStrip)"

fun strip_command_from :: "argv \<Rightarrow> transparent_strip" where
  "strip_command_from [] = NotPrefix"
| "strip_command_from (tok # rest) =
     (if tok = ''--'' then peeled_from rest
      else if tok = ''-'' \<or> \<not> starts_with tok ''-'' then Peeled (tok # rest)
      else if tok \<in> set [''-v'', ''-V'', ''--help'', ''--version'']
           \<or> \<not> starts_with tok ''--''
             \<and> list_ex (\<lambda>c. c = CHR ''v'' \<or> c = CHR ''V'') (drop 1 tok) then NotPrefix
      else if tok = ''-p''
           \<or> \<not> starts_with tok ''--'' \<and> list_all (\<lambda>c. c = CHR ''p'') (drop 1 tok) then
        strip_command_from rest
      else AmbiguousStrip)"

definition strip_exec_prefix :: "argv \<Rightarrow> transparent_strip" where
  "strip_exec_prefix cmd = strip_exec_from (drop 1 cmd)"

definition strip_command_prefix :: "argv \<Rightarrow> transparent_strip" where
  "strip_command_prefix cmd = strip_command_from (drop 1 cmd)"

definition strip_builtin_prefix :: "argv \<Rightarrow> transparent_strip" where
  "strip_builtin_prefix cmd =
     (case get cmd 1 of
        None \<Rightarrow> NotPrefix
      | Some tok \<Rightarrow>
          if starts_with tok ''-'' \<and> tok \<noteq> ''-'' then AmbiguousStrip
          else peeled_from (drop 1 cmd))"

definition strip_transparent_prefix :: "argv \<Rightarrow> transparent_strip" where
  "strip_transparent_prefix cmd =
     (case first cmd of
        None \<Rightarrow> NotPrefix
      | Some h \<Rightarrow>
          if h = [] \<or> h = [CHR 0x00] then NotPrefix
          else let head = base_name h in
            if head = ''exec'' then strip_exec_prefix cmd
            else if head = ''command'' then strip_command_prefix cmd
            else if head = ''builtin'' then strip_builtin_prefix cmd
            else NotPrefix)"

datatype transparent_peel = Ready argv | AmbiguousPeel

fun peel_transparent_rounds :: "nat \<Rightarrow> argv \<Rightarrow> transparent_peel" where
  "peel_transparent_rounds 0 words =
     (if strip_transparent_prefix words = NotPrefix then Ready words else AmbiguousPeel)"
| "peel_transparent_rounds (Suc n) words =
     (case strip_transparent_prefix words of
        NotPrefix \<Rightarrow> Ready words
      | Peeled inner \<Rightarrow> peel_transparent_rounds n inner
      | AmbiguousStrip \<Rightarrow> AmbiguousPeel)"

definition peel_transparent_prefixes :: "argv \<Rightarrow> transparent_peel" where
  "peel_transparent_prefixes words = peel_transparent_rounds MAX_TRANSPARENT_PREFIX_DEPTH words"

subsection \<open>The alternation\<close>

record normalized_peel = wrapper_peel +
  np_ambiguous :: bool

definition merge_round :: "normalized_peel \<Rightarrow> wrapper_peel \<Rightarrow> normalized_peel" where
  "merge_round s w =
     s\<lparr>wp_words := wp_words w,
       wp_has_chdir := wp_has_chdir s \<or> wp_has_chdir w,
       wp_has_split_string := wp_has_split_string s \<or> wp_has_split_string w,
       wp_env_options_uncertain := wp_env_options_uncertain s \<or> wp_env_options_uncertain w,
       wp_exhausted := wp_exhausted s \<or> wp_exhausted w\<rparr>"

text \<open>
  One slice is the same as another here when it has the same length: both are suffixes of
  the same argv, which is what the pointer comparison of the code tests
  (\<open>normalize_round_suffix\<close> below).
\<close>

fun normalize_rounds :: "nat \<Rightarrow> normalized_peel \<Rightarrow> normalized_peel" where
  "normalize_rounds 0 s = s"
| "normalize_rounds (Suc n) s =
     (let s1 = merge_round s (unwrap_wrappers_checked (wp_words s)) in
      if wp_has_split_string s1 \<or> wp_env_options_uncertain s1 then s1
      else case peel_transparent_prefixes (wp_words s1) of
          AmbiguousPeel \<Rightarrow> s1\<lparr>np_ambiguous := True\<rparr>
        | Ready inner \<Rightarrow>
            let s2 = s1\<lparr>wp_words := inner\<rparr> in
            if length inner = length (wp_words s) then s2 else normalize_rounds n s2)"

definition normalize_finish :: "normalized_peel \<Rightarrow> normalized_peel" where
  "normalize_finish s =
     (if \<not> np_ambiguous s \<and> \<not> wp_has_split_string s \<and> \<not> wp_env_options_uncertain s
         \<and> (is_wrapper_command (wp_words s) \<and> is_some (strip_wrapper_command (wp_words s))
            \<or> strip_transparent_prefix (wp_words s) \<noteq> NotPrefix)
      then s\<lparr>wp_exhausted := True\<rparr> else s)"

definition normalize_command_words :: "argv \<Rightarrow> normalized_peel" where
  "normalize_command_words words =
     normalize_finish (normalize_rounds MAX_NORMALIZE_ROUNDS
       \<lparr>wp_words = words, wp_has_chdir = False, wp_has_split_string = False,
        wp_env_options_uncertain = False, wp_exhausted = False, np_ambiguous = False\<rparr>)"

subsection \<open>Both strippers are peelers\<close>

lemma skip_options_ge: "i \<le> skip_options vals i args"
proof (induction vals i args rule: skip_options.induct)
  case (2 vals i tok rest)
  then show ?case
    unfolding skip_options.simps(2)[of vals i tok rest]
    by (auto simp del: skip_options.simps(2) split: list.split intro: Suc_leD)
qed simp

lemma scan_simps [simp]:
  "es_command_start (scan_stop c i) = i"
  "es_command_start (scan_uncertain c i) = i"
  "es_command_start (scan_split c i p) = i"
  "\<not> es_has_split_string (scan_stop c i)"
  "\<not> es_has_split_string (scan_uncertain c i)"
  "es_has_split_string (scan_split c i p)"
  "\<not> es_options_uncertain (scan_stop c i)"
  "es_options_uncertain (scan_uncertain c i)"
  "\<not> es_options_uncertain (scan_split c i p)"
  "es_split_string_script (scan_split c i p) = p"
  "es_split_string_script (scan_stop c i) = None"
  "es_split_string_script (scan_uncertain c i) = None"
  "es_chdir (scan_stop c i) = c"
  "es_chdir (scan_uncertain c i) = c"
  "es_chdir (scan_split c i p) = c"
  by (simp_all add: scan_stop_def scan_uncertain_def scan_split_def)

lemma env_step_break:
  assumes "env_step c i tok rest = Break s"
  shows "i \<le> es_command_start s" "es_options_uncertain s \<longrightarrow> \<not> es_has_split_string s"
    "es_split_string_script s \<noteq> None \<longrightarrow> es_has_split_string s"
  using assms
  by (auto simp: env_step_def env_long_step_def env_short_step_def
      split: if_splits option.splits env_short.splits list.splits)

lemma env_scan_from_facts:
  "i \<le> es_command_start (env_scan_from c i args)
   \<and> (es_options_uncertain (env_scan_from c i args) \<longrightarrow> \<not> es_has_split_string (env_scan_from c i args))
   \<and> (es_split_string_script (env_scan_from c i args) \<noteq> None
        \<longrightarrow> es_has_split_string (env_scan_from c i args))"
proof (induction c i args rule: env_scan_from.induct)
  case (2 c i tok rest)
  show ?case
  proof (cases "env_step c i tok rest")
    case (Break s)
    with env_step_break[OF Break] show ?thesis by simp
  next
    case (Next c')
    with "2.IH"(1)[OF Next] show ?thesis by simp
  next
    case (NextOperand c')
    with "2.IH"(2)[OF NextOperand] show ?thesis by simp
  qed
qed simp

lemma wrapper_inner_start_pos: "wrapper_inner_start head cmd = Some i \<Longrightarrow> 1 \<le> i"
  using skip_options_ge[of 1] env_scan_from_facts[of 1 None "drop 1 cmd"]
  by (fastforce simp: wrapper_inner_start_def mandatory_operand_def env_scan_words_def Let_def
      split: if_splits intro: le_SucI)

lemma strip_wrapper_command_Some:
  assumes "strip_wrapper_command cmd = Some inner"
  obtains head i where "head_base cmd = Some head" "wrapper_inner_start head cmd = Some i"
    "1 \<le> i" "i < length cmd" "inner = drop i cmd"
proof -
  from assms obtain head i where h: "head_base cmd = Some head"
    and i: "wrapper_inner_start head cmd = Some i" and g: "get_from cmd i = Some inner"
    and ne: "inner \<noteq> []"
    by (auto simp: strip_wrapper_command_def bind_eq_Some_conv nonempty_def split: if_splits)
  from g ne have "i < length cmd" "inner = drop i cmd"
    by (auto simp: get_from_def split: if_splits)
  with h i wrapper_inner_start_pos[OF i] that show ?thesis by blast
qed

lemma strict_suffix_drop: "1 \<le> i \<Longrightarrow> i < length cmd \<Longrightarrow> strict_suffix (drop i cmd) cmd"
proof -
  assume "1 \<le> i" "i < length cmd"
  then have "length (drop i cmd) \<noteq> length cmd" by simp
  then have "drop i cmd \<noteq> cmd" by metis
  then show "strict_suffix (drop i cmd) cmd"
    by (simp add: strict_suffix_def Sublist.suffix_drop)
qed

interpretation wrapper: peeler strip_wrapper_command
proof
  fix ws inner :: argv
  assume "strip_wrapper_command ws = Some inner"
  then obtain i where "1 \<le> i" "i < length ws" "inner = drop i ws"
    by (rule strip_wrapper_command_Some)
  then show "strict_suffix inner ws" "inner \<noteq> []"
    using strict_suffix_drop[of i ws] by simp_all
qed

lemma strip_wrapper_is_wrapper: "strip_wrapper_command cmd = Some inner \<Longrightarrow> is_wrapper_command cmd"
  by (erule strip_wrapper_command_Some)
    (auto simp: is_wrapper_command_def wrapper_inner_start_def Let_def split: if_splits)

definition transparent_inner :: "argv \<Rightarrow> argv option" where
  "transparent_inner cmd =
     (case strip_transparent_prefix cmd of Peeled inner \<Rightarrow> Some inner | _ \<Rightarrow> None)"

lemma peeled_from_Peeled: "peeled_from rest = Peeled inner \<longleftrightarrow> inner = rest \<and> rest \<noteq> []"
  by (auto simp: peeled_from_def)

text \<open>The six ways one iteration of the \<open>exec\<close> option loop can go.\<close>

lemma strip_exec_from_cases:
  "strip_exec_from (tok # rest) \<in>
     {AmbiguousStrip, peeled_from rest, Peeled (tok # rest), strip_exec_from rest,
      strip_exec_from (drop 1 rest)}"
  unfolding strip_exec_from.simps(2)
  by (intro if_memI) (simp_all del: strip_exec_from.simps split: list.split)

lemma strip_exec_from_Peeled:
  "strip_exec_from args = Peeled inner \<Longrightarrow> suffix inner args \<and> inner \<noteq> []"
proof (induction "length args" arbitrary: args rule: less_induct)
  case less
  show ?case
  proof (cases args)
    case (Cons tok rest)
    from strip_exec_from_cases[of tok rest] less.prems Cons
    consider "peeled_from rest = Peeled inner" | "inner = tok # rest"
      | "strip_exec_from rest = Peeled inner" | "strip_exec_from (drop 1 rest) = Peeled inner"
      by auto
    then show ?thesis
    proof cases
      case 4
      from less.hyps[OF _ 4] Cons have "suffix inner (drop 1 rest)" "inner \<noteq> []" by simp_all
      moreover have "suffix (drop 1 rest) args"
        using Cons by (simp add: suffix_ConsI Sublist.suffix_drop)
      ultimately show ?thesis by (blast intro: suffix_order.trans)
    qed (use Cons less.hyps[of rest] in \<open>auto simp: peeled_from_Peeled suffix_ConsI\<close>)
  qed (use less.prems in simp)
qed

lemma strip_command_from_Peeled:
  "strip_command_from args = Peeled inner \<Longrightarrow> suffix inner args \<and> inner \<noteq> []"
proof (induction args rule: strip_command_from.induct)
  case (2 tok rest)
  show ?case
    using "2.prems" "2.IH"
    by (auto simp: peeled_from_Peeled suffix_ConsI split: if_splits)
qed simp

lemma strip_transparent_Peeled:
  assumes "strip_transparent_prefix cmd = Peeled inner"
  shows "cmd \<noteq> [] \<and> suffix inner (drop 1 cmd) \<and> inner \<noteq> []"
  using assms strip_exec_from_Peeled[of "drop 1 cmd" inner]
    strip_command_from_Peeled[of "drop 1 cmd" inner]
  by (cases cmd)
    (auto simp: strip_transparent_prefix_def strip_exec_prefix_def strip_command_prefix_def
      strip_builtin_prefix_def Let_def peeled_from_Peeled split: if_splits option.splits)

interpretation transparent: peeler transparent_inner
proof
  fix ws inner :: argv
  assume "transparent_inner ws = Some inner"
  then have "strip_transparent_prefix ws = Peeled inner"
    by (simp add: transparent_inner_def split: transparent_strip.splits)
  from strip_transparent_Peeled[OF this]
  have h: "ws \<noteq> []" "suffix inner (drop 1 ws)" "inner \<noteq> []" by simp_all
  then have "suffix inner ws" "length inner < length ws"
    using suffix_length_le[of inner "drop 1 ws"]
    by (cases ws; auto intro: suffix_ConsI)+
  with h show "strict_suffix inner ws" "inner \<noteq> []"
    by (auto simp: strict_suffix_def)
qed

subsection \<open>What the bounded loops compute\<close>

lemma unwrap_rounds_words:
  "wp_words (unwrap_rounds n p) = iter_strip strip_wrapper_command n (wp_words p)"
proof (induction n arbitrary: p)
  case (Suc n)
  have "wp_words (note_env p) = wp_words p" by (simp add: note_env_def Let_def)
  with Suc show ?case by (simp add: Let_def split: option.split)
qed simp

lemma note_env_words [simp]: "wp_words (note_env p) = wp_words p"
  by (simp add: note_env_def Let_def)

lemma unwrap_rounds_exhausted:
  "wp_exhausted (unwrap_rounds n p) \<longleftrightarrow>
     strip_wrapper_command (wp_words (unwrap_rounds n p)) \<noteq> None"
proof (induction n arbitrary: p)
  case 0
  show ?case
    by (cases "strip_wrapper_command (wp_words p)") (auto dest: strip_wrapper_is_wrapper)
next
  case (Suc n)
  then show ?case by (simp add: Let_def split: option.split)
qed

text \<open>The argv on which peeling must stop: a leading \<open>env\<close> that packs or hides its command.\<close>

definition opaque_env :: "argv \<Rightarrow> bool" where
  "opaque_env ws \<longleftrightarrow> head_base ws = Some ''env''
     \<and> (es_has_split_string (env_scan_words ws) \<or> es_options_uncertain (env_scan_words ws))"

lemma opaque_env_not_stripped:
  assumes "opaque_env ws"
  shows "strip_wrapper_command ws = None"
proof (cases "strip_wrapper_command ws")
  case (Some inner)
  then obtain head i where "head_base ws = Some head" "wrapper_inner_start head ws = Some i"
    by (rule strip_wrapper_command_Some)
  with assms show ?thesis
    by (auto simp: opaque_env_def wrapper_inner_start_def Let_def)
qed simp

lemma note_env_flags:
  "wp_has_split_string (note_env p) \<or> wp_env_options_uncertain (note_env p) \<longleftrightarrow>
     wp_has_split_string p \<or> wp_env_options_uncertain p \<or> opaque_env (wp_words p)"
  by (auto simp: note_env_def opaque_env_def Let_def)

lemma unwrap_rounds_opaque:
  "wp_has_split_string (unwrap_rounds n p) \<or> wp_env_options_uncertain (unwrap_rounds n p) \<Longrightarrow>
   \<not> wp_has_split_string p \<Longrightarrow> \<not> wp_env_options_uncertain p \<Longrightarrow>
   opaque_env (wp_words (unwrap_rounds n p))"
proof (induction n arbitrary: p)
  case (Suc n)
  show ?case
  proof (cases "strip_wrapper_command (wp_words p)")
    case None
    with Suc.prems note_env_flags[of p] show ?thesis by (simp add: Let_def)
  next
    case (Some inner)
    then have "\<not> opaque_env (wp_words p)" using opaque_env_not_stripped by fastforce
    with Suc.prems note_env_flags[of p] Some Suc.IH[of "note_env p\<lparr>wp_words := inner\<rparr>"]
    show ?thesis by (simp add: Let_def)
  qed
qed simp

lemma peel_transparent_rounds_Ready:
  "peel_transparent_rounds n ws = Ready r \<Longrightarrow>
     r = iter_strip transparent_inner n ws \<and> strip_transparent_prefix r = NotPrefix"
  by (induction n arbitrary: ws)
    (auto simp: transparent_inner_def split: if_splits transparent_strip.splits)

lemma unwrap_wrappers_checked_words:
  "wp_words (unwrap_wrappers_checked ws) = iter_strip strip_wrapper_command MAX_WRAPPER_DEPTH ws"
  by (simp add: unwrap_wrappers_checked_def unwrap_rounds_words)

lemma unwrap_wrappers_eq:
  "unwrap_wrappers ws = iter_strip strip_wrapper_command MAX_WRAPPER_DEPTH ws"
  by (simp add: unwrap_wrappers_def unwrap_wrappers_checked_words)

lemma unwrap_wrappers_suffix: "suffix (unwrap_wrappers ws) ws"
  by (simp add: unwrap_wrappers_eq wrapper.iter_suffix)

lemma unwrap_wrappers_checked_exhausted:
  "wp_exhausted (unwrap_wrappers_checked ws) \<longleftrightarrow> strip_wrapper_command (unwrap_wrappers ws) \<noteq> None"
  unfolding unwrap_wrappers_def unwrap_wrappers_checked_def by (rule unwrap_rounds_exhausted)

lemma unwrap_wrappers_checked_opaque:
  "wp_has_split_string (unwrap_wrappers_checked ws) \<or>
   wp_env_options_uncertain (unwrap_wrappers_checked ws) \<Longrightarrow> opaque_env (unwrap_wrappers ws)"
  unfolding unwrap_wrappers_def unwrap_wrappers_checked_def
  by (rule unwrap_rounds_opaque) simp_all

subsection \<open>Normalisation\<close>

lemmas peel_facts = wrapper.iter_suffix transparent.iter_suffix unwrap_wrappers_suffix

lemma normalize_finish_simps [simp]:
  "wp_words (normalize_finish s) = wp_words s"
  "wp_has_split_string (normalize_finish s) = wp_has_split_string s"
  "wp_env_options_uncertain (normalize_finish s) = wp_env_options_uncertain s"
  "np_ambiguous (normalize_finish s) = np_ambiguous s"
  by (simp_all add: normalize_finish_def)

lemma merge_round_simps [simp]:
  "wp_words (merge_round s w) = wp_words w"
  "np_ambiguous (merge_round s w) = np_ambiguous s"
  "wp_exhausted (merge_round s w) = (wp_exhausted s \<or> wp_exhausted w)"
  "wp_has_split_string (merge_round s w) = (wp_has_split_string s \<or> wp_has_split_string w)"
  "wp_env_options_uncertain (merge_round s w) =
     (wp_env_options_uncertain s \<or> wp_env_options_uncertain w)"
  by (simp_all add: merge_round_def)

text \<open>One round of the loop: where it can leave the argv.\<close>

lemma normalize_round_suffix:
  "suffix (wp_words (unwrap_wrappers_checked ws)) ws"
  "peel_transparent_prefixes ws = Ready r \<Longrightarrow> suffix r ws"
  using peel_transparent_rounds_Ready[of MAX_TRANSPARENT_PREFIX_DEPTH ws r]
    transparent.iter_suffix[of MAX_TRANSPARENT_PREFIX_DEPTH ws]
  by (auto simp: unwrap_wrappers_checked_words wrapper.iter_suffix peel_transparent_prefixes_def)

lemma normalize_rounds_suffix: "suffix (wp_words (normalize_rounds n s)) (wp_words s)"
proof (induction n arbitrary: s)
  case (Suc n)
  let ?w = "unwrap_wrappers_checked (wp_words s)"
  have w: "suffix (wp_words ?w) (wp_words s)" by (rule normalize_round_suffix)
  show ?case
  proof (cases "peel_transparent_prefixes (wp_words ?w)")
    case (Ready inner)
    with w normalize_round_suffix(2)[OF Ready] have i: "suffix inner (wp_words s)"
      by (blast intro: suffix_order.trans)
    from Suc[of "merge_round s ?w\<lparr>wp_words := inner\<rparr>"]
    have "suffix (wp_words (normalize_rounds n (merge_round s ?w\<lparr>wp_words := inner\<rparr>))) inner"
      by simp
    with i w Ready show ?thesis
      by (auto simp: Let_def intro: suffix_order.trans)
  qed (use w in \<open>simp add: Let_def\<close>)
qed simp

lemma normalize_rounds_opaque:
  "wp_has_split_string (normalize_rounds n s) \<or> wp_env_options_uncertain (normalize_rounds n s) \<Longrightarrow>
   \<not> wp_has_split_string s \<Longrightarrow> \<not> wp_env_options_uncertain s \<Longrightarrow>
   opaque_env (wp_words (normalize_rounds n s))"
proof (induction n arbitrary: s)
  case (Suc n)
  let ?w = "unwrap_wrappers_checked (wp_words s)"
  show ?case
  proof (cases "wp_has_split_string ?w \<or> wp_env_options_uncertain ?w")
    case True
    with unwrap_wrappers_checked_opaque[OF True] show ?thesis
      by (auto simp: Let_def unwrap_wrappers_def)
  next
    case False
    with Suc.prems show ?thesis
      by (auto simp: Let_def split: transparent_peel.splits if_splits intro!: Suc.IH)
  qed
qed simp

lemma normalize_rounds_short:
  assumes "length (wp_words s) \<le> n" "length (wp_words s) \<le> Suc MAX_WRAPPER_DEPTH"
    and "\<not> wp_exhausted s"
  shows "\<not> wp_exhausted (normalize_rounds n s)
    \<and> (np_ambiguous (normalize_rounds n s) \<or> wp_has_split_string (normalize_rounds n s)
       \<or> wp_env_options_uncertain (normalize_rounds n s)
       \<or> strip_wrapper_command (wp_words (normalize_rounds n s)) = None
         \<and> strip_transparent_prefix (wp_words (normalize_rounds n s)) = NotPrefix)"
  using assms
proof (induction n arbitrary: s)
  case 0
  then show ?case by (simp add: wrapper.strip_empty strip_transparent_prefix_def)
next
  case (Suc n)
  let ?w = "unwrap_wrappers_checked (wp_words s)"
  have fixd: "strip_wrapper_command (wp_words ?w) = None"
    using Suc.prems wrapper.iter_reaches_fixpoint by (simp add: unwrap_wrappers_checked_words)
  from fixd have ex: "\<not> wp_exhausted ?w"
    by (simp add: unwrap_wrappers_checked_exhausted unwrap_wrappers_def)
  show ?case
  proof (cases "peel_transparent_prefixes (wp_words ?w)")
    case (Ready inner)
    have np: "strip_transparent_prefix inner = NotPrefix"
      using Ready peel_transparent_rounds_Ready by (simp add: peel_transparent_prefixes_def)
    have sw: "suffix (wp_words ?w) (wp_words s)" and si: "suffix inner (wp_words ?w)"
      using normalize_round_suffix Ready by blast+
    then have len: "length inner \<le> length (wp_words ?w)" "length (wp_words ?w) \<le> length (wp_words s)"
      by (auto dest: suffix_length_le)
    show ?thesis
    proof (cases "length inner = length (wp_words s)")
      case True
      with len si have "inner = wp_words ?w" by (auto intro: suffix_same_length)
      with True Ready fixd ex np Suc.prems show ?thesis by (simp add: Let_def)
    next
      case False
      with len Suc.prems ex Ready Suc.IH[of "merge_round s ?w\<lparr>wp_words := inner\<rparr>"]
      show ?thesis by (auto simp: Let_def)
    qed
  qed (use ex Suc.prems in \<open>simp add: Let_def\<close>)
qed

definition normalize_start :: "argv \<Rightarrow> normalized_peel" where
  "normalize_start words =
     \<lparr>wp_words = words, wp_has_chdir = False, wp_has_split_string = False,
      wp_env_options_uncertain = False, wp_exhausted = False, np_ambiguous = False\<rparr>"

lemma normalize_command_words_eq:
  "normalize_command_words ws =
     normalize_finish (normalize_rounds MAX_NORMALIZE_ROUNDS (normalize_start ws))"
  by (simp add: normalize_command_words_def normalize_start_def)

lemma normalize_start_simps [simp]:
  "wp_words (normalize_start ws) = ws" "\<not> wp_has_split_string (normalize_start ws)"
  "\<not> wp_env_options_uncertain (normalize_start ws)" "\<not> wp_exhausted (normalize_start ws)"
  by (simp_all add: normalize_start_def)

lemma normalize_words_suffix: "suffix (wp_words (normalize_command_words ws)) ws"
  using normalize_rounds_suffix[of MAX_NORMALIZE_ROUNDS "normalize_start ws"]
  by (simp add: normalize_command_words_eq)

lemma normalize_opaque:
  "wp_has_split_string (normalize_command_words ws) \<or>
   wp_env_options_uncertain (normalize_command_words ws) \<Longrightarrow>
   opaque_env (wp_words (normalize_command_words ws))"
  using normalize_rounds_opaque[of MAX_NORMALIZE_ROUNDS "normalize_start ws"]
  by (simp add: normalize_command_words_eq)

lemma normalize_unflagged:
  assumes "\<not> np_ambiguous (normalize_command_words ws)"
    "\<not> wp_has_split_string (normalize_command_words ws)"
    "\<not> wp_env_options_uncertain (normalize_command_words ws)"
    "\<not> wp_exhausted (normalize_command_words ws)"
  shows "strip_wrapper_command (wp_words (normalize_command_words ws)) = None"
    "strip_transparent_prefix (wp_words (normalize_command_words ws)) = NotPrefix"
  using assms strip_wrapper_is_wrapper[of "wp_words (normalize_command_words ws)"]
  by (cases "strip_wrapper_command (wp_words (normalize_command_words ws))";
      auto simp: normalize_command_words_eq normalize_finish_def split: if_splits)+

lemma normalize_short_not_exhausted:
  "length ws \<le> Suc MAX_WRAPPER_DEPTH \<Longrightarrow> \<not> wp_exhausted (normalize_command_words ws)"
  using normalize_rounds_short[of "normalize_start ws" MAX_NORMALIZE_ROUNDS]
  by (auto simp: normalize_command_words_eq normalize_finish_def MAX_NORMALIZE_ROUNDS_def
      MAX_WRAPPER_DEPTH_def MAX_TRANSPARENT_PREFIX_DEPTH_def)

subsection \<open>Packed \<open>env\<close> commands\<close>

text \<open>A token that the scanner passes over whatever follows it.\<close>

definition env_inert :: "string \<Rightarrow> bool" where
  "env_inert tok = (case env_step None 0 tok [] of Next _ \<Rightarrow> True | _ \<Rightarrow> False)"

fun is_next :: "env_step \<Rightarrow> bool" where
  "is_next (Next _) = True"
| "is_next (Break _) = False"
| "is_next (NextOperand _) = False"

lemma is_next_iff: "is_next st \<longleftrightarrow> (\<exists>c. st = Next c)"
  by (cases st) simp_all

lemmas is_next_distribs =
  if_distrib[of is_next] list.case_distrib[of is_next] option.case_distrib[of is_next]
  env_short.case_distrib[of is_next]

lemma env_long_step_next: "is_next (env_long_step c i tok rest) = is_next (env_long_step None 0 tok [])"
  unfolding env_long_step_def
  by (cases rest) (simp_all only: is_next_distribs is_next.simps list.case)

lemma env_short_step_next: "is_next (env_short_step c i tok rest) = is_next (env_short_step None 0 tok [])"
  unfolding env_short_step_def
  by (cases rest) (simp_all only: is_next_distribs is_next.simps list.case)

lemma env_step_next: "is_next (env_step c i tok rest) = is_next (env_step None 0 tok [])"
  unfolding env_step_def
  by (simp only: is_next_distribs is_next.simps env_long_step_next[of c i tok rest]
      env_short_step_next[of c i tok rest])

lemma env_inert_next: "env_inert tok \<Longrightarrow> \<exists>c'. env_step c i tok rest = Next c'"
  using env_step_next[of c i tok rest]
  by (auto simp: env_inert_def is_next_iff split: env_step.splits)

lemma env_scan_from_inert:
  "list_all env_inert opts \<Longrightarrow>
     \<exists>c'. env_scan_from c i (opts @ rest) = env_scan_from c' (i + length opts) rest"
proof (induction opts arbitrary: c i)
  case (Cons tok opts)
  then obtain c1 where "env_step c i tok (opts @ rest) = Next c1"
    using env_inert_next by fastforce
  with Cons.IH[of c1 "Suc i"] Cons.prems show ?case by auto
qed auto

lemma env_scan_split:
  assumes "list_all env_inert opts" and "flag = ''-S'' \<or> flag = ''--split-string''"
  shows "es_has_split_string (env_scan_words (e # opts @ flag # rest))"
    and "es_split_string_script (env_scan_words (e # opts @ flag # rest)) = next_payload rest"
proof -
  obtain c where "env_scan_words (e # opts @ flag # rest) =
      env_scan_from c (1 + length opts) (flag # rest)"
    using env_scan_from_inert[OF assms(1), of None 1 "flag # rest"]
    by (auto simp: env_scan_words_def)
  moreover have "env_step c (1 + length opts) flag rest =
      Break (scan_split c (1 + length opts) (next_payload rest))"
    using assms(2)
    by (elim disjE; simp add: env_step_def env_short_step_def env_long_step_def
        classify_env_short_def decode_env_option_token_def has_any_def strip_prefix_def)
  ultimately show "es_has_split_string (env_scan_words (e # opts @ flag # rest))"
    "es_split_string_script (env_scan_words (e # opts @ flag # rest)) = next_payload rest"
    by simp_all
qed

subsection \<open>Shell quoting\<close>

text \<open>How a shell user may spell a literal: single quotes, double quotes, backslashes.\<close>

datatype quoting = SingleQuoted | DoubleQuoted | Backslashed

definition spell_char :: "quoting \<Rightarrow> char \<Rightarrow> string" where
  "spell_char q c =
     (case q of
        SingleQuoted \<Rightarrow> if c = CHR 0x27 then [CHR 0x27, CHR 0x5C, CHR 0x27, CHR 0x27] else [c]
      | DoubleQuoted \<Rightarrow> if c \<in> {CHR ''$'', CHR 0x60, CHR 0x22, CHR 0x5C} then [CHR 0x5C, c] else [c]
      | Backslashed \<Rightarrow> [CHR 0x5C, c])"

definition spell :: "quoting \<times> string \<Rightarrow> string" where
  "spell p =
     (case p of (q, s) \<Rightarrow>
        let body = concat (map (spell_char q) s) in
        case q of
          SingleQuoted \<Rightarrow> [CHR 0x27] @ body @ [CHR 0x27]
        | DoubleQuoted \<Rightarrow> [CHR 0x22] @ body @ [CHR 0x22]
        | Backslashed \<Rightarrow> body)"

lemma append_Cons_section: "(@) (c # s) = (\<lambda>x. c # s @ x)"
  by (simp add: fun_eq_iff)

lemma append_Nil_section: "(@) [] = (\<lambda>x. x)"
  by (simp add: fun_eq_iff)

lemma decode_quoted_body:
  "decode_spelling (Some CHR 0x27) (concat (map (spell_char SingleQuoted) s) @ CHR 0x27 # r) =
     map_option ((@) s) (decode_spelling None r)"
  "decode_spelling (Some CHR 0x22) (concat (map (spell_char DoubleQuoted) s) @ CHR 0x22 # r) =
     map_option ((@) s) (decode_spelling None r)"
  "decode_spelling None (concat (map (spell_char Backslashed) s) @ r) =
     map_option ((@) s) (decode_spelling None r)"
  by (induction s) (auto simp: spell_char_def option.map_comp comp_def option.map_ident
      append_Cons_section append_Nil_section)

lemma decode_spell: "decode_spelling None (spell p @ r) = map_option ((@) (snd p)) (decode_spelling None r)"
proof (cases p)
  case (Pair q s)
  then show ?thesis
    using decode_quoted_body[of s r] by (cases q) (simp_all add: spell_def Let_def)
qed

lemma decode_spells:
  "decode_spelling None (concat (map spell ps)) = Some (concat (map snd ps))"
  by (induction ps) (simp_all add: decode_spell)

subsection \<open>Properties\<close>

text \<open>C25: peeling wrappers computes the iterated stripper, its result is a slice at the end of
  the argv, it is nonempty for a nonempty argv, and the peel reports exhaustion exactly when
  one more wrapper could still be stripped.\<close>

theorem unwrap_wrappers_checked_spec:
  "unwrap_wrappers ws = iter_strip strip_wrapper_command 8 ws
   \<and> suffix (unwrap_wrappers ws) ws
   \<and> (unwrap_wrappers ws = [] \<longleftrightarrow> ws = [])
   \<and> (wp_exhausted (unwrap_wrappers_checked ws) \<longleftrightarrow>
        strip_wrapper_command (unwrap_wrappers ws) \<noteq> None)"
  using wrapper.iter_inhabited[of ws MAX_WRAPPER_DEPTH]
    wrapper.iter_fixpoint[OF wrapper.strip_empty, of MAX_WRAPPER_DEPTH]
  by (auto simp: unwrap_wrappers_suffix unwrap_wrappers_checked_exhausted)
    (auto simp: unwrap_wrappers_eq MAX_WRAPPER_DEPTH_def)

text \<open>Normalisation returns a slice of the argv; when it raises no flag, no wrapper and no
  transparent prefix is left at its head, and an argv of at most nine words never exhausts the
  round budget, so every such argv is fully normalised or flagged for a prompt.\<close>

theorem normalize_command_words_spec:
  assumes "length ws \<le> 9"
    and "\<not> np_ambiguous (normalize_command_words ws)"
    and "\<not> wp_has_split_string (normalize_command_words ws)"
    and "\<not> wp_env_options_uncertain (normalize_command_words ws)"
  shows "suffix (wp_words (normalize_command_words ws)) ws
    \<and> \<not> wp_exhausted (normalize_command_words ws)
    \<and> strip_wrapper_command (wp_words (normalize_command_words ws)) = None
    \<and> strip_transparent_prefix (wp_words (normalize_command_words ws)) = NotPrefix"
  using assms normalize_words_suffix normalize_unflagged normalize_short_not_exhausted
  by (simp add: MAX_WRAPPER_DEPTH_def)

lemma normalize_command_words_spec_witness:
  "\<not> wp_exhausted (normalize_command_words
       [''command'', ''timeout'', ''5'', ''env'', ''A=1'', ''rm'', ''-rf''])
   \<and> wp_words (normalize_command_words
       [''command'', ''timeout'', ''5'', ''env'', ''A=1'', ''rm'', ''-rf'']) = [''rm'', ''-rf'']"
proof -
  let ?ws = "[''command'', ''timeout'', ''5'', ''env'', ''A=1'', ''rm'', ''-rf'']"
  have "\<not> np_ambiguous (normalize_command_words ?ws)" by code_simp
  moreover have "\<not> wp_has_split_string (normalize_command_words ?ws)" by code_simp
  moreover have "\<not> wp_env_options_uncertain (normalize_command_words ?ws)" by code_simp
  moreover have "wp_words (normalize_command_words ?ws) = [''rm'', ''-rf'']" by code_simp
  ultimately show ?thesis using normalize_command_words_spec[of ?ws] by simp
qed

text \<open>An \<open>env\<close> that packs its command with \<open>-S\<close> or \<open>--split-string\<close>, after any run of inert
  options and assignments, is never peeled: the stripper refuses, the peel carries the
  split-string flag, and the packed script is offered to the deny recursion exactly when it is
  a high-confidence literal.\<close>

theorem env_split_string_never_peeled:
  assumes "base_name e = ''env''" and "list_all env_inert opts"
    and "flag = ''-S'' \<or> flag = ''--split-string''"
  shows "strip_wrapper_command (e # opts @ flag # payload # rest) = None
    \<and> wp_has_split_string (unwrap_wrappers_checked (e # opts @ flag # payload # rest))
    \<and> unwrap_wrappers (e # opts @ flag # payload # rest) = e # opts @ flag # payload # rest
    \<and> env_split_string_script (e # opts @ flag # payload # rest) =
        take_high_confidence_payload payload"
proof -
  let ?ws = "e # opts @ flag # payload # rest"
  have h: "head_base ?ws = Some ''env''" using assms(1) by (simp add: head_base_def)
  note s = env_scan_split[OF assms(2,3), of e "payload # rest"]
  have "opaque_env ?ws" using h s(1) by (simp add: opaque_env_def)
  then have none: "strip_wrapper_command ?ws = None" by (rule opaque_env_not_stripped)
  have "wp_has_split_string (unwrap_wrappers_checked ?ws)"
    using h s(1) none
    by (simp add: unwrap_wrappers_checked_def MAX_WRAPPER_DEPTH_def numeral_eq_Suc note_env_def
        Let_def)
  with none h s show ?thesis
    by (simp add: unwrap_wrappers_eq wrapper.iter_fixpoint env_split_string_script_def
        next_payload_def Let_def)
qed

lemma env_split_string_never_peeled_witness:
  "env_split_string_script [''/usr/bin/env'', ''A=1'', ''-i'', ''-S'', ''rm -rf /''] = Some ''rm -rf /''"
proof -
  have "base_name ''/usr/bin/env'' = ''env''" by code_simp
  moreover have "list_all env_inert [''A=1'', ''-i'']" by code_simp
  moreover have "take_high_confidence_payload ''rm -rf /'' = Some ''rm -rf /''" by code_simp
  ultimately show ?thesis
    using env_split_string_never_peeled[of "''/usr/bin/env''" "[''A=1'', ''-i'']" "''-S''" "''rm -rf /''" "[]"]
    by simp
qed

text \<open>Decoding a shell literal inverts quoting: a word spelled as any concatenation of
  single-quoted, double-quoted and backslash-escaped pieces decodes to the concatenation of the
  texts.\<close>

theorem decode_shell_literal_roundtrip:
  "decode_shell_literal_spelling (concat (map spell ps)) = Some (concat (map snd ps))"
  by (simp add: decode_shell_literal_spelling_def decode_spells)

end
