(* ===== verification/Bash_Splitting.thy ===== *)
theory Bash_Splitting
  imports Rust_Str Wrappers
begin

text \<open>
  Syntax trees as the program sees them through \<open>tree_sitter::Node\<close>: the grammar and its parser
  are a third-party library, so a parser is a parameter \<open>string \<Rightarrow> node option\<close> of every
  definition that parses.  A node carries its kind, whether it is named, the field name under
  which its parent holds it, whether it is or contains an error, and its byte range.

  The decomposition of a Bash script into plain word-only commands
  (\<open>permission/bash_command_splitting.rs\<close>): the allowlist walk over the syntax tree, the words
  and the span of each command, the primary command that the permission prompt highlights.
\<close>

section \<open>Syntax tree\<close>

datatype node = Node
  (kind: string) (named: bool) (field: "string option") (has_error: bool)
  (start_byte: nat) (end_byte: nat) (children: "node list")

type_synonym parser = "string \<Rightarrow> node option"

definition named_children :: "node \<Rightarrow> node list" where
  "named_children n = filter named (children n)"

definition child_by_field :: "node \<Rightarrow> string \<Rightarrow> node option" where
  "child_by_field n f = find (\<lambda>c. field c = Some f) (children n)"

text \<open>\<open>utf8_text\<close>: the bytes of the node, when they are in range and whole characters.\<close>

definition node_text :: "string \<Rightarrow> node \<Rightarrow> string option" where
  "node_text src n =
     (if start_byte n \<le> end_byte n \<and> end_byte n \<le> length src
         \<and> is_char_boundary src (start_byte n) \<and> is_char_boundary src (end_byte n)
      then Some (drop (start_byte n) (take (end_byte n) src))
      else None)"

lemma size_children: "c \<in> set (children n) \<Longrightarrow> size c < size n"
proof -
  assume "c \<in> set (children n)"
  then have "size c \<le> size_list size (children n)"
    by (rule size_list_estimation') simp
  then show ?thesis by (cases n) simp
qed

lemma size_children_list: "size_list size (children n) < size n"
  by (cases n) simp

text \<open>Every node below a node, the node included.\<close>

fun nodes :: "node \<Rightarrow> node list" where
  "nodes (Node k nm f e a b cs) = Node k nm f e a b cs # concat (map nodes cs)"

lemma nodes_self [simp]: "n \<in> set (nodes n)"
  by (cases n) simp

lemma nodes_unfold: "nodes n = n # concat (map nodes (children n))"
  by (cases n) simp

lemma nodes_trans: "c \<in> set (children n) \<Longrightarrow> set (nodes c) \<subseteq> set (nodes n)"
  by (cases n) auto

lemma size_list_rev: "size_list size (rev cs) = size_list size cs"
  by (induction cs) (simp_all add: size_list_append)

text \<open>
  The two work-list walks of the code: children pushed in order, so that the last one is
  visited first, or pushed in reverse, so that nodes come in source order.  \<open>descend\<close> says
  whether the children of a node are visited.
\<close>

function walk_lifo :: "(node \<Rightarrow> bool) \<Rightarrow> node list \<Rightarrow> node list" where
  "walk_lifo descend [] = []"
| "walk_lifo descend (n # stk) =
     n # walk_lifo descend ((if descend n then rev (children n) else []) @ stk)"
  by pat_completeness auto
termination
proof (relation "measure (\<lambda>(_, stk). size_list size stk)")
  fix descend :: "node \<Rightarrow> bool" and n stk
  show "((descend, (if descend n then rev (children n) else []) @ stk), descend, n # stk)
      \<in> measure (\<lambda>(_, stk). size_list size stk)"
    using size_children_list[of n] by (auto simp: size_list_append size_list_rev)
qed simp

function walk_order :: "(node \<Rightarrow> bool) \<Rightarrow> node list \<Rightarrow> node list" where
  "walk_order descend [] = []"
| "walk_order descend (n # stk) =
     n # walk_order descend ((if descend n then children n else []) @ stk)"
  by pat_completeness auto
termination
proof (relation "measure (\<lambda>(_, stk). size_list size stk)")
  fix descend :: "node \<Rightarrow> bool" and n stk
  show "((descend, (if descend n then children n else []) @ stk), descend, n # stk)
      \<in> measure (\<lambda>(_, stk). size_list size stk)"
    using size_children_list[of n] by (auto simp: size_list_append)
qed simp

lemma walk_lifo_set:
  "set (walk_lifo (\<lambda>_. True) stk) = (\<Union>n \<in> set stk. set (nodes n))"
proof (induction "\<lambda>_::node. True" stk rule: walk_lifo.induct)
  case (2 n stk)
  then show ?case by (auto simp: nodes_unfold[of n])
qed simp

lemma walk_lifo_mset:
  "mset (walk_lifo (\<lambda>_. True) stk) = mset (concat (map nodes stk))"
proof (induction "\<lambda>_::node. True" stk rule: walk_lifo.induct)
  case (2 n stk)
  have "mset (concat (map nodes (rev cs))) = mset (concat (map nodes cs))" for cs
    by (induction cs) simp_all
  with 2 show ?case by (simp add: nodes_unfold[of n])
qed simp

lemma walk_order_all: "walk_order (\<lambda>_. True) stk = concat (map nodes stk)"
proof (induction "\<lambda>_::node. True" stk rule: walk_order.induct)
  case (2 n stk)
  then show ?case by (simp add: nodes_unfold[of n])
qed simp

lemma walk_order_subset: "set (walk_order descend stk) \<subseteq> (\<Union>n \<in> set stk. set (nodes n))"
proof (induction descend stk rule: walk_order.induct)
  case (2 descend n stk)
  then show ?case by (auto simp: nodes_unfold[of n] split: if_splits)
qed simp

declare walk_lifo.simps [simp del] walk_order.simps [simp del]

text \<open>A word that holds a slice of the source, as the demonstration parsers build it.\<close>

definition leaf :: "string \<Rightarrow> bool \<Rightarrow> nat \<Rightarrow> nat \<Rightarrow> node" where
  "leaf k nm a b = Node k nm None False a b []"

section \<open>Bash splitting\<close>

record plain_command =
  pc_words :: argv
  pc_span_start :: nat
  pc_span_end :: nat

definition spans_whole_script :: "plain_command \<Rightarrow> string \<Rightarrow> bool" where
  "spans_whole_script c script =
     (case (str_get_to script (pc_span_start c), str_get_from script (pc_span_end c)) of
        (Some before, Some after) \<Rightarrow> trim before = [] \<and> trim after = []
      | _ \<Rightarrow> False)"

definition ALLOWED_KINDS :: "string list" where
  "ALLOWED_KINDS =
     [''program'', ''list'', ''pipeline'', ''command'', ''command_name'', ''word'', ''string'',
      ''string_content'', ''raw_string'', ''number'', ''concatenation'', ''variable_assignment'',
      ''variable_name'', ''redirected_statement'', ''file_redirect'', ''file_descriptor'',
      ''comment'', ''heredoc_redirect'', ''heredoc_start'', ''heredoc_body'', ''heredoc_content'',
      ''heredoc_end'']"

definition DQUOTE :: string where "DQUOTE = [CHR 0x22]"
definition SQUOTE :: string where "SQUOTE = [CHR 0x27]"

definition ALLOWED_PUNCT_TOKENS :: "string list" where
  "ALLOWED_PUNCT_TOKENS =
     [''&&'', ''||'', '';'', ''|'', DQUOTE, SQUOTE, ''='', ''>'', ''>>'', ''<'', ''<<'', ''>&'',
      ''&>'', ''&>>'']"

text \<open>The two rejections of the walk, on one node.\<close>

definition node_allowed :: "node \<Rightarrow> bool" where
  "node_allowed n =
     (if named n then kind n \<in> set ALLOWED_KINDS
      else \<not> (has_any (kind n) ''&;|'' \<and> kind n \<notin> set ALLOWED_PUNCT_TOKENS)
           \<and> (kind n \<in> set ALLOWED_PUNCT_TOKENS \<or> trim (kind n) = []))"

text \<open>What one child of a \<open>command\<close> node adds: its text and the node whose span it is.\<close>

datatype word_piece = SkipChild | WordAt string nat nat | RejectChild

definition word_piece_at :: "string \<Rightarrow> node \<Rightarrow> word_piece" where
  "word_piece_at src n =
     (case node_text src n of
        None \<Rightarrow> RejectChild | Some t \<Rightarrow> WordAt t (start_byte n) (end_byte n))"

definition plain_string_content :: "node \<Rightarrow> node option" where
  "plain_string_content n =
     (case children n of
        [a, b, c] \<Rightarrow>
          if kind a = DQUOTE \<and> kind b = ''string_content'' \<and> kind c = DQUOTE then Some b else None
      | _ \<Rightarrow> None)"

definition command_child :: "string \<Rightarrow> node \<Rightarrow> word_piece" where
  "command_child src c =
     (if kind c = ''variable_assignment'' then SkipChild
      else if kind c = ''command_name'' then
        (case first (named_children c) of
           None \<Rightarrow> RejectChild
         | Some w \<Rightarrow> if kind w \<noteq> ''word'' then RejectChild else word_piece_at src w)
      else if kind c = ''word'' \<or> kind c = ''number'' then word_piece_at src c
      else if kind c = ''string'' then
        (case plain_string_content c of
           None \<Rightarrow> RejectChild
         | Some content \<Rightarrow>
             (case node_text src content of
                None \<Rightarrow> RejectChild
              | Some t \<Rightarrow> WordAt t (start_byte c) (end_byte c)))
      else if kind c = ''raw_string'' then
        (case Option.bind (Option.bind (node_text src c) (\<lambda>r. strip_prefix r SQUOTE))
                (\<lambda>r. strip_suffix r SQUOTE) of
           None \<Rightarrow> RejectChild
         | Some t \<Rightarrow> WordAt t (start_byte c) (end_byte c))
      else if kind c = ''concatenation'' then word_piece_at src c
      else RejectChild)"

text \<open>The loop over the named children: words so far, first start and last end.\<close>

fun collect_words ::
  "string \<Rightarrow> node list \<Rightarrow> argv \<Rightarrow> nat option \<Rightarrow> nat option \<Rightarrow> (argv \<times> nat option \<times> nat option) option"
where
  "collect_words src [] ws a b = Some (ws, a, b)"
| "collect_words src (c # cs) ws a b =
     (case command_child src c of
        RejectChild \<Rightarrow> None
      | SkipChild \<Rightarrow> collect_words src cs ws a b
      | WordAt t s e \<Rightarrow>
          collect_words src cs (ws @ [t]) (case a of None \<Rightarrow> Some s | Some x \<Rightarrow> Some x) (Some e))"

definition opt_or :: "'a option \<Rightarrow> 'a \<Rightarrow> 'a" where
  "opt_or x d = (case x of None \<Rightarrow> d | Some y \<Rightarrow> y)"

definition parse_plain_command_from_node :: "string \<Rightarrow> node \<Rightarrow> plain_command option" where
  "parse_plain_command_from_node src cmd =
     (if kind cmd \<noteq> ''command'' then None
      else map_option
        (\<lambda>(ws, a, b). \<lparr>pc_words = ws, pc_span_start = opt_or a (start_byte cmd),
                        pc_span_end = opt_or b (end_byte cmd)\<rparr>)
        (collect_words src (named_children cmd) [] None None))"

definition is_command_node :: "node \<Rightarrow> bool" where
  "is_command_node n \<longleftrightarrow> named n \<and> kind n = ''command''"

definition try_parse_word_only_commands_sequence :: "node \<Rightarrow> string \<Rightarrow> plain_command list option" where
  "try_parse_word_only_commands_sequence root src =
     (if has_error root then None
      else let visited = walk_lifo (\<lambda>_. True) [root] in
        if \<not> list_all node_allowed visited then None
        else map_opt (parse_plain_command_from_node src)
               (sort_key start_byte (filter is_command_node visited)))"

definition all_commands_from_script :: "parser \<Rightarrow> string \<Rightarrow> plain_command list option" where
  "all_commands_from_script parse script =
     Option.bind (parse script) (\<lambda>t. try_parse_word_only_commands_sequence t script)"

definition is_setup_command :: "argv \<Rightarrow> bool" where
  "is_setup_command cmd =
     (case cmd of
        [] \<Rightarrow> True
      | w # _ \<Rightarrow> w \<in> set [''cd'', ''pushd'', ''popd'', ''export'', ''unset'', ''set'', ''sleep'', ''timeout''])"

text \<open>
  \<open>sh_split_simple\<close>: the word so far, and whether a single or a double quote is open.  A
  character of several bytes is passed over as a unit.
\<close>

definition push_word :: "string \<Rightarrow> string list \<Rightarrow> string list" where
  "push_word cur ws = (if cur = [] then ws else cur # ws)"

function sh_split :: "bool \<Rightarrow> bool \<Rightarrow> string \<Rightarrow> string \<Rightarrow> string list" where
  "sh_split sq dq cur [] = push_word cur []"
| "sh_split sq dq cur (c # cs) =
     (if c = CHR 0x27 \<and> \<not> dq then sh_split (\<not> sq) dq cur cs
      else if c = CHR 0x22 \<and> \<not> sq then sh_split sq (\<not> dq) cur cs
      else if c = CHR 0x5C then
        (case cs of [] \<Rightarrow> push_word cur [] | n # cs' \<Rightarrow> sh_split sq dq (cur @ [n]) cs')
      else if ws_len (c # cs) \<noteq> 0 \<and> \<not> sq \<and> \<not> dq then
        push_word cur (sh_split sq dq [] (drop (ws_len (c # cs)) (c # cs)))
      else sh_split sq dq (cur @ [c]) cs)"
  by pat_completeness auto
termination
  by (relation "measure (\<lambda>(_, _, _, s). length s)") auto

definition sh_split_simple :: "string \<Rightarrow> string list" where
  "sh_split_simple s = sh_split False False [] s"

record bash_highlights =
  bh_prefix :: argv
  bh_highlighted_words :: argv
  bh_suffix :: argv

text \<open>The closure of \<open>find_map\<close>: the peeled words of a command that is not mere setup.\<close>

definition primary_candidate :: "plain_command \<Rightarrow> (plain_command \<times> nat \<times> argv) option" where
  "primary_candidate c =
     (let peeled = unwrap_wrappers (pc_words c);
          off = length (pc_words c) - length peeled in
      if peeled = [] \<or> is_setup_command peeled then None
      else Some (c, off, drop off (pc_words c)))"

fun find_map :: "('a \<Rightarrow> 'b option) \<Rightarrow> 'a list \<Rightarrow> 'b option" where
  "find_map f [] = None"
| "find_map f (x # xs) = (case f x of None \<Rightarrow> find_map f xs | Some y \<Rightarrow> Some y)"

definition primary_command_from_script :: "parser \<Rightarrow> string \<Rightarrow> bash_highlights option" where
  "primary_command_from_script parse script =
     Option.bind (all_commands_from_script parse script) (\<lambda>cs.
       map_option
         (\<lambda>(c, off, peeled).
            \<lparr>bh_prefix = sh_split_simple (take (pc_span_start c) script) @ take off (pc_words c),
             bh_highlighted_words = peeled,
             bh_suffix = sh_split_simple (drop (pc_span_end c) script)\<rparr>)
         (find_map primary_candidate cs))"

subsection \<open>The decomposition keeps every command\<close>

abbreviation command_nodes :: "node \<Rightarrow> node list" where
  "command_nodes root \<equiv> sort_key start_byte (filter is_command_node (walk_lifo (\<lambda>_. True) [root]))"

lemma command_nodes_mset: "mset (command_nodes root) = mset (filter is_command_node (nodes root))"
  by (simp add: walk_lifo_mset)

lemma command_nodes_set: "set (command_nodes root) = {n \<in> set (nodes root). is_command_node n}"
  by (auto simp: walk_lifo_set)

lemma word_only_Some_iff:
  "try_parse_word_only_commands_sequence root src = Some cs \<longleftrightarrow>
     \<not> has_error root \<and> (\<forall>n \<in> set (nodes root). node_allowed n)
     \<and> list_all2 (\<lambda>n c. parse_plain_command_from_node src n = Some c) (command_nodes root) cs"
  by (auto simp: try_parse_word_only_commands_sequence_def map_opt_Some_iff list_all_iff
      walk_lifo_set Let_def)

lemma list_all2_left: "list_all2 R xs ys \<Longrightarrow> x \<in> set xs \<Longrightarrow> \<exists>y \<in> set ys. R x y"
  by (induction rule: list_all2_induct) auto

lemma list_all2_right: "list_all2 R xs ys \<Longrightarrow> y \<in> set ys \<Longrightarrow> \<exists>x \<in> set xs. R x y"
  by (induction rule: list_all2_induct) auto

lemma sort_key_distinct_unique:
  assumes "mset xs = mset ys" "distinct (map f ys)"
  shows "sort_key f xs = sort_key f ys"
proof -
  have "distinct (map f (sort_key f xs))" "distinct (map f (sort_key f ys))"
  proof -
    have "distinct (map f zs)" if "mset zs = mset ys" for zs
      using that assms(2) by (metis mset_eq_imp_distinct_iff mset_map)
    then show "distinct (map f (sort_key f xs))" "distinct (map f (sort_key f ys))"
      using assms(1) by simp_all
  qed
  moreover have "mset (sort_key f xs) = mset (sort_key f ys)" using assms(1) by simp
  moreover have "inj_on f (set ys)" using assms(2) by (simp add: distinct_map)
  ultimately show ?thesis
    using assms by (intro map_sorted_distinct_set_unique[of f])
      (auto simp: distinct_map dest: mset_eq_setD)
qed

lemma collect_words_spec:
  "collect_words src cs ws a b = Some (ws', a', b') \<Longrightarrow>
     ws' = ws @ concat (map (\<lambda>c. case command_child src c of WordAt t _ _ \<Rightarrow> [t] | _ \<Rightarrow> []) cs)
     \<and> (\<forall>c \<in> set cs. command_child src c \<noteq> RejectChild)"
  by (induction src cs ws a b rule: collect_words.induct) (auto split: word_piece.splits)

lemma find_map_Some:
  "find_map f xs = Some y \<Longrightarrow> \<exists>x \<in> set xs. f x = Some y"
  by (induction xs) (auto split: option.splits)

lemma find_map_prefix:
  "find_map f xs = Some y \<Longrightarrow>
     \<exists>us x vs. xs = us @ x # vs \<and> f x = Some y \<and> (\<forall>u \<in> set us. f u = None)"
proof (induction xs)
  case (Cons x xs)
  show ?case
  proof (cases "f x")
    case None
    with Cons obtain us z vs where "xs = us @ z # vs" "f z = Some y" "\<forall>u \<in> set us. f u = None"
      by auto
    with None have "x # xs = (x # us) @ z # vs \<and> f z = Some y \<and> (\<forall>u \<in> set (x # us). f u = None)"
      by simp
    then show ?thesis by blast
  next
    case (Some z)
    with Cons.prems have "x # xs = [] @ x # xs \<and> f x = Some y \<and> (\<forall>u \<in> set []. f u = None)"
      by simp
    then show ?thesis by blast
  qed
qed simp

lemma primary_candidate_Some:
  "primary_candidate c = Some (c', off, peeled) \<longleftrightarrow>
     c' = c \<and> peeled = unwrap_wrappers (pc_words c)
     \<and> off = length (pc_words c) - length peeled
     \<and> peeled \<noteq> [] \<and> \<not> is_setup_command peeled"
  using suffix_eq_drop[OF unwrap_wrappers_suffix[of "pc_words c"]]
  by (auto simp: primary_candidate_def Let_def)

subsection \<open>A small concrete parser\<close>

text \<open>
  Enough of a grammar to run the definitions on concrete scripts: words separated by spaces,
  commands separated by the four list operators.  The properties are stated for every parser.
\<close>

fun demo_tokens :: "nat \<Rightarrow> string \<Rightarrow> string \<Rightarrow> (string \<times> nat) list" where
  "demo_tokens i cur [] = (if cur = [] then [] else [(cur, i - length cur)])"
| "demo_tokens i cur (c # s) =
     (if c = CHR '' '' then demo_tokens i cur [] @ demo_tokens (i + 1) [] s
      else demo_tokens (i + 1) (cur @ [c]) s)"

definition demo_word :: "string \<times> nat \<Rightarrow> node" where
  "demo_word p = leaf ''word'' True (snd p) (snd p + length (fst p))"

definition demo_command :: "(string \<times> nat) list \<Rightarrow> node list" where
  "demo_command ws =
     (case ws of
        [] \<Rightarrow> []
      | w # r \<Rightarrow>
          [Node ''command'' True None False (snd w) (end_byte (demo_word (last ws)))
             (Node ''command_name'' True (Some ''name'') False (snd w) (end_byte (demo_word w))
                [demo_word w]
              # map demo_word r)])"

fun demo_nodes :: "(string \<times> nat) list \<Rightarrow> (string \<times> nat) list \<Rightarrow> node list" where
  "demo_nodes acc [] = demo_command acc"
| "demo_nodes acc (w # ws) =
     (if fst w \<in> set [''&&'', ''||'', '';'', ''|''] then
        demo_command acc @ leaf (fst w) False (snd w) (snd w + length (fst w)) # demo_nodes [] ws
      else demo_nodes (acc @ [w]) ws)"

definition demo_parse :: parser where
  "demo_parse s =
     Some (Node ''program'' True None False 0 (length s) (demo_nodes [] (demo_tokens 0 [] s)))"

subsection \<open>Properties\<close>

text \<open>A script decomposes into plain commands only when its tree has no error and every
  node of the tree, named or punctuation, is on the allowlists; then the commands are exactly
  the parses of all the \<open>command\<close> nodes of the tree, none dropped, none added, so a single
  substitution, subshell, control-flow or declaration node anywhere makes the script
  undecomposable.\<close>

theorem word_only_decomposition_exact:
  assumes "all_commands_from_script parse script = Some cs"
  shows "\<exists>root. parse script = Some root \<and> \<not> has_error root
    \<and> (\<forall>n \<in> set (nodes root). node_allowed n)
    \<and> length cs = length (filter is_command_node (nodes root))
    \<and> (\<forall>n \<in> set (nodes root). is_command_node n \<longrightarrow>
          (\<exists>c \<in> set cs. parse_plain_command_from_node script n = Some c))
    \<and> (\<forall>c \<in> set cs. \<exists>n \<in> set (nodes root). is_command_node n
          \<and> parse_plain_command_from_node script n = Some c)"
proof -
  from assms obtain root where r: "parse script = Some root"
    and t: "try_parse_word_only_commands_sequence root script = Some cs"
    by (auto simp: all_commands_from_script_def bind_eq_Some_conv)
  from t have ok: "\<not> has_error root" "\<forall>n \<in> set (nodes root). node_allowed n"
    and l: "list_all2 (\<lambda>n c. parse_plain_command_from_node script n = Some c) (command_nodes root) cs"
    by (simp_all add: word_only_Some_iff)
  have len: "length cs = length (filter is_command_node (nodes root))"
    using list_all2_lengthD[OF l] command_nodes_mset[of root] by (metis size_mset)
  have fwd: "\<exists>c \<in> set cs. parse_plain_command_from_node script n = Some c"
    if "n \<in> set (nodes root)" "is_command_node n" for n
    using list_all2_left[OF l, of n] that command_nodes_set[of root] by blast
  have bwd: "\<exists>n \<in> set (nodes root). is_command_node n \<and> parse_plain_command_from_node script n = Some c"
    if "c \<in> set cs" for c
    using list_all2_right[OF l that] command_nodes_set[of root] by blast
  from r ok len fwd bwd show ?thesis by blast
qed

lemma word_only_decomposition_exact_witness:
  "\<exists>root. demo_parse ''a b && c'' = Some root \<and> \<not> has_error root
    \<and> length (filter is_command_node (nodes root)) = 2"
proof -
  have "map pc_words (the (all_commands_from_script demo_parse ''a b && c'')) =
      [[''a'', ''b''], [''c'']]" by code_simp
  moreover have "all_commands_from_script demo_parse ''a b && c'' \<noteq> None" by code_simp
  ultimately obtain cs where "all_commands_from_script demo_parse ''a b && c'' = Some cs"
    and "length cs = 2"
    by (metis length_map length_Cons list.size(3) numeral_2_eq_2 option.collapse)
  with word_only_decomposition_exact[of demo_parse "''a b && c''" cs] show ?thesis by metis
qed

text \<open>On a tree whose \<open>command\<close> nodes start at distinct bytes in document order, as a parser
  produces it, the work-list walk followed by the sort is the plain left-to-right traversal: the
  segments come out in source order.\<close>

theorem word_only_source_order:
  assumes "\<not> has_error root" and "\<forall>n \<in> set (nodes root). node_allowed n"
    and "sorted_wrt (<) (map start_byte (filter is_command_node (nodes root)))"
  shows "try_parse_word_only_commands_sequence root src =
    map_opt (parse_plain_command_from_node src) (filter is_command_node (nodes root))"
proof -
  let ?cs = "filter is_command_node (nodes root)"
  have d: "distinct (map start_byte ?cs)" and s: "sorted (map start_byte ?cs)"
    using assms(3) by (simp_all add: strict_sorted_iff)
  have "mset (filter is_command_node (walk_lifo (\<lambda>_. True) [root])) = mset ?cs"
    by (simp add: walk_lifo_mset)
  then have "command_nodes root = sort_key start_byte ?cs"
    using d by (rule sort_key_distinct_unique)
  also have "\<dots> = ?cs" using s by (simp add: sort_key_id_if_sorted)
  finally show ?thesis
    using assms(1,2)
    by (simp add: try_parse_word_only_commands_sequence_def list_all_iff walk_lifo_set Let_def)
qed

lemma word_only_source_order_witness:
  "map_option (map pc_words)
     (try_parse_word_only_commands_sequence (the (demo_parse ''a ; b c'')) ''a ; b c'') =
   Some [[''a''], [''b'', ''c'']]"
proof -
  let ?t = "the (demo_parse ''a ; b c'')"
  have "\<not> has_error ?t" by code_simp
  moreover have "\<forall>n \<in> set (nodes ?t). node_allowed n" by code_simp
  moreover have "sorted_wrt (<) (map start_byte (filter is_command_node (nodes ?t)))" by code_simp
  moreover have "map_option (map pc_words) (map_opt (parse_plain_command_from_node ''a ; b c'')
      (filter is_command_node (nodes ?t))) = Some [[''a''], [''b'', ''c'']]" by code_simp
  ultimately show ?thesis using word_only_source_order[of ?t "''a ; b c''"] by simp
qed

text \<open>The command highlighted for an "always allow" grant is the wrapper-free suffix of the
  first command of the script that is not mere setup; the words peeled off it close the prefix,
  so prefix and highlight together still show the whole invocation.\<close>

theorem primary_command_spec:
  assumes "primary_command_from_script parse script = Some h"
  shows "\<exists>cs us c vs pre. all_commands_from_script parse script = Some cs \<and> cs = us @ c # vs
    \<and> (\<forall>u \<in> set us. unwrap_wrappers (pc_words u) = [] \<or> is_setup_command (unwrap_wrappers (pc_words u)))
    \<and> bh_highlighted_words h = unwrap_wrappers (pc_words c)
    \<and> bh_highlighted_words h \<noteq> [] \<and> \<not> is_setup_command (bh_highlighted_words h)
    \<and> pc_words c = pre @ bh_highlighted_words h \<and> suffix pre (bh_prefix h)"
proof -
  from assms obtain cs c off peeled where cs: "all_commands_from_script parse script = Some cs"
    and f: "find_map primary_candidate cs = Some (c, off, peeled)"
    and h: "bh_prefix h = sh_split_simple (take (pc_span_start c) script) @ take off (pc_words c)"
      "bh_highlighted_words h = peeled"
    by (auto simp: primary_command_from_script_def bind_eq_Some_conv)
  from find_map_prefix[OF f] obtain us x vs where split: "cs = us @ x # vs"
    and x: "primary_candidate x = Some (c, off, peeled)"
    and us: "\<forall>u \<in> set us. primary_candidate u = None" by blast
  from x have c: "c = x" "peeled = unwrap_wrappers (pc_words c)" "peeled \<noteq> []"
    "\<not> is_setup_command peeled" and off: "off = length (pc_words c) - length peeled"
    by (auto simp: primary_candidate_Some)
  have "drop off (pc_words c) = peeled"
    unfolding off c(2) by (rule suffix_eq_drop[OF unwrap_wrappers_suffix])
  then have words: "pc_words c = take off (pc_words c) @ bh_highlighted_words h"
    by (metis append_take_drop_id h(2))
  have pfx: "suffix (take off (pc_words c)) (bh_prefix h)" by (simp add: h(1) suffix_def)
  have stp: "\<forall>u \<in> set us. unwrap_wrappers (pc_words u) = [] \<or>
      is_setup_command (unwrap_wrappers (pc_words u))"
    using us by (auto simp: primary_candidate_def Let_def split: if_splits)
  have hl: "bh_highlighted_words h = unwrap_wrappers (pc_words c)" "bh_highlighted_words h \<noteq> []"
    "\<not> is_setup_command (bh_highlighted_words h)"
    using c h(2) by simp_all
  have "cs = us @ c # vs" using split c(1) by simp
  then show ?thesis
    by (intro exI conjI) (rule cs words pfx stp hl | assumption)+
qed

lemma primary_command_spec_witness:
  "map_option bh_highlighted_words
     (primary_command_from_script demo_parse ''cd x && timeout 5 cargo test'') =
     Some [''cargo'', ''test'']
   \<and> \<not> is_setup_command [''cargo'', ''test'']"
proof -
  let ?s = "''cd x && timeout 5 cargo test''"
  have e: "map_option bh_highlighted_words (primary_command_from_script demo_parse ?s) =
     Some [''cargo'', ''test'']" by code_simp
  then obtain h where h: "primary_command_from_script demo_parse ?s = Some h"
    "bh_highlighted_words h = [''cargo'', ''test'']" by auto
  from primary_command_spec[OF h(1)] h(2) have "\<not> is_setup_command [''cargo'', ''test'']" by metis
  with e show ?thesis by simp
qed

end
