(* ===== verification/Soft_Breaks.thy ===== *)
theory Soft_Breaks
  imports Bash_Splitting "HOL-Library.Product_Lexorder"
begin

text \<open>
  The display soft breaks of \<open>permission/bash_command_splitting.rs\<close>: where the permission prompt
  may wrap a script, found from real operator nodes of its tree and never from operator
  characters inside strings, heredoc bodies or comments.
\<close>

definition PAYLOAD_NODE_KINDS :: "string list" where
  "PAYLOAD_NODE_KINDS =
     [''heredoc_body'', ''simple_heredoc_body'', ''heredoc_content'', ''heredoc_end'', ''string'',
      ''raw_string'', ''string_content'', ''ansi_c_string'', ''translated_string'', ''comment'']"

definition is_soft_break_operator_kind :: "string \<Rightarrow> bool" where
  "is_soft_break_operator_kind k \<longleftrightarrow> k \<in> set [''&&'', ''||'', ''|'', '';'']"

definition is_payload_node_kind :: "string \<Rightarrow> bool" where
  "is_payload_node_kind k \<longleftrightarrow> k \<in> set PAYLOAD_NODE_KINDS"

definition soft_break_node :: "string \<Rightarrow> node \<Rightarrow> bool" where
  "soft_break_node script n \<longleftrightarrow>
     \<not> is_payload_node_kind (kind n) \<and> is_soft_break_operator_kind (kind n)
     \<and> 0 < end_byte n \<and> end_byte n \<le> length script \<and> is_char_boundary script (end_byte n)"

definition soft_break_offsets_after_operators :: "parser \<Rightarrow> string \<Rightarrow> nat list" where
  "soft_break_offsets_after_operators parse script =
     (case parse script of
        None \<Rightarrow> []
      | Some root \<Rightarrow>
          if has_error root then []
          else remdups_adj (sort (map end_byte
                 (filter (soft_break_node script)
                    (walk_order (\<lambda>n. \<not> is_payload_node_kind (kind n)) [root])))))"

definition heredoc_payload_kind :: "string \<Rightarrow> bool" where
  "heredoc_payload_kind k \<longleftrightarrow> k \<in> set [''heredoc_body'', ''simple_heredoc_body'', ''heredoc_content'']"

definition heredoc_payload_byte_ranges :: "parser \<Rightarrow> string \<Rightarrow> (nat \<times> nat) list" where
  "heredoc_payload_byte_ranges parse script =
     (case parse script of
        None \<Rightarrow> []
      | Some root \<Rightarrow>
          if has_error root then []
          else remdups_adj (sort (map (\<lambda>n. (start_byte n, end_byte n))
                 (filter (\<lambda>n. heredoc_payload_kind (kind n)
                              \<and> start_byte n < end_byte n \<and> end_byte n \<le> length script)
                    (walk_order (\<lambda>n. \<not> heredoc_payload_kind (kind n)) [root])))))"

definition range_fully_inside :: "nat \<Rightarrow> nat \<Rightarrow> (nat \<times> nat) list \<Rightarrow> bool" where
  "range_fully_inside s e ranges =
     (if e < s then False else list_ex (\<lambda>(rs, re). rs \<le> s \<and> e \<le> re) ranges)"

text \<open>The chunk loop shared by both splitters: cut \<open>text\<close> at every offset past \<open>start\<close>.\<close>

fun cut_at :: "string \<Rightarrow> nat \<Rightarrow> nat list \<Rightarrow> string list" where
  "cut_at src start [] = (if start < length src then [drop start src] else [])"
| "cut_at src start (b # bs) =
     (if start < b \<and> b \<le> length src then drop start (take b src) # cut_at src b bs
      else cut_at src start bs)"

definition split_physical_line_at_soft_breaks :: "string \<Rightarrow> nat \<Rightarrow> nat list \<Rightarrow> string list" where
  "split_physical_line_at_soft_breaks line line_start breaks =
     (let line_end = line_start + length line;
          rel = remdups_adj (filter (is_char_boundary line)
                  (map (\<lambda>b. b - line_start) (filter (\<lambda>b. line_start < b \<and> b < line_end) breaks)))
      in if rel = [] then [line]
         else (let chunks = cut_at line 0 rel in if chunks = [] then [line] else chunks))"

definition soft_break_chunks :: "parser \<Rightarrow> string \<Rightarrow> string list" where
  "soft_break_chunks parse script =
     (let breaks = soft_break_offsets_after_operators parse script in
      if breaks = [] then [script] else cut_at script 0 breaks)"

lemma drop_take_drop: "a \<le> b \<Longrightarrow> drop a (take b xs) @ drop b xs = drop a xs"
proof -
  assume "a \<le> b"
  then have "drop b xs = drop (b - a) (drop a xs)" by simp
  then show ?thesis by (metis append_take_drop_id drop_take)
qed

lemma cut_at_concat: "start \<le> length src \<Longrightarrow> concat (cut_at src start bs) = drop start src"
  by (induction src start bs rule: cut_at.induct) (simp_all add: drop_take_drop)

lemma cut_at_nonempty: "start \<le> length src \<Longrightarrow> list_all (\<lambda>c. c \<noteq> []) (cut_at src start bs)"
  by (induction src start bs rule: cut_at.induct) simp_all

lemma sorted_remdups_adj_distinct: "sorted xs \<Longrightarrow> distinct (remdups_adj xs)"
proof (induction xs rule: remdups_adj.induct)
  case (3 x y xs)
  have "x \<notin> set (remdups_adj (y # xs))" if "x \<noteq> y"
    unfolding remdups_adj_set using 3(3) that by auto
  with 3 show ?case by auto
qed simp_all

text \<open>Splitting for display loses no byte of the command that the user approves: the chunks
  of a script, and of each physical line at any list of break offsets, concatenate to the
  original text.\<close>

theorem soft_break_lossless:
  "concat (soft_break_chunks parse script) = script
   \<and> concat (split_physical_line_at_soft_breaks line line_start breaks) = line"
proof -
  have "concat (cut_at line 0 rel) = line" for rel
    using cut_at_concat[of 0 line rel] by simp
  moreover have "concat (cut_at script 0 rel) = script" for rel
    using cut_at_concat[of 0 script rel] by simp
  ultimately show ?thesis
    by (simp add: soft_break_chunks_def split_physical_line_at_soft_breaks_def Let_def)
qed

text \<open>Break offsets are strictly increasing, inside the script, on character boundaries, and
  each is the end of a list or pipeline operator node of an error-free tree: operator characters
  inside payload nodes never produce one.\<close>

theorem soft_break_offsets_spec:
  assumes "b \<in> set (soft_break_offsets_after_operators parse script)"
  shows "sorted_wrt (<) (soft_break_offsets_after_operators parse script)
    \<and> 0 < b \<and> b \<le> length script \<and> is_char_boundary script b
    \<and> (\<exists>root n. parse script = Some root \<and> \<not> has_error root \<and> n \<in> set (nodes root)
          \<and> end_byte n = b \<and> is_soft_break_operator_kind (kind n))"
proof -
  obtain root where r: "parse script = Some root" "\<not> has_error root"
    using assms unfolding soft_break_offsets_after_operators_def
    by (cases "parse script") (simp_all split: if_splits)
  let ?w = "walk_order (\<lambda>n. \<not> is_payload_node_kind (kind n)) [root]"
  have eq: "soft_break_offsets_after_operators parse script =
      remdups_adj (sort (map end_byte (filter (soft_break_node script) ?w)))"
    using r by (simp add: soft_break_offsets_after_operators_def)
  have "sorted_wrt (<) (remdups_adj (sort (map end_byte (filter (soft_break_node script) ?w))))"
    by (simp add: strict_sorted_iff sorted_remdups_adj sorted_remdups_adj_distinct)
  moreover from assms[unfolded eq] obtain n where n: "n \<in> set ?w" "soft_break_node script n" "end_byte n = b"
    by auto
  moreover have "n \<in> set (nodes root)"
    using n(1) walk_order_subset[of "\<lambda>n. \<not> is_payload_node_kind (kind n)" "[root]"] by auto
  ultimately show ?thesis using r eq by (auto simp: soft_break_node_def)
qed

lemma soft_break_offsets_spec_witness:
  "soft_break_offsets_after_operators demo_parse ''a && b ; c'' = [4, 8]
   \<and> is_char_boundary ''a && b ; c'' 4"
proof -
  have e: "soft_break_offsets_after_operators demo_parse ''a && b ; c'' = [4, 8]" by code_simp
  then show ?thesis using soft_break_offsets_spec[of 4 demo_parse "''a && b ; c''"] by simp
qed

end
