(* ===== verification/Paths.thy ===== *)
theory Paths
  imports Rust_Str
begin

text \<open>
  Unix paths as \<open>std::path\<close> reads them: the components of a spelling, joining, prefixes, parents,
  and the lexical normalisation of \<open>xai-grok-paths\<close> that collapses \<open>.\<close> and \<open>..\<close> without
  touching the file system.  A path is its spelling; two spellings with the same components are
  the same path to the operating system.

  The lines of a text: \<open>str::lines\<close>, the pieces between line feeds, and texts made of lines that each end
  with a line feed.
\<close>

section \<open>Paths\<close>

datatype component = RootDir | CurDir | ParentDir | Normal string

definition is_sep :: "char \<Rightarrow> bool" where
  "is_sep c \<longleftrightarrow> c = CHR ''/''"

definition segment_components :: "string \<Rightarrow> component list" where
  "segment_components seg =
     (if seg = [] \<or> seg = ''.'' then []
      else if seg = ''..'' then [ParentDir]
      else [Normal seg])"

definition path_components :: "string \<Rightarrow> component list" where
  "path_components s =
     (let segs = split_on is_sep s in
      (if starts_with s ''/'' then [RootDir] else if hd segs = ''.'' then [CurDir] else [])
      @ concat (map segment_components segs))"

fun component_str :: "component \<Rightarrow> string" where
  "component_str RootDir = ''/''"
| "component_str CurDir = ''.''"
| "component_str ParentDir = ''..''"
| "component_str (Normal s) = s"

text \<open>Collecting components into a path.\<close>

definition components_path :: "component list \<Rightarrow> string" where
  "components_path cs =
     (case cs of
        RootDir # r \<Rightarrow> ''/'' @ join ''/'' (map component_str r)
      | _ \<Rightarrow> join ''/'' (map component_str cs))"

definition path_is_absolute :: "string \<Rightarrow> bool" where
  "path_is_absolute s \<longleftrightarrow> starts_with s ''/''"

definition path_join :: "string \<Rightarrow> string \<Rightarrow> string" where
  "path_join base p =
     (if path_is_absolute p then p
      else if base = [] \<or> ends_with base ''/'' then base @ p
      else base @ ''/'' @ p)"

fun strip_list_prefix :: "'a list \<Rightarrow> 'a list \<Rightarrow> 'a list option" where
  "strip_list_prefix xs [] = Some xs"
| "strip_list_prefix [] (y # ys) = None"
| "strip_list_prefix (x # xs) (y # ys) = (if x = y then strip_list_prefix xs ys else None)"

definition path_strip_prefix :: "string \<Rightarrow> string \<Rightarrow> string option" where
  "path_strip_prefix p base =
     map_option components_path (strip_list_prefix (path_components p) (path_components base))"

definition path_starts_with :: "string \<Rightarrow> string \<Rightarrow> bool" where
  "path_starts_with p base \<longleftrightarrow> strip_list_prefix (path_components p) (path_components base) \<noteq> None"

definition path_parent :: "string \<Rightarrow> string option" where
  "path_parent p =
     (let cs = path_components p in
      if cs = [] \<or> last cs = RootDir then None else Some (components_path (butlast cs)))"

definition path_file_name :: "string \<Rightarrow> string option" where
  "path_file_name p =
     (let cs = path_components p in
      if cs = [] then None else case last cs of Normal s \<Rightarrow> Some s | _ \<Rightarrow> None)"

definition path_has_parent_dir :: "string \<Rightarrow> bool" where
  "path_has_parent_dir p = list_ex (\<lambda>c. c = ParentDir) (path_components p)"

definition is_tilde_path :: "string \<Rightarrow> bool" where
  "is_tilde_path p =
     (case path_components p of
        Normal s # _ \<Rightarrow> starts_with s ''~''
      | _ \<Rightarrow> False)"

definition path_match_string :: "string \<Rightarrow> string" where
  "path_match_string p = replace_char CHR 0x5C CHR ''/'' p"

subsection \<open>Lexical normalisation\<close>

text \<open>One step of \<open>normalize_lexically\<close> on the stack of components, innermost first.\<close>

fun norm_push :: "component list \<Rightarrow> component \<Rightarrow> component list" where
  "norm_push acc CurDir = acc"
| "norm_push acc ParentDir =
     (case acc of
        Normal _ # r \<Rightarrow> r
      | RootDir # _ \<Rightarrow> acc
      | _ \<Rightarrow> ParentDir # acc)"
| "norm_push acc c = c # acc"

definition normalize_components :: "component list \<Rightarrow> component list" where
  "normalize_components cs = rev (foldl norm_push [] cs)"

definition normalize_lexically :: "string \<Rightarrow> string" where
  "normalize_lexically p =
     (let cs = normalize_components (path_components p) in
      if cs = [] then ''.'' else components_path cs)"

subsection \<open>Spelling and reading back\<close>

definition wf_component :: "component \<Rightarrow> bool" where
  "wf_component c =
     (case c of
        Normal s \<Rightarrow> s \<noteq> [] \<and> s \<noteq> ''.'' \<and> s \<noteq> ''..'' \<and> CHR ''/'' \<notin> set s
      | ParentDir \<Rightarrow> True
      | _ \<Rightarrow> False)"

definition wf_components :: "component list \<Rightarrow> bool" where
  "wf_components cs =
     (case cs of RootDir # r \<Rightarrow> list_all wf_component r | _ \<Rightarrow> list_all wf_component cs)"

lemma wf_component_cases:
  "wf_component c \<Longrightarrow> c = ParentDir \<or> (\<exists>s. c = Normal s \<and> s \<noteq> [] \<and> s \<noteq> ''.'' \<and> s \<noteq> ''..''
     \<and> CHR ''/'' \<notin> set s)"
  by (cases c) (simp_all add: wf_component_def)

lemma split_on_no_char: "list_all (\<lambda>c. \<not> p c) s \<Longrightarrow> split_on p s = [s]"
  by (induction s) simp_all

lemma split_on_append_sep:
  "list_all (\<lambda>c. \<not> p c) w \<Longrightarrow> p c \<Longrightarrow> split_on p (w @ c # s) = w # split_on p s"
  by (induction w) simp_all

lemma split_on_join:
  "ws \<noteq> [] \<Longrightarrow> list_all (\<lambda>w. list_all (\<lambda>c. \<not> is_sep c) w) ws \<Longrightarrow>
     split_on is_sep (join ''/'' ws) = ws"
proof (induction ws)
  case (Cons w ws)
  then show ?case
    by (cases ws) (simp_all add: split_on_no_char split_on_append_sep is_sep_def)
qed simp

lemma component_str_no_sep: "wf_component c \<Longrightarrow> list_all (\<lambda>c. \<not> is_sep c) (component_str c)"
  by (drule wf_component_cases) (auto simp: is_sep_def list_all_iff)

lemma segment_component_str: "wf_component c \<Longrightarrow> segment_components (component_str c) = [c]"
  by (drule wf_component_cases) (auto simp: segment_components_def)

lemma segments_of_components:
  "list_all wf_component cs \<Longrightarrow> concat (map segment_components (map component_str cs)) = cs"
  by (induction cs) (simp_all add: segment_component_str)

lemma components_no_sep:
  "list_all wf_component cs \<Longrightarrow>
     list_all (\<lambda>w. list_all (\<lambda>c. \<not> is_sep c) w) (map component_str cs)"
  by (induction cs) (simp_all add: component_str_no_sep)

lemma component_str_head: "wf_component c \<Longrightarrow> component_str c \<noteq> [] \<and> component_str c \<noteq> ''.''
    \<and> hd (component_str c) \<noteq> CHR ''/''"
  by (drule wf_component_cases) (auto simp: neq_Nil_conv)

lemma join_head:
  "ws \<noteq> [] \<Longrightarrow> hd ws \<noteq> [] \<Longrightarrow> hd (join sep ws) = hd (hd ws) \<and> join sep ws \<noteq> []"
  by (cases ws rule: remdups_adj.cases) (auto simp: neq_Nil_conv)

lemma path_components_relative:
  assumes "list_all wf_component cs" "cs \<noteq> []"
  shows "path_components (join ''/'' (map component_str cs)) = cs"
proof -
  let ?ws = "map component_str cs"
  obtain c r where c: "cs = c # r" using assms(2) by (cases cs) auto
  have h: "hd ?ws \<noteq> []" "hd ?ws \<noteq> ''.''" "hd (hd ?ws) \<noteq> CHR ''/''"
    using assms(1) component_str_head[of c] by (simp_all add: c)
  have s: "split_on is_sep (join ''/'' ?ws) = ?ws"
    using assms components_no_sep[OF assms(1)] by (intro split_on_join) simp_all
  have "\<not> starts_with (join ''/'' ?ws) ''/''"
    using join_head[of ?ws "''/''"] h assms(2) by (auto simp: starts_with_iff)
  with s h segments_of_components[OF assms(1)] show ?thesis
    by (simp add: path_components_def)
qed

lemma path_components_absolute:
  assumes "list_all wf_component cs"
  shows "path_components (''/'' @ join ''/'' (map component_str cs)) = RootDir # cs"
proof (cases "cs = []")
  case True
  then show ?thesis by (simp add: path_components_def is_sep_def segment_components_def)
next
  case False
  have "split_on is_sep (''/'' @ join ''/'' (map component_str cs)) =
      [] # split_on is_sep (join ''/'' (map component_str cs))"
    by (simp add: is_sep_def)
  also have "\<dots> = [] # map component_str cs"
    using False components_no_sep[OF assms] split_on_join[of "map component_str cs"] by simp
  finally show ?thesis
    using segments_of_components[OF assms]
    by (simp add: path_components_def segment_components_def)
qed

lemma components_roundtrip:
  assumes "wf_components cs" "cs \<noteq> []"
  shows "path_components (components_path cs) = cs"
proof (cases "\<exists>r. cs = RootDir # r")
  case True
  with assms show ?thesis
    using path_components_absolute by (auto simp: wf_components_def components_path_def)
next
  case False
  then have "list_all wf_component cs" "components_path cs = join ''/'' (map component_str cs)"
    using assms by (auto simp: wf_components_def components_path_def split: list.splits component.splits)
  with assms(2) path_components_relative show ?thesis by simp
qed

subsection \<open>What normalisation leaves\<close>

lemma split_on_segments_no_sep: "seg \<in> set (split_on is_sep s) \<Longrightarrow> CHR ''/'' \<notin> set seg"
  using split_on_no_sep[of is_sep s] by (auto simp: list_all_iff is_sep_def)

lemma segment_components_wf:
  "CHR ''/'' \<notin> set seg \<Longrightarrow> list_all wf_component (segment_components seg)"
  by (simp add: segment_components_def wf_component_def)

lemma path_components_shape:
  "\<exists>pre body. path_components s = pre @ body \<and> list_all wf_component body
     \<and> (path_is_absolute s \<longrightarrow> pre = [RootDir]) \<and> (\<not> path_is_absolute s \<longrightarrow> pre = [] \<or> pre = [CurDir])"
proof -
  let ?body = "concat (map segment_components (split_on is_sep s))"
  have "list_all wf_component ?body"
    using segment_components_wf split_on_segments_no_sep by (auto simp: list_all_iff)
  then show ?thesis
    by (intro exI[of _ "if starts_with s ''/'' then [RootDir]
          else if hd (split_on is_sep s) = ''.'' then [CurDir] else []"] exI[of _ ?body])
      (auto simp: path_components_def path_is_absolute_def Let_def)
qed

text \<open>The stack of an absolute path: normal names over the root.\<close>

definition rooted_stack :: "component list \<Rightarrow> bool" where
  "rooted_stack acc \<longleftrightarrow>
     (\<exists>ns. acc = map Normal ns @ [RootDir] \<and> list_all (\<lambda>n. wf_component (Normal n)) ns)"

lemma rooted_stack_push:
  assumes "rooted_stack acc" "wf_component c"
  shows "rooted_stack (norm_push acc c)"
proof -
  from assms(1) obtain ns where acc: "acc = map Normal ns @ [RootDir]"
    and ns: "list_all (\<lambda>n. wf_component (Normal n)) ns" by (auto simp: rooted_stack_def)
  from wf_component_cases[OF assms(2)] show ?thesis
  proof (elim disjE exE conjE)
    assume c: "c = ParentDir"
    show ?thesis
    proof (cases ns)
      case Nil
      then show ?thesis using acc c assms(1) by simp
    next
      case (Cons n ns')
      then have "norm_push acc c = map Normal ns' @ [RootDir]" using acc c by simp
      with Cons ns show ?thesis by (auto simp: rooted_stack_def)
    qed
  next
    fix s assume c: "c = Normal s"
    then have "norm_push acc c = map Normal (s # ns) @ [RootDir]" using acc by simp
    moreover have "list_all (\<lambda>n. wf_component (Normal n)) (s # ns)" using ns assms(2) c by simp
    ultimately show ?thesis unfolding rooted_stack_def by blast
  qed
qed

lemma rooted_stack_fold:
  "rooted_stack acc \<Longrightarrow> list_all wf_component cs \<Longrightarrow> rooted_stack (foldl norm_push acc cs)"
  by (induction cs arbitrary: acc) (simp_all add: rooted_stack_push)

lemma normalize_absolute:
  assumes "path_is_absolute p"
  obtains ns where "normalize_components (path_components p) = RootDir # map Normal ns"
    "list_all (\<lambda>n. wf_component (Normal n)) ns"
proof -
  obtain body where b: "path_components p = RootDir # body" "list_all wf_component body"
    using path_components_shape[of p] assms by auto
  have "rooted_stack (foldl norm_push [RootDir] body)"
    using b(2) by (intro rooted_stack_fold) (auto simp: rooted_stack_def)
  then obtain ns where "foldl norm_push [RootDir] body = map Normal ns @ [RootDir]"
    "list_all (\<lambda>n. wf_component (Normal n)) ns" by (auto simp: rooted_stack_def)
  with b(1) that[of "rev ns"] show ?thesis
    by (simp add: normalize_components_def rev_map)
qed

lemma normalize_lexically_absolute:
  assumes "path_is_absolute p"
  obtains ns where "path_components (normalize_lexically p) = RootDir # map Normal ns"
    "list_all (\<lambda>n. wf_component (Normal n)) ns"
    "normalize_components (path_components p) = RootDir # map Normal ns"
proof -
  from assms obtain ns where ns: "normalize_components (path_components p) = RootDir # map Normal ns"
    "list_all (\<lambda>n. wf_component (Normal n)) ns" by (rule normalize_absolute)
  have "wf_components (RootDir # map Normal ns)"
    using ns(2) by (simp add: wf_components_def list_all_iff)
  then have "path_components (normalize_lexically p) = RootDir # map Normal ns"
    using components_roundtrip by (simp add: normalize_lexically_def ns(1))
  with ns that show ?thesis by blast
qed

lemma normalize_components_normals:
  "normalize_components (RootDir # map Normal ns) = RootDir # map Normal ns"
proof -
  have "foldl norm_push acc (map Normal ns) = rev (map Normal ns) @ acc" for acc
    by (induction ns arbitrary: acc) simp_all
  then show ?thesis by (simp add: normalize_components_def)
qed

lemma strip_list_prefix_Some_iff: "strip_list_prefix xs ys = Some r \<longleftrightarrow> xs = ys @ r"
  by (induction xs ys rule: strip_list_prefix.induct) auto

text \<open>Normalising an absolute path is idempotent and leaves no \<open>.\<close> or \<open>..\<close>: its components
  are the root followed by plain names, so no rule pattern ever sees a traversal that climbs
  out of the directory it seems to be in.\<close>

theorem normalize_lexically_absolute_spec:
  assumes "path_is_absolute p"
  shows "normalize_lexically (normalize_lexically p) = normalize_lexically p
    \<and> path_is_absolute (normalize_lexically p)
    \<and> \<not> path_has_parent_dir (normalize_lexically p)
    \<and> CurDir \<notin> set (path_components (normalize_lexically p))"
proof -
  from assms obtain ns where ns: "path_components (normalize_lexically p) = RootDir # map Normal ns"
    "normalize_components (path_components p) = RootDir # map Normal ns"
    by (rule normalize_lexically_absolute) blast
  have "normalize_lexically (normalize_lexically p) = normalize_lexically p"
    by (simp add: normalize_lexically_def[of "normalize_lexically p"] ns(1)
        normalize_components_normals) (simp add: normalize_lexically_def ns(2))
  moreover have "path_is_absolute (normalize_lexically p)"
    by (simp add: normalize_lexically_def ns(2) components_path_def path_is_absolute_def)
  ultimately show ?thesis using ns(1) by (auto simp: path_has_parent_dir_def list_ex_iff)
qed

lemma normalize_lexically_absolute_spec_witness:
  "normalize_lexically ''/a/./b/../../../c'' = ''/c'' \<and> \<not> path_has_parent_dir ''/c''"
proof -
  have e: "normalize_lexically ''/a/./b/../../../c'' = ''/c''" by code_simp
  have "path_is_absolute ''/a/./b/../../../c''" by code_simp
  from normalize_lexically_absolute_spec[OF this] show ?thesis by (simp add: e)
qed

section \<open>Lines\<close>

text \<open>\<open>str::lines\<close>: a line feed ends a line, with the carriage return before it.\<close>

definition strip_cr :: "string \<Rightarrow> string" where
  "strip_cr l = (case strip_suffix l [CHR 0x0D] of Some r \<Rightarrow> r | None \<Rightarrow> l)"

definition text_lines :: "string \<Rightarrow> string list" where
  "text_lines s =
     (let parts = split_on (\<lambda>c. c = CHR 0x0A) s in
      map strip_cr (butlast parts) @ (if last parts = [] then [] else [last parts]))"

abbreviation lines_of :: "string \<Rightarrow> string list" where
  "lines_of s \<equiv> split_on (\<lambda>c. c = CHR 0x0A) s"

text \<open>A number in decimal.\<close>

fun nat_digits :: "nat \<Rightarrow> string" where
  "nat_digits n =
     (if n < 10 then [char_of (48 + n)] else nat_digits (n div 10) @ [char_of (48 + n mod 10)])"

declare nat_digits.simps [simp del]

subsection \<open>Pieces between line feeds\<close>

lemma lines_no_feed: "l \<in> set (lines_of s) \<Longrightarrow> CHR 0x0A \<notin> set l"
  using split_on_no_sep[of "\<lambda>c. c = CHR 0x0A" s] by (auto simp: list_all_iff)

lemma lines_of_single: "CHR 0x0A \<notin> set l \<Longrightarrow> lines_of l = [l]"
  by (rule split_on_no_char) (auto simp: list_all_iff)

text \<open>Joining texts with line feeds joins their lines.\<close>

lemma lines_append_feed: "lines_of (a @ CHR 0x0A # b) = lines_of a @ lines_of b"
proof (induction a)
  case (Cons x a)
  then show ?case by (cases "lines_of a") auto
qed simp

lemma lines_unlines: "ts \<noteq> [] \<Longrightarrow> lines_of (join [CHR 0x0A] ts) = concat (map lines_of ts)"
proof (induction ts)
  case (Cons t ts)
  then show ?case by (cases ts) (simp_all add: join_Cons lines_append_feed)
qed simp

text \<open>Appending texts glues the last line of one to the first line of the other.\<close>

lemma lines_append: "lines_of (a @ b) = butlast (lines_of a) @ (last (lines_of a) @ hd (lines_of b)) # tl (lines_of b)"
proof (induction a)
  case (Cons x a)
  obtain w ws where w: "lines_of a = w # ws" by (cases "lines_of a") auto
  then show ?case using Cons by (cases ws) auto
qed simp

lemma text_lines_no_feed: "l \<in> set (text_lines s) \<Longrightarrow> CHR 0x0A \<notin> set l"
proof -
  have cr: "CHR 0x0A \<notin> set (strip_cr x)" if "x \<in> set (lines_of s)" for x
    using lines_no_feed[OF that] by (auto simp: strip_cr_def strip_suffix_Some_iff split: option.splits)
  assume "l \<in> set (text_lines s)"
  then consider x where "l = strip_cr x" "x \<in> set (lines_of s)" | "l = last (lines_of s)"
    by (auto simp: text_lines_def Let_def dest: in_set_butlastD split: if_splits)
  then show ?thesis using cr lines_no_feed[OF last_in_set[OF split_on_nonempty]] by cases auto
qed

subsection \<open>Texts of whole lines\<close>

definition whole_lines :: "string list \<Rightarrow> string" where
  "whole_lines ls = concat (map (\<lambda>l. l @ [CHR 0x0A]) ls)"

text \<open>A line that \<open>str::lines\<close> gives back as it is: no line feed in it, no carriage return at its end.\<close>

definition plain_line :: "string \<Rightarrow> bool" where
  "plain_line l \<longleftrightarrow> CHR 0x0A \<notin> set l \<and> CHR 0x0D \<notin> set l"

lemma whole_lines_simps [simp]:
  "whole_lines [] = []"
  "whole_lines (l # ls) = l @ CHR 0x0A # whole_lines ls"
  "whole_lines (xs @ ys) = whole_lines xs @ whole_lines ys"
  by (simp_all add: whole_lines_def)

lemma whole_lines_Nil_iff [simp]: "whole_lines ls = [] \<longleftrightarrow> ls = []"
  by (cases ls) simp_all

lemma whole_lines_concat: "whole_lines (concat lss) = concat (map whole_lines lss)"
  by (induction lss) simp_all

lemma strip_cr_plain: "plain_line l \<Longrightarrow> strip_cr l = l"
  by (auto simp: strip_cr_def plain_line_def strip_suffix_Some_iff split: option.split)

lemma lines_of_whole_lines: "list_all plain_line ls \<Longrightarrow> lines_of (whole_lines ls) = ls @ [[]]"
  by (induction ls) (simp_all add: lines_append_feed lines_of_single plain_line_def)

lemma text_lines_whole_lines [simp]: "list_all plain_line ls \<Longrightarrow> text_lines (whole_lines ls) = ls"
  unfolding text_lines_def Let_def
  by (simp add: lines_of_whole_lines butlast_append) (simp add: map_idI strip_cr_plain list_all_iff)

lemma join_whole_lines: "ls \<noteq> [] \<Longrightarrow> join [CHR 0x0A] ls @ [CHR 0x0A] = whole_lines ls"
proof (induction ls)
  case (Cons l ls)
  then show ?case by (cases ls) (simp_all add: join_Cons)
qed simp

lemma join_plain_Nil: "ls \<noteq> [] \<Longrightarrow> join [CHR 0x0A] ls = [] \<Longrightarrow> ls = [[]]"
proof (cases ls)
  case (Cons l r)
  assume "join [CHR 0x0A] ls = []"
  then show ?thesis using Cons by (cases r) simp_all
qed simp

lemma whole_lines_ends: "ls \<noteq> [] \<Longrightarrow> ends_with (whole_lines ls) [CHR 0x0A]"
  by (metis ends_with_iff join_whole_lines)

text \<open>A text that is empty or ends with a line feed is made of whole lines.\<close>

lemma whole_lines_exhaust:
  assumes "s = [] \<or> ends_with s [CHR 0x0A]" "CHR 0x0D \<notin> set s"
  obtains ls where "s = whole_lines ls" "list_all plain_line ls"
proof -
  have "\<exists>ls. s = whole_lines ls \<and> list_all plain_line ls" using assms
  proof (induction "length s" arbitrary: s rule: less_induct)
    case less
    show ?case
    proof (cases "s = []")
      case True
      then show ?thesis by (intro exI[of _ "[]"]) simp
    next
      case False
      with less.prems have e: "ends_with s [CHR 0x0A]" by simp
      then have "CHR 0x0A \<in> set s" by (auto simp: ends_with_iff)
      then obtain a b where ab: "s = a @ CHR 0x0A # b" "CHR 0x0A \<notin> set a"
        by (meson split_list_first)
      have "b = [] \<or> ends_with b [CHR 0x0A]"
      proof (cases b rule: rev_cases)
        case (snoc b' c)
        then show ?thesis using e ab(1) by (auto simp: ends_with_iff)
      qed simp
      then obtain ls where ls: "b = whole_lines ls" "list_all plain_line ls"
        using less.hyps[of b] less.prems(2) ab(1) by auto
      have "plain_line a" using ab less.prems(2) by (simp add: plain_line_def)
      then show ?thesis using ls ab(1) by (intro exI[of _ "a # ls"]) simp
    qed
  qed
  then show ?thesis using that by blast
qed

end
