(* ===== verification/Perm_Types.thy ===== *)
theory Perm_Types
  imports Rust_Str
begin

text \<open>
  The vocabulary of the permission engine (\<open>permission/types.rs\<close>): clients, accesses, decisions,
  hook asks, rules and their sources, and how a tool call becomes an access.
\<close>

subsection \<open>Clients\<close>

datatype client_type = Generic | GrokTUI | GrokWeb | Nebula | Extension | GrokPager | Desktop

fun user_agent_label :: "client_type \<Rightarrow> string" where
  "user_agent_label Generic = ''grok-shell''"
| "user_agent_label GrokTUI = ''grok-tui''"
| "user_agent_label GrokWeb = ''grok-web''"
| "user_agent_label Nebula = ''nebula''"
| "user_agent_label Extension = ''grok-code-extension''"
| "user_agent_label GrokPager = ''grok-pager''"
| "user_agent_label Desktop = ''grok-desktop''"

definition from_client_identifier :: "string option \<Rightarrow> client_type" where
  "from_client_identifier i =
     (if i = Some ''grok-web'' then GrokWeb
      else if i = Some ''nebula'' then Nebula
      else if i = Some ''grok-code-extension'' then Extension
      else if i = Some ''grok-desktop'' then Desktop
      else if i = Some ''grok-pager'' then GrokPager
      else Generic)"

fun feedback_label :: "client_type \<Rightarrow> string" where
  "feedback_label GrokTUI = ''tui''"
| "feedback_label GrokPager = ''tui''"
| "feedback_label GrokWeb = ''web''"
| "feedback_label Nebula = ''nebula''"
| "feedback_label Extension = ''extension''"
| "feedback_label Generic = ''agent''"
| "feedback_label Desktop = ''desktop''"

definition can_present_permission_prompt :: "client_type \<Rightarrow> bool" where
  "can_present_permission_prompt c \<longleftrightarrow> c \<noteq> Generic"

subsection \<open>JSON values and tool inputs\<close>

text \<open>A \<open>serde_json::Value\<close>; a number is kept as its lexeme and object keys are unique.\<close>

datatype json =
    JNull
  | JBool bool
  | JNumber string
  | JString string
  | JArray "json list"
  | JObject "(string \<times> json) list"

fun as_object :: "json \<Rightarrow> (string \<times> json) list option" where
  "as_object (JObject kvs) = Some kvs"
| "as_object _ = None"

fun as_str :: "json \<Rightarrow> string option" where
  "as_str (JString s) = Some s"
| "as_str _ = None"

datatype access_kind =
    Read "string option"
  | Grep (grep_path: "string option") (grep_glob: "string option")
  | Edit string
  | Bash string
  | MCPTool string json
  | WebFetch string
  | WebSearch string
  | AgentMessage string

datatype tool_input =
    ReadFile string
  | ListDir string
  | GrepInput "string option" "string option"
  | TodoWrite | TaskOutput | WaitTasks | KillTask | SkillInput
  | TaskInput string
  | SendSubagentMessage string
  | SendFeedback
  | WebSearchInput string
  | SearchReplace string
  | ApplyPatch
  | HashlineEdit string
  | WriteInput string
  | BashInput string
  | MonitorInput string
  | MCPToolInput string json
  | UseTool string json
  | WebFetchInput string
  | Dynamic json
  | OtherTool

fun str_field :: "(string \<times> json) list \<Rightarrow> string list \<Rightarrow> string option" where
  "str_field obj [] = None"
| "str_field obj (k # ks) =
     (case Option.bind (map_of obj k) as_str of Some s \<Rightarrow> Some s | None \<Rightarrow> str_field obj ks)"

definition dynamic_string_field :: "json \<Rightarrow> string list \<Rightarrow> string option" where
  "dynamic_string_field v keys = Option.bind (as_object v) (\<lambda>obj. str_field obj keys)"

definition dynamic_has_field :: "json \<Rightarrow> string list \<Rightarrow> bool" where
  "dynamic_has_field v keys =
     (case as_object v of None \<Rightarrow> False | Some obj \<Rightarrow> list_ex (\<lambda>k. map_of obj k \<noteq> None) keys)"

definition mutation_keys :: "string list" where
  "mutation_keys =
     [''oldString'', ''old_string'', ''newString'', ''new_string'', ''content'', ''edits'',
      ''replaceAll'', ''replace_all'']"

definition dynamic_is_feedback :: "json \<Rightarrow> bool" where
  "dynamic_is_feedback v =
     (case dynamic_string_field v [''name'', ''tool'', ''tool_name'', ''variant''] of
        Some n \<Rightarrow> n = ''send_feedback'' \<or> n = ''SendFeedback''
      | None \<Rightarrow> False)"

definition access_kind_from_dynamic :: "json \<Rightarrow> access_kind" where
  "access_kind_from_dynamic v =
     (if dynamic_is_feedback v then Edit ''feedback_draft''
      else case dynamic_string_field v [''filePath'', ''file_path'', ''path''] of
          Some path \<Rightarrow> if dynamic_has_field v mutation_keys then Edit path else Read (Some path)
        | None \<Rightarrow>
            (case dynamic_string_field v [''command''] of
               Some command \<Rightarrow> Bash command
             | None \<Rightarrow> Read None))"

fun access_kind_of :: "tool_input \<Rightarrow> access_kind" where
  "access_kind_of (ReadFile p) = Read (Some p)"
| "access_kind_of (ListDir p) = Read (Some p)"
| "access_kind_of (GrepInput p g) = Grep p g"
| "access_kind_of TodoWrite = Read None"
| "access_kind_of TaskOutput = Read None"
| "access_kind_of WaitTasks = Read None"
| "access_kind_of KillTask = Read None"
| "access_kind_of SkillInput = Read None"
| "access_kind_of (TaskInput t) = Edit (''task:'' @ t)"
| "access_kind_of (SendSubagentMessage i) = AgentMessage i"
| "access_kind_of SendFeedback = Edit ''feedback_draft''"
| "access_kind_of (WebSearchInput q) = WebSearch q"
| "access_kind_of (SearchReplace p) = Edit p"
| "access_kind_of ApplyPatch = Edit ''apply_patch''"
| "access_kind_of (HashlineEdit p) = Edit p"
| "access_kind_of (WriteInput p) = Edit p"
| "access_kind_of (BashInput c) = Bash c"
| "access_kind_of (MonitorInput c) = Bash c"
| "access_kind_of (MCPToolInput n i) = MCPTool n i"
| "access_kind_of (UseTool n i) = MCPTool n i"
| "access_kind_of (WebFetchInput u) = WebFetch u"
| "access_kind_of (Dynamic v) = access_kind_from_dynamic v"
| "access_kind_of OtherTool = Read None"

subsection \<open>Decisions and hook asks\<close>

datatype decision =
    Allow
  | Ask
  | FollowupMessage string
  | Reject string
  | PolicyDeny string
  | Cancelled

datatype edit_policy = EditAsk | EditAllow | EditReject

fun edit_policy_serialize :: "edit_policy \<Rightarrow> string" where
  "edit_policy_serialize EditAsk = ''ask''"
| "edit_policy_serialize EditAllow = ''allow''"
| "edit_policy_serialize EditReject = ''reject''"

definition edit_policy_deserialize :: "string \<Rightarrow> edit_policy option" where
  "edit_policy_deserialize v =
     (if v = ''ask'' then Some EditAsk
      else if v = ''allow'' then Some EditAllow
      else if v = ''reject'' then Some EditReject
      else None)"

record hook_ask =
  hook_name :: string
  hook_reason :: "string option"

definition HOOK_ASK_SEPARATOR :: string where
  "HOOK_ASK_SEPARATOR = [CHR '' '', CHR 0xE2, CHR 0x80, CHR 0x94, CHR '' '']"

definition ask_line :: "hook_ask \<Rightarrow> string" where
  "ask_line h =
     (let reason = join '' '' (split_whitespace (str_or (hook_reason h) [])) in
      if reason = [] then ''hook '' @ [CHR 0x27] @ hook_name h @ [CHR 0x27] @ '' asks for confirmation''
      else ''hook '' @ [CHR 0x27] @ hook_name h @ [CHR 0x27] @ '' asks: '' @ reason)"

definition prompt_header :: "hook_ask \<Rightarrow> string \<Rightarrow> string" where
  "prompt_header h action = action @ HOOK_ASK_SEPARATOR @ ask_line h"

definition strip_prompt_header :: "hook_ask \<Rightarrow> string \<Rightarrow> string" where
  "strip_prompt_header h title =
     str_or (Option.bind (strip_suffix title (ask_line h)) (\<lambda>action. strip_suffix action HOOK_ASK_SEPARATOR))
       title"

subsection \<open>Rules\<close>

datatype pattern_mode = GlobMode | DomainMode
datatype rule_action = RAllow | RDeny | RAsk
datatype tool_filter =
  AnyTool | BashTool | EditTool | ReadTool | GrepTool | McpTool | WebFetchTool | WebSearchTool
  | AgentMessageTool
datatype prompt_policy = PolicyAsk | PolicyDenyAll | PolicyAuto | PolicyAllow

record permission_rule =
  pr_action :: rule_action
  pr_tool :: tool_filter
  pr_pattern :: "string option"
  pr_mode :: pattern_mode

record permission_config =
  pcfg_rules :: "permission_rule list"
  pcfg_prompt_policy :: prompt_policy
  pcfg_default_mode_configured :: bool

definition permission_config_new :: "permission_rule list \<Rightarrow> permission_config" where
  "permission_config_new rules =
     \<lparr>pcfg_rules = rules, pcfg_prompt_policy = PolicyAsk, pcfg_default_mode_configured = False\<rparr>"

datatype requirement_source =
    SrcUnknown
  | SrcRequirements string
  | SrcSystemRequirements string
  | SrcManagedSettings string
  | SrcManagedConfig string
  | SrcConfig string
  | SrcSettings string

fun source_display :: "requirement_source \<Rightarrow> string" where
  "source_display SrcUnknown = ''<unknown>''"
| "source_display (SrcRequirements p) = p @ '' (requirements)''"
| "source_display (SrcSystemRequirements p) = p @ '' (system requirements)''"
| "source_display (SrcManagedSettings p) = p @ '' (managed-settings)''"
| "source_display (SrcManagedConfig p) = p @ '' (managed config)''"
| "source_display (SrcConfig p) = p @ '' (config)''"
| "source_display (SrcSettings p) = p @ '' (settings)''"

record path_context =
  ctx_real_cwd :: string
  ctx_display_cwd :: "string option"

text \<open>A request, without the protocol's own description of the tool call, which only the prompt shows.\<close>

record permission_request =
  rq_access :: access_kind
  rq_path_context :: "path_context option"
  rq_session_id :: "string option"
  rq_subagent_type :: "string option"
  rq_subagent_description :: "string option"
  rq_hook_ask :: "hook_ask option"

subsection \<open>Properties\<close>

text \<open>The prompt title that shows a hook's ask strips back to the action the user is asked
  about, whatever the action, the hook's name and its reason are.\<close>

theorem prompt_header_roundtrip: "strip_prompt_header h (prompt_header h action) = action"
proof -
  have "strip_suffix (prompt_header h action) (ask_line h) = Some (action @ HOOK_ASK_SEPARATOR)"
    by (simp add: strip_suffix_Some_iff prompt_header_def)
  moreover have "strip_suffix (action @ HOOK_ASK_SEPARATOR) HOOK_ASK_SEPARATOR = Some action"
    by (simp add: strip_suffix_Some_iff)
  ultimately show ?thesis by (simp add: strip_prompt_header_def str_or_def)
qed

end
