(* ===== verification/Host.thy ===== *)
theory Host
  imports Bash_Splitting Paths Perm_Types
begin

text \<open>
  What the permission engine takes from outside its own source, as one record passed to the
  definitions that use it: the tree-sitter parser, the \<open>glob\<close> and \<open>url\<close> crates, Unicode lower
  casing, a snapshot of the file system for the escalate-only symlink checks, the user's
  configuration directory, and libgit2's view of a repository's local configuration.
\<close>

datatype file_meta = MetaSymlink | MetaOther | MetaNotFound | MetaError

record host =
  h_parse :: parser
  h_glob_ok :: "string \<Rightarrow> bool"
  h_glob_match :: "bool \<Rightarrow> string \<Rightarrow> string \<Rightarrow> bool"
  h_url_host :: "string \<Rightarrow> string option"
  h_url_path :: "string \<Rightarrow> string"
  h_lowercase :: "string \<Rightarrow> string"
  h_canonicalize :: "string \<Rightarrow> string option"
  h_metadata :: "string \<Rightarrow> file_meta"
  h_read_link :: "string \<Rightarrow> string option"
  h_user_home :: "string option"
  h_git_config :: "string \<Rightarrow> (string \<times> string) list option"
  h_git_bool_ok :: "string \<Rightarrow> bool"

text \<open>
  \<open>h_glob_ok p\<close> says whether \<open>glob::Pattern::new p\<close> succeeds, and \<open>h_glob_match sep p t\<close> whether
  the compiled pattern matches the text, \<open>sep\<close> being \<open>require_literal_separator\<close>.  A compiled
  pattern is represented by its source.
\<close>

definition glob_new :: "host \<Rightarrow> string \<Rightarrow> string option" where
  "glob_new h p = (if h_glob_ok h p then Some p else None)"

subsection \<open>A concrete host\<close>

text \<open>For evaluating the definitions on examples: a one-wildcard glob, hosts of \<open>http\<close> URLs, and a
  file system without links.\<close>

fun demo_glob :: "bool \<Rightarrow> string \<Rightarrow> string \<Rightarrow> bool" where
  "demo_glob sep [] t = (t = [])"
| "demo_glob sep (c # p) [] = (c = CHR ''*'' \<and> demo_glob sep p [])"
| "demo_glob sep (c # p) (d # t) =
     (if c = CHR ''*'' then demo_glob sep p (d # t) \<or> (\<not> (sep \<and> d = CHR ''/'') \<and> demo_glob sep (c # p) t)
      else c = d \<and> demo_glob sep p t)"

definition demo_url_host :: "string \<Rightarrow> string option" where
  "demo_url_host u =
     map_option (\<lambda>r. to_ascii_lowercase (takeWhile (\<lambda>c. c \<noteq> CHR ''/'') r)) (strip_prefix u ''https://'')"

definition demo_url_path :: "string \<Rightarrow> string" where
  "demo_url_path u =
     (case strip_prefix u ''https://'' of
        None \<Rightarrow> []
      | Some r \<Rightarrow> (case dropWhile (\<lambda>c. c \<noteq> CHR ''/'') r of [] \<Rightarrow> ''/'' | path \<Rightarrow> path))"

definition demo_host :: host where
  "demo_host =
     \<lparr>h_parse = demo_parse, h_glob_ok = (\<lambda>_. True), h_glob_match = demo_glob,
      h_url_host = demo_url_host, h_url_path = demo_url_path, h_lowercase = to_ascii_lowercase,
      h_canonicalize = (\<lambda>p. Some (normalize_lexically p)),
      h_metadata = (\<lambda>_. MetaOther), h_read_link = (\<lambda>_. None),
      h_user_home = Some ''/home/u/.astra'', h_git_config = (\<lambda>_. Some []),
      h_git_bool_ok = (\<lambda>v. v \<in> set [''true'', ''false''])\<rparr>"

end
