(* ===== verification/Inline_Shell.thy ===== *)
theory Inline_Shell
  imports Wrappers
begin

text \<open>
  Two judgements on an argv from \<open>permission/policy.rs\<close>: whether it is a shell re-interpreting an
  inline \<open>-c\<close> script, and whether its head is a vehicle that executes code handed to it.
\<close>

datatype shell_word = WordLiteral string | WordUntrusted

datatype inline_shell_script =
    NotInline
  | InlineLiteral nat
  | InlineUntrusted
  | InlineUnrecognized

fun is_potential_inline :: "inline_shell_script \<Rightarrow> bool" where
  "is_potential_inline (InlineLiteral _) = True"
| "is_potential_inline InlineUntrusted = True"
| "is_potential_inline NotInline = False"
| "is_potential_inline InlineUnrecognized = False"

definition ambiguous :: "bool \<Rightarrow> inline_shell_script" where
  "ambiguous saw_c = (if saw_c then InlineUntrusted else InlineUnrecognized)"

definition finish_literal :: "bool \<Rightarrow> nat \<Rightarrow> inline_shell_script" where
  "finish_literal dynamic_head i = (if dynamic_head then InlineUntrusted else InlineLiteral i)"

definition no_inline :: "bool \<Rightarrow> inline_shell_script" where
  "no_inline unrecognized = (if unrecognized then InlineUnrecognized else NotInline)"

text \<open>
  One iteration of the loop of \<open>shell_dash_c_script\<close> on the literal word \<open>w\<close> at index \<open>i\<close>, \<open>rest\<close>
  being the words after it: return, or go on after one or two words with new flags.
\<close>

datatype dash_step =
    Return inline_shell_script
  | Advance (adv_saw_c: bool) (adv_unrecognized: bool)
  | AdvanceTwo

definition dash_dash_step :: "bool \<Rightarrow> bool \<Rightarrow> bool \<Rightarrow> nat \<Rightarrow> shell_word list \<Rightarrow> dash_step" where
  "dash_dash_step dynamic_head saw_c unrec i rest =
     (if \<not> saw_c then Return (no_inline unrec)
      else case first rest of
          Some (WordLiteral _) \<Rightarrow> Return (finish_literal dynamic_head (i + 1))
        | _ \<Rightarrow> Return InlineUntrusted)"

definition dash_long_step :: "bool \<Rightarrow> bool \<Rightarrow> string \<Rightarrow> dash_step" where
  "dash_long_step saw_c unrec w =
     (if w \<in> set [''--noprofile'', ''--norc'', ''--posix''] then Advance saw_c unrec
      else if saw_c then Return InlineUntrusted
      else Advance saw_c True)"

definition dash_cluster_step :: "bool \<Rightarrow> bool \<Rightarrow> string \<Rightarrow> shell_word list \<Rightarrow> dash_step" where
  "dash_cluster_step saw_c unrec w rest =
     (if w \<in> set [''-o'', ''+o'', ''-O'', ''+O''] then
        (case first rest of
           Some (WordLiteral v) \<Rightarrow>
             if \<not> starts_with v ''-'' then AdvanceTwo else Return (ambiguous saw_c)
         | _ \<Rightarrow> Return (ambiguous saw_c))
      else if starts_with w ''-O'' \<and> 2 < length w then Advance saw_c unrec
      else if (starts_with w ''+O'' \<or> starts_with w ''+o'') \<and> 2 < length w then Advance saw_c unrec
      else if starts_with w ''-o'' \<and> 2 < length w then Return (ambiguous saw_c)
      else if starts_with w ''+'' then Advance saw_c unrec
      else let flags = drop 1 w in
        if has_char flags CHR ''o'' \<or> has_char flags CHR ''O'' then Return (ambiguous saw_c)
        else Advance (saw_c \<or> has_char flags CHR ''c'') unrec)"

definition dash_step_of :: "bool \<Rightarrow> bool \<Rightarrow> bool \<Rightarrow> nat \<Rightarrow> string \<Rightarrow> shell_word list \<Rightarrow> dash_step" where
  "dash_step_of dynamic_head saw_c unrec i w rest =
     (if w = ''--'' \<or> w = ''-'' then dash_dash_step dynamic_head saw_c unrec i rest
      else if \<not> starts_with w ''-'' \<and> \<not> starts_with w ''+'' then
        Return (if saw_c then finish_literal dynamic_head i else no_inline unrec)
      else if w = ''--init-file'' \<or> w = ''--rcfile'' then
        (case first rest of
           Some (WordLiteral _) \<Rightarrow> AdvanceTwo
         | _ \<Rightarrow> Return (ambiguous saw_c))
      else if starts_with w ''--'' then dash_long_step saw_c unrec w
      else dash_cluster_step saw_c unrec w rest)"

fun dash_scan :: "bool \<Rightarrow> bool \<Rightarrow> bool \<Rightarrow> nat \<Rightarrow> shell_word list \<Rightarrow> inline_shell_script" where
  "dash_scan dyn saw_c unrec i [] = (if saw_c then InlineUntrusted else no_inline unrec)"
| "dash_scan dyn saw_c unrec i (WordUntrusted # rest) = ambiguous saw_c"
| "dash_scan dyn saw_c unrec i (WordLiteral w # rest) =
     (case dash_step_of dyn saw_c unrec i w rest of
        Return r \<Rightarrow> r
      | Advance saw_c' unrec' \<Rightarrow> dash_scan dyn saw_c' unrec' (i + 1) rest
      | AdvanceTwo \<Rightarrow> dash_scan dyn saw_c unrec (i + 2) (drop 1 rest))"

definition supported_shell :: "string \<Rightarrow> bool" where
  "supported_shell program \<longleftrightarrow>
     base_name program \<in> set [''bash'', ''sh'', ''dash'', ''zsh'', ''ksh'']"

definition shell_dash_c_script :: "shell_word list \<Rightarrow> inline_shell_script" where
  "shell_dash_c_script words =
     (case words of
        [] \<Rightarrow> NotInline
      | WordLiteral program # rest \<Rightarrow>
          if \<not> supported_shell program then NotInline else dash_scan False False False 1 rest
      | WordUntrusted # rest \<Rightarrow> dash_scan True False False 1 rest)"

subsection \<open>Execution vehicles\<close>

definition EXEC_VEHICLE_HEADS :: "string list" where
  "EXEC_VEHICLE_HEADS =
     [''sh'', ''bash'', ''zsh'', ''dash'', ''ksh'', ''fish'', ''deno'', ''bun'', ''julia'', ''rscript'', ''awk'',
      ''gawk'', ''mawk'', ''nawk'', ''nodejs'', ''luajit'', ''phpdbg'', ''php-cgi'', ''pythonw'', ''npx'',
      ''bunx'', ''pipx'', ''uvx'', ''uv'', ''xargs'', ''find'', ''sudo'', ''doas'', ''su'', ''ssh'', ''watch'',
      ''setsid'', ''flock'', ''chroot'', ''nsenter'', ''docker'', ''podman'']"

definition EXEC_VEHICLE_HEAD_FAMILIES :: "string list" where
  "EXEC_VEHICLE_HEAD_FAMILIES = [''python'', ''node'', ''ruby'', ''perl'', ''php'', ''lua'']"

definition normalized_command_head :: "argv \<Rightarrow> string option" where
  "normalized_command_head words =
     map_option (\<lambda>w. let head = to_ascii_lowercase (base_name w) in
                      str_or (strip_suffix head ''.exe'') head)
       (first words)"

definition version_suffix :: "string \<Rightarrow> bool" where
  "version_suffix rest =
     list_all (\<lambda>c. is_ascii_digit c \<or> c = CHR ''.'') (str_or (strip_suffix rest ''t'') rest)"

definition head_is_exec_vehicle :: "argv \<Rightarrow> bool" where
  "head_is_exec_vehicle words =
     (case normalized_command_head words of
        None \<Rightarrow> False
      | Some head \<Rightarrow>
          head \<in> set EXEC_VEHICLE_HEADS
          \<or> list_ex (\<lambda>family. case strip_prefix head family of
                None \<Rightarrow> False | Some rest \<Rightarrow> version_suffix rest) EXEC_VEHICLE_HEAD_FAMILIES)"

subsection \<open>The script index\<close>

lemma ambiguous_no_literal: "ambiguous b \<noteq> InlineLiteral j" "no_inline b \<noteq> InlineLiteral j"
  by (simp_all add: ambiguous_def no_inline_def)

lemma finish_literal_iff: "finish_literal dyn i = InlineLiteral j \<longleftrightarrow> \<not> dyn \<and> i = j"
  by (simp add: finish_literal_def)

text \<open>A step that returns a literal has seen \<open>-c\<close>, and points at this word or, after \<open>--\<close>, at the
  next one, which is then literal too.\<close>

lemma dash_step_literal:
  assumes "dash_step_of dyn saw_c unrec i w rest = Return (InlineLiteral j)"
  shows "saw_c \<and> \<not> dyn \<and> (j = i \<or> j = i + 1 \<and> (\<exists>v. first rest = Some (WordLiteral v)))"
  using assms ambiguous_no_literal
  by (auto simp: dash_step_of_def dash_dash_step_def dash_long_step_def dash_cluster_step_def
      Let_def finish_literal_iff split: if_splits option.splits shell_word.splits)

lemma dash_step_advance_c:
  assumes "dash_step_of dyn False unrec i w rest = Advance True unrec'"
  shows "starts_with w ''-'' \<and> \<not> starts_with w ''--'' \<and> has_char (drop 1 w) CHR ''c''"
  using assms
  by (auto simp: dash_step_of_def dash_dash_step_def dash_long_step_def dash_cluster_step_def
      Let_def split: if_splits option.splits shell_word.splits)

definition c_flag :: "shell_word \<Rightarrow> bool" where
  "c_flag w = (case w of
     WordLiteral s \<Rightarrow> starts_with s ''-'' \<and> \<not> starts_with s ''--'' \<and> has_char (drop 1 s) CHR ''c''
   | WordUntrusted \<Rightarrow> False)"

lemma dash_scan_literal:
  "dash_scan dyn saw_c unrec i ws = InlineLiteral j \<Longrightarrow>
     \<not> dyn \<and> i \<le> j \<and> j < i + length ws \<and> (\<exists>v. ws ! (j - i) = WordLiteral v)
     \<and> (saw_c \<or> (\<exists>w \<in> set (take (j - i) ws). c_flag w))"
proof (induction dyn saw_c unrec i ws rule: dash_scan.induct)
  case (1 dyn saw_c unrec i)
  then show ?case by (simp add: ambiguous_no_literal split: if_splits)
next
  case (2 dyn saw_c unrec i rest)
  then show ?case by (simp add: ambiguous_no_literal)
next
  case (3 dyn saw_c unrec i w rest)
  show ?case
  proof (cases "dash_step_of dyn saw_c unrec i w rest")
    case (Return r)
    with "3.prems" have "dash_step_of dyn saw_c unrec i w rest = Return (InlineLiteral j)" by simp
    from dash_step_literal[OF this] show ?thesis
      by (cases rest) auto
  next
    case (Advance c' u')
    with "3.IH"(1)[OF Advance] "3.prems"
    have ih: "\<not> dyn" "i + 1 \<le> j" "j < i + 1 + length rest" "\<exists>v. rest ! (j - (i + 1)) = WordLiteral v"
      "c' \<or> (\<exists>w \<in> set (take (j - (i + 1)) rest). c_flag w)" by simp_all
    then obtain k where k: "j = i + 1 + k" by (metis le_Suc_ex)
    have "c' \<Longrightarrow> saw_c \<or> c_flag (WordLiteral w)"
      using Advance dash_step_advance_c[of dyn unrec i w rest u'] by (cases saw_c) (auto simp: c_flag_def)
    with ih k show ?thesis by auto
  next
    case AdvanceTwo
    with "3.IH"(2)[OF AdvanceTwo] "3.prems"
    have ih: "\<not> dyn" "i + 2 \<le> j" "j < i + 2 + length (drop 1 rest)"
      "\<exists>v. drop 1 rest ! (j - (i + 2)) = WordLiteral v"
      "saw_c \<or> (\<exists>w \<in> set (take (j - (i + 2)) (drop 1 rest)). c_flag w)" by simp_all
    then obtain k where k: "j = i + 2 + k" by (metis le_Suc_ex)
    show ?thesis
    proof (cases rest)
      case Nil
      with ih show ?thesis by simp
    next
      case (Cons r rs)
      with ih k show ?thesis by auto
    qed
  qed
qed

text \<open>When the classifier trusts an inline script, the head is a literal supported shell, the
  index it returns points at a literal word inside the argv, past the head, and a short option
  cluster with \<open>c\<close> comes before it: the recursion never indexes out of bounds nor takes an
  ordinary operand for a script.\<close>

theorem shell_dash_c_literal_sound:
  assumes "shell_dash_c_script words = InlineLiteral j"
  shows "1 < j \<and> j < length words \<and> (\<exists>v. words ! j = WordLiteral v)
    \<and> (\<exists>w \<in> set (take j words). c_flag w)
    \<and> (\<exists>program. words ! 0 = WordLiteral program \<and> supported_shell program)"
proof -
  from assms obtain program rest where w: "words = WordLiteral program # rest"
    and s: "supported_shell program" and sc: "dash_scan False False False 1 rest = InlineLiteral j"
    using dash_scan_literal[of True False False 1 _ j]
    by (auto simp: shell_dash_c_script_def split: list.splits shell_word.splits if_splits)
  from dash_scan_literal[OF sc] have l: "1 \<le> j" "j < 1 + length rest"
    "\<exists>v. rest ! (j - 1) = WordLiteral v" "\<exists>w \<in> set (take (j - 1) rest). c_flag w" by simp_all
  then obtain k where k: "j = Suc k" by (cases j) auto
  have "0 < k" using l(4) k by (cases k) simp_all
  with l k w s show ?thesis by auto
qed

lemma shell_dash_c_literal_sound_witness:
  "shell_dash_c_script (map WordLiteral [''/bin/bash'', ''-o'', ''pipefail'', ''-lc'', ''rm -rf /'']) = InlineLiteral 4
   \<and> supported_shell ''/bin/bash''"
proof -
  let ?ws = "map WordLiteral [''/bin/bash'', ''-o'', ''pipefail'', ''-lc'', ''rm -rf /'']"
  have e: "shell_dash_c_script ?ws = InlineLiteral 4" by code_simp
  from shell_dash_c_literal_sound[OF e] e show ?thesis by simp
qed

lemma base_name_after_dir:
  assumes "CHR ''/'' \<notin> set n" "CHR 0x5C \<notin> set n" "dir = [] \<or> ends_with dir ''/''"
  shows "base_name (dir @ n) = n"
proof -
  let ?p = "\<lambda>c. c \<noteq> CHR ''/'' \<and> c \<noteq> CHR 0x5C"
  have "takeWhile ?p (rev n @ rev dir) = rev n @ takeWhile ?p (rev dir)"
    using assms(1,2) by (intro takeWhile_append2) auto
  moreover have "takeWhile ?p (rev dir) = []"
    using assms(3) by (auto simp: ends_with_iff)
  ultimately show ?thesis by (simp add: base_name_def)
qed

lemma version_char_facts:
  assumes "is_ascii_digit c \<or> c = CHR ''.''"
  shows "ascii_lower c = c" "c \<noteq> CHR ''/''" "c \<noteq> CHR 0x5C" "c \<noteq> CHR ''t''" "c \<noteq> CHR ''e''"
  using assms by (auto simp: is_ascii_digit_def ascii_lower_def byte_def)

lemma strip_suffix_None_last: "s = [] \<or> last s \<noteq> last p \<Longrightarrow> p \<noteq> [] \<Longrightarrow> strip_suffix s p = None"
  by (auto simp: strip_suffix_def ends_with_iff)

lemma families_facts:
  "family \<in> set EXEC_VEHICLE_HEAD_FAMILIES \<Longrightarrow>
     to_ascii_lowercase family = family \<and> CHR ''/'' \<notin> set family \<and> CHR 0x5C \<notin> set family
     \<and> strip_suffix family ''.exe'' = None"
proof -
  have "list_all (\<lambda>f. to_ascii_lowercase f = f \<and> CHR ''/'' \<notin> set f \<and> CHR 0x5C \<notin> set f
      \<and> strip_suffix f ''.exe'' = None) EXEC_VEHICLE_HEAD_FAMILIES" by code_simp
  then show "family \<in> set EXEC_VEHICLE_HEAD_FAMILIES \<Longrightarrow> ?thesis" by (auto simp: list_all_iff)
qed

text \<open>A versioned or path-qualified interpreter is still an execution vehicle: prefixing the
  program with any directory and suffixing an interpreter family with any version number does
  not hide it, so no allow rule on such a head counts as narrow.\<close>

theorem exec_vehicle_spellings:
  assumes "family \<in> set EXEC_VEHICLE_HEAD_FAMILIES"
    and "list_all (\<lambda>c. is_ascii_digit c \<or> c = CHR ''.'') version"
    and "dir = [] \<or> ends_with dir ''/''"
  shows "head_is_exec_vehicle ((dir @ family @ version) # args)"
proof -
  note f = families_facts[OF assms(1)]
  have v: "\<forall>c \<in> set version. ascii_lower c = c \<and> c \<noteq> CHR ''/'' \<and> c \<noteq> CHR 0x5C \<and> c \<noteq> CHR ''t'' \<and> c \<noteq> CHR ''e''"
    using assms(2) version_char_facts by (auto simp: list_all_iff)
  have base: "base_name (dir @ family @ version) = family @ version"
    using f v assms(3) by (intro base_name_after_dir) auto
  have lower: "to_ascii_lowercase (family @ version) = family @ version"
    using f v by (simp add: to_ascii_lowercase_def map_idI)
  have exe: "strip_suffix (family @ version) ''.exe'' = None"
  proof (cases version rule: rev_cases)
    case Nil
    with f show ?thesis by simp
  next
    case (snoc ys y)
    with v have "y \<noteq> CHR ''e''" by simp
    then show ?thesis
      unfolding snoc by (intro strip_suffix_None_last) simp_all
  qed
  have t: "strip_suffix version ''t'' = None"
  proof (rule strip_suffix_None_last)
    show "version = [] \<or> last version \<noteq> last ''t''" using v last_in_set[of version] by fastforce
  qed simp
  have "normalized_command_head ((dir @ family @ version) # args) = Some (family @ version)"
    by (simp add: normalized_command_head_def base lower exe str_or_def Let_def)
  moreover have "list_ex (\<lambda>fam. case strip_prefix (family @ version) fam of
      None \<Rightarrow> False | Some rest \<Rightarrow> version_suffix rest) EXEC_VEHICLE_HEAD_FAMILIES"
    unfolding list_ex_iff
    by (rule bexI[OF _ assms(1)]) (simp add: version_suffix_def t str_or_def assms(2))
  ultimately show ?thesis by (simp add: head_is_exec_vehicle_def)
qed

lemma exec_vehicle_spellings_witness: "head_is_exec_vehicle [''/usr/bin/python3.13'', ''x.py'']"
  using exec_vehicle_spellings[of "''python''" "''3.13''" "''/usr/bin/''" "[''x.py'']"]
  by (simp add: EXEC_VEHICLE_HEAD_FAMILIES_def is_ascii_digit_def byte_def ends_with_def)

end
