(* ===== verification/Shell_Files.thy ===== *)
theory Shell_Files
  imports Host Inline_Shell Pattern_Match
begin

text \<open>
  How the shell file gate reads a script's tree (\<open>permission/shell_access.rs\<close>): operands as literal
  or untrusted words, command invocations with their execution scope, redirect targets, and the
  positions after which relative operands are no longer anchored.

  Which files a command's argv reads, writes or creates (\<open>permission/shell_access.rs\<close>): the tables of
  readers and writers, flag-named operands, path-moving commands, the write-path classification of
  a whole script, and the textual normalisation of a shell path.
\<close>

section \<open>Shell words\<close>

datatype file_mode = ReadMode | WriteMode | CreateMode

definition shell_program_name :: "string \<Rightarrow> string" where
  "shell_program_name w = base_name w"

subsection \<open>Decoding operands\<close>

definition expansion_kind :: "string \<Rightarrow> bool" where
  "expansion_kind k \<longleftrightarrow>
     k \<in> set [''expansion'', ''simple_expansion'', ''command_substitution'', ''arithmetic_expansion'',
             ''process_substitution'']"

text \<open>Some proper descendant expands at run time.\<close>

definition node_has_expansion :: "node \<Rightarrow> bool" where
  "node_has_expansion n =
     list_ex (\<lambda>m. list_ex (\<lambda>c. expansion_kind (kind c)) (children m)) (walk_lifo (\<lambda>_. True) [n])"

definition is_windows_path_like :: "string \<Rightarrow> bool" where
  "is_windows_path_like raw \<longleftrightarrow>
     starts_with raw [CHR 0x5C, CHR 0x5C]
     \<or> (case first raw of Some b \<Rightarrow> is_ascii_alphabetic b | None \<Rightarrow> False) \<and> get raw 1 = Some CHR '':''"

fun fold_backslashes :: "string \<Rightarrow> string option" where
  "fold_backslashes [] = Some []"
| "fold_backslashes (c # cs) =
     (if c = CHR 0x5C then
        (case cs of [] \<Rightarrow> None | n # cs' \<Rightarrow> map_option ((#) n) (fold_backslashes cs'))
      else map_option ((#) c) (fold_backslashes cs))"

definition decode_unquoted_word :: "string \<Rightarrow> string option" where
  "decode_unquoted_word raw =
     (if \<not> has_char raw CHR 0x5C then Some raw
      else if is_windows_path_like raw then Some raw
      else fold_backslashes raw)"

fun fold_double_quoted :: "string \<Rightarrow> string option" where
  "fold_double_quoted [] = Some []"
| "fold_double_quoted (c # cs) =
     (if c \<noteq> CHR 0x5C then map_option ((#) c) (fold_double_quoted cs)
      else (case cs of
          [] \<Rightarrow> None
        | n # cs' \<Rightarrow>
            if n \<in> {CHR ''$'', CHR 0x60, CHR 0x22, CHR 0x5C, CHR 0x0A}
            then map_option ((#) n) (fold_double_quoted cs')
            else map_option (\<lambda>r. CHR 0x5C # n # r) (fold_double_quoted cs')))"

definition decode_double_quoted_content :: "string \<Rightarrow> string option" where
  "decode_double_quoted_content content =
     (if \<not> has_char content CHR 0x5C then Some content else fold_double_quoted content)"

datatype arg_text = ArgLiteral string | ArgAmbiguous

definition literal_or_ambiguous :: "string option \<Rightarrow> arg_text" where
  "literal_or_ambiguous d = (case d of Some l \<Rightarrow> ArgLiteral l | None \<Rightarrow> ArgAmbiguous)"

definition strip_both :: "string \<Rightarrow> string \<Rightarrow> string" where
  "strip_both raw q = str_or (Option.bind (strip_prefix raw q) (\<lambda>s. strip_suffix s q)) raw"

definition shell_node_arg :: "string \<Rightarrow> node \<Rightarrow> arg_text option" where
  "shell_node_arg src n =
     (let text = node_text src n in
      if kind n = ''variable_assignment'' then None
      else if kind n = ''word'' \<or> kind n = ''number'' then
        Some (literal_or_ambiguous (Option.bind text decode_unquoted_word))
      else if kind n = ''raw_string'' then
        map_option (\<lambda>raw. ArgLiteral (strip_both raw [CHR 0x27])) text
      else if kind n = ''string'' then
        (if node_has_expansion n then Some ArgAmbiguous
         else map_option
           (\<lambda>raw. literal_or_ambiguous (decode_double_quoted_content (strip_both raw [CHR 0x22]))) text)
      else if kind n = ''concatenation'' then
        (if node_has_expansion n then Some ArgAmbiguous
         else Some (literal_or_ambiguous (Option.bind text decode_shell_literal_spelling)))
      else Some ArgAmbiguous)"

subsection \<open>Execution scopes\<close>

text \<open>
  A node together with what lies above it: for each ancestor, innermost first, the ancestor and
  the next sibling of the child through which it is reached.
\<close>

type_synonym above = "(node \<times> node option) list"

fun with_next :: "node list \<Rightarrow> (node \<times> node option) list" where
  "with_next [] = []"
| "with_next (c # cs) = (c, first cs) # with_next cs"

definition located_children :: "node \<Rightarrow> above \<Rightarrow> (node \<times> above) list" where
  "located_children n up = map (\<lambda>(c, sib). (c, (n, sib) # up)) (with_next (children n))"

function walk_located :: "(node \<times> above) list \<Rightarrow> (node \<times> above) list" where
  "walk_located [] = []"
| "walk_located ((n, up) # stk) = (n, up) # walk_located (rev (located_children n up) @ stk)"
  by pat_completeness auto
termination
proof (relation "measure (\<lambda>stk. size_list size (map fst stk))")
  fix n :: node and up stk
  have m: "map fst (located_children n up) = children n"
  proof -
    have "map fst (map (\<lambda>(c, sib). (c, (n, sib) # up)) (with_next cs)) = cs" for cs
      by (induction cs) simp_all
    then show ?thesis by (simp add: located_children_def)
  qed
  have "size_list size (map fst (rev (located_children n up) @ stk))
        = size_list size (children n) + size_list size (map fst stk)"
    by (simp only: map_append rev_map[symmetric] size_list_append size_list_rev m)
  then have "size_list size (map fst (rev (located_children n up) @ stk))
        < size_list size (map fst ((n, up) # stk))"
    using size_children_list[of n] by (simp only: list.map fst_conv list.size)
  then show "(rev (located_children n up) @ stk, (n, up) # stk) \<in> measure (\<lambda>stk. size_list size (map fst stk))"
    by (simp only: in_measure)
qed simp

declare walk_located.simps [simp del]

record execution_scope =
  sc_start :: int
  sc_end :: int

definition USIZE_MAX :: int where "USIZE_MAX = 18446744073709551615"

definition scope_of_node :: "node \<Rightarrow> execution_scope" where
  "scope_of_node n = \<lparr>sc_start = int (start_byte n), sc_end = int (end_byte n)\<rparr>"

fun execution_scope_of :: "node \<Rightarrow> above \<Rightarrow> execution_scope" where
  "execution_scope_of current [] = \<lparr>sc_start = 0, sc_end = USIZE_MAX\<rparr>"
| "execution_scope_of current ((parent, sib) # up) =
     (if (case sib of Some s \<Rightarrow> kind s = ''&'' | None \<Rightarrow> False) then
        scope_of_node (if kind current = ''list'' then current else parent)
      else if kind parent \<in> set [''subshell'', ''command_substitution'', ''process_substitution''] then
        scope_of_node parent
      else if kind parent = ''pipeline'' then scope_of_node current
      else execution_scope_of parent up)"

definition scope_contains :: "execution_scope \<Rightarrow> execution_scope \<Rightarrow> bool" where
  "scope_contains a b \<longleftrightarrow> sc_start a \<le> sc_start b \<and> sc_end b \<le> sc_end a"

record cwd_poison =
  po_at :: nat
  po_scope :: execution_scope

definition changes_cwd :: "string \<Rightarrow> node \<Rightarrow> bool" where
  "changes_cwd src n \<longleftrightarrow>
     kind n = ''command''
     \<and> (case Option.bind (child_by_field n ''name'') (node_text src) of
          Some program \<Rightarrow> shell_program_name program \<in> set [''cd'', ''pushd'', ''popd'']
        | None \<Rightarrow> False)"

definition cwd_poison_positions :: "node \<Rightarrow> string \<Rightarrow> cwd_poison list" where
  "cwd_poison_positions root src =
     map (\<lambda>(n, up). \<lparr>po_at = start_byte n, po_scope = execution_scope_of n up\<rparr>)
       (filter (\<lambda>(n, up). changes_cwd src n) (walk_located [(root, [])]))"

definition script_has_cwd_change :: "node \<Rightarrow> string \<Rightarrow> bool" where
  "script_has_cwd_change root src \<longleftrightarrow> cwd_poison_positions root src \<noteq> []"

definition cwd_unpinned_before :: "cwd_poison list \<Rightarrow> nat \<Rightarrow> execution_scope \<Rightarrow> bool" where
  "cwd_unpinned_before positions at scope =
     list_ex (\<lambda>p. po_at p < at \<and> (po_scope p = scope \<or> scope_contains (po_scope p) scope)) positions"

subsection \<open>Invocations\<close>

record shell_invocation =
  inv_start_byte :: nat
  inv_scope :: execution_scope
  inv_words :: "shell_word list"
  inv_wrapper_words :: argv

definition NUL_WORD :: string where "NUL_WORD = [CHR 0x00]"

fun wrapper_word :: "shell_word \<Rightarrow> string" where
  "wrapper_word (WordLiteral w) = w"
| "wrapper_word WordUntrusted = NUL_WORD"

definition invocation_operand :: "string \<Rightarrow> node \<Rightarrow> arg_text option" where
  "invocation_operand src c =
     (if kind c = ''command_name'' then Option.bind (first (named_children c)) (shell_node_arg src)
      else shell_node_arg src c)"

definition operand_word :: "arg_text \<Rightarrow> shell_word" where
  "operand_word a = (case a of ArgLiteral w \<Rightarrow> WordLiteral w | ArgAmbiguous \<Rightarrow> WordUntrusted)"

definition invocation_words :: "string \<Rightarrow> node \<Rightarrow> shell_word list" where
  "invocation_words src n =
     map operand_word (List.map_filter (invocation_operand src) (named_children n))"

definition shell_command_invocations :: "node \<Rightarrow> string \<Rightarrow> shell_invocation list" where
  "shell_command_invocations root src =
     sort_key inv_start_byte
       (map (\<lambda>(n, up). let ws = invocation_words src n in
               \<lparr>inv_start_byte = start_byte n, inv_scope = execution_scope_of n up, inv_words = ws,
                inv_wrapper_words = map wrapper_word ws\<rparr>)
         (filter (\<lambda>(n, up). kind n = ''command'') (walk_located [(root, [])])))"

fun literal_word :: "shell_word \<Rightarrow> string option" where
  "literal_word (WordLiteral w) = Some w"
| "literal_word WordUntrusted = None"

definition literal_words :: "shell_word list \<Rightarrow> argv" where
  "literal_words ws = List.map_filter literal_word ws"

record invocation_peel =
  ip_words :: "shell_word list"
  ip_norm :: normalized_peel

definition unwrap_invocation_checked :: "shell_invocation \<Rightarrow> invocation_peel" where
  "unwrap_invocation_checked iv =
     (let norm = normalize_command_words (inv_wrapper_words iv);
          peeled_count = length (inv_wrapper_words iv) - length (wp_words norm) in
      \<lparr>ip_words = drop peeled_count (inv_words iv), ip_norm = norm\<rparr>)"

definition words_are_opaque_shell :: "shell_word list \<Rightarrow> bool" where
  "words_are_opaque_shell words \<longleftrightarrow>
     is_potential_inline (shell_dash_c_script words)
     \<or> (case first words of Some (WordLiteral p) \<Rightarrow> shell_program_name p = ''eval'' | _ \<Rightarrow> False)"

definition tree_has_opaque_shell :: "node \<Rightarrow> string \<Rightarrow> bool" where
  "tree_has_opaque_shell root src =
     list_ex (\<lambda>iv. words_are_opaque_shell (ip_words (unwrap_invocation_checked iv)))
       (shell_command_invocations root src)"

subsection \<open>Redirects\<close>

record redirect_target =
  rt_path :: "string option"
  rt_mode :: file_mode
  rt_ambiguous :: bool
  rt_start_byte :: nat
  rt_scope :: execution_scope

definition shell_arg_is_ambiguous :: "string \<Rightarrow> bool" where
  "shell_arg_is_ambiguous token \<longleftrightarrow> has_any token ''*?[''"

text \<open>The loop over the children: the first operator, or nothing for an inline \<open><<\<close>.\<close>

fun redirect_operator :: "node list \<Rightarrow> string option" where
  "redirect_operator [] = None"
| "redirect_operator (c # cs) =
     (if contains_str (kind c) ''<<'' then None
      else if has_char (kind c) CHR ''>'' \<or> has_char (kind c) CHR ''<'' then Some (kind c)
      else redirect_operator cs)"

definition redirect_dest :: "bool \<Rightarrow> file_mode \<Rightarrow> arg_text \<Rightarrow> (string option \<times> file_mode \<times> bool) option" where
  "redirect_dest duplicates_fd mode a =
     (case a of
        ArgAmbiguous \<Rightarrow> Some (None, mode, True)
      | ArgLiteral s \<Rightarrow>
          if s = [] \<or> starts_with s ''&'' \<or> duplicates_fd \<and> (s = ''-'' \<or> list_all is_ascii_digit s)
          then None else Some (Some s, mode, shell_arg_is_ambiguous s))"

definition shell_redirect_one :: "node \<Rightarrow> string \<Rightarrow> (string option \<times> file_mode \<times> bool) option" where
  "shell_redirect_one n src =
     Option.bind (redirect_operator (children n)) (\<lambda>op.
       let mode = (if has_char op CHR ''>'' then WriteMode else ReadMode);
           dup = (op = ''>&'' \<or> op = ''<&'') in
       Option.bind (child_by_field n ''destination'') (\<lambda>dest.
       Option.bind (shell_node_arg src dest) (redirect_dest dup mode)))"

definition redirect_at :: "string \<Rightarrow> node \<times> above \<Rightarrow> redirect_target option" where
  "redirect_at src p =
     (if kind (fst p) \<noteq> ''file_redirect'' then None
      else map_option
        (\<lambda>(path, mode, amb). \<lparr>rt_path = path, rt_mode = mode, rt_ambiguous = amb,
            rt_start_byte = start_byte (fst p), rt_scope = execution_scope_of (fst p) (snd p)\<rparr>)
        (shell_redirect_one (fst p) src))"

definition shell_redirect_targets :: "node \<Rightarrow> string \<Rightarrow> redirect_target list" where
  "shell_redirect_targets root src = List.map_filter (redirect_at src) (walk_located [(root, [])])"

section \<open>Shell files\<close>

subsection \<open>Readers and writers\<close>

definition SHELL_READERS :: "string list" where
  "SHELL_READERS =
     [''cat'', ''tac'', ''nl'', ''head'', ''tail'', ''grep'', ''egrep'', ''fgrep'', ''rg'', ''sed'',
      ''awk'', ''less'', ''more'', ''bat'', ''strings'', ''xxd'', ''od'', ''hexdump'', ''base64'',
      ''base32'', ''cut'', ''sort'', ''uniq'', ''wc'', ''type'', ''get-content'', ''gc'', ''diff'',
      ''comm'', ''rev'', ''jq'', ''yq'', ''select-string'', ''sls'', ''ag'', ''ack'', ''zcat'',
      ''zless'', ''zmore'', ''zgrep'', ''zegrep'', ''zfgrep'', ''bzcat'', ''bzgrep'', ''xzcat'',
      ''xzgrep'', ''zstdcat'', ''lz4cat'']"

definition SHELL_WRITERS :: "string list" where
  "SHELL_WRITERS = [''tee'', ''set-content'', ''out-file'', ''add-content'', ''tee-object'', ''truncate'']"

definition shell_file_mode :: "string \<Rightarrow> file_mode option" where
  "shell_file_mode program =
     (if program \<in> set SHELL_READERS then Some ReadMode
      else if program \<in> set SHELL_WRITERS then Some WriteMode
      else None)"

definition is_creation_program :: "string \<Rightarrow> bool" where
  "is_creation_program program \<longleftrightarrow> program = ''mkdir'' \<or> program = ''touch''"

definition is_safe_write_sink :: "string \<Rightarrow> bool" where
  "is_safe_write_sink path \<longleftrightarrow> path = ''/dev/null'' \<or> path = ''/dev/stdout'' \<or> path = ''/dev/stderr''"

definition shell_access :: "file_mode \<Rightarrow> string \<Rightarrow> access_kind" where
  "shell_access mode path = (case mode of ReadMode \<Rightarrow> Read (Some path) | _ \<Rightarrow> Edit path)"

definition shell_sed_in_place :: "argv \<Rightarrow> bool" where
  "shell_sed_in_place words =
     list_ex (\<lambda>w. w = ''--in-place'' \<or> starts_with w ''--in-place=''
        \<or> starts_with w ''-'' \<and> \<not> starts_with w ''--'' \<and> has_char w CHR ''i'') (drop 1 words)"

text \<open>A lazy scan over the words with the word after each: the shape of the flag iterators.\<close>

fun scan_pairs :: "(string \<Rightarrow> string option \<Rightarrow> 'a option) \<Rightarrow> argv \<Rightarrow> 'a list" where
  "scan_pairs f [] = []"
| "scan_pairs f (w # ws) =
     (case f w (first ws) of Some v \<Rightarrow> v # scan_pairs f ws | None \<Rightarrow> scan_pairs f ws)"

definition output_flag_value :: "string \<Rightarrow> string option \<Rightarrow> string option" where
  "output_flag_value token following =
     (case strip_prefix token ''--output='' of
        Some v \<Rightarrow> Some v
      | None \<Rightarrow>
          (case strip_prefix token ''-o'' of
             Some v \<Rightarrow>
               if v \<noteq> [] then Some v else following
           | None \<Rightarrow> if token = ''--output'' then following else None))"

definition shell_output_flag_values :: "argv \<Rightarrow> string list" where
  "shell_output_flag_values = scan_pairs output_flag_value"

definition value_flag_value :: "string \<Rightarrow> string \<Rightarrow> string option \<Rightarrow> string option" where
  "value_flag_value flag token following =
     (case strip_prefix token (flag @ ''='') of
        Some v \<Rightarrow> Some v
      | None \<Rightarrow>
          if token = flag then following
          else if \<not> starts_with flag ''--'' then
            (case strip_prefix token flag of
               Some v \<Rightarrow> if v \<noteq> [] then Some v else None
             | None \<Rightarrow> None)
          else None)"

definition value_flag_values :: "argv \<Rightarrow> string \<Rightarrow> string list" where
  "value_flag_values words flag = scan_pairs (value_flag_value flag) words"

fun file_candidates_from :: "bool \<Rightarrow> argv \<Rightarrow> argv" where
  "file_candidates_from end_of_options [] = []"
| "file_candidates_from end_of_options (token # ws) =
     (if \<not> end_of_options \<and> token = ''--'' then file_candidates_from True ws
      else if end_of_options \<or> token \<noteq> ''-'' \<and> \<not> starts_with token ''-''
      then token # file_candidates_from end_of_options ws
      else file_candidates_from end_of_options ws)"

definition shell_file_candidates :: "argv \<Rightarrow> argv" where
  "shell_file_candidates words = file_candidates_from False (drop 1 words)"

definition dd_operand :: "string \<Rightarrow> (string \<times> file_mode) option" where
  "dd_operand token =
     (case strip_prefix token ''if='' of
        Some path \<Rightarrow> Some (path, ReadMode)
      | None \<Rightarrow> map_option (\<lambda>path. (path, WriteMode)) (strip_prefix token ''of=''))"

definition special_file_operands :: "string \<Rightarrow> argv \<Rightarrow> (string \<times> file_mode) list" where
  "special_file_operands program words =
     (if program = ''dd'' then List.map_filter dd_operand (drop 1 words)
      else if program = ''sort'' \<or> program = ''go'' \<or> program = ''git'' then
        map (\<lambda>p. (p, WriteMode)) (shell_output_flag_values words)
      else if program = ''rustc'' then
        map (\<lambda>p. (p, WriteMode)) (shell_output_flag_values words @ value_flag_values words ''--out-dir'')
      else if program = ''rustfmt'' then map (\<lambda>p. (p, WriteMode)) (shell_file_candidates words)
      else [])"

definition shell_path_command_operands :: "string \<Rightarrow> argv \<Rightarrow> (string \<times> file_mode) list option" where
  "shell_path_command_operands program words =
     (let operands = shell_file_candidates words in
      if program \<in> set [''cp'', ''mv'', ''ln'', ''install''] then
        (if operands = [] then None
         else Some (map (\<lambda>s. (s, ReadMode)) (butlast operands) @ [(last operands, WriteMode)]))
      else if program = ''rm'' \<or> program = ''rmdir'' then Some (map (\<lambda>c. (c, WriteMode)) operands)
      else if is_creation_program program then Some (map (\<lambda>c. (c, CreateMode)) operands)
      else if program = ''uniq'' then
        (case operands of
           input # output # _ \<Rightarrow> Some [(input, ReadMode), (output, WriteMode)]
         | _ \<Rightarrow> None)
      else None)"

definition is_directory_operand :: "string \<Rightarrow> bool" where
  "is_directory_operand token \<longleftrightarrow> token = ''.'' \<or> token = ''..'' \<or> ends_with token ''/''"

definition shell_reader_can_recurse :: "string \<Rightarrow> argv \<Rightarrow> argv \<Rightarrow> bool" where
  "shell_reader_can_recurse program words candidates \<longleftrightarrow>
     program \<in> set [''grep'', ''egrep'', ''fgrep'']
       \<and> list_ex (\<lambda>w. w = ''--recursive'' \<or> w = ''--dereference-recursive''
            \<or> starts_with w ''-'' \<and> \<not> starts_with w ''--'' \<and> (has_char w CHR ''r'' \<or> has_char w CHR ''R'')) words
     \<or> program \<in> set [''rg'', ''ag'', ''ack'']
       \<and> (length candidates \<le> 1 \<or> list_ex is_directory_operand (drop 1 candidates))"

subsection \<open>Shell paths\<close>

definition is_absolute_shell_path :: "string \<Rightarrow> bool" where
  "is_absolute_shell_path path \<longleftrightarrow>
     starts_with path ''/'' \<or> starts_with path ''~/'' \<or> get path 1 = Some CHR '':''"

definition is_quote :: "char \<Rightarrow> bool" where
  "is_quote c \<longleftrightarrow> c = CHR 0x22 \<or> c = CHR 0x27"

definition trim_quote_chars :: "string \<Rightarrow> string" where
  "trim_quote_chars s = rev (dropWhile is_quote (rev (dropWhile is_quote s)))"

definition normalize_shell_path_raw :: "string \<Rightarrow> string" where
  "normalize_shell_path_raw path =
     (let p = replace_char CHR 0x5C CHR ''/'' (trim_quote_chars path) in
      case strip_prefix p ''/c/'' of Some rest \<Rightarrow> ''C:/'' @ rest | None \<Rightarrow> p)"

text \<open>One segment of \<open>lexical_normalize\<close> on the stack of segments kept, innermost first.\<close>

definition lexical_push :: "bool \<Rightarrow> string list \<Rightarrow> string \<Rightarrow> string list" where
  "lexical_push absolute out segment =
     (if segment = [] \<or> segment = ''.'' then out
      else if segment = ''..'' then
        (case out of
           s # r \<Rightarrow> if s \<noteq> ''..'' then r else if \<not> absolute then ''..'' # out else out
         | [] \<Rightarrow> if \<not> absolute then [''..''] else out)
      else segment # out)"

definition lexical_normalize :: "string \<Rightarrow> string" where
  "lexical_normalize path =
     (let prefix_len = (if get path 1 = Some CHR '':'' then 2 else 0);
          drive = take prefix_len path; rest = drop prefix_len path;
          absolute = starts_with rest ''/'';
          body = join ''/'' (rev (foldl (lexical_push absolute) [] (split_on is_sep rest)))
      in if absolute then drive @ ''/'' @ body else drive @ body)"

definition normalize_shell_path :: "string \<Rightarrow> string" where
  "normalize_shell_path path = lexical_normalize (normalize_shell_path_raw path)"

subsection \<open>Write paths\<close>

definition paths_of_mode :: "file_mode \<Rightarrow> (string \<times> file_mode) list \<Rightarrow> string list" where
  "paths_of_mode mode ops = map fst (filter (\<lambda>(_, m). m = mode) ops)"

definition command_words_write_paths :: "argv \<Rightarrow> string list" where
  "command_words_write_paths words =
     (let inner = unwrap_wrappers words in
      case first inner of
        None \<Rightarrow> []
      | Some w \<Rightarrow>
          let program = to_ascii_lowercase (shell_program_name w);
              special = paths_of_mode WriteMode (special_file_operands program inner) in
          case shell_path_command_operands program inner of
            Some ops \<Rightarrow> special @ paths_of_mode WriteMode ops
          | None \<Rightarrow>
              if shell_file_mode program = Some WriteMode \<or> program = ''sed'' \<and> shell_sed_in_place inner
              then special @ shell_file_candidates inner
              else special)"

definition command_words_creation_paths :: "argv \<Rightarrow> string list" where
  "command_words_creation_paths words =
     (let inner = unwrap_wrappers words in
      case first inner of
        None \<Rightarrow> []
      | Some w \<Rightarrow>
          (case shell_path_command_operands (to_ascii_lowercase (shell_program_name w)) inner of
             None \<Rightarrow> [] | Some ops \<Rightarrow> paths_of_mode CreateMode ops))"

record write_paths_split =
  redirect_paths :: "string list"
  unextracted_write_redirect :: bool
  word_paths :: "string list"
  creation_paths :: "string list"

definition command_write_paths_split :: "node \<Rightarrow> string \<Rightarrow> write_paths_split" where
  "command_write_paths_split root src =
     (let writes = filter (\<lambda>r. rt_mode r = WriteMode) (shell_redirect_targets root src);
          argvs = map (\<lambda>i. literal_words (inv_words i)) (shell_command_invocations root src) in
      \<lparr>redirect_paths = List.map_filter rt_path writes,
       unextracted_write_redirect = list_ex (\<lambda>r. rt_path r = None) writes,
       word_paths = concat (map command_words_write_paths argvs),
       creation_paths = concat (map command_words_creation_paths argvs)\<rparr>)"

definition command_write_paths_in_tree :: "node \<Rightarrow> string \<Rightarrow> string list" where
  "command_write_paths_in_tree root src =
     (let split = command_write_paths_split root src in redirect_paths split @ word_paths split)"

subsection \<open>The path normaliser\<close>

lemma lexical_push_absolute:
  "''..'' \<notin> set out \<Longrightarrow>
     map Normal (lexical_push True out seg) @ [RootDir]
       = foldl norm_push (map Normal out @ [RootDir]) (segment_components seg)
     \<and> ''..'' \<notin> set (lexical_push True out seg)"
  by (cases out) (auto simp: lexical_push_def segment_components_def)

lemma lexical_fold_absolute:
  "''..'' \<notin> set out \<Longrightarrow>
     map Normal (foldl (lexical_push True) out segs) @ [RootDir]
       = foldl norm_push (map Normal out @ [RootDir]) (concat (map segment_components segs))"
proof (induction segs arbitrary: out)
  case (Cons s ss)
  from lexical_push_absolute[OF Cons.prems, of s] Cons.IH[of "lexical_push True out s"]
  show ?case by simp
qed simp

text \<open>The shell gate's own path normaliser agrees with the one the direct \<open>Read\<close> and \<open>Edit\<close> tools
  use on every absolute Unix path without a drive prefix: the same file cannot be spelled so that
  the tool gate and the shell gate match it against different text.\<close>

theorem lexical_normalize_agrees:
  assumes "path_is_absolute p" and "get p 1 \<noteq> Some CHR '':''"
  shows "lexical_normalize p = normalize_lexically p"
proof -
  let ?out = "foldl (lexical_push True) [] (split_on is_sep p)"
  have sw: "starts_with p ''/''" using assms(1) by (simp add: path_is_absolute_def)
  then have "path_components p = RootDir # concat (map segment_components (split_on is_sep p))"
    by (simp add: path_components_def)
  then have "normalize_components (path_components p) = rev (map Normal ?out @ [RootDir])"
    using lexical_fold_absolute[of "[]" "split_on is_sep p"]
    by (simp add: normalize_components_def)
  then have "normalize_components (path_components p) = RootDir # map Normal (rev ?out)"
    by (simp add: rev_map)
  then have "normalize_lexically p = ''/'' @ join ''/'' (rev ?out)"
    by (simp add: normalize_lexically_def components_path_def comp_def)
  then show ?thesis using sw assms(2) by (simp add: lexical_normalize_def)
qed

lemma lexical_normalize_agrees_witness:
  "lexical_normalize ''/w//./src/../../etc/x'' = normalize_lexically ''/w//./src/../../etc/x''"
  by (rule lexical_normalize_agrees; code_simp)

text \<open>The condition on the second byte matters: any byte counts as a drive letter.\<close>

lemma drive_prefix_differs:
  "lexical_normalize ''/:/../etc/passwd'' = ''/:/etc/passwd''
   \<and> normalize_lexically ''/:/../etc/passwd'' = ''/etc/passwd''"
  by code_simp

end
