(* ===== verification/Decisions.thy ===== *)
theory Decisions
  imports Perm_Types
begin

text \<open>
  How the engine combines verdicts (\<open>permission/policy.rs\<close>): gate decisions with the provenance
  of an ask, plain decisions, and the rank-based combination of both.  The laws of combining are
  proved once, for any rank, in the locale \<open>escalation\<close>.
\<close>

datatype gate_decision = GateReject string | AskRuleMatch | AskFailClosed

fun into_decision :: "gate_decision \<Rightarrow> decision" where
  "into_decision (GateReject r) = Reject r"
| "into_decision AskRuleMatch = Ask"
| "into_decision AskFailClosed = Ask"

fun gate_is_ask :: "gate_decision \<Rightarrow> bool" where
  "gate_is_ask AskRuleMatch = True"
| "gate_is_ask AskFailClosed = True"
| "gate_is_ask (GateReject _) = False"

fun gate_rank :: "gate_decision \<Rightarrow> nat" where
  "gate_rank (GateReject _) = 3"
| "gate_rank AskRuleMatch = 2"
| "gate_rank AskFailClosed = 1"

fun combine_gate_decisions :: "gate_decision option \<Rightarrow> gate_decision option \<Rightarrow> gate_decision option" where
  "combine_gate_decisions None b = b"
| "combine_gate_decisions a None = a"
| "combine_gate_decisions (Some a) (Some b) = Some (if gate_rank b \<le> gate_rank a then a else b)"

fun decision_rank :: "decision \<Rightarrow> nat" where
  "decision_rank (Reject _) = 3"
| "decision_rank (PolicyDeny _) = 3"
| "decision_rank Ask = 2"
| "decision_rank Allow = 1"
| "decision_rank (FollowupMessage _) = 0"
| "decision_rank Cancelled = 0"

fun combine_decisions :: "decision option \<Rightarrow> decision option \<Rightarrow> decision option" where
  "combine_decisions None b = b"
| "combine_decisions a None = a"
| "combine_decisions (Some a) (Some b) = Some (if decision_rank b \<le> decision_rank a then a else b)"

declare gate_rank.simps [rank_simps] decision_rank.simps [rank_simps]

subsection \<open>Escalation\<close>

locale escalation =
  fixes combine :: "'a option \<Rightarrow> 'a option \<Rightarrow> 'a option" and rank :: "'a \<Rightarrow> nat"
  assumes combine_none_left: "combine None b = b"
    and combine_none_right: "combine a None = a"
    and combine_some: "combine (Some x) (Some y) = Some (if rank y \<le> rank x then x else y)"
begin

lemma combine_cases: "combine a b = a \<or> combine a b = b"
  by (cases a; cases b) (simp_all add: combine_none_left combine_none_right combine_some)

lemma combine_idem: "combine a a = a"
  by (cases a) (simp_all add: combine_none_left combine_some)

lemma combine_assoc: "combine (combine a b) c = combine a (combine b c)"
  by (cases a; cases b; cases c)
    (auto simp: combine_none_left combine_none_right combine_some)

lemma combine_none_iff: "combine a b = None \<longleftrightarrow> a = None \<and> b = None"
  by (cases a; cases b) (simp_all add: combine_none_left combine_none_right combine_some)

lemma combine_escalates_left: "a = Some x \<Longrightarrow> \<exists>y. combine a b = Some y \<and> rank x \<le> rank y"
  by (cases b) (auto simp: combine_none_right combine_some)

lemma combine_escalates_right: "b = Some x \<Longrightarrow> \<exists>y. combine a b = Some y \<and> rank x \<le> rank y"
  by (cases a) (auto simp: combine_none_left combine_some)

text \<open>Combining over a list, starting from a first verdict.\<close>

lemma fold_from: "foldl combine a ds = combine a (foldl combine None ds)"
proof (induction ds arbitrary: a)
  case (Cons d ds)
  have "foldl combine a (d # ds) = combine (combine a d) (foldl combine None ds)"
    using Cons[of "combine a d"] by simp
  also have "\<dots> = combine a (foldl combine d ds)"
    using Cons[of d] by (simp add: combine_assoc)
  finally show ?case by (simp add: combine_none_left)
qed (simp add: combine_none_right)

lemma fold_Cons: "foldl combine None (d # ds) = combine d (foldl combine None ds)"
  using fold_from[of d ds] by (simp add: combine_none_left)

lemma fold_mem: "foldl combine None ds = Some x \<Longrightarrow> Some x \<in> set ds"
proof (induction ds arbitrary: x)
  case (Cons d ds)
  have c: "combine d (foldl combine None ds) = Some x" using Cons.prems by (simp only: fold_Cons)
  from combine_cases[of d "foldl combine None ds"] show ?case
  proof
    assume "combine d (foldl combine None ds) = d"
    with c show ?thesis by simp
  next
    assume "combine d (foldl combine None ds) = foldl combine None ds"
    with c Cons.IH[of x] show ?thesis by simp
  qed
qed simp

lemma fold_none_iff: "foldl combine None ds = None \<longleftrightarrow> (\<forall>d \<in> set ds. d = None)"
proof (induction ds)
  case (Cons d ds)
  then show ?case by (simp only: fold_Cons combine_none_iff list.set ball_simps)
qed simp

lemma fold_escalates:
  "Some x \<in> set ds \<Longrightarrow> \<exists>y. foldl combine None ds = Some y \<and> rank x \<le> rank y"
proof (induction ds)
  case (Cons d ds)
  note f = fold_Cons[of d ds]
  show ?case
  proof (cases "d = Some x")
    case True
    then show ?thesis unfolding f by (rule combine_escalates_left)
  next
    case False
    with Cons.prems have "Some x \<in> set ds" by simp
    from Cons.IH[OF this] obtain z where z: "foldl combine None ds = Some z" "rank x \<le> rank z"
      by blast
    from combine_escalates_right[OF z(1), of d] z(2) show ?thesis
      unfolding f by (auto intro: order.trans)
  qed
qed simp

text \<open>The rank of the result does not depend on the order of the verdicts.\<close>

lemma fold_rank_perm:
  assumes "mset ds = mset ds'"
  shows "map_option rank (foldl combine None ds) = map_option rank (foldl combine None ds')"
proof (cases "foldl combine None ds")
  case None
  then have "\<forall>d \<in> set ds'. d = None" using assms by (auto simp: fold_none_iff dest: mset_eq_setD)
  then have "foldl combine None ds' = None" by (simp add: fold_none_iff)
  with None show ?thesis by simp
next
  case (Some x)
  then have x: "Some x \<in> set ds'" using fold_mem assms by (auto dest: mset_eq_setD)
  then obtain y where y: "foldl combine None ds' = Some y" "rank x \<le> rank y"
    using fold_escalates by blast
  then have "Some y \<in> set ds" using fold_mem assms by (auto dest: mset_eq_setD)
  then obtain z where "foldl combine None ds = Some z" "rank y \<le> rank z"
    using fold_escalates by blast
  with Some y show ?thesis by simp
qed

end

interpretation gate: escalation combine_gate_decisions gate_rank
  by unfold_locales (simp_all add: combine_gate_decisions.simps, case_tac a, simp_all)

interpretation verdict: escalation combine_decisions decision_rank
  by unfold_locales (simp_all, case_tac a, simp_all)

lemma gate_rank_reject: "3 \<le> gate_rank g \<longleftrightarrow> (\<exists>r. g = GateReject r)"
  by (cases g) (simp_all add: rank_simps)

lemma gate_fold_reject:
  assumes "Some (GateReject r) \<in> set ds"
  shows "\<exists>r'. foldl combine_gate_decisions None ds = Some (GateReject r')"
  using gate.fold_escalates[OF assms] gate_rank_reject by (auto simp: rank_simps)

lemma combine_gate_reject_left: "\<exists>r'. combine_gate_decisions (Some (GateReject r)) b = Some (GateReject r')"
  using gate.combine_escalates_left[of "Some (GateReject r)" "GateReject r" b] gate_rank_reject
  by (auto simp: rank_simps)

lemma combine_gate_reject_right: "\<exists>r'. combine_gate_decisions a (Some (GateReject r)) = Some (GateReject r')"
  using gate.combine_escalates_right[of "Some (GateReject r)" "GateReject r" a] gate_rank_reject
  by (auto simp: rank_simps)

end
