(* ===== verification/Policy.thy ===== *)
theory Policy
  imports Pattern_Match Decisions Inline_Shell
begin

text \<open>
  The compiled permission policy (\<open>permission/policy.rs\<close>): deny over ask over allow for one
  access, the conjunctive allow of a Bash chain, and the gate that checks deny and ask rules
  against every chained, wrapped, inline and packed command of a script.

  What the compiled policy guarantees: precedence and order independence of the rule scan, the
  gate over everything a script runs, the conjunctive allow, and escalation through symlinks.
\<close>

section \<open>Policy\<close>

record compiled_policy =
  cp_rules :: "permission_rule list"
  cp_matchers :: "string option list"
  cp_has_file_restrictions :: bool
  cp_has_bash_command_restrictions :: bool
  cp_has_bash_allow_rules :: bool
  cp_catchall :: "bool list"

definition restricts :: "permission_rule \<Rightarrow> bool" where
  "restricts r \<longleftrightarrow> pr_action r = RDeny \<or> pr_action r = RAsk"

definition bash_or_any :: "permission_rule \<Rightarrow> bool" where
  "bash_or_any r \<longleftrightarrow> pr_tool r = BashTool \<or> pr_tool r = AnyTool"

definition compiled_policy_new :: "host \<Rightarrow> permission_rule list \<Rightarrow> compiled_policy" where
  "compiled_policy_new h rules =
     \<lparr>cp_rules = rules,
      cp_matchers = map (rule_matcher h) rules,
      cp_has_file_restrictions =
        list_ex (\<lambda>r. restricts r \<and> (pr_tool r = ReadTool \<or> pr_tool r = EditTool \<or> pr_tool r = AnyTool)) rules,
      cp_has_bash_command_restrictions = list_ex (\<lambda>r. restricts r \<and> bash_or_any r) rules,
      cp_has_bash_allow_rules = list_ex (\<lambda>r. pr_action r = RAllow \<and> bash_or_any r) rules,
      cp_catchall = map (rule_is_catchall h) rules\<rparr>"

subsection \<open>The allow side of a Bash chain\<close>

datatype allow_rule_scope = AnyRule | NarrowOnly

definition bash_words_allowed :: "host \<Rightarrow> compiled_policy \<Rightarrow> argv \<Rightarrow> allow_rule_scope \<Rightarrow> bool" where
  "bash_words_allowed h p words scope =
     (if words = [] then False
      else if scope = NarrowOnly \<and> head_is_exec_vehicle words then False
      else let cmd = join '' '' words in
        list_ex (\<lambda>((rule, matcher), catchall).
            \<not> (scope = NarrowOnly \<and> catchall) \<and> pr_action rule = RAllow \<and> bash_or_any rule
            \<and> bash_allow_pattern_matches h cmd rule matcher)
          (zip (zip (cp_rules p) (cp_matchers p)) (cp_catchall p)))"

definition normalized_flagged :: "normalized_peel \<Rightarrow> bool" where
  "normalized_flagged n \<longleftrightarrow>
     wp_exhausted n \<or> np_ambiguous n \<or> wp_env_options_uncertain n \<or> wp_has_split_string n"

text \<open>
  One segment of a chain; \<open>recurse\<close> is the check of an inline script, absent when the inline
  budget is spent.
\<close>

definition segment_allowed ::
  "host \<Rightarrow> compiled_policy \<Rightarrow> allow_rule_scope \<Rightarrow> (string \<Rightarrow> bool) option \<Rightarrow> plain_command \<Rightarrow> bool"
where
  "segment_allowed h p scope recurse parsed =
     (let norm = normalize_command_words (pc_words parsed); inner = wp_words norm in
      if normalized_flagged norm then False
      else if \<not> bash_words_allowed h p inner scope then False
      else case shell_dash_c_script (map WordLiteral inner) of
          InlineLiteral i \<Rightarrow> (case recurse of Some check \<Rightarrow> check (inner ! i) | None \<Rightarrow> False)
        | NotInline \<Rightarrow> True
        | _ \<Rightarrow> False)"

definition chain_allowed_with ::
  "host \<Rightarrow> compiled_policy \<Rightarrow> allow_rule_scope \<Rightarrow> (string \<Rightarrow> bool) option \<Rightarrow> string \<Rightarrow> bool"
where
  "chain_allowed_with h p scope recurse cmd =
     (case all_commands_from_script (h_parse h) cmd of
        None \<Rightarrow> False
      | Some segments \<Rightarrow> segments \<noteq> [] \<and> list_all (segment_allowed h p scope recurse) segments)"

fun bash_chain_fully_allowed ::
  "host \<Rightarrow> compiled_policy \<Rightarrow> allow_rule_scope \<Rightarrow> nat \<Rightarrow> string \<Rightarrow> bool"
where
  "bash_chain_fully_allowed h p scope 0 = chain_allowed_with h p scope None"
| "bash_chain_fully_allowed h p scope (Suc n) =
     chain_allowed_with h p scope (Some (bash_chain_fully_allowed h p scope n))"

subsection \<open>One access\<close>

fun tool_label :: "tool_filter \<Rightarrow> string" where
  "tool_label AnyTool = ''any tool''"
| "tool_label BashTool = ''bash''"
| "tool_label EditTool = ''edit''"
| "tool_label ReadTool = ''read''"
| "tool_label GrepTool = ''grep''"
| "tool_label McpTool = ''mcp''"
| "tool_label WebFetchTool = ''web_fetch''"
| "tool_label WebSearchTool = ''web_search''"
| "tool_label AgentMessageTool = ''agent_message''"

definition deny_reason :: "permission_rule \<Rightarrow> string" where
  "deny_reason rule =
     (case pr_pattern rule of
        Some p \<Rightarrow>
          ''Denied by permission policy: deny rule on '' @ tool_label (pr_tool rule)
          @ '' matching '' @ [CHR 0x22] @ p @ [CHR 0x22]
      | None \<Rightarrow> ''Denied by permission policy: deny rule on '' @ tool_label (pr_tool rule))"

definition rule_applies :: "host \<Rightarrow> access_kind \<Rightarrow> string option \<Rightarrow> permission_rule \<times> string option \<Rightarrow> bool" where
  "rule_applies h a cwd rm \<longleftrightarrow>
     tool_filter_matches a (pr_tool (fst rm)) \<and> pattern_matches h a (fst rm) (snd rm) cwd"

text \<open>The loop over the rules: the first matching deny returns, the other matches are noted.\<close>

fun scan_rules ::
  "host \<Rightarrow> access_kind \<Rightarrow> string option \<Rightarrow> (permission_rule \<times> string option) list \<Rightarrow> bool \<Rightarrow> bool
     \<Rightarrow> string + (bool \<times> bool)"
where
  "scan_rules h a cwd [] ask allow = Inr (ask, allow)"
| "scan_rules h a cwd (rm # rms) ask allow =
     (if \<not> rule_applies h a cwd rm then scan_rules h a cwd rms ask allow
      else case pr_action (fst rm) of
          RDeny \<Rightarrow> Inl (deny_reason (fst rm))
        | RAsk \<Rightarrow> scan_rules h a cwd rms True allow
        | RAllow \<Rightarrow> scan_rules h a cwd rms ask True)"

definition evaluate_lexical_with_cwd ::
  "host \<Rightarrow> compiled_policy \<Rightarrow> access_kind \<Rightarrow> string option \<Rightarrow> decision option"
where
  "evaluate_lexical_with_cwd h p a cwd =
     (case scan_rules h a cwd (zip (cp_rules p) (cp_matchers p)) False False of
        Inl reason \<Rightarrow> Some (Reject reason)
      | Inr (matched_ask, matched_allow) \<Rightarrow>
          if matched_ask then Some Ask
          else (case a of
              Bash cmd \<Rightarrow>
                if cp_has_bash_allow_rules p
                   \<and> bash_chain_fully_allowed h p AnyRule MAX_INLINE_SHELL_DEPTH cmd
                then Some Allow else None
            | _ \<Rightarrow> if matched_allow then Some Allow else None))"

definition narrow_allow_authorizes :: "host \<Rightarrow> compiled_policy \<Rightarrow> access_kind \<Rightarrow> bool" where
  "narrow_allow_authorizes h p a =
     (case a of
        Bash cmd \<Rightarrow>
          cp_has_bash_allow_rules p \<and> bash_chain_fully_allowed h p NarrowOnly MAX_INLINE_SHELL_DEPTH cmd
      | _ \<Rightarrow> False)"

definition native_path_restrictions_apply :: "compiled_policy \<Rightarrow> access_kind \<Rightarrow> bool" where
  "native_path_restrictions_apply p a =
     list_ex (\<lambda>r. restricts r \<and> tool_filter_matches a (pr_tool r)) (cp_rules p)"

definition escalation_only :: "decision option \<Rightarrow> decision option" where
  "escalation_only d =
     (case d of Some (Reject r) \<Rightarrow> Some (Reject r) | Some Ask \<Rightarrow> Some Ask | _ \<Rightarrow> None)"

definition evaluate_with_cwd_details ::
  "host \<Rightarrow> compiled_policy \<Rightarrow> access_kind \<Rightarrow> string option \<Rightarrow> decision option \<times> bool"
where
  "evaluate_with_cwd_details h p a cwd =
     (let lexical = evaluate_lexical_with_cwd h p a cwd in
      case native_file_path a of
        None \<Rightarrow> (lexical, False)
      | Some path \<Rightarrow>
          (case raw_absolute_tool_path path cwd of
             None \<Rightarrow> (lexical, False)
           | Some raw \<Rightarrow>
               (case follow_absolute_symlink h raw (path_match_string (absolute_normalized_path path cwd)) of
                  FollowTarget resolved \<Rightarrow>
                    (combine_decisions lexical
                       (escalation_only (evaluate_lexical_with_cwd h p (access_with_path a resolved) cwd)), False)
                | Unresolvable \<Rightarrow>
                    if native_path_restrictions_apply p a
                    then (combine_decisions lexical (Some Ask), True) else (lexical, False)
                | NoFollow \<Rightarrow> (lexical, False))))"

definition evaluate_with_cwd :: "host \<Rightarrow> compiled_policy \<Rightarrow> access_kind \<Rightarrow> string option \<Rightarrow> decision option" where
  "evaluate_with_cwd h p a cwd = fst (evaluate_with_cwd_details h p a cwd)"

definition evaluate :: "host \<Rightarrow> compiled_policy \<Rightarrow> access_kind \<Rightarrow> decision option" where
  "evaluate h p a = evaluate_with_cwd h p a None"

subsection \<open>The Bash command gate\<close>

definition escalate :: "host \<Rightarrow> compiled_policy \<Rightarrow> argv \<Rightarrow> gate_decision option" where
  "escalate h p words =
     (case evaluate h p (Bash (join '' '' words)) of
        Some (Reject reason) \<Rightarrow> Some (GateReject reason)
      | Some Ask \<Rightarrow> Some AskRuleMatch
      | _ \<Rightarrow> None)"

definition ask_floor :: "bool \<Rightarrow> gate_decision option" where
  "ask_floor b = (if b then Some AskFailClosed else None)"

text \<open>A nested script: checked by \<open>recurse\<close>, or failing closed when the budget is spent.\<close>

definition nested_script ::
  "(string \<Rightarrow> gate_decision option) option \<Rightarrow> string \<Rightarrow> gate_decision option"
where
  "nested_script recurse script =
     (case recurse of Some check \<Rightarrow> check script | None \<Rightarrow> Some AskFailClosed)"

definition inline_verdict ::
  "(string \<Rightarrow> gate_decision option) option \<Rightarrow> argv \<Rightarrow> gate_decision option"
where
  "inline_verdict recurse inner =
     (case shell_dash_c_script (map WordLiteral inner) of
        InlineLiteral i \<Rightarrow> nested_script recurse (inner ! i)
      | NotInline \<Rightarrow> None
      | _ \<Rightarrow> Some AskFailClosed)"

definition packed_verdict ::
  "(string \<Rightarrow> gate_decision option) option \<Rightarrow> argv \<Rightarrow> gate_decision option"
where
  "packed_verdict recurse inner =
     (case env_split_string_script inner of
        None \<Rightarrow> None
      | Some script \<Rightarrow> nested_script recurse script)"

definition evaluate_command_words ::
  "host \<Rightarrow> compiled_policy \<Rightarrow> (string \<Rightarrow> gate_decision option) option \<Rightarrow> argv \<Rightarrow> gate_decision option"
where
  "evaluate_command_words h p recurse raw_words =
     (let norm = normalize_command_words raw_words; inner = wp_words norm;
          d0 = ask_floor (wp_exhausted norm \<or> np_ambiguous norm \<or> wp_env_options_uncertain norm);
          d1 = combine_gate_decisions d0 (ask_floor (wp_has_split_string norm));
          forms = (if length inner \<noteq> length raw_words then [raw_words, inner] else [raw_words]);
          d2 = foldl (\<lambda>d w. combine_gate_decisions d (escalate h p w)) d1 forms;
          d3 = combine_gate_decisions d2 (inline_verdict recurse inner)
      in combine_gate_decisions d3 (packed_verdict recurse inner))"

definition segments_verdict ::
  "host \<Rightarrow> compiled_policy \<Rightarrow> (string \<Rightarrow> gate_decision option) option \<Rightarrow> string \<Rightarrow> gate_decision option"
where
  "segments_verdict h p recurse cmd =
     (case all_commands_from_script (h_parse h) cmd of
        None \<Rightarrow> Some AskFailClosed
      | Some segments \<Rightarrow>
          foldl (\<lambda>d c. combine_gate_decisions d (evaluate_command_words h p recurse (pc_words c)))
            None segments)"

fun evaluate_bash_command_segments ::
  "host \<Rightarrow> compiled_policy \<Rightarrow> nat \<Rightarrow> string \<Rightarrow> gate_decision option"
where
  "evaluate_bash_command_segments h p 0 = segments_verdict h p None"
| "evaluate_bash_command_segments h p (Suc n) =
     segments_verdict h p (Some (evaluate_bash_command_segments h p n))"

definition evaluate_bash_command_gate :: "host \<Rightarrow> compiled_policy \<Rightarrow> string \<Rightarrow> gate_decision option" where
  "evaluate_bash_command_gate h p cmd =
     (if \<not> cp_has_bash_command_restrictions p then None
      else evaluate_bash_command_segments h p MAX_INLINE_SHELL_DEPTH cmd)"

definition evaluate_bash_command_policy :: "host \<Rightarrow> compiled_policy \<Rightarrow> string \<Rightarrow> decision option" where
  "evaluate_bash_command_policy h p cmd = map_option into_decision (evaluate_bash_command_gate h p cmd)"

section \<open>Policy laws\<close>

subsection \<open>The rule scan\<close>

definition applying :: "host \<Rightarrow> access_kind \<Rightarrow> string option \<Rightarrow> rule_action \<Rightarrow> permission_rule list \<Rightarrow> bool" where
  "applying h a cwd act rules \<longleftrightarrow>
     list_ex (\<lambda>r. rule_applies h a cwd (r, rule_matcher h r) \<and> pr_action r = act) rules"

lemma scan_rules_spec:
  "scan_rules h a cwd rms ask al =
     (case find (\<lambda>rm. rule_applies h a cwd rm \<and> pr_action (fst rm) = RDeny) rms of
        Some rm \<Rightarrow> Inl (deny_reason (fst rm))
      | None \<Rightarrow> Inr (ask \<or> list_ex (\<lambda>rm. rule_applies h a cwd rm \<and> pr_action (fst rm) = RAsk) rms,
                   al \<or> list_ex (\<lambda>rm. rule_applies h a cwd rm \<and> pr_action (fst rm) = RAllow) rms))"
  by (induction rms arbitrary: ask al) (auto split: rule_action.split option.split)

lemma zip_map_self: "zip xs (map f xs) = map (\<lambda>x. (x, f x)) xs"
  by (induction xs) simp_all

lemma compiled_zip:
  "zip (cp_rules (compiled_policy_new h rules)) (cp_matchers (compiled_policy_new h rules)) =
     map (\<lambda>r. (r, rule_matcher h r)) rules"
  by (simp add: compiled_policy_new_def zip_map_self)

lemma compiled_zip3:
  "zip (zip (cp_rules (compiled_policy_new h rules)) (cp_matchers (compiled_policy_new h rules)))
       (cp_catchall (compiled_policy_new h rules)) =
     map (\<lambda>r. ((r, rule_matcher h r), rule_is_catchall h r)) rules"
  by (induction rules) (simp_all add: compiled_policy_new_def)

lemma find_None_list_ex: "find P xs = None \<longleftrightarrow> \<not> list_ex P xs"
  by (induction xs) simp_all

lemma list_ex_map_pair: "list_ex P (map f xs) = list_ex (\<lambda>x. P (f x)) xs"
  by (induction xs) simp_all

lemma evaluate_lexical_cases:
  "evaluate_lexical_with_cwd h (compiled_policy_new h rules) a cwd =
     (if applying h a cwd RDeny rules then
        Some (Reject (deny_reason (the (find (\<lambda>r. rule_applies h a cwd (r, rule_matcher h r) \<and> pr_action r = RDeny) rules))))
      else if applying h a cwd RAsk rules then Some Ask
      else case a of
          Bash cmd \<Rightarrow>
            if cp_has_bash_allow_rules (compiled_policy_new h rules)
               \<and> bash_chain_fully_allowed h (compiled_policy_new h rules) AnyRule MAX_INLINE_SHELL_DEPTH cmd
            then Some Allow else None
        | _ \<Rightarrow> if applying h a cwd RAllow rules then Some Allow else None)"
proof -
  let ?D = "\<lambda>rm. rule_applies h a cwd rm \<and> pr_action (fst rm) = RDeny"
  let ?rms = "map (\<lambda>r. (r, rule_matcher h r)) rules"
  have f: "find ?D ?rms = map_option (\<lambda>r. (r, rule_matcher h r))
      (find (\<lambda>r. rule_applies h a cwd (r, rule_matcher h r) \<and> pr_action r = RDeny) rules)"
    by (induction rules) simp_all
  have d: "applying h a cwd RDeny rules \<longleftrightarrow>
      find (\<lambda>r. rule_applies h a cwd (r, rule_matcher h r) \<and> pr_action r = RDeny) rules \<noteq> None"
    unfolding applying_def find_None_list_ex by simp
  show ?thesis
    unfolding evaluate_lexical_with_cwd_def compiled_zip scan_rules_spec f d
    by (cases "find (\<lambda>r. rule_applies h a cwd (r, rule_matcher h r) \<and> pr_action r = RDeny) rules")
      (simp_all add: applying_def list_ex_map_pair cong: access_kind.case_cong)
qed

lemma evaluate_lexical_reject_iff:
  "(\<exists>r. evaluate_lexical_with_cwd h (compiled_policy_new h rules) a cwd = Some (Reject r)) \<longleftrightarrow>
     applying h a cwd RDeny rules"
  by (auto simp: evaluate_lexical_cases split: access_kind.splits)

lemma evaluate_lexical_ask_iff:
  "evaluate_lexical_with_cwd h (compiled_policy_new h rules) a cwd = Some Ask \<longleftrightarrow>
     \<not> applying h a cwd RDeny rules \<and> applying h a cwd RAsk rules"
  by (auto simp: evaluate_lexical_cases split: access_kind.splits)

lemma evaluate_bash: "evaluate h p (Bash cmd) = evaluate_lexical_with_cwd h p (Bash cmd) None"
  by (simp add: evaluate_def evaluate_with_cwd_def evaluate_with_cwd_details_def Let_def)

subsection \<open>Order independence\<close>

lemma applying_set: "set rules = set rules' \<Longrightarrow> applying h a cwd act rules = applying h a cwd act rules'"
  by (simp add: applying_def list_ex_iff)

lemma bash_words_allowed_set:
  "set rules = set rules' \<Longrightarrow>
     bash_words_allowed h (compiled_policy_new h rules) ws scope =
     bash_words_allowed h (compiled_policy_new h rules') ws scope"
  unfolding bash_words_allowed_def compiled_zip3 by (simp add: list_ex_iff Let_def)

lemma segment_allowed_set:
  assumes "set rules = set rules'"
  shows "segment_allowed h (compiled_policy_new h rules) = segment_allowed h (compiled_policy_new h rules')"
  by (intro ext) (simp only: segment_allowed_def bash_words_allowed_set[OF assms])

lemma chain_allowed_set:
  assumes "set rules = set rules'"
  shows "chain_allowed_with h (compiled_policy_new h rules) scope recurse =
    chain_allowed_with h (compiled_policy_new h rules') scope recurse"
  by (intro ext) (simp only: chain_allowed_with_def segment_allowed_set[OF assms])

lemma bash_chain_allowed_set:
  assumes "set rules = set rules'"
  shows "bash_chain_fully_allowed h (compiled_policy_new h rules) scope n =
    bash_chain_fully_allowed h (compiled_policy_new h rules') scope n"
  by (induction n) (simp_all add: chain_allowed_set[OF assms])

subsection \<open>Everything a script runs\<close>

text \<open>
  \<open>runs h pk n script ws\<close>: the argv \<open>ws\<close> is one of the commands of the script, or of a script that
  one of its commands re-interprets through a shell's \<open>-c\<close> or, when \<open>pk\<close> holds, through
  \<open>env -S\<close>, at most \<open>n\<close> levels deep.
\<close>

inductive runs :: "host \<Rightarrow> bool \<Rightarrow> nat \<Rightarrow> string \<Rightarrow> argv \<Rightarrow> bool" for h :: host and pk :: bool where
  direct: "all_commands_from_script (h_parse h) cmd = Some cs \<Longrightarrow> c \<in> set cs \<Longrightarrow>
    runs h pk n cmd (pc_words c)"
| inline: "all_commands_from_script (h_parse h) cmd = Some cs \<Longrightarrow> c \<in> set cs \<Longrightarrow>
    inner = wp_words (normalize_command_words (pc_words c)) \<Longrightarrow>
    shell_dash_c_script (map WordLiteral inner) = InlineLiteral i \<Longrightarrow>
    runs h pk n (inner ! i) ws \<Longrightarrow> runs h pk (Suc n) cmd ws"
| packed: "pk \<Longrightarrow> all_commands_from_script (h_parse h) cmd = Some cs \<Longrightarrow> c \<in> set cs \<Longrightarrow>
    env_split_string_script (wp_words (normalize_command_words (pc_words c))) = Some s \<Longrightarrow>
    runs h pk n s ws \<Longrightarrow> runs h pk (Suc n) cmd ws"

definition denied :: "host \<Rightarrow> compiled_policy \<Rightarrow> argv \<Rightarrow> bool" where
  "denied h p ws \<longleftrightarrow>
     (\<exists>r. evaluate h p (Bash (join '' '' ws)) = Some (Reject r))"

abbreviation is_gate_reject :: "gate_decision option \<Rightarrow> bool" where
  "is_gate_reject g \<equiv> \<exists>r. g = Some (GateReject r)"

text \<open>A verdict of at least a given severity: 3 is a deny, 2 a rule match, 1 any hold.\<close>

definition gate_at_least :: "nat \<Rightarrow> gate_decision option \<Rightarrow> bool" where
  "gate_at_least k g \<longleftrightarrow> (\<exists>d. g = Some d \<and> k \<le> gate_rank d)"

lemma gate_at_least_None [simp]: "\<not> gate_at_least k None"
  by (simp add: gate_at_least_def)

lemma gate_at_least_reject: "gate_at_least 3 g \<longleftrightarrow> is_gate_reject g"
  by (auto simp: gate_at_least_def gate_rank_reject)

lemma combine_at_least_iff:
  "gate_at_least k (combine_gate_decisions a b) \<longleftrightarrow> gate_at_least k a \<or> gate_at_least k b"
proof
  assume "gate_at_least k (combine_gate_decisions a b)"
  then show "gate_at_least k a \<or> gate_at_least k b" using gate.combine_cases[of a b] by metis
next
  assume "gate_at_least k a \<or> gate_at_least k b"
  then show "gate_at_least k (combine_gate_decisions a b)"
    unfolding gate_at_least_def
    using gate.combine_escalates_left[of a _ b] gate.combine_escalates_right[of b _ a] order.trans
    by metis
qed

lemma combine_reject_iff:
  "is_gate_reject (combine_gate_decisions a b) \<longleftrightarrow> is_gate_reject a \<or> is_gate_reject b"
  using combine_at_least_iff[of 3 a b] by (simp add: gate_at_least_reject)

lemma segments_verdict_at_least:
  assumes "all_commands_from_script (h_parse h) cmd = Some cs" "c \<in> set cs"
    and "gate_at_least k (evaluate_command_words h p recurse (pc_words c))"
  shows "gate_at_least k (segments_verdict h p recurse cmd)"
proof -
  let ?ds = "map (\<lambda>c. evaluate_command_words h p recurse (pc_words c)) cs"
  have "foldl (\<lambda>d c. combine_gate_decisions d (evaluate_command_words h p recurse (pc_words c))) None cs
      = foldl combine_gate_decisions None ?ds"
    by (simp add: foldl_map)
  moreover obtain d where "Some d \<in> set ?ds" "k \<le> gate_rank d"
    using assms(2,3) by (force simp: gate_at_least_def)
  then obtain y where "foldl combine_gate_decisions None ?ds = Some y" "k \<le> gate_rank y"
    using gate.fold_escalates order.trans by blast
  ultimately show ?thesis
    using assms(1) by (simp add: segments_verdict_def gate_at_least_def)
qed

lemma escalate_reject: "denied h p ws \<Longrightarrow> gate_at_least 3 (escalate h p ws)"
  by (auto simp: denied_def escalate_def gate_at_least_def rank_simps)

lemma command_words_at_least:
  "gate_at_least k (escalate h p raw) \<Longrightarrow> gate_at_least k (evaluate_command_words h p recurse raw)"
  "gate_at_least k (escalate h p (wp_words (normalize_command_words raw))) \<Longrightarrow>
     gate_at_least k (evaluate_command_words h p recurse raw)"
  "gate_at_least k (inline_verdict recurse (wp_words (normalize_command_words raw))) \<Longrightarrow>
     gate_at_least k (evaluate_command_words h p recurse raw)"
  "gate_at_least k (packed_verdict recurse (wp_words (normalize_command_words raw))) \<Longrightarrow>
     gate_at_least k (evaluate_command_words h p recurse raw)"
proof -
  let ?inner = "wp_words (normalize_command_words raw)"
  have same: "?inner = raw" if "length ?inner = length raw"
    using that normalize_words_suffix suffix_same_length by blast
  show "gate_at_least k (evaluate_command_words h p recurse raw)" if "gate_at_least k (escalate h p raw)"
    using that by (simp add: evaluate_command_words_def Let_def combine_at_least_iff)
  show "gate_at_least k (evaluate_command_words h p recurse raw)"
    if "gate_at_least k (escalate h p ?inner)"
    using that same
    by (cases "length ?inner = length raw")
      (simp_all add: evaluate_command_words_def Let_def combine_at_least_iff)
  show "gate_at_least k (evaluate_command_words h p recurse raw)"
    if "gate_at_least k (inline_verdict recurse ?inner)"
    using that by (simp add: evaluate_command_words_def Let_def combine_at_least_iff)
  show "gate_at_least k (evaluate_command_words h p recurse raw)"
    if "gate_at_least k (packed_verdict recurse ?inner)"
    using that by (simp add: evaluate_command_words_def Let_def combine_at_least_iff)
qed

lemma segments_at_least_of_runs:
  "runs h pk n cmd ws \<Longrightarrow>
     gate_at_least k (escalate h p ws) \<or> gate_at_least k (escalate h p (wp_words (normalize_command_words ws))) \<Longrightarrow>
     gate_at_least k (evaluate_bash_command_segments h p n cmd)"
proof (induction rule: runs.induct)
  case (direct cmd cs c n)
  then have "gate_at_least k (evaluate_command_words h p recurse (pc_words c))" for recurse
    using command_words_at_least(1,2) by blast
  with segments_verdict_at_least[OF direct.hyps] show ?case by (cases n) simp_all
next
  case (inline cmd cs c inner i n ws)
  then have "gate_at_least k (inline_verdict (Some (evaluate_bash_command_segments h p n)) inner)"
    by (simp add: inline_verdict_def nested_script_def)
  then have "gate_at_least k (evaluate_command_words h p (Some (evaluate_bash_command_segments h p n)) (pc_words c))"
    unfolding inline.hyps(3) by (rule command_words_at_least(3))
  from segments_verdict_at_least[OF inline.hyps(1,2) this] show ?case by simp
next
  case (packed cmd cs c s n ws)
  then have "gate_at_least k (packed_verdict (Some (evaluate_bash_command_segments h p n))
      (wp_words (normalize_command_words (pc_words c))))"
    by (simp add: packed_verdict_def nested_script_def)
  then have "gate_at_least k (evaluate_command_words h p (Some (evaluate_bash_command_segments h p n)) (pc_words c))"
    by (rule command_words_at_least(4))
  from segments_verdict_at_least[OF packed.hyps(2,3) this] show ?case by simp
qed

lemma segments_reject_of_runs:
  "runs h pk n cmd ws \<Longrightarrow> denied h p ws \<or> denied h p (wp_words (normalize_command_words ws)) \<Longrightarrow>
     is_gate_reject (evaluate_bash_command_segments h p n cmd)"
  unfolding gate_at_least_reject[symmetric] using segments_at_least_of_runs escalate_reject by blast

subsection \<open>Allowed chains\<close>

lemma segment_allowed_facts:
  assumes "segment_allowed h p scope recurse c"
  shows "\<not> normalized_flagged (normalize_command_words (pc_words c))"
    "bash_words_allowed h p (wp_words (normalize_command_words (pc_words c))) scope"
    "shell_dash_c_script (map WordLiteral (wp_words (normalize_command_words (pc_words c)))) = InlineLiteral i \<Longrightarrow>
       \<exists>check. recurse = Some check \<and> check (wp_words (normalize_command_words (pc_words c)) ! i)"
  using assms by (auto simp: segment_allowed_def Let_def split: if_splits option.splits)

lemma chain_allowed_runs:
  "runs h False n cmd ws \<Longrightarrow> bash_chain_fully_allowed h p scope n cmd \<Longrightarrow>
     bash_words_allowed h p (wp_words (normalize_command_words ws)) scope
     \<and> \<not> normalized_flagged (normalize_command_words ws)"
proof (induction rule: runs.induct)
  case (direct cmd cs c n)
  then obtain recurse where "segment_allowed h p scope recurse c"
    by (cases n) (auto simp: chain_allowed_with_def list_all_iff)
  then show ?case using segment_allowed_facts by blast
next
  case (inline cmd cs c inner i n ws)
  then have "segment_allowed h p scope (Some (bash_chain_fully_allowed h p scope n)) c"
    by (auto simp: chain_allowed_with_def list_all_iff)
  from segment_allowed_facts(3)[OF this, of i] inline show ?case by auto
qed simp

lemma bash_words_allowed_narrow:
  "bash_words_allowed h p ws NarrowOnly \<Longrightarrow> bash_words_allowed h p ws AnyRule"
  by (auto simp: bash_words_allowed_def Let_def list_ex_iff split: if_splits)

lemma segment_allowed_mono:
  assumes "\<And>ws. bash_words_allowed h p ws a \<Longrightarrow> bash_words_allowed h p ws b"
    and "rel_option (\<lambda>f g. \<forall>s. f s \<longrightarrow> g s) r r'"
    and "segment_allowed h p a r c"
  shows "segment_allowed h p b r' c"
  using assms
  by (cases r; cases r')
    (auto simp: segment_allowed_def Let_def split: if_splits inline_shell_script.splits)

lemma chain_allowed_narrow:
  "bash_chain_fully_allowed h p NarrowOnly n cmd \<Longrightarrow> bash_chain_fully_allowed h p AnyRule n cmd"
proof (induction n arbitrary: cmd)
  case 0
  then show ?case
    using segment_allowed_mono[OF bash_words_allowed_narrow, where r = None and r' = None]
    by (auto simp: chain_allowed_with_def list_all_iff split: option.splits)
next
  case (Suc n)
  have "rel_option (\<lambda>f g. \<forall>s. f s \<longrightarrow> g s) (Some (bash_chain_fully_allowed h p NarrowOnly n))
      (Some (bash_chain_fully_allowed h p AnyRule n))" using Suc.IH by simp
  from segment_allowed_mono[OF bash_words_allowed_narrow this] Suc.prems show ?case
    by (auto simp: chain_allowed_with_def list_all_iff split: option.splits)
qed

subsection \<open>Packed commands in an allowed chain\<close>

lemma opaque_env_flagged:
  "opaque_env ws \<Longrightarrow> wp_has_split_string (unwrap_wrappers_checked ws)
     \<or> wp_env_options_uncertain (unwrap_wrappers_checked ws)"
  using opaque_env_not_stripped[of ws]
    note_env_flags[of "\<lparr>wp_words = ws, wp_has_chdir = False, wp_has_split_string = False,
       wp_env_options_uncertain = False, wp_exhausted = False\<rparr>"]
  by (simp add: unwrap_wrappers_checked_def MAX_WRAPPER_DEPTH_def numeral_eq_Suc Let_def)

lemma opaque_env_not_transparent: "opaque_env ws \<Longrightarrow> peel_transparent_prefixes ws = Ready ws"
proof -
  assume "opaque_env ws"
  then obtain w r where "ws = w # r" "base_name w = ''env''"
    by (cases ws) (auto simp: opaque_env_def head_base_def)
  then have "strip_transparent_prefix ws = NotPrefix"
    by (simp add: strip_transparent_prefix_def Let_def)
  then show ?thesis
    by (simp add: peel_transparent_prefixes_def MAX_TRANSPARENT_PREFIX_DEPTH_def numeral_eq_Suc)
qed

lemma normalize_rounds_flags_opaque:
  "length (wp_words s) \<le> n \<Longrightarrow> opaque_env (wp_words (normalize_rounds n s)) \<Longrightarrow>
     wp_has_split_string (normalize_rounds n s) \<or> wp_env_options_uncertain (normalize_rounds n s)"
proof (induction n arbitrary: s)
  case 0
  then show ?case by (simp add: opaque_env_def head_base_def)
next
  case (Suc n)
  let ?w = "unwrap_wrappers_checked (wp_words s)"
  show ?case
  proof (cases "peel_transparent_prefixes (wp_words ?w)")
    case AmbiguousPeel
    with Suc.prems opaque_env_not_transparent[of "wp_words ?w"] show ?thesis
      by (auto simp: Let_def split: if_splits)
  next
    case (Ready inner)
    have sw: "suffix (wp_words ?w) (wp_words s)" and si: "suffix inner (wp_words ?w)"
      using normalize_round_suffix Ready by blast+
    then have len: "length inner \<le> length (wp_words ?w)" "length (wp_words ?w) \<le> length (wp_words s)"
      by (auto dest: suffix_length_le)
    show ?thesis
    proof (cases "length inner = length (wp_words s)")
      case True
      with len sw si have "inner = wp_words s" by (metis le_antisym suffix_same_length)
      with True Ready Suc.prems opaque_env_flagged[of "wp_words s"] show ?thesis
        by (auto simp: Let_def split: if_splits)
    next
      case False
      with len Suc.prems Ready Suc.IH[of "merge_round s ?w\<lparr>wp_words := inner\<rparr>"]
      show ?thesis by (auto simp: Let_def)
    qed
  qed
qed

lemma normalize_flags_packed:
  assumes "length raw \<le> MAX_NORMALIZE_ROUNDS"
    and "env_split_string_script (wp_words (normalize_command_words raw)) = Some s"
  shows "normalized_flagged (normalize_command_words raw)"
proof -
  have "opaque_env (wp_words (normalize_command_words raw))"
    using assms(2) by (auto simp: env_split_string_script_def opaque_env_def Let_def split: if_splits)
  then show ?thesis
    using assms(1) normalize_rounds_flags_opaque[of "normalize_start raw" MAX_NORMALIZE_ROUNDS]
    by (auto simp: normalized_flagged_def normalize_command_words_eq)
qed

end
