(* ===== verification/Shell_Gate.thy ===== *)
theory Shell_Gate
  imports Shell_Files Policy
begin

text \<open>
  The shell file gate (\<open>permission/shell_access.rs\<close>): every redirect and file operand of a script,
  nested inline shells included, is checked against the managed \<open>Read\<close> and \<open>Edit\<close> rules.  It only
  escalates: it answers deny, ask or nothing.

  What the shell file gate guarantees: an operand that the managed rules deny, wherever in the
  script it stands, makes the gate deny, and an operand it cannot pin down makes it ask.
\<close>

section \<open>Shell gate\<close>

text \<open>The rules on one access, with an allow dropped.\<close>

definition escalate_access :: "host \<Rightarrow> compiled_policy \<Rightarrow> string option \<Rightarrow> access_kind \<Rightarrow> gate_decision option" where
  "escalate_access h p rule_cwd a =
     (case evaluate_lexical_with_cwd h p a rule_cwd of
        Some (Reject reason) \<Rightarrow> Some (GateReject reason)
      | Some Ask \<Rightarrow> Some AskRuleMatch
      | _ \<Rightarrow> None)"

definition shell_absolute_path :: "string \<Rightarrow> string \<Rightarrow> string" where
  "shell_absolute_path cwd path =
     (if is_absolute_shell_path path then path else normalize_shell_path (path_join cwd path))"

definition shell_raw_absolute :: "string \<Rightarrow> bool \<Rightarrow> string \<Rightarrow> string option" where
  "shell_raw_absolute cwd cwd_unpinned raw =
     (if is_absolute_shell_path raw then Some raw
      else if cwd_unpinned then None
      else Some (normalize_shell_path_raw (path_join cwd raw)))"

definition evaluate_shell_path ::
  "host \<Rightarrow> compiled_policy \<Rightarrow> string \<Rightarrow> string \<Rightarrow> file_mode \<Rightarrow> bool \<Rightarrow> gate_decision option"
where
  "evaluate_shell_path h p token cwd mode cwd_unpinned =
     (let path = normalize_shell_path token;
          is_abs = is_absolute_shell_path path;
          rule_cwd = (if is_abs \<or> \<not> cwd_unpinned then Some cwd else None);
          esc = (\<lambda>s. escalate_access h p rule_cwd (shell_access mode s));
          absolute = shell_absolute_path cwd path;
          resolved = (case shell_raw_absolute cwd cwd_unpinned (normalize_shell_path_raw token) of
              None \<Rightarrow> None
            | Some raw \<Rightarrow>
                (case follow_absolute_symlink h raw absolute of
                   FollowTarget target \<Rightarrow> esc target
                 | Unresolvable \<Rightarrow> Some AskFailClosed
                 | NoFollow \<Rightarrow> None));
          anchored = (if cwd_unpinned \<and> \<not> is_abs then None
                      else combine_gate_decisions (esc absolute) resolved)
      in combine_gate_decisions (combine_gate_decisions (esc path) anchored)
           (ask_floor (cwd_unpinned \<and> \<not> is_abs)))"

text \<open>The verdict so far and the fail-closed flag, as the loops of the gate update them.\<close>

type_synonym gate_acc = "gate_decision option \<times> bool"

definition note_path ::
  "host \<Rightarrow> compiled_policy \<Rightarrow> string \<Rightarrow> bool \<Rightarrow> gate_acc \<Rightarrow> string \<times> file_mode \<Rightarrow> gate_acc"
where
  "note_path h p cwd unpinned acc op =
     (combine_gate_decisions (fst acc) (evaluate_shell_path h p (fst op) cwd (snd op) unpinned),
      snd acc \<or> shell_arg_is_ambiguous (fst op))"

definition redirect_step ::
  "host \<Rightarrow> compiled_policy \<Rightarrow> string \<Rightarrow> bool \<Rightarrow> cwd_poison list \<Rightarrow> gate_acc \<Rightarrow> redirect_target \<Rightarrow> gate_acc"
where
  "redirect_step h p cwd cwd_unpinned changes acc r =
     (let acc' = (fst acc, snd acc \<or> rt_ambiguous r) in
      case rt_path r of
        None \<Rightarrow> acc'
      | Some path \<Rightarrow>
          (combine_gate_decisions (fst acc')
             (evaluate_shell_path h p path cwd (rt_mode r)
                (cwd_unpinned \<or> cwd_unpinned_before changes (rt_start_byte r) (rt_scope r))),
           snd acc'))"

definition reader_modes :: "string \<Rightarrow> argv \<Rightarrow> file_mode list" where
  "reader_modes program words =
     (case shell_file_mode program of
        None \<Rightarrow> []
      | Some m \<Rightarrow>
          if program = ''sed'' \<and> shell_sed_in_place words then [ReadMode, WriteMode]
          else if m = CreateMode then [] else [m])"

text \<open>The operands of one command, in the order they are checked.\<close>

definition invocation_file_operands :: "string \<Rightarrow> argv \<Rightarrow> (string \<times> file_mode) list" where
  "invocation_file_operands program words =
     special_file_operands program words
     @ (if program = ''dd'' then []
        else case shell_path_command_operands program words of
            Some ops \<Rightarrow> ops
          | None \<Rightarrow>
              concat (map (\<lambda>t. map (Pair t) (reader_modes program words)) (shell_file_candidates words)))"

definition is_known_program :: "string \<Rightarrow> argv \<Rightarrow> bool" where
  "is_known_program program words \<longleftrightarrow>
     program = ''dd'' \<or> shell_file_mode program \<noteq> None \<or> shell_path_command_operands program words \<noteq> None"

definition can_recurse_unpinned :: "string \<Rightarrow> argv \<Rightarrow> bool" where
  "can_recurse_unpinned program words \<longleftrightarrow>
     program \<noteq> ''dd'' \<and> shell_path_command_operands program words = None \<and> reader_modes program words \<noteq> []
     \<and> shell_reader_can_recurse program words (shell_file_candidates words)"

definition program_step ::
  "host \<Rightarrow> compiled_policy \<Rightarrow> string \<Rightarrow> bool \<Rightarrow> bool \<Rightarrow> shell_word list \<Rightarrow> gate_acc \<Rightarrow> gate_acc"
where
  "program_step h p cwd unpinned parse_failed ws acc =
     (case first ws of
        Some (WordLiteral word) \<Rightarrow>
          (let program = to_ascii_lowercase (shell_program_name word); words = literal_words ws in
           if program \<in> set [''cd'', ''pushd'', ''popd''] then acc
           else
             let f = snd acc \<or> is_known_program program words
                       \<and> (unpinned \<or> list_ex (\<lambda>w. w = WordUntrusted) ws \<or> parse_failed);
                 acc' = foldl (note_path h p cwd unpinned) (fst acc, f) (invocation_file_operands program words)
             in (fst acc', snd acc' \<or> can_recurse_unpinned program words))
      | _ \<Rightarrow> acc)"

text \<open>\<open>recurse\<close> checks a nested script under its own cwd flag; it is absent when the inline budget is
  spent.\<close>

definition inline_step ::
  "(bool \<Rightarrow> string \<Rightarrow> gate_decision option) option \<Rightarrow> bool \<Rightarrow> bool \<Rightarrow> shell_word list \<Rightarrow> gate_acc \<Rightarrow> gate_acc"
where
  "inline_step recurse unpinned parse_failed ws acc =
     (let script = shell_dash_c_script ws;
          f = snd acc \<or> parse_failed \<and> script \<noteq> NotInline in
      case script of
        InlineLiteral i \<Rightarrow>
          (case recurse of
             None \<Rightarrow> (fst acc, True)
           | Some check \<Rightarrow>
               (case ws ! i of
                  WordLiteral inner \<Rightarrow> (combine_gate_decisions (fst acc) (check unpinned inner), f)
                | WordUntrusted \<Rightarrow> (fst acc, f)))
      | NotInline \<Rightarrow> (fst acc, f)
      | _ \<Rightarrow> (fst acc, True))"

definition invocation_unpinned :: "bool \<Rightarrow> cwd_poison list \<Rightarrow> shell_invocation \<Rightarrow> bool" where
  "invocation_unpinned cwd_unpinned changes iv \<longleftrightarrow>
     cwd_unpinned \<or> cwd_unpinned_before changes (inv_start_byte iv) (inv_scope iv)
     \<or> wp_has_chdir (ip_norm (unwrap_invocation_checked iv))"

definition invocation_step ::
  "host \<Rightarrow> compiled_policy \<Rightarrow> string \<Rightarrow> (bool \<Rightarrow> string \<Rightarrow> gate_decision option) option \<Rightarrow> bool \<Rightarrow> bool
     \<Rightarrow> cwd_poison list \<Rightarrow> gate_acc \<Rightarrow> shell_invocation \<Rightarrow> gate_acc"
where
  "invocation_step h p cwd recurse cwd_unpinned parse_failed changes acc iv =
     (let peeled = unwrap_invocation_checked iv; ws = ip_words peeled;
          unpinned = invocation_unpinned cwd_unpinned changes iv;
          f = snd acc \<or> normalized_flagged (ip_norm peeled)
      in program_step h p cwd unpinned parse_failed ws
           (inline_step recurse unpinned parse_failed ws (fst acc, f)))"

definition shell_file_access_with ::
  "host \<Rightarrow> compiled_policy \<Rightarrow> string \<Rightarrow> (bool \<Rightarrow> string \<Rightarrow> gate_decision option) option \<Rightarrow> bool \<Rightarrow> bool
     \<Rightarrow> string \<Rightarrow> gate_decision option"
where
  "shell_file_access_with h p cwd recurse entered_inline cwd_unpinned cmd =
     (case h_parse h cmd of
        None \<Rightarrow> ask_floor entered_inline
      | Some root \<Rightarrow>
          (let parse_failed = has_error root;
               changes = cwd_poison_positions root cmd;
               acc1 = foldl (redirect_step h p cwd cwd_unpinned changes)
                        (None, entered_inline \<and> parse_failed) (shell_redirect_targets root cmd);
               acc2 = foldl (invocation_step h p cwd recurse cwd_unpinned parse_failed changes)
                        acc1 (shell_command_invocations root cmd)
           in combine_gate_decisions (fst acc2) (ask_floor (snd acc2))))"

fun evaluate_shell_file_access_inner ::
  "host \<Rightarrow> compiled_policy \<Rightarrow> string \<Rightarrow> nat \<Rightarrow> bool \<Rightarrow> bool \<Rightarrow> string \<Rightarrow> gate_decision option"
where
  "evaluate_shell_file_access_inner h p cwd 0 entered unpinned cmd =
     shell_file_access_with h p cwd None entered unpinned cmd"
| "evaluate_shell_file_access_inner h p cwd (Suc n) entered unpinned cmd =
     shell_file_access_with h p cwd (Some (evaluate_shell_file_access_inner h p cwd n True)) entered unpinned cmd"

definition evaluate_shell_file_access_gate ::
  "host \<Rightarrow> compiled_policy \<Rightarrow> string \<Rightarrow> string \<Rightarrow> gate_decision option"
where
  "evaluate_shell_file_access_gate h p cmd cwd =
     (if \<not> cp_has_file_restrictions p then None
      else evaluate_shell_file_access_inner h p cwd MAX_INLINE_SHELL_DEPTH False False cmd)"

definition evaluate_shell_file_access :: "host \<Rightarrow> compiled_policy \<Rightarrow> string \<Rightarrow> string \<Rightarrow> decision option" where
  "evaluate_shell_file_access h p cmd cwd =
     map_option into_decision (evaluate_shell_file_access_gate h p cmd cwd)"

section \<open>Shell gate properties\<close>

subsection \<open>Folding steps that only escalate\<close>

lemma foldl_keeps: "(\<And>a x. P a \<Longrightarrow> P (f a x)) \<Longrightarrow> P a \<Longrightarrow> P (foldl f a xs)"
  by (induction xs arbitrary: a) simp_all

lemma foldl_hits:
  assumes "x \<in> set xs" "\<And>a. P (f a x)" "\<And>a y. P a \<Longrightarrow> P (f a y)"
  shows "P (foldl f a xs)"
proof -
  obtain us vs where "xs = us @ x # vs" using assms(1) by (meson split_list)
  then show ?thesis using foldl_keeps[of P f _ vs] assms(2,3) by simp
qed

abbreviation severe :: "nat \<Rightarrow> gate_acc \<Rightarrow> bool" where "severe k acc \<equiv> gate_at_least k (fst acc)"
abbreviation held :: "gate_acc \<Rightarrow> bool" where "held acc \<equiv> fst acc \<noteq> None \<or> snd acc"

lemma note_path_keeps:
  "severe k acc \<Longrightarrow> severe k (note_path h p cwd u acc op)"
  "held acc \<Longrightarrow> held (note_path h p cwd u acc op)"
  by (auto simp: note_path_def combine_at_least_iff gate.combine_none_iff)

lemma redirect_step_keeps:
  "severe k acc \<Longrightarrow> severe k (redirect_step h p cwd u ch acc r)"
  "held acc \<Longrightarrow> held (redirect_step h p cwd u ch acc r)"
  by (auto simp: redirect_step_def Let_def combine_at_least_iff gate.combine_none_iff split: option.split)

lemma inline_step_keeps:
  "severe k acc \<Longrightarrow> severe k (inline_step rc u pf ws acc)"
  "held acc \<Longrightarrow> held (inline_step rc u pf ws acc)"
  by (auto simp: inline_step_def Let_def combine_at_least_iff gate.combine_none_iff
      split: inline_shell_script.split option.split shell_word.split)

lemma program_step_keeps:
  "severe k acc \<Longrightarrow> severe k (program_step h p cwd u pf ws acc)"
  "held acc \<Longrightarrow> held (program_step h p cwd u pf ws acc)"
proof -
  have "severe k (foldl (note_path h p cwd u) (fst acc, f) ops)" if "severe k acc" for f ops
    using that by (intro foldl_keeps[where P = "severe k"]) (simp_all add: note_path_keeps(1))
  then show "severe k acc \<Longrightarrow> severe k (program_step h p cwd u pf ws acc)"
    by (auto simp: program_step_def Let_def split: option.split shell_word.split)
  have "held (foldl (note_path h p cwd u) (fst acc, snd acc \<or> b) ops)" if "held acc" for b ops
    using that by (intro foldl_keeps[where P = held] note_path_keeps(2)) auto
  then show "held acc \<Longrightarrow> held (program_step h p cwd u pf ws acc)"
    unfolding program_step_def Let_def
    by (cases "first ws"; simp split: shell_word.split) blast
qed

lemma invocation_step_keeps:
  "severe k acc \<Longrightarrow> severe k (invocation_step h p cwd rc u pf ch acc iv)"
  "held acc \<Longrightarrow> held (invocation_step h p cwd rc u pf ch acc iv)"
  unfolding invocation_step_def Let_def
  by (intro program_step_keeps inline_step_keeps; auto)+

lemmas step_keeps = note_path_keeps redirect_step_keeps inline_step_keeps program_step_keeps
  invocation_step_keeps

subsection \<open>Every operand of a script\<close>

text \<open>
  \<open>touches h n u cmd t m v\<close>: the script \<open>cmd\<close>, run with an unpinned directory iff \<open>u\<close>, or a script it
  re-interprets at most \<open>n\<close> levels deep, names the file \<open>t\<close> in mode \<open>m\<close>, in a redirect or as an
  operand of a known reader or writer; \<open>v\<close> says whether a relative name is unpinned there.
\<close>

inductive touches :: "host \<Rightarrow> nat \<Rightarrow> bool \<Rightarrow> string \<Rightarrow> string \<Rightarrow> file_mode \<Rightarrow> bool \<Rightarrow> bool"
  for h :: host where
  redirect: "h_parse h cmd = Some root \<Longrightarrow> r \<in> set (shell_redirect_targets root cmd) \<Longrightarrow>
    rt_path r = Some t \<Longrightarrow>
    touches h n u cmd t (rt_mode r)
      (u \<or> cwd_unpinned_before (cwd_poison_positions root cmd) (rt_start_byte r) (rt_scope r))"
| operand: "h_parse h cmd = Some root \<Longrightarrow> iv \<in> set (shell_command_invocations root cmd) \<Longrightarrow>
    ws = ip_words (unwrap_invocation_checked iv) \<Longrightarrow> first ws = Some (WordLiteral word) \<Longrightarrow>
    program = to_ascii_lowercase (shell_program_name word) \<Longrightarrow>
    program \<notin> set [''cd'', ''pushd'', ''popd''] \<Longrightarrow>
    (t, m) \<in> set (invocation_file_operands program (literal_words ws)) \<Longrightarrow>
    touches h n u cmd t m (invocation_unpinned u (cwd_poison_positions root cmd) iv)"
| inline: "h_parse h cmd = Some root \<Longrightarrow> iv \<in> set (shell_command_invocations root cmd) \<Longrightarrow>
    ws = ip_words (unwrap_invocation_checked iv) \<Longrightarrow> shell_dash_c_script ws = InlineLiteral i \<Longrightarrow>
    ws ! i = WordLiteral s \<Longrightarrow>
    touches h n (invocation_unpinned u (cwd_poison_positions root cmd) iv) s t m v \<Longrightarrow>
    touches h (Suc n) u cmd t m v"

lemma redirect_dest_path:
  "redirect_dest dup mode a = Some (Some t, m, amb) \<Longrightarrow> amb = shell_arg_is_ambiguous t"
  by (cases a) (simp_all add: redirect_dest_def split: if_splits)

lemma redirect_ambiguous:
  assumes "r \<in> set (shell_redirect_targets root src)" and "rt_path r = Some t"
  shows "rt_ambiguous r = shell_arg_is_ambiguous t"
proof -
  obtain q where "redirect_at src q = Some r"
    using assms(1) unfolding shell_redirect_targets_def by (auto simp: List.map_filter_def)
  then obtain m where "shell_redirect_one (fst q) src = Some (Some t, m, rt_ambiguous r)"
    using assms(2) by (auto simp: redirect_at_def split: if_splits)
  then show ?thesis
    unfolding shell_redirect_one_def Let_def bind_eq_Some_conv using redirect_dest_path by blast
qed

text \<open>A property of accumulators that every step keeps, and that the step of the operand
  establishes, holds of the verdict of the whole script.\<close>

locale gate_observation =
  fixes obs :: "gate_acc \<Rightarrow> bool" and hit :: "gate_decision option \<Rightarrow> bool"
  assumes keeps_note: "obs acc \<Longrightarrow> obs (note_path h p cwd u acc op)"
    and keeps_redirect: "obs acc \<Longrightarrow> obs (redirect_step h p cwd u ch acc r)"
    and keeps_program: "obs acc \<Longrightarrow> obs (program_step h p cwd u pf ws acc)"
    and keeps_invocation: "obs acc \<Longrightarrow> obs (invocation_step h p cwd rc u pf ch acc iv)"
    and flag_mono: "obs (d, f) \<Longrightarrow> obs (d, f \<or> f')"
    and combine_hit: "hit g \<Longrightarrow> obs (combine_gate_decisions d g, f)"
    and outcome: "hit (combine_gate_decisions (fst acc) (ask_floor (snd acc))) \<longleftrightarrow> obs acc"
begin

lemma with_hit:
  assumes "h_parse h cmd = Some root"
    and "(\<exists>r \<in> set (shell_redirect_targets root cmd). \<forall>acc.
            obs (redirect_step h p cwd u (cwd_poison_positions root cmd) acc r))
       \<or> (\<exists>iv \<in> set (shell_command_invocations root cmd). \<forall>acc.
            obs (invocation_step h p cwd rc u (has_error root) (cwd_poison_positions root cmd) acc iv))"
  shows "hit (shell_file_access_with h p cwd rc entered u cmd)"
proof -
  let ?ch = "cwd_poison_positions root cmd"
  let ?a1 = "foldl (redirect_step h p cwd u ?ch) (None, entered \<and> has_error root) (shell_redirect_targets root cmd)"
  let ?a2 = "foldl (invocation_step h p cwd rc u (has_error root) ?ch) ?a1 (shell_command_invocations root cmd)"
  from assms(2) have "obs ?a2"
  proof
    assume "\<exists>r \<in> set (shell_redirect_targets root cmd). \<forall>acc. obs (redirect_step h p cwd u ?ch acc r)"
    then have "obs ?a1" using foldl_hits[where P = obs] keeps_redirect by metis
    then show ?thesis using foldl_keeps[where P = obs] keeps_invocation by metis
  next
    assume "\<exists>iv \<in> set (shell_command_invocations root cmd). \<forall>acc.
        obs (invocation_step h p cwd rc u (has_error root) ?ch acc iv)"
    then show ?thesis using foldl_hits[where P = obs] keeps_invocation by metis
  qed
  then show ?thesis using assms(1) by (simp add: shell_file_access_with_def Let_def outcome)
qed

lemma redirect_hit:
  assumes "h_parse h cmd = Some root" "r \<in> set (shell_redirect_targets root cmd)"
    and "\<And>acc. obs (redirect_step h p cwd u (cwd_poison_positions root cmd) acc r)"
  shows "hit (shell_file_access_with h p cwd rc entered u cmd)"
  using assms by (intro with_hit[OF assms(1)]) blast

lemma invocation_hit:
  assumes "h_parse h cmd = Some root" "iv \<in> set (shell_command_invocations root cmd)"
    and "\<And>pf acc. obs (invocation_step h p cwd rc u pf (cwd_poison_positions root cmd) acc iv)"
  shows "hit (shell_file_access_with h p cwd rc entered u cmd)"
  using assms by (intro with_hit[OF assms(1)]) blast

lemma program_hit:
  assumes "first ws = Some (WordLiteral word)"
    and "program = to_ascii_lowercase (shell_program_name word)"
    and "program \<notin> set [''cd'', ''pushd'', ''popd'']"
    and "op \<in> set (invocation_file_operands program (literal_words ws))"
    and "\<And>acc. obs (note_path h p cwd u acc op)"
  shows "obs (program_step h p cwd u pf ws acc)"
proof -
  have f: "obs (foldl (note_path h p cwd u) a (invocation_file_operands program (literal_words ws)))" for a
    using foldl_hits[where P = obs, OF assms(4)] assms(5) keeps_note by metis
  have g: "obs (fst a', snd a' \<or> b)"
    if "a' = foldl (note_path h p cwd u) a (invocation_file_operands program (literal_words ws))" for a a' b
    using f[of a] that flag_mono[of "fst a'" "snd a'" b] by simp
  show ?thesis
    using assms(3) g unfolding program_step_def assms(1) by (simp add: assms(2)[symmetric] Let_def)
qed

lemma inner_hit:
  assumes "touches h n u cmd t m v"
    and np: "\<And>acc. obs (note_path h p cwd v acc (t, m))"
    and path: "\<And>acc d. obs (combine_gate_decisions d (evaluate_shell_path h p t cwd m v),
                  acc \<or> shell_arg_is_ambiguous t)"
  shows "hit (evaluate_shell_file_access_inner h p cwd n entered u cmd)"
  using assms
proof (induction arbitrary: entered rule: touches.induct)
  case (redirect cmd root r t n u)
  note amb = redirect_ambiguous[OF redirect.hyps(2,3)]
  have "obs (redirect_step h p cwd u (cwd_poison_positions root cmd) acc r)" for acc
    using redirect.prems(2)[of "fst acc" "snd acc"] redirect.hyps(3) amb
    by (simp add: redirect_step_def Let_def)
  then show ?case
    using redirect_hit[OF redirect.hyps(1,2)] by (cases n) simp_all
next
  case (operand cmd root iv ws word program t m n u)
  have "obs (invocation_step h p cwd rc u pf (cwd_poison_positions root cmd) acc iv)" for rc pf acc
    unfolding invocation_step_def Let_def operand.hyps(3)[symmetric]
    by (rule program_hit[OF operand.hyps(4-7) operand.prems(1)])
  then show ?case
    using invocation_hit[OF operand.hyps(1,2)] by (cases n) simp_all
next
  case (inline cmd root iv ws i s n u t m v)
  let ?ch = "cwd_poison_positions root cmd"
  have h1: "hit (evaluate_shell_file_access_inner h p cwd n True (invocation_unpinned u ?ch iv) s)"
    using inline.IH inline.prems by blast
  have "obs (invocation_step h p cwd (Some (evaluate_shell_file_access_inner h p cwd n True)) u pf ?ch acc iv)"
    for pf acc
    unfolding invocation_step_def Let_def inline.hyps(3)[symmetric]
    by (rule keeps_program)
      (simp add: inline_step_def inline.hyps(4,5) Let_def combine_hit[OF h1])
  then show ?case
    using invocation_hit[OF inline.hyps(1,2)] by simp
qed

end

lemma ask_floor_mild: "2 \<le> k \<Longrightarrow> \<not> gate_at_least k (ask_floor b)"
  by (simp add: ask_floor_def gate_at_least_def rank_simps)

interpretation denial: gate_observation "severe 3" "gate_at_least 3"
  by unfold_locales (simp_all add: step_keeps combine_at_least_iff ask_floor_mild)

interpretation matching: gate_observation "severe 2" "gate_at_least 2"
  by unfold_locales (simp_all add: step_keeps combine_at_least_iff ask_floor_mild)

interpretation holding: gate_observation held "\<lambda>g. g \<noteq> None"
  by unfold_locales
    (erule note_path_keeps(2) redirect_step_keeps(2) program_step_keeps(2) invocation_step_keeps(2)
      | auto simp: gate.combine_none_iff ask_floor_def)+

subsection \<open>One operand\<close>

text \<open>The managed rules deny the file: under its normalised spelling, or, when the directory is
  known, under its absolute one.\<close>

definition operand_denied :: "host \<Rightarrow> compiled_policy \<Rightarrow> string \<Rightarrow> string \<Rightarrow> file_mode \<Rightarrow> bool \<Rightarrow> bool" where
  "operand_denied h p cwd t m unpinned \<longleftrightarrow>
     (let path = normalize_shell_path t;
          anchored = is_absolute_shell_path path \<or> \<not> unpinned;
          denies = (\<lambda>s r. evaluate_lexical_with_cwd h p (shell_access m s) (if anchored then Some cwd else None)
                      = Some (Reject r))
      in (\<exists>r. denies path r) \<or> anchored \<and> (\<exists>r. denies (shell_absolute_path cwd path) r))"

lemma escalate_access_reject:
  "evaluate_lexical_with_cwd h p a c = Some (Reject r) \<Longrightarrow> is_gate_reject (escalate_access h p c a)"
  by (simp add: escalate_access_def)

lemma evaluate_shell_path_denied:
  assumes "operand_denied h p cwd t m unpinned"
  shows "is_gate_reject (evaluate_shell_path h p t cwd m unpinned)"
proof -
  let ?path = "normalize_shell_path t"
  let ?anch = "is_absolute_shell_path ?path \<or> \<not> unpinned"
  let ?c = "if ?anch then Some cwd else None"
  let ?esc = "\<lambda>s. escalate_access h p ?c (shell_access m s)"
  from assms consider "is_gate_reject (?esc ?path)"
    | "?anch" "is_gate_reject (?esc (shell_absolute_path cwd ?path))"
    unfolding operand_denied_def Let_def using escalate_access_reject by blast
  then show ?thesis
  proof cases
    case 1
    then show ?thesis
      unfolding evaluate_shell_path_def Let_def combine_reject_iff by blast
  next
    case 2
    then have "\<not> (unpinned \<and> \<not> is_absolute_shell_path ?path)" by blast
    with 2(2) show ?thesis
      unfolding evaluate_shell_path_def Let_def combine_reject_iff
      by (simp only: if_False combine_reject_iff simp_thms)
  qed
qed

lemma restricts_files:
  assumes "evaluate_lexical_with_cwd h (compiled_policy_new h rules) (shell_access m s) c = Some (Reject r)"
  shows "cp_has_file_restrictions (compiled_policy_new h rules)"
proof -
  have "applying h (shell_access m s) c RDeny rules"
    using assms evaluate_lexical_reject_iff by blast
  then obtain r where "r \<in> set rules" "pr_action r = RDeny" "tool_filter_matches (shell_access m s) (pr_tool r)"
    by (auto simp: applying_def list_ex_iff rule_applies_def)
  then show ?thesis
    by (cases "pr_tool r"; cases m)
      (auto simp: compiled_policy_new_def restricts_def list_ex_iff shell_access_def intro!: bexI[of _ r])
qed

lemma operand_denied_restricts:
  "operand_denied h (compiled_policy_new h rules) cwd t m v \<Longrightarrow>
     cp_has_file_restrictions (compiled_policy_new h rules)"
  unfolding operand_denied_def Let_def using restricts_files by blast

subsection \<open>Properties\<close>

text \<open>C22: a managed deny on a file cannot be dodged through the shell: whatever redirect or operand
  of a known reader or writer names it, behind wrappers, chains, subshells or up to eight nested
  inline shells, under its written or its absolute spelling, the gate answers deny.\<close>

theorem shell_file_gate_denies:
  assumes "touches h MAX_INLINE_SHELL_DEPTH False cmd t m v"
    and "operand_denied h (compiled_policy_new h rules) cwd t m v"
  shows "\<exists>r. evaluate_shell_file_access h (compiled_policy_new h rules) cmd cwd = Some (Reject r)"
proof -
  let ?p = "compiled_policy_new h rules"
  have e: "gate_at_least 3 (evaluate_shell_path h ?p t cwd m v)"
    using evaluate_shell_path_denied[OF assms(2)] by (simp add: gate_at_least_reject)
  have "gate_at_least 3 (evaluate_shell_file_access_inner h ?p cwd MAX_INLINE_SHELL_DEPTH False False cmd)"
    by (rule denial.inner_hit[OF assms(1)]) (use e in \<open>simp_all add: note_path_def combine_at_least_iff\<close>)
  then show ?thesis
    using operand_denied_restricts[OF assms(2)]
    by (auto simp: evaluate_shell_file_access_def evaluate_shell_file_access_gate_def gate_at_least_reject)
qed

definition demo_file_rules :: "permission_rule list" where
  "demo_file_rules = [\<lparr>pr_action = RDeny, pr_tool = ReadTool, pr_pattern = Some ''/etc/*'', pr_mode = GlobMode\<rparr>]"

lemma shell_file_gate_denies_witness:
  "\<exists>r. evaluate_shell_file_access demo_host (compiled_policy_new demo_host demo_file_rules)
     ''ls ; timeout 5 cat /w/../etc/shadow'' ''/w'' = Some (Reject r)"
proof -
  let ?cmd = "''ls ; timeout 5 cat /w/../etc/shadow''"
  let ?root = "the (h_parse demo_host ?cmd)"
  let ?iv = "shell_command_invocations ?root ?cmd ! 1"
  have l: "length (shell_command_invocations ?root ?cmd) = 2" by code_simp
  have "touches demo_host MAX_INLINE_SHELL_DEPTH False ?cmd ''/w/../etc/shadow'' ReadMode
      (invocation_unpinned False (cwd_poison_positions ?root ?cmd) ?iv)"
  proof (rule touches.operand[OF _ _ refl _ refl])
    show "h_parse demo_host ?cmd = Some ?root" by code_simp
    show "?iv \<in> set (shell_command_invocations ?root ?cmd)" using l by simp
    show "first (ip_words (unwrap_invocation_checked ?iv)) = Some (WordLiteral ''cat'')" by code_simp
    show "to_ascii_lowercase (shell_program_name ''cat'') \<notin> set [''cd'', ''pushd'', ''popd'']" by code_simp
    show "(''/w/../etc/shadow'', ReadMode) \<in> set (invocation_file_operands
        (to_ascii_lowercase (shell_program_name ''cat''))
        (literal_words (ip_words (unwrap_invocation_checked ?iv))))" by code_simp
  qed
  moreover have "operand_denied demo_host (compiled_policy_new demo_host demo_file_rules) ''/w''
      ''/w/../etc/shadow'' ReadMode (invocation_unpinned False (cwd_poison_positions ?root ?cmd) ?iv)"
  proof -
    have e: "evaluate_lexical_with_cwd demo_host (compiled_policy_new demo_host demo_file_rules)
        (shell_access ReadMode (normalize_shell_path ''/w/../etc/shadow'')) (Some ''/w'')
        = Some (Reject (deny_reason (hd demo_file_rules)))" by code_simp
    have a: "is_absolute_shell_path (normalize_shell_path ''/w/../etc/shadow'')" by code_simp
    show ?thesis unfolding operand_denied_def Let_def using e a by simp
  qed
  ultimately show ?thesis by (rule shell_file_gate_denies)
qed

text \<open>The gate fails closed on what it cannot pin down: when file rules exist, a relative
  operand reached after a change of directory or an \<open>env -C\<close>, and an operand with a glob, always
  hold the command for a decision, whatever the rules match.\<close>

theorem shell_file_gate_holds_unpinned:
  assumes "touches h MAX_INLINE_SHELL_DEPTH False cmd t m v"
    and "cp_has_file_restrictions p"
    and "v \<and> \<not> is_absolute_shell_path (normalize_shell_path t) \<or> shell_arg_is_ambiguous t"
  shows "\<exists>d. evaluate_shell_file_access h p cmd cwd = Some d \<and> (d = Ask \<or> (\<exists>r. d = Reject r))"
proof -
  have e: "evaluate_shell_path h p t cwd m v \<noteq> None \<or> shell_arg_is_ambiguous t"
    using assms(3) by (auto simp: evaluate_shell_path_def Let_def gate.combine_none_iff ask_floor_def)
  have "evaluate_shell_file_access_inner h p cwd MAX_INLINE_SHELL_DEPTH False False cmd \<noteq> None"
    by (rule holding.inner_hit[OF assms(1)]) (use e in \<open>auto simp: note_path_def gate.combine_none_iff\<close>)
  then obtain g where "evaluate_shell_file_access h p cmd cwd = Some (into_decision g)"
    using assms(2) by (auto simp: evaluate_shell_file_access_def evaluate_shell_file_access_gate_def)
  then show ?thesis by (cases g) auto
qed

lemma shell_file_gate_holds_unpinned_witness:
  "\<exists>d. evaluate_shell_file_access demo_host (compiled_policy_new demo_host demo_file_rules)
     ''cd /etc && cat shadow'' ''/w'' = Some d \<and> (d = Ask \<or> (\<exists>r. d = Reject r))"
proof -
  let ?cmd = "''cd /etc && cat shadow''"
  let ?root = "the (h_parse demo_host ?cmd)"
  let ?iv = "shell_command_invocations ?root ?cmd ! 1"
  have l: "length (shell_command_invocations ?root ?cmd) = 2" by code_simp
  have "touches demo_host MAX_INLINE_SHELL_DEPTH False ?cmd ''shadow'' ReadMode
      (invocation_unpinned False (cwd_poison_positions ?root ?cmd) ?iv)"
  proof (rule touches.operand[OF _ _ refl _ refl])
    show "h_parse demo_host ?cmd = Some ?root" by code_simp
    show "?iv \<in> set (shell_command_invocations ?root ?cmd)" using l by simp
    show "first (ip_words (unwrap_invocation_checked ?iv)) = Some (WordLiteral ''cat'')" by code_simp
    show "to_ascii_lowercase (shell_program_name ''cat'') \<notin> set [''cd'', ''pushd'', ''popd'']" by code_simp
    show "(''shadow'', ReadMode) \<in> set (invocation_file_operands
        (to_ascii_lowercase (shell_program_name ''cat''))
        (literal_words (ip_words (unwrap_invocation_checked ?iv))))" by code_simp
  qed
  moreover have "cp_has_file_restrictions (compiled_policy_new demo_host demo_file_rules)" by code_simp
  moreover have "invocation_unpinned False (cwd_poison_positions ?root ?cmd) ?iv" by code_simp
  moreover have "\<not> is_absolute_shell_path (normalize_shell_path ''shadow'')" by code_simp
  ultimately show ?thesis using shell_file_gate_holds_unpinned by blast
qed

subsection \<open>Observations\<close>

text \<open>
  The directory change is recognised by the name of the \<open>command\<close> node, not by the peeled argv, so
  behind the \<open>command\<close> builtin it is not seen and the relative operand after it is checked against
  the original directory only.
\<close>

lemma prefixed_cd_is_missed:
  "evaluate_shell_file_access demo_host (compiled_policy_new demo_host demo_file_rules)
     ''command cd /etc && cat shadow'' ''/w'' = None
   \<and> evaluate_shell_file_access demo_host (compiled_policy_new demo_host demo_file_rules)
     ''cd /etc && cat shadow'' ''/w'' = Some Ask"
  by (rule conjI; code_simp)

end
