(* ===== verification/Edit_Protection.thy ===== *)
theory Edit_Protection
  imports Shell_Gate
begin

text \<open>
  Which direct edits still need a confirmation in the accept-edits mode
  (\<open>permission/shell_access.rs\<close>): hooks, Git hooks, SSH, shell startup files, the agent's own
  configuration and \<open>/etc\<close>, judged on the lexical and on the resolved path.
\<close>

datatype protected_edit_reason =
  HookRoot | GitHooks | SshDir | StartupFile | EtcDir | GrokConfig | GrokSandbox | ClaudeSettings
  | CursorHooks | Sensitive

fun reason_kind :: "protected_edit_reason \<Rightarrow> string" where
  "reason_kind HookRoot = ''hook_root''"
| "reason_kind GitHooks = ''git_hooks''"
| "reason_kind SshDir = ''ssh''"
| "reason_kind StartupFile = ''startup_file''"
| "reason_kind EtcDir = ''etc''"
| "reason_kind GrokConfig = ''grok_config''"
| "reason_kind GrokSandbox = ''grok_sandbox''"
| "reason_kind ClaudeSettings = ''claude_settings''"
| "reason_kind CursorHooks = ''cursor_hooks''"
| "reason_kind Sensitive = ''sensitive''"

definition STARTUP_FILES :: "string list" where
  "STARTUP_FILES =
     [''.bashrc'', ''.bash_profile'', ''.bash_login'', ''.bash_logout'', ''.profile'', ''.zshrc'',
      ''.zshenv'', ''.zprofile'', ''.zlogin'', ''.zlogout'', ''.kshrc'', ''.cshrc'', ''.tcshrc'',
      ''.login'', ''.logout'', ''.inputrc'', ''.xprofile'']"

text \<open>The lower-cased names of a path.\<close>

definition lower_components :: "string \<Rightarrow> string list" where
  "lower_components p =
     List.map_filter (\<lambda>c. case c of Normal s \<Rightarrow> Some (to_ascii_lowercase s) | _ \<Rightarrow> None) (path_components p)"

definition list_ends_with :: "string list \<Rightarrow> string list \<Rightarrow> bool" where
  "list_ends_with xs ys \<longleftrightarrow> length ys \<le> length xs \<and> drop (length xs - length ys) xs = ys"

fun adjacent :: "string \<Rightarrow> string \<Rightarrow> string list \<Rightarrow> bool" where
  "adjacent a b (x # y # r) \<longleftrightarrow> x = a \<and> y = b \<or> adjacent a b (y # r)"
| "adjacent a b _ \<longleftrightarrow> False"

definition same_path :: "string \<Rightarrow> string \<Rightarrow> bool" where
  "same_path p q \<longleftrightarrow> path_components p = path_components q"

text \<open>The user's configuration directory, in its lexical or its resolved form.\<close>

definition grok_home_matches :: "host \<Rightarrow> (string \<Rightarrow> bool) \<Rightarrow> bool" where
  "grok_home_matches h pred =
     (case h_user_home h of
        None \<Rightarrow> False
      | Some home \<Rightarrow>
          (let lexical = normalize_lexically home in
           pred lexical
           \<or> (case resolve_following_symlinks h lexical of None \<Rightarrow> False | Some r \<Rightarrow> pred r)))"

definition path_is_under_user_grok_hook_root :: "string \<Rightarrow> string \<Rightarrow> bool" where
  "path_is_under_user_grok_hook_root path home \<longleftrightarrow>
     path_starts_with path (path_join home ''hooks'') \<or> same_path path (path_join home ''hooks-paths'')"

definition protected_grok_hook_root :: "host \<Rightarrow> string \<Rightarrow> string list \<Rightarrow> bool" where
  "protected_grok_hook_root h path components \<longleftrightarrow>
     adjacent ''.astra'' ''hooks'' components
     \<or> list_ends_with components [''.astra'', ''hooks-paths'']
     \<or> grok_home_matches h (path_is_under_user_grok_hook_root path)"

text \<open>\<open>.git/hooks\<close>, and \<open>.git/modules/<name>/.../hooks\<close> for submodules.\<close>

fun git_modules_hooks :: "string list \<Rightarrow> bool" where
  "git_modules_hooks [] \<longleftrightarrow> False"
| "git_modules_hooks (c # r) \<longleftrightarrow>
     c = ''.git'' \<and> first r = Some ''modules'' \<and> list_ex (\<lambda>x. x = ''hooks'') (drop 2 r)
     \<or> git_modules_hooks r"

definition protected_git_hooks_path :: "string list \<Rightarrow> bool" where
  "protected_git_hooks_path components \<longleftrightarrow>
     adjacent ''.git'' ''hooks'' components \<or> git_modules_hooks components"

definition config_file_reason :: "string \<Rightarrow> protected_edit_reason option" where
  "config_file_reason file =
     (if file \<in> set [''config.toml'', ''managed_config.toml'', ''requirements.toml''] then Some GrokConfig
      else if file = ''sandbox.toml'' then Some GrokSandbox
      else None)"

definition in_dot_grok :: "string list \<Rightarrow> bool" where
  "in_dot_grok components \<longleftrightarrow>
     2 \<le> length components \<and> components ! (length components - 2) = ''.astra''"

definition protected_grok_config_file :: "host \<Rightarrow> string \<Rightarrow> string list \<Rightarrow> protected_edit_reason option" where
  "protected_grok_config_file h path components =
     (if components = [] then None
      else case config_file_reason (last components) of
          None \<Rightarrow> None
        | Some reason \<Rightarrow>
            if in_dot_grok components
               \<or> grok_home_matches h (\<lambda>home. case path_parent path of
                    Some d \<Rightarrow> same_path d home | None \<Rightarrow> False)
            then Some reason else None)"

definition protected_edit_reason_of :: "host \<Rightarrow> string \<Rightarrow> protected_edit_reason option" where
  "protected_edit_reason_of h path =
     (let components = lower_components path;
          file = (if components = [] then [] else last components) in
      if protected_grok_hook_root h path components then Some HookRoot
      else if list_ends_with components [''.claude'', ''settings.json'']
              \<or> list_ends_with components [''.claude'', ''settings.local.json''] then Some ClaudeSettings
      else if list_ends_with components [''.cursor'', ''hooks.json''] then Some CursorHooks
      else if protected_git_hooks_path components then Some GitHooks
      else if ''.ssh'' \<in> set components then Some SshDir
      else if file \<in> set STARTUP_FILES then Some StartupFile
      else case protected_grok_config_file h path components of
          Some reason \<Rightarrow> Some reason
        | None \<Rightarrow>
            if same_path path ''/etc'' \<or> path_starts_with path ''/etc'' then Some EtcDir else None)"

definition resolved_path_is_within_root :: "host \<Rightarrow> string \<Rightarrow> string \<Rightarrow> bool" where
  "resolved_path_is_within_root h resolved root =
     (case resolve_following_symlinks h root of
        None \<Rightarrow> True | Some r \<Rightarrow> path_starts_with resolved r)"

definition edit_target_protection :: "host \<Rightarrow> string \<Rightarrow> protected_edit_reason option" where
  "edit_target_protection h path =
     (if \<not> path_is_absolute path then Some Sensitive
      else case protected_edit_reason_of h (normalize_lexically path) of
          Some reason \<Rightarrow> Some reason
        | None \<Rightarrow>
            (case resolve_following_symlinks h path of
               None \<Rightarrow> Some Sensitive
             | Some resolved \<Rightarrow>
                 (case protected_edit_reason_of h resolved of
                    Some reason \<Rightarrow> Some reason
                  | None \<Rightarrow>
                      if resolved_path_is_within_root h resolved ''/etc'' then Some Sensitive else None)))"

subsection \<open>Properties\<close>

text \<open>A spelling-level description of a protected place, on the lower-cased names of a path.\<close>

definition guarded_names :: "string list \<Rightarrow> bool" where
  "guarded_names L \<longleftrightarrow>
     ''.ssh'' \<in> set L \<or> adjacent ''.git'' ''hooks'' L \<or> adjacent ''.astra'' ''hooks'' L
     \<or> (\<exists>f \<in> set STARTUP_FILES. list_ends_with L [f])
     \<or> list_ends_with L [''.claude'', ''settings.json''] \<or> list_ends_with L [''.cursor'', ''hooks.json'']
     \<or> (\<exists>f \<in> set [''config.toml'', ''managed_config.toml'', ''requirements.toml'', ''sandbox.toml''].
          list_ends_with L [''.astra'', f])"

lemma lower_components_rooted:
  "path_components p = RootDir # map Normal ns \<Longrightarrow> lower_components p = map to_ascii_lowercase ns"
  by (simp add: lower_components_def List.map_filter_def comp_def)

lemma list_ends_with_iff: "list_ends_with xs ys \<longleftrightarrow> (\<exists>us. xs = us @ ys)"
proof
  assume "list_ends_with xs ys"
  then show "\<exists>us. xs = us @ ys"
    unfolding list_ends_with_def by (metis append_take_drop_id)
qed (auto simp: list_ends_with_def)

lemma config_file_reason_some:
  "f \<in> set [''config.toml'', ''managed_config.toml'', ''requirements.toml'', ''sandbox.toml''] \<Longrightarrow>
     config_file_reason f \<noteq> None"
  by (auto simp: config_file_reason_def)

lemma guarded_reason:
  assumes "guarded_names (lower_components p)"
  shows "protected_edit_reason_of h p \<noteq> None"
proof -
  let ?L = "lower_components p"
  let ?f = "if ?L = [] then [] else last ?L"
  consider "''.ssh'' \<in> set ?L" | "adjacent ''.git'' ''hooks'' ?L" | "adjacent ''.astra'' ''hooks'' ?L"
    | "?f \<in> set STARTUP_FILES" | "list_ends_with ?L [''.claude'', ''settings.json'']"
    | "list_ends_with ?L [''.cursor'', ''hooks.json'']"
    | "protected_grok_config_file h p ?L \<noteq> None"
  proof -
    have st: "?f \<in> set STARTUP_FILES" if "list_ends_with ?L [f]" "f \<in> set STARTUP_FILES" for f
      using that by (auto simp: list_ends_with_iff)
    have cf: "protected_grok_config_file h p ?L \<noteq> None"
      if e: "list_ends_with ?L [''.astra'', f]"
        and "f \<in> set [''config.toml'', ''managed_config.toml'', ''requirements.toml'', ''sandbox.toml'']" for f
    proof -
      obtain us where u: "?L = us @ [''.astra'', f]" using e unfolding list_ends_with_iff by blast
      then have "in_dot_grok ?L" by (simp add: in_dot_grok_def nth_append)
      with u config_file_reason_some[OF that(2)] show ?thesis
        by (auto simp: protected_grok_config_file_def)
    qed
    show ?thesis using assms that st cf unfolding guarded_names_def by blast
  qed
  then show ?thesis
  proof cases
    case 7
    then obtain reason where "protected_grok_config_file h p ?L = Some reason" by blast
    then show ?thesis unfolding protected_edit_reason_of_def Let_def by (simp only: option.case) auto
  qed (auto simp: protected_edit_reason_of_def protected_grok_hook_root_def protected_git_hooks_path_def
      Let_def split: option.split)
qed

text \<open>Accept-edits never silently edits a guarded place: whatever spelling the path has, if its
  lexical normal form or its symlink-resolved form names (in any letter case) an \<open>.ssh\<close> directory, Git
  or agent hooks, a shell startup file, or a configuration file of the agent or of a compatible
  tool, or lies under \<open>/etc\<close>, the edit needs a confirmation; and so does a path that is relative
  or cannot be resolved.\<close>

theorem guarded_edits_confirm:
  assumes "\<not> path_is_absolute p
    \<or> guarded_names (lower_components (normalize_lexically p))
    \<or> path_starts_with (normalize_lexically p) ''/etc''
    \<or> resolve_following_symlinks h p = None
    \<or> (\<exists>r. resolve_following_symlinks h p = Some r
          \<and> (guarded_names (lower_components r) \<or> path_starts_with r ''/etc''))"
  shows "edit_target_protection h p \<noteq> None"
proof -
  have etc: "protected_edit_reason_of h q \<noteq> None" if "path_starts_with q ''/etc''" for q
    using that by (auto simp: protected_edit_reason_of_def Let_def split: option.split)
  show ?thesis
    using assms guarded_reason[of "normalize_lexically p" h] guarded_reason[of _ h]
      etc[of "normalize_lexically p"] etc
    unfolding edit_target_protection_def by (fastforce split: option.split)
qed

lemma guarded_edits_confirm_witness:
  "edit_target_protection demo_host ''/w/src/../../home/u/.SSH/config'' \<noteq> None
   \<and> edit_target_protection demo_host ''/w/src/main.rs'' = None"
proof
  have "guarded_names (lower_components (normalize_lexically ''/w/src/../../home/u/.SSH/config''))"
    unfolding guarded_names_def by (rule disjI1) code_simp
  then show "edit_target_protection demo_host ''/w/src/../../home/u/.SSH/config'' \<noteq> None"
    by (intro guarded_edits_confirm) blast
  show "edit_target_protection demo_host ''/w/src/main.rs'' = None" by code_simp
qed

end
