(* ===== verification/Rule_Parser.thy ===== *)
theory Rule_Parser
  imports Perm_Types
begin

text \<open>
  The rule parser of \<open>permission/rules.rs\<close>: \<open>Tool(content)\<close> rules with escaped parentheses, bare
  tool names, \<open>mcp__server__tool\<close> names, the domain and Bash prefix idioms, and the effects of a
  default permission mode.
\<close>

datatype default_permission_mode =
  ModeDefault | AcceptEdits | Plan | AutoMode | DontAsk | BypassPermissions

definition default_mode_from_str :: "string \<Rightarrow> string + default_permission_mode" where
  "default_mode_from_str s =
     (if s = ''default'' then Inr ModeDefault
      else if s = ''acceptEdits'' then Inr AcceptEdits
      else if s = ''plan'' then Inr Plan
      else if s = ''auto'' then Inr AutoMode
      else if s = ''dontAsk'' then Inr DontAsk
      else if s = ''bypassPermissions'' then Inr BypassPermissions
      else Inl s)"

record mode_effects =
  me_prompt_policy :: prompt_policy
  me_accept_edits :: bool
  me_bypass_permissions :: bool

definition default_effects :: mode_effects where
  "default_effects =
     \<lparr>me_prompt_policy = PolicyAsk, me_accept_edits = False, me_bypass_permissions = False\<rparr>"

fun mode_effects_of :: "default_permission_mode \<Rightarrow> mode_effects" where
  "mode_effects_of AcceptEdits = default_effects\<lparr>me_accept_edits := True\<rparr>"
| "mode_effects_of BypassPermissions = default_effects\<lparr>me_bypass_permissions := True\<rparr>"
| "mode_effects_of ModeDefault = default_effects"
| "mode_effects_of Plan = default_effects"
| "mode_effects_of DontAsk = default_effects\<lparr>me_prompt_policy := PolicyDenyAll\<rparr>"
| "mode_effects_of AutoMode = default_effects\<lparr>me_prompt_policy := PolicyAuto\<rparr>"

datatype rule_parse_error =
    UnsupportedToolPrefix string
  | UnknownToolPrefix string
  | MalformedRule string

fun rule_parse_error_display :: "rule_parse_error \<Rightarrow> string" where
  "rule_parse_error_display (UnsupportedToolPrefix p) = ''unsupported tool prefix: '' @ p"
| "rule_parse_error_display (UnknownToolPrefix p) = ''unknown tool prefix: '' @ p"
| "rule_parse_error_display (MalformedRule d) = ''malformed rule: '' @ d"

definition tool_name_to_filter :: "string \<Rightarrow> tool_filter option" where
  "tool_name_to_filter n =
     (if n = ''Bash'' then Some BashTool
      else if n = ''Read'' then Some ReadTool
      else if n = ''Edit'' \<or> n = ''Write'' then Some EditTool
      else if n = ''MCPTool'' then Some McpTool
      else if n = ''Grep'' \<or> n = ''Glob'' then Some GrepTool
      else if n = ''WebFetch'' then Some WebFetchTool
      else if n = ''WebSearch'' then Some WebSearchTool
      else if n \<in> set [''AgentMessage'', ''SendSubagentMessage'', ''SendAgentMessage''] then
        Some AgentMessageTool
      else None)"

subsection \<open>Escapes\<close>

abbreviation backslash :: char where "backslash \<equiv> CHR 0x5C"

definition trailing_backslashes :: "string \<Rightarrow> nat" where
  "trailing_backslashes s = length (takeWhile (\<lambda>c. c = backslash) (rev s))"

definition is_unescaped :: "string \<Rightarrow> nat \<Rightarrow> bool" where
  "is_unescaped s pos \<longleftrightarrow> even (trailing_backslashes (take pos s))"

definition find_first_unescaped :: "string \<Rightarrow> char \<Rightarrow> nat option" where
  "find_first_unescaped s target = find (\<lambda>i. s ! i = target \<and> is_unescaped s i) [0..<length s]"

definition find_last_unescaped :: "string \<Rightarrow> char \<Rightarrow> nat option" where
  "find_last_unescaped s target = find (\<lambda>i. s ! i = target \<and> is_unescaped s i) (rev [0..<length s])"

text \<open>\<open>str::replace\<close> of a two-byte pattern by one byte.\<close>

fun replace_pair :: "char \<Rightarrow> char \<Rightarrow> char \<Rightarrow> string \<Rightarrow> string" where
  "replace_pair a b r [] = []"
| "replace_pair a b r [c] = [c]"
| "replace_pair a b r (c # d # s) =
     (if c = a \<and> d = b then r # replace_pair a b r s else c # replace_pair a b r (d # s))"

definition unescape_rule_content :: "string \<Rightarrow> string" where
  "unescape_rule_content s =
     (if \<not> has_char s backslash then s
      else replace_pair backslash backslash backslash
             (replace_pair backslash CHR '')'' CHR '')''
                (replace_pair backslash CHR ''('' CHR ''('' s)))"

definition strip_domain_prefix :: "string \<Rightarrow> string \<times> pattern_mode" where
  "strip_domain_prefix p =
     (case strip_prefix p ''domain:'' of
        Some d \<Rightarrow> (d, DomainMode)
      | None \<Rightarrow> (p, GlobMode))"

definition strip_bash_colon_wildcard :: "string \<Rightarrow> string" where
  "strip_bash_colon_wildcard p = str_or (strip_suffix p '':*'') p"

subsection \<open>The parser\<close>

definition unsupported_tool :: "string \<Rightarrow> bool" where
  "unsupported_tool n \<longleftrightarrow> n \<in> set [''EnterWorktree'', ''NotebookEdit'', ''NotebookRead'']"

definition empty_to_none :: "string \<Rightarrow> string option" where
  "empty_to_none s = (if s = [] then None else Some s)"

definition mk_rule ::
  "rule_action \<Rightarrow> tool_filter \<Rightarrow> string option \<Rightarrow> pattern_mode \<Rightarrow> permission_rule"
where
  "mk_rule act tool pat mode =
     \<lparr>pr_action = act, pr_tool = tool, pr_pattern = pat, pr_mode = mode\<rparr>"

text \<open>The branch of a rule with an opening parenthesis at \<open>i\<close>.\<close>

definition parse_tool_rule :: "string \<Rightarrow> nat \<Rightarrow> rule_action \<Rightarrow> rule_parse_error + permission_rule" where
  "parse_tool_rule rule i act =
     (let prefix = trim (take i rule); rest = drop (i + 1) rule in
      case find_last_unescaped rest CHR '')'' of
        None \<Rightarrow> Inl (MalformedRule ''missing closing parenthesis'')
      | Some j \<Rightarrow>
          let raw = trim (take j rest);
              pattern = (if raw = [] \<or> raw = ''*'' then [] else unescape_rule_content raw)
          in case tool_name_to_filter prefix of
               None \<Rightarrow>
                 Inl (if unsupported_tool prefix then UnsupportedToolPrefix prefix
                      else UnknownToolPrefix prefix)
             | Some tool \<Rightarrow>
                 let pattern = (if tool = BashTool then strip_bash_colon_wildcard pattern else pattern);
                     (pattern, mode) = strip_domain_prefix pattern
                 in Inr (mk_rule act tool (empty_to_none pattern) mode))"

definition mcp_rule_pattern :: "string \<Rightarrow> string option" where
  "mcp_rule_pattern rest =
     (if rest = ''*'' then None
      else if contains_str rest ''__'' then Some rest
      else Some (rest @ ''__*''))"

text \<open>The branch of a rule without parentheses.\<close>

definition parse_bare_rule :: "string \<Rightarrow> rule_action \<Rightarrow> rule_parse_error + permission_rule" where
  "parse_bare_rule rule act =
     (if unsupported_tool rule then Inl (UnsupportedToolPrefix rule)
      else case tool_name_to_filter rule of
          Some tool \<Rightarrow> Inr (mk_rule act tool None GlobMode)
        | None \<Rightarrow>
            (case strip_prefix rule ''mcp__'' of
               Some rest \<Rightarrow>
                 if rest \<noteq> [] then Inr (mk_rule act McpTool (mcp_rule_pattern rest) GlobMode)
                 else Inr (mk_rule act AnyTool (empty_to_none rule) GlobMode)
             | None \<Rightarrow> Inr (mk_rule act AnyTool (empty_to_none rule) GlobMode)))"

definition parse_permission_rule :: "string \<Rightarrow> rule_action \<Rightarrow> rule_parse_error + permission_rule" where
  "parse_permission_rule rule act =
     (let rule = trim rule in
      case find_first_unescaped rule CHR ''('' of
        Some i \<Rightarrow> parse_tool_rule rule i act
      | None \<Rightarrow> parse_bare_rule rule act)"

subsection \<open>Escaping and back\<close>

definition escape_char :: "char \<Rightarrow> string" where
  "escape_char c = (if c = backslash \<or> c = CHR ''('' \<or> c = CHR '')'' then [backslash, c] else [c])"

definition escape_rule_content :: "string \<Rightarrow> string" where
  "escape_rule_content s = concat (map escape_char s)"

text \<open>What is left after the first and the second replacement.\<close>

definition half_escape :: "char set \<Rightarrow> string \<Rightarrow> string" where
  "half_escape E s = concat (map (\<lambda>c. if c \<in> E then [backslash, c] else [c]) s)"

lemma half_escape_simps [simp]:
  "half_escape E [] = []"
  "half_escape E (c # s) = (if c \<in> E then [backslash, c] else [c]) @ half_escape E s"
  by (simp_all add: half_escape_def)

lemma escape_is_half:
  "escape_rule_content s = half_escape {backslash, CHR ''('', CHR '')''} s"
  by (simp add: escape_rule_content_def half_escape_def escape_char_def[abs_def])

lemma half_escape_head: "b \<in> E \<Longrightarrow> b \<noteq> backslash \<Longrightarrow> half_escape E s \<noteq> b # r"
  by (cases s) auto

lemma replace_pair_Cons_other:
  "c \<noteq> a \<or> (\<forall>r'. s \<noteq> b # r') \<Longrightarrow> replace_pair a b r (c # s) = c # replace_pair a b r s"
  by (cases s) auto

text \<open>Replacing an escaped byte that is not the backslash removes just its escapes.\<close>

lemma replace_pair_half_escape:
  assumes "b \<in> E" "b \<noteq> backslash" "backslash \<in> E"
  shows "replace_pair backslash b b (half_escape E s) = half_escape (E - {b}) s"
proof (induction s)
  case (Cons c s)
  have nb: "half_escape E s \<noteq> b # r" for r using assms half_escape_head by blast
  consider "c = b" | "c = backslash" | "c \<noteq> b" "c \<noteq> backslash" "c \<in> E" | "c \<notin> E" "c \<noteq> backslash"
    using assms by blast
  then show ?case
  proof cases
    case 1
    then show ?thesis using assms Cons by simp
  next
    case 2
    then have "replace_pair backslash b b (half_escape E (c # s)) =
        backslash # replace_pair backslash b b (backslash # half_escape E s)"
      using assms by simp
    also have "\<dots> = backslash # backslash # replace_pair backslash b b (half_escape E s)"
      using nb by (simp add: replace_pair_Cons_other)
    finally show ?thesis using 2 assms Cons by simp
  next
    case 3
    then have "replace_pair backslash b b (half_escape E (c # s)) =
        backslash # replace_pair backslash b b (c # half_escape E s)" by simp
    with 3 Cons show ?thesis by (simp add: replace_pair_Cons_other)
  next
    case 4
    with Cons assms show ?thesis by (simp add: replace_pair_Cons_other)
  qed
qed simp

lemma replace_pair_backslashes:
  "replace_pair backslash backslash backslash (half_escape {backslash} s) = s"
proof (induction s)
  case (Cons c s)
  then show ?case by (cases "c = backslash") (simp_all add: replace_pair_Cons_other)
qed simp

lemma unescape_escape: "unescape_rule_content (escape_rule_content s) = s"
proof (cases "has_char (escape_rule_content s) backslash")
  case True
  have sets: "{backslash, CHR ''('', CHR '')''} - {CHR ''(''} = {backslash, CHR '')''}"
    "{backslash, CHR '')''} - {CHR '')''} = {backslash}" by auto
  show ?thesis
    using True unfolding unescape_rule_content_def escape_is_half
    by (simp add: replace_pair_half_escape sets replace_pair_backslashes)
next
  case False
  have "escape_rule_content s = s"
    using False
  proof (induction s)
    case (Cons c s)
    then show ?case
      by (auto simp: escape_rule_content_def escape_char_def has_char_def split: if_splits)
  qed (simp add: escape_rule_content_def)
  with False show ?thesis by (simp add: unescape_rule_content_def)
qed

lemma trailing_backslashes_snoc:
  "trailing_backslashes (s @ [c]) = (if c = backslash then Suc (trailing_backslashes s) else 0)"
  by (simp add: trailing_backslashes_def)

lemma escape_trailing_even: "even (trailing_backslashes (escape_rule_content s))"
proof (induction s rule: rev_induct)
  case Nil
  then show ?case by (simp add: escape_rule_content_def trailing_backslashes_def)
next
  case (snoc c s)
  have "escape_rule_content (s @ [c]) = escape_rule_content s @ escape_char c"
    by (simp add: escape_rule_content_def)
  moreover have "trailing_backslashes (escape_rule_content s @ [backslash, c]) =
      (if c = backslash then Suc (Suc (trailing_backslashes (escape_rule_content s))) else 0)"
    using trailing_backslashes_snoc[of "escape_rule_content s @ [backslash]" c]
      trailing_backslashes_snoc[of "escape_rule_content s" backslash] by simp
  ultimately show ?case
    using snoc trailing_backslashes_snoc[of "escape_rule_content s" c]
    by (auto simp: escape_char_def)
qed

lemma find_last_unescaped_snoc:
  "even (trailing_backslashes s) \<Longrightarrow> find_last_unescaped (s @ [c]) c = Some (length s)"
  by (simp add: find_last_unescaped_def is_unescaped_def)

lemma find_append_first:
  "(\<And>x. x \<in> set xs \<Longrightarrow> \<not> P x) \<Longrightarrow> P y \<Longrightarrow> find P (xs @ y # ys) = Some y"
  by (induction xs) auto

lemma find_first_unescaped_at:
  assumes "c \<notin> set p" "backslash \<notin> set p"
  shows "find_first_unescaped (p @ c # r) c = Some (length p)"
proof -
  have "[0..<length p + Suc (length r)] = [0..<length p] @ [length p..<length p + Suc (length r)]"
    by (rule upt_add_eq_append) simp
  also have "[length p..<length p + Suc (length r)] =
      length p # [Suc (length p)..<length p + Suc (length r)]"
    by (rule upt_conv_Cons) simp
  finally have u: "[0..<length (p @ c # r)] =
      [0..<length p] @ length p # [Suc (length p)..<length p + Suc (length r)]" by simp
  have t: "trailing_backslashes p = 0"
    using assms(2) by (cases p rule: rev_cases) (auto simp: trailing_backslashes_def)
  show ?thesis
    unfolding find_first_unescaped_def u
    using assms t by (intro find_append_first) (auto simp: nth_append is_unescaped_def in_set_conv_nth)
qed

definition tool_names :: "string list" where
  "tool_names = [''Bash'', ''Read'', ''Edit'', ''Write'', ''MCPTool'', ''Grep'', ''Glob'', ''WebFetch'', ''WebSearch'',
     ''AgentMessage'', ''SendSubagentMessage'', ''SendAgentMessage'']"

lemma tool_names_facts:
  "n \<in> set tool_names \<Longrightarrow>
     tool_name_to_filter n \<noteq> None \<and> trim n = n \<and> CHR ''('' \<notin> set n \<and> backslash \<notin> set n"
proof -
  have "list_all (\<lambda>n. tool_name_to_filter n \<noteq> None \<and> trim n = n \<and> CHR ''('' \<notin> set n \<and> backslash \<notin> set n)
      tool_names" by code_simp
  then show "n \<in> set tool_names \<Longrightarrow> ?thesis" by (auto simp: list_all_iff)
qed

text \<open>C24: any pattern survives being written as a rule: escaping its parentheses and backslashes,
  putting it between the parentheses of a tool name and parsing the rule gives back that tool
  and exactly that pattern, whatever characters the pattern holds, as long as it is trimmed and
  does not spell one of the three idioms (tool-wide \<open>*\<close>, \<open>domain:\<close> prefix, trailing \<open>:*\<close>).\<close>

theorem rule_roundtrip:
  assumes "name \<in> set tool_names" and "tool_name_to_filter name = Some tool"
    and "rule = name @ ''('' @ escape_rule_content pat @ '')''" and "trim rule = rule"
    and "trim (escape_rule_content pat) = escape_rule_content pat"
    and "pat \<noteq> []" and "escape_rule_content pat \<noteq> ''*''"
    and "strip_suffix pat '':*'' = None" and "strip_prefix pat ''domain:'' = None"
  shows "parse_permission_rule rule act =
    Inr \<lparr>pr_action = act, pr_tool = tool, pr_pattern = Some pat, pr_mode = GlobMode\<rparr>"
proof -
  let ?E = "escape_rule_content pat"
  note n = tool_names_facts[OF assms(1)]
  have rule: "rule = name @ CHR ''('' # ?E @ '')''" using assms(3) by simp
  have first: "find_first_unescaped rule CHR ''('' = Some (length name)"
    unfolding rule using n by (intro find_first_unescaped_at) simp_all
  have last: "find_last_unescaped (?E @ '')'') CHR '')'' = Some (length ?E)"
    using find_last_unescaped_snoc[OF escape_trailing_even] by simp
  have ne: "?E \<noteq> []"
    using assms(6) by (cases pat) (auto simp: escape_rule_content_def escape_char_def)
  have strip: "strip_bash_colon_wildcard pat = pat" "strip_domain_prefix pat = (pat, GlobMode)"
    using assms(8,9) by (simp_all add: strip_bash_colon_wildcard_def strip_domain_prefix_def str_or_def)
  have "parse_tool_rule rule (length name) act = Inr (mk_rule act tool (Some pat) GlobMode)"
    using assms(2,5,6,7) n last ne strip
    by (simp add: rule parse_tool_rule_def Let_def unescape_escape empty_to_none_def)
  with first assms(4) show ?thesis by (simp add: parse_permission_rule_def mk_rule_def)
qed

lemma rule_roundtrip_witness:
  "parse_permission_rule (''Bash('' @ escape_rule_content ''echo (a)'' @ '')'') RDeny =
     Inr \<lparr>pr_action = RDeny, pr_tool = BashTool, pr_pattern = Some ''echo (a)'', pr_mode = GlobMode\<rparr>"
proof -
  let ?rule = "''Bash('' @ escape_rule_content ''echo (a)'' @ '')''"
  have "trim ?rule = ?rule" "trim (escape_rule_content ''echo (a)'') = escape_rule_content ''echo (a)''"
    "escape_rule_content ''echo (a)'' \<noteq> ''*''" "strip_suffix ''echo (a)'' '':*'' = None"
    "strip_prefix ''echo (a)'' ''domain:'' = None" "tool_name_to_filter ''Bash'' = Some BashTool"
    "''Bash'' \<in> set tool_names"
    by code_simp+
  then show ?thesis
    using rule_roundtrip[of "''Bash''" BashTool ?rule "''echo (a)''" RDeny] by simp
qed

text \<open>Parsing never turns a scoped rule into a tool-wide one by accident: a parsed rule without a
  pattern comes only from a blank rule, a bare tool name or \<open>mcp__*\<close>, or from parentheses whose
  content is empty, \<open>*\<close>, a bare \<open>:*\<close> or a bare \<open>domain:\<close>.\<close>

theorem tool_wide_rules:
  assumes "parse_permission_rule rule act = Inr r" and "pr_pattern r = None"
  shows "trim rule = [] \<or> tool_name_to_filter (trim rule) \<noteq> None \<or> trim rule = ''mcp__*''
    \<or> (\<exists>i j. find_first_unescaped (trim rule) CHR ''('' = Some i
         \<and> find_last_unescaped (drop (i + 1) (trim rule)) CHR '')'' = Some j
         \<and> (let raw = trim (take j (drop (i + 1) (trim rule))) in
            raw = [] \<or> raw = ''*'' \<or> unescape_rule_content raw \<in> {[], '':*'', ''domain:'', ''domain::*''}))"
proof (cases "find_first_unescaped (trim rule) CHR ''(''")
  case None
  then have "parse_bare_rule (trim rule) act = Inr r"
    using assms(1) by (simp add: parse_permission_rule_def Let_def)
  with assms(2) show ?thesis
    by (auto simp: parse_bare_rule_def mk_rule_def empty_to_none_def mcp_rule_pattern_def
        strip_prefix_Some_iff split: if_splits option.splits)
next
  case (Some i)
  then have p: "parse_tool_rule (trim rule) i act = Inr r"
    using assms(1) by (simp add: parse_permission_rule_def Let_def)
  then obtain j where j: "find_last_unescaped (drop (i + 1) (trim rule)) CHR '')'' = Some j"
    by (auto simp: parse_tool_rule_def Let_def split: option.splits)
  define raw where "raw = trim (take j (drop (i + 1) (trim rule)))"
  define pat where "pat = (if raw = [] \<or> raw = ''*'' then [] else unescape_rule_content raw)"
  from p j obtain tool where tool: "tool_name_to_filter (trim (take i (trim rule))) = Some tool"
    by (cases "tool_name_to_filter (trim (take i (trim rule)))") (simp_all add: parse_tool_rule_def Let_def)
  have "r = (case strip_domain_prefix (if tool = BashTool then strip_bash_colon_wildcard pat else pat)
          of (q, mode) \<Rightarrow> mk_rule act tool (empty_to_none q) mode)"
    using p unfolding parse_tool_rule_def Let_def j tool option.case raw_def[symmetric] pat_def[symmetric]
    by (cases "strip_domain_prefix (if tool = BashTool then strip_bash_colon_wildcard pat else pat)")
      simp
  with assms(2) have "fst (strip_domain_prefix (if tool = BashTool then strip_bash_colon_wildcard pat else pat)) = []"
    by (auto simp: mk_rule_def empty_to_none_def split: prod.splits if_splits)
  then have "pat \<in> {[], '':*'', ''domain:'', ''domain::*''}"
    by (cases "tool = BashTool") (auto simp: strip_domain_prefix_def strip_bash_colon_wildcard_def str_or_def
        strip_prefix_Some_iff strip_suffix_Some_iff split: option.splits)
  then have "raw = [] \<or> raw = ''*'' \<or> unescape_rule_content raw \<in> {[], '':*'', ''domain:'', ''domain::*''}"
    by (auto simp: pat_def split: if_splits)
  with Some j show ?thesis by (auto simp: Let_def raw_def)
qed

lemma tool_wide_rules_witness:
  "parse_permission_rule ''Bash( * )'' RDeny = Inr (mk_rule RDeny BashTool None GlobMode)
   \<and> tool_name_to_filter ''Bash( * )'' = None"
proof -
  have e: "parse_permission_rule ''Bash( * )'' RDeny = Inr (mk_rule RDeny BashTool None GlobMode)"
    by code_simp
  from tool_wide_rules[OF e] have "True" by simp
  moreover have "tool_name_to_filter ''Bash( * )'' = None" by code_simp
  ultimately show ?thesis using e tool_wide_rules[OF e] by (simp add: mk_rule_def)
qed

end
