(* ===== verification/Exec_Risk.thy ===== *)
theory Exec_Risk
  imports Host Inline_Shell
begin

text \<open>
  Execution risk of a command (\<open>permission/exec_risk.rs\<close>): argv flags that spawn programs or
  retarget git's configuration, the shared decision on read-only git queries, and the plan of
  directories whose local git configuration must be scanned.
\<close>

subsection \<open>Normalisation for execution risk\<close>

datatype normalized_argv = ReadyArgv argv | FailClosedArgv

fun exec_normalize_rounds :: "nat \<Rightarrow> argv \<Rightarrow> normalized_argv" where
  "exec_normalize_rounds 0 current = FailClosedArgv"
| "exec_normalize_rounds (Suc n) current =
     (let checked = unwrap_wrappers_checked current in
      if wp_exhausted checked \<or> wp_has_split_string checked \<or> wp_has_chdir checked then FailClosedArgv
      else case peel_transparent_prefixes (wp_words checked) of
          AmbiguousPeel \<Rightarrow> FailClosedArgv
        | Ready after_trans \<Rightarrow>
            if length after_trans = length current then ReadyArgv after_trans
            else if length after_trans = length (wp_words checked) then ReadyArgv after_trans
            else exec_normalize_rounds n after_trans)"

definition normalize_for_exec_risk :: "argv \<Rightarrow> normalized_argv" where
  "normalize_for_exec_risk words = exec_normalize_rounds MAX_NORMALIZE_ROUNDS words"

subsection \<open>Flags\<close>

definition is_accepted_long_option_prefix :: "string \<Rightarrow> string \<Rightarrow> nat \<Rightarrow> bool" where
  "is_accepted_long_option_prefix flag full min_len \<longleftrightarrow>
     starts_with flag ''--'' \<and> min_len \<le> length flag \<and> starts_with full flag
     \<and> list_all (\<lambda>b. is_ascii_alphanumeric b \<or> b = CHR ''-'') flag"

definition normalized_token_basename :: "string \<Rightarrow> string" where
  "normalized_token_basename token =
     (let n = to_ascii_lowercase (base_name token) in str_or (strip_suffix n ''.exe'') n)"

definition normalized_program_name :: "argv \<Rightarrow> string option" where
  "normalized_program_name words =
     Option.bind (first words) (\<lambda>raw.
       if base_name raw = [] then None else Some (normalized_token_basename raw))"

definition is_git_program :: "argv \<Rightarrow> bool" where
  "is_git_program words \<longleftrightarrow> normalized_program_name words = Some ''git''"

definition is_sort_program :: "argv \<Rightarrow> bool" where
  "is_sort_program words \<longleftrightarrow> normalized_program_name words = Some ''sort''"

definition before_eq :: "string \<Rightarrow> string" where
  "before_eq w = (case split_once w CHR ''='' of Some (f, _) \<Rightarrow> f | None \<Rightarrow> w)"

fun sort_flag_scan :: "argv \<Rightarrow> bool" where
  "sort_flag_scan [] = False"
| "sort_flag_scan (w # ws) =
     (if w = ''--'' then False
      else w = ''--compress-program'' \<or> starts_with w ''--compress-program=''
           \<or> is_accepted_long_option_prefix (before_eq w) ''--compress-program'' 4
           \<or> sort_flag_scan ws)"

definition sort_has_compress_program_flag :: "argv \<Rightarrow> bool" where
  "sort_has_compress_program_flag words = sort_flag_scan (drop 1 words)"

definition is_git_config_env_flag :: "string \<Rightarrow> bool" where
  "is_git_config_env_flag tok \<longleftrightarrow>
     tok = ''--config-env'' \<or> starts_with tok ''--config-env=''
     \<or> is_accepted_long_option_prefix (before_eq tok) ''--config-env'' 4"

definition is_git_repo_retarget_flag :: "string \<Rightarrow> bool" where
  "is_git_repo_retarget_flag tok \<longleftrightarrow>
     tok = ''--git-dir'' \<or> starts_with tok ''--git-dir='' \<or> tok = ''--work-tree''
     \<or> starts_with tok ''--work-tree=''
     \<or> is_accepted_long_option_prefix (before_eq tok) ''--git-dir'' 4
     \<or> is_accepted_long_option_prefix (before_eq tok) ''--work-tree'' 4"

definition is_attached_git_config_c :: "string \<Rightarrow> bool" where
  "is_attached_git_config_c tok \<longleftrightarrow> starts_with tok ''-c'' \<and> 2 < length tok \<and> \<not> starts_with tok ''--''"

definition attached_git_c_path :: "string \<Rightarrow> string option" where
  "attached_git_c_path tok =
     (case strip_prefix tok ''-C'' of
        Some rest \<Rightarrow> if rest \<noteq> [] \<and> \<not> starts_with tok ''--'' then Some rest else None
      | None \<Rightarrow> None)"

definition git_global_option_takes_value :: "string \<Rightarrow> bool" where
  "git_global_option_takes_value tok \<longleftrightarrow>
     tok \<in> set [''-C'', ''-c'', ''--git-dir'', ''--work-tree'', ''--namespace'', ''--super-prefix'', ''--exec-path'',
       ''--list-cmds'', ''--attr-source'', ''--config-env'']
     \<or> is_accepted_long_option_prefix tok ''--config-env'' 4
     \<or> is_accepted_long_option_prefix tok ''--git-dir'' 4
     \<or> is_accepted_long_option_prefix tok ''--work-tree'' 4
     \<or> is_accepted_long_option_prefix tok ''--namespace'' 7
     \<or> is_accepted_long_option_prefix tok ''--super-prefix'' 8
     \<or> is_accepted_long_option_prefix tok ''--exec-path'' 7
     \<or> is_accepted_long_option_prefix tok ''--list-cmds'' 7
     \<or> is_accepted_long_option_prefix tok ''--attr-source'' 8"

text \<open>Whether the loops over git's global options skip the word after \<open>tok\<close> as its value.\<close>

definition git_option_skips_next :: "string \<Rightarrow> argv \<Rightarrow> bool" where
  "git_option_skips_next tok rest \<longleftrightarrow>
     \<not> has_char tok CHR ''='' \<and> git_global_option_takes_value tok
     \<and> (case first rest of Some n \<Rightarrow> \<not> starts_with n ''-'' \<or> n = ''-'' | None \<Rightarrow> False)"

fun git_global_scan :: "argv \<Rightarrow> bool" where
  "git_global_scan [] = False"
| "git_global_scan (tok # rest) =
     (if tok = ''--'' then False
      else if \<not> starts_with tok ''-'' \<or> tok = ''-'' then False
      else if tok = ''-c'' \<or> is_attached_git_config_c tok \<or> is_git_config_env_flag tok
              \<or> is_git_repo_retarget_flag tok then True
      else if attached_git_c_path tok \<noteq> None then git_global_scan rest
      else if git_option_skips_next tok rest then git_global_scan (drop 1 rest)
      else git_global_scan rest)"

definition git_has_exec_risk_global :: "argv \<Rightarrow> bool" where
  "git_has_exec_risk_global words = git_global_scan (drop 1 words)"

definition segment_has_exec_risk_flag :: "argv \<Rightarrow> bool" where
  "segment_has_exec_risk_flag words =
     (if is_sort_program words then sort_has_compress_program_flag words
      else if is_git_program words then git_has_exec_risk_global words
      else False)"

record segment_exec_facts =
  sf_exec_risk :: bool
  sf_has_git :: bool

definition segment_exec_facts_of :: "argv \<Rightarrow> segment_exec_facts" where
  "segment_exec_facts_of words =
     (case normalize_for_exec_risk words of
        FailClosedArgv \<Rightarrow> \<lparr>sf_exec_risk = True, sf_has_git = False\<rparr>
      | ReadyArgv inner \<Rightarrow>
          \<lparr>sf_exec_risk = segment_has_exec_risk_flag inner, sf_has_git = is_git_program inner\<rparr>)"

subsection \<open>Read-only git queries\<close>

definition SAFE_GIT_SUBCOMMANDS :: "string list" where
  "SAFE_GIT_SUBCOMMANDS =
     [''status'', ''branch'', ''log'', ''diff'', ''ls-files'', ''show'', ''rev-parse'', ''blame'', ''grep'',
      ''describe'', ''merge-base'', ''check-ignore'', ''check-attr'', ''cat-file'', ''ls-tree'', ''show-ref'',
      ''for-each-ref'', ''rev-list'', ''name-rev'', ''count-objects'', ''shortlog'']"

definition GIT_QUERY_UNSAFE_OPTIONS :: "string list" where
  "GIT_QUERY_UNSAFE_OPTIONS =
     [''--filters'', ''--textconv'', ''--output'', ''--ext-diff'', ''--open-files-in-pager'']"

definition git_query_option_is_unsafe :: "string \<Rightarrow> bool" where
  "git_query_option_is_unsafe word =
     (let flag = before_eq word in
      2 < length flag \<and> list_ex (\<lambda>full. starts_with full flag) GIT_QUERY_UNSAFE_OPTIONS)"

text \<open>The loop of \<open>git_safe_query_verb_index\<close> at index \<open>i\<close>; \<open>i += 2\<close> may step past the end.\<close>

fun git_verb_scan :: "nat \<Rightarrow> argv \<Rightarrow> nat option" where
  "git_verb_scan i [] = None"
| "git_verb_scan i (tok # rest) =
     (if tok = ''-'' \<or> tok = ''--'' then None
      else if \<not> starts_with tok ''-'' then Some i
      else if tok = ''-C'' then git_verb_scan (i + 2) (drop 1 rest)
      else if attached_git_c_path tok \<noteq> None \<or> tok = ''--no-pager'' \<or> tok = ''-P'' then
        git_verb_scan (i + 1) rest
      else None)"

definition git_safe_query_verb_index :: "argv \<Rightarrow> nat option" where
  "git_safe_query_verb_index words = git_verb_scan 1 (drop 1 words)"

definition git_words_have_unsafe_query_option :: "argv \<Rightarrow> bool" where
  "git_words_have_unsafe_query_option words =
     (if first words \<noteq> Some ''git'' then False
      else if list_ex git_query_option_is_unsafe (drop 1 words) then True
      else (case git_safe_query_verb_index words of
              Some i \<Rightarrow> words ! i = ''grep'' | None \<Rightarrow> False)
           \<and> list_ex (\<lambda>w. starts_with w ''-O'') (drop 1 words))"

definition git_words_are_read_only_query :: "argv \<Rightarrow> bool" where
  "git_words_are_read_only_query words =
     (if first words \<noteq> Some ''git'' then False
      else if git_has_exec_risk_global words then False
      else case git_safe_query_verb_index words of
          None \<Rightarrow> False
        | Some i \<Rightarrow>
            if words ! i \<notin> set SAFE_GIT_SUBCOMMANDS then False
            else \<not> git_words_have_unsafe_query_option words)"

subsection \<open>Ambient git configuration\<close>

definition filter_command_driver :: "string \<Rightarrow> string option" where
  "filter_command_driver name =
     Option.bind (str_get_to name 7) (\<lambda>head.
       if length name < 7 \<or> \<not> eq_ignore_ascii_case head ''filter.'' then None
       else Option.bind (str_get_from name 7) (\<lambda>rest.
         case rsplit_once rest CHR ''.'' of
           None \<Rightarrow> None
         | Some (driver, p) \<Rightarrow>
             if driver \<noteq> [] \<and> (eq_ignore_ascii_case p ''clean'' \<or> eq_ignore_ascii_case p ''smudge''
                  \<or> eq_ignore_ascii_case p ''process'')
             then Some driver else None))"

definition diff_driver_command :: "string \<Rightarrow> bool" where
  "diff_driver_command name =
     (case strip_prefix name ''diff.'' of
        None \<Rightarrow> False
      | Some rest \<Rightarrow> ends_with rest ''.command'' \<or> ends_with rest ''.textconv'' \<or> ends_with rest ''.external'')"

definition shadowing_shell_alias :: "string \<Rightarrow> string \<Rightarrow> bool" where
  "shadowing_shell_alias name value =
     (case strip_prefix name ''alias.'' of
        None \<Rightarrow> False
      | Some a \<Rightarrow> a \<in> set SAFE_GIT_SUBCOMMANDS \<and> starts_with value ''!'')"

definition local_git_config_entry_is_exec :: "host \<Rightarrow> string \<Rightarrow> string \<Rightarrow> bool" where
  "local_git_config_entry_is_exec h name0 value0 =
     (let name = to_ascii_lowercase name0; value = trim value0 in
      if value = [] then False
      else if name = ''core.fsmonitor'' then \<not> h_git_bool_ok h value
      else if name = ''diff.external'' then True
      else if diff_driver_command name then True
      else if filter_command_driver name \<noteq> None then True
      else shadowing_shell_alias name value)"

definition local_repo_config_has_exec_risk :: "host \<Rightarrow> string \<Rightarrow> bool" where
  "local_repo_config_has_exec_risk h cwd =
     (case h_git_config h cwd of
        None \<Rightarrow> True
      | Some entries \<Rightarrow> list_ex (\<lambda>(n, v). local_git_config_entry_is_exec h n v) entries)"

definition is_static_path_operand :: "string \<Rightarrow> bool" where
  "is_static_path_operand p \<longleftrightarrow>
     p \<noteq> [] \<and> p \<noteq> ''-'' \<and> \<not> starts_with p ''-'' \<and> \<not> has_char p CHR ''$'' \<and> \<not> has_char p CHR 0x60
     \<and> \<not> contains_str p ''$(''"

text \<open>\<open>join_cwd\<close> is \<open>Path::join\<close>: an absolute operand replaces the base.\<close>

definition join_cwd :: "string \<Rightarrow> string \<Rightarrow> string" where
  "join_cwd base operand = (if path_is_absolute operand then operand else path_join base operand)"

fun chdir_target :: "string option \<Rightarrow> argv \<Rightarrow> string option" where
  "chdir_target target [] = target"
| "chdir_target target (tok # rest) =
     (if tok = ''--'' then first rest
      else if starts_with tok ''-'' then None
      else if target \<noteq> None then None
      else chdir_target (Some tok) rest)"

definition apply_literal_chdir :: "string \<Rightarrow> argv \<Rightarrow> string option" where
  "apply_literal_chdir cwd words =
     Option.bind (chdir_target None (drop 1 words)) (\<lambda>t.
       if \<not> is_static_path_operand t then None else Some (join_cwd cwd t))"

fun git_cwd_scan :: "string \<Rightarrow> argv \<Rightarrow> string option" where
  "git_cwd_scan cwd [] = Some cwd"
| "git_cwd_scan cwd (tok # rest) =
     (if tok = ''--'' \<or> \<not> starts_with tok ''-'' \<or> tok = ''-'' then Some cwd
      else if is_git_repo_retarget_flag tok then None
      else if tok = ''-C'' then
        (case rest of
           [] \<Rightarrow> None
         | p # rest' \<Rightarrow> if \<not> is_static_path_operand p then None else git_cwd_scan (join_cwd cwd p) rest')
      else case attached_git_c_path tok of
          Some p \<Rightarrow> if \<not> is_static_path_operand p then None else git_cwd_scan (join_cwd cwd p) rest
        | None \<Rightarrow>
            if git_option_skips_next tok rest then git_cwd_scan cwd (drop 1 rest)
            else git_cwd_scan cwd rest)"

definition git_effective_cwd :: "argv \<Rightarrow> string \<Rightarrow> string option" where
  "git_effective_cwd words start_cwd = git_cwd_scan start_cwd (drop 1 words)"

datatype ambient_scan_plan = PlanFailClosed | CheckDirs "string list"

text \<open>The loop over the raw segments: the tracked directory and the git directories so far.\<close>

fun ambient_scan :: "string \<Rightarrow> string list \<Rightarrow> argv list \<Rightarrow> ambient_scan_plan" where
  "ambient_scan cwd gits [] = (if gits = [] then PlanFailClosed else CheckDirs gits)"
| "ambient_scan cwd gits (raw # raws) =
     (case normalize_for_exec_risk raw of
        FailClosedArgv \<Rightarrow> PlanFailClosed
      | ReadyArgv words \<Rightarrow>
          let name = normalized_program_name words in
          if name = Some ''cd'' \<or> name = Some ''pushd'' then
            (case apply_literal_chdir cwd words of
               Some next \<Rightarrow> ambient_scan next gits raws | None \<Rightarrow> PlanFailClosed)
          else if name = Some ''popd'' then PlanFailClosed
          else if name = Some ''git'' then
            (case git_effective_cwd words cwd of
               Some e \<Rightarrow> ambient_scan cwd (gits @ [e]) raws | None \<Rightarrow> PlanFailClosed)
          else ambient_scan cwd gits raws)"

definition ambient_scan_plan_from_segments :: "argv list \<Rightarrow> string \<Rightarrow> ambient_scan_plan" where
  "ambient_scan_plan_from_segments raw_segments session_cwd = ambient_scan session_cwd [] raw_segments"

definition ambient_exec_risk_from_plan :: "host \<Rightarrow> ambient_scan_plan \<Rightarrow> bool" where
  "ambient_exec_risk_from_plan h plan =
     (case plan of
        PlanFailClosed \<Rightarrow> True
      | CheckDirs dirs \<Rightarrow> list_ex (local_repo_config_has_exec_risk h) dirs)"

text \<open>The token probe splits at White\_Space characters (of one to three bytes) and shell
  punctuation.\<close>

definition is_probe_sep :: "char \<Rightarrow> bool" where
  "is_probe_sep c \<longleftrightarrow> c \<in> set [CHR ''|'', CHR ''&'', CHR '';'', CHR ''('', CHR '')'', CHR 0x60, CHR 0x0A, CHR ''<'', CHR ''>'']"

function probe_tokens :: "string \<Rightarrow> string \<Rightarrow> string list" where
  "probe_tokens cur [] = [cur]"
| "probe_tokens cur (c # cs) =
     (if is_probe_sep c then cur # probe_tokens [] cs
      else if ws_len (c # cs) \<noteq> 0 then cur # probe_tokens [] (drop (ws_len (c # cs)) (c # cs))
      else probe_tokens (cur @ [c]) cs)"
  by pat_completeness auto
termination
  by (relation "measure (\<lambda>(_, s). length s)") auto

definition trim_quotes :: "string \<Rightarrow> string" where
  "trim_quotes s =
     (let q = (\<lambda>c. c \<in> set [CHR 0x27, CHR 0x22, CHR 0x60]) in
      rev (dropWhile q (rev (dropWhile q s))))"

definition script_may_invoke_git :: "string \<Rightarrow> bool" where
  "script_may_invoke_git cmd =
     list_ex (\<lambda>t. let trimmed = trim_quotes t in
       trimmed \<noteq> [] \<and> normalized_token_basename trimmed = ''git'') (probe_tokens [] cmd)"

subsection \<open>What a read-only query is\<close>

text \<open>The only global options that may stand before the verb.\<close>

fun benign_globals :: "argv \<Rightarrow> bool" where
  "benign_globals [] = True"
| "benign_globals (tok # rest) =
     (if tok = ''-C'' then rest \<noteq> [] \<and> benign_globals (drop 1 rest)
      else (attached_git_c_path tok \<noteq> None \<or> tok = ''--no-pager'' \<or> tok = ''-P'') \<and> benign_globals rest)"

lemma git_verb_scan_Some:
  "git_verb_scan i ws = Some j \<Longrightarrow>
     i \<le> j \<and> j < i + length ws \<and> benign_globals (take (j - i) ws) \<and> \<not> starts_with (ws ! (j - i)) ''-''"
proof (induction i ws rule: git_verb_scan.induct)
  case (2 i tok rest)
  consider "j = i" "\<not> starts_with tok ''-''"
    | "tok = ''-C''" "git_verb_scan (i + 2) (drop 1 rest) = Some j"
    | "tok \<noteq> ''-C''" "attached_git_c_path tok \<noteq> None \<or> tok = ''--no-pager'' \<or> tok = ''-P''"
        "git_verb_scan (i + 1) rest = Some j" "starts_with tok ''-''" "tok \<noteq> ''-''" "tok \<noteq> ''--''"
    using "2.prems" by (auto split: if_splits)
  then show ?case
  proof cases
    case 1
    then show ?thesis by simp
  next
    case 2
    then have c: "starts_with tok ''-''" "tok \<noteq> ''-''" "tok \<noteq> ''--''" by simp_all
    with "2.IH"(1) 2 have ih: "i + 2 \<le> j" "j < i + 2 + length (drop 1 rest)"
      "benign_globals (take (j - (i + 2)) (drop 1 rest))" "\<not> starts_with (drop 1 rest ! (j - (i + 2))) ''-''"
      by simp_all
    then obtain k where k: "j = i + 2 + k" by (metis le_Suc_ex)
    show ?thesis using ih k 2 by (cases rest) auto
  next
    case 3
    with "2.IH"(2) have ih: "i + 1 \<le> j" "j < i + 1 + length rest"
      "benign_globals (take (j - (i + 1)) rest)" "\<not> starts_with (rest ! (j - (i + 1))) ''-''"
      by simp_all
    then obtain k where k: "j = i + 1 + k" by (metis le_Suc_ex)
    show ?thesis using ih k 3 by simp
  qed
qed simp

lemma before_eq_no_eq: "CHR ''='' \<notin> set w \<Longrightarrow> before_eq w = w \<and> before_eq (w @ ''='' @ v) = w"
proof -
  assume n: "CHR ''='' \<notin> set w"
  have "split_once w CHR ''='' = None" using n by (simp add: split_once_None_iff)
  moreover have "split_once (w @ ''='' @ v) CHR ''='' = Some (w, v)"
    using n by (simp add: split_once_Some_iff)
  ultimately show ?thesis by (simp add: before_eq_def)
qed

text \<open>A command auto-approved as a read-only git query is literally \<open>git\<close>, followed by nothing
  but benign globals (\<open>-C dir\<close>, \<open>--no-pager\<close>, \<open>-P\<close>) and a verb of the single safe table, with no
  configuration-changing or repository-retargeting global before the verb and no driver,
  textconv, output or pager option anywhere, in full or abbreviated, alone or with \<open>=value\<close>.\<close>

theorem read_only_query_sound:
  assumes "git_words_are_read_only_query words"
  shows "\<exists>i. git_safe_query_verb_index words = Some i \<and> 1 \<le> i \<and> i < length words \<and> words ! 0 = ''git''
    \<and> words ! i \<in> set SAFE_GIT_SUBCOMMANDS \<and> benign_globals (take (i - 1) (drop 1 words))
    \<and> \<not> git_has_exec_risk_global words
    \<and> (\<forall>full \<in> set GIT_QUERY_UNSAFE_OPTIONS. \<forall>n v. 3 \<le> n \<longrightarrow>
          take n full \<notin> set (drop 1 words) \<and> take n full @ ''='' @ v \<notin> set (drop 1 words))"
proof -
  from assms obtain i where i: "git_safe_query_verb_index words = Some i"
    and w: "first words = Some ''git''" "\<not> git_has_exec_risk_global words"
      "words ! i \<in> set SAFE_GIT_SUBCOMMANDS" "\<not> git_words_have_unsafe_query_option words"
    by (auto simp: git_words_are_read_only_query_def split: if_splits option.splits)
  obtain r where r: "words = ''git'' # r" using w(1) by (cases words) auto
  have s: "1 \<le> i" "i < 1 + length r" "benign_globals (take (i - 1) r)"
    using git_verb_scan_Some[of 1 r i] i r by (simp_all add: git_safe_query_verb_index_def)
  have no: "\<not> git_query_option_is_unsafe x" if "x \<in> set r" for x
    using w(4) that r by (auto simp: git_words_have_unsafe_query_option_def list_ex_iff split: if_splits)
  have unsafe: "git_query_option_is_unsafe (take n full)" "git_query_option_is_unsafe (take n full @ ''='' @ v)"
    if "full \<in> set GIT_QUERY_UNSAFE_OPTIONS" "3 \<le> n" for full n v
  proof -
    have len: "list_all (\<lambda>f. 3 \<le> length f \<and> CHR ''='' \<notin> set f) GIT_QUERY_UNSAFE_OPTIONS" by code_simp
    then have f: "3 \<le> length full" "CHR ''='' \<notin> set full" using that(1) by (auto simp: list_all_iff)
    then have "CHR ''='' \<notin> set (take n full)" by (auto dest: in_set_takeD)
    note b = before_eq_no_eq[OF this, of v]
    have "starts_with full (take n full)" by (simp add: starts_with_def min_def)
    moreover have "2 < length (take n full)" using f(1) that(2) by simp
    ultimately show "git_query_option_is_unsafe (take n full)" "git_query_option_is_unsafe (take n full @ ''='' @ v)"
      using that(1) b by (auto simp: git_query_option_is_unsafe_def Let_def list_ex_iff)
  qed
  have opts: "take n full \<notin> set r \<and> take n full @ ''='' @ v \<notin> set r"
    if "full \<in> set GIT_QUERY_UNSAFE_OPTIONS" "3 \<le> n" for full n v
    using unsafe(1)[OF that] unsafe(2)[OF that, of v] no by blast
  show ?thesis
    using i s w(2,3) r opts by (intro exI[of _ i]) simp
qed

lemma read_only_query_sound_witness:
  "git_safe_query_verb_index [''git'', ''-C'', ''d'', ''log'', ''-p''] = Some 3
   \<and> \<not> git_has_exec_risk_global [''git'', ''-C'', ''d'', ''log'', ''-p'']"
proof -
  have "git_words_are_read_only_query [''git'', ''-C'', ''d'', ''log'', ''-p'']" by code_simp
  from read_only_query_sound[OF this] have "\<not> git_has_exec_risk_global [''git'', ''-C'', ''d'', ''log'', ''-p'']"
    by blast
  moreover have "git_safe_query_verb_index [''git'', ''-C'', ''d'', ''log'', ''-p''] = Some 3" by code_simp
  ultimately show ?thesis by blast
qed

subsection \<open>The ambient plan covers every git segment\<close>

definition runs_git :: "argv \<Rightarrow> bool" where
  "runs_git raw = (case normalize_for_exec_risk raw of ReadyArgv ws \<Rightarrow> is_git_program ws | FailClosedArgv \<Rightarrow> False)"

lemma ambient_scan_dirs:
  "ambient_scan cwd gits raws = CheckDirs dirs \<Longrightarrow>
     dirs \<noteq> [] \<and> length dirs = length gits + length (filter runs_git raws)
     \<and> take (length gits) dirs = gits
     \<and> (\<forall>raw \<in> set raws. normalize_for_exec_risk raw \<noteq> FailClosedArgv)"
proof (induction cwd gits raws rule: ambient_scan.induct)
  case (2 cwd gits raw raws)
  then obtain words where words: "normalize_for_exec_risk raw = ReadyArgv words"
    by (cases "normalize_for_exec_risk raw") auto
  show ?case
  proof (cases "normalized_program_name words = Some ''git''")
    case True
    with 2 words obtain e where e: "git_effective_cwd words cwd = Some e"
      by (auto split: option.splits)
    have ih: "dirs \<noteq> []" "length dirs = length (gits @ [e]) + length (filter runs_git raws)"
      "take (length (gits @ [e])) dirs = gits @ [e]"
      "\<forall>raw \<in> set raws. normalize_for_exec_risk raw \<noteq> FailClosedArgv"
      using 2 words True e by (auto simp: Let_def)
    have "take (length gits) dirs = gits"
      using arg_cong[OF ih(3), of "take (length gits)"] by simp
    moreover have "runs_git raw" using words True by (simp add: runs_git_def is_git_program_def)
    ultimately show ?thesis using ih words by simp
  next
    case False
    have "\<not> runs_git raw" using words False by (simp add: runs_git_def is_git_program_def)
    with 2 words False show ?thesis by (auto simp: Let_def split: if_splits option.splits)
  qed
qed (simp split: if_splits)

lemma no_exec_risk_entries:
  "\<not> local_repo_config_has_exec_risk h d \<Longrightarrow>
     \<exists>entries. h_git_config h d = Some entries
       \<and> (\<forall>(n, v) \<in> set entries. \<not> local_git_config_entry_is_exec h n v)"
  by (cases "h_git_config h d") (auto simp: local_repo_config_has_exec_risk_def list_ex_iff)

text \<open>A plan that lets a script skip the fail-closed answer names one directory per git segment
  and at least one, every segment of the script was normalised, and if no ambient risk is found
  the local git configuration of each of those directories was read and has no entry that
  executes anything.\<close>

theorem ambient_plan_covers_git:
  assumes "ambient_scan_plan_from_segments raws cwd = CheckDirs dirs"
    and "\<not> ambient_exec_risk_from_plan h (CheckDirs dirs)"
  shows "dirs \<noteq> [] \<and> length dirs = length (filter runs_git raws)
    \<and> (\<forall>raw \<in> set raws. normalize_for_exec_risk raw \<noteq> FailClosedArgv)
    \<and> (\<forall>d \<in> set dirs. \<exists>entries. h_git_config h d = Some entries
         \<and> (\<forall>(n, v) \<in> set entries. \<not> local_git_config_entry_is_exec h n v))"
proof -
  have "\<forall>d \<in> set dirs. \<not> local_repo_config_has_exec_risk h d"
    using assms(2) by (simp add: ambient_exec_risk_from_plan_def list_ex_iff)
  then show ?thesis
    using ambient_scan_dirs[of cwd "[]" raws dirs] assms(1) no_exec_risk_entries
    by (simp add: ambient_scan_plan_from_segments_def)
qed

lemma ambient_plan_covers_git_witness:
  "length (filter runs_git [[''cd'', ''sub''], [''timeout'', ''5'', ''git'', ''status'']]) = 1"
proof -
  have p: "ambient_scan_plan_from_segments [[''cd'', ''sub''], [''timeout'', ''5'', ''git'', ''status'']] ''/w'' =
      CheckDirs [''/w/sub'']" by code_simp
  have "\<not> ambient_exec_risk_from_plan demo_host (CheckDirs [''/w/sub''])" by code_simp
  from ambient_plan_covers_git[OF p this] show ?thesis by simp
qed

subsection \<open>Two gaps\<close>

text \<open>
  An \<open>env\<close> option of unknown arity hides its command from this analysis: the peel reports the
  uncertainty, as its documentation demands of every caller, but \<open>normalize_for_exec_risk\<close> does
  not look at it, so a git with an executing \<open>-c\<close> behind it carries no execution risk.
\<close>

lemma uncertain_env_hides_exec_risk:
  "segment_exec_facts_of [''env'', ''--frob'', ''git'', ''-c'', ''core.fsmonitor=x'', ''status''] =
     \<lparr>sf_exec_risk = False, sf_has_git = False\<rparr>
   \<and> wp_env_options_uncertain
       (unwrap_wrappers_checked [''env'', ''--frob'', ''git'', ''-c'', ''core.fsmonitor=x'', ''status''])
   \<and> sf_exec_risk (segment_exec_facts_of [''env'', ''git'', ''-c'', ''core.fsmonitor=x'', ''status''])"
  by code_simp

text \<open>The verb table alone decides what is read-only, so a branch deletion is.\<close>

lemma branch_deletion_is_read_only:
  "git_words_are_read_only_query [''git'', ''branch'', ''-D'', ''main'']"
  by code_simp

end
