(* ===== verification/Env_Risk.thy ===== *)
theory Env_Risk
  imports Bash_Splitting Inline_Shell
begin

text \<open>
  Environment assignments that can change which code runs, and the flag tables of \<open>rg\<close> and \<open>kubectl\<close>
  (\<open>permission/auto_mode/mod.rs\<close>), shared by the heuristic classifier and the grant evaluation.
\<close>

datatype env_risk = EnvSafe | EnvUnvetted | EnvInjection

fun env_risk_rank :: "env_risk \<Rightarrow> nat" where
  "env_risk_rank EnvSafe = 0"
| "env_risk_rank EnvUnvetted = 1"
| "env_risk_rank EnvInjection = 2"

lemma env_risk_rank_inj: "env_risk_rank a = env_risk_rank b \<Longrightarrow> a = b"
  by (cases a; cases b) simp_all

instantiation env_risk :: linorder
begin

definition less_eq_env_risk :: "env_risk \<Rightarrow> env_risk \<Rightarrow> bool" where
  "less_eq_env_risk a b \<longleftrightarrow> env_risk_rank a \<le> env_risk_rank b"

definition less_env_risk :: "env_risk \<Rightarrow> env_risk \<Rightarrow> bool" where
  "less_env_risk a b \<longleftrightarrow> env_risk_rank a < env_risk_rank b"

instance
  by standard (auto simp: less_eq_env_risk_def less_env_risk_def env_risk_rank_inj)

end

definition SAFE_ENV_KEYS :: "string list" where
  "SAFE_ENV_KEYS =
     [''CARGO_TERM_COLOR'', ''CARGO_TERM_PROGRESS_WHEN'', ''RUST_LOG'', ''RUST_LOG_STYLE'',
      ''RUST_BACKTRACE'', ''RUST_TEST_THREADS'', ''RUST_MIN_STACK'', ''NO_COLOR'', ''CLICOLOR'',
      ''CLICOLOR_FORCE'', ''FORCE_COLOR'', ''COLORTERM'']"

definition INJECTION_ENV_KEYS :: "string list" where
  "INJECTION_ENV_KEYS =
     [''LD_PRELOAD'', ''LD_AUDIT'', ''BASH_ENV'', ''ENV'', ''IFS'', ''PATH'', ''GIT_EXTERNAL_DIFF'',
      ''GIT_PROXY_COMMAND'', ''PROMPT_COMMAND'']"

definition INJECTION_ENV_KEY_PREFIXES :: "string list" where
  "INJECTION_ENV_KEY_PREFIXES = [''DYLD_'', ''GIT_CONFIG'']"

definition is_safe_env_key :: "string \<Rightarrow> bool" where
  "is_safe_env_key key \<longleftrightarrow> key \<in> set SAFE_ENV_KEYS"

definition env_key_risk :: "string \<Rightarrow> env_risk" where
  "env_key_risk key =
     (if is_safe_env_key key then EnvSafe
      else if key \<in> set INJECTION_ENV_KEYS \<or> list_ex (starts_with key) INJECTION_ENV_KEY_PREFIXES
      then EnvInjection else EnvUnvetted)"

definition assignment_key :: "string \<Rightarrow> node \<Rightarrow> string" where
  "assignment_key src n =
     (case find_map (\<lambda>c. if kind c = ''variable_name'' then node_text src c else None) (children n) of
        Some text \<Rightarrow> text
      | None \<Rightarrow>
          (case node_text src n of
             Some t \<Rightarrow> takeWhile (\<lambda>c. c \<noteq> CHR ''='') t
           | None \<Rightarrow> []))"

text \<open>The arguments of one \<open>env\<close>: nothing when an option makes it an injection at once.\<close>

fun env_args_risk :: "bool \<Rightarrow> env_risk \<Rightarrow> argv \<Rightarrow> env_risk option" where
  "env_args_risk options_done risk [] = Some risk"
| "env_args_risk options_done risk (arg # args) =
     (if arg = ''--'' then env_args_risk True risk args
      else if \<not> options_done \<and> starts_with arg ''-'' then None
      else case split_once arg CHR ''='' of
          Some (key, _) \<Rightarrow> env_args_risk options_done (max risk (env_key_risk key)) args
        | None \<Rightarrow> Some risk)"

definition is_env_head :: "argv \<Rightarrow> bool" where
  "is_env_head current \<longleftrightarrow> map_option base_name (first current) = Some ''env''"

text \<open>What one invocation of the wrapper chain adds to the risk.\<close>

definition env_invocation_risk :: "env_risk \<Rightarrow> argv \<Rightarrow> env_risk option" where
  "env_invocation_risk risk current =
     (if is_env_head current then env_args_risk False risk (drop 1 current) else Some risk)"

fun env_risk_rounds :: "nat \<Rightarrow> env_risk \<Rightarrow> argv \<Rightarrow> env_risk" where
  "env_risk_rounds 0 risk current = risk"
| "env_risk_rounds (Suc n) risk current =
     (case env_invocation_risk risk current of
        None \<Rightarrow> EnvInjection
      | Some risk' \<Rightarrow>
          (case strip_wrapper_command current of
             Some inner \<Rightarrow> env_risk_rounds n risk' inner
           | None \<Rightarrow> risk'))"

definition ENV_RISK_ROUNDS :: nat where "ENV_RISK_ROUNDS = 8"

definition command_env_risk :: "argv \<Rightarrow> env_risk" where
  "command_env_risk words = env_risk_rounds ENV_RISK_ROUNDS EnvSafe words"

definition assignment_nodes :: "node \<Rightarrow> node list" where
  "assignment_nodes root = filter (\<lambda>n. kind n = ''variable_assignment'') (walk_lifo (\<lambda>_. True) [root])"

definition script_env_risk :: "node \<Rightarrow> string \<Rightarrow> plain_command list \<Rightarrow> env_risk" where
  "script_env_risk root src cmds =
     foldl (\<lambda>risk c. max risk (command_env_risk (pc_words c)))
       (foldl (\<lambda>risk n. max risk (env_key_risk (assignment_key src n))) EnvSafe (assignment_nodes root))
       cmds"

subsection \<open>Flag tables\<close>

definition KUBECTL_UNSAFE_FLAGS :: "string list" where
  "KUBECTL_UNSAFE_FLAGS =
     [''--kubeconfig'', ''--context'', ''--cluster'', ''--server'', ''-s'', ''--token'', ''--user'',
      ''--as'', ''--as-group'', ''--as-uid'', ''--as-user-extra'', ''--username'', ''--password'',
      ''--client-certificate'', ''--client-key'', ''--certificate-authority'']"

definition RG_UNSAFE_FLAGS :: "string list" where
  "RG_UNSAFE_FLAGS = [''--pre'', ''--hostname-bin'']"

definition flag_name :: "string \<Rightarrow> string" where
  "flag_name w = (case split_once w CHR ''='' of Some (name, _) \<Rightarrow> name | None \<Rightarrow> w)"

definition rg_has_unsafe_flag :: "argv \<Rightarrow> bool" where
  "rg_has_unsafe_flag words \<longleftrightarrow>
     normalized_command_head words = Some ''rg''
     \<and> list_ex (\<lambda>w. flag_name w \<in> set RG_UNSAFE_FLAGS) (drop 1 words)"

definition kubectl_has_unsafe_flag :: "argv \<Rightarrow> bool" where
  "kubectl_has_unsafe_flag words \<longleftrightarrow>
     normalized_command_head words = Some ''kubectl''
     \<and> list_ex (\<lambda>w. flag_name w \<in> set KUBECTL_UNSAFE_FLAGS) (drop 1 words)"

subsection \<open>Properties\<close>

lemma env_risk_safe_least [simp]: "EnvSafe \<le> r" "r \<le> EnvSafe \<longleftrightarrow> r = EnvSafe"
  by (cases r; simp add: less_eq_env_risk_def)+

lemma foldl_max_ge: "a \<le> foldl (\<lambda>r x. max r (f x)) a xs" for a :: "'b::linorder"
proof (induction xs arbitrary: a)
  case (Cons x xs)
  have "a \<le> max a (f x)" by simp
  also have "\<dots> \<le> foldl (\<lambda>r x. max r (f x)) (max a (f x)) xs" by (rule Cons)
  finally show ?case by simp
qed simp

lemma foldl_max_mem: "x \<in> set xs \<Longrightarrow> f x \<le> foldl (\<lambda>r x. max r (f x)) a xs" for a :: "'b::linorder"
proof (induction xs arbitrary: a)
  case (Cons y ys)
  show ?case
  proof (cases "x = y")
    case True
    have "f x \<le> max a (f y)" using True by simp
    also have "\<dots> \<le> foldl (\<lambda>r x. max r (f x)) (max a (f y)) ys" by (rule foldl_max_ge)
    finally show ?thesis by simp
  next
    case False
    with Cons show ?thesis by simp
  qed
qed simp

lemma env_risk_top [simp]: "r \<le> EnvInjection"
  by (cases r) (simp_all add: less_eq_env_risk_def)

definition risk_of :: "env_risk option \<Rightarrow> env_risk" where
  "risk_of r = (case r of None \<Rightarrow> EnvInjection | Some x \<Rightarrow> x)"

lemma risk_of_simps [simp]: "risk_of None = EnvInjection" "risk_of (Some x) = x"
  by (simp_all add: risk_of_def)

lemma env_args_risk_ge: "r \<le> risk_of (env_args_risk d r args)"
proof (induction d r args rule: env_args_risk.induct)
  case (2 d r arg args)
  then show ?case
    by (cases "split_once arg CHR ''=''") (fastforce simp del: split_once_Cons)+
qed simp

lemma env_args_risk_mono:
  "r \<le> r' \<Longrightarrow> risk_of (env_args_risk d r args) \<le> risk_of (env_args_risk d r' args)"
proof (induction d r args arbitrary: r' rule: env_args_risk.induct)
  case (2 d r arg args)
  show ?case
  proof (cases "split_once arg CHR ''=''")
    case None
    with 2 show ?thesis by simp
  next
    case (Some kv)
    then obtain k v where kv: "split_once arg CHR ''='' = Some (k, v)" by (cases kv) auto
    have m: "max r (env_key_risk k) \<le> max r' (env_key_risk k)" using "2.prems" by (rule max.mono) simp
    have ih: "risk_of (env_args_risk d (max r (env_key_risk k)) args)
        \<le> risk_of (env_args_risk d (max r' (env_key_risk k)) args)"
      if "arg \<noteq> ''--''" "\<not> (\<not> d \<and> starts_with arg ''-'')"
      by (rule "2.IH"(2)[OF that kv refl m])
    show ?thesis
      using "2.IH"(1)[OF _ "2.prems"] ih kv
      by (cases "arg = ''--''"; cases "\<not> d \<and> starts_with arg ''-''")
        (simp_all only: env_args_risk.simps if_True if_False option.case prod.case risk_of_simps env_risk_top refl simp_thms)
  qed
qed simp

lemma env_invocation_risk_ge: "r \<le> risk_of (env_invocation_risk r ws)"
  using env_args_risk_ge by (simp add: env_invocation_risk_def)

lemma env_risk_rounds_step:
  "risk_of (env_invocation_risk risk current) \<le> env_risk_rounds (Suc n) risk current"
  if "\<And>r ws. r \<le> env_risk_rounds n r ws"
  using that by (simp split: option.split)

lemma env_risk_rounds_ge: "risk \<le> env_risk_rounds n risk current"
proof (induction n arbitrary: risk current)
  case (Suc n)
  have "risk \<le> risk_of (env_invocation_risk risk current)" by (rule env_invocation_risk_ge)
  also have "\<dots> \<le> env_risk_rounds (Suc n) risk current" by (rule env_risk_rounds_step) (rule Suc)
  finally show ?case .
qed simp

text \<open>The argv reached after stripping \<open>k\<close> wrappers.\<close>

fun strip_times :: "nat \<Rightarrow> argv \<Rightarrow> argv option" where
  "strip_times 0 ws = Some ws"
| "strip_times (Suc k) ws = Option.bind (strip_wrapper_command ws) (strip_times k)"

lemma env_risk_rounds_reach:
  "strip_times k words = Some ws \<Longrightarrow> k < n \<Longrightarrow> is_env_head ws \<Longrightarrow>
     risk_of (env_args_risk False EnvSafe (drop 1 ws)) \<le> env_risk_rounds n risk words"
proof (induction k arbitrary: words n risk)
  case 0
  then obtain m where n: "n = Suc m" by (cases n) auto
  have "risk_of (env_args_risk False EnvSafe (drop 1 ws)) \<le> risk_of (env_invocation_risk risk words)"
    using 0 env_args_risk_mono[of EnvSafe risk] by (simp add: env_invocation_risk_def)
  also have "\<dots> \<le> env_risk_rounds n risk words"
    unfolding n by (rule env_risk_rounds_step) (rule env_risk_rounds_ge)
  finally show ?case .
next
  case (Suc k)
  then obtain m inner where n: "n = Suc m" "k < m" and i: "strip_wrapper_command words = Some inner"
    "strip_times k inner = Some ws" by (cases n) (auto simp: bind_eq_Some_conv)
  show ?case
    using Suc.IH[OF i(2) n(2) Suc.prems(3)] i(1) n(1) by (simp split: option.split)
qed

text \<open>An environment that counts as safe sets nothing but cosmetic variables: every inline
  assignment node of the tree, and every \<open>env\<close> reached through at most seven wrappers of any
  command of the script, only assigns keys of the fixed safe table, and that \<open>env\<close> has no option
  before its command.\<close>

theorem safe_env_sound:
  assumes "script_env_risk root src cmds = EnvSafe"
  shows "(\<forall>n \<in> set (nodes root). kind n = ''variable_assignment'' \<longrightarrow>
            assignment_key src n \<in> set SAFE_ENV_KEYS)
    \<and> (\<forall>c \<in> set cmds. \<forall>k < ENV_RISK_ROUNDS. \<forall>ws. strip_times k (pc_words c) = Some ws \<longrightarrow> is_env_head ws \<longrightarrow>
            env_args_risk False EnvSafe (drop 1 ws) = Some EnvSafe)"
proof (intro conjI ballI allI impI)
  let ?base = "foldl (\<lambda>risk n. max risk (env_key_risk (assignment_key src n))) EnvSafe (assignment_nodes root)"
  have b: "?base = EnvSafe"
    using assms foldl_max_ge[of ?base "\<lambda>c. command_env_risk (pc_words c)" cmds]
    by (simp add: script_env_risk_def)
  fix n assume n: "n \<in> set (nodes root)" "kind n = ''variable_assignment''"
  then have "n \<in> set (assignment_nodes root)" by (simp add: assignment_nodes_def walk_lifo_set)
  from foldl_max_mem[OF this, of "\<lambda>n. env_key_risk (assignment_key src n)" EnvSafe] b
  have "env_key_risk (assignment_key src n) = EnvSafe" by simp
  then show "assignment_key src n \<in> set SAFE_ENV_KEYS"
    by (simp add: env_key_risk_def is_safe_env_key_def split: if_splits)
next
  fix c k ws
  assume c: "c \<in> set cmds" and k: "k < ENV_RISK_ROUNDS" "strip_times k (pc_words c) = Some ws" "is_env_head ws"
  have "command_env_risk (pc_words c) = EnvSafe"
    using foldl_max_mem[OF c, of "\<lambda>c. command_env_risk (pc_words c)"] assms
    unfolding script_env_risk_def by (metis env_risk_safe_least(2))
  with env_risk_rounds_reach[OF k(2,1,3), of EnvSafe]
  have "risk_of (env_args_risk False EnvSafe (drop 1 ws)) = EnvSafe" by (simp add: command_env_risk_def)
  then show "env_args_risk False EnvSafe (drop 1 ws) = Some EnvSafe"
    by (cases "env_args_risk False EnvSafe (drop 1 ws)") simp_all
qed

lemma safe_env_sound_witness:
  "env_args_risk False EnvSafe [''RUST_LOG=debug'', ''ls''] = Some EnvSafe"
proof -
  let ?c = "\<lparr>pc_words = [''timeout'', ''5'', ''env'', ''RUST_LOG=debug'', ''ls''], pc_span_start = 0, pc_span_end = 0\<rparr>"
  let ?r = "leaf ''program'' True 0 0"
  have r: "script_env_risk ?r [] [?c] = EnvSafe" by code_simp
  have s: "strip_times 1 (pc_words ?c) = Some [''env'', ''RUST_LOG=debug'', ''ls'']" by code_simp
  have e: "is_env_head [''env'', ''RUST_LOG=debug'', ''ls'']" by code_simp
  have n: "(1::nat) < ENV_RISK_ROUNDS" by (simp add: ENV_RISK_ROUNDS_def)
  have c: "?c \<in> set [?c]" by simp
  from safe_env_sound[OF r] have "env_args_risk False EnvSafe (drop 1 [''env'', ''RUST_LOG=debug'', ''ls'']) = Some EnvSafe"
    using c n s e by blast
  then show ?thesis by (simp only: drop_Suc_Cons drop_0 One_nat_def)
qed

text \<open>
  Only the canonical wrappers are stripped, not the transparent prefixes, so behind \<open>command\<close> or
  \<open>exec\<close> an injected variable is not seen.
\<close>

lemma prefixed_env_is_missed:
  "command_env_risk [''command'', ''env'', ''LD_PRELOAD=/x.so'', ''ls''] = EnvSafe
   \<and> command_env_risk [''env'', ''LD_PRELOAD=/x.so'', ''ls''] = EnvInjection"
  by code_simp

end
