(* ===== verification/Routine_Commands.thy ===== *)
theory Routine_Commands
  imports Env_Risk Exec_Risk Shell_Files
begin

text \<open>
  The rule-based verdict on shell scripts (\<open>permission/auto_mode/mod.rs\<close>, \<open>permission/auto_mode/routine_git.rs\<close>):
  which scripts are provably routine development commands, so that neither the user nor a model has
  to be asked.  Package-manager launchers are resolved to what they launch, and everything that is
  not recognised is not routine.
\<close>

subsection \<open>Git\<close>

definition BRANCH_SWITCH_BENIGN_FLAGS :: "string list" where
  "BRANCH_SWITCH_BENIGN_FLAGS =
     [''-q'', ''--quiet'', ''-d'', ''--detach'', ''-t'', ''--track'', ''--no-track'', ''--guess'',
      ''--no-guess'', ''--progress'', ''--no-progress'', ''--recurse-submodules'',
      ''--no-recurse-submodules'']"

text \<open>\<open>2.x\<close> and \<open>release/1.2.x\<close> are branches, not files.\<close>

definition maintenance_branch :: "string \<Rightarrow> string \<Rightarrow> bool" where
  "maintenance_branch stem ext \<longleftrightarrow>
     (let leaf = last (split_on (\<lambda>c. c = CHR ''/'') stem) in
      ext = ''x'' \<and> list_ex is_ascii_digit leaf
      \<and> list_all (\<lambda>c. is_ascii_digit c \<or> c = CHR ''.'') leaf)"

definition operand_reads_as_path :: "string \<Rightarrow> bool" where
  "operand_reads_as_path op =
     (if list_ex (\<lambda>c. starts_with c ''.'' \<or> ends_with c ''.lock'') (split_on (\<lambda>c. c = CHR ''/'') op)
         \<or> ends_with op ''/'' \<or> ends_with op ''.'' \<or> contains_str op ''..'' \<or> contains_str op (''@'' @ ''{'')
         \<or> has_any op [CHR ''~'', CHR ''^'', CHR '':'', CHR 0x5C] \<or> has_whitespace op
      then True
      else if starts_with op ''/'' \<or> has_any op ''*?['' then True
      else case rsplit_once op CHR ''.'' of
          None \<Rightarrow> False
        | Some (stem, ext) \<Rightarrow>
            if maintenance_branch stem ext then False
            else 1 \<le> length ext \<and> length ext \<le> 5 \<and> list_all is_ascii_alphanumeric ext
                 \<and> list_ex is_ascii_alphabetic ext)"

text \<open>The operands of a branch switch, or nothing when a word is refused.\<close>

fun branch_switch_operands :: "nat \<Rightarrow> argv \<Rightarrow> nat option" where
  "branch_switch_operands n [] = Some n"
| "branch_switch_operands n (w # ws) =
     (if w \<in> set [''-b'', ''-B'', ''-c'', ''-C'', ''--orphan''] then
        (case ws of [] \<Rightarrow> Some n | _ # rest \<Rightarrow> branch_switch_operands n rest)
      else if w = ''-'' then branch_switch_operands (Suc n) ws
      else if w \<in> set BRANCH_SWITCH_BENIGN_FLAGS then branch_switch_operands n ws
      else if starts_with w ''-'' then None
      else if operand_reads_as_path w then None
      else branch_switch_operands (Suc n) ws)"

definition is_routine_branch_switch :: "argv \<Rightarrow> bool" where
  "is_routine_branch_switch args =
     (case branch_switch_operands 0 args of None \<Rightarrow> False | Some n \<Rightarrow> n \<le> 1)"

datatype stash_scan = StashRefused | StashSub "string option"

fun stash_subcommand :: "argv \<Rightarrow> stash_scan" where
  "stash_subcommand [] = StashSub None"
| "stash_subcommand (w # ws) =
     (if w = ''-m'' \<or> w = ''--message'' then
        (case ws of [] \<Rightarrow> StashSub None | _ # rest \<Rightarrow> stash_subcommand rest)
      else if w = ''-q'' \<or> w = ''--quiet'' then stash_subcommand ws
      else if starts_with w ''-'' then StashRefused
      else StashSub (Some w))"

definition is_routine_stash :: "argv \<Rightarrow> bool" where
  "is_routine_stash args =
     (case stash_subcommand args of
        StashRefused \<Rightarrow> False
      | StashSub None \<Rightarrow> True
      | StashSub (Some s) \<Rightarrow>
          s \<in> set [''push'', ''save'', ''pop'', ''apply'', ''list'', ''show'', ''branch''])"

definition git_words_are_routine :: "argv \<Rightarrow> bool" where
  "git_words_are_routine words =
     (if first words \<noteq> Some ''git'' then False
      else if git_words_are_read_only_query words then True
      else if git_words_have_unsafe_query_option words then False
      else case get words 1 of
          None \<Rightarrow> False
        | Some verb \<Rightarrow>
            let args = drop 2 words in
            if verb \<in> set [''add'', ''commit'', ''pull'', ''fetch''] then True
            else if verb = ''worktree'' then first args = Some ''list''
            else if verb = ''checkout'' \<or> verb = ''switch'' then is_routine_branch_switch args
            else if verb = ''stash'' then is_routine_stash args
            else False)"

subsection \<open>Other commands\<close>

definition ROUTINE_PREFIXES :: "string list" where
  "ROUTINE_PREFIXES =
     [''cargo '', ''pytest'', ''python '', ''python3 '', ''node '', ''rustc '', ''rustfmt'', ''clippy'',
      ''make '', ''cmake '', ''cd'', ''pushd'', ''popd'', ''ls'', ''pwd'', ''echo '', ''printf '', ''cat '',
      ''head '', ''tail '', ''wc '', ''rg '', ''grep '', ''which '', ''type '', ''true'', ''false'', ''test '',
      ''sort '', ''uniq '', ''tr '', ''cut '', ''diff '', ''jq '', ''date'', ''whoami'', ''hostname'', ''uname'',
      ''nproc'', ''printenv'', ''stat '', ''file '', ''tree'', ''basename '', ''dirname '', ''realpath '',
      ''readlink '', ''strings '', ''sleep '', ''df '', ''du '', ''ps '', ''top'', ''htop'', ''bazel '', ''just '',
      ''go '', ''kubectl get'', ''kubectl logs'', ''kubectl describe'', ''set'']"

definition matches_routine_prefix :: "argv \<Rightarrow> bool" where
  "matches_routine_prefix inner \<longleftrightarrow>
     (let joined = to_ascii_lowercase (join '' '' inner) in
      list_ex (\<lambda>p. let base = trim p in
          joined = base \<or> starts_with joined base \<and> starts_with (drop (length base) joined) '' '')
        ROUTINE_PREFIXES)"

definition nonflag_tokens :: "argv \<Rightarrow> nat \<Rightarrow> argv" where
  "nonflag_tokens inner n = take n (filter (\<lambda>w. \<not> starts_with w ''-'') (drop 1 inner))"

definition gh_subcommand_is_read_only :: "argv \<Rightarrow> bool" where
  "gh_subcommand_is_read_only inner =
     (case nonflag_tokens inner 2 of
        [grp, sub] \<Rightarrow>
          grp \<in> set [''pr'', ''issue'', ''release'', ''run'', ''workflow'', ''repo'', ''gist'']
            \<and> sub \<in> set [''view'', ''list'', ''status'', ''checks'', ''diff'']
          \<or> grp = ''auth'' \<and> sub = ''status''
      | [tok] \<Rightarrow> tok = ''status''
      | _ \<Rightarrow> False)"

definition FIND_ACTIONS :: "string list" where
  "FIND_ACTIONS =
     [''-delete'', ''-exec'', ''-execdir'', ''-ok'', ''-okdir'', ''-fprint'', ''-fprint0'', ''-fprintf'', ''-fls'']"

definition find_is_read_only :: "argv \<Rightarrow> bool" where
  "find_is_read_only words \<longleftrightarrow> \<not> list_ex (\<lambda>w. w \<in> set FIND_ACTIONS) words"

definition is_lone_wrapper :: "argv \<Rightarrow> bool" where
  "is_lone_wrapper words \<longleftrightarrow> length words = 1 \<and> is_wrapper_command words"

definition tree_writes_output :: "argv \<Rightarrow> bool" where
  "tree_writes_output inner \<longleftrightarrow>
     list_ex (\<lambda>w. starts_with w ''-'' \<and> \<not> starts_with w ''--'' \<and> has_char w CHR ''o''
        \<or> starts_with w ''--output'') inner"

subsection \<open>Package managers\<close>

definition NPM_SAFE_SUBCOMMANDS :: "string list" where
  "NPM_SAFE_SUBCOMMANDS =
     [''install'', ''i'', ''ci'', ''add'', ''remove'', ''rm'', ''uninstall'', ''update'', ''up'', ''upgrade'', ''test'',
      ''t'', ''run'', ''run-script'', ''start'', ''build'', ''audit'', ''list'', ''ls'', ''ll'', ''outdated'', ''why'',
      ''view'', ''info'', ''dedupe'', ''prune'', ''version'', ''pack'', ''config'', ''link'', ''unlink'', ''rebuild'',
      ''store'', ''fetch'', ''import'']"

definition UV_SAFE_SUBCOMMANDS :: "string list" where
  "UV_SAFE_SUBCOMMANDS =
     [''sync'', ''pip'', ''lock'', ''venv'', ''add'', ''remove'', ''tree'', ''export'', ''build'', ''version'',
      ''python'', ''cache'', ''init'', ''self'', ''help'']"

definition RUSTUP_SAFE_SUBCOMMANDS :: "string list" where
  "RUSTUP_SAFE_SUBCOMMANDS =
     [''show'', ''toolchain'', ''component'', ''target'', ''default'', ''update'', ''which'', ''doc'', ''self'',
      ''completions'', ''set'', ''override'']"

definition PACKAGE_MANAGERS :: "string list" where
  "PACKAGE_MANAGERS = [''uv'', ''uvx'', ''npm'', ''npx'', ''pnpm'', ''yarn'', ''rustup'']"

definition npm_like :: "string \<Rightarrow> bool" where
  "npm_like head \<longleftrightarrow> head \<in> set [''npm'', ''pnpm'', ''yarn'']"

definition launcher_subcommand :: "string \<Rightarrow> argv \<Rightarrow> string option" where
  "launcher_subcommand head inner =
     map_option (\<lambda>sub.
       if npm_like head \<and> sub = ''x'' then ''exec''
       else if npm_like head \<and> sub = ''innit'' then ''init''
       else sub) (get inner 1)"

definition is_remote_launcher :: "string \<Rightarrow> argv \<Rightarrow> bool" where
  "is_remote_launcher head inner =
     (if head = ''npx'' \<or> head = ''uvx'' then True
      else if head = ''uv'' \<and> get inner 1 = Some ''tool'' \<and> get inner 2 = Some ''run'' then True
      else case launcher_subcommand head inner of
          None \<Rightarrow> False
        | Some sub \<Rightarrow>
            npm_like head
            \<and> (sub \<in> set [''dlx'', ''create'', ''explore'']
               \<or> sub = ''init'' \<and> (case get inner 2 of Some a \<Rightarrow> \<not> starts_with a ''-'' | None \<Rightarrow> False)))"

datatype launch_target = NotLauncher | InnerCommand argv | Unresolved

text \<open>Where the launched command starts, with \<open>Inl\<close> for a shape that decides at once.\<close>

definition launch_start :: "string \<Rightarrow> string \<Rightarrow> argv \<Rightarrow> launch_target + nat" where
  "launch_start head sub inner =
     (if head = ''uv'' \<and> sub = ''run'' then Inr 2
      else if head = ''rustup'' \<and> sub = ''run'' then
        (case get inner 2 of
           Some toolchain \<Rightarrow> if \<not> starts_with toolchain ''-'' then Inr 3 else Inl Unresolved
         | None \<Rightarrow> Inl Unresolved)
      else if npm_like head \<and> sub = ''exec'' then
        (if get inner 2 = Some ''--'' then Inr 3 else Inr 2)
      else Inl NotLauncher)"

definition explicit_launch_target :: "string \<Rightarrow> argv \<Rightarrow> launch_target" where
  "explicit_launch_target head inner =
     (case launcher_subcommand head inner of
        None \<Rightarrow> NotLauncher
      | Some sub \<Rightarrow>
          (case launch_start head sub inner of
             Inl target \<Rightarrow> target
           | Inr start \<Rightarrow>
               (case get inner start of
                  Some tok \<Rightarrow> if \<not> starts_with tok ''-'' then InnerCommand (drop start inner) else Unresolved
                | None \<Rightarrow> Unresolved)))"

definition launched_writes_nonsink :: "argv \<Rightarrow> bool" where
  "launched_writes_nonsink words \<longleftrightarrow> list_ex (\<lambda>p. \<not> is_safe_write_sink p) (command_words_write_paths words)"

definition safe_manager_subcommand :: "string \<Rightarrow> argv \<Rightarrow> bool" where
  "safe_manager_subcommand prog inner =
     (case launcher_subcommand prog inner of
        None \<Rightarrow> False
      | Some s \<Rightarrow>
          if npm_like prog then s \<in> set NPM_SAFE_SUBCOMMANDS
          else if prog = ''uv'' then s \<in> set UV_SAFE_SUBCOMMANDS
          else if prog = ''rustup'' then s \<in> set RUSTUP_SAFE_SUBCOMMANDS
          else False)"

text \<open>The verdict on a command that is not a package manager.\<close>

definition plain_command_is_routine :: "string \<Rightarrow> argv \<Rightarrow> bool" where
  "plain_command_is_routine head inner =
     (if head = ''find'' then find_is_read_only inner
      else if head = ''git'' then git_words_are_routine inner
      else if head = ''tree'' \<and> tree_writes_output inner then False
      else if rg_has_unsafe_flag inner then False
      else if head = ''kubectl'' \<and> list_ex (\<lambda>w. flag_name w \<in> set KUBECTL_UNSAFE_FLAGS) (drop 1 inner) then False
      else if head = ''gh'' then gh_subcommand_is_read_only inner
      else matches_routine_prefix inner)"

definition command_head :: "argv \<Rightarrow> string" where
  "command_head inner = to_ascii_lowercase (base_name (hd inner))"

lemma launched_shorter:
  assumes "explicit_launch_target head inner = InnerCommand launched" and "inner \<noteq> []"
  shows "length launched < length inner"
  using assms
  by (auto simp: explicit_launch_target_def launch_start_def split: option.splits sum.splits if_splits)

function bash_command_is_routine :: "argv \<Rightarrow> bool" where
  "bash_command_is_routine words =
     (let inner = unwrap_wrappers words in
      if inner = [] \<or> is_lone_wrapper inner then True
      else let head = command_head inner in
        if head \<notin> set PACKAGE_MANAGERS then plain_command_is_routine head inner
        else if is_remote_launcher head inner then False
        else case explicit_launch_target head inner of
            Unresolved \<Rightarrow> False
          | InnerCommand launched \<Rightarrow>
              command_env_risk launched = EnvSafe \<and> \<not> launched_writes_nonsink launched
              \<and> bash_command_is_routine launched
          | NotLauncher \<Rightarrow> safe_manager_subcommand head inner)"
  by pat_completeness auto
termination
proof (relation "measure length")
  fix words inner head launched
  assume "inner = unwrap_wrappers words" "\<not> (inner = [] \<or> is_lone_wrapper inner)"
    "explicit_launch_target head inner = InnerCommand launched"
  then show "(launched, words) \<in> measure length"
    using launched_shorter[of head inner launched] suffix_length_le[OF unwrap_wrappers_suffix[of words]]
    by auto
qed simp

declare bash_command_is_routine.simps [simp del]

definition classify_bash :: "parser \<Rightarrow> string \<Rightarrow> bool" where
  "classify_bash parse cmd =
     (case parse cmd of
        None \<Rightarrow> False
      | Some tree \<Rightarrow>
          (case try_parse_word_only_commands_sequence tree cmd of
             None \<Rightarrow> False
           | Some cmds \<Rightarrow>
               if script_env_risk tree cmd cmds \<noteq> EnvSafe then False
               else if list_ex (\<lambda>p. \<not> is_safe_write_sink p) (command_write_paths_in_tree tree cmd) then False
               else cmds \<noteq> [] \<and> list_all (\<lambda>c. bash_command_is_routine (pc_words c)) cmds))"

subsection \<open>What a routine script can run\<close>

text \<open>\<open>launches ws us\<close>: the command \<open>ws\<close>, peeled of its wrappers, is a package manager that runs \<open>us\<close>.\<close>

definition launches :: "argv \<Rightarrow> argv \<Rightarrow> bool" where
  "launches ws us \<longleftrightarrow>
     (let inner = unwrap_wrappers ws in
      inner \<noteq> [] \<and> \<not> is_lone_wrapper inner \<and> command_head inner \<in> set PACKAGE_MANAGERS
      \<and> explicit_launch_target (command_head inner) inner = InnerCommand us)"

text \<open>The programs of routine commands: the first words of the built-in prefixes, and the heads that
  have a check of their own.\<close>

definition routine_programs :: "string list" where
  "routine_programs = map (takeWhile (\<lambda>c. c \<noteq> CHR '' '')) (map trim ROUTINE_PREFIXES)"

definition checked_programs :: "string list" where
  "checked_programs = [''find'', ''git'', ''gh'', ''npm'', ''pnpm'', ''yarn'', ''uv'', ''rustup'']"

definition routine_program :: "argv \<Rightarrow> bool" where
  "routine_program inner \<longleftrightarrow>
     takeWhile (\<lambda>c. c \<noteq> CHR '' '') (to_ascii_lowercase (join '' '' inner)) \<in> set routine_programs
     \<or> command_head inner \<in> set checked_programs"

text \<open>What holds of a command that is found routine, seen at one level of launching.\<close>

definition routine_shape :: "argv \<Rightarrow> bool" where
  "routine_shape ws \<longleftrightarrow>
     (let inner = unwrap_wrappers ws in
      inner = [] \<or> is_lone_wrapper inner
      \<or> routine_program inner \<and> \<not> is_remote_launcher (command_head inner) inner
        \<and> (command_head inner = ''git'' \<longrightarrow> hd inner = ''git'' \<and>
             (git_words_are_read_only_query inner
              \<or> get inner 1 \<in> Some ` {''add'', ''commit'', ''pull'', ''fetch'', ''worktree'', ''checkout'', ''switch'', ''stash''}))
        \<and> (command_head inner = ''find'' \<longrightarrow> set inner \<inter> set FIND_ACTIONS = {}))"

lemma prefix_program:
  assumes "matches_routine_prefix inner"
  shows "takeWhile (\<lambda>c. c \<noteq> CHR '' '') (to_ascii_lowercase (join '' '' inner)) \<in> set routine_programs"
proof -
  let ?w = "takeWhile (\<lambda>c. c \<noteq> CHR '' '')" and ?j = "to_ascii_lowercase (join '' '' inner)"
  from assms obtain p where p: "p \<in> set ROUTINE_PREFIXES"
    "?j = trim p \<or> starts_with ?j (trim p) \<and> starts_with (drop (length (trim p)) ?j) '' ''"
    by (auto simp: matches_routine_prefix_def list_ex_iff Let_def)
  have "?w ?j = ?w (trim p)"
    using p(2)
  proof
    assume "starts_with ?j (trim p) \<and> starts_with (drop (length (trim p)) ?j) '' ''"
    then obtain r where "?j = trim p @ CHR '' '' # r" by (auto simp: starts_with_iff)
    then show ?thesis by (simp add: takeWhile_tail)
  qed simp
  with p(1) show ?thesis by (auto simp: routine_programs_def)
qed

lemma plain_routine_shape:
  assumes "plain_command_is_routine (command_head inner) inner" and "command_head inner \<notin> set PACKAGE_MANAGERS"
  shows "routine_program inner \<and> \<not> is_remote_launcher (command_head inner) inner"
proof
  show "routine_program inner"
    using assms(1) prefix_program[of inner]
    by (auto simp: plain_command_is_routine_def routine_program_def checked_programs_def split: if_splits)
  show "\<not> is_remote_launcher (command_head inner) inner"
    using assms(2) by (auto simp: is_remote_launcher_def PACKAGE_MANAGERS_def npm_like_def split: option.splits)
qed

lemma git_routine_verbs:
  "git_words_are_routine inner \<Longrightarrow> hd inner = ''git'' \<and>
     (git_words_are_read_only_query inner
      \<or> get inner 1 \<in> Some ` {''add'', ''commit'', ''pull'', ''fetch'', ''worktree'', ''checkout'', ''switch'', ''stash''})"
  by (cases inner) (auto simp: git_words_are_routine_def split: if_splits option.splits)

lemma routine_has_shape:
  assumes "bash_command_is_routine ws"
  shows "routine_shape ws"
proof -
  let ?i = "unwrap_wrappers ws"
  consider (trivial) "?i = [] \<or> is_lone_wrapper ?i"
    | (plain) "command_head ?i \<notin> set PACKAGE_MANAGERS" "plain_command_is_routine (command_head ?i) ?i"
    | (manager) "command_head ?i \<in> set PACKAGE_MANAGERS" "\<not> is_remote_launcher (command_head ?i) ?i"
    using assms bash_command_is_routine.simps[of ws] by (auto simp: Let_def split: if_splits)
  then show ?thesis
  proof cases
    case trivial
    then show ?thesis by (auto simp: routine_shape_def Let_def)
  next
    case plain
    then show ?thesis
      using plain_routine_shape[of ?i] git_routine_verbs[of ?i]
      by (auto simp: routine_shape_def Let_def plain_command_is_routine_def find_is_read_only_def list_ex_iff
          split: if_splits)
  next
    case manager
    then have "command_head ?i \<in> set checked_programs - {''find'', ''git''}"
      by (auto simp: PACKAGE_MANAGERS_def checked_programs_def is_remote_launcher_def)
    with manager show ?thesis by (auto simp: routine_shape_def Let_def routine_program_def)
  qed
qed

lemma launched_routine:
  assumes "bash_command_is_routine ws" and "launches ws us"
  shows "bash_command_is_routine us \<and> command_env_risk us = EnvSafe
    \<and> \<not> launched_writes_nonsink us"
  using assms bash_command_is_routine.simps[of ws]
  by (auto simp: launches_def Let_def split: if_splits)

lemma launch_chain:
  assumes "launches\<^sup>*\<^sup>* ws us" and "bash_command_is_routine ws"
  shows "bash_command_is_routine us \<and> (us \<noteq> ws \<longrightarrow> command_env_risk us = EnvSafe \<and> \<not> launched_writes_nonsink us)"
  using assms
proof (induction rule: rtranclp_induct)
  case (step x y)
  with launched_routine[of x y] show ?case by blast
qed simp

text \<open>The rule-based verdict lets a script through only if all of it is plain commands, none of its
  assignments touches the environment, no redirect or operand writes outside the safe sinks, and every command,
  however deep package managers launch it, is one of the known development programs, is not fetched
  and run from a registry, runs git only to query or to add work, and runs no action of find; a
  launched command, besides, sets no environment and writes nothing of its own.\<close>

theorem routine_script_sound:
  assumes "classify_bash parse cmd"
  shows "\<exists>tree cmds. parse cmd = Some tree
    \<and> try_parse_word_only_commands_sequence tree cmd = Some cmds \<and> cmds \<noteq> []
    \<and> script_env_risk tree cmd cmds = EnvSafe
    \<and> list_all is_safe_write_sink (command_write_paths_in_tree tree cmd)
    \<and> list_all (\<lambda>c. \<forall>us. launches\<^sup>*\<^sup>* (pc_words c) us \<longrightarrow> routine_shape us
         \<and> (us \<noteq> pc_words c \<longrightarrow> command_env_risk us = EnvSafe \<and> \<not> launched_writes_nonsink us)) cmds"
proof -
  from assms obtain tree cmds where t: "parse cmd = Some tree"
    "try_parse_word_only_commands_sequence tree cmd = Some cmds"
    "script_env_risk tree cmd cmds = EnvSafe"
    "list_all is_safe_write_sink (command_write_paths_in_tree tree cmd)" "cmds \<noteq> []"
    "list_all (\<lambda>c. bash_command_is_routine (pc_words c)) cmds"
    by (auto simp: classify_bash_def list_ex_iff list_all_iff split: option.splits if_splits)
  then show ?thesis
    using launch_chain routine_has_shape by (fastforce simp: list_all_iff)
qed

text \<open>A script whose second command is launched twice over.\<close>

lemma demo_launches: "launches\<^sup>*\<^sup>* [''uv'', ''run'', ''npm'', ''x'', ''cargo'', ''test''] [''cargo'', ''test'']"
proof -
  have "launches [''uv'', ''run'', ''npm'', ''x'', ''cargo'', ''test''] [''npm'', ''x'', ''cargo'', ''test'']" by code_simp
  moreover have "launches [''npm'', ''x'', ''cargo'', ''test''] [''cargo'', ''test'']" by code_simp
  ultimately show ?thesis by (meson converse_rtranclp_into_rtranclp rtranclp.rtrancl_refl)
qed

lemma routine_script_sound_witness:
  "\<exists>c :: plain_command. pc_words c = [''uv'', ''run'', ''npm'', ''x'', ''cargo'', ''test'']
     \<and> launches\<^sup>*\<^sup>* (pc_words c) [''cargo'', ''test''] \<and> routine_shape [''cargo'', ''test'']"
proof -
  let ?cmd = "''git status && uv run npm x cargo test''"
  have "classify_bash demo_parse ?cmd" by code_simp
  from routine_script_sound[OF this] obtain tree cmds where
    t: "demo_parse ?cmd = Some tree" "try_parse_word_only_commands_sequence tree ?cmd = Some cmds"
    and all: "list_all (\<lambda>c. \<forall>us. launches\<^sup>*\<^sup>* (pc_words c) us \<longrightarrow> routine_shape us
         \<and> (us \<noteq> pc_words c \<longrightarrow> command_env_risk us = EnvSafe \<and> \<not> launched_writes_nonsink us)) cmds"
    by blast
  have "map_option (map pc_words) (all_commands_from_script demo_parse ?cmd)
      = Some [[''git'', ''status''], [''uv'', ''run'', ''npm'', ''x'', ''cargo'', ''test'']]" by code_simp
  with t have "map pc_words cmds = [[''git'', ''status''], [''uv'', ''run'', ''npm'', ''x'', ''cargo'', ''test'']]"
    by (simp add: all_commands_from_script_def)
  then have "[''uv'', ''run'', ''npm'', ''x'', ''cargo'', ''test''] \<in> set (map pc_words cmds)" by simp
  then obtain c where "[''uv'', ''run'', ''npm'', ''x'', ''cargo'', ''test''] = pc_words c" "c \<in> set cmds"
    unfolding set_map by (rule imageE)
  note c = this(1)[symmetric] this(2)
  with all have "\<forall>us. launches\<^sup>*\<^sup>* (pc_words c) us \<longrightarrow> routine_shape us" by (simp add: list_all_iff)
  from this[rule_format, OF demo_launches[folded c(1)]] demo_launches[folded c(1)] c(1) show ?thesis
    by (intro exI[of _ c] conjI)
qed

text \<open>
  Observed: the words of a command are joined before the prefixes are compared, so a quoted program
  path that starts with a routine prefix and a space is taken for that program.
\<close>

lemma quoted_program_is_misread:
  "bash_command_is_routine [''cat x/../../bin/rm'', ''-r'', ''y''] \<and> command_head [''cat x/../../bin/rm'', ''-r'', ''y''] = ''rm''"
  by code_simp

end
