(* ===== verification/Findings.thy ===== *)
theory Findings
  imports Prelude
begin

text \<open>
  The security findings of the built-in Bash analysis (\<open>permission/auto_mode/security_findings.rs\<close>): a
  fixed enumeration with a canonical order, and the assessment of a request as a set of them.
\<close>

datatype security_finding =
  FailClosedPolicy | UnparseableShell | OpaqueShell | ExecOrAmbientGit | EnvInjectionFinding
  | UnvettedEnv | FileWrite | DangerousCommand | SpecialExecSurface

definition ALL_FINDINGS :: "security_finding list" where
  "ALL_FINDINGS =
     [FailClosedPolicy, UnparseableShell, OpaqueShell, ExecOrAmbientGit, EnvInjectionFinding,
      UnvettedEnv, FileWrite, DangerousCommand, SpecialExecSurface]"

fun token :: "security_finding \<Rightarrow> string" where
  "token FailClosedPolicy = ''fail_closed_policy''"
| "token UnparseableShell = ''unparseable_shell''"
| "token OpaqueShell = ''opaque_shell''"
| "token ExecOrAmbientGit = ''exec_or_ambient_git''"
| "token EnvInjectionFinding = ''env_injection''"
| "token UnvettedEnv = ''unvetted_env''"
| "token FileWrite = ''file_write''"
| "token DangerousCommand = ''dangerous_command''"
| "token SpecialExecSurface = ''special_exec_surface''"

fun is_grant_floor :: "security_finding \<Rightarrow> bool" where
  "is_grant_floor FileWrite = True"
| "is_grant_floor UnvettedEnv = True"
| "is_grant_floor EnvInjectionFinding = True"
| "is_grant_floor OpaqueShell = True"
| "is_grant_floor ExecOrAmbientGit = True"
| "is_grant_floor SpecialExecSurface = True"
| "is_grant_floor _ = False"

text \<open>The derived \<open>Ord\<close>: the position in the declaration.\<close>

fun finding_index :: "security_finding \<Rightarrow> nat" where
  "finding_index FailClosedPolicy = 0"
| "finding_index UnparseableShell = 1"
| "finding_index OpaqueShell = 2"
| "finding_index ExecOrAmbientGit = 3"
| "finding_index EnvInjectionFinding = 4"
| "finding_index UnvettedEnv = 5"
| "finding_index FileWrite = 6"
| "finding_index DangerousCommand = 7"
| "finding_index SpecialExecSurface = 8"

lemma finding_index_inj: "finding_index a = finding_index b \<Longrightarrow> a = b"
  by (cases a; cases b) simp_all

instantiation security_finding :: linorder
begin

definition less_eq_security_finding :: "security_finding \<Rightarrow> security_finding \<Rightarrow> bool" where
  "less_eq_security_finding a b \<longleftrightarrow> finding_index a \<le> finding_index b"

definition less_security_finding :: "security_finding \<Rightarrow> security_finding \<Rightarrow> bool" where
  "less_security_finding a b \<longleftrightarrow> finding_index a < finding_index b"

instance
  by standard (auto simp: less_eq_security_finding_def less_security_finding_def finding_index_inj)

end

text \<open>An assessment is a \<open>BTreeSet\<close> of findings.\<close>

type_synonym assessment = "security_finding set"

definition constrains_broad_grant :: "assessment \<Rightarrow> bool" where
  "constrains_broad_grant a \<longleftrightarrow> (\<exists>f \<in> a. is_grant_floor f)"

definition is_file_write_only :: "assessment \<Rightarrow> bool" where
  "is_file_write_only a \<longleftrightarrow> card a = 1 \<and> FileWrite \<in> a"

definition tokens :: "assessment \<Rightarrow> string list" where
  "tokens a = map token (sorted_list_of_set a)"

lemma sorted_ALL_FINDINGS: "sorted ALL_FINDINGS \<and> distinct ALL_FINDINGS \<and> set ALL_FINDINGS = UNIV"
proof -
  have "x \<in> set ALL_FINDINGS" for x by (cases x) (simp_all add: ALL_FINDINGS_def)
  then show ?thesis by (auto simp: ALL_FINDINGS_def less_eq_security_finding_def)
qed

lemma finite_findings [simp]: "finite (a :: assessment)"
  using sorted_ALL_FINDINGS finite_set by (metis rev_finite_subset subset_UNIV)

text \<open>An assessment renders canonically: its tokens are those of its findings in the declared
  order, each once, whatever the order and repetition in which the analysis inserted them, and
  two different assessments never render alike.\<close>

theorem tokens_canonical:
  "tokens (set fs) = map token (filter (\<lambda>f. f \<in> set fs) ALL_FINDINGS)
   \<and> (tokens (set fs) = tokens (set gs) \<longleftrightarrow> set fs = set gs)"
proof -
  have e: "tokens a = map token (filter (\<lambda>f. f \<in> a) ALL_FINDINGS)" for a :: assessment
  proof -
    have "sorted_list_of_set a = filter (\<lambda>f. f \<in> a) ALL_FINDINGS"
    proof (rule sorted_distinct_set_unique)
      show "sorted (filter (\<lambda>f. f \<in> a) ALL_FINDINGS)" "distinct (filter (\<lambda>f. f \<in> a) ALL_FINDINGS)"
        using sorted_ALL_FINDINGS by (simp_all add: sorted_wrt_filter)
      show "set (sorted_list_of_set a) = set (filter (\<lambda>f. f \<in> a) ALL_FINDINGS)"
        using sorted_ALL_FINDINGS by simp
    qed simp_all
    then show ?thesis by (simp add: tokens_def)
  qed
  have inj: "inj token"
  proof
    fix x y show "token x = token y \<Longrightarrow> x = y" by (cases x; cases y) simp_all
  qed
  have "set (tokens a) = token ` a" for a :: assessment
    using sorted_ALL_FINDINGS by (auto simp: e)
  then have "tokens a = tokens b \<longleftrightarrow> a = b" for a b :: assessment
    using inj by (metis inj_image_eq_iff)
  with e show ?thesis by blast
qed

end
