(* ===== verification/Tool_Grants.thy ===== *)
theory Tool_Grants
  imports Host Findings Pattern_Match
begin

text \<open>
  The persisted grants and denies of a project (\<open>permission/state.rs\<close>), their merge, loading with the
  legacy fallback, and the decisions that rest on them alone: MCP tools and web fetches.

  A \<open>HashSet\<close> is the list of its elements in iteration order, without repetition; inserting an
  element it has changes nothing.  What depends on that order is only which of several matching
  entries a message names.

  Remembered grants and denies for MCP tools and web fetches (\<open>permission/manager/mod.rs\<close>), with the
  qualified tool names of \<open>xai-grok-mcp\<close> and the domain allowlist of the web fetch tool.
\<close>

section \<open>Perm state\<close>

definition set_insert :: "'a \<Rightarrow> 'a list \<Rightarrow> 'a list" where
  "set_insert x xs = (if x \<in> set xs then xs else x # xs)"

definition set_extend :: "'a list \<Rightarrow> 'a list \<Rightarrow> 'a list" where
  "set_extend xs ys = foldl (\<lambda>acc y. set_insert y acc) xs ys"

lemma set_set_insert [simp]: "set (set_insert x xs) = insert x (set xs)"
  by (auto simp: set_insert_def)

lemma set_set_extend [simp]: "set (set_extend xs ys) = set xs \<union> set ys"
  unfolding set_extend_def by (induction ys arbitrary: xs) auto

lemma distinct_set_insert: "distinct xs \<Longrightarrow> distinct (set_insert x xs)"
  by (simp add: set_insert_def)

lemma distinct_set_extend: "distinct xs \<Longrightarrow> distinct (set_extend xs ys)"
  unfolding set_extend_def by (induction ys arbitrary: xs) (simp_all add: distinct_set_insert)

definition VALIDATED_MCP_SERVER_GRANTS_VERSION :: int where
  "VALIDATED_MCP_SERVER_GRANTS_VERSION = 1"

record permission_state =
  ps_edit_policy :: edit_policy
  ps_allow_bash_execute :: bool
  ps_allowed_bash_commands :: "string list"
  ps_disallowed_bash_commands :: "string list"
  ps_allowed_bash_globs :: "string list"
  ps_allowed_web_fetch_domains :: "string list"
  ps_allowed_mcp_tools :: "string list"
  ps_allowed_mcp_servers :: "string list"
  ps_disallowed_mcp_tools :: "string list"
  ps_disallowed_web_fetch_domains :: "string list"
  ps_grants_version :: int

text \<open>\<open>EditPolicy::default()\<close> is \<open>Ask\<close>.\<close>

definition permission_state_default :: permission_state where
  "permission_state_default =
     \<lparr>ps_edit_policy = EditAsk, ps_allow_bash_execute = False, ps_allowed_bash_commands = [],
      ps_disallowed_bash_commands = [], ps_allowed_bash_globs = [], ps_allowed_web_fetch_domains = [],
      ps_allowed_mcp_tools = [], ps_allowed_mcp_servers = [], ps_disallowed_mcp_tools = [],
      ps_disallowed_web_fetch_domains = [],
      ps_grants_version = VALIDATED_MCP_SERVER_GRANTS_VERSION\<rparr>"

definition deserialize_grants_version :: "int option \<Rightarrow> int" where
  "deserialize_grants_version v = (case v of Some n \<Rightarrow> if 0 \<le> n then n else 0 | None \<Rightarrow> 0)"

definition merge_grants_from :: "permission_state \<Rightarrow> permission_state \<Rightarrow> permission_state" where
  "merge_grants_from s other =
     s\<lparr>ps_allow_bash_execute := ps_allow_bash_execute s \<or> ps_allow_bash_execute other,
       ps_allowed_bash_commands := set_extend (ps_allowed_bash_commands s) (ps_allowed_bash_commands other),
       ps_disallowed_bash_commands :=
         set_extend (ps_disallowed_bash_commands s) (ps_disallowed_bash_commands other),
       ps_allowed_bash_globs := set_extend (ps_allowed_bash_globs s) (ps_allowed_bash_globs other),
       ps_allowed_web_fetch_domains :=
         set_extend (ps_allowed_web_fetch_domains s) (ps_allowed_web_fetch_domains other),
       ps_allowed_mcp_tools := set_extend (ps_allowed_mcp_tools s) (ps_allowed_mcp_tools other),
       ps_allowed_mcp_servers := set_extend (ps_allowed_mcp_servers s) (ps_allowed_mcp_servers other),
       ps_disallowed_mcp_tools := set_extend (ps_disallowed_mcp_tools s) (ps_disallowed_mcp_tools other),
       ps_disallowed_web_fetch_domains :=
         set_extend (ps_disallowed_web_fetch_domains s) (ps_disallowed_web_fetch_domains other)\<rparr>"

subsection \<open>The store\<close>

text \<open>
  A directory of the store maps file names to their content.  Reading a file finds a state, as
  \<open>toml\<close> parses it (an unparsable file is the default state), finds no file, or fails.
\<close>

datatype store_file = StoreState permission_state | StoreMissing | StoreError

type_synonym store = "string \<Rightarrow> store_file"

definition sanitize_client_id :: "string \<Rightarrow> string" where
  "sanitize_client_id i =
     map (\<lambda>c. if is_ascii_alphanumeric c \<or> c = CHR ''-'' \<or> c = CHR ''_'' then c else CHR ''_'') i"

definition state_file_name :: "string option \<Rightarrow> string" where
  "state_file_name client =
     (case client of
        Some i \<Rightarrow> ''permission_'' @ sanitize_client_id i @ ''.toml''
      | None \<Rightarrow> ''permission.toml'')"

text \<open>Loading invalidates server grants older than the validated version.\<close>

definition invalidate_legacy :: "permission_state \<Rightarrow> permission_state" where
  "invalidate_legacy s =
     (if ps_grants_version s < VALIDATED_MCP_SERVER_GRANTS_VERSION
      then s\<lparr>ps_allowed_mcp_servers := [], ps_grants_version := VALIDATED_MCP_SERVER_GRANTS_VERSION\<rparr>
      else s)"

definition try_load_state :: "store \<Rightarrow> string \<Rightarrow> permission_state option" where
  "try_load_state st name =
     (case st name of StoreState s \<Rightarrow> Some (invalidate_legacy s) | _ \<Rightarrow> None)"

definition load_state_from_dir :: "store \<Rightarrow> string option \<Rightarrow> permission_state" where
  "load_state_from_dir st client =
     (case (case client of Some _ \<Rightarrow> try_load_state st (state_file_name client) | None \<Rightarrow> None) of
        Some s \<Rightarrow> s
      | None \<Rightarrow>
          (case try_load_state st (state_file_name None) of
             Some s \<Rightarrow> s | None \<Rightarrow> permission_state_default))"

definition state_dir_has_store :: "store \<Rightarrow> string option \<Rightarrow> bool" where
  "state_dir_has_store st client \<longleftrightarrow>
     client \<noteq> None \<and> st (state_file_name client) \<noteq> StoreMissing \<or> st (state_file_name None) \<noteq> StoreMissing"

definition load_state_with_fallback :: "store \<Rightarrow> store option \<Rightarrow> string option \<Rightarrow> permission_state" where
  "load_state_with_fallback dir legacy client =
     (case legacy of
        Some l \<Rightarrow>
          if \<not> state_dir_has_store dir client then load_state_from_dir l client
          else load_state_from_dir dir client
      | None \<Rightarrow> load_state_from_dir dir client)"

definition persist_state_to_dir :: "store \<Rightarrow> permission_state \<Rightarrow> string option \<Rightarrow> store" where
  "persist_state_to_dir dir s client = dir(state_file_name client := StoreState s)"

definition persist_state_merging_to_dir :: "store \<Rightarrow> permission_state \<Rightarrow> string option \<Rightarrow> store" where
  "persist_state_merging_to_dir dir s client =
     persist_state_to_dir dir
       (case try_load_state dir (state_file_name client) of
          Some on_disk \<Rightarrow> merge_grants_from s on_disk | None \<Rightarrow> s)
       client"

subsection \<open>Properties\<close>

text \<open>\<open>covers s t\<close>: every grant and every deny of \<open>t\<close> is one of \<open>s\<close>.\<close>

definition covers :: "permission_state \<Rightarrow> permission_state \<Rightarrow> bool" where
  "covers s t \<longleftrightarrow>
     (ps_allow_bash_execute t \<longrightarrow> ps_allow_bash_execute s)
     \<and> set (ps_allowed_bash_commands t) \<subseteq> set (ps_allowed_bash_commands s)
     \<and> set (ps_disallowed_bash_commands t) \<subseteq> set (ps_disallowed_bash_commands s)
     \<and> set (ps_allowed_bash_globs t) \<subseteq> set (ps_allowed_bash_globs s)
     \<and> set (ps_allowed_web_fetch_domains t) \<subseteq> set (ps_allowed_web_fetch_domains s)
     \<and> set (ps_allowed_mcp_tools t) \<subseteq> set (ps_allowed_mcp_tools s)
     \<and> set (ps_allowed_mcp_servers t) \<subseteq> set (ps_allowed_mcp_servers s)
     \<and> set (ps_disallowed_mcp_tools t) \<subseteq> set (ps_disallowed_mcp_tools s)
     \<and> set (ps_disallowed_web_fetch_domains t) \<subseteq> set (ps_disallowed_web_fetch_domains s)"

lemma merge_covers: "covers (merge_grants_from s t) s \<and> covers (merge_grants_from s t) t"
  by (simp add: covers_def merge_grants_from_def)

lemma merge_least: "covers u s \<Longrightarrow> covers u t \<Longrightarrow> covers u (merge_grants_from s t)"
  by (auto simp: covers_def merge_grants_from_def)

lemma covers_refl: "covers s s"
  by (simp add: covers_def)

text \<open>A session never erases another session's choices: what it persists is exactly the union of
  its own grants and denies with those on disk (server grants of a pre-validation store apart),
  and loading the file back returns that union.\<close>

theorem persist_merging_keeps_both:
  assumes "ps_grants_version s = VALIDATED_MCP_SERVER_GRANTS_VERSION"
  shows "\<exists>m. try_load_state (persist_state_merging_to_dir dir s client) (state_file_name client) = Some m
    \<and> covers m s
    \<and> (\<forall>d. try_load_state dir (state_file_name client) = Some d \<longrightarrow> covers m d)
    \<and> (\<forall>u. covers u s \<longrightarrow> (\<forall>d. try_load_state dir (state_file_name client) = Some d \<longrightarrow> covers u d) \<longrightarrow>
          covers u m)"
proof -
  let ?m = "case try_load_state dir (state_file_name client) of
      Some on_disk \<Rightarrow> merge_grants_from s on_disk | None \<Rightarrow> s"
  have "ps_grants_version ?m = VALIDATED_MCP_SERVER_GRANTS_VERSION"
    using assms by (simp add: merge_grants_from_def split: option.split)
  then have "try_load_state (persist_state_merging_to_dir dir s client) (state_file_name client) = Some ?m"
    by (simp add: persist_state_merging_to_dir_def persist_state_to_dir_def try_load_state_def invalidate_legacy_def)
  then show ?thesis
    using merge_covers merge_least covers_refl by (auto split: option.split)
qed

definition demo_store :: store where
  "demo_store = (\<lambda>_. StoreMissing)(''permission.toml'' :=
     StoreState (permission_state_default\<lparr>ps_disallowed_bash_commands := [''git push'']\<rparr>))"

definition demo_state :: permission_state where
  "demo_state = permission_state_default\<lparr>ps_allowed_bash_commands := [''ls'']\<rparr>"

lemma persist_merging_keeps_both_witness:
  "\<exists>m. try_load_state (persist_state_merging_to_dir demo_store demo_state None) (state_file_name None) = Some m
     \<and> ''git push'' \<in> set (ps_disallowed_bash_commands m) \<and> ''ls'' \<in> set (ps_allowed_bash_commands m)"
proof -
  let ?d = "permission_state_default\<lparr>ps_disallowed_bash_commands := [''git push'']\<rparr>"
  have v: "ps_grants_version demo_state = VALIDATED_MCP_SERVER_GRANTS_VERSION"
    by (simp add: demo_state_def permission_state_default_def)
  have d: "try_load_state demo_store (state_file_name None) = Some ?d"
    by (simp add: demo_store_def try_load_state_def state_file_name_def invalidate_legacy_def
        permission_state_default_def)
  from persist_merging_keeps_both[OF v, of demo_store None] d obtain m where
    m: "try_load_state (persist_state_merging_to_dir demo_store demo_state None) (state_file_name None) = Some m"
    and c: "covers m demo_state" "covers m ?d" by blast
  have "''git push'' \<in> set (ps_disallowed_bash_commands m)" "''ls'' \<in> set (ps_allowed_bash_commands m)"
    using c by (simp_all add: covers_def demo_state_def)
  with m show ?thesis by blast
qed

text \<open>A reset sticks: once the root store of a project holds a file for the client, the legacy
  store of a subdirectory, whatever it contains, no longer influences what is loaded.\<close>

theorem reset_ends_legacy_fallback:
  "load_state_with_fallback (persist_state_to_dir dir s client) legacy client =
   load_state_from_dir (persist_state_to_dir dir s client) client
   \<and> (ps_grants_version s = VALIDATED_MCP_SERVER_GRANTS_VERSION \<longrightarrow>
      load_state_with_fallback (persist_state_to_dir dir s client) legacy client = s)"
proof -
  have "state_dir_has_store (persist_state_to_dir dir s client) client"
    by (cases client) (simp_all add: state_dir_has_store_def persist_state_to_dir_def)
  then have "load_state_with_fallback (persist_state_to_dir dir s client) legacy client =
      load_state_from_dir (persist_state_to_dir dir s client) client"
    by (simp add: load_state_with_fallback_def split: option.split)
  moreover have "load_state_from_dir (persist_state_to_dir dir s client) client = s"
    if "ps_grants_version s = VALIDATED_MCP_SERVER_GRANTS_VERSION"
    using that
    by (cases client) (simp_all add: load_state_from_dir_def persist_state_to_dir_def try_load_state_def
        invalidate_legacy_def)
  ultimately show ?thesis by simp
qed

lemma reset_ends_legacy_fallback_witness:
  "load_state_with_fallback (persist_state_to_dir (\<lambda>_. StoreMissing) permission_state_default None)
     (Some (\<lambda>_. StoreState (permission_state_default\<lparr>ps_allow_bash_execute := True\<rparr>))) None
   = permission_state_default"
proof -
  have "ps_grants_version permission_state_default = VALIDATED_MCP_SERVER_GRANTS_VERSION"
    by (simp add: permission_state_default_def)
  with reset_ends_legacy_fallback show ?thesis by blast
qed

section \<open>Tool grants\<close>

subsection \<open>Qualified MCP tool names\<close>

definition is_id_char :: "char \<Rightarrow> bool" where
  "is_id_char c \<longleftrightarrow> is_ascii_alphanumeric c \<or> c = CHR ''_'' \<or> c = CHR ''-''"

definition is_valid_segment :: "string \<Rightarrow> bool" where
  "is_valid_segment s \<longleftrightarrow> s \<noteq> [] \<and> list_all is_id_char s"

definition is_well_formed_tool_id :: "string \<Rightarrow> bool" where
  "is_well_formed_tool_id s =
     (case split_on (\<lambda>c. c = CHR '':'') s of
        [a] \<Rightarrow> is_valid_segment a
      | [a, b] \<Rightarrow> is_valid_segment a \<and> is_valid_segment b
      | _ \<Rightarrow> False)"

definition delimiter_at :: "string \<Rightarrow> nat \<Rightarrow> bool" where
  "delimiter_at name i \<longleftrightarrow> starts_with (drop i name) ''__''"

definition boundaries :: "string \<Rightarrow> nat list" where
  "boundaries name = filter (delimiter_at name) [0..<length name]"

definition parse_mcp_qualified_name :: "string \<Rightarrow> (string \<times> string) option" where
  "parse_mcp_qualified_name name =
     (case boundaries name of
        [i] \<Rightarrow>
          (let server = take i name; tool = drop (i + 2) name in
           if server = [] \<or> tool = [] then None
           else if name \<noteq> [] \<and> is_well_formed_tool_id name then Some (server, tool) else None)
      | _ \<Rightarrow> None)"

definition mcp_server_prefix_allowed :: "string \<Rightarrow> string list \<Rightarrow> bool" where
  "mcp_server_prefix_allowed name servers \<longleftrightarrow>
     servers \<noteq> []
     \<and> (case parse_mcp_qualified_name name of Some (server, _) \<Rightarrow> server \<in> set servers | None \<Rightarrow> False)"

definition rejected_message :: "string \<Rightarrow> string" where
  "rejected_message what =
     ''User previously rejected '' @ [CHR 0x60] @ what @ [CHR 0x60] @ '' in this project''"

definition mcp_pre_decision :: "string \<Rightarrow> permission_state \<Rightarrow> bool \<Rightarrow> bool \<Rightarrow> decision option" where
  "mcp_pre_decision name s policy_forced_prompt remember_tool_approvals =
     (if name \<in> set (ps_disallowed_mcp_tools s) then Some (Reject (rejected_message name))
      else if policy_forced_prompt \<and> \<not> remember_tool_approvals then None
      else if name \<in> set (ps_allowed_mcp_tools s) then Some Allow
      else if mcp_server_prefix_allowed name (ps_allowed_mcp_servers s) then Some Allow
      else None)"

subsection \<open>The web fetch allowlist\<close>

datatype host_entry = AnyPath | PathPrefixes "string list"

type_synonym domain_matcher = "string \<Rightarrow> host_entry option"

definition add_prefix :: "string \<Rightarrow> string \<Rightarrow> domain_matcher \<Rightarrow> domain_matcher" where
  "add_prefix hst pfx m =
     m(hst := Some (case m hst of
         Some AnyPath \<Rightarrow> AnyPath
       | Some (PathPrefixes v) \<Rightarrow> PathPrefixes (if pfx \<in> set v then v else v @ [pfx])
       | None \<Rightarrow> PathPrefixes [pfx]))"

definition add_entry :: "host \<Rightarrow> domain_matcher \<Rightarrow> string \<Rightarrow> domain_matcher" where
  "add_entry h m raw =
     (let normalized = normalize_domain h raw in
      if normalized = [] then m
      else case split_once normalized CHR ''/'' of
          None \<Rightarrow> m(normalized := Some AnyPath)
        | Some (hst, rest) \<Rightarrow>
            if m hst = Some AnyPath then m
            else let pfx = trim_end_matches CHR ''/'' (CHR ''/'' # rest) in
              if pfx = [] \<or> pfx = ''/'' then m(hst := Some AnyPath)
              else add_prefix hst (if starts_with pfx ''/'' then pfx else ''/'' @ pfx) m)"

definition domain_matcher_new :: "host \<Rightarrow> string list \<Rightarrow> domain_matcher" where
  "domain_matcher_new h raw_entries = foldl (add_entry h) (\<lambda>_. None) raw_entries"

definition prefix_matches :: "string \<Rightarrow> string \<Rightarrow> bool" where
  "prefix_matches url_path pfx \<longleftrightarrow>
     url_path = pfx \<or> starts_with url_path pfx \<and> get url_path (length pfx) = Some CHR ''/''"

text \<open>\<open>DomainMatcher::check\<close> on a parsed URL: whether the fetch is permitted.\<close>

definition domain_matcher_permits :: "host \<Rightarrow> domain_matcher \<Rightarrow> string \<Rightarrow> bool" where
  "domain_matcher_permits h m url =
     (case h_url_host h url of
        None \<Rightarrow> False
      | Some raw_host \<Rightarrow>
          (case m (normalize_domain h raw_host) of
             Some AnyPath \<Rightarrow> True
           | Some (PathPrefixes pfxs) \<Rightarrow>
               list_ex (prefix_matches (h_lowercase h (h_url_path h url))) pfxs
           | None \<Rightarrow> False))"

subsection \<open>Remembered web fetch denies\<close>

definition web_fetch_deny_key :: "host \<Rightarrow> string \<Rightarrow> string" where
  "web_fetch_deny_key h hst = h_lowercase h (trim_end_matches CHR ''.'' (trim hst))"

definition web_fetch_deny_key_from_url :: "host \<Rightarrow> string \<Rightarrow> string option" where
  "web_fetch_deny_key_from_url h url =
     (case h_url_host h url of
        None \<Rightarrow> None
      | Some hst \<Rightarrow> let key = web_fetch_deny_key h hst in if key = [] then None else Some key)"

definition deny_entry_matches :: "string \<Rightarrow> string \<Rightarrow> bool" where
  "deny_entry_matches domain denied \<longleftrightarrow>
     denied \<noteq> []
     \<and> (domain = denied
        \<or> length domain > length denied + 1 \<and> ends_with domain denied
          \<and> domain ! (length domain - length denied - 1) = CHR ''.'')"

definition denied_web_fetch_domain :: "host \<Rightarrow> string \<Rightarrow> string list \<Rightarrow> string option" where
  "denied_web_fetch_domain h hst disallowed =
     (if disallowed = [] then None
      else find (deny_entry_matches (web_fetch_deny_key h hst)) disallowed)"

definition web_fetch_deny_pre_decision :: "host \<Rightarrow> string \<Rightarrow> permission_state \<Rightarrow> decision option" where
  "web_fetch_deny_pre_decision h url s =
     Option.bind (h_url_host h url) (\<lambda>hst.
       map_option (\<lambda>denied. Reject (rejected_message denied))
         (denied_web_fetch_domain h hst (ps_disallowed_web_fetch_domains s)))"

subsection \<open>Laws\<close>

text \<open>A deny covers its host and the subdomains of it, and nothing else.\<close>

lemma deny_entry_matches_iff:
  "deny_entry_matches domain denied \<longleftrightarrow>
     denied \<noteq> [] \<and> (domain = denied \<or> (\<exists>sub. sub \<noteq> [] \<and> domain = sub @ ''.'' @ denied))"
proof -
  have "length domain > length denied + 1 \<and> ends_with domain denied
      \<and> domain ! (length domain - length denied - 1) = CHR ''.'' \<longleftrightarrow>
      (\<exists>sub. sub \<noteq> [] \<and> domain = sub @ ''.'' @ denied)" (is "?l \<longleftrightarrow> ?r")
  proof
    assume l: ?l
    then obtain r where r: "domain = r @ denied" by (auto simp: ends_with_iff)
    with l have "1 < length r" and last: "r ! (length r - 1) = CHR ''.''"
      by (auto simp: nth_append split: if_splits)
    then have "r = butlast r @ ''.''" by (metis append_butlast_last_id last_conv_nth length_0_conv not_less_zero)
    moreover have "butlast r \<noteq> []" using \<open>1 < length r\<close> by (cases r) auto
    ultimately show ?r using r by (metis append.assoc)
  next
    assume ?r
    then obtain sub where s: "sub \<noteq> []" "domain = sub @ ''.'' @ denied" by blast
    then have "ends_with domain denied" unfolding ends_with_iff by (metis append.assoc)
    with s show ?l by (simp add: nth_append)
  qed
  then show ?thesis by (simp add: deny_entry_matches_def)
qed

lemma split_on_no_match: "list_all (\<lambda>c. \<not> p c) s \<Longrightarrow> split_on p s = [s]"
  by (induction s) simp_all

lemma id_char_facts: "is_id_char c \<Longrightarrow> c \<noteq> CHR '':''"
  by (auto simp: is_id_char_def is_ascii_alphanumeric_def is_ascii_digit_def is_ascii_alphabetic_def byte_def)

text \<open>Qualified tool names are unambiguous: a name parses exactly when it is a server and a tool
  joined by the only \<open>__\<close> in it (overlaps counted) with both sides non-empty and the whole a
  well-formed tool identifier, so a server-wide grant can only match tools of that very server.\<close>

theorem mcp_name_parse_spec:
  "parse_mcp_qualified_name name = Some (server, tool) \<longleftrightarrow>
     name = server @ ''__'' @ tool \<and> server \<noteq> [] \<and> tool \<noteq> [] \<and> is_well_formed_tool_id name
     \<and> (\<forall>i. delimiter_at name i \<longrightarrow> i = length server)"
proof -
  have lt: "delimiter_at name i \<Longrightarrow> i < length name" for i
    by (rule ccontr) (simp add: delimiter_at_def)
  have b: "boundaries name = [i] \<longleftrightarrow> delimiter_at name i \<and> (\<forall>j. delimiter_at name j \<longrightarrow> j = i)" for i
  proof
    assume e: "boundaries name = [i]"
    have "set (boundaries name) = {j. delimiter_at name j}" using lt by (auto simp: boundaries_def)
    with e show "delimiter_at name i \<and> (\<forall>j. delimiter_at name j \<longrightarrow> j = i)" by auto
  next
    assume r: "delimiter_at name i \<and> (\<forall>j. delimiter_at name j \<longrightarrow> j = i)"
    have s: "set (boundaries name) = {i}" using r lt by (auto simp: boundaries_def)
    have "distinct (boundaries name)" by (simp add: boundaries_def)
    show "boundaries name = [i]"
    proof (cases "boundaries name")
      case Nil
      with s show ?thesis by simp
    next
      case (Cons x xs)
      with s have x: "x = i" "set xs \<subseteq> {i}" by auto
      with \<open>distinct (boundaries name)\<close> Cons have "xs = []" by (cases xs) auto
      with Cons x show ?thesis by simp
    qed
  qed
  have at: "delimiter_at name i \<longleftrightarrow> (\<exists>t. i \<le> length name \<and> drop i name = ''__'' @ t)" for i
    using lt[of i] by (auto simp: delimiter_at_def starts_with_iff)
  show ?thesis
  proof
    assume "parse_mcp_qualified_name name = Some (server, tool)"
    then obtain i where i: "boundaries name = [i]" "server = take i name" "tool = drop (i + 2) name"
      "server \<noteq> []" "tool \<noteq> []" "is_well_formed_tool_id name"
      by (auto simp: parse_mcp_qualified_name_def Let_def split: list.splits if_splits)
    then obtain t where t: "drop i name = ''__'' @ t" "i \<le> length name" using b at by blast
    have "drop (i + 2) name = drop 2 (drop i name)" by (simp add: add.commute)
    then have "tool = t" using i(3) t(1) by simp
    have "name = server @ ''__'' @ tool"
      unfolding i(2) \<open>tool = t\<close> t(1)[symmetric] by (simp only: append_take_drop_id)
    moreover have "length server = i" unfolding i(2) using t(2) by (metis length_take min_absorb2)
    ultimately show "name = server @ ''__'' @ tool \<and> server \<noteq> [] \<and> tool \<noteq> [] \<and> is_well_formed_tool_id name
        \<and> (\<forall>i. delimiter_at name i \<longrightarrow> i = length server)"
      using i b by blast
  next
    assume r: "name = server @ ''__'' @ tool \<and> server \<noteq> [] \<and> tool \<noteq> [] \<and> is_well_formed_tool_id name
        \<and> (\<forall>i. delimiter_at name i \<longrightarrow> i = length server)"
    then have n: "name = server @ ''__'' @ tool" and wf: "server \<noteq> []" "tool \<noteq> []" "is_well_formed_tool_id name"
      and only: "\<forall>i. delimiter_at name i \<longrightarrow> i = length server" by blast+
    have pieces: "take (length server) name = server" "drop (length server) name = ''__'' @ tool"
      "drop (length server + 2) name = tool" "name \<noteq> []"
      unfolding n by simp_all
    have "delimiter_at name (length server)"
      unfolding delimiter_at_def pieces(2) by simp
    with only b have "boundaries name = [length server]" by blast
    with pieces wf show "parse_mcp_qualified_name name = Some (server, tool)"
      by (simp only: parse_mcp_qualified_name_def Let_def list.case) simp
  qed
qed

lemma mcp_name_parse_spec_witness:
  "is_well_formed_tool_id ''linear__save'' \<and> \<not> delimiter_at ''linear__save'' 7"
proof -
  have "parse_mcp_qualified_name ''linear__save'' = Some (''linear'', ''save'')" by code_simp
  then have r: "(\<forall>i. delimiter_at ''linear__save'' i \<longrightarrow> i = length ''linear'') \<and> is_well_formed_tool_id ''linear__save''"
    unfolding mcp_name_parse_spec by (elim conjE) (intro conjI, assumption+)
  have "7 \<noteq> length ''linear''" by simp
  with r show ?thesis by blast
qed

end
