(* ===== verification/Safe_Commands.thy ===== *)
theory Safe_Commands
  imports Exec_Risk Pattern_Match Env_Risk Shell_Files
begin

text \<open>
  The built-in command lists of the permission manager (\<open>permission/manager/mod.rs\<close>): commands that
  never prompt, commands that always do, and the scopes an "always allow" grant may take.
\<close>

subsection \<open>Process listings\<close>

definition PS_VALUE_FLAGS :: "string list" where
  "PS_VALUE_FLAGS =
     [''-o'', ''-O'', ''--format'', ''--sort'', ''-p'', ''-q'', ''-t'', ''-u'', ''-U'', ''-g'', ''-G'',
      ''-C'', ''-s'', ''--pid'', ''--ppid'', ''--sid'', ''--tty'', ''--user'', ''--group'', ''--cols'',
      ''--columns'', ''--width'', ''o'', ''O'']"

definition ps_env_letters :: "string \<Rightarrow> bool" where
  "ps_env_letters s \<longleftrightarrow>
     has_char s CHR ''E''
     \<or> has_char s CHR ''e''
       \<and> (\<not> starts_with s ''-'' \<or> starts_with s ''-'' \<and> \<not> starts_with s ''--'' \<and> has_any s ''ax'')"

fun ps_scan :: "bool \<Rightarrow> argv \<Rightarrow> bool" where
  "ps_scan skip_next [] = False"
| "ps_scan skip_next (s # ws) =
     (if skip_next then ps_scan False ws
      else if starts_with s ''--format='' \<or> starts_with s ''--sort='' then ps_scan False ws
      else if s \<in> set PS_VALUE_FLAGS then ps_scan True ws
      else if starts_with s ''-o'' \<or> starts_with s ''-O'' then ps_scan False ws
      else if ps_env_letters s then True
      else if starts_with s ''-'' \<and> \<not> starts_with s ''--'' \<and> (ends_with s ''o'' \<or> ends_with s ''O'')
      then ps_scan True ws
      else ps_scan False ws)"

definition ps_dumps_environment :: "argv \<Rightarrow> bool" where
  "ps_dumps_environment words \<longleftrightarrow>
     normalized_command_head words = Some ''ps'' \<and> ps_scan False (drop 1 words)"

subsection \<open>Safe lists\<close>

definition is_safe_git_query_prefix :: "string \<Rightarrow> bool" where
  "is_safe_git_query_prefix cmd =
     (case strip_prefix cmd ''git '' of
        None \<Rightarrow> False
      | Some rest \<Rightarrow> list_ex (matches_command_prefix rest) SAFE_GIT_SUBCOMMANDS)"

definition SAFE_PREFIXES :: "string list" where
  "SAFE_PREFIXES =
     [''ls'', ''cat'', ''pwd'', ''date'', ''whoami'', ''hostname'', ''uptime'', ''grep'', ''rg'',
      ''kubectl get'', ''kubectl logs'', ''kubectl describe'', ''ps'', ''bin/explorer ls'', ''head'',
      ''tail'', ''wc'', ''sort'', ''uniq'', ''tr'', ''cut'', ''echo'', ''printf'']"

definition is_safe_command_words_str :: "string \<Rightarrow> bool" where
  "is_safe_command_words_str cmd \<longleftrightarrow>
     list_ex (matches_command_prefix cmd) SAFE_PREFIXES \<or> is_safe_git_query_prefix cmd"

definition has_special_flag :: "argv \<Rightarrow> bool" where
  "has_special_flag words \<longleftrightarrow>
     rg_has_unsafe_flag words \<or> kubectl_has_unsafe_flag words \<or> ps_dumps_environment words"

definition is_safe_command_words :: "argv \<Rightarrow> bool" where
  "is_safe_command_words words =
     (if words = [] \<or> has_special_flag words then False
      else if first words = Some ''git'' then git_words_are_read_only_query words
      else is_safe_command_words_str (join '' '' words))"

definition ALWAYS_SAFE_COMMANDS :: "string list" where
  "ALWAYS_SAFE_COMMANDS =
     [''ls'', ''cat'', ''pwd'', ''date'', ''whoami'', ''hostname'', ''uptime'', ''ps'', ''grep'', ''rg'',
      ''kubectl get'', ''kubectl logs'', ''kubectl describe'', ''bin/explorer ls'']"

definition is_safe_creation_command :: "argv \<Rightarrow> bool" where
  "is_safe_creation_command words =
     (case first words of None \<Rightarrow> False | Some p \<Rightarrow> is_creation_program p)"

definition is_always_safe_command_words :: "argv \<Rightarrow> bool" where
  "is_always_safe_command_words words =
     (if words = [] \<or> has_special_flag words then False
      else if first words = Some ''git'' then git_words_are_read_only_query words
      else list_ex (matches_command_prefix (join '' '' words)) ALWAYS_SAFE_COMMANDS)"

subsection \<open>Dangerous commands\<close>

definition DANGEROUS_PREFIXES :: "string list" where
  "DANGEROUS_PREFIXES =
     [''rm'', ''chmod'', ''chown'', ''chgrp'', ''chattr'', ''pkill'', ''kill'', ''killall'', ''git push'']"

definition is_dangerous_command_words :: "argv \<Rightarrow> bool" where
  "is_dangerous_command_words words =
     (case normalized_command_head words of
        None \<Rightarrow> False
      | Some head \<Rightarrow>
          let joined = (if length words = 1 then head else head @ '' '' @ join '' '' (drop 1 words))
          in list_ex (matches_command_prefix joined) DANGEROUS_PREFIXES)"

subsection \<open>Grant scopes\<close>

definition always_allow_scope_pinned :: "argv \<Rightarrow> bool" where
  "always_allow_scope_pinned words \<longleftrightarrow>
     is_dangerous_command_words words \<or> head_is_exec_vehicle words
     \<or> normalized_command_head words = Some ''sed''"

definition gh_always_allow_scope :: "argv \<Rightarrow> nat option" where
  "gh_always_allow_scope words =
     (if normalized_command_head words \<noteq> Some ''gh'' then None
      else Some (case (get words 1, get words 2) of
          (Some grp, Some verb) \<Rightarrow>
            if \<not> starts_with grp ''-'' \<and> \<not> starts_with verb ''-'' then 3 else length words
        | _ \<Rightarrow> length words))"

fun leading_flags :: "argv \<Rightarrow> nat" where
  "leading_flags [] = 0"
| "leading_flags (w # ws) = (if starts_with w ''-'' then Suc (leading_flags ws) else 0)"

definition base_scope :: "argv \<Rightarrow> nat" where
  "base_scope words =
     (let n = min (length words) 2; wide = n + leading_flags (drop n words) in
      if is_safe_command_words words then
        (if is_safe_command_words_str (hd words) then 1
         else if 2 \<le> length words \<and> is_safe_command_words_str (join '' '' (take 2 words)) then 2
         else wide)
      else wide)"

definition default_always_allow_scope :: "argv \<Rightarrow> nat" where
  "default_always_allow_scope words =
     (if words = [] then 0
      else if always_allow_scope_pinned words then length words
      else case gh_always_allow_scope words of Some n \<Rightarrow> n | None \<Rightarrow> base_scope words)"

definition default_always_deny_scope :: "argv \<Rightarrow> nat" where
  "default_always_deny_scope words = (if words = [] then 0 else base_scope words)"

definition minimum_always_allow_scope :: "argv \<Rightarrow> nat" where
  "minimum_always_allow_scope words =
     (if always_allow_scope_pinned words then length words
      else case gh_always_allow_scope words of Some n \<Rightarrow> n | None \<Rightarrow> 1)"

subsection \<open>Properties\<close>

lemma leading_flags_le: "leading_flags ws \<le> length ws"
  by (induction ws) simp_all

lemma base_scope_bounds: "words \<noteq> [] \<Longrightarrow> 1 \<le> base_scope words \<and> base_scope words \<le> length words"
proof -
  assume "words \<noteq> []"
  then have l: "1 \<le> length words" by (cases words) simp_all
  have "min (length words) 2 + leading_flags (drop (min (length words) 2) words) \<le> length words"
    using leading_flags_le[of "drop (min (length words) 2) words"] by simp
  moreover have "Suc 0 \<le> min (length words) 2 + leading_flags (drop (min (length words) 2) words)"
    using l by (simp add: trans_le_add1)
  ultimately show ?thesis using l by (simp add: base_scope_def Let_def del: min_def)
qed

lemma gh_scope_bounds:
  "gh_always_allow_scope words = Some n \<Longrightarrow> 1 \<le> n \<and> n \<le> length words"
  by (cases words; cases "get words 1"; cases "get words 2")
    (auto simp: gh_always_allow_scope_def normalized_command_head_def get_def split: if_splits)

text \<open>The scopes offered for an "always allow" grant are well formed: for a non-empty command the
  narrowest scope is at least one word, the default lies between it and the whole command, the
  "never allow" default too, and a dangerous verb, an execution vehicle or \<open>sed\<close> can only be
  granted as the exact full command.\<close>

theorem grant_scopes_bounded:
  assumes "words \<noteq> []"
  shows "1 \<le> minimum_always_allow_scope words
    \<and> minimum_always_allow_scope words \<le> default_always_allow_scope words
    \<and> default_always_allow_scope words \<le> length words
    \<and> 1 \<le> default_always_deny_scope words \<and> default_always_deny_scope words \<le> length words
    \<and> (is_dangerous_command_words words \<or> head_is_exec_vehicle words
         \<or> normalized_command_head words = Some ''sed'' \<longrightarrow>
       minimum_always_allow_scope words = length words \<and> default_always_allow_scope words = length words)"
  using assms base_scope_bounds[OF assms] gh_scope_bounds[of words]
  by (cases words)
    (auto simp: minimum_always_allow_scope_def default_always_allow_scope_def
      default_always_deny_scope_def always_allow_scope_pinned_def split: option.split)

lemma grant_scopes_bounded_witness:
  "minimum_always_allow_scope [''sudo'', ''git'', ''status''] = 3
   \<and> default_always_allow_scope [''cargo'', ''test'', ''--all'', ''x''] \<le> 4"
proof -
  have "head_is_exec_vehicle [''sudo'', ''git'', ''status'']" by code_simp
  with grant_scopes_bounded[of "[''sudo'', ''git'', ''status'']"]
  have "minimum_always_allow_scope [''sudo'', ''git'', ''status''] = 3" by simp
  moreover have "default_always_allow_scope [''cargo'', ''test'', ''--all'', ''x''] \<le> 4"
    using grant_scopes_bounded[of "[''cargo'', ''test'', ''--all'', ''x'']"] by simp
  ultimately show ?thesis by blast
qed

end
