(* ===== verification/Bash_Eval.thy ===== *)
theory Bash_Eval
  imports Tool_Grants Safe_Commands Findings Shell_Files
begin

text \<open>
  The evaluation of one Bash request by the permission manager (\<open>evaluate_bash\<close> in
  \<open>permission/manager/mod.rs\<close>, \<open>whole_script_grant\<close> in \<open>manager/bash_grants.rs\<close>): the outcome of its
  segments under the remembered grants and the safe lists, and the security findings of the script.
\<close>

datatype segment_evaluation =
    AutoAllow bool
  | SegReject string
  | NeedsPrompts "string list"
  | Unparseable

record bash_evaluation =
  be_segments :: segment_evaluation
  be_exact_grant :: bool
  be_all_segments_granted :: bool
  be_assessment :: assessment
  be_redirect_write :: bool
  be_ambient_segments :: "argv list option"
  be_creation_paths :: "string list"
  be_has_cwd_change :: bool

definition unparseable_exec_risk :: "string \<Rightarrow> bool" where
  "unparseable_exec_risk cmd = script_may_invoke_git cmd"

fun env_risk_finding :: "env_risk \<Rightarrow> security_finding option" where
  "env_risk_finding EnvInjection = Some EnvInjectionFinding"
| "env_risk_finding EnvUnvetted = Some UnvettedEnv"
| "env_risk_finding EnvSafe = None"

definition raw_deny_rejection :: "string \<Rightarrow> permission_state \<Rightarrow> segment_evaluation option" where
  "raw_deny_rejection cmd s =
     map_option (\<lambda>d. SegReject (rejected_message d))
       (find (matches_command_prefix cmd) (ps_disallowed_bash_commands s))"

subsection \<open>Whole-script grants\<close>

definition words_join_unambiguously :: "host \<Rightarrow> argv \<Rightarrow> bool" where
  "words_join_unambiguously h words =
     (let joined = join '' '' words in
      case all_commands_from_script (h_parse h) joined of
        Some [only] \<Rightarrow> spans_whole_script only joined \<and> pc_words only = words
      | _ \<Rightarrow> False)"

definition whole_script_grant :: "host \<Rightarrow> string \<Rightarrow> plain_command list \<Rightarrow> permission_state \<Rightarrow> bool" where
  "whole_script_grant h cmd segments s =
     (if cmd \<in> set (ps_allowed_bash_commands s) then True
      else case segments of
          [only] \<Rightarrow>
            spans_whole_script only cmd \<and> words_join_unambiguously h (pc_words only)
            \<and> join '' '' (pc_words only) \<in> set (ps_allowed_bash_commands s)
        | _ \<Rightarrow> False)"

subsection \<open>The segments\<close>

text \<open>What the loop over the segments accumulates.\<close>

record segment_acc =
  sa_needs_prompt :: "string list"
  sa_via_session_grant :: bool
  sa_all_granted :: bool
  sa_exec_risk :: bool
  sa_has_git :: bool
  sa_assessment :: assessment

definition segment_start :: "assessment \<Rightarrow> segment_acc" where
  "segment_start a =
     \<lparr>sa_needs_prompt = [], sa_via_session_grant = False, sa_all_granted = True,
      sa_exec_risk = False, sa_has_git = False, sa_assessment = a\<rparr>"

definition matched_grant :: "host \<Rightarrow> permission_state \<Rightarrow> argv \<Rightarrow> bool" where
  "matched_grant h s words =
     (let line = join '' '' words in
      (if always_allow_scope_pinned words then line \<in> set (ps_allowed_bash_commands s)
       else list_ex (matches_command_prefix line) (ps_allowed_bash_commands s))
      \<or> list_ex (\<lambda>g. bash_pattern_matches_command h g line) (ps_allowed_bash_globs s))"

definition special_surface :: "argv \<Rightarrow> bool" where
  "special_surface words \<longleftrightarrow>
     kubectl_has_unsafe_flag words \<or> rg_has_unsafe_flag words \<or> ps_dumps_environment words
     \<or> git_words_have_unsafe_query_option words"

definition safe_listed :: "argv \<Rightarrow> bool" where
  "safe_listed words \<longleftrightarrow>
     is_safe_command_words words \<or> is_always_safe_command_words words \<or> is_safe_creation_command words"

text \<open>The facts noted for every segment, setup or not.\<close>

definition note_segment_facts :: "argv \<Rightarrow> argv \<Rightarrow> segment_acc \<Rightarrow> segment_acc" where
  "note_segment_facts raw_words words acc =
     (let facts = segment_exec_facts_of raw_words;
          a1 = (if words_are_opaque_shell (map WordLiteral words)
                then insert OpaqueShell (sa_assessment acc) else sa_assessment acc);
          a2 = (if sf_exec_risk facts then insert ExecOrAmbientGit a1 else a1)
      in acc\<lparr>sa_exec_risk := sa_exec_risk acc \<or> sf_exec_risk facts,
            sa_has_git := sa_has_git acc \<or> sf_has_git facts,
            sa_assessment := a2\<rparr>)"

text \<open>The verdict on one non-setup segment that no deny matches.\<close>

definition judge_segment :: "host \<Rightarrow> permission_state \<Rightarrow> bool \<Rightarrow> argv \<Rightarrow> segment_acc \<Rightarrow> segment_acc" where
  "judge_segment h s honor_safe_lists words acc0 =
     (let line = join '' '' words; granted = matched_grant h s words;
          acc = acc0\<lparr>sa_all_granted := sa_all_granted acc0 \<and> granted\<rparr> in
      if is_dangerous_command_words words then
        acc\<lparr>sa_assessment := insert DangerousCommand (sa_assessment acc),
            sa_needs_prompt := sa_needs_prompt acc @ [line]\<rparr>
      else if special_surface words \<and> line \<notin> set (ps_allowed_bash_commands s) then
        acc\<lparr>sa_assessment := insert SpecialExecSurface (sa_assessment acc),
            sa_needs_prompt := sa_needs_prompt acc @ [line]\<rparr>
      else if granted \<or> honor_safe_lists \<and> safe_listed words then
        acc\<lparr>sa_via_session_grant := sa_via_session_grant acc \<or> granted\<rparr>
      else acc\<lparr>sa_needs_prompt := sa_needs_prompt acc @ [line]\<rparr>)"

definition denying_entry :: "permission_state \<Rightarrow> argv \<Rightarrow> string option" where
  "denying_entry s words = find (matches_command_prefix (join '' '' words)) (ps_disallowed_bash_commands s)"

text \<open>The loop: a matching deny stops it with the accumulator so far.\<close>

fun scan_segments ::
  "host \<Rightarrow> permission_state \<Rightarrow> bool \<Rightarrow> plain_command list \<Rightarrow> segment_acc \<Rightarrow> (string \<times> segment_acc) + segment_acc"
where
  "scan_segments h s honor [] acc = Inr acc"
| "scan_segments h s honor (parsed # rest) acc =
     (let words = unwrap_wrappers (pc_words parsed);
          acc1 = note_segment_facts (pc_words parsed) words acc in
      if is_setup_command words then scan_segments h s honor rest acc1
      else case denying_entry s words of
          Some d \<Rightarrow> Inl (rejected_message d, acc1)
        | None \<Rightarrow> scan_segments h s honor rest (judge_segment h s honor words acc1))"

definition undecomposable_evaluation :: "string \<Rightarrow> permission_state \<Rightarrow> assessment \<Rightarrow> bash_evaluation" where
  "undecomposable_evaluation cmd s a =
     \<lparr>be_segments = (case raw_deny_rejection cmd s of Some r \<Rightarrow> r | None \<Rightarrow> Unparseable),
      be_exact_grant = (cmd \<in> set (ps_allowed_bash_commands s)), be_all_segments_granted = False,
      be_assessment = (if unparseable_exec_risk cmd then insert ExecOrAmbientGit a else a),
      be_redirect_write = True, be_ambient_segments = None, be_creation_paths = [],
      be_has_cwd_change = False\<rparr>"

definition unsafe_redirect_write :: "write_paths_split \<Rightarrow> bool" where
  "unsafe_redirect_write writes \<longleftrightarrow>
     unextracted_write_redirect writes \<or> list_ex (\<lambda>p. \<not> is_safe_write_sink p) (redirect_paths writes)"

definition base_assessment :: "node \<Rightarrow> string \<Rightarrow> plain_command list option \<Rightarrow> assessment" where
  "base_assessment root cmd segments =
     (let writes = command_write_paths_split root cmd;
          file_write = (unsafe_redirect_write writes
                        \<or> list_ex (\<lambda>p. \<not> is_safe_write_sink p) (word_paths writes));
          a = (if file_write then {FileWrite} else {}) in
      case env_risk_finding (script_env_risk root cmd (case segments of Some cs \<Rightarrow> cs | None \<Rightarrow> [])) of
        Some f \<Rightarrow> insert f a | None \<Rightarrow> a)"

definition decomposed_evaluation ::
  "host \<Rightarrow> string \<Rightarrow> permission_state \<Rightarrow> bool \<Rightarrow> node \<Rightarrow> plain_command list \<Rightarrow> bash_evaluation"
where
  "decomposed_evaluation h cmd s honor root segments =
     (let writes = command_write_paths_split root cmd;
          exact = whole_script_grant h cmd segments s in
      case scan_segments h s honor segments (segment_start (base_assessment root cmd (Some segments))) of
        Inl (msg, acc) \<Rightarrow>
          \<lparr>be_segments = SegReject msg, be_exact_grant = exact,
           be_all_segments_granted = sa_all_granted acc, be_assessment = sa_assessment acc,
           be_redirect_write = unsafe_redirect_write writes, be_ambient_segments = None,
           be_creation_paths = [], be_has_cwd_change = False\<rparr>
      | Inr acc \<Rightarrow>
          \<lparr>be_segments = (if sa_needs_prompt acc = [] then AutoAllow (sa_via_session_grant acc)
                          else NeedsPrompts (sa_needs_prompt acc)),
           be_exact_grant = exact, be_all_segments_granted = sa_all_granted acc,
           be_assessment = sa_assessment acc, be_redirect_write = unsafe_redirect_write writes,
           be_ambient_segments = (if sa_has_git acc \<and> \<not> sa_exec_risk acc
                                  then Some (map pc_words segments) else None),
           be_creation_paths = creation_paths writes,
           be_has_cwd_change = script_has_cwd_change root cmd\<rparr>)"

definition evaluate_bash :: "host \<Rightarrow> string \<Rightarrow> permission_state \<Rightarrow> bool \<Rightarrow> bash_evaluation" where
  "evaluate_bash h cmd s honor_safe_lists =
     (case h_parse h cmd of
        None \<Rightarrow> undecomposable_evaluation cmd s {UnparseableShell}
      | Some root \<Rightarrow>
          (case try_parse_word_only_commands_sequence root cmd of
             None \<Rightarrow>
               undecomposable_evaluation cmd s
                 ((if tree_has_opaque_shell root cmd then insert OpaqueShell else id)
                    (insert UnparseableShell (base_assessment root cmd None)))
           | Some segments \<Rightarrow> decomposed_evaluation h cmd s honor_safe_lists root segments))"

subsection \<open>What the scan computes\<close>

definition segment_words :: "plain_command \<Rightarrow> argv" where
  "segment_words c = unwrap_wrappers (pc_words c)"

definition denied_segment :: "permission_state \<Rightarrow> plain_command \<Rightarrow> bool" where
  "denied_segment s c \<longleftrightarrow>
     \<not> is_setup_command (segment_words c) \<and> denying_entry s (segment_words c) \<noteq> None"

definition held_special :: "permission_state \<Rightarrow> argv \<Rightarrow> bool" where
  "held_special s words \<longleftrightarrow>
     special_surface words \<and> join '' '' words \<notin> set (ps_allowed_bash_commands s)"

definition cleared_segment :: "host \<Rightarrow> permission_state \<Rightarrow> bool \<Rightarrow> plain_command \<Rightarrow> bool" where
  "cleared_segment h s honor c \<longleftrightarrow>
     is_setup_command (segment_words c)
     \<or> \<not> is_dangerous_command_words (segment_words c)
       \<and> \<not> held_special s (segment_words c)
       \<and> (matched_grant h s (segment_words c) \<or> honor \<and> safe_listed (segment_words c))"

text \<open>The findings one segment contributes: those of every segment, and those of a judged one.\<close>

definition segment_findings :: "permission_state \<Rightarrow> plain_command \<Rightarrow> assessment" where
  "segment_findings s c =
     (if words_are_opaque_shell (map WordLiteral (segment_words c)) then {OpaqueShell} else {})
     \<union> (if sf_exec_risk (segment_exec_facts_of (pc_words c)) then {ExecOrAmbientGit} else {})
     \<union> (if is_setup_command (segment_words c) then {}
        else if is_dangerous_command_words (segment_words c) then {DangerousCommand}
        else if held_special s (segment_words c) then {SpecialExecSurface} else {})"

lemmas scan_step_defs =
  note_segment_facts_def judge_segment_def segment_findings_def cleared_segment_def
  denied_segment_def held_special_def segment_words_def

lemma judge_needs:
  "sa_needs_prompt (judge_segment h s honor (segment_words c) acc) =
   sa_needs_prompt acc
     @ (if \<not> is_setup_command (segment_words c) \<and> \<not> cleared_segment h s honor c
        then [join '' '' (segment_words c)] else [])"
  if "\<not> is_setup_command (segment_words c)"
  using that by (simp add: judge_segment_def cleared_segment_def held_special_def Let_def)

lemma judge_assessment:
  "sa_assessment (judge_segment h s honor words acc) =
   sa_assessment acc \<union> (if is_dangerous_command_words words then {DangerousCommand}
      else if held_special s words then {SpecialExecSurface} else {})"
  by (simp add: judge_segment_def held_special_def Let_def)

lemma judge_flags:
  "sa_exec_risk (judge_segment h s honor words acc) = sa_exec_risk acc"
  "sa_has_git (judge_segment h s honor words acc) = sa_has_git acc"
  "sa_all_granted (judge_segment h s honor words acc) \<longleftrightarrow> sa_all_granted acc \<and> matched_grant h s words"
  by (simp_all add: judge_segment_def Let_def)

lemma note_fields:
  "sa_needs_prompt (note_segment_facts raw words acc) = sa_needs_prompt acc"
  "sa_all_granted (note_segment_facts raw words acc) = sa_all_granted acc"
  "sa_exec_risk (note_segment_facts raw words acc) \<longleftrightarrow>
     sa_exec_risk acc \<or> sf_exec_risk (segment_exec_facts_of raw)"
  "sa_assessment (note_segment_facts raw words acc) = sa_assessment acc
     \<union> (if words_are_opaque_shell (map WordLiteral words) then {OpaqueShell} else {})
     \<union> (if sf_exec_risk (segment_exec_facts_of raw) then {ExecOrAmbientGit} else {})"
  by (simp_all add: note_segment_facts_def Let_def)

text \<open>One step of the loop, when the whole loop ends normally.\<close>

lemma scan_Cons_Inr:
  assumes "scan_segments h s honor (c # cs) acc = Inr r"
  obtains acc' where "scan_segments h s honor cs acc' = Inr r" "\<not> denied_segment s c"
    "sa_needs_prompt acc' = sa_needs_prompt acc
       @ (if cleared_segment h s honor c then [] else [join '' '' (segment_words c)])"
    "sa_assessment acc' = sa_assessment acc \<union> segment_findings s c"
    "sa_all_granted acc' \<longleftrightarrow> sa_all_granted acc
       \<and> (is_setup_command (segment_words c) \<or> matched_grant h s (segment_words c))"
proof (cases "is_setup_command (segment_words c)")
  case True
  with assms show ?thesis
    by (intro that[of "note_segment_facts (pc_words c) (segment_words c) acc"])
      (auto simp: segment_words_def Let_def note_fields denied_segment_def cleared_segment_def
        segment_findings_def)
next
  case False
  with assms show ?thesis
    by (intro that[of "judge_segment h s honor (segment_words c)
          (note_segment_facts (pc_words c) (segment_words c) acc)"])
      (auto simp: segment_words_def Let_def note_fields judge_needs[unfolded segment_words_def]
        judge_assessment judge_flags denied_segment_def segment_findings_def split: option.splits)
qed

text \<open>The loop ends normally exactly when no segment is denied.\<close>

lemma scan_Inr:
  "scan_segments h s honor cs acc = Inr r \<Longrightarrow>
     list_all (\<lambda>c. \<not> denied_segment s c) cs
     \<and> sa_needs_prompt r = sa_needs_prompt acc
         @ map (\<lambda>c. join '' '' (segment_words c)) (filter (\<lambda>c. \<not> cleared_segment h s honor c) cs)
     \<and> sa_assessment r = sa_assessment acc \<union> (\<Union>c \<in> set cs. segment_findings s c)
     \<and> (sa_all_granted r \<longleftrightarrow> sa_all_granted acc
         \<and> list_all (\<lambda>c. is_setup_command (segment_words c) \<or> matched_grant h s (segment_words c)) cs)"
proof (induction cs arbitrary: acc)
  case Nil
  then show ?case by simp
next
  case (Cons c cs)
  from Cons.prems obtain acc' where a: "scan_segments h s honor cs acc' = Inr r" "\<not> denied_segment s c"
    "sa_needs_prompt acc' = sa_needs_prompt acc
       @ (if cleared_segment h s honor c then [] else [join '' '' (segment_words c)])"
    "sa_assessment acc' = sa_assessment acc \<union> segment_findings s c"
    "sa_all_granted acc' \<longleftrightarrow> sa_all_granted acc
       \<and> (is_setup_command (segment_words c) \<or> matched_grant h s (segment_words c))"
    by (rule scan_Cons_Inr)
  from Cons.IH[OF a(1)] a(2-5) show ?case by (simp add: Un_assoc)
qed

text \<open>It is stopped by the first denied one.\<close>

lemma first_hit_Cons:
  "(\<exists>us x vs d. c # cs = us @ x # vs \<and> list_all Q us \<and> P x d) \<longleftrightarrow>
   (\<exists>d. P c d) \<or> Q c \<and> (\<exists>us x vs d. cs = us @ x # vs \<and> list_all Q us \<and> P x d)" (is "?l \<longleftrightarrow> ?r")
proof
  assume ?l
  then obtain us x vs d where "c # cs = us @ x # vs" "list_all Q us" "P x d" by blast
  then show ?r by (cases us) auto
next
  assume ?r
  then show ?l
  proof
    assume "\<exists>d. P c d"
    then have "\<exists>d. c # cs = [] @ c # cs \<and> list_all Q [] \<and> P c d" by simp
    then show ?l by blast
  next
    assume "Q c \<and> (\<exists>us x vs d. cs = us @ x # vs \<and> list_all Q us \<and> P x d)"
    then obtain us x vs d where "Q c" "cs = us @ x # vs" "list_all Q us" "P x d" by blast
    then have "c # cs = (c # us) @ x # vs \<and> list_all Q (c # us) \<and> P x d" by simp
    then show ?l by blast
  qed
qed

definition stops_with :: "permission_state \<Rightarrow> string \<Rightarrow> plain_command \<Rightarrow> string \<Rightarrow> bool" where
  "stops_with s m c d \<longleftrightarrow>
     \<not> is_setup_command (segment_words c) \<and> denying_entry s (segment_words c) = Some d
     \<and> m = rejected_message d"

lemma scan_Inl:
  "(\<exists>r. scan_segments h s honor cs acc = Inl (m, r)) \<longleftrightarrow>
   (\<exists>us c vs d. cs = us @ c # vs \<and> list_all (\<lambda>u. \<not> denied_segment s u) us \<and> stops_with s m c d)"
proof (induction cs arbitrary: acc)
  case Nil
  then show ?case by simp
next
  case (Cons c cs)
  note tail = first_hit_Cons[of c cs "\<lambda>u. \<not> denied_segment s u" "stops_with s m"]
  show ?case
  proof (cases "denied_segment s c")
    case True
    then show ?thesis unfolding tail
      by (auto simp: denied_segment_def stops_with_def segment_words_def Let_def)
  next
    case False
    then have none: "\<not> stops_with s m c d" for d by (auto simp: denied_segment_def stops_with_def)
    from False obtain acc' where e: "scan_segments h s honor (c # cs) acc = scan_segments h s honor cs acc'"
    proof (cases "is_setup_command (segment_words c)")
      case True
      then show ?thesis
        by (intro that[of "note_segment_facts (pc_words c) (segment_words c) acc"])
          (simp add: segment_words_def Let_def)
    next
      case False
      with \<open>\<not> denied_segment s c\<close> show ?thesis
        by (intro that[of "judge_segment h s honor (segment_words c)
            (note_segment_facts (pc_words c) (segment_words c) acc)"])
          (simp add: denied_segment_def segment_words_def Let_def)
    qed
    show ?thesis unfolding tail e Cons.IH[of acc'] using False none by blast
  qed
qed

subsection \<open>Properties\<close>

lemma undecomposable_segments:
  "be_segments (undecomposable_evaluation cmd s a) =
   (case find (matches_command_prefix cmd) (ps_disallowed_bash_commands s) of
      Some d \<Rightarrow> SegReject (rejected_message d) | None \<Rightarrow> Unparseable)"
  by (simp add: undecomposable_evaluation_def raw_deny_rejection_def split: option.split)

lemma evaluate_bash_decomposed:
  "all_commands_from_script (h_parse h) cmd = Some cs \<Longrightarrow>
     \<exists>root. h_parse h cmd = Some root \<and> evaluate_bash h cmd s honor = decomposed_evaluation h cmd s honor root cs"
  by (auto simp: all_commands_from_script_def evaluate_bash_def bind_eq_Some_conv)

lemma evaluate_bash_undecomposed:
  assumes "all_commands_from_script (h_parse h) cmd = None"
  obtains a where "UnparseableShell \<in> a" "evaluate_bash h cmd s honor = undecomposable_evaluation cmd s a"
proof (cases "h_parse h cmd")
  case None
  then show ?thesis by (intro that[of "{UnparseableShell}"]) (simp_all add: evaluate_bash_def)
next
  case (Some root)
  with assms have "try_parse_word_only_commands_sequence root cmd = None"
    by (simp add: all_commands_from_script_def)
  with Some show ?thesis
    by (intro that[of "(if tree_has_opaque_shell root cmd then insert OpaqueShell else id)
                         (insert UnparseableShell (base_assessment root cmd None))"])
      (simp_all add: evaluate_bash_def)
qed

lemma decomposed_reject:
  "be_segments (decomposed_evaluation h cmd s honor root cs) = SegReject m \<longleftrightarrow>
   (\<exists>us c vs d. cs = us @ c # vs \<and> list_all (\<lambda>u. \<not> denied_segment s u) us \<and> stops_with s m c d)"
  unfolding scan_Inl[of h s honor cs "segment_start (base_assessment root cmd (Some cs))" m, symmetric]
  by (auto simp: decomposed_evaluation_def Let_def split: sum.split)

text \<open>The segment outcome of a script that no deny stops.\<close>

lemma decomposed_no_deny:
  assumes "list_all (\<lambda>c. \<not> denied_segment s c) cs"
  shows "\<exists>acc. scan_segments h s honor cs (segment_start a) = Inr acc
    \<and> sa_needs_prompt acc =
        map (\<lambda>c. join '' '' (segment_words c)) (filter (\<lambda>c. \<not> cleared_segment h s honor c) cs)
    \<and> sa_assessment acc = a \<union> (\<Union>c \<in> set cs. segment_findings s c)
    \<and> (sa_all_granted acc \<longleftrightarrow>
        list_all (\<lambda>c. is_setup_command (segment_words c) \<or> matched_grant h s (segment_words c)) cs)"
proof (cases "scan_segments h s honor cs (segment_start a)")
  case (Inl p)
  then obtain m r where "scan_segments h s honor cs (segment_start a) = Inl (m, r)" by (cases p) auto
  then obtain us c vs d where "cs = us @ c # vs" "stops_with s m c d" using scan_Inl by blast
  with assms show ?thesis by (auto simp: stops_with_def denied_segment_def)
next
  case (Inr acc)
  with scan_Inr[OF Inr] show ?thesis by (simp add: segment_start_def)
qed

text \<open>The built-in analysis lets a script run without a prompt exactly when the script decomposes
  and every one of its commands, after peeling its wrappers, is a setup command or is matched by
  no remembered deny, is not a dangerous verb, shows a special surface (an exec flag of \<open>rg\<close>, a
  credential flag of \<open>kubectl\<close>, an environment dump, a driver option of \<open>git\<close>) only under an exact
  grant, and is granted or, where the safe lists count, safe.\<close>

theorem auto_allow_exact:
  "(\<exists>g. be_segments (evaluate_bash h cmd s honor) = AutoAllow g) \<longleftrightarrow>
   (\<exists>cs. all_commands_from_script (h_parse h) cmd = Some cs
      \<and> list_all (\<lambda>c. \<not> denied_segment s c \<and> cleared_segment h s honor c) cs)"
proof (cases "all_commands_from_script (h_parse h) cmd")
  case None
  from evaluate_bash_undecomposed[OF this] obtain a
    where "evaluate_bash h cmd s honor = undecomposable_evaluation cmd s a" by blast
  with None show ?thesis by (simp add: undecomposable_segments split: option.split)
next
  case (Some cs)
  from evaluate_bash_decomposed[OF this, of s honor] obtain root
    where e: "evaluate_bash h cmd s honor = decomposed_evaluation h cmd s honor root cs" by blast
  show ?thesis
  proof (cases "list_all (\<lambda>c. \<not> denied_segment s c) cs")
    case True
    from decomposed_no_deny[OF True, of h honor "base_assessment root cmd (Some cs)"] Some True show ?thesis
      by (auto simp: e decomposed_evaluation_def Let_def list_all_iff filter_empty_conv split: if_splits)
  next
    case False
    then have "\<exists>p. scan_segments h s honor cs (segment_start (base_assessment root cmd (Some cs))) = Inl p"
      using scan_Inr by (metis sum.exhaust)
    with False Some show ?thesis
      by (auto simp: e decomposed_evaluation_def Let_def list_all_iff)
  qed
qed

text \<open>Remembered denies reject a script outright, and only they do: a script that decomposes is
  rejected with the first of its commands, in source order and after peeling wrappers, that a
  remembered deny matches, whatever is granted; one that does not decompose is rejected when a
  deny matches its text.\<close>

theorem remembered_deny_rejects:
  "be_segments (evaluate_bash h cmd s honor) = SegReject m \<longleftrightarrow>
   (case all_commands_from_script (h_parse h) cmd of
      Some cs \<Rightarrow> \<exists>us c vs d. cs = us @ c # vs \<and> list_all (\<lambda>u. \<not> denied_segment s u) us
        \<and> stops_with s m c d
    | None \<Rightarrow> \<exists>d. find (matches_command_prefix cmd) (ps_disallowed_bash_commands s) = Some d
        \<and> m = rejected_message d)"
proof (cases "all_commands_from_script (h_parse h) cmd")
  case None
  from evaluate_bash_undecomposed[OF this] obtain a
    where "evaluate_bash h cmd s honor = undecomposable_evaluation cmd s a" by blast
  with None show ?thesis by (auto simp: undecomposable_segments split: option.split)
next
  case (Some cs)
  from evaluate_bash_decomposed[OF this, of s honor] obtain root
    where "evaluate_bash h cmd s honor = decomposed_evaluation h cmd s honor root cs" by blast
  with Some show ?thesis by (simp add: decomposed_reject)
qed

end
