(* ===== verification/Bash_Grants.thy ===== *)
theory Bash_Grants
  imports Bash_Eval Policy
begin

text \<open>
  Grants for Bash requests: how an "always allow" answer becomes a stored key
  (\<open>permission/manager/bash_grants.rs\<close>), and the decisions taken on remembered grants and denies
  before a prompt (\<open>permission/manager/mod.rs\<close>).
\<close>

subsection \<open>Minting grants\<close>

definition always_allow_scope_persists :: "host \<Rightarrow> bash_highlights \<Rightarrow> nat \<Rightarrow> bool" where
  "always_allow_scope_persists h b n =
     (let words = bh_highlighted_words b in
      if n = 0 \<or> n > length words \<or> n < minimum_always_allow_scope words then False
      else words_join_unambiguously h (take n words)
           \<or> n = length words \<and> bh_prefix b = [] \<and> bh_suffix b = [])"

definition MAX_SEGMENT_GRANTS :: nat where "MAX_SEGMENT_GRANTS = 5"

definition mints_segment_grant :: "host \<Rightarrow> argv \<Rightarrow> bool" where
  "mints_segment_grant h words \<longleftrightarrow>
     words \<noteq> [] \<and> \<not> is_setup_command words \<and> \<not> is_dangerous_command_words words
     \<and> \<not> head_is_exec_vehicle words \<and> words_join_unambiguously h words"

definition bash_grant_segments :: "host \<Rightarrow> string \<Rightarrow> string list" where
  "bash_grant_segments h cmd =
     (case all_commands_from_script (h_parse h) cmd of
        None \<Rightarrow> []
      | Some segments \<Rightarrow>
          let grants = map (join '' '')
                (filter (mints_segment_grant h) (map (\<lambda>c. unwrap_wrappers (pc_words c)) segments))
          in if length grants > MAX_SEGMENT_GRANTS then [] else grants)"

definition labeled_words_verified :: "host \<Rightarrow> argv \<Rightarrow> string \<Rightarrow> bool" where
  "labeled_words_verified h words label \<longleftrightarrow>
     list_ex (\<lambda>n. words_join_unambiguously h (take n words) \<and> join '' '' (take n words) = label)
       [minimum_always_allow_scope words..<Suc (length words)]"

definition allow_command :: "string \<Rightarrow> permission_state \<Rightarrow> permission_state" where
  "allow_command key s = s\<lparr>ps_allowed_bash_commands := set_insert key (ps_allowed_bash_commands s)\<rparr>"

definition persist_bash_always_allow ::
  "host \<Rightarrow> permission_state \<Rightarrow> string \<Rightarrow> string \<Rightarrow> permission_state"
where
  "persist_bash_always_allow h s cmd label =
     (case primary_command_from_script (h_parse h) cmd of
        None \<Rightarrow> s
      | Some b \<Rightarrow>
          let words = bh_highlighted_words b in
          if labeled_words_verified h words label then allow_command label s
          else if bh_prefix b = [] \<and> bh_suffix b = [] \<and> join '' '' words = label
          then allow_command cmd s
          else s)"

definition bash_glob_covers_script :: "host \<Rightarrow> string \<Rightarrow> string \<Rightarrow> bool" where
  "bash_glob_covers_script h cmd pattern =
     (if bash_glob_is_catchall h pattern then False
      else case all_commands_from_script (h_parse h) cmd of
          None \<Rightarrow> bash_pattern_matches_command h pattern cmd
        | Some segments \<Rightarrow>
            list_ex (\<lambda>seg. let words = unwrap_wrappers (pc_words seg) in
                words \<noteq> [] \<and> \<not> is_setup_command words
                \<and> bash_pattern_matches_command h pattern (join '' '' words)) segments)"

subsection \<open>Floors\<close>

definition clamp_yolo :: "bool \<Rightarrow> string option \<Rightarrow> bool" where
  "clamp_yolo requested pin \<longleftrightarrow> requested \<and> pin = None"

definition persisted_bash_auto_allows :: "permission_state \<Rightarrow> string \<Rightarrow> string option \<Rightarrow> bool" where
  "persisted_bash_auto_allows s cmd pin \<longleftrightarrow>
     ps_allow_bash_execute s \<and> pin = None \<or> cmd \<in> set (ps_allowed_bash_commands s)"

definition bash_request_floor_requires_prompt :: "bash_evaluation option \<Rightarrow> bool" where
  "bash_request_floor_requires_prompt evaluation =
     (case evaluation of
        None \<Rightarrow> False
      | Some e \<Rightarrow> \<not> be_exact_grant e \<and> constrains_broad_grant (be_assessment e))"

definition narrow_allow_clears_write_floor ::
  "host \<Rightarrow> bash_evaluation option \<Rightarrow> compiled_policy option \<Rightarrow> access_kind \<Rightarrow> bool"
where
  "narrow_allow_clears_write_floor h evaluation policy a \<longleftrightarrow>
     (case evaluation of
        None \<Rightarrow> False
      | Some e \<Rightarrow> is_file_write_only (be_assessment e) \<and> \<not> be_redirect_write e)
     \<and> (case policy of None \<Rightarrow> False | Some p \<Rightarrow> narrow_allow_authorizes h p a)"

definition bash_assessment_is_clear :: "bash_evaluation option \<Rightarrow> bool" where
  "bash_assessment_is_clear evaluation =
     (case evaluation of None \<Rightarrow> True | Some e \<Rightarrow> be_assessment e = {})"

definition classifier_assessment :: "bash_evaluation option \<Rightarrow> bool \<Rightarrow> assessment" where
  "classifier_assessment evaluation fail_closed_policy =
     (let a = (case evaluation of None \<Rightarrow> {} | Some e \<Rightarrow> be_assessment e)
      in if fail_closed_policy then insert FailClosedPolicy a else a)"

definition sandbox_may_auto_allow_bash :: "bash_evaluation option \<Rightarrow> bool \<Rightarrow> bool" where
  "sandbox_may_auto_allow_bash evaluation sandbox_active \<longleftrightarrow>
     sandbox_active \<and> \<not> bash_request_floor_requires_prompt evaluation"

subsection \<open>Decisions on remembered grants\<close>

definition SESSION_DENY :: string where "SESSION_DENY = ''session_deny''"
definition SESSION_GRANT :: string where "SESSION_GRANT = ''session_grant''"
definition SAFE_COMMAND :: string where "SAFE_COMMAND = ''safe_command''"
definition STATIC_ALLOWLIST :: string where "STATIC_ALLOWLIST = ''static_allowlist''"

record bash_grant_opts =
  go_honor_safe_lists :: bool
  go_allow_blanket :: bool
  go_conservative_blanket :: bool

definition PRE_CLASSIFIER :: bash_grant_opts where
  "PRE_CLASSIFIER =
     \<lparr>go_honor_safe_lists = True, go_allow_blanket = True, go_conservative_blanket = True\<rparr>"

definition ASK_FLOOR_REMEMBER :: bash_grant_opts where
  "ASK_FLOOR_REMEMBER =
     \<lparr>go_honor_safe_lists = False, go_allow_blanket = False, go_conservative_blanket = False\<rparr>"

definition post_classify :: "bool \<Rightarrow> bash_grant_opts" where
  "post_classify auto_forced_prompt =
     \<lparr>go_honor_safe_lists = True, go_allow_blanket = (\<not> auto_forced_prompt),
      go_conservative_blanket = False\<rparr>"

type_synonym pre_decision = "(decision \<times> string) option"

definition grant_allow :: "string \<Rightarrow> pre_decision" where
  "grant_allow reason = Some (Allow, reason)"

definition grant_if :: "bool \<Rightarrow> pre_decision" where
  "grant_if b = (if b then Some (Allow, SESSION_GRANT) else None)"

definition bash_grant_pre_decision ::
  "string \<Rightarrow> bash_evaluation \<Rightarrow> permission_state \<Rightarrow> string option \<Rightarrow> bash_grant_opts \<Rightarrow> pre_decision"
where
  "bash_grant_pre_decision cmd e s pin opts =
     (case be_segments e of
        SegReject reason \<Rightarrow> Some (Reject reason, SESSION_DENY)
      | _ \<Rightarrow>
        if bash_request_floor_requires_prompt (Some e) then None
        else case be_segments e of
            AutoAllow via_session_grant \<Rightarrow>
              if \<not> go_honor_safe_lists opts \<and> \<not> be_all_segments_granted e then None
              else grant_allow (if via_session_grant then SESSION_GRANT else SAFE_COMMAND)
          | NeedsPrompts _ \<Rightarrow>
              if \<not> go_allow_blanket opts then None
              else if go_conservative_blanket opts \<and> DangerousCommand \<in> be_assessment e
              then grant_if (be_exact_grant e)
              else grant_if (persisted_bash_auto_allows s cmd pin)
          | Unparseable \<Rightarrow>
              if \<not> go_allow_blanket opts then None
              else grant_if (if go_conservative_blanket opts then be_exact_grant e
                             else persisted_bash_auto_allows s cmd pin))"

definition session_grant_pre_decision ::
  "host \<Rightarrow> access_kind \<Rightarrow> bash_evaluation option \<Rightarrow> permission_state \<Rightarrow> bool \<Rightarrow> domain_matcher
     \<Rightarrow> bool \<Rightarrow> string option \<Rightarrow> pre_decision"
where
  "session_grant_pre_decision h a evaluation s allow_edits matcher honor_static pin =
     (case a of
        MCPTool name _ \<Rightarrow>
          map_option (\<lambda>d. (d, case d of Reject _ \<Rightarrow> SESSION_DENY | _ \<Rightarrow> SESSION_GRANT))
            (mcp_pre_decision name s False False)
      | WebFetch url \<Rightarrow>
          (case web_fetch_deny_pre_decision h url s of
             Some reject \<Rightarrow> Some (reject, SESSION_DENY)
           | None \<Rightarrow>
               if honor_static \<and> domain_matcher_permits h matcher url then grant_allow STATIC_ALLOWLIST
               else case h_url_host h url of
                   None \<Rightarrow> None
                 | Some hst \<Rightarrow>
                     if normalize_domain h hst \<in> set (ps_allowed_web_fetch_domains s)
                     then grant_allow SESSION_GRANT else None)
      | Edit _ \<Rightarrow> if allow_edits then grant_allow SESSION_GRANT else None
      | Bash cmd \<Rightarrow>
          Option.bind evaluation (\<lambda>e. bash_grant_pre_decision cmd e s pin PRE_CLASSIFIER)
      | _ \<Rightarrow> None)"

definition always_allow_row_is_effective :: "host \<Rightarrow> string \<Rightarrow> bool" where
  "always_allow_row_is_effective h cmd =
     (case primary_command_from_script (h_parse h) cmd of
        None \<Rightarrow> False
      | Some b \<Rightarrow>
          let scope = default_always_allow_scope (bh_highlighted_words b) in
          if \<not> always_allow_scope_persists h b scope then False
          else
            let scratch = persist_bash_always_allow h permission_state_default cmd
                  (join '' '' (take scope (bh_highlighted_words b)))
            in (case bash_grant_pre_decision cmd (evaluate_bash h cmd scratch True) scratch None
                  PRE_CLASSIFIER of
                  Some (Allow, _) \<Rightarrow> True | _ \<Rightarrow> False))"

subsection \<open>Keys\<close>

lemma minimum_scope_bounds:
  "words \<noteq> [] \<Longrightarrow> 1 \<le> minimum_always_allow_scope words \<and> minimum_always_allow_scope words \<le> length words"
  using gh_scope_bounds[of words]
  by (cases words) (auto simp: minimum_always_allow_scope_def split: option.split)

text \<open>Joining a longer prefix of an argv gives a longer text, so a label names one scope.\<close>

lemma length_join: "ws \<noteq> [] \<Longrightarrow> length (join '' '' (ws @ [w])) = length (join '' '' ws) + 1 + length w"
proof (induction ws)
  case (Cons a ws)
  then show ?case by (cases "ws = []") (simp_all add: join_Cons)
qed simp

lemma join_take_mono:
  "1 \<le> m \<Longrightarrow> m < n \<Longrightarrow> n \<le> length words \<Longrightarrow>
     length (join '' '' (take m words)) < length (join '' '' (take n words))"
proof (induction n)
  case (Suc n)
  have n: "take (Suc n) words = take n words @ [words ! n]"
    using Suc.prems by (simp add: take_Suc_conv_app_nth)
  have "take n words \<noteq> []" using Suc.prems by auto
  then have "length (join '' '' (take n words)) < length (join '' '' (take (Suc n) words))"
    unfolding n by (simp add: length_join)
  with Suc show ?case by (cases "m = n") auto
qed simp

lemma join_take_inj:
  assumes "1 \<le> m" "m \<le> length words" "1 \<le> n" "n \<le> length words"
    and "join '' '' (take m words) = join '' '' (take n words)"
  shows "m = n"
  using assms join_take_mono[of m n words] join_take_mono[of n m words]
  by (cases m n rule: linorder_cases) simp_all

text \<open>A key minted from an unambiguous argv determines it.\<close>

lemma unambiguous_join_inj:
  assumes "words_join_unambiguously h a" "words_join_unambiguously h b" "join '' '' a = join '' '' b"
  shows "a = b"
  using assms by (auto simp: words_join_unambiguously_def Let_def split: option.splits list.splits)

lemma labeled_words_verified_iff:
  assumes "1 \<le> n" "n \<le> length words"
  shows "labeled_words_verified h words (join '' '' (take n words)) \<longleftrightarrow>
     minimum_always_allow_scope words \<le> n \<and> words_join_unambiguously h (take n words)"
proof
  assume "labeled_words_verified h words (join '' '' (take n words))"
  then obtain m where m: "minimum_always_allow_scope words \<le> m" "m \<le> length words"
    "words_join_unambiguously h (take m words)" "join '' '' (take m words) = join '' '' (take n words)"
    by (auto simp: labeled_words_verified_def list_ex_iff)
  have "words \<noteq> []" using assms by auto
  with m minimum_scope_bounds[of words] assms have "m = n"
    using join_take_inj[of m words n] by linarith
  with m show "minimum_always_allow_scope words \<le> n \<and> words_join_unambiguously h (take n words)" by simp
next
  assume r: "minimum_always_allow_scope words \<le> n \<and> words_join_unambiguously h (take n words)"
  then have "n \<in> set [minimum_always_allow_scope words..<Suc (length words)]" using assms by auto
  with r show "labeled_words_verified h words (join '' '' (take n words))"
    unfolding labeled_words_verified_def list_ex_iff by blast
qed

lemma join_is_full_iff:
  assumes "1 \<le> n" "n \<le> length words"
  shows "join '' '' words = join '' '' (take n words) \<longleftrightarrow> n = length words"
  using join_take_inj[of "length words" words n] assms by fastforce

text \<open>Accepting "always allow" at an offered scope stores exactly what the prompt promised: when
  the scope can persist, the joined words of the label if they re-parse to that very argv, and
  otherwise the raw script; when it cannot (a dangerous verb or vehicle at less than its full
  command, an ambiguous join, a script with anything around the command), nothing.\<close>

theorem always_allow_stores_the_label:
  assumes "primary_command_from_script (h_parse h) cmd = Some b"
    and "1 \<le> n" and "n \<le> length (bh_highlighted_words b)"
  shows "persist_bash_always_allow h s cmd (join '' '' (take n (bh_highlighted_words b))) =
    (if always_allow_scope_persists h b n
     then allow_command (if words_join_unambiguously h (take n (bh_highlighted_words b))
                         then join '' '' (take n (bh_highlighted_words b)) else cmd) s
     else s)"
proof -
  have "bh_highlighted_words b \<noteq> []" using assms by auto
  then have "minimum_always_allow_scope (bh_highlighted_words b) \<le> length (bh_highlighted_words b)"
    using minimum_scope_bounds by blast
  then show ?thesis
    using assms
    by (auto simp: persist_bash_always_allow_def always_allow_scope_persists_def Let_def
        labeled_words_verified_iff join_is_full_iff)
qed

lemma always_allow_stores_the_label_witness:
  "persist_bash_always_allow demo_host permission_state_default ''timeout 5 cargo test'' ''cargo test''
     = allow_command ''cargo test'' permission_state_default
   \<and> persist_bash_always_allow demo_host permission_state_default ''git push origin'' ''git push''
     = permission_state_default"
proof
  let ?b = "the (primary_command_from_script demo_parse ''timeout 5 cargo test'')"
  have p: "h_parse demo_host = demo_parse" by (simp add: demo_host_def)
  have "primary_command_from_script demo_parse ''timeout 5 cargo test'' = Some ?b" by code_simp
  moreover have w: "bh_highlighted_words ?b = [''cargo'', ''test'']" by code_simp
  moreover have "always_allow_scope_persists demo_host ?b 2" by code_simp
  moreover have "words_join_unambiguously demo_host [''cargo'', ''test'']" by code_simp
  ultimately show "persist_bash_always_allow demo_host permission_state_default ''timeout 5 cargo test'' ''cargo test''
     = allow_command ''cargo test'' permission_state_default"
    using always_allow_stores_the_label[of demo_host "''timeout 5 cargo test''" ?b 2 permission_state_default]
    by (simp add: p)
next
  let ?b = "the (primary_command_from_script demo_parse ''git push origin'')"
  have p: "h_parse demo_host = demo_parse" by (simp add: demo_host_def)
  have "primary_command_from_script demo_parse ''git push origin'' = Some ?b" by code_simp
  moreover have w: "bh_highlighted_words ?b = [''git'', ''push'', ''origin'']" by code_simp
  moreover have "\<not> always_allow_scope_persists demo_host ?b 2" by code_simp
  ultimately show "persist_bash_always_allow demo_host permission_state_default ''git push origin'' ''git push''
     = permission_state_default"
    using always_allow_stores_the_label[of demo_host "''git push origin''" ?b 2 permission_state_default]
    by (simp add: p)
qed

subsection \<open>Broad grants respect the floors\<close>

text \<open>What a floor-free script is: no unsafe write, no environment risk, no opaque shell and no
  execution risk in any segment, and no special surface without its own exact grant.\<close>

definition floor_free :: "permission_state \<Rightarrow> node \<Rightarrow> string \<Rightarrow> plain_command list \<Rightarrow> bool" where
  "floor_free s root cmd cs \<longleftrightarrow>
     \<not> unsafe_redirect_write (command_write_paths_split root cmd)
     \<and> list_all is_safe_write_sink (word_paths (command_write_paths_split root cmd))
     \<and> script_env_risk root cmd cs = EnvSafe
     \<and> list_all (\<lambda>c. \<not> words_are_opaque_shell (map WordLiteral (segment_words c))
          \<and> \<not> sf_exec_risk (segment_exec_facts_of (pc_words c))) cs
     \<and> list_all (\<lambda>c. is_setup_command (segment_words c) \<or> is_dangerous_command_words (segment_words c)
          \<or> \<not> held_special s (segment_words c)) cs"

lemma base_assessment_clear:
  "\<not> constrains_broad_grant (base_assessment root cmd (Some cs)) \<Longrightarrow>
     \<not> unsafe_redirect_write (command_write_paths_split root cmd)
     \<and> list_all is_safe_write_sink (word_paths (command_write_paths_split root cmd))
     \<and> script_env_risk root cmd cs = EnvSafe"
  by (cases "script_env_risk root cmd cs")
    (auto simp: base_assessment_def constrains_broad_grant_def Let_def list_ex_iff list_all_iff
      split: if_splits)

lemma segment_findings_clear:
  "\<not> constrains_broad_grant (segment_findings s c) \<Longrightarrow>
     \<not> words_are_opaque_shell (map WordLiteral (segment_words c))
     \<and> \<not> sf_exec_risk (segment_exec_facts_of (pc_words c))
     \<and> (is_setup_command (segment_words c) \<or> is_dangerous_command_words (segment_words c)
        \<or> \<not> held_special s (segment_words c))"
  by (auto simp: segment_findings_def constrains_broad_grant_def split: if_splits)

lemma constrains_Un:
  "constrains_broad_grant (a \<union> b) \<longleftrightarrow> constrains_broad_grant a \<or> constrains_broad_grant b"
  "constrains_broad_grant (\<Union>x \<in> X. f x) \<longleftrightarrow> (\<exists>x \<in> X. constrains_broad_grant (f x))"
  by (auto simp: constrains_broad_grant_def)

lemma floors_clear:
  assumes "\<not> constrains_broad_grant (base_assessment root cmd (Some cs) \<union> (\<Union>c \<in> set cs. segment_findings s c))"
  shows "floor_free s root cmd cs"
  using assms base_assessment_clear[of root cmd cs] segment_findings_clear[of s]
  by (simp add: floor_free_def constrains_Un list_all_iff)

lemma dangerous_in_findings:
  assumes "DangerousCommand \<notin> a \<union> (\<Union>c \<in> set cs. segment_findings s c)" "c \<in> set cs"
    "\<not> is_setup_command (segment_words c)"
  shows "\<not> is_dangerous_command_words (segment_words c)"
  using assms by (auto simp: segment_findings_def split: if_splits)

text \<open>The evaluation of a decomposed script that no deny stops, as equations.\<close>

lemma evaluate_bash_no_deny:
  assumes "all_commands_from_script (h_parse h) cmd = Some cs" "list_all (\<lambda>c. \<not> denied_segment s c) cs"
  obtains root e where "h_parse h cmd = Some root" "evaluate_bash h cmd s honor = e"
    "be_exact_grant e = whole_script_grant h cmd cs s"
    "be_assessment e = base_assessment root cmd (Some cs) \<union> (\<Union>c \<in> set cs. segment_findings s c)"
    "be_all_segments_granted e \<longleftrightarrow>
       list_all (\<lambda>c. is_setup_command (segment_words c) \<or> matched_grant h s (segment_words c)) cs"
    "if list_all (cleared_segment h s honor) cs then \<exists>g. be_segments e = AutoAllow g
     else \<exists>l. be_segments e = NeedsPrompts l"
proof -
  from evaluate_bash_decomposed[OF assms(1), of s honor] obtain root where
    r: "h_parse h cmd = Some root" "evaluate_bash h cmd s honor = decomposed_evaluation h cmd s honor root cs"
    by blast
  from decomposed_no_deny[OF assms(2), of h honor "base_assessment root cmd (Some cs)"] obtain acc where
    a: "scan_segments h s honor cs (segment_start (base_assessment root cmd (Some cs))) = Inr acc"
      "sa_needs_prompt acc =
        map (\<lambda>c. join '' '' (segment_words c)) (filter (\<lambda>c. \<not> cleared_segment h s honor c) cs)"
      "sa_assessment acc = base_assessment root cmd (Some cs) \<union> (\<Union>c \<in> set cs. segment_findings s c)"
      "sa_all_granted acc \<longleftrightarrow>
        list_all (\<lambda>c. is_setup_command (segment_words c) \<or> matched_grant h s (segment_words c)) cs" by blast
  show ?thesis
  proof (rule that[OF r])
    let ?e = "decomposed_evaluation h cmd s honor root cs"
    show "be_exact_grant ?e = whole_script_grant h cmd cs s"
      by (simp add: decomposed_evaluation_def Let_def a(1))
    show "be_assessment ?e = base_assessment root cmd (Some cs) \<union> (\<Union>c \<in> set cs. segment_findings s c)"
      by (simp only: decomposed_evaluation_def Let_def a(1) sum.case bash_evaluation.simps a(3))
    show "be_all_segments_granted ?e \<longleftrightarrow>
       list_all (\<lambda>c. is_setup_command (segment_words c) \<or> matched_grant h s (segment_words c)) cs"
      by (simp only: decomposed_evaluation_def Let_def a(1) sum.case bash_evaluation.simps a(4))
    have e: "be_segments ?e = (if sa_needs_prompt acc = [] then AutoAllow (sa_via_session_grant acc)
        else NeedsPrompts (sa_needs_prompt acc))"
      by (simp only: decomposed_evaluation_def Let_def a(1) sum.case bash_evaluation.simps)
    have "sa_needs_prompt acc = [] \<longleftrightarrow> list_all (cleared_segment h s honor) cs"
      unfolding a(2) by (auto simp: list_all_iff filter_empty_conv)
    then show "if list_all (cleared_segment h s honor) cs then \<exists>g. be_segments ?e = AutoAllow g
        else \<exists>l. be_segments ?e = NeedsPrompts l" unfolding e by simp
  qed
qed

lemma rejected_when_denied:
  assumes "all_commands_from_script (h_parse h) cmd = Some cs" "\<not> list_all (\<lambda>c. \<not> denied_segment s c) cs"
  shows "\<exists>m. be_segments (evaluate_bash h cmd s honor) = SegReject m"
proof -
  from evaluate_bash_decomposed[OF assms(1), of s honor] obtain root where
    e: "evaluate_bash h cmd s honor = decomposed_evaluation h cmd s honor root cs" by blast
  obtain m r where "scan_segments h s honor cs (segment_start (base_assessment root cmd (Some cs))) = Inl (m, r)"
    using assms(2) scan_Inr by (metis sum.exhaust surj_pair)
  then have "be_segments (decomposed_evaluation h cmd s honor root cs) = SegReject m"
    by (simp only: decomposed_evaluation_def Let_def sum.case prod.case bash_evaluation.simps)
  with e show ?thesis by metis
qed

text \<open>What an allow of \<open>bash_grant_pre_decision\<close> rests on, for any evaluation.\<close>

lemma grant_decision_allow:
  assumes "bash_grant_pre_decision cmd e s pin opts = Some (Allow, r)" "\<not> be_exact_grant e"
  shows "\<not> constrains_broad_grant (be_assessment e)"
    and "(\<exists>g. be_segments e = AutoAllow g) \<and> (go_honor_safe_lists opts \<or> be_all_segments_granted e)
      \<or> go_allow_blanket opts \<and> persisted_bash_auto_allows s cmd pin
        \<and> ((\<exists>l. be_segments e = NeedsPrompts l)
             \<and> (go_conservative_blanket opts \<longrightarrow> DangerousCommand \<notin> be_assessment e)
           \<or> be_segments e = Unparseable \<and> \<not> go_conservative_blanket opts)"
  using assms
  by (auto simp: bash_grant_pre_decision_def bash_request_floor_requires_prompt_def grant_if_def
      split: segment_evaluation.splits if_splits)

text \<open>The two ways a script may be allowed without an exact grant of the whole of it.\<close>

definition blanket_applies :: "permission_state \<Rightarrow> string option \<Rightarrow> bash_grant_opts \<Rightarrow> bool" where
  "blanket_applies s pin opts \<longleftrightarrow> go_allow_blanket opts \<and> ps_allow_bash_execute s \<and> pin = None"

lemma persisted_not_exact:
  "persisted_bash_auto_allows s cmd pin \<Longrightarrow> go_allow_blanket opts \<Longrightarrow>
     cmd \<notin> set (ps_allowed_bash_commands s) \<Longrightarrow> blanket_applies s pin opts"
  by (simp add: persisted_bash_auto_allows_def blanket_applies_def)

lemma undecomposed_allow:
  assumes "bash_grant_pre_decision cmd (evaluate_bash h cmd s honor) s pin opts = Some (Allow, r)"
    and "\<not> be_exact_grant (evaluate_bash h cmd s honor)"
    and "all_commands_from_script (h_parse h) cmd = None"
  shows "blanket_applies s pin opts \<and> \<not> go_conservative_blanket opts \<and> \<not> script_may_invoke_git cmd"
proof -
  from evaluate_bash_undecomposed[OF assms(3)] obtain a where
    e: "evaluate_bash h cmd s honor = undecomposable_evaluation cmd s a" by blast
  have "cmd \<notin> set (ps_allowed_bash_commands s)"
    using assms(2) by (simp add: e undecomposable_evaluation_def)
  moreover have "\<not> script_may_invoke_git cmd"
    using grant_decision_allow(1)[OF assms(1,2)]
    by (auto simp: e undecomposable_evaluation_def unparseable_exec_risk_def constrains_broad_grant_def
        split: if_splits)
  moreover have "go_allow_blanket opts \<and> persisted_bash_auto_allows s cmd pin \<and> \<not> go_conservative_blanket opts"
    using grant_decision_allow(2)[OF assms(1,2)] undecomposable_segments[of cmd s a]
    by (auto simp: e split: option.splits)
  ultimately show ?thesis using persisted_not_exact by blast
qed

text \<open>When remembered grants let a Bash request run and the whole script is not itself an exact
  grant, the floors hold: no command of it is denied, it writes no file outside the safe sinks,
  sets no risky environment, runs no opaque shell, no git exec risk and no special surface; and
  either every command is granted or safe on its own account (every one granted, where the safe
  lists do not count), or the blanket grant applies, which a managed pin switches off and which,
  before the classifier, excludes dangerous commands.  A script that does not decompose rests on
  the blanket alone, after the classifier, and cannot reach git.\<close>

theorem broad_grant_sound:
  assumes "bash_grant_pre_decision cmd (evaluate_bash h cmd s honor) s pin opts = Some (Allow, r)"
    and "\<not> be_exact_grant (evaluate_bash h cmd s honor)"
  shows "(case all_commands_from_script (h_parse h) cmd of
      None \<Rightarrow> blanket_applies s pin opts \<and> \<not> go_conservative_blanket opts \<and> \<not> script_may_invoke_git cmd
    | Some cs \<Rightarrow>
        list_all (\<lambda>c. \<not> denied_segment s c) cs
        \<and> (\<exists>root. h_parse h cmd = Some root \<and> floor_free s root cmd cs)
        \<and> (list_all (cleared_segment h s honor) cs
             \<and> (go_honor_safe_lists opts
                \<or> list_all (\<lambda>c. is_setup_command (segment_words c) \<or> matched_grant h s (segment_words c)) cs)
           \<or> blanket_applies s pin opts
             \<and> (go_conservative_blanket opts \<longrightarrow>
                list_all (\<lambda>c. is_setup_command (segment_words c)
                  \<or> \<not> is_dangerous_command_words (segment_words c)) cs)))"
proof (cases "all_commands_from_script (h_parse h) cmd")
  case None
  with undecomposed_allow[OF assms] show ?thesis by simp
next
  case (Some cs)
  have nd: "list_all (\<lambda>c. \<not> denied_segment s c) cs"
  proof (rule ccontr)
    assume "\<not> ?thesis"
    from rejected_when_denied[OF Some this, of honor] grant_decision_allow(2)[OF assms] show False by auto
  qed
  obtain root e where r: "h_parse h cmd = Some root" "evaluate_bash h cmd s honor = e"
    and x: "be_exact_grant e = whole_script_grant h cmd cs s"
    and a: "be_assessment e = base_assessment root cmd (Some cs) \<union> (\<Union>c \<in> set cs. segment_findings s c)"
    and g: "be_all_segments_granted e \<longleftrightarrow>
       list_all (\<lambda>c. is_setup_command (segment_words c) \<or> matched_grant h s (segment_words c)) cs"
    and seg: "if list_all (cleared_segment h s honor) cs then \<exists>g. be_segments e = AutoAllow g
     else \<exists>l. be_segments e = NeedsPrompts l"
    by (rule evaluate_bash_no_deny[OF Some nd])
  note d = grant_decision_allow[OF assms, unfolded r(2)]
  have fl: "floor_free s root cmd cs" using d(1) unfolding a by (rule floors_clear)
  have "cmd \<notin> set (ps_allowed_bash_commands s)"
    using assms(2) by (auto simp: r(2) x whole_script_grant_def split: list.splits)
  then have blanket: "blanket_applies s pin opts"
    if "go_allow_blanket opts" "persisted_bash_auto_allows s cmd pin"
    using that persisted_not_exact by blast
  have calm: "list_all (\<lambda>c. is_setup_command (segment_words c)
      \<or> \<not> is_dangerous_command_words (segment_words c)) cs"
    if "DangerousCommand \<notin> be_assessment e"
    using dangerous_in_findings[OF that[unfolded a]] by (auto simp: list_all_iff)
  show ?thesis
    using Some nd r(1) fl d(2) seg blanket calm by (auto simp: g split: if_splits)
qed

definition grants_cargo :: permission_state where
  "grants_cargo = permission_state_default\<lparr>ps_allowed_bash_commands := [''cargo test'']\<rparr>"

lemma broad_grant_sound_witness:
  "\<exists>root cs. h_parse demo_host ''ls src && cargo test --all'' = Some root
     \<and> all_commands_from_script demo_parse ''ls src && cargo test --all'' = Some cs
     \<and> length cs = 2 \<and> floor_free grants_cargo root ''ls src && cargo test --all'' cs"
proof -
  let ?s = "''ls src && cargo test --all''"
  let ?e = "evaluate_bash demo_host ?s grants_cargo True"
  have p: "h_parse demo_host = demo_parse" by (simp add: demo_host_def)
  have "be_segments ?e = AutoAllow True" by code_simp
  moreover have x: "\<not> be_exact_grant ?e" by code_simp
  moreover have f: "be_assessment ?e = {}" by code_simp
  ultimately have "bash_grant_pre_decision ?s ?e grants_cargo None PRE_CLASSIFIER = Some (Allow, SESSION_GRANT)"
    by (simp add: bash_grant_pre_decision_def bash_request_floor_requires_prompt_def
        constrains_broad_grant_def PRE_CLASSIFIER_def grant_allow_def)
  note t = broad_grant_sound[OF this x]
  have "map_option length (all_commands_from_script demo_parse ?s) = Some 2" by code_simp
  then obtain cs where cs: "all_commands_from_script demo_parse ?s = Some cs" "length cs = 2" by auto
  with t show ?thesis by (auto simp: p)
qed

subsection \<open>Remembered denies win\<close>

definition covers_domain :: "string \<Rightarrow> string \<Rightarrow> bool" where
  "covers_domain base domain \<longleftrightarrow>
     base \<noteq> [] \<and> (domain = base \<or> (\<exists>sub. sub \<noteq> [] \<and> domain = sub @ ''.'' @ base))"

definition remembered_deny :: "host \<Rightarrow> permission_state \<Rightarrow> access_kind \<Rightarrow> bool" where
  "remembered_deny h s a =
     (case a of
        MCPTool name _ \<Rightarrow> name \<in> set (ps_disallowed_mcp_tools s)
      | WebFetch url \<Rightarrow>
          (case h_url_host h url of
             None \<Rightarrow> False
           | Some hst \<Rightarrow> \<exists>d \<in> set (ps_disallowed_web_fetch_domains s). covers_domain d (web_fetch_deny_key h hst))
      | Bash cmd \<Rightarrow>
          (case all_commands_from_script (h_parse h) cmd of
             None \<Rightarrow> \<exists>d \<in> set (ps_disallowed_bash_commands s). matches_command_prefix cmd d
           | Some cs \<Rightarrow> \<exists>c \<in> set cs. denied_segment s c)
      | _ \<Rightarrow> False)"

definition request_evaluation :: "host \<Rightarrow> permission_state \<Rightarrow> access_kind \<Rightarrow> bash_evaluation option" where
  "request_evaluation h s a =
     (case a of Bash cmd \<Rightarrow> Some (evaluate_bash h cmd s True) | _ \<Rightarrow> None)"

lemma find_ex: "(\<exists>x. find P xs = Some x) \<longleftrightarrow> (\<exists>x \<in> set xs. P x)"
  by (induction xs) auto

lemma rejected_iff_denied:
  "(\<exists>m. be_segments (evaluate_bash h cmd s honor) = SegReject m) \<longleftrightarrow> remembered_deny h s (Bash cmd)"
proof (cases "all_commands_from_script (h_parse h) cmd")
  case None
  from evaluate_bash_undecomposed[OF None] obtain a where
    "evaluate_bash h cmd s honor = undecomposable_evaluation cmd s a" by blast
  with None show ?thesis
    using find_ex[of "matches_command_prefix cmd" "ps_disallowed_bash_commands s"]
    by (auto simp: remembered_deny_def undecomposable_segments split: option.splits)
next
  case (Some cs)
  show ?thesis
  proof (cases "list_all (\<lambda>c. \<not> denied_segment s c) cs")
    case True
    from evaluate_bash_no_deny[OF Some True, of honor] obtain e where
      "evaluate_bash h cmd s honor = e"
      "if list_all (cleared_segment h s honor) cs then \<exists>g. be_segments e = AutoAllow g
       else \<exists>l. be_segments e = NeedsPrompts l" by metis
    with True Some show ?thesis by (auto simp: remembered_deny_def list_all_iff split: if_splits)
  next
    case False
    with rejected_when_denied[OF Some False, of honor] Some show ?thesis
      by (auto simp: remembered_deny_def list_all_iff)
  qed
qed

lemma web_fetch_decision:
  "web_fetch_deny_pre_decision h url s = None \<and> \<not> remembered_deny h s (WebFetch url)
   \<or> (\<exists>m. web_fetch_deny_pre_decision h url s = Some (Reject m)) \<and> remembered_deny h s (WebFetch url)"
proof (cases "h_url_host h url")
  case None
  then show ?thesis by (simp add: web_fetch_deny_pre_decision_def remembered_deny_def)
next
  case (Some hst)
  let ?m = "deny_entry_matches (web_fetch_deny_key h hst)"
  have r: "remembered_deny h s (WebFetch url) \<longleftrightarrow> (\<exists>d. find ?m (ps_disallowed_web_fetch_domains s) = Some d)"
    using Some by (simp add: remembered_deny_def covers_domain_def deny_entry_matches_iff find_ex)
  have "web_fetch_deny_pre_decision h url s =
      map_option (\<lambda>d. Reject (rejected_message d)) (find ?m (ps_disallowed_web_fetch_domains s))"
    using Some by (simp add: web_fetch_deny_pre_decision_def denied_web_fetch_domain_def)
  then show ?thesis unfolding r by (cases "find ?m (ps_disallowed_web_fetch_domains s)") simp_all
qed

text \<open>C26: a remembered deny wins over everything the session has granted: the pre-decision on a request
  rejects exactly when a remembered deny covers it, a Bash command of the script, the MCP tool by
  name, or the host of the fetch or a parent domain of it, whatever grants, safe lists, static web
  allowlist or session edit permission would say.\<close>

theorem remembered_deny_wins:
  "(\<exists>m r. session_grant_pre_decision h a (request_evaluation h s a) s edits matcher static pin
      = Some (Reject m, r)) \<longleftrightarrow> remembered_deny h s a"
proof (cases a)
  case (MCPTool name args)
  then show ?thesis
    by (simp add: session_grant_pre_decision_def remembered_deny_def mcp_pre_decision_def)
next
  case (WebFetch url)
  with web_fetch_decision[of h url s] show ?thesis
    by (auto simp: session_grant_pre_decision_def grant_allow_def split: option.splits if_splits)
next
  case (Bash cmd)
  then show ?thesis
    unfolding Bash rejected_iff_denied[of h cmd s True, symmetric]
    by (auto simp: session_grant_pre_decision_def request_evaluation_def bash_grant_pre_decision_def
        grant_allow_def grant_if_def split: segment_evaluation.splits if_splits)
qed (simp_all add: session_grant_pre_decision_def remembered_deny_def grant_allow_def)

subsection \<open>Grants minted per segment\<close>

text \<open>The grants a "don't ask again" mints for the parts of a script are at most five, each the
  unambiguous join of a command the script runs that is neither dangerous nor an execution vehicle
  nor setup, so that parsing the key gives back that argv; no key is minted from anything else.\<close>

theorem segment_grants_sound:
  "length (bash_grant_segments h cmd) \<le> MAX_SEGMENT_GRANTS
   \<and> set (bash_grant_segments h cmd) \<subseteq>
      {join '' '' w | w. mints_segment_grant h w
         \<and> map_option (map pc_words) (all_commands_from_script (h_parse h) (join '' '' w)) = Some [w]
         \<and> w \<in> segment_words ` set (the (all_commands_from_script (h_parse h) cmd))}"
proof -
  have "map_option (map pc_words) (all_commands_from_script (h_parse h) (join '' '' w)) = Some [w]"
    if "mints_segment_grant h w" for w
    using that by (auto simp: mints_segment_grant_def words_join_unambiguously_def Let_def
        split: option.splits list.splits)
  then show ?thesis
    by (auto simp: bash_grant_segments_def Let_def segment_words_def split: option.splits)
qed

end
