(* ===== verification/Policy_Properties.thy ===== *)
theory Policy_Properties
  imports Policy
begin

text \<open>
  The properties of the compiled policy, each with a concrete policy on which its hypotheses
  hold, and the one budget at which the normalisation loses sight of a packed command.
\<close>

subsection \<open>A silent gate\<close>

lemma command_words_none:
  assumes "evaluate_command_words h p recurse raw = None"
  shows "escalate h p raw = None"
    "escalate h p (wp_words (normalize_command_words raw)) = None"
    "inline_verdict recurse (wp_words (normalize_command_words raw)) = None"
    "packed_verdict recurse (wp_words (normalize_command_words raw)) = None"
    "\<not> normalized_flagged (normalize_command_words raw)"
proof -
  let ?inner = "wp_words (normalize_command_words raw)"
  have same: "?inner = raw" if "length ?inner = length raw"
    using that normalize_words_suffix suffix_same_length by blast
  from assms have e: "escalate h p raw = None" and i: "length ?inner \<noteq> length raw \<Longrightarrow> escalate h p ?inner = None"
    by (auto simp: evaluate_command_words_def Let_def gate.combine_none_iff split: if_splits)
  show "escalate h p raw = None" by (rule e)
  show "escalate h p ?inner = None" using e i same by (cases "length ?inner = length raw") simp_all
  show "inline_verdict recurse ?inner = None" "packed_verdict recurse ?inner = None"
    using assms by (simp_all add: evaluate_command_words_def Let_def gate.combine_none_iff)
  show "\<not> normalized_flagged (normalize_command_words raw)"
    using assms
    by (auto simp: evaluate_command_words_def Let_def gate.combine_none_iff normalized_flagged_def
        ask_floor_def split: if_splits)
qed

lemma segments_verdict_none:
  "segments_verdict h p recurse cmd = None \<longleftrightarrow>
     (\<exists>cs. all_commands_from_script (h_parse h) cmd = Some cs
        \<and> (\<forall>c \<in> set cs. evaluate_command_words h p recurse (pc_words c) = None))"
proof (cases "all_commands_from_script (h_parse h) cmd")
  case (Some cs)
  then have "segments_verdict h p recurse cmd =
      foldl combine_gate_decisions None (map (\<lambda>c. evaluate_command_words h p recurse (pc_words c)) cs)"
    by (simp add: segments_verdict_def foldl_map)
  then have "segments_verdict h p recurse cmd = None \<longleftrightarrow>
      (\<forall>c \<in> set cs. evaluate_command_words h p recurse (pc_words c) = None)"
    by (simp only: gate.fold_none_iff) simp
  with Some show ?thesis by simp
qed (simp add: segments_verdict_def)

lemma segments_none_runs:
  "runs h pk n cmd ws \<Longrightarrow> evaluate_bash_command_segments h p n cmd = None \<Longrightarrow>
     escalate h p ws = None \<and> escalate h p (wp_words (normalize_command_words ws)) = None"
proof (induction rule: runs.induct)
  case (direct cmd cs c n)
  then obtain recurse where "evaluate_command_words h p recurse (pc_words c) = None"
    by (cases n) (auto simp: segments_verdict_none)
  then show ?case using command_words_none(1,2) by blast
next
  case (inline cmd cs c inner i n ws)
  then have "evaluate_command_words h p (Some (evaluate_bash_command_segments h p n)) (pc_words c) = None"
    by (auto simp: segments_verdict_none)
  from command_words_none(3)[OF this] inline show ?case
    by (simp add: inline_verdict_def nested_script_def)
next
  case (packed cmd cs c s n ws)
  then have "evaluate_command_words h p (Some (evaluate_bash_command_segments h p n)) (pc_words c) = None"
    by (auto simp: segments_verdict_none)
  from command_words_none(4)[OF this] packed show ?case
    by (simp add: packed_verdict_def nested_script_def)
qed

lemma escalate_none_iff:
  "escalate h p ws = None \<longleftrightarrow>
     (\<forall>r. evaluate h p (Bash (join '' '' ws)) \<noteq> Some (Reject r)) \<and> evaluate h p (Bash (join '' '' ws)) \<noteq> Some Ask"
  by (auto simp: escalate_def split: option.splits decision.splits)

lemma applying_bash_restricted:
  assumes "applying h (Bash cmd) cwd act rules" "act = RDeny \<or> act = RAsk"
  shows "cp_has_bash_command_restrictions (compiled_policy_new h rules)"
proof -
  from assms(1) obtain r where "r \<in> set rules" "tool_filter_matches (Bash cmd) (pr_tool r)" "pr_action r = act"
    by (auto simp: applying_def list_ex_iff rule_applies_def)
  with assms(2) show ?thesis
    by (cases "pr_tool r")
      (auto simp: compiled_policy_new_def list_ex_iff restricts_def bash_or_any_def)
qed

lemma unrestricted_escalate:
  assumes "\<not> cp_has_bash_command_restrictions (compiled_policy_new h rules)"
  shows "escalate h (compiled_policy_new h rules) ws = None"
  using assms applying_bash_restricted[of h "join '' '' ws" None _ rules]
  by (auto simp: escalate_none_iff evaluate_bash evaluate_lexical_reject_iff evaluate_lexical_ask_iff
      simp flip: not_ex)

lemma bash_words_allowed_has_rule:
  assumes "bash_words_allowed h (compiled_policy_new h rules) ws scope"
  shows "cp_has_bash_allow_rules (compiled_policy_new h rules)"
proof -
  from assms obtain r where "r \<in> set rules" "pr_action r = RAllow" "bash_or_any r"
    unfolding bash_words_allowed_def compiled_zip3
    by (auto simp: list_ex_iff Let_def split: if_splits)
  then show ?thesis by (auto simp: compiled_policy_new_def list_ex_iff)
qed

lemma chain_allowed_obtain:
  assumes "bash_chain_fully_allowed h p scope n cmd"
  obtains recurse where "chain_allowed_with h p scope recurse cmd"
  using assms by (cases n) auto

lemma chain_allowed_has_rule:
  assumes "bash_chain_fully_allowed h (compiled_policy_new h rules) scope n cmd"
  shows "cp_has_bash_allow_rules (compiled_policy_new h rules)"
proof -
  from assms obtain cs recurse where cs: "cs \<noteq> []"
    "list_all (segment_allowed h (compiled_policy_new h rules) scope recurse) cs"
    by (cases n) (auto simp: chain_allowed_with_def split: option.splits)
  then obtain c where "segment_allowed h (compiled_policy_new h rules) scope recurse c"
    by (cases cs) auto
  from segment_allowed_facts(2)[OF this] show ?thesis by (rule bash_words_allowed_has_rule)
qed

subsection \<open>A concrete policy\<close>

definition demo_rules :: "permission_rule list" where
  "demo_rules =
     [\<lparr>pr_action = RAllow, pr_tool = BashTool, pr_pattern = Some ''git'', pr_mode = GlobMode\<rparr>,
      \<lparr>pr_action = RAllow, pr_tool = BashTool, pr_pattern = Some ''bash'', pr_mode = GlobMode\<rparr>,
      \<lparr>pr_action = RAsk, pr_tool = BashTool, pr_pattern = Some ''curl'', pr_mode = GlobMode\<rparr>,
      \<lparr>pr_action = RDeny, pr_tool = BashTool, pr_pattern = Some ''rm'', pr_mode = GlobMode\<rparr>,
      \<lparr>pr_action = RDeny, pr_tool = ReadTool, pr_pattern = Some ''./secret/*'', pr_mode = GlobMode\<rparr>]"

definition demo_policy :: compiled_policy where
  "demo_policy = compiled_policy_new demo_host demo_rules"

subsection \<open>Properties\<close>

text \<open>Deny beats ask beats allow, wherever the rules stand in the list: an access is rejected
  exactly when some deny rule applies to it, asked exactly when an ask rule and no deny rule
  applies, and allowed only when neither does and, for a Bash command, the whole chain is
  allowed, for any other access, an allow rule applies.\<close>

theorem evaluate_precedence:
  fixes rules h a cwd
  defines "d \<equiv> evaluate_lexical_with_cwd h (compiled_policy_new h rules) a cwd"
  shows "((\<exists>r. d = Some (Reject r)) \<longleftrightarrow> applying h a cwd RDeny rules)
    \<and> (d = Some Ask \<longleftrightarrow> \<not> applying h a cwd RDeny rules \<and> applying h a cwd RAsk rules)
    \<and> (d = Some Allow \<longleftrightarrow> \<not> applying h a cwd RDeny rules \<and> \<not> applying h a cwd RAsk rules
         \<and> (case a of
              Bash cmd \<Rightarrow> bash_chain_fully_allowed h (compiled_policy_new h rules) AnyRule
                            MAX_INLINE_SHELL_DEPTH cmd
            | _ \<Rightarrow> applying h a cwd RAllow rules))"
  unfolding d_def
  using evaluate_lexical_reject_iff evaluate_lexical_ask_iff chain_allowed_has_rule
  by (auto simp: evaluate_lexical_cases split: access_kind.splits)

text \<open>The verdict does not depend on the order of the rules (nor on repeating one): policies
  with the same set of rules give decisions of the same severity for every access.\<close>

theorem evaluate_order_independent:
  assumes "set rules = set rules'"
  shows "map_option decision_rank (evaluate_lexical_with_cwd h (compiled_policy_new h rules) a cwd) =
    map_option decision_rank (evaluate_lexical_with_cwd h (compiled_policy_new h rules') a cwd)"
proof -
  have "cp_has_bash_allow_rules (compiled_policy_new h rules) = cp_has_bash_allow_rules (compiled_policy_new h rules')"
    using assms by (simp add: compiled_policy_new_def list_ex_iff)
  then show ?thesis
    using applying_set[OF assms, of h a cwd] bash_chain_allowed_set[OF assms, of h AnyRule MAX_INLINE_SHELL_DEPTH]
    by (simp add: evaluate_lexical_cases rank_simps split: access_kind.split)
qed

lemma evaluate_order_independent_witness:
  "map_option decision_rank
     (evaluate_lexical_with_cwd demo_host (compiled_policy_new demo_host (rev demo_rules)) (Bash ''rm x'') None)
   = Some 3"
proof -
  have "map_option decision_rank
     (evaluate_lexical_with_cwd demo_host (compiled_policy_new demo_host demo_rules) (Bash ''rm x'') None)
   = Some 3" by code_simp
  then show ?thesis
    using evaluate_order_independent[of demo_rules "rev demo_rules" demo_host "Bash ''rm x''" None] by simp
qed

text \<open>C21: a deny rule cannot be hidden: if any command that a script runs (a chained segment, a
  command behind wrappers and transparent prefixes, one inside \<open>bash -c\<close> or a packed \<open>env -S\<close>, to
  the inline depth of the gate) is denied by the policy, the gate rejects the whole script.\<close>

theorem gate_denies_everything_run:
  assumes "cp_has_bash_command_restrictions p"
    and "runs h True MAX_INLINE_SHELL_DEPTH cmd ws"
    and "denied h p ws \<or> denied h p (wp_words (normalize_command_words ws))"
  shows "\<exists>r. evaluate_bash_command_policy h p cmd = Some (Reject r)"
  using segments_reject_of_runs[OF assms(2,3)] assms(1)
  by (auto simp: evaluate_bash_command_policy_def evaluate_bash_command_gate_def)

lemma demo_runs:
  "runs demo_host True MAX_INLINE_SHELL_DEPTH ''git status && timeout 5 rm x'' [''timeout'', ''5'', ''rm'', ''x'']"
proof -
  let ?cmd = "''git status && timeout 5 rm x''"
  have e: "map_option (map pc_words) (all_commands_from_script (h_parse demo_host) ?cmd) =
      Some [[''git'', ''status''], [''timeout'', ''5'', ''rm'', ''x'']]" by code_simp
  then obtain cs where cs: "all_commands_from_script (h_parse demo_host) ?cmd = Some cs"
    "map pc_words cs = [[''git'', ''status''], [''timeout'', ''5'', ''rm'', ''x'']]" by auto
  then obtain c1 c2 where c: "cs = [c1, c2]" "pc_words c2 = [''timeout'', ''5'', ''rm'', ''x'']" by auto
  with runs.direct[OF cs(1), of c2 True MAX_INLINE_SHELL_DEPTH] show ?thesis by simp
qed

lemma gate_denies_everything_run_witness:
  "\<exists>r. evaluate_bash_command_policy demo_host demo_policy ''git status && timeout 5 rm x'' = Some (Reject r)"
proof (rule gate_denies_everything_run[OF _ demo_runs])
  show "cp_has_bash_command_restrictions demo_policy" by code_simp
  have "applying demo_host (Bash ''rm x'') None RDeny demo_rules" by code_simp
  then have "denied demo_host demo_policy [''rm'', ''x'']"
    by (simp add: denied_def evaluate_bash demo_policy_def evaluate_lexical_reject_iff)
  moreover have "wp_words (normalize_command_words [''timeout'', ''5'', ''rm'', ''x'']) = [''rm'', ''x'']"
    by code_simp
  ultimately show "denied demo_host demo_policy [''timeout'', ''5'', ''rm'', ''x''] \<or>
    denied demo_host demo_policy (wp_words (normalize_command_words [''timeout'', ''5'', ''rm'', ''x'']))"
    by simp
qed

text \<open>A silent gate is a clean bill: when the gate lets a script pass without a verdict, no
  command the script runs, raw or unwrapped, matches a deny or an ask rule, and the script was
  decomposable whenever the policy restricts commands; in particular skipping the gate for a
  policy without command restrictions loses nothing.\<close>

theorem gate_silence_is_clean:
  assumes "evaluate_bash_command_gate h (compiled_policy_new h rules) cmd = None"
    and "runs h True MAX_INLINE_SHELL_DEPTH cmd ws"
  shows "escalate h (compiled_policy_new h rules) ws = None
    \<and> escalate h (compiled_policy_new h rules) (wp_words (normalize_command_words ws)) = None"
  using assms segments_none_runs unrestricted_escalate
  by (cases "cp_has_bash_command_restrictions (compiled_policy_new h rules)")
    (auto simp: evaluate_bash_command_gate_def)

lemma gate_silence_is_clean_witness:
  "escalate demo_host (compiled_policy_new demo_host (take 2 demo_rules)) [''rm'', ''x''] = None"
proof -
  have "evaluate_bash_command_gate demo_host (compiled_policy_new demo_host (take 2 demo_rules))
      ''git status && timeout 5 rm x'' = None" by code_simp
  from gate_silence_is_clean[OF this demo_runs]
  have "escalate demo_host (compiled_policy_new demo_host (take 2 demo_rules))
      (wp_words (normalize_command_words [''timeout'', ''5'', ''rm'', ''x''])) = None" by blast
  moreover have "wp_words (normalize_command_words [''timeout'', ''5'', ''rm'', ''x'']) = [''rm'', ''x'']"
    by code_simp
  ultimately show ?thesis by simp
qed

text \<open>The argv hides a script packed for \<open>env -S\<close> behind its wrappers.\<close>

definition hides_packed :: "argv \<Rightarrow> bool" where
  "hides_packed ws \<longleftrightarrow> env_split_string_script (wp_words (normalize_command_words ws)) \<noteq> None"

text \<open>What is run only through a packed script is behind a command that hides one.\<close>

lemma runs_packed:
  assumes "runs h True n cmd ws"
  shows "runs h False n cmd ws \<or> (\<exists>us. runs h False n cmd us \<and> hides_packed us)"
  using assms
proof induction
  case (direct cmd cs c n)
  then show ?case using runs.direct by blast
next
  case (inline cmd cs c inner i n ws)
  show ?case using inline.IH runs.inline[OF inline.hyps(1-4), of False n] by blast
next
  case (packed cmd cs c s n ws)
  then have "runs h False (Suc n) cmd (pc_words c)" "hides_packed (pc_words c)"
    using runs.direct[OF packed.hyps(2,3)] by (auto simp: hides_packed_def)
  then show ?case by blast
qed

text \<open>The argv is allowed by the rules once its wrappers are gone, and nothing about them was left in doubt.\<close>

definition covered :: "host \<Rightarrow> compiled_policy \<Rightarrow> argv \<Rightarrow> bool" where
  "covered h p ws \<longleftrightarrow>
     bash_words_allowed h p (wp_words (normalize_command_words ws)) AnyRule
     \<and> \<not> normalized_flagged (normalize_command_words ws)"

text \<open>C23: a Bash allow is conjunctive and deep: when the policy answers \<open>Allow\<close>, every command the script
  runs, also inside \<open>bash -c\<close> and packed \<open>env -S\<close> scripts to the gate's depth of eight, normalises without a
  flag to an argv that itself matches an allow rule; the only exception are scripts in which a command of more
  than 16 words hides a packed script behind its wrappers.\<close>

theorem allow_covers_everything_run:
  assumes "evaluate h p (Bash cmd) = Some Allow"
    and "runs h True MAX_INLINE_SHELL_DEPTH cmd ws"
  shows "covered h p ws \<or> (\<exists>us. runs h False MAX_INLINE_SHELL_DEPTH cmd us \<and> hides_packed us \<and> 16 < length us)"
proof -
  have chain: "bash_chain_fully_allowed h p AnyRule MAX_INLINE_SHELL_DEPTH cmd"
    using assms(1)
    by (auto simp: evaluate_bash evaluate_lexical_with_cwd_def split: sum.splits if_splits prod.splits)
  note w = chain_allowed_runs[OF _ chain]
  have "\<not> hides_packed us" if "runs h False MAX_INLINE_SHELL_DEPTH cmd us" "length us \<le> 16" for us
    using w[OF that(1)] normalize_flags_packed[of us] that(2)
    by (cases "env_split_string_script (wp_words (normalize_command_words us))")
      (auto simp: hides_packed_def MAX_NORMALIZE_ROUNDS_def MAX_WRAPPER_DEPTH_def MAX_TRANSPARENT_PREFIX_DEPTH_def)
  then have packed: "16 < length us" if "runs h False MAX_INLINE_SHELL_DEPTH cmd us" "hides_packed us" for us
    using that not_le by blast
  from runs_packed[OF assms(2)] show ?thesis
  proof
    assume "runs h False MAX_INLINE_SHELL_DEPTH cmd ws"
    then show ?thesis using w by (simp add: covered_def)
  qed (use packed in blast)
qed

text \<open>In a script of two short commands the exception does not arise.\<close>

lemma demo_script_runs:
  assumes "runs demo_host False MAX_INLINE_SHELL_DEPTH ''git status && timeout 9 git push'' us"
  shows "us \<in> {[''git'', ''status''], [''timeout'', ''9'', ''git'', ''push'']}"
proof -
  have e: "map_option (map pc_words) (all_commands_from_script (h_parse demo_host) ''git status && timeout 9 git push'') =
      Some [[''git'', ''status''], [''timeout'', ''9'', ''git'', ''push'']]" by code_simp
  have words: "pc_words c \<in> {[''git'', ''status''], [''timeout'', ''9'', ''git'', ''push'']}"
    if "all_commands_from_script (h_parse demo_host) ''git status && timeout 9 git push'' = Some cs" "c \<in> set cs" for cs c
  proof -
    have "map pc_words cs = [[''git'', ''status''], [''timeout'', ''9'', ''git'', ''push'']]" using e that(1) by simp
    then have "set (map pc_words cs) = {[''git'', ''status''], [''timeout'', ''9'', ''git'', ''push'']}" by simp
    then show ?thesis using that(2) by auto
  qed
  have none: "shell_dash_c_script (map WordLiteral (wp_words (normalize_command_words ws))) = NotInline"
    if "ws \<in> {[''git'', ''status''], [''timeout'', ''9'', ''git'', ''push'']}" for ws
  proof -
    have "shell_dash_c_script (map WordLiteral (wp_words (normalize_command_words [''git'', ''status'']))) = NotInline"
      "shell_dash_c_script (map WordLiteral (wp_words (normalize_command_words [''timeout'', ''9'', ''git'', ''push'']))) = NotInline"
      by code_simp+
    with that show ?thesis by blast
  qed
  from assms show ?thesis
  proof cases
    case (direct cs c)
    then show ?thesis using words by simp
  next
    case (inline cs c inner i n)
    then show ?thesis using none[OF words[OF inline(2,3)]] by simp
  qed simp
qed

lemma allow_covers_everything_run_witness: "covered demo_host demo_policy [''timeout'', ''9'', ''git'', ''push'']"
proof -
  let ?cmd = "''git status && timeout 9 git push''"
  have "evaluate_lexical_with_cwd demo_host demo_policy (Bash ?cmd) None = Some Allow" by code_simp
  then have a: "evaluate demo_host demo_policy (Bash ?cmd) = Some Allow" by (simp add: evaluate_bash)
  have e: "map_option (map pc_words) (all_commands_from_script (h_parse demo_host) ?cmd) =
      Some [[''git'', ''status''], [''timeout'', ''9'', ''git'', ''push'']]" by code_simp
  then obtain cs where cs: "all_commands_from_script (h_parse demo_host) ?cmd = Some cs"
    "map pc_words cs = [[''git'', ''status''], [''timeout'', ''9'', ''git'', ''push'']]" by auto
  then obtain c1 c2 where c: "cs = [c1, c2]" "pc_words c2 = [''timeout'', ''9'', ''git'', ''push'']" by auto
  with runs.direct[OF cs(1), of c2 True MAX_INLINE_SHELL_DEPTH]
  have "runs demo_host True MAX_INLINE_SHELL_DEPTH ?cmd [''timeout'', ''9'', ''git'', ''push'']" by simp
  from allow_covers_everything_run[OF a this] demo_script_runs show ?thesis by fastforce
qed

text \<open>Authorisation by narrow rules is stricter than the ordinary allow: whenever the narrow
  rules alone authorise a command and no deny or ask rule applies, the policy allows it, and a
  command headed by an execution vehicle or covered only by catch-all rules is never authorised
  narrowly.\<close>

theorem narrow_allow_stricter:
  assumes "narrow_allow_authorizes h (compiled_policy_new h rules) a"
    and "\<not> applying h a None RDeny rules" and "\<not> applying h a None RAsk rules"
  shows "evaluate h (compiled_policy_new h rules) a = Some Allow
    \<and> (\<forall>cmd cs c. a = Bash cmd \<longrightarrow> all_commands_from_script (h_parse h) cmd = Some cs \<longrightarrow> c \<in> set cs \<longrightarrow>
         \<not> head_is_exec_vehicle (wp_words (normalize_command_words (pc_words c)))
         \<and> (\<exists>r \<in> set rules. pr_action r = RAllow \<and> \<not> rule_is_catchall h r))"
proof -
  from assms(1) obtain cmd where a: "a = Bash cmd"
    and n: "bash_chain_fully_allowed h (compiled_policy_new h rules) NarrowOnly MAX_INLINE_SHELL_DEPTH cmd"
    and ha: "cp_has_bash_allow_rules (compiled_policy_new h rules)"
    by (cases a) (auto simp: narrow_allow_authorizes_def)
  have e: "evaluate h (compiled_policy_new h rules) a = Some Allow"
    using assms(2,3) chain_allowed_narrow[OF n] ha by (simp add: a evaluate_bash evaluate_lexical_cases)
  have c: "\<not> head_is_exec_vehicle (wp_words (normalize_command_words (pc_words c)))
      \<and> (\<exists>r \<in> set rules. pr_action r = RAllow \<and> \<not> rule_is_catchall h r)"
    if "all_commands_from_script (h_parse h) cmd = Some cs" "c \<in> set cs" for cs c
  proof -
    from n obtain recurse where
      "chain_allowed_with h (compiled_policy_new h rules) NarrowOnly recurse cmd"
      by (rule chain_allowed_obtain)
    with that have "segment_allowed h (compiled_policy_new h rules) NarrowOnly recurse c"
      by (simp add: chain_allowed_with_def list_all_iff)
    from segment_allowed_facts(2)[OF this] show ?thesis
      unfolding bash_words_allowed_def compiled_zip3
      by (auto simp: list_ex_iff Let_def split: if_splits)
  qed
  show ?thesis using e c a by blast
qed

lemma narrow_allow_stricter_witness:
  "evaluate demo_host (compiled_policy_new demo_host demo_rules) (Bash ''git push'') = Some Allow"
proof -
  have "narrow_allow_authorizes demo_host (compiled_policy_new demo_host demo_rules) (Bash ''git push'')"
    by code_simp
  moreover have "\<not> applying demo_host (Bash ''git push'') None RDeny demo_rules" by code_simp
  moreover have "\<not> applying demo_host (Bash ''git push'') None RAsk demo_rules" by code_simp
  ultimately show ?thesis using narrow_allow_stricter by blast
qed

text \<open>Following symlinks only escalates: the decision with the followed target is at least as
  severe as the lexical one, a denied target rejects the access, an allow on the target grants
  nothing, and an unresolvable link forces a prompt whenever a deny or ask rule covers the tool.\<close>

theorem symlink_follow_escalates:
  assumes "native_file_path a = Some path" and "raw_absolute_tool_path path cwd = Some raw"
    and "follow = follow_absolute_symlink h raw (path_match_string (absolute_normalized_path path cwd))"
  shows "(\<forall>d. evaluate_lexical_with_cwd h p a cwd = Some d \<longrightarrow>
        (\<exists>d'. evaluate_with_cwd h p a cwd = Some d' \<and> decision_rank d \<le> decision_rank d'))
    \<and> (evaluate_lexical_with_cwd h p a cwd = None \<longrightarrow> evaluate_with_cwd h p a cwd \<noteq> Some Allow)
    \<and> (\<forall>t r. follow = FollowTarget t
        \<and> evaluate_lexical_with_cwd h p (access_with_path a t) cwd = Some (Reject r) \<longrightarrow>
        (\<exists>d'. evaluate_with_cwd h p a cwd = Some d' \<and> 3 \<le> decision_rank d'))
    \<and> (follow = Unresolvable \<and> native_path_restrictions_apply p a \<longrightarrow>
        (\<exists>d'. evaluate_with_cwd h p a cwd = Some d' \<and> 2 \<le> decision_rank d'))"
proof -
  let ?l = "evaluate_lexical_with_cwd h p a cwd"
  obtain e where e: "evaluate_with_cwd h p a cwd = combine_decisions ?l e"
    and ne: "e \<noteq> Some Allow"
    and t: "\<And>t. follow = FollowTarget t \<Longrightarrow>
        e = escalation_only (evaluate_lexical_with_cwd h p (access_with_path a t) cwd)"
    and u: "follow = Unresolvable \<and> native_path_restrictions_apply p a \<Longrightarrow> e = Some Ask"
  proof (cases follow)
    case (FollowTarget t)
    then show ?thesis
      using assms that[of "escalation_only (evaluate_lexical_with_cwd h p (access_with_path a t) cwd)"]
      by (auto simp: evaluate_with_cwd_def evaluate_with_cwd_details_def Let_def escalation_only_def
          split: option.splits decision.splits)
  next
    case Unresolvable
    then show ?thesis
      using assms that[of "Some Ask"] that[of None]
      by (cases "native_path_restrictions_apply p a")
        (auto simp: evaluate_with_cwd_def evaluate_with_cwd_details_def Let_def
          verdict.combine_none_right)
  next
    case NoFollow
    then show ?thesis
      using assms that[of None]
      by (auto simp: evaluate_with_cwd_def evaluate_with_cwd_details_def Let_def
          verdict.combine_none_right)
  qed
  have 1: "\<exists>d'. evaluate_with_cwd h p a cwd = Some d' \<and> decision_rank d \<le> decision_rank d'"
    if "?l = Some d" for d
    unfolding e using verdict.combine_escalates_left[OF that] .
  have 2: "evaluate_with_cwd h p a cwd \<noteq> Some Allow" if "?l = None"
    unfolding e that using ne by simp
  have 3: "\<exists>d'. evaluate_with_cwd h p a cwd = Some d' \<and> 3 \<le> decision_rank d'"
    if "follow = FollowTarget t" "evaluate_lexical_with_cwd h p (access_with_path a t) cwd = Some (Reject r)" for t r
  proof -
    have "e = Some (Reject r)" using t[OF that(1)] that(2) by (simp add: escalation_only_def)
    from verdict.combine_escalates_right[OF this, of ?l] show ?thesis
      unfolding e by (simp add: rank_simps)
  qed
  have 4: "\<exists>d'. evaluate_with_cwd h p a cwd = Some d' \<and> 2 \<le> decision_rank d'"
    if "follow = Unresolvable \<and> native_path_restrictions_apply p a"
    unfolding e using verdict.combine_escalates_right[OF u[OF that], of ?l] by (simp add: rank_simps)
  show ?thesis using 1 2 3 4 by blast
qed

text \<open>A host on which one path is a link into a directory that a rule protects.\<close>

definition linked_host :: host where
  "linked_host = demo_host\<lparr>h_canonicalize :=
     (\<lambda>p. Some (if p = ''/w/a'' then ''/w/secret/k'' else normalize_lexically p))\<rparr>"

lemma symlink_follow_escalates_witness:
  "\<exists>d'. evaluate_with_cwd linked_host (compiled_policy_new linked_host demo_rules) (Read (Some ''a'')) (Some ''/w'') = Some d'
     \<and> 3 \<le> decision_rank d'"
proof -
  let ?p = "compiled_policy_new linked_host demo_rules"
  have f: "native_file_path (Read (Some ''a'')) = Some ''a''"
    "raw_absolute_tool_path ''a'' (Some ''/w'') = Some ''/w/a''" by code_simp+
  have t: "follow_absolute_symlink linked_host ''/w/a''
      (path_match_string (absolute_normalized_path ''a'' (Some ''/w''))) = FollowTarget ''/w/secret/k''"
    by code_simp
  have "applying linked_host (Read (Some ''/w/secret/k'')) (Some ''/w'') RDeny demo_rules" by code_simp
  then obtain r where "evaluate_lexical_with_cwd linked_host ?p (Read (Some ''/w/secret/k'')) (Some ''/w'') = Some (Reject r)"
    using evaluate_lexical_reject_iff by blast
  then show ?thesis
    using symlink_follow_escalates[OF f refl, of linked_host ?p] t by auto
qed

subsection \<open>At the edge of the round budget\<close>

text \<open>
  Sixteen rounds are the budget of the normalisation.  When the sixteenth round peels the last
  prefix and uncovers a packed \<open>env -S\<close>, no later round notes it: no flag is raised although the
  packed script is the command, so the ask floor that the code promises for every split-string
  shape is missing, and an allow rule on \<open>env\<close> lets the chain through.
\<close>

definition deep_packed :: argv where
  "deep_packed =
     ''command'' # concat (replicate 15 [''timeout'', ''1'', ''command'']) @ [''env'', ''-S'', ''rm -rf /'']"

lemma packed_env_unflagged_at_budget:
  "wp_words (normalize_command_words deep_packed) = [''env'', ''-S'', ''rm -rf /'']
   \<and> env_split_string_script (wp_words (normalize_command_words deep_packed)) = Some ''rm -rf /''
   \<and> \<not> normalized_flagged (normalize_command_words deep_packed)"
  by code_simp

end
