(* ===== verification/Preflight.thy ===== *)
theory Preflight
  imports Shell_Gate Policy_Properties
begin

text \<open>
  The managed-policy preflight of one request (\<open>permission/gate_preflight.rs\<close>): the direct rule
  pass and the two Bash gates, evaluated once, with the provenance of an ask kept so that an
  analysis failure may be left to the auto-mode classifier while a rule match never is.
\<close>

definition POLICY_ASK :: string where "POLICY_ASK = ''policy_ask''"
definition BASH_COMMAND_GATE_ASK :: string where "BASH_COMMAND_GATE_ASK = ''bash_command_gate_ask''"
definition SHELL_FILE_GATE_ASK :: string where "SHELL_FILE_GATE_ASK = ''shell_file_gate_ask''"

record gate_preflight =
  gp_direct :: "decision option"
  gp_bash_command :: "gate_decision option"
  gp_shell_file :: "gate_decision option"
  gp_native_symlink_fail_closed :: bool
  gp_defers_gate_ask :: bool

definition preflight_evaluate ::
  "host \<Rightarrow> compiled_policy option \<Rightarrow> access_kind \<Rightarrow> string \<Rightarrow> bool \<Rightarrow> gate_preflight"
where
  "preflight_evaluate h policy a cwd auto_mode =
     (let (direct, native) = (case policy of
              Some p \<Rightarrow> evaluate_with_cwd_details h p a (Some cwd)
            | None \<Rightarrow> (None, False));
          (bash_command, shell_file) = (case (policy, a) of
              (Some p, Bash cmd) \<Rightarrow>
                (evaluate_bash_command_gate h p cmd, evaluate_shell_file_access_gate h p cmd cwd)
            | _ \<Rightarrow> (None, None));
          rule_match_ask = (direct = Some Ask \<or> bash_command = Some AskRuleMatch \<or> shell_file = Some AskRuleMatch);
          fail_closed_ask = (bash_command = Some AskFailClosed \<or> shell_file = Some AskFailClosed)
      in \<lparr>gp_direct = direct, gp_bash_command = bash_command, gp_shell_file = shell_file,
          gp_native_symlink_fail_closed = native,
          gp_defers_gate_ask = (auto_mode \<and> fail_closed_ask \<and> \<not> rule_match_ask)\<rparr>)"

definition policy_decision :: "gate_preflight \<Rightarrow> decision option" where
  "policy_decision g =
     combine_decisions
       (combine_decisions (gp_direct g) (map_option into_decision (gp_bash_command g)))
       (map_option into_decision (gp_shell_file g))"

definition policy_forced_prompt :: "gate_preflight \<Rightarrow> bool" where
  "policy_forced_prompt g \<longleftrightarrow> policy_decision g = Some Ask"

definition gate_asks :: "gate_decision option \<Rightarrow> bool" where
  "gate_asks g = (case g of Some d \<Rightarrow> gate_is_ask d | None \<Rightarrow> False)"

definition shell_file_forced_prompt :: "gate_preflight \<Rightarrow> bool" where
  "shell_file_forced_prompt g \<longleftrightarrow> gate_asks (gp_shell_file g)"

definition shell_forced_prompt :: "gate_preflight \<Rightarrow> bool" where
  "shell_forced_prompt g \<longleftrightarrow>
     gate_asks (gp_bash_command g) \<or> shell_file_forced_prompt g \<or> gp_native_symlink_fail_closed g"

definition admits_auto_classifier :: "gate_preflight \<Rightarrow> bool" where
  "admits_auto_classifier g \<longleftrightarrow> \<not> policy_forced_prompt g \<or> gp_defers_gate_ask g"

definition prompt_trigger :: "gate_preflight \<Rightarrow> string option \<Rightarrow> string option" where
  "prompt_trigger g auto_prompt_reason =
     (if gp_direct g = Some Ask then Some POLICY_ASK
      else if gp_defers_gate_ask g then auto_prompt_reason
      else if gate_asks (gp_bash_command g) then Some BASH_COMMAND_GATE_ASK
      else if shell_file_forced_prompt g then Some SHELL_FILE_GATE_ASK
      else auto_prompt_reason)"

subsection \<open>Laws\<close>

declare policy_decision_def [preflight_simps] policy_forced_prompt_def [preflight_simps]
  admits_auto_classifier_def [preflight_simps]

lemma preflight_fields [preflight_simps]:
  "gp_direct (preflight_evaluate h policy a cwd auto) =
     (case policy of Some p \<Rightarrow> evaluate_with_cwd h p a (Some cwd) | None \<Rightarrow> None)"
  "gp_bash_command (preflight_evaluate h (Some p) (Bash cmd) cwd auto) = evaluate_bash_command_gate h p cmd"
  "gp_shell_file (preflight_evaluate h (Some p) (Bash cmd) cwd auto) =
     evaluate_shell_file_access_gate h p cmd cwd"
  by (simp_all add: preflight_evaluate_def Let_def evaluate_with_cwd_def split: option.split prod.split)

lemma preflight_defers [preflight_simps]:
  "gp_defers_gate_ask (preflight_evaluate h policy a cwd auto) \<longleftrightarrow>
     (let g = preflight_evaluate h policy a cwd auto in
      auto \<and> (gp_bash_command g = Some AskFailClosed \<or> gp_shell_file g = Some AskFailClosed)
      \<and> gp_direct g \<noteq> Some Ask \<and> gp_bash_command g \<noteq> Some AskRuleMatch
      \<and> gp_shell_file g \<noteq> Some AskRuleMatch)"
  by (simp add: preflight_evaluate_def Let_def split: option.split prod.split)

text \<open>A verdict of the engine: only deny, ask and allow occur.\<close>

definition plain_verdict :: "decision option \<Rightarrow> bool" where
  "plain_verdict d \<longleftrightarrow> (\<forall>x. d = Some x \<longrightarrow> x = Ask \<or> x = Allow \<or> (\<exists>r. x = Reject r))"

lemma plain_combine: "plain_verdict a \<Longrightarrow> plain_verdict b \<Longrightarrow> plain_verdict (combine_decisions a b)"
  using verdict.combine_cases[of a b] by metis

lemma plain_lexical: "plain_verdict (evaluate_lexical_with_cwd h p a cwd)"
  by (auto simp: plain_verdict_def evaluate_lexical_with_cwd_def split: sum.splits prod.splits if_splits access_kind.splits)

lemma plain_escalation: "plain_verdict (escalation_only d)"
  by (auto simp: plain_verdict_def escalation_only_def split: option.splits decision.splits)

lemma plain_ask: "plain_verdict (Some Ask)"
  by (simp add: plain_verdict_def)

lemma plain_evaluate: "plain_verdict (evaluate_with_cwd h p a cwd)"
  unfolding evaluate_with_cwd_def evaluate_with_cwd_details_def Let_def
  using plain_combine[OF plain_lexical plain_escalation] plain_combine[OF plain_lexical plain_ask]
    plain_lexical
  by (simp split: option.split symlink_follow.split)

lemma plain_gate: "plain_verdict (map_option into_decision g)"
proof (cases g)
  case (Some d)
  then show ?thesis by (cases d) (auto simp: plain_verdict_def)
qed (simp add: plain_verdict_def)

lemma combine_decision_reject_iff:
  "plain_verdict a \<Longrightarrow> plain_verdict b \<Longrightarrow>
     (\<exists>r. combine_decisions a b = Some (Reject r)) \<longleftrightarrow> (\<exists>r. a = Some (Reject r)) \<or> (\<exists>r. b = Some (Reject r))"
  by (cases a; cases b) (auto simp: plain_verdict_def rank_simps)

lemma combine_decision_allow_iff:
  "plain_verdict a \<Longrightarrow> plain_verdict b \<Longrightarrow>
     combine_decisions a b = Some Allow \<longleftrightarrow>
       (a = Some Allow \<or> a = None) \<and> (b = Some Allow \<or> b = None) \<and> \<not> (a = None \<and> b = None)"
  by (cases a; cases b) (auto simp: plain_verdict_def rank_simps)

lemma gate_never_allows: "map_option into_decision g \<noteq> Some Allow"
proof (cases g)
  case (Some d)
  then show ?thesis by (cases d) simp_all
qed simp

lemma map_into_reject_iff: "(\<exists>r. map_option into_decision g = Some (Reject r)) \<longleftrightarrow> is_gate_reject g"
proof (cases g)
  case (Some d)
  then show ?thesis by (cases d) simp_all
qed simp

lemma plain_direct: "plain_verdict (gp_direct (preflight_evaluate h policy a cwd auto))"
  unfolding preflight_fields(1) using plain_evaluate
  by (cases policy) (simp_all add: plain_verdict_def)

lemma policy_decision_reject:
  assumes "g = preflight_evaluate h policy a cwd auto"
  shows "(\<exists>r. policy_decision g = Some (Reject r)) \<longleftrightarrow>
    (\<exists>r. gp_direct g = Some (Reject r)) \<or> is_gate_reject (gp_bash_command g)
    \<or> is_gate_reject (gp_shell_file g)"
proof -
  have d: "plain_verdict (gp_direct g)" unfolding assms by (rule plain_direct)
  note pc = plain_combine[OF d plain_gate]
  show ?thesis
    unfolding policy_decision_def combine_decision_reject_iff[OF pc plain_gate]
      combine_decision_reject_iff[OF d plain_gate] map_into_reject_iff by blast
qed

lemma policy_decision_allow:
  assumes "g = preflight_evaluate h policy a cwd auto"
  shows "policy_decision g = Some Allow \<longleftrightarrow>
    gp_direct g = Some Allow \<and> gp_bash_command g = None \<and> gp_shell_file g = None"
proof -
  have d: "plain_verdict (gp_direct g)" unfolding assms by (rule plain_direct)
  note pc = plain_combine[OF d plain_gate]
  show ?thesis
    unfolding policy_decision_def combine_decision_allow_iff[OF pc plain_gate]
      combine_decision_allow_iff[OF d plain_gate] verdict.combine_none_iff
    using gate_never_allows by auto
qed

lemma policy_decision_plain:
  "plain_verdict (policy_decision (preflight_evaluate h policy a cwd auto))"
  unfolding policy_decision_def by (intro plain_combine plain_direct plain_gate)

lemma policy_decision_none: "policy_decision g = None \<longleftrightarrow>
    gp_direct g = None \<and> gp_bash_command g = None \<and> gp_shell_file g = None"
  by (simp add: policy_decision_def verdict.combine_none_iff)

lemma gate_at_least_2: "gate_at_least 2 g \<longleftrightarrow> g = Some AskRuleMatch \<or> is_gate_reject g"
proof (cases g)
  case (Some d)
  then show ?thesis by (cases d) (simp_all add: gate_at_least_def rank_simps)
qed simp

subsection \<open>Rule matches\<close>

text \<open>A deny or ask rule of the policy matches the access.\<close>

definition rule_holds :: "host \<Rightarrow> compiled_policy \<Rightarrow> access_kind \<Rightarrow> string option \<Rightarrow> bool" where
  "rule_holds h p a c \<longleftrightarrow>
     evaluate_lexical_with_cwd h p a c = Some Ask \<or> (\<exists>r. evaluate_lexical_with_cwd h p a c = Some (Reject r))"

lemma rule_holds_applying:
  "rule_holds h (compiled_policy_new h rules) a c \<Longrightarrow>
     \<exists>r \<in> set rules. restricts r \<and> tool_filter_matches a (pr_tool r)"
  using evaluate_lexical_reject_iff[of h rules a c] evaluate_lexical_ask_iff[of h rules a c]
  by (auto simp: rule_holds_def applying_def list_ex_iff rule_applies_def restricts_def)

lemma rule_holds_bash_restricts:
  "rule_holds h (compiled_policy_new h rules) (Bash cmd) c \<Longrightarrow>
     cp_has_bash_command_restrictions (compiled_policy_new h rules)"
  by (drule rule_holds_applying)
    (auto simp: compiled_policy_new_def list_ex_iff bash_or_any_def split: tool_filter.splits
      elim!: tool_filter_matches.elims intro!: bexI)

lemma rule_holds_file_restricts:
  "rule_holds h (compiled_policy_new h rules) (shell_access m s) c \<Longrightarrow>
     cp_has_file_restrictions (compiled_policy_new h rules)"
  by (drule rule_holds_applying, cases m)
    (auto simp: compiled_policy_new_def list_ex_iff shell_access_def
      elim!: tool_filter_matches.elims intro!: bexI)

lemma bash_gate_matches:
  assumes "runs h True MAX_INLINE_SHELL_DEPTH cmd ws"
    and "rule_holds h (compiled_policy_new h rules) (Bash (join '' '' ws)) None"
  shows "gate_at_least 2 (evaluate_bash_command_gate h (compiled_policy_new h rules) cmd)"
proof -
  have "gate_at_least 2 (escalate h (compiled_policy_new h rules) ws)"
    using assms(2) by (auto simp: rule_holds_def escalate_def evaluate_bash gate_at_least_def rank_simps)
  with segments_at_least_of_runs[OF assms(1)] rule_holds_bash_restricts[OF assms(2)]
  show ?thesis by (simp add: evaluate_bash_command_gate_def)
qed

lemma file_gate_matches:
  assumes "touches h MAX_INLINE_SHELL_DEPTH False cmd t m v"
    and "rule_holds h (compiled_policy_new h rules) (shell_access m (normalize_shell_path t))
          (if is_absolute_shell_path (normalize_shell_path t) \<or> \<not> v then Some cwd else None)"
  shows "gate_at_least 2 (evaluate_shell_file_access_gate h (compiled_policy_new h rules) cmd cwd)"
proof -
  have "gate_at_least 2 (evaluate_shell_path h (compiled_policy_new h rules) t cwd m v)"
    unfolding evaluate_shell_path_def Let_def combine_at_least_iff
    using assms(2) by (auto simp: rule_holds_def escalate_access_def gate_at_least_def rank_simps)
  then have "gate_at_least 2 (evaluate_shell_file_access_inner h (compiled_policy_new h rules) cwd
      MAX_INLINE_SHELL_DEPTH False False cmd)"
    by (intro matching.inner_hit[OF assms(1)]) (simp_all add: note_path_def combine_at_least_iff)
  then show ?thesis
    using rule_holds_file_restricts[OF assms(2)] by (simp add: evaluate_shell_file_access_gate_def)
qed

subsection \<open>Properties\<close>

text \<open>The combined managed decision is deny as soon as one of the direct rules, the Bash gate and
  the file gate denies, and allow only when the direct rules allow and both gates are silent: a
  gate can only take permission away.\<close>

theorem policy_decision_spec:
  fixes h policy a cwd auto
  defines "g \<equiv> preflight_evaluate h policy a cwd auto"
  shows "((\<exists>r. policy_decision g = Some (Reject r)) \<longleftrightarrow>
       (\<exists>r. gp_direct g = Some (Reject r)) \<or> is_gate_reject (gp_bash_command g)
       \<or> is_gate_reject (gp_shell_file g))
    \<and> (policy_decision g = Some Allow \<longleftrightarrow>
       gp_direct g = Some Allow \<and> gp_bash_command g = None \<and> gp_shell_file g = None)"
  using policy_decision_reject[OF g_def[THEN meta_eq_to_obj_eq]]
    policy_decision_allow[OF g_def[THEN meta_eq_to_obj_eq]] by (rule conjI)

text \<open>A rule match is never left to a model: when an ask or deny rule matches any command the
  script runs, or any file it touches, the preflight denies, or asks without admitting the
  auto-mode classifier, even if other parts of the script failed closed.\<close>

theorem rule_match_never_deferred:
  assumes "g = preflight_evaluate h (Some (compiled_policy_new h rules)) (Bash cmd) cwd auto"
    and "runs h True MAX_INLINE_SHELL_DEPTH cmd ws
           \<and> rule_holds h (compiled_policy_new h rules) (Bash (join '' '' ws)) None
       \<or> touches h MAX_INLINE_SHELL_DEPTH False cmd t m v
           \<and> rule_holds h (compiled_policy_new h rules) (shell_access m (normalize_shell_path t))
               (if is_absolute_shell_path (normalize_shell_path t) \<or> \<not> v then Some cwd else None)"
  shows "(\<exists>r. policy_decision g = Some (Reject r))
    \<or> policy_decision g = Some Ask \<and> \<not> admits_auto_classifier g"
proof -
  have m: "gate_at_least 2 (gp_bash_command g) \<or> gate_at_least 2 (gp_shell_file g)"
    using assms(2) bash_gate_matches file_gate_matches
    unfolding assms(1) preflight_fields by blast
  have nd: "gp_bash_command g = Some AskRuleMatch \<or> gp_shell_file g = Some AskRuleMatch \<Longrightarrow>
      \<not> gp_defers_gate_ask g"
    unfolding assms(1) preflight_defers by auto
  have "policy_decision g \<noteq> None" "policy_decision g \<noteq> Some Allow"
    using m policy_decision_none[of g] policy_decision_allow[OF assms(1)] by auto
  moreover have "plain_verdict (policy_decision g)" unfolding assms(1) by (rule policy_decision_plain)
  ultimately have pd: "(\<exists>r. policy_decision g = Some (Reject r)) \<or> policy_decision g = Some Ask"
    by (auto simp: plain_verdict_def)
  with m nd policy_decision_reject[OF assms(1)] show ?thesis
    by (auto simp: gate_at_least_2 admits_auto_classifier_def policy_forced_prompt_def)
qed

lemma rule_match_never_deferred_witness:
  "\<exists>g. g = preflight_evaluate demo_host (Some demo_policy) (Bash ''ls ; curl x'') ''/w'' True
    \<and> ((\<exists>r. policy_decision g = Some (Reject r))
       \<or> policy_decision g = Some Ask \<and> \<not> admits_auto_classifier g)"
proof -
  let ?cmd = "''ls ; curl x''"
  let ?g = "preflight_evaluate demo_host (Some demo_policy) (Bash ?cmd) ''/w'' True"
  have e: "map_option (map pc_words) (all_commands_from_script (h_parse demo_host) ?cmd) =
      Some [[''ls''], [''curl'', ''x'']]" by code_simp
  then obtain cs where cs: "all_commands_from_script (h_parse demo_host) ?cmd = Some cs"
    "map pc_words cs = [[''ls''], [''curl'', ''x'']]" by auto
  then obtain c1 c2 where c: "cs = [c1, c2]" "pc_words c2 = [''curl'', ''x'']" by auto
  have r: "runs demo_host True MAX_INLINE_SHELL_DEPTH ?cmd [''curl'', ''x'']"
    using runs.direct[OF cs(1), of c2] c by simp
  have "evaluate_lexical_with_cwd demo_host demo_policy (Bash (join '' '' [''curl'', ''x''])) None = Some Ask"
    by code_simp
  then have m: "rule_holds demo_host demo_policy (Bash (join '' '' [''curl'', ''x''])) None"
    by (simp add: rule_holds_def)
  show ?thesis
    using rule_match_never_deferred[of ?g demo_host demo_rules ?cmd "''/w''" True "[''curl'', ''x'']"] r m
    unfolding demo_policy_def by blast
qed

end
