(* ===== verification/Auto_Route.thy ===== *)
theory Auto_Route
  imports Perm_Types Paths
begin

text \<open>
  What auto mode decides without asking the model (\<open>permission/auto_mode/mod.rs\<close>), the outcome of a
  classifier (same file), the classification state of a request
  (\<open>permission/manager/request_classification.rs\<close>), the answers of a prompt
  (\<open>permission/prompter.rs\<close>) and the resolution of the paths a model names
  (\<open>xai-grok-tools/src/types/resources.rs\<close>).
\<close>

subsection \<open>Classifier outcomes\<close>

datatype classifier_verdict = VAllow | VBlock | VUnavailable

datatype classifier_failure = FTimeout | FTransportError string

fun failure_display :: "classifier_failure \<Rightarrow> string" where
  "failure_display FTimeout = ''permission auto classifier timed out''"
| "failure_display (FTransportError reason) = reason"

datatype classifier_source_kind = KLlm | KHeuristic | KTimeout | KTransportError | KFastPath | KNotWired

fun source_wire_str :: "classifier_source_kind \<Rightarrow> string" where
  "source_wire_str KLlm = ''llm''"
| "source_wire_str KHeuristic = ''heuristic''"
| "source_wire_str KTimeout = ''timeout''"
| "source_wire_str KTransportError = ''transport_error''"
| "source_wire_str KFastPath = ''fast_path''"
| "source_wire_str KNotWired = ''not_wired''"

datatype classifier_provenance = PLlm | PHeuristic | PFailure classifier_failure

fun provenance_source :: "classifier_provenance \<Rightarrow> classifier_source_kind" where
  "provenance_source PLlm = KLlm"
| "provenance_source PHeuristic = KHeuristic"
| "provenance_source (PFailure FTimeout) = KTimeout"
| "provenance_source (PFailure (FTransportError _)) = KTransportError"

record classifier_outcome =
  co_verdict :: classifier_verdict
  co_reason :: "string option"
  co_provenance :: classifier_provenance

definition outcome_heuristic :: "classifier_verdict \<Rightarrow> classifier_outcome" where
  "outcome_heuristic v = \<lparr>co_verdict = v, co_reason = None, co_provenance = PHeuristic\<rparr>"

definition outcome_llm :: "classifier_verdict \<Rightarrow> string option \<Rightarrow> classifier_outcome" where
  "outcome_llm v reason = \<lparr>co_verdict = v, co_reason = reason, co_provenance = PLlm\<rparr>"

definition outcome_failure :: "classifier_failure \<Rightarrow> classifier_outcome" where
  "outcome_failure f =
     \<lparr>co_verdict = VUnavailable, co_reason = Some (failure_display f), co_provenance = PFailure f\<rparr>"

definition is_timeout :: "classifier_outcome \<Rightarrow> bool" where
  "is_timeout outcome \<longleftrightarrow> co_provenance outcome = PFailure FTimeout"

subsection \<open>The classification state of a request\<close>

datatype request_classification =
    NotClassified
  | FastPathClass
  | Classified "(classifier_verdict \<times> classifier_source_kind) option"

fun classifier_source_of :: "request_classification \<Rightarrow> classifier_source_kind option" where
  "classifier_source_of NotClassified = None"
| "classifier_source_of FastPathClass = Some KFastPath"
| "classifier_source_of (Classified outcome) = map_option snd outcome"

fun classifier_verdict_of :: "request_classification \<Rightarrow> classifier_verdict option" where
  "classifier_verdict_of (Classified (Some (v, _))) = Some v"
| "classifier_verdict_of _ = None"

definition AUTO_DENY_CONSECUTIVE_LIMIT :: nat where "AUTO_DENY_CONSECUTIVE_LIMIT = 3"
definition AUTO_DENY_TOTAL_LIMIT :: nat where "AUTO_DENY_TOTAL_LIMIT = 20"

definition AUTO_DENY_GUIDANCE :: string where
  "AUTO_DENY_GUIDANCE =
     ''Take a safer approach that stays within what the user asked for; do not retry this exact action or attempt to work around the denial. If no safer alternative exists, ask the user how to proceed.''"

definition auto_deny_message :: "string option \<Rightarrow> string" where
  "auto_deny_message reason =
     (case reason of
        Some r \<Rightarrow> ''Auto mode blocked this action ('' @ trim_end_matches CHR ''.'' r @ ''). '' @ AUTO_DENY_GUIDANCE
      | None \<Rightarrow> ''Auto mode blocked this action. '' @ AUTO_DENY_GUIDANCE)"

subsection \<open>The fast path\<close>

definition access_requires_user_interaction :: "string \<Rightarrow> access_kind \<Rightarrow> bool" where
  "access_requires_user_interaction tool_name a \<longleftrightarrow>
     (let t = to_ascii_lowercase tool_name in
      contains_str t ''ask_user'' \<or> contains_str t ''askuserquestion''
      \<or> contains_str t ''user_question'' \<or> t = ''ask_user_question'')
     \<or> (case a of
          MCPTool name _ \<Rightarrow>
            (let n = to_ascii_lowercase name in
             contains_str n ''ask_user'' \<or> contains_str n ''confirm'' \<and> contains_str n ''human'')
        | _ \<Rightarrow> False)"

fun is_auto_mode_allowlisted_access :: "access_kind \<Rightarrow> bool" where
  "is_auto_mode_allowlisted_access (Read _) = True"
| "is_auto_mode_allowlisted_access (Grep _ _) = True"
| "is_auto_mode_allowlisted_access (WebSearch _) = True"
| "is_auto_mode_allowlisted_access _ = False"

definition ALLOWLISTED_TOOL_NAMES :: "string list" where
  "ALLOWLISTED_TOOL_NAMES =
     [''todo_write'', ''TodoWrite'', ''task_output'', ''TaskOutput'', ''wait_tasks'', ''WaitTasks'',
      ''ask_user_question'', ''AskUserQuestion'', ''enter_plan_mode'', ''EnterPlanMode'',
      ''exit_plan_mode'', ''ExitPlanMode'', ''switch_mode'', ''SwitchMode'', ''create_plan'',
      ''CreatePlan'', ''update_plan'', ''UpdatePlan'', ''list_mcp_resources'', ''ListMcpResources'',
      ''read_mcp_resource'', ''ReadMcpResource'', ''tool_search'', ''ToolSearch'', ''sleep'', ''Sleep'']"

definition is_auto_mode_allowlisted_tool_name :: "string \<Rightarrow> bool" where
  "is_auto_mode_allowlisted_tool_name tool_name \<longleftrightarrow> tool_name \<in> set ALLOWLISTED_TOOL_NAMES"

datatype auto_fast_path = FastAllow | FastPromptUser | FastClassify

definition fast_allowed :: "access_kind \<Rightarrow> bool" where
  "fast_allowed a =
     (case a of
        Edit _ \<Rightarrow> True
      | AgentMessage _ \<Rightarrow> True
      | Bash cmd \<Rightarrow> trim cmd \<in> set [''true'', '':'', ''false'']
      | _ \<Rightarrow> False)"

definition auto_mode_fast_path :: "access_kind \<Rightarrow> string \<Rightarrow> bool \<Rightarrow> auto_fast_path" where
  "auto_mode_fast_path a tool_name requires_user_interaction =
     (if requires_user_interaction then FastPromptUser
      else if is_auto_mode_allowlisted_access a \<or> is_auto_mode_allowlisted_tool_name tool_name
      then FastAllow
      else if fast_allowed a then FastAllow
      else FastClassify)"

fun tool_name_for_access :: "access_kind \<Rightarrow> string" where
  "tool_name_for_access (Read _) = ''read_file''"
| "tool_name_for_access (Grep _ _) = ''grep''"
| "tool_name_for_access (Edit _) = ''search_replace''"
| "tool_name_for_access (Bash _) = ''run_terminal_command''"
| "tool_name_for_access (MCPTool name _) = ''mcp:'' @ name"
| "tool_name_for_access (WebFetch _) = ''web_fetch''"
| "tool_name_for_access (WebSearch _) = ''web_search''"
| "tool_name_for_access (AgentMessage _) = ''send_subagent_message''"

subsection \<open>Answers of a prompt\<close>

datatype prompt_outcome =
    AllowOnce | AllowAlways | AllowEditsForSession
  | AllowAlwaysBashCommand string | AllowAlwaysBashGlob string | AllowAlwaysDomain string
  | AllowAlwaysMcpTool string | AllowAlwaysMcpServer string
  | RejectOnce | RejectAlwaysBashCommand string | RejectAlwaysMcpTool string
  | RejectAlwaysDomain string
  | PromptCancelled | PromptFollowup string | PromptError string

fun outcome_wire_str :: "prompt_outcome \<Rightarrow> string" where
  "outcome_wire_str AllowOnce = ''allow_once''"
| "outcome_wire_str AllowAlways = ''allow_always''"
| "outcome_wire_str AllowEditsForSession = ''allow_edits_for_session''"
| "outcome_wire_str (AllowAlwaysBashCommand _) = ''allow_always_bash''"
| "outcome_wire_str (AllowAlwaysBashGlob _) = ''allow_always_bash_glob''"
| "outcome_wire_str (AllowAlwaysDomain _) = ''allow_always_domain''"
| "outcome_wire_str (AllowAlwaysMcpTool _) = ''allow_always_mcp_tool''"
| "outcome_wire_str (AllowAlwaysMcpServer _) = ''allow_always_mcp_server''"
| "outcome_wire_str RejectOnce = ''reject_once''"
| "outcome_wire_str (RejectAlwaysBashCommand _) = ''reject_always_bash''"
| "outcome_wire_str (RejectAlwaysMcpTool _) = ''reject_always_mcp_tool''"
| "outcome_wire_str (RejectAlwaysDomain _) = ''reject_always_domain''"
| "outcome_wire_str PromptCancelled = ''cancelled''"
| "outcome_wire_str (PromptFollowup _) = ''followup''"
| "outcome_wire_str (PromptError _) = ''error''"

text \<open>The answers that let the action run.\<close>

definition is_allow_outcome :: "prompt_outcome \<Rightarrow> bool" where
  "is_allow_outcome p =
     (case p of
        AllowOnce \<Rightarrow> True | AllowAlways \<Rightarrow> True | AllowEditsForSession \<Rightarrow> True
      | AllowAlwaysBashCommand _ \<Rightarrow> True | AllowAlwaysBashGlob _ \<Rightarrow> True | AllowAlwaysDomain _ \<Rightarrow> True
      | AllowAlwaysMcpTool _ \<Rightarrow> True | AllowAlwaysMcpServer _ \<Rightarrow> True | _ \<Rightarrow> False)"

subsection \<open>Paths a model names\<close>

definition is_path_quote :: "char \<Rightarrow> bool" where
  "is_path_quote c \<longleftrightarrow> c = CHR 0x22 \<or> c = CHR 0x27"

definition trim_path_quotes :: "string \<Rightarrow> string" where
  "trim_path_quotes s = rev (dropWhile is_path_quote (rev (dropWhile is_path_quote s)))"

definition literal_escape_stripped :: "string \<Rightarrow> string option" where
  "literal_escape_stripped s =
     (case strip_suffix s [CHR 0x5C, CHR ''n''] of
        Some r \<Rightarrow> Some r
      | None \<Rightarrow>
          (case strip_suffix s [CHR 0x5C, CHR ''r''] of
             Some r \<Rightarrow> Some r
           | None \<Rightarrow> strip_suffix s [CHR 0x5C, CHR ''t'']))"

lemma literal_escape_shrinks: "literal_escape_stripped s = Some r \<Longrightarrow> length r < length s"
  by (auto simp: literal_escape_stripped_def strip_suffix_def ends_with_def split: option.splits if_splits)

lemma length_trim_end: "length (trim_end s) \<le> length s"
proof (induction s rule: trim_end.induct)
  case (1 s)
  then show ?case by (subst trim_end.simps) auto
qed

function strip_literal_escapes :: "string \<Rightarrow> string" where
  "strip_literal_escapes s =
     (case literal_escape_stripped s of
        Some stripped \<Rightarrow> strip_literal_escapes (trim_end stripped)
      | None \<Rightarrow> s)"
  by pat_completeness auto
termination
  using literal_escape_shrinks length_trim_end
  by (relation "measure length") (auto intro: le_less_trans)

declare strip_literal_escapes.simps [simp del]

definition sanitize_model_path_arg :: "string \<Rightarrow> string" where
  "sanitize_model_path_arg input =
     (let trimmed = trim input;
          quote_wrapped = (2 \<le> length trimmed \<and> is_path_quote (hd trimmed) \<and> is_path_quote (last trimmed));
          unquoted = trim (trim_path_quotes trimmed) in
      if \<not> quote_wrapped then unquoted else strip_literal_escapes unquoted)"

text \<open>
  \<open>tilde\<close> is the \<open>shellexpand\<close> crate's replacement of a leading \<open>~\<close> by the home directory.
\<close>

definition resolve_model_path :: "(string \<Rightarrow> string) \<Rightarrow> string \<Rightarrow> string option \<Rightarrow> string \<Rightarrow> string" where
  "resolve_model_path tilde cwd display_cwd input0 =
     (let expanded = tilde (sanitize_model_path_arg input0) in
      case (if path_is_absolute expanded then display_cwd else None) of
        Some display \<Rightarrow>
          (case path_strip_prefix expanded display of
             Some suf \<Rightarrow> path_join cwd suf
           | None \<Rightarrow> expanded)
      | None \<Rightarrow>
          (case (if \<not> path_is_absolute expanded \<and> expanded \<noteq> []
                 then path_strip_prefix (''/'' @ expanded)
                        (case display_cwd of Some d \<Rightarrow> d | None \<Rightarrow> cwd)
                 else None) of
             Some suf \<Rightarrow> path_join cwd suf
           | None \<Rightarrow> path_join cwd expanded))"

subsection \<open>Truncated arguments\<close>

fun floor_boundary :: "string \<Rightarrow> nat \<Rightarrow> nat" where
  "floor_boundary s 0 = 0"
| "floor_boundary s (Suc n) = (if is_char_boundary s (Suc n) then Suc n else floor_boundary s n)"

definition TRUNCATION_MARKER :: string where
  "TRUNCATION_MARKER = [CHR 0xE2, CHR 0x80, CHR 0xA6]"

definition truncate_str :: "string \<Rightarrow> nat \<Rightarrow> string" where
  "truncate_str s max_bytes =
     (if length s \<le> max_bytes then s else take (floor_boundary s max_bytes) s)"

definition truncate_str_with_marker :: "string \<Rightarrow> nat \<Rightarrow> string" where
  "truncate_str_with_marker s max_bytes =
     (if length s \<le> max_bytes then s
      else if length TRUNCATION_MARKER > max_bytes then truncate_str s max_bytes
      else take (floor_boundary s (max_bytes - length TRUNCATION_MARKER)) s @ TRUNCATION_MARKER)"

definition CLASSIFIER_TURN_MAX_LEN :: nat where "CLASSIFIER_TURN_MAX_LEN = 400"

definition char_starts :: "string \<Rightarrow> nat list" where
  "char_starts s = filter (\<lambda>i. \<not> is_utf8_cont (s ! i)) [0..<length s]"

definition truncate_line :: "string \<Rightarrow> nat \<Rightarrow> string" where
  "truncate_line line max_chars =
     (if length line \<le> max_chars then line
      else let starts = char_starts line in
        if length starts \<le> max_chars then line
        else take (case get starts max_chars of Some i \<Rightarrow> i | None \<Rightarrow> length line) line
             @ '' [... truncated ('' @ nat_digits (length starts) @ '' chars total)]'')"

definition MCP_ACCESS_DETAIL_MAX_LEN :: nat where "MCP_ACCESS_DETAIL_MAX_LEN = 1024"

text \<open>\<open>json_text\<close> is the compact printer of \<open>serde_json\<close>.\<close>

definition mcp_access_detail :: "(json \<Rightarrow> string) \<Rightarrow> string \<Rightarrow> json \<Rightarrow> string" where
  "mcp_access_detail json_text name args =
     (if args = JNull then name
      else truncate_line (name @ '' '' @ json_text args) MCP_ACCESS_DETAIL_MAX_LEN)"

fun access_detail_of :: "(json \<Rightarrow> string) \<Rightarrow> access_kind \<Rightarrow> string option" where
  "access_detail_of js (Read _) = None"
| "access_detail_of js (Grep path _) = path"
| "access_detail_of js (Edit path) = Some path"
| "access_detail_of js (Bash cmd) = Some cmd"
| "access_detail_of js (MCPTool name args) = Some (mcp_access_detail js name args)"
| "access_detail_of js (WebFetch url) = Some url"
| "access_detail_of js (WebSearch query) = Some query"
| "access_detail_of js (AgentMessage i) = Some i"

definition permission_decision_args :: "(json \<Rightarrow> string) \<Rightarrow> access_kind \<Rightarrow> string option \<Rightarrow> string" where
  "permission_decision_args json_text a access_detail =
     truncate_str_with_marker
       (case a of
          Bash cmd \<Rightarrow> json_text (JObject [(''command'', JString cmd)])
        | _ \<Rightarrow> (case access_detail of Some d \<Rightarrow> d | None \<Rightarrow> ''(none)''))
       CLASSIFIER_TURN_MAX_LEN"

datatype classifier_turn =
    UserText string
  | AssistantToolUse string string
  | PermissionDecisionTurn string string bool

lemma floor_boundary_le: "floor_boundary s n \<le> n"
  by (induction n) auto

lemma floor_boundary_boundary: "is_char_boundary s (floor_boundary s n)"
  by (induction n) (auto simp: is_char_boundary_def)

text \<open>A truncated text never exceeds its budget, is cut at a character boundary, and carries the
  marker exactly when something was cut and the marker fits.\<close>

theorem truncate_with_marker_bounded:
  "length (truncate_str_with_marker s n) \<le> n
   \<and> (\<exists>k. is_char_boundary s k
        \<and> (truncate_str_with_marker s n = take k s
           \<or> truncate_str_with_marker s n = take k s @ TRUNCATION_MARKER \<and> n < length s))"
proof -
  have l: "length (take (floor_boundary s m) s) \<le> m" for m
    using floor_boundary_le[of s m] by simp
  consider (fits) "length s \<le> n" | (small) "n < length s" "n < length TRUNCATION_MARKER"
    | (cut) "n < length s" "length TRUNCATION_MARKER \<le> n" by linarith
  then show ?thesis
  proof cases
    case fits
    moreover have "is_char_boundary s (length s)" by (simp add: is_char_boundary_def)
    ultimately show ?thesis
      by (auto simp: truncate_str_with_marker_def intro!: exI[of _ "length s"])
  next
    case small
    with l[of n] floor_boundary_boundary[of s n] show ?thesis
      by (auto simp: truncate_str_with_marker_def truncate_str_def)
  next
    case cut
    with l[of "n - length TRUNCATION_MARKER"] floor_boundary_boundary[of s "n - length TRUNCATION_MARKER"]
    show ?thesis by (fastforce simp: truncate_str_with_marker_def)
  qed
qed

end
