(* ===== verification/Manager.thy ===== *)
theory Manager
  imports Bash_Grants Preflight Edit_Protection Auto_Route
begin

text \<open>
  The permission manager (\<open>permission/manager/mod.rs\<close>): its configuration, the state of the actor, and
  the handling of one request, stage by stage, in the order of the source: policy deny,
  always-approve, remembered grants, auto mode, sandbox, policy allow, pre-decisions, prompt
  policy, prompt.  What the actor gets from outside while it handles the request is a
  \<open>surroundings\<close> record.
\<close>

subsection \<open>Configuration, state, surroundings\<close>

record manager_config =
  mc_host :: host
  mc_cwd :: string
  mc_client_id :: "string option"
  mc_client :: client_type
  mc_policy :: "compiled_policy option"
  mc_prompt_policy :: prompt_policy
  mc_matcher :: domain_matcher
  mc_allowlist_is_default :: bool
  mc_pin :: "string option"
  mc_remember :: bool
  mc_tilde :: "string \<Rightarrow> string"
  mc_json_text :: "json \<Rightarrow> string"

record actor =
  ac_state :: permission_state
  ac_yolo :: bool
  ac_auto :: bool
  ac_yolo_flag :: bool
  ac_auto_flag :: bool
  ac_classifier :: bool
  ac_consecutive :: nat
  ac_total :: nat
  ac_turns :: "classifier_turn list"
  ac_recorded :: "classifier_turn list"
  ac_instructions :: "string option"
  ac_pin_refusal_logged :: bool
  ac_allow_edits :: bool
  ac_store :: store

text \<open>What a classifier is asked.\<close>

record classifier_input =
  ci_tool :: string
  ci_access :: access_kind
  ci_detail :: "string option"
  ci_turns :: "classifier_turn list"
  ci_instructions :: "string option"
  ci_findings :: assessment

text \<open>
  \<open>su_fresh\<close> is the store's content when it changed on disk, \<open>su_scan_fails\<close> a failure of the blocking
  git scan, \<open>su_classify\<close> the installed classifier, with no answer when the requester left first, and
  \<open>su_prompt\<close> the user's answer, none when the requester left while the prompt was open.
\<close>

record surroundings =
  su_gone_at_dequeue :: bool
  su_fresh :: "permission_state option"
  su_scan_fails :: bool
  su_gone_after_scan :: bool
  su_classify :: "classifier_input \<Rightarrow> classifier_outcome option"
  su_sandbox_auto :: bool
  su_gone_before_prompt :: bool
  su_prompt :: "prompt_outcome option"
  su_gone_after_prompt :: bool

record permission_event =
  ev_tool_name :: string
  ev_detail :: "string option"
  ev_yolo :: bool
  ev_mode :: string
  ev_auto_approved :: bool
  ev_user_prompted :: bool
  ev_decision :: decision
  ev_outcome :: "string option"
  ev_reason :: string
  ev_denials :: "(nat \<times> nat) option"
  ev_classification :: request_classification
  ev_findings :: "string list option"
  ev_remember :: bool

definition YOLO :: string where "YOLO = ''yolo''"
definition POLICY_ALLOW :: string where "POLICY_ALLOW = ''policy_allow''"
definition POLICY_DENY :: string where "POLICY_DENY = ''policy_deny''"
definition AUTO_FAST_PATH :: string where "AUTO_FAST_PATH = ''auto_fast_path''"
definition AUTO_CLASSIFIER_ALLOW :: string where "AUTO_CLASSIFIER_ALLOW = ''auto_classifier_allow''"
definition AUTO_CLASSIFIER_DENY :: string where "AUTO_CLASSIFIER_DENY = ''auto_classifier_deny''"
definition AUTO_CLASSIFIER_TIMEOUT :: string where "AUTO_CLASSIFIER_TIMEOUT = ''auto_classifier_timeout''"
definition AUTO_CLASSIFIER_UNAVAILABLE :: string where
  "AUTO_CLASSIFIER_UNAVAILABLE = ''auto_classifier_unavailable''"
definition AUTO_DENIAL_LIMIT :: string where "AUTO_DENIAL_LIMIT = ''auto_denial_limit''"
definition SANDBOX_AUTO :: string where "SANDBOX_AUTO = ''sandbox_auto''"
definition PERSISTED_GRANT :: string where "PERSISTED_GRANT = ''persisted_grant''"
definition PROMPT_DENY :: string where "PROMPT_DENY = ''prompt_deny''"
definition PROMPT_ALLOW :: string where "PROMPT_ALLOW = ''prompt_allow''"
definition NEEDS_USER :: string where "NEEDS_USER = ''needs_user''"
definition BASH_REQUEST_FLOOR :: string where "BASH_REQUEST_FLOOR = ''bash_request_floor''"
definition OPAQUE_SHELL_REASON :: string where "OPAQUE_SHELL_REASON = ''opaque_shell''"
definition HOOK_ASK_REASON :: string where "HOOK_ASK_REASON = ''hook_ask''"
definition REQUESTER_GONE :: string where "REQUESTER_GONE = ''requester_gone''"

lemmas reason_defs = YOLO_def POLICY_ALLOW_def POLICY_DENY_def AUTO_FAST_PATH_def
  AUTO_CLASSIFIER_ALLOW_def AUTO_CLASSIFIER_DENY_def AUTO_CLASSIFIER_TIMEOUT_def
  AUTO_CLASSIFIER_UNAVAILABLE_def AUTO_DENIAL_LIMIT_def SANDBOX_AUTO_def PERSISTED_GRANT_def
  PROMPT_DENY_def PROMPT_ALLOW_def NEEDS_USER_def SESSION_DENY_def SESSION_GRANT_def
  SAFE_COMMAND_def STATIC_ALLOWLIST_def

subsection \<open>The facts of a request\<close>

record facts =
  fa_access :: access_kind
  fa_tool_name :: string
  fa_detail :: "string option"
  fa_eval :: "bash_evaluation option"
  fa_protected :: "protected_edit_reason option"
  fa_preflight :: gate_preflight
  fa_hook :: bool

definition reloads_store :: "access_kind \<Rightarrow> bool" where
  "reloads_store a = (case a of Bash _ \<Rightarrow> True | MCPTool _ _ \<Rightarrow> True | WebFetch _ \<Rightarrow> True | _ \<Rightarrow> False)"

definition reload_if_changed :: "surroundings \<Rightarrow> access_kind \<Rightarrow> actor \<Rightarrow> actor" where
  "reload_if_changed e a s =
     (case (if reloads_store a then su_fresh e else None) of
        Some fresh \<Rightarrow> s\<lparr>ac_state := merge_grants_from (ac_state s) fresh\<rparr>
      | None \<Rightarrow> s)"

definition request_cwd :: "manager_config \<Rightarrow> path_context option \<Rightarrow> string" where
  "request_cwd c ctx = (case ctx of Some x \<Rightarrow> ctx_real_cwd x | None \<Rightarrow> mc_cwd c)"

definition ambient_risk :: "manager_config \<Rightarrow> surroundings \<Rightarrow> string \<Rightarrow> argv list \<Rightarrow> bool" where
  "ambient_risk c e cwd raw =
     (case ambient_scan_plan_from_segments raw cwd of
        PlanFailClosed \<Rightarrow> True
      | plan \<Rightarrow> su_scan_fails e \<or> ambient_exec_risk_from_plan (mc_host c) plan)"

text \<open>The evaluation of a Bash request; \<open>be_ambient_segments\<close> is taken out of it by the scan.\<close>

definition evaluate_request ::
  "manager_config \<Rightarrow> surroundings \<Rightarrow> permission_state \<Rightarrow> string \<Rightarrow> access_kind \<Rightarrow> bash_evaluation option"
where
  "evaluate_request c e s cwd a =
     (case a of
        Bash cmd \<Rightarrow>
          (let ev = evaluate_bash (mc_host c) cmd s True in
           case be_ambient_segments ev of
             None \<Rightarrow> Some ev
           | Some raw \<Rightarrow>
               Some (ev\<lparr>be_ambient_segments := None,
                        be_assessment :=
                          (if ambient_risk c e cwd raw then insert ExecOrAmbientGit (be_assessment ev)
                           else be_assessment ev)\<rparr>))
      | _ \<Rightarrow> None)"

definition scans_ambient :: "manager_config \<Rightarrow> permission_state \<Rightarrow> access_kind \<Rightarrow> bool" where
  "scans_ambient c s a =
     (case a of Bash cmd \<Rightarrow> be_ambient_segments (evaluate_bash (mc_host c) cmd s True) \<noteq> None | _ \<Rightarrow> False)"

definition resolve_request_path :: "manager_config \<Rightarrow> path_context option \<Rightarrow> string \<Rightarrow> string" where
  "resolve_request_path c ctx path =
     (case ctx of
        Some x \<Rightarrow> resolve_model_path (mc_tilde c) (ctx_real_cwd x) (ctx_display_cwd x) path
      | None \<Rightarrow> resolve_model_path (mc_tilde c) (mc_cwd c) None path)"

definition protected_target ::
  "manager_config \<Rightarrow> path_context option \<Rightarrow> bash_evaluation option \<Rightarrow> access_kind
     \<Rightarrow> protected_edit_reason option"
where
  "protected_target c ctx evaluation a =
     (case a of
        Edit path \<Rightarrow> edit_target_protection (mc_host c) (resolve_request_path c ctx path)
      | Bash _ \<Rightarrow>
          Option.bind evaluation (\<lambda>ev.
            if be_has_cwd_change ev \<and> list_ex (\<lambda>p. \<not> path_is_absolute p) (be_creation_paths ev)
            then Some Sensitive
            else find_map (\<lambda>p. edit_target_protection (mc_host c) (resolve_request_path c ctx p))
                   (be_creation_paths ev))
      | _ \<Rightarrow> None)"

definition gather_facts :: "manager_config \<Rightarrow> surroundings \<Rightarrow> actor \<Rightarrow> permission_request \<Rightarrow> facts" where
  "gather_facts c e s rq =
     (let a = rq_access rq; cwd = request_cwd c (rq_path_context rq);
          ev = evaluate_request c e (ac_state s) cwd a in
      \<lparr>fa_access = a, fa_tool_name = tool_name_for_access a,
       fa_detail = access_detail_of (mc_json_text c) a, fa_eval = ev,
       fa_protected = protected_target c (rq_path_context rq) ev a,
       fa_preflight = preflight_evaluate (mc_host c) (mc_policy c) a cwd (ac_auto s),
       fa_hook = (rq_hook_ask rq \<noteq> None)\<rparr>)"

definition pre_classifier_forced :: "facts \<Rightarrow> bool" where
  "pre_classifier_forced f \<longleftrightarrow>
     policy_forced_prompt (fa_preflight f) \<or> shell_forced_prompt (fa_preflight f) \<or> fa_hook f"

definition narrow_authorized :: "manager_config \<Rightarrow> facts \<Rightarrow> bool" where
  "narrow_authorized c f =
     (case mc_policy c of Some p \<Rightarrow> narrow_allow_authorizes (mc_host c) p (fa_access f) | None \<Rightarrow> False)"

subsection \<open>Decisions before auto mode\<close>

text \<open>A decision, whether it counts as an automatic approval in the event, and its reason.\<close>

type_synonym staged = "(decision \<times> bool \<times> string) option"

definition granted_early :: "manager_config \<Rightarrow> actor \<Rightarrow> facts \<Rightarrow> pre_decision" where
  "granted_early c s f =
     (if \<not> pre_classifier_forced f \<and> fa_protected f = None
      then session_grant_pre_decision (mc_host c) (fa_access f) (fa_eval f) (ac_state s) (ac_allow_edits s)
             (mc_matcher c) (\<not> (ac_auto s \<and> mc_allowlist_is_default c)) (mc_pin c)
      else None)"

definition auto_policy_allow :: "manager_config \<Rightarrow> actor \<Rightarrow> facts \<Rightarrow> bool" where
  "auto_policy_allow c s f \<longleftrightarrow>
     ac_auto s \<and> \<not> pre_classifier_forced f \<and> fa_protected f = None
     \<and> policy_decision (fa_preflight f) = Some Allow
     \<and> (bash_assessment_is_clear (fa_eval f)
        \<or> \<not> bash_request_floor_requires_prompt (fa_eval f) \<and> narrow_authorized c f)"

definition early_decision :: "manager_config \<Rightarrow> actor \<Rightarrow> facts \<Rightarrow> staged" where
  "early_decision c s f =
     (case policy_decision (fa_preflight f) of
        Some (Reject reason) \<Rightarrow> Some (PolicyDeny reason, False, POLICY_DENY)
      | _ \<Rightarrow>
        if ac_yolo s \<and> \<not> shell_forced_prompt (fa_preflight f) \<and> \<not> fa_hook f
        then Some (Allow, True, YOLO)
        else case granted_early c s f of
            Some (d, reason) \<Rightarrow> Some (d, True, reason)
          | None \<Rightarrow> if auto_policy_allow c s f then Some (Allow, True, POLICY_ALLOW) else None)"

subsection \<open>Auto mode\<close>

datatype auto_end =
    RouteDecided decision bool string
  | RouteAbandoned
  | RouteForced string
  | RouteContinues

record auto_result =
  ar_actor :: actor
  ar_class :: request_classification
  ar_end :: auto_end

definition classifier_request :: "actor \<Rightarrow> facts \<Rightarrow> classifier_input" where
  "classifier_request s f =
     \<lparr>ci_tool = fa_tool_name f, ci_access = fa_access f, ci_detail = fa_detail f,
      ci_turns = ac_turns s @ ac_recorded s, ci_instructions = ac_instructions s,
      ci_findings = classifier_assessment (fa_eval f) (gp_defers_gate_ask (fa_preflight f))\<rparr>"

definition apply_verdict ::
  "manager_config \<Rightarrow> actor \<Rightarrow> facts \<Rightarrow> request_classification \<Rightarrow> classifier_outcome option \<Rightarrow> auto_result"
where
  "apply_verdict c s f cls outcome =
     (case (case outcome of Some x \<Rightarrow> co_verdict x | None \<Rightarrow> VUnavailable) of
        VAllow \<Rightarrow>
          \<lparr>ar_actor = s\<lparr>ac_consecutive := 0\<rparr>, ar_class = cls,
           ar_end = (if fa_hook f then RouteContinues else RouteDecided Allow True AUTO_CLASSIFIER_ALLOW)\<rparr>
      | VBlock \<Rightarrow>
          if can_present_permission_prompt (mc_client c)
          then \<lparr>ar_actor = s, ar_class = cls, ar_end = RouteForced AUTO_CLASSIFIER_DENY\<rparr>
          else if ac_consecutive s < AUTO_DENY_CONSECUTIVE_LIMIT \<and> ac_total s < AUTO_DENY_TOTAL_LIMIT
          then \<lparr>ar_actor = s\<lparr>ac_consecutive := Suc (ac_consecutive s), ac_total := Suc (ac_total s)\<rparr>,
                ar_class = cls,
                ar_end = RouteDecided (PolicyDeny (auto_deny_message (Option.bind outcome co_reason)))
                           False AUTO_CLASSIFIER_DENY\<rparr>
          else \<lparr>ar_actor = s, ar_class = cls, ar_end = RouteForced AUTO_DENIAL_LIMIT\<rparr>
      | VUnavailable \<Rightarrow>
          \<lparr>ar_actor = s, ar_class = cls,
           ar_end = RouteForced (if (case outcome of Some x \<Rightarrow> is_timeout x | None \<Rightarrow> False)
                                 then AUTO_CLASSIFIER_TIMEOUT else AUTO_CLASSIFIER_UNAVAILABLE)\<rparr>)"

definition completed :: "manager_config \<Rightarrow> actor \<Rightarrow> facts \<Rightarrow> classifier_outcome \<Rightarrow> auto_result" where
  "completed c s f x =
     apply_verdict c s f (Classified (Some (co_verdict x, provenance_source (co_provenance x)))) (Some x)"

definition classify_route :: "manager_config \<Rightarrow> surroundings \<Rightarrow> actor \<Rightarrow> facts \<Rightarrow> auto_result" where
  "classify_route c e s f =
     (if ac_classifier s then
        (case su_classify e (classifier_request s f) of
           None \<Rightarrow> \<lparr>ar_actor = s, ar_class = Classified None, ar_end = RouteAbandoned\<rparr>
         | Some x \<Rightarrow> completed c s f x)
      else case fa_access f of
          AgentMessage _ \<Rightarrow> completed c s f (outcome_heuristic VBlock)
        | _ \<Rightarrow> apply_verdict c s f (Classified (Some (VUnavailable, KNotWired))) None)"

definition auto_route :: "manager_config \<Rightarrow> surroundings \<Rightarrow> actor \<Rightarrow> facts \<Rightarrow> auto_result" where
  "auto_route c e s f =
     (if ac_auto s \<and> admits_auto_classifier (fa_preflight f) then
        (case auto_mode_fast_path (fa_access f) (fa_tool_name f)
                (fa_protected f \<noteq> None \<or> access_requires_user_interaction (fa_tool_name f) (fa_access f)) of
           FastAllow \<Rightarrow>
             if fa_hook f then \<lparr>ar_actor = s, ar_class = NotClassified, ar_end = RouteContinues\<rparr>
             else \<lparr>ar_actor = s, ar_class = FastPathClass, ar_end = RouteDecided Allow True AUTO_FAST_PATH\<rparr>
         | FastPromptUser \<Rightarrow> \<lparr>ar_actor = s, ar_class = NotClassified, ar_end = RouteForced NEEDS_USER\<rparr>
         | FastClassify \<Rightarrow> classify_route c e s f)
      else \<lparr>ar_actor = s, ar_class = NotClassified, ar_end = RouteContinues\<rparr>)"

subsection \<open>Decisions after auto mode\<close>

text \<open>\<open>forced\<close> is the reason for which auto mode forces a prompt, if it does.\<close>

definition is_bash :: "access_kind \<Rightarrow> bool" where
  "is_bash a = (case a of Bash _ \<Rightarrow> True | _ \<Rightarrow> False)"

definition sandbox_allows :: "surroundings \<Rightarrow> facts \<Rightarrow> string option \<Rightarrow> bool" where
  "sandbox_allows e f forced \<longleftrightarrow>
     is_bash (fa_access f) \<and> sandbox_may_auto_allow_bash (fa_eval f) (su_sandbox_auto e)
     \<and> \<not> policy_forced_prompt (fa_preflight f) \<and> forced = None \<and> \<not> fa_hook f \<and> fa_protected f = None"

definition policy_allow_deferred :: "manager_config \<Rightarrow> facts \<Rightarrow> string option \<Rightarrow> bool" where
  "policy_allow_deferred c f forced \<longleftrightarrow>
     fa_protected f \<noteq> None \<or> forced \<noteq> None \<or> fa_hook f
     \<or> bash_request_floor_requires_prompt (fa_eval f)
       \<and> \<not> narrow_allow_clears_write_floor (mc_host c) (fa_eval f) (mc_policy c) (fa_access f)"

definition policy_stage :: "manager_config \<Rightarrow> facts \<Rightarrow> string option \<Rightarrow> staged" where
  "policy_stage c f forced =
     (case policy_decision (fa_preflight f) of
        None \<Rightarrow> None
      | Some Ask \<Rightarrow> None
      | Some Allow \<Rightarrow> if policy_allow_deferred c f forced then None else Some (Allow, True, POLICY_ALLOW)
      | Some d \<Rightarrow> Some (d, True, POLICY_ALLOW))"

definition edit_pre_decision :: "actor \<Rightarrow> facts \<Rightarrow> pre_decision" where
  "edit_pre_decision s f =
     (if ac_allow_edits s \<and> fa_protected f = None then Some (Allow, PERSISTED_GRANT)
      else case ps_edit_policy (ac_state s) of
          EditReject \<Rightarrow> Some (Reject ''edits prohibited'', SESSION_DENY)
        | _ \<Rightarrow> None)"

definition bash_pre_decision ::
  "manager_config \<Rightarrow> actor \<Rightarrow> facts \<Rightarrow> string option \<Rightarrow> string \<Rightarrow> bash_evaluation \<Rightarrow> pre_decision"
where
  "bash_pre_decision c s f forced cmd ev =
     (if fa_protected f \<noteq> None \<or> bash_request_floor_requires_prompt (Some ev) then None
      else if policy_forced_prompt (fa_preflight f) then
        (if mc_remember c \<and> forced = None \<and> \<not> shell_file_forced_prompt (fa_preflight f)
         then bash_grant_pre_decision cmd ev (ac_state s) (mc_pin c) ASK_FLOOR_REMEMBER
         else None)
      else bash_grant_pre_decision cmd ev (ac_state s) (mc_pin c) (post_classify (forced \<noteq> None)))"

definition web_pre_decision :: "manager_config \<Rightarrow> actor \<Rightarrow> string \<Rightarrow> pre_decision" where
  "web_pre_decision c s url =
     (case web_fetch_deny_pre_decision (mc_host c) url (ac_state s) of
        Some reject \<Rightarrow> Some (reject, SESSION_DENY)
      | None \<Rightarrow>
          if domain_matcher_permits (mc_host c) (mc_matcher c) url then Some (Allow, STATIC_ALLOWLIST)
          else case h_url_host (mc_host c) url of
              Some hst \<Rightarrow>
                if normalize_domain (mc_host c) hst \<in> set (ps_allowed_web_fetch_domains (ac_state s))
                then Some (Allow, PERSISTED_GRANT) else None
            | None \<Rightarrow> None)"

definition raw_pre_decision :: "manager_config \<Rightarrow> actor \<Rightarrow> facts \<Rightarrow> string option \<Rightarrow> pre_decision" where
  "raw_pre_decision c s f forced =
     (case fa_access f of
        Read _ \<Rightarrow> if policy_forced_prompt (fa_preflight f) then None else Some (Allow, SAFE_COMMAND)
      | Grep _ _ \<Rightarrow> if policy_forced_prompt (fa_preflight f) then None else Some (Allow, SAFE_COMMAND)
      | WebSearch _ \<Rightarrow> Some (Allow, SAFE_COMMAND)
      | MCPTool name _ \<Rightarrow>
          map_option (\<lambda>d. (d, case d of Reject _ \<Rightarrow> SESSION_DENY | _ \<Rightarrow> PERSISTED_GRANT))
            (mcp_pre_decision name (ac_state s) (policy_forced_prompt (fa_preflight f)) (mc_remember c))
      | Edit _ \<Rightarrow> edit_pre_decision s f
      | Bash cmd \<Rightarrow> Option.bind (fa_eval f) (bash_pre_decision c s f forced cmd)
      | AgentMessage _ \<Rightarrow> None
      | WebFetch url \<Rightarrow> web_pre_decision c s url)"

definition is_pre_allow :: "pre_decision \<Rightarrow> bool" where
  "is_pre_allow d = (case d of Some (Allow, _) \<Rightarrow> True | _ \<Rightarrow> False)"

definition webfetch_static_fallback :: "facts \<Rightarrow> string option \<Rightarrow> pre_decision \<Rightarrow> bool" where
  "webfetch_static_fallback f forced d \<longleftrightarrow>
     (forced = Some AUTO_CLASSIFIER_TIMEOUT \<or> forced = Some AUTO_CLASSIFIER_UNAVAILABLE)
     \<and> (case fa_access f of WebFetch _ \<Rightarrow> True | _ \<Rightarrow> False)
     \<and> (d = Some (Allow, STATIC_ALLOWLIST) \<or> d = Some (Allow, PERSISTED_GRANT))"

definition pre_stage :: "manager_config \<Rightarrow> actor \<Rightarrow> facts \<Rightarrow> string option \<Rightarrow> pre_decision" where
  "pre_stage c s f forced =
     (let d = raw_pre_decision c s f forced;
          d1 = (if forced \<noteq> None \<and> \<not> is_bash (fa_access f) \<and> is_pre_allow d
                   \<and> \<not> webfetch_static_fallback f forced d then None else d)
      in if fa_hook f \<and> is_pre_allow d1 then None else d1)"

definition late_decision ::
  "manager_config \<Rightarrow> surroundings \<Rightarrow> actor \<Rightarrow> facts \<Rightarrow> string option \<Rightarrow> staged"
where
  "late_decision c e s f forced =
     (if sandbox_allows e f forced then Some (Allow, True, SANDBOX_AUTO)
      else case policy_stage c f forced of
          Some x \<Rightarrow> Some x
        | None \<Rightarrow>
            (case pre_stage c s f forced of
               Some (d, reason) \<Rightarrow> Some (d, True, reason)
             | None \<Rightarrow>
                 if mc_prompt_policy c = PolicyDenyAll
                 then Some (PolicyDeny ''denied by prompt policy (tool not pre-approved)'', False, PROMPT_DENY)
                 else if mc_prompt_policy c = PolicyAllow \<and> \<not> fa_hook f
                 then Some (Allow, True, PROMPT_ALLOW)
                 else None))"

end
