(* ===== verification/Manager_Actor.thy ===== *)
theory Manager_Actor
  imports Manager
begin

text \<open>
  The prompt, the answers of the user and what they store, the handling of a whole request, and the
  other commands of the permission manager actor (\<open>permission/manager/mod.rs\<close>).
\<close>

subsection \<open>Events\<close>

definition permission_mode_str :: "actor \<Rightarrow> string" where
  "permission_mode_str s =
     (if ac_yolo s then ''always-approve'' else if ac_auto s then ''auto'' else ''ask'')"

definition findings_tokens :: "facts \<Rightarrow> request_classification \<Rightarrow> string list option" where
  "findings_tokens f cls =
     (case cls of
        Classified _ \<Rightarrow>
          Some (tokens (classifier_assessment (fa_eval f) (gp_defers_gate_ask (fa_preflight f))))
      | _ \<Rightarrow> None)"

definition emit_event ::
  "manager_config \<Rightarrow> actor \<Rightarrow> facts \<Rightarrow> request_classification \<Rightarrow> decision \<Rightarrow> bool \<Rightarrow> bool
     \<Rightarrow> string option \<Rightarrow> string \<Rightarrow> permission_event"
where
  "emit_event c s f cls d auto_approved user_prompted outcome reason =
     \<lparr>ev_tool_name = fa_tool_name f, ev_detail = fa_detail f, ev_yolo = ac_yolo s,
      ev_mode = permission_mode_str s, ev_auto_approved = auto_approved,
      ev_user_prompted = user_prompted, ev_decision = d, ev_outcome = outcome, ev_reason = reason,
      ev_denials = (if ac_auto s then Some (ac_consecutive s, ac_total s) else None),
      ev_classification = cls, ev_findings = findings_tokens f cls, ev_remember = mc_remember c\<rparr>"

subsection \<open>Answers\<close>

definition persist :: "manager_config \<Rightarrow> actor \<Rightarrow> actor" where
  "persist c s =
     s\<lparr>ac_store := persist_state_merging_to_dir (ac_store s) (ac_state s) (mc_client_id c)\<rparr>"

definition set_grants :: "actor \<Rightarrow> permission_state \<Rightarrow> actor" where
  "set_grants s g = s\<lparr>ac_state := g\<rparr>"

definition rejected_and_excluded :: "string \<Rightarrow> string" where
  "rejected_and_excluded what =
     ''User rejected the execution and excluded '' @ [CHR 0x60] @ what @ [CHR 0x60]
       @ '' from future runs in this project''"

definition rejected_once :: decision where
  "rejected_once = Reject ''User rejected the execution''"

definition prompt_failed :: "string \<Rightarrow> decision" where
  "prompt_failed e = Reject (''Failed to request permission from user: '' @ e)"

text \<open>An answer's effect: the new actor state, the decision, and the outcome reported.\<close>

type_synonym answered = "actor \<times> decision \<times> string"

definition answer_bash :: "manager_config \<Rightarrow> actor \<Rightarrow> string \<Rightarrow> prompt_outcome \<Rightarrow> answered" where
  "answer_bash c s cmd p =
     (let g = ac_state s; h = mc_host c; w = outcome_wire_str p in
      case p of
        AllowOnce \<Rightarrow> (s, Allow, w)
      | AllowAlways \<Rightarrow>
          (persist c (set_grants s (g\<lparr>ps_allowed_bash_commands :=
              set_extend (set_insert cmd (ps_allowed_bash_commands g)) (bash_grant_segments h cmd)\<rparr>)),
           Allow, w)
      | AllowAlwaysBashCommand pfx \<Rightarrow>
          (persist c (set_grants s (persist_bash_always_allow h g cmd pfx)), Allow, w)
      | AllowAlwaysBashGlob pattern \<Rightarrow>
          (if bash_glob_covers_script h cmd pattern
           then (persist c (set_grants s
                   (g\<lparr>ps_allowed_bash_globs := set_insert pattern (ps_allowed_bash_globs g)\<rparr>)), Allow, w)
           else (s, Allow, w))
      | AllowAlwaysDomain _ \<Rightarrow> (s, Allow, outcome_wire_str AllowOnce)
      | AllowAlwaysMcpTool _ \<Rightarrow> (s, Allow, outcome_wire_str AllowOnce)
      | AllowAlwaysMcpServer _ \<Rightarrow> (s, Allow, outcome_wire_str AllowOnce)
      | AllowEditsForSession \<Rightarrow> (s, Allow, outcome_wire_str AllowOnce)
      | RejectOnce \<Rightarrow> (s, rejected_once, w)
      | RejectAlwaysBashCommand pfx \<Rightarrow>
          (persist c (set_grants s (g\<lparr>ps_disallowed_bash_commands :=
              set_insert pfx (ps_disallowed_bash_commands g)\<rparr>)),
           Reject (rejected_and_excluded pfx), w)
      | RejectAlwaysMcpTool _ \<Rightarrow> (s, rejected_once, outcome_wire_str RejectOnce)
      | RejectAlwaysDomain _ \<Rightarrow> (s, rejected_once, outcome_wire_str RejectOnce)
      | PromptCancelled \<Rightarrow> (s, Cancelled, w)
      | PromptFollowup msg \<Rightarrow> (s, FollowupMessage msg, w)
      | PromptError e \<Rightarrow> (s, prompt_failed e, w))"

text \<open>An agent message is only ever allowed or rejected once.\<close>

definition downgrade_agent_message :: "access_kind \<Rightarrow> prompt_outcome \<Rightarrow> prompt_outcome" where
  "downgrade_agent_message a p =
     (case a of
        AgentMessage _ \<Rightarrow>
          if is_allow_outcome p then AllowOnce
          else (case p of
              RejectAlwaysBashCommand _ \<Rightarrow> RejectOnce | RejectAlwaysMcpTool _ \<Rightarrow> RejectOnce
            | RejectAlwaysDomain _ \<Rightarrow> RejectOnce | _ \<Rightarrow> p)
      | _ \<Rightarrow> p)"

definition allow_mcp_tool :: "string \<Rightarrow> permission_state \<Rightarrow> permission_state" where
  "allow_mcp_tool name g = g\<lparr>ps_allowed_mcp_tools := set_insert name (ps_allowed_mcp_tools g)\<rparr>"

definition answer_always :: "manager_config \<Rightarrow> actor \<Rightarrow> access_kind \<Rightarrow> actor" where
  "answer_always c s a =
     persist c (case a of MCPTool name _ \<Rightarrow> set_grants s (allow_mcp_tool name (ac_state s)) | _ \<Rightarrow> s)"

definition answer_domain :: "manager_config \<Rightarrow> actor \<Rightarrow> access_kind \<Rightarrow> actor" where
  "answer_domain c s a =
     (case a of
        WebFetch url \<Rightarrow>
          (case h_url_host (mc_host c) url of
             Some hst \<Rightarrow>
               persist c (set_grants s ((ac_state s)\<lparr>ps_allowed_web_fetch_domains :=
                 set_insert (normalize_domain (mc_host c) hst) (ps_allowed_web_fetch_domains (ac_state s))\<rparr>))
           | None \<Rightarrow> s)
      | _ \<Rightarrow> s)"

definition answer_mcp_tool :: "manager_config \<Rightarrow> actor \<Rightarrow> access_kind \<Rightarrow> actor" where
  "answer_mcp_tool c s a =
     (case a of
        MCPTool name _ \<Rightarrow> persist c (set_grants s (allow_mcp_tool name (ac_state s)))
      | _ \<Rightarrow> s)"

definition answer_mcp_server :: "manager_config \<Rightarrow> actor \<Rightarrow> access_kind \<Rightarrow> string \<Rightarrow> actor" where
  "answer_mcp_server c s a server_prefix =
     (case a of
        MCPTool name _ \<Rightarrow>
          (case parse_mcp_qualified_name name of
             Some (server, _) \<Rightarrow>
               if server = server_prefix
               then persist c (set_grants s ((ac_state s)\<lparr>ps_allowed_mcp_servers :=
                      set_insert server (ps_allowed_mcp_servers (ac_state s))\<rparr>))
               else persist c (set_grants s (allow_mcp_tool name (ac_state s)))
           | None \<Rightarrow> persist c (set_grants s (allow_mcp_tool name (ac_state s))))
      | _ \<Rightarrow> s)"

definition answer_reject_mcp :: "manager_config \<Rightarrow> actor \<Rightarrow> access_kind \<Rightarrow> string \<Rightarrow> answered" where
  "answer_reject_mcp c s a w =
     (case a of
        MCPTool name _ \<Rightarrow>
          (persist c (set_grants s ((ac_state s)\<lparr>ps_disallowed_mcp_tools :=
             set_insert name (ps_disallowed_mcp_tools (ac_state s))\<rparr>)),
           Reject (rejected_and_excluded name), w)
      | _ \<Rightarrow> (s, rejected_once, outcome_wire_str RejectOnce))"

definition answer_reject_domain :: "manager_config \<Rightarrow> actor \<Rightarrow> access_kind \<Rightarrow> string \<Rightarrow> answered" where
  "answer_reject_domain c s a w =
     (case (case a of WebFetch url \<Rightarrow> web_fetch_deny_key_from_url (mc_host c) url | _ \<Rightarrow> None) of
        Some domain \<Rightarrow>
          (persist c (set_grants s ((ac_state s)\<lparr>ps_disallowed_web_fetch_domains :=
             set_insert domain (ps_disallowed_web_fetch_domains (ac_state s))\<rparr>)),
           Reject (rejected_and_excluded domain), w)
      | None \<Rightarrow> (s, rejected_once, outcome_wire_str RejectOnce))"

definition answer_other :: "manager_config \<Rightarrow> actor \<Rightarrow> access_kind \<Rightarrow> prompt_outcome \<Rightarrow> answered" where
  "answer_other c s a p0 =
     (let p = downgrade_agent_message a p0; w = outcome_wire_str p in
      case p of
        AllowOnce \<Rightarrow> (s, Allow, w)
      | AllowEditsForSession \<Rightarrow> (s\<lparr>ac_allow_edits := True\<rparr>, Allow, w)
      | AllowAlways \<Rightarrow> (answer_always c s a, Allow, w)
      | AllowAlwaysBashCommand _ \<Rightarrow> (s, Allow, outcome_wire_str (AllowAlwaysBashCommand []))
      | AllowAlwaysBashGlob _ \<Rightarrow> (s, Allow, outcome_wire_str (AllowAlwaysBashCommand []))
      | AllowAlwaysDomain _ \<Rightarrow> (answer_domain c s a, Allow, w)
      | AllowAlwaysMcpTool _ \<Rightarrow> (answer_mcp_tool c s a, Allow, w)
      | AllowAlwaysMcpServer server_prefix \<Rightarrow> (answer_mcp_server c s a server_prefix, Allow, w)
      | RejectAlwaysBashCommand _ \<Rightarrow> (s, rejected_once, w)
      | RejectAlwaysMcpTool _ \<Rightarrow> answer_reject_mcp c s a w
      | RejectAlwaysDomain _ \<Rightarrow> answer_reject_domain c s a w
      | RejectOnce \<Rightarrow> (s, rejected_once, w)
      | PromptCancelled \<Rightarrow> (s, Cancelled, w)
      | PromptError e \<Rightarrow> (s, prompt_failed e, w)
      | PromptFollowup msg \<Rightarrow> (s, FollowupMessage msg, w))"

definition answer :: "manager_config \<Rightarrow> actor \<Rightarrow> access_kind \<Rightarrow> prompt_outcome \<Rightarrow> answered" where
  "answer c s a p = (case a of Bash cmd \<Rightarrow> answer_bash c s cmd p | _ \<Rightarrow> answer_other c s a p)"

subsection \<open>The prompt\<close>

definition MAX_RECORDED_PERMISSION_DECISIONS :: nat where "MAX_RECORDED_PERMISSION_DECISIONS = 12"

definition prompted_decision_approved :: "decision \<Rightarrow> string \<Rightarrow> bool option" where
  "prompted_decision_approved d outcome =
     (case d of
        Allow \<Rightarrow> Some True
      | Reject _ \<Rightarrow> if outcome \<noteq> ''error'' then Some False else None
      | _ \<Rightarrow> None)"

definition record_decision :: "manager_config \<Rightarrow> facts \<Rightarrow> decision \<Rightarrow> string \<Rightarrow> actor \<Rightarrow> actor" where
  "record_decision c f d outcome s =
     (case prompted_decision_approved d outcome of
        None \<Rightarrow> s
      | Some approved \<Rightarrow>
          let turns = ac_recorded s @ [PermissionDecisionTurn (fa_tool_name f)
                (permission_decision_args (mc_json_text c) (fa_access f) (fa_detail f)) approved]
          in s\<lparr>ac_recorded := drop (length turns - MAX_RECORDED_PERMISSION_DECISIONS) turns\<rparr>)"

definition opaque_floor :: "facts \<Rightarrow> bool" where
  "opaque_floor f =
     (case fa_eval f of None \<Rightarrow> False | Some e \<Rightarrow> \<not> be_exact_grant e \<and> OpaqueShell \<in> be_assessment e)"

definition prompt_reason :: "facts \<Rightarrow> string option \<Rightarrow> string" where
  "prompt_reason f forced =
     (case prompt_trigger (fa_preflight f) forced of
        Some r \<Rightarrow> r
      | None \<Rightarrow>
          if fa_hook f then HOOK_ASK_REASON
          else if opaque_floor f then OPAQUE_SHELL_REASON
          else if bash_request_floor_requires_prompt (fa_eval f) then BASH_REQUEST_FLOOR
          else NEEDS_USER)"

record handled =
  hd_actor :: actor
  hd_event :: permission_event
  hd_response :: "decision option"

definition gone :: "manager_config \<Rightarrow> actor \<Rightarrow> facts \<Rightarrow> request_classification \<Rightarrow> handled" where
  "gone c s f cls =
     \<lparr>hd_actor = s, hd_event = emit_event c s f cls Cancelled False False None REQUESTER_GONE,
      hd_response = None\<rparr>"

definition respond ::
  "manager_config \<Rightarrow> actor \<Rightarrow> facts \<Rightarrow> request_classification \<Rightarrow> decision \<times> bool \<times> string \<Rightarrow> handled"
where
  "respond c s f cls x =
     (case x of (d, auto_approved, reason) \<Rightarrow>
        \<lparr>hd_actor = s, hd_event = emit_event c s f cls d auto_approved False None reason,
         hd_response = Some d\<rparr>)"

definition prompt_user ::
  "manager_config \<Rightarrow> surroundings \<Rightarrow> actor \<Rightarrow> facts \<Rightarrow> request_classification \<Rightarrow> string option \<Rightarrow> handled"
where
  "prompt_user c e s f cls forced =
     (if su_gone_before_prompt e then gone c s f cls
      else case answer c s (fa_access f) (case su_prompt e of Some p \<Rightarrow> p | None \<Rightarrow> PromptCancelled) of
          (s1, d, outcome) \<Rightarrow>
            let s2 = record_decision c f d outcome s1;
                requester_gone = (d = Cancelled \<and> (su_prompt e = None \<or> su_gone_after_prompt e));
                reason = (if requester_gone then REQUESTER_GONE else prompt_reason f forced)
            in \<lparr>hd_actor = (if outcome \<noteq> ''error'' \<and> \<not> requester_gone
                            then s2\<lparr>ac_consecutive := 0, ac_total := 0\<rparr> else s2),
                hd_event = emit_event c s2 f cls d False True (Some outcome) reason,
                hd_response = Some d\<rparr>)"

subsection \<open>A request\<close>

definition after_auto_route ::
  "manager_config \<Rightarrow> surroundings \<Rightarrow> facts \<Rightarrow> auto_result \<Rightarrow> handled"
where
  "after_auto_route c e f r =
     (let s = ar_actor r; cls = ar_class r;
          go_on = (\<lambda>forced. case late_decision c e s f forced of
              Some x \<Rightarrow> respond c s f cls x
            | None \<Rightarrow> prompt_user c e s f cls forced) in
      case ar_end r of
        RouteDecided d auto_approved reason \<Rightarrow> respond c s f cls (d, auto_approved, reason)
      | RouteAbandoned \<Rightarrow> gone c s f cls
      | RouteForced reason \<Rightarrow> go_on (Some reason)
      | RouteContinues \<Rightarrow> go_on None)"

definition decide :: "manager_config \<Rightarrow> surroundings \<Rightarrow> actor \<Rightarrow> facts \<Rightarrow> handled" where
  "decide c e s f =
     (case early_decision c s f of
        Some x \<Rightarrow> respond c s f NotClassified x
      | None \<Rightarrow> after_auto_route c e f (auto_route c e s f))"

definition handle_request ::
  "manager_config \<Rightarrow> surroundings \<Rightarrow> permission_request \<Rightarrow> actor \<Rightarrow> handled"
where
  "handle_request c e rq s =
     (if su_gone_at_dequeue e then gone c s (gather_facts c e s rq) NotClassified
      else
        let s1 = reload_if_changed e (rq_access rq) s; f = gather_facts c e s1 rq in
        if scans_ambient c (ac_state s1) (rq_access rq) \<and> su_gone_after_scan e
        then gone c s1 f NotClassified
        else decide c e s1 f)"

subsection \<open>The other commands\<close>

datatype permission_command =
    Request permission_request
  | SetYoloMode bool
  | SetAutoMode bool
  | SetClassifier bool
  | SetClassifierTranscript "classifier_turn list"
  | SetProjectInstructions "string option"
  | ResetState

definition set_yolo :: "manager_config \<Rightarrow> bool \<Rightarrow> actor \<Rightarrow> actor" where
  "set_yolo c enabled s =
     (let clamped = clamp_yolo enabled (mc_pin c);
          s1 = s\<lparr>ac_pin_refusal_logged := ac_pin_refusal_logged s \<or> enabled \<and> \<not> clamped,
                 ac_yolo := clamped, ac_yolo_flag := clamped\<rparr>
      in if clamped then s1\<lparr>ac_auto := False, ac_auto_flag := False\<rparr> else s1)"

definition set_auto :: "bool \<Rightarrow> actor \<Rightarrow> actor" where
  "set_auto enabled s =
     (let s1 = s\<lparr>ac_auto := enabled, ac_auto_flag := enabled\<rparr>
      in if enabled then s1\<lparr>ac_yolo := False, ac_yolo_flag := False, ac_classifier := True\<rparr> else s1)"

definition reset_state :: "manager_config \<Rightarrow> actor \<Rightarrow> actor" where
  "reset_state c s =
     s\<lparr>ac_state := permission_state_default,
       ac_store := persist_state_to_dir (ac_store s) permission_state_default (mc_client_id c),
       ac_allow_edits := False\<rparr>"

definition run_command :: "manager_config \<Rightarrow> surroundings \<Rightarrow> permission_command \<Rightarrow> actor \<Rightarrow> actor" where
  "run_command c e cmd s =
     (case cmd of
        Request rq \<Rightarrow> hd_actor (handle_request c e rq s)
      | SetYoloMode enabled \<Rightarrow> set_yolo c enabled s
      | SetAutoMode enabled \<Rightarrow> set_auto enabled s
      | SetClassifier installed \<Rightarrow> s\<lparr>ac_classifier := installed\<rparr>
      | SetClassifierTranscript turns \<Rightarrow> s\<lparr>ac_turns := turns\<rparr>
      | SetProjectInstructions i \<Rightarrow> s\<lparr>ac_instructions := i\<rparr>
      | ResetState \<Rightarrow> reset_state c s)"

text \<open>The actor as it starts, on the state it loads.\<close>

definition migrate_edit_policy :: "permission_state \<Rightarrow> permission_state" where
  "migrate_edit_policy g = (if ps_edit_policy g = EditAllow then g\<lparr>ps_edit_policy := EditAsk\<rparr> else g)"

definition spawn_actor :: "manager_config \<Rightarrow> bool \<Rightarrow> store \<Rightarrow> permission_state \<Rightarrow> actor" where
  "spawn_actor c requested_yolo st loaded =
     (let yolo = clamp_yolo requested_yolo (mc_pin c);
          seed_auto = (\<not> yolo \<and> mc_prompt_policy c = PolicyAuto) in
      \<lparr>ac_state = migrate_edit_policy loaded, ac_yolo = yolo, ac_auto = seed_auto, ac_yolo_flag = yolo,
       ac_auto_flag = seed_auto, ac_classifier = True, ac_consecutive = 0, ac_total = 0, ac_turns = [],
       ac_recorded = [], ac_instructions = None, ac_pin_refusal_logged = False, ac_allow_edits = False,
       ac_store =
         (if ps_edit_policy loaded = EditAllow
          then persist_state_merging_to_dir st (migrate_edit_policy loaded) (mc_client_id c) else st)\<rparr>)"

end
