(* ===== verification/Manager_Properties.thy ===== *)
theory Manager_Properties
  imports Manager_Actor
begin

text \<open>
  Laws of the permission manager: what each answer of the user changes, which stage a decision comes
  from, and the runs of the actor with their invariant.

  The properties of the permission manager: what may run without the user, what always reaches the
  user, and the invariant of the actor over all its runs.
\<close>

section \<open>Manager laws\<close>

subsection \<open>Answers\<close>

lemma covers_trans: "covers a b \<Longrightarrow> covers b c \<Longrightarrow> covers a c"
  unfolding covers_def
  by (elim conjE, intro conjI; ((rule order_trans, assumption, assumption) | simp))

text \<open>Nothing but the grants, the session edit permission and the store changes by an answer.\<close>

definition same_modes :: "actor \<Rightarrow> actor \<Rightarrow> bool" where
  "same_modes s t \<longleftrightarrow>
     ac_yolo s = ac_yolo t \<and> ac_auto s = ac_auto t \<and> ac_yolo_flag s = ac_yolo_flag t
     \<and> ac_auto_flag s = ac_auto_flag t \<and> ac_consecutive s = ac_consecutive t \<and> ac_total s = ac_total t
     \<and> ac_recorded s = ac_recorded t"

lemma same_modes_refl [simp]: "same_modes s s"
  by (simp add: same_modes_def)

lemma same_modes_grants [simp]:
  "same_modes s (persist c (set_grants s g))" "same_modes s (persist c s)"
  "same_modes s (set_grants s g)" "same_modes s (s\<lparr>ac_allow_edits := b\<rparr>)"
  by (simp_all add: same_modes_def persist_def set_grants_def)

lemma grants_of_persist [simp]:
  "ac_state (persist c s) = ac_state s" "ac_state (set_grants s g) = g"
  by (simp_all add: persist_def set_grants_def)

lemma covers_updates [simp]:
  "covers (g\<lparr>ps_allowed_bash_commands := xs\<rparr>) g \<longleftrightarrow> set (ps_allowed_bash_commands g) \<subseteq> set xs"
  "covers (g\<lparr>ps_allowed_bash_globs := xs\<rparr>) g \<longleftrightarrow> set (ps_allowed_bash_globs g) \<subseteq> set xs"
  "covers (g\<lparr>ps_disallowed_bash_commands := xs\<rparr>) g \<longleftrightarrow> set (ps_disallowed_bash_commands g) \<subseteq> set xs"
  "covers (g\<lparr>ps_allowed_web_fetch_domains := xs\<rparr>) g \<longleftrightarrow> set (ps_allowed_web_fetch_domains g) \<subseteq> set xs"
  "covers (g\<lparr>ps_disallowed_web_fetch_domains := xs\<rparr>) g \<longleftrightarrow>
     set (ps_disallowed_web_fetch_domains g) \<subseteq> set xs"
  "covers (g\<lparr>ps_allowed_mcp_tools := xs\<rparr>) g \<longleftrightarrow> set (ps_allowed_mcp_tools g) \<subseteq> set xs"
  "covers (g\<lparr>ps_disallowed_mcp_tools := xs\<rparr>) g \<longleftrightarrow> set (ps_disallowed_mcp_tools g) \<subseteq> set xs"
  "covers (g\<lparr>ps_allowed_mcp_servers := xs\<rparr>) g \<longleftrightarrow> set (ps_allowed_mcp_servers g) \<subseteq> set xs"
  by (auto simp: covers_def)

declare covers_refl [simp]

lemma covers_persist_always_allow: "covers (persist_bash_always_allow h g cmd pfx) g"
  by (auto simp: persist_bash_always_allow_def allow_command_def Let_def split: option.split)

lemma covers_allow_mcp [simp]: "covers (allow_mcp_tool name g) g"
  by (auto simp: allow_mcp_tool_def)

text \<open>The answers that are meant to last.\<close>

definition is_lasting :: "prompt_outcome \<Rightarrow> bool" where
  "is_lasting p \<longleftrightarrow>
     \<not> (p = AllowOnce \<or> p = AllowEditsForSession \<or> p = RejectOnce \<or> p = PromptCancelled
        \<or> (\<exists>m. p = PromptFollowup m) \<or> (\<exists>e. p = PromptError e))"

text \<open>What holds of the effect of an answer: modes untouched, grants only added, and only by a lasting
  answer, and an allowing decision only from an allowing answer.\<close>

definition fair_answer :: "actor \<Rightarrow> prompt_outcome \<Rightarrow> answered \<Rightarrow> bool" where
  "fair_answer s p r \<longleftrightarrow>
     (case r of (s', d, w) \<Rightarrow>
        same_modes s s' \<and> covers (ac_state s') (ac_state s)
        \<and> (\<not> is_lasting p \<longrightarrow> ac_state s' = ac_state s)
        \<and> (d = Allow \<longrightarrow> is_allow_outcome p)
        \<and> (d = Cancelled \<longrightarrow> p = PromptCancelled))"

lemma answer_bash_fair: "fair_answer s p (answer_bash c s cmd p)"
  by (cases p)
    (auto simp: fair_answer_def answer_bash_def Let_def is_lasting_def is_allow_outcome_def
      rejected_once_def prompt_failed_def covers_persist_always_allow)

lemma downgraded: 
  "is_allow_outcome (downgrade_agent_message a p) \<longleftrightarrow> is_allow_outcome p"
  "\<not> is_lasting p \<Longrightarrow> \<not> is_lasting (downgrade_agent_message a p)"
  "downgrade_agent_message a p = PromptCancelled \<longleftrightarrow> p = PromptCancelled"
  by (cases a; cases p; simp add: downgrade_agent_message_def is_allow_outcome_def is_lasting_def)+

lemma mcp_answers_fair:
  "same_modes s (answer_always c s a)" "covers (ac_state (answer_always c s a)) (ac_state s)"
  "same_modes s (answer_domain c s a)" "covers (ac_state (answer_domain c s a)) (ac_state s)"
  "same_modes s (answer_mcp_tool c s a)" "covers (ac_state (answer_mcp_tool c s a)) (ac_state s)"
  "same_modes s (answer_mcp_server c s a x)" "covers (ac_state (answer_mcp_server c s a x)) (ac_state s)"
  by (auto simp: answer_always_def answer_domain_def answer_mcp_tool_def answer_mcp_server_def
      split: access_kind.split option.split)

lemma reject_answers_fair:
  "fair_answer s (RejectAlwaysMcpTool x) (answer_reject_mcp c s a w)"
  "fair_answer s (RejectAlwaysDomain x) (answer_reject_domain c s a w)"
  by (auto simp: fair_answer_def answer_reject_mcp_def answer_reject_domain_def rejected_once_def
      is_lasting_def split: access_kind.split option.split)

lemma answer_downgraded_fair:
  "fair_answer s (downgrade_agent_message a p) (answer_other c s a p)"
proof (cases "downgrade_agent_message a p")
  case (RejectAlwaysMcpTool x)
  then show ?thesis using reject_answers_fair(1) by (simp add: answer_other_def Let_def)
next
  case (RejectAlwaysDomain x)
  then show ?thesis using reject_answers_fair(2) by (simp add: answer_other_def Let_def)
qed (simp_all add: answer_other_def Let_def fair_answer_def mcp_answers_fair is_lasting_def
    is_allow_outcome_def rejected_once_def prompt_failed_def)

lemma answer_fair: "fair_answer s p (answer c s a p)"
proof (cases "is_bash a")
  case True
  then show ?thesis using answer_bash_fair by (auto simp: answer_def is_bash_def split: access_kind.splits)
next
  case False
  then have "answer c s a p = answer_other c s a p"
    by (simp add: answer_def is_bash_def split: access_kind.splits)
  with answer_downgraded_fair[of s a p c] downgraded[where a = a and p = p] show ?thesis
    by (auto simp: fair_answer_def split: prod.splits)
qed

subsection \<open>Where a decision comes from\<close>

text \<open>The user allowed the action at a prompt.\<close>

definition user_allowed :: "surroundings \<Rightarrow> handled \<Rightarrow> bool" where
  "user_allowed e r \<longleftrightarrow>
     ev_user_prompted (hd_event r) \<and> (\<exists>p. su_prompt e = Some p \<and> is_allow_outcome p)"

lemma emit_fields [simp]:
  "ev_user_prompted (emit_event c s f cls d a u out reason) = u"
  "ev_decision (emit_event c s f cls d a u out reason) = d"
  "ev_reason (emit_event c s f cls d a u out reason) = reason"
  by (simp_all add: emit_event_def)

lemma respond_fields [simp]:
  "hd_response (respond c s f cls x) = Some (fst x)" "hd_actor (respond c s f cls x) = s"
  "ev_decision (hd_event (respond c s f cls x)) = fst x"
  "ev_reason (hd_event (respond c s f cls x)) = snd (snd x)"
  by (simp_all add: respond_def split: prod.split)

lemma gone_fields [simp]:
  "hd_response (gone c s f cls) = None" "hd_actor (gone c s f cls) = s"
  "ev_decision (hd_event (gone c s f cls)) = Cancelled"
  "ev_reason (hd_event (gone c s f cls)) = REQUESTER_GONE"
  by (simp_all add: gone_def)

lemma prompt_user_allow:
  assumes "hd_response (prompt_user c e s f cls forced) = Some Allow"
  shows "user_allowed e (prompt_user c e s f cls forced)"
proof -
  obtain s1 d w where a: "answer c s (fa_access f) (case su_prompt e of Some p \<Rightarrow> p | None \<Rightarrow> PromptCancelled) = (s1, d, w)"
    by (metis surj_pair)
  have "\<not> su_gone_before_prompt e" using assms by (auto simp: prompt_user_def)
  moreover have "d = Allow" using assms a calculation by (simp add: prompt_user_def Let_def)
  moreover have "is_allow_outcome (case su_prompt e of Some p \<Rightarrow> p | None \<Rightarrow> PromptCancelled)"
    using answer_fair[of s "case su_prompt e of Some p \<Rightarrow> p | None \<Rightarrow> PromptCancelled" c "fa_access f"] a
      \<open>d = Allow\<close> by (simp add: fair_answer_def)
  ultimately show ?thesis using a
    by (auto simp: user_allowed_def prompt_user_def Let_def is_allow_outcome_def split: option.splits)
qed

text \<open>The stages an allowing answer can come from.\<close>

lemma late_allow:
  "late_decision c e s f forced = Some (Allow, x) \<Longrightarrow>
     sandbox_allows e f forced
     \<or> policy_decision (fa_preflight f) = Some Allow \<and> \<not> policy_allow_deferred c f forced
     \<or> is_pre_allow (pre_stage c s f forced)
     \<or> mc_prompt_policy c = PolicyAllow \<and> \<not> fa_hook f"
  by (auto simp: late_decision_def policy_stage_def is_pre_allow_def split: if_splits option.splits decision.splits)

definition forced_by :: "auto_result \<Rightarrow> string option" where
  "forced_by r = (case ar_end r of RouteForced reason \<Rightarrow> Some reason | _ \<Rightarrow> None)"

lemma after_route_allow:
  assumes "hd_response (after_auto_route c e f r) = Some Allow"
  shows "(\<exists>b x. ar_end r = RouteDecided Allow b x)
    \<or> (\<forall>d b x. ar_end r \<noteq> RouteDecided d b x) \<and> ar_end r \<noteq> RouteAbandoned
      \<and> ((\<exists>x. late_decision c e (ar_actor r) f (forced_by r) = Some (Allow, x))
         \<or> late_decision c e (ar_actor r) f (forced_by r) = None
           \<and> user_allowed e (after_auto_route c e f r))"
  using assms prompt_user_allow[of c e "ar_actor r" f "ar_class r"]
  by (cases "ar_end r")
    (auto simp: after_auto_route_def Let_def forced_by_def split: option.splits)

lemma decide_allow:
  assumes "hd_response (decide c e s f) = Some Allow"
  shows "(\<exists>x. early_decision c s f = Some (Allow, x))
    \<or> early_decision c s f = None
      \<and> ((\<exists>b x. ar_end (auto_route c e s f) = RouteDecided Allow b x)
         \<or> (\<forall>d b x. ar_end (auto_route c e s f) \<noteq> RouteDecided d b x)
           \<and> ((\<exists>x. late_decision c e (ar_actor (auto_route c e s f)) f (forced_by (auto_route c e s f)) = Some (Allow, x))
              \<or> user_allowed e (decide c e s f)))"
proof (cases "early_decision c s f")
  case None
  then have "decide c e s f = after_auto_route c e f (auto_route c e s f)" by (simp add: decide_def)
  with None after_route_allow[of c e f "auto_route c e s f"] assms show ?thesis by auto
next
  case (Some x)
  with assms show ?thesis by (cases x) (auto simp: decide_def)
qed

text \<open>The auto route only changes the denial counters.\<close>

definition counters_only :: "actor \<Rightarrow> actor \<Rightarrow> bool" where
  "counters_only s t \<longleftrightarrow>
     ac_state t = ac_state s \<and> ac_yolo t = ac_yolo s \<and> ac_auto t = ac_auto s
     \<and> ac_yolo_flag t = ac_yolo_flag s \<and> ac_auto_flag t = ac_auto_flag s
     \<and> ac_allow_edits t = ac_allow_edits s \<and> ac_recorded t = ac_recorded s \<and> ac_store t = ac_store s"

lemma apply_verdict_counters: "counters_only s (ar_actor (apply_verdict c s f cls out))"
  by (auto simp: apply_verdict_def counters_only_def split: classifier_verdict.split)

lemma auto_route_counters: "counters_only s (ar_actor (auto_route c e s f))"
  using apply_verdict_counters[of s c f]
  by (auto simp: auto_route_def classify_route_def completed_def counters_only_def
      split: auto_fast_path.split option.split access_kind.split)

lemma pre_counters:
  assumes "counters_only s t"
  shows "pre_stage c t f forced = pre_stage c s f forced"
proof -
  have "raw_pre_decision c t f forced = raw_pre_decision c s f forced"
  proof -
    have st: "ac_state t = ac_state s" "ac_allow_edits t = ac_allow_edits s"
      using assms by (simp_all add: counters_only_def)
    have "bash_pre_decision c t f forced = bash_pre_decision c s f forced"
      by (intro ext) (simp add: bash_pre_decision_def st)
    moreover have "web_pre_decision c t = web_pre_decision c s"
      unfolding web_pre_decision_def st ..
    moreover have "edit_pre_decision t f = edit_pre_decision s f"
      unfolding edit_pre_decision_def st ..
    ultimately show ?thesis
      by (cases "fa_access f") (simp_all add: raw_pre_decision_def st)
  qed
  then show ?thesis by (simp add: pre_stage_def)
qed

lemma late_counters:
  assumes "counters_only s t"
  shows "late_decision c e t f forced = late_decision c e s f forced"
  unfolding late_decision_def pre_counters[OF assms] ..

text \<open>Whatever a request ends with: an answer, or a requester that left.\<close>

lemma handle_request_cases:
  obtains (left) s' f where "handle_request c e rq s = gone c s' f NotClassified"
    "s' = s \<or> s' = reload_if_changed e (rq_access rq) s"
    "su_gone_at_dequeue e \<or> su_gone_after_scan e"
  | (decided) "handle_request c e rq s =
      decide c e (reload_if_changed e (rq_access rq) s)
        (gather_facts c e (reload_if_changed e (rq_access rq) s) rq)"
    "\<not> su_gone_at_dequeue e"
proof (cases "su_gone_at_dequeue e")
  case True
  then show ?thesis by (intro left[of s "gather_facts c e s rq"]) (simp_all add: handle_request_def)
next
  case False
  let ?s = "reload_if_changed e (rq_access rq) s"
  show ?thesis
  proof (cases "scans_ambient c (ac_state ?s) (rq_access rq) \<and> su_gone_after_scan e")
    case True
    with False show ?thesis
      by (intro left[of ?s "gather_facts c e ?s rq"]) (simp_all add: handle_request_def Let_def)
  next
    case scan: False
    show ?thesis
    proof (rule decided)
      show "handle_request c e rq s = decide c e ?s (gather_facts c e ?s rq)"
        using False scan by (auto simp: handle_request_def Let_def)
    qed (rule False)
  qed
qed

section \<open>Manager properties\<close>

subsection \<open>Facts\<close>

abbreviation request_facts :: "manager_config \<Rightarrow> surroundings \<Rightarrow> permission_request \<Rightarrow> actor \<Rightarrow> facts" where
  "request_facts c e rq s \<equiv> gather_facts c e (reload_if_changed e (rq_access rq) s) rq"

lemma gather_fields [simp]:
  "fa_access (gather_facts c e s rq) = rq_access rq"
  "fa_hook (gather_facts c e s rq) \<longleftrightarrow> rq_hook_ask rq \<noteq> None"
  by (simp_all add: gather_facts_def Let_def)

lemma reload_modes [simp]:
  "ac_yolo (reload_if_changed e a s) = ac_yolo s" "ac_auto (reload_if_changed e a s) = ac_auto s"
  "ac_yolo_flag (reload_if_changed e a s) = ac_yolo_flag s"
  "ac_auto_flag (reload_if_changed e a s) = ac_auto_flag s"
  "ac_consecutive (reload_if_changed e a s) = ac_consecutive s"
  "ac_total (reload_if_changed e a s) = ac_total s"
  "ac_recorded (reload_if_changed e a s) = ac_recorded s"
  "ac_allow_edits (reload_if_changed e a s) = ac_allow_edits s"
  by (simp_all add: reload_if_changed_def split: option.split)

text \<open>A managed verdict is a deny, an ask or an allow.\<close>

lemma managed_verdict_plain: "plain_verdict (policy_decision (preflight_evaluate h p a cwd auto))"
proof -
  have d: "plain_verdict (gp_direct (preflight_evaluate h p a cwd auto))"
    by (cases p) (simp_all add: preflight_fields plain_evaluate, simp add: plain_verdict_def)
  show ?thesis unfolding policy_decision_def by (intro plain_combine d plain_gate)
qed

lemma facts_policy_plain: "plain_verdict (policy_decision (fa_preflight (gather_facts c e s rq)))"
  by (simp add: gather_facts_def Let_def managed_verdict_plain)

subsection \<open>A managed deny\<close>

lemma early_deny:
  "policy_decision (fa_preflight f) = Some (Reject r) \<Longrightarrow>
     early_decision c s f = Some (PolicyDeny r, False, POLICY_DENY)"
  by (simp add: early_decision_def)

subsection \<open>Hooks\<close>

lemma hook_early: "fa_hook f \<Longrightarrow> early_decision c s f \<noteq> Some (Allow, x)"
  by (auto simp: early_decision_def granted_early_def auto_policy_allow_def pre_classifier_forced_def
      split: option.splits decision.splits)

lemma hook_verdict: "fa_hook f \<Longrightarrow> ar_end (apply_verdict c s f cls out) \<noteq> RouteDecided Allow b x"
  by (auto simp: apply_verdict_def split: classifier_verdict.splits)

lemma hook_route: "fa_hook f \<Longrightarrow> ar_end (auto_route c e s f) \<noteq> RouteDecided Allow b x"
  using hook_verdict
  by (auto simp: auto_route_def classify_route_def completed_def
      split: auto_fast_path.splits option.splits access_kind.splits)

lemma hook_late:
  assumes "fa_hook f"
  shows "late_decision c e s f forced \<noteq> Some (Allow, x)"
proof
  assume "late_decision c e s f forced = Some (Allow, x)"
  from late_allow[OF this] assms show False
    by (auto simp: sandbox_allows_def policy_allow_deferred_def pre_stage_def Let_def is_pre_allow_def
        split: if_splits option.splits)
qed

text \<open>C2: when a hook asks for confirmation, the action runs only if the user allowed it at a prompt:
  no mode, grant, allow rule, safe list, sandbox, classifier or prompt policy answers in the user's
  place.\<close>

theorem hook_ask_reaches_user:
  assumes "rq_hook_ask rq \<noteq> None"
    and "hd_response (handle_request c e rq s) = Some Allow"
  shows "user_allowed e (handle_request c e rq s)"
proof (cases rule: handle_request_cases[of c e rq s])
  case (left s' f)
  then show ?thesis using assms(2) by simp
next
  case decided
  let ?s = "reload_if_changed e (rq_access rq) s"
  have h: "fa_hook (request_facts c e rq s)" using assms(1) by simp
  from assms(2) have "hd_response (decide c e ?s (request_facts c e rq s)) = Some Allow" by (simp only: decided)
  from decide_allow[OF this] hook_early[OF h] hook_route[OF h] hook_late[OF h] show ?thesis
    unfolding decided(1) by blast
qed

subsection \<open>Protected targets\<close>

lemma protected_access:
  "fa_protected (gather_facts c e s rq) \<noteq> None \<Longrightarrow>
     (\<exists>path. rq_access rq = Edit path) \<or> (\<exists>cmd. rq_access rq = Bash cmd)"
  by (cases "rq_access rq") (simp_all add: gather_facts_def Let_def protected_target_def)

lemma protected_early:
  "fa_protected f \<noteq> None \<Longrightarrow> \<not> ac_yolo s \<Longrightarrow> early_decision c s f \<noteq> Some (Allow, x)"
  by (auto simp: early_decision_def granted_early_def auto_policy_allow_def split: option.splits decision.splits)

lemma protected_route:
  "fa_protected f \<noteq> None \<Longrightarrow> ar_end (auto_route c e s f) \<noteq> RouteDecided Allow b x"
  by (auto simp: auto_route_def auto_mode_fast_path_def)

lemma protected_pre:
  assumes "fa_protected f \<noteq> None" and "(\<exists>path. fa_access f = Edit path) \<or> (\<exists>cmd. fa_access f = Bash cmd)"
  shows "\<not> is_pre_allow (pre_stage c s f forced)"
proof -
  have "\<not> is_pre_allow (raw_pre_decision c s f forced)"
    using assms
    by (auto simp: raw_pre_decision_def edit_pre_decision_def bash_pre_decision_def is_pre_allow_def
        split: option.splits edit_policy.splits bind_splits)
  then show ?thesis by (auto simp: pre_stage_def Let_def is_pre_allow_def)
qed

text \<open>C3: a guarded target (a hook, a startup file, a permission file, a place outside control) is
  written only after the user allowed it at a prompt, unless always-approve is on or the prompt
  policy is to allow everything: session edit permission, remembered grants, allow rules, the
  sandbox and auto mode do not cover it.\<close>

theorem protected_target_reaches_user:
  assumes "fa_protected (request_facts c e rq s) \<noteq> None"
    and "\<not> ac_yolo s" and "mc_prompt_policy c \<noteq> PolicyAllow"
    and "hd_response (handle_request c e rq s) = Some Allow"
  shows "user_allowed e (handle_request c e rq s)"
proof (cases rule: handle_request_cases[of c e rq s])
  case (left s' f)
  then show ?thesis using assms(4) by simp
next
  case decided
  let ?s = "reload_if_changed e (rq_access rq) s" and ?f = "request_facts c e rq s"
  have y: "\<not> ac_yolo ?s" using assms(2) by simp
  have a: "(\<exists>path. fa_access ?f = Edit path) \<or> (\<exists>cmd. fa_access ?f = Bash cmd)"
    using protected_access[OF assms(1)] by simp
  have l: "late_decision c e t ?f forced \<noteq> Some (Allow, x)" for t forced x
    using late_allow[of c e t ?f forced x] assms(1,3) protected_pre[OF assms(1) a]
    by (auto simp: sandbox_allows_def policy_allow_deferred_def)
  from assms(4) have "hd_response (decide c e ?s ?f) = Some Allow" by (simp only: decided)
  from decide_allow[OF this] protected_early[OF assms(1) y] protected_route[OF assms(1)] l
  show ?thesis unfolding decided(1) by blast
qed

subsection \<open>Ask rules\<close>

text \<open>What may answer an ask rule in the user's place, as the code has it.\<close>

definition ask_satisfied :: "manager_config \<Rightarrow> actor \<Rightarrow> facts \<Rightarrow> bool" where
  "ask_satisfied c s f =
     (case fa_access f of
        MCPTool name _ \<Rightarrow> mc_remember c \<and> mcp_pre_decision name (ac_state s) True True = Some Allow
      | Bash cmd \<Rightarrow>
          mc_remember c \<and> fa_protected f = None \<and> \<not> shell_file_forced_prompt (fa_preflight f)
          \<and> (\<exists>cs. all_commands_from_script (h_parse (mc_host c)) cmd = Some cs
               \<and> list_all (\<lambda>p. \<not> denied_segment (ac_state s) p
                    \<and> (is_setup_command (segment_words p)
                       \<or> matched_grant (mc_host c) (ac_state s) (segment_words p)
                         \<and> \<not> is_dangerous_command_words (segment_words p))) cs)
      | Edit _ \<Rightarrow> ac_allow_edits s \<and> fa_protected f = None
      | WebSearch _ \<Rightarrow> True
      | WebFetch url \<Rightarrow> is_pre_allow (web_pre_decision c s url)
      | _ \<Rightarrow> False)"

lemma mcp_pre_forced:
  "mcp_pre_decision name g True remember = Some Allow \<Longrightarrow>
     remember \<and> mcp_pre_decision name g True True = Some Allow"
  by (auto simp: mcp_pre_decision_def split: if_splits)

lemma ask_floor_allow:
  assumes "bash_grant_pre_decision cmd e s pin ASK_FLOOR_REMEMBER = Some (Allow, r)"
  shows "(\<exists>g. be_segments e = AutoAllow g) \<and> be_all_segments_granted e"
  using assms
  by (auto simp: bash_grant_pre_decision_def ASK_FLOOR_REMEMBER_def grant_if_def grant_allow_def
      split: segment_evaluation.splits if_splits)

lemma evaluated_segments:
  "evaluate_request c e g cwd (Bash cmd) = Some ev \<Longrightarrow>
     be_segments ev = be_segments (evaluate_bash (mc_host c) cmd g True)
     \<and> be_all_segments_granted ev = be_all_segments_granted (evaluate_bash (mc_host c) cmd g True)
     \<and> be_exact_grant ev = be_exact_grant (evaluate_bash (mc_host c) cmd g True)
     \<and> be_assessment (evaluate_bash (mc_host c) cmd g True) \<subseteq> be_assessment ev"
  by (auto simp: evaluate_request_def Let_def split: option.splits)

lemma auto_allowed_segments:
  assumes "be_segments (evaluate_bash h cmd g honor) = AutoAllow b"
  obtains cs where "all_commands_from_script (h_parse h) cmd = Some cs"
    "list_all (\<lambda>c. \<not> denied_segment g c) cs" "list_all (cleared_segment h g honor) cs"
    "be_all_segments_granted (evaluate_bash h cmd g honor) \<longleftrightarrow>
       list_all (\<lambda>c. is_setup_command (segment_words c) \<or> matched_grant h g (segment_words c)) cs"
proof (cases "all_commands_from_script (h_parse h) cmd")
  case None
  from evaluate_bash_undecomposed[OF this] obtain a where
    "evaluate_bash h cmd g honor = undecomposable_evaluation cmd g a" by blast
  with assms undecomposable_segments[of cmd g a] show ?thesis by (auto split: option.splits)
next
  case (Some cs)
  have nd: "list_all (\<lambda>c. \<not> denied_segment g c) cs"
    using rejected_when_denied[OF Some, of g honor] assms by fastforce
  from evaluate_bash_no_deny[OF Some nd, of honor] obtain root e where
    "evaluate_bash h cmd g honor = e"
    "be_all_segments_granted e \<longleftrightarrow>
       list_all (\<lambda>c. is_setup_command (segment_words c) \<or> matched_grant h g (segment_words c)) cs"
    "if list_all (cleared_segment h g honor) cs then \<exists>g. be_segments e = AutoAllow g
     else \<exists>l. be_segments e = NeedsPrompts l" by metis
  with assms nd Some that[OF Some nd] show ?thesis by (auto split: if_splits)
qed

lemma ask_pre:
  assumes "policy_forced_prompt (fa_preflight f)"
    and ev: "\<And>cmd. fa_access f = Bash cmd \<Longrightarrow> \<exists>e cwd. fa_eval f = evaluate_request c e (ac_state s) cwd (Bash cmd)"
    and "is_pre_allow (pre_stage c s f forced)"
  shows "ask_satisfied c s f"
proof -
  have pre: "is_pre_allow (raw_pre_decision c s f forced)"
    using assms(3) by (auto simp: pre_stage_def Let_def is_pre_allow_def split: if_splits option.splits)
  show ?thesis
  proof (cases "fa_access f")
    case (Bash cmd)
    from ev[OF this] obtain e cwd where e: "fa_eval f = evaluate_request c e (ac_state s) cwd (Bash cmd)" by blast
    with pre Bash obtain ev' where ev': "fa_eval f = Some ev'"
      and p: "is_pre_allow (bash_pre_decision c s f forced cmd ev')"
      by (auto simp: raw_pre_decision_def is_pre_allow_def split: bind_splits)
    from p assms(1) obtain r where
      g: "mc_remember c" "fa_protected f = None" "\<not> shell_file_forced_prompt (fa_preflight f)"
      "bash_grant_pre_decision cmd ev' (ac_state s) (mc_pin c) ASK_FLOOR_REMEMBER = Some (Allow, r)"
      by (auto simp: bash_pre_decision_def is_pre_allow_def split: if_splits option.splits decision.splits)
    from ask_floor_allow[OF g(4)] evaluated_segments[of c e "ac_state s" cwd cmd ev'] e ev'
    obtain b where b: "be_segments (evaluate_bash (mc_host c) cmd (ac_state s) True) = AutoAllow b"
      "be_all_segments_granted (evaluate_bash (mc_host c) cmd (ac_state s) True)" by auto
    from auto_allowed_segments[OF b(1)] obtain cs where cs: "all_commands_from_script (h_parse (mc_host c)) cmd = Some cs"
      "list_all (\<lambda>c. \<not> denied_segment (ac_state s) c) cs"
      "list_all (cleared_segment (mc_host c) (ac_state s) True) cs"
      "list_all (\<lambda>p. is_setup_command (segment_words p) \<or> matched_grant (mc_host c) (ac_state s) (segment_words p)) cs"
      using b(2) by metis
    then have "list_all (\<lambda>p. \<not> denied_segment (ac_state s) p
        \<and> (is_setup_command (segment_words p)
           \<or> matched_grant (mc_host c) (ac_state s) (segment_words p)
             \<and> \<not> is_dangerous_command_words (segment_words p))) cs"
      by (auto simp: list_all_iff cleared_segment_def)
    with g cs(1) Bash show ?thesis by (simp add: ask_satisfied_def)
  next
    case (MCPTool name args)
    with pre assms(1) mcp_pre_forced[of name "ac_state s" "mc_remember c"] show ?thesis
      by (auto simp: raw_pre_decision_def ask_satisfied_def is_pre_allow_def split: option.splits decision.splits)
  qed (use pre assms(1) in \<open>auto simp: raw_pre_decision_def ask_satisfied_def edit_pre_decision_def
         is_pre_allow_def split: edit_policy.splits if_splits\<close>)
qed

text \<open>C4: an ask rule reaches the user: when the managed verdict on a request is ask and it is not the
  fail-closed kind that auto mode may classify, then outside always-approve and the allow-all
  prompt policy the action runs only if the user allowed it at a prompt, or one of the exceptions
  stands: remembered approvals are on and the MCP tool or every command of the script was granted,
  edits are allowed for the session, or the request is a web search or a fetch that the built-in
  or remembered domains allow.\<close>

theorem ask_rule_reaches_user:
  assumes "policy_decision (fa_preflight (request_facts c e rq s)) = Some Ask"
    and "\<not> gp_defers_gate_ask (fa_preflight (request_facts c e rq s))"
    and "\<not> ac_yolo s" and "mc_prompt_policy c \<noteq> PolicyAllow"
    and "hd_response (handle_request c e rq s) = Some Allow"
  shows "user_allowed e (handle_request c e rq s)
    \<or> ask_satisfied c (reload_if_changed e (rq_access rq) s) (request_facts c e rq s)"
proof (cases rule: handle_request_cases[of c e rq s])
  case (left s' f)
  then show ?thesis using assms(5) by simp
next
  case decided
  let ?s = "reload_if_changed e (rq_access rq) s" and ?f = "request_facts c e rq s"
  have forced: "policy_forced_prompt (fa_preflight ?f)" using assms(1) by (simp add: policy_forced_prompt_def)
  have early: "early_decision c ?s ?f \<noteq> Some (Allow, x)" for x
    using assms(1,3) forced
    by (auto simp: early_decision_def granted_early_def auto_policy_allow_def pre_classifier_forced_def)
  have route: "auto_route c e ?s ?f = \<lparr>ar_actor = ?s, ar_class = NotClassified, ar_end = RouteContinues\<rparr>"
    using forced assms(2) by (simp add: auto_route_def admits_auto_classifier_def)
  have "fa_eval ?f = evaluate_request c e (ac_state ?s) (request_cwd c (rq_path_context rq)) (rq_access rq)"
    by (simp add: gather_facts_def Let_def)
  then have "is_pre_allow (pre_stage c ?s ?f forced') \<Longrightarrow> ask_satisfied c ?s ?f" for forced'
    by (intro ask_pre[OF forced]) auto
  then have late: "late_decision c e ?s ?f fb = Some (Allow, x) \<Longrightarrow> ask_satisfied c ?s ?f" for fb x
    using late_allow[of c e ?s ?f fb x] assms(1,4) forced
    by (auto simp: sandbox_allows_def)
  from assms(5) have "hd_response (decide c e ?s ?f) = Some Allow" by (simp only: decided)
  from decide_allow[OF this] early late show ?thesis
    unfolding decided(1) route by (auto simp: route)
qed

subsection \<open>Every request is answered\<close>

definition requester_stays :: "surroundings \<Rightarrow> bool" where
  "requester_stays e \<longleftrightarrow>
     \<not> su_gone_at_dequeue e \<and> \<not> su_gone_after_scan e \<and> \<not> su_gone_before_prompt e
     \<and> (\<forall>i. su_classify e i \<noteq> None)"

lemma prompt_answers:
  "\<not> su_gone_before_prompt e \<Longrightarrow>
     \<exists>d. hd_response (prompt_user c e s f cls forced) = Some d
       \<and> ev_decision (hd_event (prompt_user c e s f cls forced)) = d"
  by (auto simp: prompt_user_def Let_def split: prod.split)

lemma verdict_not_abandoned [simp]: "ar_end (apply_verdict c s f cls out) \<noteq> RouteAbandoned"
  by (auto simp: apply_verdict_def split: classifier_verdict.split)

lemma route_not_abandoned:
  assumes "\<forall>i. su_classify e i \<noteq> None"
  shows "ar_end (auto_route c e s f) \<noteq> RouteAbandoned"
proof -
  obtain x where "su_classify e (classifier_request s f) = Some x" using assms by blast
  then have "ar_end (classify_route c e s f) \<noteq> RouteAbandoned"
    by (simp add: classify_route_def completed_def split: access_kind.split)
  then show ?thesis by (simp add: auto_route_def split: auto_fast_path.split)
qed

lemma handled_answers:
  assumes "requester_stays e"
  shows "\<exists>d. hd_response (handle_request c e rq s) = Some d \<and> ev_decision (hd_event (handle_request c e rq s)) = d"
proof (cases rule: handle_request_cases[of c e rq s])
  case (left s' f)
  then show ?thesis using assms by (auto simp: requester_stays_def)
next
  case decided
  let ?s = "reload_if_changed e (rq_access rq) s" and ?f = "request_facts c e rq s"
  have "\<exists>d. hd_response (decide c e ?s ?f) = Some d \<and> ev_decision (hd_event (decide c e ?s ?f)) = d"
  proof (cases "early_decision c ?s ?f")
    case (Some x)
    then show ?thesis by (simp add: decide_def)
  next
    case None
    have p: "\<not> su_gone_before_prompt e" using assms by (simp add: requester_stays_def)
    have r: "ar_end (auto_route c e ?s ?f) \<noteq> RouteAbandoned"
      using route_not_abandoned assms by (simp add: requester_stays_def)
    show ?thesis
      using None r prompt_answers[OF p]
      by (cases "ar_end (auto_route c e ?s ?f)")
        (auto simp: decide_def after_auto_route_def Let_def split: option.split)
  qed
  with decided(1) show ?thesis by simp
qed

text \<open>C9: every request is answered: as long as the requester does not leave, handling the request
  ends with exactly one decision, sent back and recorded in the event of the request, whatever
  stage takes it.\<close>

theorem every_request_is_answered:
  "requester_stays e \<longrightarrow>
     (\<exists>d. hd_response (handle_request c e rq s) = Some d
        \<and> ev_decision (hd_event (handle_request c e rq s)) = d)"
  using handled_answers by blast

subsection \<open>Concrete runs\<close>

definition demo_manager :: manager_config where
  "demo_manager =
     \<lparr>mc_host = demo_host, mc_cwd = ''/w'', mc_client_id = None, mc_client = GrokTUI,
      mc_policy = Some demo_policy, mc_prompt_policy = PolicyAsk, mc_matcher = (\<lambda>_. None),
      mc_allowlist_is_default = False, mc_pin = None, mc_remember = False, mc_tilde = (\<lambda>p. p),
      mc_json_text = (\<lambda>_. [])\<rparr>"

definition demo_surroundings :: surroundings where
  "demo_surroundings =
     \<lparr>su_gone_at_dequeue = False, su_fresh = None, su_scan_fails = False, su_gone_after_scan = False,
      su_classify = (\<lambda>_. Some (outcome_llm VBlock None)), su_sandbox_auto = False,
      su_gone_before_prompt = False, su_prompt = Some AllowOnce, su_gone_after_prompt = False\<rparr>"

definition demo_actor :: actor where
  "demo_actor = spawn_actor demo_manager False (\<lambda>_. StoreMissing) permission_state_default"

definition demo_request :: "access_kind \<Rightarrow> hook_ask option \<Rightarrow> permission_request" where
  "demo_request a hk =
     \<lparr>rq_access = a, rq_path_context = None, rq_session_id = None, rq_subagent_type = None,
      rq_subagent_description = None, rq_hook_ask = hk\<rparr>"

lemma hook_ask_reaches_user_witness:
  "user_allowed demo_surroundings
     (handle_request demo_manager demo_surroundings
        (demo_request (Read (Some ''a.txt'')) (Some \<lparr>hook_name = ''h'', hook_reason = None\<rparr>)) demo_actor)"
proof (rule hook_ask_reaches_user)
  show "hd_response (handle_request demo_manager demo_surroundings
      (demo_request (Read (Some ''a.txt'')) (Some \<lparr>hook_name = ''h'', hook_reason = None\<rparr>)) demo_actor) = Some Allow"
    by code_simp
qed (simp add: demo_request_def)

lemma protected_target_reaches_user_witness:
  "user_allowed demo_surroundings
     (handle_request demo_manager demo_surroundings (demo_request (Edit ''/w/.git/hooks/pre-commit'') None) demo_actor)"
proof (rule protected_target_reaches_user)
  show "fa_protected (request_facts demo_manager demo_surroundings
      (demo_request (Edit ''/w/.git/hooks/pre-commit'') None) demo_actor) \<noteq> None" by code_simp
  show "hd_response (handle_request demo_manager demo_surroundings
      (demo_request (Edit ''/w/.git/hooks/pre-commit'') None) demo_actor) = Some Allow" by code_simp
qed (simp_all add: demo_actor_def spawn_actor_def demo_manager_def clamp_yolo_def Let_def)

definition ask_reads :: compiled_policy where
  "ask_reads = compiled_policy_new demo_host
     [\<lparr>pr_action = RAsk, pr_tool = ReadTool, pr_pattern = Some ''*'', pr_mode = GlobMode\<rparr>]"

lemma ask_rule_reaches_user_witness:
  "user_allowed demo_surroundings
     (handle_request (demo_manager\<lparr>mc_policy := Some ask_reads\<rparr>) demo_surroundings
        (demo_request (Read (Some ''/w/a'')) None) demo_actor)"
proof -
  let ?c = "demo_manager\<lparr>mc_policy := Some ask_reads\<rparr>" and ?rq = "demo_request (Read (Some ''/w/a'')) None"
  have "policy_decision (fa_preflight (request_facts ?c demo_surroundings ?rq demo_actor)) = Some Ask" by code_simp
  moreover have "\<not> gp_defers_gate_ask (fa_preflight (request_facts ?c demo_surroundings ?rq demo_actor))" by code_simp
  moreover have "hd_response (handle_request ?c demo_surroundings ?rq demo_actor) = Some Allow" by code_simp
  moreover have "\<not> ac_yolo demo_actor" "mc_prompt_policy ?c \<noteq> PolicyAllow"
    by (simp_all add: demo_actor_def spawn_actor_def demo_manager_def clamp_yolo_def Let_def)
  moreover have "\<not> ask_satisfied ?c (reload_if_changed demo_surroundings (rq_access ?rq) demo_actor)
      (request_facts ?c demo_surroundings ?rq demo_actor)"
    by (simp add: ask_satisfied_def demo_request_def)
  ultimately show ?thesis using ask_rule_reaches_user by blast
qed

text \<open>
  Observed: an ask rule for web searches never prompts, and one for a fetch does not where the built-in
  allowlist has the domain, although a matching ask rule is documented to prompt.
\<close>

lemma web_ask_rule_is_bypassed:
  "policy_decision (fa_preflight (request_facts
       (demo_manager\<lparr>mc_policy := Some (compiled_policy_new demo_host
          [\<lparr>pr_action = RAsk, pr_tool = WebSearchTool, pr_pattern = None, pr_mode = GlobMode\<rparr>])\<rparr>)
       demo_surroundings (demo_request (WebSearch ''x'') None) demo_actor)) = Some Ask
   \<and> ev_user_prompted (hd_event (handle_request
       (demo_manager\<lparr>mc_policy := Some (compiled_policy_new demo_host
          [\<lparr>pr_action = RAsk, pr_tool = WebSearchTool, pr_pattern = None, pr_mode = GlobMode\<rparr>])\<rparr>)
       demo_surroundings (demo_request (WebSearch ''x'') None) demo_actor)) = False"
  by (rule conjI; code_simp)

subsection \<open>A managed deny is final\<close>

lemma handled_deny:
  assumes "policy_decision (fa_preflight (request_facts c e rq s)) = Some (Reject r)"
    and "hd_response (handle_request c e rq s) \<noteq> None"
  shows "hd_response (handle_request c e rq s) = Some (PolicyDeny r)
    \<and> hd_actor (handle_request c e rq s) = reload_if_changed e (rq_access rq) s"
proof (cases rule: handle_request_cases[of c e rq s])
  case (left s' f)
  then show ?thesis using assms(2) by simp
next
  case decided
  with early_deny[OF assms(1)] show ?thesis by (simp add: decide_def)
qed

text \<open>C1: a managed deny is final, end to end: when a deny rule matches a command that a Bash request
  runs anywhere (chained, wrapped, inline or packed), the manager answers with a policy denial and
  stores nothing, in every mode, whatever is granted, and without asking anyone.\<close>

theorem managed_deny_is_final:
  assumes "rq_access rq = Bash cmd" and "mc_policy c = Some p"
    and "cp_has_bash_command_restrictions p"
    and "runs (mc_host c) True MAX_INLINE_SHELL_DEPTH cmd ws"
    and "denied (mc_host c) p ws \<or> denied (mc_host c) p (wp_words (normalize_command_words ws))"
    and "hd_response (handle_request c e rq s) \<noteq> None"
  shows "\<exists>r. hd_response (handle_request c e rq s) = Some (PolicyDeny r)
    \<and> hd_actor (handle_request c e rq s) = reload_if_changed e (rq_access rq) s"
proof -
  let ?g = "fa_preflight (request_facts c e rq s)"
  have g: "?g = preflight_evaluate (mc_host c) (Some p) (Bash cmd) (request_cwd c (rq_path_context rq)) (ac_auto s)"
    by (simp add: gather_facts_def Let_def assms(1,2))
  have "\<exists>r. map_option into_decision (gp_bash_command ?g) = Some (Reject r)"
    using segments_reject_of_runs[OF assms(4,5)] assms(3)
    by (auto simp: g preflight_fields evaluate_bash_command_gate_def)
  moreover have "plain_verdict (gp_direct ?g)"
    unfolding g by (simp add: preflight_fields plain_evaluate)
  ultimately have "\<exists>r. policy_decision ?g = Some (Reject r)"
    unfolding policy_decision_def
    using combine_decision_reject_iff plain_combine plain_gate by metis
  with handled_deny[OF _ assms(6)] show ?thesis by blast
qed

lemma demo_stays: "requester_stays demo_surroundings"
  by (simp add: requester_stays_def demo_surroundings_def)

lemma every_request_is_answered_witness:
  "\<exists>d. hd_response (handle_request demo_manager demo_surroundings (demo_request (WebFetch ''x'') None) demo_actor) = Some d"
  using every_request_is_answered[rule_format, OF demo_stays] by blast

lemma managed_deny_is_final_witness:
  "\<exists>r. hd_response (handle_request demo_manager demo_surroundings
      (demo_request (Bash ''git status && timeout 5 rm x'') None)
      (set_yolo demo_manager True demo_actor)) = Some (PolicyDeny r)"
proof -
  have h: "mc_host demo_manager = demo_host" by (simp add: demo_manager_def)
  have "applying demo_host (Bash ''rm x'') None RDeny demo_rules" by code_simp
  then have "denied demo_host demo_policy [''rm'', ''x'']"
    by (simp add: denied_def evaluate_bash demo_policy_def evaluate_lexical_reject_iff)
  moreover have "wp_words (normalize_command_words [''timeout'', ''5'', ''rm'', ''x'']) = [''rm'', ''x'']"
    by code_simp
  ultimately have d: "denied demo_host demo_policy [''timeout'', ''5'', ''rm'', ''x''] \<or>
    denied demo_host demo_policy (wp_words (normalize_command_words [''timeout'', ''5'', ''rm'', ''x'']))" by simp
  have p: "mc_policy demo_manager = Some demo_policy" by (simp add: demo_manager_def)
  have b: "cp_has_bash_command_restrictions demo_policy" by code_simp
  have a: "rq_access (demo_request (Bash ''git status && timeout 5 rm x'') None)
      = Bash ''git status && timeout 5 rm x''" by (simp add: demo_request_def)
  have "hd_response (handle_request demo_manager demo_surroundings
      (demo_request (Bash ''git status && timeout 5 rm x'') None)
      (set_yolo demo_manager True demo_actor)) \<noteq> None"
    using handled_answers[OF demo_stays] by (metis option.distinct(1))
  from managed_deny_is_final[OF a p b demo_runs[folded h] d[folded h] this] show ?thesis by blast
qed

end
