(* ===== verification/Manager_Runs.thy ===== *)
theory Manager_Runs
  imports Manager_Properties
begin

text \<open>
  Runs of the permission manager: the actor over any sequence of commands, and the actor together with
  the handles that send the commands and publish the modes (\<open>PermissionHandle\<close> in
  \<open>permission/manager/mod.rs\<close>).
\<close>

subsection \<open>What one request may change\<close>

definition counters_ok :: "actor \<Rightarrow> bool" where
  "counters_ok s \<longleftrightarrow>
     ac_consecutive s \<le> ac_total s \<and> ac_consecutive s \<le> AUTO_DENY_CONSECUTIVE_LIMIT
     \<and> ac_total s \<le> AUTO_DENY_TOTAL_LIMIT"

definition recorded_ok :: "actor \<Rightarrow> bool" where
  "recorded_ok s \<longleftrightarrow> length (ac_recorded s) \<le> MAX_RECORDED_PERMISSION_DECISIONS"

definition user_lasting :: "surroundings \<Rightarrow> bool" where
  "user_lasting e \<longleftrightarrow> (\<exists>p. su_prompt e = Some p \<and> is_lasting p)"

text \<open>\<open>request_keeps e s t\<close>: what handling a request in surroundings \<open>e\<close> may make of \<open>s\<close>.\<close>

definition request_keeps :: "surroundings \<Rightarrow> actor \<Rightarrow> actor \<Rightarrow> bool" where
  "request_keeps e s t \<longleftrightarrow>
     ac_yolo t = ac_yolo s \<and> ac_auto t = ac_auto s \<and> ac_yolo_flag t = ac_yolo_flag s
     \<and> ac_auto_flag t = ac_auto_flag s
     \<and> covers (ac_state t) (ac_state s) \<and> (\<not> user_lasting e \<longrightarrow> ac_state t = ac_state s)
     \<and> ps_edit_policy (ac_state t) = ps_edit_policy (ac_state s)
     \<and> (counters_ok s \<longrightarrow> counters_ok t) \<and> (recorded_ok s \<longrightarrow> recorded_ok t)"

lemma request_keeps_refl: "request_keeps e s s"
  by (simp add: request_keeps_def)

lemma request_keeps_trans: "request_keeps e s t \<Longrightarrow> request_keeps e t u \<Longrightarrow> request_keeps e s u"
  using covers_trans unfolding request_keeps_def by metis

lemma answer_edit_policy:
  "answer c s a p = (t, d, w) \<Longrightarrow> ps_edit_policy (ac_state t) = ps_edit_policy (ac_state s)"
proof -
  have b: "ps_edit_policy (ac_state (fst (answer_bash c s cmd p))) = ps_edit_policy (ac_state s)" for cmd
    by (cases p)
      (auto simp: answer_bash_def Let_def persist_bash_always_allow_def allow_command_def split: option.split)
  have o: "ps_edit_policy (ac_state (fst (answer_other c s a p))) = ps_edit_policy (ac_state s)"
    by (cases "downgrade_agent_message a p")
      (auto simp: answer_other_def Let_def answer_always_def answer_domain_def answer_mcp_tool_def
        answer_mcp_server_def answer_reject_mcp_def answer_reject_domain_def allow_mcp_tool_def
        split: access_kind.split option.split)
  show ?thesis if "answer c s a p = (t, d, w)"
    using that b o by (cases a) (simp_all add: answer_def, metis fst_conv)+
qed

lemma record_decision_keeps:
  "ac_state (record_decision c f d w s) = ac_state s" "ac_yolo (record_decision c f d w s) = ac_yolo s"
  "ac_auto (record_decision c f d w s) = ac_auto s"
  "ac_yolo_flag (record_decision c f d w s) = ac_yolo_flag s"
  "ac_auto_flag (record_decision c f d w s) = ac_auto_flag s"
  "ac_consecutive (record_decision c f d w s) = ac_consecutive s"
  "ac_total (record_decision c f d w s) = ac_total s"
  "recorded_ok s \<Longrightarrow> recorded_ok (record_decision c f d w s)"
  by (auto simp: record_decision_def recorded_ok_def Let_def split: option.split)

lemma prompt_user_keeps: "request_keeps e s (hd_actor (prompt_user c e s f cls forced))"
proof (cases "su_gone_before_prompt e")
  case True
  then show ?thesis by (simp add: prompt_user_def request_keeps_refl)
next
  case False
  let ?p = "case su_prompt e of Some p \<Rightarrow> p | None \<Rightarrow> PromptCancelled"
  obtain t d w where a: "answer c s (fa_access f) ?p = (t, d, w)" by (metis surj_pair)
  from answer_fair[of s ?p c "fa_access f"] a have f: "same_modes s t" "covers (ac_state t) (ac_state s)"
    "\<not> is_lasting ?p \<longrightarrow> ac_state t = ac_state s" by (simp_all add: fair_answer_def)
  have l: "\<not> user_lasting e \<Longrightarrow> \<not> is_lasting ?p"
    by (auto simp: user_lasting_def is_lasting_def split: option.splits)
  have c: "counters_ok s \<longrightarrow> counters_ok t" "recorded_ok s \<longrightarrow> recorded_ok t"
    using f(1) by (auto simp: same_modes_def counters_ok_def recorded_ok_def)
  have r: "recorded_ok s \<longrightarrow> recorded_ok (record_decision c f d w t)" using c(2) record_decision_keeps(8) by blast
  let ?u = "record_decision c f d w t"
  have "request_keeps e s ?u \<and> request_keeps e s (?u\<lparr>ac_consecutive := 0, ac_total := 0\<rparr>)"
    using f l c r answer_edit_policy[OF a]
    by (auto simp: request_keeps_def record_decision_keeps same_modes_def counters_ok_def recorded_ok_def)
  then show ?thesis using False a by (simp add: prompt_user_def Let_def)
qed

lemma apply_verdict_keeps: "request_keeps e s (ar_actor (apply_verdict c s f cls out))"
  by (auto simp: apply_verdict_def request_keeps_def counters_ok_def recorded_ok_def
      AUTO_DENY_CONSECUTIVE_LIMIT_def AUTO_DENY_TOTAL_LIMIT_def split: classifier_verdict.split)

lemma auto_route_keeps: "request_keeps e s (ar_actor (auto_route c e s f))"
  using apply_verdict_keeps request_keeps_refl
  by (simp add: auto_route_def classify_route_def completed_def
      split: auto_fast_path.split option.split access_kind.split)

lemma decide_keeps: "request_keeps e s (hd_actor (decide c e s f))"
proof (cases "early_decision c s f")
  case (Some x)
  then show ?thesis by (simp add: decide_def request_keeps_refl)
next
  case None
  let ?r = "auto_route c e s f"
  have "request_keeps e s (hd_actor (after_auto_route c e f ?r))"
    using auto_route_keeps[of e s c f] request_keeps_trans[OF auto_route_keeps prompt_user_keeps]
    by (auto simp: after_auto_route_def Let_def split: auto_end.split option.split)
  with None show ?thesis by (simp add: decide_def)
qed

lemma reload_keeps:
  "covers (ac_state (reload_if_changed e a s)) (ac_state s)"
  "su_fresh e = None \<Longrightarrow> reload_if_changed e a s = s"
  "ps_edit_policy (ac_state (reload_if_changed e a s)) = ps_edit_policy (ac_state s)"
  "counters_ok (reload_if_changed e a s) \<longleftrightarrow> counters_ok s"
  "recorded_ok (reload_if_changed e a s) \<longleftrightarrow> recorded_ok s"
  using merge_covers
  by (auto simp: reload_if_changed_def merge_grants_from_def counters_ok_def recorded_ok_def
      split: option.split)

text \<open>C8: grants are only ever added by a request, never lost, and only by consent: whatever a request
  leads to, every grant and deny the session had is still there; and unless the store changed
  under it or the user gave a lasting answer at a prompt, the grants are exactly as before.\<close>

theorem grants_only_by_consent:
  "covers (ac_state (run_command c e (Request rq) s)) (ac_state s)
   \<and> (su_fresh e = None \<and> \<not> user_lasting e \<longrightarrow>
      ac_state (run_command c e (Request rq) s) = ac_state s)"
proof (cases rule: handle_request_cases[of c e rq s])
  case (left s' f)
  then show ?thesis using reload_keeps[of e "rq_access rq" s] by (auto simp: run_command_def)
next
  case decided
  let ?s = "reload_if_changed e (rq_access rq) s"
  have k: "request_keeps e ?s (hd_actor (handle_request c e rq s))"
    unfolding decided(1) by (rule decide_keeps)
  then show ?thesis
    using covers_trans[OF _ reload_keeps(1)] reload_keeps(2)[of e "rq_access rq" s]
    by (auto simp: run_command_def request_keeps_def)
qed

lemma grants_only_by_consent_witness:
  "ac_state (run_command demo_manager demo_surroundings (Request (demo_request (Bash ''rm x'') None)) demo_actor)
     = ac_state demo_actor"
proof -
  have "su_fresh demo_surroundings = None \<and> \<not> user_lasting demo_surroundings"
    by (simp add: demo_surroundings_def user_lasting_def is_lasting_def)
  with grants_only_by_consent show ?thesis by blast
qed

subsection \<open>The invariant of the actor\<close>

definition actor_inv :: "manager_config \<Rightarrow> actor \<Rightarrow> bool" where
  "actor_inv c s \<longleftrightarrow>
     (mc_pin c \<noteq> None \<longrightarrow> \<not> ac_yolo s) \<and> \<not> (ac_yolo s \<and> ac_auto s)
     \<and> ps_edit_policy (ac_state s) \<noteq> EditAllow \<and> counters_ok s \<and> recorded_ok s"

inductive reachable :: "manager_config \<Rightarrow> actor \<Rightarrow> bool" for c :: manager_config where
  spawned: "reachable c (spawn_actor c requested_yolo st loaded)"
| step: "reachable c s \<Longrightarrow> reachable c (run_command c e cmd s)"

inductive_cases reachable_elim: "reachable c s"

lemma request_inv:
  assumes "actor_inv c s"
  shows "actor_inv c (hd_actor (handle_request c e rq s))"
proof -
  have r: "actor_inv c (reload_if_changed e (rq_access rq) s)"
    using assms reload_keeps[of e "rq_access rq" s] by (simp add: actor_inv_def)
  show ?thesis
  proof (cases rule: handle_request_cases[of c e rq s])
    case (left s' f)
    then show ?thesis using assms r by auto
  next
    case decided
    from decide_keeps[of e "reload_if_changed e (rq_access rq) s" c "request_facts c e rq s"] r
    show ?thesis unfolding decided(1) by (simp add: actor_inv_def request_keeps_def)
  qed
qed

lemma spawn_inv: "actor_inv c (spawn_actor c requested_yolo st loaded)"
  by (auto simp: actor_inv_def spawn_actor_def clamp_yolo_def Let_def migrate_edit_policy_def
      counters_ok_def recorded_ok_def)

lemma run_command_inv: "actor_inv c s \<Longrightarrow> actor_inv c (run_command c e cmd s)"
proof (cases cmd)
  case (Request rq)
  then show "actor_inv c s \<Longrightarrow> ?thesis" by (simp add: run_command_def request_inv)
qed (auto simp: run_command_def actor_inv_def set_yolo_def set_auto_def reset_state_def clamp_yolo_def
    permission_state_default_def counters_ok_def recorded_ok_def Let_def)

text \<open>C7: in every reachable state of the manager the managed pin holds (always-approve is never on
  under it), always-approve and auto mode exclude each other, edits are never granted for good, at
  most three denials in a row and twenty in all have been dealt without asking, and at most twelve
  decisions are remembered for the classifier.\<close>

theorem manager_invariant:
  "reachable c s \<Longrightarrow> actor_inv c s"
  by (induction rule: reachable.induct) (simp_all add: spawn_inv run_command_inv)

lemma manager_invariant_witness:
  "actor_inv (demo_manager\<lparr>mc_pin := Some ''policy''\<rparr>)
     (run_command (demo_manager\<lparr>mc_pin := Some ''policy''\<rparr>) demo_surroundings (SetYoloMode True) demo_actor)"
proof (rule manager_invariant, rule reachable.step)
  have "demo_actor = spawn_actor (demo_manager\<lparr>mc_pin := Some ''policy''\<rparr>) False (\<lambda>_. StoreMissing)
      permission_state_default"
    by (simp add: demo_actor_def spawn_actor_def clamp_yolo_def demo_manager_def Let_def)
  then show "reachable (demo_manager\<lparr>mc_pin := Some ''policy''\<rparr>) demo_actor"
    using reachable.spawned by metis
qed

end
