(* ===== verification/Manager_Handles.thy ===== *)
theory Manager_Handles
  imports Manager_Properties Manager_Runs
begin

text \<open>
  What auto mode stopped stays stopped (\<open>permission/manager/mod.rs\<close>): a prompt forced by the fast
  path, by the classifier or by the denial limit is not answered by anything but the user.

  The handles of the permission manager (\<open>PermissionHandle\<close> in \<open>permission/manager/mod.rs\<close>): clones of
  a handle run concurrently, publish a mode in shared atomic flags at once, and send the command
  to the actor's queue afterwards.  Every atomic store and every send is a step of its own here, and
  the actor takes one command at a time from the queue.
\<close>

section \<open>Manager routing\<close>

subsection \<open>Forced prompts\<close>

text \<open>What may still allow a fetch when no classifier could be asked.\<close>

definition fetch_fallback :: "manager_config \<Rightarrow> actor \<Rightarrow> facts \<Rightarrow> string \<Rightarrow> bool" where
  "fetch_fallback c s f reason \<longleftrightarrow>
     (reason = AUTO_CLASSIFIER_TIMEOUT \<or> reason = AUTO_CLASSIFIER_UNAVAILABLE)
     \<and> (\<exists>url. fa_access f = WebFetch url \<and> is_pre_allow (web_pre_decision c s url))"

text \<open>For a Bash request the shell gates ask only where the managed verdict is ask or deny.\<close>

lemma bash_not_native:
  "\<not> gp_native_symlink_fail_closed (preflight_evaluate h policy (Bash cmd) cwd auto)"
  by (simp add: preflight_evaluate_def Let_def evaluate_with_cwd_details_def split: option.split)

lemma combine_with_ask:
  "plain_verdict d \<Longrightarrow>
     combine_decisions d (Some Ask) = Some Ask \<or> (\<exists>r. combine_decisions d (Some Ask) = Some (Reject r))"
  "plain_verdict d \<Longrightarrow>
     combine_decisions (Some Ask) d = Some Ask \<or> (\<exists>r. combine_decisions (Some Ask) d = Some (Reject r))"
  "plain_verdict d \<Longrightarrow>
     combine_decisions (Some (Reject r)) d = Some Ask \<or> (\<exists>r'. combine_decisions (Some (Reject r)) d = Some (Reject r'))"
  by (cases d; auto simp: plain_verdict_def rank_simps)+

lemma gate_asks_ask: "gate_asks g \<Longrightarrow> map_option into_decision g = Some Ask"
  by (cases g; cases "the g"; simp add: gate_asks_def)

lemma bash_shell_forced:
  assumes "g = preflight_evaluate h policy (Bash cmd) cwd auto" and "shell_forced_prompt g"
  shows "policy_forced_prompt g \<or> (\<exists>r. policy_decision g = Some (Reject r))"
proof -
  have d: "plain_verdict (gp_direct g)" unfolding assms(1) by (rule plain_direct)
  let ?b = "map_option into_decision (gp_bash_command g)" and ?f = "map_option into_decision (gp_shell_file g)"
  have "gate_asks (gp_bash_command g) \<or> gate_asks (gp_shell_file g)"
    using assms bash_not_native by (simp add: shell_forced_prompt_def shell_file_forced_prompt_def)
  then have "?b = Some Ask \<or> ?f = Some Ask" using gate_asks_ask by blast
  then show ?thesis
  proof
    assume f: "?f = Some Ask"
    from combine_with_ask(1)[OF plain_combine[OF d plain_gate]] show ?thesis
      unfolding policy_forced_prompt_def policy_decision_def f by blast
  next
    assume b: "?b = Some Ask"
    with combine_with_ask(1)[OF d] combine_with_ask(2,3)[OF plain_gate[of "gp_shell_file g"]] show ?thesis
      unfolding policy_forced_prompt_def policy_decision_def b by metis
  qed
qed

text \<open>After a forced prompt only segments that were granted before auto mode could still allow Bash.\<close>

lemma post_classify_allow:
  assumes "bash_grant_pre_decision cmd ev g pin (post_classify True) = Some (Allow, r)"
  shows "\<exists>r'. bash_grant_pre_decision cmd ev g pin PRE_CLASSIFIER = Some (Allow, r')"
  using assms
  by (auto simp: bash_grant_pre_decision_def post_classify_def PRE_CLASSIFIER_def grant_if_def grant_allow_def
      split: segment_evaluation.splits if_splits)

lemma forced_pre:
  assumes early: "early_decision c s f = None"
    and native: "\<And>cmd. fa_access f = Bash cmd \<Longrightarrow>
      \<exists>h p cwd auto. fa_preflight f = preflight_evaluate h p (Bash cmd) cwd auto"
    and pre: "is_pre_allow (pre_stage c s f (Some reason))"
  shows "fetch_fallback c s f reason"
proof (cases "is_bash (fa_access f)")
  case True
  then obtain cmd where a: "fa_access f = Bash cmd" by (auto simp: is_bash_def split: access_kind.splits)
  have hook: "\<not> fa_hook f" and raw: "is_pre_allow (raw_pre_decision c s f (Some reason))"
    using pre True by (auto simp: pre_stage_def Let_def is_pre_allow_def split: if_splits)
  from raw a obtain ev where ev: "fa_eval f = Some ev"
    "is_pre_allow (bash_pre_decision c s f (Some reason) cmd ev)"
    by (auto simp: raw_pre_decision_def is_pre_allow_def split: bind_splits)
  then obtain r where p: "fa_protected f = None" "\<not> policy_forced_prompt (fa_preflight f)"
    "bash_grant_pre_decision cmd ev (ac_state s) (mc_pin c) (post_classify True) = Some (Allow, r)"
    by (auto simp: bash_pre_decision_def is_pre_allow_def split: if_splits option.splits decision.splits)
  from post_classify_allow[OF p(3)] obtain r' where
    g: "bash_grant_pre_decision cmd ev (ac_state s) (mc_pin c) PRE_CLASSIFIER = Some (Allow, r')" by blast
  have "\<not> shell_forced_prompt (fa_preflight f)"
    using native[OF a] bash_shell_forced p(2) early by (fastforce simp: early_decision_def)
  then have "granted_early c s f = Some (Allow, r')"
    using a ev(1) g p(1,2) hook
    by (simp add: granted_early_def pre_classifier_forced_def session_grant_pre_decision_def)
  with early show ?thesis by (simp add: early_decision_def split: option.splits decision.splits if_splits)
next
  case False
  then have "webfetch_static_fallback f (Some reason) (raw_pre_decision c s f (Some reason))"
    using pre by (auto simp: pre_stage_def Let_def is_pre_allow_def split: if_splits)
  then show ?thesis
    by (auto simp: webfetch_static_fallback_def fetch_fallback_def raw_pre_decision_def is_pre_allow_def
        split: access_kind.splits)
qed

text \<open>C5: what auto mode stops is not let through by another stage: once the fast path, the classifier
  or the denial limit forces a prompt, the action runs only if the user allowed it there, unless the
  prompt policy allows everything or no classifier could be asked about a fetch whose domain the
  built-in or remembered domains allow.\<close>

theorem forced_prompt_reaches_user:
  assumes "early_decision c (reload_if_changed e (rq_access rq) s) (request_facts c e rq s) = None"
    and "ar_end (auto_route c e (reload_if_changed e (rq_access rq) s) (request_facts c e rq s)) = RouteForced reason"
    and "mc_prompt_policy c \<noteq> PolicyAllow"
    and "hd_response (handle_request c e rq s) = Some Allow"
  shows "user_allowed e (handle_request c e rq s)
    \<or> fetch_fallback c (reload_if_changed e (rq_access rq) s) (request_facts c e rq s) reason"
proof (cases rule: handle_request_cases[of c e rq s])
  case (left s' f)
  then show ?thesis using assms(4) by simp
next
  case decided
  let ?s = "reload_if_changed e (rq_access rq) s" and ?f = "request_facts c e rq s"
  let ?r = "auto_route c e ?s ?f"
  have n: "fa_access ?f = Bash cmd \<Longrightarrow>
      \<exists>h p cwd auto. fa_preflight ?f = preflight_evaluate h p (Bash cmd) cwd auto" for cmd
    by (auto simp: gather_facts_def Let_def)
  have "\<not> sandbox_allows e ?f (Some reason)" "policy_allow_deferred c ?f (Some reason)"
    by (simp_all add: sandbox_allows_def policy_allow_deferred_def)
  then have "late_decision c e ?s ?f (Some reason) = Some (Allow, x) \<Longrightarrow> fetch_fallback c ?s ?f reason" for x
    using late_allow[of c e ?s ?f "Some reason" x] assms(3) forced_pre[OF assms(1) n] by auto
  moreover have "hd_response (decide c e ?s ?f) = Some Allow" using assms(4) by (simp only: decided)
  note decide_allow[OF this]
  ultimately show ?thesis
    unfolding decided(1) using assms(1,2) late_counters[OF auto_route_counters]
    by (auto simp: forced_by_def)
qed

lemma forced_prompt_reaches_user_witness:
  "user_allowed demo_surroundings
     (handle_request demo_manager demo_surroundings (demo_request (WebFetch ''x'') None)
        (set_auto True demo_actor))"
proof -
  let ?rq = "demo_request (WebFetch ''x'') None" and ?s = "set_auto True demo_actor"
  let ?f = "request_facts demo_manager demo_surroundings ?rq ?s"
  let ?t = "reload_if_changed demo_surroundings (rq_access ?rq) ?s"
  have "early_decision demo_manager ?t ?f = None" by code_simp
  moreover have "ar_end (auto_route demo_manager demo_surroundings ?t ?f) = RouteForced AUTO_CLASSIFIER_DENY"
    by code_simp
  moreover have "hd_response (handle_request demo_manager demo_surroundings ?rq ?s) = Some Allow" by code_simp
  moreover have "mc_prompt_policy demo_manager \<noteq> PolicyAllow" by (simp add: demo_manager_def)
  moreover have "\<not> fetch_fallback demo_manager ?t ?f AUTO_CLASSIFIER_DENY"
    by (simp add: fetch_fallback_def AUTO_CLASSIFIER_DENY_def AUTO_CLASSIFIER_TIMEOUT_def
        AUTO_CLASSIFIER_UNAVAILABLE_def)
  ultimately show ?thesis using forced_prompt_reaches_user by blast
qed

subsection \<open>Remembered denies and deferred asks\<close>

text \<open>
  Observed: a remembered deny is looked up together with the grants, which an ask of the managed policy
  skips; when the ask is the fail-closed kind that is left to the classifier, the classifier's allow
  ends the request, whatever denies are remembered for the commands of the script.  The documentation
  has a remembered deny win over any grant.
\<close>

lemma deferred_ask_skips_remembered_denies:
  assumes "fa_access f = Bash cmd" and "policy_decision (fa_preflight f) = Some Ask"
    and "gp_defers_gate_ask (fa_preflight f)" and "\<not> ac_yolo s" and "ac_auto s" and "ac_classifier s"
    and "fa_protected f = None" and "\<not> fa_hook f"
    and "auto_mode_fast_path (fa_access f) (fa_tool_name f)
           (access_requires_user_interaction (fa_tool_name f) (fa_access f)) = FastClassify"
    and "su_classify e (classifier_request s f) = Some (outcome_llm VAllow reason)"
  shows "hd_response (decide c e s f) = Some Allow"
proof -
  have "early_decision c s f = None"
    using assms(2,4)
    by (simp add: early_decision_def granted_early_def auto_policy_allow_def pre_classifier_forced_def
        policy_forced_prompt_def)
  moreover have "ar_end (auto_route c e s f) = RouteDecided Allow True AUTO_CLASSIFIER_ALLOW"
    using assms by (simp add: auto_route_def admits_auto_classifier_def classify_route_def completed_def
        apply_verdict_def outcome_llm_def)
  ultimately show ?thesis by (simp add: decide_def after_auto_route_def)
qed

section \<open>Manager handles\<close>

subsection \<open>Handles\<close>

datatype permission_handle = ActorHandle | AllowAllHandle

text \<open>What a call on a handle does, one effect at a time.\<close>

datatype effect = StoreYolo bool | StoreAuto bool | StoreWired bool | Send permission_command

definition set_yolo_mode :: "manager_config \<Rightarrow> bool \<Rightarrow> effect list" where
  "set_yolo_mode c enabled =
     (let clamped = clamp_yolo enabled (mc_pin c) in
      [StoreYolo clamped] @ (if clamped then [StoreAuto False] else []) @ [Send (SetYoloMode enabled)])"

definition set_auto_mode :: "bool \<Rightarrow> effect list" where
  "set_auto_mode enabled =
     [StoreAuto enabled] @ (if enabled then [StoreYolo False] else []) @ [Send (SetAutoMode enabled)]"

definition set_classifier :: "bool \<Rightarrow> effect list" where
  "set_classifier installed = [StoreWired False, Send (SetClassifier installed)]"

definition set_classifier_with_side_query :: "bool \<Rightarrow> effect list" where
  "set_classifier_with_side_query has_side_query =
     [StoreWired has_side_query, Send (SetClassifier True)]"

definition set_llm_side_query_wired :: "bool \<Rightarrow> effect list" where
  "set_llm_side_query_wired wired = [StoreWired wired]"

text \<open>The calls that only send: transcript, instructions, reset, request.\<close>

definition only_send :: "permission_command \<Rightarrow> effect list" where
  "only_send cmd = [Send cmd]"

inductive handle_call :: "manager_config \<Rightarrow> effect list \<Rightarrow> bool" for c :: manager_config where
  "handle_call c (set_yolo_mode c enabled)"
| "handle_call c (set_auto_mode enabled)"
| "handle_call c (set_classifier installed)"
| "handle_call c (set_classifier_with_side_query has_side_query)"
| "handle_call c (set_llm_side_query_wired wired)"
| "handle_call c (only_send (SetClassifierTranscript turns))"
| "handle_call c (only_send (SetProjectInstructions instructions))"
| "handle_call c (only_send ResetState)"
| "handle_call c (only_send (Request rq))"

inductive_cases handle_call_cases: "handle_call c es"

subsection \<open>The system\<close>

record system =
  sy_actor :: actor
  sy_wired :: bool
  sy_queue :: "permission_command list"
  sy_calls :: "effect list list"

definition is_yolo_mode :: "permission_handle \<Rightarrow> system \<Rightarrow> bool" where
  "is_yolo_mode h y = (case h of AllowAllHandle \<Rightarrow> True | ActorHandle \<Rightarrow> ac_yolo_flag (sy_actor y))"

definition is_auto_mode :: "permission_handle \<Rightarrow> system \<Rightarrow> bool" where
  "is_auto_mode h y = (case h of AllowAllHandle \<Rightarrow> False | ActorHandle \<Rightarrow> ac_auto_flag (sy_actor y))"

definition has_llm_side_query :: "permission_handle \<Rightarrow> system \<Rightarrow> bool" where
  "has_llm_side_query h y = (case h of AllowAllHandle \<Rightarrow> False | ActorHandle \<Rightarrow> sy_wired y)"

definition do_effect :: "effect \<Rightarrow> system \<Rightarrow> system" where
  "do_effect x y =
     (case x of
        StoreYolo b \<Rightarrow> y\<lparr>sy_actor := (sy_actor y)\<lparr>ac_yolo_flag := b\<rparr>\<rparr>
      | StoreAuto b \<Rightarrow> y\<lparr>sy_actor := (sy_actor y)\<lparr>ac_auto_flag := b\<rparr>\<rparr>
      | StoreWired b \<Rightarrow> y\<lparr>sy_wired := b\<rparr>
      | Send cmd \<Rightarrow> y\<lparr>sy_queue := sy_queue y @ [cmd]\<rparr>)"

text \<open>What a request through a handle comes back with: \<open>sent\<close> tells whether the queue took it, \<open>reply\<close>
  what the actor sent back before it dropped the reply channel.\<close>

definition request_decision :: "permission_handle \<Rightarrow> bool \<Rightarrow> decision option \<Rightarrow> decision" where
  "request_decision h sent reply =
     (case h of
        AllowAllHandle \<Rightarrow> Allow
      | ActorHandle \<Rightarrow>
          if \<not> sent then Reject ''permission manager unavailable''
          else case reply of
              Some d \<Rightarrow> d
            | None \<Rightarrow> Reject ''failed to receive permission decision'')"

inductive system_step :: "manager_config \<Rightarrow> system \<Rightarrow> system \<Rightarrow> bool" for c :: manager_config where
  call: "handle_call c es \<Longrightarrow> system_step c y (y\<lparr>sy_calls := sy_calls y @ [es]\<rparr>)"
| effect: "sy_calls y = xs @ (x # es) # zs \<Longrightarrow>
     system_step c y (do_effect x (y\<lparr>sy_calls := xs @ es # zs\<rparr>))"
| run: "sy_queue y = cmd # q \<Longrightarrow>
     system_step c y (y\<lparr>sy_actor := run_command c e cmd (sy_actor y), sy_queue := q\<rparr>)"

inductive system_runs :: "manager_config \<Rightarrow> system \<Rightarrow> bool" for c :: manager_config where
  start: "system_runs c
     \<lparr>sy_actor = spawn_actor c requested_yolo st loaded, sy_wired = False, sy_queue = [], sy_calls = []\<rparr>"
| next_step: "system_runs c y \<Longrightarrow> system_step c y z \<Longrightarrow> system_runs c z"

inductive_cases system_step_cases: "system_step c y z"

text \<open>Nothing left to do: every call has returned and the actor has taken every command.\<close>

definition settled :: "system \<Rightarrow> bool" where
  "settled y \<longleftrightarrow> sy_queue y = [] \<and> list_all (\<lambda>es. es = []) (sy_calls y)"

subsection \<open>The flags settle\<close>

text \<open>The commands after which the actor has published its mode anew, and a call that still has such a
  command to send.\<close>

definition publishes_yolo :: "manager_config \<Rightarrow> permission_command \<Rightarrow> bool" where
  "publishes_yolo c cmd \<longleftrightarrow> (\<exists>b. cmd = SetYoloMode b) \<or> cmd = SetAutoMode True"

definition publishes_auto :: "manager_config \<Rightarrow> permission_command \<Rightarrow> bool" where
  "publishes_auto c cmd \<longleftrightarrow>
     (\<exists>b. cmd = SetAutoMode b) \<or> (\<exists>b. cmd = SetYoloMode b \<and> clamp_yolo b (mc_pin c))"

definition due :: "(permission_command \<Rightarrow> bool) \<Rightarrow> system \<Rightarrow> bool" where
  "due p y \<longleftrightarrow>
     (\<exists>cmd \<in> set (sy_queue y). p cmd)
     \<or> (\<exists>es \<in> set (sy_calls y). \<exists>cmd. Send cmd \<in> set es \<and> p cmd)"

text \<open>What is left of a call.\<close>

definition rest_of_call :: "manager_config \<Rightarrow> effect list \<Rightarrow> bool" where
  "rest_of_call c es \<longleftrightarrow> (\<exists>full. handle_call c full \<and> suffix es full)"

lemma rest_of_full: "handle_call c es \<Longrightarrow> rest_of_call c es"
  by (auto simp: rest_of_call_def)

lemma rest_of_tail: "rest_of_call c (x # es) \<Longrightarrow> rest_of_call c es"
  unfolding rest_of_call_def by (meson suffix_ConsD)

lemmas call_defs = set_yolo_mode_def set_auto_mode_def set_classifier_def
  set_classifier_with_side_query_def set_llm_side_query_wired_def only_send_def

text \<open>A call that stores a flag still has to send a command that publishes it.\<close>

lemma store_yolo_due:
  assumes "rest_of_call c (StoreYolo b # es)"
  shows "(\<exists>cmd. Send cmd \<in> set es \<and> publishes_yolo c cmd) \<and> (b \<longrightarrow> mc_pin c = None)"
proof -
  from assms obtain full where f: "handle_call c full" "suffix (StoreYolo b # es) full"
    by (auto simp: rest_of_call_def)
  from f(1) f(2) show ?thesis
    by cases (auto simp: call_defs suffix_Cons publishes_yolo_def clamp_yolo_def Let_def split: if_splits)
qed

lemma store_auto_due:
  assumes "rest_of_call c (StoreAuto b # es)"
  shows "\<exists>cmd. Send cmd \<in> set es \<and> publishes_auto c cmd"
proof -
  from assms obtain full where f: "handle_call c full" "suffix (StoreAuto b # es) full"
    by (auto simp: rest_of_call_def)
  from f(1) f(2) show ?thesis
    by cases (auto simp: call_defs suffix_Cons publishes_auto_def clamp_yolo_def Let_def split: if_splits)
qed

text \<open>What the actor's commands do to the modes and to the flags.\<close>

lemma request_modes:
  "ac_yolo (hd_actor (handle_request c e rq s)) = ac_yolo s
   \<and> ac_auto (hd_actor (handle_request c e rq s)) = ac_auto s
   \<and> ac_yolo_flag (hd_actor (handle_request c e rq s)) = ac_yolo_flag s
   \<and> ac_auto_flag (hd_actor (handle_request c e rq s)) = ac_auto_flag s"
proof (cases rule: handle_request_cases[of c e rq s])
  case (left s' f)
  then show ?thesis by auto
next
  case decided
  from decide_keeps[of e "reload_if_changed e (rq_access rq) s" c "request_facts c e rq s"]
  show ?thesis unfolding decided(1) by (simp add: request_keeps_def)
qed

lemma run_yolo:
  "publishes_yolo c cmd \<Longrightarrow> ac_yolo_flag (run_command c e cmd s) = ac_yolo (run_command c e cmd s)"
  "\<not> publishes_yolo c cmd \<Longrightarrow> ac_yolo (run_command c e cmd s) = ac_yolo s
     \<and> ac_yolo_flag (run_command c e cmd s) = ac_yolo_flag s"
  using request_modes
  by (cases cmd; auto simp: publishes_yolo_def run_command_def set_yolo_def set_auto_def reset_state_def Let_def)+

lemma run_auto:
  "publishes_auto c cmd \<Longrightarrow> ac_auto_flag (run_command c e cmd s) = ac_auto (run_command c e cmd s)"
  "\<not> publishes_auto c cmd \<Longrightarrow> ac_auto (run_command c e cmd s) = ac_auto s
     \<and> ac_auto_flag (run_command c e cmd s) = ac_auto_flag s"
  using request_modes
  by (cases cmd; auto simp: publishes_auto_def run_command_def set_yolo_def set_auto_def reset_state_def Let_def)+

definition system_inv :: "manager_config \<Rightarrow> system \<Rightarrow> bool" where
  "system_inv c y \<longleftrightarrow>
     actor_inv c (sy_actor y) \<and> list_all (rest_of_call c) (sy_calls y)
     \<and> (mc_pin c \<noteq> None \<longrightarrow> \<not> ac_yolo_flag (sy_actor y))
     \<and> (ac_yolo_flag (sy_actor y) = ac_yolo (sy_actor y) \<or> due (publishes_yolo c) y)
     \<and> (ac_auto_flag (sy_actor y) = ac_auto (sy_actor y) \<or> due (publishes_auto c) y)"

text \<open>A due command stays due until the actor takes it.\<close>

lemma due_call: "due p y \<Longrightarrow> due p (y\<lparr>sy_calls := sy_calls y @ [es]\<rparr>)"
  by (auto simp: due_def)

lemma due_effect:
  assumes "sy_calls y = xs @ (x # es) # zs" and "due p y"
  shows "due p (do_effect x (y\<lparr>sy_calls := xs @ es # zs\<rparr>))"
  using assms by (cases x) (auto simp: due_def do_effect_def)

lemma due_run:
  assumes "sy_queue y = cmd # q" and "due p y" and "\<not> p cmd"
  shows "due p (y\<lparr>sy_actor := a, sy_queue := q\<rparr>)"
  using assms by (auto simp: due_def)

lemma effect_inv:
  assumes i: "system_inv c y" and y: "sy_calls y = xs @ (x # es) # zs"
  shows "system_inv c (do_effect x (y\<lparr>sy_calls := xs @ es # zs\<rparr>))"
proof -
  let ?z = "do_effect x (y\<lparr>sy_calls := xs @ es # zs\<rparr>)"
  have r: "rest_of_call c (x # es)" and l: "list_all (rest_of_call c) (sy_calls ?z)"
    using i y rest_of_tail by (auto simp: system_inv_def do_effect_def split: effect.split)
  have a: "actor_inv c (sy_actor ?z)"
    using i by (cases x) (auto simp: system_inv_def do_effect_def actor_inv_def counters_ok_def recorded_ok_def)
  have m: "ac_yolo (sy_actor ?z) = ac_yolo (sy_actor y)" "ac_auto (sy_actor ?z) = ac_auto (sy_actor y)"
    by (cases x; simp add: do_effect_def)+
  have calls: "es \<in> set (sy_calls ?z)" by (cases x) (simp_all add: do_effect_def)
  have dy: "due (publishes_yolo c) y \<Longrightarrow> due (publishes_yolo c) ?z" and
    da: "due (publishes_auto c) y \<Longrightarrow> due (publishes_auto c) ?z"
    using due_effect[OF y] by blast+
  have yolo: "ac_yolo_flag (sy_actor ?z) = ac_yolo_flag (sy_actor y) \<or>
      due (publishes_yolo c) ?z \<and> (ac_yolo_flag (sy_actor ?z) \<longrightarrow> mc_pin c = None)"
    using r store_yolo_due calls by (cases x) (fastforce simp: do_effect_def due_def)+
  have auto: "ac_auto_flag (sy_actor ?z) = ac_auto_flag (sy_actor y) \<or> due (publishes_auto c) ?z"
    using r store_auto_due calls by (cases x) (fastforce simp: do_effect_def due_def)+
  from i a l m yolo auto dy da show ?thesis unfolding system_inv_def by metis
qed

lemma run_inv:
  assumes i: "system_inv c y" and y: "sy_queue y = cmd # q"
  shows "system_inv c (y\<lparr>sy_actor := run_command c e cmd (sy_actor y), sy_queue := q\<rparr>)"
proof -
  let ?t = "run_command c e cmd (sy_actor y)"
  let ?z = "y\<lparr>sy_actor := ?t, sy_queue := q\<rparr>"
  have a: "actor_inv c ?t" using i run_command_inv by (simp add: system_inv_def)
  have yolo: "ac_yolo_flag ?t = ac_yolo ?t \<or> due (publishes_yolo c) ?z"
    using run_yolo[of c cmd e "sy_actor y"] due_run[OF y, of "publishes_yolo c" ?t] i
    by (metis system_inv_def)
  have auto: "ac_auto_flag ?t = ac_auto ?t \<or> due (publishes_auto c) ?z"
    using run_auto[of c cmd e "sy_actor y"] due_run[OF y, of "publishes_auto c" ?t] i
    by (metis system_inv_def)
  have pin: "mc_pin c \<noteq> None \<longrightarrow> \<not> ac_yolo_flag ?t"
    using run_yolo[of c cmd e "sy_actor y"] a i by (metis actor_inv_def system_inv_def)
  from a yolo auto pin i show ?thesis by (simp add: system_inv_def)
qed

lemma call_inv:
  "system_inv c y \<Longrightarrow> handle_call c es \<Longrightarrow> system_inv c (y\<lparr>sy_calls := sy_calls y @ [es]\<rparr>)"
  using rest_of_full due_call by (simp add: system_inv_def) blast

lemma step_inv: "system_step c y z \<Longrightarrow> system_inv c y \<Longrightarrow> system_inv c z"
  by (induction rule: system_step.induct) (simp_all add: call_inv effect_inv run_inv)

lemma start_inv:
  "system_inv c \<lparr>sy_actor = spawn_actor c requested_yolo st loaded, sy_wired = False, sy_queue = [], sy_calls = []\<rparr>"
  using spawn_inv[of c requested_yolo st loaded]
  by (auto simp: system_inv_def spawn_actor_def clamp_yolo_def Let_def)

lemma runs_inv: "system_runs c y \<Longrightarrow> system_inv c y"
  by (induction rule: system_runs.induct) (auto intro: start_inv step_inv)

text \<open>The work left: an effect of a call counts twice, as it may put a command on the queue.\<close>

definition work_left :: "system \<Rightarrow> nat" where
  "work_left y = 2 * sum_list (map length (sy_calls y)) + length (sy_queue y)"

lemma settled_or_progress:
  assumes "\<not> settled y"
  shows "\<exists>z. system_step c y z \<and> work_left z < work_left y"
proof (cases "sy_queue y")
  case (Cons cmd q)
  then have "work_left (y\<lparr>sy_actor := a, sy_queue := q\<rparr>) < work_left y" for a by (simp add: work_left_def)
  with system_step.run[OF Cons, of c undefined] show ?thesis by blast
next
  case Nil
  with assms obtain es where "es \<in> set (sy_calls y)" "es \<noteq> []" by (auto simp: settled_def list_all_iff)
  then obtain xs x es' zs where y: "sy_calls y = xs @ (x # es') # zs"
    by (metis neq_Nil_conv split_list)
  have "work_left (do_effect x (y\<lparr>sy_calls := xs @ es' # zs\<rparr>)) < work_left y"
    by (cases x) (simp_all add: work_left_def do_effect_def y)
  with system_step.effect[OF y] show ?thesis by blast
qed

lemma can_settle: "\<exists>z. (system_step c)\<^sup>*\<^sup>* y z \<and> settled z"
proof (induction "work_left y" arbitrary: y rule: less_induct)
  case less
  show ?case
  proof (cases "settled y")
    case False
    with settled_or_progress[of y c] obtain z where z: "system_step c y z" "work_left z < work_left y" by blast
    with less obtain u where "(system_step c)\<^sup>*\<^sup>* z u" "settled u" by blast
    with z(1) show ?thesis by (meson converse_rtranclp_into_rtranclp)
  qed blast
qed

text \<open>C6: the modes that the handles publish are the actor's: whatever calls run concurrently and
  however their stores, their sends and the actor interleave, once every call has returned and
  every command is taken, the flags say what the actor does, and always-approve and auto mode are
  not both on; under a managed pin no handle ever reads always-approve, at any moment; and from
  every state the system can settle.\<close>

theorem flags_settle:
  assumes "system_runs c y"
  shows "(settled y \<longrightarrow>
      is_yolo_mode ActorHandle y = ac_yolo (sy_actor y) \<and> is_auto_mode ActorHandle y = ac_auto (sy_actor y)
      \<and> \<not> (is_yolo_mode ActorHandle y \<and> is_auto_mode ActorHandle y))
    \<and> (mc_pin c \<noteq> None \<longrightarrow> \<not> is_yolo_mode ActorHandle y)
    \<and> (\<exists>z. (system_step c)\<^sup>*\<^sup>* y z \<and> settled z)"
proof -
  from runs_inv[OF assms] have i: "system_inv c y" .
  have "settled y \<Longrightarrow> \<not> due p y" for p by (auto simp: settled_def due_def list_all_iff)
  with i can_settle[of c y] show ?thesis
    by (auto simp: system_inv_def actor_inv_def is_yolo_mode_def is_auto_mode_def)
qed

text \<open>A run in which a handle switches always-approve on while another is half-way through auto mode.\<close>

lemma flags_settle_witness:
  "\<exists>y. system_runs demo_manager y \<and> sy_calls y = [[], [StoreYolo False, Send (SetAutoMode True)]]
     \<and> is_yolo_mode ActorHandle y \<and> (\<exists>z. (system_step demo_manager)\<^sup>*\<^sup>* y z \<and> settled z)"
proof -
  let ?y0 = "\<lparr>sy_actor = demo_actor, sy_wired = False, sy_queue = [], sy_calls = []\<rparr>"
  have p: "mc_pin demo_manager = None" by (simp add: demo_manager_def)
  have s0: "system_runs demo_manager ?y0"
    unfolding demo_actor_def by (rule system_runs.start)
  let ?y1 = "?y0\<lparr>sy_calls := [set_yolo_mode demo_manager True]\<rparr>"
  have s1: "system_runs demo_manager ?y1"
    using next_step[OF s0 system_step.call[OF handle_call.intros(1)[of demo_manager True]]] by simp
  let ?y2 = "?y1\<lparr>sy_calls := [set_yolo_mode demo_manager True, set_auto_mode True]\<rparr>"
  have s2: "system_runs demo_manager ?y2"
    using next_step[OF s1 system_step.call[OF handle_call.intros(2)[of demo_manager True]]] by simp
  have e: "set_yolo_mode demo_manager True = [StoreYolo True, StoreAuto False, Send (SetYoloMode True)]"
    "set_auto_mode True = [StoreAuto True, StoreYolo False, Send (SetAutoMode True)]"
    by (simp_all add: call_defs clamp_yolo_def p Let_def)
  let ?a = "\<lambda>a. demo_actor\<lparr>ac_auto_flag := a\<rparr>"
  let ?y3 = "?y2\<lparr>sy_calls := [set_yolo_mode demo_manager True, [StoreYolo False, Send (SetAutoMode True)]],
    sy_actor := ?a True\<rparr>"
  have s3: "system_runs demo_manager ?y3"
    using next_step[OF s2 system_step.effect[of _ "[set_yolo_mode demo_manager True]" "StoreAuto True"
        "[StoreYolo False, Send (SetAutoMode True)]" "[]"]] e
    by (simp add: do_effect_def)
  let ?c2 = "[StoreYolo False, Send (SetAutoMode True)]"
  let ?y4 = "?y3\<lparr>sy_calls := [[StoreAuto False, Send (SetYoloMode True)], ?c2],
    sy_actor := (?a True)\<lparr>ac_yolo_flag := True\<rparr>\<rparr>"
  have s4: "system_runs demo_manager ?y4"
    using next_step[OF s3 system_step.effect[of _ "[]" "StoreYolo True" "[StoreAuto False, Send (SetYoloMode True)]"
        "[?c2]"]] e
    by (simp add: do_effect_def)
  let ?y5 = "?y4\<lparr>sy_calls := [[Send (SetYoloMode True)], ?c2],
    sy_actor := demo_actor\<lparr>ac_yolo_flag := True, ac_auto_flag := False\<rparr>\<rparr>"
  have s5: "system_runs demo_manager ?y5"
    using next_step[OF s4 system_step.effect[of _ "[]" "StoreAuto False" "[Send (SetYoloMode True)]" "[?c2]"]]
    by (simp add: do_effect_def)
  let ?y6 = "?y5\<lparr>sy_calls := [[], ?c2], sy_queue := [SetYoloMode True]\<rparr>"
  have s6: "system_runs demo_manager ?y6"
    using next_step[OF s5 system_step.effect[of _ "[]" "Send (SetYoloMode True)" "[]" "[?c2]"]]
    by (simp add: do_effect_def)
  from flags_settle[OF s6] have "\<exists>z. (system_step demo_manager)\<^sup>*\<^sup>* ?y6 z \<and> settled z" by blast
  with s6 show ?thesis by (intro exI[of _ ?y6]) (simp add: is_yolo_mode_def)
qed

end
