(* ===== verification/Prompter.thy ===== *)
theory Prompter
  imports Manager_Actor
begin

text \<open>
  The prompt (\<open>permission/prompter.rs\<close>) and its remote counterpart (\<open>permission/hub_permission.rs\<close>): which
  options a request is offered, how a client's selection or a remote reply becomes an answer, and
  what is recorded of it.  Option labels are display text and are left out.
\<close>

subsection \<open>Options\<close>

datatype option_kind = KindAllowOnce | KindAllowAlways | KindRejectOnce | KindRejectAlways

record prompt_option =
  op_id :: string
  op_kind :: option_kind

definition opt :: "string \<Rightarrow> option_kind \<Rightarrow> prompt_option" where
  "opt i k = \<lparr>op_id = i, op_kind = k\<rparr>"

text \<open>\<open>IndexMap\<close>: insertion keeps the place of an id that is already there.\<close>

definition index_insert :: "prompt_option list \<Rightarrow> prompt_option \<Rightarrow> prompt_option list" where
  "index_insert m x =
     (if list_ex (\<lambda>y. op_id y = op_id x) m then map (\<lambda>y. if op_id y = op_id x then x else y) m else m @ [x])"

definition index_extend :: "prompt_option list \<Rightarrow> prompt_option list \<Rightarrow> prompt_option list" where
  "index_extend m xs = foldl index_insert m xs"

definition shift_remove :: "string \<Rightarrow> prompt_option list \<Rightarrow> prompt_option list" where
  "shift_remove i m = filter (\<lambda>y. op_id y \<noteq> i) m"

definition index_get :: "prompt_option list \<Rightarrow> string \<Rightarrow> prompt_option option" where
  "index_get m i = find (\<lambda>y. op_id y = i) m"

definition ALLOW_EDITS_SESSION_OPTION_ID :: string where
  "ALLOW_EDITS_SESSION_OPTION_ID = ''allow-edits-session''"

definition ENABLE_ALWAYS_APPROVE_OPTION_ID :: string where
  "ENABLE_ALWAYS_APPROVE_OPTION_ID = ''enable-always-approve''"

definition client_supports_enable_always_approve :: "client_type \<Rightarrow> bool" where
  "client_supports_enable_always_approve c \<longleftrightarrow> c \<in> {GrokTUI, GrokPager, Desktop}"

definition prepend_enable_always_approve :: "client_type \<Rightarrow> prompt_option list \<Rightarrow> prompt_option list" where
  "prepend_enable_always_approve c base =
     (if \<not> client_supports_enable_always_approve c then base
      else index_extend [opt ENABLE_ALWAYS_APPROVE_OPTION_ID KindAllowOnce] base)"

definition REMEMBER_TOOL_APPROVALS_GATED_IDS :: "string list" where
  "REMEMBER_TOOL_APPROVALS_GATED_IDS =
     [''allow-always-command'', ''reject-always-command'', ''allow-always-mcp'', ''reject-always-mcp'',
      ''allow-always-domain'', ''reject-always-domain'', ''always-allow'', ''reject-always'']"

definition edit_options :: "prompt_option list" where
  "edit_options =
     [opt ALLOW_EDITS_SESSION_OPTION_ID KindAllowAlways, opt ''allow-once'' KindAllowOnce,
      opt ''reject-once'' KindRejectOnce]"

definition bash_options :: "prompt_option list" where
  "bash_options = [opt ''allow-once'' KindAllowOnce, opt ''reject-once'' KindRejectOnce]"

definition generic_bash_options :: "prompt_option list" where
  "generic_bash_options =
     [opt ''always-allow'' KindAllowAlways, opt ''allow-once'' KindAllowOnce,
      opt ''reject-once'' KindRejectOnce, opt ''reject-always'' KindRejectAlways]"

definition fallback_options :: "prompt_option list" where
  "fallback_options =
     [opt ''always-allow'' KindAllowAlways, opt ''allow-once'' KindAllowOnce, opt ''reject-once'' KindRejectOnce]"

definition agent_message_options :: "prompt_option list" where
  "agent_message_options = [opt ''allow-once'' KindAllowOnce, opt ''reject-once'' KindRejectOnce]"

definition fancy_bash_options :: "host \<Rightarrow> string \<Rightarrow> prompt_option list" where
  "fancy_bash_options h cmd =
     (let primary = primary_command_from_script (h_parse h) cmd;
          allow = (if primary \<noteq> None \<and> always_allow_row_is_effective h cmd
                   then [opt ''allow-always-command'' KindAllowAlways] else []);
          m = index_extend allow bash_options
      in if primary \<noteq> None then index_insert m (opt ''reject-always-command'' KindRejectAlways) else m)"

definition web_fetch_options :: "prompt_option list" where
  "web_fetch_options =
     [opt ''allow-always-domain'' KindAllowAlways, opt ''allow-once'' KindAllowOnce,
      opt ''reject-once'' KindRejectOnce, opt ''reject-always-domain'' KindRejectAlways]"

definition fancy_mcp_options :: "prompt_option list" where
  "fancy_mcp_options =
     [opt ''allow-always-mcp'' KindAllowAlways, opt ''allow-once'' KindAllowOnce,
      opt ''reject-once'' KindRejectOnce, opt ''reject-always-mcp'' KindRejectAlways]"

definition build_options_inner :: "host \<Rightarrow> client_type \<Rightarrow> access_kind \<Rightarrow> prompt_option list" where
  "build_options_inner h client a =
     (case a of
        Edit _ \<Rightarrow> edit_options
      | AgentMessage _ \<Rightarrow> agent_message_options
      | Bash cmd \<Rightarrow>
          if client \<in> {GrokTUI, GrokPager, Desktop} then fancy_bash_options h cmd else generic_bash_options
      | WebFetch _ \<Rightarrow> web_fetch_options
      | MCPTool _ _ \<Rightarrow> if client \<in> {GrokTUI, GrokPager, Desktop} then fancy_mcp_options else fallback_options
      | _ \<Rightarrow> fallback_options)"

definition build_options :: "host \<Rightarrow> client_type \<Rightarrow> bool \<Rightarrow> access_kind \<Rightarrow> prompt_option list" where
  "build_options h client remember a =
     (let base = build_options_inner h client a;
          kept = (if \<not> remember then foldl (\<lambda>m i. shift_remove i m) base REMEMBER_TOOL_APPROVALS_GATED_IDS
                  else base)
      in prepend_enable_always_approve client kept)"

subsection \<open>Selections\<close>

type_synonym meta = "(string \<times> json) list"

text \<open>The \<open>serde\<close> decodings of the two kinds of selection a client attaches.\<close>

definition json_strings :: "json \<Rightarrow> string list option" where
  "json_strings v = (case v of JArray xs \<Rightarrow> map_opt as_str xs | _ \<Rightarrow> None)"

definition selected_terms :: "meta \<Rightarrow> (string list \<times> bool) option" where
  "selected_terms m =
     (case Option.bind (map_of m ''command_parts'') json_strings of
        None \<Rightarrow> None
      | Some parts \<Rightarrow>
          (case map_of m ''is_glob'' of
             None \<Rightarrow> Some (parts, False)
           | Some (JBool b) \<Rightarrow> Some (parts, b)
           | Some _ \<Rightarrow> None))"

datatype mcp_scope_selection = ScopeTool string | ScopeServer string

definition selected_scope :: "meta \<Rightarrow> mcp_scope_selection option" where
  "selected_scope m =
     (case Option.bind (map_of m ''kind'') as_str of
        None \<Rightarrow> None
      | Some k \<Rightarrow>
          if k = ''tool'' then map_option ScopeTool (Option.bind (map_of m ''tool_name'') as_str)
          else if k = ''server'' then map_option ScopeServer (Option.bind (map_of m ''server'') as_str)
          else None)"

definition own_tool :: "access_kind \<Rightarrow> prompt_outcome" where
  "own_tool a = (case a of MCPTool name _ \<Rightarrow> AllowAlwaysMcpTool name | _ \<Rightarrow> AllowAlways)"

definition domain_from_url :: "host \<Rightarrow> string \<Rightarrow> string option" where
  "domain_from_url h url = map_option (normalize_domain h) (h_url_host h url)"

definition map_allow_always :: "host \<Rightarrow> string \<Rightarrow> meta option \<Rightarrow> access_kind \<Rightarrow> prompt_outcome" where
  "map_allow_always h i m a =
     (if i = ENABLE_ALWAYS_APPROVE_OPTION_ID then AllowOnce
      else if i = ''allow-always-mcp'' then
        (case Option.bind m selected_scope of
           Some (ScopeTool tool_name) \<Rightarrow> AllowAlwaysMcpTool tool_name
         | Some (ScopeServer server) \<Rightarrow> if server = [] then own_tool a else AllowAlwaysMcpServer server
         | None \<Rightarrow> own_tool a)
      else if i = ''allow-always-domain'' then
        (case (case a of WebFetch url \<Rightarrow> domain_from_url h url | _ \<Rightarrow> None) of
           Some domain \<Rightarrow> if domain \<noteq> [] then AllowAlwaysDomain domain else AllowOnce
         | None \<Rightarrow> AllowOnce)
      else if i = ''allow-always-command'' then
        (case Option.bind m selected_terms of
           Some (parts, is_glob) \<Rightarrow>
             if is_glob then AllowAlwaysBashGlob (join '' '' parts) else AllowAlwaysBashCommand (join '' '' parts)
         | None \<Rightarrow>
             (case (case a of Bash cmd \<Rightarrow> primary_command_from_script (h_parse h) cmd | _ \<Rightarrow> None) of
                Some primary \<Rightarrow> AllowAlwaysBashCommand (join '' '' (bh_highlighted_words primary))
              | None \<Rightarrow> AllowAlways))
      else if i = ALLOW_EDITS_SESSION_OPTION_ID \<and> (case a of Edit _ \<Rightarrow> True | _ \<Rightarrow> False) then AllowEditsForSession
      else AllowAlways)"

definition map_reject_once :: "meta option \<Rightarrow> prompt_outcome" where
  "map_reject_once m =
     (case Option.bind (Option.bind m (\<lambda>mt. map_of mt ''followup_message'')) as_str of
        Some followup \<Rightarrow> if trim followup \<noteq> [] then PromptFollowup followup else RejectOnce
      | None \<Rightarrow> RejectOnce)"

definition map_reject_always :: "host \<Rightarrow> string \<Rightarrow> meta option \<Rightarrow> access_kind \<Rightarrow> prompt_outcome" where
  "map_reject_always h i m a =
     (if i = ''reject-always-command'' \<or> i = ''reject-always'' then
        (case Option.bind m selected_terms of
           Some (parts, _) \<Rightarrow> RejectAlwaysBashCommand (join '' '' parts)
         | None \<Rightarrow>
             (case a of
                Bash cmd \<Rightarrow>
                  (case primary_command_from_script (h_parse h) cmd of
                     Some primary \<Rightarrow> RejectAlwaysBashCommand (join '' '' (bh_highlighted_words primary))
                   | None \<Rightarrow> RejectAlwaysBashCommand cmd)
              | _ \<Rightarrow> RejectOnce))
      else if i = ''reject-always-mcp'' then
        (case a of MCPTool name _ \<Rightarrow> RejectAlwaysMcpTool name | _ \<Rightarrow> RejectOnce)
      else if i = ''reject-always-domain'' then
        (case (case a of WebFetch url \<Rightarrow> web_fetch_deny_key_from_url h url | _ \<Rightarrow> None) of
           Some domain \<Rightarrow> RejectAlwaysDomain domain
         | None \<Rightarrow> RejectOnce)
      else RejectOnce)"

definition map_selected_outcome ::
  "host \<Rightarrow> prompt_option list \<Rightarrow> string \<Rightarrow> meta option \<Rightarrow> access_kind \<Rightarrow> prompt_outcome"
where
  "map_selected_outcome h options i m a =
     (case index_get options i of
        None \<Rightarrow> PromptError ''unknown permission option''
      | Some x \<Rightarrow>
          (case op_kind x of
             KindAllowOnce \<Rightarrow> AllowOnce
           | KindAllowAlways \<Rightarrow> map_allow_always h i m a
           | KindRejectOnce \<Rightarrow> map_reject_once m
           | KindRejectAlways \<Rightarrow> map_reject_always h i m a))"

text \<open>A client's reply to a prompt.\<close>

datatype client_reply = SelectionCancelled | Selected string "meta option" | OutcomeUnknown | RequestFailed

definition prompt_client :: "host \<Rightarrow> client_type \<Rightarrow> bool \<Rightarrow> access_kind \<Rightarrow> client_reply \<Rightarrow> prompt_outcome" where
  "prompt_client h client remember a reply =
     (case reply of
        SelectionCancelled \<Rightarrow> PromptCancelled
      | Selected i m \<Rightarrow> map_selected_outcome h (build_options h client remember a) i m a
      | OutcomeUnknown \<Rightarrow> PromptError ''unknown permission outcome''
      | RequestFailed \<Rightarrow> PromptError ''failed to request permission'')"

subsection \<open>The remote prompt\<close>

fun json_field :: "json \<Rightarrow> string \<Rightarrow> json option" where
  "json_field (JObject kvs) k = map_of kvs k"
| "json_field _ k = None"

definition scope_kind_value :: "json \<Rightarrow> (string \<times> string option) option" where
  "scope_kind_value reply =
     Option.bind (json_field reply ''scope'') (\<lambda>sc.
       map_option (\<lambda>k. (k, Option.bind (json_field sc ''value'') as_str))
         (Option.bind (json_field sc ''kind'') as_str))"

definition reply_word :: "json \<Rightarrow> string" where
  "reply_word reply =
     (case json_field reply ''outcome'' of
        Some (JString s) \<Rightarrow> s
      | Some (JNumber n) \<Rightarrow>
          if n = ''1'' then ''approve'' else if n = ''2'' then ''reject''
          else if n = ''3'' then ''always_approve'' else if n = ''4'' then ''always_reject'' else []
      | _ \<Rightarrow> [])"

definition always_approve_scope :: "(string \<times> string option) option \<Rightarrow> prompt_outcome" where
  "always_approve_scope sc =
     (case sc of
        Some (k, Some v) \<Rightarrow>
          if k = ''bash_command'' then AllowAlwaysBashCommand v
          else if k = ''bash_glob'' then AllowAlwaysBashGlob v
          else if k = ''server_prefix'' then AllowAlwaysMcpServer v
          else if k = ''domain'' then AllowAlwaysDomain v
          else AllowAlways
      | _ \<Rightarrow> AllowAlways)"

definition always_reject_scope :: "(string \<times> string option) option \<Rightarrow> prompt_outcome" where
  "always_reject_scope sc =
     (case sc of
        Some (k, Some v) \<Rightarrow> if k = ''bash_command'' then RejectAlwaysBashCommand v else RejectOnce
      | _ \<Rightarrow> RejectOnce)"

definition reply_to_outcome :: "json \<Rightarrow> prompt_outcome" where
  "reply_to_outcome reply =
     (let outcome = reply_word reply;
          followup = Option.bind (json_field reply ''followup_message'') as_str in
      if outcome = ''approve'' then AllowOnce
      else if outcome = ''always_approve'' then always_approve_scope (scope_kind_value reply)
      else if outcome = ''reject'' then
        (case followup of Some msg \<Rightarrow> if msg \<noteq> [] then PromptFollowup msg else RejectOnce | None \<Rightarrow> RejectOnce)
      else if outcome = ''always_reject'' then always_reject_scope (scope_kind_value reply)
      else if outcome = ''cancelled'' then PromptCancelled
      else RejectOnce)"

definition request_permission_via_hub :: "access_kind \<Rightarrow> string + json \<Rightarrow> prompt_outcome" where
  "request_permission_via_hub a reply =
     (case reply of
        Inr v \<Rightarrow>
          (case reply_to_outcome v of
             AllowAlways \<Rightarrow>
               (case a of Edit _ \<Rightarrow> AllowEditsForSession | AgentMessage _ \<Rightarrow> AllowOnce | _ \<Rightarrow> AllowAlways)
           | other \<Rightarrow> other)
      | Inl e \<Rightarrow> PromptError (''hub permission request failed: '' @ e))"

definition prompt_outcome_allows :: "prompt_outcome \<Rightarrow> bool" where
  "prompt_outcome_allows p \<longleftrightarrow>
     (case p of
        AllowOnce \<Rightarrow> True | AllowAlways \<Rightarrow> True | AllowEditsForSession \<Rightarrow> True
      | AllowAlwaysBashCommand _ \<Rightarrow> True | AllowAlwaysBashGlob _ \<Rightarrow> True | AllowAlwaysDomain _ \<Rightarrow> True
      | AllowAlwaysMcpTool _ \<Rightarrow> True | AllowAlwaysMcpServer _ \<Rightarrow> True | _ \<Rightarrow> False)"

fun scope_for_access :: "access_kind \<Rightarrow> string" where
  "scope_for_access (Bash _) = ''write''"
| "scope_for_access (Edit _) = ''write''"
| "scope_for_access (MCPTool _ _) = ''write''"
| "scope_for_access (AgentMessage _) = ''write''"
| "scope_for_access (Read _) = ''read''"
| "scope_for_access (Grep _ _) = ''read''"
| "scope_for_access (WebFetch _) = ''read''"
| "scope_for_access (WebSearch _) = ''read''"

fun describe_access :: "access_kind \<Rightarrow> string" where
  "describe_access (Bash _) = ''Run a terminal command''"
| "describe_access (Edit path) = ''Edit '' @ path"
| "describe_access (MCPTool name _) = ''Run MCP tool '' @ name"
| "describe_access (WebFetch url) = ''Fetch '' @ url"
| "describe_access (WebSearch query) = ''Search the web for '' @ query"
| "describe_access (Read _) = ''Read a file''"
| "describe_access (Grep _ _) = ''Search file contents''"
| "describe_access (AgentMessage i) = ''Send a message to subagent '' @ i"

definition payload_details :: "access_kind \<Rightarrow> meta" where
  "payload_details a =
     (case a of
        Bash command \<Rightarrow> [(''bash_command'', JString command)]
      | AgentMessage i \<Rightarrow> [(''subagent_id'', JString i)]
      | Edit path \<Rightarrow> [(''edit_file_paths'', JArray [JString path])]
      | _ \<Rightarrow> [])"

definition build_permission_payload :: "access_kind \<Rightarrow> string \<Rightarrow> hook_ask option \<Rightarrow> json" where
  "build_permission_payload a tool_call_id hook =
     JObject
       ([(''tool_call_id'', JString tool_call_id), (''tool_name'', JString (tool_name_for_access a)),
         (''description'', JString (case hook of
             Some ask \<Rightarrow> prompt_header ask (describe_access a) | None \<Rightarrow> describe_access a)),
         (''scope'', JString (scope_for_access a))] @ payload_details a)"

text \<open>How the name of a remote tool call becomes an access; \<open>active_message\<close> tells the tool's kind.\<close>

definition arg_or :: "json \<Rightarrow> string list \<Rightarrow> string \<Rightarrow> string" where
  "arg_or args keys d =
     (case Option.bind (find_map (json_field args) keys) as_str of Some s \<Rightarrow> s | None \<Rightarrow> d)"

definition access_kind_for_hub_tool_name :: "string \<Rightarrow> json \<Rightarrow> access_kind option" where
  "access_kind_for_hub_tool_name tool_name args =
     (let seg = last (split_on (\<lambda>c. c = CHR '':'') tool_name);
          name = (case strip_prefix seg ''GrokBuild:'' of Some r \<Rightarrow> r | None \<Rightarrow> seg) in
      if name \<in> set [''run_terminal_command'', ''run_terminal_cmd'', ''bash'', ''shell'']
      then Some (Bash (arg_or args [''command'', ''full_command''] []))
      else if name \<in> set [''search_replace'', ''hashline_edit'', ''edit'', ''write'', ''write_file'']
      then Some (Edit (arg_or args [''file_path'', ''filePath'', ''path''] ''unknown''))
      else if name = ''apply_patch'' then Some (Edit ''apply_patch'')
      else if name = ''send_subagent_message'' then Some (AgentMessage (arg_or args [''subagent_id''] ''unknown''))
      else if name \<in> set [''task'', ''Task'', ''spawn_subagent'']
      then Some (Edit (''task:'' @ arg_or args [''subagent_type''] ''task''))
      else if name = ''web_fetch'' then Some (WebFetch (arg_or args [''url''] []))
      else if contains_str name ''__'' \<or> starts_with name ''mcp'' then Some (MCPTool tool_name args)
      else None)"

definition access_kind_for_hub_tool :: "bool \<Rightarrow> string \<Rightarrow> json \<Rightarrow> access_kind option" where
  "access_kind_for_hub_tool active_message tool_name args =
     (if active_message then Some (AgentMessage (arg_or args [''subagent_id''] ''unknown''))
      else access_kind_for_hub_tool_name tool_name args)"

text \<open>The prompt as the manager sees it: local, or remote when a transport is set.\<close>

datatype prompt_reply = LocalReply client_reply | HubReply "string + json"

definition prompt_reply_outcome ::
  "host \<Rightarrow> client_type \<Rightarrow> bool \<Rightarrow> access_kind \<Rightarrow> prompt_reply \<Rightarrow> prompt_outcome"
where
  "prompt_reply_outcome h client remember a r =
     (case r of
        LocalReply reply \<Rightarrow> prompt_client h client remember a reply
      | HubReply reply \<Rightarrow> request_permission_via_hub a reply)"

datatype permission_decision = DecisionAllow | DecisionDeny | DecisionCancelled | DecisionFollowup

definition permission_decision_for_outcome :: "prompt_outcome \<Rightarrow> permission_decision" where
  "permission_decision_for_outcome p =
     (case p of
        AllowOnce \<Rightarrow> DecisionAllow | AllowAlways \<Rightarrow> DecisionAllow | AllowEditsForSession \<Rightarrow> DecisionAllow
      | AllowAlwaysBashCommand _ \<Rightarrow> DecisionAllow | AllowAlwaysBashGlob _ \<Rightarrow> DecisionAllow
      | AllowAlwaysDomain _ \<Rightarrow> DecisionAllow | AllowAlwaysMcpTool _ \<Rightarrow> DecisionAllow
      | AllowAlwaysMcpServer _ \<Rightarrow> DecisionAllow
      | RejectOnce \<Rightarrow> DecisionDeny | RejectAlwaysBashCommand _ \<Rightarrow> DecisionDeny
      | RejectAlwaysMcpTool _ \<Rightarrow> DecisionDeny | RejectAlwaysDomain _ \<Rightarrow> DecisionDeny
      | PromptError _ \<Rightarrow> DecisionDeny
      | PromptCancelled \<Rightarrow> DecisionCancelled
      | PromptFollowup _ \<Rightarrow> DecisionFollowup)"

text \<open>The two events a prompt leaves in the log.  \<open>None\<close>: the prompt was dropped before it was answered
  (\<open>ResolvedOnDrop\<close>).\<close>

datatype prompt_log = PermissionRequested string | PermissionResolved string permission_decision

definition prompt_events :: "access_kind \<Rightarrow> prompt_outcome option \<Rightarrow> prompt_log list" where
  "prompt_events a p =
     (let tool_name = tool_name_for_access a in
      [PermissionRequested tool_name,
       PermissionResolved tool_name
         (case p of Some x \<Rightarrow> permission_decision_for_outcome x | None \<Rightarrow> DecisionCancelled)])"

end
