(* ===== verification/Prompter_Properties.thy ===== *)
theory Prompter_Properties
  imports Prompter Manager_Runs
begin

text \<open>
  What the prompt guarantees: with remembered approvals switched off no selection leaves a trace,
  no reply, however forged, grants or denies more than the request it answers, and the log tells the
  decision the request came back with.
\<close>

subsection \<open>Options\<close>

lemma set_index_insert: "x \<in> set (index_insert m y) \<Longrightarrow> x \<in> set m \<or> x = y"
  by (auto simp: index_insert_def split: if_splits)

lemma set_index_extend: "x \<in> set (index_extend m ys) \<Longrightarrow> x \<in> set m \<or> x \<in> set ys"
  unfolding index_extend_def
  by (induction ys arbitrary: m) (auto dest: set_index_insert)

lemma set_shift_removes:
  "x \<in> set (foldl (\<lambda>m i. shift_remove i m) m ids) \<longleftrightarrow> x \<in> set m \<and> op_id x \<notin> set ids"
  by (induction ids arbitrary: m) (auto simp: shift_remove_def)

text \<open>The options that last beyond the request.\<close>

definition is_once :: "prompt_option \<Rightarrow> bool" where
  "is_once x \<longleftrightarrow> op_kind x = KindAllowOnce \<or> op_kind x = KindRejectOnce"

lemmas option_lists = edit_options_def bash_options_def generic_bash_options_def fallback_options_def
  agent_message_options_def web_fetch_options_def fancy_mcp_options_def opt_def

lemma fancy_bash_option:
  assumes "x \<in> set (fancy_bash_options h cmd)"
  shows "x \<in> set bash_options \<or> x = opt ''allow-always-command'' KindAllowAlways
    \<or> x = opt ''reject-always-command'' KindRejectAlways"
proof -
  define allow where "allow = opt ''allow-always-command'' KindAllowAlways"
  define deny where "deny = opt ''reject-always-command'' KindRejectAlways"
  define base where "base =
    index_extend (if primary_command_from_script (h_parse h) cmd \<noteq> None
        \<and> always_allow_row_is_effective h cmd then [allow] else []) bash_options"
  have base: "y \<in> set bash_options \<or> y = allow" if "y \<in> set base" for y
    using that set_index_extend unfolding base_def by (metis empty_iff empty_set set_ConsD)
  have "fancy_bash_options h cmd =
      (if primary_command_from_script (h_parse h) cmd \<noteq> None then index_insert base deny else base)"
    unfolding fancy_bash_options_def Let_def base_def allow_def deny_def ..
  then have "x \<in> set base \<or> x = deny"
    using assms set_index_insert by (cases "primary_command_from_script (h_parse h) cmd = None") auto
  then show ?thesis using base unfolding allow_def deny_def by blast
qed

lemma inner_option:
  assumes "x \<in> set (build_options_inner h client a)"
  shows "is_once x \<or> op_id x \<in> set REMEMBER_TOOL_APPROVALS_GATED_IDS
    \<or> x = opt ALLOW_EDITS_SESSION_OPTION_ID KindAllowAlways \<and> (\<exists>path. a = Edit path)"
proof (cases a)
  case (Bash cmd)
  then show ?thesis
    using assms fancy_bash_option[of x h cmd]
    by (auto simp: build_options_inner_def option_lists is_once_def REMEMBER_TOOL_APPROVALS_GATED_IDS_def
        simp del: list.inject split: if_splits)
qed (use assms in \<open>auto simp: build_options_inner_def option_lists is_once_def
    REMEMBER_TOOL_APPROVALS_GATED_IDS_def split: if_splits\<close>)

lemma gated_option:
  assumes "x \<in> set (build_options h client False a)"
  shows "is_once x \<or> x = opt ALLOW_EDITS_SESSION_OPTION_ID KindAllowAlways \<and> (\<exists>path. a = Edit path)"
proof -
  have "x \<in> set (foldl (\<lambda>m i. shift_remove i m) (build_options_inner h client a)
          REMEMBER_TOOL_APPROVALS_GATED_IDS)
      \<or> x = opt ENABLE_ALWAYS_APPROVE_OPTION_ID KindAllowOnce"
    using assms unfolding build_options_def Let_def prepend_enable_always_approve_def
    by (auto dest!: set_index_extend split: if_splits)
  then show ?thesis
    unfolding set_shift_removes using inner_option[of x h client a] by (auto simp: is_once_def opt_def)
qed

lemma index_get_some: "index_get m i = Some x \<Longrightarrow> x \<in> set m \<and> op_id x = i"
  by (auto simp: index_get_def find_Some_iff)

lemma gated_selection:
  "\<not> is_lasting (map_selected_outcome h (build_options h client False a) i m a)
   \<and> (map_selected_outcome h (build_options h client False a) i m a = AllowEditsForSession \<longrightarrow>
        (\<exists>path. a = Edit path))"
proof (cases "index_get (build_options h client False a) i")
  case None
  then show ?thesis by (simp add: map_selected_outcome_def is_lasting_def)
next
  case (Some x)
  then have x: "x \<in> set (build_options h client False a)" "op_id x = i" using index_get_some by auto
  have once: "\<not> is_lasting (map_reject_once m)" "map_reject_once m \<noteq> AllowEditsForSession"
    by (auto simp: map_reject_once_def is_lasting_def split: option.splits)
  from gated_option[OF x(1)] show ?thesis
  proof
    assume "is_once x"
    then show ?thesis
      using Some once by (auto simp: is_once_def map_selected_outcome_def is_lasting_def)
  next
    assume e: "x = opt ALLOW_EDITS_SESSION_OPTION_ID KindAllowAlways \<and> (\<exists>path. a = Edit path)"
    then have "i = ALLOW_EDITS_SESSION_OPTION_ID" using x(2) by (simp add: opt_def)
    then show ?thesis
      using Some e by (auto simp: opt_def map_selected_outcome_def map_allow_always_def is_lasting_def
          ALLOW_EDITS_SESSION_OPTION_ID_def ENABLE_ALWAYS_APPROVE_OPTION_ID_def)
  qed
qed

lemma gated_client:
  "\<not> is_lasting (prompt_client h client False a reply)
   \<and> (prompt_client h client False a reply = AllowEditsForSession \<longrightarrow> (\<exists>path. a = Edit path))"
  using gated_selection by (auto simp: prompt_client_def is_lasting_def split: client_reply.split)


subsection \<open>Remembering switched off\<close>

lemma passing_answer_bash:
  "\<not> is_lasting p \<Longrightarrow> fst (answer_bash c s cmd p) = s"
  by (cases p) (simp_all add: answer_bash_def is_lasting_def Let_def)

lemma passing_answer_other:
  assumes "\<not> is_lasting p"
  shows "fst (answer_other c s a p) = (if downgrade_agent_message a p = AllowEditsForSession
    then s\<lparr>ac_allow_edits := True\<rparr> else s)"
proof -
  have "\<not> is_lasting (downgrade_agent_message a p)" using assms by (rule downgraded)
  then show ?thesis
    by (cases "downgrade_agent_message a p") (simp_all add: answer_other_def is_lasting_def Let_def)
qed

lemma downgraded_edits:
  "downgrade_agent_message a p = AllowEditsForSession \<Longrightarrow> p = AllowEditsForSession"
  by (auto simp: downgrade_agent_message_def split: access_kind.splits if_splits prompt_outcome.splits)

text \<open>C10: with remembered approvals switched off (the default of the prompter), whatever a client of any
  type sends back to a prompt, be it an option it was never offered or a forged selection, the answer
  changes no grant and no deny, writes nothing to disk, and switches the session's edit permission
  on only where the request is an edit.\<close>

theorem gate_off_remembers_nothing:
  "case answer c s a (prompt_client (mc_host c) client False a reply) of (t, d, w) \<Rightarrow>
     ac_state t = ac_state s \<and> ac_store t = ac_store s
     \<and> (ac_allow_edits t = ac_allow_edits s \<or> (\<exists>path. a = Edit path))"
proof -
  define p where "p = prompt_client (mc_host c) client False a reply"
  have p: "\<not> is_lasting p" "p = AllowEditsForSession \<Longrightarrow> \<exists>path. a = Edit path"
    using gated_client unfolding p_def by blast+
  have "fst (answer c s a p) = s
      \<or> fst (answer c s a p) = s\<lparr>ac_allow_edits := True\<rparr> \<and> (\<exists>path. a = Edit path)"
  proof (cases "\<exists>cmd. a = Bash cmd")
    case True
    then show ?thesis using passing_answer_bash[OF p(1)] by (auto simp: answer_def)
  next
    case False
    then have "answer c s a p = answer_other c s a p" by (cases a) (auto simp: answer_def)
    then show ?thesis using passing_answer_other[OF p(1)] downgraded_edits p(2) by metis
  qed
  then show ?thesis unfolding p_def[symmetric] by (auto split: prod.split)
qed

subsection \<open>No reply reaches beyond its request\<close>

text \<open>The command keys a request may be remembered under: the script itself, its segments, and the
  prefixes of its primary command from the shortest scope on.\<close>

definition bash_keys :: "host \<Rightarrow> string \<Rightarrow> string set" where
  "bash_keys h cmd =
     insert cmd (set (bash_grant_segments h cmd)) \<union>
     {join '' '' (take n (bh_highlighted_words b)) | b n.
        primary_command_from_script (h_parse h) cmd = Some b
        \<and> minimum_always_allow_scope (bh_highlighted_words b) \<le> n
        \<and> n \<le> length (bh_highlighted_words b)
        \<and> words_join_unambiguously h (take n (bh_highlighted_words b))}"

text \<open>The command that an outcome itself says to deny from now on.\<close>

definition denied_by :: "prompt_outcome \<Rightarrow> string set" where
  "denied_by p = (case p of RejectAlwaysBashCommand pfx \<Rightarrow> {pfx} | _ \<Rightarrow> {})"

text \<open>What an answer to a request may add to each set of grants and denies; \<open>x\<close> are the commands it says to deny.\<close>

definition within_request ::
    "host \<Rightarrow> string set \<Rightarrow> access_kind \<Rightarrow> permission_state \<Rightarrow> permission_state \<Rightarrow> bool" where
  "within_request h x a g g' \<longleftrightarrow>
     ps_edit_policy g' = ps_edit_policy g \<and> ps_allow_bash_execute g' = ps_allow_bash_execute g
     \<and> set (ps_allowed_bash_commands g') \<subseteq> set (ps_allowed_bash_commands g)
         \<union> (case a of Bash cmd \<Rightarrow> bash_keys h cmd | _ \<Rightarrow> {})
     \<and> set (ps_allowed_bash_globs g') \<subseteq> set (ps_allowed_bash_globs g)
         \<union> (case a of Bash cmd \<Rightarrow> Collect (bash_glob_covers_script h cmd) | _ \<Rightarrow> {})
     \<and> set (ps_disallowed_bash_commands g') \<subseteq> set (ps_disallowed_bash_commands g)
         \<union> (case a of Bash cmd \<Rightarrow> x | _ \<Rightarrow> {})
     \<and> set (ps_allowed_web_fetch_domains g') \<subseteq> set (ps_allowed_web_fetch_domains g)
         \<union> (case a of WebFetch url \<Rightarrow> set_option (domain_from_url h url) | _ \<Rightarrow> {})
     \<and> set (ps_disallowed_web_fetch_domains g') \<subseteq> set (ps_disallowed_web_fetch_domains g)
         \<union> (case a of WebFetch url \<Rightarrow> set_option (web_fetch_deny_key_from_url h url) | _ \<Rightarrow> {})
     \<and> set (ps_allowed_mcp_tools g') \<subseteq> set (ps_allowed_mcp_tools g)
         \<union> (case a of MCPTool name _ \<Rightarrow> {name} | _ \<Rightarrow> {})
     \<and> set (ps_disallowed_mcp_tools g') \<subseteq> set (ps_disallowed_mcp_tools g)
         \<union> (case a of MCPTool name _ \<Rightarrow> {name} | _ \<Rightarrow> {})
     \<and> set (ps_allowed_mcp_servers g') \<subseteq> set (ps_allowed_mcp_servers g)
         \<union> (case a of MCPTool name _ \<Rightarrow> fst ` set_option (parse_mcp_qualified_name name) | _ \<Rightarrow> {})"

lemma within_refl [simp]: "within_request h x a g g"
  by (auto simp: within_request_def)

lemma within_allow_command:
  "key \<in> bash_keys h cmd \<Longrightarrow> within_request h x (Bash cmd) g (allow_command key g)"
  by (auto simp: within_request_def allow_command_def)

lemma within_label:
  assumes "primary_command_from_script (h_parse h) cmd = Some b"
    and "labeled_words_verified h (bh_highlighted_words b) label"
  shows "label \<in> bash_keys h cmd"
proof -
  obtain n where "minimum_always_allow_scope (bh_highlighted_words b) \<le> n"
      "n \<le> length (bh_highlighted_words b)"
      "words_join_unambiguously h (take n (bh_highlighted_words b))"
      "join '' '' (take n (bh_highlighted_words b)) = label"
    using assms(2) unfolding labeled_words_verified_def list_ex_iff by auto
  with assms(1) show ?thesis unfolding bash_keys_def by blast
qed

lemma within_always_allow: "within_request h x (Bash cmd) g (persist_bash_always_allow h g cmd label)"
proof (cases "primary_command_from_script (h_parse h) cmd")
  case None
  then show ?thesis by (simp add: persist_bash_always_allow_def)
next
  case (Some b)
  have "cmd \<in> bash_keys h cmd" by (simp add: bash_keys_def)
  with within_label[OF Some] show ?thesis
    by (simp add: persist_bash_always_allow_def Some Let_def within_allow_command)
qed

lemma within_bash: "within_request (mc_host c) (denied_by p) (Bash cmd) (ac_state s) (ac_state (fst (answer_bash c s cmd p)))"
proof (cases p)
  case AllowAlways
  then show ?thesis by (auto simp: answer_bash_def Let_def within_request_def bash_keys_def)
next
  case (AllowAlwaysBashGlob x)
  then show ?thesis by (auto simp: answer_bash_def Let_def within_request_def)
next
  case (RejectAlwaysBashCommand x)
  then show ?thesis by (auto simp: answer_bash_def Let_def within_request_def denied_by_def)
qed (simp_all add: answer_bash_def Let_def within_always_allow)

lemma within_allow_mcp: "within_request h x (MCPTool name i) g (allow_mcp_tool name g)"
  by (auto simp: within_request_def allow_mcp_tool_def)

lemma within_steps:
  "within_request (mc_host c) x a (ac_state s) (ac_state (answer_always c s a))"
  "within_request (mc_host c) x a (ac_state s) (ac_state (answer_mcp_tool c s a))"
  "within_request (mc_host c) x a (ac_state s) (ac_state (fst (answer_reject_mcp c s a w)))"
  by (cases a; auto simp: answer_always_def answer_mcp_tool_def answer_reject_mcp_def within_allow_mcp
      within_request_def allow_mcp_tool_def)+

lemma within_domain: "within_request (mc_host c) x a (ac_state s) (ac_state (answer_domain c s a))"
  by (cases a) (auto simp: answer_domain_def domain_from_url_def within_request_def split: option.split)

lemma within_reject_domain:
  "within_request (mc_host c) x a (ac_state s) (ac_state (fst (answer_reject_domain c s a w)))"
  by (cases a) (auto simp: answer_reject_domain_def within_request_def split: option.split)

lemma within_server: "within_request (mc_host c) x a (ac_state s) (ac_state (answer_mcp_server c s a v))"
proof (cases a)
  case (MCPTool name i)
  show ?thesis
  proof (cases "parse_mcp_qualified_name name")
    case None
    then show ?thesis using MCPTool by (simp add: answer_mcp_server_def within_allow_mcp)
  next
    case (Some st)
    then show ?thesis using MCPTool
      by (cases st) (auto simp: answer_mcp_server_def allow_mcp_tool_def within_request_def)
  qed
qed (simp_all add: answer_mcp_server_def)

lemma within_other:
  "within_request (mc_host c) x a (ac_state s) (ac_state (fst (answer_other c s a p)))"
  by (cases "downgrade_agent_message a p")
    (simp_all add: answer_other_def Let_def within_steps within_domain within_reject_domain within_server)

text \<open>C11: whatever a prompt comes back with, even a reply for a different request or one that names other
  tools, servers, hosts or commands, what it allows from then on stays within the request it answers: an MCP
  tool under its own name or its own server, a fetched host under its own key, a command under its own
  text, its own segments or an unambiguous prefix of its primary command, a glob only if it covers the
  script; nothing is remembered as allowed for any other kind of request, and the edit policy and the
  blanket shell permission never change.  It denies no other tool and no other host; of commands it denies
  one at most, only in answer to a shell prompt, and that is the one the reply names, unchecked.\<close>

theorem reply_stays_within_request:
  "case answer c s a (prompt_reply_outcome (mc_host c) client remember a reply) of (t, d, w) \<Rightarrow>
     within_request (mc_host c) (denied_by (prompt_reply_outcome (mc_host c) client remember a reply)) a
       (ac_state s) (ac_state t)"
proof -
  have "within_request (mc_host c) (denied_by p) a (ac_state s) (ac_state (fst (answer c s a p)))" for p
  proof (cases "\<exists>cmd. a = Bash cmd")
    case True
    then show ?thesis using within_bash by (auto simp: answer_def)
  next
    case False
    then have "answer c s a p = answer_other c s a p" by (cases a) (auto simp: answer_def)
    then show ?thesis using within_other by metis
  qed
  then show ?thesis by (metis (mono_tags, lifting) case_prod_beta)
qed

text \<open>
  A grant is compared with the script that was asked about, a deny is not: a reply to a prompt about \<open>ls\<close> that
  names \<open>git\<close> denies \<open>git\<close> from then on.
\<close>

lemma forged_deny_is_remembered:
  "answer_bash c s ''ls'' (reply_to_outcome (JObject [(''outcome'', JString ''always_reject''),
      (''scope'', JObject [(''kind'', JString ''bash_command''), (''value'', JString ''git'')])]))
   = (persist c (set_grants s ((ac_state s)\<lparr>ps_disallowed_bash_commands :=
        set_insert ''git'' (ps_disallowed_bash_commands (ac_state s))\<rparr>)),
      Reject (rejected_and_excluded ''git''), outcome_wire_str (RejectAlwaysBashCommand ''git''))"
  by (simp add: answer_bash_def reply_to_outcome_def reply_word_def always_reject_scope_def scope_kind_value_def
      Let_def)

subsection \<open>The log\<close>

definition decision_class :: "decision \<Rightarrow> permission_decision" where
  "decision_class d =
     (case d of Allow \<Rightarrow> DecisionAllow | Cancelled \<Rightarrow> DecisionCancelled
      | FollowupMessage _ \<Rightarrow> DecisionFollowup | _ \<Rightarrow> DecisionDeny)"

lemma class_of_bash: "decision_class (fst (snd (answer_bash c s cmd p))) = permission_decision_for_outcome p"
  by (cases p) (simp_all add: answer_bash_def Let_def decision_class_def permission_decision_for_outcome_def
      rejected_once_def prompt_failed_def)

lemma class_of_downgrade:
  "permission_decision_for_outcome (downgrade_agent_message a p) = permission_decision_for_outcome p"
  by (cases a; cases p; simp add: downgrade_agent_message_def permission_decision_for_outcome_def
      is_allow_outcome_def)

lemma class_of_rejects:
  "decision_class (fst (snd (answer_reject_mcp c s a w))) = DecisionDeny"
  "decision_class (fst (snd (answer_reject_domain c s a w))) = DecisionDeny"
  by (auto simp: answer_reject_mcp_def answer_reject_domain_def decision_class_def rejected_once_def
      split: access_kind.split option.split)

lemma class_of_other:
  "decision_class (fst (snd (answer_other c s a p))) = permission_decision_for_outcome p"
  unfolding class_of_downgrade[of a p, symmetric]
  by (cases "downgrade_agent_message a p") (simp_all add: answer_other_def Let_def decision_class_def
      permission_decision_for_outcome_def rejected_once_def prompt_failed_def class_of_rejects[unfolded decision_class_def])

lemma class_of_answer: "decision_class (fst (snd (answer c s a p))) = permission_decision_for_outcome p"
  using class_of_bash class_of_other by (cases a) (simp_all add: answer_def)

text \<open>A request that reaches the prompt leaves exactly two events of it in the session log, opened
  and resolved, and the resolution names the decision the manager's own event and its answer to the
  requester carry, also when the prompt is dropped before anyone answered it.\<close>

theorem prompt_log_agrees:
  assumes "\<not> su_gone_before_prompt e"
  shows "\<exists>d. prompt_events (fa_access f) (su_prompt e) =
      [PermissionRequested (tool_name_for_access (fa_access f)),
       PermissionResolved (tool_name_for_access (fa_access f)) (decision_class d)]
    \<and> hd_response (prompt_user c e s f cls forced) = Some d
    \<and> ev_decision (hd_event (prompt_user c e s f cls forced)) = d"
proof -
  define p where "p = (case su_prompt e of Some p \<Rightarrow> p | None \<Rightarrow> PromptCancelled)"
  obtain t d w where r: "answer c s (fa_access f) p = (t, d, w)" by (cases "answer c s (fa_access f) p")
  have "decision_class d = permission_decision_for_outcome p"
    using class_of_answer[of c s "fa_access f" p] r by simp
  then have "prompt_events (fa_access f) (su_prompt e) =
      [PermissionRequested (tool_name_for_access (fa_access f)),
       PermissionResolved (tool_name_for_access (fa_access f)) (decision_class d)]"
    unfolding prompt_events_def Let_def p_def
    by (cases "su_prompt e") (simp_all add: permission_decision_for_outcome_def)
  then show ?thesis
    using assms r unfolding p_def prompt_user_def by (simp add: Let_def emit_event_def)
qed

theorem prompt_log_agrees_witness:
  "\<exists>d. prompt_events (Bash ''rm x'') (su_prompt demo_surroundings) =
      [PermissionRequested ''run_terminal_command'',
       PermissionResolved ''run_terminal_command'' (decision_class d)]
    \<and> hd_response (prompt_user demo_manager demo_surroundings demo_actor
        (gather_facts demo_manager demo_surroundings demo_actor (demo_request (Bash ''rm x'') None))
        NotClassified None) = Some d"
proof -
  let ?f = "gather_facts demo_manager demo_surroundings demo_actor (demo_request (Bash ''rm x'') None)"
  have "\<not> su_gone_before_prompt demo_surroundings" by (simp add: demo_surroundings_def)
  from prompt_log_agrees[OF this, of ?f]
  have "\<exists>d. prompt_events (fa_access ?f) (su_prompt demo_surroundings) =
      [PermissionRequested (tool_name_for_access (fa_access ?f)),
       PermissionResolved (tool_name_for_access (fa_access ?f)) (decision_class d)]
    \<and> hd_response (prompt_user demo_manager demo_surroundings demo_actor ?f NotClassified None) = Some d"
    by blast
  moreover have "fa_access ?f = Bash ''rm x''"
    by (simp add: gather_facts_def Let_def demo_request_def)
  ultimately show ?thesis by (simp)
qed

end
