(* ===== verification/Breaker.thy ===== *)
theory Breaker
  imports Complex_Main Rust_Str "HOL-Library.Word"
begin

text \<open>
  The circuit breaker (\<open>src/crates/common/xai-circuit-breaker\<close>) that sheds requests to a failing
  service.  A call of \<open>check\<close> or \<open>record\<close> is a sequence of atomic operations on shared state, each a step
  here (\<open>micro\<close>), so that any number of calls interleave; \<open>breaker_check\<close> and \<open>breaker_record\<close> are the calls as
  they run undisturbed.

  Time is a number of nanoseconds since the breaker's \<open>baseline\<close>; the offsets the breaker stores are
  whole milliseconds.
\<close>

subsection \<open>Sliding window\<close>

definition MAX_WINDOW_ENTRIES :: nat where "MAX_WINDOW_ENTRIES = 10000"

record sliding_window =
  sw_entries :: "(nat \<times> bool) list"
  sw_failures :: nat

definition window_new :: sliding_window where
  "window_new = \<lparr>sw_entries = [], sw_failures = 0\<rparr>"

definition pop_front :: "sliding_window \<Rightarrow> sliding_window" where
  "pop_front w =
     (case sw_entries w of
        [] \<Rightarrow> w
      | (_, was_failure) # es \<Rightarrow>
          \<lparr>sw_entries = es, sw_failures = (if was_failure then sw_failures w - 1 else sw_failures w)\<rparr>)"

definition window_push :: "bool \<Rightarrow> nat \<Rightarrow> sliding_window \<Rightarrow> sliding_window" where
  "window_push is_failure t w =
     (let w1 = (if MAX_WINDOW_ENTRIES \<le> length (sw_entries w) then pop_front w else w) in
      \<lparr>sw_entries = sw_entries w1 @ [(t, is_failure)],
       sw_failures = (if is_failure then sw_failures w1 + 1 else sw_failures w1)\<rparr>)"

fun evict_before :: "nat \<Rightarrow> (nat \<times> bool) list \<Rightarrow> nat \<Rightarrow> sliding_window" where
  "evict_before cutoff [] failures = \<lparr>sw_entries = [], sw_failures = failures\<rparr>"
| "evict_before cutoff ((ts, was_failure) # es) failures =
     (if ts < cutoff then evict_before cutoff es (if was_failure then failures - 1 else failures)
      else \<lparr>sw_entries = (ts, was_failure) # es, sw_failures = failures\<rparr>)"

definition window_evict :: "nat \<Rightarrow> nat \<Rightarrow> sliding_window \<Rightarrow> sliding_window" where
  "window_evict window now w =
     (if now < window then w else evict_before (now - window) (sw_entries w) (sw_failures w))"

text \<open>The quotient of two counts as an \<open>f64\<close>: the nearest multiple of the last place, halves to even.\<close>

function shift_to :: "nat \<Rightarrow> nat \<Rightarrow> nat" where
  "shift_to a b = (if a = 0 \<or> b \<le> a then 0 else Suc (shift_to (2 * a) b))"
  by pat_completeness auto
termination by (relation "measure (\<lambda>(a, b). b - a)") auto

declare shift_to.simps [simp del]

definition round_half_even :: "nat \<Rightarrow> nat \<Rightarrow> nat" where
  "round_half_even x y =
     (let q = x div y; r = x mod y in
      if 2 * r < y \<or> 2 * r = y \<and> even q then q else q + 1)"

definition f64_div :: "nat \<Rightarrow> nat \<Rightarrow> rat" where
  "f64_div a b =
     (let s = 52 + shift_to a b in of_nat (round_half_even (a * 2 ^ s) b) / 2 ^ s)"

definition error_rate :: "sliding_window \<Rightarrow> rat" where
  "error_rate w = (if sw_entries w = [] then 0 else f64_div (sw_failures w) (length (sw_entries w)))"

definition sample_count :: "sliding_window \<Rightarrow> nat" where
  "sample_count w = length (sw_entries w)"

subsection \<open>Configuration\<close>

text \<open>\<open>bc_threshold\<close> is \<open>None\<close> for a threshold that no rate reaches (NaN, infinity).\<close>

record breaker_config =
  bc_window :: nat
  bc_min_samples :: nat
  bc_threshold :: "rat option"
  bc_open :: nat
  bc_max_probes :: "64 word"
  bc_failure_codes :: "nat list"
  bc_enabled :: bool

definition secs :: "nat \<Rightarrow> nat" where "secs n = n * 1000000000"

definition DEFAULT_FAILURE_CODES :: "nat list" where
  "DEFAULT_FAILURE_CODES = [429, 500, 502, 503, 504]"

definition config_server :: breaker_config where
  "config_server = \<lparr>bc_window = secs 60, bc_min_samples = 10, bc_threshold = Some (1 / 2),
     bc_open = secs 10, bc_max_probes = 1, bc_failure_codes = DEFAULT_FAILURE_CODES, bc_enabled = True\<rparr>"

definition config_client :: breaker_config where
  "config_client = \<lparr>bc_window = secs 60, bc_min_samples = 5, bc_threshold = Some (1 / 2),
     bc_open = secs 60, bc_max_probes = 1, bc_failure_codes = [401], bc_enabled = True\<rparr>"

text \<open>\<open>str::parse\<close> for an unsigned type with greatest value \<open>greatest\<close>.\<close>

definition digits_value :: "string \<Rightarrow> nat" where
  "digits_value ds = foldl (\<lambda>n d. 10 * n + (of_char d - 48)) 0 ds"

definition parse_unsigned :: "nat \<Rightarrow> string \<Rightarrow> nat option" where
  "parse_unsigned greatest s =
     (let ds = (case s of CHR ''+'' # r \<Rightarrow> r | _ \<Rightarrow> s) in
      if ds = [] \<or> \<not> list_all is_ascii_digit ds \<or> digits_value ds > greatest then None
      else Some (digits_value ds))"

definition parse_bool :: "string \<Rightarrow> bool option" where
  "parse_bool s = (if s = ''true'' then Some True else if s = ''false'' then Some False else None)"

definition parse_failure_codes :: "string \<Rightarrow> nat list" where
  "parse_failure_codes s =
     List.map_filter (\<lambda>c. parse_unsigned 65535 (trim c)) (split_on (\<lambda>c. c = CHR '','') s)"

definition lookup_or :: "(string \<Rightarrow> string option) \<Rightarrow> (string \<Rightarrow> 'a option) \<Rightarrow> string \<Rightarrow> 'a \<Rightarrow> 'a" where
  "lookup_or env parse key d =
     (case env key of
        Some v \<Rightarrow> (case parse v of Some x \<Rightarrow> x | None \<Rightarrow> d)
      | None \<Rightarrow> d)"

text \<open>\<open>parse_f64\<close> is \<open>str::parse::<f64>\<close>, with \<open>Some None\<close> for a value no rate reaches.\<close>

definition from_lookup_with_prefix ::
  "(string \<Rightarrow> rat option option) \<Rightarrow> string \<Rightarrow> (string \<Rightarrow> string option) \<Rightarrow> breaker_config"
where
  "from_lookup_with_prefix parse_f64 pfx env =
     (let num = (\<lambda>k d. lookup_or env (parse_unsigned (2 ^ 64 - 1)) (pfx @ k) d) in
      \<lparr>bc_window = secs (num ''WINDOW_SECS'' 60),
       bc_min_samples = num ''MIN_SAMPLES'' 10,
       bc_threshold = lookup_or env parse_f64 (pfx @ ''ERROR_RATE_THRESHOLD'') (Some (1 / 2)),
       bc_open = secs (num ''OPEN_DURATION_SECS'' 10),
       bc_max_probes = of_nat (max (num ''HALF_OPEN_MAX_PROBES'' 1) 1),
       bc_failure_codes =
         (case env (pfx @ ''FAILURE_CODES'') of
            Some raw \<Rightarrow>
              (let codes = parse_failure_codes raw in if codes = [] then DEFAULT_FAILURE_CODES else codes)
          | None \<Rightarrow> DEFAULT_FAILURE_CODES),
       bc_enabled = lookup_or env parse_bool (pfx @ ''ENABLED'') True\<rparr>)"

definition config_is_failure_status :: "breaker_config \<Rightarrow> nat \<Rightarrow> bool" where
  "config_is_failure_status c status \<longleftrightarrow> status \<in> set (bc_failure_codes c)"

subsection \<open>Shared state\<close>

datatype breaker_state = Closed | Open | HalfOpen

datatype outcome = Success | Failure

record breaker =
  br_state :: breaker_state
  br_opened_at :: nat
  br_probes :: "64 word"
  br_claimed_at :: nat
  br_open_fast :: bool
  br_window :: sliding_window

text \<open>\<open>with_clock\<close> raises a probe limit of zero to one.\<close>

definition with_clock :: "breaker_config \<Rightarrow> breaker_config \<times> breaker" where
  "with_clock c =
     (c\<lparr>bc_max_probes := max (bc_max_probes c) 1\<rparr>,
      \<lparr>br_state = Closed, br_opened_at = 0, br_probes = 0, br_claimed_at = 0, br_open_fast = False,
       br_window = window_new\<rparr>)"

definition millis :: "nat \<Rightarrow> nat" where "millis t = t div 1000000"

definition from_millis :: "nat \<Rightarrow> nat" where "from_millis n = n * 1000000"

definition HALF_OPEN_PROBE_BACKOFF :: nat where "HALF_OPEN_PROBE_BACKOFF = from_millis 50"

text \<open>What \<open>check\<close> returns: \<open>Ok\<close>, told apart by the way it was granted, or \<open>BreakerOpen\<close> with its
  \<open>retry_after\<close>.\<close>

datatype admission = Passed | ProbeSlot | TookOver | Shed nat

definition check_ok :: "admission \<Rightarrow> bool" where
  "check_ok r \<longleftrightarrow> (case r of Shed _ \<Rightarrow> False | _ \<Rightarrow> True)"

subsection \<open>The calls, one atomic operation at a time\<close>

text \<open>What a call does next.  The window operations stand for a whole critical section of its mutex.\<close>

datatype pc =
    CheckStart
  | OpenLoad
  | OpenNow nat
  | OpenCas nat
  | OpenFast
  | LostLoad
  | LostOpened
  | LostNow nat
  | ProbeNow
  | ProbeAdd nat
  | ProbeStore nat
  | ProbeSub nat
  | ProbeLoad nat
  | ProbeCas nat nat
  | Checked admission
  | RecordNow outcome
  | RecordLoad outcome nat
  | RecordClosed outcome nat
  | RecordOpen outcome nat
  | TripState
  | TripNow
  | TripOpened nat
  | TripProbes
  | TripFast
  | CloseState
  | CloseWindow
  | CloseProbes
  | CloseFast
  | Recorded

definition check :: "breaker_config \<Rightarrow> pc" where
  "check c = (if bc_enabled c then CheckStart else Checked Passed)"

definition record_call :: "breaker_config \<Rightarrow> outcome \<Rightarrow> pc" where
  "record_call c x = (if bc_enabled c then RecordNow x else Recorded)"

definition still_open :: "breaker_config \<Rightarrow> nat \<Rightarrow> nat \<Rightarrow> admission" where
  "still_open c opened now = Shed (bc_open c - from_millis (millis now - opened))"

definition no_slot :: "breaker_config \<Rightarrow> admission" where
  "no_slot c = Shed (min HALF_OPEN_PROBE_BACKOFF (bc_open c))"

definition sample :: "breaker_config \<Rightarrow> outcome \<Rightarrow> nat \<Rightarrow> sliding_window \<Rightarrow> sliding_window" where
  "sample c x now w = window_evict (bc_window c) now (window_push (x = Failure) now w)"

definition should_trip :: "breaker_config \<Rightarrow> sliding_window \<Rightarrow> bool" where
  "should_trip c w \<longleftrightarrow>
     bc_min_samples c \<le> sample_count w
     \<and> (case bc_threshold c of None \<Rightarrow> False | Some t \<Rightarrow> t \<le> error_rate w)"

text \<open>One step of a call, with the clock at \<open>now\<close>.\<close>

fun micro :: "breaker_config \<Rightarrow> nat \<Rightarrow> pc \<Rightarrow> breaker \<Rightarrow> pc \<times> breaker" where
  "micro c now CheckStart b =
     ((case br_state b of Closed \<Rightarrow> Checked Passed | Open \<Rightarrow> OpenLoad | HalfOpen \<Rightarrow> ProbeNow), b)"
| "micro c now OpenLoad b = (OpenNow (br_opened_at b), b)"
| "micro c now (OpenNow opened) b =
     (if bc_open c \<le> from_millis (millis now - opened) then OpenCas opened
      else Checked (still_open c opened now), b)"
| "micro c now (OpenCas opened) b =
     (if br_state b = Open then (OpenFast, b\<lparr>br_state := HalfOpen\<rparr>) else (LostLoad, b))"
| "micro c now OpenFast b = (ProbeNow, b\<lparr>br_open_fast := False\<rparr>)"
| "micro c now LostLoad b =
     ((case br_state b of Closed \<Rightarrow> Checked Passed | Open \<Rightarrow> LostOpened | HalfOpen \<Rightarrow> ProbeNow), b)"
| "micro c now LostOpened b = (LostNow (br_opened_at b), b)"
| "micro c now (LostNow opened) b = (Checked (still_open c opened now), b)"
| "micro c now ProbeNow b = (ProbeAdd (millis now), b)"
| "micro c now (ProbeAdd t) b =
     (if br_probes b < bc_max_probes c then ProbeStore t else ProbeSub t,
      b\<lparr>br_probes := br_probes b + 1\<rparr>)"
| "micro c now (ProbeStore t) b = (Checked ProbeSlot, b\<lparr>br_claimed_at := t\<rparr>)"
| "micro c now (ProbeSub t) b = (ProbeLoad t, b\<lparr>br_probes := br_probes b - 1\<rparr>)"
| "micro c now (ProbeLoad t) b =
     (if millis (bc_open c) \<le> t - br_claimed_at b then ProbeCas t (br_claimed_at b)
      else Checked (no_slot c), b)"
| "micro c now (ProbeCas t claimed) b =
     (if br_claimed_at b = claimed then (Checked TookOver, b\<lparr>br_claimed_at := t\<rparr>)
      else (Checked (no_slot c), b))"
| "micro c now (Checked r) b = (Checked r, b)"
| "micro c now (RecordNow x) b = (RecordLoad x now, b)"
| "micro c now (RecordLoad x t) b =
     ((case br_state b of
         Closed \<Rightarrow> RecordClosed x t
       | HalfOpen \<Rightarrow> if x = Failure then TripState else CloseState
       | Open \<Rightarrow> RecordOpen x t), b)"
| "micro c now (RecordClosed x t) b =
     (let w = sample c x t (br_window b) in
      (if should_trip c w then TripState else Recorded, b\<lparr>br_window := w\<rparr>))"
| "micro c now (RecordOpen x t) b = (Recorded, b\<lparr>br_window := sample c x t (br_window b)\<rparr>)"
| "micro c now TripState b = (TripNow, b\<lparr>br_state := Open\<rparr>)"
| "micro c now TripNow b = (TripOpened (millis now), b)"
| "micro c now (TripOpened t) b = (TripProbes, b\<lparr>br_opened_at := t\<rparr>)"
| "micro c now TripProbes b = (TripFast, b\<lparr>br_probes := 0\<rparr>)"
| "micro c now TripFast b = (Recorded, b\<lparr>br_open_fast := True\<rparr>)"
| "micro c now CloseState b = (CloseWindow, b\<lparr>br_state := Closed\<rparr>)"
| "micro c now CloseWindow b = (CloseProbes, b\<lparr>br_window := window_new\<rparr>)"
| "micro c now CloseProbes b = (CloseFast, b\<lparr>br_probes := 0\<rparr>)"
| "micro c now CloseFast b = (Recorded, b\<lparr>br_open_fast := False\<rparr>)"
| "micro c now Recorded b = (Recorded, b)"

definition finished :: "pc \<Rightarrow> bool" where
  "finished p \<longleftrightarrow> (case p of Checked _ \<Rightarrow> True | Recorded \<Rightarrow> True | _ \<Rightarrow> False)"

text \<open>How many steps a call has left at most; a call never waits for another.\<close>

fun steps_left :: "pc \<Rightarrow> nat" where
  "steps_left CheckStart = 14"
| "steps_left OpenLoad = 13"
| "steps_left (OpenNow _) = 12"
| "steps_left (OpenCas _) = 11"
| "steps_left OpenFast = 9"
| "steps_left LostLoad = 9"
| "steps_left LostOpened = 2"
| "steps_left (LostNow _) = 1"
| "steps_left ProbeNow = 6"
| "steps_left (ProbeAdd _) = 5"
| "steps_left (ProbeStore _) = 1"
| "steps_left (ProbeSub _) = 3"
| "steps_left (ProbeLoad _) = 2"
| "steps_left (ProbeCas _ _) = 1"
| "steps_left (Checked _) = 0"
| "steps_left (RecordNow _) = 9"
| "steps_left (RecordLoad _ _) = 8"
| "steps_left (RecordClosed _ _) = 6"
| "steps_left (RecordOpen _ _) = 1"
| "steps_left TripState = 5"
| "steps_left TripNow = 4"
| "steps_left (TripOpened _) = 3"
| "steps_left TripProbes = 2"
| "steps_left TripFast = 1"
| "steps_left CloseState = 4"
| "steps_left CloseWindow = 3"
| "steps_left CloseProbes = 2"
| "steps_left CloseFast = 1"
| "steps_left Recorded = 0"

fun run_alone :: "nat \<Rightarrow> breaker_config \<Rightarrow> nat \<Rightarrow> pc \<Rightarrow> breaker \<Rightarrow> pc \<times> breaker" where
  "run_alone 0 c now p b = (p, b)"
| "run_alone (Suc n) c now p b =
     (if finished p then (p, b) else case micro c now p b of (q, b1) \<Rightarrow> run_alone n c now q b1)"

subsection \<open>Undisturbed calls\<close>

definition try_half_open_probe :: "breaker_config \<Rightarrow> nat \<Rightarrow> breaker \<Rightarrow> breaker \<times> admission" where
  "try_half_open_probe c now b =
     (if br_probes b < bc_max_probes c
      then (b\<lparr>br_probes := br_probes b + 1, br_claimed_at := millis now\<rparr>, ProbeSlot)
      else if millis (bc_open c) \<le> millis now - br_claimed_at b
      then (b\<lparr>br_claimed_at := millis now\<rparr>, TookOver)
      else (b, no_slot c))"

definition check_open :: "breaker_config \<Rightarrow> nat \<Rightarrow> breaker \<Rightarrow> breaker \<times> admission" where
  "check_open c now b =
     (if bc_open c \<le> from_millis (millis now - br_opened_at b)
      then try_half_open_probe c now (b\<lparr>br_state := HalfOpen, br_open_fast := False\<rparr>)
      else (b, still_open c (br_opened_at b) now))"

definition breaker_check :: "breaker_config \<Rightarrow> nat \<Rightarrow> breaker \<Rightarrow> breaker \<times> admission" where
  "breaker_check c now b =
     (if \<not> bc_enabled c then (b, Passed)
      else case br_state b of
          Closed \<Rightarrow> (b, Passed)
        | Open \<Rightarrow> check_open c now b
        | HalfOpen \<Rightarrow> try_half_open_probe c now b)"

definition trip :: "nat \<Rightarrow> breaker \<Rightarrow> breaker" where
  "trip now b = b\<lparr>br_state := Open, br_opened_at := millis now, br_probes := 0, br_open_fast := True\<rparr>"

definition close_breaker :: "breaker \<Rightarrow> breaker" where
  "close_breaker b = b\<lparr>br_state := Closed, br_window := window_new, br_probes := 0, br_open_fast := False\<rparr>"

definition breaker_record :: "breaker_config \<Rightarrow> nat \<Rightarrow> outcome \<Rightarrow> breaker \<Rightarrow> breaker" where
  "breaker_record c now x b =
     (if \<not> bc_enabled c then b
      else let w = sample c x now (br_window b) in
        case br_state b of
          Closed \<Rightarrow> if should_trip c w then trip now (b\<lparr>br_window := w\<rparr>) else b\<lparr>br_window := w\<rparr>
        | HalfOpen \<Rightarrow> if x = Failure then trip now b else close_breaker b
        | Open \<Rightarrow> b\<lparr>br_window := w\<rparr>)"

text \<open>\<open>error_rate()\<close> of the breaker: evicts first.\<close>

definition breaker_error_rate :: "breaker_config \<Rightarrow> nat \<Rightarrow> breaker \<Rightarrow> breaker \<times> rat" where
  "breaker_error_rate c now b =
     (let w = window_evict (bc_window c) now (br_window b) in (b\<lparr>br_window := w\<rparr>, error_rate w))"

subsection \<open>Registry\<close>

definition registry_get ::
  "breaker_config \<Rightarrow> string \<Rightarrow> (string \<rightharpoonup> breaker) \<Rightarrow> (string \<rightharpoonup> breaker) \<times> breaker option"
where
  "registry_get c key m =
     (if \<not> bc_enabled c then (m, None)
      else case m key of
          Some b \<Rightarrow> (m, Some b)
        | None \<Rightarrow> let b = snd (with_clock c) in (m(key \<mapsto> b), Some b))"

subsection \<open>Retry policies\<close>

datatype disposition = Retryable | AuthRefresh | Terminal

record retry_policy =
  rp_retryable :: "nat list"
  rp_auth_refresh :: "nat list"
  rp_terminal :: "nat list"
  rp_default :: disposition

definition classify_status :: "retry_policy \<Rightarrow> nat \<Rightarrow> disposition option" where
  "classify_status p status =
     (if 200 \<le> status \<and> status < 300 then None
      else if status \<in> set (rp_auth_refresh p) then Some AuthRefresh
      else if status \<in> set (rp_terminal p) then Some Terminal
      else if status \<in> set (rp_retryable p) \<or> 500 \<le> status \<and> status < 600 then Some Retryable
      else Some (rp_default p))"

definition should_retry :: "retry_policy \<Rightarrow> nat \<Rightarrow> bool" where
  "should_retry p status \<longleftrightarrow> classify_status p status = Some Retryable"

definition policy_server :: retry_policy where
  "policy_server =
     \<lparr>rp_retryable = [429], rp_auth_refresh = [], rp_terminal = [], rp_default = Terminal\<rparr>"

definition policy_edge_client :: retry_policy where
  "policy_edge_client =
     \<lparr>rp_retryable = [429], rp_auth_refresh = [], rp_terminal = [525, 526], rp_default = Terminal\<rparr>"

definition policy_client_storage :: retry_policy where
  "policy_client_storage =
     \<lparr>rp_retryable = [], rp_auth_refresh = [401], rp_terminal = [400, 403, 404, 525, 526],
      rp_default = Retryable\<rparr>"

datatype grpc_code = GOk | GCancelled | GUnknown | GInvalidArgument | GDeadlineExceeded | GNotFound
  | GAlreadyExists | GPermissionDenied | GResourceExhausted | GFailedPrecondition | GAborted
  | GOutOfRange | GUnimplemented | GInternal | GUnavailable | GDataLoss | GUnauthenticated

definition classify_grpc :: "grpc_code list \<Rightarrow> grpc_code \<Rightarrow> disposition option" where
  "classify_grpc retryable code =
     (if code = GOk then None else if code \<in> set retryable then Some Retryable else Some Terminal)"

definition grpc_default :: "grpc_code list" where "grpc_default = [GUnavailable, GUnknown]"

definition grpc_permissive :: "grpc_code list" where
  "grpc_permissive = [GUnavailable, GUnknown, GInternal, GDeadlineExceeded]"

end
