(* ===== verification/Breaker_Properties.thy ===== *)
theory Breaker_Properties
  imports Breaker
begin

text \<open>
  The circuit breaker as its calls run one after the other: an undisturbed call is the composition of
  its atomic operations, the window is the recent history, when the breaker trips, and that it
  recovers from every state.

  The circuit breaker under concurrent calls: any number of calls interleave at the grain of their atomic
  operations (sequentially consistent atomics; a critical section of the window's mutex is one step).
\<close>

section \<open>Breaker properties\<close>

subsection \<open>Undisturbed calls\<close>

lemma check_alone: "run_alone 14 c now (check c) b = (Checked (snd (breaker_check c now b)), fst (breaker_check c now b))"
proof (cases "bc_enabled c")
  case True
  then show ?thesis
    by (cases "br_state b")
      (simp_all add: check_def breaker_check_def check_open_def try_half_open_probe_def finished_def
        eval_nat_numeral)
qed (simp add: check_def breaker_check_def finished_def eval_nat_numeral)

lemma record_alone: "run_alone 14 c now (record_call c x) b = (Recorded, breaker_record c now x b)"
proof (cases "bc_enabled c")
  case True
  then show ?thesis
    by (cases "br_state b"; cases x)
      (simp_all add: record_call_def breaker_record_def finished_def eval_nat_numeral trip_def close_breaker_def
        Let_def)
qed (simp add: record_call_def breaker_record_def finished_def eval_nat_numeral)

text \<open>A call of the breaker that runs undisturbed, atomic operation by atomic operation, is the call as
  one step: the same answer and the same state, in at most 14 operations.\<close>

theorem undisturbed_calls:
  "run_alone 14 c now (check c) b =
     (Checked (snd (breaker_check c now b)), fst (breaker_check c now b))
   \<and> run_alone 14 c now (record_call c x) b = (Recorded, breaker_record c now x b)"
  using check_alone record_alone by blast

subsection \<open>The window is the recent history\<close>

definition lastn :: "nat \<Rightarrow> 'a list \<Rightarrow> 'a list" where
  "lastn n xs = drop (length xs - n) xs"

definition live :: "nat \<Rightarrow> nat \<Rightarrow> nat \<times> bool \<Rightarrow> bool" where
  "live window now e \<longleftrightarrow> now \<le> fst e + window"

definition failures_of :: "(nat \<times> bool) list \<Rightarrow> nat" where
  "failures_of es = length (filter snd es)"

lemma failures_of_simps [simp]:
  "failures_of [] = 0" "failures_of (e # es) = (if snd e then 1 else 0) + failures_of es"
  "failures_of (xs @ ys) = failures_of xs + failures_of ys"
  by (simp_all add: failures_of_def)

definition window_ok :: "sliding_window \<Rightarrow> bool" where
  "window_ok w \<longleftrightarrow> sw_failures w = failures_of (sw_entries w)"

lemma pop_front_ok: "window_ok w \<Longrightarrow> window_ok (pop_front w) \<and> sw_entries (pop_front w) = tl (sw_entries w)"
  by (auto simp: window_ok_def pop_front_def split: list.split)

lemma push_ok:
  "window_ok w \<Longrightarrow> window_ok (window_push f t w) \<and> sw_entries (window_push f t w) =
     (if MAX_WINDOW_ENTRIES \<le> length (sw_entries w) then tl (sw_entries w) else sw_entries w) @ [(t, f)]"
  using pop_front_ok[of w] by (auto simp: window_ok_def window_push_def Let_def)

lemma evict_before_ok:
  "sw_failures (evict_before cutoff es (failures_of es)) = failures_of (sw_entries (evict_before cutoff es (failures_of es)))
   \<and> sw_entries (evict_before cutoff es (failures_of es)) = dropWhile (\<lambda>e. fst e < cutoff) es"
proof (induction es)
  case (Cons e es)
  then show ?case by (cases e) auto
qed simp

lemma dropWhile_sorted:
  "sorted (map fst es) \<Longrightarrow> dropWhile (\<lambda>e. fst e < cutoff) es = filter (\<lambda>e. cutoff \<le> fst e) es"
proof (induction es)
  case (Cons e es)
  then show ?case
  proof (cases "fst e < cutoff")
    case False
    with Cons.prems have "\<forall>x \<in> set es. cutoff \<le> fst x" by fastforce
    then show ?thesis using False by simp
  qed simp
qed simp

lemma evict_ok:
  assumes "window_ok w" "sorted (map fst (sw_entries w))"
  shows "window_ok (window_evict window now w)
    \<and> sw_entries (window_evict window now w) = filter (live window now) (sw_entries w)"
proof (cases "now < window")
  case True
  then have "filter (live window now) (sw_entries w) = sw_entries w"
    by (auto simp: live_def filter_id_conv)
  then show ?thesis using True assms by (simp add: window_evict_def)
next
  case False
  then have "live window now = (\<lambda>e. now - window \<le> fst e)" by (auto simp: live_def fun_eq_iff)
  then show ?thesis
    using False assms evict_before_ok[of "now - window" "sw_entries w"] dropWhile_sorted[OF assms(2)]
    by (simp add: window_evict_def window_ok_def)
qed

lemma lastn_length: "length (lastn n xs) = min n (length xs)"
  by (simp add: lastn_def)

lemma lastn_snoc: "0 < n \<Longrightarrow> lastn n (xs @ [x]) = (if n \<le> length xs then tl (lastn n xs) else lastn n xs) @ [x]"
  by (auto simp: lastn_def tl_drop drop_Suc[symmetric] Suc_diff_le simp flip: drop_Suc)

lemma sorted_lastn: "sorted (map fst xs) \<Longrightarrow> sorted (map fst (lastn n xs))"
  by (simp add: lastn_def drop_map[symmetric])

lemma sorted_filtered: "sorted (map fst es) \<Longrightarrow> sorted (map fst (filter p es))"
  by (induction es) auto

text \<open>Pushing on the live part of the last \<open>n\<close> entries, and forgetting the oldest when there are \<open>n\<close>.\<close>

lemma live_step:
  assumes "sorted (map fst xs)" "now \<le> now'" "0 < n"
  shows "filter (live window now') ((if n \<le> length (filter (live window now) (lastn n xs))
      then tl (filter (live window now) (lastn n xs)) else filter (live window now) (lastn n xs)) @ [x])
    = filter (live window now') (lastn n (xs @ [x]))"
proof -
  define L where "L = lastn n xs"
  have older: "live window now' e \<Longrightarrow> live window now e" for e using assms(2) by (simp add: live_def)
  have sub: "filter (live window now') (filter (live window now) L) = filter (live window now') L"
    using older by (metis (no_types, lifting) filter_filter filter_cong)
  have len: "length L \<le> n" by (simp add: L_def lastn_length)
  show ?thesis
  proof (cases "n \<le> length (filter (live window now) L)")
    case True
    then have "filter (live window now) L = L" using len
      by (metis dual_order.trans length_filter_less filter_id_conv not_less le_trans)
    moreover have "n \<le> length xs"
      using True length_filter_le[of "live window now" L] by (simp add: L_def lastn_length)
    ultimately show ?thesis using True assms(3) by (simp add: L_def[symmetric] lastn_snoc)
  next
    case False
    show ?thesis
    proof (cases "n \<le> length xs")
      case short: False
      then show ?thesis using False sub assms(3) by (simp add: L_def[symmetric] lastn_snoc)
    next
      case full: True
      then have "length L = n" by (simp add: L_def lastn_length)
      then obtain e L' where e: "L = e # L'" using assms(3) by (cases L) auto
      have "\<exists>y \<in> set L. \<not> live window now y"
        using False \<open>length L = n\<close> by (metis filter_True order_refl)
      moreover have "sorted (map fst L)" using assms(1) sorted_lastn by (simp add: L_def)
      ultimately have "\<not> live window now e" using e by (fastforce simp: live_def)
      then have "\<not> live window now' e" using older by blast
      then have "filter (live window now') L = filter (live window now') (tl L)" by (simp add: e)
      then show ?thesis using False sub full assms(3) by (simp add: L_def[symmetric] lastn_snoc)
    qed
  qed
qed

text \<open>The samples of a sequence of outcomes, and the ones the window keeps.\<close>

definition samples :: "(nat \<times> outcome) list \<Rightarrow> (nat \<times> bool) list" where
  "samples h = map (\<lambda>(t, x). (t, x = Failure)) h"

definition recent :: "breaker_config \<Rightarrow> (nat \<times> outcome) list \<Rightarrow> (nat \<times> bool) list" where
  "recent c h =
     (if h = [] then []
      else filter (live (bc_window c) (fst (last h))) (lastn MAX_WINDOW_ENTRIES (samples h)))"

definition record_all :: "breaker_config \<Rightarrow> (nat \<times> outcome) list \<Rightarrow> breaker \<Rightarrow> breaker" where
  "record_all c h b = foldl (\<lambda>b (t, x). breaker_record c t x b) b h"

definition holds_recent :: "breaker_config \<Rightarrow> (nat \<times> outcome) list \<Rightarrow> sliding_window \<Rightarrow> bool" where
  "holds_recent c h w \<longleftrightarrow> sw_entries w = recent c h \<and> sw_failures w = failures_of (recent c h)"

lemma samples_times: "map fst (samples h) = map fst h"
  by (simp add: samples_def case_prod_beta comp_def)

lemma in_tl: "e \<in> set (tl xs) \<Longrightarrow> e \<in> set xs"
  by (cases xs) auto

lemma sample_recent:
  assumes "holds_recent c h w" "sorted (map fst (h @ [(t, x)]))"
  shows "holds_recent c (h @ [(t, x)]) (sample c x t w)"
proof -
  define S where "S = samples h"
  define now where "now = (if h = [] then 0 else fst (last h))"
  define w1 where "w1 = window_push (x = Failure) t w"
  have S: "sorted (map fst S)" using assms(2) by (simp add: S_def samples_times sorted_append)
  have E: "sw_entries w = filter (live (bc_window c) now) (lastn MAX_WINDOW_ENTRIES S)"
    using assms(1) by (auto simp: holds_recent_def recent_def S_def now_def samples_def lastn_def)
  have ok: "window_ok w" using assms(1) by (simp add: holds_recent_def window_ok_def)
  have t: "now \<le> t" "\<forall>e \<in> set S. fst e \<le> t"
  proof -
    have a: "\<forall>e \<in> set h. fst e \<le> t" using assms(2) by (auto simp: sorted_append)
    then show "now \<le> t" by (simp add: now_def)
    show "\<forall>e \<in> set S. fst e \<le> t" using a by (auto simp: S_def samples_def)
  qed
  have w1: "window_ok w1" "sw_entries w1 = (if MAX_WINDOW_ENTRIES \<le> length (sw_entries w)
      then tl (sw_entries w) else sw_entries w) @ [(t, x = Failure)]"
    using push_ok[OF ok] unfolding w1_def by blast+
  have "sorted (map fst (sw_entries w))" unfolding E by (intro sorted_filtered sorted_lastn S)
  moreover have "\<forall>e \<in> set (sw_entries w). fst e \<le> t"
    unfolding E using t(2) by (fastforce simp: lastn_def dest: in_set_dropD)
  ultimately have sorted: "sorted (map fst (sw_entries w1))"
    unfolding w1(2) using in_tl by (fastforce simp: sorted_append map_tl sorted_tl)
  have "sw_entries (sample c x t w) = filter (live (bc_window c) t) (sw_entries w1)"
      "window_ok (sample c x t w)"
    using evict_ok[OF w1(1) sorted] by (simp_all add: sample_def w1_def)
  moreover have "filter (live (bc_window c) t) (sw_entries w1) = recent c (h @ [(t, x)])"
    unfolding w1(2) E
    using live_step[OF S t(1), of MAX_WINDOW_ENTRIES]
    by (simp add: recent_def samples_def S_def MAX_WINDOW_ENTRIES_def)
  ultimately show ?thesis by (simp add: holds_recent_def window_ok_def)
qed


subsection \<open>When the breaker trips\<close>

lemma shift_to_pow: "0 < a \<Longrightarrow> b \<le> a * 2 ^ shift_to a b \<and> (0 < shift_to a b \<longrightarrow> a * 2 ^ shift_to a b < 2 * b)"
proof (induction a b rule: shift_to.induct)
  case (1 a b)
  show ?case
  proof (cases "b \<le> a")
    case True
    then show ?thesis by (simp add: shift_to.simps[of a b])
  next
    case False
    with 1 have "b \<le> 2 * a * 2 ^ shift_to (2 * a) b
        \<and> (0 < shift_to (2 * a) b \<longrightarrow> 2 * a * 2 ^ shift_to (2 * a) b < 2 * b)" by simp
    then show ?thesis using False 1(2)
      by (cases "shift_to (2 * a) b") (simp_all add: shift_to.simps[of a b])
  qed
qed

text \<open>The rounded quotient reaches one half exactly when the quotient does, for counts up to the window's
  bound.\<close>

lemma round_ge: "0 < y \<Longrightarrow> k * y \<le> x \<Longrightarrow> k \<le> round_half_even x y"
proof -
  assume "0 < y" "k * y \<le> x"
  then have "k \<le> x div y" by (simp add: less_eq_div_iff_mult_less_eq)
  then show ?thesis by (simp add: round_half_even_def Let_def)
qed

lemma round_less: "0 < y \<Longrightarrow> 2 * x + y < 2 * k * y \<Longrightarrow> round_half_even x y < k"
proof -
  assume y: "0 < y" and k: "2 * x + y < 2 * k * y"
  define q where "q = x div y"
  define r where "r = x mod y"
  have x: "x = q * y + r" "r < y" using y by (simp_all add: q_def r_def)
  have "q < k"
  proof (rule ccontr)
    assume "\<not> q < k"
    then have "k * y \<le> q * y" by simp
    with k x(1) show False by linarith
  qed
  moreover have "\<not> (2 * r \<ge> y \<and> Suc q = k)"
  proof
    assume a: "2 * r \<ge> y \<and> Suc q = k"
    then have "k * y = q * y + y" by auto
    with k x(1) a show False by linarith
  qed
  ultimately show "round_half_even x y < k"
    unfolding round_half_even_def Let_def q_def[symmetric] r_def[symmetric] by auto
qed

lemma half_exact:
  assumes "a \<le> b" "0 < b" "b \<le> 10000"
  shows "1 / 2 \<le> f64_div a b \<longleftrightarrow> b \<le> 2 * a"
proof (cases "a = 0")
  case True
  then show ?thesis using assms by (simp add: f64_div_def shift_to.simps round_half_even_def)
next
  case False
  define s where "s = 52 + shift_to a b"
  have f: "f64_div a b = of_nat (round_half_even (a * 2 ^ s) b) / 2 ^ s" by (simp add: f64_div_def s_def Let_def)
  obtain u where u: "s = Suc u" "51 \<le> u" by (cases s) (auto simp: s_def)
  have p: "(2::nat) ^ s = 2 * 2 ^ u" using u by simp
  have half: "1 / 2 \<le> f64_div a b \<longleftrightarrow> 2 ^ u \<le> round_half_even (a * 2 ^ s) b"
  proof -
    have "1 / 2 \<le> f64_div a b \<longleftrightarrow> (2::rat) ^ u \<le> of_nat (round_half_even (a * 2 ^ s) b)"
      unfolding f u(1) by (simp add: field_simps)
    also have "\<dots> \<longleftrightarrow> 2 ^ u \<le> round_half_even (a * 2 ^ s) b"
      by (metis of_nat_le_iff of_nat_numeral of_nat_power)
    finally show ?thesis .
  qed
  show ?thesis
  proof
    assume "b \<le> 2 * a"
    then have "2 ^ u * b \<le> a * 2 ^ s" by (simp add: p)
    then show "1 / 2 \<le> f64_div a b" using half round_ge assms(2) by blast
  next
    assume r: "1 / 2 \<le> f64_div a b"
    show "b \<le> 2 * a"
    proof (rule ccontr)
      assume "\<not> b \<le> 2 * a"
      then have "2 * a + 1 \<le> b" by simp
      then have "(2 * a + 1) * 2 ^ s \<le> b * 2 ^ s" by (rule mult_le_mono1)
      then have "2 * (a * 2 ^ s) + 2 ^ s \<le> 2 * 2 ^ u * b" by (simp add: p algebra_simps)
      moreover have "b < 2 ^ s"
      proof -
        have "(10000::nat) < 2 ^ 52" by simp
        also have "(2::nat) ^ 52 \<le> 2 ^ s" by (rule power_increasing) (simp_all add: s_def)
        finally show ?thesis using assms(3) by simp
      qed
      ultimately have "2 * (a * 2 ^ s) + b < 2 * 2 ^ u * b" by linarith
      then have "round_half_even (a * 2 ^ s) b < 2 ^ u" using round_less assms(2) by blast
      then show False using r half by simp
    qed
  qed
qed

lemma record_all_snoc: "record_all c (h @ [(t, x)]) b = breaker_record c t x (record_all c h b)"
  by (simp add: record_all_def)

lemma record_keeps_open: "br_state b = Open \<Longrightarrow> br_state (breaker_record c t x b) = Open"
  by (simp add: breaker_record_def Let_def)

lemma record_never_half: "br_state b \<noteq> HalfOpen \<Longrightarrow> br_state (breaker_record c t x b) \<noteq> HalfOpen"
  by (cases "br_state b") (simp_all add: breaker_record_def Let_def trip_def)

lemma recent_length: "length (recent c h) \<le> MAX_WINDOW_ENTRIES"
  by (auto simp: recent_def lastn_length intro: le_trans[OF length_filter_le])

lemma failures_le: "failures_of es \<le> length es"
  by (simp add: failures_of_def)

text \<open>Recording on a breaker that starts closed with an empty window keeps the recent history.\<close>

lemma records_recent:
  assumes "bc_enabled c" "br_state b = Closed" "br_window b = window_new" "sorted (map fst h)"
  shows "holds_recent c h (br_window (record_all c h b)) \<and> br_state (record_all c h b) \<noteq> HalfOpen"
  using assms(4)
proof (induction h rule: rev_induct)
  case Nil
  then show ?case using assms by (simp add: record_all_def holds_recent_def recent_def window_new_def)
next
  case (snoc e h)
  obtain t x where e: "e = (t, x)" by (cases e)
  have "sorted (map fst h)" using snoc.prems by (simp add: sorted_append)
  then have IH: "holds_recent c h (br_window (record_all c h b))" "br_state (record_all c h b) \<noteq> HalfOpen"
    using snoc.IH by blast+
  have "br_window (breaker_record c t x (record_all c h b)) = sample c x t (br_window (record_all c h b))"
    using IH(2) assms(1)
    by (cases "br_state (record_all c h b)") (simp_all add: breaker_record_def Let_def trip_def)
  then show ?case
    using sample_recent[OF IH(1)] snoc.prems record_never_half[OF IH(2)] unfolding e record_all_snoc by simp
qed

text \<open>With the threshold one half of both presets, a breaker that is new or was just closed trips at an
  outcome exactly when, of the outcomes since then that lie within the window's time (and are among the
  last 10000), there are enough and at least half are failures: the incremental failure count and the
  rounding of the division change nothing.\<close>

theorem trips_at_half:
  assumes "bc_enabled c" "bc_threshold c = Some (1 / 2)" "0 < bc_min_samples c"
    and "br_state b = Closed" "br_window b = window_new" "sorted (map fst (h @ [(t, x)]))"
    and "br_state (record_all c h b) = Closed"
  shows "br_state (record_all c (h @ [(t, x)]) b) = Open \<longleftrightarrow>
    bc_min_samples c \<le> length (recent c (h @ [(t, x)]))
    \<and> length (recent c (h @ [(t, x)])) \<le> 2 * failures_of (recent c (h @ [(t, x)]))"
proof -
  define R where "R = recent c (h @ [(t, x)])"
  define w where "w = sample c x t (br_window (record_all c h b))"
  have "sorted (map fst h)" using assms(6) by (simp add: sorted_append)
  then have "holds_recent c h (br_window (record_all c h b))" using records_recent assms(1,4,5) by blast
  then have w: "sw_entries w = R" "sw_failures w = failures_of R"
    using sample_recent assms(6) unfolding w_def R_def holds_recent_def by blast+
  have "br_state (record_all c (h @ [(t, x)]) b) = Open \<longleftrightarrow> should_trip c w"
    using assms(1,7) by (simp add: record_all_snoc breaker_record_def w_def Let_def trip_def)
  also have "\<dots> \<longleftrightarrow> bc_min_samples c \<le> length R \<and> length R \<le> 2 * failures_of R"
  proof (cases "R = []")
    case True
    then show ?thesis using assms(3) by (simp add: should_trip_def sample_count_def w)
  next
    case False
    then have "1 / 2 \<le> f64_div (failures_of R) (length R) \<longleftrightarrow> length R \<le> 2 * failures_of R"
      using half_exact[OF failures_le] recent_length[of c "h @ [(t, x)]"]
      by (simp add: R_def[symmetric] MAX_WINDOW_ENTRIES_def)
    then show ?thesis
      using False assms(2) by (simp add: should_trip_def sample_count_def error_rate_def w)
  qed
  finally show ?thesis by (simp add: R_def)
qed


theorem trips_at_half_witness:
  "br_state (record_all (config_client\<lparr>bc_min_samples := 2\<rparr>) [(3, Success), (4, Failure)] (snd (with_clock config_client))) = Open
   \<and> failures_of (recent (config_client\<lparr>bc_min_samples := 2\<rparr>) [(3, Success), (4, Failure)]) = 1"
proof -
  let ?c = "config_client\<lparr>bc_min_samples := 2\<rparr>"
  let ?b = "snd (with_clock config_client)"
  have r: "recent ?c [(3, Success), (4, Failure)] = [(3, False), (4, True)]"
    by (simp add: recent_def lastn_def samples_def live_def config_client_def secs_def MAX_WINDOW_ENTRIES_def)
  have b: "br_state ?b = Closed" "br_window ?b = window_new" by (simp_all add: with_clock_def)
  have c: "bc_enabled ?c" "bc_threshold ?c = Some (1 / 2)" "0 < bc_min_samples ?c"
    by (simp_all add: config_client_def)
  have "br_state (record_all ?c [(3, Success)] ?b) = Closed"
    using b by (simp add: record_all_def breaker_record_def Let_def should_trip_def sample_count_def sample_def
        window_push_def window_evict_def window_new_def config_client_def secs_def MAX_WINDOW_ENTRIES_def)
  from trips_at_half[OF c b _ this, of 4 Failure] show ?thesis
    by (simp add: r)
qed

subsection \<open>Invariant\<close>

definition breaker_inv :: "breaker_config \<Rightarrow> nat \<Rightarrow> breaker \<Rightarrow> bool" where
  "breaker_inv c now b \<longleftrightarrow>
     br_open_fast b = (br_state b = Open)
     \<and> br_probes b \<le> bc_max_probes c \<and> (br_probes b = 0 \<longleftrightarrow> br_state b \<noteq> HalfOpen)
     \<and> br_opened_at b \<le> millis now \<and> br_claimed_at b \<le> millis now
     \<and> window_ok (br_window b) \<and> sample_count (br_window b) \<le> MAX_WINDOW_ENTRIES
     \<and> sorted (map fst (sw_entries (br_window b))) \<and> (\<forall>e \<in> set (sw_entries (br_window b)). fst e \<le> now)"

text \<open>The states of a breaker under calls that follow one another while its clock advances.\<close>

inductive breaker_runs :: "breaker_config \<Rightarrow> nat \<Rightarrow> breaker \<Rightarrow> bool" for raw :: breaker_config where
  built: "breaker_runs raw 0 (snd (with_clock raw))"
| time: "breaker_runs raw now b \<Longrightarrow> now \<le> later \<Longrightarrow> breaker_runs raw later b"
| checked: "breaker_runs raw now b \<Longrightarrow> breaker_runs raw now (fst (breaker_check (fst (with_clock raw)) now b))"
| recorded: "breaker_runs raw now b \<Longrightarrow> breaker_runs raw now (breaker_record (fst (with_clock raw)) now x b)"
| rate_read: "breaker_runs raw now b \<Longrightarrow> breaker_runs raw now (fst (breaker_error_rate (fst (with_clock raw)) now b))"

definition window_inv :: "nat \<Rightarrow> sliding_window \<Rightarrow> bool" where
  "window_inv now w \<longleftrightarrow>
     window_ok w \<and> sample_count w \<le> MAX_WINDOW_ENTRIES \<and> sorted (map fst (sw_entries w))
     \<and> (\<forall>e \<in> set (sw_entries w). fst e \<le> now)"

lemma breaker_inv_split:
  "breaker_inv c now b \<longleftrightarrow>
     br_open_fast b = (br_state b = Open)
     \<and> br_probes b \<le> bc_max_probes c \<and> (br_probes b = 0 \<longleftrightarrow> br_state b \<noteq> HalfOpen)
     \<and> br_opened_at b \<le> millis now \<and> br_claimed_at b \<le> millis now \<and> window_inv now (br_window b)"
  by (auto simp: breaker_inv_def window_inv_def)

lemma window_inv_new: "window_inv now window_new"
  by (simp add: window_inv_def window_new_def window_ok_def sample_count_def)

lemma window_inv_evict: "window_inv now w \<Longrightarrow> window_inv now (window_evict window now w)"
  using evict_ok[of w window now]
  by (auto simp: window_inv_def sample_count_def sorted_filtered intro: le_trans[OF length_filter_le])

lemma window_inv_push: "window_inv now w \<Longrightarrow> window_inv now (window_push f now w)"
proof -
  assume w: "window_inv now w"
  then have "window_ok w" by (simp add: window_inv_def)
  from push_ok[OF this, of f now] w show ?thesis
    using in_tl by (fastforce simp: window_inv_def sample_count_def sorted_append map_tl sorted_tl
        MAX_WINDOW_ENTRIES_def)
qed

lemma window_inv_sample: "window_inv now w \<Longrightarrow> window_inv now (sample c x now w)"
  by (simp add: sample_def window_inv_push window_inv_evict)

lemma probe_inv:
  assumes "1 \<le> bc_max_probes c" "window_inv now (br_window b)" "br_state b = HalfOpen" "\<not> br_open_fast b"
    "br_probes b \<le> bc_max_probes c" "br_opened_at b \<le> millis now" "br_claimed_at b \<le> millis now"
  shows "breaker_inv c now (fst (try_half_open_probe c now b))"
proof (cases "br_probes b < bc_max_probes c")
  case True
  then have "br_probes b + 1 \<le> bc_max_probes c" "br_probes b + 1 \<noteq> 0"
    by (simp add: inc_le) (metis True eq_neg_iff_add_eq_0 not_le word_n1_ge)
  then show ?thesis using assms True by (simp add: breaker_inv_split try_half_open_probe_def)
next
  case False
  then have "br_probes b \<noteq> 0" using assms(1) by (metis not_less word_le_0_iff zero_neq_one)
  then show ?thesis using assms False by (simp add: breaker_inv_split try_half_open_probe_def)
qed

lemma check_inv:
  assumes "1 \<le> bc_max_probes c" "breaker_inv c now b"
  shows "breaker_inv c now (fst (breaker_check c now b))"
proof (cases "br_state b")
  case HalfOpen
  then show ?thesis using assms probe_inv[of c now b]
    by (simp add: breaker_check_def breaker_inv_split)
next
  case Open
  then show ?thesis
    using assms probe_inv[of c now "b\<lparr>br_state := HalfOpen, br_open_fast := False\<rparr>"]
    by (simp add: breaker_check_def check_open_def breaker_inv_split)
qed (use assms in \<open>simp add: breaker_check_def\<close>)

lemma record_inv: "breaker_inv c now b \<Longrightarrow> breaker_inv c now (breaker_record c now x b)"
  by (cases "br_state b") (simp_all add: breaker_record_def breaker_inv_split Let_def trip_def
      close_breaker_def window_inv_sample window_inv_new)

text \<open>Under any sequence of calls the breaker keeps its books: the lock-free mirror says open exactly when
  the state does, no more probe slots are taken than configured and some only while half open, the
  incremental failure count is the number of failed samples, and the window never exceeds its bound.\<close>

theorem breaker_invariant: "breaker_runs raw now b \<Longrightarrow> breaker_inv (fst (with_clock raw)) now b"
proof (induction rule: breaker_runs.induct)
  case built
  then show ?case
    by (simp add: with_clock_def breaker_inv_split window_inv_new millis_def)
next
  case (time now b later)
  then have "millis now \<le> millis later" by (simp add: millis_def div_le_mono)
  with time show ?case by (fastforce simp: breaker_inv_split window_inv_def)
next
  case (checked now b)
  then show ?case using check_inv by (simp add: with_clock_def)
next
  case (recorded now b x)
  then show ?case using record_inv by blast
next
  case (rate_read now b)
  then show ?case by (simp add: breaker_error_rate_def breaker_inv_split Let_def window_inv_evict)
qed

theorem breaker_invariant_witness:
  "breaker_inv (fst (with_clock config_server)) 5
     (breaker_record (fst (with_clock config_server)) 5 Failure (snd (with_clock config_server)))"
proof -
  have "breaker_runs config_server 5 (snd (with_clock config_server))"
    by (rule breaker_runs.time[OF breaker_runs.built]) simp
  then have "breaker_runs config_server 5
      (breaker_record (fst (with_clock config_server)) 5 Failure (snd (with_clock config_server)))"
    by (rule breaker_runs.recorded)
  then show ?thesis by (rule breaker_invariant)
qed

subsection \<open>Recovery\<close>

text \<open>C20: the breaker heals from every shared state, also one that racing calls have left behind (a stale mirror,
  a wrapped probe counter, an abandoned probe): once a cool-down has passed since it was opened and since
  the last probe was claimed, a check that runs undisturbed is admitted, and a success recorded for it
  closes the breaker with an empty window, no probes and the mirror off.\<close>

theorem breaker_heals:
  assumes "bc_enabled c" "br_state b \<noteq> Closed"
    and "from_millis (max (br_opened_at b) (br_claimed_at b)) + bc_open c \<le> from_millis (millis now)"
  shows "check_ok (snd (breaker_check c now b))
    \<and> breaker_record c later Success (fst (breaker_check c now b)) =
        (fst (breaker_check c now b))\<lparr>br_state := Closed, br_window := window_new, br_probes := 0,
           br_open_fast := False\<rparr>"
proof -
  have m: "from_millis a + bc_open c \<le> from_millis n \<Longrightarrow> bc_open c \<le> from_millis (n - a)" for a n
    by (simp add: from_millis_def diff_mult_distrib)
  have "from_millis (br_opened_at b) + bc_open c \<le> from_millis (millis now)"
      "from_millis (br_claimed_at b) + bc_open c \<le> from_millis (millis now)"
    using assms(3) by (auto simp: from_millis_def max_def split: if_splits)
  then have o: "bc_open c \<le> from_millis (millis now - br_opened_at b)"
    and cl: "bc_open c \<le> from_millis (millis now - br_claimed_at b)" using m by blast+
  from cl have "millis (bc_open c) \<le> millis (from_millis (millis now - br_claimed_at b))"
    unfolding millis_def by (rule div_le_mono)
  then have lease: "millis (bc_open c) \<le> millis now - br_claimed_at b"
    by (simp add: millis_def from_millis_def)
  have "br_state b = Open \<or> br_state b = HalfOpen" using assms(2) by (cases "br_state b") auto
  then show ?thesis
    using assms(1) o lease
    by (auto simp: breaker_check_def check_open_def try_half_open_probe_def breaker_record_def
        close_breaker_def check_ok_def Let_def)
qed

theorem breaker_heals_witness:
  "check_ok (snd (breaker_check config_server (secs 30)
     \<lparr>br_state = HalfOpen, br_opened_at = 7, br_probes = - 1, br_claimed_at = 9, br_open_fast = True,
      br_window = window_new\<rparr>))"
  using breaker_heals[of config_server
      "\<lparr>br_state = HalfOpen, br_opened_at = 7, br_probes = - 1, br_claimed_at = 9, br_open_fast = True,
      br_window = window_new\<rparr>" "secs 30"]
  by (simp add: config_server_def secs_def from_millis_def millis_def)

text \<open>The retry time a rejected caller is told is right: it is positive and no longer than a cool-down, a
  check a millisecond or more before it is rejected too (as long as nothing else happens), and a check
  that waits for it is admitted.\<close>

theorem retry_after_is_right:
  assumes "br_state b = Open" "br_opened_at b \<le> millis now" "br_probes b = 0" "bc_max_probes c \<noteq> 0"
    and "bc_open c = from_millis n" "snd (breaker_check c now b) = Shed r"
  shows "0 < r \<and> r \<le> bc_open c \<and> check_ok (snd (breaker_check c (now + r) b))
    \<and> (d + from_millis 1 \<le> r \<longrightarrow> \<not> check_ok (snd (breaker_check c (now + d) b)))"
proof -
  have enabled: "bc_enabled c" using assms(6) by (auto simp: breaker_check_def split: if_splits)
  define m where "m = millis now - br_opened_at b"
  have probe: "check_ok (snd (try_half_open_probe c t (b\<lparr>br_state := HalfOpen, br_open_fast := False\<rparr>)))" for t
    using assms(3,4) by (simp add: try_half_open_probe_def check_ok_def word_neq_0_conv)
  have at_time: "check_ok (snd (breaker_check c t b)) \<longleftrightarrow> n \<le> millis t - br_opened_at b" for t
    using assms(1,5) enabled probe by (auto simp: breaker_check_def check_open_def still_open_def from_millis_def
        check_ok_def)
  have "\<not> check_ok (snd (breaker_check c now b))" using assms(6) by (simp add: check_ok_def)
  then have "m < n" using at_time m_def by simp
  then have "\<not> bc_open c \<le> from_millis (millis now - br_opened_at b)"
    by (simp add: assms(5) from_millis_def m_def)
  then have "snd (breaker_check c now b) = Shed (bc_open c - from_millis m)"
    using assms(1) enabled by (simp add: breaker_check_def check_open_def still_open_def m_def)
  then have r: "r = from_millis (n - m)"
    using assms(5,6) by (simp add: from_millis_def diff_mult_distrib)
  have "millis (now + r) = millis now + (n - m)" by (simp add: r from_millis_def millis_def)
  then have now: "check_ok (snd (breaker_check c (now + r) b))" using at_time assms(2) \<open>m < n\<close> by (simp add: m_def)
  have "\<not> check_ok (snd (breaker_check c (now + d) b))" if d: "d + from_millis 1 \<le> r"
  proof -
    have "now + d + 1000000 \<le> now + r" using d by (simp add: from_millis_def)
    then have "millis (now + d) + 1 \<le> millis (now + r)"
      unfolding millis_def using div_le_mono[of "now + d + 1000000" "now + r" 1000000] by simp
    then have "millis (now + d) < millis now + (n - m)" using \<open>millis (now + r) = millis now + (n - m)\<close> by simp
    then show ?thesis using at_time \<open>m < n\<close> assms(2) by (simp add: m_def)
  qed
  then show ?thesis using now r \<open>m < n\<close> assms(5) by (simp add: from_millis_def)
qed

theorem retry_after_is_right_witness:
  "check_ok (snd (breaker_check config_server (secs 1 + secs 9)
     (trip (secs 0) (snd (with_clock config_server)))))"
proof -
  let ?b = "trip (secs 0) (snd (with_clock config_server))"
  have "snd (breaker_check config_server (secs 1) ?b) = Shed (secs 9)"
    by (simp add: breaker_check_def check_open_def still_open_def trip_def config_server_def with_clock_def
        secs_def from_millis_def millis_def)
  moreover have "br_state ?b = Open" "br_opened_at ?b \<le> millis (secs 1)" "br_probes ?b = 0"
      "bc_max_probes config_server \<noteq> 0" "bc_open config_server = from_millis 10000"
    by (simp_all add: trip_def millis_def secs_def config_server_def from_millis_def)
  ultimately show ?thesis using retry_after_is_right by blast
qed

section \<open>Breaker races\<close>

subsection \<open>No call waits\<close>

lemma micro_progress: "\<not> finished p \<Longrightarrow> steps_left (fst (micro c now p b)) < steps_left p"
  by (cases p) (auto simp: finished_def Let_def split: breaker_state.split)

definition own_steps :: "breaker_config \<Rightarrow> pc \<Rightarrow> (nat \<times> breaker) list \<Rightarrow> pc" where
  "own_steps c p ops = foldl (\<lambda>p (now, b). fst (micro c now p b)) p ops"

lemma finished_micro: "finished p \<Longrightarrow> fst (micro c now p b) = p"
  by (cases p) (auto simp: finished_def)

lemma finished_own: "finished p \<Longrightarrow> finished (own_steps c p ops)"
  by (induction ops arbitrary: p) (auto simp: own_steps_def finished_micro)

lemma own_steps_finish: "steps_left p \<le> length ops \<Longrightarrow> finished (own_steps c p ops)"
proof (induction ops arbitrary: p)
  case Nil
  then have "steps_left p = 0" by simp
  then have "finished p" using micro_progress by fastforce
  then show ?case by (simp add: own_steps_def)
next
  case (Cons op ops)
  obtain now b where op: "op = (now, b)" by (cases op)
  show ?case
  proof (cases "finished p")
    case True
    then show ?thesis by (rule finished_own)
  next
    case False
    then have "steps_left (fst (micro c now p b)) \<le> length ops"
      using micro_progress[of p c now b] Cons.prems by simp
    from Cons.IH[OF this] show ?thesis by (simp add: own_steps_def op)
  qed
qed

text \<open>The operations of a check.\<close>

fun is_checking :: "pc \<Rightarrow> bool" where
  "is_checking (RecordNow _) \<longleftrightarrow> False"
| "is_checking (RecordLoad _ _) \<longleftrightarrow> False"
| "is_checking (RecordClosed _ _) \<longleftrightarrow> False"
| "is_checking (RecordOpen _ _) \<longleftrightarrow> False"
| "is_checking TripState \<longleftrightarrow> False"
| "is_checking TripNow \<longleftrightarrow> False"
| "is_checking (TripOpened _) \<longleftrightarrow> False"
| "is_checking TripProbes \<longleftrightarrow> False"
| "is_checking TripFast \<longleftrightarrow> False"
| "is_checking CloseState \<longleftrightarrow> False"
| "is_checking CloseWindow \<longleftrightarrow> False"
| "is_checking CloseProbes \<longleftrightarrow> False"
| "is_checking CloseFast \<longleftrightarrow> False"
| "is_checking Recorded \<longleftrightarrow> False"
| "is_checking _ \<longleftrightarrow> True"

lemma is_checking_micro: "is_checking (fst (micro c now p b)) = is_checking p"
  by (cases p) (auto simp: Let_def split: breaker_state.split)

lemma is_checking_own: "is_checking (own_steps c p ops) = is_checking p"
proof (induction ops arbitrary: p)
  case (Cons op ops)
  obtain now b where "op = (now, b)" by (cases op)
  then show ?case using Cons.IH[of "fst (micro c now p b)"] is_checking_micro by (simp add: own_steps_def)
qed (simp add: own_steps_def)

lemma finished_cases: "finished p \<Longrightarrow> (is_checking p \<and> (\<exists>r. p = Checked r)) \<or> (\<not> is_checking p \<and> p = Recorded)"
  by (cases p) (auto simp: finished_def)

text \<open>A call of the breaker never waits for another: within 14 atomic operations of its own a check has its
  answer, and within 9 an outcome is recorded, whatever state the other calls leave the breaker in between
  any two of them.\<close>

theorem calls_are_wait_free:
  "(14 \<le> length ops \<longrightarrow> (\<exists>r. own_steps c (check c) ops = Checked r))
   \<and> (9 \<le> length ops \<longrightarrow> own_steps c (record_call c x) ops = Recorded)"
proof (intro conjI impI)
  assume "14 \<le> length ops"
  then have "steps_left (check c) \<le> length ops" by (simp add: check_def)
  from finished_cases[OF own_steps_finish[OF this]] show "\<exists>r. own_steps c (check c) ops = Checked r"
    by (auto simp: is_checking_own check_def split: if_splits)
next
  assume "9 \<le> length ops"
  then have "steps_left (record_call c x) \<le> length ops" by (simp add: record_call_def)
  from finished_cases[OF own_steps_finish[OF this]] show "own_steps c (record_call c x) ops = Recorded"
    by (auto simp: is_checking_own record_call_def split: if_splits)
qed

theorem calls_are_wait_free_witness:
  "\<exists>r. own_steps config_server (check config_server) (replicate 14 (0, snd (with_clock config_server))) = Checked r"
  using calls_are_wait_free[of "replicate 14 (0, snd (with_clock config_server))" config_server Success] by simp

subsection \<open>Concurrent checks\<close>

text \<open>Any number of checks, each at any of its operations, after the breaker opened or was left half open with
  no probe taken, and with every clock reading within one cool-down of \<open>lo\<close> (in milliseconds).\<close>

inductive check_race :: "breaker_config \<Rightarrow> nat \<Rightarrow> breaker \<Rightarrow> pc list \<Rightarrow> bool" for c lo where
  start: "br_state b \<noteq> Closed \<Longrightarrow> br_probes b = 0 \<Longrightarrow> check_race c lo b []"
| call: "check_race c lo b ts \<Longrightarrow> length ts < 2 ^ 64 - 1 \<Longrightarrow> check_race c lo b (ts @ [check c])"
| step: "check_race c lo b ts \<Longrightarrow> i < length ts \<Longrightarrow> lo \<le> millis now \<Longrightarrow>
     millis now < lo + millis (bc_open c) \<Longrightarrow> micro c now (ts ! i) b = (p, b') \<Longrightarrow>
     check_race c lo b' (ts[i := p])"

definition cnt :: "(pc \<Rightarrow> bool) \<Rightarrow> pc list \<Rightarrow> nat" where
  "cnt f ts = length (filter f ts)"

lemma cnt_snoc [simp]: "cnt f (ts @ [p]) = cnt f ts + (if f p then 1 else 0)"
  by (simp add: cnt_def)

lemma cnt_update:
  "i < length ts \<Longrightarrow> cnt f (ts[i := p]) + (if f (ts ! i) then 1 else 0) = cnt f ts + (if f p then 1 else 0)"
proof (induction ts arbitrary: i)
  case (Cons q ts)
  then show ?case by (cases i) (auto simp: cnt_def split: if_splits)
qed simp

lemma cnt_pos: "i < length ts \<Longrightarrow> f (ts ! i) \<Longrightarrow> 0 < cnt f ts"
  by (auto simp: cnt_def filter_empty_conv)

lemma cnt_less: "i < length ts \<Longrightarrow> \<not> f (ts ! i) \<Longrightarrow> cnt f ts < length ts"
  unfolding cnt_def by (rule length_filter_less) auto

lemma cnt_disj: "(\<And>p. \<not> (f p \<and> g p)) \<Longrightarrow> cnt (\<lambda>p. f p \<or> g p) ts = cnt f ts + cnt g ts"
  by (induction ts) (auto simp: cnt_def)

definition has_slot :: "pc \<Rightarrow> bool" where
  "has_slot p \<longleftrightarrow> (case p of ProbeStore _ \<Rightarrow> True | Checked ProbeSlot \<Rightarrow> True | _ \<Rightarrow> False)"

definition overdrawn :: "pc \<Rightarrow> bool" where
  "overdrawn p \<longleftrightarrow> (case p of ProbeSub _ \<Rightarrow> True | _ \<Rightarrow> False)"

definition took_over :: "pc \<Rightarrow> bool" where
  "took_over p \<longleftrightarrow> p = Checked TookOver"

definition admitted :: "pc \<Rightarrow> bool" where
  "admitted p \<longleftrightarrow> (\<exists>r. p = Checked r \<and> check_ok r)"

text \<open>The times a call carries, and what it has seen of an old claim.\<close>

definition timely :: "breaker_config \<Rightarrow> nat \<Rightarrow> pc \<Rightarrow> bool" where
  "timely c lo p \<longleftrightarrow>
     (case p of
        ProbeAdd t \<Rightarrow> lo \<le> t \<and> t < lo + millis (bc_open c)
      | ProbeStore t \<Rightarrow> lo \<le> t
      | ProbeSub t \<Rightarrow> lo \<le> t \<and> t < lo + millis (bc_open c)
      | ProbeLoad t \<Rightarrow> lo \<le> t \<and> t < lo + millis (bc_open c)
      | ProbeCas t claimed \<Rightarrow> lo \<le> t \<and> claimed < lo
      | _ \<Rightarrow> is_checking p \<and> p \<noteq> Checked Passed)"

definition race_inv :: "breaker_config \<Rightarrow> nat \<Rightarrow> breaker \<Rightarrow> pc list \<Rightarrow> bool" where
  "race_inv c lo b ts \<longleftrightarrow>
     br_state b \<noteq> Closed \<and> length ts < 2 ^ 64
     \<and> unat (br_probes b) = cnt has_slot ts + cnt overdrawn ts
     \<and> cnt has_slot ts \<le> unat (bc_max_probes c)
     \<and> cnt took_over ts \<le> 1 \<and> (0 < cnt took_over ts \<longrightarrow> lo \<le> br_claimed_at b)
     \<and> list_all (timely c lo) ts"

lemmas race_preds = has_slot_def overdrawn_def took_over_def timely_def

lemma race_step:
  assumes inv: "race_inv c lo b ts" and i: "i < length ts"
    and now: "lo \<le> millis now" "millis now < lo + millis (bc_open c)"
    and step: "micro c now (ts ! i) b = (p, b')"
  shows "race_inv c lo b' (ts[i := p])"
proof -
  have ti: "timely c lo (ts ! i)" using inv i by (simp add: race_inv_def list_all_length)
  note counts = cnt_update[OF i, of has_slot p] cnt_update[OF i, of overdrawn p] cnt_update[OF i, of took_over p]
  have rest: "timely c lo p \<Longrightarrow> list_all (timely c lo) (ts[i := p])"
    using inv i by (auto simp: race_inv_def list_all_length nth_list_update)
  show ?thesis
  proof (cases "ts ! i")
    case (ProbeAdd t)
    have "\<not> (has_slot (ts ! i) \<or> overdrawn (ts ! i))" using ProbeAdd by (simp add: race_preds)
    from cnt_less[OF i, of "\<lambda>p. has_slot p \<or> overdrawn p", OF this]
    have "cnt has_slot ts + cnt overdrawn ts < length ts"
      by (subst cnt_disj[symmetric]) (auto simp: race_preds split: pc.splits)
    then have "unat (br_probes b) + 1 < 2 ^ 64" using inv by (simp add: race_inv_def)
    then have u: "unat (br_probes b + 1) = unat (br_probes b) + 1"
      by (simp add: unat_word_ariths(1))
    show ?thesis
    proof (cases "br_probes b < bc_max_probes c")
      case True
      then have p: "p = ProbeStore t" "b' = b\<lparr>br_probes := br_probes b + 1\<rparr>" using step ProbeAdd by auto
      have "unat (br_probes b) < unat (bc_max_probes c)" using True by (simp add: word_less_nat_alt)
      then show ?thesis using inv counts u ti rest ProbeAdd p by (simp add: race_inv_def race_preds)
    next
      case False
      then have p: "p = ProbeSub t" "b' = b\<lparr>br_probes := br_probes b + 1\<rparr>" using step ProbeAdd by auto
      then show ?thesis using inv counts u ti rest ProbeAdd p by (simp add: race_inv_def race_preds)
    qed
  next
    case (ProbeSub t)
    have "0 < cnt overdrawn ts" using cnt_pos[OF i, of overdrawn] ProbeSub by (simp add: race_preds)
    then have "br_probes b \<noteq> 0" using inv by (auto simp: race_inv_def)
    then have u: "unat (br_probes b - 1) = unat (br_probes b) - 1" by (rule unat_minus_one)
    have p: "p = ProbeLoad t" "b' = b\<lparr>br_probes := br_probes b - 1\<rparr>" using step ProbeSub by auto
    then show ?thesis using inv counts u ti rest ProbeSub p \<open>0 < cnt overdrawn ts\<close>
      by (simp add: race_inv_def race_preds)
  next
    case (ProbeCas t claimed)
    show ?thesis
    proof (cases "br_claimed_at b = claimed")
      case True
      then have p: "p = Checked TookOver" "b' = b\<lparr>br_claimed_at := t\<rparr>" using step ProbeCas by auto
      have "\<not> lo \<le> br_claimed_at b" using True ti ProbeCas by (simp add: race_preds)
      then have "cnt took_over ts = 0" using inv by (auto simp: race_inv_def)
      then show ?thesis using inv counts ti rest ProbeCas p by (simp add: race_inv_def race_preds)
    next
      case False
      then show ?thesis using inv counts ti rest ProbeCas step
        by (auto simp: race_inv_def race_preds no_slot_def)
    qed
  next
    case (ProbeLoad t)
    then show ?thesis using inv counts ti rest step now
      by (auto simp: race_inv_def race_preds no_slot_def split: if_splits)
  next
    case (Checked r)
    then have "p = ts ! i" "b' = b" using step by auto
    then show ?thesis using inv by simp
  qed (use inv counts ti rest step now in \<open>auto simp: race_inv_def race_preds still_open_def
      split: breaker_state.splits if_splits\<close>)
qed

text \<open>C19: however many checks run at the same time, in whatever order their atomic operations fall, within one
  cool-down an open or half-open breaker lets at most one request more through than it has probe slots.\<close>

theorem probe_admission_bounded:
  assumes "check_race c lo b ts" "bc_enabled c"
  shows "length (filter admitted ts) \<le> unat (bc_max_probes c) + 1"
proof -
  have inv: "race_inv c lo b ts" using assms(1)
  proof (induction rule: check_race.induct)
    case (start b)
    then show ?case by (simp add: race_inv_def cnt_def)
  next
    case (call b ts)
    then show ?case using assms(2) by (simp add: race_inv_def race_preds check_def)
  next
    case (step b ts i now p b')
    then show ?case using race_step by blast
  qed
  have "admitted p \<Longrightarrow> timely c lo p \<Longrightarrow> has_slot p \<or> took_over p" for p
  proof -
    assume "admitted p" and t: "timely c lo p"
    then obtain r where r: "p = Checked r" "check_ok r" by (auto simp: admitted_def)
    then show "has_slot p \<or> took_over p" using t by (cases r) (simp_all add: race_preds check_ok_def)
  qed
  then have "\<forall>p \<in> set ts. admitted p \<longrightarrow> has_slot p \<or> took_over p"
    using inv by (simp add: race_inv_def list_all_iff)
  then have "length (filter admitted ts) \<le> cnt (\<lambda>p. has_slot p \<or> took_over p) ts"
    unfolding cnt_def by (induction ts) auto
  also have "\<dots> = cnt has_slot ts + cnt took_over ts"
    by (rule cnt_disj) (auto simp: took_over_def has_slot_def)
  finally show ?thesis using inv by (simp add: race_inv_def)
qed


subsection \<open>Schedules\<close>

text \<open>A schedule names, operation by operation, the call that moves and the time on the clock.\<close>

fun run_schedule :: "breaker_config \<Rightarrow> (nat \<times> nat) list \<Rightarrow> breaker \<times> pc list \<Rightarrow> breaker \<times> pc list" where
  "run_schedule c [] s = s"
| "run_schedule c ((i, now) # sched) (b, ts) =
     (case micro c now (ts ! i) b of (p, b') \<Rightarrow> run_schedule c sched (b', ts[i := p]))"

lemma race_schedule:
  "check_race c lo b ts \<Longrightarrow>
   \<forall>(i, now) \<in> set sched. i < length ts \<and> lo \<le> millis now \<and> millis now < lo + millis (bc_open c) \<Longrightarrow>
   check_race c lo (fst (run_schedule c sched (b, ts))) (snd (run_schedule c sched (b, ts)))"
proof (induction sched arbitrary: b ts)
  case (Cons e sched)
  obtain i now where e: "e = (i, now)" by (cases e)
  obtain p b' where m: "micro c now (ts ! i) b = (p, b')" by (cases "micro c now (ts ! i) b")
  have "check_race c lo b' (ts[i := p])"
    using check_race.step[OF Cons.prems(1) _ _ _ m] Cons.prems(2) e by simp
  then show ?case using Cons.IH[of b' "ts[i := p]"] Cons.prems(2) by (simp add: e m)
qed simp

definition opened_breaker :: breaker where
  "opened_breaker = trip 0 (snd (with_clock config_server))"

text \<open>Two checks as the cool-down ends: the first takes the only probe slot but has not stored the time of its
  claim yet, so the second finds the old time, takes the probe for abandoned and is let through too.\<close>

definition late_claim :: "(nat \<times> nat) list" where
  "late_claim = map (\<lambda>i. (i, secs 10)) ([0, 0, 0, 0, 0, 0, 0, 1, 1, 1, 1, 1, 1, 0])"

lemma late_claim_admits_two:
  "snd (run_schedule config_server late_claim (opened_breaker, [check config_server, check config_server])) =
     [Checked ProbeSlot, Checked TookOver]"
  by (simp add: late_claim_def opened_breaker_def trip_def with_clock_def config_server_def secs_def check_def
      millis_def from_millis_def)

theorem probe_admission_bounded_witness:
  "length (filter admitted [Checked ProbeSlot, Checked TookOver]) \<le> unat (bc_max_probes config_server) + 1"
proof -
  have "check_race config_server (millis (secs 10)) opened_breaker []"
    by (rule check_race.start) (simp_all add: opened_breaker_def trip_def)
  from check_race.call[OF check_race.call[OF this]]
  have "check_race config_server (millis (secs 10)) opened_breaker [check config_server, check config_server]"
    by simp
  from race_schedule[OF this, of late_claim]
  have "\<exists>b. check_race config_server (millis (secs 10)) b [Checked ProbeSlot, Checked TookOver]"
    unfolding late_claim_admits_two
    by (auto simp: late_claim_def config_server_def secs_def millis_def)
  moreover have "bc_enabled config_server" by (simp add: config_server_def)
  ultimately show ?thesis using probe_admission_bounded by blast
qed

definition probing_breaker :: breaker where
  "probing_breaker = fst (breaker_check config_server (secs 10) opened_breaker)"

text \<open>A failed probe publishes \<open>Open\<close> before the time of opening: a check in between measures the cool-down from the
  first opening, is let through at once, and the rest of the trip leaves the mirror saying open while
  the state is half open.\<close>

definition early_open :: "(nat \<times> nat) list" where
  "early_open = map (\<lambda>i. (i, secs 20)) ([0, 0, 0, 1, 1, 1, 1, 1, 1, 1, 1, 1, 1, 1, 0, 0, 0, 0])"

lemma cooldown_is_skipped:
  "case run_schedule config_server early_open
      (probing_breaker, [record_call config_server Failure, check config_server]) of (b, ts) \<Rightarrow>
     ts = [Recorded, Checked TookOver] \<and> br_state b = HalfOpen \<and> br_open_fast b"
  by (simp add: early_open_def probing_breaker_def breaker_check_def check_open_def try_half_open_probe_def
      opened_breaker_def trip_def with_clock_def config_server_def secs_def check_def record_call_def
      millis_def from_millis_def)

text \<open>A check that has overdrawn the probe counter gives the slot back after a success has reset it: the
  counter wraps below zero, in the closed state.\<close>

definition late_return :: "(nat \<times> nat) list" where
  "late_return = map (\<lambda>i. (i, secs 11)) ([1, 1, 1, 0, 0, 0, 0, 0, 0, 1, 1])"

lemma probe_counter_wraps:
  "case run_schedule config_server late_return
      (probing_breaker, [record_call config_server Success, check config_server]) of (b, ts) \<Rightarrow>
     list_all finished ts \<and> br_state b = Closed \<and> br_probes b = (- 1)"
  by (simp add: late_return_def probing_breaker_def breaker_check_def check_open_def try_half_open_probe_def
      opened_breaker_def trip_def with_clock_def config_server_def secs_def check_def record_call_def
      millis_def from_millis_def finished_def)

end
