(* ===== verification/Delivery.thy ===== *)
theory Delivery
  imports Auto_Route "HOL-Library.Multiset" "HOL-Library.Sublist" "HOL-Library.Word"
begin

text \<open>
  Messages to a running agent: who may be addressed and how
  (\<open>src/crates/common/xai-message-delivery-core\<close>), the ownership of a message from its admission to the end
  of its turn, the queue of events and interjections that a turn drains
  (\<open>src/crates/common/xai-interjection-core\<close>), and the merging of queued prompts
  (\<open>src/crates/codegen/xai-prompt-queue\<close>).
\<close>

subsection \<open>Identities and addresses\<close>

text \<open>\<open>{:x}\<close> of a \<open>u128\<close>.\<close>

definition hex_digit :: "nat \<Rightarrow> char" where
  "hex_digit d = char_of (if d < 10 then 48 + d else 87 + d)"

fun hex_text :: "nat \<Rightarrow> string" where
  "hex_text n = (if n < 16 then [hex_digit n] else hex_text (n div 16) @ [hex_digit (n mod 16)])"

declare hex_text.simps [simp del]

definition is_lower_hex :: "char \<Rightarrow> bool" where
  "is_lower_hex c \<longleftrightarrow> 48 \<le> byte c \<and> byte c \<le> 57 \<or> 97 \<le> byte c \<and> byte c \<le> 102"

definition ADDRESS_PREFIX :: string where "ADDRESS_PREFIX = ''aa1.''"
definition AGENT_PREFIX :: string where "AGENT_PREFIX = ''ag1.''"
definition ATTEMPT_PREFIX :: string where "ATTEMPT_PREFIX = ''at1.''"

definition UUID_HYPHENS :: "nat list" where "UUID_HYPHENS = [8, 13, 18, 23]"

definition is_uuid_v7 :: "string \<Rightarrow> bool" where
  "is_uuid_v7 token \<longleftrightarrow>
     length token = 36
     \<and> list_all (\<lambda>i. if i \<in> set UUID_HYPHENS then token ! i = CHR ''-'' else is_lower_hex (token ! i)) [0..<36]
     \<and> token ! 14 = CHR ''7'' \<and> token ! 19 \<in> {CHR ''8'', CHR ''9'', CHR ''a'', CHR ''b''}"

definition parse_prefixed :: "string \<Rightarrow> string \<Rightarrow> string option" where
  "parse_prefixed token pfx =
     (case strip_prefix (trim token) pfx of
        None \<Rightarrow> None
      | Some rest \<Rightarrow> if rest = [] \<or> \<not> list_all is_lower_hex rest then None else Some (trim token))"

datatype agent_id = AgentId string
datatype attempt_id = AttemptId string
datatype agent_address = AgentAddress string

definition agent_mint :: "nat \<Rightarrow> agent_id" where "agent_mint entropy = AgentId (AGENT_PREFIX @ hex_text entropy)"

definition agent_parse :: "string \<Rightarrow> agent_id option" where
  "agent_parse token =
     (if is_uuid_v7 (trim token) then Some (AgentId (trim token))
      else map_option AgentId (parse_prefixed (trim token) AGENT_PREFIX))"

definition attempt_mint :: "nat \<Rightarrow> attempt_id" where
  "attempt_mint entropy = AttemptId (ATTEMPT_PREFIX @ hex_text entropy)"

definition attempt_parse :: "string \<Rightarrow> attempt_id option" where
  "attempt_parse token = map_option AttemptId (parse_prefixed token ATTEMPT_PREFIX)"

datatype identity_action = IdStart agent_id attempt_id | IdResume agent_id attempt_id | IdFork agent_id attempt_id

definition next_identity :: "agent_id option \<Rightarrow> bool \<Rightarrow> nat \<Rightarrow> nat \<Rightarrow> identity_action" where
  "next_identity previous fork agent_entropy attempt_entropy =
     (let attempt = attempt_mint attempt_entropy in
      case previous of
        None \<Rightarrow> IdStart (agent_mint agent_entropy) attempt
      | Some agent \<Rightarrow>
          if fork then IdFork (agent_mint agent_entropy) attempt else IdResume agent attempt)"

definition address_mint :: "nat \<Rightarrow> agent_address" where
  "address_mint entropy = AgentAddress (ADDRESS_PREFIX @ hex_text entropy)"

definition is_presentable :: "string \<Rightarrow> bool" where
  "is_presentable token \<longleftrightarrow>
     token \<noteq> [] \<and> \<not> eq_ignore_ascii_case token ''null'' \<and> \<not> eq_ignore_ascii_case token ''none''
     \<and> \<not> eq_ignore_ascii_case token ''undefined''"

definition address_parse :: "string \<Rightarrow> agent_address option" where
  "address_parse token = (if is_presentable (trim token) then Some (AgentAddress (trim token)) else None)"

definition mint_child_address :: "bool \<Rightarrow> nat \<Rightarrow> agent_address option" where
  "mint_child_address workflow entropy = (if workflow then None else Some (address_mint entropy))"

definition advertised_address :: "string option \<Rightarrow> bool \<Rightarrow> string option" where
  "advertised_address stored workflow =
     (if workflow then None
      else case stored of Some token \<Rightarrow> if address_parse token \<noteq> None then Some token else None | None \<Rightarrow> None)"

datatype address_presence = PresenceActive | PresencePending | PresenceGone

record address_candidate =
  ac_stored :: "string option"
  ac_session_id :: string
  ac_owner_match :: bool
  ac_generation_current :: bool
  ac_workflow :: bool
  ac_presence :: address_presence

datatype address_decision =
  OwnedAddress address_presence | RawSessionId | Foreign | Stale | WorkflowNotAddressable | Unresolved

definition resolve_address :: "string \<Rightarrow> address_candidate option \<Rightarrow> address_decision" where
  "resolve_address token candidate =
     (case candidate of
        None \<Rightarrow> Unresolved
      | Some k \<Rightarrow>
          let presented = trim token; address_match = (ac_stored k = Some presented) in
          if ac_session_id k = presented \<and> \<not> address_match then RawSessionId
          else if \<not> address_match then Unresolved
          else if ac_workflow k then WorkflowNotAddressable
          else if \<not> ac_owner_match k then Foreign
          else if \<not> ac_generation_current k \<or> ac_presence k = PresenceGone then Stale
          else OwnedAddress (ac_presence k))"

subsection \<open>Operations\<close>

datatype principal = Human | AgentPrincipal | RuntimePrincipal

datatype operation = OpQueue | OpSteer | OpInterject | OpInterruptAndSend

type_synonym operation_set = "8 word"

definition OPS_QUEUE :: operation_set where "OPS_QUEUE = push_bit 0 1"

definition OPS_QUEUE_AND_STEER :: operation_set where
  "OPS_QUEUE_AND_STEER = or (push_bit 0 1) (push_bit 1 1)"

definition operation_flag :: "operation \<Rightarrow> 8 word" where
  "operation_flag x =
     (case x of OpQueue \<Rightarrow> push_bit 0 1 | OpSteer \<Rightarrow> push_bit 1 1 | OpInterject \<Rightarrow> push_bit 2 1
      | OpInterruptAndSend \<Rightarrow> push_bit 3 1)"

definition set_contains :: "operation_set \<Rightarrow> operation \<Rightarrow> bool" where
  "set_contains s x \<longleftrightarrow> and s (operation_flag x) \<noteq> 0"

definition authorize_operation :: "operation_set \<Rightarrow> operation \<Rightarrow> operation + operation" where
  "authorize_operation allowed requested =
     (if set_contains allowed requested then Inr requested else Inl requested)"

subsection \<open>Ownership of a message\<close>

record ('p, 'e) turn_binding =
  tb_prompt_id :: 'p
  tb_epoch :: 'e

record ('i, 's, 'c) delivery_message =
  dm_identity :: 'i
  dm_source :: 's
  dm_content :: 'c

record ('i, 's, 'c, 'k, 'p, 'e) owned_delivery =
  od_binding :: "('p, 'e) turn_binding"
  od_message :: "('i, 's, 'c) delivery_message"
  od_completion :: 'k

datatype ('i, 's, 'c, 'k, 'p, 'e) delivery_slot =
    Pending (slot_owned: "('i, 's, 'c, 'k, 'p, 'e) owned_delivery")
  | Projecting (slot_owned: "('i, 's, 'c, 'k, 'p, 'e) owned_delivery")
  | Delivered (slot_owned: "('i, 's, 'c, 'k, 'p, 'e) owned_delivery")

type_synonym ('i, 's, 'c, 'k, 'p, 'e) lifecycle = "('i, 's, 'c, 'k, 'p, 'e) delivery_slot list"

datatype terminal_cause = CauseCompletion | SoftCancel | Rewind | HardTeardown | ActorDrop

definition falls_back :: "terminal_cause \<Rightarrow> bool" where
  "falls_back c \<longleftrightarrow> c \<in> {CauseCompletion, SoftCancel, Rewind}"

datatype ('p, 'e) terminal_target = TurnTarget "('p, 'e) turn_binding" | AllTurns

definition contains_identity :: "'i \<Rightarrow> ('i, 's, 'c, 'k, 'p, 'e) lifecycle \<Rightarrow> bool" where
  "contains_identity i l \<longleftrightarrow> list_ex (\<lambda>slot. dm_identity (od_message (slot_owned slot)) = i) l"

definition admit_pending ::
  "('p, 'e) turn_binding \<Rightarrow> ('i, 's, 'c) delivery_message \<Rightarrow> 'k \<Rightarrow> ('i, 's, 'c, 'k, 'p, 'e) lifecycle
     \<Rightarrow> ('i, 's, 'c) delivery_message + ('i, 's, 'c, 'k, 'p, 'e) lifecycle"
where
  "admit_pending b m k l =
     (if list_ex (\<lambda>slot. dm_identity (od_message (slot_owned slot)) = dm_identity m) l then Inl m
      else Inr (l @ [Pending \<lparr>od_binding = b, od_message = m, od_completion = k\<rparr>]))"

definition pending_messages ::
  "('p, 'e) turn_binding \<Rightarrow> ('i, 's, 'c, 'k, 'p, 'e) lifecycle \<Rightarrow> ('i, 's, 'c) delivery_message list"
where
  "pending_messages b l =
     List.map_filter (\<lambda>slot. case slot of
         Pending x \<Rightarrow> if od_binding x = b then Some (od_message x) else None
       | _ \<Rightarrow> None) l"

definition begin_delivery ::
  "('p, 'e) turn_binding \<Rightarrow> ('i, 's, 'c, 'k, 'p, 'e) lifecycle
     \<Rightarrow> ('i, 's, 'c, 'k, 'p, 'e) lifecycle \<times> ('i, 's, 'c) delivery_message list"
where
  "begin_delivery b l =
     (let messages = pending_messages b l in
      if messages = [] then (l, messages)
      else (map (\<lambda>slot. case slot of
                Pending x \<Rightarrow> if od_binding x = b then Projecting x else slot
              | _ \<Rightarrow> slot) l, messages))"

definition projecting_messages ::
  "('p, 'e) turn_binding \<Rightarrow> ('i, 's, 'c, 'k, 'p, 'e) lifecycle \<Rightarrow> ('i, 's, 'c) delivery_message list"
where
  "projecting_messages b l =
     List.map_filter (\<lambda>slot. case slot of
         Projecting x \<Rightarrow> if od_binding x = b then Some (od_message x) else None
       | _ \<Rightarrow> None) l"

text \<open>\<open>commit\<close> is the host's callback: \<open>Some\<close> an error when it fails.\<close>

definition finish_delivery ::
  "('p, 'e) turn_binding \<Rightarrow> (('i, 's, 'c) delivery_message list \<Rightarrow> 'err option)
     \<Rightarrow> ('i, 's, 'c, 'k, 'p, 'e) lifecycle
     \<Rightarrow> ('i, 's, 'c, 'k, 'p, 'e) lifecycle \<times> ('err + ('i, 's, 'c) delivery_message list)"
where
  "finish_delivery b commit l =
     (let messages = projecting_messages b l in
      if messages = [] then (l, Inr messages)
      else case commit messages of
          Some err \<Rightarrow> (l, Inl err)
        | None \<Rightarrow>
            (map (\<lambda>slot. case slot of
                 Projecting x \<Rightarrow> if od_binding x = b then Delivered x else slot
               | _ \<Rightarrow> slot) l, Inr messages))"

definition target_matches ::
  "('p, 'e) terminal_target \<Rightarrow> ('i, 's, 'c, 'k, 'p, 'e) delivery_slot \<Rightarrow> bool"
where
  "target_matches target slot \<longleftrightarrow>
     (case target of TurnTarget b \<Rightarrow> od_binding (slot_owned slot) = b | AllTurns \<Rightarrow> True)"

record ('i, 's, 'c, 'k, 'p, 'e) terminal_transition =
  tt_fallbacks :: "('i, 's, 'c, 'k, 'p, 'e) owned_delivery list"
  tt_completions :: "('i, 's, 'c, 'k, 'p, 'e) owned_delivery list"

fun transition ::
  "('p, 'e) terminal_target \<Rightarrow> terminal_cause \<Rightarrow> ('i, 's, 'c, 'k, 'p, 'e) lifecycle
     \<Rightarrow> ('i, 's, 'c, 'k, 'p, 'e) lifecycle \<times> ('i, 's, 'c, 'k, 'p, 'e) terminal_transition"
where
  "transition target cause [] = ([], \<lparr>tt_fallbacks = [], tt_completions = []\<rparr>)"
| "transition target cause (slot # l) =
     (case transition target cause l of (kept, t) \<Rightarrow>
        if \<not> target_matches target slot then (slot # kept, t)
        else if (case slot of Pending _ \<Rightarrow> True | _ \<Rightarrow> False) \<and> falls_back cause
        then (kept, t\<lparr>tt_fallbacks := slot_owned slot # tt_fallbacks t\<rparr>)
        else (kept, t\<lparr>tt_completions := slot_owned slot # tt_completions t\<rparr>))"

subsection \<open>Event queue\<close>

definition queue_push :: "'a \<Rightarrow> 'a list \<Rightarrow> 'a list" where "queue_push x q = q @ [x]"

definition push_capped :: "'a \<Rightarrow> nat \<Rightarrow> 'a list \<Rightarrow> 'a list" where
  "push_capped x limit q =
     (let q1 = q @ [x] in if length q1 > limit then drop (length q1 - limit) q1 else q1)"

definition drain_matching :: "('a \<Rightarrow> bool) \<Rightarrow> 'a list \<Rightarrow> 'a list \<times> 'a list" where
  "drain_matching take_it q = (case partition take_it q of (matched, kept) \<Rightarrow> (kept, matched))"

definition drain_all :: "'a list \<Rightarrow> 'a list \<times> 'a list" where "drain_all q = ([], q)"

definition restore_front :: "'a list \<Rightarrow> 'a list \<Rightarrow> 'a list" where
  "restore_front events q = (if events = [] then q else events @ q)"

subsection \<open>Interjections\<close>

definition LARGE_PROMPT_THRESHOLD :: nat where "LARGE_PROMPT_THRESHOLD = 25000"

definition INTERJECTION_NOTE :: string where
  "INTERJECTION_NOTE = ''The user sent a message while you were working:''"

definition INTERRUPT_NOTE :: string where
  "INTERRUPT_NOTE = ''The user interrupted the previous turn:''"

definition UNFINISHED_TASKS_REMINDER :: string where
  "UNFINISHED_TASKS_REMINDER = ''Make sure to complete any unfinished tasks from previous turns.''"

definition nl :: string where "nl = [CHR 0x0A]"

definition user_query :: "string \<Rightarrow> string" where
  "user_query user_message = ''<user_query>'' @ nl @ user_message @ nl @ ''</user_query>''"

definition frame_user_turn :: "string \<Rightarrow> string \<Rightarrow> string" where
  "frame_user_turn header assembled = header @ nl @ assembled @ nl @ UNFINISHED_TASKS_REMINDER"

text \<open>The end of the last character that starts before the threshold.\<close>

definition cut_end :: "nat \<Rightarrow> string \<Rightarrow> nat" where
  "cut_end threshold s =
     (if takeWhile (\<lambda>i. i < threshold) (char_starts s) = [] then length s
      else case dropWhile (\<lambda>i. i < threshold) (char_starts s) of i # _ \<Rightarrow> i | [] \<Rightarrow> length s)"

definition format_steered_query :: "string \<Rightarrow> string \<Rightarrow> string" where
  "format_steered_query header body =
     (let truncated =
        (if length body \<le> LARGE_PROMPT_THRESHOLD then body
         else take (cut_end LARGE_PROMPT_THRESHOLD body) body @ ''... [truncated]'')
      in frame_user_turn header (user_query truncated))"

definition format_interjection :: "string \<Rightarrow> string" where
  "format_interjection body = format_steered_query INTERJECTION_NOTE body"

definition format_interrupt :: "string \<Rightarrow> string" where
  "format_interrupt body = format_steered_query INTERRUPT_NOTE body"

definition drain_formatted ::
  "(string \<Rightarrow> string) \<Rightarrow> (string \<times> 'att list) list
     \<Rightarrow> (string \<times> 'att list) list \<times> (string \<times> 'att list) list"
where
  "drain_formatted sanitize q =
     (case drain_all q of (rest, entries) \<Rightarrow>
        (rest, map (\<lambda>(body, atts). (format_interjection (sanitize body), atts)) entries))"

subsection \<open>Combining queued prompts\<close>

record combine_gate =
  cg_id :: string
  cg_plain :: bool
  cg_synthetic :: bool
  cg_expanded_skill :: bool
  cg_bash :: bool
  cg_images :: bool
  cg_text :: string

definition can_merge_front :: "combine_gate \<Rightarrow> bool" where
  "can_merge_front g \<longleftrightarrow>
     cg_plain g \<and> \<not> cg_synthetic g \<and> \<not> cg_expanded_skill g \<and> \<not> cg_bash g \<and> cg_text g \<noteq> []"

definition can_merge_follower :: "string list \<Rightarrow> combine_gate \<Rightarrow> bool" where
  "can_merge_follower skip_ids g \<longleftrightarrow> can_merge_front g \<and> \<not> cg_images g \<and> cg_id g \<notin> set skip_ids"

fun followers_len :: "string list \<Rightarrow> combine_gate list \<Rightarrow> nat" where
  "followers_len skip_ids [] = 0"
| "followers_len skip_ids (g # gs) =
     (if can_merge_follower skip_ids g then Suc (followers_len skip_ids gs) else 0)"

definition combine_prefix_len :: "combine_gate list \<Rightarrow> string list \<Rightarrow> nat" where
  "combine_prefix_len items skip_ids =
     (case items of
        [] \<Rightarrow> 0
      | front # rest \<Rightarrow> if \<not> can_merge_front front then 1 else 1 + followers_len skip_ids rest)"

definition TEXT_SEPARATOR :: string where "TEXT_SEPARATOR = nl @ nl"

definition join_texts :: "string list \<Rightarrow> string" where
  "join_texts texts = join TEXT_SEPARATOR (filter (\<lambda>t. t \<noteq> []) texts)"

definition is_combined :: "string list \<Rightarrow> bool" where "is_combined segs \<longleftrightarrow> 2 \<le> length segs"

end
