(* ===== verification/Delivery_Properties.thy ===== *)
theory Delivery_Properties
  imports Delivery
begin

text \<open>
  What message delivery guarantees: tokens of different kinds never pass for one another, only an owned and
  live address is resolved, no message is lost or delivered twice, and an interjection is cut between
  characters.
\<close>

subsection \<open>Tokens\<close>

definition graphic :: "string \<Rightarrow> bool" where
  "graphic s \<longleftrightarrow> (\<forall>c \<in> set s. 33 \<le> byte c \<and> byte c < 128)"

lemma graphic_ws: "graphic s \<Longrightarrow> ws_len s = 0"
  by (cases s) (auto simp: graphic_def ws_len_def split: list.split)

lemma graphic_trim: "graphic s \<Longrightarrow> trim s = s"
proof -
  assume s: "graphic s"
  then have d: "ws_len (drop n s) = 0" for n
    by (intro graphic_ws) (auto simp: graphic_def dest: in_set_dropD)
  have "trim_start s = s" using d[of 0] by (simp add: trim_start.simps)
  moreover have "trim_end s = s" using d by (simp add: trim_end.simps ws_suffix_len_def)
  ultimately show ?thesis by (simp add: trim_def)
qed

lemma hex_digit_byte: "d < 16 \<Longrightarrow> byte (hex_digit d) = (if d < 10 then 48 + d else 87 + d)"
  by (simp add: hex_digit_def byte_def of_char_of)

lemma hex_digit_lower: "d < 16 \<Longrightarrow> is_lower_hex (hex_digit d)"
  by (simp add: is_lower_hex_def hex_digit_byte)

lemma hex_text_lower: "list_all is_lower_hex (hex_text n) \<and> hex_text n \<noteq> []"
proof (induction n rule: hex_text.induct)
  case (1 n)
  then show ?case
    by (cases "n < 16") (simp_all add: hex_text.simps[of n] hex_digit_lower)
qed

definition hex_value :: "string \<Rightarrow> nat" where
  "hex_value s = foldl (\<lambda>v c. 16 * v + (if byte c < 58 then byte c - 48 else byte c - 87)) 0 s"

lemma hex_value_text: "hex_value (hex_text n) = n"
proof (induction n rule: hex_text.induct)
  case (1 n)
  have digit: "d < 16 \<Longrightarrow> (if byte (hex_digit d) < 58 then byte (hex_digit d) - 48 else byte (hex_digit d) - 87) = d"
    for d by (simp add: hex_digit_byte)
  show ?case
  proof (cases "n < 16")
    case True
    then show ?thesis using digit[of n] by (simp add: hex_text.simps[of n] hex_value_def)
  next
    case False
    then have "hex_value (hex_text n) = 16 * hex_value (hex_text (n div 16)) + n mod 16"
      using digit[of "n mod 16"] by (simp add: hex_text.simps[of n] hex_value_def)
    then show ?thesis using 1 False by simp
  qed
qed

lemma hex_text_inj: "hex_text m = hex_text n \<longleftrightarrow> m = n"
  by (metis hex_value_text)

lemma lower_hex_graphic: "is_lower_hex c \<Longrightarrow> 33 \<le> byte c \<and> byte c < 128"
  by (auto simp: is_lower_hex_def)

lemma minted_graphic:
  assumes "graphic pfx"
  shows "graphic (pfx @ hex_text n)"
proof -
  have "\<forall>c \<in> set (hex_text n). is_lower_hex c" using hex_text_lower by (simp add: list_all_iff)
  then show ?thesis using assms lower_hex_graphic by (auto simp: graphic_def)
qed

lemma prefixes_graphic: "graphic AGENT_PREFIX" "graphic ATTEMPT_PREFIX" "graphic ADDRESS_PREFIX"
  by (simp_all add: graphic_def byte_def AGENT_PREFIX_def ATTEMPT_PREFIX_def ADDRESS_PREFIX_def)

lemma parse_minted:
  "graphic p \<Longrightarrow> parse_prefixed (p @ hex_text n) p = Some (p @ hex_text n)"
  using hex_text_lower[of n] by (simp add: parse_prefixed_def graphic_trim minted_graphic)

text \<open>The text of each token.\<close>

fun agent_str :: "agent_id \<Rightarrow> string" where "agent_str (AgentId s) = s"
fun attempt_str :: "attempt_id \<Rightarrow> string" where "attempt_str (AttemptId s) = s"
fun address_str :: "agent_address \<Rightarrow> string" where "address_str (AgentAddress s) = s"

lemma not_uuid: "\<not> is_uuid_v7 (CHR ''a'' # CHR ''g'' # s)" "\<not> is_uuid_v7 (CHR ''a'' # CHR ''t'' # s)"
proof -
  have "\<not> is_uuid_v7 (CHR ''a'' # c # s)" if "\<not> is_lower_hex c" for c
  proof
    assume u: "is_uuid_v7 (CHR ''a'' # c # s)"
    then have "\<forall>i \<in> set [0..<36]. if i \<in> set UUID_HYPHENS then (CHR ''a'' # c # s) ! i = CHR ''-''
        else is_lower_hex ((CHR ''a'' # c # s) ! i)"
      unfolding is_uuid_v7_def list_all_iff by blast
    then have "if 1 \<in> set UUID_HYPHENS then (CHR ''a'' # c # s) ! 1 = CHR ''-''
        else is_lower_hex ((CHR ''a'' # c # s) ! 1)" by (rule bspec) simp
    then show False using that by (simp add: UUID_HYPHENS_def)
  qed
  then show "\<not> is_uuid_v7 (CHR ''a'' # CHR ''g'' # s)" "\<not> is_uuid_v7 (CHR ''a'' # CHR ''t'' # s)"
    by (simp_all add: is_lower_hex_def byte_def)
qed

text \<open>A minted agent, attempt or address token is read back as itself, tokens from different entropy
  differ, and no agent token is an attempt token or the other way round.\<close>

theorem tokens_roundtrip:
  "agent_parse (agent_str (agent_mint n)) = Some (agent_mint n)
   \<and> attempt_parse (attempt_str (attempt_mint n)) = Some (attempt_mint n)
   \<and> address_parse (address_str (address_mint n)) = Some (address_mint n)
   \<and> attempt_parse (agent_str (agent_mint n)) = None \<and> agent_parse (attempt_str (attempt_mint n)) = None
   \<and> (agent_mint m = agent_mint n \<longleftrightarrow> m = n) \<and> (attempt_mint m = attempt_mint n \<longleftrightarrow> m = n)
   \<and> (address_mint m = address_mint n \<longleftrightarrow> m = n)"
proof -
  have g: "trim (AGENT_PREFIX @ hex_text n) = AGENT_PREFIX @ hex_text n"
    "trim (ATTEMPT_PREFIX @ hex_text n) = ATTEMPT_PREFIX @ hex_text n"
    "trim (ADDRESS_PREFIX @ hex_text n) = ADDRESS_PREFIX @ hex_text n"
    by (simp_all add: graphic_trim minted_graphic prefixes_graphic)
  have u: "\<not> is_uuid_v7 (AGENT_PREFIX @ hex_text n)" "\<not> is_uuid_v7 (ATTEMPT_PREFIX @ hex_text n)"
    using not_uuid by (simp_all add: AGENT_PREFIX_def ATTEMPT_PREFIX_def)
  have "agent_parse (agent_str (agent_mint n)) = Some (agent_mint n)"
    by (simp add: agent_parse_def agent_mint_def g u parse_minted prefixes_graphic)
  moreover have "attempt_parse (attempt_str (attempt_mint n)) = Some (attempt_mint n)"
    by (simp add: attempt_parse_def attempt_mint_def parse_minted prefixes_graphic)
  moreover have "address_parse (address_str (address_mint n)) = Some (address_mint n)"
  proof -
    have "length (ADDRESS_PREFIX @ hex_text n) > 4" using hex_text_lower[of n]
      by (simp add: ADDRESS_PREFIX_def)
    moreover have "take 1 (to_ascii_lowercase (ADDRESS_PREFIX @ hex_text n)) = ''a''"
      by (simp add: ADDRESS_PREFIX_def to_ascii_lowercase_def ascii_lower_def byte_def)
    moreover have "take 1 (to_ascii_lowercase w) \<noteq> ''a''" if "w \<in> {''null'', ''none'', ''undefined''}" for w
      using that by (auto simp: to_ascii_lowercase_def ascii_lower_def byte_def)
    ultimately have "is_presentable (ADDRESS_PREFIX @ hex_text n)"
      unfolding is_presentable_def eq_ignore_ascii_case_def by (metis insertCI length_0_conv not_less0)
    then show ?thesis by (simp add: address_parse_def address_mint_def g)
  qed
  moreover have "attempt_parse (agent_str (agent_mint n)) = None"
    by (simp add: attempt_parse_def agent_mint_def parse_prefixed_def g, simp add: strip_prefix_def
        starts_with_def AGENT_PREFIX_def ATTEMPT_PREFIX_def)
  moreover have "agent_parse (attempt_str (attempt_mint n)) = None"
    by (simp add: agent_parse_def attempt_mint_def parse_prefixed_def g u, simp add: strip_prefix_def
        starts_with_def AGENT_PREFIX_def ATTEMPT_PREFIX_def)
  ultimately show ?thesis
    by (simp add: agent_mint_def attempt_mint_def address_mint_def hex_text_inj)
qed

text \<open>A presented token resolves to a live child only when it is, up to surrounding white space, that child's own
  address, the child is not part of a workflow, belongs to the sender, is of the current generation and
  is not gone; a session identifier alone never does.\<close>

lemma resolved_address_is_owned:
  "resolve_address token (Some k) = OwnedAddress p \<longleftrightarrow>
     ac_stored k = Some (trim token) \<and> \<not> ac_workflow k \<and> ac_owner_match k \<and> ac_generation_current k
     \<and> ac_presence k = p \<and> p \<noteq> PresenceGone"
  by (auto simp: resolve_address_def Let_def)

subsection \<open>Conservation of messages\<close>

definition is_pending :: "('i, 's, 'c, 'k, 'p, 'e) delivery_slot \<Rightarrow> bool" where
  "is_pending slot \<longleftrightarrow> (case slot of Pending _ \<Rightarrow> True | _ \<Rightarrow> False)"

definition is_delivered :: "('i, 's, 'c, 'k, 'p, 'e) delivery_slot \<Rightarrow> bool" where
  "is_delivered slot \<longleftrightarrow> (case slot of Delivered _ \<Rightarrow> True | _ \<Rightarrow> False)"

lemma transition_parts:
  "transition target cause l =
     (filter (\<lambda>s. \<not> target_matches target s) l,
      \<lparr>tt_fallbacks = map slot_owned (filter (\<lambda>s. target_matches target s \<and> is_pending s \<and> falls_back cause) l),
       tt_completions =
         map slot_owned (filter (\<lambda>s. target_matches target s \<and> \<not> (is_pending s \<and> falls_back cause)) l)\<rparr>)"
  by (induction l) (auto simp: is_pending_def split: delivery_slot.splits)

text \<open>The books of a run: what was admitted, what the host committed, what fell back, what was settled.\<close>

record ('i, 's, 'c, 'k, 'p, 'e) ledger =
  lg_slots :: "('i, 's, 'c, 'k, 'p, 'e) lifecycle"
  lg_admitted :: "('i, 's, 'c, 'k, 'p, 'e) owned_delivery list"
  lg_committed :: "('i, 's, 'c) delivery_message list"
  lg_fell_back :: "('i, 's, 'c, 'k, 'p, 'e) owned_delivery list"
  lg_completed :: "('i, 's, 'c, 'k, 'p, 'e) owned_delivery list"

inductive delivery_runs :: "('i, 's, 'c, 'k, 'p, 'e) ledger \<Rightarrow> bool" where
  start: "delivery_runs
     \<lparr>lg_slots = [], lg_admitted = [], lg_committed = [], lg_fell_back = [], lg_completed = []\<rparr>"
| admit: "delivery_runs g \<Longrightarrow> admit_pending b m k (lg_slots g) = Inr l \<Longrightarrow>
     delivery_runs (g\<lparr>lg_slots := l,
       lg_admitted := lg_admitted g @ [\<lparr>od_binding = b, od_message = m, od_completion = k\<rparr>]\<rparr>)"
| refuse: "delivery_runs g \<Longrightarrow> admit_pending b m k (lg_slots g) = Inl m' \<Longrightarrow> delivery_runs g"
| begin_step: "delivery_runs g \<Longrightarrow> begin_delivery b (lg_slots g) = (l, ms) \<Longrightarrow> delivery_runs (g\<lparr>lg_slots := l\<rparr>)"
| finish: "delivery_runs g \<Longrightarrow> finish_delivery b (commit :: _ \<Rightarrow> string option) (lg_slots g) = (l, Inr ms) \<Longrightarrow>
     delivery_runs (g\<lparr>lg_slots := l, lg_committed := lg_committed g @ ms\<rparr>)"
| finish_failed: "delivery_runs g \<Longrightarrow> finish_delivery b (commit :: _ \<Rightarrow> string option) (lg_slots g) = (l, Inl err) \<Longrightarrow>
     delivery_runs (g\<lparr>lg_slots := l\<rparr>)"
| terminal: "delivery_runs g \<Longrightarrow> transition target cause (lg_slots g) = (l, t) \<Longrightarrow>
     delivery_runs (g\<lparr>lg_slots := l, lg_fell_back := lg_fell_back g @ tt_fallbacks t,
       lg_completed := lg_completed g @ tt_completions t\<rparr>)"

definition slot_identity :: "('i, 's, 'c, 'k, 'p, 'e) delivery_slot \<Rightarrow> 'i" where
  "slot_identity slot = dm_identity (od_message (slot_owned slot))"

definition delivered_messages :: "('i, 's, 'c, 'k, 'p, 'e) lifecycle \<Rightarrow> ('i, 's, 'c) delivery_message list" where
  "delivered_messages l = map (\<lambda>s. od_message (slot_owned s)) (filter is_delivered l)"

definition ledger_inv :: "('i, 's, 'c, 'k, 'p, 'e) ledger \<Rightarrow> bool" where
  "ledger_inv g \<longleftrightarrow>
     mset (lg_admitted g) = mset (map slot_owned (lg_slots g)) + mset (lg_fell_back g) + mset (lg_completed g)
     \<and> mset (lg_committed g) \<subseteq># mset (delivered_messages (lg_slots g)) + mset (map od_message (lg_completed g))
     \<and> distinct (map slot_identity (lg_slots g))"

lemma slot_maps:
  "map slot_owned (fst (begin_delivery b l)) = map slot_owned l"
  "map slot_owned (fst (finish_delivery b commit l)) = map slot_owned l"
  by (auto simp: begin_delivery_def finish_delivery_def Let_def split: delivery_slot.split option.split)

lemma identities_of_owned: "map slot_owned l = map slot_owned l' \<Longrightarrow> map slot_identity l = map slot_identity l'"
proof -
  have "map slot_identity xs = map (\<lambda>x. dm_identity (od_message x)) (map slot_owned xs)" for xs
    by (simp add: slot_identity_def[abs_def] comp_def)
  then show "map slot_owned l = map slot_owned l' \<Longrightarrow> map slot_identity l = map slot_identity l'" by metis
qed

lemma begin_delivered: "delivered_messages (fst (begin_delivery b l)) = delivered_messages l"
proof -
  let ?f = "\<lambda>slot. case slot of Pending x \<Rightarrow> if od_binding x = b then Projecting x else slot | _ \<Rightarrow> slot"
  have "delivered_messages (map ?f l) = delivered_messages l"
    by (induction l) (auto simp: delivered_messages_def is_delivered_def split: delivery_slot.splits)
  then show ?thesis by (simp add: begin_delivery_def Let_def)
qed

lemma finish_delivered:
  assumes "finish_delivery b commit l = (l', Inr ms)"
  shows "mset (delivered_messages l') = mset (delivered_messages l) + mset ms"
proof -
  let ?f = "\<lambda>slot. case slot of Projecting x \<Rightarrow> if od_binding x = b then Delivered x else slot | _ \<Rightarrow> slot"
  have "mset (delivered_messages (map ?f l)) = mset (delivered_messages l) + mset (projecting_messages b l)"
    by (induction l) (auto simp: delivered_messages_def is_delivered_def projecting_messages_def
        List.map_filter_simps split: delivery_slot.splits)
  then show ?thesis
    using assms by (auto simp: finish_delivery_def Let_def split: if_splits option.splits)
qed

lemma finish_failed_same: "finish_delivery b commit l = (l', Inl err) \<Longrightarrow> l' = l"
  by (auto simp: finish_delivery_def Let_def split: if_splits option.splits)

lemma sub_add: "A \<subseteq># B \<Longrightarrow> A \<subseteq># add_mset x B"
  by (rule subset_mset.order_trans[OF _ subset_mset.less_imp_le[OF multi_psub_of_add_self]])

lemma filter_covered:
  assumes "\<And>x. x \<in> set l \<Longrightarrow> p x \<Longrightarrow> q x \<or> r x"
  shows "mset (map f (filter p l)) \<subseteq># mset (map f (filter q l)) + mset (map f (filter r l))"
  using assms
proof (induction l)
  case (Cons a l)
  then have IH: "mset (map f (filter p l)) \<subseteq># mset (map f (filter q l)) + mset (map f (filter r l))" by simp
  have "p a \<Longrightarrow> q a \<or> r a" using Cons.prems by simp
  then show ?case using IH by (cases "p a"; cases "q a"; cases "r a") (simp_all add: sub_add)
qed simp

lemma transition_books:
  fixes l :: "('i, 's, 'c, 'k, 'p, 'e) lifecycle"
  assumes "transition target cause l = (l', t)"
  shows "mset (map slot_owned l) =
      mset (map slot_owned l') + mset (tt_fallbacks t) + mset (tt_completions t)"
    and "mset (delivered_messages l) \<subseteq># mset (delivered_messages l') + mset (map od_message (tt_completions t))"
    and "distinct (map slot_identity l) \<Longrightarrow> distinct (map slot_identity l')"
proof -
  have p: "l' = filter (\<lambda>s. \<not> target_matches target s) l"
    "tt_fallbacks t = map slot_owned (filter (\<lambda>s. target_matches target s \<and> is_pending s \<and> falls_back cause) l)"
    "tt_completions t =
       map slot_owned (filter (\<lambda>s. target_matches target s \<and> \<not> (is_pending s \<and> falls_back cause)) l)"
    using assms unfolding transition_parts by auto
  show "mset (map slot_owned l) = mset (map slot_owned l') + mset (tt_fallbacks t) + mset (tt_completions t)"
    unfolding p by (induction l) auto
  have "is_delivered s \<Longrightarrow> \<not> is_pending s" for s :: "('i, 's, 'c, 'k, 'p, 'e) delivery_slot"
    by (cases s) (simp_all add: is_delivered_def is_pending_def)
  then have "mset (map (\<lambda>s. od_message (slot_owned s)) (filter is_delivered l)) \<subseteq>#
      mset (map (\<lambda>s. od_message (slot_owned s)) (filter (\<lambda>s. \<not> target_matches target s \<and> is_delivered s) l))
      + mset (map (\<lambda>s. od_message (slot_owned s))
          (filter (\<lambda>s. target_matches target s \<and> \<not> (is_pending s \<and> falls_back cause)) l))"
    by (intro filter_covered) blast
  then show "mset (delivered_messages l)
      \<subseteq># mset (delivered_messages l') + mset (map od_message (tt_completions t))"
    unfolding p delivered_messages_def by (simp add: comp_def conj_commute)
  show "distinct (map slot_identity l')" if "distinct (map slot_identity l)"
    using that unfolding p by (simp add: distinct_map_filter)
qed

lemma runs_ledger: "delivery_runs g \<Longrightarrow> ledger_inv g"
proof (induction rule: delivery_runs.induct)
  case start
  then show ?case by (simp add: ledger_inv_def delivered_messages_def)
next
  case (admit g b m k l)
  then have l: "l = lg_slots g @ [Pending \<lparr>od_binding = b, od_message = m, od_completion = k\<rparr>]"
    and new: "dm_identity m \<notin> set (map slot_identity (lg_slots g))"
    by (auto simp: admit_pending_def list_ex_iff slot_identity_def split: if_splits)
  show ?case using admit.IH new unfolding l
    by (auto simp: ledger_inv_def delivered_messages_def is_delivered_def slot_identity_def)
next
  case (begin_step g b l ms)
  then have l: "l = fst (begin_delivery b (lg_slots g))" by simp
  show ?case using begin_step.IH identities_of_owned[OF slot_maps(1)[of b "lg_slots g"]] unfolding l
    by (simp add: ledger_inv_def slot_maps begin_delivered)
next
  case (finish g b commit l ms)
  then have l: "l = fst (finish_delivery b commit (lg_slots g))" by simp
  have "map slot_identity l = map slot_identity (lg_slots g)"
    unfolding l by (rule identities_of_owned[OF slot_maps(2)])
  then show ?case using finish.IH finish_delivered[OF finish.hyps(2)] slot_maps(2)[of b commit "lg_slots g"]
    unfolding l by (simp add: ledger_inv_def ac_simps)
next
  case (finish_failed g b commit l err)
  then show ?case using finish_failed_same by fastforce
next
  case (terminal g target cause l t)
  have a: "mset (lg_committed g)
      \<subseteq># mset (delivered_messages (lg_slots g)) + mset (map od_message (lg_completed g))"
    using terminal.IH by (simp add: ledger_inv_def)
  also have "\<dots> \<subseteq># mset (delivered_messages l) + mset (map od_message (tt_completions t))
      + mset (map od_message (lg_completed g))"
    using transition_books(2)[OF terminal.hyps(2)] by simp
  finally show ?case
    using terminal.IH transition_books(1,3)[OF terminal.hyps(2)]
    by (simp add: ledger_inv_def ac_simps)
qed

text \<open>C18: Whatever the order of admissions, deliveries, failed commits and endings of turns, every admitted
  message is still owned, has fallen back to the queue or has been settled, exactly once; and no message
  that was put before the model also falls back to be sent again.\<close>

theorem messages_conserved:
  fixes g :: "('a, 'b, 'c, 'd, 'e, 'f) ledger"
  assumes "delivery_runs g"
  shows "mset (lg_admitted g) = mset (map slot_owned (lg_slots g)) + mset (lg_fell_back g) + mset (lg_completed g)
    \<and> mset (map od_message (lg_fell_back g)) + mset (lg_committed g) \<subseteq># mset (map od_message (lg_admitted g))
    \<and> distinct (map slot_identity (lg_slots g))"
proof -
  have inv: "ledger_inv g" using assms by (rule runs_ledger)
  have "mset (delivered_messages l) \<subseteq># mset (map od_message (map slot_owned l))"
    for l :: "('a, 'b, 'c, 'd, 'e, 'f) lifecycle"
    by (induction l) (simp_all add: delivered_messages_def sub_add)
  then have "mset (lg_committed g)
      \<subseteq># mset (map od_message (map slot_owned (lg_slots g))) + mset (map od_message (lg_completed g))"
    using inv unfolding ledger_inv_def by (meson subset_mset.add_right_mono subset_mset.order_trans)
  moreover have "mset (map od_message (lg_admitted g)) = mset (map od_message (map slot_owned (lg_slots g)))
      + mset (map od_message (lg_fell_back g)) + mset (map od_message (lg_completed g))"
    using inv unfolding ledger_inv_def by (metis image_mset_union mset_map)
  ultimately show ?thesis using inv unfolding ledger_inv_def by (simp add: ac_simps)
qed


definition demo_binding :: "(nat, nat) turn_binding" where
  "demo_binding = \<lparr>tb_prompt_id = 1, tb_epoch = 1\<rparr>"

definition demo_message :: "string \<Rightarrow> (string, string, string) delivery_message" where
  "demo_message i = \<lparr>dm_identity = i, dm_source = ''parent'', dm_content = ''go on''\<rparr>"

definition demo_owned :: "string \<Rightarrow> (string, string, string, nat, nat, nat) owned_delivery" where
  "demo_owned i = \<lparr>od_binding = demo_binding, od_message = demo_message i, od_completion = 0\<rparr>"

text \<open>One message is committed, a second one comes too late and falls back when the turn ends.\<close>

lemma demo_run:
  "delivery_runs \<lparr>lg_slots = [], lg_admitted = [demo_owned ''a'', demo_owned ''b''],
     lg_committed = [demo_message ''a''], lg_fell_back = [demo_owned ''b''], lg_completed = [demo_owned ''a'']\<rparr>"
proof -
  note owned = demo_owned_def[symmetric]
  note steps = admit_pending_def begin_delivery_def finish_delivery_def pending_messages_def
    projecting_messages_def List.map_filter_simps demo_owned_def demo_message_def
  have "delivery_runs \<lparr>lg_slots = [Pending (demo_owned ''a'')], lg_admitted = [demo_owned ''a''],
      lg_committed = [], lg_fell_back = [], lg_completed = []\<rparr>"
    using delivery_runs.admit[OF delivery_runs.start, of demo_binding "demo_message ''a''" 0
        "[Pending (demo_owned ''a'')]"] by (simp add: steps)
  from delivery_runs.begin_step[OF this, of demo_binding "[Projecting (demo_owned ''a'')]" "[demo_message ''a'']"]
  have "delivery_runs \<lparr>lg_slots = [Projecting (demo_owned ''a'')], lg_admitted = [demo_owned ''a''],
      lg_committed = [], lg_fell_back = [], lg_completed = []\<rparr>" by (simp add: steps)
  from delivery_runs.admit[OF this, of demo_binding "demo_message ''b''" 0
      "[Projecting (demo_owned ''a''), Pending (demo_owned ''b'')]"]
  have "delivery_runs \<lparr>lg_slots = [Projecting (demo_owned ''a''), Pending (demo_owned ''b'')],
      lg_admitted = [demo_owned ''a'', demo_owned ''b''],
      lg_committed = [], lg_fell_back = [], lg_completed = []\<rparr>" by (simp add: steps)
  from delivery_runs.finish[OF this, of demo_binding "\<lambda>_. None"
      "[Delivered (demo_owned ''a''), Pending (demo_owned ''b'')]" "[demo_message ''a'']"]
  have "delivery_runs \<lparr>lg_slots = [Delivered (demo_owned ''a''), Pending (demo_owned ''b'')],
      lg_admitted = [demo_owned ''a'', demo_owned ''b''],
      lg_committed = [demo_message ''a''], lg_fell_back = [], lg_completed = []\<rparr>" by (simp add: steps)
  from delivery_runs.terminal[OF this, of "TurnTarget demo_binding" CauseCompletion "[]"
      "\<lparr>tt_fallbacks = [demo_owned ''b''], tt_completions = [demo_owned ''a'']\<rparr>"]
  show ?thesis by (simp add: target_matches_def falls_back_def demo_owned_def)
qed

lemma messages_conserved_witness:
  "mset [demo_message ''b''] + mset [demo_message ''a''] \<subseteq># mset [demo_message ''a'', demo_message ''b'']"
  using messages_conserved[OF demo_run] by (simp add: demo_owned_def add_mset_commute)

subsection \<open>Interjections and combined prompts\<close>

lemma takeWhile_dropWhile_starts:
  assumes "dropWhile (\<lambda>i. i < n) (char_starts s) = i # r"
  shows "i \<in> set (char_starts s) \<and> n \<le> i"
proof -
  have "i \<in> set (dropWhile (\<lambda>i. i < n) (char_starts s))" using assms by simp
  then have "i \<in> set (char_starts s)" by (rule set_dropWhileD)
  then show ?thesis using hd_dropWhile[of "\<lambda>i. i < n" "char_starts s"] assms by auto
qed

text \<open>An interjection that is too long is cut between characters, at or after the threshold.\<close>

lemma cut_end_boundary:
  assumes "n < length s"
  shows "is_char_boundary s (cut_end n s) \<and> n \<le> cut_end n s \<and> cut_end n s \<le> length s"
proof (cases "takeWhile (\<lambda>i. i < n) (char_starts s) = []")
  case True
  then show ?thesis using assms by (simp add: cut_end_def is_char_boundary_def)
next
  case False
  show ?thesis
  proof (cases "dropWhile (\<lambda>i. i < n) (char_starts s)")
    case Nil
    have "cut_end n s = length s" unfolding cut_end_def Nil using False by simp
    then show ?thesis using assms by (simp add: is_char_boundary_def)
  next
    case (Cons i r)
    then show ?thesis using False takeWhile_dropWhile_starts[OF Cons]
      by (auto simp: cut_end_def is_char_boundary_def char_starts_def)
  qed
qed

lemma followers_are_prefix: "followers_len skip gs = length (takeWhile (can_merge_follower skip) gs)"
  by (induction gs) auto

text \<open>Nothing that must run on its own is merged: every combined prompt is plain, and every follower free of
  images and of an edit in progress.\<close>

lemma combined_are_mergeable:
  assumes "2 \<le> combine_prefix_len items skip"
  shows "combine_prefix_len items skip \<le> length items
    \<and> list_all can_merge_front (take (combine_prefix_len items skip) items)
    \<and> list_all (can_merge_follower skip) (tl (take (combine_prefix_len items skip) items))"
proof -
  obtain front rest where items: "items = front # rest" "can_merge_front front"
    using assms by (cases items) (auto simp: combine_prefix_len_def split: if_splits)
  have n: "combine_prefix_len items skip = Suc (length (takeWhile (can_merge_follower skip) rest))"
    using items by (simp add: combine_prefix_len_def followers_are_prefix)
  have t: "take (length (takeWhile (can_merge_follower skip) rest)) rest = takeWhile (can_merge_follower skip) rest"
    by (metis takeWhile_eq_take)
  have "list_all (can_merge_follower skip) (takeWhile (can_merge_follower skip) rest)"
    by (auto simp: list_all_iff dest: set_takeWhileD)
  moreover have "can_merge_follower skip g \<Longrightarrow> can_merge_front g" for g by (simp add: can_merge_follower_def)
  ultimately show ?thesis
    using items n t by (auto simp: list_all_iff length_takeWhile_le)
qed

text \<open>Draining the queue of events and putting back what an interrupted reader had not processed keeps every
  event in order, also when more events arrive meanwhile.\<close>

lemma drained_events_restored:
  "restore_front (drop n (snd (drain_all q))) (foldl (\<lambda>r x. queue_push x r) (fst (drain_all q)) later)
     = drop n q @ later"
proof -
  have "foldl (\<lambda>r x. queue_push x r) r later = r @ later" for r
    by (induction later arbitrary: r) (simp_all add: queue_push_def)
  then show ?thesis by (simp add: drain_all_def restore_front_def)
qed

end
