(* ===== verification/Sampling_Errors.thy ===== *)
theory Sampling_Errors
  imports Breaker Auto_Route
begin

text \<open>
  The errors of a model request (\<open>src/crates/codegen/xai-grok-sampling-types/src/error.rs\<close>), what they say on
  the wire of events (\<open>xai-grok-sampler/src/events.rs\<close>), and how the retry loop classifies them and waits
  (\<open>xai-grok-sampler/src/retry.rs\<close>).  Durations are milliseconds; \<open>u32\<close> counters are \<open>nat\<close>.
\<close>

subsection \<open>Errors\<close>

datatype sent_credential = CredentialSent | CredentialMissing | CredentialUnknown

datatype api_error_code = InvalidImage | ContextOverflow string | OtherCode string

definition is_byte_size_overflow_error_code :: "string \<Rightarrow> bool" where
  "is_byte_size_overflow_error_code code \<longleftrightarrow>
     parse_unsigned 65535 code = Some 413 \<or> eq_ignore_ascii_case code ''payload_too_large''
     \<or> eq_ignore_ascii_case code ''request_too_large''"

definition is_size_overflow_error_code :: "string \<Rightarrow> bool" where
  "is_size_overflow_error_code code \<longleftrightarrow>
     is_byte_size_overflow_error_code code \<or> eq_ignore_ascii_case code ''exceed_context_size_error''
     \<or> eq_ignore_ascii_case code ''context_length_exceeded''"

definition INVALID_IMAGE_ERROR_CODE :: string where "INVALID_IMAGE_ERROR_CODE = ''invalid_image''"

definition code_parse :: "string \<Rightarrow> api_error_code" where
  "code_parse code =
     (if code = INVALID_IMAGE_ERROR_CODE then InvalidImage
      else if is_size_overflow_error_code code then ContextOverflow code
      else OtherCode code)"

fun code_str :: "api_error_code \<Rightarrow> string" where
  "code_str InvalidImage = INVALID_IMAGE_ERROR_CODE"
| "code_str (ContextOverflow code) = code"
| "code_str (OtherCode code) = code"

fun code_is_size_overflow :: "api_error_code \<Rightarrow> bool" where
  "code_is_size_overflow (ContextOverflow _) \<longleftrightarrow> True"
| "code_is_size_overflow _ \<longleftrightarrow> False"

fun code_is_byte_size_overflow :: "api_error_code \<Rightarrow> bool" where
  "code_is_byte_size_overflow (ContextOverflow code) \<longleftrightarrow> is_byte_size_overflow_error_code code"
| "code_is_byte_size_overflow _ \<longleftrightarrow> False"

text \<open>What the code asks of a \<open>reqwest::Error\<close>.\<close>

record reqwest_error =
  rw_timeout :: bool
  rw_connect :: bool
  rw_is_status :: bool
  rw_status :: "nat option"
  rw_request :: bool
  rw_body :: bool
  rw_text :: string

record api_error =
  ae_status :: nat
  ae_message :: string
  ae_metadata :: "(nat option \<times> nat option \<times> string option) option"
  ae_retry_after :: "nat option"
  ae_should_retry :: "bool option"
  ae_code :: "api_error_code option"

datatype empty_reason = ReasoningOnly | NoVisibleContent

fun empty_reason_text :: "empty_reason \<Rightarrow> string" where
  "empty_reason_text ReasoningOnly = ''reasoning_only''"
| "empty_reason_text NoVisibleContent = ''no_visible_content''"

text \<open>The token counts of the context, which are only logged, are left out.\<close>

record empty_context =
  ec_reason :: empty_reason
  ec_had_reasoning :: bool
  ec_content_len :: nat
  ec_tool_call_count :: nat
  ec_finish_reason :: "string option"
  ec_model :: string
  ec_first_choice_seen :: bool

datatype sampling_error =
    AuthError string sent_credential
  | InvalidConfiguration string
  | MtlsConfiguration string
  | HttpError reqwest_error
  | SerializationError string
  | ApiError api_error
  | EventStreamError string
  | StreamError string string "api_error_code option"
  | IdleTimeout nat
  | EmptyResponse empty_context
  | MaxTokensTruncation
  | DoomLoopDetected "string list" "nat option"

definition auth_unknown :: "string \<Rightarrow> sampling_error" where
  "auth_unknown message = AuthError message CredentialUnknown"

definition is_auth_error :: "sampling_error \<Rightarrow> bool" where
  "is_auth_error e \<longleftrightarrow>
     (case e of AuthError _ _ \<Rightarrow> True | ApiError a \<Rightarrow> ae_status a = 401 | _ \<Rightarrow> False)"

definition is_rate_limited :: "sampling_error \<Rightarrow> bool" where
  "is_rate_limited e \<longleftrightarrow> (case e of ApiError a \<Rightarrow> ae_status a = 429 | _ \<Rightarrow> False)"

definition is_payload_too_large :: "sampling_error \<Rightarrow> bool" where
  "is_payload_too_large e \<longleftrightarrow> (case e of ApiError a \<Rightarrow> ae_status a = 413 | _ \<Rightarrow> False)"

definition is_likely_body_rejected :: "sampling_error \<Rightarrow> bool" where
  "is_likely_body_rejected e \<longleftrightarrow>
     (case e of HttpError r \<Rightarrow> (rw_request r \<or> rw_body r) \<and> \<not> rw_timeout r \<and> \<not> rw_connect r | _ \<Rightarrow> False)"

definition is_encrypted_content_error :: "sampling_error \<Rightarrow> bool" where
  "is_encrypted_content_error e \<longleftrightarrow>
     (case e of ApiError a \<Rightarrow> ae_status a = 400 \<and> contains_str (ae_message a) ''encrypted_content'' | _ \<Rightarrow> False)"

definition is_image_processing_error :: "sampling_error \<Rightarrow> bool" where
  "is_image_processing_error e \<longleftrightarrow>
     (case e of
        ApiError a \<Rightarrow>
          (ae_status a = 400 \<or> ae_status a = 500)
          \<and> (ae_code a = Some InvalidImage \<or> contains_str (ae_message a) ''Could not process image''
             \<or> contains_str (ae_message a) ''.image.source.'')
      | StreamError _ _ code \<Rightarrow> code = Some InvalidImage
      | _ \<Rightarrow> False)"

definition is_retryable_api_status :: "nat \<Rightarrow> bool" where
  "is_retryable_api_status status \<longleftrightarrow> should_retry policy_edge_client status"

definition is_retryable_reqwest :: "reqwest_error \<Rightarrow> bool" where
  "is_retryable_reqwest r =
     (if rw_timeout r \<or> rw_connect r then True
      else if rw_is_status r then (case rw_status r of Some s \<Rightarrow> is_retryable_api_status s | None \<Rightarrow> False)
      else if rw_request r \<or> rw_body r then True
      else False)"

definition is_retryable :: "sampling_error \<Rightarrow> bool" where
  "is_retryable e \<longleftrightarrow>
     (case e of
        HttpError r \<Rightarrow> is_retryable_reqwest r
      | ApiError a \<Rightarrow> is_retryable_api_status (ae_status a)
      | EventStreamError _ \<Rightarrow> True
      | StreamError _ _ _ \<Rightarrow> True
      | EmptyResponse _ \<Rightarrow> True
      | DoomLoopDetected _ _ \<Rightarrow> True
      | _ \<Rightarrow> False)"

definition error_retry_after :: "sampling_error \<Rightarrow> nat option" where
  "error_retry_after e = (case e of ApiError a \<Rightarrow> ae_retry_after a | _ \<Rightarrow> None)"

definition should_retry_header :: "sampling_error \<Rightarrow> bool option" where
  "should_retry_header e = (case e of ApiError a \<Rightarrow> ae_should_retry a | _ \<Rightarrow> None)"

text \<open>The text detector of size overflows (\<open>xai-grok-compaction/src/code_compaction/failure.rs\<close>).\<close>

fun split_pair :: "string \<Rightarrow> string \<Rightarrow> string list" where
  "split_pair cur [] = [cur]"
| "split_pair cur [c] = [cur @ [c]]"
| "split_pair cur (c # d # cs) =
     (if c = CHR '':'' \<and> d = CHR '' '' then cur # split_pair [] cs else split_pair (cur @ [c]) (d # cs))"

definition is_anchored :: "string \<Rightarrow> string \<Rightarrow> bool" where
  "is_anchored m needle \<longleftrightarrow> list_ex (\<lambda>segment. starts_with segment needle) (split_pair [] m)"

definition has_size_slug :: "string \<Rightarrow> bool" where
  "has_size_slug m \<longleftrightarrow>
     list_ex (is_anchored m) [''context_length_exceeded'', ''exceed_context_size_error'', ''payload_too_large'']"

definition has_rendered_413_phrase :: "string \<Rightarrow> bool" where
  "has_rendered_413_phrase m \<longleftrightarrow>
     contains_str m ''413 payload too large'' \<or> contains_str m ''413 content too large''
     \<or> contains_str m ''413 request entity too large''"

definition has_input_length_pair :: "string \<Rightarrow> bool" where
  "has_input_length_pair m \<longleftrightarrow>
     contains_str m ''input length'' \<and> contains_str m ''exceeds the maximum allowed length''"

definition is_context_length_message :: "string \<Rightarrow> bool" where
  "is_context_length_message message \<longleftrightarrow>
     (let m = to_ascii_lowercase message in
      contains_str m ''too long for this model'' \<or> contains_str m ''prompt is too long''
      \<or> contains_str m ''maximum prompt length'' \<or> contains_str m ''maximum context length''
      \<or> contains_str m ''maximum allowed number of bytes''
      \<or> contains_str m ''current message'' \<and> contains_str m ''exceeds budget''
      \<or> is_anchored m ''request too large'' \<or> has_size_slug m \<or> has_rendered_413_phrase m
      \<or> has_input_length_pair m)"

definition coded :: "(api_error_code \<Rightarrow> bool) \<Rightarrow> api_error_code option \<Rightarrow> bool" where
  "coded p code \<longleftrightarrow> (case code of Some k \<Rightarrow> p k | None \<Rightarrow> False)"

definition is_context_length_error :: "sampling_error \<Rightarrow> bool" where
  "is_context_length_error e \<longleftrightarrow>
     (case e of
        ApiError a \<Rightarrow>
          (let size_coded = coded code_is_size_overflow (ae_code a) in
           if ae_status a = 429 \<and> ae_retry_after a \<noteq> None \<and> \<not> size_coded then False
           else size_coded \<or> is_context_length_message (ae_message a))
      | StreamError _ message code \<Rightarrow>
          coded code_is_size_overflow code \<or> is_context_length_message message
      | _ \<Rightarrow> False)"

definition is_byte_size_overflow_coded :: "sampling_error \<Rightarrow> bool" where
  "is_byte_size_overflow_coded e \<longleftrightarrow>
     (case e of
        ApiError a \<Rightarrow> coded code_is_byte_size_overflow (ae_code a)
      | StreamError _ _ code \<Rightarrow> coded code_is_byte_size_overflow code
      | _ \<Rightarrow> False)"

definition is_retry_vetoed :: "sampling_error \<Rightarrow> bool" where
  "is_retry_vetoed e \<longleftrightarrow> should_retry_header e = Some False \<or> is_context_length_error e"

text \<open>\<open>clone_error\<close>: a request error cannot be cloned and becomes a stream error of its text.\<close>

definition clone_error :: "sampling_error \<Rightarrow> sampling_error" where
  "clone_error e = (case e of HttpError r \<Rightarrow> EventStreamError (rw_text r) | _ \<Rightarrow> e)"

subsection \<open>Errors as event payloads\<close>

definition SERIALIZATION_DISPLAY_PREFIX :: string where
  "SERIALIZATION_DISPLAY_PREFIX = ''serialization error: ''"

definition MAX_TOKENS_TRUNCATION_MESSAGE :: string where
  "MAX_TOKENS_TRUNCATION_MESSAGE = ''response truncated by max_tokens''"

text \<open>\<open>status_text\<close> is how the \<open>http\<close> crate displays a status.\<close>

fun display_error :: "(nat \<Rightarrow> string) \<Rightarrow> sampling_error \<Rightarrow> string" where
  "display_error status_text (AuthError m _) = m"
| "display_error status_text (InvalidConfiguration m) = ''invalid client configuration: '' @ m"
| "display_error status_text (MtlsConfiguration m) = ''invalid mTLS client configuration: '' @ m"
| "display_error status_text (HttpError r) = ''request error: '' @ rw_text r"
| "display_error status_text (SerializationError m) = SERIALIZATION_DISPLAY_PREFIX @ m"
| "display_error status_text (ApiError a) =
     ''API error (status '' @ status_text (ae_status a) @ ''): '' @ ae_message a"
| "display_error status_text (EventStreamError m) = ''reqwest error stream: '' @ m"
| "display_error status_text (StreamError t m _) = ''stream error ('' @ t @ ''): '' @ m"
| "display_error status_text (IdleTimeout n) =
     ''inference idle timeout after '' @ nat_digits n @ ''s with no chunks''"
| "display_error status_text (EmptyResponse c) =
     ''empty response from model ('' @ empty_reason_text (ec_reason c) @ '')''"
| "display_error status_text MaxTokensTruncation = MAX_TOKENS_TRUNCATION_MESSAGE"
| "display_error status_text (DoomLoopDetected ts _) = ''doom loop detected: '' @ join '', '' ts"

datatype error_kind =
    KindAuth | KindHttp | KindApi | KindSerialization | KindIdleTimeout | KindRateLimited
  | KindEmptyResponse | KindMaxTokensTruncation | KindDoomLoopDetected

fun kind_as_str :: "error_kind \<Rightarrow> string" where
  "kind_as_str KindAuth = ''auth''"
| "kind_as_str KindHttp = ''http''"
| "kind_as_str KindApi = ''api''"
| "kind_as_str KindSerialization = ''serialization''"
| "kind_as_str KindIdleTimeout = ''idle_timeout''"
| "kind_as_str KindRateLimited = ''rate_limited''"
| "kind_as_str KindEmptyResponse = ''empty_response''"
| "kind_as_str KindMaxTokensTruncation = ''max_tokens_truncation''"
| "kind_as_str KindDoomLoopDetected = ''doom_loop_detected''"

definition kind_from_str :: "string \<Rightarrow> error_kind option" where
  "kind_from_str s =
     (if s = ''auth'' then Some KindAuth
      else if s = ''http'' then Some KindHttp
      else if s = ''api'' then Some KindApi
      else if s = ''serialization'' then Some KindSerialization
      else if s = ''idle_timeout'' then Some KindIdleTimeout
      else if s = ''rate_limited'' then Some KindRateLimited
      else if s = ''empty_response'' then Some KindEmptyResponse
      else if s = ''max_tokens_truncation'' then Some KindMaxTokensTruncation
      else if s = ''doom_loop_detected'' then Some KindDoomLoopDetected
      else None)"

record error_info =
  ei_kind :: error_kind
  ei_status :: "nat option"
  ei_message :: string
  ei_is_retryable :: bool
  ei_retry_after :: "nat option"
  ei_should_retry :: "bool option"
  ei_code :: "api_error_code option"
  ei_metadata :: "(nat option \<times> nat option \<times> string option) option"
  ei_empty :: "empty_context option"
  ei_triggers :: "string list option"
  ei_aborted_at :: "nat option"
  ei_credential :: sent_credential

fun error_kind_of :: "sampling_error \<Rightarrow> error_kind" where
  "error_kind_of (AuthError _ _) = KindAuth"
| "error_kind_of (InvalidConfiguration _) = KindApi"
| "error_kind_of (MtlsConfiguration _) = KindApi"
| "error_kind_of (HttpError _) = KindHttp"
| "error_kind_of (SerializationError _) = KindSerialization"
| "error_kind_of (ApiError a) = (if is_rate_limited (ApiError a) then KindRateLimited else KindApi)"
| "error_kind_of (EventStreamError _) = KindHttp"
| "error_kind_of (StreamError _ _ _) = KindApi"
| "error_kind_of (IdleTimeout _) = KindIdleTimeout"
| "error_kind_of (EmptyResponse _) = KindEmptyResponse"
| "error_kind_of MaxTokensTruncation = KindMaxTokensTruncation"
| "error_kind_of (DoomLoopDetected _ _) = KindDoomLoopDetected"

definition info_of :: "(nat \<Rightarrow> string) \<Rightarrow> sampling_error \<Rightarrow> error_info" where
  "info_of status_text e =
     \<lparr>ei_kind = error_kind_of e,
      ei_status = (case e of ApiError a \<Rightarrow> Some (ae_status a) | _ \<Rightarrow> None),
      ei_message = display_error status_text e,
      ei_is_retryable = is_retryable e,
      ei_retry_after = error_retry_after e,
      ei_should_retry = should_retry_header e,
      ei_code = (case e of ApiError a \<Rightarrow> ae_code a | StreamError _ _ c \<Rightarrow> c | _ \<Rightarrow> None),
      ei_metadata = (case e of ApiError a \<Rightarrow> ae_metadata a | _ \<Rightarrow> None),
      ei_empty = (case e of EmptyResponse c \<Rightarrow> Some c | _ \<Rightarrow> None),
      ei_triggers = (case e of DoomLoopDetected ts _ \<Rightarrow> Some ts | _ \<Rightarrow> None),
      ei_aborted_at = (case e of DoomLoopDetected _ k \<Rightarrow> k | _ \<Rightarrow> None),
      ei_credential = (case e of AuthError _ c \<Rightarrow> c | _ \<Rightarrow> CredentialUnknown)\<rparr>"

definition serialization_from_rendered :: "string \<Rightarrow> sampling_error" where
  "serialization_from_rendered rendered =
     SerializationError (case strip_prefix rendered SERIALIZATION_DISPLAY_PREFIX of Some m \<Rightarrow> m | None \<Rightarrow> rendered)"

text \<open>\<open>StatusCode::from_u16\<close> accepts 100 to 999.\<close>

definition status_from_u16 :: "nat \<Rightarrow> nat option" where
  "status_from_u16 c = (if 100 \<le> c \<and> c < 1000 then Some c else None)"

definition idle_seconds :: "string \<Rightarrow> nat" where
  "idle_seconds message =
     (case first (List.map_filter (\<lambda>tok. Option.bind (strip_suffix tok ''s'') (parse_unsigned (2 ^ 64 - 1)))
             (split_whitespace message)) of
        Some n \<Rightarrow> n | None \<Rightarrow> 0)"

definition synthesize_from_info :: "error_info \<Rightarrow> sampling_error" where
  "synthesize_from_info i =
     (case ei_kind i of
        KindIdleTimeout \<Rightarrow> IdleTimeout (idle_seconds (ei_message i))
      | KindAuth \<Rightarrow> AuthError (ei_message i) (ei_credential i)
      | KindSerialization \<Rightarrow> serialization_from_rendered (ei_message i)
      | KindHttp \<Rightarrow> EventStreamError (ei_message i)
      | KindEmptyResponse \<Rightarrow>
          (case ei_empty i of Some c \<Rightarrow> EmptyResponse c | None \<Rightarrow> EventStreamError (ei_message i))
      | KindMaxTokensTruncation \<Rightarrow> MaxTokensTruncation
      | KindDoomLoopDetected \<Rightarrow>
          DoomLoopDetected (case ei_triggers i of Some ts \<Rightarrow> ts | None \<Rightarrow> []) (ei_aborted_at i)
      | _ \<Rightarrow>
          ApiError \<lparr>ae_status = (case Option.bind (ei_status i) status_from_u16 of Some c \<Rightarrow> c | None \<Rightarrow> 500),
            ae_message = ei_message i, ae_metadata = ei_metadata i, ae_retry_after = ei_retry_after i,
            ae_should_retry = ei_should_retry i, ae_code = ei_code i\<rparr>)"

subsection \<open>Backoff\<close>

definition RATE_LIMIT_RETRY_THRESHOLD :: nat where "RATE_LIMIT_RETRY_THRESHOLD = 2"
definition DEFAULT_MAX_RETRIES :: nat where "DEFAULT_MAX_RETRIES = 15"
definition MAX_RETRY_BACKOFF :: nat where "MAX_RETRY_BACKOFF = 30000"
definition TRANSPORT_REBUILD_BACKOFF :: nat where "TRANSPORT_REBUILD_BACKOFF = 200"

definition resolve_max_retries_with_env :: "string option \<Rightarrow> nat option \<Rightarrow> nat" where
  "resolve_max_retries_with_env env model =
     (case Option.bind env (parse_unsigned (2 ^ 32 - 1)) of
        Some n \<Rightarrow> n
      | None \<Rightarrow> (case model of Some n \<Rightarrow> n | None \<Rightarrow> DEFAULT_MAX_RETRIES))"

text \<open>\<open>hash\<close> is what the hasher finishes with.\<close>

definition doom_loop_backoff :: "nat \<Rightarrow> nat" where
  "doom_loop_backoff hash = hash mod 251"

definition jitter_backoff :: "nat \<Rightarrow> nat \<Rightarrow> nat" where
  "jitter_backoff hash base =
     (let jitter_range = base div 5 in base - jitter_range + hash mod (jitter_range * 2 + 1))"

definition checked_shl :: "64 word \<Rightarrow> nat \<Rightarrow> 64 word option" where
  "checked_shl w n = (if n < 64 then Some (push_bit n w) else None)"

definition backoff_base :: "nat \<Rightarrow> nat" where
  "backoff_base retry_count =
     min (case checked_shl 2000 (retry_count - 1) of Some w \<Rightarrow> unat w | None \<Rightarrow> 2 ^ 64 - 1) MAX_RETRY_BACKOFF"

definition retry_backoff_with_jitter :: "nat \<Rightarrow> nat \<Rightarrow> nat" where
  "retry_backoff_with_jitter hash retry_count = jitter_backoff hash (backoff_base retry_count)"

definition retry_after_or_backoff :: "nat \<Rightarrow> nat \<Rightarrow> nat option \<Rightarrow> nat" where
  "retry_after_or_backoff hash attempt retry_after_secs =
     (case retry_after_secs of
        Some s \<Rightarrow>
          if s > 0 then jitter_backoff hash (min (s * 1000) MAX_RETRY_BACKOFF)
          else retry_backoff_with_jitter hash attempt
      | None \<Rightarrow> retry_backoff_with_jitter hash attempt)"

subsection \<open>Classification\<close>

datatype retry_decision =
    Retry nat
  | RetryWithBackoff nat
  | RetryWithImageStrip
  | RetryWithClientRebuild nat
  | EmitToSession sampling_error
  | Fatal sampling_error

definition classify_error :: "nat \<Rightarrow> sampling_error \<Rightarrow> nat \<Rightarrow> nat \<Rightarrow> nat \<Rightarrow> retry_decision" where
  "classify_error hash e retry_count max_retries rate_limit_threshold =
     (if is_auth_error e then EmitToSession (clone_error e)
      else if is_encrypted_content_error e then EmitToSession (clone_error e)
      else if max_retries = 0 then Fatal (clone_error e)
      else if is_payload_too_large e \<or> is_byte_size_overflow_coded e then RetryWithImageStrip
      else if is_image_processing_error e then RetryWithImageStrip
      else if is_retry_vetoed e then Fatal (clone_error e)
      else if (case e of DoomLoopDetected _ _ \<Rightarrow> True | _ \<Rightarrow> False) then Retry (doom_loop_backoff hash)
      else if is_rate_limited e then
        (let next_attempt = retry_count + 1 in
         if min max_retries rate_limit_threshold \<le> next_attempt then Fatal (clone_error e)
         else RetryWithBackoff (case error_retry_after e of
                Some s \<Rightarrow> s * 1000 | None \<Rightarrow> retry_backoff_with_jitter hash next_attempt))
      else if is_retryable e then
        (let next_attempt = retry_count + 1 in
         if max_retries \<le> next_attempt then Fatal (clone_error e)
         else if next_attempt = 1 then
           RetryWithClientRebuild (case e of
               HttpError _ \<Rightarrow> jitter_backoff hash TRANSPORT_REBUILD_BACKOFF
             | _ \<Rightarrow> retry_after_or_backoff hash next_attempt (error_retry_after e))
         else Retry (retry_after_or_backoff hash next_attempt (error_retry_after e)))
      else Fatal (clone_error e))"

end
