(* ===== verification/Conversation.thy ===== *)
theory Conversation
  imports Sampling_Errors
begin

text \<open>
  Conversation items, responses and the length policy
  (\<open>src/crates/codegen/xai-grok-sampling-types/src/conversation.rs\<close>), and the doom-loop reports of the server
  (\<open>xai-grok-sampling-types/src/doom_loop.rs\<close>, \<open>xai-grok-sampler/src/doom_loop.rs\<close>).  Of items and responses the
  model keeps what the sampler reads.
\<close>

subsection \<open>Items\<close>

datatype content_part = PartText string | PartImage string

record tool_call =
  tc_id :: string
  tc_name :: string
  tc_arguments :: string

record assistant_item =
  as_content :: string
  as_tool_calls :: "tool_call list"
  as_model_id :: "string option"

text \<open>A reasoning item of the Responses API.\<close>

record reasoning_item =
  re_id :: string
  re_summary :: "string list"
  re_content :: "string list option"
  re_encrypted :: "string option"

datatype conversation_item =
    SystemItem string
  | UserItem "content_part list"
  | AssistantItem assistant_item
  | ToolResultItem string "content_part list"
  | BackendToolCallItem string
  | ReasoningItem reasoning_item

definition assistant_text_item :: "string \<Rightarrow> conversation_item" where
  "assistant_text_item s = AssistantItem \<lparr>as_content = s, as_tool_calls = [], as_model_id = None\<rparr>"

definition IMAGE_STRIP_PLACEHOLDER :: string where
  "IMAGE_STRIP_PLACEHOLDER = ''[image removed '' @ [CHR 0xE2, CHR 0x80, CHR 0x94]
     @ '' the server could not process it; its contents are unavailable. ''
     @ ''Ask the user to re-attach the image if it is still needed.]''"

definition image_url :: "(string \<Rightarrow> bool) \<Rightarrow> content_part \<Rightarrow> string option" where
  "image_url should_strip p = (case p of PartImage u \<Rightarrow> if should_strip u then Some u else None | PartText _ \<Rightarrow> None)"

fun strip_item :: "(string \<Rightarrow> bool) \<Rightarrow> conversation_item \<Rightarrow> conversation_item \<times> string list" where
  "strip_item f (UserItem parts) =
     (UserItem (map (\<lambda>p. if image_url f p \<noteq> None then PartText IMAGE_STRIP_PLACEHOLDER else p) parts),
      List.map_filter (image_url f) parts)"
| "strip_item f (ToolResultItem t images) =
     (ToolResultItem t (filter (\<lambda>p. image_url f p = None) images), List.map_filter (image_url f) images)"
| "strip_item f other = (other, [])"

definition strip_images_where :: "(string \<Rightarrow> bool) \<Rightarrow> conversation_item list \<Rightarrow> conversation_item list \<times> string list" where
  "strip_images_where f items =
     (map (\<lambda>i. fst (strip_item f i)) items, concat (map (\<lambda>i. snd (strip_item f i)) items))"

definition strip_images :: "conversation_item list \<Rightarrow> conversation_item list \<times> string list" where
  "strip_images items = strip_images_where (\<lambda>_. True) items"

definition strip_images_by_url :: "string list \<Rightarrow> conversation_item list \<Rightarrow> conversation_item list \<times> nat" where
  "strip_images_by_url urls items =
     (let r = strip_images_where (\<lambda>u. u \<in> set urls) items in (fst r, length (snd r)))"

subsection \<open>Doom-loop reports\<close>

definition DOOM_LOOP_CHECK_EVENT_TYPE :: string where
  "DOOM_LOOP_CHECK_EVENT_TYPE = ''response.doom_loop_check''"

definition THINKING_CHANNEL :: string where "THINKING_CHANNEL = ''thinking''"

record doom_policy =
  dp_max_threshold :: nat
  dp_max_retries :: nat
  dp_window_tokens :: nat

definition doom_policy_default :: doom_policy where
  "doom_policy_default = \<lparr>dp_max_threshold = 64, dp_max_retries = 2, dp_window_tokens = 1024\<rparr>"

definition clamp_max_threshold :: "nat \<Rightarrow> nat" where "clamp_max_threshold v = min (max v 2) 64"
definition clamp_max_retries :: "nat \<Rightarrow> nat" where "clamp_max_retries v = min (max v 0) 5"
definition clamp_window_tokens :: "nat \<Rightarrow> nat" where
  "clamp_window_tokens v = (if 512 \<le> v \<and> v \<le> 4096 then v else 4096)"

datatype signal_kind =
  TailRepetition nat | ExactRepetition nat nat | LowLogprob | UnknownSignal string

record doom_signal =
  ds_kind :: signal_kind
  ds_channel :: string
  ds_raw :: string

definition parse_u32 :: "string \<Rightarrow> nat option" where
  "parse_u32 s = parse_unsigned (2 ^ 32 - 1) s"

definition parse_kind :: "string \<Rightarrow> signal_kind" where
  "parse_kind head =
     (case split_once head (CHR '':'') of
        Some (a, b) \<Rightarrow>
          if a = ''tail_repetition'' then
            (case parse_u32 b of Some t \<Rightarrow> TailRepetition t | None \<Rightarrow> UnknownSignal head)
          else if a = ''exact_repetition'' then
            (case split_once b (CHR ''x'') of
               Some (n, m) \<Rightarrow>
                 (case (parse_u32 n, parse_u32 m) of
                    (Some i, Some j) \<Rightarrow> ExactRepetition i j
                  | _ \<Rightarrow> UnknownSignal head)
             | None \<Rightarrow> UnknownSignal head)
          else UnknownSignal head
      | None \<Rightarrow> if head = ''low_logprob'' then LowLogprob else UnknownSignal head)"

definition parse_signal :: "string \<Rightarrow> doom_signal" where
  "parse_signal raw =
     (let (head, channel) = (case split_once raw (CHR ''@'') of Some p \<Rightarrow> p | None \<Rightarrow> (raw, [])) in
      \<lparr>ds_kind = parse_kind head, ds_channel = channel, ds_raw = raw\<rparr>)"

fun tightest_step :: "(nat \<times> string) option \<Rightarrow> string \<Rightarrow> (nat \<times> string) option" where
  "tightest_step best raw =
     (case ds_kind (parse_signal raw) of
        TailRepetition t \<Rightarrow>
          (case best of None \<Rightarrow> Some (t, raw) | Some (bt, _) \<Rightarrow> if t < bt then Some (t, raw) else best)
      | _ \<Rightarrow> best)"

definition tightest :: "string list \<Rightarrow> string option" where
  "tightest raws =
     (case foldl tightest_step None raws of Some (_, raw) \<Rightarrow> Some raw | None \<Rightarrow> first raws)"

definition is_confident :: "doom_policy \<Rightarrow> doom_signal \<Rightarrow> bool" where
  "is_confident p s \<longleftrightarrow>
     ds_channel s = THINKING_CHANNEL
     \<and> (case ds_kind s of TailRepetition t \<Rightarrow> t \<le> dp_max_threshold p | _ \<Rightarrow> False)"

definition confident_triggers :: "doom_policy \<Rightarrow> doom_signal list \<Rightarrow> string list" where
  "confident_triggers p signals = map ds_raw (filter (is_confident p) signals)"

text \<open>\<open>from_str\<close> is \<open>serde_json::from_str\<close>: a JSON text is an object, an array, a string or another scalar.\<close>

datatype json = JObj "(string \<times> json) list" | JArr "json list" | JStr string | JOther

definition json_get :: "string \<Rightarrow> json \<Rightarrow> json option" where
  "json_get k j = (case j of JObj entries \<Rightarrow> map_of entries k | _ \<Rightarrow> None)"

definition as_str :: "json \<Rightarrow> string option" where
  "as_str j = (case j of JStr s \<Rightarrow> Some s | _ \<Rightarrow> None)"

datatype doom_peek = CheckEvent "doom_signal list" | ResponseField "doom_signal list" | PeekNone

definition parse_triggers :: "json option \<Rightarrow> doom_signal list" where
  "parse_triggers triggers =
     (case triggers of Some (JArr js) \<Rightarrow> map parse_signal (List.map_filter as_str js) | _ \<Rightarrow> [])"

definition peek_doom_loop :: "(string \<Rightarrow> json option) \<Rightarrow> string \<Rightarrow> doom_peek" where
  "peek_doom_loop from_str data =
     (if \<not> contains_str data ''doom_loop_check'' then PeekNone
      else case from_str data of
        None \<Rightarrow> PeekNone
      | Some v \<Rightarrow>
          if Option.bind (json_get ''type'' v) as_str = Some DOOM_LOOP_CHECK_EVENT_TYPE then
            CheckEvent (parse_triggers
              (Option.bind (json_get ''doom_loop_check'' v) (json_get ''triggers'')))
          else
            (case Option.bind (Option.bind (json_get ''response'' v) (json_get ''doom_loop_check''))
                    (json_get ''triggers'') of
               Some triggers \<Rightarrow> ResponseField (parse_triggers (Some triggers))
             | None \<Rightarrow> PeekNone))"

definition is_check_event :: "(string \<Rightarrow> json option) \<Rightarrow> string \<Rightarrow> string \<Rightarrow> bool" where
  "is_check_event from_str event_name data \<longleftrightarrow>
     event_name = DOOM_LOOP_CHECK_EVENT_TYPE
     \<or> contains_str data DOOM_LOOP_CHECK_EVENT_TYPE
       \<and> (case from_str data of
            Some v \<Rightarrow> Option.bind (json_get ''type'' v) as_str = Some DOOM_LOOP_CHECK_EVENT_TYPE
          | None \<Rightarrow> False)"

subsection \<open>The collector of one attempt\<close>

definition MAX_COLLECTED_DOOM_LOOP_SIGNALS :: nat where "MAX_COLLECTED_DOOM_LOOP_SIGNALS = 64"
definition MAX_DOOM_LOOP_SIGNAL_BYTES :: nat where "MAX_DOOM_LOOP_SIGNAL_BYTES = 256"

record collector =
  co_signals :: "doom_signal list"
  co_malformed_logged :: bool
  co_policy :: doom_policy
  co_abort_disarmed :: bool

definition collector_new :: "doom_policy \<Rightarrow> collector" where
  "collector_new p =
     \<lparr>co_signals = [], co_malformed_logged = False, co_policy = p, co_abort_disarmed = False\<rparr>"

definition disarm_abort :: "collector \<Rightarrow> collector" where
  "disarm_abort c = c\<lparr>co_abort_disarmed := True\<rparr>"

definition abort_triggers :: "collector \<Rightarrow> string list option" where
  "abort_triggers c =
     (if co_abort_disarmed c then None
      else let confident = confident_triggers (co_policy c) (co_signals c) in
        if confident = [] then None else Some confident)"

text \<open>Both bounded sets, of signals here and of labels of a request, grow the same way.\<close>

fun merge_bounded :: "('a \<Rightarrow> string) \<Rightarrow> 'a list \<Rightarrow> 'a list \<Rightarrow> 'a list" where
  "merge_bounded label kept [] = kept"
| "merge_bounded label kept (s # ss) =
     (if MAX_COLLECTED_DOOM_LOOP_SIGNALS \<le> length kept then kept
      else merge_bounded label
        (if length (label s) \<le> MAX_DOOM_LOOP_SIGNAL_BYTES \<and> \<not> list_ex (\<lambda>k. label k = label s) kept
         then kept @ [s] else kept) ss)"

definition collector_record :: "doom_signal list \<Rightarrow> collector \<Rightarrow> collector" where
  "collector_record ss c = c\<lparr>co_signals := merge_bounded ds_raw (co_signals c) ss\<rparr>"

definition log_malformed_once :: "collector \<Rightarrow> collector" where
  "log_malformed_once c = c\<lparr>co_malformed_logged := True\<rparr>"

definition absorb :: "(string \<Rightarrow> json option) \<Rightarrow> string \<Rightarrow> string \<Rightarrow> collector \<Rightarrow> bool \<times> collector" where
  "absorb from_str event_name data c =
     (let named = event_name = DOOM_LOOP_CHECK_EVENT_TYPE;
          settle = (\<lambda>ss. if ss = [] then log_malformed_once c else collector_record ss c) in
      case peek_doom_loop from_str data of
        CheckEvent ss \<Rightarrow> (True, settle ss)
      | ResponseField ss \<Rightarrow> (named, settle ss)
      | PeekNone \<Rightarrow> (named, if named then log_malformed_once c else c))"

definition collector_take :: "collector \<Rightarrow> doom_signal list \<times> collector" where
  "collector_take c = (co_signals c, c\<lparr>co_signals := []\<rparr>)"

definition merge_signal_labels :: "string list \<Rightarrow> string list \<Rightarrow> string list" where
  "merge_signal_labels target signals = merge_bounded (\<lambda>s. s) target signals"

subsection \<open>Responses\<close>

datatype stop_reason = StopEnd | StopLength | StopToolCalls | StopContentFilter

fun stop_reason_text :: "stop_reason \<Rightarrow> string" where
  "stop_reason_text StopEnd = ''stop''"
| "stop_reason_text StopLength = ''length''"
| "stop_reason_text StopToolCalls = ''tool_calls''"
| "stop_reason_text StopContentFilter = ''content_filter''"

record response =
  rp_items :: "conversation_item list"
  rp_stop :: "stop_reason option"
  rp_signals :: "doom_signal list"

definition response_assistant :: "response \<Rightarrow> assistant_item option" where
  "response_assistant r =
     first (List.map_filter (\<lambda>i. case i of AssistantItem a \<Rightarrow> Some a | _ \<Rightarrow> None) (rev (rp_items r)))"

definition response_reasoning :: "response \<Rightarrow> reasoning_item list" where
  "response_reasoning r = List.map_filter (\<lambda>i. case i of ReasoningItem x \<Rightarrow> Some x | _ \<Rightarrow> None) (rp_items r)"

definition response_tool_calls :: "response \<Rightarrow> tool_call list" where
  "response_tool_calls r = (case response_assistant r of Some a \<Rightarrow> as_tool_calls a | None \<Rightarrow> [])"

definition has_any_reasoning :: "response \<Rightarrow> bool" where
  "has_any_reasoning r \<longleftrightarrow>
     list_ex (\<lambda>x. re_summary x \<noteq> [] \<or> re_content x \<noteq> None \<or> re_encrypted x \<noteq> None) (response_reasoning r)"

definition empty_reason_of :: "response \<Rightarrow> empty_reason option" where
  "empty_reason_of r =
     (case response_assistant r of
        None \<Rightarrow> Some NoVisibleContent
      | Some a \<Rightarrow>
          if as_content a \<noteq> [] \<or> as_tool_calls a \<noteq> [] then None
          else if has_any_reasoning r then Some ReasoningOnly
          else Some NoVisibleContent)"

definition build_empty_context :: "empty_reason \<Rightarrow> response \<Rightarrow> empty_context" where
  "build_empty_context reason r =
     (let a = response_assistant r in
      \<lparr>ec_reason = reason,
       ec_had_reasoning = has_any_reasoning r,
       ec_content_len = (case a of Some x \<Rightarrow> length (as_content x) | None \<Rightarrow> 0),
       ec_tool_call_count = (case a of Some x \<Rightarrow> length (as_tool_calls x) | None \<Rightarrow> 0),
       ec_finish_reason = map_option stop_reason_text (rp_stop r),
       ec_model = (case Option.bind a as_model_id of Some m \<Rightarrow> m | None \<Rightarrow> []),
       ec_first_choice_seen = (case a of Some x \<Rightarrow> as_model_id x \<noteq> None | None \<Rightarrow> False)\<rparr>)"

datatype length_policy = LengthFail | CompleteToolCalls | CompletePartial
datatype length_verdict = VerdictPass | Salvage | SalvageToolCalls | VerdictFail

text \<open>\<open>is_json\<close> tells whether \<open>serde_json\<close> reads the text.\<close>

definition policy_verdict :: "(string \<Rightarrow> bool) \<Rightarrow> length_policy \<Rightarrow> response \<Rightarrow> length_verdict" where
  "policy_verdict is_json p r =
     (if rp_stop r \<noteq> Some StopLength then VerdictPass
      else let calls = response_tool_calls r in
        if calls \<noteq> [] then
          (if p \<noteq> LengthFail
              \<and> list_all (\<lambda>tc. trim (tc_arguments tc) = [] \<or> is_json (tc_arguments tc)) calls
           then SalvageToolCalls else VerdictFail)
        else if p = CompletePartial \<and> empty_reason_of r = None then Salvage
        else VerdictFail)"

definition apply_length_policy :: "(string \<Rightarrow> bool) \<Rightarrow> length_policy \<Rightarrow> response \<Rightarrow> sampling_error + response" where
  "apply_length_policy is_json p r =
     (if policy_verdict is_json p r = VerdictFail then Inl MaxTokensTruncation else Inr r)"

end
