(* ===== verification/Recovery.thy ===== *)
theory Recovery
  imports Conversation "HOL-Library.Char_ord" "HOL-Library.List_Lexorder" "HOL-Library.Product_Lexorder"
begin

text \<open>
  What a failed response leaves for the next attempt
  (\<open>src/crates/codegen/xai-grok-sampler/src/doom_loop_recovery.rs\<close>): the byte budgets, the capture of a
  stream and the items that are replayed.  A \<open>BTreeMap\<close> is an association list sorted by key; a poisoned lock
  is not modelled.
\<close>

definition RECOVERY_REMINDER :: string where
  "RECOVERY_REMINDER = ''<system_reminder>Your messages have been flagged as looping. Your response has ''
     @ ''been flagged as repeating the same text pattern. Avoid excessive repetition. If you are having ''
     @ ''trouble ask the user for guidance.</system_reminder>''"

definition MAX_RECOVERY_REASONING_BYTES :: nat where "MAX_RECOVERY_REASONING_BYTES = 8 * 1024"
definition MAX_RECOVERY_TEXT_BYTES :: nat where "MAX_RECOVERY_TEXT_BYTES = 4 * 1024"

definition RECOVERY_TRUNCATION_MARKER :: string where
  "RECOVERY_TRUNCATION_MARKER = '' ['' @ [CHR 0xE2, CHR 0x80, CHR 0xA6] @ ''truncated]''"

subsection \<open>Budgets\<close>

record recovery_budget =
  rb_cap :: nat
  rb_used :: nat
  rb_truncated :: bool

definition budget_new :: "nat \<Rightarrow> recovery_budget" where
  "budget_new cap = \<lparr>rb_cap = cap, rb_used = 0, rb_truncated = False\<rparr>"

definition budget_append :: "recovery_budget \<Rightarrow> string \<Rightarrow> string \<Rightarrow> recovery_budget \<times> string" where
  "budget_append b slot s =
     (if rb_truncated b then (b, slot)
      else let remaining = rb_cap b - rb_used b in
        if length s \<le> remaining then (b\<lparr>rb_used := rb_used b + length s\<rparr>, slot @ s)
        else let cut = floor_boundary s remaining in
          if cut = 0 \<and> slot = [] then (b\<lparr>rb_truncated := True\<rparr>, slot)
          else (b\<lparr>rb_truncated := True, rb_used := rb_used b + cut\<rparr>,
                slot @ take cut s @ RECOVERY_TRUNCATION_MARKER))"

definition budget_replace :: "recovery_budget \<Rightarrow> string \<Rightarrow> string \<Rightarrow> recovery_budget \<times> string" where
  "budget_replace b slot s =
     (if rb_truncated b then (b, slot)
      else budget_append (b\<lparr>rb_used := rb_used b - length slot\<rparr>) [] s)"

definition budget_charge :: "recovery_budget \<Rightarrow> nat \<Rightarrow> recovery_budget \<times> bool" where
  "budget_charge b n =
     (if rb_truncated b \<or> n > rb_cap b - rb_used b then (b, False)
      else (b\<lparr>rb_used := rb_used b + n\<rparr>, True))"

definition budget_fit :: "recovery_budget \<Rightarrow> string \<Rightarrow> recovery_budget \<times> string" where
  "budget_fit b s = budget_append b [] s"

subsection \<open>Sorted maps\<close>

fun bt_get :: "'k::linorder \<Rightarrow> 'v \<Rightarrow> ('k \<times> 'v) list \<Rightarrow> 'v" where
  "bt_get k d [] = d"
| "bt_get k d ((a, v) # m) = (if k < a then d else if k = a then v else bt_get k d m)"

fun bt_put :: "'k::linorder \<Rightarrow> 'v \<Rightarrow> ('k \<times> 'v) list \<Rightarrow> ('k \<times> 'v) list" where
  "bt_put k x [] = [(k, x)]"
| "bt_put k x ((a, v) # m) =
     (if k < a then (k, x) # (a, v) # m else if k = a then (k, x) # m else (a, v) # bt_put k x m)"

definition bt_extend :: "('k::linorder \<times> 'v) list \<Rightarrow> ('k \<times> 'v) list \<Rightarrow> ('k \<times> 'v) list" where
  "bt_extend m kvs = fold (\<lambda>(k, x). bt_put k x) kvs m"

subsection \<open>The capture\<close>

datatype captured_item = CapturedReasoning reasoning_item | CapturedText string

text \<open>A wire item: the text and refusal parts of a message, a reasoning item, or any other kind.\<close>

datatype output_item = OutMessage "string list" | OutReasoning reasoning_item | OutOther

type_synonym part_map = "((nat \<times> string) \<times> (nat \<times> string) list) list"

record captured =
  cp_typed :: "(nat \<times> captured_item) list"
  cp_terminal_seen :: bool
  cp_content :: part_map
  cp_summary :: part_map
  cp_raw_indexes :: "nat list"
  cp_output :: "((nat \<times> nat \<times> string) \<times> string) list"
  cp_reasoning_budget :: recovery_budget
  cp_text_budget :: recovery_budget
  cp_veto_replay :: bool

definition captured_new :: captured where
  "captured_new =
     \<lparr>cp_typed = [], cp_terminal_seen = False, cp_content = [], cp_summary = [], cp_raw_indexes = [],
      cp_output = [], cp_reasoning_budget = budget_new MAX_RECOVERY_REASONING_BYTES,
      cp_text_budget = budget_new MAX_RECOVERY_TEXT_BYTES, cp_veto_replay = False\<rparr>"

text \<open>One update of a slot of a part map by a budget operation.\<close>

definition put_part ::
    "(recovery_budget \<Rightarrow> string \<Rightarrow> string \<Rightarrow> recovery_budget \<times> string)
     \<Rightarrow> recovery_budget \<Rightarrow> nat \<times> string \<Rightarrow> nat \<Rightarrow> string \<Rightarrow> part_map \<Rightarrow> recovery_budget \<times> string \<times> part_map" where
  "put_part write b key i s m =
     (let parts = bt_get key [] m;
          (b', slot) = write b (bt_get i [] parts) s in
      (b', slot, bt_put key (bt_put i slot parts) m))"

definition record_reasoning ::
    "(recovery_budget \<Rightarrow> string \<Rightarrow> string \<Rightarrow> recovery_budget \<times> string)
     \<Rightarrow> nat \<Rightarrow> nat \<Rightarrow> string \<Rightarrow> string \<Rightarrow> captured \<Rightarrow> captured" where
  "record_reasoning write oi ci item_id s c =
     (if s = [] then c
      else let (b, slot, m) = put_part write (cp_reasoning_budget c) (oi, item_id) ci s (cp_content c) in
        c\<lparr>cp_reasoning_budget := b, cp_content := m,
          cp_raw_indexes := (if slot \<noteq> [] then oi # cp_raw_indexes c else cp_raw_indexes c)\<rparr>)"

definition record_reasoning_delta :: "nat \<Rightarrow> nat \<Rightarrow> string \<Rightarrow> string \<Rightarrow> captured \<Rightarrow> captured" where
  "record_reasoning_delta = record_reasoning budget_append"

definition record_reasoning_done :: "nat \<Rightarrow> nat \<Rightarrow> string \<Rightarrow> string \<Rightarrow> captured \<Rightarrow> captured" where
  "record_reasoning_done = record_reasoning budget_replace"

definition record_summary ::
    "(recovery_budget \<Rightarrow> string \<Rightarrow> string \<Rightarrow> recovery_budget \<times> string)
     \<Rightarrow> nat \<Rightarrow> nat \<Rightarrow> string \<Rightarrow> string \<Rightarrow> captured \<Rightarrow> captured" where
  "record_summary write oi si item_id s c =
     (if s = [] \<or> oi \<in> set (cp_raw_indexes c) then c
      else let (b, slot, m) = put_part write (cp_reasoning_budget c) (oi, item_id) si s (cp_summary c) in
        c\<lparr>cp_reasoning_budget := b, cp_summary := m\<rparr>)"

definition record_reasoning_summary_delta :: "nat \<Rightarrow> nat \<Rightarrow> string \<Rightarrow> string \<Rightarrow> captured \<Rightarrow> captured" where
  "record_reasoning_summary_delta = record_summary budget_append"

definition record_reasoning_summary_done :: "nat \<Rightarrow> nat \<Rightarrow> string \<Rightarrow> string \<Rightarrow> captured \<Rightarrow> captured" where
  "record_reasoning_summary_done = record_summary budget_replace"

definition record_output ::
    "(recovery_budget \<Rightarrow> string \<Rightarrow> string \<Rightarrow> recovery_budget \<times> string)
     \<Rightarrow> nat \<Rightarrow> nat \<Rightarrow> string \<Rightarrow> string \<Rightarrow> captured \<Rightarrow> captured" where
  "record_output write oi ci item_id s c =
     (if s = [] then c
      else let (b, slot) = write (cp_text_budget c) (bt_get (oi, ci, item_id) [] (cp_output c)) s in
        c\<lparr>cp_text_budget := b, cp_output := bt_put (oi, ci, item_id) slot (cp_output c)\<rparr>)"

definition record_output_delta :: "nat \<Rightarrow> nat \<Rightarrow> string \<Rightarrow> string \<Rightarrow> captured \<Rightarrow> captured" where
  "record_output_delta = record_output budget_append"

definition record_output_done :: "nat \<Rightarrow> nat \<Rightarrow> string \<Rightarrow> string \<Rightarrow> captured \<Rightarrow> captured" where
  "record_output_done = record_output budget_replace"

definition record_unreplayable :: "captured \<Rightarrow> captured" where
  "record_unreplayable c = c\<lparr>cp_veto_replay := True\<rparr>"

definition record_item_start :: "output_item \<Rightarrow> captured \<Rightarrow> captured" where
  "record_item_start item c = (case item of OutOther \<Rightarrow> record_unreplayable c | _ \<Rightarrow> c)"

definition record_output_item :: "nat \<Rightarrow> output_item \<Rightarrow> captured \<Rightarrow> captured" where
  "record_output_item oi item c =
     (case item of
        OutReasoning r \<Rightarrow> c\<lparr>cp_typed := bt_put oi (CapturedReasoning r) (cp_typed c)\<rparr>
      | OutMessage parts \<Rightarrow>
          (if concat parts = [] then c
           else c\<lparr>cp_typed := bt_put oi (CapturedText (concat parts)) (cp_typed c)\<rparr>)
      | OutOther \<Rightarrow> c\<lparr>cp_veto_replay := True\<rparr>)"

definition record_terminal_output :: "output_item list \<Rightarrow> captured \<Rightarrow> captured" where
  "record_terminal_output out c =
     fold (\<lambda>(i, item). record_output_item i item) (enumerate 0 out)
       (c\<lparr>cp_typed := [], cp_terminal_seen := True\<rparr>)"

text \<open>A disarmed handle records nothing.\<close>

type_synonym capture = "captured option"

definition capture_armed :: capture where "capture_armed = Some captured_new"

definition capture_with :: "(captured \<Rightarrow> captured) \<Rightarrow> capture \<Rightarrow> capture" where
  "capture_with f c = map_option f c"

subsection \<open>The replay\<close>

record captured_turn =
  ct_typed :: "captured_item list"
  ct_terminal_seen :: bool
  ct_reasoning :: "(string \<times> string) list"
  ct_output :: string
  ct_veto_replay :: bool

definition turn_of :: "captured \<Rightarrow> captured_turn" where
  "turn_of c =
     (let raw_content = filter (\<lambda>(k, parts). list_ex (\<lambda>(i, s). s \<noteq> []) parts) (cp_content c);
          raw_indexes = map (\<lambda>((oi, item_id), parts). oi) raw_content;
          parts_of = bt_extend (filter (\<lambda>((oi, item_id), parts). oi \<notin> set raw_indexes) (cp_summary c)) raw_content in
      \<lparr>ct_typed = map snd (cp_typed c),
       ct_terminal_seen = cp_terminal_seen c,
       ct_reasoning = filter (\<lambda>(item_id, s). s \<noteq> [])
          (map (\<lambda>((oi, item_id), parts). (item_id, concat (map snd parts))) parts_of),
       ct_output = concat (map snd (cp_output c)),
       ct_veto_replay = cp_veto_replay c\<rparr>)"

definition capture_take :: "capture \<Rightarrow> captured_turn \<times> capture" where
  "capture_take c =
     (case c of
        Some x \<Rightarrow> (turn_of x, Some captured_new)
      | None \<Rightarrow> (\<lparr>ct_typed = [], ct_terminal_seen = False, ct_reasoning = [], ct_output = [],
                  ct_veto_replay = False\<rparr>, None))"

fun take_streamed :: "string \<Rightarrow> (string \<times> string) list \<Rightarrow> string option \<times> (string \<times> string) list" where
  "take_streamed item_id [] = (None, [])"
| "take_streamed item_id ((a, s) # rest) =
     (if a = item_id then (Some s, rest)
      else let (r, rest') = take_streamed item_id rest in (r, (a, s) # rest'))"

fun fit_all :: "recovery_budget \<Rightarrow> string list \<Rightarrow> recovery_budget \<times> string list" where
  "fit_all b [] = (b, [])"
| "fit_all b (s # ss) =
     (let (b1, s') = budget_fit b s; (b2, ss') = fit_all b1 ss in (b2, s' # ss'))"

definition non_empty :: "string list \<Rightarrow> string list" where
  "non_empty ss = filter (\<lambda>s. s \<noteq> []) ss"

definition fit_reasoning ::
    "reasoning_item \<Rightarrow> string option \<Rightarrow> recovery_budget \<Rightarrow> recovery_budget \<times> reasoning_item" where
  "fit_reasoning r streamed b =
     (let typed = non_empty (case re_content r of Some ps \<Rightarrow> ps | None \<Rightarrow> []);
          wanted = (if typed = [] then (case streamed of Some s \<Rightarrow> [s] | None \<Rightarrow> []) else typed);
          (b1, fitted) = fit_all b wanted;
          content = non_empty fitted;
          (b2, summary) = fit_all b1 (re_summary r);
          r' = r\<lparr>re_content := (if content = [] then None else Some content),
                 re_summary := non_empty summary\<rparr> in
      case re_encrypted r of
        None \<Rightarrow> (b2, r')
      | Some e \<Rightarrow>
          (let (b3, kept) = budget_charge b2 (length e) in
           (b3, if kept then r' else r'\<lparr>re_encrypted := None\<rparr>)))"

definition reasoning_has_text :: "reasoning_item \<Rightarrow> bool" where
  "reasoning_has_text r \<longleftrightarrow>
     (case re_content r of Some ps \<Rightarrow> list_ex (\<lambda>s. s \<noteq> []) ps | None \<Rightarrow> False) \<or> re_summary r \<noteq> []"

record replay =
  rl_reasoning_budget :: recovery_budget
  rl_text_budget :: recovery_budget
  rl_streamed :: "(string \<times> string) list"
  rl_carried_text :: bool
  rl_items :: "conversation_item list"

fun replay_item :: "captured_item \<Rightarrow> replay \<Rightarrow> replay" where
  "replay_item (CapturedReasoning r) st =
     (let (streamed, rest) = take_streamed (re_id r) (rl_streamed st);
          (b, r') = fit_reasoning r streamed (rl_reasoning_budget st) in
      st\<lparr>rl_streamed := rest, rl_reasoning_budget := b,
         rl_items := (if reasoning_has_text r' \<or> re_encrypted r' \<noteq> None
                      then rl_items st @ [ReasoningItem r'] else rl_items st)\<rparr>)"
| "replay_item (CapturedText s) st =
     (let (b, t) = budget_fit (rl_text_budget st) s in
      st\<lparr>rl_carried_text := True, rl_text_budget := b,
         rl_items := (if t \<noteq> [] then rl_items st @ [assistant_text_item t] else rl_items st)\<rparr>)"

definition replay_streamed :: "string \<times> string \<Rightarrow> replay \<Rightarrow> replay" where
  "replay_streamed p st =
     (let (item_id, s) = p; (b, t) = budget_fit (rl_reasoning_budget st) s in
      st\<lparr>rl_reasoning_budget := b,
         rl_items := (if t = [] then rl_items st
           else rl_items st @ [ReasoningItem
             \<lparr>re_id = item_id, re_summary = [], re_content = Some [t], re_encrypted = None\<rparr>])\<rparr>)"

definition replay_output :: "string \<Rightarrow> replay \<Rightarrow> replay" where
  "replay_output s st =
     (if rl_carried_text st then st
      else let (b, t) = budget_fit (rl_text_budget st) s in
        st\<lparr>rl_text_budget := b,
           rl_items := (if t \<noteq> [] then rl_items st @ [assistant_text_item t] else rl_items st)\<rparr>)"

definition replay_new :: "captured_turn \<Rightarrow> replay" where
  "replay_new t =
     \<lparr>rl_reasoning_budget = budget_new MAX_RECOVERY_REASONING_BYTES,
      rl_text_budget = budget_new MAX_RECOVERY_TEXT_BYTES, rl_streamed = ct_reasoning t,
      rl_carried_text = False, rl_items = []\<rparr>"

definition items_of_turn :: "captured_turn \<Rightarrow> conversation_item list" where
  "items_of_turn t =
     (if ct_veto_replay t then []
      else let st = fold replay_item (ct_typed t) (replay_new t) in
        if ct_terminal_seen t then rl_items st
        else rl_items (replay_output (ct_output t) (fold replay_streamed (rl_streamed st) st)))"

definition take_items :: "capture \<Rightarrow> conversation_item list" where
  "take_items c = items_of_turn (fst (capture_take c))"

text \<open>\<open>system_reminder\<close> makes a user item of plain text.\<close>

definition append_recovery_context :: "conversation_item list \<Rightarrow> conversation_item list \<Rightarrow> conversation_item list" where
  "append_recovery_context items failed_items = items @ failed_items @ [UserItem [PartText RECOVERY_REMINDER]]"

end
