(* ===== verification/Sampling_Task.thy ===== *)
theory Sampling_Task
  imports Recovery
begin

text \<open>
  The task of one model request (\<open>src/crates/codegen/xai-grok-sampler/src/actor/request_task.rs\<close>,
  \<open>request_metadata.rs\<close>): an attempt drives the event stream of its backend, the loop classifies what came out
  and retries.  The stream of an attempt, the cancellation token, jitter and whether a client can be rebuilt
  are inputs.  Every event belongs to the one request, so request identifiers are left out, as are telemetry
  and the rendered reason of a retry.
\<close>

subsection \<open>Events\<close>

datatype strip_reason = ServerRejected | PayloadHeuristic

datatype sampling_event =
    StreamStarted
  | FirstToken
  | ChannelToken bool string
  | ToolCallDelta string
  | ResponseStarted string
  | ReasoningCompleted string
  | EvCompleted response nat
  | EvDoomLoopSignals "string list"
  | EvImagesStripped "string list" strip_reason
  | EvRetrying nat nat error_kind "string list option" "nat option"
  | EvFailed error_info
  | EvModelMetadata
  | BackendToolCallStarted string
  | BackendToolCallCompleted string

definition is_terminal :: "sampling_event \<Rightarrow> bool" where
  "is_terminal e \<longleftrightarrow> (case e of EvCompleted _ _ \<Rightarrow> True | EvFailed _ \<Rightarrow> True | _ \<Rightarrow> False)"

definition is_output :: "sampling_event \<Rightarrow> bool" where
  "is_output e \<longleftrightarrow>
     (case e of FirstToken \<Rightarrow> True | ChannelToken _ _ \<Rightarrow> True | ToolCallDelta _ \<Rightarrow> True
      | BackendToolCallStarted _ \<Rightarrow> True | BackendToolCallCompleted _ \<Rightarrow> True | _ \<Rightarrow> False)"

subsection \<open>One attempt\<close>

datatype attempt_outcome =
    AttemptCompleted response
  | AttemptEmpty empty_context "string list"
  | AttemptFailed sampling_error "string list" "conversation_item list"
  | AttemptCancelled
  | AttemptInitFailed sampling_error

text \<open>What the driver waits for: a cancellation or the next event of the transform.\<close>

datatype l2_input = CancelFired | L2 sampling_event

text \<open>The first error of the raw stream, as the tee captures it.\<close>

definition tee_errors :: "sampling_error list \<Rightarrow> sampling_error option" where
  "tee_errors errors = map_option clone_error (first errors)"

definition stream_dropped :: sampling_error where
  "stream_dropped = EventStreamError ''stream dropped without terminal event''"

record driver =
  dr_captured :: "sampling_error option"
  dr_doom_check :: "doom_policy option"
  dr_failed_response :: capture
  dr_length_policy :: length_policy
  dr_is_json :: "string \<Rightarrow> bool"

definition accept_response :: "driver \<Rightarrow> string list \<Rightarrow> response \<Rightarrow> attempt_outcome" where
  "accept_response d triggers r =
     (case apply_length_policy (dr_is_json d) (dr_length_policy d) r of
        Inl e \<Rightarrow> AttemptFailed e triggers []
      | Inr r' \<Rightarrow>
          (case (rp_stop r' = Some StopContentFilter, empty_reason_of r') of
             (False, Some reason) \<Rightarrow> AttemptEmpty (build_empty_context reason r') triggers
           | _ \<Rightarrow> AttemptCompleted r'))"

definition judge_response :: "driver \<Rightarrow> string list \<Rightarrow> response \<Rightarrow> attempt_outcome" where
  "judge_response d triggers r =
     (let confident = (case dr_doom_check d of Some p \<Rightarrow> confident_triggers p (rp_signals r) | None \<Rightarrow> []) in
      if confident \<noteq> [] then
        AttemptFailed (DoomLoopDetected confident None) triggers (take_items (dr_failed_response d))
      else accept_response d triggers r)"

definition failed_outcome :: "driver \<Rightarrow> string list \<Rightarrow> error_info \<Rightarrow> attempt_outcome" where
  "failed_outcome d signals info =
     (let e = (case dr_captured d of Some raw \<Rightarrow> raw | None \<Rightarrow> synthesize_from_info info) in
      AttemptFailed e signals
        (case e of DoomLoopDetected _ _ \<Rightarrow> take_items (dr_failed_response d) | _ \<Rightarrow> []))"

fun drive_l2 :: "driver \<Rightarrow> string list \<Rightarrow> bool \<Rightarrow> l2_input list \<Rightarrow> attempt_outcome \<times> bool \<times> sampling_event list" where
  "drive_l2 d signals observed [] = (AttemptFailed stream_dropped signals [], observed, [])"
| "drive_l2 d signals observed (CancelFired # _) = (AttemptCancelled, observed, [])"
| "drive_l2 d signals observed (L2 e # rest) =
     (case e of
        EvCompleted r _ \<Rightarrow>
          (let triggers = merge_signal_labels [] (map ds_raw (rp_signals r)) in
           (judge_response d triggers r, True, if triggers = [] then [] else [EvDoomLoopSignals triggers]))
      | EvFailed info \<Rightarrow> (failed_outcome d signals info, observed, [])
      | EvDoomLoopSignals triggers \<Rightarrow>
          (let (out, obs, evs) = drive_l2 d (merge_signal_labels signals triggers) observed rest in
           (out, obs, EvDoomLoopSignals triggers # evs))
      | _ \<Rightarrow>
          (let (out, obs, evs) = drive_l2 d signals (observed \<or> is_output e) rest in
           (out, obs, e # evs)))"

datatype api_backend = ChatCompletions | Responses | Messages

text \<open>What the wire does in one attempt: the error of opening the stream, the errors of the raw stream, what a
  capture records, whether the transform itself saw output, and the inputs of the driver.\<close>

record attempt_world =
  aw_init_error :: "sampling_error option"
  aw_raw_errors :: "sampling_error list"
  aw_capture :: captured
  aw_observed :: bool
  aw_inputs :: "l2_input list"

definition run_one_attempt ::
    "api_backend \<Rightarrow> length_policy \<Rightarrow> (string \<Rightarrow> bool) \<Rightarrow> doom_policy option \<Rightarrow> bool \<Rightarrow> attempt_world
     \<Rightarrow> attempt_outcome \<times> bool \<times> sampling_event list" where
  "run_one_attempt backend lp is_json doom_check observed w =
     (case aw_init_error w of
        Some e \<Rightarrow> (AttemptInitFailed e, observed, [])
      | None \<Rightarrow>
          (let tracked = backend = Responses;
               armed = (if tracked then doom_check else None);
               d = \<lparr>dr_captured = tee_errors (aw_raw_errors w), dr_doom_check = armed,
                    dr_failed_response = (if armed \<noteq> None then Some (aw_capture w) else None),
                    dr_length_policy = lp, dr_is_json = is_json\<rparr> in
           drive_l2 d [] (observed \<or> tracked \<and> aw_observed w) (aw_inputs w)))"

subsection \<open>The result of a request\<close>

definition MAX_DOOM_LOOP_RECOVERY_ATTEMPTS :: nat where "MAX_DOOM_LOOP_RECOVERY_ATTEMPTS = 16"

text \<open>A result carries the response and the number of attempts of its metrics.\<close>

record collected =
  cl_result :: "sampling_error + response \<times> nat"
  cl_queued :: bool
  cl_signals :: "string list"
  cl_recoveries :: "(string list \<times> nat option) list"

record completion =
  cm_open :: bool
  cm_signals :: "string list"
  cm_recoveries :: "(string list \<times> nat option) list"
  cm_sent :: "collected option"

definition completion_new :: "bool \<Rightarrow> completion" where
  "completion_new wanted = \<lparr>cm_open = wanted, cm_signals = [], cm_recoveries = [], cm_sent = None\<rparr>"

definition merge_doom_loop_signals :: "string list \<Rightarrow> completion \<Rightarrow> completion" where
  "merge_doom_loop_signals ss c = c\<lparr>cm_signals := merge_signal_labels (cm_signals c) ss\<rparr>"

definition record_recovery_attempt :: "string list \<Rightarrow> nat option \<Rightarrow> completion \<Rightarrow> completion" where
  "record_recovery_attempt triggers chunk c =
     (if MAX_DOOM_LOOP_RECOVERY_ATTEMPTS \<le> length (cm_recoveries c) then c
      else c\<lparr>cm_recoveries := cm_recoveries c @ [(merge_signal_labels [] triggers, chunk)]\<rparr>)"

definition completion_send :: "sampling_error + response \<times> nat \<Rightarrow> bool \<Rightarrow> completion \<Rightarrow> completion" where
  "completion_send result queued c =
     (if cm_open c then
        c\<lparr>cm_open := False, cm_signals := [], cm_recoveries := [],
          cm_sent := Some \<lparr>cl_result = result, cl_queued = queued, cl_signals = cm_signals c,
                           cl_recoveries = cm_recoveries c\<rparr>\<rparr>
      else c)"

subsection \<open>The loop\<close>

record task_config =
  tc_backend :: api_backend
  tc_length_policy :: length_policy
  tc_is_json :: "string \<Rightarrow> bool"
  tc_status_text :: "nat \<Rightarrow> string"
  tc_max_retries :: "nat option"
  tc_rate_limit_threshold :: "nat option"
  tc_doom_policy :: "doom_policy option"
  tc_policy_max_retries :: nat
  tc_policy_threshold :: nat
  tc_retry_only_before_output :: bool
  tc_env_retries :: "string option"
  tc_listening :: bool

definition configured_max_retries :: "task_config \<Rightarrow> nat" where
  "configured_max_retries cfg =
     (let configured = (case tc_max_retries cfg of Some n \<Rightarrow> n | None \<Rightarrow> tc_policy_max_retries cfg) in
      if configured = 0 then 0 else resolve_max_retries_with_env (tc_env_retries cfg) (Some configured))"

definition doom_max_retries :: "task_config \<Rightarrow> nat" where
  "doom_max_retries cfg = (case tc_doom_policy cfg of Some p \<Rightarrow> dp_max_retries p | None \<Rightarrow> 0)"

record task =
  ts_items :: "conversation_item list"
  ts_retry_count :: nat
  ts_doom_retry_count :: nat
  ts_http1 :: bool
  ts_observed :: bool
  ts_completion :: completion
  ts_events :: "sampling_event list"
  ts_sleeps :: "nat list"

text \<open>The inputs of one round of the loop.\<close>

record round =
  rd_cancelled :: bool
  rd_world :: "bool \<Rightarrow> conversation_item list \<Rightarrow> bool \<Rightarrow> attempt_world"
  rd_hash :: nat
  rd_sleep_cancelled :: bool
  rd_rebuilt :: bool

datatype progress = Continue task | Finished task

definition emit :: "sampling_event list \<Rightarrow> task \<Rightarrow> task" where
  "emit es t = t\<lparr>ts_events := ts_events t @ es\<rparr>"

text \<open>\<open>emit_failed\<close> followed by \<open>send_completion\<close>.\<close>

definition fail_with :: "task_config \<Rightarrow> sampling_error \<Rightarrow> sampling_error \<Rightarrow> task \<Rightarrow> progress" where
  "fail_with cfg shown sent t =
     Finished ((emit [EvFailed (info_of (tc_status_text cfg) shown)] t)
       \<lparr>ts_completion := completion_send (Inl sent) (tc_listening cfg) (ts_completion t)\<rparr>)"

definition emit_retrying :: "task_config \<Rightarrow> nat \<Rightarrow> nat \<Rightarrow> sampling_error \<Rightarrow> task \<Rightarrow> task" where
  "emit_retrying cfg attempt max_retries e t =
     (let info = info_of (tc_status_text cfg) e in
      emit [EvRetrying attempt max_retries (ei_kind info) (ei_triggers info) (ei_aborted_at info)] t)"

definition strip_reason_for_image_error :: "sampling_error \<Rightarrow> strip_reason" where
  "strip_reason_for_image_error e =
     (case e of
        ApiError a \<Rightarrow> if ae_code a = Some InvalidImage then ServerRejected else PayloadHeuristic
      | StreamError _ _ c \<Rightarrow> if c = Some InvalidImage then ServerRejected else PayloadHeuristic
      | _ \<Rightarrow> PayloadHeuristic)"

definition cancelled_info :: error_info where
  "cancelled_info =
     \<lparr>ei_kind = KindApi, ei_status = None, ei_message = ''request cancelled'', ei_is_retryable = False,
      ei_retry_after = None, ei_should_retry = None, ei_code = None, ei_metadata = None, ei_empty = None,
      ei_triggers = None, ei_aborted_at = None, ei_credential = CredentialUnknown\<rparr>"

definition handle_cancellation :: "task_config \<Rightarrow> task \<Rightarrow> progress" where
  "handle_cancellation cfg t =
     Finished ((emit [EvFailed cancelled_info] t)
       \<lparr>ts_completion := completion_send (Inl (auth_unknown ''request cancelled'')) (tc_listening cfg)
          (ts_completion t)\<rparr>)"

text \<open>A cancelled sleep is recorded like a finished one: both were begun.\<close>

definition sleep_or_cancel :: "task_config \<Rightarrow> round \<Rightarrow> nat \<Rightarrow> (task \<Rightarrow> task) \<Rightarrow> task \<Rightarrow> progress" where
  "sleep_or_cancel cfg rd backoff after t =
     (let t' = t\<lparr>ts_sleeps := ts_sleeps t @ [backoff]\<rparr> in
      if rd_sleep_cancelled rd then handle_cancellation cfg t' else Continue (after t'))"

definition is_retry :: "retry_decision \<Rightarrow> bool" where
  "is_retry d \<longleftrightarrow>
     (case d of Retry _ \<Rightarrow> True | RetryWithBackoff _ \<Rightarrow> True | RetryWithClientRebuild _ \<Rightarrow> True | _ \<Rightarrow> False)"

definition strip_if_body_rejected :: "sampling_error \<Rightarrow> retry_decision \<Rightarrow> task \<Rightarrow> task" where
  "strip_if_body_rejected e decision t =
     (if is_retry decision \<and> is_likely_body_rejected e then
        (let (items, urls) = strip_images (ts_items t);
             t' = t\<lparr>ts_items := items\<rparr> in
         if urls \<noteq> [] then emit [EvImagesStripped urls PayloadHeuristic] t' else t')
      else t)"

definition count_retry :: "task_config \<Rightarrow> nat \<Rightarrow> sampling_error \<Rightarrow> task \<Rightarrow> task" where
  "count_retry cfg max_retries e t =
     (let t' = t\<lparr>ts_retry_count := ts_retry_count t + 1\<rparr> in
      emit_retrying cfg (ts_retry_count t') max_retries e t')"

definition apply_retry_decision :: "task_config \<Rightarrow> round \<Rightarrow> sampling_error \<Rightarrow> nat \<Rightarrow> task \<Rightarrow> progress" where
  "apply_retry_decision cfg rd e max_retries t0 =
     (let threshold = (case tc_rate_limit_threshold cfg of Some n \<Rightarrow> n | None \<Rightarrow> tc_policy_threshold cfg);
          decision = classify_error (rd_hash rd) e (ts_retry_count t0) max_retries threshold;
          t = strip_if_body_rejected e decision t0 in
      case decision of
        Retry backoff \<Rightarrow> sleep_or_cancel cfg rd backoff (\<lambda>x. x) (count_retry cfg max_retries e t)
      | RetryWithBackoff backoff \<Rightarrow> sleep_or_cancel cfg rd backoff (\<lambda>x. x) (count_retry cfg max_retries e t)
      | RetryWithImageStrip \<Rightarrow>
          (let (items, urls) = strip_images (ts_items t);
               t' = t\<lparr>ts_items := items\<rparr> in
           if urls = [] then fail_with cfg e (clone_error e) t'
           else Continue (count_retry cfg max_retries e
                  (emit [EvImagesStripped urls (strip_reason_for_image_error e)] t')))
      | RetryWithClientRebuild backoff \<Rightarrow>
          sleep_or_cancel cfg rd backoff
            (\<lambda>x. if rd_rebuilt rd then x\<lparr>ts_http1 := True\<rparr> else x) (count_retry cfg max_retries e t)
      | EmitToSession e' \<Rightarrow> fail_with cfg e' e' t
      | Fatal e' \<Rightarrow> fail_with cfg e' e' t)"

definition with_signals :: "string list \<Rightarrow> task \<Rightarrow> task" where
  "with_signals ss t = t\<lparr>ts_completion := merge_doom_loop_signals ss (ts_completion t)\<rparr>"

definition recover_doom_loop ::
    "task_config \<Rightarrow> round \<Rightarrow> string list \<Rightarrow> nat option \<Rightarrow> conversation_item list \<Rightarrow> task \<Rightarrow> progress" where
  "recover_doom_loop cfg rd triggers chunk recovery t =
     (let e = DoomLoopDetected triggers chunk in
      if tc_retry_only_before_output cfg \<and> ts_observed t then fail_with cfg e (clone_error e) t
      else
        let t1 = t\<lparr>ts_doom_retry_count := ts_doom_retry_count t + 1,
                   ts_completion := record_recovery_attempt triggers chunk (ts_completion t),
                   ts_items := append_recovery_context (ts_items t) recovery\<rparr> in
        sleep_or_cancel cfg rd (doom_loop_backoff (rd_hash rd)) (\<lambda>x. x)
          (emit_retrying cfg (ts_doom_retry_count t1) (doom_max_retries cfg) e t1))"

definition finish_completed :: "task_config \<Rightarrow> response \<Rightarrow> task \<Rightarrow> progress" where
  "finish_completed cfg r t =
     (let t1 = with_signals (map ds_raw (rp_signals r)) t;
          attempts = ts_retry_count t1 + ts_doom_retry_count t1 + 1 in
      Finished ((emit [EvCompleted r attempts] t1)
        \<lparr>ts_completion := completion_send (Inr (r, attempts)) (tc_listening cfg) (ts_completion t1)\<rparr>))"

definition settle_outcome :: "task_config \<Rightarrow> round \<Rightarrow> attempt_outcome \<Rightarrow> task \<Rightarrow> progress" where
  "settle_outcome cfg rd outcome t =
     (let effective_max = (if tc_retry_only_before_output cfg \<and> ts_observed t then 0 else configured_max_retries cfg) in
      case outcome of
        AttemptCompleted r \<Rightarrow> finish_completed cfg r t
      | AttemptEmpty ctx ss \<Rightarrow> apply_retry_decision cfg rd (EmptyResponse ctx) effective_max (with_signals ss t)
      | AttemptFailed e ss recovery \<Rightarrow>
          (case e of
             DoomLoopDetected triggers chunk \<Rightarrow> recover_doom_loop cfg rd triggers chunk recovery (with_signals ss t)
           | _ \<Rightarrow> apply_retry_decision cfg rd e effective_max (with_signals ss t))
      | AttemptCancelled \<Rightarrow> handle_cancellation cfg t
      | AttemptInitFailed e \<Rightarrow> apply_retry_decision cfg rd e effective_max t)"

definition doom_check_of :: "task_config \<Rightarrow> task \<Rightarrow> doom_policy option" where
  "doom_check_of cfg t =
     (case tc_doom_policy cfg of
        Some p \<Rightarrow> if ts_doom_retry_count t < doom_max_retries cfg then Some p else None
      | None \<Rightarrow> None)"

definition task_round :: "task_config \<Rightarrow> round \<Rightarrow> task \<Rightarrow> progress" where
  "task_round cfg rd t =
     (if rd_cancelled rd then handle_cancellation cfg t
      else
        let doom_check = doom_check_of cfg t;
            (outcome, observed, evs) =
              run_one_attempt (tc_backend cfg) (tc_length_policy cfg) (tc_is_json cfg) doom_check (ts_observed t)
                (rd_world rd (ts_http1 t) (ts_items t) (doom_check \<noteq> None)) in
        settle_outcome cfg rd outcome ((emit evs t)\<lparr>ts_observed := observed\<rparr>))"

text \<open>The loop, with fuel: \<open>None\<close> when the fuel does not suffice.\<close>

fun run_rounds :: "task_config \<Rightarrow> (nat \<Rightarrow> round) \<Rightarrow> nat \<Rightarrow> nat \<Rightarrow> task \<Rightarrow> task option" where
  "run_rounds cfg rounds n 0 t = None"
| "run_rounds cfg rounds n (Suc fuel) t =
     (case task_round cfg (rounds n) t of
        Finished t' \<Rightarrow> Some t'
      | Continue t' \<Rightarrow> run_rounds cfg rounds (Suc n) fuel t')"

definition task_new :: "bool \<Rightarrow> conversation_item list \<Rightarrow> task" where
  "task_new wanted items =
     \<lparr>ts_items = items, ts_retry_count = 0, ts_doom_retry_count = 0, ts_http1 = False, ts_observed = False,
      ts_completion = completion_new wanted, ts_events = [], ts_sleeps = []\<rparr>"

text \<open>\<open>client_error\<close> is the error of building the first client.\<close>

definition run_request_task ::
    "task_config \<Rightarrow> sampling_error option \<Rightarrow> bool \<Rightarrow> conversation_item list \<Rightarrow> (nat \<Rightarrow> round) \<Rightarrow> nat \<Rightarrow> task option" where
  "run_request_task cfg client_error wanted items rounds fuel =
     (case client_error of
        Some e \<Rightarrow> (case fail_with cfg e e (task_new wanted items) of Finished t \<Rightarrow> Some t | Continue _ \<Rightarrow> None)
      | None \<Rightarrow> run_rounds cfg rounds 0 fuel (task_new wanted items))"

end
