(* ===== verification/Recovery_Properties.thy ===== *)
theory Recovery_Properties
  imports Recovery
begin

text \<open>
  What a failed attempt can add to the next one: never more than two byte budgets, never an image or a tool
  call, nothing at all from a turn that called a tool; and a stream that is captured never buffers more than
  the budgets either.
\<close>

subsection \<open>Budgets\<close>

text \<open>What a budget has paid for: the bytes charged and one marker once it is spent.\<close>

definition marker_len :: nat where "marker_len = length RECOVERY_TRUNCATION_MARKER"

lemma marker_len_value: "marker_len = 15"
  by (simp add: marker_len_def RECOVERY_TRUNCATION_MARKER_def)

definition paid :: "recovery_budget \<Rightarrow> nat" where
  "paid b = rb_used b + (if rb_truncated b then marker_len else 0)"

definition sane :: "recovery_budget \<Rightarrow> bool" where "sane b \<longleftrightarrow> rb_used b \<le> rb_cap b"

lemma budget_new_sane [simp]: "sane (budget_new n)" "paid (budget_new n) = 0" "rb_cap (budget_new n) = n"
  by (simp_all add: sane_def paid_def budget_new_def)

lemma sane_paid: "sane b \<Longrightarrow> paid b \<le> rb_cap b + marker_len"
  by (simp add: sane_def paid_def)

lemma budget_append_pays:
  assumes "sane b" "budget_append b slot s = (b', s')"
  shows "sane b' \<and> rb_cap b' = rb_cap b \<and> length s' + paid b \<le> paid b' + length slot"
proof -
  have "floor_boundary s (rb_cap b - rb_used b) \<le> rb_cap b - rb_used b" by (rule floor_boundary_le)
  then show ?thesis
    using assms by (auto simp: budget_append_def sane_def paid_def marker_len_def Let_def split: if_splits)
qed

lemma budget_fit_pays:
  assumes "sane b" "budget_fit b s = (b', s')"
  shows "sane b' \<and> rb_cap b' = rb_cap b \<and> length s' + paid b \<le> paid b'"
  using budget_append_pays[of b "[]" s b' s'] assms by (simp add: budget_fit_def)

lemma budget_replace_pays:
  assumes "sane b" "length slot \<le> paid b" "budget_replace b slot s = (b', s')"
  shows "sane b' \<and> rb_cap b' = rb_cap b \<and> length s' + paid b \<le> paid b' + length slot"
proof (cases "rb_truncated b")
  case True
  with assms show ?thesis by (simp add: budget_replace_def)
next
  case False
  let ?b = "b\<lparr>rb_used := rb_used b - length slot\<rparr>"
  have s: "sane ?b" using assms(1) by (simp add: sane_def)
  have u: "length slot \<le> rb_used b" using False assms(2) by (simp add: paid_def)
  from False assms(3) have "budget_append ?b [] s = (b', s')" by (simp add: budget_replace_def)
  note pays = budget_append_pays[OF s this]
  have "length s' + (rb_used b - length slot) \<le> paid b'" using pays False by (simp add: paid_def)
  with u have "length s' + rb_used b \<le> paid b' + length slot" by linarith
  with pays False show ?thesis by (simp add: paid_def)
qed

lemma budget_charge_pays:
  assumes "sane b" "budget_charge b n = (b', kept)"
  shows "sane b' \<and> rb_cap b' = rb_cap b \<and> (if kept then n else 0) + paid b \<le> paid b'"
  using assms by (auto simp: budget_charge_def sane_def paid_def split: if_splits)

definition bytes :: "string list \<Rightarrow> nat" where "bytes ss = sum_list (map length ss)"

lemma bytes_simps [simp]: "bytes [] = 0" "bytes (s # ss) = length s + bytes ss"
  by (simp_all add: bytes_def)

lemma bytes_non_empty [simp]: "bytes (non_empty ss) = bytes ss"
  by (induction ss) (auto simp: non_empty_def)

lemma bytes_content [simp]:
  "bytes (case (if non_empty ss = [] then None else Some (non_empty ss)) of Some ps \<Rightarrow> ps | None \<Rightarrow> []) = bytes ss"
  using bytes_non_empty[of ss] by (cases "non_empty ss = []") simp_all

lemma fit_all_pays:
  "sane b \<Longrightarrow> fit_all b ss = (b', ss') \<Longrightarrow> sane b' \<and> rb_cap b' = rb_cap b \<and> bytes ss' + paid b \<le> paid b'"
proof (induction ss arbitrary: b b' ss')
  case (Cons s ss)
  obtain b1 t where 1: "budget_fit b s = (b1, t)" by fastforce
  obtain b2 ts where 2: "fit_all b1 ss = (b2, ts)" by fastforce
  from budget_fit_pays[OF Cons.prems(1) 1] have s: "sane b1" by simp
  from Cons.IH[OF s 2] budget_fit_pays[OF Cons.prems(1) 1] Cons.prems(2) 1 2 show ?case by auto
qed simp

subsection \<open>The replay\<close>

fun reasoning_bytes :: "conversation_item \<Rightarrow> nat" where
  "reasoning_bytes (ReasoningItem r) =
     bytes (case re_content r of Some ps \<Rightarrow> ps | None \<Rightarrow> []) + bytes (re_summary r)
     + (case re_encrypted r of Some e \<Rightarrow> length e | None \<Rightarrow> 0)"
| "reasoning_bytes _ = 0"

fun text_bytes :: "conversation_item \<Rightarrow> nat" where
  "text_bytes (AssistantItem a) = length (as_content a)"
| "text_bytes _ = 0"

fun model_text_only :: "conversation_item \<Rightarrow> bool" where
  "model_text_only (ReasoningItem _) \<longleftrightarrow> True"
| "model_text_only (AssistantItem a) \<longleftrightarrow> as_tool_calls a = []"
| "model_text_only _ \<longleftrightarrow> False"

lemma fit_reasoning_pays:
  assumes "sane b" "fit_reasoning r streamed b = (b', r')"
  shows "sane b' \<and> rb_cap b' = rb_cap b \<and> reasoning_bytes (ReasoningItem r') + paid b \<le> paid b'"
proof -
  let ?typed = "non_empty (case re_content r of Some ps \<Rightarrow> ps | None \<Rightarrow> [])"
  let ?wanted = "if ?typed = [] then (case streamed of Some s \<Rightarrow> [s] | None \<Rightarrow> []) else ?typed"
  obtain b1 fitted where 1: "fit_all b ?wanted = (b1, fitted)" by fastforce
  obtain b2 summary where 2: "fit_all b1 (re_summary r) = (b2, summary)" by fastforce
  note p1 = fit_all_pays[OF assms(1) 1]
  from p1 have "sane b1" by simp
  note p2 = fit_all_pays[OF this 2]
  show ?thesis
  proof (cases "re_encrypted r")
    case None
    with assms(2) 1 2 p1 p2 show ?thesis
      by (simp add: fit_reasoning_def Let_def split del: if_split) auto
  next
    case (Some e)
    obtain b3 kept where 3: "budget_charge b2 (length e) = (b3, kept)" by fastforce
    from p2 have "sane b2" by simp
    note p3 = budget_charge_pays[OF this 3]
    from assms(2) 1 2 3 p1 p2 p3 Some show ?thesis
      by (cases kept; clarsimp simp: fit_reasoning_def Let_def split del: if_split)
  qed
qed

definition replay_ok :: "replay \<Rightarrow> bool" where
  "replay_ok st \<longleftrightarrow>
     sane (rl_reasoning_budget st) \<and> rb_cap (rl_reasoning_budget st) = MAX_RECOVERY_REASONING_BYTES
     \<and> sane (rl_text_budget st) \<and> rb_cap (rl_text_budget st) = MAX_RECOVERY_TEXT_BYTES
     \<and> sum_list (map reasoning_bytes (rl_items st)) \<le> paid (rl_reasoning_budget st)
     \<and> sum_list (map text_bytes (rl_items st)) \<le> paid (rl_text_budget st)
     \<and> list_all model_text_only (rl_items st)"

lemma replay_new_ok: "replay_ok (replay_new t)"
  by (simp add: replay_ok_def replay_new_def)

lemma text_fits:
  assumes "replay_ok st" "budget_fit (rl_text_budget st) s = (b, t)"
  shows "sane b" "rb_cap b = MAX_RECOVERY_TEXT_BYTES"
    "sum_list (map text_bytes (rl_items st)) + length t \<le> paid b"
  using budget_fit_pays[OF _ assms(2)] assms(1) by (auto simp: replay_ok_def)

lemma reasoning_fits:
  assumes "replay_ok st" "budget_fit (rl_reasoning_budget st) s = (b, t)"
  shows "sane b" "rb_cap b = MAX_RECOVERY_REASONING_BYTES"
    "sum_list (map reasoning_bytes (rl_items st)) + length t \<le> paid b"
  using budget_fit_pays[OF _ assms(2)] assms(1) by (auto simp: replay_ok_def)

lemma replay_item_ok: "replay_ok st \<Longrightarrow> replay_ok (replay_item i st)"
proof (cases i)
  case (CapturedReasoning r)
  assume ok: "replay_ok st"
  obtain streamed rest where 1: "take_streamed (re_id r) (rl_streamed st) = (streamed, rest)" by fastforce
  obtain b r' where 2: "fit_reasoning r streamed (rl_reasoning_budget st) = (b, r')" by fastforce
  from fit_reasoning_pays[OF _ 2] ok CapturedReasoning 1 2 show ?thesis
    by (auto simp: replay_ok_def)
next
  case (CapturedText s)
  assume ok: "replay_ok st"
  obtain b t where 1: "budget_fit (rl_text_budget st) s = (b, t)" by fastforce
  from text_fits[OF ok 1] ok CapturedText 1 show ?thesis
    by (auto simp: replay_ok_def assistant_text_item_def)
qed

lemma replay_streamed_ok: "replay_ok st \<Longrightarrow> replay_ok (replay_streamed p st)"
proof -
  assume ok: "replay_ok st"
  obtain item_id s where p: "p = (item_id, s)" by fastforce
  obtain b t where 1: "budget_fit (rl_reasoning_budget st) s = (b, t)" by fastforce
  from reasoning_fits[OF ok 1] ok p 1 show ?thesis
    by (auto simp: replay_ok_def replay_streamed_def)
qed

lemma replay_output_ok: "replay_ok st \<Longrightarrow> replay_ok (replay_output s st)"
proof -
  assume ok: "replay_ok st"
  obtain b t where 1: "budget_fit (rl_text_budget st) s = (b, t)" by fastforce
  from text_fits[OF ok 1] ok 1 show ?thesis
    by (auto simp: replay_ok_def replay_output_def assistant_text_item_def)
qed

lemma fold_preserves: "(\<And>x s. P s \<Longrightarrow> P (f x s)) \<Longrightarrow> P s \<Longrightarrow> P (fold f xs s)"
  by (induction xs arbitrary: s) auto

lemma replay_ok_bounds:
  assumes "replay_ok st"
  shows "sum_list (map reasoning_bytes (rl_items st)) \<le> 8192 + 15
     \<and> sum_list (map text_bytes (rl_items st)) \<le> 4096 + 15 \<and> list_all model_text_only (rl_items st)"
  using assms sane_paid[of "rl_reasoning_budget st"] sane_paid[of "rl_text_budget st"]
  by (auto simp: replay_ok_def marker_len_value MAX_RECOVERY_REASONING_BYTES_def MAX_RECOVERY_TEXT_BYTES_def)

lemma items_of_turn_cases:
  assumes "\<not> ct_veto_replay t"
  obtains st where "replay_ok st" "items_of_turn t = rl_items st"
proof -
  let ?st = "fold replay_item (ct_typed t) (replay_new t)"
  let ?st2 = "replay_output (ct_output t) (fold replay_streamed (rl_streamed ?st) ?st)"
  have 1: "replay_ok ?st" by (rule fold_preserves[of replay_ok]) (simp_all add: replay_item_ok replay_new_ok)
  then have "replay_ok (fold replay_streamed (rl_streamed ?st) ?st)"
    by (rule fold_preserves[of replay_ok, rotated]) (simp add: replay_streamed_ok)
  then have 2: "replay_ok ?st2" by (rule replay_output_ok)
  from assms have "items_of_turn t = rl_items (if ct_terminal_seen t then ?st else ?st2)"
    by (simp add: items_of_turn_def Let_def)
  with 1 2 that show ?thesis by (cases "ct_terminal_seen t") simp_all
qed

text \<open>C17: Whatever a failed attempt streamed, what the retry replays of it is the model's own text only (no
  image, no tool call), at most 8192 bytes of reasoning, opaque blobs included, and 4096 bytes of visible text,
  each plus one truncation marker; and a turn with a tool call or opaque state replays nothing.\<close>

theorem replay_is_bounded:
  "sum_list (map reasoning_bytes (take_items c)) \<le> 8192 + 15
   \<and> sum_list (map text_bytes (take_items c)) \<le> 4096 + 15
   \<and> list_all model_text_only (take_items c)
   \<and> (ct_veto_replay (fst (capture_take c)) \<longrightarrow> take_items c = [])"
proof (cases "ct_veto_replay (fst (capture_take c))")
  case True
  then show ?thesis by (simp add: take_items_def items_of_turn_def)
next
  case False
  obtain st where "replay_ok st" "take_items c = rl_items st"
    using items_of_turn_cases[OF False] unfolding take_items_def by blast
  with replay_ok_bounds[of st] False show ?thesis by simp
qed

lemma replay_is_bounded_witness:
  "take_items (Some (captured_new\<lparr>cp_output := [((0, 0, ''m''), ''hello'')], cp_veto_replay := True\<rparr>)) = []
   \<and> sum_list (map text_bytes (take_items (Some (captured_new\<lparr>cp_output := [((0, 0, ''m''), ''hello'')]\<rparr>)))) \<le> 4111"
  using replay_is_bounded[of "Some (captured_new\<lparr>cp_output := [((0, 0, ''m''), ''hello'')], cp_veto_replay := True\<rparr>)"]
    replay_is_bounded[of "Some (captured_new\<lparr>cp_output := [((0, 0, ''m''), ''hello'')]\<rparr>)"]
  by (simp add: capture_take_def turn_of_def Let_def)

subsection \<open>The capture of a stream\<close>

text \<open>What the stream transforms report, in the order they report it.\<close>

datatype capture_event =
    ReasoningDelta nat nat string string
  | ReasoningDone nat nat string string
  | SummaryDelta nat nat string string
  | SummaryDone nat nat string string
  | OutputDelta nat nat string string
  | OutputDone nat nat string string
  | Unreplayable
  | ItemStarted output_item
  | ItemCompleted nat output_item
  | TerminalOutput "output_item list"

fun capture_step :: "capture_event \<Rightarrow> captured \<Rightarrow> captured" where
  "capture_step (ReasoningDelta oi ci k s) = record_reasoning_delta oi ci k s"
| "capture_step (ReasoningDone oi ci k s) = record_reasoning_done oi ci k s"
| "capture_step (SummaryDelta oi ci k s) = record_reasoning_summary_delta oi ci k s"
| "capture_step (SummaryDone oi ci k s) = record_reasoning_summary_done oi ci k s"
| "capture_step (OutputDelta oi ci k s) = record_output_delta oi ci k s"
| "capture_step (OutputDone oi ci k s) = record_output_done oi ci k s"
| "capture_step Unreplayable = record_unreplayable"
| "capture_step (ItemStarted i) = record_item_start i"
| "capture_step (ItemCompleted oi i) = record_output_item oi i"
| "capture_step (TerminalOutput out) = record_terminal_output out"

definition capture_run :: "capture_event list \<Rightarrow> captured" where
  "capture_run evs = fold capture_step evs captured_new"

fun vetoes :: "capture_event \<Rightarrow> bool" where
  "vetoes Unreplayable \<longleftrightarrow> True"
| "vetoes (ItemStarted i) \<longleftrightarrow> i = OutOther"
| "vetoes (ItemCompleted oi i) \<longleftrightarrow> i = OutOther"
| "vetoes (TerminalOutput out) \<longleftrightarrow> OutOther \<in> set out"
| "vetoes _ \<longleftrightarrow> False"

definition weigh :: "('v \<Rightarrow> nat) \<Rightarrow> ('k \<times> 'v) list \<Rightarrow> nat" where
  "weigh f m = sum_list (map (\<lambda>(k, x). f x) m)"

lemma weigh_simps [simp]: "weigh f [] = 0" "weigh f ((k, x) # m) = f x + weigh f m"
  by (simp_all add: weigh_def)

lemma weigh_put: "f d = 0 \<Longrightarrow> weigh f (bt_put k x m) + f (bt_get k d m) = weigh f m + f x"
  by (induction m) auto

definition part_bytes :: "part_map \<Rightarrow> nat" where "part_bytes = weigh (weigh length)"

lemma part_bytes_nil [simp]: "part_bytes [] = 0"
  by (simp add: part_bytes_def)

lemma weigh_member: "f d = 0 \<Longrightarrow> f (bt_get k d m) \<le> weigh f m"
  by (induction m) auto

definition capture_ok :: "captured \<Rightarrow> bool" where
  "capture_ok c \<longleftrightarrow>
     sane (cp_reasoning_budget c) \<and> rb_cap (cp_reasoning_budget c) = MAX_RECOVERY_REASONING_BYTES
     \<and> sane (cp_text_budget c) \<and> rb_cap (cp_text_budget c) = MAX_RECOVERY_TEXT_BYTES
     \<and> part_bytes (cp_content c) + part_bytes (cp_summary c) \<le> paid (cp_reasoning_budget c)
     \<and> weigh length (cp_output c) \<le> paid (cp_text_budget c)"

text \<open>A budget operation that pays for what it writes.\<close>

definition pays :: "(recovery_budget \<Rightarrow> string \<Rightarrow> string \<Rightarrow> recovery_budget \<times> string) \<Rightarrow> bool" where
  "pays w \<longleftrightarrow>
     (\<forall>b slot s. sane b \<longrightarrow> length slot \<le> paid b \<longrightarrow>
        (let (b', s') = w b slot s in
         sane b' \<and> rb_cap b' = rb_cap b \<and> length s' + paid b \<le> paid b' + length slot))"

lemma append_pays: "pays budget_append"
proof -
  have "case budget_append b slot s of (b', s') \<Rightarrow>
      sane b' \<and> rb_cap b' = rb_cap b \<and> length s' + paid b \<le> paid b' + length slot" if "sane b" for b slot s
    using budget_append_pays[OF that] by (cases "budget_append b slot s") simp
  then show ?thesis by (simp add: pays_def)
qed

lemma replace_pays: "pays budget_replace"
proof -
  have "case budget_replace b slot s of (b', s') \<Rightarrow>
      sane b' \<and> rb_cap b' = rb_cap b \<and> length s' + paid b \<le> paid b' + length slot"
    if "sane b" "length slot \<le> paid b" for b slot s
    using budget_replace_pays[OF that] by (cases "budget_replace b slot s") simp
  then show ?thesis by (simp add: pays_def)
qed

lemma put_part_pays:
  assumes "pays w" "sane b" "part_bytes m \<le> paid b" "put_part w b key i s m = (b', slot, m')"
  shows "sane b' \<and> rb_cap b' = rb_cap b \<and> part_bytes m' + paid b \<le> paid b' + part_bytes m"
proof -
  let ?parts = "bt_get key [] m"
  let ?old = "bt_get i [] ?parts"
  have o1: "weigh length ?parts \<le> part_bytes m"
    unfolding part_bytes_def by (rule weigh_member) simp
  have o2: "length ?old \<le> weigh length ?parts" by (rule weigh_member) simp
  obtain b1 s1 where w: "w b ?old s = (b1, s1)" by fastforce
  have p: "sane b1 \<and> rb_cap b1 = rb_cap b \<and> length s1 + paid b \<le> paid b1 + length ?old"
    using assms(1)[unfolded pays_def, rule_format, of b ?old s] assms(2,3) o1 o2 w by simp
  have e1: "weigh length (bt_put i s1 ?parts) + length ?old = weigh length ?parts + length s1"
    by (rule weigh_put) simp
  have e2: "part_bytes (bt_put key (bt_put i s1 ?parts) m) + weigh length ?parts
      = part_bytes m + weigh length (bt_put i s1 ?parts)"
    unfolding part_bytes_def by (rule weigh_put) simp
  from assms(4) w have r: "b' = b1" "m' = bt_put key (bt_put i s1 ?parts) m"
    by (auto simp: put_part_def Let_def)
  show ?thesis using p e1 e2 unfolding r by linarith
qed

lemma record_reasoning_ok:
  assumes "pays w" "capture_ok c"
  shows "capture_ok (record_reasoning w oi ci k s c)"
proof -
  obtain b slot m where p: "put_part w (cp_reasoning_budget c) (oi, k) ci s (cp_content c) = (b, slot, m)"
    by (cases "put_part w (cp_reasoning_budget c) (oi, k) ci s (cp_content c)") auto
  from put_part_pays[OF assms(1) _ _ p] assms(2) p show ?thesis
    by (auto simp: record_reasoning_def capture_ok_def)
qed

lemma record_summary_ok:
  assumes "pays w" "capture_ok c"
  shows "capture_ok (record_summary w oi ci k s c)"
proof -
  obtain b slot m where p: "put_part w (cp_reasoning_budget c) (oi, k) ci s (cp_summary c) = (b, slot, m)"
    by (cases "put_part w (cp_reasoning_budget c) (oi, k) ci s (cp_summary c)") auto
  from put_part_pays[OF assms(1) _ _ p] assms(2) p show ?thesis
    by (auto simp: record_summary_def capture_ok_def)
qed

lemma record_output_ok:
  assumes "pays w" "capture_ok c"
  shows "capture_ok (record_output w oi ci k s c)"
proof -
  let ?old = "bt_get (oi, ci, k) [] (cp_output c)"
  obtain b s1 where w: "w (cp_text_budget c) ?old s = (b, s1)" by fastforce
  have "length ?old \<le> weigh length (cp_output c)" by (rule weigh_member) simp
  then have "sane b \<and> rb_cap b = rb_cap (cp_text_budget c)
      \<and> length s1 + paid (cp_text_budget c) \<le> paid b + length ?old"
    using assms(1)[unfolded pays_def, rule_format, of "cp_text_budget c" ?old s] assms(2) w
    by (simp add: capture_ok_def)
  moreover have "weigh length (bt_put (oi, ci, k) s1 (cp_output c)) + length ?old
      = weigh length (cp_output c) + length s1"
    by (rule weigh_put) simp
  ultimately show ?thesis using assms(2) w by (auto simp: record_output_def capture_ok_def)
qed

lemma record_output_item_ok: "capture_ok c \<Longrightarrow> capture_ok (record_output_item oi i c)"
  by (cases i) (simp_all add: record_output_item_def capture_ok_def)

lemma record_terminal_ok: "capture_ok c \<Longrightarrow> capture_ok (record_terminal_output out c)"
  unfolding record_terminal_output_def
  by (rule fold_preserves[of capture_ok]) (auto simp: record_output_item_ok, simp add: capture_ok_def)

lemma capture_step_ok: "capture_ok c \<Longrightarrow> capture_ok (capture_step e c)"
  by (cases e)
    (simp_all add: record_reasoning_delta_def record_reasoning_done_def record_reasoning_summary_delta_def
      record_reasoning_summary_done_def record_output_delta_def record_output_done_def
      record_reasoning_ok record_summary_ok record_output_ok append_pays replace_pays
      record_output_item_ok record_terminal_ok,
     simp_all add: capture_ok_def record_unreplayable_def record_item_start_def split: output_item.split)

lemma capture_new_ok: "capture_ok captured_new"
  by (simp add: capture_ok_def captured_new_def)

lemma terminal_veto:
  "cp_veto_replay (fold (\<lambda>(i, item). record_output_item i item) (enumerate n out) c)
     \<longleftrightarrow> cp_veto_replay c \<or> OutOther \<in> set out"
proof (induction out arbitrary: n c)
  case (Cons i out)
  have "cp_veto_replay (record_output_item n i c) \<longleftrightarrow> cp_veto_replay c \<or> i = OutOther"
    by (cases i) (simp_all add: record_output_item_def)
  with Cons.IH[of "Suc n" "record_output_item n i c"] show ?case by auto
qed simp

lemma step_veto: "cp_veto_replay (capture_step e c) \<longleftrightarrow> cp_veto_replay c \<or> vetoes e"
proof (cases e)
  case (ItemCompleted oi i)
  then show ?thesis by (cases i) (simp_all add: record_output_item_def)
next
  case (ItemStarted i)
  then show ?thesis by (cases i) (simp_all add: record_item_start_def record_unreplayable_def)
next
  case (TerminalOutput out)
  then show ?thesis by (simp add: record_terminal_output_def terminal_veto)
qed (simp_all add: record_reasoning_delta_def record_reasoning_done_def record_reasoning_summary_delta_def
      record_reasoning_summary_done_def record_output_delta_def record_output_done_def record_reasoning_def
      record_summary_def record_output_def record_unreplayable_def split_beta Let_def)

lemma run_veto: "cp_veto_replay (fold capture_step evs c) \<longleftrightarrow> cp_veto_replay c \<or> list_ex vetoes evs"
  by (induction evs arbitrary: c) (auto simp: step_veto)

text \<open>Along any stream of reports, a capture buffers at most 8192 bytes of reasoning and 4096 bytes of
  visible text (each plus one truncation marker), deltas and corrections by completed texts included; and the
  turn is replayed only if nothing in the stream was a tool call or opaque state.\<close>

theorem capture_is_bounded:
  "part_bytes (cp_content (capture_run evs)) + part_bytes (cp_summary (capture_run evs)) \<le> 8192 + 15
   \<and> weigh length (cp_output (capture_run evs)) \<le> 4096 + 15
   \<and> (list_ex vetoes evs \<longrightarrow> take_items (Some (capture_run evs)) = [])"
proof -
  have ok: "capture_ok (capture_run evs)"
    unfolding capture_run_def by (rule fold_preserves[of capture_ok]) (simp_all add: capture_step_ok capture_new_ok)
  have "list_ex vetoes evs \<Longrightarrow> take_items (Some (capture_run evs)) = []"
    by (simp add: take_items_def capture_take_def items_of_turn_def turn_of_def capture_run_def run_veto Let_def)
  with ok sane_paid[of "cp_reasoning_budget (capture_run evs)"] sane_paid[of "cp_text_budget (capture_run evs)"]
  show ?thesis
    by (auto simp: capture_ok_def marker_len_value MAX_RECOVERY_REASONING_BYTES_def MAX_RECOVERY_TEXT_BYTES_def)
qed

lemma capture_is_bounded_witness:
  "take_items (Some (capture_run [OutputDelta 0 0 ''m'' ''hello'', ItemCompleted 2 OutOther])) = []"
  using capture_is_bounded[of "[OutputDelta 0 0 ''m'' ''hello'', ItemCompleted 2 OutOther]"] by simp

end
