(* ===== verification/Sampling_Properties.thy ===== *)
theory Sampling_Properties
  imports Sampling_Task Recovery_Properties
begin

text \<open>
  What the retry loop guarantees: it ends, with one terminal event that agrees with the result delivered; it
  never retries behind output that was handed over when the caller asked for that; and it never drops images
  silently.
\<close>

subsection \<open>Images\<close>

definition image_urls :: "conversation_item list \<Rightarrow> string list" where
  "image_urls items = snd (strip_images items)"

lemma image_urls_append [simp]: "image_urls (xs @ ys) = image_urls xs @ image_urls ys"
  by (simp add: image_urls_def strip_images_def strip_images_where_def)

lemma image_urls_Cons: "image_urls (i # is) = snd (strip_item (\<lambda>_. True) i) @ image_urls is"
  by (simp add: image_urls_def strip_images_def strip_images_where_def)

lemma image_urls_nil [simp]: "image_urls [] = []"
  by (simp add: image_urls_def strip_images_def strip_images_where_def)

lemma stripped_item: "snd (strip_item (\<lambda>_. True) (fst (strip_item (\<lambda>_. True) i))) = []"
  by (cases i) (auto simp: List.map_filter_def filter_empty_conv image_url_def split: content_part.splits)

lemma stripped [simp]: "image_urls (fst (strip_images items)) = []"
  by (induction items)
    (auto simp: image_urls_Cons strip_images_def strip_images_where_def stripped_item)

lemma model_text_no_image: "model_text_only i \<Longrightarrow> snd (strip_item f i) = []"
  by (cases i) auto

lemma model_texts_no_image: "list_all model_text_only is \<Longrightarrow> image_urls is = []"
  by (induction "is") (simp_all add: image_urls_Cons model_text_no_image)

lemma items_of_turn_text_only: "list_all model_text_only (items_of_turn t)"
proof (cases "ct_veto_replay t")
  case False
  then obtain st where "replay_ok st" "items_of_turn t = rl_items st" by (rule items_of_turn_cases)
  then show ?thesis by (simp add: replay_ok_def)
qed (simp add: items_of_turn_def)

lemma reminder_no_image: "image_urls [UserItem [PartText s]] = []"
  by (simp add: image_urls_Cons List.map_filter_def image_url_def)

lemma recovery_adds_no_image:
  "list_all model_text_only recovery \<Longrightarrow> image_urls (append_recovery_context items recovery) = image_urls items"
  by (simp add: append_recovery_context_def model_texts_no_image reminder_no_image)

subsection \<open>Outcomes of an attempt\<close>

fun is_doom :: "sampling_error \<Rightarrow> bool" where
  "is_doom (DoomLoopDetected _ _) \<longleftrightarrow> True"
| "is_doom _ \<longleftrightarrow> False"

lemma is_doom_clone [simp]: "is_doom (clone_error e) \<longleftrightarrow> is_doom e"
  by (cases e) (simp_all add: clone_error_def)

lemma is_doom_synthesized: "is_doom (synthesize_from_info i) \<longleftrightarrow> ei_kind i = KindDoomLoopDetected"
  by (cases "ei_kind i") (simp_all add: synthesize_from_info_def serialization_from_rendered_def split: option.splits)

fun doom_outcome :: "attempt_outcome \<Rightarrow> bool" where
  "doom_outcome (AttemptFailed e _ _) \<longleftrightarrow> is_doom e"
| "doom_outcome _ \<longleftrightarrow> False"

fun recovered_items :: "attempt_outcome \<Rightarrow> conversation_item list" where
  "recovered_items (AttemptFailed _ _ items) = items"
| "recovered_items _ = []"

fun reports_doom :: "l2_input \<Rightarrow> bool" where
  "reports_doom (L2 (EvFailed i)) \<longleftrightarrow> ei_kind i = KindDoomLoopDetected"
| "reports_doom _ \<longleftrightarrow> False"

lemma accept_response_facts:
  "\<not> doom_outcome (accept_response d ts r) \<and> recovered_items (accept_response d ts r) = []"
  by (auto simp: accept_response_def apply_length_policy_def split: option.splits bool.splits)

lemma take_items_text_only: "list_all model_text_only (take_items c)"
  by (simp add: take_items_def items_of_turn_text_only)

lemma judge_response_facts:
  "list_all model_text_only (recovered_items (judge_response d ts r))
   \<and> (dr_doom_check d = None \<longrightarrow> \<not> doom_outcome (judge_response d ts r))"
  using accept_response_facts[of d ts r] by (auto simp: judge_response_def Let_def take_items_text_only)

lemma failed_outcome_facts:
  "list_all model_text_only (recovered_items (failed_outcome d ss i))
   \<and> (doom_outcome (failed_outcome d ss i) \<longrightarrow>
        (case dr_captured d of Some e \<Rightarrow> is_doom e | None \<Rightarrow> ei_kind i = KindDoomLoopDetected))"
  by (auto simp: failed_outcome_def Let_def take_items_text_only is_doom_synthesized
      split: option.splits sampling_error.splits)

definition no_terminal :: "sampling_event list \<Rightarrow> bool" where
  "no_terminal es \<longleftrightarrow> list_all (\<lambda>e. \<not> is_terminal e) es"

lemma no_terminal_simps [simp]:
  "no_terminal []" "no_terminal (e # es) \<longleftrightarrow> \<not> is_terminal e \<and> no_terminal es"
  "no_terminal (es @ fs) \<longleftrightarrow> no_terminal es \<and> no_terminal fs"
  by (simp_all add: no_terminal_def)

text \<open>An event of the stream either ends the attempt or is passed on.\<close>

lemma drive_l2_pass:
  assumes "\<not> is_terminal e"
  shows "\<exists>ss obs'. drive_l2 d signals obs (L2 e # rest) =
    (let (out, o2, evs) = drive_l2 d ss obs' rest in (out, o2, e # evs))"
  using assms by (cases e) (auto simp: is_terminal_def)

lemma drive_l2_facts:
  "drive_l2 d signals obs ins = (out, obs', evs) \<Longrightarrow>
     no_terminal evs \<and> list_all model_text_only (recovered_items out)
     \<and> (dr_doom_check d = None \<longrightarrow> doom_outcome out \<longrightarrow>
          (case dr_captured d of Some e \<Rightarrow> is_doom e | None \<Rightarrow> list_ex reports_doom ins))"
proof (induction ins arbitrary: signals obs out obs' evs)
  case Nil
  then show ?case by (auto simp: stream_dropped_def)
next
  case (Cons x rest)
  show ?case
  proof (cases x)
    case CancelFired
    with Cons.prems show ?thesis by auto
  next
    case (L2 e)
    show ?thesis
    proof (cases "is_terminal e")
      case False
      obtain ss o1 where "drive_l2 d signals obs (L2 e # rest) =
          (let (out, o2, evs) = drive_l2 d ss o1 rest in (out, o2, e # evs))"
        using drive_l2_pass[OF False] by blast
      moreover obtain out1 o2 evs1 where r: "drive_l2 d ss o1 rest = (out1, o2, evs1)"
        by (cases "drive_l2 d ss o1 rest") auto
      ultimately have "out = out1" "evs = e # evs1" using Cons.prems L2 by auto
      with Cons.IH[OF r] False show ?thesis by (auto split: option.splits)
    next
      case True
      then consider (completed) r n where "e = EvCompleted r n" | (failed) i where "e = EvFailed i"
        by (cases e) (auto simp: is_terminal_def)
      then show ?thesis
      proof cases
        case completed
        with Cons.prems L2 judge_response_facts[of d _ r] show ?thesis
          by (auto simp: Let_def is_terminal_def split: option.splits)
      next
        case failed
        with Cons.prems L2 failed_outcome_facts[of d signals i] show ?thesis
          by (auto split: option.splits)
      qed
    qed
  qed
qed

lemma drive_l2_not_init: "drive_l2 d signals obs ins = (out, obs', evs) \<Longrightarrow> out \<noteq> AttemptInitFailed e"
proof (induction ins arbitrary: signals obs out obs' evs)
  case (Cons x rest)
  show ?case
  proof (cases x)
    case (L2 ev)
    show ?thesis
    proof (cases "is_terminal ev")
      case False
      obtain ss o1 where "drive_l2 d signals obs (L2 ev # rest) =
          (let (out, o2, evs) = drive_l2 d ss o1 rest in (out, o2, ev # evs))"
        using drive_l2_pass[OF False] by blast
      moreover obtain out1 o2 evs1 where r: "drive_l2 d ss o1 rest = (out1, o2, evs1)"
        by (cases "drive_l2 d ss o1 rest") auto
      ultimately show ?thesis using Cons.IH[OF r] Cons.prems L2 by auto
    next
      case True
      with Cons.prems L2 show ?thesis
        by (cases ev)
          (auto simp: is_terminal_def Let_def judge_response_def accept_response_def failed_outcome_def
            split: if_splits sum.splits prod.splits bool.splits option.splits)
    qed
  qed (use Cons.prems in auto)
qed auto

text \<open>A wire is quiet when it reports doom loops only through the detector of an armed attempt.\<close>

definition quiet_world :: "bool \<Rightarrow> attempt_world \<Rightarrow> bool" where
  "quiet_world armed w \<longleftrightarrow>
     (case aw_init_error w of Some e \<Rightarrow> \<not> is_doom e | None \<Rightarrow> True)
     \<and> (armed \<or> list_all (\<lambda>e. \<not> is_doom e) (aw_raw_errors w) \<and> \<not> list_ex reports_doom (aw_inputs w))"

definition quiet_wire :: "(nat \<Rightarrow> round) \<Rightarrow> bool" where
  "quiet_wire rounds \<longleftrightarrow> (\<forall>n http1 items armed. quiet_world armed (rd_world (rounds n) http1 items armed))"

lemma run_one_attempt_facts:
  assumes "run_one_attempt backend lp is_json dc obs w = (out, obs', evs)" "quiet_world (dc \<noteq> None) w"
  shows "no_terminal evs" "list_all model_text_only (recovered_items out)"
    "dc = None \<Longrightarrow> \<not> doom_outcome out" "\<And>e. out = AttemptInitFailed e \<Longrightarrow> \<not> is_doom e"
proof -
  have "no_terminal evs \<and> list_all model_text_only (recovered_items out)
      \<and> (dc = None \<longrightarrow> \<not> doom_outcome out) \<and> (\<forall>e. out = AttemptInitFailed e \<longrightarrow> \<not> is_doom e)"
  proof (cases "aw_init_error w")
    case (Some e)
    with assms show ?thesis by (auto simp: run_one_attempt_def quiet_world_def)
  next
    case None
    let ?armed = "if backend = Responses then dc else None"
    let ?d = "\<lparr>dr_captured = tee_errors (aw_raw_errors w), dr_doom_check = ?armed,
        dr_failed_response = (if ?armed \<noteq> None then Some (aw_capture w) else None),
        dr_length_policy = lp, dr_is_json = is_json\<rparr>"
    from None assms(1)
    have r: "drive_l2 ?d [] (obs \<or> backend = Responses \<and> aw_observed w) (aw_inputs w) = (out, obs', evs)"
      by (simp add: run_one_attempt_def Let_def)
    have tee: "case tee_errors (aw_raw_errors w) of Some e \<Rightarrow> \<not> is_doom e | None \<Rightarrow> True" if "dc = None"
      using assms(2) that
      by (cases "aw_raw_errors w") (auto simp: tee_errors_def quiet_world_def first_def)
    have init: "out \<noteq> AttemptInitFailed e" for e
      using r by (rule drive_l2_not_init)
    from drive_l2_facts[OF r] tee assms(2) init show ?thesis
      by (auto simp: quiet_world_def split: option.splits)
  qed
  then show "no_terminal evs" "list_all model_text_only (recovered_items out)"
    "dc = None \<Longrightarrow> \<not> doom_outcome out" "\<And>e. out = AttemptInitFailed e \<Longrightarrow> \<not> is_doom e" by auto
qed

subsection \<open>Decisions\<close>

lemma classify_retry_bound:
  assumes "is_retry (classify_error h e r m th)" "\<not> is_doom e"
  shows "r + 1 < m"
  using assms by (cases e) (auto simp: classify_error_def is_retry_def Let_def split: if_splits)

lemma classify_strip: "classify_error h e r m th = RetryWithImageStrip \<Longrightarrow> m \<noteq> 0"
  by (auto simp: classify_error_def Let_def split: if_splits)

lemma classify_no_budget: "classify_error h e r 0 th \<in> {EmitToSession (clone_error e), Fatal (clone_error e)}"
  by (auto simp: classify_error_def)

text \<open>A round that continues either resamples on the doom budget or counts one retry.\<close>

lemma sleep_continues:
  "sleep_or_cancel cfg rd b f t = Continue t' \<Longrightarrow> t' = f (t\<lparr>ts_sleeps := ts_sleeps t @ [b]\<rparr>)"
  by (auto simp: sleep_or_cancel_def handle_cancellation_def Let_def split: if_splits)

lemma count_retry_fields [simp]:
  "ts_retry_count (count_retry cfg m e t) = ts_retry_count t + 1"
  "ts_doom_retry_count (count_retry cfg m e t) = ts_doom_retry_count t"
  "ts_items (count_retry cfg m e t) = ts_items t"
  "ts_observed (count_retry cfg m e t) = ts_observed t"
  "ts_completion (count_retry cfg m e t) = ts_completion t"
  by (simp_all add: count_retry_def emit_retrying_def emit_def Let_def)

lemma strip_body_fields [simp]:
  "ts_retry_count (strip_if_body_rejected e d t) = ts_retry_count t"
  "ts_doom_retry_count (strip_if_body_rejected e d t) = ts_doom_retry_count t"
  "ts_observed (strip_if_body_rejected e d t) = ts_observed t"
  "ts_completion (strip_if_body_rejected e d t) = ts_completion t"
  by (simp_all add: strip_if_body_rejected_def emit_def split_beta Let_def)

lemma strip_body_items:
  "ts_items (strip_if_body_rejected e d t) =
     (if is_retry d \<and> is_likely_body_rejected e then fst (strip_images (ts_items t)) else ts_items t)"
  by (simp add: strip_if_body_rejected_def emit_def split_beta Let_def)

lemma apply_continues:
  assumes "apply_retry_decision cfg rd e m t = Continue t'" "\<not> is_doom e"
  shows "ts_retry_count t' = ts_retry_count t + 1 \<and> ts_doom_retry_count t' = ts_doom_retry_count t
    \<and> ts_observed t' = ts_observed t \<and> ts_completion t' = ts_completion t \<and> m \<noteq> 0
    \<and> (ts_retry_count t + 1 < m \<and> ts_items t' \<in> {ts_items t, fst (strip_images (ts_items t))}
       \<or> image_urls (ts_items t) \<noteq> [] \<and> ts_items t' = fst (strip_images (ts_items t)))"
proof -
  define th where "th = (case tc_rate_limit_threshold cfg of Some n \<Rightarrow> n | None \<Rightarrow> tc_policy_threshold cfg)"
  define d where "d = classify_error (rd_hash rd) e (ts_retry_count t) m th"
  note apply_def = assms(1)[unfolded apply_retry_decision_def Let_def, folded th_def, folded d_def]
  have retry: "ts_retry_count t + 1 < m" if "is_retry d"
    using classify_retry_bound that assms(2) unfolding d_def by blast
  have strip: "m \<noteq> 0" if "d = RetryWithImageStrip"
    using classify_strip that unfolding d_def by blast
  show ?thesis
  proof (cases d)
    case RetryWithImageStrip
    with apply_def strip show ?thesis
      by (auto simp: strip_if_body_rejected_def is_retry_def fail_with_def image_urls_def emit_def split_beta
          split: if_splits)
  qed (use apply_def retry in
      \<open>auto dest!: sleep_continues simp: is_retry_def strip_body_items fail_with_def split: if_splits\<close>)
qed

subsection \<open>Termination\<close>

definition budget :: "task_config \<Rightarrow> task \<Rightarrow> nat" where
  "budget cfg t =
     (configured_max_retries cfg - 1 - ts_retry_count t) + (doom_max_retries cfg - ts_doom_retry_count t)
     + (if configured_max_retries cfg \<noteq> 0 \<and> image_urls (ts_items t) \<noteq> [] then 1 else 0)"

lemma with_signals_fields [simp]:
  "ts_retry_count (with_signals ss t) = ts_retry_count t"
  "ts_doom_retry_count (with_signals ss t) = ts_doom_retry_count t"
  "ts_items (with_signals ss t) = ts_items t"
  "ts_observed (with_signals ss t) = ts_observed t"
  "ts_events (with_signals ss t) = ts_events t"
  by (simp_all add: with_signals_def)

lemma budget_with_signals [simp]: "budget cfg (with_signals ss t) = budget cfg t"
  by (simp add: budget_def)

lemma apply_pays:
  assumes "apply_retry_decision cfg rd e m t = Continue t'" "\<not> is_doom e" "m \<in> {0, configured_max_retries cfg}"
  shows "budget cfg t' < budget cfg t"
proof -
  from apply_continues[OF assms(1,2)] assms(3) have m: "m = configured_max_retries cfg" "m \<noteq> 0" by auto
  from apply_continues[OF assms(1,2)] m show ?thesis by (auto simp: budget_def)
qed

lemma recover_pays:
  assumes "recover_doom_loop cfg rd ts k recovery t = Continue t'" "ts_doom_retry_count t < doom_max_retries cfg"
    "list_all model_text_only recovery"
  shows "budget cfg t' < budget cfg t"
  using assms(1,2)
  by (auto dest!: sleep_continues
      simp: recover_doom_loop_def Let_def fail_with_def emit_retrying_def emit_def budget_def
        recovery_adds_no_image[OF assms(3)] split: if_splits)

lemma settle_pays:
  assumes "settle_outcome cfg rd out t = Continue t'"
    "doom_outcome out \<Longrightarrow> ts_doom_retry_count t < doom_max_retries cfg"
    "list_all model_text_only (recovered_items out)" "\<And>e. out = AttemptInitFailed e \<Longrightarrow> \<not> is_doom e"
  shows "budget cfg t' < budget cfg t"
proof (cases out)
  case (AttemptCompleted r)
  with assms(1) show ?thesis by (simp add: settle_outcome_def finish_completed_def Let_def)
next
  case (AttemptEmpty c ss)
  with assms(1) have "apply_retry_decision cfg rd (EmptyResponse c)
      (if tc_retry_only_before_output cfg \<and> ts_observed t then 0 else configured_max_retries cfg)
      (with_signals ss t) = Continue t'"
    by (simp add: settle_outcome_def Let_def)
  from apply_pays[OF this] show ?thesis by simp
next
  case (AttemptFailed e ss recovery)
  show ?thesis
  proof (cases "is_doom e")
    case True
    then obtain ts k where e: "e = DoomLoopDetected ts k" by (cases e) auto
    with assms(1) AttemptFailed have "recover_doom_loop cfg rd ts k recovery (with_signals ss t) = Continue t'"
      by (simp add: settle_outcome_def Let_def)
    from recover_pays[OF this] assms(2,3) AttemptFailed True show ?thesis by simp
  next
    case False
    with assms(1) AttemptFailed have "apply_retry_decision cfg rd e
      (if tc_retry_only_before_output cfg \<and> ts_observed t then 0 else configured_max_retries cfg)
      (with_signals ss t) = Continue t'"
      by (cases e) (simp_all add: settle_outcome_def Let_def)
    from apply_pays[OF this False] show ?thesis by simp
  qed
next
  case AttemptCancelled
  with assms(1) show ?thesis by (simp add: settle_outcome_def handle_cancellation_def Let_def)
next
  case (AttemptInitFailed e)
  with assms(1) have "apply_retry_decision cfg rd e
      (if tc_retry_only_before_output cfg \<and> ts_observed t then 0 else configured_max_retries cfg) t = Continue t'"
    by (simp add: settle_outcome_def Let_def)
  from apply_pays[OF this] assms(4) AttemptInitFailed show ?thesis by simp
qed

lemma budget_emit [simp]: "budget cfg ((emit es t)\<lparr>ts_observed := obs\<rparr>) = budget cfg t"
  by (simp add: budget_def emit_def)

text \<open>What an attempt starts with, and what it ends with.\<close>

lemma round_cases:
  assumes "\<not> rd_cancelled rd"
  obtains out obs evs where
    "run_one_attempt (tc_backend cfg) (tc_length_policy cfg) (tc_is_json cfg) (doom_check_of cfg t) (ts_observed t)
       (rd_world rd (ts_http1 t) (ts_items t) (doom_check_of cfg t \<noteq> None)) = (out, obs, evs)"
    "task_round cfg rd t = settle_outcome cfg rd out ((emit evs t)\<lparr>ts_observed := obs\<rparr>)"
proof -
  let ?run = "run_one_attempt (tc_backend cfg) (tc_length_policy cfg) (tc_is_json cfg) (doom_check_of cfg t)
    (ts_observed t) (rd_world rd (ts_http1 t) (ts_items t) (doom_check_of cfg t \<noteq> None))"
  obtain out obs evs where r: "?run = (out, obs, evs)" by (cases ?run) auto
  with assms have "task_round cfg rd t = settle_outcome cfg rd out ((emit evs t)\<lparr>ts_observed := obs\<rparr>)"
    by (simp add: task_round_def Let_def)
  with r that show thesis by blast
qed

lemma doom_check_room: "doom_check_of cfg t \<noteq> None \<Longrightarrow> ts_doom_retry_count t < doom_max_retries cfg"
  by (auto simp: doom_check_of_def split: option.splits if_splits)

lemma round_pays:
  assumes "task_round cfg rd t = Continue t'" "\<And>http1 items armed. quiet_world armed (rd_world rd http1 items armed)"
  shows "budget cfg t' < budget cfg t"
proof (cases "rd_cancelled rd")
  case True
  with assms(1) show ?thesis by (simp add: task_round_def handle_cancellation_def)
next
  case False
  then obtain out obs evs where r: "run_one_attempt (tc_backend cfg) (tc_length_policy cfg) (tc_is_json cfg)
      (doom_check_of cfg t) (ts_observed t)
      (rd_world rd (ts_http1 t) (ts_items t) (doom_check_of cfg t \<noteq> None)) = (out, obs, evs)"
    and s: "task_round cfg rd t = settle_outcome cfg rd out ((emit evs t)\<lparr>ts_observed := obs\<rparr>)"
    by (rule round_cases)
  note facts = run_one_attempt_facts[OF r assms(2)]
  have "budget cfg t' < budget cfg ((emit evs t)\<lparr>ts_observed := obs\<rparr>)"
  proof (rule settle_pays)
    show "settle_outcome cfg rd out ((emit evs t)\<lparr>ts_observed := obs\<rparr>) = Continue t'" using s assms(1) by simp
    show "ts_doom_retry_count ((emit evs t)\<lparr>ts_observed := obs\<rparr>) < doom_max_retries cfg" if "doom_outcome out"
      using facts(3) that doom_check_room[of cfg t] by (auto simp: emit_def)
  qed (use facts in auto)
  then show ?thesis by simp
qed

subsection \<open>The answer\<close>

definition agrees :: "bool \<Rightarrow> sampling_event \<Rightarrow> collected option \<Rightarrow> bool" where
  "agrees wanted e sent \<longleftrightarrow>
     (if wanted then
        (case (sent, e) of
           (Some c, EvCompleted r n) \<Rightarrow> cl_result c = Inr (r, n)
         | (Some c, EvFailed _) \<Rightarrow> (case cl_result c of Inl _ \<Rightarrow> True | Inr _ \<Rightarrow> False)
         | _ \<Rightarrow> False)
      else sent = None)"

definition unanswered :: "bool \<Rightarrow> task \<Rightarrow> bool" where
  "unanswered wanted t \<longleftrightarrow>
     no_terminal (ts_events t) \<and> cm_open (ts_completion t) = wanted \<and> cm_sent (ts_completion t) = None"

definition answered :: "bool \<Rightarrow> task \<Rightarrow> bool" where
  "answered wanted t \<longleftrightarrow>
     ts_events t \<noteq> [] \<and> no_terminal (butlast (ts_events t)) \<and> is_terminal (last (ts_events t))
     \<and> agrees wanted (last (ts_events t)) (cm_sent (ts_completion t))"

fun good :: "bool \<Rightarrow> progress \<Rightarrow> bool" where
  "good wanted (Continue t) \<longleftrightarrow> unanswered wanted t"
| "good wanted (Finished t) \<longleftrightarrow> answered wanted t"

lemma fail_with_good: "unanswered wanted t \<Longrightarrow> good wanted (fail_with cfg a b t)"
  by (auto simp: fail_with_def emit_def unanswered_def answered_def is_terminal_def agrees_def completion_send_def)

lemma cancellation_good: "unanswered wanted t \<Longrightarrow> good wanted (handle_cancellation cfg t)"
  by (auto simp: handle_cancellation_def emit_def unanswered_def answered_def is_terminal_def agrees_def
      completion_send_def)

lemma sleep_good:
  "unanswered wanted t \<Longrightarrow> (\<And>x. unanswered wanted x \<Longrightarrow> unanswered wanted (f x)) \<Longrightarrow>
     good wanted (sleep_or_cancel cfg rd b f t)"
  by (auto simp: sleep_or_cancel_def Let_def intro!: cancellation_good) (auto simp: unanswered_def)

lemma count_retry_unanswered: "unanswered wanted t \<Longrightarrow> unanswered wanted (count_retry cfg m e t)"
  by (simp add: unanswered_def count_retry_def emit_retrying_def emit_def is_terminal_def Let_def)

lemma strip_body_unanswered: "unanswered wanted t \<Longrightarrow> unanswered wanted (strip_if_body_rejected e d t)"
  by (simp add: unanswered_def strip_if_body_rejected_def emit_def is_terminal_def split_beta Let_def)

lemma stripped_unanswered:
  "unanswered wanted t \<Longrightarrow> unanswered wanted (emit [EvImagesStripped us k] (t\<lparr>ts_items := is\<rparr>))"
  by (simp add: unanswered_def emit_def is_terminal_def)

lemma apply_good:
  assumes "unanswered wanted t"
  shows "good wanted (apply_retry_decision cfg rd e m t)"
proof -
  define th where "th = (case tc_rate_limit_threshold cfg of Some n \<Rightarrow> n | None \<Rightarrow> tc_policy_threshold cfg)"
  define d where "d = classify_error (rd_hash rd) e (ts_retry_count t) m th"
  define t1 where "t1 = strip_if_body_rejected e d t"
  have u: "unanswered wanted t1" unfolding t1_def by (rule strip_body_unanswered[OF assms])
  have "unanswered wanted (t1\<lparr>ts_items := is\<rparr>)" for "is" using u by (simp add: unanswered_def)
  then have f: "good wanted (fail_with cfg a b (t1\<lparr>ts_items := is\<rparr>))" for a b "is" by (rule fail_with_good)
  have z: "good wanted (sleep_or_cancel cfg rd b g (count_retry cfg m e t1))"
    if "\<And>x. unanswered wanted x \<Longrightarrow> unanswered wanted (g x)" for b g
    using that by (intro sleep_good count_retry_unanswered[OF u])
  have r: "unanswered wanted (if rd_rebuilt rd then x\<lparr>ts_http1 := True\<rparr> else x)" if "unanswered wanted x" for x
    using that by (simp add: unanswered_def)
  show ?thesis
    unfolding apply_retry_decision_def Let_def th_def[symmetric] d_def[symmetric] t1_def[symmetric]
    by (cases d)
      (simp_all add: z r f fail_with_good[OF u] split_beta count_retry_unanswered stripped_unanswered[OF u])
qed

lemma with_signals_unanswered: "unanswered wanted t \<Longrightarrow> unanswered wanted (with_signals ss t)"
  by (simp add: unanswered_def with_signals_def merge_doom_loop_signals_def)

lemma recover_good:
  assumes "unanswered wanted t"
  shows "good wanted (recover_doom_loop cfg rd ts k recovery t)"
proof -
  let ?e = "DoomLoopDetected ts k"
  let ?t1 = "t\<lparr>ts_doom_retry_count := ts_doom_retry_count t + 1,
     ts_completion := record_recovery_attempt ts k (ts_completion t),
     ts_items := append_recovery_context (ts_items t) recovery\<rparr>"
  have "unanswered wanted (emit_retrying cfg n m ?e ?t1)" for n m
    using assms
    by (simp add: unanswered_def emit_retrying_def emit_def is_terminal_def record_recovery_attempt_def Let_def)
  then show ?thesis
    using fail_with_good[OF assms] by (simp add: recover_doom_loop_def Let_def sleep_good)
qed

lemma completed_good: "unanswered wanted t \<Longrightarrow> good wanted (finish_completed cfg r t)"
  by (drule with_signals_unanswered[of _ _ "map ds_raw (rp_signals r)"])
    (auto simp: finish_completed_def Let_def emit_def unanswered_def answered_def is_terminal_def agrees_def
      completion_send_def)

lemma settle_good: "unanswered wanted t \<Longrightarrow> good wanted (settle_outcome cfg rd out t)"
  by (cases out)
    (auto simp: settle_outcome_def Let_def completed_good cancellation_good
      intro!: apply_good recover_good with_signals_unanswered split: sampling_error.split)

lemma round_good:
  assumes "unanswered wanted t" "\<And>http1 items armed. quiet_world armed (rd_world rd http1 items armed)"
  shows "good wanted (task_round cfg rd t)"
proof (cases "rd_cancelled rd")
  case True
  with assms(1) show ?thesis by (simp add: task_round_def cancellation_good)
next
  case False
  then obtain out obs evs where r: "run_one_attempt (tc_backend cfg) (tc_length_policy cfg) (tc_is_json cfg)
      (doom_check_of cfg t) (ts_observed t)
      (rd_world rd (ts_http1 t) (ts_items t) (doom_check_of cfg t \<noteq> None)) = (out, obs, evs)"
    and s: "task_round cfg rd t = settle_outcome cfg rd out ((emit evs t)\<lparr>ts_observed := obs\<rparr>)"
    by (rule round_cases)
  have "unanswered wanted ((emit evs t)\<lparr>ts_observed := obs\<rparr>)"
    using assms(1) run_one_attempt_facts(1)[OF r assms(2)] by (simp add: unanswered_def emit_def)
  with s show ?thesis by (simp add: settle_good)
qed

lemma rounds_end:
  assumes "quiet_wire rounds"
  shows "unanswered wanted t \<Longrightarrow> budget cfg t < fuel \<Longrightarrow>
    \<exists>t'. run_rounds cfg rounds n fuel t = Some t' \<and> answered wanted t'"
proof (induction fuel arbitrary: n t)
  case (Suc fuel)
  have q: "quiet_world armed (rd_world (rounds n) http1 items armed)" for http1 items armed
    using assms by (simp add: quiet_wire_def)
  show ?case
  proof (cases "task_round cfg (rounds n) t")
    case (Finished t')
    with round_good[OF Suc.prems(1) q, of cfg] show ?thesis by simp
  next
    case (Continue t')
    from round_good[OF Suc.prems(1) q, of cfg] Continue have "unanswered wanted t'" by simp
    moreover from round_pays[OF Continue q] Suc.prems(2) have "budget cfg t' < fuel" by simp
    ultimately show ?thesis using Suc.IH Continue by simp
  qed
qed simp

lemma task_new_unanswered: "unanswered wanted (task_new wanted items)"
  by (simp add: unanswered_def task_new_def completion_new_def)

text \<open>C15: A request ends: as long as the wire reports doom loops only through the detector of an armed attempt,
  at most one attempt per transport retry and per doom-loop resample, and one more, are made, whatever fails,
  and the task finishes with exactly one terminal event, the last one, which agrees with the one result
  delivered to the caller.\<close>

theorem request_ends:
  assumes "quiet_wire rounds"
  shows "\<exists>t. run_request_task cfg client_error wanted items rounds
      (configured_max_retries cfg + doom_max_retries cfg + 1) = Some t \<and> answered wanted t"
proof (cases client_error)
  case (Some e)
  obtain t where t: "fail_with cfg e e (task_new wanted items) = Finished t" by (simp add: fail_with_def)
  with fail_with_good[OF task_new_unanswered, of wanted cfg e e items] Some show ?thesis
    by (simp add: run_request_task_def)
next
  case None
  have "budget cfg (task_new wanted items) < configured_max_retries cfg + doom_max_retries cfg + 1"
    unfolding budget_def task_new_def by simp linarith
  from rounds_end[OF assms task_new_unanswered this] None show ?thesis
    by (simp add: run_request_task_def)
qed

text \<open>Two attempts: the stream of the first is reset, the second answers.\<close>

definition demo_response :: response where
  "demo_response =
     \<lparr>rp_items = [assistant_text_item ''ok''], rp_stop = Some StopEnd, rp_signals = [parse_signal ''low_logprob@thinking'']\<rparr>"

definition demo_refusal :: sampling_error where
  "demo_refusal = EventStreamError ''reset''"

definition demo_rounds :: "nat \<Rightarrow> round" where
  "demo_rounds n =
     \<lparr>rd_cancelled = False,
      rd_world = (\<lambda>http1 items armed.
        \<lparr>aw_init_error = (if n = 0 then Some demo_refusal else None), aw_raw_errors = [],
         aw_capture = captured_new, aw_observed = False, aw_inputs = [L2 FirstToken, L2 (EvCompleted demo_response 0)]\<rparr>),
      rd_hash = 0, rd_sleep_cancelled = False, rd_rebuilt = True\<rparr>"

definition demo_config :: task_config where
  "demo_config =
     \<lparr>tc_backend = Responses, tc_length_policy = CompleteToolCalls, tc_is_json = (\<lambda>s. True),
      tc_status_text = (\<lambda>n. []), tc_max_retries = Some 3, tc_rate_limit_threshold = None,
      tc_doom_policy = Some doom_policy_default, tc_policy_max_retries = 15, tc_policy_threshold = 2,
      tc_retry_only_before_output = True, tc_env_retries = None, tc_listening = True\<rparr>"

lemma demo_quiet: "quiet_wire demo_rounds"
  by (simp add: quiet_wire_def quiet_world_def demo_rounds_def demo_refusal_def)

lemma demo_budget: "configured_max_retries demo_config + doom_max_retries demo_config + 1 = 6"
  by (simp add: configured_max_retries_def doom_max_retries_def demo_config_def doom_policy_default_def
      resolve_max_retries_with_env_def Let_def)

lemma request_ends_witness:
  "\<exists>t. run_request_task demo_config None True [UserItem [PartImage ''a.png'']] demo_rounds 6 = Some t \<and> answered True t"
  using request_ends[OF demo_quiet, of demo_config None True "[UserItem [PartImage ''a.png'']]"]
  by (simp only: demo_budget)

subsection \<open>Output that was handed over\<close>

lemma no_budget_no_retry:
  assumes "\<not> is_doom e"
  shows "apply_retry_decision cfg rd e 0 t \<noteq> Continue t'"
  using apply_continues[OF _ assms] by blast

lemma continued_unobserved:
  assumes "tc_retry_only_before_output cfg" "task_round cfg rd t = Continue t'"
    "\<And>http1 items armed. quiet_world armed (rd_world rd http1 items armed)"
  shows "\<not> ts_observed t'"
proof (cases "rd_cancelled rd")
  case True
  with assms(2) show ?thesis by (simp add: task_round_def handle_cancellation_def)
next
  case False
  then obtain out obs evs where r: "run_one_attempt (tc_backend cfg) (tc_length_policy cfg) (tc_is_json cfg)
      (doom_check_of cfg t) (ts_observed t)
      (rd_world rd (ts_http1 t) (ts_items t) (doom_check_of cfg t \<noteq> None)) = (out, obs, evs)"
    and s: "task_round cfg rd t = settle_outcome cfg rd out ((emit evs t)\<lparr>ts_observed := obs\<rparr>)"
    by (rule round_cases)
  let ?t = "(emit evs t)\<lparr>ts_observed := obs\<rparr>"
  note init = run_one_attempt_facts(4)[OF r assms(3)]
  have c: "settle_outcome cfg rd out ?t = Continue t'" using s assms(2) by simp
  have obs: "ts_observed t' = obs" if "apply_retry_decision cfg rd e m t1 = Continue t'" "\<not> is_doom e"
    "ts_observed t1 = obs" for e m t1
    using apply_continues[OF that(1,2)] that(3) by simp
  have stop: "\<not> obs" if "apply_retry_decision cfg rd e (if obs then 0 else configured_max_retries cfg) t1 = Continue t'"
    "\<not> is_doom e" for e t1
    using that no_budget_no_retry[OF that(2)] by (cases obs) auto
  have plain: "\<not> ts_observed t'"
    if "apply_retry_decision cfg rd e (if obs then 0 else configured_max_retries cfg) t1 = Continue t'"
      "\<not> is_doom e" "ts_observed t1 = obs" for e t1
    using obs[OF that] stop[OF that(1,2)] by simp
  show ?thesis
  proof (cases out)
    case (AttemptEmpty ctx ss)
    with c assms(1) plain[of "EmptyResponse ctx" "with_signals ss ?t"] show ?thesis
      by (simp add: settle_outcome_def Let_def)
  next
    case (AttemptFailed e ss recovery)
    show ?thesis
    proof (cases "is_doom e")
      case False
      with c assms(1) AttemptFailed plain[of e "with_signals ss ?t"] show ?thesis
        by (cases e) (simp_all add: settle_outcome_def Let_def)
    next
      case True
      then obtain ts k where "e = DoomLoopDetected ts k" by (cases e) auto
      with c assms(1) AttemptFailed have "recover_doom_loop cfg rd ts k recovery (with_signals ss ?t) = Continue t'"
        by (simp add: settle_outcome_def Let_def)
      with assms(1) show ?thesis
        by (auto dest!: sleep_continues
            simp: recover_doom_loop_def Let_def fail_with_def emit_retrying_def emit_def split: if_splits)
    qed
  next
    case (AttemptInitFailed e)
    with c assms(1) plain[of e ?t] init show ?thesis by (simp add: settle_outcome_def Let_def)
  qed (use c in \<open>simp_all add: settle_outcome_def finish_completed_def handle_cancellation_def Let_def\<close>)
qed

text \<open>What a caller shows to the user or acts on.\<close>

fun hands_over :: "sampling_event \<Rightarrow> bool" where
  "hands_over FirstToken = True"
| "hands_over (ChannelToken _ _) = True"
| "hands_over (ToolCallDelta _) = True"
| "hands_over (BackendToolCallStarted _) = True"
| "hands_over (BackendToolCallCompleted _) = True"
| "hands_over (EvCompleted _ _) = True"
| "hands_over _ = False"

abbreviation withheld :: "sampling_event list \<Rightarrow> bool" where
  "withheld es \<equiv> list_all (\<lambda>e. \<not> hands_over e) es"

fun next_signals :: "sampling_event \<Rightarrow> string list \<Rightarrow> string list" where
  "next_signals (EvDoomLoopSignals ts) ss = merge_signal_labels ss ts"
| "next_signals _ ss = ss"

lemma drive_l2_passes:
  "\<not> is_terminal e \<Longrightarrow> drive_l2 d signals obs (L2 e # rest) =
    (let (out, o2, evs) = drive_l2 d (next_signals e signals) (obs \<or> is_output e) rest in (out, o2, e # evs))"
  by (cases e) (simp_all add: is_terminal_def is_output_def)

lemma handed_over_is_output: "\<not> is_terminal e \<Longrightarrow> hands_over e \<Longrightarrow> is_output e"
  by (cases e) (simp_all add: is_output_def is_terminal_def)

lemma drive_l2_terminal:
  "drive_l2 d signals obs (L2 (EvCompleted r n) # rest) = (out, o2, evs) \<Longrightarrow> o2"
  "drive_l2 d signals obs (L2 (EvFailed i) # rest) = (out, o2, evs) \<Longrightarrow> o2 = obs \<and> evs = []"
  by (simp_all add: Let_def)

lemma drive_l2_output:
  "drive_l2 d signals observed ins = (out, obs, evs) \<Longrightarrow> (observed \<longrightarrow> obs) \<and> (\<not> obs \<longrightarrow> withheld evs)"
proof (induction ins arbitrary: signals observed out obs evs)
  case (Cons x rest)
  show ?case
  proof (cases x)
    case CancelFired
    then show ?thesis using Cons.prems by simp
  next
    case (L2 e)
    show ?thesis
    proof (cases "is_terminal e")
      case True
      then consider r n where "e = EvCompleted r n" | info where "e = EvFailed info"
        by (cases e) (simp_all add: is_terminal_def)
      then show ?thesis
      proof cases
        case 1
        from drive_l2_terminal(1)[OF Cons.prems[unfolded L2 1]] show ?thesis by simp
      next
        case 2
        from drive_l2_terminal(2)[OF Cons.prems[unfolded L2 2]] show ?thesis by simp
      qed
    next
      case False
      let ?o = "observed \<or> is_output e"
      obtain evs' where r: "drive_l2 d (next_signals e signals) ?o rest = (out, obs, evs')" "evs = e # evs'"
        using Cons.prems[unfolded L2 drive_l2_passes[OF False]]
        by (cases "drive_l2 d (next_signals e signals) ?o rest") simp
      then show ?thesis using Cons.IH[OF r(1)] handed_over_is_output[OF False] by auto
    qed
  qed
qed simp

lemma run_one_attempt_output:
  assumes "run_one_attempt backend lp is_json dc observed w = (out, obs, evs)"
  shows "\<not> obs \<longrightarrow> withheld evs"
proof (cases "aw_init_error w")
  case None
  let ?armed = "if backend = Responses then dc else None"
  let ?d = "\<lparr>dr_captured = tee_errors (aw_raw_errors w), dr_doom_check = ?armed,
      dr_failed_response = (if ?armed \<noteq> None then Some (aw_capture w) else None),
      dr_length_policy = lp, dr_is_json = is_json\<rparr>"
  have "drive_l2 ?d [] (observed \<or> backend = Responses \<and> aw_observed w) (aw_inputs w) = (out, obs, evs)"
    using assms None by (simp add: run_one_attempt_def Let_def)
  from drive_l2_output[OF this] show ?thesis by (rule conjunct2)
qed (use assms in \<open>simp add: run_one_attempt_def\<close>)

lemma count_retry_withheld: "withheld (ts_events (count_retry cfg m e t)) \<longleftrightarrow> withheld (ts_events t)"
  by (simp add: count_retry_def emit_retrying_def emit_def Let_def)

lemma strip_body_withheld: "withheld (ts_events (strip_if_body_rejected e d t)) \<longleftrightarrow> withheld (ts_events t)"
  by (simp add: strip_if_body_rejected_def emit_def split_beta Let_def)

lemma apply_withheld:
  assumes "apply_retry_decision cfg rd e m t = Continue t'" "withheld (ts_events t)"
  shows "withheld (ts_events t')"
proof -
  define d where "d = classify_error (rd_hash rd) e (ts_retry_count t) m
    (case tc_rate_limit_threshold cfg of Some n \<Rightarrow> n | None \<Rightarrow> tc_policy_threshold cfg)"
  note a = assms(1)[unfolded apply_retry_decision_def Let_def, folded d_def]
  have s: "withheld (ts_events (strip_if_body_rejected e d t))" using assms(2) by (simp add: strip_body_withheld)
  show ?thesis
  proof (cases d)
    case RetryWithImageStrip
    with a s show ?thesis
      by (auto simp: fail_with_def split_beta count_retry_withheld split: if_splits) (simp_all add: emit_def)
  qed (use a s in \<open>auto dest!: sleep_continues simp: fail_with_def count_retry_withheld split: if_splits\<close>)
qed

lemma settle_withheld:
  assumes "settle_outcome cfg rd out t = Continue t'" "withheld (ts_events t)"
  shows "withheld (ts_events t')"
proof -
  have recover: "withheld (ts_events t')"
    if "recover_doom_loop cfg rd ts k recovery (with_signals ss t) = Continue t'" for ts k recovery ss
    using that assms(2)
    by (auto dest!: sleep_continues simp: recover_doom_loop_def Let_def fail_with_def emit_retrying_def emit_def
        split: if_splits)
  show ?thesis
  proof (cases out)
    case (AttemptCompleted r)
    then show ?thesis using assms(1) by (simp add: settle_outcome_def finish_completed_def Let_def)
  next
    case (AttemptFailed e ss recovery)
    then show ?thesis using assms recover apply_withheld[of cfg rd e _ "with_signals ss t"]
      by (cases e) (auto simp: settle_outcome_def Let_def)
  next
    case AttemptCancelled
    then show ?thesis using assms(1) by (simp add: settle_outcome_def handle_cancellation_def Let_def)
  qed (use assms apply_withheld in \<open>fastforce simp: settle_outcome_def Let_def\<close>)+
qed

text \<open>The task after \<open>n\<close> rounds, when the loop goes on after each of them.\<close>

fun continued :: "task_config \<Rightarrow> (nat \<Rightarrow> round) \<Rightarrow> nat \<Rightarrow> task \<Rightarrow> task option" where
  "continued cfg rounds 0 t = Some t"
| "continued cfg rounds (Suc n) t =
     Option.bind (continued cfg rounds n t)
       (\<lambda>u. case task_round cfg (rounds n) u of Continue v \<Rightarrow> Some v | Finished _ \<Rightarrow> None)"

lemma round_withheld:
  assumes "task_round cfg rd t = Continue t'" "\<not> ts_observed t'" "withheld (ts_events t)"
    and settled: "\<And>out x. settle_outcome cfg rd out x = Continue t' \<Longrightarrow> ts_observed x = ts_observed t'"
  shows "withheld (ts_events t')"
proof (cases "rd_cancelled rd")
  case True
  with assms(1) show ?thesis by (simp add: task_round_def handle_cancellation_def)
next
  case False
  then obtain out obs evs where r: "run_one_attempt (tc_backend cfg) (tc_length_policy cfg) (tc_is_json cfg)
      (doom_check_of cfg t) (ts_observed t)
      (rd_world rd (ts_http1 t) (ts_items t) (doom_check_of cfg t \<noteq> None)) = (out, obs, evs)"
    and s: "task_round cfg rd t = settle_outcome cfg rd out ((emit evs t)\<lparr>ts_observed := obs\<rparr>)"
    by (rule round_cases)
  have c: "settle_outcome cfg rd out ((emit evs t)\<lparr>ts_observed := obs\<rparr>) = Continue t'" using s assms(1) by simp
  then have "\<not> obs" using settled[OF c] assms(2) by simp
  then have "withheld evs" using run_one_attempt_output[OF r] by simp
  then show ?thesis using settle_withheld[OF c] assms(3) by (simp add: emit_def)
qed

lemma apply_observed:
  assumes "apply_retry_decision cfg rd e m t = Continue t'"
  shows "ts_observed t' = ts_observed t"
proof -
  define d where "d = classify_error (rd_hash rd) e (ts_retry_count t) m
    (case tc_rate_limit_threshold cfg of Some n \<Rightarrow> n | None \<Rightarrow> tc_policy_threshold cfg)"
  note a = assms[unfolded apply_retry_decision_def Let_def, folded d_def]
  show ?thesis
    by (cases d) (use a in \<open>auto dest!: sleep_continues simp: fail_with_def split_beta emit_def split: if_splits\<close>)
qed

lemma settle_observed:
  assumes "settle_outcome cfg rd out t = Continue t'"
  shows "ts_observed t' = ts_observed t"
proof -
  have recover: "ts_observed t' = ts_observed t"
    if "recover_doom_loop cfg rd ts k recovery (with_signals ss t) = Continue t'" for ts k recovery ss
    using that
    by (auto dest!: sleep_continues simp: recover_doom_loop_def Let_def fail_with_def emit_retrying_def emit_def
        split: if_splits)
  show ?thesis
  proof (cases out)
    case (AttemptCompleted r)
    then show ?thesis using assms(1) by (simp add: settle_outcome_def finish_completed_def Let_def)
  next
    case (AttemptFailed e ss recovery)
    then show ?thesis using assms recover apply_observed[of cfg rd e _ "with_signals ss t"]
      by (cases e) (auto simp: settle_outcome_def Let_def)
  next
    case AttemptCancelled
    then show ?thesis using assms(1) by (simp add: settle_outcome_def handle_cancellation_def Let_def)
  qed (use assms apply_observed in \<open>fastforce simp: settle_outcome_def Let_def\<close>)+
qed

text \<open>C16: With \<open>retry_only_before_output\<close>, whenever the loop of a request goes on to another attempt, after any number of
  rounds and whatever the failures, detected doom loops included, none of the events sent so far has handed anything to
  the caller: no token, no piece of a tool call, no backend tool call, no response.\<close>

theorem no_retry_behind_output:
  assumes "tc_retry_only_before_output cfg" "quiet_wire rounds"
    and "continued cfg rounds n (task_new wanted items) = Some t"
  shows "withheld (ts_events t)"
  using assms(3)
proof (induction n arbitrary: t)
  case 0
  then show ?case by (auto simp: task_new_def)
next
  case (Suc n)
  then obtain u where u: "continued cfg rounds n (task_new wanted items) = Some u"
    "task_round cfg (rounds n) u = Continue t"
    by (auto split: progress.splits bind_splits)
  have "\<not> ts_observed t"
    using continued_unobserved[OF assms(1) u(2)] assms(2) by (simp add: quiet_wire_def)
  then show ?case using round_withheld[OF u(2) _ Suc.IH[OF u(1)]] settle_observed by blast
qed

definition demo_task :: task where
  "demo_task = task_new True [UserItem [PartText ''hi'']]"

lemma no_retry_behind_output_witness:
  "\<exists>t. continued demo_config demo_rounds 1 demo_task = Some t \<and> withheld (ts_events t)"
proof -
  have d: "classify_error 0 demo_refusal 0 3 2
      = RetryWithClientRebuild (retry_after_or_backoff 0 1 None)"
    by (simp add: classify_error_def demo_refusal_def is_auth_error_def is_encrypted_content_error_def
        is_payload_too_large_def is_byte_size_overflow_coded_def is_image_processing_error_def
        is_retry_vetoed_def should_retry_header_def is_context_length_error_def is_rate_limited_def
        is_retryable_def error_retry_after_def)
  have "task_round demo_config (demo_rounds 0) demo_task \<noteq> Finished t" for t
    using d
    by (simp add: task_round_def demo_rounds_def run_one_attempt_def settle_outcome_def
        demo_config_def demo_task_def task_new_def emit_def Let_def apply_retry_decision_def
        configured_max_retries_def resolve_max_retries_with_env_def sleep_or_cancel_def)
  then obtain t where "continued demo_config demo_rounds 1 demo_task = Some t"
    by (cases "task_round demo_config (demo_rounds 0) demo_task") auto
  with no_retry_behind_output[of demo_config demo_rounds 1 True "[UserItem [PartText ''hi'']]"] demo_quiet
  show ?thesis by (simp add: demo_config_def demo_task_def)
qed

subsection \<open>Images that are left out\<close>

definition images_told :: "task \<Rightarrow> task \<Rightarrow> bool" where
  "images_told t t' \<longleftrightarrow>
     image_urls (ts_items t') = image_urls (ts_items t)
     \<or> image_urls (ts_items t') = []
       \<and> (EvImagesStripped (image_urls (ts_items t)) ServerRejected \<in> set (ts_events t')
          \<or> EvImagesStripped (image_urls (ts_items t)) PayloadHeuristic \<in> set (ts_events t'))"

lemma count_retry_events: "set (ts_events t) \<subseteq> set (ts_events (count_retry cfg m e t))"
  by (auto simp: count_retry_def emit_retrying_def emit_def Let_def)

lemma strip_body_told:
  "images_told t (strip_if_body_rejected e d t)"
  by (auto simp: images_told_def strip_if_body_rejected_def emit_def split_beta Let_def image_urls_def[symmetric])

lemma images_told_mono:
  "images_told t t1 \<Longrightarrow> ts_items t2 = ts_items t1 \<Longrightarrow> set (ts_events t1) \<subseteq> set (ts_events t2) \<Longrightarrow> images_told t t2"
  by (auto simp: images_told_def)

lemma strip_reason_cases: "strip_reason_for_image_error e = ServerRejected \<or> strip_reason_for_image_error e = PayloadHeuristic"
  by (cases "strip_reason_for_image_error e") auto

lemma apply_told:
  assumes "apply_retry_decision cfg rd e m t = Continue t'"
  shows "images_told t t'"
proof -
  define th where "th = (case tc_rate_limit_threshold cfg of Some n \<Rightarrow> n | None \<Rightarrow> tc_policy_threshold cfg)"
  define d where "d = classify_error (rd_hash rd) e (ts_retry_count t) m th"
  define t1 where "t1 = strip_if_body_rejected e d t"
  note apply_def = assms[unfolded apply_retry_decision_def Let_def, folded th_def, folded d_def, folded t1_def]
  have t1: "images_told t t1" unfolding t1_def by (rule strip_body_told)
  have retried: "images_told t x"
    if "ts_items x = ts_items (count_retry cfg m e t1)" "ts_events x = ts_events (count_retry cfg m e t1)" for x
    using images_told_mono[OF t1] that count_retry_events[of t1] by simp
  show ?thesis
  proof (cases d)
    case RetryWithImageStrip
    then have "t1 = t" by (simp add: t1_def strip_if_body_rejected_def is_retry_def)
    with RetryWithImageStrip apply_def strip_reason_cases[of e] show ?thesis
      by (auto simp: fail_with_def split_beta images_told_def image_urls_def[symmetric] emit_def
          count_retry_def emit_retrying_def Let_def split: if_splits)
  qed (use apply_def in \<open>auto dest!: sleep_continues intro!: retried simp: fail_with_def split: if_splits\<close>)
qed

text \<open>Images never leave a request silently: the next attempt carries the same images, or it carries none and
  the consumer has been told exactly which ones were left out.\<close>

theorem stripped_images_are_reported:
  assumes "task_round cfg rd t = Continue t'" "\<And>http1 items armed. quiet_world armed (rd_world rd http1 items armed)"
  shows "images_told t t'"
proof (cases "rd_cancelled rd")
  case True
  with assms(1) show ?thesis by (simp add: task_round_def handle_cancellation_def)
next
  case False
  then obtain out obs evs where r: "run_one_attempt (tc_backend cfg) (tc_length_policy cfg) (tc_is_json cfg)
      (doom_check_of cfg t) (ts_observed t)
      (rd_world rd (ts_http1 t) (ts_items t) (doom_check_of cfg t \<noteq> None)) = (out, obs, evs)"
    and s: "task_round cfg rd t = settle_outcome cfg rd out ((emit evs t)\<lparr>ts_observed := obs\<rparr>)"
    by (rule round_cases)
  let ?t = "(emit evs t)\<lparr>ts_observed := obs\<rparr>"
  have c: "settle_outcome cfg rd out ?t = Continue t'" using s assms(1) by simp
  have from_apply: "images_told t t'"
    if "apply_retry_decision cfg rd e m t1 = Continue t'" "ts_items t1 = ts_items t" for e m t1
    using apply_told[OF that(1)] that(2) by (simp add: images_told_def)
  show ?thesis
  proof (cases out)
    case (AttemptFailed e ss recovery)
    show ?thesis
    proof (cases "is_doom e")
      case False
      with c AttemptFailed from_apply[of e _ "with_signals ss ?t"] show ?thesis
        by (cases e) (simp_all add: settle_outcome_def Let_def emit_def)
    next
      case True
      then obtain ts k where "e = DoomLoopDetected ts k" by (cases e) auto
      with c AttemptFailed have "recover_doom_loop cfg rd ts k recovery (with_signals ss ?t) = Continue t'"
        by (simp add: settle_outcome_def Let_def)
      moreover have "list_all model_text_only recovery"
        using run_one_attempt_facts(2)[OF r assms(2)] AttemptFailed by simp
      ultimately show ?thesis
        by (auto dest!: sleep_continues simp: recover_doom_loop_def Let_def fail_with_def emit_retrying_def
            emit_def images_told_def recovery_adds_no_image split: if_splits)
    qed
  next
    case (AttemptEmpty ctx ss)
    with c from_apply[of "EmptyResponse ctx" _ "with_signals ss ?t"] show ?thesis
      by (simp add: settle_outcome_def Let_def emit_def)
  next
    case (AttemptInitFailed e)
    with c from_apply[of e _ ?t] show ?thesis by (simp add: settle_outcome_def Let_def emit_def)
  qed (use c in \<open>simp_all add: settle_outcome_def finish_completed_def handle_cancellation_def Let_def\<close>)
qed

definition too_large :: sampling_error where
  "too_large = ApiError \<lparr>ae_status = 413, ae_message = ''too large'', ae_metadata = None, ae_retry_after = None,
     ae_should_retry = None, ae_code = None\<rparr>"

definition too_large_round :: round where
  "too_large_round =
     \<lparr>rd_cancelled = False,
      rd_world = (\<lambda>http1 items armed.
        \<lparr>aw_init_error = Some too_large, aw_raw_errors = [], aw_capture = captured_new, aw_observed = False,
         aw_inputs = []\<rparr>),
      rd_hash = 0, rd_sleep_cancelled = False, rd_rebuilt = True\<rparr>"

definition picture_task :: task where
  "picture_task = task_new True [UserItem [PartImage ''a.png'']]"

lemma stripped_images_are_reported_witness:
  "\<exists>t'. task_round demo_config too_large_round picture_task = Continue t' \<and> images_told picture_task t'"
proof -
  have q: "quiet_world armed (rd_world too_large_round http1 items armed)" for http1 items armed
    by (simp add: quiet_world_def too_large_round_def too_large_def)
  have d: "classify_error 0 too_large 0 3 2 = RetryWithImageStrip"
    by (simp add: classify_error_def too_large_def is_auth_error_def is_encrypted_content_error_def
        is_payload_too_large_def)
  have p: "strip_images [UserItem [PartImage ''a.png'']] = ([UserItem [PartText IMAGE_STRIP_PLACEHOLDER]], [''a.png''])"
    by (simp add: strip_images_def strip_images_where_def image_url_def List.map_filter_def)
  have "task_round demo_config too_large_round picture_task \<noteq> Finished t" for t
    using d p
    by (simp add: task_round_def too_large_round_def run_one_attempt_def settle_outcome_def demo_config_def
        picture_task_def task_new_def emit_def Let_def apply_retry_decision_def configured_max_retries_def
        resolve_max_retries_with_env_def strip_if_body_rejected_def is_retry_def)
  then obtain t' where "task_round demo_config too_large_round picture_task = Continue t'"
    by (cases "task_round demo_config too_large_round picture_task") auto
  with stripped_images_are_reported[OF this q] show ?thesis by blast
qed

subsection \<open>Backoff\<close>

lemma jitter_range:
  "base \<le> jitter_backoff h base + base div 5 \<and> jitter_backoff h base \<le> base + base div 5"
proof -
  have "h mod (base div 5 * 2 + 1) \<le> base div 5 * 2"
    using mod_less_divisor[of "base div 5 * 2 + 1" h] by linarith
  moreover have "base div 5 \<le> base" by simp
  ultimately show ?thesis unfolding jitter_backoff_def Let_def by linarith
qed

lemma shifted_base: "k < 64 \<Longrightarrow> checked_shl 2000 k = Some (push_bit k 2000) \<and> unat (push_bit k (2000 :: 64 word)) = 2000 * 2 ^ k mod 2 ^ 64"
proof -
  assume k: "k < 64"
  have "unat (push_bit k (2000 :: 64 word)) = take_bit 64 (push_bit k (2000 :: nat))"
    by (simp add: unsigned_push_bit_eq)
  also have "\<dots> = 2000 * 2 ^ k mod 2 ^ 64" by (simp only: take_bit_eq_mod push_bit_eq_mult)
  finally show ?thesis using k by (simp add: checked_shl_def)
qed

lemma early_backoff_base:
  assumes "n \<le> 60"
  shows "2000 \<le> backoff_base n \<and> backoff_base n \<le> 30000"
proof -
  define k where "k = n - 1"
  have k: "k < 60" using assms by (simp add: k_def)
  have "2000 \<le> (2000 * 2 ^ k mod 2 ^ 64 :: nat)"
  proof (cases "k \<le> 53")
    case True
    then have "(2 :: nat) ^ k \<le> 2 ^ 53" by (intro power_increasing) auto
    then have "(2000 * 2 ^ k :: nat) \<le> 2000 * 2 ^ 53" by (rule mult_le_mono2)
    also have "\<dots> < (2 ^ 64 :: nat)" by simp
    finally have "(2000 * 2 ^ k mod 2 ^ 64 :: nat) = 2000 * 2 ^ k" by (rule mod_less)
    then show ?thesis by simp
  next
    case False
    with k consider "k = 54" | "k = 55" | "k = 56" | "k = 57" | "k = 58" | "k = 59" by linarith
    then show ?thesis by cases simp_all
  qed
  with shifted_base[of k] k show ?thesis
    by (simp add: backoff_base_def MAX_RETRY_BACKOFF_def k_def)
qed

lemma lost_backoff_base: "61 \<le> n \<Longrightarrow> n \<le> 64 \<Longrightarrow> backoff_base n = 0"
proof -
  assume "61 \<le> n" "n \<le> 64"
  then consider "n = 61" | "n = 62" | "n = 63" | "n = 64" by linarith
  then show ?thesis
    by cases (simp_all add: backoff_base_def shifted_base MAX_RETRY_BACKOFF_def)
qed

lemma late_backoff_base: "65 \<le> n \<Longrightarrow> backoff_base n = 30000"
  by (simp add: backoff_base_def checked_shl_def MAX_RETRY_BACKOFF_def)

text \<open>The wait before a retry without a server hint is between 1.6 and 36 seconds for the first 60 attempts
  and from the 65th on, whatever the jitter.\<close>

lemma backoff_is_bounded:
  assumes "n \<le> 60 \<or> 65 \<le> n"
  shows "1600 \<le> retry_backoff_with_jitter h n \<and> retry_backoff_with_jitter h n \<le> 36000"
proof -
  have b: "2000 \<le> backoff_base n \<and> backoff_base n \<le> 30000"
    using assms early_backoff_base late_backoff_base by auto
  then have "backoff_base n div 5 \<le> 6000" "5 * (backoff_base n div 5) \<le> backoff_base n" by auto
  with b jitter_range[of "backoff_base n" h] show ?thesis
    unfolding retry_backoff_with_jitter_def by linarith
qed

text \<open>\<open>checked_shl\<close> checks the shift amount only: the bits of 2000 shifted out are lost, and four attempts in a
  row are not preceded by any wait.\<close>

lemma backoff_vanishes: "61 \<le> n \<Longrightarrow> n \<le> 64 \<Longrightarrow> retry_backoff_with_jitter h n = 0"
  by (simp add: retry_backoff_with_jitter_def jitter_backoff_def lost_backoff_base)

end
