(* ===== verification/Hunks.thy ===== *)
theory Hunks
  imports Paths Rust_Str
begin

text \<open>
  Hunks and their computation (\<open>src/crates/codegen/xai-hunk-tracker/src/types.rs\<close>, \<open>diff.rs\<close>,
  \<open>events.rs\<close>, \<open>actor/state.rs\<close>, \<open>actor/file_utils.rs\<close>).  The line diff is the crate \<open>similar\<close>, a parameter:
  for an old and a new text it gives the tagged lines, or nothing when the time limit was reached.  Hunk ids are
  the values of a supply \<open>uuid\<close>, indexed by how many were drawn before.
\<close>

subsection \<open>Contents\<close>

datatype file_content =
    Missing
  | BinaryContent "nat option"
  | TooLarge nat
  | LfsPointer nat
  | Symlink
  | Full string

definition content_str :: "file_content \<Rightarrow> string option" where
  "content_str c = (case c of Full s \<Rightarrow> Some s | _ \<Rightarrow> None)"

definition is_diffable :: "file_content \<Rightarrow> bool" where
  "is_diffable c = (case c of Full s \<Rightarrow> True | _ \<Rightarrow> False)"

definition content_byte_len :: "file_content \<Rightarrow> nat option" where
  "content_byte_len c =
     (case c of
        Missing \<Rightarrow> Some 0
      | BinaryContent l \<Rightarrow> l
      | TooLarge l \<Rightarrow> Some l
      | LfsPointer l \<Rightarrow> Some l
      | Symlink \<Rightarrow> None
      | Full s \<Rightarrow> Some (length s))"

definition MAX_TRACKED_TEXT_BYTES :: nat where "MAX_TRACKED_TEXT_BYTES = 1024 * 1024"

definition LFS_POINTER_PREFIX :: string where
  "LFS_POINTER_PREFIX = ''version https://git-lfs.github.com/spec/v1'' @ [CHR 0x0A]"

definition is_lfs_pointer :: "string \<Rightarrow> bool" where
  "is_lfs_pointer bytes \<longleftrightarrow> length bytes < 1024 \<and> starts_with bytes LFS_POINTER_PREFIX"

definition is_binary :: "string \<Rightarrow> bool" where
  "is_binary content \<longleftrightarrow> CHR 0x00 \<in> set (take (min (length content) 8000) content)"

definition classify_string :: "string \<Rightarrow> file_content" where
  "classify_string s =
     (if length s > MAX_TRACKED_TEXT_BYTES then TooLarge (length s)
      else if is_lfs_pointer s then LfsPointer (length s)
      else if is_binary s then BinaryContent (Some (length s))
      else Full s)"

definition classify_bytes :: "string \<Rightarrow> file_content" where
  "classify_bytes bytes =
     (if length bytes > MAX_TRACKED_TEXT_BYTES then TooLarge (length bytes)
      else if is_lfs_pointer bytes then LfsPointer (length bytes)
      else if is_binary bytes then BinaryContent (Some (length bytes))
      else if valid_utf8 bytes then Full bytes
      else BinaryContent (Some (length bytes)))"

text \<open>
  What a path holds on disk, as \<open>symlink_metadata\<close>, \<open>open\<close> and \<open>read\<close> see it: a file that cannot be opened or
  read has only its size, a directory the size of its entry.
\<close>

datatype link_target = DanglingLink | LinkToFile | LinkToDir

datatype disk_entry =
    NoEntry
  | LinkEntry link_target
  | DirEntry nat
  | UnreadableEntry nat
  | FileEntry string

definition read_file_bounded :: "disk_entry \<Rightarrow> file_content" where
  "read_file_bounded e =
     (case e of
        NoEntry \<Rightarrow> Missing
      | LinkEntry _ \<Rightarrow> Symlink
      | DirEntry n \<Rightarrow> if n > MAX_TRACKED_TEXT_BYTES then TooLarge n else Missing
      | UnreadableEntry n \<Rightarrow> if n > MAX_TRACKED_TEXT_BYTES then TooLarge n else Missing
      | FileEntry b \<Rightarrow>
          if length b > MAX_TRACKED_TEXT_BYTES then TooLarge (length b)
          else if is_lfs_pointer (take 8000 b) then LfsPointer (length b)
          else if is_binary (take 8000 b) then BinaryContent (Some (length b))
          else if valid_utf8 b then Full b
          else BinaryContent (Some (length b)))"

text \<open>\<open>Path::exists\<close> and \<open>Path::is_dir\<close> follow a link, which may dangle.\<close>

definition entry_exists :: "disk_entry \<Rightarrow> bool" where
  "entry_exists e = (case e of NoEntry \<Rightarrow> False | LinkEntry t \<Rightarrow> t \<noteq> DanglingLink | _ \<Rightarrow> True)"

definition entry_is_dir :: "disk_entry \<Rightarrow> bool" where
  "entry_is_dir e = (case e of DirEntry _ \<Rightarrow> True | LinkEntry t \<Rightarrow> t = LinkToDir | _ \<Rightarrow> False)"

subsection \<open>Hunks\<close>

datatype hunk_source = AgentEdit nat | ExternalEditOnAgentFile | ExternalEdit

definition is_agent_edit :: "hunk_source \<Rightarrow> bool" where
  "is_agent_edit s = (case s of AgentEdit _ \<Rightarrow> True | _ \<Rightarrow> False)"

definition is_agent_tracked :: "hunk_source \<Rightarrow> bool" where
  "is_agent_tracked s = (case s of AgentEdit _ \<Rightarrow> True | ExternalEditOnAgentFile \<Rightarrow> True | ExternalEdit \<Rightarrow> False)"

definition is_external :: "hunk_source \<Rightarrow> bool" where
  "is_external s = (case s of AgentEdit _ \<Rightarrow> False | _ \<Rightarrow> True)"

definition prompt_of :: "hunk_source \<Rightarrow> nat option" where
  "prompt_of s = (case s of AgentEdit p \<Rightarrow> Some p | _ \<Rightarrow> None)"

record line_info =
  old_start :: nat
  old_count :: nat
  new_start :: nat
  new_count :: nat

record hunk =
  hk_id :: string
  hk_path :: string
  hk_line_info :: line_info
  hk_source :: hunk_source
  hk_old_text :: "string option"
  hk_new_text :: string
  hk_patch :: "string option"
  hk_created_at :: nat
  hk_selected :: bool

definition file_created :: "string \<Rightarrow> nat \<Rightarrow> string \<Rightarrow> string \<Rightarrow> hunk_source \<Rightarrow> hunk" where
  "file_created hid now path content source =
     \<lparr>hk_id = hid, hk_path = path,
      hk_line_info = \<lparr>old_start = 0, old_count = 0, new_start = 1, new_count = max (length (text_lines content)) 1\<rparr>,
      hk_source = source, hk_old_text = None, hk_new_text = content, hk_patch = None,
      hk_created_at = now, hk_selected = False\<rparr>"

definition file_deleted :: "string \<Rightarrow> nat \<Rightarrow> string \<Rightarrow> string \<Rightarrow> hunk_source \<Rightarrow> hunk" where
  "file_deleted hid now path content source =
     \<lparr>hk_id = hid, hk_path = path,
      hk_line_info = \<lparr>old_start = 1, old_count = max (length (text_lines content)) 1, new_start = 0, new_count = 0\<rparr>,
      hk_source = source, hk_old_text = Some content, hk_new_text = [], hk_patch = None,
      hk_created_at = now, hk_selected = False\<rparr>"

subsection \<open>Computing the hunks of two texts\<close>

datatype change_tag = EqualLine | DeleteLine | InsertLine

type_synonym change = "change_tag \<times> string"

type_synonym line_differ = "string \<Rightarrow> string \<Rightarrow> change list option"

definition MAX_DIFF_FILE_SIZE :: nat where "MAX_DIFF_FILE_SIZE = 1024 * 1024"

record hunk_builder =
  hb_old_start :: nat
  hb_new_start :: nat
  hb_old_lines :: "string list"
  hb_new_lines :: "string list"

definition builder_new :: "nat \<Rightarrow> nat \<Rightarrow> hunk_builder" where
  "builder_new old_line new_line =
     \<lparr>hb_old_start = old_line, hb_new_start = new_line, hb_old_lines = [], hb_new_lines = []\<rparr>"

definition add_old_line :: "string \<Rightarrow> hunk_builder \<Rightarrow> hunk_builder" where
  "add_old_line l b = b\<lparr>hb_old_lines := hb_old_lines b @ [l]\<rparr>"

definition add_new_line :: "string \<Rightarrow> hunk_builder \<Rightarrow> hunk_builder" where
  "add_new_line l b = b\<lparr>hb_new_lines := hb_new_lines b @ [l]\<rparr>"

definition build :: "string \<Rightarrow> nat \<Rightarrow> string \<Rightarrow> hunk_source \<Rightarrow> hunk_builder \<Rightarrow> hunk" where
  "build hid now path source b =
     \<lparr>hk_id = hid, hk_path = path,
      hk_line_info = \<lparr>old_start = hb_old_start b, old_count = length (hb_old_lines b),
        new_start = hb_new_start b, new_count = length (hb_new_lines b)\<rparr>,
      hk_source = source,
      hk_old_text = (if hb_old_lines b = [] then None else Some (concat (hb_old_lines b))),
      hk_new_text = concat (hb_new_lines b), hk_patch = None, hk_created_at = now, hk_selected = False\<rparr>"

definition get_or_insert :: "hunk_builder option \<Rightarrow> nat \<Rightarrow> nat \<Rightarrow> hunk_builder" where
  "get_or_insert b old_line new_line = (case b of Some x \<Rightarrow> x | None \<Rightarrow> builder_new old_line new_line)"

definition finish_builder :: "hunk_builder option \<Rightarrow> hunk_builder list" where
  "finish_builder b = (case b of None \<Rightarrow> [] | Some x \<Rightarrow> [x])"

text \<open>The loop over the changes, with the line numbers and the hunk in progress.\<close>

fun group_changes :: "change list \<Rightarrow> nat \<Rightarrow> nat \<Rightarrow> hunk_builder option \<Rightarrow> hunk_builder list" where
  "group_changes [] old_line new_line cur = finish_builder cur"
| "group_changes ((EqualLine, v) # cs) old_line new_line cur =
     finish_builder cur @ group_changes cs (old_line + 1) (new_line + 1) None"
| "group_changes ((DeleteLine, v) # cs) old_line new_line cur =
     group_changes cs (old_line + 1) new_line (Some (add_old_line v (get_or_insert cur old_line new_line)))"
| "group_changes ((InsertLine, v) # cs) old_line new_line cur =
     group_changes cs old_line (new_line + 1) (Some (add_new_line v (get_or_insert cur old_line new_line)))"

text \<open>The hunks draw their ids in order, from the \<open>n\<close>-th of the supply on.\<close>

fun build_all :: "(nat \<Rightarrow> string) \<Rightarrow> nat \<Rightarrow> nat \<Rightarrow> string \<Rightarrow> hunk_source \<Rightarrow> hunk_builder list \<Rightarrow> hunk list" where
  "build_all uuid n now path source [] = []"
| "build_all uuid n now path source (b # bs) =
     build (uuid n) now path source b # build_all uuid (Suc n) now path source bs"

definition compute_hunks ::
    "line_differ \<Rightarrow> (nat \<Rightarrow> string) \<Rightarrow> nat \<Rightarrow> nat \<Rightarrow> string \<Rightarrow> string \<Rightarrow> string \<Rightarrow> hunk_source \<Rightarrow> hunk list" where
  "compute_hunks differ uuid n now path baseline current source =
     (if baseline = current then []
      else if length baseline > MAX_DIFF_FILE_SIZE \<or> length current > MAX_DIFF_FILE_SIZE then []
      else case differ baseline current of
          None \<Rightarrow> []
        | Some changes \<Rightarrow> build_all uuid n now path source (group_changes changes 1 1 None))"

subsection \<open>Patching lines\<close>

definition patch_lines :: "string \<Rightarrow> nat \<Rightarrow> nat \<Rightarrow> string \<Rightarrow> string" where
  "patch_lines content start_line remove_count insert_text =
     (let ls = text_lines content;
          start_idx = start_line - 1;
          end_idx = min (start_idx + remove_count) (length ls);
          result = take start_idx ls @ text_lines insert_text @ drop end_idx ls;
          output = join [CHR 0x0A] result in
      if ends_with content [CHR 0x0A] \<and> output \<noteq> [] then output @ [CHR 0x0A] else output)"

subsection \<open>Matching hunks\<close>

definition hunks_match_content :: "hunk \<Rightarrow> hunk \<Rightarrow> bool" where
  "hunks_match_content a b \<longleftrightarrow>
     hk_path a = hk_path b \<and> hk_old_text a = hk_old_text b \<and> hk_new_text a = hk_new_text b"

definition hunk_moved :: "hunk \<Rightarrow> hunk \<Rightarrow> bool" where
  "hunk_moved a b \<longleftrightarrow> hunks_match_content a b \<and> hk_line_info a \<noteq> hk_line_info b"

definition old_end :: "line_info \<Rightarrow> nat" where
  "old_end i = old_start i + old_count i"

definition hunks_overlap :: "hunk \<Rightarrow> hunk \<Rightarrow> bool" where
  "hunks_overlap a b \<longleftrightarrow>
     (let i = hk_line_info a; j = hk_line_info b in
      if hk_path a \<noteq> hk_path b then False
      else if old_count i = 0 \<and> old_count j = 0 then old_start i = old_start j
      else if old_count i = 0 then old_start j \<le> old_start i \<and> old_start i \<le> old_end j
      else if old_count j = 0 then old_start i \<le> old_start j \<and> old_start j \<le> old_end i
      else \<not> (old_end i < old_start j \<or> old_end j < old_start i))"

definition calculate_overlap_size :: "line_info \<Rightarrow> line_info \<Rightarrow> nat" where
  "calculate_overlap_size a b =
     min (old_end a) (old_end b) - max (old_start a) (old_start b)"

definition find_overlapping_hunks :: "hunk \<Rightarrow> hunk list \<Rightarrow> hunk list" where
  "find_overlapping_hunks new_hunk old_hunks = filter (\<lambda>x. hunks_overlap x new_hunk) old_hunks"

text \<open>\<open>min_by_key\<close> gives the first of the least, \<open>max_by_key\<close> the last of the greatest.\<close>

fun min_by_key :: "('a \<Rightarrow> nat) \<Rightarrow> 'a list \<Rightarrow> 'a option" where
  "min_by_key f [] = None"
| "min_by_key f (x # xs) =
     (case min_by_key f xs of None \<Rightarrow> Some x | Some y \<Rightarrow> if f x \<le> f y then Some x else Some y)"

fun max_by_key :: "('a \<Rightarrow> nat) \<Rightarrow> 'a list \<Rightarrow> 'a option" where
  "max_by_key f [] = None"
| "max_by_key f (x # xs) =
     (case max_by_key f xs of None \<Rightarrow> Some x | Some y \<Rightarrow> if f y < f x then Some x else Some y)"

definition abs_diff :: "nat \<Rightarrow> nat \<Rightarrow> nat" where
  "abs_diff a b = (if a < b then b - a else a - b)"

definition find_matching_old_hunk :: "hunk \<Rightarrow> hunk list \<Rightarrow> hunk option" where
  "find_matching_old_hunk new_hunk old_hunks =
     (let content_matches = filter (\<lambda>x. hunks_match_content x new_hunk) old_hunks in
      if content_matches \<noteq> [] then
        min_by_key (\<lambda>x. abs_diff (new_start (hk_line_info x)) (new_start (hk_line_info new_hunk))) content_matches
      else
        max_by_key (\<lambda>x. calculate_overlap_size (hk_line_info x) (hk_line_info new_hunk))
          (filter (\<lambda>x. hunks_overlap x new_hunk) old_hunks))"

subsection \<open>Patch texts\<close>

definition CONTEXT_LINES :: nat where "CONTEXT_LINES = 3"

definition marked_lines :: "string \<Rightarrow> string list \<Rightarrow> string" where
  "marked_lines mark ls = concat (map (\<lambda>l. mark @ l @ [CHR 0x0A]) ls)"

definition range_header :: "nat \<Rightarrow> nat \<Rightarrow> nat \<Rightarrow> nat \<Rightarrow> string" where
  "range_header a b c d =
     ''@@ -'' @ nat_digits a @ '','' @ nat_digits b @ '' +'' @ nat_digits c @ '','' @ nat_digits d @ '' @@''"

definition slice :: "nat \<Rightarrow> nat \<Rightarrow> 'a list \<Rightarrow> 'a list" where
  "slice i j xs = take (j - i) (drop i xs)"

definition old_lines_of :: "hunk \<Rightarrow> string list" where
  "old_lines_of h = (case hk_old_text h of None \<Rightarrow> [] | Some t \<Rightarrow> text_lines t)"

definition generate_hunk_patch :: "string \<Rightarrow> string \<Rightarrow> hunk \<Rightarrow> string" where
  "generate_hunk_patch baseline current h =
     (let old_lines = text_lines baseline; new_lines = text_lines current; i = hk_line_info h;
          old_start_idx = old_start i - 1; new_start_idx = new_start i - 1;
          before_start = old_start_idx - CONTEXT_LINES;
          after_start = new_start_idx + new_count i;
          after_end = min (after_start + CONTEXT_LINES) (length new_lines);
          after_start_old = old_start_idx + old_count i;
          after_end_old = min (after_start_old + CONTEXT_LINES) (length old_lines);
          total_old = (old_start_idx - before_start) + old_count i + (after_end_old - after_start_old);
          total_new = (old_start_idx - before_start) + new_count i + (after_end - after_start) in
      range_header (before_start + 1) total_old (before_start + 1) total_new @ [CHR 0x0A]
      @ marked_lines '' '' (slice before_start old_start_idx old_lines)
      @ marked_lines ''-'' (old_lines_of h)
      @ marked_lines ''+'' (text_lines (hk_new_text h))
      @ marked_lines '' '' (slice after_start after_end new_lines))"

definition format_unified_diff :: "hunk \<Rightarrow> string" where
  "format_unified_diff h =
     (let i = hk_line_info h in
      ''--- a/'' @ hk_path h @ [CHR 0x0A] @ ''+++ b/'' @ hk_path h @ [CHR 0x0A]
      @ range_header (old_start i) (old_count i) (new_start i) (new_count i) @ [CHR 0x0A]
      @ marked_lines ''-'' (old_lines_of h) @ marked_lines ''+'' (text_lines (hk_new_text h)))"

end
