(* ===== verification/Hunk_Tracker.thy ===== *)
theory Hunk_Tracker
  imports Hunks "HOL-Library.AList"
begin

text \<open>
  The hunk tracker's actor (\<open>src/crates/codegen/xai-hunk-tracker/src/actor\<close>): its state, the recomputation of a
  file's hunks with the events it emits, what it reads from git, and the handling of agent writes, file changes
  and baseline refreshes.  The actor runs one command at a time.  The hash map of files is an association list,
  whose order stands for the map's order of iteration; a path is its spelling, absolute and normalised as
  callers pass it.  The crates \<open>similar\<close>, \<open>uuid\<close> and \<open>gix\<close>, the clock and the disk are parameters: \<open>hunk_lib\<close> for the
  whole life of a tracker, \<open>hunk_world\<close> for one command.
\<close>

subsection \<open>State\<close>

datatype tracking_mode = AgentOnly | AllDirty

datatype removal_reason = RemovedAccepted | RemovedRejected | Superseded

datatype hunk_event =
    HunkAdded string hunk
  | HunkRemoved string string removal_reason
  | HunkMoved string string line_info
  | HunkContentChanged string hunk hunk_source nat nat
  | FileAdded string bool
  | FileRemoved string
  | BaselineUpdated string

record session_stats =
  accepted_hunks :: nat
  rejected_hunks :: nat
  accepted_lines_added :: nat
  accepted_lines_removed :: nat
  rejected_lines_added :: nat
  rejected_lines_removed :: nat

definition no_stats :: session_stats where
  "no_stats = \<lparr>accepted_hunks = 0, rejected_hunks = 0, accepted_lines_added = 0, accepted_lines_removed = 0,
     rejected_lines_added = 0, rejected_lines_removed = 0\<rparr>"

record file_hunks =
  fh_baseline :: file_content
  fh_current :: file_content
  fh_hunks :: "hunk list"
  fh_is_agent :: bool
  fh_accepted :: bool

datatype git_repo_state = RepoUnknown | NotARepo | Discovered string

record repo_sync =
  rs_head_oid :: "string option"
  rs_index_mtime :: "nat option"

definition no_sync :: repo_sync where
  "no_sync = \<lparr>rs_head_oid = None, rs_index_mtime = None\<rparr>"

type_synonym turn_index = "nat \<rightharpoonup> string set"

record tracker =
  ht_working_dir :: string
  ht_files :: "(string \<times> file_hunks) list"
  ht_turns :: turn_index
  ht_dirty :: "string list"
  ht_staged :: "string list"
  ht_repo :: git_repo_state
  ht_sync :: repo_sync
  ht_mode :: tracking_mode
  ht_stats :: session_stats
  ht_events :: "hunk_event list"
  ht_drawn :: nat

definition tracker_new :: "string \<Rightarrow> tracking_mode \<Rightarrow> tracker" where
  "tracker_new working_dir m =
     \<lparr>ht_working_dir = working_dir, ht_files = [], ht_turns = Map.empty, ht_dirty = [], ht_staged = [],
      ht_repo = RepoUnknown, ht_sync = no_sync, ht_mode = m, ht_stats = no_stats, ht_events = [], ht_drawn = 0\<rparr>"

record hunk_lib =
  hl_uuid :: "nat \<Rightarrow> string"
  hl_differ :: line_differ

datatype head_entry = HeadLink | HeadBlob string

text \<open>
  \<open>hw_discover\<close> is the repository found from a working directory, as the prefix of the directory in it; \<open>hw_head\<close>
  an entry of the HEAD tree; \<open>hw_status\<close> the items of \<open>git status\<close> in a scope, each with whether it is a staged
  change; \<open>hw_blocking_ok\<close> whether the blocking task ran to its end.
\<close>

record hunk_world =
  hw_now :: nat
  hw_disk :: "string \<Rightarrow> disk_entry"
  hw_write_ok :: "string \<Rightarrow> bool"
  hw_remove_ok :: "string \<Rightarrow> bool"
  hw_blocking_ok :: bool
  hw_discover :: "string \<Rightarrow> string option"
  hw_head :: "string \<Rightarrow> string \<Rightarrow> string \<Rightarrow> head_entry option"
  hw_status :: "string \<Rightarrow> string list option \<Rightarrow> (string \<times> bool) list"
  hw_sync :: "string \<Rightarrow> repo_sync"

definition file_of :: "tracker \<Rightarrow> string \<Rightarrow> file_hunks option" where
  "file_of t path = map_of (ht_files t) path"

definition tracked :: "tracker \<Rightarrow> string \<Rightarrow> bool" where
  "tracked t path \<longleftrightarrow> file_of t path \<noteq> None"

definition put_file :: "string \<Rightarrow> file_hunks \<Rightarrow> tracker \<Rightarrow> tracker" where
  "put_file path s t = t\<lparr>ht_files := AList.update path s (ht_files t)\<rparr>"

definition drop_file :: "string \<Rightarrow> tracker \<Rightarrow> tracker" where
  "drop_file path t = t\<lparr>ht_files := AList.delete path (ht_files t)\<rparr>"

definition send_event :: "hunk_event \<Rightarrow> tracker \<Rightarrow> tracker" where
  "send_event e t = t\<lparr>ht_events := ht_events t @ [e]\<rparr>"

subsection \<open>The index of turns\<close>

definition turns_remove :: "hunk \<Rightarrow> turn_index \<Rightarrow> turn_index" where
  "turns_remove h ti =
     (case prompt_of (hk_source h) of
        None \<Rightarrow> ti
      | Some p \<Rightarrow> (case ti p of None \<Rightarrow> ti | Some ids \<Rightarrow> ti(p \<mapsto> ids - {hk_id h})))"

definition turns_insert :: "hunk \<Rightarrow> turn_index \<Rightarrow> turn_index" where
  "turns_insert h ti =
     (case prompt_of (hk_source h) of
        None \<Rightarrow> ti
      | Some p \<Rightarrow> ti(p \<mapsto> insert (hk_id h) (case ti p of None \<Rightarrow> {} | Some ids \<Rightarrow> ids)))"

subsection \<open>Recomputing the hunks of a file\<close>

definition file_diff ::
    "hunk_lib \<Rightarrow> nat \<Rightarrow> nat \<Rightarrow> string \<Rightarrow> file_content \<Rightarrow> file_content \<Rightarrow> hunk_source \<Rightarrow> hunk list" where
  "file_diff L n now path baseline current source =
     (case (baseline, current) of
        (Full b, Full c) \<Rightarrow> compute_hunks (hl_differ L) (hl_uuid L) n now path b c source
      | (Full b, Missing) \<Rightarrow> if b = [] then [] else [file_deleted (hl_uuid L n) now path b source]
      | (Missing, Full c) \<Rightarrow> if c = [] then [] else [file_created (hl_uuid L n) now path c source]
      | _ \<Rightarrow> [])"

text \<open>A new hunk takes over the id of the old hunk it matches, once, and an agent's attribution.\<close>

fun preserve_ids :: "hunk list \<Rightarrow> string set \<Rightarrow> hunk list \<Rightarrow> hunk list" where
  "preserve_ids olds claimed [] = []"
| "preserve_ids olds claimed (h # hs) =
     (case find_matching_old_hunk h olds of
        None \<Rightarrow> h # preserve_ids olds claimed hs
      | Some m \<Rightarrow>
          if hk_id m \<in> claimed then h # preserve_ids olds claimed hs
          else h\<lparr>hk_id := hk_id m,
                  hk_source := (if is_external (hk_source h) \<and> is_agent_edit (hk_source m) then hk_source m
                                else hk_source h)\<rparr>
               # preserve_ids olds (insert (hk_id m) claimed) hs)"

definition removed_events :: "string \<Rightarrow> hunk list \<Rightarrow> hunk list \<Rightarrow> hunk_event list" where
  "removed_events path olds news =
     map (\<lambda>h. HunkRemoved path (hk_id h) Superseded)
       (filter (\<lambda>h. \<not> list_ex (\<lambda>n. hunks_overlap h n \<or> hunks_match_content h n) news) olds)"

definition previous_of :: "hunk list \<Rightarrow> hunk \<Rightarrow> hunk option" where
  "previous_of olds h =
     (case find (\<lambda>x. hk_id x = hk_id h) olds of
        Some x \<Rightarrow> Some x
      | None \<Rightarrow> find (\<lambda>x. hunks_overlap x h) olds)"

definition new_hunk_events :: "string \<Rightarrow> hunk list \<Rightarrow> hunk_source \<Rightarrow> hunk \<Rightarrow> hunk_event list" where
  "new_hunk_events path olds trigger h =
     (case find (\<lambda>x. hunks_match_content x h) olds of
        Some x \<Rightarrow> if hunk_moved x h then [HunkMoved path (hk_id x) (hk_line_info h)] else []
      | None \<Rightarrow>
          if \<not> list_ex (\<lambda>x. hunks_overlap x h) olds then [HunkAdded path h]
          else (case previous_of olds h of
              Some x \<Rightarrow> [HunkContentChanged path h trigger (new_count (hk_line_info x)) (old_count (hk_line_info x))]
            | None \<Rightarrow> [HunkContentChanged path h trigger 0 0]))"

definition emit_hunk_diff_events ::
    "string \<Rightarrow> hunk list \<Rightarrow> hunk list \<Rightarrow> hunk_source \<Rightarrow> tracker \<Rightarrow> tracker" where
  "emit_hunk_diff_events path olds news trigger t =
     t\<lparr>ht_events := ht_events t @ removed_events path olds news
        @ concat (map (new_hunk_events path olds trigger) news)\<rparr>"

definition recompute_hunks ::
    "hunk_lib \<Rightarrow> nat \<Rightarrow> string \<Rightarrow> file_content option \<Rightarrow> hunk_source \<Rightarrow> tracker \<Rightarrow> tracker" where
  "recompute_hunks L now path new_current source t =
     (case file_of t path of
        None \<Rightarrow> t
      | Some s \<Rightarrow>
          let olds = fh_hunks s;
              current = (case new_current of Some c \<Rightarrow> c | None \<Rightarrow> Missing);
              computed = file_diff L (ht_drawn t) now path (fh_baseline s) current source;
              news = preserve_ids olds {} computed in
          emit_hunk_diff_events path olds news source
            ((put_file path (s\<lparr>fh_current := current, fh_hunks := news\<rparr>) t)
               \<lparr>ht_turns := fold turns_insert news (fold turns_remove olds (ht_turns t)),
                ht_drawn := ht_drawn t + length computed\<rparr>))"

subsection \<open>What git says\<close>

text \<open>Opening the cached repository, or discovering one: its prefix and the state to cache.\<close>

definition open_or_discover :: "hunk_world \<Rightarrow> tracker \<Rightarrow> string option \<times> git_repo_state" where
  "open_or_discover w t =
     (case ht_repo t of
        Discovered pre \<Rightarrow> (Some pre, ht_repo t)
      | NotARepo \<Rightarrow> (None, NotARepo)
      | RepoUnknown \<Rightarrow>
          (case hw_discover w (ht_working_dir t) of
             Some pre \<Rightarrow> (Some pre, Discovered pre)
           | None \<Rightarrow> (None, NotARepo)))"

definition head_content :: "hunk_world \<Rightarrow> string \<Rightarrow> string \<Rightarrow> string \<Rightarrow> file_content" where
  "head_content w working_dir pre path =
     (case hw_head w working_dir pre path of
        None \<Rightarrow> Missing
      | Some HeadLink \<Rightarrow> Symlink
      | Some (HeadBlob b) \<Rightarrow> classify_bytes b)"

definition read_baseline :: "hunk_world \<Rightarrow> string \<Rightarrow> tracker \<Rightarrow> file_content \<times> tracker" where
  "read_baseline w path t =
     (if ht_repo t = NotARepo \<or> \<not> hw_blocking_ok w then (Missing, t)
      else case open_or_discover w t of
          (None, r) \<Rightarrow> (Missing, t\<lparr>ht_repo := r\<rparr>)
        | (Some pre, r) \<Rightarrow> (head_content w (ht_working_dir t) pre path, t\<lparr>ht_repo := r\<rparr>))"

definition read_baselines_batch ::
    "hunk_world \<Rightarrow> string list \<Rightarrow> tracker \<Rightarrow> (string \<rightharpoonup> file_content) \<times> tracker" where
  "read_baselines_batch w paths t =
     (if paths = [] \<or> ht_repo t = NotARepo \<or> \<not> hw_blocking_ok w then (Map.empty, t)
      else case open_or_discover w t of
          (None, r) \<Rightarrow> (map_of (map (\<lambda>p. (p, Missing)) paths), t\<lparr>ht_repo := r\<rparr>)
        | (Some pre, r) \<Rightarrow>
            (map_of (map (\<lambda>p. (p, head_content w (ht_working_dir t) pre p)) paths), t\<lparr>ht_repo := r\<rparr>))"

definition read_repo_sync_state :: "hunk_world \<Rightarrow> tracker \<Rightarrow> repo_sync option \<times> tracker" where
  "read_repo_sync_state w t =
     (if ht_repo t = NotARepo \<or> \<not> hw_blocking_ok w then (None, t)
      else case open_or_discover w t of
          (None, r) \<Rightarrow> (None, t\<lparr>ht_repo := r\<rparr>)
        | (Some pre, r) \<Rightarrow> (Some (hw_sync w pre), t\<lparr>ht_repo := r\<rparr>))"

subsection \<open>Mutations\<close>

definition fresh_file :: "file_content \<Rightarrow> file_content \<Rightarrow> bool \<Rightarrow> file_hunks" where
  "fresh_file baseline current agent =
     \<lparr>fh_baseline = baseline, fh_current = current, fh_hunks = [], fh_is_agent = agent, fh_accepted = False\<rparr>"

definition strip_single_trailing_newline :: "string \<Rightarrow> string" where
  "strip_single_trailing_newline content =
     (case strip_suffix content [CHR 0x0D, CHR 0x0A] of
        Some r \<Rightarrow> r
      | None \<Rightarrow> (case strip_suffix content [CHR 0x0A] of Some r \<Rightarrow> r | None \<Rightarrow> content))"

definition record_agent_write ::
    "hunk_lib \<Rightarrow> hunk_world \<Rightarrow> string \<Rightarrow> string \<Rightarrow> nat \<Rightarrow> string option \<Rightarrow> tracker \<Rightarrow> tracker" where
  "record_agent_write L w path content prompt_index previous t =
     (let source = AgentEdit prompt_index; current = classify_string content in
      if \<not> is_diffable current then
        (case file_of t path of
           None \<Rightarrow>
             (let (baseline, t1) = (case previous of
                  Some prev \<Rightarrow> (classify_string prev, t) | None \<Rightarrow> read_baseline w path t) in
              send_event (FileAdded path True) (put_file path (fresh_file baseline current True) t1))
         | Some s \<Rightarrow> put_file path (s\<lparr>fh_is_agent := True, fh_current := current, fh_hunks := []\<rparr>) t)
      else
        (case file_of t path of
           None \<Rightarrow>
             (let (head, t1) = read_baseline w path t;
                  baseline = (if head = Missing
                    then (case previous of Some prev \<Rightarrow> classify_string prev | None \<Rightarrow> Missing) else head) in
              recompute_hunks L (hw_now w) path (Some current) source
                (send_event (FileAdded path True) (put_file path (fresh_file baseline current True) t1)))
         | Some s \<Rightarrow>
             recompute_hunks L (hw_now w) path (Some current) source (put_file path (s\<lparr>fh_is_agent := True\<rparr>) t)))"

definition relative_path :: "tracker \<Rightarrow> string \<Rightarrow> string" where
  "relative_path t path = (case path_strip_prefix path (ht_working_dir t) of Some r \<Rightarrow> r | None \<Rightarrow> path)"

definition in_dirty_cache :: "tracker \<Rightarrow> string \<Rightarrow> bool" where
  "in_dirty_cache t path \<longleftrightarrow> relative_path t path \<in> set (ht_dirty t)"

text \<open>A path git does not know and does not call dirty is ignored, unless it is a directory.\<close>

definition ignored_path :: "hunk_world \<Rightarrow> tracker \<Rightarrow> string \<Rightarrow> file_content \<Rightarrow> bool" where
  "ignored_path w t path baseline \<longleftrightarrow>
     ht_mode t = AllDirty \<and> baseline = Missing \<and> \<not> entry_is_dir (hw_disk w path) \<and> \<not> in_dirty_cache t path"

definition baseline_or_read ::
    "hunk_world \<Rightarrow> file_content option \<Rightarrow> string \<Rightarrow> tracker \<Rightarrow> file_content \<times> tracker" where
  "baseline_or_read w preloaded path t = (case preloaded of Some b \<Rightarrow> (b, t) | None \<Rightarrow> read_baseline w path t)"

definition content_matches_head :: "tracker \<Rightarrow> string \<Rightarrow> file_content \<Rightarrow> file_content \<Rightarrow> bool" where
  "content_matches_head t path current head =
     (case (current, head) of
        (Full c, Full h) \<Rightarrow> strip_single_trailing_newline c = strip_single_trailing_newline h
      | (Missing, Missing) \<Rightarrow> True
      | (BinaryContent _, BinaryContent _) \<Rightarrow> True
      | (TooLarge _, TooLarge _) \<Rightarrow> True
      | (LfsPointer _, LfsPointer _) \<Rightarrow> True
      | (Symlink, Symlink) \<Rightarrow> True
      | (Symlink, Full _) \<Rightarrow> \<not> in_dirty_cache t path
      | (Full _, Symlink) \<Rightarrow> \<not> in_dirty_cache t path
      | _ \<Rightarrow> False)"

definition external_source :: "tracker \<Rightarrow> string \<Rightarrow> hunk_source" where
  "external_source t path =
     (case file_of t path of
        Some s \<Rightarrow> if fh_is_agent s then ExternalEditOnAgentFile else ExternalEdit
      | None \<Rightarrow> ExternalEdit)"

definition recompute_external :: "hunk_lib \<Rightarrow> hunk_world \<Rightarrow> string \<Rightarrow> file_content option \<Rightarrow> tracker \<Rightarrow> tracker" where
  "recompute_external L w path current t =
     recompute_hunks L (hw_now w) path current (external_source t path) t"

definition add_external :: "string \<Rightarrow> file_content \<Rightarrow> file_content \<Rightarrow> tracker \<Rightarrow> tracker" where
  "add_external path baseline current t =
     send_event (FileAdded path False) (put_file path (fresh_file baseline current False) t)"

definition process_file_change ::
    "hunk_lib \<Rightarrow> hunk_world \<Rightarrow> string \<Rightarrow> file_content option \<Rightarrow> tracker \<Rightarrow> tracker" where
  "process_file_change L w path preloaded t =
     (let current = read_file_bounded (hw_disk w path) in
      case file_of t path of
        None \<Rightarrow>
          if ht_mode t = AgentOnly then t
          else
            (let (baseline, t1) = baseline_or_read w preloaded path t in
             if ignored_path w t1 path baseline then t1
             else if \<not> is_diffable current then
               (let t2 = add_external path baseline current t1 in
                if is_diffable baseline then recompute_hunks L (hw_now w) path None ExternalEdit t2 else t2)
             else recompute_external L w path (Some current) (add_external path baseline Missing t1))
      | Some s \<Rightarrow>
          if fh_accepted s then
            (let (head, t1) = baseline_or_read w preloaded path t in
             if content_matches_head t1 path current head then
               put_file path (s\<lparr>fh_baseline := head, fh_current := head, fh_accepted := False, fh_hunks := []\<rparr>) t1
             else recompute_external L w path (Some current) t1)
          else recompute_external L w path (Some current) t)"

definition handle_file_change :: "hunk_lib \<Rightarrow> hunk_world \<Rightarrow> string \<Rightarrow> tracker \<Rightarrow> tracker" where
  "handle_file_change L w path t = process_file_change L w path None t"

text \<open>The batch hands each preloaded baseline to the first change of its path.\<close>

fun change_all :: "hunk_lib \<Rightarrow> hunk_world \<Rightarrow> (string \<rightharpoonup> file_content) \<Rightarrow> string list \<Rightarrow> tracker \<Rightarrow> tracker" where
  "change_all L w baselines [] t = t"
| "change_all L w baselines (p # ps) t =
     change_all L w (baselines(p := None)) ps (process_file_change L w p (baselines p) t)"

definition needs_baseline :: "tracker \<Rightarrow> string \<Rightarrow> bool" where
  "needs_baseline t path =
     (case file_of t path of None \<Rightarrow> ht_mode t \<noteq> AgentOnly | Some s \<Rightarrow> fh_accepted s)"

definition handle_file_changes_batch :: "hunk_lib \<Rightarrow> hunk_world \<Rightarrow> string list \<Rightarrow> tracker \<Rightarrow> tracker" where
  "handle_file_changes_batch L w paths t =
     (let (baselines, t1) = read_baselines_batch w (filter (needs_baseline t) paths) t in
      change_all L w baselines paths t1)"

definition handle_file_deleted :: "hunk_lib \<Rightarrow> hunk_world \<Rightarrow> string \<Rightarrow> tracker \<Rightarrow> tracker" where
  "handle_file_deleted L w path t =
     (if \<not> tracked t path then
        if ht_mode t = AgentOnly \<or> entry_exists (hw_disk w path) then t
        else
          (let (baseline, t1) = read_baseline w path t in
           if baseline = Missing then t1
           else recompute_hunks L (hw_now w) path None ExternalEdit (add_external path baseline Missing t1))
      else if entry_exists (hw_disk w path) then handle_file_change L w path t
      else recompute_external L w path None t)"

text \<open>Leaving a file's hunks behind: out of the index of turns, with an event each.\<close>

definition retire_hunks :: "string \<Rightarrow> hunk list \<Rightarrow> tracker \<Rightarrow> tracker" where
  "retire_hunks path hs t =
     t\<lparr>ht_turns := fold turns_remove hs (ht_turns t),
       ht_events := ht_events t @ map (\<lambda>h. HunkRemoved path (hk_id h) Superseded) hs\<rparr>"

definition reset_baseline :: "string \<Rightarrow> tracker \<Rightarrow> tracker" where
  "reset_baseline path t =
     (case file_of t path of
        None \<Rightarrow> t
      | Some s \<Rightarrow>
          send_event (BaselineUpdated path)
            (retire_hunks path (fh_hunks s)
              (put_file path (s\<lparr>fh_baseline := fh_current s, fh_accepted := False, fh_hunks := []\<rparr>) t)))"

end
