(* ===== verification/Hunk_Actions.thy ===== *)
theory Hunk_Actions
  imports Hunk_Tracker
begin

text \<open>
  The rest of the hunk tracker's commands (\<open>src/crates/codegen/xai-hunk-tracker/src/actor\<close>): refreshes against git
  (\<open>git.rs\<close>, \<open>mutations.rs\<close>), accepting and rejecting hunks (\<open>actions.rs\<close>), queries (\<open>queries.rs\<close>), snapshots, the
  change of working directory and the batching of notifications (\<open>mod.rs\<close>, \<open>types.rs\<close>).  What an action writes to
  disk is a list of effects.
\<close>

subsection \<open>Refreshing against git\<close>

text \<open>The dirty and the staged files below the working directory, relative to it.\<close>

definition status_files :: "string \<Rightarrow> (string \<times> bool) list \<Rightarrow> string list \<times> string list" where
  "status_files pre items =
     (remdups (List.map_filter (\<lambda>(p, _). path_strip_prefix p pre) items),
      remdups (List.map_filter (\<lambda>(p, st). if st then path_strip_prefix p pre else None) items))"

definition refresh_git_dirty_cache ::
    "hunk_lib \<Rightarrow> hunk_world \<Rightarrow> string list option \<Rightarrow> tracker \<Rightarrow> tracker" where
  "refresh_git_dirty_cache L w scope t =
     (if ht_repo t = NotARepo \<or> \<not> hw_blocking_ok w then t
      else
        (let (repo, r) = open_or_discover w t;
             (dirty, staged) = (case repo of None \<Rightarrow> ([], []) | Some pre \<Rightarrow> status_files pre (hw_status w pre scope));
             to_track = filter (\<lambda>p. \<not> tracked t (path_join (ht_working_dir t) p)) dirty;
             t1 = t\<lparr>ht_repo := r, ht_dirty := dirty, ht_staged := staged\<rparr> in
         if ht_mode t1 = AllDirty then
           fold (\<lambda>p u. handle_file_change L w (path_join (ht_working_dir u) p) u) to_track t1
         else t1))"

definition same_kind :: "file_content \<Rightarrow> file_content \<Rightarrow> bool" where
  "same_kind a b =
     (case (a, b) of
        (BinaryContent _, BinaryContent _) \<Rightarrow> True
      | (TooLarge _, TooLarge _) \<Rightarrow> True
      | (LfsPointer _, LfsPointer _) \<Rightarrow> True
      | (Symlink, Symlink) \<Rightarrow> True
      | _ \<Rightarrow> False)"

definition is_clean :: "hunk_world \<Rightarrow> tracker \<Rightarrow> string \<Rightarrow> file_content \<Rightarrow> file_content \<Rightarrow> bool" where
  "is_clean w t path baseline current =
     (case (baseline, current) of
        (Full b, Full c) \<Rightarrow> strip_single_trailing_newline b = strip_single_trailing_newline c
      | (Missing, Missing) \<Rightarrow> \<not> entry_exists (hw_disk w path)
      | (LfsPointer _, _) \<Rightarrow> \<not> in_dirty_cache t path
      | (_, LfsPointer _) \<Rightarrow> \<not> in_dirty_cache t path
      | (Symlink, Full _) \<Rightarrow> \<not> in_dirty_cache t path
      | (Full _, Symlink) \<Rightarrow> \<not> in_dirty_cache t path
      | (Missing, _) \<Rightarrow> \<not> in_dirty_cache t path
      | _ \<Rightarrow> same_kind baseline current \<and> \<not> in_dirty_cache t path)"

definition refresh_file ::
    "hunk_lib \<Rightarrow> hunk_world \<Rightarrow> (string \<rightharpoonup> file_content) \<Rightarrow> string \<Rightarrow> tracker \<Rightarrow> tracker" where
  "refresh_file L w baselines path t =
     (case file_of t path of
        None \<Rightarrow> t
      | Some s \<Rightarrow>
          let baseline = (case baselines path of Some b \<Rightarrow> b | None \<Rightarrow> Missing);
              current = read_file_bounded (hw_disk w path);
              s1 = s\<lparr>fh_baseline := baseline, fh_current := current, fh_accepted := False\<rparr>;
              clean = is_clean w t path baseline current in
          if clean \<and> \<not> fh_is_agent s then
            send_event (FileRemoved path) (retire_hunks path (fh_hunks s) (drop_file path t))
          else if clean then
            send_event (BaselineUpdated path)
              (retire_hunks path (fh_hunks s) (put_file path (s1\<lparr>fh_hunks := []\<rparr>) t))
          else
            send_event (BaselineUpdated path)
              (recompute_hunks L (hw_now w) path (Some current)
                (if fh_is_agent s then ExternalEditOnAgentFile else ExternalEdit) (put_file path s1 t)))"

definition refresh_caches :: "hunk_lib \<Rightarrow> hunk_world \<Rightarrow> tracker \<Rightarrow> tracker" where
  "refresh_caches L w t =
     (if ht_mode t = AllDirty then refresh_git_dirty_cache L w None t
      else
        (let rels = List.map_filter (\<lambda>(p, _). path_strip_prefix p (ht_working_dir t)) (ht_files t) in
         if rels = [] then t\<lparr>ht_dirty := [], ht_staged := []\<rparr>
         else refresh_git_dirty_cache L w (Some rels) t))"

definition refresh_all_baselines_except ::
    "hunk_lib \<Rightarrow> hunk_world \<Rightarrow> string list \<Rightarrow> tracker \<Rightarrow> tracker" where
  "refresh_all_baselines_except L w skip t =
     (if ht_mode t = AgentOnly \<and> ht_files t = [] then t
      else
        (let (sync, t1) = read_repo_sync_state w t in
         if sync = Some (ht_sync t1) then t1
         else
           (let t2 = (case sync of Some s \<Rightarrow> t1\<lparr>ht_sync := s\<rparr> | None \<Rightarrow> t1);
                t3 = refresh_caches L w t2;
                paths = filter (\<lambda>p. p \<notin> set skip) (map fst (ht_files t3));
                (baselines, t4) = read_baselines_batch w paths t3 in
            fold (refresh_file L w baselines) paths t4)))"

definition refresh_all_baselines :: "hunk_lib \<Rightarrow> hunk_world \<Rightarrow> tracker \<Rightarrow> tracker" where
  "refresh_all_baselines L w t = refresh_all_baselines_except L w [] t"

definition untrack_file :: "string \<Rightarrow> tracker \<Rightarrow> tracker" where
  "untrack_file path t =
     (case file_of t path of
        None \<Rightarrow> t
      | Some s \<Rightarrow> send_event (FileRemoved path) (retire_hunks path (fh_hunks s) (drop_file path t)))"

definition set_mode :: "hunk_lib \<Rightarrow> hunk_world \<Rightarrow> tracking_mode \<Rightarrow> tracker \<Rightarrow> tracker" where
  "set_mode L w m t =
     (let t1 = t\<lparr>ht_mode := m\<rparr> in
      if ht_mode t = AgentOnly \<and> m = AllDirty then refresh_git_dirty_cache L w None t1
      else if ht_mode t = AllDirty \<and> m = AgentOnly then
        fold untrack_file (map fst (filter (\<lambda>(_, s). \<not> fh_is_agent s) (ht_files t1))) t1
      else t1)"

subsection \<open>Accepting and rejecting\<close>

datatype hunk_action = AcceptHunk | RejectHunk

datatype hunk_error = HunkNotFound string | WriteFailed string | DeleteFailed string

datatype disk_effect = WroteFile string string | RemovedFile string

text \<open>The state after an action, what it wrote, and its result.\<close>

type_synonym 'a acted = "tracker \<times> disk_effect list \<times> (hunk_error + 'a)"

definition max_usize :: nat where "max_usize = 2 ^ 64 - 1"

definition saturating_add :: "nat \<Rightarrow> nat \<Rightarrow> nat" where
  "saturating_add a b = min (a + b) max_usize"

definition update_session_stats :: "line_info \<Rightarrow> bool \<Rightarrow> session_stats \<Rightarrow> session_stats" where
  "update_session_stats i accepted st =
     (if accepted then
        st\<lparr>accepted_hunks := saturating_add (accepted_hunks st) 1,
           accepted_lines_added := saturating_add (accepted_lines_added st) (new_count i),
           accepted_lines_removed := saturating_add (accepted_lines_removed st) (old_count i)\<rparr>
      else
        st\<lparr>rejected_hunks := saturating_add (rejected_hunks st) 1,
           rejected_lines_added := saturating_add (rejected_lines_added st) (new_count i),
           rejected_lines_removed := saturating_add (rejected_lines_removed st) (old_count i)\<rparr>)"

definition count_action :: "hunk_action \<Rightarrow> hunk \<Rightarrow> tracker \<Rightarrow> tracker" where
  "count_action a h t =
     t\<lparr>ht_stats := update_session_stats (hk_line_info h) (a = AcceptHunk) (ht_stats t),
       ht_turns := turns_remove h (ht_turns t)\<rparr>"

definition without :: "hunk list \<Rightarrow> hunk list \<Rightarrow> hunk list" where
  "without hs olds = filter (\<lambda>h. hk_id h \<notin> hk_id ` set hs) olds"

definition gone_events :: "string \<Rightarrow> removal_reason \<Rightarrow> hunk list \<Rightarrow> tracker \<Rightarrow> tracker" where
  "gone_events path reason hs t = t\<lparr>ht_events := ht_events t @ map (\<lambda>h. HunkRemoved path (hk_id h) reason) hs\<rparr>"

definition remaining_source :: "tracker \<Rightarrow> string \<Rightarrow> hunk_source" where
  "remaining_source t path =
     (case file_of t path of
        Some s \<Rightarrow> (case fh_hunks s of h # _ \<Rightarrow> hk_source h | [] \<Rightarrow> ExternalEdit)
      | None \<Rightarrow> ExternalEdit)"

definition accept_patch :: "hunk \<Rightarrow> file_content \<Rightarrow> file_content" where
  "accept_patch h c =
     (case c of
        Full b \<Rightarrow> Full (patch_lines b (old_start (hk_line_info h)) (old_count (hk_line_info h)) (hk_new_text h))
      | _ \<Rightarrow> c)"

definition reject_patch :: "hunk \<Rightarrow> string \<Rightarrow> string" where
  "reject_patch h c =
     patch_lines c (new_start (hk_line_info h)) (new_count (hk_line_info h))
       (case hk_old_text h of Some x \<Rightarrow> x | None \<Rightarrow> [])"

definition accept_hunk :: "hunk_lib \<Rightarrow> hunk_world \<Rightarrow> string \<Rightarrow> hunk \<Rightarrow> tracker \<Rightarrow> tracker" where
  "accept_hunk L w path h t =
     (case file_of t path of
        None \<Rightarrow> t
      | Some s \<Rightarrow>
          let announce = (\<lambda>u. send_event (BaselineUpdated path) (gone_events path RemovedAccepted [h] u));
              rest = without [h] (fh_hunks s) in
          if fh_baseline s = Missing then
            announce (put_file path (s\<lparr>fh_baseline := fh_current s, fh_accepted := True, fh_hunks := rest\<rparr>) t)
          else
            let t1 = announce (put_file path
                  (s\<lparr>fh_baseline := accept_patch h (fh_baseline s), fh_accepted := True, fh_hunks := rest\<rparr>) t) in
            recompute_hunks L (hw_now w) path (Some (fh_current s)) (remaining_source t1 path) t1)"

datatype reject_step = RestoreDeleted string | DeleteCreated | RevertChange string | RejectNothing

definition reject_step_of :: "hunk \<Rightarrow> file_hunks \<Rightarrow> reject_step" where
  "reject_step_of h s =
     (case (fh_baseline s, fh_current s) of
        (Full b, Missing) \<Rightarrow> RestoreDeleted b
      | (Missing, Full c) \<Rightarrow> DeleteCreated
      | (_, Full c) \<Rightarrow> RevertChange (reject_patch h c)
      | _ \<Rightarrow> RejectNothing)"

definition reject_hunk :: "hunk_lib \<Rightarrow> hunk_world \<Rightarrow> string \<Rightarrow> hunk \<Rightarrow> tracker \<Rightarrow> unit acted" where
  "reject_hunk L w path h t =
     (case file_of t path of
        None \<Rightarrow> (t, [], Inr ())
      | Some s \<Rightarrow>
          let rest = without [h] (fh_hunks s);
              settle = (\<lambda>c. gone_events path RemovedRejected [h]
                (put_file path (s\<lparr>fh_current := c, fh_hunks := rest\<rparr>) t)) in
          (case reject_step_of h s of
             RestoreDeleted b \<Rightarrow>
               if hw_write_ok w path then (settle (Full b), [WroteFile path b], Inr ())
               else (t, [], Inl (WriteFailed path))
           | DeleteCreated \<Rightarrow>
               if hw_remove_ok w path then (settle Missing, [RemovedFile path], Inr ())
               else (t, [], Inl (DeleteFailed path))
           | RevertChange c \<Rightarrow>
               if hw_write_ok w path then
                 (let t1 = settle (Full c) in
                  (recompute_hunks L (hw_now w) path (Some (Full c)) (remaining_source t1 path) t1,
                   [WroteFile path c], Inr ()))
               else (t, [], Inl (WriteFailed path))
           | RejectNothing \<Rightarrow> (t, [], Inr ())))"

fun find_hunk :: "string \<Rightarrow> (string \<times> file_hunks) list \<Rightarrow> (string \<times> hunk) option" where
  "find_hunk hid [] = None"
| "find_hunk hid ((path, s) # fs) =
     (case find (\<lambda>h. hk_id h = hid) (fh_hunks s) of
        Some h \<Rightarrow> Some (path, h)
      | None \<Rightarrow> find_hunk hid fs)"

definition apply_hunk_action ::
    "hunk_lib \<Rightarrow> hunk_world \<Rightarrow> string \<Rightarrow> hunk_action \<Rightarrow> tracker \<Rightarrow> unit acted" where
  "apply_hunk_action L w hid a t =
     (case find_hunk hid (ht_files t) of
        None \<Rightarrow> (t, [], Inl (HunkNotFound hid))
      | Some (path, h) \<Rightarrow>
          let t1 = count_action a h t in
          (case a of
             AcceptHunk \<Rightarrow> (accept_hunk L w path h t1, [], Inr ())
           | RejectHunk \<Rightarrow> reject_hunk L w path h t1))"

text \<open>The hunks from the last line to the first; hunks at the same line keep their order.\<close>

definition from_the_end :: "(line_info \<Rightarrow> nat) \<Rightarrow> hunk list \<Rightarrow> hunk list" where
  "from_the_end line hs = sort_key (\<lambda>h. - int (line (hk_line_info h))) hs"

definition accept_hunks_batch :: "hunk_lib \<Rightarrow> hunk_world \<Rightarrow> string \<Rightarrow> hunk list \<Rightarrow> tracker \<Rightarrow> tracker" where
  "accept_hunks_batch L w path hs t =
     (if hs = [] then t
      else case file_of t path of
          None \<Rightarrow> t
        | Some s \<Rightarrow>
            let announce = (\<lambda>u. send_event (BaselineUpdated path) (gone_events path RemovedAccepted hs u));
                rest = without hs (fh_hunks s) in
            if fh_baseline s = Missing then
              announce (put_file path (s\<lparr>fh_baseline := fh_current s, fh_accepted := True, fh_hunks := rest\<rparr>) t)
            else
              let t1 = announce (put_file path
                    (s\<lparr>fh_baseline := fold accept_patch (from_the_end old_start hs) (fh_baseline s),
                       fh_accepted := True, fh_hunks := rest\<rparr>) t) in
              recompute_hunks L (hw_now w) path (Some (fh_current s)) (remaining_source t1 path) t1)"

definition reject_hunks_batch :: "hunk_lib \<Rightarrow> hunk_world \<Rightarrow> string \<Rightarrow> hunk list \<Rightarrow> tracker \<Rightarrow> unit acted" where
  "reject_hunks_batch L w path hs t =
     (if hs = [] then (t, [], Inr ())
      else case file_of t path of
          None \<Rightarrow> (t, [], Inr ())
        | Some s \<Rightarrow>
            let rest = without hs (fh_hunks s);
                settle = (\<lambda>c. gone_events path RemovedRejected hs
                  (put_file path (s\<lparr>fh_current := c, fh_hunks := rest\<rparr>) t)) in
            (case (fh_baseline s, fh_current s) of
               (Full b, Missing) \<Rightarrow>
                 if hw_write_ok w path then (settle (Full b), [WroteFile path b], Inr ())
                 else (t, [], Inl (WriteFailed path))
             | (Missing, Full c) \<Rightarrow>
                 if hw_remove_ok w path then (settle Missing, [RemovedFile path], Inr ())
                 else (t, [], Inl (DeleteFailed path))
             | (_, Full c) \<Rightarrow>
                 (let c1 = fold reject_patch (from_the_end new_start hs) c in
                  if hw_write_ok w path then
                    (let t1 = settle (Full c1) in
                     (recompute_hunks L (hw_now w) path (Some (Full c1)) (remaining_source t1 path) t1,
                      [WroteFile path c1], Inr ()))
                  else (t, [], Inl (WriteFailed path)))
             | _ \<Rightarrow> (t, [], Inr ())))"

fun apply_action_batch ::
    "hunk_lib \<Rightarrow> hunk_world \<Rightarrow> (string \<times> hunk list) list \<Rightarrow> hunk_action \<Rightarrow> tracker \<Rightarrow> string list acted" where
  "apply_action_batch L w [] a t = (t, [], Inr [])"
| "apply_action_batch L w ((path, hs) # fs) a t =
     (let t1 = fold (count_action a) hs t;
          (t2, es, r) = (case a of
              AcceptHunk \<Rightarrow> (accept_hunks_batch L w path hs t1, [], Inr ())
            | RejectHunk \<Rightarrow> reject_hunks_batch L w path hs t1) in
      (case r of
         Inl e \<Rightarrow> (t2, es, Inl e)
       | Inr _ \<Rightarrow>
           (let (t3, es', r') = apply_action_batch L w fs a t2 in
            (t3, es @ es', (case r' of Inl e \<Rightarrow> Inl e | Inr ids \<Rightarrow> Inr (map hk_id hs @ ids))))))"

definition apply_file_action ::
    "hunk_lib \<Rightarrow> hunk_world \<Rightarrow> string \<Rightarrow> hunk_action \<Rightarrow> tracker \<Rightarrow> string list acted" where
  "apply_file_action L w path a t =
     (case file_of t path of
        None \<Rightarrow> (t, [], Inr [])
      | Some s \<Rightarrow> if fh_hunks s = [] then (t, [], Inr []) else apply_action_batch L w [(path, fh_hunks s)] a t)"

definition apply_all_action :: "hunk_lib \<Rightarrow> hunk_world \<Rightarrow> hunk_action \<Rightarrow> tracker \<Rightarrow> string list acted" where
  "apply_all_action L w a t =
     apply_action_batch L w
       (map (\<lambda>(p, s). (p, fh_hunks s)) (filter (\<lambda>(p, s). fh_hunks s \<noteq> []) (ht_files t))) a t"

definition turn_hunks :: "nat \<Rightarrow> file_hunks \<Rightarrow> hunk list" where
  "turn_hunks p s = filter (\<lambda>h. prompt_of (hk_source h) = Some p) (fh_hunks s)"

definition apply_turn_action ::
    "hunk_lib \<Rightarrow> hunk_world \<Rightarrow> nat \<Rightarrow> hunk_action \<Rightarrow> tracker \<Rightarrow> string list acted" where
  "apply_turn_action L w p a t =
     apply_action_batch L w
       (filter (\<lambda>(_, hs). hs \<noteq> []) (map (\<lambda>(path, s). (path, turn_hunks p s)) (ht_files t))) a t"

subsection \<open>Queries\<close>

datatype hunk_source_filter = AgentHunks | ExternalHunks

datatype content_status = StMissing | StBinary | StTooLarge | StLfsPointer | StSymlink | StFull

record content_view =
  cv_status :: content_status
  cv_byte_len :: "nat option"
  cv_content :: "string option"

definition content_view_of :: "file_content \<Rightarrow> content_view" where
  "content_view_of c =
     (case c of
        Missing \<Rightarrow> \<lparr>cv_status = StMissing, cv_byte_len = None, cv_content = None\<rparr>
      | BinaryContent l \<Rightarrow> \<lparr>cv_status = StBinary, cv_byte_len = l, cv_content = None\<rparr>
      | TooLarge l \<Rightarrow> \<lparr>cv_status = StTooLarge, cv_byte_len = Some l, cv_content = None\<rparr>
      | LfsPointer l \<Rightarrow> \<lparr>cv_status = StLfsPointer, cv_byte_len = Some l, cv_content = None\<rparr>
      | Symlink \<Rightarrow> \<lparr>cv_status = StSymlink, cv_byte_len = None, cv_content = None\<rparr>
      | Full s \<Rightarrow> \<lparr>cv_status = StFull, cv_byte_len = Some (length s), cv_content = Some s\<rparr>)"

record file_hunk_data =
  fd_hunks :: "hunk list"
  fd_baseline :: content_view
  fd_current :: content_view
  fd_baseline_content :: "string option"
  fd_current_content :: "string option"

definition hunk_with_patch :: "file_hunks \<Rightarrow> hunk \<Rightarrow> hunk" where
  "hunk_with_patch s h =
     h\<lparr>hk_patch := (case (content_str (fh_baseline s), content_str (fh_current s)) of
          (Some b, Some c) \<Rightarrow> Some (generate_hunk_patch b c h)
        | (None, Some c) \<Rightarrow> Some (generate_hunk_patch [] c h)
        | (Some b, None) \<Rightarrow> Some (generate_hunk_patch b [] h)
        | (None, None) \<Rightarrow> None)\<rparr>"

definition get_file_hunk_data :: "tracker \<Rightarrow> string \<Rightarrow> file_hunk_data" where
  "get_file_hunk_data t path =
     (case file_of t path of
        None \<Rightarrow> \<lparr>fd_hunks = [], fd_baseline = content_view_of Missing, fd_current = content_view_of Missing,
                 fd_baseline_content = None, fd_current_content = None\<rparr>
      | Some s \<Rightarrow>
          \<lparr>fd_hunks = map (hunk_with_patch s) (fh_hunks s),
           fd_baseline = content_view_of (fh_baseline s), fd_current = content_view_of (fh_current s),
           fd_baseline_content = cv_content (content_view_of (fh_baseline s)),
           fd_current_content = cv_content (content_view_of (fh_current s))\<rparr>)"

definition get_all_hunks :: "tracker \<Rightarrow> hunk list" where
  "get_all_hunks t = concat (map (\<lambda>(_, s). fh_hunks s) (ht_files t))"

definition get_hunks_for_path :: "tracker \<Rightarrow> string \<Rightarrow> hunk list" where
  "get_hunks_for_path t path = (case file_of t path of None \<Rightarrow> [] | Some s \<Rightarrow> fh_hunks s)"

definition get_all_tracked_paths :: "tracker \<Rightarrow> string list" where
  "get_all_tracked_paths t = map fst (ht_files t)"

definition get_hunks_by_source :: "tracker \<Rightarrow> hunk_source_filter \<Rightarrow> hunk list" where
  "get_hunks_by_source t f =
     filter (\<lambda>h. case f of AgentHunks \<Rightarrow> is_agent_edit (hk_source h) | ExternalHunks \<Rightarrow> is_external (hk_source h))
       (get_all_hunks t)"

definition get_hunk :: "tracker \<Rightarrow> string \<Rightarrow> hunk option" where
  "get_hunk t hid = find (\<lambda>h. hk_id h = hid) (get_all_hunks t)"

text \<open>The order of a hash set is not fixed: the answer is taken as a set.\<close>

definition get_hunks_for_turn :: "tracker \<Rightarrow> nat \<Rightarrow> hunk set" where
  "get_hunks_for_turn t p =
     (case ht_turns t p of None \<Rightarrow> {} | Some ids \<Rightarrow> \<Union> ((\<lambda>i. set_option (get_hunk t i)) ` ids))"

record turn_summary =
  ts_prompt :: nat
  ts_files :: "string list"
  ts_pending :: "hunk list"
  ts_lines_added :: nat
  ts_lines_removed :: nat

record session_summary =
  ss_stats :: session_stats
  ss_turns :: "turn_summary list"
  ss_files_modified :: nat
  ss_files_with_pending :: nat
  ss_pending_hunks :: nat
  ss_pending_added :: nat
  ss_pending_removed :: nat
  ss_unattributed :: nat

definition turn_summary_of :: "tracker \<Rightarrow> nat \<Rightarrow> turn_summary" where
  "turn_summary_of t p =
     (let pending = concat (map (\<lambda>(_, s). turn_hunks p s) (ht_files t)) in
      \<lparr>ts_prompt = p, ts_files = map fst (filter (\<lambda>(_, s). turn_hunks p s \<noteq> []) (ht_files t)),
       ts_pending = pending,
       ts_lines_added = sum_list (map (\<lambda>h. new_count (hk_line_info h)) pending),
       ts_lines_removed = sum_list (map (\<lambda>h. old_count (hk_line_info h)) pending)\<rparr>)"

definition compute_session_summary :: "tracker \<Rightarrow> session_summary" where
  "compute_session_summary t =
     (let prompts = sort (remdups (List.map_filter (\<lambda>h. prompt_of (hk_source h)) (get_all_hunks t)));
          turns = map (turn_summary_of t) prompts;
          with_agent = length (filter (\<lambda>(_, s). list_ex (\<lambda>h. prompt_of (hk_source h) \<noteq> None) (fh_hunks s)) (ht_files t)) in
      \<lparr>ss_stats = ht_stats t, ss_turns = turns, ss_files_modified = with_agent, ss_files_with_pending = with_agent,
       ss_pending_hunks = sum_list (map (\<lambda>s. length (ts_pending s)) turns),
       ss_pending_added = sum_list (map ts_lines_added turns),
       ss_pending_removed = sum_list (map ts_lines_removed turns),
       ss_unattributed = length (filter (\<lambda>h. prompt_of (hk_source h) = None) (get_all_hunks t))\<rparr>)"

end
