(* ===== verification/Hunk_Session.thy ===== *)
theory Hunk_Session
  imports Hunk_Actions Hunk_Tracker
begin

text \<open>
  The hunk tracker as a session uses it: snapshots and their paths (\<open>xai-hunk-tracker/src/types.rs\<close>,
  \<open>actor/mod.rs\<close>), the change of working directory, the commands and the batching of file notifications
  (\<open>actor/mod.rs\<close>), and the store of turn deltas that a rewind restores from
  (\<open>xai-grok-workspace/src/session/checkpoint.rs\<close>).

  Attribution of lines of code (\<open>src/crates/codegen/xai-hunk-tracker/src/loc/mod.rs\<close>): the sink that turns the
  tracker's events into records, such that summing the records of a hunk gives what it contributes.  The writer is
  the list of records it was handed, of which it may lose some.
\<close>

section \<open>Hunk session\<close>

subsection \<open>Snapshots\<close>

text \<open>The snapshot of a file has the fields of its state.\<close>

record tracker_snapshot =
  sn_files :: "(string \<times> file_hunks) list"
  sn_turns :: turn_index
  sn_stats :: session_stats

record turn_delta =
  td_prompt :: nat
  td_files :: "(string \<times> file_hunks) list"
  td_hunk_ids :: "string set"

definition take_snapshot :: "tracker \<Rightarrow> tracker_snapshot" where
  "take_snapshot t = \<lparr>sn_files = ht_files t, sn_turns = ht_turns t, sn_stats = ht_stats t\<rparr>"

definition take_turn_delta :: "tracker \<Rightarrow> nat \<Rightarrow> turn_delta" where
  "take_turn_delta t p =
     (let ids = (case ht_turns t p of None \<Rightarrow> {} | Some s \<Rightarrow> s) in
      \<lparr>td_prompt = p, td_files = filter (\<lambda>(_, s). list_ex (\<lambda>h. hk_id h \<in> ids) (fh_hunks s)) (ht_files t),
       td_hunk_ids = ids\<rparr>)"

definition restore_snapshot :: "tracker_snapshot \<Rightarrow> tracker \<Rightarrow> tracker" where
  "restore_snapshot sn t = t\<lparr>ht_files := sn_files sn, ht_turns := sn_turns sn, ht_stats := sn_stats sn\<rparr>"

definition rewrite_single_path :: "string \<Rightarrow> string \<Rightarrow> string \<Rightarrow> string \<Rightarrow> string option" where
  "rewrite_single_path path old_cwd canonical_old new_cwd =
     map_option (path_join new_cwd)
       (case path_strip_prefix path canonical_old of Some r \<Rightarrow> Some r | None \<Rightarrow> path_strip_prefix path old_cwd)"

definition set_hunk_paths :: "string \<Rightarrow> file_hunks \<Rightarrow> file_hunks" where
  "set_hunk_paths path s = s\<lparr>fh_hunks := map (\<lambda>h. h\<lparr>hk_path := path\<rparr>) (fh_hunks s)\<rparr>"

text \<open>Collecting pairs into a map: a later pair replaces an earlier one of the same key.\<close>

definition collect_files :: "(string \<times> file_hunks) list \<Rightarrow> (string \<times> file_hunks) list" where
  "collect_files ps = fold (\<lambda>(p, s) m. AList.update p s m) ps []"

definition rewrite_paths :: "string \<Rightarrow> string \<Rightarrow> string \<Rightarrow> tracker_snapshot \<Rightarrow> tracker_snapshot" where
  "rewrite_paths old_cwd canonical_old new_cwd sn =
     sn\<lparr>sn_files := collect_files (map (\<lambda>(p, s).
       let target = (case rewrite_single_path p old_cwd canonical_old new_cwd of Some q \<Rightarrow> q | None \<Rightarrow> p) in
       (target, set_hunk_paths target s)) (sn_files sn))\<rparr>"

subsection \<open>Changing the working directory\<close>

definition rekey_path :: "string \<Rightarrow> string \<Rightarrow> string \<Rightarrow> string" where
  "rekey_path old new_cwd path =
     (if path_starts_with path new_cwd then path
      else case rewrite_single_path path old old new_cwd of Some q \<Rightarrow> q | None \<Rightarrow> path)"

definition merge_rekeyed :: "file_hunks \<Rightarrow> file_hunks \<Rightarrow> file_hunks" where
  "merge_rekeyed dest s =
     dest\<lparr>fh_hunks := fh_hunks dest @ fh_hunks s, fh_is_agent := fh_is_agent dest \<or> fh_is_agent s,
          fh_accepted := fh_accepted dest \<or> fh_accepted s\<rparr>"

definition insert_rekeyed :: "string \<times> file_hunks \<Rightarrow> (string \<times> file_hunks) list \<Rightarrow> (string \<times> file_hunks) list" where
  "insert_rekeyed ps m =
     (case map_of m (fst ps) of
        None \<Rightarrow> AList.update (fst ps) (snd ps) m
      | Some dest \<Rightarrow> AList.update (fst ps) (merge_rekeyed dest (snd ps)) m)"

definition rekey_paths_for_working_dir :: "string \<Rightarrow> tracker \<Rightarrow> tracker" where
  "rekey_paths_for_working_dir new_cwd t =
     (if new_cwd = ht_working_dir t then t
      else
        (let rewrite = rekey_path (ht_working_dir t) new_cwd;
             rekeyed = map (\<lambda>(p, s). (rewrite p, set_hunk_paths (rewrite p) s));
             already = filter (\<lambda>(p, _). path_starts_with p new_cwd) (ht_files t);
             moved = filter (\<lambda>(p, _). \<not> path_starts_with p new_cwd) (ht_files t) in
         t\<lparr>ht_files := fold insert_rekeyed (rekeyed moved) (collect_files (rekeyed already)),
           ht_dirty := map rewrite (ht_dirty t), ht_staged := map rewrite (ht_staged t)\<rparr>))"

definition set_working_dir :: "string \<Rightarrow> tracker \<Rightarrow> tracker" where
  "set_working_dir dir t =
     (rekey_paths_for_working_dir dir t)\<lparr>ht_working_dir := dir, ht_repo := RepoUnknown, ht_sync := no_sync\<rparr>"

subsection \<open>Commands\<close>

datatype hunk_command =
    RecordAgentWrite string string nat "string option"
  | HandleFileChange string
  | HandleFileDeleted string
  | RefreshGitDirtyCache
  | ResetBaseline string
  | SetMode tracking_mode
  | SetWorkingDir string
  | ActOnHunk string hunk_action
  | ActOnFile string hunk_action
  | ActOnAll hunk_action
  | ActOnTurn nat hunk_action
  | GetAllHunks
  | GetHunksForPath string
  | GetFileHunkData string
  | GetHunksBySource hunk_source_filter
  | GetHunk string
  | IsAgentFile string
  | GetAllTrackedPaths
  | GetStagedFiles
  | GetAllFileContents
  | GetSessionSummary
  | GetTurnHunks nat
  | ResetStats
  | RefreshAllBaselines
  | SnapshotState
  | SnapshotTurnDelta nat
  | RestoreState tracker_snapshot

record file_content_entry =
  fe_path :: string
  fe_baseline :: content_view
  fe_current :: content_view
  fe_is_agent :: bool
  fe_staged :: bool

datatype hunk_reply =
    NoReply
  | DirReply
  | ActionReply "hunk_error + unit"
  | IdsReply "hunk_error + string list"
  | HunksReply "hunk list"
  | HunkSetReply "hunk set"
  | HunkReply "hunk option"
  | DataReply file_hunk_data
  | FlagReply bool
  | PathsReply "string list"
  | EntriesReply "file_content_entry list"
  | SummaryReply session_summary
  | SnapshotReply tracker_snapshot
  | DeltaReply turn_delta

definition get_staged_files :: "tracker \<Rightarrow> string list" where
  "get_staged_files t = remdups (map (path_join (ht_working_dir t)) (ht_staged t))"

definition get_all_file_contents :: "tracker \<Rightarrow> file_content_entry list" where
  "get_all_file_contents t =
     map (\<lambda>(p, s). \<lparr>fe_path = p, fe_baseline = content_view_of (fh_baseline s), fe_current = content_view_of (fh_current s),
       fe_is_agent = fh_is_agent s, fe_staged = relative_path t p \<in> set (ht_staged t)\<rparr>) (ht_files t)"

definition acted_reply :: "(hunk_error + 'a \<Rightarrow> hunk_reply) \<Rightarrow> 'a acted \<Rightarrow> tracker \<times> disk_effect list \<times> hunk_reply" where
  "acted_reply f r = (case r of (t, es, x) \<Rightarrow> (t, es, f x))"

fun handle_command ::
    "hunk_lib \<Rightarrow> hunk_world \<Rightarrow> hunk_command \<Rightarrow> tracker \<Rightarrow> tracker \<times> disk_effect list \<times> hunk_reply" where
  "handle_command L w (RecordAgentWrite p c n prev) t = (record_agent_write L w p c n prev t, [], NoReply)"
| "handle_command L w (HandleFileChange p) t = (handle_file_change L w p t, [], NoReply)"
| "handle_command L w (HandleFileDeleted p) t = (handle_file_deleted L w p t, [], NoReply)"
| "handle_command L w RefreshGitDirtyCache t = (refresh_git_dirty_cache L w None t, [], NoReply)"
| "handle_command L w (ResetBaseline p) t = (reset_baseline p t, [], NoReply)"
| "handle_command L w (SetMode m) t = (set_mode L w m t, [], NoReply)"
| "handle_command L w (SetWorkingDir d) t = (set_working_dir d t, [], DirReply)"
| "handle_command L w (ActOnHunk i a) t = acted_reply ActionReply (apply_hunk_action L w i a t)"
| "handle_command L w (ActOnFile p a) t = acted_reply IdsReply (apply_file_action L w p a t)"
| "handle_command L w (ActOnAll a) t = acted_reply IdsReply (apply_all_action L w a t)"
| "handle_command L w (ActOnTurn n a) t = acted_reply IdsReply (apply_turn_action L w n a t)"
| "handle_command L w GetAllHunks t = (t, [], HunksReply (get_all_hunks t))"
| "handle_command L w (GetHunksForPath p) t = (t, [], HunksReply (get_hunks_for_path t p))"
| "handle_command L w (GetFileHunkData p) t = (t, [], DataReply (get_file_hunk_data t p))"
| "handle_command L w (GetHunksBySource f) t = (t, [], HunksReply (get_hunks_by_source t f))"
| "handle_command L w (GetHunk i) t = (t, [], HunkReply (get_hunk t i))"
| "handle_command L w (IsAgentFile p) t =
     (t, [], FlagReply (case file_of t p of None \<Rightarrow> False | Some s \<Rightarrow> fh_is_agent s))"
| "handle_command L w GetAllTrackedPaths t = (t, [], PathsReply (get_all_tracked_paths t))"
| "handle_command L w GetStagedFiles t = (t, [], PathsReply (get_staged_files t))"
| "handle_command L w GetAllFileContents t = (t, [], EntriesReply (get_all_file_contents t))"
| "handle_command L w GetSessionSummary t = (t, [], SummaryReply (compute_session_summary t))"
| "handle_command L w (GetTurnHunks n) t = (t, [], HunkSetReply (get_hunks_for_turn t n))"
| "handle_command L w ResetStats t = (t\<lparr>ht_stats := no_stats\<rparr>, [], NoReply)"
| "handle_command L w RefreshAllBaselines t = (refresh_all_baselines L w t, [], NoReply)"
| "handle_command L w SnapshotState t = (t, [], SnapshotReply (take_snapshot t))"
| "handle_command L w (SnapshotTurnDelta n) t = (t, [], DeltaReply (take_turn_delta t n))"
| "handle_command L w (RestoreState sn) t = (restore_snapshot sn t, [], NoReply)"

subsection \<open>Batches of notifications\<close>

datatype path_action = PathChanged | PathDeleted | PathDeletedThenChanged

record coalesced_batch =
  cb_file_actions :: "(string \<times> path_action) list"
  cb_refresh_all :: bool
  cb_refresh_dirty :: bool
  cb_other_commands :: "hunk_command list"
  cb_command_count :: nat

definition batch_new :: coalesced_batch where
  "batch_new = \<lparr>cb_file_actions = [], cb_refresh_all = False, cb_refresh_dirty = False, cb_other_commands = [],
     cb_command_count = 0\<rparr>"

definition note_change :: "string \<Rightarrow> (string \<times> path_action) list \<Rightarrow> (string \<times> path_action) list" where
  "note_change p m =
     AList.update p (case map_of m p of
         None \<Rightarrow> PathChanged
       | Some PathDeleted \<Rightarrow> PathDeletedThenChanged
       | Some a \<Rightarrow> a) m"

definition note_deletion :: "string \<Rightarrow> (string \<times> path_action) list \<Rightarrow> (string \<times> path_action) list" where
  "note_deletion p m = AList.update p PathDeleted m"

definition batch_add :: "hunk_command \<Rightarrow> coalesced_batch \<Rightarrow> coalesced_batch" where
  "batch_add c b =
     (let b1 = b\<lparr>cb_command_count := Suc (cb_command_count b)\<rparr> in
      case c of
        HandleFileChange p \<Rightarrow> b1\<lparr>cb_file_actions := note_change p (cb_file_actions b)\<rparr>
      | HandleFileDeleted p \<Rightarrow> b1\<lparr>cb_file_actions := note_deletion p (cb_file_actions b)\<rparr>
      | RefreshAllBaselines \<Rightarrow> b1\<lparr>cb_refresh_all := True\<rparr>
      | RefreshGitDirtyCache \<Rightarrow> b1\<lparr>cb_refresh_dirty := True\<rparr>
      | _ \<Rightarrow> b1\<lparr>cb_other_commands := cb_other_commands b @ [c]\<rparr>)"

definition is_coalescable :: "hunk_command \<Rightarrow> bool" where
  "is_coalescable c =
     (case c of
        HandleFileChange _ \<Rightarrow> True
      | HandleFileDeleted _ \<Rightarrow> True
      | RefreshAllBaselines \<Rightarrow> True
      | RefreshGitDirtyCache \<Rightarrow> True
      | _ \<Rightarrow> False)"

text \<open>The commands waiting in the channel are all drained into the batch.\<close>

definition drain_and_coalesce :: "hunk_command \<Rightarrow> hunk_command list \<Rightarrow> coalesced_batch" where
  "drain_and_coalesce c queued = fold batch_add (c # queued) batch_new"

text \<open>A batch with a refresh of all baselines: new files are taken in, and left out of the refresh.\<close>

fun batch_files_refreshing ::
    "hunk_lib \<Rightarrow> hunk_world \<Rightarrow> (string \<times> path_action) list \<Rightarrow> tracker \<Rightarrow> tracker \<times> string list" where
  "batch_files_refreshing L w [] t = (t, [])"
| "batch_files_refreshing L w ((p, PathDeleted) # as) t =
     batch_files_refreshing L w as (if tracked t p then handle_file_deleted L w p t else t)"
| "batch_files_refreshing L w ((p, a) # as) t =
     (if tracked t p then batch_files_refreshing L w as t
      else (let (t1, ps) = batch_files_refreshing L w as (handle_file_change L w p t) in (t1, p # ps)))"

definition batch_files :: "hunk_lib \<Rightarrow> hunk_world \<Rightarrow> (string \<times> path_action) list \<Rightarrow> tracker \<Rightarrow> tracker" where
  "batch_files L w as t =
     handle_file_changes_batch L w (map fst (filter (\<lambda>(_, a). a \<noteq> PathDeleted) as))
       (fold (\<lambda>(p, _) u. handle_file_deleted L w p u) (filter (\<lambda>(_, a). a = PathDeleted) as) t)"

fun handle_all ::
    "hunk_lib \<Rightarrow> hunk_world \<Rightarrow> hunk_command list \<Rightarrow> tracker \<Rightarrow> tracker \<times> disk_effect list \<times> hunk_reply list" where
  "handle_all L w [] t = (t, [], [])"
| "handle_all L w (c # cs) t =
     (let (t1, es, r) = handle_command L w c t; (t2, es', rs) = handle_all L w cs t1 in (t2, es @ es', r # rs))"

definition handle_coalesced_batch ::
    "hunk_lib \<Rightarrow> hunk_world \<Rightarrow> coalesced_batch \<Rightarrow> tracker \<Rightarrow> tracker \<times> disk_effect list \<times> hunk_reply list" where
  "handle_coalesced_batch L w b t =
     (let t1 = (if cb_refresh_dirty b \<and> \<not> cb_refresh_all b then refresh_git_dirty_cache L w None t else t);
          t2 = (if cb_refresh_all b
            then (let (u, seen) = batch_files_refreshing L w (cb_file_actions b) t1 in
                  refresh_all_baselines_except L w seen u)
            else batch_files L w (cb_file_actions b) t1) in
      handle_all L w (cb_other_commands b) t2)"

text \<open>One turn of the actor's loop: the command received, and those that wait behind it.\<close>

definition actor_step ::
    "hunk_lib \<Rightarrow> hunk_world \<Rightarrow> hunk_command \<Rightarrow> hunk_command list \<Rightarrow> tracker
     \<Rightarrow> (tracker \<times> disk_effect list \<times> hunk_reply list) \<times> hunk_command list" where
  "actor_step L w c queued t =
     (if is_coalescable c then (handle_coalesced_batch L w (drain_and_coalesce c queued) t, [])
      else (handle_all L w [c] t, queued))"

definition actor_start :: "hunk_lib \<Rightarrow> hunk_world \<Rightarrow> string \<Rightarrow> tracking_mode \<Rightarrow> tracker" where
  "actor_start L w dir m =
     (let t = tracker_new dir m in if m = AllDirty then refresh_git_dirty_cache L w None t else t)"

subsection \<open>Checkpoints of turns\<close>

type_synonym hunk_store = "(nat \<times> turn_delta) list"

definition capture_hunk_delta :: "tracker \<Rightarrow> nat \<Rightarrow> hunk_store \<Rightarrow> hunk_store \<times> bool" where
  "capture_hunk_delta t p store =
     (let d = take_turn_delta t p in
      if td_files d = [] then (store, False) else (AList.update p d store, True))"

definition compose_files :: "(nat \<times> turn_delta) list \<Rightarrow> (string \<times> file_hunks) list" where
  "compose_files ds = collect_files (concat (map (\<lambda>(_, d). td_files d) ds))"

definition present_ids :: "(string \<times> file_hunks) list \<Rightarrow> string set" where
  "present_ids fs = hk_id ` set (concat (map (\<lambda>(_, s). fh_hunks s) fs))"

definition compose_turns :: "(nat \<times> turn_delta) list \<Rightarrow> string set \<Rightarrow> turn_index" where
  "compose_turns ds present =
     (\<lambda>p. case map_of ds p of
            None \<Rightarrow> None
          | Some d \<Rightarrow> if td_hunk_ids d \<inter> present = {} then None else Some (td_hunk_ids d \<inter> present))"

definition restore_hunk_checkpoints :: "nat \<Rightarrow> hunk_store \<Rightarrow> tracker \<Rightarrow> hunk_store \<times> tracker" where
  "restore_hunk_checkpoints target store t =
     (let prompts = sort (filter (\<lambda>i. i < target) (map fst store)) in
      if store = [] \<or> (prompts = [] \<and> target > 0) then (store, t)
      else
        (let ds = List.map_filter (\<lambda>i. map_option (Pair i) (map_of store i)) prompts; fs = compose_files ds in
         (filter (\<lambda>(i, _). i < target) store,
          restore_snapshot \<lparr>sn_files = fs, sn_turns = compose_turns ds (present_ids fs), sn_stats = ht_stats t\<rparr> t)))"

section \<open>Hunk loc\<close>

datatype author_type = AgentAuthor | HumanAuthor

datatype source_type = SrcAgentEdit | SrcExternalOnAgentFile | SrcExternal

datatype record_kind = RecAdded | RecUpdated | RecRemoved

record hunk_record =
  hr_hunk_id :: string
  hr_file_path :: string
  hr_hunk_start :: nat
  hr_hunk_end :: nat
  hr_lines_added :: int
  hr_lines_removed :: int
  hr_author_type :: "author_type option"
  hr_author_id :: "string option"
  hr_agent_id :: string
  hr_session_id :: string
  hr_timestamp :: nat
  hr_prompt_index :: "nat option"
  hr_source_type :: "source_type option"
  hr_event_type :: record_kind
  hr_removal_reason :: "removal_reason option"

record loc_context =
  lc_session_id :: string
  lc_agent_id :: string
  lc_user_id :: "string option"
  lc_aggregates :: bool

datatype loc_aggregate =
    LinesChanged author_type int int string
  | LinesReverted int int

definition attribution ::
    "loc_context \<Rightarrow> hunk_source \<Rightarrow> author_type \<times> string option \<times> nat option \<times> source_type" where
  "attribution ctx s =
     (case s of
        AgentEdit p \<Rightarrow> (AgentAuthor, Some (lc_agent_id ctx), Some p, SrcAgentEdit)
      | ExternalEditOnAgentFile \<Rightarrow> (HumanAuthor, lc_user_id ctx, None, SrcExternalOnAgentFile)
      | ExternalEdit \<Rightarrow> (HumanAuthor, lc_user_id ctx, None, SrcExternal))"

definition hunk_span :: "line_info \<Rightarrow> nat \<times> nat" where
  "hunk_span i =
     (let (start, n) = (if new_count i = 0 then (old_start i, old_count i) else (new_start i, new_count i)) in
      (start, if n = 0 then start else start + n - 1))"

definition from_hunk :: "loc_context \<Rightarrow> hunk \<Rightarrow> record_kind \<Rightarrow> hunk_source \<Rightarrow> hunk_record" where
  "from_hunk ctx h kind source =
     (let (author, author_id, prompt, st) = attribution ctx source; (a, b) = hunk_span (hk_line_info h) in
      \<lparr>hr_hunk_id = hk_id h, hr_file_path = hk_path h, hr_hunk_start = a, hr_hunk_end = b,
       hr_lines_added = int (new_count (hk_line_info h)), hr_lines_removed = int (old_count (hk_line_info h)),
       hr_author_type = Some author, hr_author_id = author_id, hr_agent_id = lc_agent_id ctx,
       hr_session_id = lc_session_id ctx, hr_timestamp = hk_created_at h, hr_prompt_index = prompt,
       hr_source_type = Some st, hr_event_type = kind, hr_removal_reason = None\<rparr>)"

record loc_sink =
  lk_acc :: "string \<rightharpoonup> int \<times> int"
  lk_records :: "hunk_record list"
  lk_aggregates :: "loc_aggregate list"

definition sink_new :: loc_sink where
  "sink_new = \<lparr>lk_acc = Map.empty, lk_records = [], lk_aggregates = []\<rparr>"

definition accumulate :: "string \<Rightarrow> int \<Rightarrow> int \<Rightarrow> (string \<rightharpoonup> int \<times> int) \<Rightarrow> (string \<rightharpoonup> int \<times> int)" where
  "accumulate hid a r acc = (case acc hid of None \<Rightarrow> acc(hid \<mapsto> (a, r)) | Some (x, y) \<Rightarrow> acc(hid \<mapsto> (x + a, y + r)))"

definition write_record :: "hunk_record \<Rightarrow> loc_sink \<Rightarrow> loc_sink" where
  "write_record r k = k\<lparr>lk_records := lk_records k @ [r]\<rparr>"

definition aggregate :: "loc_context \<Rightarrow> loc_aggregate \<Rightarrow> loc_sink \<Rightarrow> loc_sink" where
  "aggregate ctx a k = (if lc_aggregates ctx then k\<lparr>lk_aggregates := lk_aggregates k @ [a]\<rparr> else k)"

definition changed_aggregate :: "author_type \<Rightarrow> hunk_record \<Rightarrow> loc_aggregate" where
  "changed_aggregate fallback r =
     LinesChanged (case hr_author_type r of Some a \<Rightarrow> a | None \<Rightarrow> fallback)
       (hr_lines_added r) (hr_lines_removed r) (hr_file_path r)"

definition record_lines :: "loc_context \<Rightarrow> author_type \<Rightarrow> hunk_record \<Rightarrow> loc_sink \<Rightarrow> loc_sink" where
  "record_lines ctx fallback r k =
     write_record r (aggregate ctx (changed_aggregate fallback r)
       (k\<lparr>lk_acc := accumulate (hr_hunk_id r) (hr_lines_added r) (hr_lines_removed r) (lk_acc k)\<rparr>))"

definition removal_record :: "loc_context \<Rightarrow> nat \<Rightarrow> string \<Rightarrow> string \<Rightarrow> removal_reason \<Rightarrow> int \<Rightarrow> int \<Rightarrow> hunk_record" where
  "removal_record ctx now path hid reason a r =
     \<lparr>hr_hunk_id = hid, hr_file_path = path, hr_hunk_start = 0, hr_hunk_end = 0,
      hr_lines_added = - a, hr_lines_removed = - r, hr_author_type = None, hr_author_id = None,
      hr_agent_id = lc_agent_id ctx, hr_session_id = lc_session_id ctx, hr_timestamp = now, hr_prompt_index = None,
      hr_source_type = None, hr_event_type = RecRemoved, hr_removal_reason = Some reason\<rparr>"

fun sink_event :: "loc_context \<Rightarrow> nat \<Rightarrow> hunk_event \<Rightarrow> loc_sink \<Rightarrow> loc_sink" where
  "sink_event ctx now (HunkAdded p h) k =
     record_lines ctx AgentAuthor (from_hunk ctx h RecAdded (hk_source h)) k"
| "sink_event ctx now (HunkContentChanged p h trigger prev_added prev_removed) k =
     record_lines ctx HumanAuthor
       ((from_hunk ctx h RecUpdated trigger)
          \<lparr>hr_lines_added := int (new_count (hk_line_info h)) - int prev_added,
           hr_lines_removed := int (old_count (hk_line_info h)) - int prev_removed\<rparr>) k"
| "sink_event ctx now (HunkRemoved p hid reason) k =
     (let k1 = k\<lparr>lk_acc := (lk_acc k)(hid := None)\<rparr> in
      if reason = RemovedAccepted then k1
      else case lk_acc k hid of
          None \<Rightarrow> k1
        | Some (a, r) \<Rightarrow>
            if a = 0 \<and> r = 0 then k1
            else write_record (removal_record ctx now p hid reason a r)
                   (aggregate ctx (LinesReverted (max a 0) (max r 0)) k1))"
| "sink_event ctx now (HunkMoved p hid i) k = k"
| "sink_event ctx now (FileAdded p b) k = k"
| "sink_event ctx now (FileRemoved p) k = k"
| "sink_event ctx now (BaselineUpdated p) k = k"

text \<open>The events drained after a cancellation are handled as the others are.\<close>

definition run_loc_sink :: "loc_context \<Rightarrow> (nat \<times> hunk_event) list \<Rightarrow> loc_sink" where
  "run_loc_sink ctx es = fold (\<lambda>(now, e). sink_event ctx now e) es sink_new"

end
