(* ===== verification/Hunk_Review.thy ===== *)
theory Hunk_Review
  imports Hunks Hunk_Session
begin

text \<open>
  What replacing line ranges does to texts made of whole lines, and how the hunks of a diff lie in the two texts:
  patching a file with its hunks, from the last one up, turns one text into the other.

  Reviewing: with a line diff that describes its two texts, rejecting all hunks of a file writes its baseline back
  and accepting them all makes the current text the baseline.
\<close>

section \<open>Hunk patching\<close>

subsection \<open>The contract of a patcher\<close>

text \<open>
  Replacing the lines \<open>b\<close> between \<open>a\<close> and \<open>c\<close> by \<open>d\<close>, in a text that is not empty.  A result of one blank line is
  left out of the contract: it would lose that line.
\<close>

locale line_patcher =
  fixes patch :: "string \<Rightarrow> nat \<Rightarrow> nat \<Rightarrow> string \<Rightarrow> string"
  assumes patch_middle:
    "list_all plain_line (a @ b @ c) \<Longrightarrow> list_all plain_line d \<Longrightarrow> a @ b @ c \<noteq> [] \<Longrightarrow> a @ d @ c \<noteq> [[]] \<Longrightarrow>
       patch (whole_lines (a @ b @ c)) (Suc (length a)) (length b) (whole_lines d) = whole_lines (a @ d @ c)"

interpretation lp: line_patcher patch_lines
proof
  fix a b c d :: "string list"
  assume p: "list_all plain_line (a @ b @ c)" "list_all plain_line d" "a @ b @ c \<noteq> []" "a @ d @ c \<noteq> [[]]"
  have e: "ends_with (whole_lines (a @ b @ c)) [CHR 0x0A]" using p(3) by (rule whole_lines_ends)
  have l: "text_lines (whole_lines (a @ b @ c)) = a @ b @ c" "text_lines (whole_lines d) = d"
    using p(1,2) by (simp_all del: whole_lines_simps)
  have t: "Suc (length a) - 1 = length a" "take (length a) (a @ b @ c) = a"
      "drop (min (length a + length b) (length (a @ b @ c))) (a @ b @ c) = c"
    by simp_all
  have out: "patch_lines (whole_lines (a @ b @ c)) (Suc (length a)) (length b) (whole_lines d)
      = (let output = join [CHR 0x0A] (a @ d @ c) in if True \<and> output \<noteq> [] then output @ [CHR 0x0A] else output)"
    unfolding patch_lines_def Let_def l t eqTrueI[OF e] by (rule refl)
  show "patch_lines (whole_lines (a @ b @ c)) (Suc (length a)) (length b) (whole_lines d) = whole_lines (a @ d @ c)"
  proof (cases "a @ d @ c = []")
    case True
    then show ?thesis unfolding out by simp
  next
    case False
    then have "join [CHR 0x0A] (a @ d @ c) \<noteq> []" using join_plain_Nil[OF False] p(4) by argo
    then show ?thesis unfolding out Let_def using join_whole_lines[OF False] by (simp del: whole_lines_simps)
  qed
qed

subsection \<open>Hunks lie along the two texts\<close>

text \<open>
  The builders of a diff against the old lines, the new lines and the lines they share: each after shared lines, of
  which there is at least one between two hunks.  \<open>i\<close> and \<open>j\<close> are the numbers of the first lines.
\<close>

inductive aligned :: "bool \<Rightarrow> nat \<Rightarrow> nat \<Rightarrow> hunk_builder list \<Rightarrow> string list \<Rightarrow> string list \<Rightarrow> string list \<Rightarrow> bool"
where
  aligned_end: "aligned lead i j [] ks ks ks"
| aligned_hunk:
    "\<lbrakk> lead \<or> ks \<noteq> []; hb_old_start b = i + length ks; hb_new_start b = j + length ks;
       hb_old_lines b = map (\<lambda>l. l @ [CHR 0x0A]) ds; hb_new_lines b = map (\<lambda>l. l @ [CHR 0x0A]) es;
       aligned False (i + length ks + length ds) (j + length ks + length es) bs olds news eqs \<rbrakk>
     \<Longrightarrow> aligned lead i j (b # bs) (ks @ ds @ olds) (ks @ es @ news) (ks @ eqs)"

definition with_feed :: "string \<Rightarrow> string" where
  "with_feed l = l @ [CHR 0x0A]"

definition line_change :: "change_tag \<times> string \<Rightarrow> change" where
  "line_change x = (fst x, with_feed (snd x))"

definition old_side :: "(change_tag \<times> string) list \<Rightarrow> string list" where
  "old_side cs = map snd (filter (\<lambda>x. fst x \<noteq> InsertLine) cs)"

definition new_side :: "(change_tag \<times> string) list \<Rightarrow> string list" where
  "new_side cs = map snd (filter (\<lambda>x. fst x \<noteq> DeleteLine) cs)"

lemma side_simps [simp]:
  "old_side [] = []" "new_side [] = []"
  "old_side ((EqualLine, l) # cs) = l # old_side cs" "new_side ((EqualLine, l) # cs) = l # new_side cs"
  "old_side ((DeleteLine, l) # cs) = l # old_side cs" "new_side ((DeleteLine, l) # cs) = new_side cs"
  "old_side ((InsertLine, l) # cs) = old_side cs" "new_side ((InsertLine, l) # cs) = l # new_side cs"
  "old_side (cs @ cs') = old_side cs @ old_side cs'" "new_side (cs @ cs') = new_side cs @ new_side cs'"
  by (simp_all add: old_side_def new_side_def)

definition shared_side :: "(change_tag \<times> string) list \<Rightarrow> string list" where
  "shared_side cs = map snd (filter (\<lambda>x. fst x = EqualLine) cs)"

lemma shared_side_simps [simp]:
  "shared_side [] = []"
  "shared_side ((EqualLine, l) # cs) = l # shared_side cs"
  "shared_side ((DeleteLine, l) # cs) = shared_side cs"
  "shared_side ((InsertLine, l) # cs) = shared_side cs"
  by (simp_all add: shared_side_def)

text \<open>A hunk in progress: it began at lines \<open>i\<close> and \<open>j\<close>, and has taken \<open>ds\<close> and \<open>es\<close>.\<close>

definition in_progress :: "nat \<Rightarrow> nat \<Rightarrow> string list \<Rightarrow> string list \<Rightarrow> hunk_builder" where
  "in_progress i j ds es =
     \<lparr>hb_old_start = i, hb_new_start = j, hb_old_lines = map with_feed ds, hb_new_lines = map with_feed es\<rparr>"

lemma progress_add:
  "add_old_line (with_feed l) (in_progress i j ds es) = in_progress i j (ds @ [l]) es"
  "add_new_line (with_feed l) (in_progress i j ds es) = in_progress i j ds (es @ [l])"
  "builder_new i j = in_progress i j [] []"
  by (simp_all add: add_old_line_def add_new_line_def in_progress_def builder_new_def)

lemma aligned_shift:
  assumes "aligned lead (Suc i) (Suc j) bs olds news eqs"
  shows "aligned lead' i j bs (l # olds) (l # news) (l # eqs)"
  using assms
proof cases
  case (aligned_end)
  then show ?thesis by (auto intro: aligned.aligned_end)
next
  case (aligned_hunk ks b ds es bs' olds' news' eqs')
  have "aligned lead' i j (b # bs') ((l # ks) @ ds @ olds') ((l # ks) @ es @ news') ((l # ks) @ eqs')"
    by (rule aligned.aligned_hunk) (use aligned_hunk in simp_all)
  then show ?thesis using aligned_hunk by simp
qed

lemma aligned_first:
  assumes "aligned False (i + length ds) (j + length es) bs olds news eqs"
  shows "aligned True i j (in_progress i j ds es # bs) (ds @ olds) (es @ news) eqs"
proof -
  have "aligned True i j (in_progress i j ds es # bs) ([] @ ds @ olds) ([] @ es @ news) ([] @ eqs)"
    by (rule aligned.aligned_hunk) (use assms in \<open>simp_all add: in_progress_def with_feed_def\<close>)
  then show ?thesis by simp
qed

lemma group_simps:
  "group_changes (map line_change []) i j b = finish_builder b"
  "group_changes (map line_change ((EqualLine, l) # cs)) i j b =
     finish_builder b @ group_changes (map line_change cs) (Suc i) (Suc j) None"
  "group_changes (map line_change ((DeleteLine, l) # cs)) i j b =
     group_changes (map line_change cs) (Suc i) j (Some (add_old_line (with_feed l) (get_or_insert b i j)))"
  "group_changes (map line_change ((InsertLine, l) # cs)) i j b =
     group_changes (map line_change cs) i (Suc j) (Some (add_new_line (with_feed l) (get_or_insert b i j)))"
  "finish_builder None = []" "finish_builder (Some x) = [x]"
  "get_or_insert None i j = in_progress i j [] []" "get_or_insert (Some x) i j = x"
  by (simp_all add: line_change_def finish_builder_def get_or_insert_def progress_add)

lemma aligned_groups:
  "aligned True i j (group_changes (map line_change cs) i j None) (old_side cs) (new_side cs) (shared_side cs)"
  "aligned True p q (group_changes (map line_change cs) (p + length ds) (q + length es) (Some (in_progress p q ds es)))
     (ds @ old_side cs) (es @ new_side cs) (shared_side cs)"
proof (induction cs arbitrary: i j p q ds es)
  case Nil
  { case 1
    show ?case by (simp only: group_simps) (simp add: aligned.aligned_end) }
  { case 2
    show ?case using aligned_first[of i ds j es "[]" "[]" "[]" "[]"] aligned.aligned_end[of False "i + length ds" "j + length es" "[]"]
      by (simp only: group_simps) simp }
next
  case (Cons x cs)
  obtain t l where x: "x = (t, l)" by fastforce
  { case 1
    show ?case
    proof (cases t)
      case EqualLine
      then show ?thesis using x aligned_shift[OF Cons.IH(1)[of "Suc i" "Suc j"]]
        by (simp only: group_simps side_simps shared_side_simps append_Nil)
    next
      case DeleteLine
      then show ?thesis using x Cons.IH(2)[of i j "[l]" "[]"] by (simp only: group_simps progress_add) simp
    next
      case InsertLine
      then show ?thesis using x Cons.IH(2)[of i j "[]" "[l]"] by (simp only: group_simps progress_add) simp
    qed }
  { case 2
    show ?case
    proof (cases t)
      case EqualLine
      have "aligned False (i + length ds) (j + length es)
          (group_changes (map line_change cs) (Suc (i + length ds)) (Suc (j + length es)) None)
          (l # old_side cs) (l # new_side cs) (l # shared_side cs)"
        by (rule aligned_shift[OF Cons.IH(1)])
      from aligned_first[OF this] show ?thesis using EqualLine x
        by (simp only: group_simps side_simps shared_side_simps append_Cons append_Nil)
    next
      case DeleteLine
      then show ?thesis using x Cons.IH(2)[of i j "ds @ [l]" es] by (simp only: group_simps progress_add) simp
    next
      case InsertLine
      then show ?thesis using x Cons.IH(2)[of i j ds "es @ [l]"] by (simp only: group_simps progress_add) simp
    qed }
qed

subsection \<open>Applying all hunks, from the last one up\<close>

definition reject_builder :: "(string \<Rightarrow> nat \<Rightarrow> nat \<Rightarrow> string \<Rightarrow> string) \<Rightarrow> hunk_builder \<Rightarrow> string \<Rightarrow> string" where
  "reject_builder patch b c = patch c (hb_new_start b) (length (hb_new_lines b)) (concat (hb_old_lines b))"

definition accept_builder :: "(string \<Rightarrow> nat \<Rightarrow> nat \<Rightarrow> string \<Rightarrow> string) \<Rightarrow> hunk_builder \<Rightarrow> string \<Rightarrow> string" where
  "accept_builder patch b c = patch c (hb_old_start b) (length (hb_old_lines b)) (concat (hb_new_lines b))"

lemma concat_feeds: "concat (map (\<lambda>l. l @ [CHR 0x0A]) ls) = whole_lines ls"
  by (simp add: whole_lines_def)

lemma aligned_shared:
  "aligned lead i j bs olds news eqs \<Longrightarrow> set eqs \<subseteq> set olds \<inter> set news"
  by (induction rule: aligned.induct) auto

lemma has_text: "l \<in> set ls \<Longrightarrow> l \<noteq> [] \<Longrightarrow> ls \<noteq> [] \<and> ls \<noteq> [[]]"
  by auto

text \<open>A line that is not blank, before the hunks or shared, keeps every text on the way from degenerating.\<close>

context line_patcher
begin

lemma reject_aligned:
  assumes "aligned lead i j bs olds news eqs" "j = Suc (length before)"
    and "list_all plain_line (before @ olds)" "list_all plain_line (before @ news)"
    and "l \<in> set (before @ eqs)" "l \<noteq> []"
  shows "fold (reject_builder patch) (rev bs) (whole_lines (before @ news)) = whole_lines (before @ olds)"
  using assms
proof (induction arbitrary: before rule: aligned.induct)
  case (aligned_hunk lead ks b i j ds es bs olds news eqs)
  let ?before = "before @ ks @ es"
  have shared: "set eqs \<subseteq> set olds" using aligned_shared[OF aligned_hunk.hyps(6)] by simp
  have "fold (reject_builder patch) (rev bs) (whole_lines (?before @ news)) = whole_lines (?before @ olds)"
    by (rule aligned_hunk.IH) (use aligned_hunk.prems in auto)
  moreover have "reject_builder patch b (whole_lines ((before @ ks) @ es @ olds)) = whole_lines ((before @ ks) @ ds @ olds)"
  proof -
    have n: "hb_new_start b = Suc (length (before @ ks))" using aligned_hunk by simp
    have "l \<in> set ((before @ ks) @ es @ olds)" "l \<in> set ((before @ ks) @ ds @ olds)"
      using aligned_hunk.prems(4) shared by auto
    then have "(before @ ks) @ es @ olds \<noteq> []" "(before @ ks) @ ds @ olds \<noteq> [[]]"
      using has_text aligned_hunk.prems(5) by blast+
    then show ?thesis
      unfolding reject_builder_def n aligned_hunk.hyps(4,5) concat_feeds length_map
      using aligned_hunk.prems by (intro patch_middle) auto
  qed
  ultimately show ?case by simp
qed simp

lemma accept_aligned:
  assumes "aligned lead i j bs olds news eqs" "i = Suc (length before)"
    and "list_all plain_line (before @ olds)" "list_all plain_line (before @ news)"
    and "l \<in> set (before @ eqs)" "l \<noteq> []"
  shows "fold (accept_builder patch) (rev bs) (whole_lines (before @ olds)) = whole_lines (before @ news)"
  using assms
proof (induction arbitrary: before rule: aligned.induct)
  case (aligned_hunk lead ks b i j ds es bs olds news eqs)
  let ?before = "before @ ks @ ds"
  have shared: "set eqs \<subseteq> set news" using aligned_shared[OF aligned_hunk.hyps(6)] by simp
  have "fold (accept_builder patch) (rev bs) (whole_lines (?before @ olds)) = whole_lines (?before @ news)"
    by (rule aligned_hunk.IH) (use aligned_hunk.prems in auto)
  moreover have "accept_builder patch b (whole_lines ((before @ ks) @ ds @ news)) = whole_lines ((before @ ks) @ es @ news)"
  proof -
    have n: "hb_old_start b = Suc (length (before @ ks))" using aligned_hunk by simp
    have "l \<in> set ((before @ ks) @ ds @ news)" "l \<in> set ((before @ ks) @ es @ news)"
      using aligned_hunk.prems(4) shared by auto
    then have "(before @ ks) @ ds @ news \<noteq> []" "(before @ ks) @ es @ news \<noteq> [[]]"
      using has_text aligned_hunk.prems(5) by blast+
    then show ?thesis
      unfolding accept_builder_def n aligned_hunk.hyps(4,5) concat_feeds length_map
      using aligned_hunk.prems by (intro patch_middle) auto
  qed
  ultimately show ?case by simp
qed simp

end

text \<open>With no shared line there is one hunk at most, which replaces the whole text.\<close>

lemma unshared_group:
  assumes "shared_side cs = []"
  shows "group_changes (map line_change cs) (i + length ds) (j + length es) (Some (in_progress i j ds es)) =
           [in_progress i j (ds @ old_side cs) (es @ new_side cs)]"
  using assms
proof (induction cs arbitrary: ds es)
  case Nil
  then show ?case by (simp only: group_simps) simp
next
  case (Cons x cs)
  obtain t l where x: "x = (t, l)" by fastforce
  show ?case
  proof (cases t)
    case EqualLine
    then show ?thesis using Cons.prems x by simp
  next
    case DeleteLine
    then show ?thesis using x Cons.prems Cons.IH[of "ds @ [l]" es] by (simp only: group_simps progress_add) simp
  next
    case InsertLine
    then show ?thesis using x Cons.prems Cons.IH[of ds "es @ [l]"] by (simp only: group_simps progress_add) simp
  qed
qed

lemma unshared_groups:
  assumes "shared_side cs = []" "cs \<noteq> []"
  shows "group_changes (map line_change cs) i j None = [in_progress i j (old_side cs) (new_side cs)]"
proof -
  obtain t l cs' where x: "cs = (t, l) # cs'" using assms(2) by (cases cs) auto
  show ?thesis
  proof (cases t)
    case EqualLine
    then show ?thesis using assms x by simp
  next
    case DeleteLine
    then show ?thesis using x assms unshared_group[of cs' i "[l]" j "[]"] by (simp only: group_simps progress_add) simp
  next
    case InsertLine
    then show ?thesis using x assms unshared_group[of cs' i "[]" j "[l]"] by (simp only: group_simps progress_add) simp
  qed
qed

section \<open>Hunk review\<close>

subsection \<open>What is asked of the diff\<close>

text \<open>Texts without carriage returns whose last line is ended.\<close>

definition regular_text :: "string \<Rightarrow> bool" where
  "regular_text s \<longleftrightarrow> CHR 0x0D \<notin> set s \<and> (s = [] \<or> ends_with s [CHR 0x0A])"

text \<open>
  The changes are whole lines; those that are equal or deleted make up the old text, those that are equal or
  inserted the new one.
\<close>

definition whole_line :: "string \<Rightarrow> bool" where
  "whole_line v \<longleftrightarrow> v \<noteq> [] \<and> last v = CHR 0x0A \<and> plain_line (butlast v)"

definition differ_law :: "line_differ \<Rightarrow> bool" where
  "differ_law d \<longleftrightarrow>
     (\<forall>b c cs. regular_text b \<and> regular_text c \<and> d b c = Some cs \<longrightarrow>
        list_all (\<lambda>x. whole_line (snd x)) cs
        \<and> concat (map snd (filter (\<lambda>x. fst x \<noteq> InsertLine) cs)) = b
        \<and> concat (map snd (filter (\<lambda>x. fst x \<noteq> DeleteLine) cs)) = c)"

text \<open>
  A line that is not blank is kept; or no line is kept at all, the text patched is not empty and the result is not
  a single blank line.  Otherwise the last line feed can be lost.
\<close>

definition safe_review :: "change list \<Rightarrow> string \<Rightarrow> string \<Rightarrow> bool" where
  "safe_review cs src dst \<longleftrightarrow>
     list_ex (\<lambda>x. fst x = EqualLine \<and> snd x \<noteq> [CHR 0x0A]) cs
     \<or> (list_all (\<lambda>x. fst x \<noteq> EqualLine) cs \<and> src \<noteq> [] \<and> dst \<noteq> [CHR 0x0A])"

lemma whole_line_feed: "whole_line v \<Longrightarrow> v = with_feed (butlast v)"
  by (auto simp: whole_line_def with_feed_def) (metis append_butlast_last_id)

lemma law_lines:
  assumes "differ_law d" "regular_text b" "regular_text c" "d b c = Some cs"
  obtains xs where "cs = map line_change xs" "list_all plain_line (old_side xs)" "list_all plain_line (new_side xs)"
    "b = whole_lines (old_side xs)" "c = whole_lines (new_side xs)"
proof
  let ?xs = "map (\<lambda>x. (fst x, butlast (snd x))) cs"
  have w: "list_all (\<lambda>x. whole_line (snd x)) cs"
    and b: "concat (map snd (filter (\<lambda>x. fst x \<noteq> InsertLine) cs)) = b"
    and c: "concat (map snd (filter (\<lambda>x. fst x \<noteq> DeleteLine) cs)) = c"
    using assms by (auto simp: differ_law_def)
  have "map line_change ?xs = map (\<lambda>x. x) cs"
    unfolding map_map by (rule map_cong) (use w whole_line_feed in \<open>auto simp: list_all_iff line_change_def\<close>)
  then show eq: "cs = map line_change ?xs" by simp
  have side: "whole_lines (map snd (filter (\<lambda>x. fst x \<noteq> t) ?xs)) = concat (map snd (filter (\<lambda>x. fst x \<noteq> t) cs))" for t
    using w
  proof (induction cs)
    case (Cons x cs)
    then have "snd x = with_feed (butlast (snd x))" by (simp add: whole_line_feed)
    then have "butlast (snd x) @ [CHR 0x0A] = snd x" by (simp add: with_feed_def)
    then show ?case using Cons by (cases "fst x \<noteq> t") (simp_all add: append_eq_Cons_conv flip: append_assoc)
  qed simp
  show "b = whole_lines (old_side ?xs)" "c = whole_lines (new_side ?xs)"
    unfolding old_side_def new_side_def side using b c by simp_all
  show "list_all plain_line (old_side ?xs)" "list_all plain_line (new_side ?xs)"
    using w by (auto simp: list_all_iff old_side_def new_side_def whole_line_def)
qed

subsection \<open>Hunks up to identity\<close>

definition hunk_shape :: "hunk \<Rightarrow> string \<times> line_info \<times> string option \<times> string" where
  "hunk_shape h = (hk_path h, hk_line_info h, hk_old_text h, hk_new_text h)"

definition builder_shape :: "string \<Rightarrow> hunk_builder \<Rightarrow> string \<times> line_info \<times> string option \<times> string" where
  "builder_shape path b =
     (path, \<lparr>old_start = hb_old_start b, old_count = length (hb_old_lines b), new_start = hb_new_start b,
       new_count = length (hb_new_lines b)\<rparr>,
      if hb_old_lines b = [] then None else Some (concat (hb_old_lines b)), concat (hb_new_lines b))"

lemma shape_build: "hunk_shape (build hid now path source b) = builder_shape path b"
  by (simp add: hunk_shape_def builder_shape_def build_def)

lemma shapes_build_all: "map hunk_shape (build_all uuid n now path source bs) = map (builder_shape path) bs"
  by (induction bs arbitrary: n) (simp_all add: shape_build)

lemma shape_patches:
  assumes "hunk_shape h = builder_shape path b"
  shows "reject_patch h = reject_builder patch_lines b"
    and "accept_patch h (Full x) = Full (accept_builder patch_lines b x)"
    and "new_start (hk_line_info h) = hb_new_start b" "old_start (hk_line_info h) = hb_old_start b"
  using assms
  by (auto simp: hunk_shape_def builder_shape_def reject_patch_def reject_builder_def accept_patch_def accept_builder_def
      fun_eq_iff split: if_splits)

lemma aligned_increasing:
  assumes "aligned lead i j bs olds news eqs"
  shows "sorted_wrt (<) (map hb_new_start bs) \<and> sorted_wrt (<) (map hb_old_start bs)
    \<and> (\<forall>b \<in> set bs. j \<le> hb_new_start b \<and> i \<le> hb_old_start b
         \<and> (lead \<or> (j < hb_new_start b \<and> i < hb_old_start b)))"
  using assms by (induction rule: aligned.induct) force+

lemma from_the_end_rev:
  assumes "sorted_wrt (<) (map (\<lambda>h. line (hk_line_info h)) hs)"
  shows "from_the_end line hs = rev hs"
proof -
  let ?k = "\<lambda>h. - int (line (hk_line_info h))"
  have "sorted_wrt (\<lambda>x y. line (hk_line_info x) < line (hk_line_info y)) hs"
    using assms by (simp add: sorted_wrt_map)
  then have s: "sorted_wrt (\<lambda>x y. line (hk_line_info y) < line (hk_line_info x)) (rev hs)"
    by (simp add: sorted_wrt_rev)
  then have "sorted (map ?k (rev hs))"
    by (auto simp: sorted_wrt_map elim!: sorted_wrt_mono_rel[rotated])
  moreover have "inj_on ?k (set hs)"
    using assms by (simp add: strict_sorted_iff distinct_map) (auto simp: inj_on_def)
  ultimately show ?thesis unfolding from_the_end_def by (intro sort_key_inj_key_eq) simp_all
qed

lemma fold_map_eq:
  assumes "list_all2 (\<lambda>x y. f x = g y) xs ys"
  shows "fold f (rev xs) = fold g (rev ys)"
  using assms by (induction rule: list_all2_induct) simp_all

lemma fold_accept_full:
  assumes "list_all2 (\<lambda>h b. hunk_shape h = builder_shape path b) hs bs"
  shows "fold accept_patch (rev hs) (Full x) = Full (fold (accept_builder patch_lines) (rev bs) x)"
  using assms by (induction arbitrary: x rule: list_all2_induct) (simp_all add: shape_patches)

lemma concat_with_feed: "concat (map with_feed ls) = whole_lines ls"
  by (induction ls) (simp_all add: with_feed_def)

subsection \<open>All hunks of a text\<close>

lemma shared_kept:
  assumes "list_ex (\<lambda>x. fst x = EqualLine \<and> snd x \<noteq> [CHR 0x0A]) (map line_change xs)"
  obtains l where "l \<in> set (shared_side xs)" "l \<noteq> []"
  using assms by (fastforce simp: list_ex_iff line_change_def with_feed_def shared_side_def)

lemma shared_none:
  "list_all (\<lambda>x. fst x \<noteq> EqualLine) (map line_change xs) \<Longrightarrow> shared_side xs = []"
  by (auto simp: list_all_iff line_change_def shared_side_def filter_empty_conv)

lemma builders_reject:
  assumes "list_all plain_line (old_side xs)" "list_all plain_line (new_side xs)"
    and "safe_review (map line_change xs) (whole_lines (new_side xs)) (whole_lines (old_side xs))"
  shows "fold (reject_builder patch_lines) (rev (group_changes (map line_change xs) 1 1 None)) (whole_lines (new_side xs))
    = whole_lines (old_side xs)"
  using assms(3) unfolding safe_review_def
proof
  assume "list_ex (\<lambda>x. fst x = EqualLine \<and> snd x \<noteq> [CHR 0x0A]) (map line_change xs)"
  then obtain l where "l \<in> set (shared_side xs)" "l \<noteq> []" by (rule shared_kept)
  then show ?thesis
    using lp.reject_aligned[OF aligned_groups(1)[of 1 1 xs], of "[]" l] assms(1,2) by simp
next
  assume u: "list_all (\<lambda>x. fst x \<noteq> EqualLine) (map line_change xs) \<and> whole_lines (new_side xs) \<noteq> []
    \<and> whole_lines (old_side xs) \<noteq> [CHR 0x0A]"
  then have "xs \<noteq> []" "new_side xs \<noteq> []" "old_side xs \<noteq> [[]]" by auto
  then show ?thesis
    using lp.patch_middle[of "[]" "new_side xs" "[]" "old_side xs"] assms(1,2) shared_none[OF conjunct1[OF u]]
    by (simp add: unshared_groups in_progress_def reject_builder_def concat_with_feed)
qed

lemma builders_accept:
  assumes "list_all plain_line (old_side xs)" "list_all plain_line (new_side xs)"
    and "safe_review (map line_change xs) (whole_lines (old_side xs)) (whole_lines (new_side xs))"
  shows "fold (accept_builder patch_lines) (rev (group_changes (map line_change xs) 1 1 None)) (whole_lines (old_side xs))
    = whole_lines (new_side xs)"
  using assms(3) unfolding safe_review_def
proof
  assume "list_ex (\<lambda>x. fst x = EqualLine \<and> snd x \<noteq> [CHR 0x0A]) (map line_change xs)"
  then obtain l where "l \<in> set (shared_side xs)" "l \<noteq> []" by (rule shared_kept)
  then show ?thesis
    using lp.accept_aligned[OF aligned_groups(1)[of 1 1 xs], of "[]" l] assms(1,2) by simp
next
  assume u: "list_all (\<lambda>x. fst x \<noteq> EqualLine) (map line_change xs) \<and> whole_lines (old_side xs) \<noteq> []
    \<and> whole_lines (new_side xs) \<noteq> [CHR 0x0A]"
  then have "xs \<noteq> []" "old_side xs \<noteq> []" "new_side xs \<noteq> [[]]" by auto
  then show ?thesis
    using lp.patch_middle[of "[]" "old_side xs" "[]" "new_side xs"] assms(1,2) shared_none[OF conjunct1[OF u]]
    by (simp add: unshared_groups in_progress_def accept_builder_def concat_with_feed)
qed

text \<open>The hunks of two texts, whatever their ids and sources, turn each text into the other.\<close>

lemma hunks_of_texts:
  assumes "differ_law (hl_differ L)" "regular_text b" "regular_text c" "hl_differ L b c = Some cs"
    and "map hunk_shape hs = map hunk_shape (file_diff L n now path (Full b) (Full c) source)" "hs \<noteq> []"
  shows "safe_review cs c b \<Longrightarrow> fold reject_patch (from_the_end new_start hs) c = b"
    and "safe_review cs b c \<Longrightarrow> fold accept_patch (from_the_end old_start hs) (Full b) = Full c"
proof -
  let ?bs = "group_changes cs 1 1 None"
  obtain xs where xs: "cs = map line_change xs" "list_all plain_line (old_side xs)" "list_all plain_line (new_side xs)"
    "b = whole_lines (old_side xs)" "c = whole_lines (new_side xs)"
    using law_lines[OF assms(1-4)] .
  have al: "aligned True 1 1 ?bs (old_side xs) (new_side xs) (shared_side xs)"
    unfolding xs(1) by (rule aligned_groups)
  have "map hunk_shape hs = map (builder_shape path) ?bs"
    using assms(4-6) by (simp add: file_diff_def compute_hunks_def shapes_build_all split: if_splits)
  then have shapes: "list_all2 (\<lambda>h b. hunk_shape h = builder_shape path b) hs ?bs"
    by (simp add: list_all2_conv_all_nth list_eq_iff_nth_eq)
  then have starts: "map (\<lambda>h. new_start (hk_line_info h)) hs = map hb_new_start ?bs"
      "map (\<lambda>h. old_start (hk_line_info h)) hs = map hb_old_start ?bs"
    by (induction rule: list_all2_induct) (simp_all add: shape_patches)
  have order: "from_the_end new_start hs = rev hs" "from_the_end old_start hs = rev hs"
    by (intro from_the_end_rev; use starts aligned_increasing[OF al] in simp)+
  have "list_all2 (\<lambda>h b. reject_patch h = reject_builder patch_lines b) hs ?bs"
    using shapes by (rule list_all2_mono) (rule shape_patches)
  then have "fold reject_patch (rev hs) = fold (reject_builder patch_lines) (rev ?bs)" by (rule fold_map_eq)
  then show "safe_review cs c b \<Longrightarrow> fold reject_patch (from_the_end new_start hs) c = b"
    using builders_reject[OF xs(2,3)] unfolding order xs by simp
  show "safe_review cs b c \<Longrightarrow> fold accept_patch (from_the_end old_start hs) (Full b) = Full c"
    using builders_accept[OF xs(2,3)] fold_accept_full[OF shapes] unfolding order xs by simp
qed

end
