(* ===== verification/Hunk_Handlers.thy ===== *)
theory Hunk_Handlers
  imports Hunk_Review
begin

text \<open>
  The well-formedness of the hunk tracker's state: ids of pending hunks are distinct and drawn from the supply, the
  pending hunks of a file are none or those of its two contents, and the index of turns lists a pending hunk under
  no turn but its own.  Every handler keeps it; with one more condition, also that the index lists them all.

  Every handler of the hunk tracker keeps its state well formed; \<open>full\<close> asks in addition that the index of turns
  lists every pending hunk, which a write that fails on disk can break.
\<close>

section \<open>Hunk invariant\<close>

subsection \<open>Ids and shapes of recomputed hunks\<close>

lemma find_matching_in:
  assumes "find_matching_old_hunk h olds = Some m"
  shows "m \<in> set olds"
proof -
  have mi: "min_by_key f xs = Some y \<Longrightarrow> y \<in> set xs" for f :: "hunk \<Rightarrow> nat" and xs y
    by (induction xs arbitrary: y) (auto split: option.splits if_splits)
  have ma: "max_by_key f xs = Some y \<Longrightarrow> y \<in> set xs" for f :: "hunk \<Rightarrow> nat" and xs y
    by (induction xs arbitrary: y) (auto split: option.splits if_splits)
  show ?thesis using assms mi ma
    unfolding find_matching_old_hunk_def Let_def by (fastforce split: if_splits)
qed

lemma preserve_ids_shapes [simp]: "map hunk_shape (preserve_ids olds claimed news) = map hunk_shape news"
  by (induction olds claimed news rule: preserve_ids.induct) (simp_all add: hunk_shape_def split: option.split)

lemma preserve_ids_Nil_iff [simp]: "preserve_ids olds claimed news = [] \<longleftrightarrow> news = []"
  by (cases news) (simp_all split: option.split)

lemma preserve_ids_ids:
  assumes "distinct (map hk_id news)" "hk_id ` set news \<inter> (hk_id ` set olds \<union> claimed) = {}"
  shows "distinct (map hk_id (preserve_ids olds claimed news))
    \<and> hk_id ` set (preserve_ids olds claimed news) \<subseteq> hk_id ` set news \<union> (hk_id ` set olds - claimed)"
  using assms
proof (induction olds claimed news rule: preserve_ids.induct)
  case (2 olds claimed h hs)
  show ?case
  proof (cases "find_matching_old_hunk h olds")
    case None
    then show ?thesis using 2 by auto
  next
    case (Some m)
    have m: "hk_id m \<in> hk_id ` set olds" using find_matching_in[OF Some] by simp
    show ?thesis
    proof (cases "hk_id m \<in> claimed")
      case True
      then show ?thesis using Some 2 by auto
    next
      case False
      have "distinct (map hk_id (preserve_ids olds (insert (hk_id m) claimed) hs)) \<and>
          hk_id ` set (preserve_ids olds (insert (hk_id m) claimed) hs)
            \<subseteq> hk_id ` set hs \<union> (hk_id ` set olds - insert (hk_id m) claimed)"
        by (rule "2.IH"(3)[OF Some False]) (use "2.prems" m in auto)
      moreover have "hk_id m \<notin> hk_id ` set hs" using "2.prems" m by auto
      ultimately show ?thesis using Some False m by auto
    qed
  qed
qed simp

lemma build_all_ids: "map hk_id (build_all uuid n now path source bs) = map uuid [n..<n + length bs]"
proof (induction bs arbitrary: n)
  case (Cons b bs)
  have "[n..<n + length (b # bs)] = n # [Suc n..<Suc n + length bs]" by (simp add: upt_rec)
  then show ?case using Cons by (simp add: build_def)
qed simp

lemma build_all_length [simp]: "length (build_all uuid n now path source bs) = length bs"
  by (induction bs arbitrary: n) simp_all

lemma file_diff_ids:
  "map hk_id (file_diff L n now path b c source) =
     map (hl_uuid L) [n..<n + length (file_diff L n now path b c source)]"
  by (simp add: file_diff_def compute_hunks_def build_all_ids file_deleted_def file_created_def
      split: file_content.split option.split)

lemma file_diff_shapes:
  "map hunk_shape (file_diff L n now path b c source) = map hunk_shape (file_diff L 0 0 path b c ExternalEdit)"
  by (simp add: file_diff_def compute_hunks_def shapes_build_all file_deleted_def file_created_def hunk_shape_def
      split: file_content.split option.split)

subsection \<open>The index of turns\<close>

definition indexed_in :: "turn_index \<Rightarrow> string \<Rightarrow> nat \<Rightarrow> bool" where
  "indexed_in ti i k \<longleftrightarrow> (case ti k of None \<Rightarrow> False | Some ids \<Rightarrow> i \<in> ids)"

definition listed :: "hunk list \<Rightarrow> string \<Rightarrow> nat \<Rightarrow> bool" where
  "listed hs i k \<longleftrightarrow> (\<exists>h \<in> set hs. hk_id h = i \<and> prompt_of (hk_source h) = Some k)"

lemma listed_id: "listed hs i k \<Longrightarrow> i \<in> hk_id ` set hs"
  by (auto simp: listed_def)

lemma listedI: "h \<in> set hs \<Longrightarrow> prompt_of (hk_source h) = Some k \<Longrightarrow> listed hs (hk_id h) k"
  by (auto simp: listed_def)

lemma listed_own: "distinct (map hk_id hs) \<Longrightarrow> h \<in> set hs \<Longrightarrow> listed hs (hk_id h) k \<longleftrightarrow> prompt_of (hk_source h) = Some k"
  by (auto simp: listed_def distinct_map dest: inj_onD)

lemma indexed_remove: "indexed_in (turns_remove h ti) i k \<longleftrightarrow> indexed_in ti i k \<and> \<not> listed [h] i k"
  by (auto simp: indexed_in_def turns_remove_def listed_def split: option.split)

lemma indexed_insert: "indexed_in (turns_insert h ti) i k \<longleftrightarrow> indexed_in ti i k \<or> listed [h] i k"
  by (auto simp: indexed_in_def turns_insert_def listed_def split: option.split)

lemma indexed_removes: "indexed_in (fold turns_remove hs ti) i k \<longleftrightarrow> indexed_in ti i k \<and> \<not> listed hs i k"
  by (induction hs arbitrary: ti) (auto simp: indexed_remove listed_def)

lemma indexed_inserts: "indexed_in (fold turns_insert hs ti) i k \<longleftrightarrow> indexed_in ti i k \<or> listed hs i k"
  by (induction hs arbitrary: ti) (auto simp: indexed_insert listed_def)

subsection \<open>Well-formedness\<close>

definition file_sound :: "hunk_lib \<Rightarrow> string \<Rightarrow> file_hunks \<Rightarrow> bool" where
  "file_sound L p s \<longleftrightarrow>
     fh_hunks s = []
     \<or> map hunk_shape (fh_hunks s) = map hunk_shape (file_diff L 0 0 p (fh_baseline s) (fh_current s) ExternalEdit)"

definition drawn_ids :: "hunk_lib \<Rightarrow> nat \<Rightarrow> string set" where
  "drawn_ids L n = hl_uuid L ` {..<n}"

definition pending_of :: "(string \<times> file_hunks) list \<Rightarrow> string \<Rightarrow> hunk list" where
  "pending_of fs p = (case map_of fs p of None \<Rightarrow> [] | Some s \<Rightarrow> fh_hunks s)"

definition pending_ids :: "(string \<times> file_hunks) list \<Rightarrow> string \<Rightarrow> string set" where
  "pending_ids fs p = hk_id ` set (pending_of fs p)"

text \<open>The parts of the state that matter: files, index and how many ids were drawn.  Files in \<open>X\<close> may be unsound.\<close>

definition core_ok ::
    "hunk_lib \<Rightarrow> string set \<Rightarrow> (string \<times> file_hunks) list \<Rightarrow> turn_index \<Rightarrow> nat \<Rightarrow> bool" where
  "core_ok L X fs ti n \<longleftrightarrow>
     distinct (map fst fs)
     \<and> (\<forall>p. distinct (map hk_id (pending_of fs p)))
     \<and> (\<forall>p. pending_ids fs p \<subseteq> drawn_ids L n)
     \<and> (\<forall>p s. map_of fs p = Some s \<longrightarrow> p \<notin> X \<longrightarrow> file_sound L p s)
     \<and> (\<forall>p q. p \<noteq> q \<longrightarrow> pending_ids fs p \<inter> pending_ids fs q = {})
     \<and> (\<forall>i k. indexed_in ti i k \<longrightarrow> i \<in> drawn_ids L n)
     \<and> (\<forall>p h k. h \<in> set (pending_of fs p) \<longrightarrow> indexed_in ti (hk_id h) k \<longrightarrow> prompt_of (hk_source h) = Some k)"

definition all_indexed :: "(string \<times> file_hunks) list \<Rightarrow> turn_index \<Rightarrow> bool" where
  "all_indexed fs ti \<longleftrightarrow>
     (\<forall>p h k. h \<in> set (pending_of fs p) \<longrightarrow> prompt_of (hk_source h) = Some k \<longrightarrow> indexed_in ti (hk_id h) k)"

definition tracker_ok :: "hunk_lib \<Rightarrow> tracker \<Rightarrow> bool" where
  "tracker_ok L t \<longleftrightarrow> core_ok L {} (ht_files t) (ht_turns t) (ht_drawn t)"

lemma core_okD:
  assumes "core_ok L X fs ti n"
  shows "distinct (map fst fs)"
    and "distinct (map hk_id (pending_of fs p))"
    and "pending_ids fs p \<subseteq> drawn_ids L n"
    and "map_of fs p = Some s \<Longrightarrow> p \<notin> X \<Longrightarrow> file_sound L p s"
    and "p \<noteq> q \<Longrightarrow> pending_ids fs p \<inter> pending_ids fs q = {}"
    and "indexed_in ti i k \<Longrightarrow> i \<in> drawn_ids L n"
    and "h \<in> set (pending_of fs p) \<Longrightarrow> indexed_in ti (hk_id h) k \<Longrightarrow> prompt_of (hk_source h) = Some k"
proof -
  note parts = assms[unfolded core_ok_def]
  show "distinct (map fst fs)" using parts by (rule conjunct1)
  show "distinct (map hk_id (pending_of fs p))" using parts by (elim conjE allE)
  show "pending_ids fs p \<subseteq> drawn_ids L n" using parts by (elim conjE allE)
  show "map_of fs p = Some s \<Longrightarrow> p \<notin> X \<Longrightarrow> file_sound L p s" using parts by (elim conjE) metis
  show "p \<noteq> q \<Longrightarrow> pending_ids fs p \<inter> pending_ids fs q = {}" using parts by (elim conjE) metis
  show "indexed_in ti i k \<Longrightarrow> i \<in> drawn_ids L n" using parts by (elim conjE) metis
  show "h \<in> set (pending_of fs p) \<Longrightarrow> indexed_in ti (hk_id h) k \<Longrightarrow> prompt_of (hk_source h) = Some k"
    using parts by (elim conjE) metis
qed

lemma core_okI:
  assumes "distinct (map fst fs)"
    and "\<And>p. distinct (map hk_id (pending_of fs p))"
    and "\<And>p. pending_ids fs p \<subseteq> drawn_ids L n"
    and "\<And>p s. map_of fs p = Some s \<Longrightarrow> p \<notin> X \<Longrightarrow> file_sound L p s"
    and "\<And>p q. p \<noteq> q \<Longrightarrow> pending_ids fs p \<inter> pending_ids fs q = {}"
    and "\<And>i k. indexed_in ti i k \<Longrightarrow> i \<in> drawn_ids L n"
    and "\<And>p h k. h \<in> set (pending_of fs p) \<Longrightarrow> indexed_in ti (hk_id h) k \<Longrightarrow> prompt_of (hk_source h) = Some k"
  shows "core_ok L X fs ti n"
  unfolding core_ok_def by (intro conjI allI impI; rule assms; assumption)

lemma all_indexedD:
  "all_indexed fs ti \<Longrightarrow> h \<in> set (pending_of fs p) \<Longrightarrow> prompt_of (hk_source h) = Some k \<Longrightarrow> indexed_in ti (hk_id h) k"
  by (simp add: all_indexed_def)

lemma drawn_ids_mono: "n \<le> m \<Longrightarrow> drawn_ids L n \<subseteq> drawn_ids L m"
  by (auto simp: drawn_ids_def)

lemma pending_update [simp]: "pending_of (AList.update p s fs) q = (if q = p then fh_hunks s else pending_of fs q)"
  by (simp add: pending_of_def update_conv')

lemma pending_delete [simp]: "pending_of (AList.delete p fs) q = (if q = p then [] else pending_of fs q)"
  by (simp add: pending_of_def delete_conv')

lemma pending_ids_update [simp]:
  "pending_ids (AList.update p s fs) q = (if q = p then hk_id ` set (fh_hunks s) else pending_ids fs q)"
  by (simp add: pending_ids_def)

lemma pending_ids_delete [simp]: "pending_ids (AList.delete p fs) q = (if q = p then {} else pending_ids fs q)"
  by (simp add: pending_ids_def)

subsection \<open>Steps on the core\<close>

text \<open>Replacing the state of a file, where the new hunks have old ids of the file or ids drawn since.\<close>

lemma core_replace:
  assumes ok: "core_ok L X fs ti n" and le: "n \<le> m" and d: "distinct (map hk_id (fh_hunks s))"
    and ids: "hk_id ` set (fh_hunks s) \<subseteq> pending_ids fs p \<union> (drawn_ids L m - drawn_ids L n)"
    and sound: "p \<notin> Y \<Longrightarrow> file_sound L p s" "X \<subseteq> insert p Y"
    and index: "\<And>i k. indexed_in ti' i k \<Longrightarrow> indexed_in ti i k \<or> listed (fh_hunks s) i k"
    and own: "\<And>h k. h \<in> set (fh_hunks s) \<Longrightarrow> indexed_in ti' (hk_id h) k \<Longrightarrow> prompt_of (hk_source h) = Some k"
  shows "core_ok L Y (AList.update p s fs) ti' m"
proof (rule core_okI, goal_cases)
  case 1
  show ?case using core_okD(1)[OF ok] by (rule distinct_update)
next
  case (2 q)
  show ?case using d core_okD(2)[OF ok] by simp
next
  case (3 q)
  show ?case using ids core_okD(3)[OF ok] drawn_ids_mono[OF le] by (auto split: if_splits) blast+
next
  case (4 q r)
  then show ?case using sound core_okD(4)[OF ok] by (auto simp: update_conv' split: if_splits)
next
  case (5 q q')
  have "hk_id ` set (fh_hunks s) \<inter> pending_ids fs r = {}" if "r \<noteq> p" for r
    using ids core_okD(5)[OF ok that] core_okD(3)[OF ok, of r] by blast
  then show ?case using 5 core_okD(5)[OF ok 5] by (auto simp: Int_commute)
next
  case (6 i k)
  then show ?case
    using index[OF 6] core_okD(6)[OF ok] core_okD(3)[OF ok, of p] ids drawn_ids_mono[OF le]
    unfolding listed_def by blast
next
  case (7 q h k)
  show ?case
  proof (cases "q = p")
    case True
    then show ?thesis using 7 own by simp
  next
    case False
    then have h: "h \<in> set (pending_of fs q)" "hk_id h \<in> pending_ids fs q" using 7 by (auto simp: pending_ids_def)
    have "hk_id h \<notin> hk_id ` set (fh_hunks s)"
      using ids h(2) core_okD(5)[OF ok False] core_okD(3)[OF ok, of q] by blast
    then have "\<not> listed (fh_hunks s) (hk_id h) k" using listed_id by blast
    then show ?thesis using index[OF 7(2)] core_okD(7)[OF ok h(1)] by blast
  qed
qed

lemma indexed_replace:
  assumes "all_indexed fs ti"
    and "\<And>q h k. q \<noteq> p \<Longrightarrow> h \<in> set (pending_of fs q) \<Longrightarrow> indexed_in ti (hk_id h) k \<Longrightarrow> indexed_in ti' (hk_id h) k"
    and "\<And>h k. h \<in> set (fh_hunks s) \<Longrightarrow> prompt_of (hk_source h) = Some k \<Longrightarrow> indexed_in ti' (hk_id h) k"
  shows "all_indexed (AList.update p s fs) ti'"
  using assms unfolding all_indexed_def by (simp split: if_splits)

lemma core_put:
  assumes "core_ok L X fs ti n" "set (fh_hunks s) \<subseteq> set (pending_of fs p)" "distinct (map hk_id (fh_hunks s))"
    and "p \<notin> Y \<Longrightarrow> file_sound L p s" "X \<subseteq> insert p Y"
  shows "core_ok L Y (AList.update p s fs) ti n"
proof (rule core_replace[OF assms(1) order_refl assms(3) _ assms(4,5)])
  show "hk_id ` set (fh_hunks s) \<subseteq> pending_ids fs p \<union> (drawn_ids L n - drawn_ids L n)"
    using assms(2) by (auto simp: pending_ids_def)
  show "\<And>h k. h \<in> set (fh_hunks s) \<Longrightarrow> indexed_in ti (hk_id h) k \<Longrightarrow> prompt_of (hk_source h) = Some k"
    using assms(2) core_okD(7)[OF assms(1)] by blast
qed simp_all

lemma core_sound:
  assumes ok: "core_ok L X fs ti n" and s: "\<And>p s. p \<in> X \<Longrightarrow> map_of fs p = Some s \<Longrightarrow> file_sound L p s"
  shows "core_ok L Y fs ti n"
proof (rule core_okI, goal_cases)
  case (4 p r)
  then show ?case using core_okD(4)[OF ok 4(1)] s[OF _ 4(1)] by blast
qed (use core_okD[OF ok] in \<open>assumption | blast\<close>)+

lemma indexed_put:
  assumes "all_indexed fs ti" "set (fh_hunks s) \<subseteq> set (pending_of fs p)"
  shows "all_indexed (AList.update p s fs) ti"
  using assms by (intro indexed_replace) (auto dest: all_indexedD)

lemma core_delete:
  assumes ok: "core_ok L X fs ti n"
  shows "core_ok L X (AList.delete p fs) ti n"
proof (rule core_okI, goal_cases)
  case 1
  show ?case using core_okD(1)[OF ok] by (rule distinct_delete)
next
  case (4 q r)
  then show ?case using core_okD(4)[OF ok] by (simp add: delete_conv' split: if_splits)
next
  case (5 q r)
  then show ?case using core_okD(5)[OF ok 5] by simp
next
  case (6 i k)
  then show ?case by (rule core_okD(6)[OF ok])
next
  case (7 q h k)
  then show ?case using core_okD(7)[OF ok] by (simp split: if_splits)
qed (use core_okD(2,3)[OF ok] in simp_all)

lemma indexed_delete: "all_indexed fs ti \<Longrightarrow> all_indexed (AList.delete p fs) ti"
  by (simp add: all_indexed_def)

lemma core_unlist:
  assumes ok: "core_ok L X fs ti n"
  shows "core_ok L X fs (fold turns_remove hs ti) n"
  by (rule core_okI) (use core_okD[OF ok] in \<open>auto simp: indexed_removes\<close>)

text \<open>Taking hunks out of the index keeps it complete when none of them is pending.\<close>

lemma indexed_unlist:
  assumes "all_indexed fs ti" "\<And>p. hk_id ` set hs \<inter> pending_ids fs p = {}"
  shows "all_indexed fs (fold turns_remove hs ti)"
proof -
  have "\<not> listed hs (hk_id h) k" if "h \<in> set (pending_of fs p)" for h p k
    using assms(2)[of p] that listed_id unfolding pending_ids_def by blast
  then show ?thesis using assms(1) by (simp add: all_indexed_def indexed_removes)
qed

subsection \<open>Recomputation\<close>

lemma ht_put [simp]:
  "ht_files (put_file p s t) = AList.update p s (ht_files t)" "ht_turns (put_file p s t) = ht_turns t"
  "ht_drawn (put_file p s t) = ht_drawn t" "ht_files (drop_file p t) = AList.delete p (ht_files t)"
  "ht_turns (drop_file p t) = ht_turns t" "ht_drawn (drop_file p t) = ht_drawn t"
  "ht_files (send_event e t) = ht_files t" "ht_turns (send_event e t) = ht_turns t"
  "ht_drawn (send_event e t) = ht_drawn t"
  "ht_files (retire_hunks p hs t) = ht_files t" "ht_turns (retire_hunks p hs t) = fold turns_remove hs (ht_turns t)"
  "ht_drawn (retire_hunks p hs t) = ht_drawn t"
  "ht_files (gone_events p r hs t) = ht_files t" "ht_turns (gone_events p r hs t) = ht_turns t"
  "ht_drawn (gone_events p r hs t) = ht_drawn t"
  "ht_files (emit_hunk_diff_events p os ns src t) = ht_files t"
  "ht_turns (emit_hunk_diff_events p os ns src t) = ht_turns t"
  "ht_drawn (emit_hunk_diff_events p os ns src t) = ht_drawn t"
  by (simp_all add: put_file_def drop_file_def send_event_def retire_hunks_def gone_events_def emit_hunk_diff_events_def)

lemma new_ids_fresh:
  assumes "inj (hl_uuid L)"
  shows "distinct (map hk_id (file_diff L n now path b c source))"
    and "hk_id ` set (file_diff L n now path b c source)
      \<subseteq> drawn_ids L (n + length (file_diff L n now path b c source)) - drawn_ids L n"
proof -
  let ?d = "file_diff L n now path b c source"
  show "distinct (map hk_id ?d)"
    by (subst file_diff_ids) (simp add: distinct_map inj_on_subset[OF assms])
  have "set (map hk_id ?d) = set (map (hl_uuid L) [n..<n + length ?d])" by (subst file_diff_ids) simp
  then have e: "hk_id ` set ?d = hl_uuid L ` {n..<n + length ?d}" by simp
  show "hk_id ` set ?d \<subseteq> drawn_ids L (n + length ?d) - drawn_ids L n"
    unfolding e drawn_ids_def using injD[OF assms] by fastforce
qed

lemma recompute_ok:
  assumes inj: "inj (hl_uuid L)" and ok: "core_ok L {path} (ht_files t) (ht_turns t) (ht_drawn t)"
  shows "tracker_ok L (recompute_hunks L now path c source t)"
    and "all_indexed (ht_files t) (ht_turns t) \<Longrightarrow>
      all_indexed (ht_files (recompute_hunks L now path c source t)) (ht_turns (recompute_hunks L now path c source t))"
proof -
  have "tracker_ok L (recompute_hunks L now path c source t)
    \<and> (all_indexed (ht_files t) (ht_turns t) \<longrightarrow>
      all_indexed (ht_files (recompute_hunks L now path c source t)) (ht_turns (recompute_hunks L now path c source t)))"
  proof (cases "file_of t path")
    case None
    then have "core_ok L {} (ht_files t) (ht_turns t) (ht_drawn t)"
      by (intro core_sound[OF ok]) (simp add: file_of_def)
    then show ?thesis using None by (simp add: recompute_hunks_def tracker_ok_def)
  next
    case (Some s)
    let ?olds = "fh_hunks s" and ?n = "ht_drawn t"
    let ?cur = "case c of Some x \<Rightarrow> x | None \<Rightarrow> Missing"
    define computed where "computed = file_diff L ?n now path (fh_baseline s) ?cur source"
    define news where "news = preserve_ids ?olds {} computed"
    let ?s = "s\<lparr>fh_current := ?cur, fh_hunks := news\<rparr>"
    let ?ti = "fold turns_insert news (fold turns_remove ?olds (ht_turns t))"
    have olds: "pending_of (ht_files t) path = ?olds" using Some by (simp add: pending_of_def file_of_def)
    have u: "recompute_hunks L now path c source t = emit_hunk_diff_events path ?olds news source
        ((put_file path ?s t)\<lparr>ht_turns := ?ti, ht_drawn := ?n + length computed\<rparr>)"
      using Some by (simp add: recompute_hunks_def computed_def news_def Let_def)
    note fresh = new_ids_fresh[OF inj, of ?n now path "fh_baseline s" ?cur source, folded computed_def]
    have old_drawn: "hk_id ` set ?olds \<subseteq> drawn_ids L ?n" using core_okD(3)[OF ok, of path] by (simp add: pending_ids_def olds)
    have ids: "distinct (map hk_id news)" "hk_id ` set news \<subseteq> hk_id ` set computed \<union> hk_id ` set ?olds"
      using preserve_ids_ids[OF fresh(1), of ?olds "{}"] fresh(2) old_drawn unfolding news_def by auto
    have idx: "indexed_in ?ti i k \<longleftrightarrow> (indexed_in (ht_turns t) i k \<and> \<not> listed ?olds i k) \<or> listed news i k" for i k
      by (simp add: indexed_inserts indexed_removes)
    have unindexed: "\<not> (indexed_in (ht_turns t) (hk_id h) k \<and> \<not> listed ?olds (hk_id h) k)" if h: "h \<in> set news" for h k
    proof (cases "hk_id h \<in> hk_id ` set ?olds")
      case True
      then obtain x where "x \<in> set ?olds" "hk_id x = hk_id h" by auto
      then show ?thesis using core_okD(7)[OF ok, of x path k] listedI[of x ?olds k] by (auto simp: olds)
    next
      case False
      then have "hk_id h \<notin> drawn_ids L ?n" using h ids(2) fresh(2) by blast
      then show ?thesis using core_okD(6)[OF ok] by blast
    qed
    have "core_ok L {} (AList.update path ?s (ht_files t)) ?ti (?n + length computed)"
    proof (rule core_replace[OF ok])
      show "hk_id ` set (fh_hunks ?s) \<subseteq> pending_ids (ht_files t) path
          \<union> (drawn_ids L (?n + length computed) - drawn_ids L ?n)"
        using ids(2) fresh(2) by (auto simp: pending_ids_def olds)
      show "file_sound L path ?s" unfolding file_sound_def
        using file_diff_shapes[of L ?n now path "fh_baseline s" ?cur source] by (simp add: news_def computed_def)
      show "indexed_in ?ti i k \<Longrightarrow> indexed_in (ht_turns t) i k \<or> listed (fh_hunks ?s) i k" for i k by (auto simp: idx)
      show "h \<in> set (fh_hunks ?s) \<Longrightarrow> indexed_in ?ti (hk_id h) k \<Longrightarrow> prompt_of (hk_source h) = Some k" for h k
        using unindexed[of h k] listed_own[OF ids(1), of h k] by (auto simp: idx)
    qed (use ids in simp_all)
    moreover have "all_indexed (AList.update path ?s (ht_files t)) ?ti" if "all_indexed (ht_files t) (ht_turns t)"
      using that
    proof (rule indexed_replace)
      fix q h k
      assume q: "q \<noteq> path" "h \<in> set (pending_of (ht_files t) q)" "indexed_in (ht_turns t) (hk_id h) k"
      have "hk_id h \<notin> hk_id ` set ?olds"
        using core_okD(5)[OF ok q(1)] q(2) by (auto simp: pending_ids_def olds)
      then show "indexed_in ?ti (hk_id h) k" using q(3) listed_id by (auto simp: idx)
    next
      show "h \<in> set (fh_hunks ?s) \<Longrightarrow> prompt_of (hk_source h) = Some k \<Longrightarrow> indexed_in ?ti (hk_id h) k" for h k
        using listedI[of h news k] by (simp add: idx)
    qed
    ultimately show ?thesis unfolding u by (simp add: tracker_ok_def)
  qed
  then show "tracker_ok L (recompute_hunks L now path c source t)"
    and "all_indexed (ht_files t) (ht_turns t) \<Longrightarrow>
      all_indexed (ht_files (recompute_hunks L now path c source t)) (ht_turns (recompute_hunks L now path c source t))"
    by blast+
qed

section \<open>Hunk handlers\<close>

definition core_wf :: "hunk_lib \<Rightarrow> bool \<Rightarrow> string set \<Rightarrow> tracker \<Rightarrow> bool" where
  "core_wf L full X t \<longleftrightarrow>
     core_ok L X (ht_files t) (ht_turns t) (ht_drawn t) \<and> (full \<longrightarrow> all_indexed (ht_files t) (ht_turns t))"

abbreviation wf :: "hunk_lib \<Rightarrow> bool \<Rightarrow> tracker \<Rightarrow> bool" where
  "wf L full t \<equiv> core_wf L full {} t"

lemma wf_same:
  "core_wf L full X t \<Longrightarrow> ht_files u = ht_files t \<Longrightarrow> ht_turns u = ht_turns t \<Longrightarrow> ht_drawn u = ht_drawn t
     \<Longrightarrow> core_wf L full X u"
  by (simp add: core_wf_def)

lemma wf_send [simp]: "core_wf L full X (send_event e t) \<longleftrightarrow> core_wf L full X t"
  by (simp add: core_wf_def)

lemma wf_gone [simp]: "core_wf L full X (gone_events p r hs t) \<longleftrightarrow> core_wf L full X t"
  by (simp add: core_wf_def)

lemma wf_weaken: "core_wf L full {} t \<Longrightarrow> core_wf L full X t"
  by (auto simp: core_wf_def intro: core_sound)

lemma wf_put:
  assumes "core_wf L full X t" "set (fh_hunks s) \<subseteq> set (pending_of (ht_files t) p)" "distinct (map hk_id (fh_hunks s))"
    and "p \<notin> Y \<Longrightarrow> file_sound L p s" "X \<subseteq> insert p Y"
  shows "core_wf L full Y (put_file p s t)"
  using assms core_put indexed_put unfolding core_wf_def by auto

text \<open>A state of the file without hunks, or with the hunks it had.\<close>

lemma file_sound_none: "fh_hunks s = [] \<Longrightarrow> file_sound L p s"
  by (simp add: file_sound_def)

lemma wf_put_none:
  assumes "core_wf L full X t" "fh_hunks s = []" "X \<subseteq> {p}"
  shows "wf L full (put_file p s t)"
  using assms by (intro wf_put[OF assms(1)]) (simp_all add: file_sound_none)

lemma wf_put_same:
  assumes "wf L full t" "file_of t p = Some s" "fh_hunks s' = fh_hunks s"
  shows "core_wf L full {p} (put_file p s' t)"
proof -
  have "pending_of (ht_files t) p = fh_hunks s" using assms(2) by (simp add: pending_of_def file_of_def)
  moreover have "distinct (map hk_id (fh_hunks s))"
    using assms(1) core_okD(2)[of L "{}" "ht_files t" "ht_turns t" "ht_drawn t" p] calculation by (simp add: core_wf_def)
  ultimately show ?thesis using assms by (intro wf_put[OF assms(1)]) simp_all
qed

lemma wf_recompute:
  assumes "inj (hl_uuid L)" "core_wf L full {path} t"
  shows "wf L full (recompute_hunks L now path c source t)"
  using assms recompute_ok unfolding core_wf_def tracker_ok_def by blast

lemma wf_recompute':
  assumes "inj (hl_uuid L)" "wf L full t"
  shows "wf L full (recompute_hunks L now path c source t)"
  by (rule wf_recompute[OF assms(1) wf_weaken[OF assms(2)]])

lemma file_sound_of:
  assumes "wf L full t" "file_of t p = Some s"
  shows "file_sound L p s"
  using assms core_okD(4)[of L "{}" "ht_files t" "ht_turns t" "ht_drawn t" p s] by (simp add: core_wf_def file_of_def)

subsection \<open>Reading git\<close>

definition same_core :: "tracker \<Rightarrow> tracker \<Rightarrow> bool" where
  "same_core t u \<longleftrightarrow> ht_files u = ht_files t \<and> ht_turns u = ht_turns t \<and> ht_drawn u = ht_drawn t \<and> ht_mode u = ht_mode t
     \<and> ht_working_dir u = ht_working_dir t \<and> ht_stats u = ht_stats t \<and> ht_events u = ht_events t"

lemma same_core_wf: "same_core t u \<Longrightarrow> core_wf L full X u \<longleftrightarrow> core_wf L full X t"
  by (simp add: same_core_def core_wf_def)

lemma same_core_file: "same_core t u \<Longrightarrow> file_of u p = file_of t p"
  by (simp add: same_core_def file_of_def)

lemma read_baseline_core: "read_baseline w p t = (b, u) \<Longrightarrow> same_core t u"
  by (auto simp: read_baseline_def same_core_def split: if_splits prod.splits option.splits)

lemma read_batch_core: "read_baselines_batch w ps t = (b, u) \<Longrightarrow> same_core t u"
  by (auto simp: read_baselines_batch_def same_core_def split: if_splits prod.splits option.splits)

lemma read_sync_core: "read_repo_sync_state w t = (b, u) \<Longrightarrow> same_core t u"
  by (auto simp: read_repo_sync_state_def same_core_def split: if_splits prod.splits option.splits)

lemma baseline_or_read_core: "baseline_or_read w pre p t = (b, u) \<Longrightarrow> same_core t u"
  using read_baseline_core by (auto simp: baseline_or_read_def same_core_def split: option.splits)

subsection \<open>Mutations\<close>

lemma wf_new_file:
  assumes "wf L full t"
  shows "wf L full (put_file path (fresh_file b c agent) t)"
  using assms by (simp add: wf_put_none fresh_file_def)

lemma wf_record_agent_write:
  assumes inj: "inj (hl_uuid L)" and wf: "wf L full t"
  shows "wf L full (record_agent_write L w path content n previous t)"
proof -
  obtain head u where r: "read_baseline w path t = (head, u)" by fastforce
  have u: "wf L full u" using same_core_wf[OF read_baseline_core[OF r]] wf by blast
  show ?thesis
  proof (cases "file_of t path")
    case None
    then show ?thesis unfolding record_agent_write_def Let_def
      by (simp add: r wf_new_file wf_recompute'[OF inj] u wf split: option.split)
  next
    case (Some s)
    have "core_wf L full {path} (put_file path (s\<lparr>fh_is_agent := True\<rparr>) t)"
      by (rule wf_put_same[OF wf Some]) simp
    then show ?thesis unfolding record_agent_write_def Let_def
      using Some wf by (simp add: wf_recompute[OF inj] wf_put_none)
  qed
qed

lemma wf_recompute_external:
  assumes "inj (hl_uuid L)" "wf L full t"
  shows "wf L full (recompute_external L w path c t)"
  unfolding recompute_external_def by (rule wf_recompute'[OF assms])

lemma wf_add_external: "wf L full t \<Longrightarrow> wf L full (add_external path b c t)"
  by (simp add: add_external_def wf_put_none fresh_file_def)

lemma wf_process_file_change:
  assumes inj: "inj (hl_uuid L)" and wf: "wf L full t"
  shows "wf L full (process_file_change L w path preloaded t)"
proof -
  obtain b u where r: "baseline_or_read w preloaded path t = (b, u)" by fastforce
  have u: "wf L full u" using same_core_wf[OF baseline_or_read_core[OF r]] wf by blast
  show ?thesis
    unfolding process_file_change_def Let_def r
    using u wf inj
    by (auto split: option.splits intro!: wf_put_none wf_recompute' wf_recompute_external wf_add_external)
qed

lemma wf_change_all:
  assumes "inj (hl_uuid L)"
  shows "wf L full t \<Longrightarrow> wf L full (change_all L w bs ps t)"
  by (induction ps arbitrary: bs t) (simp_all add: wf_process_file_change[OF assms])

lemma wf_changes_batch:
  assumes "inj (hl_uuid L)" "wf L full t"
  shows "wf L full (handle_file_changes_batch L w ps t)"
proof -
  obtain b u where r: "read_baselines_batch w (filter (needs_baseline t) ps) t = (b, u)" by fastforce
  have "wf L full u" using same_core_wf[OF read_batch_core[OF r]] assms(2) by blast
  then show ?thesis by (simp add: handle_file_changes_batch_def r wf_change_all[OF assms(1)])
qed

lemma wf_file_change:
  "inj (hl_uuid L) \<Longrightarrow> wf L full t \<Longrightarrow> wf L full (handle_file_change L w p t)"
  unfolding handle_file_change_def by (rule wf_process_file_change)

lemma wf_file_deleted:
  assumes inj: "inj (hl_uuid L)" and wf: "wf L full t"
  shows "wf L full (handle_file_deleted L w path t)"
proof -
  obtain b u where r: "read_baseline w path t = (b, u)" by fastforce
  have u: "wf L full u" using same_core_wf[OF read_baseline_core[OF r]] wf by blast
  show ?thesis
    unfolding handle_file_deleted_def r
    using u wf inj
    by (auto intro!: wf_recompute' wf_recompute_external wf_add_external wf_file_change)
qed

text \<open>Retiring hunks that are not pending any more.\<close>

lemma wf_retire:
  assumes "core_wf L full X t" "\<And>p. hk_id ` set hs \<inter> pending_ids (ht_files t) p = {}"
  shows "core_wf L full X (retire_hunks path hs t)"
  using assms core_unlist indexed_unlist unfolding core_wf_def by auto

lemma retired_apart:
  assumes "wf L full t" "file_of t path = Some s" "q \<noteq> path"
  shows "hk_id ` set (fh_hunks s) \<inter> pending_ids (ht_files t) q = {}"
proof -
  have "pending_ids (ht_files t) path = hk_id ` set (fh_hunks s)"
    using assms(2) by (simp add: pending_ids_def pending_of_def file_of_def)
  then show ?thesis
    using core_okD(5)[of L "{}" "ht_files t" "ht_turns t" "ht_drawn t" path q] assms(1,3) by (auto simp: core_wf_def)
qed

lemma wf_replace_retire:
  assumes "wf L full t" "file_of t path = Some s" "fh_hunks s' = []"
  shows "wf L full (retire_hunks path (fh_hunks s) (put_file path s' t))"
  using wf_put_none[OF assms(1,3), of path] retired_apart[OF assms(1,2)]
  by (intro wf_retire) (simp_all add: assms(3))

lemma wf_drop: "wf L full t \<Longrightarrow> wf L full (drop_file p t)"
  by (simp add: core_wf_def core_delete indexed_delete)

lemma wf_drop_retire:
  assumes "wf L full t" "file_of t path = Some s"
  shows "wf L full (retire_hunks path (fh_hunks s) (drop_file path t))"
  using wf_drop[OF assms(1)] retired_apart[OF assms] by (intro wf_retire) simp_all

lemma wf_reset_baseline: "wf L full t \<Longrightarrow> wf L full (reset_baseline path t)"
  by (simp add: reset_baseline_def wf_replace_retire split: option.split)

subsection \<open>Refreshes\<close>

lemma wf_fold: "(\<And>x t. wf L full t \<Longrightarrow> wf L full (f x t)) \<Longrightarrow> wf L full t \<Longrightarrow> wf L full (fold f xs t)"
  by (induction xs arbitrary: t) simp_all

lemma wf_refresh_dirty:
  assumes "inj (hl_uuid L)" "wf L full t"
  shows "wf L full (refresh_git_dirty_cache L w scope t)"
proof -
  have u: "wf L full (t\<lparr>ht_repo := r, ht_dirty := d, ht_staged := st\<rparr>)" for r d st
    using assms(2) by (simp add: core_wf_def)
  show ?thesis
    unfolding refresh_git_dirty_cache_def Let_def
    by (auto intro!: wf_fold wf_file_change assms u split: prod.split)
qed

lemma wf_refresh_file:
  assumes inj: "inj (hl_uuid L)" and wf: "wf L full t"
  shows "wf L full (refresh_file L w bs path t)"
  using wf inj unfolding refresh_file_def Let_def
  by (auto split: option.split intro!: wf_drop_retire wf_replace_retire wf_recompute wf_put_same)

lemma wf_refresh_caches:
  assumes "inj (hl_uuid L)" "wf L full t"
  shows "wf L full (refresh_caches L w t)"
proof -
  have "wf L full (t\<lparr>ht_dirty := [], ht_staged := []\<rparr>)" using assms(2) by (simp add: core_wf_def)
  then show ?thesis by (simp add: refresh_caches_def Let_def wf_refresh_dirty assms)
qed

lemma wf_refresh_all:
  assumes inj: "inj (hl_uuid L)" and wf: "wf L full t"
  shows "wf L full (refresh_all_baselines_except L w skip t)"
proof (cases "ht_mode t = AgentOnly \<and> ht_files t = []")
  case True
  then show ?thesis using wf by (simp add: refresh_all_baselines_except_def)
next
  case False
  obtain sync t1 where r1: "read_repo_sync_state w t = (sync, t1)" by fastforce
  define t2 where "t2 = (case sync of Some s \<Rightarrow> t1\<lparr>ht_sync := s\<rparr> | None \<Rightarrow> t1)"
  define t3 where "t3 = refresh_caches L w t2"
  define ps where "ps = filter (\<lambda>p. p \<notin> set skip) (map fst (ht_files t3))"
  obtain bs t4 where r4: "read_baselines_batch w ps t3 = (bs, t4)" by fastforce
  have 1: "wf L full t1" using same_core_wf[OF read_sync_core[OF r1]] wf by blast
  then have "wf L full t2" by (simp add: t2_def core_wf_def split: option.split)
  then have "wf L full t3" unfolding t3_def by (rule wf_refresh_caches[OF inj])
  then have "wf L full t4" using same_core_wf[OF read_batch_core[OF r4]] by blast
  then have "wf L full (fold (refresh_file L w bs) ps t4)" by (intro wf_fold wf_refresh_file[OF inj])
  then show ?thesis using False 1 wf r1 r4
    by (simp add: refresh_all_baselines_except_def t2_def[symmetric] t3_def[symmetric] ps_def[symmetric] Let_def)
qed

lemma wf_set_mode:
  assumes inj: "inj (hl_uuid L)" and wf: "wf L full t"
  shows "wf L full (set_mode L w m t)"
proof -
  have u: "wf L full (t\<lparr>ht_mode := m\<rparr>)" using wf by (simp add: core_wf_def)
  have "wf L full v \<Longrightarrow> wf L full (untrack_file p v)" for p v
    by (simp add: untrack_file_def wf_drop_retire split: option.split)
  then have "wf L full (fold untrack_file ps (t\<lparr>ht_mode := m\<rparr>))" for ps by (intro wf_fold u)
  then show ?thesis using wf_refresh_dirty[OF inj u, of w None] u
    by (simp only: set_mode_def Let_def split: if_split) blast
qed

subsection \<open>Actions\<close>

text \<open>Acting on one hunk is acting on a batch of one.\<close>

lemma from_the_end_single [simp]: "from_the_end line [h] = [h]"
  by (simp add: from_the_end_def)

lemma accept_single: "accept_hunk L w path h t = accept_hunks_batch L w path [h] t"
  by (simp add: accept_hunk_def accept_hunks_batch_def Let_def split: option.split)

lemma reject_single: "reject_hunk L w path h t = reject_hunks_batch L w path [h] t"
  by (simp add: reject_hunk_def reject_hunks_batch_def reject_step_of_def Let_def
      split: option.split file_content.split)

definition counted :: "hunk list \<Rightarrow> tracker \<Rightarrow> tracker \<Rightarrow> bool" where
  "counted hs t u \<longleftrightarrow> ht_files u = ht_files t \<and> ht_turns u = fold turns_remove hs (ht_turns t) \<and> ht_drawn u = ht_drawn t"

lemma count_action_core [simp]:
  "ht_files (count_action a h t) = ht_files t" "ht_turns (count_action a h t) = turns_remove h (ht_turns t)"
  "ht_drawn (count_action a h t) = ht_drawn t"
  by (simp_all add: count_action_def)

lemma counted_fold: "counted hs t (fold (count_action a) hs t)"
proof (induction hs arbitrary: t)
  case (Cons h hs)
  have "counted hs (count_action a h t) (fold (count_action a) hs (count_action a h t))" by (rule Cons.IH)
  then show ?case by (simp add: counted_def)
qed (simp add: counted_def)

lemma counted_file: "counted hs t u \<Longrightarrow> file_of u p = file_of t p"
  by (simp add: counted_def file_of_def)

lemma pending_file: "file_of t p = Some s \<Longrightarrow> pending_of (ht_files t) p = fh_hunks s"
  by (simp add: pending_of_def file_of_def)

lemma wf_acted:
  assumes wf: "wf L full t" and c: "counted hs t u" and s: "file_of t path = Some s"
    and hs: "set hs \<subseteq> set (fh_hunks s)" and rest: "fh_hunks s' = without hs (fh_hunks s)"
    and sound: "path \<notin> Y \<Longrightarrow> file_sound L path s'"
  shows "core_wf L full Y (put_file path s' u)"
proof -
  have ok: "core_ok L {} (ht_files t) (ht_turns t) (ht_drawn t)" using wf by (simp add: core_wf_def)
  have sub: "set (fh_hunks s') \<subseteq> set (pending_of (ht_files t) path)"
    by (auto simp: rest without_def pending_file[OF s])
  have d: "distinct (map hk_id (fh_hunks s'))"
    using core_okD(2)[OF ok, of path] by (simp add: rest without_def pending_file[OF s] distinct_map_filter)
  have "core_ok L Y (ht_files (put_file path s' u)) (ht_turns (put_file path s' u)) (ht_drawn (put_file path s' u))"
    using core_put[OF core_unlist[OF ok, of hs] sub d] sound c by (simp add: counted_def)
  moreover have "all_indexed (ht_files (put_file path s' u)) (ht_turns (put_file path s' u))" if full
  proof -
    have ix: "all_indexed (ht_files t) (ht_turns t)" using wf that by (simp add: core_wf_def)
    have "all_indexed (AList.update path s' (ht_files t)) (fold turns_remove hs (ht_turns t))"
      using ix
    proof (rule indexed_replace)
      fix q h k
      assume q: "q \<noteq> path" "h \<in> set (pending_of (ht_files t) q)" "indexed_in (ht_turns t) (hk_id h) k"
      have "hk_id h \<notin> hk_id ` set hs"
        using core_okD(5)[OF ok q(1)] q(2) hs by (auto simp: pending_ids_def pending_file[OF s])
      then show "indexed_in (fold turns_remove hs (ht_turns t)) (hk_id h) k"
        using q(3) listed_id by (auto simp: indexed_removes)
    next
      fix h k
      assume h: "h \<in> set (fh_hunks s')" "prompt_of (hk_source h) = Some k"
      then have "hk_id h \<notin> hk_id ` set hs" by (auto simp: rest without_def)
      then show "indexed_in (fold turns_remove hs (ht_turns t)) (hk_id h) k"
        using h sub all_indexedD[OF ix] listed_id by (auto simp: indexed_removes)
    qed
    then show ?thesis using c by (simp add: counted_def)
  qed
  ultimately show ?thesis by (simp add: core_wf_def)
qed

lemma pending_kinds:
  assumes "file_sound L p s" "fh_hunks s \<noteq> []"
  obtains (changed) b c where "fh_baseline s = Full b" "fh_current s = Full c"
  | (deleted) b h where "fh_baseline s = Full b" "fh_current s = Missing" "fh_hunks s = [h]"
  | (created) c h where "fh_baseline s = Missing" "fh_current s = Full c" "fh_hunks s = [h]"
proof -
  have e: "map hunk_shape (fh_hunks s) = map hunk_shape (file_diff L 0 0 p (fh_baseline s) (fh_current s) ExternalEdit)"
    using assms by (simp add: file_sound_def)
  then have l: "length (fh_hunks s) = length (file_diff L 0 0 p (fh_baseline s) (fh_current s) ExternalEdit)"
    by (rule map_eq_imp_length_eq)
  show ?thesis
  proof (cases "fh_baseline s")
    case Missing
    then have "\<exists>c. fh_current s = Full c \<and> length (fh_hunks s) = 1"
      using l assms(2) by (auto simp: file_diff_def split: file_content.splits if_splits)
    then show ?thesis using created Missing by (auto simp: length_Suc_conv)
  next
    case (Full b)
    show ?thesis
    proof (cases "fh_current s")
      case Missing
      then have "length (fh_hunks s) = 1" using l assms(2) Full by (simp add: file_diff_def split: if_splits)
      then show ?thesis using deleted Missing Full by (auto simp: length_Suc_conv)
    qed (use l assms(2) changed Full in \<open>auto simp: file_diff_def\<close>)
  qed (use l assms(2) in \<open>auto simp: file_diff_def\<close>)
qed

lemma without_single: "hs \<noteq> [] \<Longrightarrow> set hs \<subseteq> set [h] \<Longrightarrow> without hs [h] = []"
  by (cases hs) (auto simp: without_def)

lemma wf_accept_batch:
  assumes inj: "inj (hl_uuid L)" and wf: "wf L full t" and c: "counted hs t u" and s: "file_of t path = Some s"
    and hs: "hs \<noteq> []" "set hs \<subseteq> set (fh_hunks s)"
  shows "wf L full (accept_hunks_batch L w path hs u)"
proof -
  have sound: "file_sound L path s" by (rule file_sound_of[OF wf s])
  have su: "file_of u path = Some s" using counted_file[OF c] s by simp
  have put: "core_wf L full {path} (put_file path (s\<lparr>fh_baseline := b, fh_accepted := True,
      fh_hunks := without hs (fh_hunks s)\<rparr>) u)" for b
    by (rule wf_acted[OF wf c s hs(2)]) simp_all
  show ?thesis
  proof (cases "fh_baseline s = Missing")
    case True
    have some: "fh_hunks s \<noteq> []" using hs by auto
    obtain h where "fh_hunks s = [h]"
      by (rule pending_kinds[OF sound some]) (use True in simp_all)
    then have "without hs (fh_hunks s) = []" using without_single hs by simp
    then have "wf L full (put_file path (s\<lparr>fh_baseline := fh_current s, fh_accepted := True,
        fh_hunks := without hs (fh_hunks s)\<rparr>) u)"
      by (intro wf_acted[OF wf c s hs(2)]) (simp_all add: file_sound_none)
    then show ?thesis using True hs(1) su by (simp add: accept_hunks_batch_def Let_def)
  next
    case False
    then show ?thesis using hs(1) su put by (simp add: accept_hunks_batch_def Let_def wf_recompute[OF inj])
  qed
qed

lemma wf_counted: "core_wf L full X t \<Longrightarrow> counted hs t u \<Longrightarrow> core_wf L False X u"
  by (simp add: core_wf_def counted_def core_unlist)

lemma wf_reject_batch:
  assumes inj: "inj (hl_uuid L)" and wf: "wf L full t" and c: "counted hs t u" and s: "file_of t path = Some s"
    and hs: "hs \<noteq> []" "set hs \<subseteq> set (fh_hunks s)"
    and disk: "full \<Longrightarrow> hw_write_ok w path \<and> hw_remove_ok w path"
  shows "wf L full (fst (reject_hunks_batch L w path hs u))"
proof -
  have sound: "file_sound L path s" by (rule file_sound_of[OF wf s])
  have su: "file_of u path = Some s" using counted_file[OF c] s by simp
  have unchanged: "wf L full u" if "\<not> full" using wf_counted[OF wf c] that by simp
  have some: "fh_hunks s \<noteq> []" using hs by auto
  show ?thesis
  proof (rule pending_kinds[OF sound some], goal_cases changed deleted created)
    case (changed b y)
    have put: "core_wf L full {path} (put_file path (s\<lparr>fh_current := d, fh_hunks := without hs (fh_hunks s)\<rparr>) u)" for d
      by (rule wf_acted[OF wf c s hs(2)]) simp_all
    show ?thesis
      using changed hs(1) su put disk unchanged
      by (cases full) (auto simp: reject_hunks_batch_def Let_def wf_recompute[OF inj])
  next
    case (deleted b h)
    then have "without hs (fh_hunks s) = []" using without_single hs by simp
    then have "wf L full (put_file path (s\<lparr>fh_current := d, fh_hunks := without hs (fh_hunks s)\<rparr>) u)" for d
      by (intro wf_acted[OF wf c s hs(2)]) (simp_all add: file_sound_none)
    then show ?thesis using deleted(1,2) hs(1) su disk unchanged
      by (cases full) (auto simp: reject_hunks_batch_def Let_def)
  next
    case (created y h)
    then have "without hs (fh_hunks s) = []" using without_single hs by simp
    then have "wf L full (put_file path (s\<lparr>fh_current := d, fh_hunks := without hs (fh_hunks s)\<rparr>) u)" for d
      by (intro wf_acted[OF wf c s hs(2)]) (simp_all add: file_sound_none)
    then show ?thesis using created(1,2) hs(1) su disk unchanged
      by (cases full) (auto simp: reject_hunks_batch_def Let_def)
  qed
qed

text \<open>Acting on a file leaves the other files alone.\<close>

lemma file_of_put [simp]: "file_of (put_file p s t) q = (if q = p then Some s else file_of t q)"
  by (simp add: file_of_def update_conv')

lemma file_of_send [simp]:
  "file_of (send_event e t) q = file_of t q" "file_of (gone_events p r hs t) q = file_of t q"
  "file_of (emit_hunk_diff_events p os ns src t) q = file_of t q"
  by (simp_all add: file_of_def)

lemma file_of_fields [simp]:
  "file_of (t\<lparr>ht_turns := a\<rparr>) q = file_of t q" "file_of (t\<lparr>ht_drawn := n\<rparr>) q = file_of t q"
  by (simp_all add: file_of_def)

lemma recompute_other: "q \<noteq> p \<Longrightarrow> file_of (recompute_hunks L now p c src t) q = file_of t q"
  by (simp add: recompute_hunks_def Let_def split: option.split)

lemma accept_other: "q \<noteq> p \<Longrightarrow> file_of (accept_hunks_batch L w p hs t) q = file_of t q"
  by (simp add: accept_hunks_batch_def Let_def recompute_other split: option.split)

lemma reject_other: "q \<noteq> p \<Longrightarrow> file_of (fst (reject_hunks_batch L w p hs t)) q = file_of t q"
  by (simp add: reject_hunks_batch_def Let_def recompute_other split: option.split file_content.split)

definition batch_target :: "tracker \<Rightarrow> string \<times> hunk list \<Rightarrow> bool" where
  "batch_target t f \<longleftrightarrow> snd f \<noteq> [] \<and> (case file_of t (fst f) of None \<Rightarrow> False | Some s \<Rightarrow> set (snd f) \<subseteq> set (fh_hunks s))"

lemma batch_target_other: "file_of u (fst f) = file_of t (fst f) \<Longrightarrow> batch_target t f \<Longrightarrow> batch_target u f"
  by (simp add: batch_target_def)

lemma wf_action_batch:
  assumes inj: "inj (hl_uuid L)" and disk: "full \<Longrightarrow> \<forall>p. hw_write_ok w p \<and> hw_remove_ok w p"
  shows "wf L full t \<Longrightarrow> distinct (map fst fs) \<Longrightarrow> list_all (batch_target t) fs \<Longrightarrow>
    wf L full (fst (apply_action_batch L w fs a t))"
proof (induction fs arbitrary: t)
  case (Cons f fs)
  obtain path hs where f: "f = (path, hs)" by fastforce
  let ?u = "fold (count_action a) hs t"
  obtain s where s: "file_of t path = Some s" "hs \<noteq> []" "set hs \<subseteq> set (fh_hunks s)"
    using Cons.prems(3) f by (auto simp: batch_target_def split: option.splits)
  have c: "counted hs t ?u" by (rule counted_fold)
  have rest: "list_all (batch_target v) fs" if v: "\<And>q. q \<noteq> path \<Longrightarrow> file_of v q = file_of ?u q" for v
  proof -
    have "batch_target v g" if "g \<in> set fs" for g
    proof -
      have "fst g \<noteq> path" using Cons.prems(2) f that by force
      then show ?thesis
        using batch_target_other[of v g t] v counted_file[OF c] Cons.prems(3) that by (simp add: list_all_iff)
    qed
    then show ?thesis by (simp add: list_all_iff)
  qed
  show ?case
  proof (cases a)
    case AcceptHunk
    let ?v = "accept_hunks_batch L w path hs ?u"
    have "wf L full ?v" by (rule wf_accept_batch[OF inj Cons.prems(1) c s])
    then have "wf L full (fst (apply_action_batch L w fs a ?v))"
      using Cons.prems(2) f by (intro Cons.IH) (simp_all add: rest accept_other)
    then show ?thesis using f AcceptHunk by (simp add: Let_def split_beta)
  next
    case RejectHunk
    obtain v es r where v: "reject_hunks_batch L w path hs ?u = (v, es, r)" by (rule prod_cases3)
    have "wf L full v" using wf_reject_batch[OF inj Cons.prems(1) c s, of w] disk v by fastforce
    moreover have "wf L full (fst (apply_action_batch L w fs a v))"
      using Cons.prems(2) f calculation reject_other[of _ path L w hs ?u] v by (intro Cons.IH) (auto intro!: rest)
    ultimately show ?thesis using f RejectHunk v by (simp add: Let_def split_beta split: sum.split)
  qed
qed simp

end
