(* ===== verification/Hunk_Runs.thy ===== *)
theory Hunk_Runs
  imports Hunk_Handlers
begin

text \<open>
  The states a hunk tracker reaches, from its start by commands and batches of notifications, and what holds in all
  of them.
\<close>

subsection \<open>Actions and changes of directory\<close>

lemma find_hunk_in:
  "find_hunk hid fs = Some (p, h) \<Longrightarrow> \<exists>s. (p, s) \<in> set fs \<and> h \<in> set (fh_hunks s) \<and> hk_id h = hid"
proof (induction fs)
  case (Cons f fs)
  then show ?case
    by (cases f) (auto simp: find_Some_iff split: option.splits)
qed simp

lemma wf_keys: "wf L full t \<Longrightarrow> distinct (map fst (ht_files t))"
  using core_okD(1) by (auto simp: core_wf_def)

lemma wf_hunk_action:
  assumes inj: "inj (hl_uuid L)" and wf: "wf L full t"
    and disk: "full \<Longrightarrow> \<forall>p. hw_write_ok w p \<and> hw_remove_ok w p"
  shows "wf L full (fst (apply_hunk_action L w hid a t))"
proof (cases "find_hunk hid (ht_files t)")
  case None
  then show ?thesis using wf by (simp add: apply_hunk_action_def)
next
  case (Some ph)
  obtain path h where ph: "ph = (path, h)" by fastforce
  obtain s where "(path, s) \<in> set (ht_files t)" "h \<in> set (fh_hunks s)" using find_hunk_in Some ph by blast
  then have s: "file_of t path = Some s" "[h] \<noteq> []" "set [h] \<subseteq> set (fh_hunks s)"
    using wf_keys[OF wf] by (simp_all add: file_of_def)
  have c: "counted [h] t (count_action a h t)" using counted_fold[of "[h]" t a] by simp
  show ?thesis
    using Some ph wf_accept_batch[OF inj wf c s, of w] wf_reject_batch[OF inj wf c s, of w] disk
    by (cases a) (simp_all add: apply_hunk_action_def accept_single reject_single)
qed

lemma wf_file_action:
  assumes "inj (hl_uuid L)" "wf L full t" "full \<Longrightarrow> \<forall>p. hw_write_ok w p \<and> hw_remove_ok w p"
  shows "wf L full (fst (apply_file_action L w path a t))"
proof (cases "file_of t path")
  case None
  then show ?thesis using assms(2) by (simp add: apply_file_action_def)
next
  case (Some s)
  have "wf L full (fst (apply_action_batch L w [(path, fh_hunks s)] a t))" if "fh_hunks s \<noteq> []"
    by (rule wf_action_batch[OF assms(1,3,2)]) (use Some that in \<open>simp_all add: batch_target_def\<close>)
  then show ?thesis using Some assms(2) by (simp only: apply_file_action_def option.case split: if_split) auto
qed

lemma targets_of_files:
  assumes "wf L full t" "\<And>p s. set (f s) \<subseteq> set (fh_hunks s)"
    and "set fs \<subseteq> set (ht_files t)" "\<And>p s. (p, s) \<in> set fs \<Longrightarrow> f s \<noteq> []"
  shows "list_all (batch_target t) (map (\<lambda>(p, s). (p, f s)) fs)"
proof -
  have "file_of t p = Some s" if "(p, s) \<in> set fs" for p s
    using that assms(3) wf_keys[OF assms(1)] by (auto simp: file_of_def)
  then show ?thesis using assms(2,4) by (auto simp: list_all_iff batch_target_def)
qed

lemma wf_all_action:
  assumes "inj (hl_uuid L)" "wf L full t" "full \<Longrightarrow> \<forall>p. hw_write_ok w p \<and> hw_remove_ok w p"
  shows "wf L full (fst (apply_all_action L w a t))"
  unfolding apply_all_action_def
proof (rule wf_action_batch[OF assms(1,3,2)])
  let ?fs = "filter (\<lambda>(p, s). fh_hunks s \<noteq> []) (ht_files t)"
  show "distinct (map fst (map (\<lambda>(p, s). (p, fh_hunks s)) ?fs))"
    using wf_keys[OF assms(2)] by (simp add: case_prod_beta comp_def distinct_map_filter)
  show "list_all (batch_target t) (map (\<lambda>(p, s). (p, fh_hunks s)) ?fs)"
    by (rule targets_of_files[OF assms(2)]) auto
qed

lemma filter_map_pairs:
  "filter (\<lambda>(_, hs). hs \<noteq> []) (map (\<lambda>(p, s). (p, f s)) fs) = map (\<lambda>(p, s). (p, f s)) (filter (\<lambda>(p, s). f s \<noteq> []) fs)"
  by (induction fs) auto

lemma wf_turn_action:
  assumes "inj (hl_uuid L)" "wf L full t" "full \<Longrightarrow> \<forall>p. hw_write_ok w p \<and> hw_remove_ok w p"
  shows "wf L full (fst (apply_turn_action L w k a t))"
  unfolding apply_turn_action_def filter_map_pairs
proof (rule wf_action_batch[OF assms(1,3,2)])
  let ?fs = "filter (\<lambda>(p, s). turn_hunks k s \<noteq> []) (ht_files t)"
  show "distinct (map fst (map (\<lambda>(p, s). (p, turn_hunks k s)) ?fs))"
    using wf_keys[OF assms(2)] by (simp add: case_prod_beta comp_def distinct_map_filter)
  show "list_all (batch_target t) (map (\<lambda>(p, s). (p, turn_hunks k s)) ?fs)"
    by (rule targets_of_files[OF assms(2)]) (auto simp: turn_hunks_def)
qed

text \<open>Moving the files to other paths, each to one of its own.\<close>

definition move_shape :: "string \<Rightarrow> string \<times> line_info \<times> string option \<times> string \<Rightarrow> string \<times> line_info \<times> string option \<times> string" where
  "move_shape q x = (q, snd x)"

lemma shape_moved: "hunk_shape (h\<lparr>hk_path := q\<rparr>) = move_shape q (hunk_shape h)"
  by (simp add: hunk_shape_def move_shape_def)

lemma builders_moved: "map (builder_shape q) bs = map (move_shape q) (map (builder_shape p) bs)"
  by (simp add: builder_shape_def move_shape_def)

lemma compute_moved:
  "map hunk_shape (compute_hunks d u 0 0 q b c ExternalEdit) =
     map (move_shape q) (map hunk_shape (compute_hunks d u 0 0 p b c ExternalEdit))"
  unfolding compute_hunks_def
  by (simp add: shapes_build_all builders_moved[of q _ p] split: option.split del: map_map)

lemma file_diff_moved:
  "map hunk_shape (file_diff L 0 0 q b c ExternalEdit) =
     map (move_shape q) (map hunk_shape (file_diff L 0 0 p b c ExternalEdit))"
  using compute_moved[of "hl_differ L" "hl_uuid L" q _ _ p]
  by (simp add: file_diff_def file_deleted_def file_created_def hunk_shape_def move_shape_def
      split: file_content.split del: map_map)

lemma file_sound_moved:
  assumes "file_sound L p s"
  shows "file_sound L q (set_hunk_paths q s)"
proof (cases "fh_hunks s = []")
  case True
  then show ?thesis by (simp add: file_sound_def set_hunk_paths_def)
next
  case False
  then have "map hunk_shape (fh_hunks s) = map hunk_shape (file_diff L 0 0 p (fh_baseline s) (fh_current s) ExternalEdit)"
    using assms by (simp add: file_sound_def)
  then have "map (move_shape q) (map hunk_shape (fh_hunks s)) =
      map (move_shape q) (map hunk_shape (file_diff L 0 0 p (fh_baseline s) (fh_current s) ExternalEdit))" by simp
  then show ?thesis
    using file_diff_moved[of L q "fh_baseline s" "fh_current s" p]
    by (simp add: file_sound_def set_hunk_paths_def shape_moved comp_def)
qed

lemma update_new: "k \<notin> fst ` set m \<Longrightarrow> AList.update k v m = m @ [(k, v)]"
  by (induction m) auto

lemma collect_distinct: "distinct (map fst ps) \<Longrightarrow> collect_files ps = ps"
proof -
  have "distinct (map fst (m @ ps)) \<Longrightarrow> fold (\<lambda>(p, s) m. AList.update p s m) ps m = m @ ps" for m :: "(string \<times> file_hunks) list"
    by (induction ps arbitrary: m) (auto simp: update_new)
  then show "distinct (map fst ps) \<Longrightarrow> collect_files ps = ps" by (simp add: collect_files_def)
qed

lemma insert_rekeyed_distinct: "distinct (map fst (m @ ps)) \<Longrightarrow> fold insert_rekeyed ps m = m @ ps"
proof (induction ps arbitrary: m)
  case (Cons x ps)
  have x: "fst x \<notin> fst ` set m" using Cons.prems by auto
  then have "map_of m (fst x) = None" by (simp add: map_of_eq_None_iff)
  then have "insert_rekeyed x m = m @ [x]" using x by (simp add: insert_rekeyed_def update_new)
  then show ?case using Cons.IH[of "m @ [x]"] Cons.prems by simp
qed simp

definition moved_file :: "(string \<Rightarrow> string) \<Rightarrow> string \<times> file_hunks \<Rightarrow> string \<times> file_hunks" where
  "moved_file r f = (r (fst f), set_hunk_paths (r (fst f)) (snd f))"

lemma moved_pending:
  assumes "distinct (map fst fs)" "distinct (map fst gs)" "set gs = moved_file r ` set fs"
  shows "pending_of gs q = []
    \<or> (\<exists>p. q = r p \<and> pending_of gs q = map (\<lambda>h. h\<lparr>hk_path := q\<rparr>) (pending_of fs p))"
proof (cases "map_of gs q")
  case None
  then show ?thesis by (simp add: pending_of_def)
next
  case (Some s)
  then have "(q, s) \<in> moved_file r ` set fs" using map_of_SomeD assms(3) by metis
  then obtain p x where p: "(p, x) \<in> set fs" "q = r p" "s = set_hunk_paths q x" by (auto simp: moved_file_def)
  then have "map_of fs p = Some x" using assms(1) by simp
  then show ?thesis using p Some by (auto simp: pending_of_def set_hunk_paths_def)
qed

lemma core_moved:
  assumes ok: "core_ok L {} fs ti n" and d: "distinct (map fst gs)" and e: "set gs = moved_file r ` set fs"
  shows "core_ok L {} gs ti n"
    and "all_indexed fs ti \<Longrightarrow> all_indexed gs ti"
proof -
  note pend = moved_pending[OF core_okD(1)[OF ok] d e]
  have ids: "pending_ids gs q = {} \<or> (\<exists>p. q = r p \<and> pending_ids gs q = pending_ids fs p)" for q
    using pend[of q] by (auto simp: pending_ids_def image_image)
  have hunk: "\<exists>p x. x \<in> set (pending_of fs p) \<and> hk_id x = hk_id h \<and> hk_source x = hk_source h"
    if hg: "h \<in> set (pending_of gs q)" for h q
  proof -
    obtain p where "pending_of gs q = map (\<lambda>h. h\<lparr>hk_path := q\<rparr>) (pending_of fs p)"
      using pend[of q] hg by auto
    then obtain x where "x \<in> set (pending_of fs p)" "h = x\<lparr>hk_path := q\<rparr>" using hg by auto
    then show ?thesis by (intro exI[of _ p] exI[of _ x]) simp
  qed
  show "core_ok L {} gs ti n"
  proof (rule core_okI, goal_cases)
    case 1
    show ?case by (rule d)
  next
    case (2 q)
    show ?case using pend[of q] core_okD(2)[OF ok] by (auto simp: comp_def)
  next
    case (3 q)
    show ?case using ids[of q] core_okD(3)[OF ok] by auto
  next
    case (4 q s)
    then have "(q, s) \<in> moved_file r ` set fs" using map_of_SomeD e by metis
    then obtain p x where p: "(p, x) \<in> set fs" "s = set_hunk_paths q x" by (auto simp: moved_file_def)
    then have "file_sound L p x" using core_okD(1,4)[OF ok] by simp
    then show ?case using p file_sound_moved by simp
  next
    case (5 q q')
    show ?case
    proof (cases "pending_ids gs q = {} \<or> pending_ids gs q' = {}")
      case False
      obtain p where p: "q = r p" "pending_ids gs q = pending_ids fs p" using ids[of q] False by auto
      obtain p' where p': "q' = r p'" "pending_ids gs q' = pending_ids fs p'" using ids[of q'] False by auto
      have "p \<noteq> p'" using 5 p p' by auto
      then show ?thesis unfolding p(2) p'(2) by (rule core_okD(5)[OF ok])
    qed auto
  next
    case (6 i k)
    then show ?case by (rule core_okD(6)[OF ok])
  next
    case (7 q h k)
    obtain p x where x: "x \<in> set (pending_of fs p)" "hk_id x = hk_id h" "hk_source x = hk_source h"
      using hunk[OF 7(1)] by blast
    then show ?case using core_okD(7)[OF ok x(1), of k] 7(2) by simp
  qed
  show "all_indexed gs ti" if ix: "all_indexed fs ti"
    unfolding all_indexed_def
  proof (intro allI impI)
    fix q h k
    assume h: "h \<in> set (pending_of gs q)" "prompt_of (hk_source h) = Some k"
    obtain p x where x: "x \<in> set (pending_of fs p)" "hk_id x = hk_id h" "hk_source x = hk_source h"
      using hunk[OF h(1)] by blast
    then show "indexed_in ti (hk_id h) k" using all_indexedD[OF ix x(1), of k] h(2) by simp
  qed
qed

text \<open>The paths of the files after the change of directory are distinct.\<close>

definition paths_stay_apart :: "string \<Rightarrow> tracker \<Rightarrow> bool" where
  "paths_stay_apart dir t \<longleftrightarrow> distinct (map (\<lambda>f. rekey_path (ht_working_dir t) dir (fst f)) (ht_files t))"

lemma rekeyed_files:
  assumes "paths_stay_apart dir t" "dir \<noteq> ht_working_dir t"
  shows "distinct (map fst (ht_files (rekey_paths_for_working_dir dir t)))"
    and "set (ht_files (rekey_paths_for_working_dir dir t)) =
      moved_file (rekey_path (ht_working_dir t) dir) ` set (ht_files t)"
proof -
  let ?r = "rekey_path (ht_working_dir t) dir"
  let ?in = "\<lambda>f :: string \<times> file_hunks. path_starts_with (fst f) dir"
  let ?as = "map (moved_file ?r) (filter ?in (ht_files t))"
  let ?ms = "map (moved_file ?r) (filter (\<lambda>f. \<not> ?in f) (ht_files t))"
  have inj: "inj_on (\<lambda>f. ?r (fst f)) (set (ht_files t))" and dis: "distinct (ht_files t)"
    using assms(1) by (auto simp: paths_stay_apart_def distinct_map)
  have fst_moved: "map fst (map (moved_file ?r) xs) = map (\<lambda>f. ?r (fst f)) xs" for xs by (simp add: moved_file_def)
  have d: "distinct (map fst (?as @ ?ms))"
    unfolding map_append fst_moved
    using dis inj by (auto simp: distinct_map dest: inj_onD intro!: inj_on_subset[OF inj])
  have "ht_files (rekey_paths_for_working_dir dir t) = fold insert_rekeyed ?ms (collect_files ?as)"
    using assms(2) by (simp add: rekey_paths_for_working_dir_def Let_def moved_file_def[abs_def] case_prod_beta')
  also have "\<dots> = ?as @ ?ms" using d by (simp add: collect_distinct insert_rekeyed_distinct)
  finally have e: "ht_files (rekey_paths_for_working_dir dir t) = ?as @ ?ms" .
  show "distinct (map fst (ht_files (rekey_paths_for_working_dir dir t)))" unfolding e by (rule d)
  show "set (ht_files (rekey_paths_for_working_dir dir t)) = moved_file ?r ` set (ht_files t)" unfolding e by auto
qed

lemma wf_set_working_dir:
  assumes "wf L full t" "paths_stay_apart dir t"
  shows "wf L full (set_working_dir dir t)"
proof (cases "dir = ht_working_dir t")
  case True
  then show ?thesis using assms(1) by (simp add: set_working_dir_def rekey_paths_for_working_dir_def core_wf_def)
next
  case False
  note f = rekeyed_files[OF assms(2) False]
  have "ht_turns (rekey_paths_for_working_dir dir t) = ht_turns t" "ht_drawn (rekey_paths_for_working_dir dir t) = ht_drawn t"
    using False by (simp_all add: rekey_paths_for_working_dir_def Let_def)
  then show ?thesis
    using core_moved[OF _ f, of L "ht_turns t" "ht_drawn t"] assms(1) by (simp add: core_wf_def set_working_dir_def)
qed

subsection \<open>Ids are never given out again\<close>

lemma same_core_drawn: "same_core t u \<Longrightarrow> ht_drawn u = ht_drawn t"
  by (simp add: same_core_def)

lemma drawn_reads:
  "ht_drawn (snd (read_baseline w p t)) = ht_drawn t"
  "ht_drawn (snd (read_baselines_batch w ps t)) = ht_drawn t"
  "ht_drawn (snd (read_repo_sync_state w t)) = ht_drawn t"
  "ht_drawn (snd (baseline_or_read w pre p t)) = ht_drawn t"
  by (metis prod.collapse same_core_drawn read_baseline_core read_batch_core read_sync_core baseline_or_read_core)+

lemma drawn_recompute: "n \<le> ht_drawn t \<Longrightarrow> n \<le> ht_drawn (recompute_hunks L now p c src t)"
  by (simp add: recompute_hunks_def Let_def split: option.split)

lemma drawn_external: "n \<le> ht_drawn t \<Longrightarrow> n \<le> ht_drawn (recompute_external L w p c t)"
  by (simp add: recompute_external_def drawn_recompute)

lemma drawn_add_external [simp]: "ht_drawn (add_external p b c t) = ht_drawn t"
  by (simp add: add_external_def)

lemma drawn_record_write: "n \<le> ht_drawn t \<Longrightarrow> n \<le> ht_drawn (record_agent_write L w p c k prev t)"
  using drawn_reads(1)[of w p t]
  by (auto simp: record_agent_write_def Let_def split_beta split: option.split intro!: drawn_recompute)

lemma drawn_process_change: "n \<le> ht_drawn t \<Longrightarrow> n \<le> ht_drawn (process_file_change L w p pre t)"
  using drawn_reads(4)[of w pre p t]
  by (auto simp: process_file_change_def Let_def split_beta split: option.split intro!: drawn_recompute drawn_external)

lemma drawn_change_all: "n \<le> ht_drawn t \<Longrightarrow> n \<le> ht_drawn (change_all L w bs ps t)"
  by (induction ps arbitrary: bs t) (simp_all add: drawn_process_change)

lemma drawn_file_change: "n \<le> ht_drawn t \<Longrightarrow> n \<le> ht_drawn (handle_file_change L w p t)"
  by (simp add: handle_file_change_def drawn_process_change)

lemma drawn_file_deleted: "n \<le> ht_drawn t \<Longrightarrow> n \<le> ht_drawn (handle_file_deleted L w p t)"
  using drawn_reads(1)[of w p t]
  by (auto simp: handle_file_deleted_def Let_def split_beta intro!: drawn_recompute drawn_external drawn_file_change)

lemma drawn_fold:
  assumes "\<And>x t. n \<le> ht_drawn t \<Longrightarrow> n \<le> ht_drawn (f x t)"
  shows "n \<le> ht_drawn t \<Longrightarrow> n \<le> ht_drawn (fold f xs t)"
  by (induction xs arbitrary: t) (simp_all add: assms)

lemma drawn_refresh_dirty: "n \<le> ht_drawn t \<Longrightarrow> n \<le> ht_drawn (refresh_git_dirty_cache L w scope t)"
  by (auto simp: refresh_git_dirty_cache_def Let_def split_beta intro!: drawn_fold drawn_file_change)

lemma drawn_retire [simp]: "ht_drawn (retire_hunks p hs t) = ht_drawn t"
  by (simp add: retire_hunks_def)

lemma drawn_refresh_file: "n \<le> ht_drawn t \<Longrightarrow> n \<le> ht_drawn (refresh_file L w bs p t)"
  by (auto simp: refresh_file_def Let_def split: option.split intro!: drawn_recompute)

lemma drawn_refresh_caches: "n \<le> ht_drawn t \<Longrightarrow> n \<le> ht_drawn (refresh_caches L w t)"
  by (auto simp: refresh_caches_def Let_def intro!: drawn_refresh_dirty)

lemma drawn_refresh_all: "n \<le> ht_drawn t \<Longrightarrow> n \<le> ht_drawn (refresh_all_baselines_except L w skip t)"
proof -
  assume n: "n \<le> ht_drawn t"
  let ?t1 = "snd (read_repo_sync_state w t)"
  have t1: "n \<le> ht_drawn ?t1" using n drawn_reads(3)[of w t] by simp
  show ?thesis
    using t1 n drawn_reads(2)
    by (auto simp: refresh_all_baselines_except_def Let_def split_beta split: option.split
        intro!: drawn_fold drawn_refresh_file drawn_refresh_caches)
qed

lemma drawn_reset_baseline [simp]: "ht_drawn (reset_baseline p t) = ht_drawn t"
  by (simp add: reset_baseline_def split: option.split)

lemma drawn_set_mode: "n \<le> ht_drawn t \<Longrightarrow> n \<le> ht_drawn (set_mode L w m t)"
  by (auto simp: set_mode_def Let_def untrack_file_def split: option.split intro!: drawn_refresh_dirty drawn_fold)

lemma drawn_set_dir [simp]: "ht_drawn (set_working_dir d t) = ht_drawn t"
  by (simp add: set_working_dir_def rekey_paths_for_working_dir_def Let_def)

lemma drawn_counts [simp]: "ht_drawn (fold (count_action a) hs t) = ht_drawn t"
  by (induction hs arbitrary: t) simp_all

lemma drawn_accept_hunk: "n \<le> ht_drawn t \<Longrightarrow> n \<le> ht_drawn (accept_hunk L w p h t)"
  by (auto simp: accept_hunk_def Let_def split: option.split intro!: drawn_recompute)

lemma drawn_reject_hunk: "n \<le> ht_drawn t \<Longrightarrow> n \<le> ht_drawn (fst (reject_hunk L w p h t))"
  by (auto simp: reject_hunk_def Let_def split: option.split reject_step.split intro!: drawn_recompute)

lemma drawn_accept_batch: "n \<le> ht_drawn t \<Longrightarrow> n \<le> ht_drawn (accept_hunks_batch L w p hs t)"
  by (auto simp: accept_hunks_batch_def Let_def split: option.split intro!: drawn_recompute)

lemma drawn_reject_batch: "n \<le> ht_drawn t \<Longrightarrow> n \<le> ht_drawn (fst (reject_hunks_batch L w p hs t))"
  by (auto simp: reject_hunks_batch_def Let_def split: option.split file_content.split intro!: drawn_recompute)

lemma drawn_hunk_action: "n \<le> ht_drawn t \<Longrightarrow> n \<le> ht_drawn (fst (apply_hunk_action L w i a t))"
  by (auto simp: apply_hunk_action_def Let_def split: option.split hunk_action.split
      intro!: drawn_accept_hunk drawn_reject_hunk)

lemma drawn_action_batch: "n \<le> ht_drawn t \<Longrightarrow> n \<le> ht_drawn (fst (apply_action_batch L w fs a t))"
proof (induction fs arbitrary: t)
  case (Cons f fs)
  obtain p hs where f: "f = (p, hs)" by fastforce
  let ?t1 = "fold (count_action a) hs t"
  have t1: "n \<le> ht_drawn ?t1" using Cons.prems by simp
  then show ?case
    using Cons.IH[OF drawn_accept_batch[OF t1, of L w p hs]] drawn_reject_batch[OF t1, of L w p hs]
      Cons.IH[of "fst (reject_hunks_batch L w p hs ?t1)"]
    by (cases a) (auto simp: f Let_def split_beta split: sum.split)
qed simp

lemma drawn_actions:
  "n \<le> ht_drawn t \<Longrightarrow> n \<le> ht_drawn (fst (apply_file_action L w p a t))"
  "n \<le> ht_drawn t \<Longrightarrow> n \<le> ht_drawn (fst (apply_all_action L w a t))"
  "n \<le> ht_drawn t \<Longrightarrow> n \<le> ht_drawn (fst (apply_turn_action L w k a t))"
  by (auto simp: apply_file_action_def apply_all_action_def apply_turn_action_def simp del: apply_action_batch.simps
      split: option.split intro!: drawn_action_batch)

lemma acted_fst: "fst (acted_reply f x) = fst x"
  by (simp add: acted_reply_def split: prod.split)

lemma drawn_command: "ht_drawn t \<le> ht_drawn (fst (handle_command L w c t))"
  by (cases c)
    (simp_all add: acted_fst drawn_record_write drawn_file_change drawn_file_deleted drawn_refresh_dirty drawn_set_mode
      drawn_hunk_action drawn_actions refresh_all_baselines_def drawn_refresh_all restore_snapshot_def)

lemma drawn_refreshing: "n \<le> ht_drawn t \<Longrightarrow> n \<le> ht_drawn (fst (batch_files_refreshing L w as t))"
proof (induction "as" arbitrary: t)
  case (Cons x xs)
  obtain p a where x: "x = (p, a)" by fastforce
  show ?case
    using Cons by (cases a) (auto simp: x Let_def split_beta drawn_file_change drawn_file_deleted)
qed simp

lemma drawn_batch:
  assumes "cb_other_commands b = []"
  shows "ht_drawn t \<le> ht_drawn (fst (handle_coalesced_batch L w b t))"
proof -
  let ?t1 = "if cb_refresh_dirty b \<and> \<not> cb_refresh_all b then refresh_git_dirty_cache L w None t else t"
  have t1: "ht_drawn t \<le> ht_drawn ?t1" by (simp add: drawn_refresh_dirty)
  have "ht_drawn t \<le> ht_drawn (batch_files L w (cb_file_actions b) ?t1)"
    unfolding batch_files_def handle_file_changes_batch_def Let_def split_beta
    by (intro drawn_change_all) (simp add: drawn_reads drawn_fold drawn_file_deleted t1 split_beta)
  moreover have "ht_drawn t \<le> ht_drawn (refresh_all_baselines_except L w skip (fst (batch_files_refreshing L w (cb_file_actions b) ?t1)))" for skip
    by (intro drawn_refresh_all drawn_refreshing t1)
  ultimately show ?thesis
    by (cases "cb_refresh_dirty b"; cases "cb_refresh_all b")
      (simp_all add: handle_coalesced_batch_def assms Let_def split_beta)
qed

lemma wf_restored:
  assumes "wf L full t0" "ht_drawn t0 \<le> ht_drawn t"
  shows "wf L full (restore_snapshot (take_snapshot t0) t)"
proof -
  have ok: "core_ok L {} (ht_files t0) (ht_turns t0) (ht_drawn t0)" and full: "full \<longrightarrow> all_indexed (ht_files t0) (ht_turns t0)"
    using assms(1) by (simp_all add: core_wf_def)
  have "core_ok L {} (ht_files t0) (ht_turns t0) (ht_drawn t)"
    using core_okD[OF ok] drawn_ids_mono[OF assms(2), of L] by (intro core_okI) blast+
  then show ?thesis using full by (simp add: core_wf_def restore_snapshot_def take_snapshot_def)
qed

subsection \<open>Commands and runs\<close>

text \<open>
  What a run assumes of a command, besides the states \<open>ts\<close> before it: a snapshot that is restored is one the tracker itself took
  earlier; a change of directory does not bring two files together; and for a complete index the writes of the actions
  succeed.
\<close>

definition admissible :: "bool \<Rightarrow> hunk_world \<Rightarrow> hunk_command \<Rightarrow> tracker list \<Rightarrow> bool" where
  "admissible full w c ts \<longleftrightarrow>
     (case c of
        RestoreState sn \<Rightarrow> sn \<in> take_snapshot ` set ts
      | SetWorkingDir d \<Rightarrow> paths_stay_apart d (hd ts)
      | _ \<Rightarrow> full \<longrightarrow> (\<forall>p. hw_write_ok w p \<and> hw_remove_ok w p))"

text \<open>The states of a run, the latest first.\<close>

inductive tracker_run :: "hunk_lib \<Rightarrow> bool \<Rightarrow> tracker list \<Rightarrow> bool" for L :: hunk_lib and full :: bool where
  run_start: "tracker_run L full [actor_start L w dir m]"
| run_command: "tracker_run L full (t # ts) \<Longrightarrow> admissible full w c (t # ts) \<Longrightarrow> handle_command L w c t = (u, es, r)
    \<Longrightarrow> tracker_run L full (u # t # ts)"
| run_batch: "tracker_run L full (t # ts) \<Longrightarrow> cb_other_commands b = [] \<Longrightarrow> handle_coalesced_batch L w b t = (u, es, rs)
    \<Longrightarrow> tracker_run L full (u # t # ts)"

text \<open>A batch with other commands is the batch without them, and then they one by one.\<close>

lemma batch_then_commands:
  "handle_coalesced_batch L w b t =
     handle_all L w (cb_other_commands b) (fst (handle_coalesced_batch L w (b\<lparr>cb_other_commands := []\<rparr>) t))"
  by (simp add: handle_coalesced_batch_def Let_def)

lemma wf_empty: "wf L full (tracker_new dir m)"
  by (simp add: core_wf_def core_ok_def all_indexed_def tracker_new_def pending_of_def pending_ids_def indexed_in_def)

lemma wf_start: "inj (hl_uuid L) \<Longrightarrow> wf L full (actor_start L w dir m)"
  by (simp add: actor_start_def Let_def wf_empty wf_refresh_dirty)

lemma wf_command:
  assumes inj: "inj (hl_uuid L)" and wf: "wf L full t" and adm: "admissible full w c (t # ts)"
    and earlier: "\<And>x. x \<in> set (t # ts) \<Longrightarrow> wf L full x \<and> ht_drawn x \<le> ht_drawn t"
  shows "wf L full (fst (handle_command L w c t))"
proof (cases "\<exists>sn. c = RestoreState sn")
  case True
  then obtain sn where sn: "c = RestoreState sn" by blast
  then have "sn \<in> take_snapshot ` set (t # ts)" using adm by (simp add: admissible_def)
  then obtain x where x: "x \<in> set (t # ts)" "c = RestoreState (take_snapshot x)" using sn by blast
  then show ?thesis using wf_restored earlier[OF x(1)] by (simp add: x(2))
next
  case False
  then show ?thesis using adm wf
  by (cases c)
    (simp_all add: admissible_def acted_fst inj wf_record_agent_write wf_file_change wf_file_deleted wf_refresh_dirty
      wf_reset_baseline wf_set_mode wf_set_working_dir wf_hunk_action wf_file_action wf_all_action wf_turn_action
      refresh_all_baselines_def wf_refresh_all, simp_all add: core_wf_def)
qed

lemma wf_batch_refreshing:
  assumes inj: "inj (hl_uuid L)"
  shows "wf L full t \<Longrightarrow> wf L full (fst (batch_files_refreshing L w as t))"
proof (induction "as" arbitrary: t)
  case (Cons x xs)
  obtain p a where x: "x = (p, a)" by fastforce
  have "wf L full (handle_file_deleted L w p t)" "wf L full (handle_file_change L w p t)"
    using Cons.prems wf_file_deleted[OF inj] wf_file_change[OF inj] by blast+
  then show ?case using Cons x by (cases a) (simp_all add: Let_def split_beta)
qed simp

lemma wf_batch:
  assumes inj: "inj (hl_uuid L)" and wf: "wf L full t" and none: "cb_other_commands b = []"
  shows "wf L full (fst (handle_coalesced_batch L w b t))"
proof -
  let ?t1 = "if cb_refresh_dirty b \<and> \<not> cb_refresh_all b then refresh_git_dirty_cache L w None t else t"
  have t1: "wf L full ?t1" using wf wf_refresh_dirty[OF inj wf] by simp
  have "wf L full (batch_files L w (cb_file_actions b) ?t1)"
    unfolding batch_files_def
    by (intro wf_changes_batch[OF inj] wf_fold t1) (simp add: wf_file_deleted[OF inj] split_beta)
  moreover have "wf L full (refresh_all_baselines_except L w skip (fst (batch_files_refreshing L w (cb_file_actions b) ?t1)))" for skip
    by (intro wf_refresh_all[OF inj] wf_batch_refreshing[OF inj] t1)
  ultimately show ?thesis
    by (cases "cb_refresh_dirty b"; cases "cb_refresh_all b")
      (simp_all add: handle_coalesced_batch_def none Let_def split_beta)
qed

lemma run_states:
  assumes "inj (hl_uuid L)" "tracker_run L full ts"
  shows "ts \<noteq> [] \<and> (\<forall>x \<in> set ts. wf L full x \<and> ht_drawn x \<le> ht_drawn (hd ts))"
  using assms(2)
proof induction
  case (run_start w dir m)
  show ?case using wf_start[OF assms(1)] by simp
next
  case (run_command t ts w c u es r)
  have u: "u = fst (handle_command L w c t)" using run_command.hyps(3) by simp
  have before: "wf L full x \<and> ht_drawn x \<le> ht_drawn t" if "x \<in> set (t # ts)" for x
    using run_command.IH that by auto
  have "wf L full u" unfolding u using wf_command[OF assms(1) _ run_command.hyps(2)] before by simp
  moreover have "ht_drawn t \<le> ht_drawn u" unfolding u by (rule drawn_command)
  ultimately show ?case using before order_trans by fastforce
next
  case (run_batch t ts b w u es rs)
  have u: "u = fst (handle_coalesced_batch L w b t)" using run_batch.hyps(3) by simp
  have before: "wf L full x \<and> ht_drawn x \<le> ht_drawn t" if "x \<in> set (t # ts)" for x
    using run_batch.IH that by auto
  have "wf L full u" unfolding u using wf_batch[OF assms(1) _ run_batch.hyps(2)] before by simp
  moreover have "ht_drawn t \<le> ht_drawn u" unfolding u by (rule drawn_batch[OF run_batch.hyps(2)])
  ultimately show ?case using before order_trans by fastforce
qed

lemma run_ok: "inj (hl_uuid L) \<Longrightarrow> tracker_run L full (t # ts) \<Longrightarrow> wf L full t"
  using run_states by fastforce

end
