(* ===== verification/Hunk_Properties.thy ===== *)
theory Hunk_Properties
  imports Hunk_Runs Hunk_Session
begin

text \<open>
  What the hunk tracker guarantees: its state stays well formed, the index of turns answers as a scan would,
  rejecting restores and accepting adopts, the attribution of rejected hunks cancels out, and a batch of
  notifications keeps what matters of each path.  Then runs that show where it falls short of its comments.

  Where the hunk tracker does less than its comments say: texts whose last line is not ended, deletions that are
  accepted, writes that fail, content that stops being text, hunks that split or merge, and rewinding.
\<close>

section \<open>Hunk properties\<close>

subsection \<open>A line diff that keeps its law\<close>

fun prefix_script :: "string list \<Rightarrow> string list \<Rightarrow> (change_tag \<times> string) list" where
  "prefix_script (x # xs) (y # ys) =
     (if x = y then (EqualLine, x) # prefix_script xs ys
      else map (Pair DeleteLine) (x # xs) @ map (Pair InsertLine) (y # ys))"
| "prefix_script xs ys = map (Pair DeleteLine) xs @ map (Pair InsertLine) ys"

definition demo_differ :: line_differ where
  "demo_differ b c = Some (map line_change (prefix_script (text_lines b) (text_lines c)))"

definition demo_lib :: hunk_lib where
  "demo_lib = \<lparr>hl_uuid = (\<lambda>n. replicate n CHR ''x''), hl_differ = demo_differ\<rparr>"






lemma demo_uuid: "inj (hl_uuid demo_lib)"
proof (rule injI)
  fix x y
  assume "hl_uuid demo_lib x = hl_uuid demo_lib y"
  then have "length (replicate x CHR ''x'') = length (replicate y CHR ''x'')" by (simp only: demo_lib_def hunk_lib.simps)
  then show "x = y" by simp
qed

text \<open>A world without git, whose writes succeed.\<close>

definition demo_world :: hunk_world where
  "demo_world =
     \<lparr>hw_now = 7, hw_disk = (\<lambda>_. NoEntry), hw_write_ok = (\<lambda>_. True), hw_remove_ok = (\<lambda>_. True), hw_blocking_ok = True,
      hw_discover = (\<lambda>_. None), hw_head = (\<lambda>_ _ _. None), hw_status = (\<lambda>_ _. []), hw_sync = (\<lambda>_. no_sync)\<rparr>"

text \<open>An agent changes the second line of a file of two.\<close>

definition text_ab :: string where "text_ab = [CHR ''a'', CHR 0x0A, CHR ''b'', CHR 0x0A]"

definition text_ac :: string where "text_ac = [CHR ''a'', CHR 0x0A, CHR ''c'', CHR 0x0A]"

definition demo_write :: hunk_command where
  "demo_write = RecordAgentWrite ''/w/f'' text_ac 3 (Some text_ab)"

definition demo_hunk :: hunk where
  "demo_hunk =
     \<lparr>hk_id = [], hk_path = ''/w/f'', hk_line_info = \<lparr>old_start = 2, old_count = 1, new_start = 2, new_count = 1\<rparr>,
      hk_source = AgentEdit 3, hk_old_text = Some [CHR ''b'', CHR 0x0A], hk_new_text = [CHR ''c'', CHR 0x0A],
      hk_patch = None, hk_created_at = 7, hk_selected = False\<rparr>"

definition demo_file :: file_hunks where
  "demo_file =
     \<lparr>fh_baseline = Full text_ab, fh_current = Full text_ac, fh_hunks = [demo_hunk], fh_is_agent = True,
      fh_accepted = False\<rparr>"

definition demo_tracker :: tracker where
  "demo_tracker =
     (tracker_new ''/w'' AgentOnly)
       \<lparr>ht_files := [(''/w/f'', demo_file)], ht_turns := [3 \<mapsto> {[]}], ht_repo := NotARepo,
        ht_events := [FileAdded ''/w/f'' True, HunkAdded ''/w/f'' demo_hunk], ht_drawn := 1\<rparr>"

lemma demo_classified:
  "classify_string text_ab = Full text_ab" "classify_string text_ac = Full text_ac"
  by (simp_all add: classify_string_def text_ab_def text_ac_def MAX_TRACKED_TEXT_BYTES_def is_lfs_pointer_def
      LFS_POINTER_PREFIX_def is_binary_def)

lemma demo_changes:
  "demo_differ text_ab text_ac =
     Some [(EqualLine, [CHR ''a'', CHR 0x0A]), (DeleteLine, [CHR ''b'', CHR 0x0A]), (InsertLine, [CHR ''c'', CHR 0x0A])]"
  by (simp add: demo_differ_def text_ab_def text_ac_def text_lines_def strip_cr_def strip_suffix_def ends_with_def
      line_change_def with_feed_def Let_def)

lemma demo_computed:
  "compute_hunks (hl_differ demo_lib) (hl_uuid demo_lib) 0 7 ''/w/f'' text_ab text_ac (AgentEdit 3) = [demo_hunk]"
proof -
  have "text_ab \<noteq> text_ac" "length text_ab = 4" "length text_ac = 4" by (simp_all add: text_ab_def text_ac_def)
  then show ?thesis
    by (simp add: compute_hunks_def demo_lib_def demo_changes MAX_DIFF_FILE_SIZE_def build_def demo_hunk_def
        finish_builder_def get_or_insert_def add_old_line_def add_new_line_def builder_new_def)
qed

lemma demo_write_result:
  "handle_command demo_lib demo_world demo_write (actor_start demo_lib demo_world ''/w'' AgentOnly)
     = (demo_tracker, [], NoReply)"
  using demo_computed
  by (simp add: demo_write_def record_agent_write_def demo_classified is_diffable_def actor_start_def tracker_new_def
      file_of_def read_baseline_def demo_world_def open_or_discover_def Let_def fresh_file_def put_file_def send_event_def
      recompute_hunks_def file_diff_def find_matching_old_hunk_def emit_hunk_diff_events_def removed_events_def
      new_hunk_events_def demo_tracker_def demo_file_def turns_insert_def prompt_of_def demo_hunk_def)

definition demo_states :: "tracker list" where
  "demo_states = [actor_start demo_lib demo_world ''/w'' AgentOnly]"

lemma demo_tracker_run: "tracker_run demo_lib full (demo_tracker # demo_states)"
  unfolding demo_states_def
proof (rule run_command[OF run_start _ demo_write_result])
  show "admissible full demo_world demo_write [actor_start demo_lib demo_world ''/w'' AgentOnly]"
    by (simp add: admissible_def demo_write_def demo_world_def)
qed

subsection \<open>The state\<close>

text \<open>C29: whatever commands and notifications a tracker handled, and whatever failed on disk, its state is well
  formed: each path is tracked once, ids of pending hunks are distinct and were drawn from the supply, the pending
  hunks of a file are none or exactly those of its two contents, and the index lists a pending hunk under no other
  turn than its own.  The run may restore any snapshot that the tracker handed out before, and may change the directory
  as long as no two tracked paths become one; snapshots composed of the deltas of several turns are not among
  them, and they do break the last part (\<open>rewound_hunk_is_in_two_turns\<close>).\<close>

theorem tracker_state_well_formed:
  assumes "inj (hl_uuid L)" "tracker_run L False (t # ts)"
  shows "tracker_ok L t"
  using run_ok[OF assms] by (simp add: core_wf_def tracker_ok_def)

lemma tracker_state_well_formed_witness: "tracker_ok demo_lib demo_tracker"
  using tracker_state_well_formed[OF demo_uuid demo_tracker_run] .

lemma pending_some: "h \<in> set (pending_of fs p) \<Longrightarrow> \<exists>s. map_of fs p = Some s \<and> h \<in> set (fh_hunks s)"
  by (cases "map_of fs p") (simp_all add: pending_of_def)

lemma all_hunks_pending:
  assumes "distinct (map fst (ht_files t))"
  shows "h \<in> set (get_all_hunks t) \<longleftrightarrow> (\<exists>p. h \<in> set (pending_of (ht_files t) p))"
proof
  assume "h \<in> set (get_all_hunks t)"
  then obtain p s where "(p, s) \<in> set (ht_files t)" "h \<in> set (fh_hunks s)" by (auto simp: get_all_hunks_def)
  then show "\<exists>p. h \<in> set (pending_of (ht_files t) p)"
    using assms by (intro exI[of _ p]) (simp add: pending_of_def)
next
  assume "\<exists>p. h \<in> set (pending_of (ht_files t) p)"
  then obtain p s where "map_of (ht_files t) p = Some s" and h: "h \<in> set (fh_hunks s)"
    using pending_some by blast
  then have "(p, s) \<in> set (ht_files t)" by (simp add: map_of_SomeD)
  then show "h \<in> set (get_all_hunks t)" unfolding get_all_hunks_def using h by auto
qed

lemma one_hunk_per_id:
  assumes ok: "core_ok L {} (ht_files t) ti n" and h: "h \<in> set (get_all_hunks t)" "h' \<in> set (get_all_hunks t)"
    and e: "hk_id h = hk_id h'"
  shows "h = h'"
proof -
  obtain p where p: "h \<in> set (pending_of (ht_files t) p)"
    using h(1) all_hunks_pending[OF core_okD(1)[OF ok]] by blast
  obtain q where q: "h' \<in> set (pending_of (ht_files t) q)"
    using h(2) all_hunks_pending[OF core_okD(1)[OF ok]] by blast
  have "p = q" using core_okD(5)[OF ok, of p q] p q e by (force simp: pending_ids_def)
  then show ?thesis using core_okD(2)[OF ok, of p] p q e by (auto simp: distinct_map dest: inj_onD)
qed

text \<open>C30: after any such run in which all writes of accepted and rejected hunks succeeded, asking the tracker for the
  hunks of a turn through its index gives the same hunks as scanning all files for those attributed to that turn.\<close>

theorem turn_queries_exact:
  assumes "inj (hl_uuid L)" "tracker_run L True (t # ts)"
  shows "get_hunks_for_turn t k = {h \<in> set (get_all_hunks t). prompt_of (hk_source h) = Some k}"
proof -
  have wf: "wf L True t" by (rule run_ok[OF assms])
  then have ok: "core_ok L {} (ht_files t) (ht_turns t) (ht_drawn t)" and ix: "all_indexed (ht_files t) (ht_turns t)"
    by (simp_all add: core_wf_def)
  have member: "h \<in> get_hunks_for_turn t k \<longleftrightarrow> h \<in> set (get_all_hunks t) \<and> indexed_in (ht_turns t) (hk_id h) k" for h
  proof
    assume "h \<in> get_hunks_for_turn t k"
    then show "h \<in> set (get_all_hunks t) \<and> indexed_in (ht_turns t) (hk_id h) k"
      by (auto simp: get_hunks_for_turn_def get_hunk_def indexed_in_def find_Some_iff split: option.splits)
  next
    assume a: "h \<in> set (get_all_hunks t) \<and> indexed_in (ht_turns t) (hk_id h) k"
    then obtain x where x: "get_hunk t (hk_id h) = Some x"
      unfolding get_hunk_def by (metis (mono_tags) find_None_iff not_None_eq)
    then have "x = h" using a one_hunk_per_id[OF ok, of x h] by (auto simp: get_hunk_def find_Some_iff)
    then show "h \<in> get_hunks_for_turn t k"
      using a x by (auto simp: get_hunks_for_turn_def indexed_in_def split: option.splits intro!: bexI[of _ "hk_id h"])
  qed
  have "indexed_in (ht_turns t) (hk_id h) k \<longleftrightarrow> prompt_of (hk_source h) = Some k" if "h \<in> set (get_all_hunks t)" for h
    using that all_hunks_pending[OF core_okD(1)[OF ok]] core_okD(7)[OF ok, of h _ k] all_indexedD[OF ix, of h _ k] by blast
  then show ?thesis using member by blast
qed

lemma turn_queries_exact_witness: "get_hunks_for_turn demo_tracker 3 = {demo_hunk}"
proof -
  have "{h \<in> set (get_all_hunks demo_tracker). prompt_of (hk_source h) = Some 3} = {demo_hunk}"
    by (auto simp: get_all_hunks_def demo_tracker_def demo_file_def demo_hunk_def prompt_of_def)
  then show ?thesis using turn_queries_exact[OF demo_uuid demo_tracker_run, of 3] by simp
qed

subsection \<open>Review\<close>



lemma recompute_same:
  assumes "file_of t path = Some s" "fh_baseline s = Full b"
  shows "file_of (recompute_hunks L now path (Some (Full b)) source t) path = Some (s\<lparr>fh_current := Full b, fh_hunks := []\<rparr>)"
  using assms by (simp add: recompute_hunks_def file_diff_def compute_hunks_def Let_def)



lemma without_all [simp]: "without hs hs = []"
  by (auto simp: without_def filter_empty_conv)






lemma demo_pending: "file_of demo_tracker ''/w/f'' = Some demo_file" "fh_hunks demo_file = [demo_hunk]"
  "fh_baseline demo_file = Full text_ab" "fh_current demo_file = Full text_ac"
  by (simp_all add: file_of_def demo_tracker_def demo_file_def)




subsection \<open>Attribution of lines\<close>

definition lines_sum :: "(hunk_record \<Rightarrow> int) \<Rightarrow> string \<Rightarrow> hunk_record list \<Rightarrow> int" where
  "lines_sum f i rs = sum_list (map f (filter (\<lambda>r. hr_hunk_id r = i) rs))"

lemma lines_sum_simps [simp]:
  "lines_sum f i [] = 0"
  "lines_sum f i (rs @ [r]) = lines_sum f i rs + (if hr_hunk_id r = i then f r else 0)"
  by (simp_all add: lines_sum_def)

text \<open>The records of a hunk sum up to what the sink has accumulated for it.\<close>

definition balanced :: "string \<Rightarrow> loc_sink \<Rightarrow> bool" where
  "balanced i k \<longleftrightarrow>
     (lines_sum hr_lines_added i (lk_records k), lines_sum hr_lines_removed i (lk_records k)) =
       (case lk_acc k i of None \<Rightarrow> (0, 0) | Some v \<Rightarrow> v)"

lemma balanced_record:
  assumes "balanced i k"
  shows "balanced i (record_lines ctx d r k)"
  using assms
  by (auto simp: balanced_def record_lines_def write_record_def aggregate_def accumulate_def split: option.splits)

lemma balanced_event:
  assumes "balanced i k" "\<forall>p. e \<noteq> HunkRemoved p i RemovedAccepted"
  shows "balanced i (sink_event ctx now e k)"
proof (cases e)
  case (HunkRemoved p hid reason)
  show ?thesis
  proof (cases "hid = i")
    case True
    then show ?thesis using assms HunkRemoved
      by (auto simp: balanced_def write_record_def aggregate_def removal_record_def Let_def split: option.splits)
  next
    case False
    then show ?thesis using assms HunkRemoved
      by (auto simp: balanced_def write_record_def aggregate_def removal_record_def Let_def split: option.splits)
  qed
qed (use assms in \<open>simp_all add: balanced_record\<close>)

lemma removal_clears:
  "reason \<noteq> RemovedAccepted \<Longrightarrow> lk_acc (sink_event ctx now (HunkRemoved p i reason) k) i = None"
  by (simp add: Let_def write_record_def aggregate_def split: option.split)

text \<open>When a hunk that was never accepted is rejected or superseded, the records the sink wrote for it sum up to
  no lines added and none removed, whatever changes and whatever other hunks came in between.\<close>

theorem rejected_hunks_cancel:
  assumes "\<And>now p. (now, HunkRemoved p i RemovedAccepted) \<notin> set es" "reason \<noteq> RemovedAccepted"
  shows "let rs = lk_records (run_loc_sink ctx (es @ [(now, HunkRemoved path i reason)])) in
    lines_sum hr_lines_added i rs = 0 \<and> lines_sum hr_lines_removed i rs = 0"
proof -
  let ?k = "run_loc_sink ctx (es @ [(now, HunkRemoved path i reason)])"
  have "balanced i (run_loc_sink ctx fs)" if "\<And>now p. (now, HunkRemoved p i RemovedAccepted) \<notin> set fs" for fs
    using that
  proof (induction fs rule: rev_induct)
    case Nil
    then show ?case by (simp add: run_loc_sink_def balanced_def sink_new_def)
  next
    case (snoc x xs)
    then have "balanced i (run_loc_sink ctx xs)" by simp
    moreover have "\<forall>p. snd x \<noteq> HunkRemoved p i RemovedAccepted" using snoc.prems by (cases x) auto
    ultimately have "balanced i (sink_event ctx (fst x) (snd x) (run_loc_sink ctx xs))" by (rule balanced_event)
    then show ?case by (simp add: run_loc_sink_def split_beta)
  qed
  then have "balanced i ?k" using assms by auto
  moreover have "lk_acc ?k i = None" using removal_clears[OF assms(2)] by (simp add: run_loc_sink_def)
  ultimately show ?thesis by (simp add: balanced_def Let_def)
qed

definition demo_context :: loc_context where
  "demo_context = \<lparr>lc_session_id = ''s'', lc_agent_id = ''g'', lc_user_id = None, lc_aggregates = True\<rparr>"

lemma rejected_hunks_cancel_witness:
  "let rs = lk_records (run_loc_sink demo_context
      ([(1, HunkAdded ''/w/f'' demo_hunk), (2, HunkContentChanged ''/w/f'' demo_hunk ExternalEdit 4 2)]
        @ [(3, HunkRemoved ''/w/f'' [] RemovedRejected)])) in
    length rs = 3 \<and> lines_sum hr_lines_added [] rs = 0 \<and> lines_sum hr_lines_removed [] rs = 0"
proof -
  let ?es = "[(1, HunkAdded ''/w/f'' demo_hunk), (2, HunkContentChanged ''/w/f'' demo_hunk ExternalEdit 4 2)]"
  have "length (lk_records (run_loc_sink demo_context (?es @ [(3, HunkRemoved ''/w/f'' [] RemovedRejected)]))) = 3"
    by (simp add: run_loc_sink_def sink_new_def record_lines_def write_record_def aggregate_def accumulate_def
        from_hunk_def attribution_def hunk_span_def demo_hunk_def demo_context_def Let_def)
  then show ?thesis
    using rejected_hunks_cancel[of "[]" ?es RemovedRejected demo_context 3 "''/w/f''"] by (simp add: Let_def)
qed

subsection \<open>Batches\<close>

definition about_path :: "string \<Rightarrow> hunk_command \<Rightarrow> bool" where
  "about_path p c \<longleftrightarrow> c = HandleFileChange p \<or> c = HandleFileDeleted p"

text \<open>What a batch is to do with a path, from the notifications about it alone.\<close>

definition wanted_action :: "string \<Rightarrow> hunk_command list \<Rightarrow> path_action option" where
  "wanted_action p cs =
     (let xs = filter (about_path p) cs in
      if xs = [] then None
      else if last xs = HandleFileDeleted p then Some PathDeleted
      else if HandleFileDeleted p \<in> set xs then Some PathDeletedThenChanged
      else Some PathChanged)"

definition batch_of :: "hunk_command list \<Rightarrow> coalesced_batch" where
  "batch_of cs = fold batch_add cs batch_new"

lemma wanted_snoc:
  "wanted_action p (cs @ [c]) =
     (if c = HandleFileDeleted p then Some PathDeleted
      else if c = HandleFileChange p then
        (case wanted_action p cs of None \<Rightarrow> Some PathChanged | Some PathChanged \<Rightarrow> Some PathChanged
           | _ \<Rightarrow> Some PathDeletedThenChanged)
      else wanted_action p cs)"
proof -
  let ?xs = "filter (about_path p) cs"
  have 2: "?xs \<noteq> [] \<Longrightarrow> last ?xs = HandleFileDeleted p \<Longrightarrow> HandleFileDeleted p \<in> set ?xs" by (metis last_in_set)
  show ?thesis
  proof (cases "?xs = []")
    case True
    then show ?thesis by (auto simp: wanted_action_def about_path_def Let_def)
  next
    case False
    then show ?thesis using 2 by (auto simp: wanted_action_def about_path_def Let_def)
  qed
qed

lemma batch_actions: "map_of (cb_file_actions (batch_of cs)) p = wanted_action p cs"
proof (induction cs rule: rev_induct)
  case Nil
  then show ?case by (simp add: batch_of_def batch_new_def wanted_action_def)
next
  case (snoc c cs)
  then show ?case
    by (cases c) (auto simp: wanted_snoc batch_of_def batch_add_def note_change_def note_deletion_def update_conv' Let_def
        split: option.split path_action.split)
qed

text \<open>C14: draining the channel into a batch loses nothing that matters: each path gets the action its own notifications
  ask for, in their order, a deletion seen before a change included; refreshes happen if and only if they were
  asked for; and every other command is kept, in order.\<close>

theorem batches_are_faithful:
  "let b = drain_and_coalesce c queued; cs = c # queued in
     map_of (cb_file_actions b) p = wanted_action p cs
     \<and> (cb_refresh_all b \<longleftrightarrow> RefreshAllBaselines \<in> set cs)
     \<and> (cb_refresh_dirty b \<longleftrightarrow> RefreshGitDirtyCache \<in> set cs)
     \<and> cb_other_commands b = filter (\<lambda>x. \<not> is_coalescable x) cs
     \<and> cb_command_count b = length cs"
proof -
  have "(cb_refresh_all (batch_of cs) \<longleftrightarrow> RefreshAllBaselines \<in> set cs)
     \<and> (cb_refresh_dirty (batch_of cs) \<longleftrightarrow> RefreshGitDirtyCache \<in> set cs)
     \<and> cb_other_commands (batch_of cs) = filter (\<lambda>x. \<not> is_coalescable x) cs
     \<and> cb_command_count (batch_of cs) = length cs" for cs
  proof (induction cs rule: rev_induct)
    case Nil
    then show ?case by (simp add: batch_of_def batch_new_def)
  next
    case (snoc x cs)
    then show ?case by (cases x) (simp_all add: batch_of_def batch_add_def is_coalescable_def)
  qed
  from this[of "c # queued"] batch_actions[of "c # queued" p] show ?thesis
    by (simp add: drain_and_coalesce_def batch_of_def Let_def)
qed

section \<open>Hunk shortfalls\<close>

subsection \<open>Last lines\<close>

lemmas text_evaluation = text_lines_def strip_cr_def strip_suffix_def ends_with_def Let_def

text \<open>Rejecting the emptying of a file gives its text back without its last line feed.\<close>

lemma emptied_file_loses_feed:
  "reject_patch (build hid now path source (in_progress 1 1 [''a''] [])) [] = ''a''
   \<and> concat (hb_old_lines (in_progress 1 1 [''a''] [])) = ''a'' @ [CHR 0x0A]"
  by (simp add: reject_patch_def build_def in_progress_def with_feed_def patch_lines_def text_evaluation)

text \<open>A hunk that only removes the last line feed cannot be rejected: the patched text is the text as it was.\<close>

lemma unended_line_stays:
  assumes "differ (''a'' @ [CHR 0x0A]) ''a'' = Some [(DeleteLine, ''a'' @ [CHR 0x0A]), (InsertLine, ''a'')]"
  shows "\<exists>h. compute_hunks differ uuid n now path (''a'' @ [CHR 0x0A]) ''a'' source = [h] \<and> reject_patch h ''a'' = ''a''"
  using assms
  by (simp add: compute_hunks_def MAX_DIFF_FILE_SIZE_def finish_builder_def get_or_insert_def add_old_line_def
      add_new_line_def builder_new_def build_def reject_patch_def patch_lines_def text_evaluation)

text \<open>A carriage return before a line feed is lost in every line of the file, whatever the hunk.\<close>

lemma carriage_returns_are_lost:
  "reject_patch (build hid now path source (in_progress 2 2 [''b''] [''c''])) (''a'' @ [CHR 0x0D, CHR 0x0A] @ ''c'' @ [CHR 0x0A])
     = ''a'' @ [CHR 0x0A] @ ''b'' @ [CHR 0x0A]"
  by (simp add: reject_patch_def build_def in_progress_def with_feed_def patch_lines_def text_evaluation)

subsection \<open>Times and headers\<close>

text \<open>A recomputed hunk is as young as the recomputation, also when it keeps its id.\<close>

lemma preserve_ids_created:
  "h \<in> set (preserve_ids olds claimed news) \<Longrightarrow> \<exists>x \<in> set news. hk_created_at h = hk_created_at x"
  by (induction olds claimed news rule: preserve_ids.induct) (auto split: option.splits if_splits)

lemma build_all_created: "h \<in> set (build_all uuid n now path source bs) \<Longrightarrow> hk_created_at h = now"
  by (induction bs arbitrary: n) (auto simp: build_def)

lemma file_diff_created: "h \<in> set (file_diff L n now path b c source) \<Longrightarrow> hk_created_at h = now"
  by (auto simp: file_diff_def compute_hunks_def file_deleted_def file_created_def build_all_created
      split: file_content.splits option.splits if_splits)

lemma recomputed_hunks_are_young:
  assumes "file_of t path = Some s" "h \<in> set (get_hunks_for_path (recompute_hunks L now path c source t) path)"
  shows "hk_created_at h = now"
proof -
  let ?new = "file_diff L (ht_drawn t) now path (fh_baseline s) (case c of Some c \<Rightarrow> c | None \<Rightarrow> Missing) source"
  have "h \<in> set (preserve_ids (fh_hunks s) {} ?new)"
    using assms by (simp add: recompute_hunks_def get_hunks_for_path_def Let_def)
  then obtain x where "x \<in> set ?new" "hk_created_at h = hk_created_at x" using preserve_ids_created by blast
  then show ?thesis using file_diff_created by simp
qed

text \<open>The header of a hunk's patch names the same first line for both sides.\<close>

lemma patch_header_repeats_old_start:
  "\<exists>a n m rest. generate_hunk_patch baseline current h = range_header a n a m @ rest"
  unfolding generate_hunk_patch_def Let_def by blast

subsection \<open>Writes that fail\<close>

text \<open>A rejection that cannot write reports the error and leaves the hunk pending, but has counted it as rejected and
  taken it out of the index of turns.\<close>

lemma failed_reject_is_counted:
  assumes "find_hunk hid (ht_files t) = Some (path, h)" "file_of t path = Some s"
    and "fh_baseline s = Full b" "fh_current s = Full c" "\<not> hw_write_ok w path"
  shows "apply_hunk_action L w hid RejectHunk t = (count_action RejectHunk h t, [], Inl (WriteFailed path))"
    and "ht_files (count_action RejectHunk h t) = ht_files t"
    and "rejected_hunks (ht_stats (count_action RejectHunk h t)) = saturating_add (rejected_hunks (ht_stats t)) 1"
    and "prompt_of (hk_source h) = Some k \<Longrightarrow> \<not> indexed_in (ht_turns (count_action RejectHunk h t)) (hk_id h) k"
  using assms
  by (simp_all add: apply_hunk_action_def reject_hunk_def reject_step_of_def Let_def file_of_def count_action_def
      update_session_stats_def indexed_remove listed_def)

subsection \<open>Hunks that go without a word\<close>

text \<open>An agent's write of something that is not text drops the hunks of the file with no event at all.\<close>

lemma binary_write_drops_silently:
  assumes "file_of t path = Some s" "\<not> is_diffable (classify_string content)"
  shows "ht_events (record_agent_write L w path content n previous t) = ht_events t"
    and "get_hunks_for_path (record_agent_write L w path content n previous t) path = []"
    and "ht_turns (record_agent_write L w path content n previous t) = ht_turns t"
  using assms by (simp_all add: record_agent_write_def get_hunks_for_path_def put_file_def file_of_def update_conv')

text \<open>Two hunks that grow together: one id survives, the other is never reported as removed.\<close>

definition line_hunk :: "string \<Rightarrow> nat \<Rightarrow> nat \<Rightarrow> string \<Rightarrow> string \<Rightarrow> hunk" where
  "line_hunk hid start n old new =
     \<lparr>hk_id = hid, hk_path = ''/f'', hk_line_info = \<lparr>old_start = start, old_count = n, new_start = start, new_count = n\<rparr>,
      hk_source = AgentEdit 0, hk_old_text = Some old, hk_new_text = new, hk_patch = None, hk_created_at = 0,
      hk_selected = False\<rparr>"

lemmas matching_evaluation = find_matching_old_hunk_def hunks_match_content_def hunks_overlap_def old_end_def
  calculate_overlap_size_def line_hunk_def Let_def

lemma merged_hunk_vanishes:
  defines "a \<equiv> line_hunk ''a'' 2 1 ''x'' ''y''" and "b \<equiv> line_hunk ''b'' 4 1 ''x'' ''y''"
    and "m \<equiv> line_hunk ''n'' 2 3 ''xzx'' ''ywy''"
  shows "map hk_id (preserve_ids [a, b] {} [m]) = [''b'']"
    and "removed_events ''/f'' [a, b] (preserve_ids [a, b] {} [m]) = []"
    and "map (\<lambda>e. case e of HunkContentChanged p h src x y \<Rightarrow> (new_count (hk_line_info h), x) | _ \<Rightarrow> (0, 0))
      (concat (map (new_hunk_events ''/f'' [a, b] (AgentEdit 0)) (preserve_ids [a, b] {} [m]))) = [(3, 1)]"
  by (simp_all add: a_def b_def m_def matching_evaluation removed_events_def new_hunk_events_def previous_of_def is_external_def)

text \<open>A hunk of ten lines that splits in two of four: the sink counts minus two lines where eight are pending.\<close>

lemma split_hunk_undercounts:
  defines "a \<equiv> line_hunk ''a'' 1 10 ''o'' ''n''" and "x \<equiv> line_hunk ''p'' 1 4 ''o1'' ''n1''"
    and "y \<equiv> line_hunk ''q'' 7 4 ''o2'' ''n2''"
  shows "let es = HunkAdded ''/f'' a # concat (map (new_hunk_events ''/f'' [a] (AgentEdit 0)) (preserve_ids [a] {} [x, y])) in
    sum_list (map hr_lines_added (lk_records (fold (sink_event demo_context 0) es sink_new))) = -2"
  by (simp add: a_def x_def y_def matching_evaluation new_hunk_events_def previous_of_def is_external_def
      sink_new_def record_lines_def write_record_def aggregate_def accumulate_def from_hunk_def attribution_def
      hunk_span_def demo_context_def)

subsection \<open>Rewinding\<close>

text \<open>
  A turn that leaves a file without hunks stores nothing about it, so that rewinding to a later turn brings the hunk of
  an earlier one back: here the agent writes a hunk in turn 3 and undoes it in turn 4, and the tracker restored to the
  start of turn 5 has it pending again.
\<close>

definition undone_tracker :: tracker where
  "undone_tracker = record_agent_write demo_lib demo_world ''/w/f'' text_ab 4 None demo_tracker"

lemma undone_file:
  "file_of undone_tracker ''/w/f'' = Some (demo_file\<lparr>fh_current := Full text_ab, fh_hunks := []\<rparr>)"
  "ht_files undone_tracker = [(''/w/f'', demo_file\<lparr>fh_current := Full text_ab, fh_hunks := []\<rparr>)]"
proof -
  have f: "file_of (put_file ''/w/f'' (demo_file\<lparr>fh_is_agent := True\<rparr>) demo_tracker) ''/w/f'' = Some demo_file"
    by (simp add: demo_file_def)
  have u: "undone_tracker = recompute_hunks demo_lib (hw_now demo_world) ''/w/f'' (Some (Full text_ab)) (AgentEdit 4)
      (put_file ''/w/f'' (demo_file\<lparr>fh_is_agent := True\<rparr>) demo_tracker)"
    by (simp add: undone_tracker_def record_agent_write_def demo_classified is_diffable_def demo_pending(1) Let_def)
  show "file_of undone_tracker ''/w/f'' = Some (demo_file\<lparr>fh_current := Full text_ab, fh_hunks := []\<rparr>)"
    unfolding u by (rule recompute_same[OF f]) (simp add: demo_file_def)
  show "ht_files undone_tracker = [(''/w/f'', demo_file\<lparr>fh_current := Full text_ab, fh_hunks := []\<rparr>)]"
    unfolding u
    by (simp add: recompute_hunks_def file_of_def demo_tracker_def demo_file_def put_file_def file_diff_def compute_hunks_def Let_def)
qed

lemma rewinding_revives_a_hunk:
  defines "store \<equiv> fst (capture_hunk_delta demo_tracker 3 [])"
  shows "get_hunks_for_path undone_tracker ''/w/f'' = []"
    and "capture_hunk_delta undone_tracker 4 store = (store, False)"
    and "get_hunks_for_path (snd (restore_hunk_checkpoints 5 store undone_tracker)) ''/w/f'' = [demo_hunk]"
proof -
  have delta: "take_turn_delta demo_tracker 3 = \<lparr>td_prompt = 3, td_files = [(''/w/f'', demo_file)], td_hunk_ids = {[]}\<rparr>"
    by (simp add: take_turn_delta_def demo_tracker_def demo_file_def demo_hunk_def)
  then have store: "store = [(3, \<lparr>td_prompt = 3, td_files = [(''/w/f'', demo_file)], td_hunk_ids = {[]}\<rparr>)]"
    by (simp add: store_def capture_hunk_delta_def)
  show "get_hunks_for_path undone_tracker ''/w/f'' = []" by (simp add: get_hunks_for_path_def undone_file)
  have "td_files (take_turn_delta undone_tracker 4) = []"
    by (simp add: take_turn_delta_def undone_file Let_def)
  then show "capture_hunk_delta undone_tracker 4 store = (store, False)" by (simp add: capture_hunk_delta_def)
  show "get_hunks_for_path (snd (restore_hunk_checkpoints 5 store undone_tracker)) ''/w/f'' = [demo_hunk]"
    by (simp add: restore_hunk_checkpoints_def store restore_snapshot_def get_hunks_for_path_def file_of_def
        compose_files_def collect_files_def Let_def List.map_filter_def demo_pending(2))
qed

text \<open>
  A hunk that an agent's write changes keeps its id and moves to the turn of the write.  The deltas of both turns list the
  id, so that a tracker restored from them has it in the index of the earlier turn as well: acting on that turn
  would act on the hunk of the later one.
\<close>

definition text_ad :: string where "text_ad = [CHR ''a'', CHR 0x0A, CHR ''d'', CHR 0x0A]"

definition later_hunk :: hunk where
  "later_hunk = demo_hunk\<lparr>hk_source := AgentEdit 4, hk_new_text := [CHR ''d'', CHR 0x0A]\<rparr>"

definition later_tracker :: tracker where
  "later_tracker = record_agent_write demo_lib demo_world ''/w/f'' text_ad 4 None demo_tracker"

lemma later_classified: "classify_string text_ad = Full text_ad"
  by (simp add: classify_string_def text_ad_def MAX_TRACKED_TEXT_BYTES_def is_lfs_pointer_def LFS_POINTER_PREFIX_def
      is_binary_def)

lemma later_computed:
  "compute_hunks (hl_differ demo_lib) (hl_uuid demo_lib) 1 7 ''/w/f'' text_ab text_ad (AgentEdit 4) = [later_hunk\<lparr>hk_id := ''x''\<rparr>]"
proof -
  have "demo_differ text_ab text_ad =
     Some [(EqualLine, [CHR ''a'', CHR 0x0A]), (DeleteLine, [CHR ''b'', CHR 0x0A]), (InsertLine, [CHR ''d'', CHR 0x0A])]"
    by (simp add: demo_differ_def text_ab_def text_ad_def text_lines_def strip_cr_def strip_suffix_def ends_with_def
        line_change_def with_feed_def Let_def)
  moreover have "text_ab \<noteq> text_ad" "length text_ab = 4" "length text_ad = 4" by (simp_all add: text_ab_def text_ad_def)
  ultimately show ?thesis
    by (simp add: compute_hunks_def demo_lib_def MAX_DIFF_FILE_SIZE_def build_def demo_hunk_def later_hunk_def
        finish_builder_def get_or_insert_def add_old_line_def add_new_line_def builder_new_def)
qed

lemma later_state:
  "ht_files later_tracker = [(''/w/f'', demo_file\<lparr>fh_current := Full text_ad, fh_hunks := [later_hunk]\<rparr>)]"
  "ht_turns later_tracker = [3 \<mapsto> {}, 4 \<mapsto> {[]}]"
proof -
  have "preserve_ids [demo_hunk] {} [later_hunk\<lparr>hk_id := ''x''\<rparr>] = [later_hunk]"
    by (simp add: matching_evaluation demo_hunk_def later_hunk_def is_external_def)
  then have "ht_files later_tracker = [(''/w/f'', demo_file\<lparr>fh_current := Full text_ad, fh_hunks := [later_hunk]\<rparr>)]
    \<and> ht_turns later_tracker = turns_insert later_hunk (turns_remove demo_hunk [3 \<mapsto> {[]}])"
    using later_computed
    by (simp add: later_tracker_def record_agent_write_def later_classified is_diffable_def demo_tracker_def demo_file_def
        file_of_def put_file_def recompute_hunks_def file_diff_def demo_world_def emit_hunk_diff_events_def Let_def)
  moreover have "turns_insert later_hunk (turns_remove demo_hunk [3 \<mapsto> {[]}]) = [3 \<mapsto> {}, 4 \<mapsto> {[]}]"
    by (auto simp: turns_insert_def turns_remove_def prompt_of_def demo_hunk_def later_hunk_def)
  ultimately show "ht_files later_tracker = [(''/w/f'', demo_file\<lparr>fh_current := Full text_ad, fh_hunks := [later_hunk]\<rparr>)]"
    "ht_turns later_tracker = [3 \<mapsto> {}, 4 \<mapsto> {[]}]" by simp_all
qed

lemma rewound_hunk_is_in_two_turns:
  defines "store \<equiv> fst (capture_hunk_delta later_tracker 4 (fst (capture_hunk_delta demo_tracker 3 [])))"
  defines "restored \<equiv> snd (restore_hunk_checkpoints 5 store later_tracker)"
  shows "get_hunks_for_turn restored 3 = {later_hunk}" "get_hunks_for_turn restored 4 = {later_hunk}"
    "hk_source later_hunk = AgentEdit 4"
proof -
  let ?s = "demo_file\<lparr>fh_current := Full text_ad, fh_hunks := [later_hunk]\<rparr>"
  have d3: "take_turn_delta demo_tracker 3 = \<lparr>td_prompt = 3, td_files = [(''/w/f'', demo_file)], td_hunk_ids = {[]}\<rparr>"
    by (simp add: take_turn_delta_def demo_tracker_def demo_file_def demo_hunk_def)
  have d4: "take_turn_delta later_tracker 4 = \<lparr>td_prompt = 4, td_files = [(''/w/f'', ?s)], td_hunk_ids = {[]}\<rparr>"
    by (simp add: take_turn_delta_def later_state later_hunk_def demo_hunk_def)
  have store: "store = [(3, \<lparr>td_prompt = 3, td_files = [(''/w/f'', demo_file)], td_hunk_ids = {[]}\<rparr>),
      (4, \<lparr>td_prompt = 4, td_files = [(''/w/f'', ?s)], td_hunk_ids = {[]}\<rparr>)]"
    by (simp add: store_def capture_hunk_delta_def d3 d4)
  have r: "ht_files restored = [(''/w/f'', ?s)]" "ht_turns restored 3 = Some {[]}" "ht_turns restored 4 = Some {[]}"
    by (simp_all add: restored_def store restore_hunk_checkpoints_def restore_snapshot_def compose_files_def
        collect_files_def compose_turns_def present_ids_def Let_def List.map_filter_def later_hunk_def demo_hunk_def)
  have "get_hunk restored [] = Some later_hunk"
    by (simp add: get_hunk_def get_all_hunks_def r later_hunk_def demo_hunk_def)
  then show "get_hunks_for_turn restored 3 = {later_hunk}" "get_hunks_for_turn restored 4 = {later_hunk}"
    by (simp_all add: get_hunks_for_turn_def r)
  show "hk_source later_hunk = AgentEdit 4" by (simp add: later_hunk_def)
qed

end
