(* ===== verification/Patch_Parser.thy ===== *)
theory Patch_Parser
  imports Paths
begin

text \<open>
  The parser of the \<open>apply_patch\<close> tool (\<open>src/crates/codegen/xai-grok-tools/src/implementations/codex/apply_patch/parser.rs\<close>,
  \<open>errors.rs\<close>): a patch adds, deletes, updates and moves files.  Errors are values with the line they are about.

  Printing a list of file operations as a patch and parsing it gives the operations back: no operation is lost,
  joined with its neighbour or misread, as long as paths and lines can stand on a line of their own.
\<close>

section \<open>Patch parser\<close>

datatype patch_error = InvalidPatch string | InvalidHunk string nat

record patch_chunk =
  change_context :: "string option"
  chunk_old :: "string list"
  chunk_new :: "string list"
  is_end_of_file :: bool

datatype patch_op =
    AddFile string string
  | DeleteFile string
  | UpdateFile string "string option" "patch_chunk list"

definition BEGIN_PATCH_MARKER :: string where "BEGIN_PATCH_MARKER = ''*** Begin Patch''"
definition END_PATCH_MARKER :: string where "END_PATCH_MARKER = ''*** End Patch''"
definition ADD_FILE_MARKER :: string where "ADD_FILE_MARKER = ''*** Add File: ''"
definition DELETE_FILE_MARKER :: string where "DELETE_FILE_MARKER = ''*** Delete File: ''"
definition UPDATE_FILE_MARKER :: string where "UPDATE_FILE_MARKER = ''*** Update File: ''"
definition MOVE_TO_MARKER :: string where "MOVE_TO_MARKER = ''*** Move to: ''"
definition EOF_MARKER :: string where "EOF_MARKER = ''*** End of File''"
definition CHANGE_CONTEXT_MARKER :: string where "CHANGE_CONTEXT_MARKER = ''@@ ''"
definition EMPTY_CHANGE_CONTEXT_MARKER :: string where "EMPTY_CHANGE_CONTEXT_MARKER = ''@@''"

lemmas patch_markers = BEGIN_PATCH_MARKER_def END_PATCH_MARKER_def ADD_FILE_MARKER_def DELETE_FILE_MARKER_def
  UPDATE_FILE_MARKER_def MOVE_TO_MARKER_def EOF_MARKER_def CHANGE_CONTEXT_MARKER_def EMPTY_CHANGE_CONTEXT_MARKER_def

definition in_quotes :: "string \<Rightarrow> string" where
  "in_quotes s = CHR 0x27 # s @ [CHR 0x27]"

subsection \<open>Boundaries\<close>

definition check_start_and_end_lines_strict :: "string option \<Rightarrow> string option \<Rightarrow> patch_error option" where
  "check_start_and_end_lines_strict first_line last_line =
     (let f = map_option trim first_line; l = map_option trim last_line in
      if f = Some BEGIN_PATCH_MARKER \<and> l = Some END_PATCH_MARKER then None
      else if f \<noteq> None \<and> f \<noteq> Some BEGIN_PATCH_MARKER
      then Some (InvalidPatch (''The first line of the patch must be '' @ in_quotes BEGIN_PATCH_MARKER))
      else Some (InvalidPatch (''The last line of the patch must be '' @ in_quotes END_PATCH_MARKER)))"

definition check_patch_boundaries_strict :: "string list \<Rightarrow> patch_error option" where
  "check_patch_boundaries_strict ls =
     (case ls of
        [] \<Rightarrow> check_start_and_end_lines_strict None None
      | l # _ \<Rightarrow> check_start_and_end_lines_strict (Some l) (Some (last ls)))"

definition check_patch_boundaries_lenient :: "string list \<Rightarrow> patch_error \<Rightarrow> patch_error + string list" where
  "check_patch_boundaries_lenient ls original =
     (case ls of
        l # _ # _ \<Rightarrow>
          if l \<in> {''<<EOF'', ''<<'' @ in_quotes ''EOF'', ''<<'' @ [CHR 0x22] @ ''EOF'' @ [CHR 0x22]} \<and> ends_with (last ls) ''EOF'' \<and> 4 \<le> length ls
          then (let inner = butlast (tl ls) in
                case check_patch_boundaries_strict inner of None \<Rightarrow> Inr inner | Some e \<Rightarrow> Inl e)
          else Inl original
      | _ \<Rightarrow> Inl original)"

subsection \<open>Chunks\<close>

text \<open>The lines of a chunk, \<open>n\<close> of them read: a line that cannot belong to it ends it, unless it is the first.\<close>

fun chunk_body :: "nat \<Rightarrow> string list \<Rightarrow> patch_chunk \<Rightarrow> nat \<Rightarrow> patch_error + (patch_chunk \<times> nat)" where
  "chunk_body line_number [] chunk n = Inr (chunk, n)"
| "chunk_body line_number (l # ls) chunk n =
     (if l = EOF_MARKER
      then (if n = 0 then Inl (InvalidHunk ''Update hunk does not contain any lines'' (line_number + 1))
            else Inr (chunk\<lparr>is_end_of_file := True\<rparr>, n + 1))
      else case l of
        [] \<Rightarrow> chunk_body line_number ls
                (chunk\<lparr>chunk_old := chunk_old chunk @ [[]], chunk_new := chunk_new chunk @ [[]]\<rparr>) (n + 1)
      | c # r \<Rightarrow>
          if c = CHR '' '' then chunk_body line_number ls
                (chunk\<lparr>chunk_old := chunk_old chunk @ [r], chunk_new := chunk_new chunk @ [r]\<rparr>) (n + 1)
          else if c = CHR ''+'' then chunk_body line_number ls (chunk\<lparr>chunk_new := chunk_new chunk @ [r]\<rparr>) (n + 1)
          else if c = CHR ''-'' then chunk_body line_number ls (chunk\<lparr>chunk_old := chunk_old chunk @ [r]\<rparr>) (n + 1)
          else if n = 0
          then Inl (InvalidHunk (''Unexpected line found in update hunk: '' @ in_quotes l
                 @ ''. Every line should start with '' @ in_quotes '' '' @ '' (context line), '' @ in_quotes ''+''
                 @ '' (added line), or '' @ in_quotes ''-'' @ '' (removed line)'')
                 (line_number + 1))
          else Inr (chunk, n))"

text \<open>The context of a chunk and how many lines name it; \<open>None\<close> when a marker is missing.\<close>

definition chunk_start :: "string \<Rightarrow> bool \<Rightarrow> (string option \<times> nat) option" where
  "chunk_start l allow_missing_context =
     (if l = EMPTY_CHANGE_CONTEXT_MARKER then Some (None, 1)
      else case strip_prefix l CHANGE_CONTEXT_MARKER of
        Some c \<Rightarrow> Some (Some c, 1)
      | None \<Rightarrow> if allow_missing_context then Some (None, 0) else None)"

definition parse_update_file_chunk :: "string list \<Rightarrow> nat \<Rightarrow> bool \<Rightarrow> patch_error + (patch_chunk \<times> nat)" where
  "parse_update_file_chunk ls line_number allow_missing_context =
     (case ls of
        [] \<Rightarrow> Inl (InvalidHunk ''Update hunk does not contain any lines'' line_number)
      | l # _ \<Rightarrow>
          (case chunk_start l allow_missing_context of
             None \<Rightarrow> Inl (InvalidHunk (''Expected update hunk to start with a @@ context marker, got: '' @ in_quotes l)
                       line_number)
           | Some (context, start_index) \<Rightarrow>
               if length ls \<le> start_index
               then Inl (InvalidHunk ''Update hunk does not contain any lines'' (line_number + 1))
               else (case chunk_body line_number (drop start_index ls)
                            \<lparr>change_context = context, chunk_old = [], chunk_new = [], is_end_of_file = False\<rparr> 0 of
                       Inl e \<Rightarrow> Inl e
                     | Inr (chunk, n) \<Rightarrow> Inr (chunk, n + start_index))))"

text \<open>A chunk takes at least one line and no more than there are.\<close>

lemma chunk_body_length:
  "chunk_body k ls c n = Inr (c', m) \<Longrightarrow> n \<le> m \<and> m \<le> n + length ls \<and> (n = 0 \<and> ls \<noteq> [] \<longrightarrow> 0 < m)"
proof (induction k ls c n rule: chunk_body.induct)
  case (2 k l ls c n)
  then show ?case by (fastforce split: if_splits list.splits)
qed simp

lemma parse_update_file_chunk_length:
  assumes "parse_update_file_chunk ls k b = Inr (c, n)"
  shows "0 < n" "n \<le> length ls"
proof -
  obtain l r where ls: "ls = l # r" using assms by (cases ls) (simp_all add: parse_update_file_chunk_def)
  obtain ctx st where st: "chunk_start l b = Some (ctx, st)"
    using assms by (cases "chunk_start l b") (auto simp: ls parse_update_file_chunk_def)
  let ?body = "chunk_body k (drop st ls) \<lparr>change_context = ctx, chunk_old = [], chunk_new = [], is_end_of_file = False\<rparr> 0"
  have lt: "st < length ls"
    using assms by (cases "length ls \<le> st") (simp_all add: ls st parse_update_file_chunk_def)
  obtain m where m: "?body = Inr (c, m)" "n = m + st"
    using assms lt by (cases ?body) (auto simp: ls st parse_update_file_chunk_def)
  show "0 < n" "n \<le> length ls" using chunk_body_length[OF m(1)] m(2) lt by auto
qed

subsection \<open>File operations\<close>

text \<open>The chunks of an update, until the next header; the lines taken are counted in \<open>n\<close>.\<close>

function update_chunks ::
  "nat \<Rightarrow> string list \<Rightarrow> patch_chunk list \<Rightarrow> nat \<Rightarrow> patch_error + (patch_chunk list \<times> nat)" where
  "update_chunks line_number ls chunks n =
     (case ls of
        [] \<Rightarrow> Inr (chunks, n)
      | l # r \<Rightarrow>
          if is_blank l then update_chunks line_number r chunks (n + 1)
          else if starts_with l ''***'' then Inr (chunks, n)
          else case parse_update_file_chunk ls (line_number + n) (chunks = []) of
            Inl e \<Rightarrow> Inl e
          | Inr (chunk, k) \<Rightarrow> update_chunks line_number (drop k ls) (chunks @ [chunk]) (n + k))"
  by pat_completeness auto
termination
  by (relation "measure (\<lambda>(_, ls, _, _). length ls)") (auto dest: parse_update_file_chunk_length)

declare update_chunks.simps [simp del]

text \<open>The added lines after an add header, without their marks.\<close>

fun added_lines :: "string list \<Rightarrow> string list" where
  "added_lines [] = []"
| "added_lines (l # ls) = (case strip_prefix l ''+'' of Some r \<Rightarrow> r # added_lines ls | None \<Rightarrow> [])"

definition parse_one_hunk :: "string list \<Rightarrow> nat \<Rightarrow> patch_error + (patch_op \<times> nat)" where
  "parse_one_hunk ls line_number =
     (let first_line = trim (hd ls) in
      case strip_prefix first_line ADD_FILE_MARKER of
        Some path \<Rightarrow>
          (let added = added_lines (tl ls) in
           Inr (AddFile path (whole_lines added), 1 + length added))
      | None \<Rightarrow>
      (case strip_prefix first_line DELETE_FILE_MARKER of
        Some path \<Rightarrow> Inr (DeleteFile path, 1)
      | None \<Rightarrow>
      (case strip_prefix first_line UPDATE_FILE_MARKER of
        Some path \<Rightarrow>
          (let move_path = (case tl ls of [] \<Rightarrow> None | x # _ \<Rightarrow> strip_prefix x MOVE_TO_MARKER);
               k = (if move_path \<noteq> None then 2 else 1) in
           case update_chunks line_number (drop k ls) [] k of
             Inl e \<Rightarrow> Inl e
           | Inr (chunks, n) \<Rightarrow>
               if chunks = []
               then Inl (InvalidHunk (''Update file hunk for path '' @ in_quotes path @ '' is empty'') line_number)
               else Inr (UpdateFile path move_path chunks, n))
      | None \<Rightarrow>
          Inl (InvalidHunk (in_quotes first_line @ '' is not a valid hunk header. Valid hunk headers: ''
            @ in_quotes ''*** Add File: {path}'' @ '', '' @ in_quotes ''*** Delete File: {path}'' @ '', ''
            @ in_quotes ''*** Update File: {path}'') line_number))))"

lemma update_chunks_length:
  "update_chunks k ls cs n = Inr (cs', m) \<Longrightarrow> n \<le> m \<and> m \<le> n + length ls"
proof (induction k ls cs n rule: update_chunks.induct)
  case (1 k ls cs n)
  show ?case
  proof (cases ls)
    case Nil
    then show ?thesis using 1 by (simp add: update_chunks.simps)
  next
    case (Cons l r)
    then show ?thesis using 1 by (subst (asm) (3) update_chunks.simps)
      (fastforce split: if_splits sum.splits prod.splits dest: parse_update_file_chunk_length)
  qed
qed

lemma added_lines_length: "length (added_lines ls) \<le> length ls"
  by (induction ls) (auto split: option.splits)

lemma parse_one_hunk_length:
  assumes "parse_one_hunk ls k = Inr (h, n)" "ls \<noteq> []"
  shows "0 < n" "n \<le> length ls"
proof -
  have "0 < n \<and> n \<le> length ls"
    using assms added_lines_length[of "tl ls"]
    by (cases ls) (auto simp: parse_one_hunk_def Let_def split: option.splits sum.splits prod.splits if_splits list.splits
        dest!: update_chunks_length)
  then show "0 < n" "n \<le> length ls" by auto
qed

subsection \<open>Patches\<close>

function parse_hunks :: "string list \<Rightarrow> nat \<Rightarrow> patch_error + patch_op list" where
  "parse_hunks ls line_number =
     (if ls = [] then Inr []
      else case parse_one_hunk ls line_number of
        Inl e \<Rightarrow> Inl e
      | Inr (h, n) \<Rightarrow>
          (case parse_hunks (drop n ls) (line_number + n) of Inl e \<Rightarrow> Inl e | Inr hs \<Rightarrow> Inr (h # hs)))"
  by pat_completeness auto
termination
  by (relation "measure (\<lambda>(ls, _). length ls)") (auto dest: parse_one_hunk_length)

declare parse_hunks.simps [simp del]

text \<open>
  The patch text is trimmed, cut into lines and taken out of a heredoc.  The result is the operations with the
  text of the patch they stand in.
\<close>

definition parse_patch_text :: "string \<Rightarrow> bool \<Rightarrow> patch_error + (patch_op list \<times> string)" where
  "parse_patch_text patch strict =
     (let original = text_lines (trim patch) in
      case (case check_patch_boundaries_strict original of
              None \<Rightarrow> Inr original
            | Some e \<Rightarrow> if strict then Inl e else check_patch_boundaries_lenient original e) of
        Inl e \<Rightarrow> Inl e
      | Inr ls \<Rightarrow>
          (case parse_hunks (butlast (tl ls)) 2 of
             Inl e \<Rightarrow> Inl e
           | Inr hunks \<Rightarrow> Inr (hunks, join [CHR 0x0A] ls)))"

definition parse_patch :: "string \<Rightarrow> patch_error + (patch_op list \<times> string)" where
  "parse_patch patch = parse_patch_text patch False"

section \<open>Patch roundtrip\<close>

subsection \<open>Printing\<close>

definition show_chunk :: "patch_chunk \<Rightarrow> string list" where
  "show_chunk c =
     (case change_context c of None \<Rightarrow> EMPTY_CHANGE_CONTEXT_MARKER | Some x \<Rightarrow> CHANGE_CONTEXT_MARKER @ x)
       # map (Cons (CHR ''-'')) (chunk_old c) @ map (Cons (CHR ''+'')) (chunk_new c)
       @ (if is_end_of_file c then [EOF_MARKER] else [])"

fun show_op :: "patch_op \<Rightarrow> string list" where
  "show_op (AddFile p contents) = (ADD_FILE_MARKER @ p) # map (Cons (CHR ''+'')) (text_lines contents)"
| "show_op (DeleteFile p) = [DELETE_FILE_MARKER @ p]"
| "show_op (UpdateFile p move_path chunks) =
     (UPDATE_FILE_MARKER @ p) # (case move_path of None \<Rightarrow> [] | Some d \<Rightarrow> [MOVE_TO_MARKER @ d])
       @ concat (map show_chunk chunks)"

definition show_patch :: "patch_op list \<Rightarrow> string" where
  "show_patch ops = join [CHR 0x0A] (BEGIN_PATCH_MARKER # concat (map show_op ops) @ [END_PATCH_MARKER])"

text \<open>What can be printed: a header is trimmed, so its path must not end with white space.\<close>

definition header_path :: "string \<Rightarrow> bool" where
  "header_path p \<longleftrightarrow> p \<noteq> [] \<and> plain_line p \<and> ws_suffix_len p = 0"

definition printable_chunk :: "patch_chunk \<Rightarrow> bool" where
  "printable_chunk c \<longleftrightarrow>
     list_all plain_line (case_option [] (\<lambda>x. [x]) (change_context c) @ chunk_old c @ chunk_new c)
     \<and> chunk_old c @ chunk_new c \<noteq> []"

fun printable_op :: "patch_op \<Rightarrow> bool" where
  "printable_op (AddFile p contents) \<longleftrightarrow>
     header_path p \<and> list_all plain_line (text_lines contents) \<and> contents = whole_lines (text_lines contents)"
| "printable_op (DeleteFile p) \<longleftrightarrow> header_path p"
| "printable_op (UpdateFile p move_path chunks) \<longleftrightarrow>
     header_path p \<and> (case move_path of None \<Rightarrow> True | Some d \<Rightarrow> plain_line d)
     \<and> chunks \<noteq> [] \<and> list_all printable_chunk chunks"

subsection \<open>Trimming\<close>

definition graphic :: "char \<Rightarrow> bool" where
  "graphic c \<longleftrightarrow> 33 \<le> byte c \<and> byte c < 127"

lemma ws_len_graphic: "graphic c \<Longrightarrow> ws_len (c # s) = 0"
  by (auto simp: ws_len_def graphic_def split: list.split)

lemma ws_suffix_len_snoc: "ws_suffix_len s \<noteq> 0 \<Longrightarrow> ws_len (drop (length s - ws_suffix_len s) s) = ws_suffix_len s"
  by (auto simp: ws_suffix_len_def split: if_splits)

lemma trim_end_graphic:
  "s \<noteq> [] \<Longrightarrow> graphic (hd s) \<Longrightarrow> trim_end s \<noteq> []"
proof (induction s rule: trim_end.induct)
  case (1 s)
  show ?case
  proof (cases "ws_suffix_len s = 0")
    case False
    have "ws_suffix_len s < length s"
    proof (rule ccontr)
      assume "\<not> ?thesis"
      then have "drop (length s - ws_suffix_len s) s = s" by simp
      then show False using ws_suffix_len_snoc[OF False] False 1(2,3) ws_len_graphic[of "hd s" "tl s"] by simp
    qed
    then show ?thesis using 1 False by (subst trim_end.simps) (auto simp: hd_take)
  qed (use 1(2) in \<open>simp add: trim_end.simps[of s]\<close>)
qed

lemma trim_start_graphic: "graphic c \<Longrightarrow> trim_start (c # s) = c # s"
  by (simp add: trim_start.simps[of "c # s"] ws_len_graphic)

lemma not_blank_graphic: "graphic c \<Longrightarrow> \<not> is_blank (c # s)"
  using trim_end_graphic[of "c # s"] by (simp add: is_blank_def trim_def trim_start_graphic)

text \<open>Only the last three bytes decide.\<close>

lemma ws_suffix_len_three:
  "ws_suffix_len (x @ [a, b, c]) =
     (if ws_len [c] = 1 then 1 else if ws_len [b, c] = 2 then 2 else if ws_len [a, b, c] = 3 then 3 else 0)"
proof -
  have "drop (length (x @ [a, b, c]) - 1) (x @ [a, b, c]) = [c]"
    "drop (length (x @ [a, b, c]) - 2) (x @ [a, b, c]) = [b, c]"
    "drop (length (x @ [a, b, c]) - 3) (x @ [a, b, c]) = [a, b, c]"
    by simp_all
  then show ?thesis unfolding ws_suffix_len_def by (simp only:) simp
qed

lemma ws_len_colon_space: "ws_len (CHR '':'' # s) = 0" "ws_len (CHR '' '' # s) = 1"
  by (rule ws_len_graphic, simp add: graphic_def byte_def) (simp add: ws_len_def byte_def)

lemma ws_suffix_len_path:
  assumes "header_path p"
  shows "ws_suffix_len (m @ CHR '':'' # CHR '' '' # p) = 0"
proof -
  have z: "ws_suffix_len p = 0" using assms by (simp add: header_path_def)
  consider a where "p = [a]" | a b where "p = [a, b]" | r a b c where "p = r @ [a, b, c]"
    using assms unfolding header_path_def
    by (metis append_butlast_last_id append.assoc append_Cons append_Nil)
  then show ?thesis
  proof cases
    case 1
    have "ws_len [a] \<noteq> 1" using z by (simp add: 1 ws_suffix_len_def split: if_splits)
    then show ?thesis using ws_suffix_len_three[of m] by (simp add: 1 ws_len_colon_space)
  next
    case 2
    have "ws_len [b] \<noteq> 1" "ws_len [a, b] \<noteq> 2" using z by (simp_all add: 2 ws_suffix_len_def split: if_splits)
    then show ?thesis using ws_suffix_len_three[of "m @ '':''"] by (simp add: 2 ws_len_colon_space)
  next
    case 3
    then show ?thesis using z ws_suffix_len_three[of r] ws_suffix_len_three[of "m @ '': '' @ r"] by simp
  qed
qed

lemma trim_header: "graphic c \<Longrightarrow> header_path p \<Longrightarrow> trim (c # m @ CHR '':'' # CHR '' '' # p) = c # m @ CHR '':'' # CHR '' '' # p"
  using ws_suffix_len_path[of p "c # m"] by (simp add: trim_def trim_start_graphic trim_end.simps)

lemma graphic_marks [simp]: "graphic (CHR ''*'')" "graphic (CHR ''@'')"
  by (simp_all add: graphic_def byte_def)

lemma trim_headers:
  assumes "header_path p"
  shows "trim (ADD_FILE_MARKER @ p) = ADD_FILE_MARKER @ p"
    and "trim (DELETE_FILE_MARKER @ p) = DELETE_FILE_MARKER @ p"
    and "trim (UPDATE_FILE_MARKER @ p) = UPDATE_FILE_MARKER @ p"
  using trim_header[OF graphic_marks(1) assms, of "''** Add File''"]
    trim_header[OF graphic_marks(1) assms, of "''** Delete File''"]
    trim_header[OF graphic_marks(1) assms, of "''** Update File''"]
  by (simp_all add: patch_markers)

subsection \<open>Chunks\<close>

text \<open>What may follow a chunk, an update, an added line: nothing, or a marker.\<close>

definition marker_next :: "string list \<Rightarrow> bool" where
  "marker_next rest \<longleftrightarrow> rest = [] \<or> (\<exists>l. hd rest = CHR ''@'' # l) \<or> (\<exists>l. hd rest = ''***'' @ l \<and> hd rest \<noteq> EOF_MARKER)"

definition header_next :: "string list \<Rightarrow> bool" where
  "header_next rest \<longleftrightarrow> rest = [] \<or> (\<exists>l. hd rest = ''***'' @ l \<and> hd rest \<noteq> EOF_MARKER)"

lemma chunk_body_old:
  "chunk_body k (map (Cons (CHR ''-'')) old @ ls) c n =
     chunk_body k ls (c\<lparr>chunk_old := chunk_old c @ old\<rparr>) (n + length old)"
  by (induction old arbitrary: c n) (simp_all add: EOF_MARKER_def)

lemma chunk_body_new:
  "chunk_body k (map (Cons (CHR ''+'')) new @ ls) c n =
     chunk_body k ls (c\<lparr>chunk_new := chunk_new c @ new\<rparr>) (n + length new)"
  by (induction new arbitrary: c n) (simp_all add: EOF_MARKER_def)

lemma chunk_body_stop: "0 < n \<Longrightarrow> marker_next rest \<Longrightarrow> chunk_body k rest c n = Inr (c, n)"
  by (cases rest) (auto simp: marker_next_def EOF_MARKER_def)

lemma chunk_body_eof: "0 < n \<Longrightarrow> chunk_body k (EOF_MARKER # rest) c n = Inr (c\<lparr>is_end_of_file := True\<rparr>, n + 1)"
  by simp

lemma parse_show_chunk:
  assumes "printable_chunk c" "marker_next rest"
  shows "parse_update_file_chunk (show_chunk c @ rest) k b = Inr (c, length (show_chunk c))"
proof -
  have pos: "0 < length (chunk_old c) + length (chunk_new c)" using assms(1) by (simp add: printable_chunk_def)
  have start: "chunk_start (hd (show_chunk c)) b = Some (change_context c, 1)"
  proof (cases "change_context c")
    case (Some x)
    have "CHANGE_CONTEXT_MARKER @ x \<noteq> EMPTY_CHANGE_CONTEXT_MARKER" by (simp add: patch_markers)
    then show ?thesis by (simp add: Some show_chunk_def chunk_start_def)
  qed (simp add: show_chunk_def chunk_start_def)
  have body: "chunk_body k (tl (show_chunk c) @ rest)
      \<lparr>change_context = change_context c, chunk_old = [], chunk_new = [], is_end_of_file = False\<rparr> 0
    = Inr (c, length (show_chunk c) - 1)"
    using pos chunk_body_stop[OF pos assms(2)]
    by (auto simp: show_chunk_def chunk_body_old chunk_body_new chunk_body_eof)
  obtain l r where lr: "show_chunk c = l # r" by (simp add: show_chunk_def)
  have "r \<noteq> []" using pos lr by (auto simp: show_chunk_def)
  then show ?thesis using start body by (simp add: parse_update_file_chunk_def lr)
qed

lemma show_chunk_head: "\<exists>l r. show_chunk c = (CHR ''@'' # l) # r"
  by (simp add: show_chunk_def EMPTY_CHANGE_CONTEXT_MARKER_def CHANGE_CONTEXT_MARKER_def split: option.split)

lemma marker_next_chunks: "header_next rest \<Longrightarrow> marker_next (concat (map show_chunk cs) @ rest)"
proof (cases cs)
  case (Cons c cs')
  then show ?thesis using show_chunk_head[of c] by (auto simp: marker_next_def)
qed (auto simp: marker_next_def header_next_def)

lemma parse_show_chunks:
  "list_all printable_chunk cs \<Longrightarrow> header_next rest \<Longrightarrow>
   update_chunks k (concat (map show_chunk cs) @ rest) acc n = Inr (acc @ cs, n + length (concat (map show_chunk cs)))"
proof (induction cs arbitrary: acc n)
  case Nil
  then show ?case
    using not_blank_graphic[OF graphic_marks(1)] by (cases rest) (auto simp: header_next_def update_chunks.simps)
next
  case (Cons c cs)
  obtain l r where lr: "show_chunk c = (CHR ''@'' # l) # r" using show_chunk_head by blast
  have *: "parse_update_file_chunk (show_chunk c @ concat (map show_chunk cs) @ rest) (k + n) (acc = [])
      = Inr (c, length (show_chunk c))"
    using Cons.prems marker_next_chunks by (intro parse_show_chunk) simp_all
  let ?ls = "concat (map show_chunk (c # cs)) @ rest"
  have "update_chunks k ?ls acc n = update_chunks k (concat (map show_chunk cs) @ rest) (acc @ [c]) (n + length (show_chunk c))"
    using * not_blank_graphic[OF graphic_marks(2), of l]
    by (subst update_chunks.simps) (simp add: lr)
  then show ?case using Cons by simp
qed

subsection \<open>Operations\<close>

lemma added_lines_show:
  "(\<forall>l. rest \<noteq> [] \<longrightarrow> hd rest \<noteq> CHR ''+'' # l) \<Longrightarrow> added_lines (map (Cons (CHR ''+'')) ls @ rest) = ls"
proof (induction ls)
  case Nil
  then show ?case by (cases rest) (auto simp: strip_prefix_Some_iff split: option.split)
next
  case (Cons l ls)
  have "strip_prefix (CHR ''+'' # l) ''+'' = Some l" by (simp add: strip_prefix_Some_iff)
  then show ?case using Cons by simp
qed

lemma header_prefixes [simp]:
  "strip_prefix (ADD_FILE_MARKER @ p) ADD_FILE_MARKER = Some p"
  "strip_prefix (DELETE_FILE_MARKER @ p) ADD_FILE_MARKER = None"
  "strip_prefix (UPDATE_FILE_MARKER @ p) ADD_FILE_MARKER = None"
  "strip_prefix (DELETE_FILE_MARKER @ p) DELETE_FILE_MARKER = Some p"
  "strip_prefix (UPDATE_FILE_MARKER @ p) DELETE_FILE_MARKER = None"
  "strip_prefix (UPDATE_FILE_MARKER @ p) UPDATE_FILE_MARKER = Some p"
  by (simp_all add: strip_prefix_def patch_markers)

lemma chunk_is_no_move: "strip_prefix (CHR ''@'' # l) MOVE_TO_MARKER = None"
  by (simp add: strip_prefix_def MOVE_TO_MARKER_def)

lemma parse_show_op:
  assumes "printable_op h" "header_next rest"
  shows "parse_one_hunk (show_op h @ rest) k = Inr (h, length (show_op h))"
proof (cases h)
  case (AddFile p contents)
  have "added_lines (map (Cons (CHR ''+'')) (text_lines contents) @ rest) = text_lines contents"
    using assms(2) by (intro added_lines_show) (auto simp: header_next_def)
  then show ?thesis using assms(1) trim_headers by (simp add: AddFile parse_one_hunk_def Let_def)
next
  case (DeleteFile p)
  then show ?thesis using assms(1) trim_headers by (simp add: parse_one_hunk_def)
next
  case (UpdateFile p mv cs)
  obtain c cs' where cs: "cs = c # cs'" using assms(1) UpdateFile by (cases cs) auto
  obtain l r where lr: "show_chunk c = (CHR ''@'' # l) # r" using show_chunk_head by blast
  have "update_chunks k (concat (map show_chunk cs) @ rest) [] n = Inr (cs, n + length (concat (map show_chunk cs)))" for n
    using parse_show_chunks[of cs rest k "[]" n] assms UpdateFile by simp
  then show ?thesis
    using assms(1) trim_headers(3)[of p] chunk_is_no_move[of l]
    by (cases mv) (simp_all add: UpdateFile parse_one_hunk_def Let_def cs lr)
qed

lemma show_op_head: "\<exists>l r. show_op h = (''***'' @ l) # r \<and> ''***'' @ l \<noteq> EOF_MARKER"
  by (cases h) (simp_all add: patch_markers)

lemma header_next_ops: "header_next (concat (map show_op hs))"
proof (cases hs)
  case (Cons h hs')
  then show ?thesis using show_op_head[of h] by (auto simp: header_next_def)
qed (simp add: header_next_def)

lemma parse_show_ops: "list_all printable_op hs \<Longrightarrow> parse_hunks (concat (map show_op hs)) k = Inr hs"
proof (induction hs arbitrary: k)
  case (Cons h hs)
  have ne: "show_op h \<noteq> []" using show_op_head[of h] by auto
  have "parse_one_hunk (show_op h @ concat (map show_op hs)) k = Inr (h, length (show_op h))"
    using Cons.prems header_next_ops by (intro parse_show_op) simp_all
  then show ?case using Cons ne by (subst parse_hunks.simps) simp
qed (simp add: parse_hunks.simps)

subsection \<open>Patches\<close>

lemma text_lines_join:
  assumes "list_all plain_line ls" "ls \<noteq> []" "last ls \<noteq> []"
  shows "text_lines (join [CHR 0x0A] ls) = ls"
proof -
  have "map lines_of ls = map (\<lambda>l. [l]) ls"
    using assms(1) by (auto simp: list_all_iff plain_line_def lines_of_single)
  then have "lines_of (join [CHR 0x0A] ls) = ls"
    using assms(2) by (simp add: lines_unlines concat_map_singleton del: map_eq_conv)
  moreover have "map strip_cr (butlast ls) = butlast ls"
    using assms(1) by (auto simp: list_all_iff strip_cr_plain intro!: map_idI dest: in_set_butlastD)
  ultimately show ?thesis using assms by (simp add: text_lines_def)
qed

lemma plain_line_Cons: "plain_line (c # l) \<longleftrightarrow> c \<noteq> CHR 0x0A \<and> c \<noteq> CHR 0x0D \<and> plain_line l"
  by (auto simp: plain_line_def)

lemma plain_line_append: "plain_line (a @ b) \<longleftrightarrow> plain_line a \<and> plain_line b"
  by (auto simp: plain_line_def)

lemma plain_markers [simp]:
  "plain_line BEGIN_PATCH_MARKER" "plain_line END_PATCH_MARKER" "plain_line ADD_FILE_MARKER"
  "plain_line DELETE_FILE_MARKER" "plain_line UPDATE_FILE_MARKER" "plain_line MOVE_TO_MARKER" "plain_line EOF_MARKER"
  "plain_line CHANGE_CONTEXT_MARKER" "plain_line EMPTY_CHANGE_CONTEXT_MARKER"
  by (simp_all add: patch_markers plain_line_def)

lemma show_chunk_plain: "printable_chunk c \<Longrightarrow> list_all plain_line (show_chunk c)"
  by (auto simp: printable_chunk_def show_chunk_def list_all_iff plain_line_append plain_line_Cons split: option.split)

lemma show_op_plain: "printable_op h \<Longrightarrow> list_all plain_line (show_op h)"
  using show_chunk_plain
  by (cases h) (auto simp: list_all_iff plain_line_append plain_line_Cons header_path_def split: option.split)

lemma trim_patch: "trim (join [CHR 0x0A] (BEGIN_PATCH_MARKER # ls @ [END_PATCH_MARKER]))
  = join [CHR 0x0A] (BEGIN_PATCH_MARKER # ls @ [END_PATCH_MARKER])"
proof -
  have tail: "join [CHR 0x0A] (ls @ [END_PATCH_MARKER]) = join [CHR 0x0A] (ls @ [''*** End Pa'']) @ ''tch''"
    by (induction ls) (simp_all add: join_Cons END_PATCH_MARKER_def)
  define x where "x = ''** Begin Patch'' @ CHR 0x0A # join [CHR 0x0A] (ls @ [''*** End Pa''])"
  have x: "join [CHR 0x0A] (BEGIN_PATCH_MARKER # ls @ [END_PATCH_MARKER]) = CHR ''*'' # x @ ''tch''"
    using tail by (simp add: join_Cons BEGIN_PATCH_MARKER_def x_def)
  have "ws_suffix_len (CHR ''*'' # x @ ''tch'') = 0"
    using ws_suffix_len_three[of "CHR ''*'' # x" "CHR ''t''" "CHR ''c''" "CHR ''h''"]
    by (simp add: ws_len_graphic graphic_def byte_def)
  then show ?thesis unfolding x by (simp add: trim_def trim_start_graphic trim_end.simps)
qed

lemma trim_markers: "trim BEGIN_PATCH_MARKER = BEGIN_PATCH_MARKER" "trim END_PATCH_MARKER = END_PATCH_MARKER"
  by code_simp+

lemma boundaries_ok: "check_patch_boundaries_strict (BEGIN_PATCH_MARKER # ls @ [END_PATCH_MARKER]) = None"
  by (simp add: check_patch_boundaries_strict_def check_start_and_end_lines_strict_def trim_markers)

lemma patch_roundtrip_lemma:
  assumes "list_all printable_op hunks"
  shows "parse_patch (show_patch hunks) = Inr (hunks, show_patch hunks)"
proof -
  let ?ls = "BEGIN_PATCH_MARKER # concat (map show_op hunks) @ [END_PATCH_MARKER]"
  have "list_all plain_line ?ls" using assms show_op_plain by (auto simp: list_all_iff)
  then have "text_lines (join [CHR 0x0A] ?ls) = ?ls"
    by (rule text_lines_join) (simp_all add: END_PATCH_MARKER_def)
  then show ?thesis
    using assms by (simp add: parse_patch_def parse_patch_text_def show_patch_def trim_patch boundaries_ok
        parse_show_ops Let_def)
qed

text \<open>C32: printing file operations as a patch and parsing the patch gives the operations back.\<close>

theorem patch_roundtrip:
  assumes "list_all printable_op hunks"
  shows "parse_patch (show_patch hunks) = Inr (hunks, show_patch hunks)"
  by (rule patch_roundtrip_lemma[OF assms])

text \<open>A patch that adds a file, deletes one and moves another while changing two places of it.\<close>

definition demo_ops :: "patch_op list" where
  "demo_ops =
     [AddFile ''a.txt'' (whole_lines [''hi'', []]), DeleteFile ''b.txt'',
      UpdateFile ''c.txt'' (Some ''d.txt'')
        [\<lparr>change_context = None, chunk_old = [''x''], chunk_new = [''y''], is_end_of_file = False\<rparr>,
         \<lparr>change_context = Some ''fn f'', chunk_old = [''z''], chunk_new = [], is_end_of_file = True\<rparr>]]"

theorem patch_roundtrip_witness:
  "parse_patch (show_patch demo_ops) = Inr (demo_ops, show_patch demo_ops) \<and> length demo_ops = 3"
proof -
  have "list_all printable_op demo_ops" by code_simp
  from patch_roundtrip[OF this] show ?thesis by (simp add: demo_ops_def)
qed

end
