(* ===== verification/Patch_Apply.thy ===== *)
theory Patch_Apply
  imports Patch_Parser
begin

text \<open>
  Applying an update to the text of a file
  (\<open>src/crates/codegen/xai-grok-tools/src/implementations/codex/apply_patch/seek_sequence.rs\<close>, \<open>apply.rs\<close>): the lines of a chunk are
  sought in the file with decreasing strictness, and all chunks found are replaced from the last one up.

  What applying an update does: lines are sought with the strictest reading that finds them and at the first place,
  the replacement never panics, and the chunks of an edit script turn the old text into the new one.
\<close>

section \<open>Patch apply\<close>

subsection \<open>Seeking lines\<close>

text \<open>Typographic punctuation read as ASCII, on the UTF-8 bytes of the text.\<close>

definition plain_punctuation :: "nat \<Rightarrow> nat \<Rightarrow> nat \<Rightarrow> char option" where
  "plain_punctuation a b c =
     (if a = 0xE2 \<and> b = 0x80 \<and> 0x90 \<le> c \<and> c \<le> 0x95 \<or> a = 0xE2 \<and> b = 0x88 \<and> c = 0x92 then Some (CHR ''-'')
      else if a = 0xE2 \<and> b = 0x80 \<and> 0x98 \<le> c \<and> c \<le> 0x9B then Some (CHR 0x27)
      else if a = 0xE2 \<and> b = 0x80 \<and> 0x9C \<le> c \<and> c \<le> 0x9F then Some (CHR 0x22)
      else if a = 0xE2 \<and> b = 0x80 \<and> (0x82 \<le> c \<and> c \<le> 0x8A \<or> c = 0xAF)
           \<or> a = 0xE2 \<and> b = 0x81 \<and> c = 0x9F \<or> a = 0xE3 \<and> b = 0x80 \<and> c = 0x80 then Some (CHR '' '')
      else None)"

fun normalise_chars :: "string \<Rightarrow> string" where
  "normalise_chars (a # b # c # s) =
     (case plain_punctuation (byte a) (byte b) (byte c) of
        Some p \<Rightarrow> p # normalise_chars s
      | None \<Rightarrow> if byte a = 0xC2 \<and> byte b = 0xA0 then CHR '' '' # normalise_chars (c # s)
                else a # normalise_chars (b # c # s))"
| "normalise_chars [a, b] = (if byte a = 0xC2 \<and> byte b = 0xA0 then '' '' else [a, b])"
| "normalise_chars s = s"

definition normalise :: "string \<Rightarrow> string" where
  "normalise s = normalise_chars (trim s)"

text \<open>The first position, from \<open>i\<close> and up to \<open>fuel\<close> further, where the lines agree with the pattern under a reading.\<close>

definition matches_at :: "(string \<Rightarrow> string) \<Rightarrow> string list \<Rightarrow> string list \<Rightarrow> nat \<Rightarrow> bool" where
  "matches_at reading ls pat i \<longleftrightarrow> map reading (take (length pat) (drop i ls)) = map reading pat"

definition seek_pass :: "(string \<Rightarrow> string) \<Rightarrow> string list \<Rightarrow> string list \<Rightarrow> nat \<Rightarrow> nat option" where
  "seek_pass reading ls pat start = find (matches_at reading ls pat) [start..<length ls - length pat + 1]"

definition seek_sequence :: "string list \<Rightarrow> string list \<Rightarrow> nat \<Rightarrow> bool \<Rightarrow> nat option" where
  "seek_sequence ls pat start eof =
     (if pat = [] then Some start
      else if length pat > length ls then None
      else
        (let search_start = (if eof \<and> length ls \<ge> length pat then length ls - length pat else start) in
         case seek_pass id ls pat search_start of Some i \<Rightarrow> Some i
         | None \<Rightarrow> (case seek_pass trim_end ls pat search_start of Some i \<Rightarrow> Some i
         | None \<Rightarrow> (case seek_pass trim ls pat search_start of Some i \<Rightarrow> Some i
         | None \<Rightarrow> seek_pass normalise ls pat search_start))))"

subsection \<open>Replacements\<close>

type_synonym replacement = "nat \<times> nat \<times> string list"

text \<open>What one chunk replaces, and the line the search for the next one starts from.\<close>

definition chunk_context_line :: "string list \<Rightarrow> string \<Rightarrow> nat \<Rightarrow> patch_chunk \<Rightarrow> string + nat" where
  "chunk_context_line ls path line_index chunk =
     (case change_context chunk of
        None \<Rightarrow> Inr line_index
      | Some ctx \<Rightarrow>
          (case seek_sequence ls [ctx] line_index False of
             Some i \<Rightarrow> Inr (i + 1)
           | None \<Rightarrow> Inl (''Failed to find context '' @ in_quotes ctx @ '' in '' @ path)))"

definition ends_empty :: "string list \<Rightarrow> bool" where
  "ends_empty ls \<longleftrightarrow> ls \<noteq> [] \<and> last ls = []"

definition chunk_match :: "string list \<Rightarrow> patch_chunk \<Rightarrow> nat \<Rightarrow> replacement option" where
  "chunk_match ls chunk line_index =
     (case seek_sequence ls (chunk_old chunk) line_index (is_end_of_file chunk) of
        Some i \<Rightarrow> Some (i, length (chunk_old chunk), chunk_new chunk)
      | None \<Rightarrow>
          if ends_empty (chunk_old chunk)
          then (let pat = butlast (chunk_old chunk);
                    new = (if ends_empty (chunk_new chunk) then butlast (chunk_new chunk) else chunk_new chunk) in
                map_option (\<lambda>i. (i, length pat, new)) (seek_sequence ls pat line_index (is_end_of_file chunk)))
          else None)"

fun chunk_replacements :: "string list \<Rightarrow> string \<Rightarrow> patch_chunk list \<Rightarrow> nat \<Rightarrow> string + replacement list" where
  "chunk_replacements ls path [] line_index = Inr []"
| "chunk_replacements ls path (chunk # chunks) line_index =
     (case chunk_context_line ls path line_index chunk of
        Inl e \<Rightarrow> Inl e
      | Inr at_line \<Rightarrow>
          if chunk_old chunk = []
          then (let at_end = (if ends_empty ls then length ls - 1 else length ls) in
                map_sum id ((#) (at_end, 0, chunk_new chunk)) (chunk_replacements ls path chunks at_line))
          else (case chunk_match ls chunk at_line of
                  None \<Rightarrow> Inl (''Failed to find expected lines in '' @ path @ '':'' @ [CHR 0x0A]
                               @ join [CHR 0x0A] (chunk_old chunk))
                | Some (i, n, new) \<Rightarrow>
                    map_sum id ((#) (i, n, new)) (chunk_replacements ls path chunks (i + n))))"

definition compute_replacements :: "string list \<Rightarrow> string \<Rightarrow> patch_chunk list \<Rightarrow> string + replacement list" where
  "compute_replacements ls path chunks = map_sum id (sort_key fst) (chunk_replacements ls path chunks 0)"

text \<open>
  One replacement: \<open>remove\<close> at the same place as often as there are old lines, then inserts one after the other.
  An insertion beyond the end panics; \<open>None\<close> stands for that.
\<close>

fun remove_lines :: "nat \<Rightarrow> nat \<Rightarrow> string list \<Rightarrow> string list" where
  "remove_lines 0 i ls = ls"
| "remove_lines (Suc n) i ls = remove_lines n i (if i < length ls then take i ls @ drop (i + 1) ls else ls)"

fun insert_lines :: "string list \<Rightarrow> nat \<Rightarrow> string list \<Rightarrow> string list option" where
  "insert_lines [] i ls = Some ls"
| "insert_lines (n # new) i ls =
     (if i \<le> length ls then insert_lines new (i + 1) (take i ls @ n # drop i ls) else None)"

fun apply_reversed :: "string list \<Rightarrow> replacement list \<Rightarrow> string list option" where
  "apply_reversed ls [] = Some ls"
| "apply_reversed ls ((i, n, new) # rs) =
     (case insert_lines new i (remove_lines n i ls) of None \<Rightarrow> None | Some ls' \<Rightarrow> apply_reversed ls' rs)"

definition apply_replacements :: "string list \<Rightarrow> replacement list \<Rightarrow> string list option" where
  "apply_replacements ls rs = apply_reversed ls (rev rs)"

text \<open>The new text: an error to report, or a text; \<open>None\<close> for a panic.\<close>

definition derive_new_contents :: "string \<Rightarrow> string \<Rightarrow> patch_chunk list \<Rightarrow> (string + string) option" where
  "derive_new_contents original path chunks =
     (let parts = lines_of original;
          ls = (if ends_empty parts then butlast parts else parts) in
      case compute_replacements ls path chunks of
        Inl e \<Rightarrow> Some (Inl e)
      | Inr rs \<Rightarrow>
          map_option (\<lambda>new. Inr (join [CHR 0x0A] (if ends_empty new then new else new @ [[]])))
            (apply_replacements ls rs))"

section \<open>Patch applying\<close>

subsection \<open>Seeking\<close>

lemma find_upt_Some_iff:
  "find P [a..<b] = Some i \<longleftrightarrow> a \<le> i \<and> i < b \<and> P i \<and> (\<forall>j. a \<le> j \<and> j < i \<longrightarrow> \<not> P j)"
proof (induction "b - a" arbitrary: a)
  case (Suc n)
  then have "[a..<b] = a # [Suc a..<b]" by (simp add: upt_rec)
  then show ?case using Suc.hyps(1)[of "Suc a"] Suc.hyps(2)
    by (auto simp: less_Suc_eq_le) (metis Suc_leI le_eq_less_or_eq not_less_eq_eq)+
qed auto

lemma find_upt_None_iff: "find P [a..<b] = None \<longleftrightarrow> (\<forall>j. a \<le> j \<and> j < b \<longrightarrow> \<not> P j)"
  by (auto simp: find_None_iff)

definition seek_readings :: "(string \<Rightarrow> string) list" where
  "seek_readings = [id, trim_end, trim, normalise]"

definition seek_from :: "string list \<Rightarrow> string list \<Rightarrow> nat \<Rightarrow> bool \<Rightarrow> nat" where
  "seek_from ls pat start eof = (if eof then length ls - length pat else start)"

lemma seek_pass_Some_iff:
  "length pat \<le> length ls \<Longrightarrow>
   seek_pass f ls pat start = Some i \<longleftrightarrow>
     start \<le> i \<and> i + length pat \<le> length ls \<and> matches_at f ls pat i \<and> (\<forall>j. start \<le> j \<and> j < i \<longrightarrow> \<not> matches_at f ls pat j)"
  unfolding seek_pass_def find_upt_Some_iff by (auto simp: less_Suc_eq_le le_diff_conv2)

lemma seek_pass_None_iff:
  "length pat \<le> length ls \<Longrightarrow>
   seek_pass f ls pat start = None \<longleftrightarrow> (\<forall>j. start \<le> j \<and> j + length pat \<le> length ls \<longrightarrow> \<not> matches_at f ls pat j)"
  unfolding seek_pass_def find_upt_None_iff by (auto simp: less_Suc_eq_le le_diff_conv2)

lemma seek_sequence_strictest_first_lemma:
  assumes "pat \<noteq> []"
  shows "case seek_sequence ls pat start eof of
      Some i \<Rightarrow> \<exists>k < 4. seek_from ls pat start eof \<le> i \<and> i + length pat \<le> length ls
        \<and> matches_at (seek_readings ! k) ls pat i
        \<and> (\<forall>j. seek_from ls pat start eof \<le> j \<and> j < i \<longrightarrow> \<not> matches_at (seek_readings ! k) ls pat j)
        \<and> (\<forall>k' < k. \<forall>j. seek_from ls pat start eof \<le> j \<and> j + length pat \<le> length ls
             \<longrightarrow> \<not> matches_at (seek_readings ! k') ls pat j)
    | None \<Rightarrow> \<forall>k < 4. \<forall>j. seek_from ls pat start eof \<le> j \<and> j + length pat \<le> length ls
             \<longrightarrow> \<not> matches_at (seek_readings ! k) ls pat j"
proof (cases "length pat \<le> length ls")
  case False
  then show ?thesis by (simp add: seek_sequence_def assms)
next
  case True
  define s where "s = seek_from ls pat start eof"
  define pass where "pass k = seek_pass (seek_readings ! k) ls pat s" for k
  have eq: "seek_sequence ls pat start eof =
     (case pass 0 of Some i \<Rightarrow> Some i | None \<Rightarrow> (case pass 1 of Some i \<Rightarrow> Some i
      | None \<Rightarrow> (case pass 2 of Some i \<Rightarrow> Some i | None \<Rightarrow> pass 3)))"
  proof -
    have "pass 0 = seek_pass id ls pat s" "pass 1 = seek_pass trim_end ls pat s" "pass 2 = seek_pass trim ls pat s"
      "pass 3 = seek_pass normalise ls pat s"
      by (simp_all add: pass_def seek_readings_def)
    moreover have "(if eof \<and> length ls \<ge> length pat then length ls - length pat else start) = s"
      using True by (simp add: s_def seek_from_def)
    moreover have "\<not> length pat > length ls" using True by simp
    ultimately show ?thesis unfolding seek_sequence_def Let_def using assms by presburger
  qed
  have found: "s \<le> i \<and> i + length pat \<le> length ls \<and> matches_at (seek_readings ! k) ls pat i
      \<and> (\<forall>j. s \<le> j \<and> j < i \<longrightarrow> \<not> matches_at (seek_readings ! k) ls pat j)" if "pass k = Some i" for k i
    using that True by (simp add: pass_def seek_pass_Some_iff)
  have missed: "\<forall>j. s \<le> j \<and> j + length pat \<le> length ls \<longrightarrow> \<not> matches_at (seek_readings ! k) ls pat j"
    if "pass k = None" for k
    using that True by (simp add: pass_def seek_pass_None_iff)
  have below: "k < 4 \<longleftrightarrow> k = 0 \<or> k = 1 \<or> k = 2 \<or> k = 3" for k :: nat by auto
  consider i where "pass 0 = Some i" | i where "pass 0 = None" "pass 1 = Some i"
    | i where "pass 0 = None" "pass 1 = None" "pass 2 = Some i"
    | i where "pass 0 = None" "pass 1 = None" "pass 2 = None" "pass 3 = Some i"
    | "pass 0 = None" "pass 1 = None" "pass 2 = None" "pass 3 = None"
    by (cases "pass 0"; cases "pass 1"; cases "pass 2"; cases "pass 3") auto
  then show ?thesis
  proof cases
    case 1
    then show ?thesis using found[OF 1] eq unfolding s_def[symmetric] by (auto intro!: exI[of _ 0])
  next
    case 2
    then show ?thesis using found[OF 2(2)] missed[OF 2(1)] eq unfolding s_def[symmetric]
      by (auto intro!: exI[of _ 1])
  next
    case 3
    then show ?thesis using found[OF 3(3)] missed[OF 3(1)] missed[OF 3(2)] eq unfolding s_def[symmetric]
      by (auto intro!: exI[of _ 2] simp: less_2_cases_iff)
  next
    case 4
    have "k' < 3 \<longleftrightarrow> k' = 0 \<or> k' = 1 \<or> k' = 2" for k' :: nat by auto
    with 4 show ?thesis using found[OF 4(4)] missed[OF 4(1)] missed[OF 4(2)] missed[OF 4(3)] eq
      unfolding s_def[symmetric] by (auto intro!: exI[of _ 3])
  next
    case 5
    then show ?thesis using missed[OF 5(1)] missed[OF 5(2)] missed[OF 5(3)] missed[OF 5(4)] eq
      unfolding s_def[symmetric] by (simp add: below)
  qed
qed

text \<open>
  Lines are found under the strictest of the four readings that fits anywhere, and at the first place where it
  fits; they are not found only when none fits.
\<close>

theorem seek_sequence_strictest_first:
  assumes "pat \<noteq> []"
  shows "case seek_sequence ls pat start eof of
      Some i \<Rightarrow> \<exists>k < 4. seek_from ls pat start eof \<le> i \<and> i + length pat \<le> length ls
        \<and> matches_at (seek_readings ! k) ls pat i
        \<and> (\<forall>j. seek_from ls pat start eof \<le> j \<and> j < i \<longrightarrow> \<not> matches_at (seek_readings ! k) ls pat j)
        \<and> (\<forall>k' < k. \<forall>j. seek_from ls pat start eof \<le> j \<and> j + length pat \<le> length ls
             \<longrightarrow> \<not> matches_at (seek_readings ! k') ls pat j)
    | None \<Rightarrow> \<forall>k < 4. \<forall>j. seek_from ls pat start eof \<le> j \<and> j + length pat \<le> length ls
             \<longrightarrow> \<not> matches_at (seek_readings ! k) ls pat j"
  by (rule seek_sequence_strictest_first_lemma[OF assms])

theorem seek_sequence_strictest_first_witness:
  "seek_sequence [''a'', '' b'', ''b''] [''b ''] 0 False = Some 2
   \<and> (case seek_sequence [''a'', '' b'', ''b''] [''b ''] 0 False of
      Some i \<Rightarrow> \<exists>k < 4. seek_from [''a'', '' b'', ''b''] [''b ''] 0 False \<le> i \<and> i + length [''b ''] \<le> length [''a'', '' b'', ''b'']
        \<and> matches_at (seek_readings ! k) [''a'', '' b'', ''b''] [''b ''] i
    | None \<Rightarrow> False)"
proof -
  have r: "seek_sequence [''a'', '' b'', ''b''] [''b ''] 0 False = Some 2" by code_simp
  have "[''b ''] \<noteq> []" by simp
  from seek_sequence_strictest_first[OF this, of "[''a'', '' b'', ''b'']" 0 False] show ?thesis
    unfolding r by (auto simp del: append.simps)
qed

subsection \<open>No panic\<close>

lemma remove_lines_keeps: "i \<le> length ls \<Longrightarrow> i \<le> length (remove_lines n i ls)"
  by (induction n arbitrary: ls) auto

lemma insert_lines_length:
  "i \<le> length ls \<Longrightarrow> \<exists>ls'. insert_lines new i ls = Some ls' \<and> length ls' = length ls + length new"
proof (induction new arbitrary: i ls)
  case (Cons a new)
  show ?case using Cons.IH[of "Suc i" "take i ls @ a # drop i ls"] Cons.prems by auto
qed simp

lemma apply_reversed_total:
  "sorted_wrt (\<lambda>a b. fst b \<le> fst a) rs \<Longrightarrow> \<forall>r \<in> set rs. fst r \<le> length ls \<Longrightarrow> apply_reversed ls rs \<noteq> None"
proof (induction rs arbitrary: ls)
  case (Cons r rs)
  obtain i n new where r: "r = (i, n, new)" by (cases r)
  have "i \<le> length (remove_lines n i ls)" using Cons.prems(2) r by (simp add: remove_lines_keeps)
  then obtain ls' where ls': "insert_lines new i (remove_lines n i ls) = Some ls'"
    and len: "length ls' = length (remove_lines n i ls) + length new"
    using insert_lines_length by blast
  have "\<forall>q \<in> set rs. fst q \<le> length ls'"
    using Cons.prems(1) len \<open>i \<le> length (remove_lines n i ls)\<close> by (auto simp: r)
  then show ?case using Cons.IH Cons.prems(1) by (simp add: r ls')
qed simp

lemma seek_sequence_in_range:
  assumes "seek_sequence ls pat start eof = Some i" "start \<le> length ls"
  shows "i + length pat \<le> length ls"
proof (cases "pat = []")
  case True
  then show ?thesis using assms by (simp add: seek_sequence_def)
next
  case False
  then show ?thesis using seek_sequence_strictest_first_lemma[OF False, of ls start eof] assms(1) by auto
qed

lemma chunk_match_in_range:
  assumes "chunk_match ls c k = Some (i, n, new)" "k \<le> length ls"
  shows "i + n \<le> length ls"
  using assms seek_sequence_in_range
  by (fastforce simp: chunk_match_def Let_def split: option.splits if_splits)

lemma chunk_context_line_in_range:
  assumes "chunk_context_line ls path k c = Inr j" "k \<le> length ls"
  shows "j \<le> length ls"
  using assms seek_sequence_in_range[of ls "[the (change_context c)]" k False]
  by (auto simp: chunk_context_line_def split: option.splits)

lemma chunk_replacements_in_range:
  "chunk_replacements ls path cs k = Inr rs \<Longrightarrow> k \<le> length ls \<Longrightarrow> \<forall>r \<in> set rs. fst r \<le> length ls"
proof (induction ls path cs k arbitrary: rs rule: chunk_replacements.induct)
  case (2 ls path c cs k)
  obtain j where j: "chunk_context_line ls path k c = Inr j" using "2.prems"(1) by (auto split: sum.splits)
  have jl: "j \<le> length ls" by (rule chunk_context_line_in_range[OF j "2.prems"(2)])
  show ?case
  proof (cases "chunk_old c = []")
    case True
    then obtain rs' where rs': "chunk_replacements ls path cs j = Inr rs'" using "2.prems"(1) j
      by (cases "chunk_replacements ls path cs j") auto
    then show ?thesis using "2.IH"(1)[OF j True refl rs' jl] "2.prems"(1) j True by (auto simp: Let_def)
  next
    case False
    obtain i n new where m: "chunk_match ls c j = Some (i, n, new)" using "2.prems"(1) j False
      by (auto split: option.splits)
    have il: "i + n \<le> length ls" by (rule chunk_match_in_range[OF m jl])
    obtain rs' where rs': "chunk_replacements ls path cs (i + n) = Inr rs'" using "2.prems"(1) j False m
      by (cases "chunk_replacements ls path cs (i + n)") auto
    then show ?thesis using "2.IH"(2)[OF j False m refl refl rs' il] "2.prems"(1) j False m il by auto
  qed
qed simp

lemma derive_new_contents_total_lemma: "derive_new_contents original path chunks \<noteq> None"
proof -
  define ls where "ls = (if ends_empty (lines_of original) then butlast (lines_of original) else lines_of original)"
  show ?thesis
  proof (cases "chunk_replacements ls path chunks 0")
    case (Inr rs)
    have "\<forall>r \<in> set rs. fst r \<le> length ls" by (rule chunk_replacements_in_range[OF Inr]) simp
    moreover have "sorted_wrt (\<lambda>a b. fst b \<le> fst a) (rev (sort_key fst rs))"
      using sorted_sort_key[of fst rs] by (simp add: sorted_wrt_rev sorted_wrt_map)
    ultimately have "apply_replacements ls (sort_key fst rs) \<noteq> None"
      unfolding apply_replacements_def by (intro apply_reversed_total) simp_all
    then show ?thesis
      by (auto simp: derive_new_contents_def Let_def compute_replacements_def Inr simp flip: ls_def)
  qed (simp add: derive_new_contents_def Let_def compute_replacements_def flip: ls_def)
qed

subsection \<open>Edit scripts\<close>

text \<open>
  An edit script goes through a text: lines kept, then lines replaced, with a context line to look for first when the
  lines to replace stand in the kept ones too.
\<close>

record script_edit =
  se_context :: "string option"
  se_kept :: "string list"
  se_old :: "string list"
  se_new :: "string list"

definition edit_chunk :: "script_edit \<Rightarrow> patch_chunk" where
  "edit_chunk e =
     \<lparr>change_context = se_context e, chunk_old = se_old e, chunk_new = se_new e, is_end_of_file = False\<rparr>"

definition text_before :: "script_edit list \<Rightarrow> string list \<Rightarrow> string list" where
  "text_before es tail = concat (map (\<lambda>e. se_kept e @ se_old e) es) @ tail"

definition text_after :: "script_edit list \<Rightarrow> string list \<Rightarrow> string list" where
  "text_after es tail = concat (map (\<lambda>e. se_kept e @ se_new e) es) @ tail"

text \<open>Where the search in the kept lines starts, and that the first place found is the right one.\<close>

definition search_offset :: "script_edit \<Rightarrow> nat" where
  "search_offset e =
     (case se_context e of None \<Rightarrow> 0 | Some x \<Rightarrow> length (takeWhile (\<lambda>l. l \<noteq> x) (se_kept e)) + 1)"

fun script_is_found :: "script_edit list \<Rightarrow> string list \<Rightarrow> bool" where
  "script_is_found [] tail \<longleftrightarrow> True"
| "script_is_found (e # es) tail \<longleftrightarrow>
     se_old e \<noteq> [] \<and> (case se_context e of None \<Rightarrow> True | Some x \<Rightarrow> x \<in> set (se_kept e))
     \<and> list_all (\<lambda>j. \<not> matches_at id (text_before (e # es) tail) (se_old e) j) [search_offset e..<length (se_kept e)]
     \<and> script_is_found es tail"

fun script_replacements :: "nat \<Rightarrow> script_edit list \<Rightarrow> replacement list" where
  "script_replacements n [] = []"
| "script_replacements n (e # es) =
     (n + length (se_kept e), length (se_old e), se_new e)
       # script_replacements (n + length (se_kept e) + length (se_old e)) es"

lemma text_before_Cons: "text_before (e # es) tail = se_kept e @ se_old e @ text_before es tail"
  by (simp add: text_before_def)

lemma text_after_Cons: "text_after (e # es) tail = se_kept e @ se_new e @ text_after es tail"
  by (simp add: text_after_def)

lemma seek_sequence_exact:
  assumes "pat \<noteq> []" "start \<le> i" "i + length pat \<le> length ls" "matches_at id ls pat i"
    "\<And>j. start \<le> j \<Longrightarrow> j < i \<Longrightarrow> \<not> matches_at id ls pat j"
  shows "seek_sequence ls pat start False = Some i"
proof -
  have "seek_pass id ls pat start = Some i" using assms by (subst seek_pass_Some_iff) auto
  then show ?thesis using assms(1,3) by (simp add: seek_sequence_def)
qed

lemma matches_at_id: "matches_at id ls pat i \<longleftrightarrow> take (length pat) (drop i ls) = pat"
  by (simp add: matches_at_def)

lemma matches_at_single: "matches_at id ls [x] i \<longleftrightarrow> i < length ls \<and> ls ! i = x"
proof (cases "i < length ls")
  case True
  then show ?thesis by (simp add: matches_at_id flip: Cons_nth_drop_Suc)
qed (simp add: matches_at_id)

lemma takeWhile_position:
  assumes "x \<in> set xs"
  shows "length (takeWhile (\<lambda>l. l \<noteq> x) xs) < length xs" "xs ! length (takeWhile (\<lambda>l. l \<noteq> x) xs) = x"
    "j < length (takeWhile (\<lambda>l. l \<noteq> x) xs) \<Longrightarrow> xs ! j \<noteq> x"
proof -
  let ?t = "takeWhile (\<lambda>l. l \<noteq> x) xs"
  have d: "dropWhile (\<lambda>l. l \<noteq> x) xs \<noteq> []" using assms by (auto simp: dropWhile_eq_Nil_conv)
  have split: "xs = ?t @ dropWhile (\<lambda>l. l \<noteq> x) xs" by simp
  then have "length xs = length ?t + length (dropWhile (\<lambda>l. l \<noteq> x) xs)" by (metis length_append)
  then show lt: "length ?t < length xs" using d by simp
  show "xs ! length ?t = x" using nth_length_takeWhile[OF lt] by simp
  show "xs ! j \<noteq> x" if "j < length ?t"
    using set_takeWhileD[OF nth_mem[OF that]] takeWhile_nth[OF that] by simp
qed

lemma found_context:
  assumes "case se_context e of None \<Rightarrow> True | Some x \<Rightarrow> x \<in> set (se_kept e)"
  shows "chunk_context_line (don @ text_before (e # es) tail) path (length don) (edit_chunk e) = Inr (length don + search_offset e)"
proof (cases "se_context e")
  case (Some x)
  let ?ls = "don @ text_before (e # es) tail" and ?n = "length (takeWhile (\<lambda>l. l \<noteq> x) (se_kept e))"
  have x: "x \<in> set (se_kept e)" using assms Some by simp
  note pos = takeWhile_position[OF x]
  have one: "matches_at id ?ls [x] (length don + j) \<longleftrightarrow> se_kept e ! j = x" if "j < length (se_kept e)" for j
    using that by (simp add: matches_at_single text_before_Cons nth_append)
  have "seek_sequence ?ls [x] (length don) False = Some (length don + ?n)"
  proof (rule seek_sequence_exact)
    show "matches_at id ?ls [x] (length don + ?n)" using one[OF pos(1)] pos(2) by blast
    show "\<not> matches_at id ?ls [x] j" if j: "length don \<le> j" "j < length don + ?n" for j
    proof -
      obtain m where m: "j = length don + m" using j(1) le_Suc_ex by blast
      then have "m < ?n" using j(2) by simp
      moreover have "m < length (se_kept e)" using pos(1) calculation by (rule order.strict_trans[rotated])
      ultimately show ?thesis using one[of m] pos(3)[of m] m by blast
    qed
    show "length don + ?n + length [x] \<le> length ?ls" using pos(1) by (simp add: text_before_Cons)
  qed simp_all
  then show ?thesis by (simp add: chunk_context_line_def edit_chunk_def search_offset_def Some)
qed (simp add: chunk_context_line_def edit_chunk_def search_offset_def)

lemma found_old:
  assumes "script_is_found (e # es) tail" "search_offset e \<le> length (se_kept e)"
  shows "seek_sequence (don @ text_before (e # es) tail) (se_old e) (length don + search_offset e) False
    = Some (length don + length (se_kept e))"
proof (rule seek_sequence_exact)
  let ?ls = "don @ text_before (e # es) tail"
  show "se_old e \<noteq> []" using assms by simp
  show "matches_at id ?ls (se_old e) (length don + length (se_kept e))"
    by (simp add: matches_at_id text_before_Cons)
  show "\<not> matches_at id ?ls (se_old e) j"
    if j: "length don + search_offset e \<le> j" "j < length don + length (se_kept e)" for j
  proof -
    have "j - length don \<in> set [search_offset e..<length (se_kept e)]" using j by auto
    then have "\<not> matches_at id (text_before (e # es) tail) (se_old e) (j - length don)"
      using assms(1) by (auto simp only: script_is_found.simps list_all_iff)
    then show ?thesis using j by (simp add: matches_at_id)
  qed
qed (use assms in \<open>simp_all add: text_before_Cons\<close>)

lemma search_offset_kept:
  "(case se_context e of None \<Rightarrow> True | Some x \<Rightarrow> x \<in> set (se_kept e)) \<Longrightarrow> search_offset e \<le> length (se_kept e)"
  using takeWhile_position(1) by (fastforce simp: search_offset_def split: option.splits)

lemma script_chunk_replacements:
  "script_is_found es tail \<Longrightarrow>
   chunk_replacements (don @ text_before es tail) path (map edit_chunk es) (length don) = Inr (script_replacements (length don) es)"
proof (induction es arbitrary: don)
  case (Cons e es)
  let ?ls = "don @ text_before (e # es) tail"
  have c: "case se_context e of None \<Rightarrow> True | Some x \<Rightarrow> x \<in> set (se_kept e)" using Cons.prems by simp
  have "chunk_replacements ((don @ se_kept e @ se_old e) @ text_before es tail) path (map edit_chunk es)
      (length (don @ se_kept e @ se_old e)) = Inr (script_replacements (length (don @ se_kept e @ se_old e)) es)"
    by (rule Cons.IH) (use Cons.prems in simp)
  then have "chunk_replacements ?ls path (map edit_chunk es) (length don + length (se_kept e) + length (se_old e))
      = Inr (script_replacements (length don + length (se_kept e) + length (se_old e)) es)"
    by (simp add: text_before_Cons add.assoc)
  moreover have "chunk_match ?ls (edit_chunk e) (length don + search_offset e)
      = Some (length don + length (se_kept e), length (se_old e), se_new e)"
    using found_old[OF Cons.prems search_offset_kept[OF c]] by (simp add: chunk_match_def edit_chunk_def)
  moreover have "chunk_old (edit_chunk e) \<noteq> []" using Cons.prems by (simp add: edit_chunk_def)
  ultimately show ?case by (simp add: found_context[OF c])
qed simp

lemma apply_reversed_append:
  "apply_reversed ls (xs @ ys) = (case apply_reversed ls xs of None \<Rightarrow> None | Some ls' \<Rightarrow> apply_reversed ls' ys)"
  by (induction ls xs rule: apply_reversed.induct) (auto split: option.split)

lemma remove_lines_exact: "remove_lines (length o') (length pre) (pre @ o' @ rest) = pre @ rest"
  by (induction o') simp_all

lemma insert_lines_exact: "insert_lines new (length pre) (pre @ rest) = Some (pre @ new @ rest)"
proof (induction new arbitrary: pre)
  case (Cons l new)
  show ?case using Cons.IH[of "pre @ [l]"] by simp
qed simp

lemma script_applied:
  "apply_replacements (don @ text_before es tail) (script_replacements (length don) es) = Some (don @ text_after es tail)"
proof (induction es arbitrary: don)
  case Nil
  then show ?case by (simp add: apply_replacements_def text_before_def text_after_def)
next
  case (Cons e es)
  let ?i = "length don + length (se_kept e)"
  have "apply_replacements ((don @ se_kept e @ se_old e) @ text_before es tail)
      (script_replacements (length (don @ se_kept e @ se_old e)) es) = Some ((don @ se_kept e @ se_old e) @ text_after es tail)"
    by (rule Cons.IH)
  then have rest: "apply_reversed (don @ text_before (e # es) tail) (rev (script_replacements (?i + length (se_old e)) es))
      = Some ((don @ se_kept e) @ se_old e @ text_after es tail)"
    by (simp add: apply_replacements_def text_before_Cons add.assoc)
  have "remove_lines (length (se_old e)) ?i ((don @ se_kept e) @ se_old e @ text_after es tail)
      = (don @ se_kept e) @ text_after es tail"
    using remove_lines_exact[of "se_old e" "don @ se_kept e"] by simp
  moreover have "insert_lines (se_new e) ?i ((don @ se_kept e) @ text_after es tail)
      = Some ((don @ se_kept e) @ se_new e @ text_after es tail)"
    using insert_lines_exact[of "se_new e" "don @ se_kept e"] by simp
  ultimately show ?case
    by (simp add: apply_replacements_def apply_reversed_append rest text_after_Cons)
qed

lemma script_replacements_sorted:
  "sorted (map fst (script_replacements n es)) \<and> (\<forall>r \<in> set (script_replacements n es). n \<le> fst r)"
  by (induction n es rule: script_replacements.induct) auto

lemma lines_of_text: "list_all plain_line ls \<Longrightarrow>
  (if ends_empty (lines_of (whole_lines ls)) then butlast (lines_of (whole_lines ls)) else lines_of (whole_lines ls)) = ls"
  by (simp add: lines_of_whole_lines ends_empty_def)

lemma join_with_feed: "join [CHR 0x0A] (ls @ [[]]) = whole_lines ls"
  by (induction ls) (simp_all add: join_Cons)

text \<open>What the text of a file becomes: its lines, but an empty last line is lost.\<close>

definition rejoined :: "string list \<Rightarrow> string" where
  "rejoined ls = whole_lines (if ends_empty ls then butlast ls else ls)"

lemma rejoined_eq: "join [CHR 0x0A] (if ends_empty ls then ls else ls @ [[]]) = rejoined ls"
proof (cases "ends_empty ls")
  case True
  then have "ls = butlast ls @ [[]]" by (metis append_butlast_last_id ends_empty_def)
  then show ?thesis using True join_with_feed[of "butlast ls"] by (simp add: rejoined_def)
qed (simp add: rejoined_def join_with_feed)

lemma script_derives:
  assumes "script_is_found es tail" "list_all plain_line (text_before es tail)"
  shows "derive_new_contents (whole_lines (text_before es tail)) path (map edit_chunk es) = Some (Inr (rejoined (text_after es tail)))"
proof -
  have "compute_replacements (text_before es tail) path (map edit_chunk es) = Inr (script_replacements 0 es)"
    using script_chunk_replacements[OF assms(1), of "[]" path] script_replacements_sorted[of 0 es]
    by (simp add: compute_replacements_def sorted_sort_id sort_key_id_if_sorted)
  moreover have "apply_replacements (text_before es tail) (script_replacements 0 es) = Some (text_after es tail)"
    using script_applied[of "[]"] by simp
  ultimately show ?thesis
    unfolding derive_new_contents_def Let_def lines_of_text[OF assms(2)] by (simp add: rejoined_eq)
qed

text \<open>
  The chunks of an edit script, applied to the text the script reads, give the text it describes, with context
  lines and repeated lines, as long as every chunk's lines are found first at their own place; only an empty last line
  is lost.
\<close>

theorem script_applies:
  assumes "script_is_found es tail" "list_all plain_line (text_before es tail)"
  shows "derive_new_contents (whole_lines (text_before es tail)) path (map edit_chunk es) = Some (Inr (rejoined (text_after es tail)))"
  by (rule script_derives[OF assms])

definition demo_script :: "script_edit list" where
  "demo_script =
     [\<lparr>se_context = None, se_kept = [''a''], se_old = [''x''], se_new = [''y'', ''z'']\<rparr>,
      \<lparr>se_context = Some ''fn'', se_kept = [''x'', ''fn''], se_old = [''x''], se_new = []\<rparr>]"

theorem script_applies_witness:
  "derive_new_contents (whole_lines [''a'', ''x'', ''x'', ''fn'', ''x'', ''end'']) ''p'' (map edit_chunk demo_script)
     = Some (Inr (whole_lines [''a'', ''y'', ''z'', ''x'', ''fn'', ''end'']))"
proof -
  have "script_is_found demo_script [''end'']" by code_simp
  moreover have "list_all plain_line (text_before demo_script [''end''])" by code_simp
  ultimately have "derive_new_contents (whole_lines (text_before demo_script [''end''])) ''p'' (map edit_chunk demo_script)
      = Some (Inr (rejoined (text_after demo_script [''end''])))" by (rule script_applies)
  moreover have "text_before demo_script [''end''] = [''a'', ''x'', ''x'', ''fn'', ''x'', ''end'']"
    "text_after demo_script [''end''] = [''a'', ''y'', ''z'', ''x'', ''fn'', ''end'']"
    by (simp_all add: demo_script_def text_before_def text_after_def)
  ultimately show ?thesis by (simp add: rejoined_def ends_empty_def)
qed

end
