(* ===== verification/Tool_Files.thy ===== *)
theory Tool_Files
  imports Rust_Str Paths
begin

text \<open>
  What the file tools share: the files of the disk behind the trait \<open>AsyncFileSystem\<close>
  (\<open>src/crates/codegen/xai-grok-tools/src/computer/types.rs\<close>), the policy of the memory directories (\<open>types/memory_v2.rs\<close>) and the
  notification of a written file (\<open>notification/types.rs\<close>).
\<close>

text \<open>
  The files are a map from the nodes of the file system to their bytes; \<open>node_of\<close> says which node a path leads to.
  A failing write leaves what it leaves.  The policy of the memory directories is the trait \<open>MemoryV2Access\<close>
  (\<open>types/memory_v2.rs\<close>), absent unless the host installs one.
\<close>

datatype io_kind = NotFound | AlreadyExists | IsADirectory | InvalidFilename | PermissionDenied | OtherKind

record io_error =
  io_kind :: io_kind
  io_message :: string

type_synonym files = "string \<Rightarrow> string option"

record memory_policy =
  validate_read :: "string \<Rightarrow> string + bool"
  preflight_write :: "string \<Rightarrow> string \<Rightarrow> string + bool"
  policy_write :: "string \<Rightarrow> string \<Rightarrow> files \<Rightarrow> files \<times> (string + bool)"

record tool_io =
  node_of :: "string \<Rightarrow> string"
  read_failure :: "string \<Rightarrow> io_error option"
  absent_message :: "string \<Rightarrow> string"
  write_failure :: "string \<Rightarrow> (io_error \<times> string option) option"
  delete_failure :: "string \<Rightarrow> io_error option"
  mkdir_failure :: "string \<Rightarrow> string option"
  memory_access :: "memory_policy option"

definition absent_error :: "tool_io \<Rightarrow> string \<Rightarrow> io_error" where
  "absent_error io p = \<lparr>io_kind = NotFound, io_message = absent_message io p\<rparr>"

definition read_file :: "tool_io \<Rightarrow> files \<Rightarrow> string \<Rightarrow> io_error + string" where
  "read_file io fs p =
     (case read_failure io p of
        Some e \<Rightarrow> Inl e
      | None \<Rightarrow> (case fs (node_of io p) of None \<Rightarrow> Inl (absent_error io p) | Some b \<Rightarrow> Inr b))"

definition write_file :: "tool_io \<Rightarrow> files \<Rightarrow> string \<Rightarrow> string \<Rightarrow> files \<times> io_error option" where
  "write_file io fs p data =
     (case write_failure io p of
        Some (e, left) \<Rightarrow> (fs(node_of io p := left), Some e)
      | None \<Rightarrow> (fs(node_of io p \<mapsto> data), None))"

definition delete_file :: "tool_io \<Rightarrow> files \<Rightarrow> string \<Rightarrow> files \<times> io_error option" where
  "delete_file io fs p =
     (case delete_failure io p of
        Some e \<Rightarrow> (fs, Some e)
      | None \<Rightarrow> (case fs (node_of io p) of
                   None \<Rightarrow> (fs, Some (absent_error io p))
                 | Some _ \<Rightarrow> (fs(node_of io p := None), None)))"

definition read_file_as_string :: "tool_io \<Rightarrow> files \<Rightarrow> string \<Rightarrow> string + string" where
  "read_file_as_string io fs p = map_sum io_message utf8_lossy (read_file io fs p)"

text \<open>\<open>ensure_parent_dirs\<close>: the directories are not files, so only the failure shows.\<close>

definition ensure_parent_dirs :: "tool_io \<Rightarrow> string \<Rightarrow> string option" where
  "ensure_parent_dirs io p =
     (case path_parent p of None \<Rightarrow> None | Some d \<Rightarrow> if d = [] then None else mkdir_failure io d)"

definition validate_memory_v2_read :: "tool_io \<Rightarrow> string \<Rightarrow> string + bool" where
  "validate_memory_v2_read io p = (case memory_access io of None \<Rightarrow> Inr False | Some m \<Rightarrow> validate_read m p)"

definition preflight_memory_v2_write :: "tool_io \<Rightarrow> string \<Rightarrow> string \<Rightarrow> string + bool" where
  "preflight_memory_v2_write io p c =
     (case memory_access io of None \<Rightarrow> Inr False | Some m \<Rightarrow> preflight_write m p c)"

definition write_via_memory_v2 :: "tool_io \<Rightarrow> files \<Rightarrow> string \<Rightarrow> string \<Rightarrow> files \<times> (string + bool)" where
  "write_via_memory_v2 io fs p c =
     (case memory_access io of None \<Rightarrow> (fs, Inr False) | Some m \<Rightarrow> policy_write m p c fs)"

subsection \<open>Notifications\<close>

record file_written =
  written_path :: string
  written_content :: string
  previous_content :: "string option"
  is_new_file :: bool

definition new_file_written :: "string \<Rightarrow> string \<Rightarrow> file_written" where
  "new_file_written p c = \<lparr>written_path = p, written_content = c, previous_content = None, is_new_file = True\<rparr>"

definition old_file_written :: "string \<Rightarrow> string \<Rightarrow> string \<Rightarrow> file_written" where
  "old_file_written p c old =
     \<lparr>written_path = p, written_content = c, previous_content = Some old, is_new_file = False\<rparr>"

lemma write_file_frame: "n \<noteq> node_of io p \<Longrightarrow> fst (write_file io fs p d) n = fs n"
  by (auto simp: write_file_def split: option.split)

lemma delete_file_frame: "n \<noteq> node_of io p \<Longrightarrow> fst (delete_file io fs p) n = fs n"
  by (auto simp: delete_file_def split: option.split)

text \<open>A disk on which nothing fails, every path is its own node and no memory policy is installed.\<close>

definition plain_io :: tool_io where
  "plain_io =
     \<lparr>node_of = id, read_failure = \<lambda>_. None, absent_message = \<lambda>p. p @ '' not found'', write_failure = \<lambda>_. None,
      delete_failure = \<lambda>_. None, mkdir_failure = \<lambda>_. None, memory_access = None\<rparr>"

lemma plain_io_simps [simp]:
  "node_of plain_io p = p" "read_failure plain_io p = None" "write_failure plain_io p = None"
  "delete_failure plain_io p = None" "mkdir_failure plain_io p = None" "memory_access plain_io = None"
  "absent_message plain_io p = p @ '' not found''"
  by (simp_all add: plain_io_def)

end
