(* ===== verification/Patch_Tool.thy ===== *)
theory Patch_Tool
  imports Patch_Apply Tool_Files
begin

text \<open>
  The \<open>apply_patch\<close> tool (\<open>src/crates/codegen/xai-grok-tools/src/implementations/codex/apply_patch/tool.rs\<close>): parse, compute every
  change in memory, check the memory policy, then write the files one after the other with a notification for each.
\<close>

subsection \<open>Computing the changes\<close>

datatype file_change =
    ChangeAdd string string
  | ChangeDelete string string
  | ChangeUpdate string string string
  | ChangeMove string string string string

text \<open>One operation; the outer \<open>None\<close> stands for a panic.\<close>

definition compute_change :: "tool_io \<Rightarrow> files \<Rightarrow> string \<Rightarrow> patch_op \<Rightarrow> (string + file_change) option" where
  "compute_change io fs cwd h =
     (case h of
        AddFile path contents \<Rightarrow> Some (Inr (ChangeAdd (path_join cwd path) contents))
      | DeleteFile path \<Rightarrow>
          (let p = path_join cwd path in
           case read_file_as_string io fs p of
             Inl e \<Rightarrow> Some (Inl (''Failed to read file: '' @ p @ '', '' @ e))
           | Inr original \<Rightarrow> Some (Inr (ChangeDelete p original)))
      | UpdateFile path move_path chunks \<Rightarrow>
          (let p = path_join cwd path in
           case read_file_as_string io fs p of
             Inl e \<Rightarrow> Some (Inl (''Failed to read file to update: '' @ p @ '', '' @ e))
           | Inr original \<Rightarrow>
               (case derive_new_contents original p chunks of
                  None \<Rightarrow> None
                | Some (Inl e) \<Rightarrow> Some (Inl e)
                | Some (Inr new) \<Rightarrow>
                    Some (Inr (case move_path of
                                 Some dest \<Rightarrow> ChangeMove p (path_join cwd dest) original new
                               | None \<Rightarrow> ChangeUpdate p original new)))))"

fun compute_all_changes ::
  "tool_io \<Rightarrow> files \<Rightarrow> string \<Rightarrow> patch_op list \<Rightarrow> (string + file_change list) option" where
  "compute_all_changes io fs cwd [] = Some (Inr [])"
| "compute_all_changes io fs cwd (h # hs) =
     (case compute_change io fs cwd h of
        None \<Rightarrow> None
      | Some (Inl e) \<Rightarrow> Some (Inl e)
      | Some (Inr c) \<Rightarrow>
          (case compute_all_changes io fs cwd hs of
             None \<Rightarrow> None
           | Some (Inl e) \<Rightarrow> Some (Inl e)
           | Some (Inr cs) \<Rightarrow> Some (Inr (c # cs))))"

definition reject_memory_v2_destructive_path :: "tool_io \<Rightarrow> string \<Rightarrow> string option" where
  "reject_memory_v2_destructive_path io p =
     (case validate_memory_v2_read io p of
        Inl e \<Rightarrow> Some e
      | Inr True \<Rightarrow> Some (p @ '' is inside a memory directory; apply_patch cannot delete or move memory files. Use ''
                     @ ''the memory workflow instead: edit topic files in place or manage memories with the ''
                     @ ''memory tools.'')
      | Inr False \<Rightarrow> None)"

definition preflight_change :: "tool_io \<Rightarrow> file_change \<Rightarrow> string option" where
  "preflight_change io c =
     (case c of
        ChangeAdd p content \<Rightarrow> (case preflight_memory_v2_write io p content of Inl e \<Rightarrow> Some e | Inr _ \<Rightarrow> None)
      | ChangeUpdate p _ new \<Rightarrow> (case preflight_memory_v2_write io p new of Inl e \<Rightarrow> Some e | Inr _ \<Rightarrow> None)
      | ChangeDelete p _ \<Rightarrow> reject_memory_v2_destructive_path io p
      | ChangeMove src dest _ _ \<Rightarrow>
          (case reject_memory_v2_destructive_path io src of
             Some e \<Rightarrow> Some e
           | None \<Rightarrow> reject_memory_v2_destructive_path io dest))"

fun preflight_memory_v2_changes :: "tool_io \<Rightarrow> file_change list \<Rightarrow> string option" where
  "preflight_memory_v2_changes io [] = None"
| "preflight_memory_v2_changes io (c # cs) =
     (case preflight_change io c of Some e \<Rightarrow> Some e | None \<Rightarrow> preflight_memory_v2_changes io cs)"

subsection \<open>Writing the changes\<close>

record patch_file_result =
  result_path :: string
  result_action :: string
  result_old_text :: "string option"
  result_new_text :: string
  result_move_to :: "string option"

datatype patch_stop = ToolFailure string | ApplicationStop string

text \<open>
  One change: the files after it, and the reason to stop or the notifications with the result.  A refusal of the
  memory policy is reported as an output, a failing file operation as an error of the tool.
\<close>

definition apply_change ::
  "tool_io \<Rightarrow> files \<Rightarrow> file_change \<Rightarrow> files \<times> (patch_stop + (file_written list \<times> patch_file_result))" where
  "apply_change io fs c =
     (case c of
        ChangeAdd p content \<Rightarrow>
          (let ok = Inr ([new_file_written p content],
                 \<lparr>result_path = p, result_action = ''added'', result_old_text = None, result_new_text = content,
                  result_move_to = None\<rparr>) in
           case write_via_memory_v2 io fs p content of
             (fs', Inl e) \<Rightarrow> (fs', Inl (ApplicationStop e))
           | (fs', Inr True) \<Rightarrow> (fs', ok)
           | (fs', Inr False) \<Rightarrow>
               (case ensure_parent_dirs io p of
                  Some e \<Rightarrow> (fs', Inl (ToolFailure e))
                | None \<Rightarrow>
                    (case write_file io fs' p content of
                       (fs'', Some e) \<Rightarrow> (fs'', Inl (ToolFailure (io_message e)))
                     | (fs'', None) \<Rightarrow> (fs'', ok))))
      | ChangeDelete p original \<Rightarrow>
          (case delete_file io fs p of
             (fs', Some e) \<Rightarrow> (fs', Inl (ToolFailure (io_message e)))
           | (fs', None) \<Rightarrow>
               (fs', Inr ([old_file_written p [] original],
                  \<lparr>result_path = p, result_action = ''deleted'', result_old_text = Some original, result_new_text = [],
                   result_move_to = None\<rparr>)))
      | ChangeUpdate p original new \<Rightarrow>
          (let ok = Inr ([old_file_written p new original],
                 \<lparr>result_path = p, result_action = ''modified'', result_old_text = Some original, result_new_text = new,
                  result_move_to = None\<rparr>) in
           case write_via_memory_v2 io fs p new of
             (fs', Inl e) \<Rightarrow> (fs', Inl (ApplicationStop e))
           | (fs', Inr True) \<Rightarrow> (fs', ok)
           | (fs', Inr False) \<Rightarrow>
               (case write_file io fs' p new of
                  (fs'', Some e) \<Rightarrow> (fs'', Inl (ToolFailure (io_message e)))
                | (fs'', None) \<Rightarrow> (fs'', ok)))
      | ChangeMove src dest original new \<Rightarrow>
          (case ensure_parent_dirs io dest of
             Some e \<Rightarrow> (fs, Inl (ToolFailure e))
           | None \<Rightarrow>
               (case write_file io fs dest new of
                  (fs', Some e) \<Rightarrow> (fs', Inl (ToolFailure (io_message e)))
                | (fs', None) \<Rightarrow>
                    (case delete_file io fs' src of
                       (fs'', Some e) \<Rightarrow> (fs'', Inl (ToolFailure (io_message e)))
                     | (fs'', None) \<Rightarrow>
                         (fs'', Inr ([new_file_written dest new, old_file_written src [] original],
                            \<lparr>result_path = src, result_action = ''moved'', result_old_text = Some original,
                             result_new_text = new, result_move_to = Some dest\<rparr>))))))"

text \<open>All changes in order: the files, the notifications sent, and the reason to stop or the results.\<close>

fun apply_changes ::
  "tool_io \<Rightarrow> files \<Rightarrow> file_change list \<Rightarrow> files \<times> file_written list \<times> (patch_stop + patch_file_result list)" where
  "apply_changes io fs [] = (fs, [], Inr [])"
| "apply_changes io fs (c # cs) =
     (case apply_change io fs c of
        (fs', Inl stop) \<Rightarrow> (fs', [], Inl stop)
      | (fs', Inr (sent, r)) \<Rightarrow>
          (case apply_changes io fs' cs of (fs'', sent', rs) \<Rightarrow> (fs'', sent @ sent', map_sum id ((#) r) rs)))"

definition summary_line :: "patch_file_result \<Rightarrow> string" where
  "summary_line r =
     (if result_action r = ''added'' then ''A'' else if result_action r = ''deleted'' then ''D'' else ''M'')
       @ '' '' @ result_path r @ [CHR 0x0A]"

definition build_summary :: "patch_file_result list \<Rightarrow> string" where
  "build_summary rs = ''Success. Updated the following files:'' @ [CHR 0x0A] @ concat (map summary_line rs)"

datatype patch_output =
    PatchSuccess "patch_file_result list" string
  | PatchParseError string
  | PatchApplicationError string
  | PatchEmpty string

definition parse_error_message :: "patch_error \<Rightarrow> string" where
  "parse_error_message e =
     (case e of
        InvalidPatch m \<Rightarrow> ''Invalid patch: '' @ m
      | InvalidHunk m n \<Rightarrow> ''Invalid patch hunk on line '' @ nat_digits n @ '': '' @ m)"

text \<open>A call of the tool: the files after it, what was notified, and its result; \<open>Inl\<close> is an error of the tool.\<close>

definition run_apply_patch ::
  "tool_io \<Rightarrow> string \<Rightarrow> string \<Rightarrow> files \<Rightarrow> (files \<times> file_written list \<times> (string + patch_output)) option" where
  "run_apply_patch io cwd patch fs =
     (case parse_patch patch of
        Inl e \<Rightarrow> Some (fs, [], Inr (PatchParseError (parse_error_message e)))
      | Inr (hunks, _) \<Rightarrow>
          if hunks = [] then Some (fs, [], Inr (PatchEmpty ''No files were modified.''))
          else (case compute_all_changes io fs cwd hunks of
             None \<Rightarrow> None
           | Some (Inl msg) \<Rightarrow> Some (fs, [], Inr (PatchApplicationError msg))
           | Some (Inr changes) \<Rightarrow>
               (case preflight_memory_v2_changes io changes of
                  Some msg \<Rightarrow> Some (fs, [], Inr (PatchApplicationError msg))
                | None \<Rightarrow>
                    (case apply_changes io fs changes of
                       (fs', sent, Inl (ToolFailure e)) \<Rightarrow> Some (fs', sent, Inl e)
                     | (fs', sent, Inl (ApplicationStop e)) \<Rightarrow> Some (fs', sent, Inr (PatchApplicationError e))
                     | (fs', sent, Inr results) \<Rightarrow>
                         Some (fs', sent, Inr (PatchSuccess results (build_summary results)))))))"

end
