(* ===== verification/Patch_Properties.thy ===== *)
theory Patch_Properties
  imports Patch_Tool Patch_Apply Patch_Parser
begin

text \<open>
  What a call of \<open>apply_patch\<close> guarantees: it never panics, it touches no file it does not name, a
  patch with an operation that cannot be computed writes nothing, a success is what the operations give one after the other, and a printed
  edit script is carried out.

  Where \<open>apply_patch\<close> does less than its description and comments say: several operations on one file, a move onto
  itself, an added file that exists, additions under a context, the end-of-file mark, and blank lines.
\<close>

section \<open>Patch properties\<close>

subsection \<open>Totality\<close>

lemma compute_all_changes_total: "compute_all_changes io fs cwd hs \<noteq> None"
proof (induction hs)
  case (Cons h hs)
  have "compute_change io fs cwd h \<noteq> None"
    by (cases h) (auto simp: compute_change_def Let_def derive_new_contents_total_lemma simp del: not_None_eq
        split: sum.splits option.splits)
  then show ?case using Cons by (auto split: option.split sum.split)
qed simp


subsection \<open>Which files change\<close>

fun op_paths :: "string \<Rightarrow> patch_op \<Rightarrow> string list" where
  "op_paths cwd (AddFile p _) = [path_join cwd p]"
| "op_paths cwd (DeleteFile p) = [path_join cwd p]"
| "op_paths cwd (UpdateFile p mv _) = path_join cwd p # (case mv of None \<Rightarrow> [] | Some d \<Rightarrow> [path_join cwd d])"

fun change_paths :: "file_change \<Rightarrow> string list" where
  "change_paths (ChangeAdd p _) = [p]"
| "change_paths (ChangeDelete p _) = [p]"
| "change_paths (ChangeUpdate p _ _) = [p]"
| "change_paths (ChangeMove src dest _ _) = [src, dest]"

definition op_nodes :: "tool_io \<Rightarrow> string \<Rightarrow> patch_op \<Rightarrow> string list" where
  "op_nodes io cwd h = map (node_of io) (op_paths cwd h)"

lemma compute_change_paths: "compute_change io fs cwd h = Some (Inr c) \<Longrightarrow> change_paths c = op_paths cwd h"
  by (cases h) (auto simp: compute_change_def Let_def split: sum.splits option.splits)


lemma apply_change_frame:
  assumes "memory_access io = None" "n \<notin> node_of io ` set (change_paths c)"
  shows "fst (apply_change io fs c) n = fs n"
proof (cases c)
  case (ChangeAdd p d)
  then show ?thesis using assms write_file_frame[of n io p fs d]
    by (auto simp: apply_change_def write_via_memory_v2_def Let_def split: option.split prod.split)
next
  case (ChangeDelete p d)
  then show ?thesis using assms delete_file_frame[of n io p fs]
    by (auto simp: apply_change_def split: option.split prod.split)
next
  case (ChangeUpdate p d e)
  then show ?thesis using assms write_file_frame[of n io p fs e]
    by (auto simp: apply_change_def write_via_memory_v2_def Let_def split: option.split prod.split)
next
  case (ChangeMove s d x e)
  have w: "fst (write_file io fs d e) n = fs n" using assms ChangeMove by (simp add: write_file_frame)
  obtain fs' r where fr: "write_file io fs d e = (fs', r)" by (cases "write_file io fs d e")
  have "fst (delete_file io fs' s) n = fs' n" using assms ChangeMove by (simp add: delete_file_frame)
  then show ?thesis using w fr ChangeMove by (auto simp: apply_change_def split: option.split prod.split)
qed


lemma run_apply_patch_cases:
  assumes "run_apply_patch io cwd patch fs = Some (fs', sent, r)"
  obtains (untouched) "fs' = fs" "sent = []" "\<exists>out. r = Inr out \<and> (\<forall>rs s. out \<noteq> PatchSuccess rs s)"
  | (applied) hunks t cs st where "parse_patch patch = Inr (hunks, t)"
      "compute_all_changes io fs cwd hunks = Some (Inr cs)" "preflight_memory_v2_changes io cs = None"
      "apply_changes io fs cs = (fs', sent, st)"
      "r = (case st of Inl (ToolFailure e) \<Rightarrow> Inl e | Inl (ApplicationStop e) \<Rightarrow> Inr (PatchApplicationError e)
            | Inr rs \<Rightarrow> Inr (PatchSuccess rs (build_summary rs)))"
proof (cases "parse_patch patch")
  case (Inl e)
  show ?thesis by (rule untouched) (use assms Inl in \<open>auto simp: run_apply_patch_def\<close>)
next
  case (Inr p)
  obtain hunks t where p: "p = (hunks, t)" by (cases p)
  show ?thesis
  proof (cases "hunks = []")
    case True
    show ?thesis by (rule untouched) (use assms Inr p True in \<open>auto simp: run_apply_patch_def\<close>)
  next
    case False
    consider e where "compute_all_changes io fs cwd hunks = Some (Inl e)"
      | cs where "compute_all_changes io fs cwd hunks = Some (Inr cs)"
      using compute_all_changes_total[of io fs cwd hunks] by (metis not_None_eq sum.exhaust)
    then show ?thesis
    proof cases
      case 1
      show ?thesis by (rule untouched) (use assms Inr p False 1 in \<open>auto simp: run_apply_patch_def\<close>)
    next
      case (2 cs)
      show ?thesis
      proof (cases "preflight_memory_v2_changes io cs")
        case None
        obtain f s st where a: "apply_changes io fs cs = (f, s, st)" by (cases "apply_changes io fs cs") auto
        show ?thesis
          by (rule applied[of hunks t cs st])
            (use assms Inr p False 2 None a in \<open>auto simp: run_apply_patch_def split: sum.splits patch_stop.splits\<close>)
      next
        case (Some e)
        show ?thesis by (rule untouched) (use assms Inr p False 2 Some in \<open>auto simp: run_apply_patch_def\<close>)
      qed
    qed
  qed
qed




subsection \<open>One operation after the other\<close>

text \<open>The reference: every operation is computed on the files the ones before it have left, and written at once.\<close>

fun one_by_one :: "tool_io \<Rightarrow> string \<Rightarrow> files \<Rightarrow> patch_op list \<Rightarrow> files option" where
  "one_by_one io cwd fs [] = Some fs"
| "one_by_one io cwd fs (h # hs) =
     (case compute_change io fs cwd h of
        Some (Inr c) \<Rightarrow> (case apply_change io fs c of (fs', Inr _) \<Rightarrow> one_by_one io cwd fs' hs | (fs', Inl _) \<Rightarrow> None)
      | _ \<Rightarrow> None)"

lemma compute_change_local:
  "\<forall>n \<in> set (op_nodes io cwd h). fs' n = fs n \<Longrightarrow> compute_change io fs' cwd h = compute_change io fs cwd h"
  by (cases h) (simp_all add: compute_change_def Let_def read_file_as_string_def read_file_def op_nodes_def
      cong: option.case_cong)

lemma compute_all_changes_local:
  "\<forall>n \<in> set (concat (map (op_nodes io cwd) hs)). fs' n = fs n \<Longrightarrow>
   compute_all_changes io fs' cwd hs = compute_all_changes io fs cwd hs"
proof (induction hs)
  case (Cons h hs)
  have "compute_change io fs' cwd h = compute_change io fs cwd h"
    by (rule compute_change_local) (use Cons.prems in simp)
  moreover have "compute_all_changes io fs' cwd hs = compute_all_changes io fs cwd hs" using Cons by simp
  ultimately show ?case by (simp only: compute_all_changes.simps)
qed simp

lemma batch_is_one_by_one:
  assumes "memory_access io = None"
  shows "distinct (concat (map (op_nodes io cwd) hs)) \<Longrightarrow> compute_all_changes io fs cwd hs = Some (Inr cs) \<Longrightarrow>
    apply_changes io fs cs = (fs', sent, Inr rs) \<Longrightarrow> one_by_one io cwd fs hs = Some fs'"
proof (induction hs arbitrary: fs cs sent rs)
  case (Cons h hs)
  obtain c cs' where c: "compute_change io fs cwd h = Some (Inr c)" "compute_all_changes io fs cwd hs = Some (Inr cs')"
    "cs = c # cs'"
    using Cons.prems(2) by (auto split: option.splits sum.splits)
  obtain fs1 s1 r1 where a: "apply_change io fs c = (fs1, Inr (s1, r1))"
    using Cons.prems(3) c(3) by (auto split: prod.splits sum.splits)
  obtain f2 s2 st2 where f2: "apply_changes io fs1 cs' = (f2, s2, st2)" by (cases "apply_changes io fs1 cs'") auto
  then obtain rs2 where "st2 = Inr rs2" "f2 = fs'" using Cons.prems(3) c(3) a by (cases st2) auto
  then have b: "apply_changes io fs1 cs' = (fs', s2, Inr rs2)" using f2 by simp
  have "set (op_nodes io cwd h) = node_of io ` set (change_paths c)"
    using compute_change_paths[OF c(1)] by (simp add: op_nodes_def)
  then have disjoint: "node_of io ` set (change_paths c) \<inter> set (concat (map (op_nodes io cwd) hs)) = {}"
    using Cons.prems(1) by simp
  have "\<forall>n \<in> set (concat (map (op_nodes io cwd) hs)). fs1 n = fs n"
  proof (intro ballI)
    fix n assume "n \<in> set (concat (map (op_nodes io cwd) hs))"
    then have "n \<notin> node_of io ` set (change_paths c)" using disjoint by blast
    then show "fs1 n = fs n" using apply_change_frame[OF assms, of n c fs] a by simp
  qed
  then have "compute_all_changes io fs1 cwd hs = Some (Inr cs')"
    using compute_all_changes_local c(2) by metis
  then have "one_by_one io cwd fs1 hs = Some fs'" using Cons.IH[OF _ _ b] Cons.prems(1) by simp
  then show ?case using c(1) a by simp
qed simp

text \<open>C34: when a call succeeds and its operations name different files, the files are what the operations give when they are
  computed and carried out one after the other.
\<close>

theorem batch_agrees_with_one_by_one:
  assumes "memory_access io = None" "run_apply_patch io cwd patch fs = Some (fs', sent, Inr (PatchSuccess rs summary))"
    "parse_patch patch = Inr (hunks, t)" "distinct (concat (map (op_nodes io cwd) hunks))"
  shows "one_by_one io cwd fs hunks = Some fs'"
  using assms(2)
proof (cases (no_simp) rule: run_apply_patch_cases)
  case untouched
  then show ?thesis by auto
next
  case (applied hunks' t' cs st)
  obtain rs' where "st = Inr rs'" using applied(5) by (cases st) (auto split: patch_stop.splits)
  then show ?thesis using batch_is_one_by_one[OF assms(1,4)] applied assms(3) by simp
qed

subsection \<open>Carrying out an edit script\<close>

lemma script_contexts: "script_is_found es tail \<Longrightarrow> e \<in> set es \<Longrightarrow> se_context e = Some x \<Longrightarrow> x \<in> set (se_kept e)"
  by (induction es) auto

lemma script_olds: "script_is_found es tail \<Longrightarrow> e \<in> set es \<Longrightarrow> se_old e \<noteq> []"
  by (induction es) auto

lemma script_printable:
  assumes "script_is_found es tail" "list_all plain_line (text_before es tail)" "list_all (\<lambda>e. list_all plain_line (se_new e)) es"
  shows "list_all printable_chunk (map edit_chunk es)"
proof -
  have "printable_chunk (edit_chunk e)" if e: "e \<in> set es" for e
  proof -
    have kept: "plain_line l" if "l \<in> set (se_kept e) \<union> set (se_old e)" for l
      using assms(2) e that by (auto simp: text_before_def list_all_iff)
    have "plain_line x" if "se_context e = Some x" for x
      using kept script_contexts[OF assms(1) e that] by blast
    then show ?thesis using kept assms(3) e script_olds[OF assms(1) e]
      by (auto simp: printable_chunk_def edit_chunk_def list_all_iff split: option.split)
  qed
  then show ?thesis by (simp add: list_all_iff)
qed

text \<open>C31: the patch printed from an edit script whose result does not end in an empty line, parsed and applied, writes to the
  file the text the script describes, reports the file with both texts and touches nothing else. (An empty last line is
  lost: \<open>empty_last_line_is_lost\<close>.)
\<close>

theorem printed_script_is_carried_out:
  fixes io cwd p es tail
  defines "path \<equiv> path_join cwd p" and "old \<equiv> whole_lines (text_before es tail)" and "new \<equiv> whole_lines (text_after es tail)"
  assumes found: "script_is_found es tail" "es \<noteq> []"
    and ended: "\<not> ends_empty (text_after es tail)"
    and plain: "list_all plain_line (text_before es tail)" "list_all (\<lambda>e. list_all plain_line (se_new e)) es" "header_path p"
    and content: "fs (node_of io path) = Some old" "valid_utf8 old"
    and io: "memory_access io = None" "read_failure io path = None" "write_failure io path = None"
  shows "run_apply_patch io cwd (show_patch [UpdateFile p None (map edit_chunk es)]) fs =
    Some (fs(node_of io path \<mapsto> new), [old_file_written path new old],
      Inr (PatchSuccess [\<lparr>result_path = path, result_action = ''modified'', result_old_text = Some old,
                          result_new_text = new, result_move_to = None\<rparr>]
        (''Success. Updated the following files:'' @ [CHR 0x0A] @ ''M '' @ path @ [CHR 0x0A])))"
proof -
  have parsed: "parse_patch (show_patch [UpdateFile p None (map edit_chunk es)])
      = Inr ([UpdateFile p None (map edit_chunk es)], show_patch [UpdateFile p None (map edit_chunk es)])"
    by (rule patch_roundtrip_lemma) (use script_printable[OF found(1) plain(1,2)] plain(3) found(2) in simp)
  have "read_file_as_string io fs path = Inr old"
    using content io by (simp add: read_file_as_string_def read_file_def utf8_lossy_valid)
  moreover have "derive_new_contents old path (map edit_chunk es) = Some (Inr new)"
    unfolding old_def new_def using script_derives[OF found(1) plain(1), of path] ended by (simp add: rejoined_def)
  ultimately have "compute_all_changes io fs cwd [UpdateFile p None (map edit_chunk es)] = Some (Inr [ChangeUpdate path old new])"
    by (simp add: compute_change_def flip: path_def)
  then show ?thesis
    using parsed io by (simp add: run_apply_patch_def preflight_change_def preflight_memory_v2_write_def apply_change_def
        write_via_memory_v2_def write_file_def build_summary_def summary_line_def)
qed

text \<open>Files that are what they are called, and operations that succeed.\<close>

theorem printed_script_is_carried_out_witness:
  "map_option (\<lambda>(fs', sent, r). (fs' ''/w/f'', length sent)) (run_apply_patch plain_io ''/w''
      (show_patch [UpdateFile ''f'' None (map edit_chunk demo_script)])
      [''/w/f'' \<mapsto> whole_lines (text_before demo_script [''end''])])
    = Some (Some (whole_lines [''a'', ''y'', ''z'', ''x'', ''fn'', ''end'']), 1)"
proof -
  have j: "path_join ''/w'' ''f'' = ''/w/f''" by code_simp
  have a: "text_after demo_script [''end''] = [''a'', ''y'', ''z'', ''x'', ''fn'', ''end'']"
    by (simp add: demo_script_def text_after_def)
  have l: "\<not> ends_empty (text_after demo_script [''end''])" by (simp add: a ends_empty_def)
  have v: "valid_utf8 (whole_lines (text_before demo_script [''end'']))" by code_simp
  have f: "script_is_found demo_script [''end'']" "list_all plain_line (text_before demo_script [''end''])"
    "list_all (\<lambda>e. list_all plain_line (se_new e)) demo_script" "header_path ''f''"
    by code_simp+
  have "demo_script \<noteq> []" by (simp add: demo_script_def)
  from printed_script_is_carried_out[of demo_script "[''end'']" "''f''"
      "[''/w/f'' \<mapsto> whole_lines (text_before demo_script [''end''])]" plain_io "''/w''", OF f(1) this l f(2-4)]
  show ?thesis using v by (simp add: j a)
qed

subsection \<open>Runs\<close>

text \<open>A patch that adds one file and deletes another.\<close>

definition demo_pair :: "patch_op list" where
  "demo_pair = [AddFile ''a'' (whole_lines [''x'']), DeleteFile ''b'']"

definition demo_pair_run :: "files \<times> file_written list \<times> patch_file_result list" where
  "demo_pair_run =
     ([''/w/a'' \<mapsto> whole_lines [''x'']],
      [new_file_written ''/w/a'' (whole_lines [''x'']), old_file_written ''/w/b'' [] ''q''],
      [\<lparr>result_path = ''/w/a'', result_action = ''added'', result_old_text = None, result_new_text = whole_lines [''x''],
        result_move_to = None\<rparr>,
       \<lparr>result_path = ''/w/b'', result_action = ''deleted'', result_old_text = Some ''q'', result_new_text = [],
        result_move_to = None\<rparr>])"

lemma demo_pair_parsed: "parse_patch (show_patch demo_pair) = Inr (demo_pair, show_patch demo_pair)"
  by (rule patch_roundtrip_lemma) code_simp

lemma demo_pair_joins: "path_join ''/w'' ''a'' = ''/w/a''" "path_join ''/w'' ''b'' = ''/w/b''"
  by code_simp+

lemma demo_parent: "path_parent ''/w/a'' = Some ''/w''"
  by code_simp

lemma demo_text: "utf8_lossy ''q'' = ''q''"
  by code_simp

lemma demo_pair_runs:
  "run_apply_patch plain_io ''/w'' (show_patch demo_pair) [''/w/b'' \<mapsto> ''q''] =
     Some (fst demo_pair_run, fst (snd demo_pair_run),
       Inr (PatchSuccess (snd (snd demo_pair_run)) (build_summary (snd (snd demo_pair_run)))))"
proof -
  have "compute_all_changes plain_io [''/w/b'' \<mapsto> ''q''] ''/w'' demo_pair
      = Some (Inr [ChangeAdd ''/w/a'' (whole_lines [''x'']), ChangeDelete ''/w/b'' ''q''])"
    by (simp add: demo_pair_def compute_change_def demo_pair_joins read_file_as_string_def read_file_def demo_text)
  moreover have "preflight_memory_v2_changes plain_io [ChangeAdd ''/w/a'' c, ChangeDelete ''/w/b'' d] = None" for c d
    by (simp add: preflight_change_def preflight_memory_v2_write_def reject_memory_v2_destructive_path_def
        validate_memory_v2_read_def)
  moreover have "apply_changes plain_io [''/w/b'' \<mapsto> ''q''] [ChangeAdd ''/w/a'' (whole_lines [''x'']), ChangeDelete ''/w/b'' ''q'']
      = (case demo_pair_run of (fs, sent, rs) \<Rightarrow> (fs, sent, Inr rs))"
    by (simp add: demo_pair_run_def apply_change_def write_via_memory_v2_def ensure_parent_dirs_def demo_parent
        write_file_def delete_file_def fun_eq_iff)
  moreover have "demo_pair \<noteq> []" by (simp add: demo_pair_def)
  ultimately show ?thesis
    by (simp add: run_apply_patch_def demo_pair_parsed demo_pair_run_def)
qed




theorem batch_agrees_with_one_by_one_witness:
  "one_by_one plain_io ''/w'' [''/w/b'' \<mapsto> ''q''] demo_pair = Some [''/w/a'' \<mapsto> whole_lines [''x'']]"
proof -
  have d: "distinct (concat (map (op_nodes plain_io ''/w'') demo_pair))"
    by (simp add: demo_pair_def op_nodes_def demo_pair_joins)
  from batch_agrees_with_one_by_one[OF _ demo_pair_runs demo_pair_parsed d] show ?thesis by (simp add: demo_pair_run_def)
qed

section \<open>Patch shortfalls\<close>

text \<open>A run from parsed operations, for the demonstrations below.\<close>

definition run_ops :: "files \<Rightarrow> patch_op list \<Rightarrow> (files \<times> file_written list \<times> (patch_stop + patch_file_result list)) option" where
  "run_ops fs hs =
     (case compute_all_changes plain_io fs ''/w'' hs of
        Some (Inr cs) \<Rightarrow> Some (apply_changes plain_io fs cs)
      | _ \<Rightarrow> None)"

definition replace_chunk :: "string \<Rightarrow> string \<Rightarrow> patch_chunk" where
  "replace_chunk a b = \<lparr>change_context = None, chunk_old = [a], chunk_new = [b], is_end_of_file = False\<rparr>"

definition text_ab_lines :: string where "text_ab_lines = whole_lines [''a'', ''b'']"

lemma text_ab_lossy: "utf8_lossy text_ab_lines = text_ab_lines"
  by code_simp

lemma join_f: "path_join ''/w'' ''f'' = ''/w/f''"
  by code_simp

lemma parent_f: "path_parent ''/w/f'' = Some ''/w''"
  by code_simp

lemma derive_first: "derive_new_contents text_ab_lines ''/w/f'' [replace_chunk ''a'' ''x''] = Some (Inr (whole_lines [''x'', ''b'']))"
  by code_simp

lemma derive_second: "derive_new_contents text_ab_lines ''/w/f'' [replace_chunk ''b'' ''y''] = Some (Inr (whole_lines [''a'', ''y'']))"
  by code_simp

text \<open>
  Two updates of one file in one patch are both computed from the file as it was: the second write undoes the first,
  and the call reports a success for both.
\<close>

lemma second_update_undoes_the_first:
  "\<exists>sent rs. run_ops [''/w/f'' \<mapsto> text_ab_lines]
       [UpdateFile ''f'' None [replace_chunk ''a'' ''x''], UpdateFile ''f'' None [replace_chunk ''b'' ''y'']]
     = Some ([''/w/f'' \<mapsto> whole_lines [''a'', ''y'']], sent, Inr rs) \<and> length rs = 2"
  by (simp add: run_ops_def compute_change_def join_f read_file_as_string_def read_file_def text_ab_lossy derive_first
      derive_second apply_change_def write_via_memory_v2_def write_file_def)

text \<open>An update that is also moved, onto its own path, deletes the file it has just written.\<close>

lemma move_onto_itself_deletes:
  "\<exists>sent rs. run_ops [''/w/f'' \<mapsto> text_ab_lines] [UpdateFile ''f'' (Some ''f'') [replace_chunk ''a'' ''x'']]
     = Some (Map.empty, sent, Inr rs) \<and> length rs = 1"
  by (simp add: run_ops_def compute_change_def join_f read_file_as_string_def read_file_def text_ab_lossy derive_first
      apply_change_def write_via_memory_v2_def write_file_def delete_file_def ensure_parent_dirs_def parent_f Let_def fun_eq_iff)

text \<open>A file that exists is overwritten by an add, and reported as new, without its text.\<close>

lemma add_overwrites:
  "run_ops [''/w/f'' \<mapsto> text_ab_lines] [AddFile ''f'' (whole_lines [''z''])]
     = Some ([''/w/f'' \<mapsto> whole_lines [''z'']], [new_file_written ''/w/f'' (whole_lines [''z''])],
         Inr [\<lparr>result_path = ''/w/f'', result_action = ''added'', result_old_text = None,
               result_new_text = whole_lines [''z''], result_move_to = None\<rparr>])"
  by (simp add: run_ops_def compute_change_def join_f apply_change_def write_via_memory_v2_def write_file_def
      ensure_parent_dirs_def parent_f)

text \<open>Lines that are only added go to the end of the file, whatever their context line says.\<close>

lemma addition_ignores_its_context:
  "derive_new_contents text_ab_lines p
     [\<lparr>change_context = Some ''a'', chunk_old = [], chunk_new = [''x''], is_end_of_file = False\<rparr>]
   = Some (Inr (whole_lines [''a'', ''b'', ''x'']))"
  by code_simp

text \<open>With the end-of-file mark only the end is searched: there is no falling back to the start.\<close>

lemma end_of_file_never_falls_back:
  assumes "pat \<noteq> []" "seek_sequence ls pat start True = Some i"
  shows "i + length pat = length ls"
  using seek_sequence_strictest_first_lemma[OF assms(1), of ls start True] assms(2) by (auto simp: seek_from_def)

lemma end_of_file_misses:
  "seek_sequence [''a'', ''b''] [''a''] 0 True = None \<and> seek_sequence [''a'', ''b''] [''a''] 0 False = Some 0"
  by code_simp

text \<open>An update of a file whose last line is empty loses that line.\<close>

lemma empty_last_line_is_lost:
  "derive_new_contents (whole_lines [''a'', []]) p [replace_chunk ''a'' ''x''] = Some (Inr (whole_lines [''x'']))"
  by code_simp

text \<open>
  A chunk about an empty line, in a file that has none, is not refused: its new lines go to where the search started.
\<close>

lemma missing_empty_line_is_found:
  "derive_new_contents text_ab_lines p
     [\<lparr>change_context = None, chunk_old = [[]], chunk_new = [[], ''x''], is_end_of_file = False\<rparr>]
   = Some (Inr (whole_lines [[], ''x'', ''a'', ''b'']))"
  by code_simp

text \<open>Two context lines in a row, as the description of the tool suggests, are refused.\<close>

lemma stacked_contexts_are_refused:
  "case parse_one_hunk [''*** Update File: f'', ''@@ class A'', ''@@ def f'', ''+x''] 2 of
     Inl (InvalidHunk _ n) \<Rightarrow> n = 4 | _ \<Rightarrow> False"
  by code_simp

text \<open>An update that only moves its file is refused, though the description's grammar has it.\<close>

lemma bare_move_is_refused:
  "case parse_one_hunk [''*** Update File: f'', ''*** Move to: g''] 2 of Inl (InvalidHunk _ n) \<Rightarrow> n = 2 | _ \<Rightarrow> False"
  by code_simp

text \<open>A failing operation leaves the ones before it done, and the error names none of them.\<close>

lemma failure_leaves_earlier_changes:
  "\<exists>sent. apply_changes (plain_io\<lparr>write_failure := \<lambda>p. if p = ''/w/b'' then Some (\<lparr>io_kind = OtherKind, io_message = ''disk full''\<rparr>, None) else None\<rparr>)
      [''/w/f'' \<mapsto> ''q''] [ChangeDelete ''/w/f'' ''q'', ChangeUpdate ''/w/b'' ''q'' ''r'']
    = (Map.empty, sent, Inl (ToolFailure ''disk full''))"
  by (simp add: apply_change_def delete_file_def write_file_def write_via_memory_v2_def plain_io_def fun_eq_iff)

end
