(* ===== verification/Str_Edit.thy ===== *)
theory Str_Edit
  imports Rust_Str Paths
begin

text \<open>
  Editing strings (\<open>src/crates/codegen/xai-grok-tools/src/implementations/grok_build/search_replace/helpers.rs\<close>) and the
  typographic characters that look like ASCII (\<open>src/crates/codegen/xai-grok-tools/src/util/unicode_confusables.rs\<close>).

  What matching and replacing do: the matches cut a text into pieces, replacing puts the pieces together with the new
  string, and a match under normalisation reads as the pattern.
\<close>

section \<open>Str edit\<close>

subsection \<open>Confusable characters\<close>

text \<open>The characters of a text, each as its bytes.\<close>

function utf8_chars :: "string \<Rightarrow> string list" where
  "utf8_chars s =
     (if s = [] then [] else take (max 1 (utf8_len s)) s # utf8_chars (drop (max 1 (utf8_len s)) s))"
  by pat_completeness auto
termination by (relation "measure length") auto

declare utf8_chars.simps [simp del]

definition CONFUSABLE_MAP :: "(string \<times> string) list" where
  "CONFUSABLE_MAP =
     [([CHR 0xE2, CHR 0x80, CHR 0x9C], [CHR 0x22]), ([CHR 0xE2, CHR 0x80, CHR 0x9D], [CHR 0x22]),
      ([CHR 0xE2, CHR 0x80, CHR 0x98], [CHR 0x27]), ([CHR 0xE2, CHR 0x80, CHR 0x99], [CHR 0x27]),
      ([CHR 0xE2, CHR 0x80, CHR 0x94], ''--''), ([CHR 0xE2, CHR 0x80, CHR 0x93], ''-''),
      ([CHR 0xE2, CHR 0x80, CHR 0xA6], ''...''), ([CHR 0xC2, CHR 0xA0], '' '')]"

definition confusable_lookup :: "string \<Rightarrow> string option" where
  "confusable_lookup c = map_of CONFUSABLE_MAP c"

definition has_confusables :: "string \<Rightarrow> bool" where
  "has_confusables s \<longleftrightarrow> list_ex (\<lambda>c. confusable_lookup c \<noteq> None) (utf8_chars s)"

definition ascii_of :: "string \<Rightarrow> string" where
  "ascii_of c = (case confusable_lookup c of Some r \<Rightarrow> r | None \<Rightarrow> c)"

definition normalize_confusables :: "string \<Rightarrow> string" where
  "normalize_confusables s = concat (map ascii_of (utf8_chars s))"

record confusable_hit =
  ch_byte_offset :: nat
  ch_unicode_char :: string
  ch_ascii_replacement :: string
  ch_line_number :: nat

fun detect_from :: "nat \<Rightarrow> nat \<Rightarrow> string list \<Rightarrow> confusable_hit list" where
  "detect_from n line [] = []"
| "detect_from n line (c # cs) =
     (case confusable_lookup c of
        Some r \<Rightarrow> [\<lparr>ch_byte_offset = n, ch_unicode_char = c, ch_ascii_replacement = r, ch_line_number = line\<rparr>]
      | None \<Rightarrow> [])
     @ detect_from (n + length c) (if c = [CHR 0x0A] then line + 1 else line) cs"

definition detect_confusables :: "string \<Rightarrow> confusable_hit list" where
  "detect_confusables s = detect_from 0 1 (utf8_chars s)"

fun offsets_from :: "nat \<Rightarrow> string list \<Rightarrow> nat list" where
  "offsets_from n [] = [n]"
| "offsets_from n (c # cs) =
     (case confusable_lookup c of Some r \<Rightarrow> replicate (length r) n | None \<Rightarrow> [n..<n + length c])
     @ offsets_from (n + length c) cs"

definition build_offset_map :: "string \<Rightarrow> string \<times> nat list" where
  "build_offset_map s = (normalize_confusables s, offsets_from 0 (utf8_chars s))"

subsection \<open>Matches\<close>

text \<open>\<open>str::match_indices\<close> for a pattern that is not empty: from the left, without overlap.\<close>

function matches_from :: "nat \<Rightarrow> string \<Rightarrow> string \<Rightarrow> nat list" where
  "matches_from n s pat =
     (if pat = [] \<or> s = [] then []
      else if starts_with s pat then n # matches_from (n + length pat) (drop (length pat) s) pat
      else matches_from (n + 1) (tl s) pat)"
  by pat_completeness auto
termination by (relation "measure (\<lambda>(_, s, _). length s)") auto

declare matches_from.simps [simp del]

definition match_indices :: "string \<Rightarrow> string \<Rightarrow> nat list" where
  "match_indices s pat = matches_from 0 s pat"

definition str_slice :: "string \<Rightarrow> nat \<Rightarrow> nat \<Rightarrow> string" where
  "str_slice s a b = take (b - a) (drop a s)"

record normalized_match =
  original_start :: nat
  original_len :: nat

datatype normalized_match_result = NoMatch | Matches "normalized_match list" | Ambiguous

text \<open>One candidate: a match in original coordinates, or \<open>None\<close> when it is rejected.\<close>

definition remap_match :: "string \<Rightarrow> nat list \<Rightarrow> string \<Rightarrow> nat \<Rightarrow> normalized_match option" where
  "remap_match s offset_map norm_pattern norm_start =
     (let orig_start = offset_map ! norm_start; orig_end = offset_map ! (norm_start + length norm_pattern) in
      if orig_end \<le> orig_start then None
      else if normalize_confusables (str_slice s orig_start orig_end) \<noteq> norm_pattern then None
      else Some \<lparr>original_start = orig_start, original_len = orig_end - orig_start\<rparr>)"

fun overlapping :: "normalized_match list \<Rightarrow> bool" where
  "overlapping (a # b # ms) \<longleftrightarrow> original_start a + original_len a > original_start b \<or> overlapping (b # ms)"
| "overlapping _ \<longleftrightarrow> False"

definition find_normalized_match_positions :: "string \<Rightarrow> string \<Rightarrow> normalized_match_result" where
  "find_normalized_match_positions s pattern =
     (let norm_pattern = normalize_confusables pattern in
      case build_offset_map s of (norm_text, offset_map) \<Rightarrow>
      if norm_pattern = [] then NoMatch
      else
        (let candidates = map (remap_match s offset_map norm_pattern) (match_indices norm_text norm_pattern);
             validated = List.map_filter id candidates in
         if validated = [] then (if None \<in> set candidates then Ambiguous else NoMatch)
         else if overlapping validated then Ambiguous
         else Matches validated))"

subsection \<open>Replacing\<close>

text \<open>Text between the spans is copied, every span is replaced; the new positions are where the replacements begin.\<close>

fun replace_spans :: "string \<Rightarrow> string \<Rightarrow> normalized_match list \<Rightarrow> nat \<Rightarrow> string \<Rightarrow> nat list \<Rightarrow> string \<times> nat list" where
  "replace_spans s new [] last_end out ps = (out @ drop last_end s, ps)"
| "replace_spans s new (m # ms) last_end out ps =
     (let before = out @ str_slice s last_end (original_start m) in
      replace_spans s new ms (original_start m + original_len m) (before @ new) (ps @ [length before]))"

definition replace_normalized_matches :: "string \<Rightarrow> normalized_match list \<Rightarrow> string \<Rightarrow> string \<times> nat list" where
  "replace_normalized_matches s ms new = replace_spans s new ms 0 [] []"

definition replace_using_positions :: "string \<Rightarrow> nat list \<Rightarrow> string \<Rightarrow> string \<Rightarrow> string \<times> nat list" where
  "replace_using_positions s positions old new =
     replace_spans s new (map (\<lambda>p. \<lparr>original_start = p, original_len = length old\<rparr>) positions) 0 [] []"

subsection \<open>Snippets and details\<close>

fun split_inclusive :: "string \<Rightarrow> string list" where
  "split_inclusive [] = []"
| "split_inclusive (c # s) =
     (if c = CHR 0x0A then [c] # split_inclusive s
      else case split_inclusive s of [] \<Rightarrow> [[c]] | w # ws \<Rightarrow> (c # w) # ws)"

definition compute_line_range :: "string \<Rightarrow> nat \<Rightarrow> string \<Rightarrow> nat \<times> nat" where
  "compute_line_range s start_pos inserted =
     (let start_line = length (filter (\<lambda>c. c = CHR 0x0A) (take start_pos s)) in
      (start_line, start_line + max 1 (length (split_inclusive inserted)) - 1))"

definition numbered_line :: "nat \<times> string \<Rightarrow> string" where
  "numbered_line nl = nat_digits (fst nl + 1) @ [CHR 0xE2, CHR 0x86, CHR 0x92] @ snd nl"

definition render_snippet :: "string \<Rightarrow> string \<Rightarrow> nat \<Rightarrow> nat \<Rightarrow> string \<times> string \<times> string" where
  "render_snippet new_text new_string start_pos context_size =
     (case compute_line_range new_text start_pos new_string of (start_line, end_line) \<Rightarrow>
      let ls = split_inclusive new_text;
          snippet_start = start_line - context_size;
          snippet_end = min (end_line + context_size) (length ls - 1);
          before_context = (if snippet_start < start_line
             then concat (take (start_line - snippet_start) (drop snippet_start ls)) else []);
          after_context = (if end_line < snippet_end
             then concat (take (snippet_end - end_line) (drop (end_line + 1) ls)) else []) in
      (concat (map numbered_line (take (snippet_end - snippet_start + 1) (drop snippet_start (List.enumerate 0 ls)))),
       before_context, after_context))"

record edit_detail =
  ed_old_string :: string
  ed_old_line :: nat
  ed_new_string :: string
  ed_new_line :: nat
  ed_context_before :: string
  ed_context_after :: string
  ed_line_prefix :: string

definition edit_detail_at :: "string \<Rightarrow> string \<Rightarrow> string \<Rightarrow> nat \<Rightarrow> nat \<Rightarrow> edit_detail" where
  "edit_detail_at new_text old new context_lines start_pos =
     (let context = snd (render_snippet new_text new start_pos context_lines);
          start_line = fst (compute_line_range new_text start_pos new) in
      \<lparr>ed_old_string = old, ed_old_line = start_line + 1, ed_new_string = new, ed_new_line = start_line + 1,
       ed_context_before = fst context, ed_context_after = snd context,
       ed_line_prefix = rev (takeWhile (\<lambda>c. c \<noteq> CHR 0x0A) (rev (take start_pos new_text)))\<rparr>)"

definition build_edit_details :: "string \<Rightarrow> string \<Rightarrow> string \<Rightarrow> nat list \<Rightarrow> nat \<Rightarrow> edit_detail list" where
  "build_edit_details new_text old new new_positions context_lines =
     map (edit_detail_at new_text old new context_lines) new_positions"

section \<open>Edit matching\<close>

subsection \<open>The pieces between the matches\<close>

function split_matches :: "string \<Rightarrow> string \<Rightarrow> string list" where
  "split_matches s pat =
     (if pat = [] \<or> s = [] then [s]
      else if starts_with s pat then [] # split_matches (drop (length pat) s) pat
      else (case split_matches (tl s) pat of [] \<Rightarrow> [s] | w # ws \<Rightarrow> (hd s # w) # ws))"
  by pat_completeness auto
termination by (relation "measure (\<lambda>(s, _). length s)") auto

declare split_matches.simps [simp del]

lemma split_matches_end: "pat = [] \<or> s = [] \<Longrightarrow> split_matches s pat = [s]"
  by (simp add: split_matches.simps)

lemma split_matches_hit:
  "pat \<noteq> [] \<Longrightarrow> starts_with s pat \<Longrightarrow> split_matches s pat = [] # split_matches (drop (length pat) s) pat"
  by (cases "s = []") (simp_all add: split_matches.simps[of s])

lemma split_matches_nonempty [simp]: "split_matches s pat \<noteq> []"
  by (subst split_matches.simps) (auto split: list.splits)

lemma split_matches_miss:
  assumes "pat \<noteq> []" "\<not> starts_with (c # s) pat"
  shows "split_matches (c # s) pat = (c # hd (split_matches s pat)) # tl (split_matches s pat)"
  using assms by (cases "split_matches s pat") (simp_all add: split_matches.simps[of "c # s"])

lemma matches_from_end: "pat = [] \<or> s = [] \<Longrightarrow> matches_from n s pat = []"
  by (simp add: matches_from.simps)

lemma matches_from_hit:
  "pat \<noteq> [] \<Longrightarrow> starts_with s pat \<Longrightarrow> matches_from n s pat = n # matches_from (n + length pat) (drop (length pat) s) pat"
  by (cases "s = []") (simp_all add: matches_from.simps[of n s])

lemma matches_from_miss: "\<not> starts_with (c # s) pat \<Longrightarrow> matches_from n (c # s) pat = matches_from (n + 1) s pat"
  by (auto simp: matches_from.simps[of n "c # s"] matches_from_end)

text \<open>Induction along the matches: the end of the text, a match, or a character that starts none.\<close>

lemma match_induct [consumes 1, case_names none hit miss]:
  assumes "pat \<noteq> []"
    and "P []"
    and "\<And>r. P r \<Longrightarrow> P (pat @ r)"
    and "\<And>c s. \<not> starts_with (c # s) pat \<Longrightarrow> P s \<Longrightarrow> P (c # s)"
  shows "P s"
proof (induction "length s" arbitrary: s rule: less_induct)
  case less
  show ?case
  proof (cases s)
    case (Cons c r)
    show ?thesis
    proof (cases "starts_with s pat")
      case True
      then obtain q where q: "s = pat @ q" by (auto simp: starts_with_iff)
      then have "length q < length s" using assms(1) by simp
      then show ?thesis using less assms(3) q by simp
    qed (use less assms(4) Cons in simp)
  qed (simp add: assms(2))
qed

lemma join_split_matches:
  assumes pat: "pat \<noteq> []"
  shows "join pat (split_matches s pat) = s"
  using pat
proof (induction s rule: match_induct)
  case (hit r)
  then show ?case using pat by (simp add: split_matches_hit join_Cons)
next
  case (miss c s)
  obtain w ws where "split_matches s pat = w # ws" by (cases "split_matches s pat") auto
  then show ?case using miss pat by (cases ws) (simp_all add: split_matches_miss)
qed (simp add: split_matches_end)

lemma length_split_matches:
  assumes pat: "pat \<noteq> []"
  shows "length (split_matches s pat) = Suc (length (matches_from n s pat))"
  using pat
proof (induction s arbitrary: n rule: match_induct)
  case (hit r)
  then show ?case using pat by (simp add: split_matches_hit matches_from_hit)
next
  case (miss c s)
  then show ?case using pat
    by (cases "split_matches s pat") (simp_all add: split_matches_miss matches_from_miss)
qed (simp_all add: split_matches_end matches_from_end)

lemma split_matches_no_match:
  assumes pat: "pat \<noteq> []"
  shows "w \<in> set (split_matches s pat) \<Longrightarrow> \<not> contains_str w pat"
  using pat
proof (induction s arbitrary: w rule: match_induct)
  case none
  then show ?case using pat by (simp add: split_matches_end)
next
  case (hit r)
  then show ?case using pat by (auto simp: split_matches_hit)
next
  case (miss c s)
  obtain v ws where v: "split_matches s pat = v # ws" by (cases "split_matches s pat") auto
  have s: "s = join pat (v # ws)" using join_split_matches[OF pat, of s] v by simp
  then obtain r where "s = v @ r" by (cases ws) auto
  then have "\<not> starts_with (c # v) pat" using miss(1) by (metis append_Cons append_assoc starts_with_iff)
  then show ?case using miss v pat by (auto simp: split_matches_miss)
qed

subsection \<open>Replacing exact matches\<close>

abbreviation spans_of :: "string \<Rightarrow> nat list \<Rightarrow> normalized_match list" where
  "spans_of old ps \<equiv> map (\<lambda>p. \<lparr>original_start = p, original_len = length old\<rparr>) ps"

lemma str_slice_append: "drop k s = u @ t \<Longrightarrow> str_slice s k (k + length u) = u"
  by (simp add: str_slice_def)

lemma replace_spans_pieces:
  assumes pat: "pat \<noteq> []"
  shows "drop k s = u @ t \<Longrightarrow>
   fst (replace_spans s new (spans_of pat (matches_from (k + length u) t pat)) k out ps) = out @ u @ join new (split_matches t pat)"
  using pat
proof (induction t arbitrary: k u out ps rule: match_induct)
  case none
  then show ?case by (simp add: matches_from_end split_matches_end)
next
  case (hit r)
  have "drop (k + length u + length pat) s = [] @ r"
    using hit(2) by (metis append_Nil append_eq_conv_conj append.assoc drop_drop length_append add.assoc add.commute)
  from hit(1)[OF this] show ?case
    using pat by (simp add: matches_from_hit split_matches_hit join_Cons str_slice_append[OF hit(2)] Let_def)
next
  case (miss c t)
  have "drop k s = (u @ [c]) @ t" using miss(3) by simp
  from miss(2)[OF this] show ?case
    using miss(1) pat by (cases "split_matches t pat"; cases "tl (split_matches t pat)")
      (simp_all add: matches_from_miss split_matches_miss)
qed

lemma replaced_text:
  assumes "old \<noteq> []"
  shows "fst (replace_using_positions s (match_indices s old) old new) = join new (split_matches s old)"
  using replace_spans_pieces[OF assms, of 0 s "[]" s new "[]" "[]"]
  by (simp add: replace_using_positions_def match_indices_def)

subsection \<open>The offset map\<close>

lemma concat_utf8_chars: "concat (utf8_chars s) = s"
  by (induction s rule: utf8_chars.induct) (subst utf8_chars.simps, auto)

lemma length_offsets_from: "length (offsets_from n cs) = length (concat (map ascii_of cs)) + 1"
  by (induction n cs rule: offsets_from.induct) (simp_all add: ascii_of_def split: option.split)

lemma offsets_from_bounds: "set (offsets_from n cs) \<subseteq> {n..n + length (concat cs)}"
  by (induction n cs rule: offsets_from.induct) (force split: option.splits)+

lemma sorted_offsets_from: "sorted (offsets_from n cs)"
proof (induction n cs rule: offsets_from.induct)
  case (2 n c cs)
  have later: "\<forall>x \<in> set (offsets_from (n + length c) cs). n + length c \<le> x"
    using offsets_from_bounds[of "n + length c" cs] by auto
  show ?case
  proof (cases "confusable_lookup c")
    case None
    then show ?thesis using 2 later by (fastforce simp: sorted_append)
  next
    case (Some r)
    then show ?thesis using 2 later by (fastforce simp: sorted_append)
  qed
qed simp

lemma last_offsets_from: "last (offsets_from n cs) = n + length (concat cs)"
proof (induction n cs rule: offsets_from.induct)
  case (2 n c cs)
  have "offsets_from (n + length c) cs \<noteq> []" using length_offsets_from[of "n + length c" cs] by auto
  then show ?case using 2 by simp
qed simp

text \<open>The offsets of a text: one for each byte of the normalised text and one at the end, ascending, within the text.\<close>

lemma offset_map_sound_lemma:
  "case build_offset_map s of (norm, offsets) \<Rightarrow>
     length offsets = length norm + 1 \<and> sorted offsets \<and> last offsets = length s \<and> set offsets \<subseteq> {0..length s}"
  using length_offsets_from[of 0 "utf8_chars s"] sorted_offsets_from[of 0 "utf8_chars s"]
    last_offsets_from[of 0 "utf8_chars s"] offsets_from_bounds[of 0 "utf8_chars s"]
  by (simp add: build_offset_map_def normalize_confusables_def concat_utf8_chars)

subsection \<open>Matches of normalised texts\<close>

lemma matches_from_range:
  "pat \<noteq> [] \<Longrightarrow> m \<in> set (matches_from n s pat) \<Longrightarrow> n \<le> m \<and> m + length pat \<le> n + length s"
proof (induction n s pat rule: matches_from.induct)
  case (1 n s pat)
  show ?case
  proof (cases "s = []")
    case False
    show ?thesis
    proof (cases "starts_with s pat")
      case True
      then obtain r where "s = pat @ r" by (auto simp: starts_with_iff)
      then show ?thesis using 1 False True by (auto simp: matches_from_hit)
    next
      case miss: False
      obtain c r where "s = c # r" using False by (cases s) auto
      then show ?thesis using 1 False miss by (auto simp: matches_from_miss)
    qed
  qed (use 1 in \<open>simp add: matches_from_end\<close>)
qed

lemma not_overlapping_sorted:
  "\<not> overlapping ms \<Longrightarrow> sorted_wrt (\<lambda>a b. original_start a + original_len a \<le> original_start b) ms"
proof (induction ms rule: overlapping.induct)
  case (1 a b ms)
  then have "\<forall>m \<in> set (b # ms). original_start b \<le> original_start m" by fastforce
  then show ?case using 1 by fastforce
qed simp_all

lemma remap_match_sound:
  assumes "remap_match s (snd (build_offset_map s)) p n = Some m" "n + length p \<le> length (normalize_confusables s)"
  shows "normalize_confusables (str_slice s (original_start m) (original_start m + original_len m)) = p"
    and "original_start m + original_len m \<le> length s" and "0 < original_len m"
proof -
  let ?off = "snd (build_offset_map s)"
  have len: "length ?off = length (normalize_confusables s) + 1" and set: "set ?off \<subseteq> {0..length s}"
    using offset_map_sound_lemma[of s] by (auto simp: build_offset_map_def)
  then have "?off ! (n + length p) \<le> length s" using assms(2) nth_mem[of "n + length p" ?off] by force
  then show "normalize_confusables (str_slice s (original_start m) (original_start m + original_len m)) = p"
    "original_start m + original_len m \<le> length s" "0 < original_len m"
    using assms(1) by (auto simp: remap_match_def Let_def split: if_splits)
qed

text \<open>
  Every span that the fallback for look-alike characters replaces reads as the pattern once both are normalised;
  the spans lie in the text, one after the other, and none is empty.
\<close>

theorem normalized_spans_read_as_the_pattern:
  assumes "find_normalized_match_positions s pattern = Matches ms"
  shows "ms \<noteq> [] \<and> sorted_wrt (\<lambda>a b. original_start a + original_len a \<le> original_start b) ms
    \<and> (\<forall>m \<in> set ms. 0 < original_len m \<and> original_start m + original_len m \<le> length s
         \<and> normalize_confusables (str_slice s (original_start m) (original_start m + original_len m))
           = normalize_confusables pattern)"
proof -
  define p where "p = normalize_confusables pattern"
  define cands where "cands = map (remap_match s (snd (build_offset_map s)) p) (match_indices (normalize_confusables s) p)"
  have p: "p \<noteq> []" and ms: "ms = List.map_filter id cands" "ms \<noteq> []" "\<not> overlapping ms"
    using assms unfolding find_normalized_match_positions_def Let_def p_def[symmetric]
    by (auto simp: build_offset_map_def cands_def split: if_splits)
  have "0 < original_len m \<and> original_start m + original_len m \<le> length s
      \<and> normalize_confusables (str_slice s (original_start m) (original_start m + original_len m)) = p"
    if m: "m \<in> set ms" for m
  proof -
    obtain n where n: "n \<in> set (match_indices (normalize_confusables s) p)"
      "remap_match s (snd (build_offset_map s)) p n = Some m"
      using m by (auto simp: ms(1) cands_def List.map_filter_def)
    then have "n + length p \<le> length (normalize_confusables s)"
      using matches_from_range[OF p, of n 0] by (simp add: match_indices_def)
    then show ?thesis using remap_match_sound[OF n(2)] by blast
  qed
  then show ?thesis using ms not_overlapping_sorted[OF ms(3)] by (simp add: p_def)
qed

definition curly_text :: string where
  "curly_text = ''say '' @ [CHR 0xE2, CHR 0x80, CHR 0x9C] @ ''hi'' @ [CHR 0xE2, CHR 0x80, CHR 0x9D]"

theorem normalized_spans_read_as_the_pattern_witness:
  "find_normalized_match_positions curly_text ([CHR 0x22] @ ''hi'' @ [CHR 0x22])
     = Matches [\<lparr>original_start = 4, original_len = 8\<rparr>]
   \<and> normalize_confusables (str_slice curly_text 4 12) = [CHR 0x22] @ ''hi'' @ [CHR 0x22]"
proof -
  have f: "find_normalized_match_positions curly_text ([CHR 0x22] @ ''hi'' @ [CHR 0x22])
      = Matches [\<lparr>original_start = 4, original_len = 8\<rparr>]" by code_simp
  moreover have "normalize_confusables ([CHR 0x22] @ ''hi'' @ [CHR 0x22]) = [CHR 0x22] @ ''hi'' @ [CHR 0x22]" by code_simp
  ultimately show ?thesis using normalized_spans_read_as_the_pattern[OF f] by simp
qed

end
