(* ===== verification/Edit_Tools.thy ===== *)
theory Edit_Tools
  imports Str_Edit Tool_Files Auto_Route
begin

text \<open>
  The tools that replace a string in a file: \<open>search_replace\<close>
  (\<open>src/crates/codegen/xai-grok-tools/src/implementations/grok_build/search_replace/mod.rs\<close> with its errors of version 0.4.10) and
  \<open>edit\<close> (\<open>src/crates/codegen/xai-grok-tools/src/implementations/opencode/edit/mod.rs\<close>).

  The \<open>edit\<close> tool (\<open>src/crates/codegen/xai-grok-tools/src/implementations/opencode/edit/mod.rs\<close>): as \<open>search_replace\<close>, but with
  exact matches only, the model's path as it resolves, and failing writes as errors of the tool.
\<close>

section \<open>Edit tools\<close>

definition CONTEXT_LINES :: nat where "CONTEXT_LINES = 3"

definition NAME_MAX :: nat where "NAME_MAX = 255"

record edit_input =
  in_file_path :: string
  in_old_string :: string
  in_new_string :: string
  in_replace_all :: bool

record search_replace_params =
  empty_old_string_does_not_override :: bool
  unicode_normalized_fallback :: bool
  include_user_edit_hint :: bool

definition default_params :: search_replace_params where
  "default_params =
     \<lparr>empty_old_string_does_not_override = False, unicode_normalized_fallback = False, include_user_edit_hint = True\<rparr>"

text \<open>
  What a call finds in its session: the path the model's spelling stands for, before and after links and Unicode
  names are resolved, whether \<open>.gitignore\<close> keeps a file out, how templates are rendered, and texts made elsewhere.
\<close>

record edit_env =
  policy_path :: "string \<Rightarrow> string"
  edit_path :: "string \<Rightarrow> string"
  path_is_dir :: "string \<Rightarrow> bool"
  path_exists :: "string \<Rightarrow> bool"
  gitignored :: "string \<Rightarrow> bool"
  render :: "string \<Rightarrow> string + string"
  not_found_text :: "string \<Rightarrow> string"
  edit_tool_examples :: "string option"
  is_legacy :: bool
  edit_params :: search_replace_params

record edits_applied =
  ea_old_string :: string
  ea_new_string :: string
  ea_prompt :: string
  ea_prompt_concise :: string
  ea_path :: string
  ea_details :: "edit_detail list"
  ea_unicode_normalized :: bool

record no_matches =
  nm_message :: string
  nm_file_path :: string
  nm_snapshot :: "string option"

datatype edit_output =
    FileAlreadyExists string
  | EditsApplied edits_applied
  | MultipleMatchesFound string
  | NoMatchesFound no_matches
  | InvalidInput string
  | FileNotFound string
  | FilenameTooLong string

type_synonym edit_result = "files \<times> file_written list \<times> (string + edit_output)"

definition validate_path_length :: "string \<Rightarrow> edit_output option" where
  "validate_path_length p =
     (case List.find (\<lambda>c. case c of Normal name \<Rightarrow> length name > NAME_MAX | _ \<Rightarrow> False) (path_components p) of
        Some (Normal name) \<Rightarrow>
          Some (FilenameTooLong (''Error: file name exceeds the '' @ nat_digits NAME_MAX @ ''-character limit (''
            @ nat_digits (length name) @ '' characters). Please use a shorter file name.''))
      | _ \<Rightarrow> None)"

definition too_long_message :: string where
  "too_long_message = ''Error: file name exceeds the '' @ nat_digits NAME_MAX @ ''-character limit. Please use a shorter file name.''"

subsection \<open>Hints\<close>

fun longest_last :: "string list \<Rightarrow> string \<Rightarrow> string" where
  "longest_last [] best = best"
| "longest_last (w # ws) best = longest_last ws (if length best \<le> length w then w else best)"

definition build_nearest_match_hint :: "string \<Rightarrow> string \<Rightarrow> string" where
  "build_nearest_match_hint content old =
     (let keyword = longest_last (split_whitespace (case text_lines old of [] \<Rightarrow> [] | l # _ \<Rightarrow> l)) [] in
      if keyword = [] then []
      else case List.find (\<lambda>(_, l). contains_str l keyword) (List.enumerate 0 (text_lines content)) of
        None \<Rightarrow> []
      | Some (i, l) \<Rightarrow>
          truncate_str_with_marker ([CHR 0x0A, CHR 0x0A] @ ''Nearest match: line '' @ nat_digits (i + 1) @ '': '' @ trim_end l) 200)"

definition feeds_before :: "string \<Rightarrow> nat \<Rightarrow> nat" where
  "feeds_before s n = length (filter (\<lambda>c. c = CHR 0x0A) (take n s))"

definition MAX_LISTED_LINES :: nat where "MAX_LISTED_LINES = 8"

definition line_summary :: "nat list \<Rightarrow> string" where
  "line_summary ls =
     (if length ls \<le> MAX_LISTED_LINES then join '', '' (map nat_digits ls)
      else join '', '' (map nat_digits (take MAX_LISTED_LINES ls)) @ '' (and '' @ nat_digits (length ls - MAX_LISTED_LINES) @ '' more)'')"

definition build_confusable_hint :: "string \<Rightarrow> string \<Rightarrow> string option \<Rightarrow> string \<Rightarrow> string \<Rightarrow> string \<Rightarrow> string option" where
  "build_confusable_hint content old examples read_tool old_param execute_tool =
     (if \<not> has_confusables content then None
      else case build_offset_map content of (norm_file, offset_map) \<Rightarrow>
        (let norm_old = normalize_confusables old in
         case (if norm_old = [] then Some 0 else first (match_indices norm_file norm_old)) of
           None \<Rightarrow> None
         | Some norm_start \<Rightarrow>
             (let start_line = feeds_before content (offset_map ! norm_start) + 1;
                  end_line = feeds_before content (offset_map ! (norm_start + length norm_old)) + 1;
                  affected = remdups_adj (filter (\<lambda>n. start_line \<le> n \<and> n \<le> end_line)
                               (map ch_line_number (detect_confusables content))) in
              if affected = [] then None
              else Some ([CHR 0x0A, CHR 0x0A] @ ''The nearest matching region contains Unicode typography characters ''
                @ ''(smart quotes, em-dashes, etc.) on lines '' @ line_summary affected @ '' that look identical to ASCII''
                @ (if read_tool = [] then [] else '' in '' @ read_tool @ '' output'')
                @ '' but differ at the byte level. Re-read the file and use a shorter ''
                @ (if old_param = [] then ''old_string'' else old_param) @ '' anchored on nearby ASCII-only context''
                @ (case examples of
                     Some ex \<Rightarrow> if execute_tool = [] then []
                       else '', or use '' @ execute_tool @ '' with a short script'' @ ex @ '' to edit the file directly''
                   | None \<Rightarrow> [])
                @ ''.''))))"

subsection \<open>Creating a file\<close>

definition created_detail :: "edit_input \<Rightarrow> edit_detail" where
  "created_detail i =
     \<lparr>ed_old_string = in_old_string i, ed_old_line = 1, ed_new_string = in_new_string i, ed_new_line = 1,
      ed_context_before = [], ed_context_after = [], ed_line_prefix = []\<rparr>"

text \<open>How a failing write is reported; the file that was not found only when a new one is created.\<close>

definition write_error_output :: "edit_env \<Rightarrow> edit_input \<Rightarrow> bool \<Rightarrow> io_error \<Rightarrow> edit_output" where
  "write_error_output env i creating e =
     (if io_kind e = NotFound \<and> creating then FileNotFound (not_found_text env (in_file_path i))
      else if io_kind e = AlreadyExists
      then InvalidInput (''Error: cannot '' @ (if creating then ''create '' else ''write '') @ in_file_path i
             @ ''. A component of the path already exists as a file where a directory is expected.'')
      else if io_kind e = InvalidFilename then FilenameTooLong too_long_message
      else InvalidInput (''Error: failed to write '' @ in_file_path i @ '': '' @ io_message e))"

text \<open>The policy's answer, then the ordinary write when the file is outside the memory directories.\<close>

definition write_checked ::
  "tool_io \<Rightarrow> files \<Rightarrow> string \<Rightarrow> string \<Rightarrow> string \<Rightarrow> files \<times> (string + io_error option)" where
  "write_checked io fs policy p data =
     (case write_via_memory_v2 io fs policy data of
        (fs', Inl e) \<Rightarrow> (fs', Inl e)
      | (fs', Inr True) \<Rightarrow> (fs', Inr None)
      | (fs', Inr False) \<Rightarrow> (case write_file io fs' p data of (fs'', r) \<Rightarrow> (fs'', Inr r)))"

definition handle_new_file_creation :: "edit_env \<Rightarrow> tool_io \<Rightarrow> edit_input \<Rightarrow> files \<Rightarrow> edit_result" where
  "handle_new_file_creation env io i fs =
     (let path = edit_path env (in_file_path i);
          file_exists = (case read_file io fs path of Inr b \<Rightarrow> b \<noteq> [] | Inl _ \<Rightarrow> False);
          old_text = (case read_file io fs path of Inr b \<Rightarrow> Some (utf8_lossy b) | Inl _ \<Rightarrow> None);
          guarded = empty_old_string_does_not_override (edit_params env) in
      if file_exists \<and> guarded
      then (case render env ''${{ params.edit.old_string }}'' of
              Inl e \<Rightarrow> (fs, [], Inl e)
            | Inr name \<Rightarrow> (fs, [], Inr (FileAlreadyExists
                (name @ '' is empty, which is only allowed when creating a new file or when the file is empty.''))))
      else
        (case write_checked io fs (policy_path env (in_file_path i)) path (in_new_string i) of
           (fs', Inl e) \<Rightarrow> (fs', [], Inr (InvalidInput e))
         | (fs', Inr (Some e)) \<Rightarrow> (fs', [], Inr (write_error_output env i True e))
         | (fs', Inr None) \<Rightarrow>
             (fs', [case old_text of
                      Some old \<Rightarrow> if file_exists \<and> \<not> guarded then old_file_written path (in_new_string i) old
                                   else new_file_written path (in_new_string i)
                    | None \<Rightarrow> new_file_written path (in_new_string i)],
              Inr (EditsApplied
                \<lparr>ea_old_string = in_old_string i, ea_new_string = in_new_string i,
                 ea_prompt = ''The file '' @ in_file_path i @ '' has been created successfully.'',
                 ea_prompt_concise = ''The file '' @ in_file_path i @ '' has been created.'',
                 ea_path = path, ea_details = [created_detail i], ea_unicode_normalized = False\<rparr>))))"

subsection \<open>Replacing in a file\<close>

fun crlf_to_lf :: "string \<Rightarrow> string" where
  "crlf_to_lf (c # d # s) =
     (if c = CHR 0x0D \<and> d = CHR 0x0A then d # crlf_to_lf s else c # crlf_to_lf (d # s))"
| "crlf_to_lf s = s"

definition lf_to_crlf :: "string \<Rightarrow> string" where
  "lf_to_crlf s = concat (map (\<lambda>c. if c = CHR 0x0A then [CHR 0x0D, CHR 0x0A] else [c]) s)"

definition has_crlf :: "string \<Rightarrow> bool" where
  "has_crlf s \<longleftrightarrow> contains_str s [CHR 0x0D, CHR 0x0A]"

definition read_error_output :: "edit_env \<Rightarrow> edit_input \<Rightarrow> io_error \<Rightarrow> string + edit_output" where
  "read_error_output env i e =
     (case io_kind e of
        NotFound \<Rightarrow> Inr (FileNotFound (not_found_text env (in_file_path i)))
      | IsADirectory \<Rightarrow> Inr (InvalidInput (''Error: '' @ in_file_path i @ '' is a directory, not a file.''))
      | InvalidFilename \<Rightarrow> Inr (FilenameTooLong too_long_message)
      | PermissionDenied \<Rightarrow> Inr (InvalidInput (''Error: permission denied reading '' @ in_file_path i @ ''.''))
      | _ \<Rightarrow> Inl (io_message e))"

definition multiple_matches_message :: "string \<Rightarrow> string" where
  "multiple_matches_message name =
     ''The string to replace was found multiple times in the file. Use '' @ name
       @ '' to replace all occurrences, or include more context to only edit one occurrence.''"

text \<open>The spans to replace: exact matches, or matches of the normalised texts; \<open>None\<close> when nothing matches.\<close>

datatype span_choice =
    NoSpans
  | ExactSpans "nat list"
  | NormalizedSpans "normalized_match list"
  | SpanError "string + edit_output"

definition choose_spans :: "edit_env \<Rightarrow> edit_input \<Rightarrow> string \<Rightarrow> span_choice" where
  "choose_spans env i match_text =
     (let positions = match_indices match_text (in_old_string i) in
      if positions \<noteq> [] then ExactSpans positions
      else if \<not> unicode_normalized_fallback (edit_params env) then NoSpans
      else case find_normalized_match_positions match_text (in_old_string i) of
        NoMatch \<Rightarrow> NoSpans
      | Matches ms \<Rightarrow>
          if length ms > 1 \<and> \<not> in_replace_all i
          then SpanError (map_sum id (\<lambda>name. MultipleMatchesFound
                 (''The string to replace was found multiple times in the file (via Unicode normalization). Use '' @ name
                  @ '' to replace all occurrences, or include more context to only edit one occurrence.''))
                 (render env ''${{ params.edit.replace_all }}''))
          else NormalizedSpans ms
      | Ambiguous \<Rightarrow>
          SpanError (map_sum id (\<lambda>name. MultipleMatchesFound
            (''The string to replace was found via Unicode normalization but the match is ambiguous (partial or overlapping). Use a more specific ''
             @ name @ '' that avoids lines with Unicode typography characters.''))
            (render env ''${{ params.edit.old_string }}'')))"

definition no_match_output :: "edit_env \<Rightarrow> edit_input \<Rightarrow> string \<Rightarrow> string \<Rightarrow> string + edit_output" where
  "no_match_output env i path match_text =
     (case render env ''${{ tools.by_kind.read }}'' of Inl e \<Rightarrow> Inl e | Inr read_name \<Rightarrow>
      case render env ''${{ params.edit.old_string }}'' of Inl e \<Rightarrow> Inl e | Inr old_param \<Rightarrow>
      case render env ''${{ tools.by_kind.execute }}'' of Inl e \<Rightarrow> Inl e | Inr execute_name \<Rightarrow>
      Inr (NoMatchesFound
        \<lparr>nm_message = ''The string to replace was not found in the file, use the '' @ read_name
           @ '' tool to see the correct string.''
           @ (if include_user_edit_hint (edit_params env)
              then '' The user may have changed the file since you last read it.'' else [])
           @ (if is_legacy env then [] else build_nearest_match_hint match_text (in_old_string i))
           @ (if is_legacy env then []
              else case build_confusable_hint match_text (in_old_string i) (edit_tool_examples env) read_name old_param
                     execute_name of Some h \<Rightarrow> h | None \<Rightarrow> []),
         nm_file_path = path, nm_snapshot = None\<rparr>))"

definition applied_output :: "edit_input \<Rightarrow> string \<Rightarrow> string \<Rightarrow> nat list \<Rightarrow> bool \<Rightarrow> edit_output" where
  "applied_output i path new_text new_positions normalized =
     (let name = ''The file '' @ in_file_path i in
      EditsApplied
        \<lparr>ea_old_string = in_old_string i, ea_new_string = in_new_string i,
         ea_prompt = name @ (if length new_positions = 1 then '' has been updated successfully.''
                             else '' has been updated. All occurrences were successfully replaced.''),
         ea_prompt_concise = name @ (if length new_positions = 1 then '' has been updated.''
                                     else '' has been updated. All occurrences were replaced.''),
         ea_path = path,
         ea_details = build_edit_details new_text (in_old_string i) (in_new_string i) new_positions CONTEXT_LINES,
         ea_unicode_normalized = normalized\<rparr>)"

text \<open>The new text, with the line endings of the old one, is written, notified and reported.\<close>

definition write_replaced ::
  "edit_env \<Rightarrow> tool_io \<Rightarrow> edit_input \<Rightarrow> files \<Rightarrow> string \<Rightarrow> string \<Rightarrow> string \<times> nat list \<Rightarrow> bool \<Rightarrow> edit_result" where
  "write_replaced env io i fs path old_text replaced normalized =
     (case replaced of (new_text, new_positions) \<Rightarrow>
      let write_text = (if has_crlf old_text then lf_to_crlf (crlf_to_lf new_text) else new_text) in
      case write_checked io fs (policy_path env (in_file_path i)) path write_text of
        (fs', Inl e) \<Rightarrow> (fs', [], Inr (InvalidInput e))
      | (fs', Inr (Some e)) \<Rightarrow> (fs', [], Inr (write_error_output env i False e))
      | (fs', Inr None) \<Rightarrow>
          (fs', [old_file_written path write_text old_text],
           Inr (applied_output i path new_text new_positions normalized)))"

definition handle_replacement :: "edit_env \<Rightarrow> tool_io \<Rightarrow> edit_input \<Rightarrow> files \<Rightarrow> edit_result" where
  "handle_replacement env io i fs =
     (let path = edit_path env (in_file_path i) in
      case read_file io fs path of
        Inl e \<Rightarrow> (fs, [], read_error_output env i e)
      | Inr bytes \<Rightarrow>
          (let old_text = utf8_lossy bytes;
               match_text = (if has_crlf old_text then crlf_to_lf old_text else old_text) in
           case choose_spans env i match_text of
             NoSpans \<Rightarrow> (fs, [], no_match_output env i path match_text)
           | SpanError r \<Rightarrow> (fs, [], r)
           | ExactSpans ps \<Rightarrow>
               if length ps > 1 \<and> \<not> in_replace_all i
               then (fs, [], map_sum id (\<lambda>name. MultipleMatchesFound (multiple_matches_message name))
                               (render env ''${{ params.edit.replace_all }}''))
               else write_replaced env io i fs path old_text
                      (replace_using_positions match_text ps (in_old_string i) (in_new_string i)) False
           | NormalizedSpans ms \<Rightarrow>
               write_replaced env io i fs path old_text
                 (replace_normalized_matches match_text ms (in_new_string i)) True))"

subsection \<open>A call\<close>

definition run_search_replace :: "edit_env \<Rightarrow> tool_io \<Rightarrow> edit_input \<Rightarrow> files \<Rightarrow> edit_result" where
  "run_search_replace env io i fs =
     (let path = edit_path env (in_file_path i) in
      case validate_path_length (in_file_path i) of
        Some err \<Rightarrow> (fs, [], Inr err)
      | None \<Rightarrow>
          if path_is_dir env path then (fs, [], Inr (InvalidInput ''File path is a directory''))
          else if \<not> is_legacy env \<and> gitignored env path
          then (fs, [], Inr (InvalidInput (''Error: '' @ in_file_path i @ '' is ignored by .gitignore and cannot be edited.'')))
          else if in_old_string i = in_new_string i
          then (fs, [], Inr (InvalidInput ''Old string and new string are the same''))
          else if in_old_string i = [] then handle_new_file_creation env io i fs
          else handle_replacement env io i fs)"

text \<open>The errors of version 0.4.10: every structured error becomes an invalid input with the wording of that version.\<close>

definition downgrade_structured_errors :: "edit_env \<Rightarrow> edit_input \<Rightarrow> edit_output \<Rightarrow> string + edit_output" where
  "downgrade_structured_errors env i out =
     (case render env ''${{ tools.by_kind.read }}'' of Inl e \<Rightarrow> Inl e | Inr read_name \<Rightarrow>
      case render env ''${{ params.edit.replace_all }}'' of Inl e \<Rightarrow> Inl e | Inr all_name \<Rightarrow>
      case render env ''${{ params.edit.old_string }}'' of Inl e \<Rightarrow> Inl e | Inr old_name \<Rightarrow>
      Inr (case out of
             FileAlreadyExists _ \<Rightarrow> InvalidInput
               (old_name @ '' is empty, which is only allowed when creating a new file or when the file is empty.'')
           | FileNotFound _ \<Rightarrow> InvalidInput (''File not found: '' @ in_file_path i @ ''. Please check the path and try again.'')
           | FilenameTooLong m \<Rightarrow> InvalidInput m
           | MultipleMatchesFound _ \<Rightarrow> InvalidInput (multiple_matches_message all_name)
           | NoMatchesFound _ \<Rightarrow> InvalidInput
               (''The string to replace was not found in the file, use the '' @ read_name @ '' tool to see the correct string.'')
           | _ \<Rightarrow> out))"

definition search_replace_tool :: "edit_env \<Rightarrow> tool_io \<Rightarrow> edit_input \<Rightarrow> files \<Rightarrow> edit_result" where
  "search_replace_tool env io i fs =
     (case run_search_replace env io i fs of
        (fs', sent, Inl e) \<Rightarrow> (fs', sent, Inl e)
      | (fs', sent, Inr out) \<Rightarrow>
          (fs', sent, if is_legacy env then downgrade_structured_errors env i out else Inr out))"

section \<open>Opencode edit\<close>

definition numbered_text :: "string \<Rightarrow> string" where
  "numbered_text s = concat (map numbered_line (List.enumerate 0 (split_inclusive s)))"

text \<open>The write of this tool: parent directories are made for a new file only.\<close>

definition write_plain ::
  "tool_io \<Rightarrow> files \<Rightarrow> string \<Rightarrow> string \<Rightarrow> bool \<Rightarrow> files \<times> (string + edit_output) option" where
  "write_plain io fs p data parents =
     (case write_via_memory_v2 io fs p data of
        (fs', Inl e) \<Rightarrow> (fs', Some (Inr (InvalidInput e)))
      | (fs', Inr True) \<Rightarrow> (fs', None)
      | (fs', Inr False) \<Rightarrow>
          (case (if parents then ensure_parent_dirs io p else None) of
             Some e \<Rightarrow> (fs', Some (Inl e))
           | None \<Rightarrow>
               (case write_file io fs' p data of
                  (fs'', Some e) \<Rightarrow> (fs'', Some (Inl (io_message e)))
                | (fs'', None) \<Rightarrow> (fs'', None))))"

definition edit_create :: "edit_env \<Rightarrow> tool_io \<Rightarrow> edit_input \<Rightarrow> files \<Rightarrow> edit_result" where
  "edit_create env io i fs =
     (let path = policy_path env (in_file_path i);
          file_exists = (case read_file io fs path of Inr b \<Rightarrow> b \<noteq> [] | Inl _ \<Rightarrow> False) in
      if file_exists
      then (fs, [], Inr (FileAlreadyExists
             ''oldString is empty, which is only allowed when creating a new file or when the file is empty.''))
      else case write_plain io fs path (in_new_string i) True of
        (fs', Some r) \<Rightarrow> (fs', [], r)
      | (fs', None) \<Rightarrow>
          (fs', [new_file_written path (in_new_string i)],
           Inr (EditsApplied
             \<lparr>ea_old_string = in_old_string i, ea_new_string = in_new_string i,
              ea_prompt = ''The file '' @ in_file_path i @ '' has been created. Here'' @ [CHR 0x27] @ ''s the content:''
                @ [CHR 0x0A, CHR 0x0A] @ numbered_text (in_new_string i),
              ea_prompt_concise = ''The file '' @ in_file_path i @ '' has been created.'',
              ea_path = path, ea_details = [created_detail i], ea_unicode_normalized = False\<rparr>)))"

definition edit_applied :: "edit_input \<Rightarrow> string \<Rightarrow> string \<Rightarrow> nat list \<Rightarrow> edit_output" where
  "edit_applied i path new_text new_positions =
     EditsApplied
       \<lparr>ea_old_string = in_old_string i, ea_new_string = in_new_string i,
        ea_prompt =
          (case new_positions of
             [p] \<Rightarrow> ''The file '' @ in_file_path i @ '' has been updated. Here'' @ [CHR 0x27]
               @ ''s a relevant snippet of the edited file:'' @ [CHR 0x0A, CHR 0x0A]
               @ fst (render_snippet new_text (in_new_string i) p CONTEXT_LINES)
           | _ \<Rightarrow> ''All '' @ nat_digits (length new_positions)
               @ '' occurrences of the specified string were successfully replaced in '' @ in_file_path i @ ''.''),
        ea_prompt_concise = ''The file '' @ in_file_path i
          @ (if length new_positions = 1 then '' has been updated.''
             else '' has been updated. All occurrences were successfully replaced.''),
        ea_path = path,
        ea_details = build_edit_details new_text (in_old_string i) (in_new_string i) new_positions CONTEXT_LINES,
        ea_unicode_normalized = False\<rparr>"

definition edit_replace :: "edit_env \<Rightarrow> tool_io \<Rightarrow> edit_input \<Rightarrow> files \<Rightarrow> edit_result" where
  "edit_replace env io i fs =
     (let path = policy_path env (in_file_path i) in
      case read_file io fs path of
        Inl e \<Rightarrow>
          (fs, [], if \<not> path_exists env path
             then Inr (FileNotFound (''File not found: '' @ in_file_path i @ ''. Please check the path and try again.''))
             else Inl (io_message e))
      | Inr bytes \<Rightarrow>
          (let old_text = utf8_lossy bytes;
               positions = match_indices old_text (in_old_string i) in
           if positions = []
           then (fs, [], Inr (NoMatchesFound
             \<lparr>nm_message = ''The string to replace was not found in the file. Make sure it matches exactly, including whitespace and indentation.'',
              nm_file_path = path, nm_snapshot = Some old_text\<rparr>))
           else if length positions > 1 \<and> \<not> in_replace_all i
           then (fs, [], map_sum id (\<lambda>name. MultipleMatchesFound (multiple_matches_message name))
                           (render env ''${{ params.edit.replaceAll }}''))
           else
             (case replace_using_positions old_text (if in_replace_all i then positions else take 1 positions)
                     (in_old_string i) (in_new_string i) of
                (new_text, new_positions) \<Rightarrow>
                  (case write_plain io fs path new_text False of
                     (fs', Some r) \<Rightarrow> (fs', [], r)
                   | (fs', None) \<Rightarrow>
                       (fs', [old_file_written path new_text old_text], Inr (edit_applied i path new_text new_positions))))))"

definition run_edit :: "edit_env \<Rightarrow> tool_io \<Rightarrow> edit_input \<Rightarrow> files \<Rightarrow> edit_result" where
  "run_edit env io i fs =
     (if path_is_dir env (policy_path env (in_file_path i)) then (fs, [], Inr (InvalidInput ''File path is a directory''))
      else if in_old_string i = in_new_string i
      then (fs, [], Inr (InvalidInput ''Old string and new string are the same''))
      else if in_old_string i = [] then edit_create env io i fs
      else edit_replace env io i fs)"

end
