(* ===== verification/Edit_Properties.thy ===== *)
theory Edit_Properties
  imports Edit_Tools Str_Edit
begin

text \<open>
  What the edit tools guarantee: a call either applies its edit to the one file it names or changes nothing; on a regular
  text file, valid UTF-8 with one kind of line ending, the edit is exactly the one asked for and the line endings are kept.

  Where the edit tools do something else than they say, each shown on a concrete call.
\<close>

section \<open>Edit properties\<close>

subsection \<open>Line endings\<close>

definition with_endings :: "bool \<Rightarrow> string \<Rightarrow> string" where
  "with_endings crlf s = (if crlf then lf_to_crlf (crlf_to_lf s) else s)"

definition matched_text :: "string \<Rightarrow> string" where
  "matched_text old_text = (if has_crlf old_text then crlf_to_lf old_text else old_text)"

lemma crlf_to_lf_no_cr: "CHR 0x0D \<notin> set s \<Longrightarrow> crlf_to_lf s = s"
  by (induction s rule: crlf_to_lf.induct) auto

lemma lf_to_crlf_simps [simp]:
  "lf_to_crlf [] = []"
  "lf_to_crlf (c # s) = (if c = CHR 0x0A then [CHR 0x0D, CHR 0x0A] else [c]) @ lf_to_crlf s"
  by (simp_all add: lf_to_crlf_def)

lemma crlf_to_lf_Cons: "c \<noteq> CHR 0x0D \<Longrightarrow> crlf_to_lf (c # s) = c # crlf_to_lf s"
  by (cases s) simp_all

lemma crlf_to_lf_crlf: "CHR 0x0D \<notin> set s \<Longrightarrow> crlf_to_lf (lf_to_crlf s) = s"
  by (induction s) (auto simp: crlf_to_lf_Cons)

lemma has_crlf_lf_to_crlf: "CHR 0x0D \<notin> set s \<Longrightarrow> has_crlf (lf_to_crlf s) \<longleftrightarrow> CHR 0x0A \<in> set s"
proof (induction s)
  case (Cons c s)
  then show ?case by (cases "lf_to_crlf s") (auto simp: has_crlf_def)
qed (simp add: has_crlf_def)

subsection \<open>What a call of \<open>search_replace\<close> does\<close>

lemma write_checked_plain:
  "memory_access io = None \<Longrightarrow> write_failure io p = None \<Longrightarrow>
   write_checked io fs policy p data = (fs(node_of io p \<mapsto> data), Inr None)"
  by (simp add: write_checked_def write_via_memory_v2_def write_file_def)

text \<open>The edit that a call asks for, as a relation between the bytes before and after.\<close>

definition exact_edit :: "edit_input \<Rightarrow> string \<Rightarrow> string \<Rightarrow> bool" where
  "exact_edit i bytes after \<longleftrightarrow>
     (let old_text = utf8_lossy bytes; pieces = split_matches (matched_text old_text) (in_old_string i) in
      2 \<le> length pieces \<and> (in_replace_all i \<or> length pieces = 2)
      \<and> join (in_old_string i) pieces = matched_text old_text
      \<and> (\<forall>w \<in> set pieces. \<not> contains_str w (in_old_string i))
      \<and> after = with_endings (has_crlf old_text) (join (in_new_string i) pieces))"

definition look_alike_edit :: "edit_input \<Rightarrow> string \<Rightarrow> string \<Rightarrow> bool" where
  "look_alike_edit i bytes after \<longleftrightarrow>
     (let old_text = utf8_lossy bytes in
      match_indices (matched_text old_text) (in_old_string i) = []
      \<and> (\<exists>ms. find_normalized_match_positions (matched_text old_text) (in_old_string i) = Matches ms
           \<and> (in_replace_all i \<or> length ms \<le> 1)
           \<and> after = with_endings (has_crlf old_text)
               (fst (replace_normalized_matches (matched_text old_text) ms (in_new_string i)))))"

definition requested_edit :: "edit_env \<Rightarrow> edit_input \<Rightarrow> string \<Rightarrow> string \<Rightarrow> bool" where
  "requested_edit env i bytes after \<longleftrightarrow>
     exact_edit i bytes after \<or> unicode_normalized_fallback (edit_params env) \<and> look_alike_edit i bytes after"

text \<open>Nothing happened, or the file holds the edit and one notification tells both texts.\<close>

definition edit_done :: "edit_env \<Rightarrow> tool_io \<Rightarrow> edit_input \<Rightarrow> files \<Rightarrow> files \<Rightarrow> file_written list \<Rightarrow> bool" where
  "edit_done env io i fs fs' sent \<longleftrightarrow>
     (let path = edit_path env (in_file_path i) in
      \<exists>bytes after. fs (node_of io path) = Some bytes \<and> requested_edit env i bytes after
        \<and> fs' = fs(node_of io path \<mapsto> after) \<and> sent = [old_file_written path after (utf8_lossy bytes)])"

lemma exact_edit_of_matches:
  assumes "in_old_string i \<noteq> []" "match_indices (matched_text (utf8_lossy bytes)) (in_old_string i) = ps" "ps \<noteq> []"
    "\<not> (length ps > 1 \<and> \<not> in_replace_all i)"
  shows "exact_edit i bytes (with_endings (has_crlf (utf8_lossy bytes))
     (fst (replace_using_positions (matched_text (utf8_lossy bytes)) ps (in_old_string i) (in_new_string i))))"
proof -
  have "length (split_matches (matched_text (utf8_lossy bytes)) (in_old_string i)) = Suc (length ps)"
    using length_split_matches[OF assms(1), of "matched_text (utf8_lossy bytes)" 0] assms(2) by (simp add: match_indices_def)
  moreover have "fst (replace_using_positions (matched_text (utf8_lossy bytes)) ps (in_old_string i) (in_new_string i))
      = join (in_new_string i) (split_matches (matched_text (utf8_lossy bytes)) (in_old_string i))"
    using replaced_text[OF assms(1), of "matched_text (utf8_lossy bytes)"] assms(2) by simp
  ultimately show ?thesis
    using join_split_matches[OF assms(1)] split_matches_no_match[OF assms(1)] assms(3,4)
    by (cases ps) (auto simp: exact_edit_def Let_def)
qed

lemma read_file_Inr: "read_file io fs p = Inr b \<Longrightarrow> fs (node_of io p) = Some b"
  by (auto simp: read_file_def split: option.splits)

lemma write_replaced_done:
  assumes io: "memory_access io = None" "write_failure io path = None"
  shows "write_replaced env io i fs path old_text (new_text, ps) normalized =
     (fs(node_of io path \<mapsto> with_endings (has_crlf old_text) new_text),
      [old_file_written path (with_endings (has_crlf old_text) new_text) old_text],
      Inr (applied_output i path new_text ps normalized))"
  using io by (simp add: write_replaced_def Let_def write_checked_plain with_endings_def)

lemma handle_replacement_outcome:
  assumes io: "memory_access io = None" "write_failure io (edit_path env (in_file_path i)) = None"
    and run: "handle_replacement env io i fs = (fs', sent, r)" and old: "in_old_string i \<noteq> []"
  shows "(\<exists>ea. r = Inr (EditsApplied ea)) \<and> edit_done env io i fs fs' sent
    \<or> (\<nexists>ea. r = Inr (EditsApplied ea)) \<and> fs' = fs \<and> sent = []"
proof (cases "read_file io fs (edit_path env (in_file_path i))")
  case (Inl e)
  then show ?thesis using run by (auto simp: handle_replacement_def read_error_output_def split: io_kind.splits)
next
  case (Inr bytes)
  define path where "path = edit_path env (in_file_path i)"
  define t where "t = matched_text (utf8_lossy bytes)"
  have b: "fs (node_of io path) = Some bytes" using read_file_Inr Inr path_def by blast
  note io' = io[folded path_def]
  have run': "(case choose_spans env i t of
             NoSpans \<Rightarrow> (fs, [], no_match_output env i path t)
           | SpanError r \<Rightarrow> (fs, [], r)
           | ExactSpans ps \<Rightarrow>
               if length ps > 1 \<and> \<not> in_replace_all i
               then (fs, [], map_sum id (\<lambda>name. MultipleMatchesFound (multiple_matches_message name))
                               (render env ''${{ params.edit.replace_all }}''))
               else write_replaced env io i fs path (utf8_lossy bytes)
                      (replace_using_positions t ps (in_old_string i) (in_new_string i)) False
           | NormalizedSpans ms \<Rightarrow>
               write_replaced env io i fs path (utf8_lossy bytes)
                 (replace_normalized_matches t ms (in_new_string i)) True) = (fs', sent, r)"
    using run unfolding handle_replacement_def path_def t_def matched_text_def Let_def by (simp only: Inr sum.case)
  show ?thesis
  proof (cases "choose_spans env i t")
    case NoSpans
    then show ?thesis using run' by (auto simp: no_match_output_def split: sum.splits)
  next
    case (SpanError r')
    have "\<nexists>ea. r' = Inr (EditsApplied ea)"
      using SpanError by (auto simp: choose_spans_def Let_def map_sum_def split: if_splits normalized_match_result.splits sum.splits)
    then show ?thesis using run' SpanError by auto
  next
    case (ExactSpans ps)
    then have ps: "match_indices t (in_old_string i) = ps" "ps \<noteq> []"
      by (auto simp: choose_spans_def Let_def split: if_splits normalized_match_result.splits)
    show ?thesis
    proof (cases "length ps > 1 \<and> \<not> in_replace_all i")
      case True
      then show ?thesis using run' ExactSpans
        by (auto simp: map_sum_def split: sum.splits)
    next
      case False
      obtain nt np where n: "replace_using_positions t ps (in_old_string i) (in_new_string i) = (nt, np)" by fastforce
      have "requested_edit env i bytes (with_endings (has_crlf (utf8_lossy bytes)) nt)"
        using exact_edit_of_matches[OF old, of bytes ps] ps False n by (simp add: requested_edit_def t_def)
      moreover have "write_replaced env io i fs path (utf8_lossy bytes) (nt, np) False = (fs', sent, r)"
        using run' False unfolding ExactSpans by (simp only: span_choice.case if_False n)
      ultimately show ?thesis
        using b by (auto simp: write_replaced_done[OF io'] edit_done_def Let_def applied_output_def path_def[symmetric])
    qed
  next
    case (NormalizedSpans ms)
    then have ms: "match_indices t (in_old_string i) = []" "find_normalized_match_positions t (in_old_string i) = Matches ms"
      "unicode_normalized_fallback (edit_params env)" "in_replace_all i \<or> length ms \<le> 1"
      by (auto simp: choose_spans_def Let_def split: if_splits normalized_match_result.splits)
    obtain nt np where n: "replace_normalized_matches t ms (in_new_string i) = (nt, np)" by fastforce
    have "requested_edit env i bytes (with_endings (has_crlf (utf8_lossy bytes)) nt)"
      using ms n by (auto simp: requested_edit_def look_alike_edit_def t_def)
    moreover have "write_replaced env io i fs path (utf8_lossy bytes) (nt, np) True = (fs', sent, r)"
      using run' unfolding NormalizedSpans by (simp only: span_choice.case n)
    ultimately show ?thesis
      using b by (auto simp: write_replaced_done[OF io'] edit_done_def Let_def applied_output_def path_def[symmetric])
  qed
qed

subsection \<open>A whole call\<close>

text \<open>With an empty old string the file is made anew; a readable file with content only when nothing guards it.\<close>

definition file_created :: "edit_env \<Rightarrow> tool_io \<Rightarrow> edit_input \<Rightarrow> files \<Rightarrow> files \<Rightarrow> file_written list \<Rightarrow> bool" where
  "file_created env io i fs fs' sent \<longleftrightarrow>
     (let path = edit_path env (in_file_path i); new = in_new_string i in
      fs' = fs(node_of io path \<mapsto> new)
      \<and> (case read_file io fs path of
           Inl _ \<Rightarrow> sent = [new_file_written path new]
         | Inr old \<Rightarrow>
             if old = [] then sent = [new_file_written path new]
             else \<not> empty_old_string_does_not_override (edit_params env)
               \<and> sent = [old_file_written path new (utf8_lossy old)]))"

lemma handle_new_file_creation_outcome:
  assumes io: "memory_access io = None" "write_failure io (edit_path env (in_file_path i)) = None"
    and run: "handle_new_file_creation env io i fs = (fs', sent, r)"
  shows "(\<exists>ea. r = Inr (EditsApplied ea)) \<and> file_created env io i fs fs' sent
    \<or> (\<nexists>ea. r = Inr (EditsApplied ea)) \<and> fs' = fs \<and> sent = []"
  using run
  by (auto simp: handle_new_file_creation_def write_checked_plain[OF io] file_created_def Let_def
      split: sum.splits if_splits)

text \<open>
  On any bytes: the edit is done on the text the tool reads, without its CRLFs, and written with the endings the tool
  chooses for the whole file (\<open>exact_edit\<close>, \<open>look_alike_edit\<close>).
\<close>

lemma search_replace_outcome:
  assumes "memory_access io = None" "write_failure io (edit_path env (in_file_path i)) = None"
    and "run_search_replace env io i fs = (fs', sent, r)"
  shows "(\<exists>ea. r = Inr (EditsApplied ea))
      \<and> (if in_old_string i = [] then file_created env io i fs fs' sent else edit_done env io i fs fs' sent)
    \<or> (\<nexists>ea. r = Inr (EditsApplied ea)) \<and> fs' = fs \<and> sent = []"
proof (cases "validate_path_length (in_file_path i)")
  case None
  show ?thesis
  proof (cases "in_old_string i = []")
    case True
    then show ?thesis using assms(3) None handle_new_file_creation_outcome[OF assms(1,2)]
      by (auto simp: run_search_replace_def Let_def split: if_splits)
  next
    case False
    then show ?thesis using assms(3) None handle_replacement_outcome[OF assms(1,2)]
      by (auto simp: run_search_replace_def Let_def split: if_splits)
  qed
next
  case (Some e)
  then have "\<nexists>ea. e = EditsApplied ea"
    by (auto simp: validate_path_length_def split: option.splits component.splits)
  then show ?thesis using assms(3) Some by (auto simp: run_search_replace_def Let_def)
qed

subsection \<open>Regular text files\<close>

text \<open>Lines with one kind of ending: bare line feeds, or CRLF throughout.\<close>

definition in_endings :: "bool \<Rightarrow> string \<Rightarrow> string" where
  "in_endings crlf t = (if crlf then lf_to_crlf t else t)"

definition regular_text :: "string \<Rightarrow> bool" where
  "regular_text bytes \<longleftrightarrow>
     valid_utf8 bytes \<and> bytes = in_endings (has_crlf bytes) (matched_text bytes) \<and> CHR 0x0D \<notin> set (matched_text bytes)"

text \<open>
  The edit, without regard to how the tool computes it: the text is the old string between pieces that do not contain it,
  and the new text is the new string between the same pieces; the old string is there once, unless all occurrences are asked for.
\<close>

definition replaces :: "string \<Rightarrow> string \<Rightarrow> bool \<Rightarrow> string \<Rightarrow> string \<Rightarrow> bool" where
  "replaces old new all t t' \<longleftrightarrow>
     (\<exists>pieces. 2 \<le> length pieces \<and> (all \<or> length pieces = 2)
        \<and> t = join old pieces \<and> t' = join new pieces \<and> (\<forall>w \<in> set pieces. \<not> contains_str w old))"

text \<open>The file has the edited text with the line endings it had, nothing else changed, and one notification tells both texts.\<close>

definition regular_edit_done :: "edit_env \<Rightarrow> tool_io \<Rightarrow> edit_input \<Rightarrow> files \<Rightarrow> files \<Rightarrow> file_written list \<Rightarrow> bool" where
  "regular_edit_done env io i fs fs' sent \<longleftrightarrow>
     (let path = edit_path env (in_file_path i) in
      \<exists>crlf t t'. fs (node_of io path) = Some (in_endings crlf t) \<and> CHR 0x0D \<notin> set t \<and> CHR 0x0D \<notin> set t'
        \<and> (crlf \<longrightarrow> CHR 0x0A \<in> set t)
        \<and> replaces (in_old_string i) (in_new_string i) (in_replace_all i) t t'
        \<and> fs' = fs(node_of io path \<mapsto> in_endings crlf t')
        \<and> sent = [old_file_written path (in_endings crlf t') (in_endings crlf t)])"

lemma set_join_pieces: "set (join x ws) \<subseteq> set x \<union> \<Union> (set ` set ws)"
  by (induction x ws rule: join.induct) auto

lemma set_pieces: "w \<in> set ws \<Longrightarrow> set w \<subseteq> set (join x ws)"
  by (induction x ws rule: join.induct) auto

lemma edit_of_regular_text:
  assumes "regular_text bytes" "CHR 0x0D \<notin> set (in_new_string i)" "exact_edit i bytes after"
  shows "\<exists>crlf t t'. bytes = in_endings crlf t \<and> CHR 0x0D \<notin> set t \<and> CHR 0x0D \<notin> set t' \<and> (crlf \<longrightarrow> CHR 0x0A \<in> set t)
    \<and> replaces (in_old_string i) (in_new_string i) (in_replace_all i) t t' \<and> after = in_endings crlf t'"
proof -
  define t where "t = matched_text bytes"
  define pieces where "pieces = split_matches t (in_old_string i)"
  define t' where "t' = join (in_new_string i) pieces"
  have bytes: "utf8_lossy bytes = bytes" "bytes = in_endings (has_crlf bytes) t" "CHR 0x0D \<notin> set t"
    using assms(1) by (simp_all add: regular_text_def utf8_lossy_valid t_def)
  have edit: "2 \<le> length pieces" "in_replace_all i \<or> length pieces = 2" "join (in_old_string i) pieces = t"
    "\<forall>w \<in> set pieces. \<not> contains_str w (in_old_string i)" "after = with_endings (has_crlf bytes) t'"
    using assms(3) unfolding exact_edit_def bytes(1) Let_def t_def[symmetric] pieces_def[symmetric] t'_def by simp_all
  have "CHR 0x0D \<notin> set w" if "w \<in> set pieces" for w
    using set_pieces[OF that, of "in_old_string i"] bytes(3) edit(3) by auto
  then have t': "CHR 0x0D \<notin> set t'" using assms(2) set_join_pieces[of "in_new_string i" pieces] unfolding t'_def by auto
  have "after = in_endings (has_crlf bytes) t'" using edit(5) t' by (simp add: with_endings_def in_endings_def crlf_to_lf_no_cr)
  moreover have "has_crlf bytes \<longrightarrow> CHR 0x0A \<in> set t"
    using has_crlf_lf_to_crlf[OF bytes(3)] bytes(2) by (cases "has_crlf bytes") (simp_all add: in_endings_def)
  moreover have "replaces (in_old_string i) (in_new_string i) (in_replace_all i) t t'"
    unfolding replaces_def t'_def using edit(1-4) by (intro exI[of _ pieces]) simp
  ultimately show ?thesis using bytes(2,3) t' by blast
qed

text \<open>C39: let no memory policy stand in between, the disk take the write, the fallback for look-alike characters be off, the file,
  if it exists, be regular text, and the new string have no carriage return.  Then a call of \<open>search_replace\<close> either reports an
  applied edit, and the file it names holds exactly the edit the call asks for, in the line endings it had (or the new
  string alone, when the old string is empty), no other file changed and one notification tells the texts before and after;
  or it reports something else, no file changed and nothing was notified.
\<close>

theorem edit_is_applied_or_nothing_changes:
  assumes "memory_access io = None" "write_failure io (edit_path env (in_file_path i)) = None"
    and "\<not> unicode_normalized_fallback (edit_params env)"
    and "\<And>bytes. fs (node_of io (edit_path env (in_file_path i))) = Some bytes \<Longrightarrow> regular_text bytes"
    and "CHR 0x0D \<notin> set (in_new_string i)"
    and "run_search_replace env io i fs = (fs', sent, r)"
  shows "(\<exists>ea. r = Inr (EditsApplied ea))
      \<and> (if in_old_string i = [] then file_created env io i fs fs' sent else regular_edit_done env io i fs fs' sent)
    \<or> (\<nexists>ea. r = Inr (EditsApplied ea)) \<and> fs' = fs \<and> sent = []"
proof -
  have "regular_edit_done env io i fs fs' sent" if d: "edit_done env io i fs fs' sent"
  proof -
    let ?p = "edit_path env (in_file_path i)"
    obtain bytes after where b: "fs (node_of io ?p) = Some bytes" "exact_edit i bytes after"
        "fs' = fs(node_of io ?p \<mapsto> after)" "sent = [old_file_written ?p after (utf8_lossy bytes)]"
      using d assms(3) by (auto simp: edit_done_def requested_edit_def Let_def)
    have "utf8_lossy bytes = bytes" using assms(4)[OF b(1)] by (simp add: regular_text_def utf8_lossy_valid)
    then show ?thesis using edit_of_regular_text[OF assms(4)[OF b(1)] assms(5) b(2)] b
      by (auto simp: regular_edit_done_def Let_def)
  qed
  then show ?thesis using search_replace_outcome[OF assms(1,2,6)] by auto
qed

definition demo_env :: edit_env where
  "demo_env =
     \<lparr>policy_path = id, edit_path = id, path_is_dir = \<lambda>_. False, path_exists = \<lambda>_. True, gitignored = \<lambda>_. False,
      render = Inr, not_found_text = id, edit_tool_examples = None, is_legacy = False, edit_params = default_params\<rparr>"

definition demo_edit :: "string \<Rightarrow> string \<Rightarrow> bool \<Rightarrow> edit_input" where
  "demo_edit old new all =
     \<lparr>in_file_path = ''/w/f'', in_old_string = old, in_new_string = new, in_replace_all = all\<rparr>"

definition windows_lines :: string where
  "windows_lines = [CHR ''a'', CHR 0x0D, CHR 0x0A, CHR ''b'', CHR 0x0D, CHR 0x0A]"

text \<open>The file after a call and what the call reported: whether an edit was applied.\<close>

definition edit_effect :: "edit_result \<Rightarrow> string option \<times> file_written list \<times> bool" where
  "edit_effect res =
     (case res of (fs, sent, r) \<Rightarrow> (fs ''/w/f'', sent, case r of Inr (EditsApplied _) \<Rightarrow> True | _ \<Rightarrow> False))"

theorem edit_is_applied_or_nothing_changes_witness:
  "case run_search_replace demo_env plain_io (demo_edit ''b'' [CHR ''x'', CHR 0x0A, CHR ''y''] False) [''/w/f'' \<mapsto> windows_lines] of
     (fs', sent, r) \<Rightarrow>
       regular_edit_done demo_env plain_io (demo_edit ''b'' [CHR ''x'', CHR 0x0A, CHR ''y''] False) [''/w/f'' \<mapsto> windows_lines] fs' sent
       \<and> fs' ''/w/f'' = Some [CHR ''a'', CHR 0x0D, CHR 0x0A, CHR ''x'', CHR 0x0D, CHR 0x0A, CHR ''y'', CHR 0x0D, CHR 0x0A]"
proof -
  let ?i = "demo_edit ''b'' [CHR ''x'', CHR 0x0A, CHR ''y''] False"
  obtain fs' sent r where run: "run_search_replace demo_env plain_io ?i [''/w/f'' \<mapsto> windows_lines] = (fs', sent, r)"
    by (metis prod_cases3)
  have e: "map_prod id snd (edit_effect (run_search_replace demo_env plain_io ?i [''/w/f'' \<mapsto> windows_lines]))
      = (Some [CHR ''a'', CHR 0x0D, CHR 0x0A, CHR ''x'', CHR 0x0D, CHR 0x0A, CHR ''y'', CHR 0x0D, CHR 0x0A], True)"
    by code_simp
  have w: "regular_text windows_lines" by code_simp
  have regular: "regular_text b" if "[''/w/f'' \<mapsto> windows_lines] (node_of plain_io (edit_path demo_env (in_file_path ?i))) = Some b" for b
    using that w by (auto simp: demo_env_def demo_edit_def plain_io_def split: if_splits)
  have "in_old_string ?i \<noteq> []" "CHR 0x0D \<notin> set (in_new_string ?i)" "\<not> unicode_normalized_fallback (edit_params demo_env)"
    by (simp_all add: demo_edit_def demo_env_def default_params_def)
  then show ?thesis
    using edit_is_applied_or_nothing_changes[OF _ _ _ regular _ run] e run
    by (auto simp: edit_effect_def split: sum.splits edit_output.splits)
qed

subsection \<open>The two edit tools\<close>

lemma write_plain_done:
  "memory_access io = None \<Longrightarrow> mkdir_failure io = (\<lambda>_. None) \<Longrightarrow> write_failure io p = None \<Longrightarrow>
   write_plain io fs p data parents = (fs(node_of io p \<mapsto> data), None)"
  by (auto simp: write_plain_def write_via_memory_v2_def write_file_def ensure_parent_dirs_def split: option.split)

lemma one_position: "ps \<noteq> [] \<Longrightarrow> \<not> (length ps > 1 \<and> \<not> all) \<Longrightarrow> (if all then ps else take 1 ps) = ps"
  by (cases ps) auto

lemma creations_agree:
  assumes "memory_access io = None" "mkdir_failure io = (\<lambda>_. None)" "write_failure io (policy_path env (in_file_path i)) = None"
    and "edit_path env (in_file_path i) = policy_path env (in_file_path i)" "empty_old_string_does_not_override (edit_params env)"
  shows "map_prod id fst (edit_create env io i fs) = map_prod id fst (handle_new_file_creation env io i fs)"
  using assms
  by (auto simp: edit_create_def handle_new_file_creation_def Let_def write_plain_done write_checked_plain split: sum.splits option.splits)

lemma replacements_agree:
  assumes "memory_access io = None" "mkdir_failure io = (\<lambda>_. None)" "write_failure io (policy_path env (in_file_path i)) = None"
    and "edit_path env (in_file_path i) = policy_path env (in_file_path i)" "\<not> unicode_normalized_fallback (edit_params env)"
    and lf: "\<And>b. fs (node_of io (policy_path env (in_file_path i))) = Some b \<Longrightarrow> \<not> has_crlf (utf8_lossy b)"
  shows "map_prod id fst (edit_replace env io i fs) = map_prod id fst (handle_replacement env io i fs)"
proof (cases "read_file io fs (policy_path env (in_file_path i))")
  case (Inl e)
  then show ?thesis using assms(4) by (simp add: edit_replace_def handle_replacement_def Let_def)
next
  case (Inr b)
  let ?t = "utf8_lossy b" let ?ps = "match_indices ?t (in_old_string i)"
  have lf': "\<not> has_crlf ?t" using lf read_file_Inr[OF Inr] by blast
  consider "?ps = []" | "?ps \<noteq> []" "length ?ps > 1 \<and> \<not> in_replace_all i"
    | "?ps \<noteq> []" "\<not> (length ?ps > 1 \<and> \<not> in_replace_all i)" by blast
  then show ?thesis
  proof cases
    case 1
    then show ?thesis using Inr lf' assms(4,5) by (simp add: edit_replace_def handle_replacement_def choose_spans_def Let_def)
  next
    case 2
    then show ?thesis using Inr lf' assms(4,5) by (simp add: edit_replace_def handle_replacement_def choose_spans_def Let_def)
  next
    case 3
    note one = one_position[OF 3]
    show ?thesis
      using 3 Inr lf' assms(1-5)
      by (simp add: edit_replace_def handle_replacement_def choose_spans_def Let_def one write_plain_done write_replaced_def
          write_checked_plain split: prod.split)
  qed
qed

text \<open>C40: the two edit tools, given one input whose path they resolve alike, leave the same files and send the same
  notifications, when the file has no CRLF, the path is not too long and not kept out by \<open>.gitignore\<close>, the fallback for look-alike
  characters is off, no memory policy stands in between, no write and no creation of a directory fails, and the old string
  is not empty or the guard of existing files is on.  (Without the guard, an empty old string overwrites an existing file
  in one tool and is refused by the other: \<open>unguarded_tools_differ\<close>.)
\<close>

theorem edit_tools_agree:
  assumes "memory_access io = None" "mkdir_failure io = (\<lambda>_. None)" "write_failure io (policy_path env (in_file_path i)) = None"
    and "edit_path env (in_file_path i) = policy_path env (in_file_path i)"
    and "in_old_string i \<noteq> [] \<or> empty_old_string_does_not_override (edit_params env)"
    and "\<not> unicode_normalized_fallback (edit_params env)"
    and "validate_path_length (in_file_path i) = None" "\<not> gitignored env (policy_path env (in_file_path i))"
    and "\<And>b. fs (node_of io (policy_path env (in_file_path i))) = Some b \<Longrightarrow> \<not> has_crlf (utf8_lossy b)"
  shows "map_prod id fst (run_edit env io i fs) = map_prod id fst (run_search_replace env io i fs)"
proof (cases "in_old_string i = []")
  case True
  then show ?thesis using creations_agree[OF assms(1-4), of fs] assms(4,5,7,8)
    by (simp add: run_edit_def run_search_replace_def Let_def)
next
  case False
  then show ?thesis using replacements_agree[OF assms(1-4) assms(6,9)] assms(4,7,8)
    by (simp add: run_edit_def run_search_replace_def Let_def)
qed

definition guarded_env :: edit_env where
  "guarded_env = demo_env\<lparr>edit_params := default_params\<lparr>empty_old_string_does_not_override := True\<rparr>\<rparr>"

theorem edit_tools_agree_witness:
  "map_prod id fst (run_edit demo_env plain_io (demo_edit ''b'' ''c'' True) [''/w/f'' \<mapsto> ''abba''])
     = map_prod id fst (run_search_replace demo_env plain_io (demo_edit ''b'' ''c'' True) [''/w/f'' \<mapsto> ''abba''])
   \<and> fst (edit_effect (run_edit demo_env plain_io (demo_edit ''b'' ''c'' True) [''/w/f'' \<mapsto> ''abba''])) = Some ''acca''"
proof
  have v: "validate_path_length ''/w/f'' = None" by code_simp
  have n: "\<not> has_crlf (utf8_lossy ''abba'')" by code_simp
  show "map_prod id fst (run_edit demo_env plain_io (demo_edit ''b'' ''c'' True) [''/w/f'' \<mapsto> ''abba''])
     = map_prod id fst (run_search_replace demo_env plain_io (demo_edit ''b'' ''c'' True) [''/w/f'' \<mapsto> ''abba''])"
    by (rule edit_tools_agree) (use v n in \<open>auto simp: demo_env_def demo_edit_def default_params_def plain_io_def\<close>)
  show "fst (edit_effect (run_edit demo_env plain_io (demo_edit ''b'' ''c'' True) [''/w/f'' \<mapsto> ''abba''])) = Some ''acca''"
    by code_simp
qed

text \<open>With its default parameters \<open>search_replace\<close> overwrites a file whose old string is empty; \<open>edit\<close> does not.\<close>

lemma unguarded_tools_differ:
  "fst (edit_effect (run_search_replace demo_env plain_io (demo_edit [] ''c'' False) [''/w/f'' \<mapsto> ''abba''])) = Some ''c''"
  "fst (edit_effect (run_edit demo_env plain_io (demo_edit [] ''c'' False) [''/w/f'' \<mapsto> ''abba''])) = Some ''abba''"
  by code_simp+

section \<open>Edit shortfalls\<close>

abbreviation edit_call :: "edit_env \<Rightarrow> string \<Rightarrow> string \<Rightarrow> bool \<Rightarrow> string \<Rightarrow> string option \<times> bool" where
  "edit_call env old new all content \<equiv>
     map_prod id snd (edit_effect (run_search_replace env plain_io (demo_edit old new all) [''/w/f'' \<mapsto> content]))"

text \<open>
  The old string has to match exactly one place, says the description; occurrences that overlap are counted once, so \<open>aa\<close>, which
  is at two places of \<open>aaa\<close>, is taken to be unique and the first is replaced.
\<close>

lemma overlapping_occurrences_count_once:
  "starts_with ''aaa'' ''aa''" "starts_with (drop 1 ''aaa'') ''aa''"
  "edit_call demo_env ''aa'' ''b'' False ''aaa'' = (Some ''ba'', True)"
  by code_simp+

text \<open>One CRLF anywhere makes the tool write CRLF everywhere: lines that ended with a bare line feed change although nobody asked.\<close>

lemma bare_feeds_become_crlf:
  "edit_call demo_env ''a'' ''x'' False [CHR ''a'', CHR 0x0D, CHR 0x0A, CHR ''b'', CHR 0x0A, CHR ''c'']
     = (Some [CHR ''x'', CHR 0x0D, CHR 0x0A, CHR ''b'', CHR 0x0D, CHR 0x0A, CHR ''c''], True)"
  by code_simp

text \<open>Bytes that are not UTF-8 come back as the replacement character, wherever they stand in the file.\<close>

lemma broken_bytes_are_rewritten:
  "edit_call demo_env ''a'' ''b'' False [CHR 0xFF, CHR ''a''] = (Some [CHR 0xEF, CHR 0xBF, CHR 0xBD, CHR ''b''], True)"
  by code_simp

text \<open>An old string with CRLF is compared with a text whose CRLFs were made line feeds, so it is not found where it stands.\<close>

lemma crlf_pattern_is_not_found:
  "contains_str windows_lines [CHR ''b'', CHR 0x0D, CHR 0x0A]"
  "edit_call demo_env [CHR ''b'', CHR 0x0D, CHR 0x0A] ''c'' False windows_lines = (Some windows_lines, False)"
  by code_simp+

text \<open>The line reported as the one in the original file is computed from the new text.\<close>

lemma old_line_is_a_new_line:
  "text_lines (whole_lines [''a'', ''a'']) = [''a'', ''a'']"
  "(case replace_using_positions (whole_lines [''a'', ''a'']) [0, 2] ''a'' (whole_lines [''x'', ''y'']) of (new_text, ps) \<Rightarrow>
      map ed_old_line (build_edit_details new_text ''a'' (whole_lines [''x'', ''y'']) ps CONTEXT_LINES)) = [1, 4]"
  by code_simp+

text \<open>A span of a normalised text need not come from a span that normalises to it: one dot of an ellipsis comes from nothing.\<close>

lemma span_of_an_expansion:
  "(case build_offset_map [CHR 0xE2, CHR 0x80, CHR 0xA6] of (norm, offsets) \<Rightarrow>
      (norm, offsets, str_slice norm 0 1, normalize_confusables (str_slice [CHR 0xE2, CHR 0x80, CHR 0xA6] (offsets ! 0) (offsets ! 1))))
   = (''...'', [0, 0, 0, 3], ''.'', [])"
  by code_simp

text \<open>After a match of look-alike characters the details report the string that was asked for as the one that was matched.\<close>

definition fallback_env :: edit_env where
  "fallback_env = demo_env\<lparr>edit_params := default_params\<lparr>unicode_normalized_fallback := True\<rparr>\<rparr>"

lemma matched_string_is_not_reported:
  "(case run_search_replace fallback_env plain_io (demo_edit [CHR 0x22, CHR ''h'', CHR ''i'', CHR 0x22] ''ho'' False)
       [''/w/f'' \<mapsto> curly_text] of
      (fs, _, Inr (EditsApplied ea)) \<Rightarrow> (fs ''/w/f'', map ed_old_string (ea_details ea)) | _ \<Rightarrow> (None, []))
   = (Some ''say ho'', [[CHR 0x22, CHR ''h'', CHR ''i'', CHR 0x22]])"
  "\<not> contains_str curly_text [CHR 0x22, CHR ''h'', CHR ''i'', CHR 0x22]"
  by code_simp+

text \<open>The guard of existing files takes a file that cannot be read for one that does not exist.\<close>

definition unreadable_io :: tool_io where
  "unreadable_io = plain_io\<lparr>read_failure := (\<lambda>_. Some \<lparr>io_kind = PermissionDenied, io_message = ''denied''\<rparr>)\<rparr>"

lemma unreadable_file_is_replaced:
  "(case edit_effect (run_search_replace guarded_env unreadable_io (demo_edit [] ''new'' False) [''/w/f'' \<mapsto> ''precious'']) of
      (content, sent, ok) \<Rightarrow> (content, map is_new_file sent, ok)) = (Some ''new'', [True], True)"
  by code_simp

text \<open>A template that cannot be rendered turns an applied edit of version 0.4.10 into an error.\<close>

definition unrendered_legacy_env :: edit_env where
  "unrendered_legacy_env = demo_env\<lparr>is_legacy := True, render := (\<lambda>_. Inl ''no such tool'')\<rparr>"

lemma applied_edit_is_reported_as_error:
  "(case search_replace_tool unrendered_legacy_env plain_io (demo_edit ''a'' ''b'' False) [''/w/f'' \<mapsto> ''a''] of
      (fs, _, r) \<Rightarrow> (fs ''/w/f'', r)) = (Some ''b'', Inl ''no such tool'')"
  by code_simp

end
