(* ===== verification/Ip_Addr.thy ===== *)
theory Ip_Addr
  imports Rust_Str "HOL-Library.Word" Paths
begin

text \<open>
  Internet addresses as the standard library has them: \<open>std::net::{IpAddr, Ipv4Addr, Ipv6Addr}\<close>, the ranges it names and
  the parser behind \<open>str::parse::<IpAddr>()\<close>.  The web fetch decides with them which hosts it talks to.

  Facts about addresses: octets and masks as divisions, and the dotted form of an IPv4 address, which parses to the address.
\<close>

section \<open>Ip addr\<close>

unbundle bit_operations_syntax

type_synonym ipv4 = "32 word"
type_synonym ipv6 = "128 word"

datatype ip_addr = V4 ipv4 | V6 ipv6

subsection \<open>Octets, segments and named ranges\<close>

definition octet :: "ipv4 \<Rightarrow> nat \<Rightarrow> nat" where
  "octet ip i = unat ip div 2 ^ (24 - 8 * i) mod 256"

definition segment :: "ipv6 \<Rightarrow> nat \<Rightarrow> 16 word" where
  "segment ip i = ucast (drop_bit (112 - 16 * i) ip)"

definition ipv4_of_octets :: "nat list \<Rightarrow> ipv4" where
  "ipv4_of_octets os = word_of_nat (foldl (\<lambda>v b. v * 256 + b) 0 os)"

definition ipv6_of_groups :: "nat list \<Rightarrow> ipv6" where
  "ipv6_of_groups gs = word_of_nat (foldl (\<lambda>v g. v * 65536 + g) 0 gs)"

definition v4_is_loopback :: "ipv4 \<Rightarrow> bool" where
  "v4_is_loopback ip \<longleftrightarrow> octet ip 0 = 127"

definition v4_is_private :: "ipv4 \<Rightarrow> bool" where
  "v4_is_private ip \<longleftrightarrow>
     octet ip 0 = 10
     \<or> octet ip 0 = 172 \<and> 16 \<le> octet ip 1 \<and> octet ip 1 \<le> 31
     \<or> octet ip 0 = 192 \<and> octet ip 1 = 168"

definition v4_is_link_local :: "ipv4 \<Rightarrow> bool" where
  "v4_is_link_local ip \<longleftrightarrow> octet ip 0 = 169 \<and> octet ip 1 = 254"

definition v4_is_multicast :: "ipv4 \<Rightarrow> bool" where
  "v4_is_multicast ip \<longleftrightarrow> 224 \<le> octet ip 0 \<and> octet ip 0 \<le> 239"

definition v4_is_broadcast :: "ipv4 \<Rightarrow> bool" where
  "v4_is_broadcast ip \<longleftrightarrow> ip = - 1"

definition v6_is_loopback :: "ipv6 \<Rightarrow> bool" where
  "v6_is_loopback ip \<longleftrightarrow> ip = 1"

definition v6_is_multicast :: "ipv6 \<Rightarrow> bool" where
  "v6_is_multicast ip \<longleftrightarrow> segment ip 0 AND 0xFF00 = 0xFF00"

definition v6_is_unique_local :: "ipv6 \<Rightarrow> bool" where
  "v6_is_unique_local ip \<longleftrightarrow> segment ip 0 AND 0xFE00 = 0xFC00"

definition v6_is_unicast_link_local :: "ipv6 \<Rightarrow> bool" where
  "v6_is_unicast_link_local ip \<longleftrightarrow> segment ip 0 AND 0xFFC0 = 0xFE80"

text \<open>\<open>::ffff:a.b.c.d\<close>.\<close>

definition to_ipv4_mapped :: "ipv6 \<Rightarrow> ipv4 option" where
  "to_ipv4_mapped ip = (if drop_bit 32 ip = 0xFFFF then Some (ucast ip) else None)"

definition ip_is_loopback :: "ip_addr \<Rightarrow> bool" where
  "ip_is_loopback ip = (case ip of V4 a \<Rightarrow> v4_is_loopback a | V6 a \<Rightarrow> v6_is_loopback a)"

subsection \<open>Parsing\<close>

text \<open>A reader takes a text and gives what it read with the rest of the text, or nothing.\<close>

type_synonym 'a reader = "string \<Rightarrow> ('a \<times> string) option"

definition digit_value :: "char \<Rightarrow> nat" where
  "digit_value c =
     (let b = byte c in
      if 48 \<le> b \<and> b \<le> 57 then b - 48
      else if 97 \<le> b \<and> b \<le> 122 then b - 87
      else if 65 \<le> b \<and> b \<le> 90 then b - 55
      else 255)"

definition read_number :: "nat \<Rightarrow> nat \<Rightarrow> bool \<Rightarrow> nat \<Rightarrow> nat reader" where
  "read_number radix max_digits zero_prefix limit s =
     (let ds = takeWhile (\<lambda>c. digit_value c < radix) s;
          v = foldl (\<lambda>v c. v * radix + digit_value c) 0 ds in
      if ds = [] \<or> length ds > max_digits \<or> \<not> zero_prefix \<and> starts_with ds ''0'' \<and> length ds > 1 \<or> v \<ge> limit then None
      else Some (v, drop (length ds) s))"

definition read_separator :: "char \<Rightarrow> nat \<Rightarrow> 'a reader \<Rightarrow> 'a reader" where
  "read_separator sep i inner s =
     (if i = 0 then inner s else case s of [] \<Rightarrow> None | c # r \<Rightarrow> if c = sep then inner r else None)"

fun read_octets :: "nat \<Rightarrow> nat \<Rightarrow> nat list reader" where
  "read_octets 0 i s = Some ([], s)"
| "read_octets (Suc left) i s =
     (case read_separator CHR ''.'' i (read_number 10 3 False 256) s of
        None \<Rightarrow> None
      | Some (b, r) \<Rightarrow> map_option (\<lambda>(bs, r'). (b # bs, r')) (read_octets left (i + 1) r))"

definition read_ipv4_addr :: "nat list reader" where
  "read_ipv4_addr s = read_octets 4 0 s"

text \<open>Groups of an IPv6 address, at most \<open>left\<close> more; an IPv4 address at the end counts as two.\<close>

fun read_groups :: "nat \<Rightarrow> nat \<Rightarrow> string \<Rightarrow> nat list \<times> bool \<times> string" where
  "read_groups 0 i s = ([], False, s)"
| "read_groups (Suc left) i s =
     (case (if left > 0 then read_separator CHR '':'' i read_ipv4_addr s else None) of
        Some (bs, r) \<Rightarrow> ([bs ! 0 * 256 + bs ! 1, bs ! 2 * 256 + bs ! 3], True, r)
      | None \<Rightarrow>
          (case read_separator CHR '':'' i (read_number 16 4 True 65536) s of
             Some (g, r) \<Rightarrow> (case read_groups left (i + 1) r of (gs, v4, r') \<Rightarrow> (g # gs, v4, r'))
           | None \<Rightarrow> ([], False, s)))"

definition read_ipv6_addr :: "nat list reader" where
  "read_ipv6_addr s =
     (case read_groups 8 0 s of (front, v4, r) \<Rightarrow>
        if length front = 8 then Some (front, r)
        else if v4 then None
        else case strip_prefix r ''::'' of
          None \<Rightarrow> None
        | Some r' \<Rightarrow>
            (case read_groups (8 - (length front + 1)) 0 r' of (back, _, r'') \<Rightarrow>
               Some (front @ replicate (8 - length front - length back) 0 @ back, r'')))"

definition parse_ip :: "string \<Rightarrow> ip_addr option" where
  "parse_ip s =
     (case read_ipv4_addr s of
        Some (bs, r) \<Rightarrow> if r = [] then Some (V4 (ipv4_of_octets bs)) else None
      | None \<Rightarrow>
          (case read_ipv6_addr s of
             Some (gs, r) \<Rightarrow> if r = [] then Some (V6 (ipv6_of_groups gs)) else None
           | None \<Rightarrow> None))"

section \<open>Ip laws\<close>

subsection \<open>Masks\<close>

lemma masked_eq_iff:
  fixes a b :: "'a :: len word"
  shows "a AND push_bit k (- 1) = b AND push_bit k (- 1) \<longleftrightarrow> unat a div 2 ^ k = unat b div 2 ^ k"
proof -
  have *: "c AND push_bit k (- 1) = push_bit k (drop_bit k c)" for c :: "'a word"
    by (rule bit_word_eqI) (auto simp: bit_simps)
  have "push_bit k (drop_bit k a) = push_bit k (drop_bit k b) \<longleftrightarrow> drop_bit k a = drop_bit k b"
  proof
    assume "push_bit k (drop_bit k a) = push_bit k (drop_bit k b)"
    then have "drop_bit k (push_bit k (drop_bit k a)) = drop_bit k (push_bit k (drop_bit k b))" by simp
    moreover have "drop_bit k (push_bit k (drop_bit k c)) = drop_bit k c" for c :: "'a word"
      by (rule bit_word_eqI) (auto simp: bit_simps dest: bit_imp_le_length)
    ultimately show "drop_bit k a = drop_bit k b" by simp
  qed simp
  then show ?thesis
    unfolding * by (simp only: word_unat_eq_iff unat_drop_bit_eq) (simp add: drop_bit_eq_div)
qed

lemma octet_less: "octet ip i < 256"
  by (simp add: octet_def)

lemma unat_ipv4_less: "unat (ip :: ipv4) < 4294967296"
  using unsigned_less[of ip] by simp

subsection \<open>The dotted form\<close>

definition show_ipv4 :: "ipv4 \<Rightarrow> string" where
  "show_ipv4 ip = join ''.'' (map (\<lambda>i. nat_digits (octet ip i)) [0..<4])"

lemma digit_value_digit: "d < 10 \<Longrightarrow> digit_value (char_of (48 + d)) = d"
  by (simp add: digit_value_def byte_def Let_def)

lemma nat_digits_value: "foldl (\<lambda>v c. v * 10 + digit_value c) 0 (nat_digits n) = n"
  by (induction n rule: nat_digits.induct) (subst nat_digits.simps, auto simp: digit_value_digit)

lemma digits_are_digits: "list_all (\<lambda>c. digit_value c < 10) (nat_digits n)"
  by (induction n rule: nat_digits.induct) (subst nat_digits.simps, auto simp: digit_value_digit)

lemma digits_nonempty: "nat_digits n \<noteq> []"
  by (subst nat_digits.simps) simp

lemma octet_digits:
  assumes "n < 256"
  shows "length (nat_digits n) \<le> 3 \<and> \<not> (starts_with (nat_digits n) ''0'' \<and> length (nat_digits n) > 1)"
proof -
  have zero: "char_of (48 + d) = CHR ''0'' \<longleftrightarrow> d = 0" if "d < 10" for d :: nat
  proof
    assume "char_of (48 + d) = CHR ''0''"
    then have "digit_value (char_of (48 + d)) = digit_value CHR ''0''" by simp
    then show "d = 0" using digit_value_digit[OF that] by (simp add: digit_value_def byte_def)
  next
    have "char_of (48 :: nat) = CHR ''0''" by code_simp
    moreover assume "d = 0"
    ultimately show "char_of (48 + d) = CHR ''0''" by simp
  qed
  consider "n < 10" | "10 \<le> n" "n < 100" | "100 \<le> n" by linarith
  then show ?thesis
  proof cases
    case 1
    then show ?thesis by (simp add: nat_digits.simps)
  next
    case 2
    then have "nat_digits n = [char_of (48 + n div 10), char_of (48 + n mod 10)]"
      by (simp add: nat_digits.simps[of n] nat_digits.simps[of "n div 10"])
    then show ?thesis using 2 zero[of "n div 10"] by simp
  next
    case 3
    then have "n div 10 div 10 < 10" "\<not> n div 10 < 10" "\<not> n < 10" using assms by linarith+
    then have "nat_digits n = [char_of (48 + n div 10 div 10), char_of (48 + n div 10 mod 10), char_of (48 + n mod 10)]"
      using assms
      by (simp add: nat_digits.simps[of n] nat_digits.simps[of "n div 10"] nat_digits.simps[of "n div 10 div 10"])
    moreover have "n div 10 div 10 < 10" "n div 10 div 10 \<noteq> 0" using 3 assms by linarith+
    ultimately show ?thesis using zero[of "n div 10 div 10"] by simp
  qed
qed

lemma takeWhile_digits:
  "list_all P ds \<Longrightarrow> r = [] \<or> \<not> P (hd r) \<Longrightarrow> takeWhile P (ds @ r) = ds"
  by (induction ds) (auto simp: takeWhile_eq_Nil_iff)

lemma read_octet:
  assumes "n < 256" "r = [] \<or> digit_value (hd r) \<ge> 10"
  shows "read_number 10 3 False 256 (nat_digits n @ r) = Some (n, r)"
proof -
  note d = octet_digits[OF assms(1)] nat_digits_value[of n] digits_are_digits[of n] digits_nonempty[of n]
  have "takeWhile (\<lambda>c. digit_value c < 10) (nat_digits n @ r) = nat_digits n"
    by (rule takeWhile_digits) (use d assms(2) in auto)
  then show ?thesis using d assms(1) by (simp add: read_number_def Let_def)
qed

lemma read_dotted:
  assumes "list_all (\<lambda>n. n < 256) ns"
  shows "read_octets (length ns) (Suc i) (concat (map (\<lambda>n. ''.'' @ nat_digits n) ns)) = Some (ns, [])"
  using assms
proof (induction ns arbitrary: i)
  case (Cons n ns)
  let ?r = "concat (map (\<lambda>n. ''.'' @ nat_digits n) ns)"
  have "?r = [] \<or> digit_value (hd ?r) \<ge> 10" by (cases ns) (simp_all add: digit_value_def byte_def Let_def)
  then have "read_number 10 3 False 256 (nat_digits n @ ?r) = Some (n, ?r)" using Cons.prems by (intro read_octet) auto
  then show ?case using Cons by (simp add: read_separator_def)
qed simp

lemma split_radix:
  fixes n :: nat
  assumes "n < 4294967296"
  shows "((n div 16777216 mod 256 * 256 + n div 65536 mod 256) * 256 + n div 256 mod 256) * 256 + n mod 256 = n"
proof -
  define a where "a = n div 256"
  have d: "n div 65536 = a div 256" "n div 16777216 = a div 256 div 256"
    by (simp_all add: a_def div_mult2_eq[symmetric])
  have "a div 256 div 256 < 256" using less_mult_imp_div_less[of n 256 16777216] assms d(2) by simp
  then have "a div 256 div 256 mod 256 * 256 + a div 256 mod 256 = a div 256" by simp
  moreover have "a div 256 * 256 + a mod 256 = a" "a * 256 + n mod 256 = n" by (simp_all add: a_def)
  ultimately show ?thesis unfolding d by (simp add: a_def[symmetric])
qed

lemma octets_of_word: "ipv4_of_octets (map (octet ip) [0..<4]) = ip"
proof -
  have "foldl (\<lambda>v b. v * 256 + b) 0 (map (octet ip) [0..<4]) = unat ip"
    using split_radix[of "unat ip"] unat_ipv4_less[of ip] by (simp add: octet_def upt_rec)
  then show ?thesis by (simp add: ipv4_of_octets_def)
qed

lemma parse_show_ipv4: "parse_ip (show_ipv4 ip) = Some (V4 ip)"
proof -
  let ?ns = "map (octet ip) [1..<4]"
  let ?r = "concat (map (\<lambda>n. ''.'' @ nat_digits n) ?ns)"
  have s: "show_ipv4 ip = nat_digits (octet ip 0) @ ?r"
    by (simp add: show_ipv4_def upt_rec)
  have "?r = [] \<or> digit_value (hd ?r) \<ge> 10" by (simp add: digit_value_def byte_def Let_def upt_rec)
  then have "read_number 10 3 False 256 (show_ipv4 ip) = Some (octet ip 0, ?r)"
    unfolding s by (intro read_octet octet_less)
  moreover have "read_octets 3 1 ?r = Some (?ns, [])"
    using read_dotted[of ?ns 0] by (simp add: octet_less list_all_iff)
  moreover have "octet ip 0 # ?ns = map (octet ip) [0..<4]" by (simp add: upt_rec)
  ultimately show ?thesis
    using octets_of_word[of ip]
    by (simp add: parse_ip_def read_ipv4_addr_def read_separator_def eval_nat_numeral del: octets_of_word)
qed

end
