(* ===== verification/Web_Ssrf.thy ===== *)
theory Web_Ssrf
  imports Ip_Addr
begin

text \<open>
  The guard of the web fetch against requests to internal hosts
  (\<open>src/crates/codegen/xai-grok-tools/src/implementations/grok_build/web_fetch/ssrf.rs\<close>) and its errors (\<open>error.rs\<close>).

  Which addresses the guard holds back, as ranges of numbers.
\<close>

section \<open>Web ssrf\<close>

text \<open>
  What the crate \<open>url\<close> says of a parsed URL: its parts, another scheme for it (\<open>set_scheme\<close>, which refuses by giving nothing)
  and the URL a reference in it leads to (\<open>join\<close>).
\<close>

record 'u url_crate =
  url_parse :: "string \<Rightarrow> string + 'u"
  url_scheme :: "'u \<Rightarrow> string"
  url_username :: "'u \<Rightarrow> string"
  url_password :: "'u \<Rightarrow> string option"
  url_host_str :: "'u \<Rightarrow> string option"
  url_port_or_known_default :: "'u \<Rightarrow> nat option"
  url_set_scheme :: "'u \<Rightarrow> string \<Rightarrow> 'u option"
  url_join :: "'u \<Rightarrow> string \<Rightarrow> string + 'u"
  url_string :: "'u \<Rightarrow> string"

subsection \<open>Errors\<close>

datatype web_fetch_error =
    UrlTooLong nat
  | UnsupportedScheme string
  | CredentialsInUrl
  | SingleLabelHost string
  | InvalidUrl string
  | SsrfBlocked string ip_addr
  | DnsResolution string string
  | DnsEmpty string
  | ClientBuildError string
  | HttpRequest string
  | InvalidRedirect string
  | TooManyRedirects nat
  | ResponseTooLarge nat
  | ProxyConfigError string
  | WebIoError string
  | UnsupportedContentType string string
  | ContentTypeMismatch string string

definition is_github_host :: "string \<Rightarrow> bool" where
  "is_github_host hst \<longleftrightarrow>
     (let h = to_ascii_lowercase hst in
      h = ''github.com'' \<or> ends_with h ''.github.com'' \<or> contains_str h ''github'')"

definition ssrf_recovery_hint :: "bool \<Rightarrow> string \<Rightarrow> string" where
  "ssrf_recovery_hint gh_available hst =
     (if is_github_host hst \<and> gh_available
      then ''. Use the `gh` CLI instead (e.g. `gh pr view` or `gh api`).'' else [])"

subsection \<open>Addresses that are not public\<close>

definition ipv4_in_cidr :: "ipv4 \<Rightarrow> nat list \<Rightarrow> nat \<Rightarrow> bool" where
  "ipv4_in_cidr ip base_octets pfx \<longleftrightarrow>
     (let mask = (if pfx = 0 then 0 else push_bit (32 - pfx) (- 1)) in
      ip AND mask = ipv4_of_octets base_octets AND mask)"

definition is_non_public_ipv4 :: "ipv4 \<Rightarrow> bool" where
  "is_non_public_ipv4 ip \<longleftrightarrow>
     v4_is_loopback ip
     \<or> v4_is_private ip
     \<or> v4_is_link_local ip
     \<or> ip = 0
     \<or> v4_is_multicast ip
     \<or> v4_is_broadcast ip
     \<or> ipv4_in_cidr ip [0, 0, 0, 0] 8
     \<or> ipv4_in_cidr ip [100, 64, 0, 0] 10
     \<or> ipv4_in_cidr ip [192, 0, 0, 0] 24
     \<or> ipv4_in_cidr ip [192, 0, 2, 0] 24
     \<or> ipv4_in_cidr ip [198, 18, 0, 0] 15
     \<or> ipv4_in_cidr ip [198, 51, 100, 0] 24
     \<or> ipv4_in_cidr ip [203, 0, 113, 0] 24
     \<or> ipv4_in_cidr ip [240, 0, 0, 0] 4"

definition is_non_public_ipv6 :: "ipv6 \<Rightarrow> bool" where
  "is_non_public_ipv6 ip \<longleftrightarrow>
     (case to_ipv4_mapped ip of
        Some v4 \<Rightarrow> is_non_public_ipv4 v4
      | None \<Rightarrow>
          v6_is_loopback ip \<or> ip = 0 \<or> v6_is_multicast ip \<or> v6_is_unique_local ip \<or> v6_is_unicast_link_local ip)"

definition is_non_public_ip :: "ip_addr \<Rightarrow> bool" where
  "is_non_public_ip ip = (case ip of V4 a \<Rightarrow> is_non_public_ipv4 a | V6 a \<Rightarrow> is_non_public_ipv6 a)"

definition is_loopback_addr :: "ip_addr \<Rightarrow> bool" where
  "is_loopback_addr ip \<longleftrightarrow>
     ip_is_loopback ip
     \<or> (case ip of V4 _ \<Rightarrow> False | V6 a \<Rightarrow> (case to_ipv4_mapped a of Some v4 \<Rightarrow> v4_is_loopback v4 | None \<Rightarrow> False))"

subsection \<open>Hosts\<close>

definition strip_brackets :: "string \<Rightarrow> string" where
  "strip_brackets h =
     (case strip_prefix h ''['' of
        None \<Rightarrow> h
      | Some r \<Rightarrow> (case strip_suffix r '']'' of None \<Rightarrow> h | Some w \<Rightarrow> w))"

definition is_explicit_local_host :: "string \<Rightarrow> bool" where
  "is_explicit_local_host hst \<longleftrightarrow>
     (let h = strip_brackets (to_ascii_lowercase (trim_end_matches CHR ''.'' (trim hst)));
          h = takeWhile (\<lambda>c. c \<noteq> CHR 0x25) h in
      h = ''localhost'' \<or> (case parse_ip h of Some ip \<Rightarrow> ip_is_loopback ip | None \<Rightarrow> False))"

definition is_blocked_for_host :: "ip_addr \<Rightarrow> string \<Rightarrow> bool \<Rightarrow> bool" where
  "is_blocked_for_host ip hst allow_local =
     (if \<not> is_non_public_ip ip then False
      else if allow_local \<and> is_loopback_addr ip \<and> is_explicit_local_host hst then False
      else True)"

subsection \<open>The check\<close>

text \<open>
  What a fetch does to the world, in order: names it resolved and what the answer was, requests it sent, files it saved.  The
  answers of the resolver may depend on everything that happened before.
\<close>

datatype 'u web_event =
    Resolved string nat "string + ip_addr list"
  | Requested 'u
  | SavedFile string string string string

type_synonym 'u resolver = "'u web_event list \<Rightarrow> string \<Rightarrow> nat \<Rightarrow> string + ip_addr list"

definition check_ssrf ::
  "'u url_crate \<Rightarrow> 'u resolver \<Rightarrow> bool \<Rightarrow> 'u \<Rightarrow> 'u web_event list \<Rightarrow> 'u web_event list \<times> web_fetch_error option" where
  "check_ssrf c dns allow_local url tr =
     (case url_host_str c url of
        None \<Rightarrow> (tr, Some (SingleLabelHost []))
      | Some hst \<Rightarrow>
          (case parse_ip hst of
             Some ip \<Rightarrow> (tr, if is_blocked_for_host ip hst allow_local then Some (SsrfBlocked hst ip) else None)
           | None \<Rightarrow>
               (let port = (case url_port_or_known_default c url of Some p \<Rightarrow> p | None \<Rightarrow> 443);
                    answer = dns tr hst port;
                    tr' = tr @ [Resolved hst port answer] in
                case answer of
                  Inl e \<Rightarrow> (tr', Some (DnsResolution hst e))
                | Inr [] \<Rightarrow> (tr', Some (DnsEmpty hst))
                | Inr addrs \<Rightarrow>
                    (tr', map_option (SsrfBlocked hst) (List.find (\<lambda>ip. is_blocked_for_host ip hst allow_local) addrs)))))"

section \<open>Web ranges\<close>

lemma ipv4_in_cidr_iff:
  assumes "0 < pfx" "pfx \<le> 32"
  shows "ipv4_in_cidr ip os pfx \<longleftrightarrow> unat ip div 2 ^ (32 - pfx) = unat (ipv4_of_octets os) div 2 ^ (32 - pfx)"
proof -
  have "(if pfx = 0 then 0 else push_bit (32 - pfx) (- 1)) = (push_bit (32 - pfx) (- 1) :: ipv4)" using assms by simp
  then show ?thesis by (simp only: ipv4_in_cidr_def Let_def masked_eq_iff)
qed

text \<open>The ranges, first and last address.\<close>

definition dotted :: "nat \<Rightarrow> nat \<Rightarrow> nat \<Rightarrow> nat \<Rightarrow> nat" where
  "dotted a b c d = ((a * 256 + b) * 256 + c) * 256 + d"

definition NON_PUBLIC_RANGES :: "(nat \<times> nat) list" where
  "NON_PUBLIC_RANGES =
     [(dotted 0 0 0 0, dotted 0 255 255 255), (dotted 10 0 0 0, dotted 10 255 255 255),
      (dotted 100 64 0 0, dotted 100 127 255 255), (dotted 127 0 0 0, dotted 127 255 255 255),
      (dotted 169 254 0 0, dotted 169 254 255 255), (dotted 172 16 0 0, dotted 172 31 255 255),
      (dotted 192 0 0 0, dotted 192 0 0 255), (dotted 192 0 2 0, dotted 192 0 2 255),
      (dotted 192 168 0 0, dotted 192 168 255 255), (dotted 198 18 0 0, dotted 198 19 255 255),
      (dotted 198 51 100 0, dotted 198 51 100 255), (dotted 203 0 113 0, dotted 203 0 113 255),
      (dotted 224 0 0 0, dotted 255 255 255 255)]"

definition in_ranges :: "(nat \<times> nat) list \<Rightarrow> nat \<Rightarrow> bool" where
  "in_ranges rs n \<longleftrightarrow> list_ex (\<lambda>(a, b). a \<le> n \<and> n \<le> b) rs"

lemma list_ex_Cons_Nil: "list_ex P (x # xs) \<longleftrightarrow> P x \<or> list_ex P xs" "list_ex P [] \<longleftrightarrow> False"
  by simp_all

lemma octet_0: "octet ip 0 = unat ip div 16777216"
  using unat_ipv4_less[of ip] by (simp add: octet_def)

lemma octet_1: "octet ip 1 = unat ip div 65536 mod 256"
  by (simp add: octet_def)

lemma unat_ipv4_of_octets:
  "dotted a b c d < 4294967296 \<Longrightarrow> unat (ipv4_of_octets [a, b, c, d]) = dotted a b c d"
proof -
  assume small: "dotted a b c d < 4294967296"
  have "foldl (\<lambda>v b. v * 256 + b) 0 [a, b, c, d] = dotted a b c d" by (simp add: dotted_def)
  then show ?thesis
    using small by (simp only: ipv4_of_octets_def unsigned_of_nat) (simp add: take_bit_nat_eq_self)
qed

lemma div_eq_range: "0 < k \<Longrightarrow> n div k = q \<longleftrightarrow> q * k \<le> n \<and> n < q * k + (k :: nat)"
  by (metis add.commute div_nat_eqI div_times_less_eq_dividend dividend_less_div_times mult.commute mult_Suc_right)

lemma octets_01:
  assumes "b < 256"
  shows "octet ip 0 = a \<and> octet ip 1 = b \<longleftrightarrow> unat ip div 65536 = a * 256 + b"
proof -
  define m where "m = unat ip div 65536"
  have o: "octet ip 0 = m div 256" "octet ip 1 = m mod 256"
    by (simp_all add: octet_0 octet_1[unfolded One_nat_def] m_def div_mult2_eq[symmetric])
  have "m div 256 = a \<and> m mod 256 = b \<longleftrightarrow> m = a * 256 + b"
    using assms div_mult_mod_eq[of m 256] by auto
  then show ?thesis by (simp only: o m_def)
qed

lemma octet_1_between:
  assumes "lo \<le> hi" "hi < 256"
  shows "octet ip 0 = a \<and> lo \<le> octet ip 1 \<and> octet ip 1 \<le> hi
    \<longleftrightarrow> (a * 256 + lo) * 65536 \<le> unat ip \<and> unat ip < (a * 256 + hi + 1) * 65536"
proof -
  define m where "m = unat ip div 65536"
  have o: "octet ip 0 = m div 256" "octet ip 1 = m mod 256"
    by (simp_all add: octet_0 octet_1[unfolded One_nat_def] m_def div_mult2_eq[symmetric])
  have "m div 256 = a \<and> lo \<le> m mod 256 \<and> m mod 256 \<le> hi \<longleftrightarrow> a * 256 + lo \<le> m \<and> m \<le> a * 256 + hi"
  proof
    assume "m div 256 = a \<and> lo \<le> m mod 256 \<and> m mod 256 \<le> hi"
    then show "a * 256 + lo \<le> m \<and> m \<le> a * 256 + hi" using div_mult_mod_eq[of m 256] by auto
  next
    assume m: "a * 256 + lo \<le> m \<and> m \<le> a * 256 + hi"
    then have a: "m div 256 = a" using assms by (intro div_nat_eqI) auto
    moreover have "m mod 256 = m - a * 256" using div_mult_mod_eq[of m 256] unfolding a by simp
    ultimately show "m div 256 = a \<and> lo \<le> m mod 256 \<and> m mod 256 \<le> hi" using m by auto
  qed
  also have "a * 256 + lo \<le> m \<longleftrightarrow> (a * 256 + lo) * 65536 \<le> unat ip"
    by (simp add: m_def less_eq_div_iff_mult_less_eq)
  also have "m \<le> a * 256 + hi \<longleftrightarrow> unat ip < (a * 256 + hi + 1) * 65536"
    by (simp add: m_def less_Suc_eq_le[symmetric] div_less_iff_less_mult)
  finally show ?thesis unfolding o .
qed

lemma non_public_ipv4_ranges: "is_non_public_ipv4 ip \<longleftrightarrow> in_ranges NON_PUBLIC_RANGES (unat ip)"
proof -
  let ?n = "unat ip"
  have n: "?n < 4294967296" by (rule unat_ipv4_less)
  have cidr: "ipv4_in_cidr ip [a, b, c, d] pfx \<longleftrightarrow>
      dotted a b c d div 2 ^ (32 - pfx) * 2 ^ (32 - pfx) \<le> ?n \<and> ?n < dotted a b c d div 2 ^ (32 - pfx) * 2 ^ (32 - pfx) + 2 ^ (32 - pfx)"
    if "0 < pfx" "pfx \<le> 32" "dotted a b c d < 4294967296" for a b c d pfx
    using that by (simp add: ipv4_in_cidr_iff unat_ipv4_of_octets div_eq_range)
  have loopback: "v4_is_loopback ip \<longleftrightarrow> dotted 127 0 0 0 \<le> ?n \<and> ?n \<le> dotted 127 255 255 255"
    by (auto simp: v4_is_loopback_def octet_0 div_eq_range dotted_def)
  have link: "v4_is_link_local ip \<longleftrightarrow> dotted 169 254 0 0 \<le> ?n \<and> ?n \<le> dotted 169 254 255 255"
    using octets_01[of 254 ip 169] by (auto simp: v4_is_link_local_def div_eq_range dotted_def)
  have priv: "v4_is_private ip \<longleftrightarrow>
      dotted 10 0 0 0 \<le> ?n \<and> ?n \<le> dotted 10 255 255 255 \<or> dotted 172 16 0 0 \<le> ?n \<and> ?n \<le> dotted 172 31 255 255
      \<or> dotted 192 168 0 0 \<le> ?n \<and> ?n \<le> dotted 192 168 255 255"
  proof -
    have "octet ip 0 = 10 \<longleftrightarrow> dotted 10 0 0 0 \<le> ?n \<and> ?n \<le> dotted 10 255 255 255"
      by (auto simp: octet_0 div_eq_range dotted_def)
    moreover have "octet ip 0 = 172 \<and> 16 \<le> octet ip 1 \<and> octet ip 1 \<le> 31
        \<longleftrightarrow> dotted 172 16 0 0 \<le> ?n \<and> ?n \<le> dotted 172 31 255 255"
      using octet_1_between[of 16 31 ip 172] by (auto simp: dotted_def)
    moreover have "octet ip 0 = 192 \<and> octet ip 1 = 168 \<longleftrightarrow> dotted 192 168 0 0 \<le> ?n \<and> ?n \<le> dotted 192 168 255 255"
      using octets_01[of 168 ip 192] by (auto simp: div_eq_range dotted_def)
    ultimately show ?thesis unfolding v4_is_private_def by (simp only:)
  qed
  have low: "ip = 0 \<or> ipv4_in_cidr ip [0, 0, 0, 0] 8 \<longleftrightarrow> dotted 0 0 0 0 \<le> ?n \<and> ?n \<le> dotted 0 255 255 255"
    by (auto simp: cidr dotted_def)
  have high: "v4_is_multicast ip \<or> v4_is_broadcast ip \<or> ipv4_in_cidr ip [240, 0, 0, 0] 4
      \<longleftrightarrow> dotted 224 0 0 0 \<le> ?n \<and> ?n \<le> dotted 255 255 255 255"
  proof -
    have "v4_is_broadcast ip \<Longrightarrow> ?n = 4294967295"
      by (simp add: v4_is_broadcast_def unsigned_minus_1_eq_mask mask_eq_exp_minus_1)
    moreover have "v4_is_multicast ip \<longleftrightarrow> dotted 224 0 0 0 \<le> ?n \<and> ?n < dotted 240 0 0 0"
      using less_eq_div_iff_mult_less_eq[of 16777216 224 ?n] div_less_iff_less_mult[of 16777216 ?n 240]
      by (auto simp: v4_is_multicast_def octet_0 dotted_def)
    ultimately show ?thesis using n by (auto simp: cidr dotted_def)
  qed
  have rest: "ipv4_in_cidr ip [100, 64, 0, 0] 10 \<longleftrightarrow> dotted 100 64 0 0 \<le> ?n \<and> ?n \<le> dotted 100 127 255 255"
    "ipv4_in_cidr ip [192, 0, 0, 0] 24 \<longleftrightarrow> dotted 192 0 0 0 \<le> ?n \<and> ?n \<le> dotted 192 0 0 255"
    "ipv4_in_cidr ip [192, 0, 2, 0] 24 \<longleftrightarrow> dotted 192 0 2 0 \<le> ?n \<and> ?n \<le> dotted 192 0 2 255"
    "ipv4_in_cidr ip [198, 18, 0, 0] 15 \<longleftrightarrow> dotted 198 18 0 0 \<le> ?n \<and> ?n \<le> dotted 198 19 255 255"
    "ipv4_in_cidr ip [198, 51, 100, 0] 24 \<longleftrightarrow> dotted 198 51 100 0 \<le> ?n \<and> ?n \<le> dotted 198 51 100 255"
    "ipv4_in_cidr ip [203, 0, 113, 0] 24 \<longleftrightarrow> dotted 203 0 113 0 \<le> ?n \<and> ?n \<le> dotted 203 0 113 255"
    by (auto simp: cidr dotted_def)
  have "is_non_public_ipv4 ip \<longleftrightarrow>
      v4_is_loopback ip \<or> v4_is_private ip \<or> v4_is_link_local ip \<or> (ip = 0 \<or> ipv4_in_cidr ip [0, 0, 0, 0] 8)
      \<or> (v4_is_multicast ip \<or> v4_is_broadcast ip \<or> ipv4_in_cidr ip [240, 0, 0, 0] 4)
      \<or> ipv4_in_cidr ip [100, 64, 0, 0] 10 \<or> ipv4_in_cidr ip [192, 0, 0, 0] 24 \<or> ipv4_in_cidr ip [192, 0, 2, 0] 24
      \<or> ipv4_in_cidr ip [198, 18, 0, 0] 15 \<or> ipv4_in_cidr ip [198, 51, 100, 0] 24 \<or> ipv4_in_cidr ip [203, 0, 113, 0] 24"
    unfolding is_non_public_ipv4_def by blast
  also have "\<dots> \<longleftrightarrow> in_ranges NON_PUBLIC_RANGES ?n"
    unfolding loopback priv link low high rest in_ranges_def NON_PUBLIC_RANGES_def by (simp only: list_ex_Cons_Nil prod.case disj_ac simp_thms)
  finally show ?thesis .
qed

text \<open>The ranges of IPv6, each given by its first bits: a number of bits and their value.\<close>

definition NON_PUBLIC_V6 :: "(nat \<times> nat) list" where
  "NON_PUBLIC_V6 = [(128, 0), (128, 1), (8, 0xFF), (7, 0x7E), (10, 0x3FA)]"

definition has_first_bits :: "nat \<Rightarrow> nat \<times> nat \<Rightarrow> bool" where
  "has_first_bits n = (\<lambda>(k, v). n div 2 ^ (128 - k) = v)"

lemma unat_segment_0: "unat (segment ip 0) = unat ip div 2 ^ 112"
proof -
  have "unat ip < 2 ^ LENGTH(128)" by (rule unsigned_less)
  then have "unat ip div 2 ^ 112 < 2 ^ 16" by (simp add: less_mult_imp_div_less)
  moreover have "unat (drop_bit 112 ip) = unat ip div 2 ^ 112"
    by (simp only: unat_drop_bit_eq) (simp add: drop_bit_eq_div)
  moreover have "segment ip 0 = ucast (drop_bit 112 ip)" by (simp add: segment_def)
  ultimately show ?thesis
    by (simp only: unsigned_ucast_eq) (simp add: take_bit_nat_eq_self)
qed

lemma segment_masked:
  assumes "mk = push_bit k (- 1)" "v AND mk = v" "k \<le> 16"
  shows "segment ip 0 AND mk = v \<longleftrightarrow> unat ip div 2 ^ (112 + k) = unat v div 2 ^ k"
proof -
  have "segment ip 0 AND mk = v \<longleftrightarrow> segment ip 0 AND mk = v AND mk" using assms(2) by simp
  also have "\<dots> \<longleftrightarrow> unat ip div 2 ^ 112 div 2 ^ k = unat v div 2 ^ k"
    unfolding assms(1) masked_eq_iff unat_segment_0 ..
  finally show ?thesis by (simp add: div_mult2_eq[symmetric] power_add)
qed

lemma v6_ranges:
  "v6_is_multicast ip \<longleftrightarrow> has_first_bits (unat ip) (8, 0xFF)"
  "v6_is_unique_local ip \<longleftrightarrow> has_first_bits (unat ip) (7, 0x7E)"
  "v6_is_unicast_link_local ip \<longleftrightarrow> has_first_bits (unat ip) (10, 0x3FA)"
  "v6_is_loopback ip \<longleftrightarrow> has_first_bits (unat ip) (128, 1)"
  "ip = 0 \<longleftrightarrow> has_first_bits (unat ip) (128, 0)"
proof -
  have "(0xFF00 :: 16 word) = push_bit 8 (- 1)" "(0xFE00 :: 16 word) = push_bit 9 (- 1)" "(0xFFC0 :: 16 word) = push_bit 6 (- 1)"
    by code_simp+
  then show "v6_is_multicast ip \<longleftrightarrow> has_first_bits (unat ip) (8, 0xFF)"
    "v6_is_unique_local ip \<longleftrightarrow> has_first_bits (unat ip) (7, 0x7E)"
    "v6_is_unicast_link_local ip \<longleftrightarrow> has_first_bits (unat ip) (10, 0x3FA)"
    unfolding v6_is_multicast_def v6_is_unique_local_def v6_is_unicast_link_local_def has_first_bits_def
    by (simp_all only: segment_masked prod.case) (simp_all add: segment_masked)
qed (auto simp: v6_is_loopback_def has_first_bits_def word_unat_eq_iff)

lemma to_ipv4_mapped_iff:
  "to_ipv4_mapped ip = (if unat ip div 2 ^ 32 = 0xFFFF then Some (ucast ip) else None)"
  "unat (ucast ip :: ipv4) = unat (ip :: ipv6) mod 2 ^ 32"
proof -
  have "unat (drop_bit 32 ip) = unat ip div 2 ^ 32" by (simp only: unat_drop_bit_eq) (simp add: drop_bit_eq_div)
  moreover have "drop_bit 32 ip = 0xFFFF \<longleftrightarrow> unat (drop_bit 32 ip) = unat (0xFFFF :: ipv6)" by (rule word_unat_eq_iff)
  moreover have "unat (0xFFFF :: ipv6) = 0xFFFF" by simp
  ultimately show "to_ipv4_mapped ip = (if unat ip div 2 ^ 32 = 0xFFFF then Some (ucast ip) else None)"
    unfolding to_ipv4_mapped_def by presburger
qed (simp add: unsigned_ucast_eq take_bit_eq_mod)

text \<open>C36: the guard holds back exactly the IPv4 addresses of thirteen ranges, and an IPv6 address exactly when it is \<open>::\<close>, \<open>::1\<close>,
  multicast, unique local or link-local, or maps an IPv4 address of those ranges.
\<close>

lemma non_public_ranges:
  "(is_non_public_ip (V4 a) \<longleftrightarrow> in_ranges NON_PUBLIC_RANGES (unat a))
   \<and> (is_non_public_ip (V6 b) \<longleftrightarrow>
        list_ex (has_first_bits (unat b)) NON_PUBLIC_V6
        \<or> unat b div 2 ^ 32 = 0xFFFF \<and> in_ranges NON_PUBLIC_RANGES (unat b mod 2 ^ 32))"
proof (cases "unat b div 2 ^ 32 = 0xFFFF")
  case True
  have "\<not> list_ex (has_first_bits (unat b)) NON_PUBLIC_V6"
    using True by (auto simp: NON_PUBLIC_V6_def has_first_bits_def; presburger)
  then show ?thesis
    using True by (simp add: is_non_public_ip_def is_non_public_ipv6_def to_ipv4_mapped_iff non_public_ipv4_ranges)
next
  case False
  then show ?thesis
    by (auto simp: is_non_public_ip_def is_non_public_ipv6_def to_ipv4_mapped_iff(1) non_public_ipv4_ranges v6_ranges NON_PUBLIC_V6_def)
qed

end
