(* ===== verification/Web_Artifacts.thy ===== *)
theory Web_Artifacts
  imports Breaker Paths
begin

text \<open>
  The complete bodies of truncated fetches, kept as numbered files of a session
  (\<open>src/crates/codegen/xai-grok-tools/src/implementations/grok_build/web_fetch/artifact.rs\<close>).  A call holds the lock of the
  allocation file from beginning to end, so calls follow one another.
\<close>

definition COUNTER_WIDTH :: nat where "COUNTER_WIDTH = 10"
definition MAX_TOTAL_BYTES :: nat where "MAX_TOTAL_BYTES = 1024 * 1024 * 1024"

text \<open>
  The directory: its entries in the order they are read, a file with its bytes and anything else without, and the bytes of the
  allocation file, which is made empty when it is missing.
\<close>

record artifact_dir =
  art_entries :: "(string \<times> string option) list"
  art_allocation :: string

text \<open>What may fail in a call: everything before the numbers are looked at, the write of the allocation file, that of the body.\<close>

record artifact_failures =
  open_failure :: "string option"
  reserve_failure :: "(string \<times> string) option"
  store_failure :: "string option"

definition no_artifact_failures :: artifact_failures where
  "no_artifact_failures = \<lparr>open_failure = None, reserve_failure = None, store_failure = None\<rparr>"

definition U32_MAX :: nat where "U32_MAX = 2 ^ 32 - 1"
definition U64_MAX :: nat where "U64_MAX = 2 ^ 64 - 1"

definition stem_number :: "string \<Rightarrow> nat" where
  "stem_number name =
     (case split_once name CHR ''.'' of
        None \<Rightarrow> 0
      | Some (stem, _) \<Rightarrow> (case parse_unsigned U32_MAX stem of Some n \<Rightarrow> n | None \<Rightarrow> 0))"

text \<open>Leftover temporary files go; the greatest number and the bytes of the others.\<close>

definition kept_entries :: "(string \<times> string option) list \<Rightarrow> (string \<times> string option) list" where
  "kept_entries es = filter (\<lambda>(name, _). \<not> starts_with name ''.tmp'') es"

definition counted_entries :: "(string \<times> string option) list \<Rightarrow> (string \<times> string option) list" where
  "counted_entries es = filter (\<lambda>(name, _). \<not> starts_with name ''.'') es"

definition entry_bytes :: "string \<times> string option \<Rightarrow> nat" where
  "entry_bytes e = (case snd e of Some b \<Rightarrow> length b | None \<Rightarrow> 0)"

definition greatest_number :: "(string \<times> string option) list \<Rightarrow> nat" where
  "greatest_number es = foldl max 0 (map (stem_number \<circ> fst) es)"

definition total_bytes :: "(string \<times> string option) list \<Rightarrow> nat" where
  "total_bytes es = sum_list (map entry_bytes es)"

definition scan_artifacts :: "(string \<times> string option) list \<Rightarrow> string + nat \<times> nat" where
  "scan_artifacts es =
     (let counted = counted_entries es in
      if total_bytes counted > U64_MAX then Inl ''artifact byte count overflow''
      else Inr (greatest_number counted, total_bytes counted))"

definition read_reserved_number :: "string \<Rightarrow> nat option" where
  "read_reserved_number alloc =
     (if alloc = [] then Some 0 else if length alloc \<noteq> COUNTER_WIDTH then None else parse_unsigned U32_MAX alloc)"

definition padded :: "nat \<Rightarrow> string" where
  "padded n = replicate (COUNTER_WIDTH - length (nat_digits n)) CHR ''0'' @ nat_digits n"

definition next_number :: "string \<Rightarrow> nat \<Rightarrow> nat option" where
  "next_number alloc max_existing =
     (let n = max (case read_reserved_number alloc of Some v \<Rightarrow> v | None \<Rightarrow> max_existing) max_existing in
      if n + 1 > U32_MAX then None else Some (n + 1))"

definition reserve_number :: "artifact_failures \<Rightarrow> string \<Rightarrow> nat \<Rightarrow> string \<times> (string + nat)" where
  "reserve_number io alloc max_existing =
     (case next_number alloc max_existing of
        None \<Rightarrow> (alloc, Inl ''artifact number exhausted'')
      | Some n \<Rightarrow>
          (case reserve_failure io of
             Some (e, left) \<Rightarrow> (left, Inl e)
           | None \<Rightarrow> (padded n, Inr n)))"

definition artifact_name :: "nat \<Rightarrow> string \<Rightarrow> string" where
  "artifact_name n ext = nat_digits n @ ''.'' @ ext"

definition over_budget_message :: "nat \<Rightarrow> string" where
  "over_budget_message n =
     ''byte budget exceeded: '' @ nat_digits n @ ''/'' @ nat_digits MAX_TOTAL_BYTES @ '' bytes in web_fetch''"

text \<open>A call: the name of the new file, or why there is none; the new file does not replace another.\<close>

definition save_locked :: "artifact_failures \<Rightarrow> artifact_dir \<Rightarrow> string \<Rightarrow> string \<Rightarrow> artifact_dir \<times> (string + string)" where
  "save_locked io d data ext =
     (case open_failure io of
        Some e \<Rightarrow> (d, Inl e)
      | None \<Rightarrow>
          (let d1 = d\<lparr>art_entries := kept_entries (art_entries d)\<rparr> in
           case scan_artifacts (art_entries d1) of
             Inl e \<Rightarrow> (d1, Inl e)
           | Inr (max_existing, stored) \<Rightarrow>
               (case reserve_number io (art_allocation d) max_existing of
                  (alloc, Inl e) \<Rightarrow> (d1\<lparr>art_allocation := alloc\<rparr>, Inl e)
                | (alloc, Inr n) \<Rightarrow>
                    (let d2 = d1\<lparr>art_allocation := alloc\<rparr>; name = artifact_name n ext in
                     if stored + length data > U64_MAX then (d2, Inl ''artifact byte count overflow'')
                     else if stored + length data > MAX_TOTAL_BYTES then (d2, Inl (over_budget_message (stored + length data)))
                     else case store_failure io of
                       Some e \<Rightarrow> (d2, Inl e)
                     | None \<Rightarrow>
                         if name \<in> fst ` set (art_entries d2) then (d2, Inl ''persist'')
                         else (d2\<lparr>art_entries := art_entries d2 @ [(name, Some data)]\<rparr>, Inr name)))))"

subsection \<open>Numbers are not given twice\<close>

text \<open>What happens to the directory over time: calls, and files that somebody removes.\<close>

datatype dir_op = SaveFile artifact_failures string string | RemoveFile string

fun run_dir_ops :: "dir_op list \<Rightarrow> artifact_dir \<Rightarrow> artifact_dir \<times> string list" where
  "run_dir_ops [] d = (d, [])"
| "run_dir_ops (SaveFile io data ext # ops) d =
     (case save_locked io d data ext of
        (d', Inl _) \<Rightarrow> run_dir_ops ops d'
      | (d', Inr name) \<Rightarrow> map_prod id ((#) name) (run_dir_ops ops d'))"
| "run_dir_ops (RemoveFile name # ops) d =
     run_dir_ops ops (d\<lparr>art_entries := filter (\<lambda>(n, _). n \<noteq> name) (art_entries d)\<rparr>)"

fun reserves :: "dir_op \<Rightarrow> bool" where
  "reserves (SaveFile io _ _) \<longleftrightarrow> reserve_failure io = None"
| "reserves (RemoveFile _) \<longleftrightarrow> True"

definition reserved :: "artifact_dir \<Rightarrow> nat" where
  "reserved d = (case read_reserved_number (art_allocation d) of Some n \<Rightarrow> n | None \<Rightarrow> 0)"

lemma digit_char: "(d :: nat) < 10 \<Longrightarrow> is_ascii_digit (char_of (48 + d)) \<and> of_char (char_of (48 + d)) - 48 = d"
  by (simp add: is_ascii_digit_def byte_def)

lemma digits_value_append: "digits_value (a @ [c]) = 10 * digits_value a + (of_char c - 48)"
  by (simp add: digits_value_def)

lemma nat_digits_parse: "list_all is_ascii_digit (nat_digits n) \<and> digits_value (nat_digits n) = n \<and> nat_digits n \<noteq> []"
proof (induction n rule: nat_digits.induct)
  case (1 n)
  show ?case
  proof (cases "n < 10")
    case True
    then show ?thesis using digit_char[OF True] by (simp add: nat_digits.simps digits_value_def)
  next
    case False
    then show ?thesis using 1 digit_char[of "n mod 10"] by (simp add: nat_digits.simps[of n] digits_value_append)
  qed
qed

lemma length_nat_digits: "n < 10 ^ k \<Longrightarrow> 0 < k \<Longrightarrow> length (nat_digits n) \<le> k"
proof (induction k arbitrary: n)
  case (Suc k)
  show ?case
  proof (cases "n < 10")
    case False
    then have "0 < k" using Suc.prems by (cases k) auto
    moreover have "n div 10 < 10 ^ k" using Suc.prems by (simp add: less_mult_imp_div_less mult.commute)
    ultimately show ?thesis using Suc.IH[of "n div 10"] False by (simp add: nat_digits.simps[of n])
  qed (simp add: nat_digits.simps)
qed simp

lemma digits_value_zeros: "digits_value (replicate k CHR ''0'' @ ds) = digits_value ds"
  by (induction k) (simp_all add: digits_value_def)

lemma no_sign: "list_all is_ascii_digit s \<Longrightarrow> (case s of CHR ''+'' # r \<Rightarrow> r | _ \<Rightarrow> s) = s"
  by (cases s) (auto simp: is_ascii_digit_def byte_def split: char.splits bool.splits)

lemma parse_padded:
  assumes "n \<le> U32_MAX"
  shows "read_reserved_number (padded n) = Some n"
proof -
  note d = nat_digits_parse[of n]
  have "length (nat_digits n) \<le> COUNTER_WIDTH"
    unfolding COUNTER_WIDTH_def by (rule length_nat_digits) (use assms in \<open>simp_all add: U32_MAX_def\<close>)
  then have len: "length (padded n) = COUNTER_WIDTH" by (simp add: padded_def)
  then have ne: "padded n \<noteq> []" by (auto simp: COUNTER_WIDTH_def)
  have digits: "list_all is_ascii_digit (padded n)"
    using d by (auto simp: padded_def list_all_iff is_ascii_digit_def byte_def)
  then have "parse_unsigned U32_MAX (padded n) = Some n"
    using assms d ne unfolding parse_unsigned_def no_sign[OF digits] Let_def by (simp add: padded_def digits_value_zeros)
  then show ?thesis using len ne by (simp add: read_reserved_number_def)
qed

lemma dot_not_digit: "list_all is_ascii_digit ds \<Longrightarrow> CHR ''.'' \<notin> set ds"
  by (auto simp: list_all_iff is_ascii_digit_def byte_def)

lemma stem_artifact_name:
  assumes "n \<le> U32_MAX"
  shows "stem_number (artifact_name n ext) = n"
proof -
  note d = nat_digits_parse[of n]
  have "split_once (artifact_name n ext) CHR ''.'' = Some (nat_digits n, ext)"
    using dot_not_digit d by (auto simp: artifact_name_def split_once_Some_iff)
  moreover have "parse_unsigned U32_MAX (nat_digits n) = Some n"
    using assms d unfolding parse_unsigned_def no_sign[OF conjunct1[OF d]] Let_def by simp
  ultimately show ?thesis by (simp add: stem_number_def)
qed

lemma next_number_greater:
  "next_number alloc m = Some n \<Longrightarrow> m < n \<and> n \<le> U32_MAX \<and> (\<forall>v. read_reserved_number alloc = Some v \<longrightarrow> v < n)"
  by (auto simp: next_number_def Let_def split: if_splits option.splits)

text \<open>What a successful call has done.\<close>

lemma save_locked_number:
  assumes "save_locked io d data ext = (d', Inr name)" "reserve_failure io = None"
  shows "\<exists>n. name = artifact_name n ext \<and> n \<le> U32_MAX \<and> art_allocation d' = padded n \<and> reserved d < n
    \<and> greatest_number (counted_entries (kept_entries (art_entries d))) < n
    \<and> name \<notin> fst ` set (kept_entries (art_entries d))
    \<and> art_entries d' = kept_entries (art_entries d) @ [(name, Some data)]
    \<and> total_bytes (counted_entries (kept_entries (art_entries d))) + length data \<le> MAX_TOTAL_BYTES"
proof -
  let ?es = "kept_entries (art_entries d)"
  obtain n where nn: "next_number (art_allocation d) (greatest_number (counted_entries ?es)) = Some n"
    and rest: "name = artifact_name n ext" "art_allocation d' = padded n" "name \<notin> fst ` set ?es"
      "art_entries d' = ?es @ [(name, Some data)]" "total_bytes (counted_entries ?es) + length data \<le> MAX_TOTAL_BYTES"
    using assms
    by (auto simp: save_locked_def reserve_number_def scan_artifacts_def Let_def split: option.splits sum.splits if_splits)
  have "reserved d < n" using next_number_greater[OF nn] by (auto simp: reserved_def split: option.split)
  then show ?thesis using next_number_greater[OF nn] rest by blast
qed

lemma save_locked_failed:
  assumes "save_locked io d data ext = (d', Inl e)" "reserve_failure io = None"
  shows "reserved d \<le> reserved d'"
proof -
  have "art_allocation d' = art_allocation d \<or> (\<exists>m n. next_number (art_allocation d) m = Some n \<and> art_allocation d' = padded n)"
    using assms by (auto simp: save_locked_def reserve_number_def Let_def split: option.splits sum.splits if_splits; blast)
  then show ?thesis
    using next_number_greater parse_padded by (fastforce simp: reserved_def split: option.split)
qed

lemma run_dir_ops_numbers:
  "list_all reserves ops \<Longrightarrow> run_dir_ops ops d = (d', names) \<Longrightarrow>
   sorted_wrt (<) (map stem_number names) \<and> (\<forall>n \<in> set names. reserved d < stem_number n)"
proof (induction ops arbitrary: d names)
  case (Cons x ops)
  show ?case
  proof (cases x)
    case (RemoveFile name)
    then show ?thesis using Cons.IH[of "d\<lparr>art_entries := filter (\<lambda>(n, _). n \<noteq> name) (art_entries d)\<rparr>" names] Cons.prems
      by (simp add: reserved_def)
  next
    case (SaveFile io data ext)
    then have io: "reserve_failure io = None" using Cons.prems by simp
    obtain e r where s: "save_locked io d data ext = (e, r)" by fastforce
    show ?thesis
    proof (cases r)
      case (Inl m)
      then have "run_dir_ops ops e = (d', names)" using Cons.prems SaveFile s by simp
      then show ?thesis using Cons save_locked_failed[OF s[unfolded Inl] io] by fastforce
    next
      case (Inr name)
      obtain rest where r: "run_dir_ops ops e = (d', rest)" "names = name # rest"
        using Cons.prems SaveFile s Inr by (cases "run_dir_ops ops e") simp
      obtain n where n: "name = artifact_name n ext" "n \<le> U32_MAX" "art_allocation e = padded n" "reserved d < n"
        using save_locked_number[OF s[unfolded Inr] io] by blast
      then have "stem_number name = n" "reserved e = n" by (simp_all add: stem_artifact_name reserved_def parse_padded)
      then show ?thesis using Cons.IH[OF _ r(1)] Cons.prems n(4) r(2) by fastforce
    qed
  qed
qed simp

end
