(* ===== verification/Web_Overflow.thy ===== *)
theory Web_Overflow
  imports Str_Edit Auto_Route Web_Artifacts
begin

text \<open>
  What becomes of a fetched body
  (\<open>src/crates/codegen/xai-grok-tools/src/implementations/grok_build/web_fetch/client.rs\<close>, the second half, and \<open>overflow.rs\<close>): its kind by
  content type, the removal of base64 data and the preview that fits the budget.

  The preview of a body that is too long, and where the rest went
  (\<open>src/crates/codegen/xai-grok-tools/src/implementations/grok_build/web_fetch/overflow.rs\<close>, with \<open>util/query_tools.rs\<close>).
\<close>

section \<open>Web content\<close>

subsection \<open>Content types\<close>

definition mime_of :: "string \<Rightarrow> string" where
  "mime_of content_type = to_ascii_lowercase (trim (hd (split_on (\<lambda>c. c = CHR '';'') content_type)))"

definition is_html :: "string \<Rightarrow> bool" where
  "is_html ct \<longleftrightarrow> contains_str ct ''text/html'' \<or> contains_str ct ''application/xhtml''"

definition is_pdf :: "string \<Rightarrow> bool" where
  "is_pdf ct \<longleftrightarrow> contains_str ct ''application/pdf''"

definition is_image :: "string \<Rightarrow> bool" where
  "is_image ct \<longleftrightarrow> starts_with (mime_of ct) ''image/'' \<and> mime_of ct \<noteq> ''image/svg+xml''"

definition is_video :: "string \<Rightarrow> bool" where
  "is_video ct \<longleftrightarrow> starts_with (mime_of ct) ''video/''"

definition validate_media_magic_bytes :: "string \<Rightarrow> string \<Rightarrow> bool" where
  "validate_media_magic_bytes ct body \<longleftrightarrow>
     (let m = mime_of ct in
      if m = ''image/png'' then starts_with body [CHR 0x89, CHR 0x50, CHR 0x4E, CHR 0x47]
      else if m = ''image/jpeg'' then starts_with body [CHR 0xFF, CHR 0xD8, CHR 0xFF]
      else if m = ''image/gif'' then starts_with body ''GIF8''
      else if m = ''image/webp''
      then length body \<ge> 12 \<and> str_slice body 0 4 = ''RIFF'' \<and> str_slice body 8 12 = ''WEBP''
      else if m = ''video/mp4'' then length body \<ge> 8 \<and> str_slice body 4 8 = ''ftyp''
      else if m = ''video/webm'' then starts_with body [CHR 0x1A, CHR 0x45, CHR 0xDF, CHR 0xA3]
      else True)"

definition MEDIA_EXTENSIONS :: "(string \<times> string) list" where
  "MEDIA_EXTENSIONS =
     [(''image/png'', ''png''), (''image/jpeg'', ''jpg''), (''image/gif'', ''gif''), (''image/webp'', ''webp''),
      (''image/bmp'', ''bmp''), (''image/tiff'', ''tiff''), (''video/mp4'', ''mp4''), (''video/webm'', ''webm''),
      (''video/quicktime'', ''mov''), (''video/x-msvideo'', ''avi'')]"

definition media_extension :: "string \<Rightarrow> string" where
  "media_extension ct = (case map_of MEDIA_EXTENSIONS (mime_of ct) of Some e \<Rightarrow> e | None \<Rightarrow> ''bin'')"

definition TEXT_LIKE_TYPES :: "string list" where
  "TEXT_LIKE_TYPES =
     map ((@) ''application/'')
       [''json'', ''xml'', ''javascript'', ''ecmascript'', ''x-javascript'', ''xhtml+xml'', ''rss+xml'', ''atom+xml'',
        ''soap+xml'', ''xslt+xml'', ''mathml+xml'', ''svg+xml'', ''x-www-form-urlencoded'', ''graphql'', ''ld+json'',
        ''schema+json'', ''vnd.api+json'', ''x-yaml'', ''yaml'', ''toml'']"

definition is_binary_content_type :: "string \<Rightarrow> bool" where
  "is_binary_content_type ct \<longleftrightarrow>
     \<not> starts_with (mime_of ct) ''text/'' \<and> mime_of ct \<notin> set TEXT_LIKE_TYPES"

subsection \<open>Base64 data\<close>

definition MIN_BASE64_PAYLOAD :: nat where "MIN_BASE64_PAYLOAD = 4"
definition MAX_HEADER_LEN :: nat where "MAX_HEADER_LEN = 120"

definition is_ascii_space :: "char \<Rightarrow> bool" where
  "is_ascii_space c \<longleftrightarrow> byte c \<in> {0x20, 0x09, 0x0A, 0x0C, 0x0D}"

definition is_base64_char :: "char \<Rightarrow> bool" where
  "is_base64_char c \<longleftrightarrow> is_ascii_alphanumeric c \<or> c \<in> {CHR ''+'', CHR ''/'', CHR ''=''}"

text \<open>A base64 payload behind the \<open>data:\<close> at \<open>start\<close>: its type and where it ends.\<close>

definition data_uri_at :: "string \<Rightarrow> nat \<Rightarrow> (string \<times> nat) option" where
  "data_uri_at s start =
     (if start > 0 \<and> is_ascii_alphanumeric (s ! (start - 1)) then None
      else case first (match_indices (drop start s) '','') of
        None \<Rightarrow> None
      | Some rel_comma \<Rightarrow>
          (let comma = start + rel_comma; header = str_slice s (start + 5) comma;
               parts = split_on (\<lambda>c. c = CHR '';'') header;
               mime = (if hd parts = [] then ''unknown'' else hd parts);
               payload_len = length (takeWhile is_base64_char (drop (comma + 1) s)) in
           if length header > MAX_HEADER_LEN \<or> list_ex is_ascii_space header then None
           else if list_ex (\<lambda>p. eq_ignore_ascii_case p ''base64'') (tl parts) \<and> payload_len \<ge> MIN_BASE64_PAYLOAD
           then Some (mime, comma + 1 + payload_len)
           else None))"

definition removed_marker :: "string \<Rightarrow> string" where
  "removed_marker mime = ''[base64 '' @ mime @ '' data removed]''"

lemma first_match_less:
  assumes "first (match_indices (drop k s) pat) = Some rel" "pat \<noteq> []"
  shows "k + rel + length pat \<le> length s"
proof -
  have "rel \<in> set (matches_from 0 (drop k s) pat)"
    using assms(1) by (cases "match_indices (drop k s) pat") (auto simp: first_def match_indices_def)
  then show ?thesis using matches_from_range[OF assms(2), of rel 0 "drop k s"] assms(2) by (cases "k \<le> length s") auto
qed

lemma data_uri_at_end: "data_uri_at s start = Some (mime, e) \<Longrightarrow> start < e"
  by (auto simp: data_uri_at_def Let_def split: if_splits option.splits)

function strip_loop :: "string \<Rightarrow> nat \<Rightarrow> nat \<Rightarrow> string \<Rightarrow> nat \<times> string" where
  "strip_loop s search_from last_end out =
     (case first (match_indices (drop search_from s) ''data:'') of
        None \<Rightarrow> (last_end, out)
      | Some rel \<Rightarrow>
          (let start = search_from + rel in
           case data_uri_at s start of
             None \<Rightarrow> strip_loop s (start + 5) last_end out
           | Some (mime, e) \<Rightarrow> strip_loop s e e (out @ str_slice s last_end start @ removed_marker mime)))"
  by pat_completeness auto
termination
proof (relation "measure (\<lambda>(s, search_from, _, _). length s - search_from)", goal_cases)
  case (2 s search_from last_end out rel start)
  then show ?case using first_match_less[of search_from s "''data:''" rel] by auto
next
  case (3 s search_from last_end out rel start p x y)
  then show ?case using first_match_less[of search_from s "''data:''" rel] data_uri_at_end[of s start x y] by auto
qed simp

declare strip_loop.simps [simp del]

definition strip_base64_data_uris :: "string \<Rightarrow> string" where
  "strip_base64_data_uris content =
     (if \<not> contains_str content ''data:'' then content
      else case strip_loop content 0 0 [] of
        (last_end, out) \<Rightarrow> if last_end = 0 then content else out @ drop last_end content)"

section \<open>Web overflow\<close>

subsection \<open>What the payload is\<close>

datatype payload_format = PMarkdown | PJson | PJsonLines | PText

definition format_extension :: "payload_format \<Rightarrow> string" where
  "format_extension f = (case f of PMarkdown \<Rightarrow> ''md'' | PJson \<Rightarrow> ''json'' | PJsonLines \<Rightarrow> ''jsonl'' | PText \<Rightarrow> ''txt'')"

record payload_classification =
  pc_format :: payload_format
  pc_has_long_line :: bool

definition LONG_LINE_BYTES :: nat where "LONG_LINE_BYTES = 2000"

text \<open>\<open>is_json\<close> is whether \<open>serde_json\<close> reads the text as one JSON value.\<close>

definition classify :: "(string \<Rightarrow> bool) \<Rightarrow> string \<Rightarrow> string \<Rightarrow> payload_classification" where
  "classify is_json content_type s =
     (let m = mime_of content_type in
      \<lparr>pc_format =
         (if m = ''markdown'' \<or> m = ''text/markdown'' then PMarkdown
          else if m \<in> {''application/x-ndjson'', ''application/ndjson'', ''application/jsonl'', ''text/jsonl'', ''text/x-jsonl''}
          then PJsonLines
          else if m = ''application/json'' \<or> m = ''text/json'' \<or> ends_with m ''+json'' \<or> is_json (trim s) then PJson
          else PText),
       pc_has_long_line = (foldl max 0 (map length (text_lines s)) > LONG_LINE_BYTES)\<rparr>)"

subsection \<open>Budgets\<close>

text \<open>
  Numbers of type \<open>f64\<close> that are whole: a natural number rounded to 53 significant bits, ties to even.  \<open>0.03\<close> is
  \<open>8646911284551352 / 2^58\<close>.
\<close>

fun bit_length :: "nat \<Rightarrow> nat" where
  "bit_length n = (if n = 0 then 0 else Suc (bit_length (n div 2)))"

declare bit_length.simps [simp del]

definition round_f64 :: "nat \<Rightarrow> nat" where
  "round_f64 n =
     (let unit = 2 ^ (bit_length n - 53); q = n div unit; r = n mod unit in
      (if 2 * r > unit \<or> 2 * r = unit \<and> odd q then q + 1 else q) * unit)"

definition three_percent :: "nat \<Rightarrow> nat" where
  "three_percent n = round_f64 (8646911284551352 * round_f64 n) div 2 ^ 58"

definition estimate_chars :: "nat \<Rightarrow> nat" where
  "estimate_chars tokens = min (tokens * 4) (2 ^ 64 - 1)"

record inline_budget =
  preview_bytes :: nat
  output_bytes :: nat

definition inline_budget_for :: "nat \<Rightarrow> nat \<Rightarrow> inline_budget" where
  "inline_budget_for context_window_tokens max_markdown_length =
     \<lparr>preview_bytes = min (three_percent (estimate_chars context_window_tokens)) max_markdown_length,
      output_bytes = max_markdown_length\<rparr>"

subsection \<open>Hints\<close>

record recovery_tools =
  read_tool :: "string option"
  execute_tool :: "string option"

record query_tools =
  qt_jq :: "string option"
  qt_python :: "string option"
  qt_sed :: "string option"
  qt_cut :: "string option"

definition wrap_tools :: "string option list \<Rightarrow> string list" where
  "wrap_tools ts = map (\<lambda>t. ''`'' @ t @ ''`'') (List.map_filter id ts)"

definition json_tools :: "query_tools \<Rightarrow> string list" where
  "json_tools q = wrap_tools [qt_jq q, qt_python q]"

definition text_tools :: "query_tools \<Rightarrow> string list" where
  "text_tools q = wrap_tools [qt_python q, qt_sed q, qt_cut q]"

definition edit_tools :: "query_tools \<Rightarrow> string list" where
  "edit_tools q = wrap_tools [qt_python q, qt_sed q]"

fun examples_clause :: "string list \<Rightarrow> string" where
  "examples_clause [] = []"
| "examples_clause [a] = '' (e.g. '' @ a @ '')''"
| "examples_clause [a, b] = '' (e.g. '' @ a @ '' or '' @ b @ '')''"
| "examples_clause ts = '' (e.g. '' @ join '', '' (butlast ts) @ '', or '' @ last ts @ '')''"

definition read_steer :: "string option \<Rightarrow> string" where
  "read_steer t =
     (case t of None \<Rightarrow> []
      | Some name \<Rightarrow> '' Use `'' @ name @ ''` with offsets and limits to read it in chunks.'')"

definition long_line_steer :: "payload_format \<Rightarrow> query_tools \<Rightarrow> string \<Rightarrow> string" where
  "long_line_steer f q execute =
     (case (case f of PJson \<Rightarrow> (''valid JSON'', ''query'', json_tools q)
              | PJsonLines \<Rightarrow> (''JSON Lines'', ''query'', json_tools q)
              | PMarkdown \<Rightarrow> (''Markdown'', ''slice or search'', text_tools q)
              | PText \<Rightarrow> (''text'', ''slice or search'', text_tools q)) of
        (name, action, examples) \<Rightarrow>
          '' The saved file is '' @ name @ '' with a very long line, so line-oriented read and search tools are ineffective on it ''
          @ [CHR 0xE2, CHR 0x80, CHR 0x94] @ '' use `'' @ execute @ ''` to '' @ action @ '' it'' @ examples_clause examples @ ''.'')"

definition web_fetch_steer :: "payload_classification \<Rightarrow> recovery_tools \<Rightarrow> query_tools \<Rightarrow> string" where
  "web_fetch_steer c tools q =
     (if pc_has_long_line c
      then (case execute_tool tools of None \<Rightarrow> [] | Some execute \<Rightarrow> long_line_steer (pc_format c) q execute)
      else case pc_format c of
        PJson \<Rightarrow>
          (case execute_tool tools of
             None \<Rightarrow> read_steer (read_tool tools)
           | Some execute \<Rightarrow> '' The saved file is valid JSON; use `'' @ execute @ ''` to query it'' @ examples_clause (json_tools q) @ ''.'')
      | PJsonLines \<Rightarrow>
          (case execute_tool tools of
             None \<Rightarrow> read_steer (read_tool tools)
           | Some execute \<Rightarrow> '' The saved file is JSON Lines; use `'' @ execute @ ''` to query it'' @ examples_clause (json_tools q) @ ''.'')
      | _ \<Rightarrow>
          (let r = read_steer (read_tool tools) in
           if r \<noteq> [] then r
           else case execute_tool tools of
             None \<Rightarrow> []
           | Some execute \<Rightarrow> '' Use `'' @ execute @ ''` to inspect it'' @ examples_clause (text_tools q) @ ''.''))"

subsection \<open>Previews\<close>

definition recovery_footer :: "nat \<Rightarrow> nat \<Rightarrow> string \<Rightarrow> string" where
  "recovery_footer shown all_bytes hint =
     [CHR 0x0A, CHR 0x0A] @ ''[web_fetch content truncated: showing first '' @ nat_digits shown @ '' of ''
       @ nat_digits all_bytes @ '' bytes.'' @ hint @ '']''"

definition render_with_hint :: "string \<Rightarrow> inline_budget \<Rightarrow> nat \<Rightarrow> string \<Rightarrow> string option" where
  "render_with_hint content b all_bytes hint =
     (let provisional = recovery_footer (preview_bytes b) all_bytes hint in
      if length provisional > output_bytes b then None
      else (let preview = truncate_str content (min (preview_bytes b) (output_bytes b - length provisional));
                output = preview @ recovery_footer (length preview) all_bytes hint in
            if length output \<le> output_bytes b then Some output else None))"

definition GENERIC_MARKERS :: "string list" where
  "GENERIC_MARKERS = [[CHR 0x0A, CHR 0x0A] @ ''[web_fetch output truncated]'', ''[truncated]'', ''...'']"

definition bounded_generic_marker :: "string \<Rightarrow> inline_budget \<Rightarrow> string" where
  "bounded_generic_marker content b =
     (case List.find (\<lambda>m. length m \<le> output_bytes b) GENERIC_MARKERS of
        None \<Rightarrow> []
      | Some m \<Rightarrow> truncate_str content (min (preview_bytes b) (output_bytes b - length m)) @ m)"

definition str_or_else :: "string option \<Rightarrow> string option \<Rightarrow> string option" where
  "str_or_else a b = (case a of Some s \<Rightarrow> Some s | None \<Rightarrow> b)"

definition bounded_output ::
  "string \<Rightarrow> inline_budget \<Rightarrow> nat \<Rightarrow> string option \<Rightarrow> payload_classification \<Rightarrow> recovery_tools \<Rightarrow> query_tools \<Rightarrow> string" where
  "bounded_output content b all_bytes saved_path c tools q =
     (case (case saved_path of
              Some path \<Rightarrow>
                (let path_hint = '' Full content saved to: '' @ path @ ''.''; steer = web_fetch_steer c tools q in
                 str_or_else
                   (if steer \<noteq> [] then render_with_hint content b all_bytes (path_hint @ steer) else None)
                   (render_with_hint content b all_bytes path_hint))
            | None \<Rightarrow> render_with_hint content b all_bytes []) of
        Some output \<Rightarrow> output
      | None \<Rightarrow> bounded_generic_marker content b)"

subsection \<open>Overflow\<close>

record overflow_result =
  or_content :: string
  or_was_truncated :: bool
  or_artifact_path :: "string option"
  or_path_free_content :: "string option"

text \<open>
  \<open>save\<close> is what the artifact writer makes of the folder of the session: the path of the new file under it, or a failure.  With
  no session there is nowhere to save.
\<close>

definition overflow_process ::
  "(string \<Rightarrow> bool) \<Rightarrow> query_tools \<Rightarrow> (string \<Rightarrow> string \<Rightarrow> string + string) option \<Rightarrow> string \<Rightarrow> inline_budget \<Rightarrow> string
    \<Rightarrow> recovery_tools \<Rightarrow> overflow_result" where
  "overflow_process is_json q save content b content_type tools =
     (if length content \<le> min (preview_bytes b) (output_bytes b)
      then \<lparr>or_content = content, or_was_truncated = False, or_artifact_path = None, or_path_free_content = None\<rparr>
      else
        (let c = classify is_json content_type content;
             saved_path = (case save of None \<Rightarrow> None
                           | Some f \<Rightarrow> (case f content (format_extension (pc_format c)) of Inl _ \<Rightarrow> None | Inr p \<Rightarrow> Some p)) in
         \<lparr>or_content = bounded_output content b (length content) saved_path c tools q,
          or_was_truncated = True,
          or_artifact_path = saved_path,
          or_path_free_content = Some (bounded_output content b (length content) None c tools q)\<rparr>))"

subsection \<open>Nothing is longer than the budget\<close>

lemma truncate_str_prefix: "\<exists>n \<le> k. n \<le> length s \<and> is_char_boundary s n \<and> truncate_str s k = take n s"
proof (cases "length s \<le> k")
  case True
  then show ?thesis by (intro exI[of _ "length s"]) (simp add: truncate_str_def is_char_boundary_def)
next
  case False
  then show ?thesis
    using floor_boundary_le[of s k] floor_boundary_boundary[of s k] by (auto simp: truncate_str_def intro: le_trans)
qed

lemma length_truncate_str: "length (truncate_str s k) \<le> k"
  using truncate_str_prefix[of k s] by auto

lemma render_with_hint_bounded: "render_with_hint content b n hint = Some out \<Longrightarrow> length out \<le> output_bytes b"
  by (auto simp: render_with_hint_def Let_def split: if_splits)

lemma bounded_generic_marker_bounded: "length (bounded_generic_marker content b) \<le> output_bytes b"
proof (cases "List.find (\<lambda>m. length m \<le> output_bytes b) GENERIC_MARKERS")
  case (Some m)
  then have "length m \<le> output_bytes b" by (auto simp: find_Some_iff)
  then show ?thesis
    using Some length_truncate_str[of content "min (preview_bytes b) (output_bytes b - length m)"]
    by (simp add: bounded_generic_marker_def) linarith
qed (simp add: bounded_generic_marker_def)

lemma bounded_output_bounded: "length (bounded_output content b n path c tools q) \<le> output_bytes b"
  using bounded_generic_marker_bounded[of content b]
  by (auto simp: bounded_output_def str_or_else_def Let_def split: option.splits if_splits dest: render_with_hint_bounded)

text \<open>
  What a truncated output has to be: the first \<open>n\<close> bytes of the body, whole characters and no more than the preview
  budget, and behind them either a footer that gives \<open>n\<close>, the length of the body and one of the hints, or one of the fixed
  markers; or nothing at all, when not even the shortest marker fits.
\<close>

definition preview_of :: "string \<Rightarrow> inline_budget \<Rightarrow> string set \<Rightarrow> string \<Rightarrow> bool" where
  "preview_of content b hints out \<longleftrightarrow>
     (\<exists>n \<le> preview_bytes b. n \<le> length content \<and> is_char_boundary content n
        \<and> ((\<exists>hint \<in> hints. out = take n content @ recovery_footer n (length content) hint)
           \<or> (\<exists>m \<in> set GENERIC_MARKERS. out = take n content @ m)))
     \<or> out = [] \<and> output_bytes b < 3"

text \<open>The hints: where the rest went, with or without advice on how to read it; without a saved file there is none.\<close>

definition hints_for :: "string option \<Rightarrow> payload_classification \<Rightarrow> recovery_tools \<Rightarrow> query_tools \<Rightarrow> string set" where
  "hints_for saved_path c tools q =
     (case saved_path of
        None \<Rightarrow> {[]}
      | Some path \<Rightarrow>
          {'' Full content saved to: '' @ path @ ''.'', '' Full content saved to: '' @ path @ ''.'' @ web_fetch_steer c tools q})"

lemma truncated_prefix:
  obtains n where "n \<le> preview_bytes b" "n \<le> length content" "is_char_boundary content n"
    "truncate_str content (min (preview_bytes b) l) = take n content"
  using truncate_str_prefix[of "min (preview_bytes b) l" content] by auto

lemma render_with_hint_preview:
  assumes "render_with_hint content b (length content) hint = Some out" "hint \<in> hints"
  shows "preview_of content b hints out"
proof -
  let ?l = "output_bytes b - length (recovery_footer (preview_bytes b) (length content) hint)"
  obtain n where n: "n \<le> preview_bytes b" "n \<le> length content" "is_char_boundary content n"
      "truncate_str content (min (preview_bytes b) ?l) = take n content"
    by (rule truncated_prefix)
  have "out = take n content @ recovery_footer n (length content) hint"
    using assms(1) n by (auto simp: render_with_hint_def Let_def min_def split: if_splits)
  then show ?thesis using n(1-3) assms(2) by (auto simp: preview_of_def)
qed

lemma bounded_generic_marker_preview: "preview_of content b hints (bounded_generic_marker content b)"
proof (cases "List.find (\<lambda>m. length m \<le> output_bytes b) GENERIC_MARKERS")
  case None
  moreover have "''...'' \<in> set GENERIC_MARKERS" by (simp add: GENERIC_MARKERS_def)
  ultimately have "\<not> length ''...'' \<le> output_bytes b" unfolding find_None_iff by blast
  then have "output_bytes b < 3" by simp
  then show ?thesis using None by (simp add: bounded_generic_marker_def preview_of_def)
next
  case (Some m)
  obtain n where n: "n \<le> preview_bytes b" "n \<le> length content" "is_char_boundary content n"
      "truncate_str content (min (preview_bytes b) (output_bytes b - length m)) = take n content"
    by (rule truncated_prefix)
  have "m \<in> set GENERIC_MARKERS" using Some by (metis find_Some_iff nth_mem)
  then show ?thesis using n Some by (auto simp: bounded_generic_marker_def preview_of_def)
qed

lemma bounded_output_preview:
  "preview_of content b (hints_for path c tools q) (bounded_output content b (length content) path c tools q)"
  by (auto simp: bounded_output_def str_or_else_def Let_def bounded_generic_marker_preview hints_for_def
      split: option.splits if_splits intro: render_with_hint_preview)

text \<open>C37: what a fetch shows inline never exceeds the output budget, with or without a path in it, whatever the body, the tools and
  the writer.  A body within both budgets is shown whole; of any other the output is a prefix of whole characters within the
  preview budget, followed by the footer with the number of bytes shown, the length of the body and the hint to the saved
  file, or by one of the fixed markers; it is empty only when the output budget is below three bytes.
\<close>

theorem previews_stay_within_budget:
  "case overflow_process is_json q save content b content_type tools of r \<Rightarrow>
     (if length content \<le> min (preview_bytes b) (output_bytes b)
      then r = \<lparr>or_content = content, or_was_truncated = False, or_artifact_path = None, or_path_free_content = None\<rparr>
      else or_was_truncated r
        \<and> preview_of content b (hints_for (or_artifact_path r) (classify is_json content_type content) tools q) (or_content r)
        \<and> length (or_content r) \<le> output_bytes b
        \<and> (case or_path_free_content r of None \<Rightarrow> False
           | Some p \<Rightarrow> preview_of content b {[]} p \<and> length p \<le> output_bytes b))"
  using bounded_output_preview[of content b None "classify is_json content_type content" tools q]
  by (simp add: overflow_process_def Let_def bounded_output_bounded bounded_output_preview hints_for_def[of None])

end
