(* ===== verification/Web_Fetch.thy ===== *)
theory Web_Fetch
  imports Web_Ssrf Web_Overflow
begin

text \<open>
  The web fetch (\<open>src/crates/codegen/xai-grok-tools/src/implementations/grok_build/web_fetch\<close>: \<open>client.rs\<close>, \<open>cache.rs\<close>,
  \<open>config.rs\<close>, \<open>http.rs\<close>): which URLs it takes, the requests it sends, the redirects it follows and what it makes of the answer.
\<close>

subsection \<open>Parameters\<close>

definition MAX_URL_LENGTH :: nat where "MAX_URL_LENGTH = 2000"
definition MAX_REDIRECTS :: nat where "MAX_REDIRECTS = 10"

record web_fetch_params =
  wp_cache_ttl_secs :: "nat option"
  wp_max_cache_entries :: "nat option"
  wp_max_content_length :: "nat option"
  wp_max_markdown_length :: "nat option"
  wp_context_window_tokens :: "nat option"
  wp_allow_local :: "bool option"

definition or_default :: "'a option \<Rightarrow> 'a \<Rightarrow> 'a" where
  "or_default v d = (case v of Some x \<Rightarrow> x | None \<Rightarrow> d)"

definition cache_ttl_secs :: "web_fetch_params \<Rightarrow> nat" where "cache_ttl_secs p = or_default (wp_cache_ttl_secs p) (15 * 60)"
definition max_cache_entries :: "web_fetch_params \<Rightarrow> nat" where "max_cache_entries p = or_default (wp_max_cache_entries p) 128"
definition max_content_length :: "web_fetch_params \<Rightarrow> nat" where
  "max_content_length p = or_default (wp_max_content_length p) (10 * 1024 * 1024)"
definition max_markdown_length :: "web_fetch_params \<Rightarrow> nat" where
  "max_markdown_length p = or_default (wp_max_markdown_length p) 100000"
definition context_window_tokens :: "web_fetch_params \<Rightarrow> nat" where
  "context_window_tokens p = or_default (wp_context_window_tokens p) 128000"
definition allow_local :: "web_fetch_params \<Rightarrow> bool" where "allow_local p = or_default (wp_allow_local p) False"

subsection \<open>URLs\<close>

definition validate_url :: "'u url_crate \<Rightarrow> string \<Rightarrow> web_fetch_error + 'u" where
  "validate_url c raw =
     (if length raw > MAX_URL_LENGTH then Inl (UrlTooLong MAX_URL_LENGTH)
      else case url_parse c raw of
        Inl e \<Rightarrow> Inl (InvalidUrl e)
      | Inr u \<Rightarrow>
          if url_scheme c u \<noteq> ''http'' \<and> url_scheme c u \<noteq> ''https'' then Inl (UnsupportedScheme (url_scheme c u))
          else if url_username c u \<noteq> [] \<or> url_password c u \<noteq> None then Inl CredentialsInUrl
          else case url_host_str c u of
            None \<Rightarrow> Inr u
          | Some hst \<Rightarrow>
              if length (split_on (\<lambda>ch. ch = CHR ''.'') hst) < 2 \<and> \<not> is_explicit_local_host hst
              then Inl (SingleLabelHost hst) else Inr u)"

definition upgrade_to_https :: "'u url_crate \<Rightarrow> 'u \<Rightarrow> 'u" where
  "upgrade_to_https c u =
     (if url_scheme c u \<noteq> ''http'' then u
      else if (case url_host_str c u of Some hst \<Rightarrow> is_explicit_local_host hst | None \<Rightarrow> False) then u
      else case url_set_scheme c u ''https'' of Some v \<Rightarrow> v | None \<Rightarrow> u)"

definition is_same_host :: "'u url_crate \<Rightarrow> 'u \<Rightarrow> 'u \<Rightarrow> bool" where
  "is_same_host c a b \<longleftrightarrow> url_host_str c a = url_host_str c b"

subsection \<open>Requests\<close>

text \<open>
  An answer: its status, the headers \<open>Location\<close> and \<open>Content-Type\<close> (a header that is not text is \<open>Some None\<close>), the URL it came
  from and the body, which may fail to arrive.
\<close>

record http_response =
  resp_status :: nat
  resp_location :: "string option option"
  resp_content_type :: "string option option"
  resp_url :: string
  resp_body :: "string + string"

type_synonym 'u web_server = "'u web_event list \<Rightarrow> 'u \<Rightarrow> string + http_response"

definition is_redirection :: "nat \<Rightarrow> bool" where
  "is_redirection status \<longleftrightarrow> 300 \<le> status \<and> status < 400"

datatype fetch_result =
    FetchedContent string string string nat
  | FetchedCrossHost string string

definition header_text :: "string option option \<Rightarrow> string \<Rightarrow> string" where
  "header_text v d = (case v of Some (Some s) \<Rightarrow> s | _ \<Rightarrow> d)"

definition read_content :: "nat \<Rightarrow> http_response \<Rightarrow> web_fetch_error + fetch_result" where
  "read_content max_length resp =
     (case resp_body resp of
        Inl e \<Rightarrow> Inl (HttpRequest e)
      | Inr body \<Rightarrow>
          if length body > max_length then Inl (ResponseTooLarge max_length)
          else Inr (FetchedContent body (header_text (resp_content_type resp) ''text/html'') (resp_url resp) (resp_status resp)))"

text \<open>The loop of \<open>fetch_url\<close>: \<open>hops\<close> redirects were followed so far.\<close>

function fetch_from ::
  "'u url_crate \<Rightarrow> 'u resolver \<Rightarrow> 'u web_server \<Rightarrow> nat \<Rightarrow> bool \<Rightarrow> 'u \<Rightarrow> nat \<Rightarrow> 'u web_event list
    \<Rightarrow> 'u web_event list \<times> (web_fetch_error + fetch_result)" where
  "fetch_from c dns server max_length local_ok url hops tr =
     (case check_ssrf c dns local_ok url tr of
        (tr1, Some e) \<Rightarrow> (tr1, Inl e)
      | (tr1, None) \<Rightarrow>
          (let tr2 = tr1 @ [Requested url] in
           case server tr1 url of
             Inl e \<Rightarrow> (tr2, Inl (HttpRequest e))
           | Inr resp \<Rightarrow>
               if \<not> is_redirection (resp_status resp) then (tr2, read_content max_length resp)
               else if hops + 1 > MAX_REDIRECTS then (tr2, Inl (TooManyRedirects MAX_REDIRECTS))
               else case resp_location resp of
                 None \<Rightarrow> (tr2, read_content max_length resp)
               | Some v \<Rightarrow>
                   (case url_join c url (header_text (Some v) []) of
                      Inl e \<Rightarrow> (tr2, Inl (InvalidRedirect e))
                    | Inr next_url \<Rightarrow>
                        if is_same_host c url next_url
                        then fetch_from c dns server max_length local_ok (upgrade_to_https c next_url) (hops + 1) tr2
                        else (tr2, Inr (FetchedCrossHost
                               (case url_host_str c url of Some hst \<Rightarrow> hst | None \<Rightarrow> ''unknown'') (url_string c next_url))))))"
  by pat_completeness auto
termination by (relation "measure (\<lambda>(_, _, _, _, _, _, hops, _). MAX_REDIRECTS - hops)") auto

declare fetch_from.simps [simp del]

definition fetch_url ::
  "'u url_crate \<Rightarrow> 'u resolver \<Rightarrow> 'u web_server \<Rightarrow> nat \<Rightarrow> bool \<Rightarrow> 'u \<Rightarrow> 'u web_event list
    \<Rightarrow> 'u web_event list \<times> (web_fetch_error + fetch_result)" where
  "fetch_url c dns server max_length local_ok url tr = fetch_from c dns server max_length local_ok url 0 tr"

subsection \<open>The cache\<close>

record web_content =
  wc_url :: string
  wc_content :: string
  wc_content_type :: string
  wc_status_code :: nat
  wc_bytes :: nat
  wc_source_artifact :: "string option"
  wc_inline_fallback :: "string option"

datatype web_fetch_output =
    WebContent web_content
  | DomainNotAllowed string
  | CrossHostRedirect string string
  | WebFetchFailed "string option" string

record cached_page =
  cp_output :: web_fetch_output
  cp_inserted :: nat

record fetch_cache =
  fc_entries :: "(string \<times> cached_page) list"
  fc_ttl :: nat
  fc_max_entries :: nat

definition fetch_cache_new :: "nat \<Rightarrow> nat \<Rightarrow> fetch_cache" where
  "fetch_cache_new ttl n = \<lparr>fc_entries = [], fc_ttl = ttl, fc_max_entries = n\<rparr>"

definition cache_get :: "nat \<Rightarrow> fetch_cache \<Rightarrow> string \<Rightarrow> web_fetch_output option" where
  "cache_get now c url =
     (case map_of (fc_entries c) url of
        None \<Rightarrow> None
      | Some e \<Rightarrow> if now - cp_inserted e < fc_ttl c then Some (cp_output e) else None)"

text \<open>The entry that was inserted first; of several the one that comes last in the order of the map.\<close>

definition oldest_key :: "nat \<Rightarrow> (string \<times> cached_page) list \<Rightarrow> string option" where
  "oldest_key now es =
     map_option fst
       (foldl (\<lambda>best e. case best of
                 None \<Rightarrow> Some e
               | Some b \<Rightarrow> if now - cp_inserted (snd e) \<ge> now - cp_inserted (snd b) then Some e else Some b) None es)"

definition without_key :: "string \<Rightarrow> (string \<times> 'a) list \<Rightarrow> (string \<times> 'a) list" where
  "without_key k es = filter (\<lambda>(k', _). k' \<noteq> k) es"

definition insert_text :: "nat \<Rightarrow> fetch_cache \<Rightarrow> string \<Rightarrow> web_fetch_output \<Rightarrow> bool \<Rightarrow> fetch_cache" where
  "insert_text now c url output was_truncated =
     (if was_truncated then c
      else
        (let es = (if length (fc_entries c) \<ge> fc_max_entries c
                   then (case oldest_key now (fc_entries c) of Some k \<Rightarrow> without_key k (fc_entries c) | None \<Rightarrow> fc_entries c)
                   else fc_entries c) in
         c\<lparr>fc_entries := without_key url es @ [(url, \<lparr>cp_output = output, cp_inserted = now\<rparr>)]\<rparr>))"

subsection \<open>A fetch\<close>

text \<open>
  The world of a client: resolver, servers, the clock, whether an HTTP client can be built, where media files end up, the failures
  of the artifact writer, and the crates that convert HTML and check JSON.
\<close>

record 'u web_io =
  web_dns :: "'u resolver"
  web_server :: "'u web_server"
  web_clock :: "'u web_event list \<Rightarrow> nat"
  build_failure :: "'u web_event list \<Rightarrow> web_fetch_error option"
  save_media :: "'u web_event list \<Rightarrow> string \<Rightarrow> string \<Rightarrow> string \<Rightarrow> string option \<Rightarrow> string + string"
  artifact_failures_at :: "'u web_event list \<Rightarrow> artifact_failures"
  html_to_markdown :: "string \<Rightarrow> string"
  is_json_text :: "string \<Rightarrow> bool"
  query_tools_found :: query_tools

record 'u web_state =
  ws_cache :: fetch_cache
  ws_http_built :: bool
  ws_artifacts :: "string \<Rightarrow> artifact_dir"
  ws_trace :: "'u web_event list"

definition get_or_rebuild :: "'u web_io \<Rightarrow> 'u web_state \<Rightarrow> 'u web_state \<times> web_fetch_error option" where
  "get_or_rebuild io s =
     (if ws_http_built s then (s, None)
      else case build_failure io (ws_trace s) of
        Some e \<Rightarrow> (s, Some e)
      | None \<Rightarrow> (s\<lparr>ws_http_built := True\<rparr>, None))"

definition invalidate :: "'u web_state \<Rightarrow> 'u web_state" where
  "invalidate s = s\<lparr>ws_http_built := False\<rparr>"

definition saved_content :: "string \<Rightarrow> string \<Rightarrow> string \<Rightarrow> nat \<Rightarrow> nat \<Rightarrow> web_fetch_output" where
  "saved_content content url content_type status sz =
     WebContent \<lparr>wc_url = url, wc_content = content, wc_content_type = content_type, wc_status_code = status, wc_bytes = sz,
       wc_source_artifact = None, wc_inline_fallback = Some content\<rparr>"

definition read_hint :: "string option \<Rightarrow> string" where
  "read_hint t = (case t of None \<Rightarrow> [] | Some name \<Rightarrow> '' Use the '' @ name @ '' tool to view its contents.'')"

definition pdf_message :: "string \<Rightarrow> string \<Rightarrow> string option \<Rightarrow> string" where
  "pdf_message body path t =
     ''PDF downloaded ('' @ nat_digits (length body) @ '' bytes) and saved to '' @ path @ ''.'' @ read_hint t"

definition image_message :: "string \<Rightarrow> string \<Rightarrow> string \<Rightarrow> string option \<Rightarrow> string" where
  "image_message body content_type path t =
     ''Image downloaded ('' @ nat_digits (length body) @ '' bytes, '' @ content_type @ '') and saved to '' @ path @ ''.''
       @ read_hint t"

definition video_message :: "string \<Rightarrow> string \<Rightarrow> string \<Rightarrow> string" where
  "video_message body content_type path =
     ''Video downloaded ('' @ nat_digits (length body) @ '' bytes, '' @ content_type @ '') and saved to '' @ path @ ''.''"

text \<open>\<open>save_pdf\<close>, \<open>save_image\<close> and \<open>save_video\<close>: the directory under the session and how the saved file is announced.\<close>

definition save_download ::
  "'u web_io \<Rightarrow> 'u web_state \<Rightarrow> string \<Rightarrow> string option \<Rightarrow> string option \<Rightarrow> string \<Rightarrow> (string \<Rightarrow> string)
    \<Rightarrow> string \<Rightarrow> string \<Rightarrow> nat \<Rightarrow> 'u web_state \<times> (web_fetch_error + web_fetch_output)" where
  "save_download io s dir_name session ext body message url content_type status =
     (case session of
        None \<Rightarrow> (s, Inl (WebIoError ''session folder is unavailable''))
      | Some folder \<Rightarrow>
          (case save_media io (ws_trace s) dir_name folder body ext of
             Inl e \<Rightarrow> (s, Inl (WebIoError e))
           | Inr path \<Rightarrow>
               (s\<lparr>ws_trace := ws_trace s @ [SavedFile dir_name folder body path]\<rparr>,
                Inr (saved_content (message path) url content_type status (length body)))))"

definition artifact_path :: "string \<Rightarrow> string \<Rightarrow> string" where
  "artifact_path folder name = folder @ ''/web_fetch/'' @ name"

definition process_text_content ::
  "'u web_io \<Rightarrow> web_fetch_params \<Rightarrow> 'u web_state \<Rightarrow> string \<Rightarrow> string \<Rightarrow> string option \<Rightarrow> recovery_tools
    \<Rightarrow> 'u web_state \<times> overflow_result \<times> string \<times> nat" where
  "process_text_content io p s body content_type session tools =
     (let raw = utf8_lossy body;
          content = strip_base64_data_uris (if is_html content_type then html_to_markdown io raw else raw);
          output_type = (if is_html content_type then ''markdown'' else content_type);
          fails = artifact_failures_at io (ws_trace s);
          save = map_option (\<lambda>folder data ext.
                   map_sum id (artifact_path folder) (snd (save_locked fails (ws_artifacts s folder) data ext))) session;
          budget = inline_budget_for (context_window_tokens p) (max_markdown_length p);
          r = overflow_process (is_json_text io) (query_tools_found io) save content budget output_type tools;
          ext = format_extension (pc_format (classify (is_json_text io) output_type content));
          s' = (case session of
                  Some folder \<Rightarrow>
                    if or_was_truncated r
                    then s\<lparr>ws_artifacts := (ws_artifacts s)
                             (folder := fst (save_locked fails (ws_artifacts s folder) content ext))\<rparr>
                    else s
                | None \<Rightarrow> s) in
      (s', r, output_type, length content))"

text \<open>What is made of a body.\<close>

definition deliver_content ::
  "'u web_io \<Rightarrow> web_fetch_params \<Rightarrow> 'u web_state \<Rightarrow> string \<Rightarrow> string option \<Rightarrow> recovery_tools
    \<Rightarrow> string \<Rightarrow> string \<Rightarrow> string \<Rightarrow> nat \<Rightarrow> 'u web_state \<times> (web_fetch_error + web_fetch_output)" where
  "deliver_content io p s url_str session tools body content_type final_url status =
     (if is_pdf content_type
      then save_download io s ''downloads'' session None body (\<lambda>path. pdf_message body path (read_tool tools)) final_url content_type status
      else if is_image content_type
      then if \<not> validate_media_magic_bytes content_type body then (s, Inl (ContentTypeMismatch content_type final_url))
           else save_download io s ''images'' session (Some (media_extension content_type)) body
                  (\<lambda>path. image_message body content_type path (read_tool tools)) final_url content_type status
      else if is_video content_type
      then if \<not> validate_media_magic_bytes content_type body then (s, Inl (ContentTypeMismatch content_type final_url))
           else save_download io s ''videos'' session (Some (media_extension content_type)) body
                  (\<lambda>path. video_message body content_type path) final_url content_type status
      else if is_binary_content_type content_type then (s, Inl (UnsupportedContentType content_type final_url))
      else
        (case process_text_content io p s body content_type session tools of
           (s1, r, output_type, sz) \<Rightarrow>
             let output = WebContent \<lparr>wc_url = final_url, wc_content = or_content r, wc_content_type = output_type,
                   wc_status_code = status, wc_bytes = sz, wc_source_artifact = or_artifact_path r,
                   wc_inline_fallback = or_path_free_content r\<rparr> in
             (s1\<lparr>ws_cache := insert_text (web_clock io (ws_trace s1)) (ws_cache s1) url_str output (or_was_truncated r)\<rparr>,
              Inr output)))"

definition web_fetch ::
  "'u url_crate \<Rightarrow> 'u web_io \<Rightarrow> web_fetch_params \<Rightarrow> 'u web_state \<Rightarrow> string \<Rightarrow> string option \<Rightarrow> recovery_tools
    \<Rightarrow> 'u web_state \<times> (web_fetch_error + web_fetch_output)" where
  "web_fetch c io p s raw_url session tools =
     (case validate_url c raw_url of
        Inl e \<Rightarrow> (s, Inl e)
      | Inr u \<Rightarrow>
          (let url = upgrade_to_https c u; url_str = url_string c url in
           case cache_get (web_clock io (ws_trace s)) (ws_cache s) url_str of
             Some cached \<Rightarrow> (s, Inr cached)
           | None \<Rightarrow>
               (case check_ssrf c (web_dns io) (allow_local p) url (ws_trace s) of
                  (tr1, Some e) \<Rightarrow> (s\<lparr>ws_trace := tr1\<rparr>, Inl e)
                | (tr1, None) \<Rightarrow>
                    (case get_or_rebuild io (s\<lparr>ws_trace := tr1\<rparr>) of
                       (s1, Some e) \<Rightarrow> (s1, Inl e)
                     | (s1, None) \<Rightarrow>
                         (case fetch_url c (web_dns io) (web_server io) (max_content_length p) (allow_local p) url (ws_trace s1) of
                            (tr2, Inl (HttpRequest e)) \<Rightarrow> (invalidate (s1\<lparr>ws_trace := tr2\<rparr>), Inl (HttpRequest e))
                          | (tr2, Inl e) \<Rightarrow> (s1\<lparr>ws_trace := tr2\<rparr>, Inl e)
                          | (tr2, Inr (FetchedCrossHost original redirect)) \<Rightarrow>
                              (s1\<lparr>ws_trace := tr2\<rparr>, Inr (CrossHostRedirect original redirect))
                          | (tr2, Inr (FetchedContent body content_type final_url status)) \<Rightarrow>
                              deliver_content io p (s1\<lparr>ws_trace := tr2\<rparr>) url_str session tools body content_type final_url status)))))"

end
