(* ===== verification/Web_Properties.thy ===== *)
theory Web_Properties
  imports Web_Fetch Web_Ssrf Tool_Grants
begin

text \<open>
  What a web fetch may do to the network: every request follows a check of its own host, redirects stay on the host of the URL that
  was asked for, and plain HTTP is for explicit local hosts.

  Where the web fetch does something else than it says, each shown on a concrete case.
\<close>

section \<open>Web properties\<close>

subsection \<open>Traces\<close>

fun is_request :: "'u web_event \<Rightarrow> bool" where
  "is_request (Requested u) \<longleftrightarrow> True"
| "is_request _ \<longleftrightarrow> False"

text \<open>
  The check of a host: an address that is not blocked, or a name whose resolution is the last thing that happened and gave
  addresses none of which is blocked.
\<close>

definition host_checked :: "'u url_crate \<Rightarrow> bool \<Rightarrow> 'u \<Rightarrow> 'u web_event list \<Rightarrow> bool" where
  "host_checked c local_ok url before \<longleftrightarrow>
     (case url_host_str c url of
        None \<Rightarrow> False
      | Some hst \<Rightarrow>
          (case parse_ip hst of
             Some ip \<Rightarrow> \<not> is_blocked_for_host ip hst local_ok
           | None \<Rightarrow>
               before \<noteq> []
               \<and> (case last before of
                    Resolved h _ (Inr addrs) \<Rightarrow>
                      h = hst \<and> addrs \<noteq> [] \<and> list_all (\<lambda>ip. \<not> is_blocked_for_host ip hst local_ok) addrs
                  | _ \<Rightarrow> False)))"

definition requests_checked :: "'u url_crate \<Rightarrow> bool \<Rightarrow> 'u web_event list \<Rightarrow> 'u web_event list \<Rightarrow> bool" where
  "requests_checked c local_ok before new \<longleftrightarrow>
     (\<forall>pre u post. new = pre @ Requested u # post \<longrightarrow> host_checked c local_ok u (before @ pre))"

text \<open>A URL is not asked for in the clear, unless it names an explicit local host.\<close>

definition not_in_the_clear :: "'u url_crate \<Rightarrow> 'u \<Rightarrow> bool" where
  "not_in_the_clear c u \<longleftrightarrow>
     url_scheme c u \<noteq> ''http'' \<or> (case url_host_str c u of Some hst \<Rightarrow> is_explicit_local_host hst | None \<Rightarrow> False)"

text \<open>What \<open>set_scheme\<close> promises: a URL of scheme \<open>http\<close> can be given scheme \<open>https\<close>, and keeps its host.\<close>

definition https_can_be_set :: "'u url_crate \<Rightarrow> bool" where
  "https_can_be_set c \<longleftrightarrow>
     (\<forall>u. url_scheme c u = ''http'' \<longrightarrow>
        (\<exists>v. url_set_scheme c u ''https'' = Some v \<and> url_scheme c v = ''https'' \<and> url_host_str c v = url_host_str c u))"

lemma upgrade_not_in_the_clear:
  assumes "https_can_be_set c"
  shows "not_in_the_clear c (upgrade_to_https c u)" "url_host_str c (upgrade_to_https c u) = url_host_str c u"
  using assms by (auto simp: upgrade_to_https_def not_in_the_clear_def https_can_be_set_def split: option.splits)

lemma check_ssrf_trace:
  assumes "check_ssrf c dns local_ok url tr = (tr', e)"
  shows "\<exists>new. tr' = tr @ new \<and> list_all (\<lambda>ev. \<not> is_request ev) new"
    and "e = None \<Longrightarrow> host_checked c local_ok url tr'"
proof -
  show "\<exists>new. tr' = tr @ new \<and> list_all (\<lambda>ev. \<not> is_request ev) new"
    using assms by (auto simp: check_ssrf_def Let_def split: option.splits sum.splits list.splits)
  show "host_checked c local_ok url tr'" if none: "e = None"
  proof (cases "url_host_str c url")
    case (Some hst)
    show ?thesis
    proof (cases "parse_ip hst")
      case None
      then obtain a as where "tr' = tr @ [Resolved hst (case url_port_or_known_default c url of Some p \<Rightarrow> p | None \<Rightarrow> 443) (Inr (a # as))]"
        "List.find (\<lambda>ip. is_blocked_for_host ip hst local_ok) (a # as) = None"
        using assms[unfolded none] Some by (auto simp: check_ssrf_def Let_def simp del: find.simps split: sum.splits list.splits)
      then show ?thesis using None Some by (auto simp: host_checked_def find_None_iff list_all_iff simp del: find.simps)
    qed (use assms none Some in \<open>auto simp: check_ssrf_def host_checked_def split: if_splits\<close>)
  qed (use assms none in \<open>simp add: check_ssrf_def\<close>)
qed

lemma requests_checked_quiet: "list_all (\<lambda>ev. \<not> is_request ev) new \<Longrightarrow> requests_checked c local_ok before new"
  by (auto simp: requests_checked_def)

lemma requests_checked_append:
  assumes "requests_checked c local_ok before a" "requests_checked c local_ok (before @ a) b"
  shows "requests_checked c local_ok before (a @ b)"
  unfolding requests_checked_def
proof (intro allI impI)
  fix pre u post
  assume "a @ b = pre @ Requested u # post"
  then consider q where "a = pre @ Requested u # q" | q where "pre = a @ q" "b = q @ Requested u # post"
    by (auto simp: append_eq_append_conv2 append_eq_Cons_conv)
  then show "host_checked c local_ok u (before @ pre)"
    using assms by cases (auto simp: requests_checked_def)
qed

lemma fetch_from_blocked:
  assumes "fetch_from c dns server mx local_ok url hops tr = (tr', r)" "check_ssrf c dns local_ok url tr = (tr1, Some e)"
  shows "tr' = tr1"
  using assms(1)[unfolded fetch_from.simps[of c dns server mx local_ok url hops tr] assms(2) prod.case option.case] by simp

text \<open>One round of the loop: it sends nothing, or one request and then goes on with the next URL or ends.\<close>

lemma fetch_from_round:
  assumes "fetch_from c dns server mx local_ok url hops tr = (tr', r)" "check_ssrf c dns local_ok url tr = (tr1, None)"
  shows "tr' = tr1 @ [Requested url]
    \<or> (\<exists>next_url. hops + 1 \<le> MAX_REDIRECTS \<and> is_same_host c url next_url
         \<and> fetch_from c dns server mx local_ok (upgrade_to_https c next_url) (hops + 1) (tr1 @ [Requested url]) = (tr', r))"
proof -
  note run = assms(1)[unfolded fetch_from.simps[of c dns server mx local_ok url hops tr] assms(2) prod.case option.case Let_def]
  show ?thesis
  proof (cases "server tr1 url")
    case (Inr resp)
    note run = run[unfolded Inr sum.case]
    show ?thesis
    proof (cases "is_redirection (resp_status resp) \<and> hops + 1 \<le> MAX_REDIRECTS")
      case True
      show ?thesis
      proof (cases "resp_location resp")
        case (Some v)
        then show ?thesis using run True
          by (cases "url_join c url (header_text (Some v) [])") (auto split: if_splits)
      qed (use run True in simp)
    qed (use run in \<open>auto split: if_splits\<close>)
  qed (use run in simp)
qed

text \<open>What the loop adds to the trace.\<close>

definition requests_fine :: "'u url_crate \<Rightarrow> bool \<Rightarrow> 'u \<Rightarrow> nat \<Rightarrow> 'u web_event list \<Rightarrow> 'u web_event list \<Rightarrow> bool" where
  "requests_fine c local_ok url budget before new \<longleftrightarrow>
     requests_checked c local_ok before new \<and> length (filter is_request new) \<le> budget
     \<and> (\<forall>u. Requested u \<in> set new \<longrightarrow> url_host_str c u = url_host_str c url \<and> not_in_the_clear c u)"

lemma requests_fine_quiet: "list_all (\<lambda>ev. \<not> is_request ev) new \<Longrightarrow> requests_fine c local_ok url n before new"
  by (auto simp: requests_fine_def requests_checked_quiet list_all_iff filter_False)

lemma fetch_from_trace:
  assumes https: "https_can_be_set c"
  shows "fetch_from c dns server mx local_ok url hops tr = (tr', r) \<Longrightarrow> not_in_the_clear c url \<Longrightarrow> hops \<le> MAX_REDIRECTS \<Longrightarrow>
    \<exists>new. tr' = tr @ new \<and> requests_fine c local_ok url (MAX_REDIRECTS + 1 - hops) tr new"
proof (induction "MAX_REDIRECTS - hops" arbitrary: url hops tr tr' r rule: less_induct)
  case less
  obtain tr1 e where check: "check_ssrf c dns local_ok url tr = (tr1, e)" by fastforce
  obtain quiet where quiet: "tr1 = tr @ quiet" "list_all (\<lambda>ev. \<not> is_request ev) quiet"
    using check_ssrf_trace(1)[OF check] by blast
  show ?case
  proof (cases e)
    case (Some x)
    have "tr' = tr1" using fetch_from_blocked[OF less.prems(1) check[unfolded Some]] .
    then show ?thesis using quiet(1) requests_fine_quiet[OF quiet(2)] by auto
  next
    case None
    define sent where "sent = quiet @ [Requested url]"
    have "host_checked c local_ok url tr1" using check_ssrf_trace(2)[OF check None] .
    then have "requests_checked c local_ok (tr @ quiet) [Requested url]"
      using quiet(1) by (auto simp: requests_checked_def Cons_eq_append_conv)
    then have checked: "requests_checked c local_ok tr sent"
      unfolding sent_def by (rule requests_checked_append[OF requests_checked_quiet[OF quiet(2)]])
    have count: "length (filter is_request sent) = 1" using quiet(2) by (simp add: sent_def list_all_iff filter_empty_conv)
    have own: "u = url" if "Requested u \<in> set sent" for u using that quiet(2) by (auto simp: sent_def list_all_iff)
    have one: "requests_fine c local_ok url (MAX_REDIRECTS + 1 - hops) tr sent"
      using checked count own less.prems(2,3) by (auto simp: requests_fine_def)
    from fetch_from_round[OF less.prems(1) check[unfolded None]] show ?thesis
    proof
      assume "tr' = tr1 @ [Requested url]"
      then show ?thesis using one quiet(1) by (auto simp: sent_def)
    next
      assume "\<exists>next_url. hops + 1 \<le> MAX_REDIRECTS \<and> is_same_host c url next_url
         \<and> fetch_from c dns server mx local_ok (upgrade_to_https c next_url) (hops + 1) (tr1 @ [Requested url]) = (tr', r)"
      then obtain next_url where go: "hops + 1 \<le> MAX_REDIRECTS" "is_same_host c url next_url"
        "fetch_from c dns server mx local_ok (upgrade_to_https c next_url) (hops + 1) (tr @ sent) = (tr', r)"
        using quiet(1) by (auto simp: sent_def)
      let ?next = "upgrade_to_https c next_url"
      have same: "url_host_str c ?next = url_host_str c url" and clear: "not_in_the_clear c ?next"
        using upgrade_not_in_the_clear[OF https, of next_url] go(2) by (auto simp: is_same_host_def)
      have "MAX_REDIRECTS - (hops + 1) < MAX_REDIRECTS - hops" using go(1) by simp
      from less.hyps[OF this go(3) clear go(1)]
      obtain later where later: "tr' = (tr @ sent) @ later" "requests_fine c local_ok ?next (MAX_REDIRECTS + 1 - (hops + 1)) (tr @ sent) later"
        by blast
      have "requests_fine c local_ok url (MAX_REDIRECTS + 1 - hops) tr (sent @ later)"
        using later(2) requests_checked_append[OF checked] count own less.prems(2) same go(1)
        by (auto simp: requests_fine_def)
      then show ?thesis using later(1) by auto
    qed
  qed
qed

subsection \<open>A fetch\<close>

lemma save_download_trace:
  "save_download io s dir_name session ext body message url content_type status = (s', r) \<Longrightarrow>
   \<exists>new. ws_trace s' = ws_trace s @ new \<and> list_all (\<lambda>ev. \<not> is_request ev) new"
  by (auto simp: save_download_def split: option.splits sum.splits)

lemma deliver_content_trace:
  assumes "deliver_content io p s url_str session tools body content_type final_url status = (s', r)"
  shows "\<exists>new. ws_trace s' = ws_trace s @ new \<and> list_all (\<lambda>ev. \<not> is_request ev) new"
  using assms
  by (auto simp: deliver_content_def process_text_content_def Let_def split: if_splits option.splits dest: save_download_trace)

lemma get_or_rebuild_trace: "get_or_rebuild io s = (s', e) \<Longrightarrow> ws_trace s' = ws_trace s"
  by (auto simp: get_or_rebuild_def split: if_splits option.splits)

text \<open>Which URL a fetch is about.\<close>

lemma web_fetch_cases:
  assumes "web_fetch c io p s raw session tools = (s', r)" "validate_url c raw = Inr u" "url = upgrade_to_https c u"
  shows "ws_trace s' = ws_trace s
    \<or> (\<exists>tr1 e. check_ssrf c (web_dns io) (allow_local p) url (ws_trace s) = (tr1, e) \<and>
         (ws_trace s' = tr1
          \<or> e = None \<and> (\<exists>tr2 fetched quiet. fetch_url c (web_dns io) (web_server io) (max_content_length p) (allow_local p) url tr1 = (tr2, fetched)
               \<and> ws_trace s' = tr2 @ quiet \<and> list_all (\<lambda>ev. \<not> is_request ev) quiet)))"
proof (cases "cache_get (web_clock io (ws_trace s)) (ws_cache s) (url_string c url)")
  case (Some out)
  then show ?thesis using assms by (simp add: web_fetch_def Let_def)
next
  case None
  obtain tr1 e where check: "check_ssrf c (web_dns io) (allow_local p) url (ws_trace s) = (tr1, e)" by fastforce
  note run = assms(1)[unfolded web_fetch_def assms(2) sum.case Let_def assms(3)[symmetric] None option.case check prod.case]
  have "ws_trace s' = tr1
      \<or> e = None \<and> (\<exists>tr2 fetched quiet. fetch_url c (web_dns io) (web_server io) (max_content_length p) (allow_local p) url tr1 = (tr2, fetched)
           \<and> ws_trace s' = tr2 @ quiet \<and> list_all (\<lambda>ev. \<not> is_request ev) quiet)"
  proof (cases e)
    case e: None
    obtain s1 x where built: "get_or_rebuild io (s\<lparr>ws_trace := tr1\<rparr>) = (s1, x)" by fastforce
    then have tr: "ws_trace s1 = tr1" using get_or_rebuild_trace by fastforce
    note run = run[unfolded e option.case built prod.case tr]
    show ?thesis
    proof (cases x)
      case x: None
      obtain tr2 fetched where f: "fetch_url c (web_dns io) (web_server io) (max_content_length p) (allow_local p) url tr1 = (tr2, fetched)"
        by fastforce
      have "\<exists>quiet. ws_trace s' = tr2 @ quiet \<and> list_all (\<lambda>ev. \<not> is_request ev) quiet"
        using run[unfolded x option.case f prod.case]
        by (auto simp: invalidate_def split: sum.splits web_fetch_error.splits fetch_result.splits dest: deliver_content_trace)
      then show ?thesis using e f by blast
    qed (use run tr in auto)
  qed (use run in auto)
  then show ?thesis using check by blast
qed

text \<open>C35: whatever resolver and servers do, at any time, every request that a fetch sends directly follows a check of its own host
  that found no blocked address; at most eleven are sent, all to the host of the URL that was asked for, and none in plain HTTP
  unless that is an explicit local host.
\<close>

theorem requests_follow_their_check:
  assumes "https_can_be_set c" "web_fetch c io p s raw session tools = (s', r)"
  shows "\<exists>new. ws_trace s' = ws_trace s @ new
    \<and> requests_checked c (allow_local p) (ws_trace s) new
    \<and> length (filter is_request new) \<le> MAX_REDIRECTS + 1
    \<and> list_all (\<lambda>ev. case ev of
          Requested u \<Rightarrow> not_in_the_clear c u
            \<and> (case url_parse c raw of Inr asked \<Rightarrow> url_host_str c u = url_host_str c asked | Inl _ \<Rightarrow> False)
        | _ \<Rightarrow> True) new"
proof (cases "validate_url c raw")
  case (Inl e)
  then have "ws_trace s' = ws_trace s" using assms(2) by (simp add: web_fetch_def)
  then show ?thesis by (intro exI[of _ "[]"]) (simp add: requests_checked_def)
next
  case (Inr u)
  then have parsed: "url_parse c raw = Inr u"
    by (auto simp: validate_url_def split: if_splits sum.splits option.splits)
  define url where "url = upgrade_to_https c u"
  have host: "url_host_str c url = url_host_str c u" and clear: "not_in_the_clear c url"
    using upgrade_not_in_the_clear[OF assms(1), of u] by (simp_all add: url_def)
  have "\<exists>new. ws_trace s' = ws_trace s @ new \<and> requests_fine c (allow_local p) url (MAX_REDIRECTS + 1) (ws_trace s) new"
    using web_fetch_cases[OF assms(2) Inr url_def]
  proof (elim disjE exE conjE)
    assume "ws_trace s' = ws_trace s"
    then show ?thesis by (intro exI[of _ "[]"]) (simp add: requests_fine_def requests_checked_def)
  next
    fix tr1 e
    assume "check_ssrf c (web_dns io) (allow_local p) url (ws_trace s) = (tr1, e)" "ws_trace s' = tr1"
    then show ?thesis using check_ssrf_trace(1) requests_fine_quiet by (metis (no_types, lifting))
  next
    fix tr1 e tr2 fetched quiet
    assume check: "check_ssrf c (web_dns io) (allow_local p) url (ws_trace s) = (tr1, e)"
      and run: "fetch_url c (web_dns io) (web_server io) (max_content_length p) (allow_local p) url tr1 = (tr2, fetched)"
      and after: "ws_trace s' = tr2 @ quiet" "list_all (\<lambda>ev. \<not> is_request ev) quiet"
    obtain a where a: "tr1 = ws_trace s @ a" "list_all (\<lambda>ev. \<not> is_request ev) a" using check_ssrf_trace(1)[OF check] by blast
    obtain b where b: "tr2 = tr1 @ b" "requests_fine c (allow_local p) url (MAX_REDIRECTS + 1 - 0) tr1 b"
      using fetch_from_trace[OF assms(1) run[unfolded fetch_url_def] clear] by blast
    have "requests_checked c (allow_local p) (ws_trace s) (a @ b @ quiet)"
      using b a requests_checked_quiet[OF after(2)] requests_checked_quiet[OF a(2)]
      by (intro requests_checked_append) (auto simp: requests_fine_def)
    then have "requests_fine c (allow_local p) url (MAX_REDIRECTS + 1) (ws_trace s) (a @ b @ quiet)"
      using a(2) after(2) b(2) by (auto simp: requests_fine_def list_all_iff filter_empty_conv)
    then show ?thesis using a(1) b(1) after(1) by auto
  qed
  then show ?thesis
    using parsed host by (fastforce simp: requests_fine_def list_all_iff split: web_event.split)
qed

subsection \<open>Literal addresses\<close>

text \<open>A URL whose host is an internal IPv4 address leads nowhere: nothing is resolved and nothing is sent.\<close>

lemma internal_literal_is_refused:
  assumes "https_can_be_set c" "web_fetch c io p s raw session tools = (s', r)"
    and "url_parse c raw = Inr u" "url_host_str c u = Some (show_ipv4 a)"
    and "in_ranges NON_PUBLIC_RANGES (unat a)" "\<not> allow_local p"
  shows "ws_trace s' = ws_trace s"
proof (cases "validate_url c raw")
  case (Inl e)
  then show ?thesis using assms(2) by (simp add: web_fetch_def)
next
  case (Inr v)
  then have "v = u" using assms(3) by (auto simp: validate_url_def split: if_splits sum.splits option.splits)
  then have v: "url_host_str c (upgrade_to_https c v) = Some (show_ipv4 a)"
    using upgrade_not_in_the_clear(2)[OF assms(1), of v] assms(4) by simp
  have "is_non_public_ip (V4 a)" using assms(5) non_public_ranges by blast
  then have "check_ssrf c (web_dns io) (allow_local p) (upgrade_to_https c v) (ws_trace s)
      = (ws_trace s, Some (SsrfBlocked (show_ipv4 a) (V4 a)))"
    using v assms(6) by (simp add: check_ssrf_def parse_show_ipv4 is_blocked_for_host_def)
  then show ?thesis using web_fetch_cases[OF assms(2) Inr refl] by auto
qed

subsection \<open>A small world\<close>

text \<open>URLs of the form \<open>scheme://user@host/path\<close>, with a user or without.\<close>

record small_url =
  su_scheme :: string
  su_user :: string
  su_host :: string
  su_path :: string

definition small_rest :: "string \<Rightarrow> string \<Rightarrow> string + small_url" where
  "small_rest scheme r =
     (let authority = takeWhile (\<lambda>c. c \<noteq> CHR ''/'') r; path = dropWhile (\<lambda>c. c \<noteq> CHR ''/'') r in
      case split_once authority CHR ''@'' of
        None \<Rightarrow> Inr \<lparr>su_scheme = scheme, su_user = [], su_host = authority, su_path = path\<rparr>
      | Some (user, hst) \<Rightarrow> Inr \<lparr>su_scheme = scheme, su_user = user, su_host = hst, su_path = path\<rparr>)"

definition small_parse :: "string \<Rightarrow> string + small_url" where
  "small_parse s =
     (case strip_prefix s ''https://'' of
        Some r \<Rightarrow> small_rest ''https'' r
      | None \<Rightarrow> (case strip_prefix s ''http://'' of Some r \<Rightarrow> small_rest ''http'' r | None \<Rightarrow> Inl ''relative URL without a base''))"

definition small_crate :: "small_url url_crate" where
  "small_crate =
     \<lparr>url_parse = small_parse, url_scheme = su_scheme, url_username = su_user, url_password = \<lambda>_. None,
      url_host_str = \<lambda>u. Some (su_host u), url_port_or_known_default = \<lambda>_. None,
      url_set_scheme = \<lambda>u s. Some (u\<lparr>su_scheme := s\<rparr>),
      url_join = \<lambda>u r. if starts_with r ''/'' then Inr (u\<lparr>su_path := r\<rparr>) else small_parse r,
      url_string = \<lambda>u. su_scheme u @ ''://'' @ su_host u @ su_path u\<rparr>"

text \<open>Every name resolves to one public address; the server answers with redirects first and then closes the connection.\<close>

definition redirect_to :: "string \<Rightarrow> http_response" where
  "redirect_to location =
     \<lparr>resp_status = 301, resp_location = Some (Some location), resp_content_type = None, resp_url = [], resp_body = Inr []\<rparr>"

definition small_io :: "string \<Rightarrow> small_url web_io" where
  "small_io location =
     \<lparr>web_dns = \<lambda>_ _ _. Inr [V4 0x5DB8D822],
      web_server = \<lambda>tr _. if list_ex is_request tr then Inl ''connection closed'' else Inr (redirect_to location),
      web_clock = \<lambda>_. 0, build_failure = \<lambda>_. None, save_media = \<lambda>_ _ _ _ _. Inl [],
      artifact_failures_at = \<lambda>_. no_artifact_failures, html_to_markdown = id, is_json_text = \<lambda>_. False,
      query_tools_found = \<lparr>qt_jq = None, qt_python = None, qt_sed = None, qt_cut = None\<rparr>\<rparr>"

definition small_params :: web_fetch_params where
  "small_params = \<lparr>wp_cache_ttl_secs = None, wp_max_cache_entries = None, wp_max_content_length = None,
     wp_max_markdown_length = None, wp_context_window_tokens = None, wp_allow_local = None\<rparr>"

definition fresh_state :: "small_url web_state" where
  "fresh_state = \<lparr>ws_cache = fetch_cache_new 900 128, ws_http_built = False,
     ws_artifacts = \<lambda>_. \<lparr>art_entries = [], art_allocation = []\<rparr>, ws_trace = []\<rparr>"

definition docs_url :: "string \<Rightarrow> small_url" where
  "docs_url path = \<lparr>su_scheme = ''https'', su_user = [], su_host = ''docs.rs'', su_path = path\<rparr>"

definition docs_resolved :: "small_url web_event" where
  "docs_resolved = Resolved ''docs.rs'' 443 (Inr [V4 0x5DB8D822])"

lemma small_https: "https_can_be_set small_crate"
  by (simp add: https_can_be_set_def small_crate_def)

lemma docs_address: "\<not> is_blocked_for_host (V4 0x5DB8D822) hst ok"
  by (simp add: is_blocked_for_host_def non_public_ranges in_ranges_def NON_PUBLIC_RANGES_def dotted_def)

lemma docs_name: "parse_ip ''docs.rs'' = None"
proof -
  have n10: "read_number 10 3 False 256 ''docs.rs'' = None"
    by (simp add: read_number_def digit_value_def byte_def)
  have n16: "read_number 16 4 True 65536 ''docs.rs'' = Some (13, ''ocs.rs'')"
    by (simp add: read_number_def digit_value_def byte_def)
  have four: "read_ipv4_addr s = read_octets (Suc 3) 0 s" for s by (simp add: read_ipv4_addr_def eval_nat_numeral)
  have v4: "read_ipv4_addr ''docs.rs'' = None"
    unfolding four read_octets.simps(2) read_separator_def by (simp add: n10)
  have "read_groups (Suc 6) 1 ''ocs.rs'' = ([], False, ''ocs.rs'')"
    unfolding read_groups.simps(2) by (simp add: read_separator_def)
  then have "read_groups 7 1 ''ocs.rs'' = ([], False, ''ocs.rs'')" by simp
  then have "read_groups (Suc 7) 0 ''docs.rs'' = ([13], False, ''ocs.rs'')"
    unfolding read_groups.simps(2) by (simp add: read_separator_def v4 n16)
  then have "read_groups 8 0 ''docs.rs'' = ([13], False, ''ocs.rs'')" by simp
  then show ?thesis by (simp add: parse_ip_def v4 read_ipv6_addr_def strip_prefix_def starts_with_def)
qed

lemma docs_check:
  "su_host u = ''docs.rs'' \<Longrightarrow>
   check_ssrf small_crate (web_dns (small_io location)) ok u tr = (tr @ [docs_resolved], None)"
  by (simp add: check_ssrf_def small_crate_def small_io_def docs_name docs_address docs_resolved_def)

text \<open>A redirect to the same host is followed, whatever else its target says.\<close>

lemma docs_redirected:
  assumes "small_rest ''https'' (drop 8 raw) = Inr first_url" "starts_with raw ''https://''" "length raw \<le> 2000"
    and "su_scheme first_url = ''https''" "su_user first_url = []" "su_host first_url = ''docs.rs''"
    and "url_join small_crate first_url location = Inr next_url" "su_host next_url = ''docs.rs''"
    and "upgrade_to_https small_crate next_url = next_url"
  shows "ws_trace (fst (web_fetch small_crate (small_io location) small_params fresh_state raw None tools))
    = [docs_resolved, docs_resolved, Requested first_url, docs_resolved, Requested next_url]"
proof -
  let ?io = "small_io location"
  have parse: "url_parse small_crate raw = Inr first_url"
    using assms(1,2) by (simp add: small_crate_def small_parse_def strip_prefix_def numeral_eq_Suc)
  have valid: "validate_url small_crate raw = Inr first_url"
  proof -
    have "length (split_on (\<lambda>ch. ch = CHR ''.'') ''docs.rs'') = 2" by simp
    then show ?thesis using assms(3-6) parse by (simp add: validate_url_def MAX_URL_LENGTH_def small_crate_def)
  qed
  have up: "upgrade_to_https small_crate first_url = first_url"
    using assms(4) by (simp add: upgrade_to_https_def small_crate_def)
  let ?sent = "[docs_resolved, docs_resolved, Requested first_url]"
  have server: "web_server ?io [docs_resolved, docs_resolved] first_url = Inr (redirect_to location)"
    "web_server ?io (?sent @ [docs_resolved]) next_url = Inl ''connection closed''"
    by (simp_all add: small_io_def docs_resolved_def)
  have same: "is_same_host small_crate first_url next_url" using assms(6,8) by (simp add: is_same_host_def small_crate_def)
  have redirect: "is_redirection (resp_status (redirect_to location))" "resp_location (redirect_to location) = Some (Some location)"
    by (simp_all add: redirect_to_def is_redirection_def)
  note check = docs_check[of _ location, OF assms(6)] docs_check[of _ location, OF assms(8)]
  have first_round: "fetch_from small_crate (web_dns ?io) (web_server ?io) mx ok first_url 0 [docs_resolved]
      = fetch_from small_crate (web_dns ?io) (web_server ?io) mx ok next_url 1 ?sent" for mx ok
    by (subst fetch_from.simps) (simp add: check server redirect same assms(7,9) MAX_REDIRECTS_def header_text_def)
  have second_round: "fetch_from small_crate (web_dns ?io) (web_server ?io) mx ok next_url 1 ?sent
      = (?sent @ [docs_resolved, Requested next_url], Inl (HttpRequest ''connection closed''))" for mx ok
    using server(2) by (subst fetch_from.simps) (simp add: check)
  have "fetch_url small_crate (web_dns ?io) (web_server ?io) mx ok first_url [docs_resolved]
      = (?sent @ [docs_resolved, Requested next_url], Inl (HttpRequest ''connection closed''))" for mx ok
    by (simp only: fetch_url_def first_round second_round)
  then show ?thesis
    by (simp add: web_fetch_def valid up Let_def fresh_state_def cache_get_def fetch_cache_new_def check get_or_rebuild_def invalidate_def
        small_io_def[of location, THEN arg_cong[of _ _ build_failure], simplified])
qed

definition no_tools :: recovery_tools where "no_tools = \<lparr>read_tool = None, execute_tool = None\<rparr>"

definition small_fetch :: "string \<Rightarrow> string \<Rightarrow> small_url web_event list" where
  "small_fetch raw location =
     ws_trace (fst (web_fetch small_crate (small_io location) small_params fresh_state raw None no_tools))"

lemma small_fetch_redirected:
  assumes "small_rest ''https'' (''docs.rs'' @ path) = Inr (docs_url path)" "length path \<le> 1000"
    and "url_join small_crate (docs_url path) location = Inr next_url" "su_host next_url = ''docs.rs''" "su_scheme next_url = ''https''"
  shows "small_fetch (''https://docs.rs'' @ path) location
    = [docs_resolved, docs_resolved, Requested (docs_url path), docs_resolved, Requested next_url]"
  unfolding small_fetch_def
  by (rule docs_redirected) (use assms in \<open>simp_all add: docs_url_def upgrade_to_https_def small_crate_def\<close>)

theorem requests_follow_their_check_witness:
  "small_fetch ''https://docs.rs/a'' ''/b''
     = [docs_resolved, docs_resolved, Requested (docs_url ''/a''), docs_resolved, Requested (docs_url ''/b'')]
   \<and> requests_checked small_crate (allow_local small_params) [] (small_fetch ''https://docs.rs/a'' ''/b'')"
proof
  show trace: "small_fetch ''https://docs.rs/a'' ''/b''
      = [docs_resolved, docs_resolved, Requested (docs_url ''/a''), docs_resolved, Requested (docs_url ''/b'')]"
    using small_fetch_redirected[of "''/a''" "''/b''" "docs_url ''/b''"]
    by (simp add: docs_url_def small_rest_def small_crate_def)
  obtain s' r where run: "web_fetch small_crate (small_io ''/b'') small_params fresh_state ''https://docs.rs/a'' None no_tools = (s', r)"
    by fastforce
  then show "requests_checked small_crate (allow_local small_params) [] (small_fetch ''https://docs.rs/a'' ''/b'')"
    using requests_follow_their_check[OF small_https run] by (auto simp: small_fetch_def fresh_state_def)
qed

section \<open>Web shortfalls\<close>

text \<open>
  What is not globally routable counts as local, says the guard; addresses that embed an internal IPv4 address, by the old
  compatible form, by NAT64 or by 6to4, and the site-local and documentation ranges pass.
\<close>

lemma embedded_addresses_pass:
  "\<not> is_non_public_ip (V6 0x7F000001)"
  "\<not> is_non_public_ip (V6 0x0064FF9B00000000000000007F000001)"
  "\<not> is_non_public_ip (V6 0x20027F00000100000000000000000000)"
  "\<not> is_non_public_ip (V6 0xFEC00000000000000000000000000001)"
  "\<not> is_non_public_ip (V6 0x20010DB8000000000000000000000001)"
  by (simp_all add: non_public_ranges NON_PUBLIC_V6_def has_first_bits_def)

text \<open>URLs with credentials are refused, but not when they come as a redirect of the same host.\<close>

lemma redirect_credentials_are_sent:
  "small_fetch ''https://docs.rs/a'' ''https://user@docs.rs/b''
     = [docs_resolved, docs_resolved, Requested (docs_url ''/a''), docs_resolved, Requested (docs_url ''/b'' \<lparr>su_user := ''user''\<rparr>)]"
  "validate_url small_crate ''https://user@docs.rs/b'' = Inl CredentialsInUrl"
proof -
  show "small_fetch ''https://docs.rs/a'' ''https://user@docs.rs/b''
     = [docs_resolved, docs_resolved, Requested (docs_url ''/a''), docs_resolved, Requested (docs_url ''/b'' \<lparr>su_user := ''user''\<rparr>)]"
    using small_fetch_redirected[of "''/a''" "''https://user@docs.rs/b''" "docs_url ''/b'' \<lparr>su_user := ''user''\<rparr>"]
    by (simp add: docs_url_def small_rest_def small_crate_def small_parse_def strip_prefix_def)
  show "validate_url small_crate ''https://user@docs.rs/b'' = Inl CredentialsInUrl"
    by (simp add: validate_url_def MAX_URL_LENGTH_def small_crate_def small_parse_def strip_prefix_def small_rest_def)
qed

text \<open>
  An entry of the allowlist may be limited to a path; a redirect of the same host leaves the path and is not compared with the
  list again.
\<close>

lemma redirect_leaves_the_allowed_path:
  "domain_matcher_permits demo_host (domain_matcher_new demo_host [''docs.rs/a'']) ''https://docs.rs/a''"
  "\<not> domain_matcher_permits demo_host (domain_matcher_new demo_host [''docs.rs/a'']) ''https://docs.rs/b''"
  "Requested (docs_url ''/b'') \<in> set (small_fetch ''https://docs.rs/a'' ''/b'')"
proof -
  show "domain_matcher_permits demo_host (domain_matcher_new demo_host [''docs.rs/a'']) ''https://docs.rs/a''"
    "\<not> domain_matcher_permits demo_host (domain_matcher_new demo_host [''docs.rs/a'']) ''https://docs.rs/b''"
    by code_simp+
  show "Requested (docs_url ''/b'') \<in> set (small_fetch ''https://docs.rs/a'' ''/b'')"
    using small_fetch_redirected[of "''/a''" "''/b''" "docs_url ''/b''"] by (simp add: docs_url_def small_rest_def small_crate_def)
qed

text \<open>The prefix \<open>www.\<close> is removed before the text is put into lower case, so an entry in capitals never matches.\<close>

lemma capital_www_is_kept:
  "normalize_domain demo_host ''WWW.docs.rs'' = ''www.docs.rs''" "normalize_domain demo_host ''www.docs.rs'' = ''docs.rs''"
  "\<not> domain_matcher_permits demo_host (domain_matcher_new demo_host [''WWW.docs.rs'']) ''https://www.docs.rs/a''"
  by code_simp+

text \<open>
  Content types are compared without regard to case, except for HTML and PDF: in capitals HTML is not converted and a PDF is refused
  as binary.
\<close>

lemma capital_types_are_missed:
  "\<not> is_html ''Text/HTML''" "\<not> is_binary_content_type ''Text/HTML''"
  "\<not> is_pdf ''application/PDF''" "is_binary_content_type ''application/PDF''" "is_image ''IMAGE/PNG''"
  by code_simp+

text \<open>
  The overflow handler knows JSON Lines and types with the suffix \<open>+json\<close>, but bodies of these types are refused as binary before.
\<close>

lemma json_lines_are_refused:
  "is_binary_content_type ''application/x-ndjson''" "pc_format (classify (\<lambda>_. False) ''application/x-ndjson'' []) = PJsonLines"
  "is_binary_content_type ''application/problem+json''" "pc_format (classify (\<lambda>_. False) ''application/problem+json'' []) = PJson"
  by code_simp+

text \<open>A cache that may hold no page holds one, and inserting a page again into a full cache drops another.\<close>

definition page :: "string \<Rightarrow> web_fetch_output" where
  "page text = CrossHostRedirect text []"

lemma empty_cache_holds_a_page:
  "cache_get 1 (insert_text 0 (fetch_cache_new 10 0) ''u'' (page ''a'') False) ''u'' = Some (page ''a'')"
  by code_simp

lemma refresh_drops_another_page:
  "(let c = insert_text 1 (insert_text 0 (fetch_cache_new 10 2) ''u'' (page ''a'') False) ''v'' (page ''b'') False;
        c' = insert_text 2 c ''v'' (page ''b'') False in
    (cache_get 2 c ''u'' = Some (page ''a''), cache_get 2 c' ''u'')) = (True, None)"
  by code_simp

end
