(* ===== verification/Session_Files.thy ===== *)
theory Session_Files
  imports Web_Artifacts
begin

text \<open>
  Numbered files of a session, saved by tasks that share a counter
  (\<open>src/crates/codegen/xai-grok-tools/src/implementations/grok_build/storage.rs\<close>): every access to an atomic, to the directory and
  to the disk is a step, and the steps of different calls interleave.
\<close>

definition IMAGE_MAX_BYTES :: nat where "IMAGE_MAX_BYTES = 1024 * 1024 * 1024"
definition VIDEO_MAX_BYTES :: nat where "VIDEO_MAX_BYTES = 2 * 1024 * 1024 * 1024"
definition DEFAULT_MAX_BYTES :: nat where "DEFAULT_MAX_BYTES = 1024 * 1024 * 1024"

definition budget_for :: "string \<Rightarrow> nat" where
  "budget_for dir_name =
     (if dir_name = ''images'' then IMAGE_MAX_BYTES else if dir_name = ''videos'' then VIDEO_MAX_BYTES else DEFAULT_MAX_BYTES)"

text \<open>The atomics of a writer, which wrap around, and the files of its directory.\<close>

record session_writer =
  sw_dir_name :: string
  sw_ext :: string
  sw_counter :: nat
  sw_bytes_written :: nat

definition session_writer_new :: "string \<Rightarrow> string \<Rightarrow> session_writer" where
  "session_writer_new dir_name ext = \<lparr>sw_dir_name = dir_name, sw_ext = ext, sw_counter = 0, sw_bytes_written = 0\<rparr>"

definition add_u32 :: "nat \<Rightarrow> nat \<Rightarrow> nat" where "add_u32 a b = (a + b) mod 2 ^ 32"
definition sub_u32 :: "nat \<Rightarrow> nat \<Rightarrow> nat" where "sub_u32 a b = (a + 2 ^ 32 - b) mod 2 ^ 32"
definition add_u64 :: "nat \<Rightarrow> nat \<Rightarrow> nat" where "add_u64 a b = (a + b) mod 2 ^ 64"
definition sub_u64 :: "nat \<Rightarrow> nat \<Rightarrow> nat" where "sub_u64 a b = (a + 2 ^ 64 - b) mod 2 ^ 64"

type_synonym session_dir = "(string \<times> string option) list"

definition scan_dir_stats :: "session_dir \<Rightarrow> nat \<times> nat" where
  "scan_dir_stats es = (greatest_number (kept_entries es), total_bytes (kept_entries es))"

text \<open>A file that is renamed into place replaces one of its name.\<close>

definition persist_file :: "string \<Rightarrow> string \<Rightarrow> session_dir \<Rightarrow> session_dir" where
  "persist_file name data es = filter (\<lambda>(n, _). n \<noteq> name) es @ [(name, Some data)]"

text \<open>A call with its failures, and where it stands.\<close>

record save_call =
  sc_data :: string
  sc_ext :: "string option"
  sc_scan_fails :: bool
  sc_write_fails :: bool

datatype save_pc =
    LoadCounter
  | Scan
  | ResumeCounter "nat \<times> nat"
  | ResumeBytes nat
  | TakeNumber
  | AddBytes nat
  | RefuseBytes
  | RefuseNumber
  | StoreFile nat
  | UndoNumber
  | UndoBytes
  | SavedFile string
  | SaveRefused

definition save_size :: "save_call \<Rightarrow> nat" where "save_size c = length (sc_data c)"

definition save_name :: "session_writer \<Rightarrow> save_call \<Rightarrow> nat \<Rightarrow> string" where
  "save_name w c n = artifact_name n (case sc_ext c of Some e \<Rightarrow> e | None \<Rightarrow> sw_ext w)"

fun save_step :: "save_call \<Rightarrow> save_pc \<Rightarrow> session_writer \<times> session_dir \<Rightarrow> save_pc \<times> session_writer \<times> session_dir" where
  "save_step c LoadCounter (w, d) = (if sw_counter w = 0 then Scan else TakeNumber, w, d)"
| "save_step c Scan (w, d) =
     (if sc_scan_fails c then (TakeNumber, w, d) else (ResumeCounter (scan_dir_stats d), w, kept_entries d))"
| "save_step c (ResumeCounter (max_n, stored)) (w, d) =
     (if sw_counter w = 0 then (ResumeBytes stored, w\<lparr>sw_counter := max_n\<rparr>, d) else (TakeNumber, w, d))"
| "save_step c (ResumeBytes stored) (w, d) = (TakeNumber, w\<lparr>sw_bytes_written := add_u64 (sw_bytes_written w) stored\<rparr>, d)"
| "save_step c TakeNumber (w, d) =
     (AddBytes (add_u32 (sw_counter w) 1), w\<lparr>sw_counter := add_u32 (sw_counter w) 1\<rparr>, d)"
| "save_step c (AddBytes n) (w, d) =
     (let new_total = add_u64 (sw_bytes_written w) (save_size c) in
      (if new_total > budget_for (sw_dir_name w) then RefuseBytes else StoreFile n, w\<lparr>sw_bytes_written := new_total\<rparr>, d))"
| "save_step c RefuseBytes (w, d) =
     (RefuseNumber, w\<lparr>sw_bytes_written := sub_u64 (sw_bytes_written w) (save_size c)\<rparr>, d)"
| "save_step c RefuseNumber (w, d) = (SaveRefused, w\<lparr>sw_counter := sub_u32 (sw_counter w) 1\<rparr>, d)"
| "save_step c (StoreFile n) (w, d) =
     (if sc_write_fails c then (UndoNumber, w, d)
      else (SavedFile (save_name w c n), w, persist_file (save_name w c n) (sc_data c) d))"
| "save_step c UndoNumber (w, d) = (UndoBytes, w\<lparr>sw_counter := sub_u32 (sw_counter w) 1\<rparr>, d)"
| "save_step c UndoBytes (w, d) =
     (SaveRefused, w\<lparr>sw_bytes_written := sub_u64 (sw_bytes_written w) (save_size c)\<rparr>, d)"
| "save_step c (SavedFile name) (w, d) = (SavedFile name, w, d)"
| "save_step c SaveRefused (w, d) = (SaveRefused, w, d)"

text \<open>Calls of one writer under a schedule, which says whose turn it is.\<close>

record save_state =
  ss_writer :: session_writer
  ss_dir :: session_dir
  ss_pcs :: "save_pc list"

definition turn :: "save_call list \<Rightarrow> save_state \<Rightarrow> nat \<Rightarrow> save_state" where
  "turn calls s i =
     (if i < length calls
      then (case save_step (calls ! i) (ss_pcs s ! i) (ss_writer s, ss_dir s) of
              (pc, w, d) \<Rightarrow> \<lparr>ss_writer = w, ss_dir = d, ss_pcs = (ss_pcs s)[i := pc]\<rparr>)
      else s)"

definition start_saves :: "session_writer \<Rightarrow> session_dir \<Rightarrow> save_call list \<Rightarrow> save_state" where
  "start_saves w d calls = \<lparr>ss_writer = w, ss_dir = d, ss_pcs = map (\<lambda>_. LoadCounter) calls\<rparr>"

definition run_saves :: "save_call list \<Rightarrow> nat list \<Rightarrow> save_state \<Rightarrow> save_state" where
  "run_saves calls schedule s = foldl (turn calls) s schedule"

subsection \<open>Calls that succeed do not get in each other's way\<close>

fun pc_refused :: "save_pc \<Rightarrow> bool" where
  "pc_refused RefuseBytes \<longleftrightarrow> True"
| "pc_refused RefuseNumber \<longleftrightarrow> True"
| "pc_refused UndoNumber \<longleftrightarrow> True"
| "pc_refused UndoBytes \<longleftrightarrow> True"
| "pc_refused SaveRefused \<longleftrightarrow> True"
| "pc_refused _ \<longleftrightarrow> False"

fun pc_number :: "save_pc \<Rightarrow> nat option" where
  "pc_number (AddBytes n) = Some n"
| "pc_number (StoreFile n) = Some n"
| "pc_number (SavedFile name) = Some (stem_number name)"
| "pc_number _ = None"

definition numbered_calls :: "save_state \<Rightarrow> nat" where
  "numbered_calls s = length (filter (\<lambda>pc. pc_number pc \<noteq> None) (ss_pcs s))"

fun pc_ready :: "nat \<Rightarrow> save_pc \<Rightarrow> bool" where
  "pc_ready base (ResumeCounter (m, _)) \<longleftrightarrow> m = base"
| "pc_ready base (ResumeBytes _) \<longleftrightarrow> base = 0"
| "pc_ready base TakeNumber \<longleftrightarrow> base = 0"
| "pc_ready base _ \<longleftrightarrow> True"

text \<open>
  The counter is the greatest number found plus the numbers taken; numbers lie between the two and no two calls have the same; what
  was saved is in the directory, and so is what was there before.
\<close>

definition saves_apart :: "save_call list \<Rightarrow> session_dir \<Rightarrow> save_state \<Rightarrow> bool" where
  "saves_apart calls d0 s \<longleftrightarrow>
     (let base = greatest_number (kept_entries d0); counter = sw_counter (ss_writer s); pcs = ss_pcs s in
      length pcs = length calls
      \<and> (counter = 0 \<longrightarrow> numbered_calls s = 0 \<and> greatest_number (kept_entries (ss_dir s)) = base
           \<and> (\<forall>j < length calls. pc_ready base (pcs ! j)))
      \<and> (counter \<noteq> 0 \<longrightarrow> counter = base + numbered_calls s)
      \<and> (\<forall>j < length calls. \<forall>n. pc_number (pcs ! j) = Some n \<longrightarrow> base < n \<and> n \<le> counter)
      \<and> (\<forall>j < length calls. \<forall>k < length calls. j \<noteq> k \<longrightarrow> pc_number (pcs ! j) \<noteq> None \<longrightarrow> pc_number (pcs ! j) \<noteq> pc_number (pcs ! k))
      \<and> (\<forall>j < length calls. \<forall>name. pcs ! j = SavedFile name \<longrightarrow> (name, Some (sc_data (calls ! j))) \<in> set (ss_dir s))
      \<and> set (kept_entries d0) \<subseteq> set (ss_dir s))"

lemma scan_fst: "fst (scan_dir_stats d) = greatest_number (kept_entries d)"
  by (simp add: scan_dir_stats_def)

lemma kept_kept: "kept_entries (kept_entries d) = kept_entries d"
  by (simp add: kept_entries_def)

lemma greatest_number_bound: "e \<in> set es \<Longrightarrow> stem_number (fst e) \<le> greatest_number es"
proof -
  have le: "a \<le> foldl max a xs" for a :: nat and xs
    by (induction xs arbitrary: a) (auto intro: le_trans[OF max.cobounded1])
  have "x \<in> set xs \<Longrightarrow> x \<le> foldl max a xs" for x a :: nat and xs
    by (induction xs arbitrary: a) (auto intro: le_trans[OF max.cobounded2 le])
  then show "e \<in> set es \<Longrightarrow> stem_number (fst e) \<le> greatest_number es"
    by (auto simp: greatest_number_def)
qed

lemma numbered_calls_update:
  "i < length pcs \<Longrightarrow> length (filter P (pcs[i := x])) + (if P (pcs ! i) then 1 else 0) = length (filter P pcs) + (if P x then 1 else 0)"
proof (induction pcs arbitrary: i)
  case (Cons p pcs)
  then show ?case by (cases i) auto
qed simp

lemma temporary_has_no_number: "starts_with name ''.tmp'' \<Longrightarrow> stem_number name = 0"
  by (auto simp: starts_with_iff stem_number_def parse_unsigned_def)

lemma update_apart:
  assumes "saves_apart calls d0 s" "i < length calls" "pc_number x = pc_number (ss_pcs s ! i)"
    and "\<not> (\<exists>name. x = SavedFile name) \<or> x = ss_pcs s ! i"
    and "sw_counter w = sw_counter (ss_writer s)" "sw_counter w = 0 \<Longrightarrow> pc_ready (greatest_number (kept_entries d0)) x"
  shows "saves_apart calls d0 \<lparr>ss_writer = w, ss_dir = ss_dir s, ss_pcs = (ss_pcs s)[i := x]\<rparr>"
proof -
  have "numbered_calls \<lparr>ss_writer = w, ss_dir = ss_dir s, ss_pcs = (ss_pcs s)[i := x]\<rparr> = numbered_calls s"
    using numbered_calls_update[of i "ss_pcs s" "\<lambda>pc. pc_number pc \<noteq> None" x] assms(1-3)
    by (auto simp: numbered_calls_def saves_apart_def Let_def split: if_splits)
  then show ?thesis using assms unfolding saves_apart_def Let_def by (auto simp: nth_list_update)
qed

lemma take_number_apart:
  assumes ap: "saves_apart calls d0 s" and i: "i < length calls" and pc: "ss_pcs s ! i = TakeNumber"
    and room: "greatest_number (kept_entries d0) + length calls < 2 ^ 32"
  shows "saves_apart calls d0 (turn calls s i)"
proof -
  define base where "base = greatest_number (kept_entries d0)"
  define k where "k = sw_counter (ss_writer s)"
  note a = ap[unfolded saves_apart_def Let_def, folded base_def k_def]
  have count: "k = base + numbered_calls s" using a i pc by (cases "k = 0") auto
  have len: "length (ss_pcs s) = length calls" using a by blast
  have up: "numbered_calls (turn calls s i) = numbered_calls s + 1"
    using numbered_calls_update[of i "ss_pcs s" "\<lambda>pc. pc_number pc \<noteq> None" "AddBytes (add_u32 k 1)"] i pc len
    by (simp add: numbered_calls_def turn_def k_def)
  have "numbered_calls (turn calls s i) \<le> length calls"
    using length_filter_le[of "\<lambda>pc. pc_number pc \<noteq> None" "ss_pcs (turn calls s i)"] len i pc
    by (simp add: numbered_calls_def turn_def)
  then have "k + 1 < 2 ^ 32" using up count room by (simp add: base_def)
  then have n: "add_u32 k 1 = k + 1" by (simp add: add_u32_def)
  have t: "turn calls s i = \<lparr>ss_writer = (ss_writer s)\<lparr>sw_counter := k + 1\<rparr>, ss_dir = ss_dir s, ss_pcs = (ss_pcs s)[i := AddBytes (k + 1)]\<rparr>"
    using i pc n by (simp add: turn_def k_def)
  have bound: "m \<le> k" if "j < length calls" "pc_number (ss_pcs s ! j) = Some m" for j m using a that by blast
  have apart: "pc_number (ss_pcs s ! j) \<noteq> Some (Suc k)" "Some (Suc k) \<noteq> pc_number (ss_pcs s ! j)" if "j < length calls" for j
    using bound[OF that] by (force, metis Suc_n_not_le_n bound that)
  have total: "Suc k = base + numbered_calls (turn calls s i)" using count up by simp
  have range: "base < n \<and> n \<le> Suc k" if "j < length calls" "pc_number (ss_pcs s ! j) = Some n" for j n
    using a that by (meson le_SucI)
  have kept: "\<forall>j < length calls. \<forall>l < length calls. j \<noteq> l \<longrightarrow> pc_number (ss_pcs s ! j) \<noteq> None \<longrightarrow> pc_number (ss_pcs s ! j) \<noteq> pc_number (ss_pcs s ! l)"
    "\<forall>j < length calls. \<forall>name. ss_pcs s ! j = SavedFile name \<longrightarrow> (name, Some (sc_data (calls ! j))) \<in> set (ss_dir s)"
    "set (kept_entries d0) \<subseteq> set (ss_dir s)"
    using a by blast+
  have low: "base < Suc k" using count by simp
  show ?thesis
    using len i total kept low unfolding t saves_apart_def Let_def base_def[symmetric]
    by (auto simp: nth_list_update apart dest: range)
qed

lemma scan_apart:
  assumes ap: "saves_apart calls d0 s" and i: "i < length calls" and pc: "ss_pcs s ! i = Scan"
    and ok: "\<not> sc_scan_fails (calls ! i)"
  shows "saves_apart calls d0 (turn calls s i)"
proof -
  let ?s = "s\<lparr>ss_dir := kept_entries (ss_dir s)\<rparr>"
  note a = ap[unfolded saves_apart_def Let_def]
  have "(name, Some (sc_data (calls ! j))) \<in> set (kept_entries (ss_dir s))"
    if "j < length calls" "ss_pcs s ! j = SavedFile name" for j name
  proof -
    have "stem_number name \<noteq> 0" using a that by (metis not_less0 pc_number.simps(3))
    moreover have "(name, Some (sc_data (calls ! j))) \<in> set (ss_dir s)" using a that by blast
    ultimately show ?thesis using temporary_has_no_number by (auto simp: kept_entries_def)
  qed
  moreover have "set (kept_entries d0) \<subseteq> set (kept_entries (ss_dir s))"
    using a by (auto simp: kept_entries_def)
  ultimately have "saves_apart calls d0 ?s"
    using a unfolding saves_apart_def Let_def by (simp add: kept_kept numbered_calls_def)
  then have "saves_apart calls d0 \<lparr>ss_writer = ss_writer s, ss_dir = ss_dir ?s, ss_pcs = (ss_pcs ?s)[i := ResumeCounter (scan_dir_stats (ss_dir s))]\<rparr>"
    by (rule update_apart) (use i pc a in \<open>auto simp: scan_dir_stats_def\<close>)
  then show ?thesis using i pc ok by (simp add: turn_def)
qed

lemma store_apart:
  assumes ap: "saves_apart calls d0 s" and i: "i < length calls" and pc: "ss_pcs s ! i = StoreFile n"
    and ok: "\<not> sc_write_fails (calls ! i)" and room: "greatest_number (kept_entries d0) + length calls < 2 ^ 32"
  shows "saves_apart calls d0 (turn calls s i)"
proof -
  define name where "name = save_name (ss_writer s) (calls ! i) n"
  define d where "d = persist_file name (sc_data (calls ! i)) (ss_dir s)"
  note a = ap[unfolded saves_apart_def Let_def]
  have nums: "pc_number (ss_pcs s ! i) = Some n" using pc by simp
  then have n: "greatest_number (kept_entries d0) < n" "n \<le> sw_counter (ss_writer s)" using a i by blast+
  have "numbered_calls s \<le> length calls"
    using length_filter_le[of "\<lambda>pc. pc_number pc \<noteq> None" "ss_pcs s"] a by (simp add: numbered_calls_def)
  then have "n \<le> U32_MAX" using n a room by (cases "sw_counter (ss_writer s) = 0") (auto simp: U32_MAX_def)
  then have stem: "stem_number name = n" by (simp add: name_def save_name_def stem_artifact_name)
  have others: "e \<in> set d" if "e \<in> set (ss_dir s)" "stem_number (fst e) \<noteq> n" for e
    using that stem by (auto simp: d_def persist_file_def)
  have saved: "(m, Some (sc_data (calls ! j))) \<in> set d" if j: "j < length calls" "ss_pcs s ! j = SavedFile m" "j \<noteq> i" for j m
  proof -
    have "pc_number (ss_pcs s ! j) \<noteq> pc_number (ss_pcs s ! i)" using a i j nums by (metis option.distinct(1))
    then show ?thesis using others a j nums by auto
  qed
  have own: "(name, Some (sc_data (calls ! i))) \<in> set d" by (simp add: d_def persist_file_def)
  have "set (kept_entries d0) \<subseteq> set d"
  proof
    fix e assume e: "e \<in> set (kept_entries d0)"
    then have "stem_number (fst e) \<noteq> n" using greatest_number_bound[OF e] n(1) by linarith
    then show "e \<in> set d" using others e a by blast
  qed
  moreover have "\<forall>j < length calls. \<forall>m. (ss_pcs s)[i := SavedFile name] ! j = SavedFile m \<longrightarrow> (m, Some (sc_data (calls ! j))) \<in> set d"
    using saved own i a by (auto simp: nth_list_update)
  moreover have same: "pc_number ((ss_pcs s)[i := SavedFile name] ! j) = pc_number (ss_pcs s ! j)" for j
    using nums stem i a by (cases "j = i") auto
  moreover have "numbered_calls \<lparr>ss_writer = ss_writer s, ss_dir = d, ss_pcs = (ss_pcs s)[i := SavedFile name]\<rparr> = numbered_calls s"
    using numbered_calls_update[of i "ss_pcs s" "\<lambda>pc. pc_number pc \<noteq> None" "SavedFile name"] i nums a
    by (simp add: numbered_calls_def)
  moreover have "sw_counter (ss_writer s) \<noteq> 0" using n by linarith
  ultimately have "saves_apart calls d0 \<lparr>ss_writer = ss_writer s, ss_dir = d, ss_pcs = (ss_pcs s)[i := SavedFile name]\<rparr>"
    using a unfolding saves_apart_def Let_def by auto
  then show ?thesis using i pc ok by (simp add: turn_def name_def d_def)
qed

lemma other_steps_apart:
  assumes ap: "saves_apart calls d0 s" and i: "i < length calls"
    and pc: "ss_pcs s ! i \<noteq> TakeNumber" "ss_pcs s ! i \<noteq> Scan" "\<nexists>n. ss_pcs s ! i = StoreFile n"
    and ok: "\<not> pc_refused (ss_pcs s ! i)" "\<not> pc_refused (ss_pcs (turn calls s i) ! i)"
  shows "saves_apart calls d0 (turn calls s i)"
proof -
  note a = ap[unfolded saves_apart_def Let_def]
  have len: "length (ss_pcs s) = length calls" using a by blast
  have upd: "saves_apart calls d0 \<lparr>ss_writer = w, ss_dir = ss_dir s, ss_pcs = (ss_pcs s)[i := x]\<rparr>"
    if "pc_number x = pc_number (ss_pcs s ! i)" "\<not> (\<exists>name. x = SavedFile name) \<or> x = ss_pcs s ! i"
      "sw_counter w = sw_counter (ss_writer s)" "sw_counter w = 0 \<Longrightarrow> pc_ready (greatest_number (kept_entries d0)) x" for w x
    by (rule update_apart[OF ap i]) (use that in auto)
  show ?thesis
  proof (cases "ss_pcs s ! i")
    case LoadCounter
    then show ?thesis using i upd[of "if sw_counter (ss_writer s) = 0 then Scan else TakeNumber" "ss_writer s"]
      by (simp add: turn_def split: if_splits)
  next
    case (ResumeCounter r)
    obtain m b where r: "r = (m, b)" by fastforce
    show ?thesis
    proof (cases "sw_counter (ss_writer s) = 0")
      case False
      then show ?thesis using i ResumeCounter r upd[of TakeNumber "ss_writer s"] by (simp add: turn_def)
    next
      case True
      then have m: "m = greatest_number (kept_entries d0)" using a i ResumeCounter r by (metis pc_ready.simps(1))
      let ?w = "(ss_writer s)\<lparr>sw_counter := m\<rparr>"
      have "numbered_calls \<lparr>ss_writer = ?w, ss_dir = ss_dir s, ss_pcs = (ss_pcs s)[i := ResumeBytes b]\<rparr> = numbered_calls s"
        using numbered_calls_update[of i "ss_pcs s" "\<lambda>pc. pc_number pc \<noteq> None" "ResumeBytes b"] i ResumeCounter len
        by (simp add: numbered_calls_def)
      moreover have none: "pc_number (ss_pcs s ! j) = None" if "j < length calls" for j
        using a that True by (metis le_zero_eq not_less0 not_Some_eq)
      ultimately have "saves_apart calls d0 \<lparr>ss_writer = ?w, ss_dir = ss_dir s, ss_pcs = (ss_pcs s)[i := ResumeBytes b]\<rparr>"
        using a True m i unfolding saves_apart_def Let_def by (auto simp: nth_list_update)
      then show ?thesis using i ResumeCounter r True by (simp add: turn_def)
    qed
  next
    case (ResumeBytes b)
    then show ?thesis using i a upd[of TakeNumber "(ss_writer s)\<lparr>sw_bytes_written := add_u64 (sw_bytes_written (ss_writer s)) b\<rparr>"]
      by (simp add: turn_def) (metis pc_ready.simps(2))
  next
    case (AddBytes n)
    then show ?thesis
      using i len ok(2) upd[of "StoreFile n" "(ss_writer s)\<lparr>sw_bytes_written := add_u64 (sw_bytes_written (ss_writer s)) (save_size (calls ! i))\<rparr>"]
      by (simp add: turn_def Let_def split: if_splits)
  next
    case (SavedFile name)
    then show ?thesis using i upd[of "SavedFile name" "ss_writer s"] by (simp add: turn_def)
  qed (use pc ok in auto)
qed

lemma refused_stays: "pc_refused pc \<Longrightarrow> pc_refused (fst (save_step c pc wd))"
  by (cases pc; cases wd) auto

lemma turn_other: "j \<noteq> i \<Longrightarrow> ss_pcs (turn calls s i) ! j = ss_pcs s ! j"
  by (simp add: turn_def split: prod.splits)

lemma turn_refused: "j < length calls \<Longrightarrow> length (ss_pcs s) = length calls \<Longrightarrow> pc_refused (ss_pcs s ! j) \<Longrightarrow> pc_refused (ss_pcs (turn calls s i) ! j)"
  using refused_stays[of "ss_pcs s ! j" "calls ! j" "(ss_writer s, ss_dir s)"]
  by (cases "j = i") (auto simp: turn_other turn_def split: prod.splits)

lemma turn_length [simp]: "length (ss_pcs (turn calls s i)) = length (ss_pcs s)"
  by (simp add: turn_def split: prod.splits)

lemma run_saves_length [simp]: "length (ss_pcs (run_saves calls sched s)) = length (ss_pcs s)"
  by (induction sched arbitrary: s) (simp_all add: run_saves_def)

lemma run_refused:
  "j < length calls \<Longrightarrow> length (ss_pcs s) = length calls \<Longrightarrow> pc_refused (ss_pcs s ! j) \<Longrightarrow> pc_refused (ss_pcs (run_saves calls sched s) ! j)"
  by (induction sched arbitrary: s) (simp_all add: run_saves_def turn_refused)

lemma run_apart:
  assumes "\<forall>c \<in> set calls. \<not> sc_scan_fails c \<and> \<not> sc_write_fails c"
    and "greatest_number (kept_entries d0) + length calls < 2 ^ 32"
  shows "saves_apart calls d0 s \<Longrightarrow> \<forall>j < length calls. \<not> pc_refused (ss_pcs (run_saves calls sched s) ! j) \<Longrightarrow>
    saves_apart calls d0 (run_saves calls sched s)"
proof (induction sched arbitrary: s)
  case (Cons i sched)
  have run: "run_saves calls (i # sched) s = run_saves calls sched (turn calls s i)" by (simp add: run_saves_def)
  have len: "length (ss_pcs s) = length calls" using Cons.prems(1) by (simp add: saves_apart_def Let_def)
  have "saves_apart calls d0 (turn calls s i)"
  proof (cases "i < length calls")
    case True
    then have ok: "\<not> sc_scan_fails (calls ! i)" "\<not> sc_write_fails (calls ! i)" using assms(1) by simp_all
    have "\<not> pc_refused (ss_pcs (turn calls s i) ! i)"
      using Cons.prems(2) run_refused[OF True, of "turn calls s i" sched] len True unfolding run by auto
    moreover from this have "\<not> pc_refused (ss_pcs s ! i)" using turn_refused[OF True len] by blast
    ultimately show ?thesis
      using take_number_apart[OF Cons.prems(1) True _ assms(2)] scan_apart[OF Cons.prems(1) True _ ok(1)]
        store_apart[OF Cons.prems(1) True _ ok(2) assms(2)] other_steps_apart[OF Cons.prems(1) True]
      by blast
  qed (use Cons.prems(1) in \<open>simp add: turn_def\<close>)
  then show ?case using Cons.IH Cons.prems(2) unfolding run by blast
qed (simp add: run_saves_def)

lemma start_apart: "saves_apart calls d0 (start_saves (session_writer_new n e) d0 calls)"
proof -
  have "set (kept_entries d0) \<subseteq> set d0" by (auto simp: kept_entries_def)
  then show ?thesis
    by (simp add: saves_apart_def start_saves_def session_writer_new_def numbered_calls_def filter_empty_conv)
qed

text \<open>C38: whatever the schedule, calls of one writer of which none fails or is refused keep out of each other's way: a file that was
  saved holds its data under a name no other call got, and no file that was there before is lost.
\<close>

theorem saved_files_are_kept:
  assumes "\<forall>c \<in> set calls. \<not> sc_scan_fails c \<and> \<not> sc_write_fails c"
    and "greatest_number (kept_entries d0) + length calls < 2 ^ 32"
    and "s = run_saves calls sched (start_saves (session_writer_new n e) d0 calls)"
    and "\<forall>j < length calls. \<not> pc_refused (ss_pcs s ! j)"
  shows "set (kept_entries d0) \<subseteq> set (ss_dir s)
    \<and> (\<forall>j < length calls. \<forall>name. ss_pcs s ! j = SavedFile name \<longrightarrow>
         (name, Some (sc_data (calls ! j))) \<in> set (ss_dir s) \<and> name \<notin> fst ` set (kept_entries d0)
         \<and> (\<forall>k < length calls. k \<noteq> j \<longrightarrow> ss_pcs s ! k \<noteq> SavedFile name))"
proof -
  have ap: "saves_apart calls d0 s"
    using run_apart[OF assms(1,2) start_apart] assms(3,4) by blast
  note a = ap[unfolded saves_apart_def Let_def]
  have fresh: "name \<notin> fst ` set (kept_entries d0)" if "j < length calls" "ss_pcs s ! j = SavedFile name" for j name
  proof
    assume "name \<in> fst ` set (kept_entries d0)"
    then have "stem_number name \<le> greatest_number (kept_entries d0)" using greatest_number_bound by fastforce
    moreover have "greatest_number (kept_entries d0) < stem_number name" using a that by (metis pc_number.simps(3))
    ultimately show False by simp
  qed
  have own: "ss_pcs s ! k \<noteq> SavedFile name"
    if "j < length calls" "ss_pcs s ! j = SavedFile name" "k < length calls" "k \<noteq> j" for j k name
  proof
    assume k: "ss_pcs s ! k = SavedFile name"
    have "pc_number (ss_pcs s ! j) \<noteq> None \<longrightarrow> pc_number (ss_pcs s ! j) \<noteq> pc_number (ss_pcs s ! k)"
      using a that(1,3,4) by blast
    then show False using that(2) k by simp
  qed
  have "\<forall>j < length calls. \<forall>name. ss_pcs s ! j = SavedFile name \<longrightarrow> (name, Some (sc_data (calls ! j))) \<in> set (ss_dir s)"
    "set (kept_entries d0) \<subseteq> set (ss_dir s)"
    using a by blast+
  then show ?thesis by (auto dest: fresh own)
qed

definition plain_call :: "string \<Rightarrow> save_call" where
  "plain_call data = \<lparr>sc_data = data, sc_ext = None, sc_scan_fails = False, sc_write_fails = False\<rparr>"

lemma small_names:
  "artifact_name 1 ''jpg'' = ''1.jpg''" "artifact_name (Suc 0) ''jpg'' = ''1.jpg''" "artifact_name 2 ''jpg'' = ''2.jpg''"
  "artifact_name (Suc (Suc 0)) ''jpg'' = ''2.jpg''" "artifact_name 5 ''jpg'' = ''5.jpg''" "artifact_name 6 ''jpg'' = ''6.jpg''"
  by code_simp+

lemma small_stems: "stem_number ''1.jpg'' = 1" "stem_number ''2.jpg'' = 2" "stem_number ''4.jpg'' = 4"
  by (simp_all add: stem_number_def parse_unsigned_def U32_MAX_def digits_value_def is_ascii_digit_def byte_def)

lemmas saves_compute = run_saves_def start_saves_def session_writer_new_def turn_def add_u32_def sub_u32_def add_u64_def sub_u64_def
  scan_dir_stats_def greatest_number_def total_bytes_def entry_bytes_def kept_entries_def persist_file_def save_name_def save_size_def
  plain_call_def budget_for_def IMAGE_MAX_BYTES_def small_names small_stems Let_def

text \<open>Two calls, step by step in turns, next to a file that was there.\<close>

definition two_saves :: save_state where
  "two_saves = run_saves [plain_call ''x'', plain_call ''y''] [0, 1, 0, 1, 1, 0, 1, 1, 1, 0, 0, 0, 1]
     (start_saves (session_writer_new ''images'' ''jpg'') [(''4.jpg'', Some ''old'')] [plain_call ''x'', plain_call ''y''])"

theorem saved_files_are_kept_witness:
  "ss_pcs two_saves = [SavedFile ''6.jpg'', SavedFile ''5.jpg'']
   \<and> {(''4.jpg'', Some ''old''), (''6.jpg'', Some ''x''), (''5.jpg'', Some ''y'')} \<subseteq> set (ss_dir two_saves)"
proof -
  let ?calls = "[plain_call ''x'', plain_call ''y'']" and ?d = "[(''4.jpg'', Some ''old'')]"
  have pcs: "ss_pcs two_saves = [SavedFile ''6.jpg'', SavedFile ''5.jpg'']" by (simp add: two_saves_def saves_compute)
  have kept: "kept_entries ?d = ?d" "greatest_number ?d = 4" by (simp_all add: kept_entries_def greatest_number_def small_stems)
  have "\<forall>c \<in> set ?calls. \<not> sc_scan_fails c \<and> \<not> sc_write_fails c" by (simp add: plain_call_def)
  moreover have "greatest_number (kept_entries ?d) + length ?calls < 2 ^ 32" by (simp add: kept)
  moreover have "\<forall>j < length ?calls. \<not> pc_refused (ss_pcs two_saves ! j)" by (simp add: pcs less_Suc_eq)
  ultimately have r: "set (kept_entries ?d) \<subseteq> set (ss_dir two_saves)
    \<and> (\<forall>j < length ?calls. \<forall>name. ss_pcs two_saves ! j = SavedFile name \<longrightarrow>
         (name, Some (sc_data (?calls ! j))) \<in> set (ss_dir two_saves) \<and> name \<notin> fst ` set (kept_entries ?d)
         \<and> (\<forall>k < length ?calls. k \<noteq> j \<longrightarrow> ss_pcs two_saves ! k \<noteq> SavedFile name))"
    using saved_files_are_kept[OF _ _ two_saves_def] by blast
  have "(''6.jpg'', Some ''x'') \<in> set (ss_dir two_saves)" "(''5.jpg'', Some ''y'') \<in> set (ss_dir two_saves)"
    using r[THEN conjunct2, THEN spec, of 0] r[THEN conjunct2, THEN spec, of 1] by (simp_all add: pcs plain_call_def)
  then show ?thesis using r kept pcs by simp
qed

subsection \<open>Where files are lost\<close>

text \<open>
  A call whose write fails gives back a number from the top of the counter, which may be another call's: the next call takes the
  other's number again and its file replaces that call's.
\<close>

definition failing_call :: save_call where
  "failing_call = \<lparr>sc_data = ''a'', sc_ext = None, sc_scan_fails = False, sc_write_fails = True\<rparr>"

definition three_saves :: save_state where
  "three_saves = run_saves [failing_call, plain_call ''b'', plain_call ''c''] [0, 0, 0, 0, 0, 0, 1, 1, 1, 1, 0, 0, 0, 2, 2, 2, 2]
     (start_saves (session_writer_new ''images'' ''jpg'') [] [failing_call, plain_call ''b'', plain_call ''c''])"

lemma failed_save_costs_a_file:
  "ss_pcs three_saves = [SaveRefused, SavedFile ''2.jpg'', SavedFile ''2.jpg''] \<and> ss_dir three_saves = [(''2.jpg'', Some ''c'')]"
  by (simp add: three_saves_def failing_call_def saves_compute)

text \<open>
  The image writer of the web fetch and that of the image generation count the files of the same directory apart: each looks at the
  directory once, and later saves of the one replace files of the other.
\<close>

definition one_save :: "session_writer \<Rightarrow> session_dir \<Rightarrow> string \<Rightarrow> save_state" where
  "one_save w d data = run_saves [plain_call data] [0, 0, 0, 0, 0, 0, 0] (start_saves w d [plain_call data])"

lemma first_save:
  "one_save (session_writer_new ''images'' ''jpg'') [] ''fetched''
     = \<lparr>ss_writer = \<lparr>sw_dir_name = ''images'', sw_ext = ''jpg'', sw_counter = 1, sw_bytes_written = 7\<rparr>,
        ss_dir = [(''1.jpg'', Some ''fetched'')], ss_pcs = [SavedFile ''1.jpg'']\<rparr>"
  by (simp add: one_save_def saves_compute)

lemma second_save:
  "one_save (session_writer_new ''images'' ''jpg'') [(''1.jpg'', Some ''fetched'')] ''made''
     = \<lparr>ss_writer = \<lparr>sw_dir_name = ''images'', sw_ext = ''jpg'', sw_counter = 2, sw_bytes_written = 11\<rparr>,
        ss_dir = [(''1.jpg'', Some ''fetched''), (''2.jpg'', Some ''made'')], ss_pcs = [SavedFile ''2.jpg'']\<rparr>"
  by (simp add: one_save_def saves_compute)

lemma third_save:
  "one_save \<lparr>sw_dir_name = ''images'', sw_ext = ''jpg'', sw_counter = 1, sw_bytes_written = 7\<rparr>
      [(''1.jpg'', Some ''fetched''), (''2.jpg'', Some ''made'')] ''more''
     = \<lparr>ss_writer = \<lparr>sw_dir_name = ''images'', sw_ext = ''jpg'', sw_counter = 2, sw_bytes_written = 11\<rparr>,
        ss_dir = [(''1.jpg'', Some ''fetched''), (''2.jpg'', Some ''more'')], ss_pcs = [SavedFile ''2.jpg'']\<rparr>"
  by (simp add: one_save_def saves_compute)

lemma writers_of_one_directory_collide:
  "(let fetched = one_save (session_writer_new ''images'' ''jpg'') [] ''fetched'';
        made = one_save (session_writer_new ''images'' ''jpg'') (ss_dir fetched) ''made'';
        more = one_save (ss_writer fetched) (ss_dir made) ''more'' in
    (ss_pcs made, ss_pcs more, ss_dir more))
   = ([SavedFile ''2.jpg''], [SavedFile ''2.jpg''], [(''1.jpg'', Some ''fetched''), (''2.jpg'', Some ''more'')])"
  by (simp add: first_save second_save third_save[unfolded One_nat_def] Let_def)

text \<open>When the directory cannot be read the count begins at one, over files that are there.\<close>

lemma unread_directory_is_overwritten:
  "ss_dir (run_saves [plain_call ''new'' \<lparr>sc_scan_fails := True\<rparr>] [0, 0, 0, 0, 0, 0, 0]
     (start_saves (session_writer_new ''images'' ''jpg'') [(''1.jpg'', Some ''old'')] [plain_call ''new'']))
   = [(''1.jpg'', Some ''new'')]"
  by (simp add: saves_compute)

end
