(* ===== verification/Spec2Isabelle.thy ===== *)
theory Spec2Isabelle
  imports Soft_Breaks Edit_Protection Pattern_Match Rule_Parser Exec_Risk Classifier_Properties Prompter_Properties Breaker_Properties Delivery_Properties Sampling_Properties Hunk_Properties Patch_Properties Edit_Properties Web_Properties Session_Files
begin

text \<open>
  The core of the Astra agent: permissions, model requests, messages, the tools
  that edit files and fetch pages, and the tracking of edits.

  An agent session asks a language model what to do, does it with tools and shows the user what changed.  Five
  parts of the program decide whether that is safe, and this library models them from the source and proves what
  they promise:

  \<^item> the permission engine (crate \<open>xai-grok-workspace\<close>, \<open>src/crates/codegen/xai-grok-workspace/src/permission\<close>), asked before
    the agent reads, edits, fetches, calls an MCP tool or runs a shell script;
  \<^item> the request path to the model (crates \<open>xai-circuit-breaker\<close>, \<open>xai-grok-sampling-types\<close>, \<open>xai-grok-sampler\<close>): which
    errors are retried and how, what a failed attempt leaves for the next;
  \<^item> message delivery (crates \<open>xai-message-delivery-core\<close> and \<open>xai-interjection-core\<close>): who may address a running
    agent, and who owns a message until it is consumed;
  \<^item> the hunk tracker (crate \<open>xai-hunk-tracker\<close>): the hunks between the baseline and the present text of every file,
    their attribution to the agent and its turns, and the user's review of them;
  \<^item> the tools that edit and fetch (crate \<open>xai-grok-tools\<close>, \<open>src/crates/codegen/xai-grok-tools/src/implementations\<close>):
    \<open>apply_patch\<close>, \<open>search_replace\<close>, the \<open>edit\<close> of opencode and \<open>web_fetch\<close>.

  PARTS, IN THE ORDER OF THE THEORIES

  Shared:
  \<^item> \<open>Prelude\<close>, \<open>Rust_Str\<close>, \<open>Paths\<close>: shared lemmas, the operations of Rust's \<open>str\<close> and \<open>Vec\<close> that the code uses, UTF-8,
    lexical paths, and the lines of a text.

  The permission engine:
  \<^item> \<open>Bash_Splitting\<close>, \<open>Wrappers\<close>, \<open>Soft_Breaks\<close>: \<open>bash_command_splitting.rs\<close> and its
    wrapper tables.  A script is parsed by tree-sitter (a parameter) and split into plain commands,
    or refused; a command is peeled of \<open>timeout\<close>, \<open>env\<close>, \<open>nohup\<close> and the like.
  \<^item> \<open>Perm_Types\<close>, \<open>Host\<close>, \<open>Decisions\<close>: the vocabulary (\<open>types.rs\<close>), the environment (parser, file system,
    globs, URLs) as the record \<open>host\<close>, and the combination of verdicts.
  \<^item> \<open>Inline_Shell\<close>, \<open>Pattern_Match\<close>, \<open>Exec_Risk\<close>, \<open>Rule_Parser\<close>: \<open>sh -c\<close> scripts, rule patterns and
    the spellings of a path they are offered, git execution risk, and the textual rules.
  \<^item> \<open>Policy\<close>, \<open>Policy_Properties\<close>: \<open>policy.rs\<close>, the compiled rules and the Bash command gate.
  \<^item> \<open>Shell_Files\<close>, \<open>Shell_Gate\<close>, \<open>Edit_Protection\<close>: \<open>shell_access.rs\<close>, the
    files that a script names by redirects and operands, and the places that always need a
    confirmation.
  \<^item> \<open>Preflight\<close>: \<open>gate_preflight.rs\<close>, the managed verdict on a request with its provenance.
  \<^item> \<open>Findings\<close>, \<open>Env_Risk\<close>, \<open>Safe_Commands\<close>, \<open>Bash_Eval\<close>: the built-in analysis of a script
    (\<open>auto_mode/security_findings.rs\<close>, \<open>auto_mode/mod.rs\<close>, \<open>manager/mod.rs\<close>).
  \<^item> \<open>Tool_Grants\<close>, \<open>Bash_Grants\<close>: the persisted grants and denies (\<open>state.rs\<close>), what an answer
    stores and what a stored grant allows (\<open>manager/bash_grants.rs\<close>, \<open>manager/mod.rs\<close>).
  \<^item> \<open>Auto_Route\<close>, \<open>Manager\<close>, \<open>Manager_Actor\<close>: the permission manager (\<open>manager/mod.rs\<close>).  \<open>Manager\<close> has the stages of
    one request in the order of the source (managed deny, always-approve, grants, auto mode, sandbox,
    managed allow, pre-decisions, prompt policy), \<open>Manager_Actor\<close> the prompt, its answers and the other commands.
  \<^item> \<open>Manager_Properties\<close>, \<open>Manager_Runs\<close>, \<open>Manager_Handles\<close>: the laws of the
    manager, its runs as an inductive relation, and the concurrent handles with their shared flags.
  \<^item> \<open>Routine_Commands\<close>, \<open>Classifier\<close>, \<open>Classifier_Properties\<close>: the auto-mode classifier (\<open>auto_mode/mod.rs\<close>,
    \<open>auto_mode/routine_git.rs\<close>): its rule-based pre-pass, the messages built for the model and the reading of its reply.
  \<^item> \<open>Prompter\<close>, \<open>Prompter_Properties\<close>: which options a prompt offers and what a reply means (\<open>prompter.rs\<close>,
    \<open>hub_permission.rs\<close>).

  The request path:
  \<^item> \<open>Breaker\<close>, \<open>Breaker_Properties\<close>: the circuit breaker, each atomic operation a step, and its calls
    alone and interleaved.
  \<^item> \<open>Sampling_Errors\<close>, \<open>Conversation\<close>: the errors of a request and what they say on retrying; conversation items,
    responses, the length policy and doom-loop reports.
  \<^item> \<open>Recovery\<close>, \<open>Recovery_Properties\<close>: what a failed response leaves for the next attempt (\<open>doom_loop_recovery.rs\<close>).
  \<^item> \<open>Sampling_Task\<close>, \<open>Sampling_Properties\<close>: the retry loop of one request (\<open>actor/request_task.rs\<close>, \<open>retry.rs\<close>), its events
    and its result.

  Messages:
  \<^item> \<open>Delivery\<close>, \<open>Delivery_Properties\<close>: agent tokens and addresses, the ownership of messages, and interjections.

  The hunk tracker:
  \<^item> \<open>Hunks\<close>: hunks and their computation (\<open>types.rs\<close>, \<open>diff.rs\<close>, \<open>file_utils.rs\<close>).
  \<^item> \<open>Hunk_Tracker\<close>, \<open>Hunk_Actions\<close>: the actor (\<open>actor\<close>): its state, the recomputation of a file's hunks with their
    attribution, file events, refreshes against git, accepting and rejecting, queries.
  \<^item> \<open>Hunk_Session\<close>: snapshots, commands, the batching of notifications, the working directory, the checkpoint
    store, and the attribution of lines (\<open>loc/mod.rs\<close>).
  \<^item> \<open>Hunk_Review\<close>: replacing line ranges, and what the user's review does to the two texts.
  \<^item> \<open>Hunk_Handlers\<close>, \<open>Hunk_Runs\<close>: the well-formedness of the state, kept by every handler, over all runs.
  \<^item> \<open>Hunk_Properties\<close>: what the tracker guarantees, and runs that show where it falls short of its
    comments.

  The tools that edit files:
  \<^item> \<open>Tool_Files\<close>: the files a tool reads and writes
    (\<open>computer/types.rs\<close>, the memory guard of \<open>types/memory_v2.rs\<close>, the notifications).
  \<^item> \<open>Patch_Parser\<close>, \<open>Patch_Apply\<close>, \<open>Patch_Tool\<close>: \<open>codex/apply_patch\<close>, from the text of a patch to the written files;
    \<open>Patch_Properties\<close>: what it guarantees and where it falls short.
  \<^item> \<open>Str_Edit\<close>, \<open>Edit_Tools\<close>: \<open>grok_build/search_replace\<close> with its legacy version, \<open>opencode/edit\<close> and
    the look-alike characters of \<open>util/unicode_confusables.rs\<close>; \<open>Edit_Properties\<close>: what they guarantee.

  The web fetch (\<open>grok_build/web_fetch\<close>):
  \<^item> \<open>Ip_Addr\<close>: the addresses of \<open>std::net\<close>, as parsed and printed.
  \<^item> \<open>Web_Ssrf\<close>: the guard against internal addresses (\<open>ssrf.rs\<close>) and the ranges it amounts to.
  \<^item> \<open>Web_Overflow\<close>, \<open>Web_Artifacts\<close>, \<open>Session_Files\<close>: the text of a page (\<open>client.rs\<close>), its preview
    (\<open>overflow.rs\<close>), the artifact it is kept in (\<open>artifact.rs\<close>) and the numbered files of a session (\<open>storage.rs\<close>).
  \<^item> \<open>Web_Fetch\<close>: the client, its redirects and its cache; \<open>Web_Properties\<close>: what it guarantees and where
    it falls short.

  HOW THEY INTERACT

  \<open>handle_request\<close> gathers the \<open>facts\<close> of a request: the preflight of the managed policy (which calls the direct
  rules, the Bash command gate and the shell file gate), the evaluation of a script and the guarded
  target; then the stages decide, each with the code's own guard.  The actor's state is the record
  \<open>actor\<close>; what reaches it from outside during a request (a changed store, a classifier's verdict, the
  user's answer, a requester that leaves) is the record \<open>surroundings\<close>, over which every theorem is
  quantified.  The classifier's verdict is what \<open>Classifier\<close> reads from a reply of the model, the user's answer what
  \<open>Prompter\<close> reads from a reply to the prompt.

  The retry loop takes what each attempt yields as a parameter; errors tell it whether and how to retry, the
  breaker sheds requests before they are sent, and \<open>Recovery\<close> turns a failed response into text for the next attempt.

  The hunk tracker is told of every change of a file, by the agent's tools (with the text written) and by the file
  system; a session takes snapshots of it at each turn and rewinds to them, and the hunks it accepts or rejects are
  reported to the attribution sink.

  The three edit tools turn a text of the model into a new text of a file by a pure computation, write it through \<open>Tool_Files\<close>
  (which refuses the files of the memory) and report the write, which is what the hunk tracker hears of.  A web fetch is
  decided by the permission engine first (\<open>Tool_Grants\<close> has the matcher of domains both use); the client then checks every
  address before a request is sent to it, follows redirects one checked request at a time, and saves what does not fit
  the reply through \<open>Web_Artifacts\<close> (text) or \<open>Session_Files\<close> (media).

  WHAT THE LEMMAS SHOW

  \<^item> Managed rules: deny over ask over allow; a denied command or file is denied wherever a script runs or
    names it to a program the gate knows; an allow covers what a script runs, except where more than sixteen words hide
    a packed script; symbolic links only add severity; a rule match
    is never left to the classifier.
  \<^item> Built-in analysis: when a script runs without a prompt, when it is rejected, and with which message.
  \<^item> Grants: a remembered deny wins over grants, a broad grant respects the floors, an answer stores exactly
    its label, saving loses nothing.
  \<^item> The manager: a managed deny is final in every mode; hook asks, ask rules (with listed exceptions), whatever auto
    mode stops, and guarded targets (unless everything is allowed) reach the user; every request is answered; the actor's invariant; the published modes
    settle under any interleaving of handles.
  \<^item> The classifier and the prompt: what an allow rests on; untrusted text opens no section of the classifier's prompt
    with a line of its own; no reply, however forged, grants more than the request it answers.
  \<^item> The breaker: its window is the recent history, it trips as configured, it recovers from every state, and its
    counters stay sound under any interleaving.
  \<^item> Requests: the retry loop ends, with one terminal event that agrees with its result; it never retries behind output
    that was handed over; what a failed attempt adds is bounded.
  \<^item> Messages: tokens of different kinds are distinct, only an owned and live address resolves, no message is lost or
    delivered twice.
  \<^item> Hunks: the state stays well formed over all runs that restore only their own snapshots; the index of turns answers
    as a scan would, as long as writes succeed; on regular texts rejecting restores the baseline and accepting adopts the
    present text; the attribution of a rejected hunk cancels out; batches are faithful.
  \<^item> Patches: a printed patch parses back; a patch printed from an edit script is carried out; only
    the files a patch names change, and none does when one of its operations cannot be computed.
  \<^item> Edits: on regular text files an edit is applied exactly or nothing changes; the two edit tools agree on files
    without CRLF; the span
    replaced for look-alike characters is one the model could have meant.
  \<^item> Web fetch: every request goes to an address that passed its check, also behind redirects; the guard closes exactly
    the listed ranges; a preview stays within its budget; concurrent saves of one writer keep apart.

  Each of these is stated with its conditions at its theorem; where the code does less than its comments say, a lemma
  shows it on a concrete input next to the theorem it bounds.

  BOUNDS

  Those of the code, as the code has them: wrapper nesting 8 and transparent wrappers 8, 16 rounds of
  normalisation, inline shells 8 deep, 40 symbolic links, 8 rounds of environment prefixes, 5 segment grants,
  3 denials in a row and 20 in all, 12 recorded decisions; 10000 entries of a breaker's window; budgets of 8192 and 4096
  bytes with a marker of 15, 64 doom-loop signals of 256 bytes, 16 recovery attempts, 15 retries unless configured;
  files of 1 MB, 8000 bytes searched for a binary one, 1024 bytes of a large-file pointer, 3 lines of context, statistics
  that saturate at 64 bits; hints of 200 bytes, 8 listed lines and file names of 255 bytes; URLs of 2000 bytes, 10 redirects
  and so at most 11 requests, 120 bytes of a data header and 4 of its payload, 1 GiB of artifacts, counters of 10
  digits, sizes that wrap around or saturate at 32 and 64 bits as in the code.  Where the code reports an exhausted bound (a flag
  or a fail-closed answer) so does the model, and the theorems say what follows.  The retry loop runs with the fuel
  \<open>max_retries\<close> plus the limit of doom-loop recoveries plus one, shown to be enough; otherwise no fuel is used: loops
  of the source are structural or terminate by a measure.

  CONVENTIONS

  Strings are byte strings, one \<open>char\<close> per UTF-8 byte; a \<open>HashSet\<close> is a list without order in any theorem, a \<open>BTreeMap\<close>
  a sorted association list, a \<open>HashMap\<close> whose iteration order shows an association list in that order; paths are
  Unix paths, compared by spelling in the hunk tracker.  Atomics of the breaker are sequentially consistent, its times
  are in nanoseconds; durations of the sampler are in milliseconds; line numbers are natural numbers.
  The files of the tools are a map from nodes, to which the file system resolves paths; a write that fails may leave
  anything in its file and nothing elsewhere.  The 3 percent of a budget that the code takes in \<open>f64\<close> is the exact
  product rounded to 53 bits.
  Code outside the repository is a parameter: the tree-sitter parse, the file system, globs, URL
  parsing, regular expressions and case folding (record \<open>host\<close>), the home directory and JSON printing
  (\<open>manager_config\<close>), the model and the user (\<open>surroundings\<close>), JSON parsing, the jitter's hash and the server's
  replies; for the hunk tracker the line diff of the crate \<open>similar\<close> and the supply of ids (record \<open>hunk_lib\<close>, the ids
  distinct), and the disk, git and the clock of one command (record \<open>hunk_world\<close>; the disk does not change within a command);
  for the web fetch the parsed URLs (a record of the crate \<open>url\<close>, relied on to set the scheme), and the resolver, the servers
  and the clock, whose answers may depend on everything that was asked before.

  NOT MODELLED

  Tracing, telemetry, metrics and timing; the wording of prompts and option labels, the ACP messages that carry them, and
  the system prompt of the classifier; the discovery of the store's directory; loading managed
  policy files and Claude settings; Windows paths; the sampler's HTTP client, its stream transforms and conversions to
  wire formats; the hunk tracker's unified patches, the channel behind its handle and the writer of its log of events; the conversion of HTML to
  Markdown and the descriptions of the tools for the model.
  The other tools and crates of the repository (terminal UI, shell, terminals, telemetry, indexing) are outside this library;
  \<open>PROJECT.json\<close> lists them.
\<close>

end
